(* ===== verification/Prelude.thy ===== *)
theory Prelude
  imports Main "HOL-Library.Word"
begin

text \<open>
  Shared vocabulary of the development: the machine integers of the Rust code as words, the
  saturating and clamping operations of the Rust standard library on them, Rust strings as lists
  of Unicode scalar values, results as sums, and the generic lemmas the components share.
  A \<open>usize\<close> that is a length or a count of in-memory elements is a \<open>nat\<close>.
\<close>

unbundle bit_operations_syntax

section \<open>Machine integers\<close>

type_synonym u8 = "8 word"
type_synonym u16 = "16 word"
type_synonym u32 = "32 word"
type_synonym u64 = "64 word"

text \<open>A signed 64-bit value is kept as its two's complement word; \<open>sint\<close> reads it.\<close>

type_synonym i64 = "64 word"
type_synonym i16 = "16 word"

text \<open>Facts that read the word operations of the code as operations on natural numbers.\<close>

named_theorems word_nat

definition sat_add :: "'a::len word \<Rightarrow> 'a word \<Rightarrow> 'a word" where
  "sat_add a b = (if unat a + unat b < 2 ^ LENGTH('a) then a + b else - 1)"

definition sat_sub :: "'a::len word \<Rightarrow> 'a word \<Rightarrow> 'a word" where
  "sat_sub a b = (if b \<le> a then a - b else 0)"

definition sat_mul :: "'a::len word \<Rightarrow> 'a word \<Rightarrow> 'a word" where
  "sat_mul a b = (if unat a * unat b < 2 ^ LENGTH('a) then a * b else - 1)"

definition clampw :: "'a::len word \<Rightarrow> 'a word \<Rightarrow> 'a word \<Rightarrow> 'a word" where
  "clampw lo hi x = (if x < lo then lo else if hi < x then hi else x)"

definition div_ceil :: "nat \<Rightarrow> nat \<Rightarrow> nat" where
  "div_ceil a b = a div b + (if a mod b = 0 then 0 else 1)"

lemma unat_neg_one: "unat (- 1 :: 'a::len word) = 2 ^ LENGTH('a) - 1"
  by (simp add: unsigned_minus_1_eq_mask mask_eq_exp_minus_1)

lemma unat_sat_add [word_nat]:
  "unat (sat_add a b) = min (unat a + unat b) (2 ^ LENGTH('a) - 1)" for a b :: "'a::len word"
  unfolding sat_add_def by (auto simp: unat_word_ariths unat_neg_one)

lemma unat_sat_sub [word_nat]: "unat (sat_sub a b) = unat a - unat b"
  unfolding sat_sub_def by (auto simp: unat_sub word_le_nat_alt)

lemma unat_sat_mul [word_nat]:
  "unat (sat_mul a b) = min (unat a * unat b) (2 ^ LENGTH('a) - 1)" for a b :: "'a::len word"
  unfolding sat_mul_def by (auto simp: unat_word_ariths unat_neg_one)

lemma sat_add_ge: "a \<le> sat_add a b" for a b :: "'a::len word"
proof -
  have "unat a < 2 ^ LENGTH('a)" by (rule unsigned_less)
  then have "unat a \<le> 2 ^ LENGTH('a) - 1" by linarith
  then show ?thesis by (simp add: word_le_nat_alt word_nat)
qed

lemma clampw_bounds: "lo \<le> hi \<Longrightarrow> lo \<le> clampw lo hi x \<and> clampw lo hi x \<le> hi"
  by (auto simp: clampw_def not_less)

lemma clampw_id: "lo \<le> x \<Longrightarrow> x \<le> hi \<Longrightarrow> clampw lo hi x = x"
  by (auto simp: clampw_def not_less)

lemma div_ceil_mult_ge: "0 < b \<Longrightarrow> a \<le> div_ceil a b * b"
proof -
  assume "0 < b"
  then have less: "a mod b < b" by simp
  have eq: "a = a div b * b + a mod b" by simp
  show ?thesis
  proof (cases "a mod b = 0")
    case True
    with eq show ?thesis by (simp add: div_ceil_def)
  next
    case False
    have "a \<le> a div b * b + b" using eq less by linarith
    with False show ?thesis by (simp add: div_ceil_def)
  qed
qed

lemma div_ceil_pred_less: "0 < b \<Longrightarrow> 0 < a \<Longrightarrow> (div_ceil a b - 1) * b < a"
proof -
  assume b: "0 < b" and a: "0 < a"
  show ?thesis
  proof (cases "a mod b = 0")
    case True
    then have eq: "a = a div b * b" using div_mult_mod_eq [of a b] by simp
    with a have "0 < a div b" by (metis mult_0 not_gr_zero)
    then have "(a div b - 1) * b < a div b * b"
      using b by (intro mult_strict_right_mono) auto
    with eq True show ?thesis by (simp add: div_ceil_def)
  next
    case False
    then have "a div b * b < a" using div_mult_mod_eq [of a b] by linarith
    with False show ?thesis by (simp add: div_ceil_def)
  qed
qed

lemma of_nat_unat_le: "n < 2 ^ LENGTH('a) \<Longrightarrow> unat (of_nat n :: 'a::len word) = n"
  by (simp add: unsigned_of_nat take_bit_nat_eq_self)

lemma unat_eq_of_nat: "unat x = n \<Longrightarrow> x = of_nat n" for x :: "'a::len word"
  by auto

lemma unat_u16_less: "unat (x :: u16) < 65536"
  by (rule order_less_le_trans [OF unsigned_less]) simp

lemma unat_u32_less: "unat (x :: u32) < 4294967296"
  by (rule order_less_le_trans [OF unsigned_less]) simp

section \<open>Strings of Unicode scalar values\<close>

text \<open>A Rust \<open>char\<close> is a Unicode scalar value; a \<open>String\<close> is a list of them.\<close>

type_synonym rchar = nat
type_synonym rstring = "rchar list"

definition lit :: "string \<Rightarrow> rstring" where
  "lit s = map of_char s"

lemma lit_eq_iff [simp]: "lit s = lit t \<longleftrightarrow> s = t"
proof
  assume "lit s = lit t"
  then have "map of_char s = (map of_char t :: nat list)" by (simp add: lit_def)
  then show "s = t" by (rule map_injective) (simp add: inj_def)
qed simp

text \<open>\<open>char::is_whitespace\<close>: the Unicode property White\_Space.\<close>

definition is_whitespace :: "rchar \<Rightarrow> bool" where
  "is_whitespace c \<longleftrightarrow>
     (9 \<le> c \<and> c \<le> 13) \<or> c = 32 \<or> c = 133 \<or> c = 160 \<or> c = 5760 \<or> (8192 \<le> c \<and> c \<le> 8202) \<or>
     c = 8232 \<or> c = 8233 \<or> c = 8239 \<or> c = 8287 \<or> c = 12288"

text \<open>\<open>char::is_control\<close>: the Unicode general category Cc.\<close>

definition is_control :: "rchar \<Rightarrow> bool" where
  "is_control c \<longleftrightarrow> c \<le> 31 \<or> (127 \<le> c \<and> c \<le> 159)"

definition trim_start :: "rstring \<Rightarrow> rstring" where
  "trim_start s = dropWhile is_whitespace s"

definition trim_end :: "rstring \<Rightarrow> rstring" where
  "trim_end s = rev (dropWhile is_whitespace (rev s))"

definition trim :: "rstring \<Rightarrow> rstring" where
  "trim s = trim_end (trim_start s)"

text \<open>Decimal rendering of an unsigned integer, as \<open>format!("{}")\<close> does.\<close>

fun dec :: "nat \<Rightarrow> rstring" where
  "dec n = (if n < 10 then [48 + n] else dec (n div 10) @ [48 + n mod 10])"

declare dec.simps [simp del]

lemma dec_not_Nil [simp]: "dec n \<noteq> []"
  by (subst dec.simps) simp

lemma set_dec: "c \<in> set (dec n) \<Longrightarrow> 48 \<le> c \<and> c \<le> 57"
proof (induction n rule: dec.induct)
  case (1 n)
  show ?case
  proof (cases "n < 10")
    case True
    with "1.prems" show ?thesis by (simp add: dec.simps [of n])
  next
    case False
    with "1.prems" have "c \<in> set (dec (n div 10)) \<or> c = 48 + n mod 10"
      by (auto simp: dec.simps [of n])
    with "1.IH" [OF False] show ?thesis by auto
  qed
qed

lemma set_dropWhile_subset: "set (dropWhile P xs) \<subseteq> set xs"
  by (auto dest: set_dropWhileD)

lemma set_trim_subset: "set (trim s) \<subseteq> set s"
  by (auto simp: trim_def trim_end_def trim_start_def dest!: set_dropWhileD)

lemma length_trim_le: "length (trim s) \<le> length s"
  unfolding trim_def trim_end_def trim_start_def
  by (metis (no_types) length_dropWhile_le length_rev order_trans)

section \<open>Results\<close>

text \<open>
  A fallible function returns \<open>Inl\<close> of its error or \<open>Inr\<close> of its value. \<open>and_then\<close> is the
  \<open>?\<close> operator: the error returns early, the value goes on.
\<close>

fun and_then :: "'e + 'a \<Rightarrow> ('a \<Rightarrow> 'e + 'b) \<Rightarrow> 'e + 'b" where
  "and_then (Inl e) f = Inl e"
| "and_then (Inr a) f = f a"

fun map_err :: "('e \<Rightarrow> 'f) \<Rightarrow> 'e + 'a \<Rightarrow> 'f + 'a" where
  "map_err g (Inl e) = Inl (g e)"
| "map_err g (Inr a) = Inr a"

lemma and_then_Inr: "and_then r f = Inr b \<longleftrightarrow> (\<exists>a. r = Inr a \<and> f a = Inr b)"
  by (cases r) auto

lemma and_then_Inl: "and_then r f = Inl e \<longleftrightarrow> r = Inl e \<or> (\<exists>a. r = Inr a \<and> f a = Inl e)"
  by (cases r) auto

lemma map_err_Inr [simp]: "map_err g r = Inr b \<longleftrightarrow> r = Inr b"
  by (cases r) auto

lemma map_err_Inl: "map_err g r = Inl e \<longleftrightarrow> (\<exists>x. r = Inl x \<and> e = g x)"
  by (cases r) auto

text \<open>A call that may panic besides returning an error: the panic is a value of its own.\<close>

datatype 'e fault = Panic | Err 'e

section \<open>Lists\<close>

fun find_map :: "('a \<Rightarrow> 'b option) \<Rightarrow> 'a list \<Rightarrow> 'b option" where
  "find_map f [] = None"
| "find_map f (x # xs) = (case f x of None \<Rightarrow> find_map f xs | Some y \<Rightarrow> Some y)"

lemma find_map_None: "find_map f xs = None \<longleftrightarrow> (\<forall>x \<in> set xs. f x = None)"
  by (induction xs) (auto split: option.splits)

lemma find_map_SomeD: "find_map f xs = Some y \<Longrightarrow> \<exists>x \<in> set xs. f x = Some y"
  by (induction xs) (auto split: option.splits)

lemma find_map_unique:
  "x \<in> set xs \<Longrightarrow> f x = Some y \<Longrightarrow> (\<And>x' y'. x' \<in> set xs \<Longrightarrow> f x' = Some y' \<Longrightarrow> y' = y) \<Longrightarrow>
   find_map f xs = Some y"
proof -
  assume x: "x \<in> set xs" "f x = Some y"
    and u: "\<And>x' y'. x' \<in> set xs \<Longrightarrow> f x' = Some y' \<Longrightarrow> y' = y"
  from x have "find_map f xs \<noteq> None" unfolding find_map_None by force
  then obtain y' where y': "find_map f xs = Some y'" by blast
  from find_map_SomeD [OF this] u have "y' = y" by blast
  with y' show ?thesis by simp
qed

lemma find_map_cong: "(\<And>x. x \<in> set xs \<Longrightarrow> f x = g x) \<Longrightarrow> find_map f xs = find_map g xs"
  by (induction xs) (auto split: option.splits)

lemma find_map_map: "find_map f (map g xs) = find_map (f \<circ> g) xs"
  by (induction xs) (auto split: option.splits)

end
