(* ===== verification/Byte_Buf.thy ===== *)
theory Byte_Buf
  imports Prelude
begin

text \<open>
  The big-endian integer fields of the \<open>bytes\<close> buffers (\<open>put_u8\<close> .. \<open>put_u64\<close> and the
  matching \<open>get_\<close> calls, which panic when the buffer is too short). The locale \<open>field_codec\<close> is
  what the packet codec relies on; the four widths interpret it.
\<close>

type_synonym bytes = "u8 list"

section \<open>Big-endian numbers\<close>

fun put_be :: "nat \<Rightarrow> nat \<Rightarrow> bytes" where
  "put_be 0 v = []"
| "put_be (Suc n) v = put_be n (v div 256) @ [of_nat v]"

definition get_be :: "bytes \<Rightarrow> nat" where
  "get_be bs = foldl (\<lambda>acc b. acc * 256 + unat b) 0 bs"

lemma length_put_be [simp]: "length (put_be n v) = n"
  by (induction n arbitrary: v) auto

lemma get_be_snoc: "get_be (bs @ [b]) = get_be bs * 256 + unat b"
  by (simp add: get_be_def)

lemma get_put_be: "get_be (put_be n v) = v mod 256 ^ n"
proof (induction n arbitrary: v)
  case 0
  show ?case by (simp add: get_be_def)
next
  case (Suc n)
  have "unat (of_nat v :: u8) = v mod 256" by (simp add: unsigned_of_nat take_bit_eq_mod)
  with Suc show ?case by (simp add: get_be_snoc mod_mult2_eq [of v 256])
qed

lemma put_get_be: "put_be (length bs) (get_be bs) = bs"
proof (induction bs rule: rev_induct)
  case (snoc b bs)
  have "unat b < 256" using unsigned_less [of b] by simp
  then have "(get_be bs * 256 + unat b) div 256 = get_be bs" by simp
  moreover have "(of_nat (get_be bs * 256 + unat b) :: u8) = b"
  proof -
    have zero: "(256 :: u8) = 0" by simp
    have "(of_nat (get_be bs * 256 + unat b) :: u8) = of_nat (get_be bs) * 256 + b"
      by simp
    then show ?thesis by (simp only: zero mult_zero_right add_0)
  qed
  ultimately show ?case using snoc by (simp add: get_be_snoc)
qed (simp add: get_be_def)

lemma get_be_less: "get_be bs < 256 ^ length bs"
proof (induction bs rule: rev_induct)
  case (snoc b bs)
  have "unat b < 256" using unsigned_less [of b] by simp
  with snoc show ?case by (simp add: get_be_snoc)
qed (simp add: get_be_def)

section \<open>The fields\<close>

definition put_u8 :: "u8 \<Rightarrow> bytes" where
  "put_u8 x = [x]"

definition put_u16 :: "u16 \<Rightarrow> bytes" where
  "put_u16 x = put_be 2 (unat x)"

definition put_u32 :: "u32 \<Rightarrow> bytes" where
  "put_u32 x = put_be 4 (unat x)"

definition put_u64 :: "u64 \<Rightarrow> bytes" where
  "put_u64 x = put_be 8 (unat x)"

text \<open>\<open>None\<close> is the panic of a read past the end of the buffer.\<close>

definition get_u8 :: "bytes \<Rightarrow> (u8 \<times> bytes) option" where
  "get_u8 bs = (case bs of [] \<Rightarrow> None | b # r \<Rightarrow> Some (b, r))"

definition get_u16 :: "bytes \<Rightarrow> (u16 \<times> bytes) option" where
  "get_u16 bs = (if length bs < 2 then None else Some (of_nat (get_be (take 2 bs)), drop 2 bs))"

definition get_u32 :: "bytes \<Rightarrow> (u32 \<times> bytes) option" where
  "get_u32 bs = (if length bs < 4 then None else Some (of_nat (get_be (take 4 bs)), drop 4 bs))"

definition get_u64 :: "bytes \<Rightarrow> (u64 \<times> bytes) option" where
  "get_u64 bs = (if length bs < 8 then None else Some (of_nat (get_be (take 8 bs)), drop 8 bs))"

section \<open>The contract of a fixed-width field\<close>

locale field_codec =
  fixes put :: "'a \<Rightarrow> bytes"
    and get :: "bytes \<Rightarrow> ('a \<times> bytes) option"
    and width :: nat
  assumes get_put: "get (put x @ r) = Some (x, r)"
    and put_get: "get bs = Some (x, r) \<Longrightarrow> bs = put x @ r"
    and put_length: "length (put x) = width"
    and get_enough: "width \<le> length bs \<Longrightarrow> get bs \<noteq> None"
begin

lemma get_short: "length bs < width \<Longrightarrow> get bs = None"
proof (cases "get bs")
  case (Some p)
  assume "length bs < width"
  moreover obtain x r where "get bs = Some (x, r)" using Some by (cases p) auto
  ultimately show ?thesis using put_get put_length by (metis length_append linorder_not_le le_add1)
qed

lemma get_length: "get bs = Some (x, r) \<Longrightarrow> length bs = width + length r"
  using put_get [of bs x r] put_length [of x] by simp

lemma get_Some: "width \<le> length bs \<Longrightarrow> \<exists>x r. get bs = Some (x, r) \<and> length bs = width + length r"
proof -
  assume "width \<le> length bs"
  then obtain x r where "get bs = Some (x, r)" using get_enough by fastforce
  then show ?thesis using get_length by blast
qed

lemma get_None: "get bs = None \<longleftrightarrow> length bs < width"
  using get_enough [of bs] get_short [of bs] by (meson not_le)

lemma put_inject: "put x @ r = put y @ s \<longleftrightarrow> x = y \<and> r = s"
proof
  assume "put x @ r = put y @ s"
  then have "get (put x @ r) = get (put y @ s)" by simp
  then show "x = y \<and> r = s" by (simp only: get_put option.inject prod.inject)
qed simp

end

lemma be_field:
  fixes put :: "'a::len word \<Rightarrow> bytes" and get :: "bytes \<Rightarrow> ('a word \<times> bytes) option"
  assumes n: "256 ^ n = (2 :: nat) ^ LENGTH('a)"
    and put: "put = (\<lambda>x. put_be n (unat x))"
    and get: "get = (\<lambda>bs. if length bs < n then None
                          else Some (of_nat (get_be (take n bs)), drop n bs))"
  shows "field_codec put get n"
proof
  fix x :: "'a word" and r :: bytes
  have "unat x < 256 ^ n" using unsigned_less [of x] n by simp
  then show "get (put x @ r) = Some (x, r)" by (simp add: put get get_put_be)
next
  fix bs r :: bytes and x :: "'a word"
  assume "get bs = Some (x, r)"
  then have len: "n \<le> length bs" and x: "x = of_nat (get_be (take n bs))" and r: "r = drop n bs"
    by (auto simp: get split: if_splits)
  have "get_be (take n bs) < 2 ^ LENGTH('a)" using get_be_less [of "take n bs"] len n by simp
  then have "unat x = get_be (take n bs)" by (simp add: x of_nat_unat_le)
  then have "put x = take n bs" using put_get_be [of "take n bs"] len by (simp add: put)
  with r show "bs = put x @ r" by simp
qed (simp_all add: put get)

interpretation u8f: field_codec put_u8 get_u8 1
  by unfold_locales (auto simp: put_u8_def get_u8_def split: list.splits)

interpretation u16f: field_codec put_u16 get_u16 2
  by (rule be_field) (simp_all add: fun_eq_iff put_u16_def get_u16_def)

interpretation u32f: field_codec put_u32 get_u32 4
  by (rule be_field) (simp_all add: fun_eq_iff put_u32_def get_u32_def)

interpretation u64f: field_codec put_u64 get_u64 8
  by (rule be_field) (simp_all add: fun_eq_iff put_u64_def get_u64_def)

lemmas field_get_put [simp] = u8f.get_put u16f.get_put u32f.get_put u64f.get_put

lemmas field_put_length [simp] =
  u8f.put_length u16f.put_length u32f.put_length u64f.put_length

lemmas field_put_get = u8f.put_get u16f.put_get u32f.put_get u64f.put_get

lemmas field_get_None = u8f.get_None u16f.get_None u32f.get_None u64f.get_None

lemmas field_get_length = u8f.get_length u16f.get_length u32f.get_length u64f.get_length

end
