(* ===== verification/Packet.thy ===== *)
theory Packet
  imports Byte_Buf
begin

text \<open>
  The media packet of \<open>crates/protocol/src/packet.rs\<close> and the codec identifiers of
  \<open>codec.rs\<close>: the 81-byte header, its validation, encoding and decoding. A record field
  \<open>h_x\<close> is the field \<open>x\<close> of \<open>MediaPacketHeader\<close>.
\<close>

section \<open>Codec identifiers and packet types\<close>

definition PROTOCOL_VERSION :: u8 where
  "PROTOCOL_VERSION = 1"

datatype codec_id = H264 | Av1 | Hevc | Opus

datatype unknown_codec = UnknownCodecId (unknown_codec_0: u8)

definition codec_try_from :: "u8 \<Rightarrow> unknown_codec + codec_id" where
  "codec_try_from v =
     (if v = 1 then Inr H264 else if v = 2 then Inr Av1 else if v = 3 then Inr Hevc
      else if v = 16 then Inr Opus else Inl (UnknownCodecId v))"

fun codec_to_u8 :: "codec_id \<Rightarrow> u8" where
  "codec_to_u8 H264 = 1"
| "codec_to_u8 Av1 = 2"
| "codec_to_u8 Hevc = 3"
| "codec_to_u8 Opus = 16"

definition MEDIA_PACKET_HEADER_LEN :: nat where
  "MEDIA_PACKET_HEADER_LEN = 81"

definition DEFAULT_DATAGRAM_PAYLOAD_TARGET :: nat where
  "DEFAULT_DATAGRAM_PAYLOAD_TARGET = 1150"

datatype packet_type = Video | Audio | Probe

datatype packet_decode_error =
    TooShort nat nat
  | PayloadTooShort nat nat
  | TrailingBytes nat nat
  | UnsupportedVersion u8
  | UnsupportedHeaderLength nat
  | UnknownPacketType u8
  | UnknownCodec u8
  | InvalidFragment u16 u16
  | UnsupportedLayer u8
  | InvalidPacketCodec packet_type codec_id

datatype packet_encode_error =
    PayloadTooLarge nat
  | PayloadLengthMismatch nat nat
  | InvalidHeader packet_decode_error

definition packet_type_try_from :: "u8 \<Rightarrow> packet_decode_error + packet_type" where
  "packet_type_try_from v =
     (if v = 1 then Inr Video else if v = 2 then Inr Audio else if v = 3 then Inr Probe
      else Inl (UnknownPacketType v))"

fun packet_type_to_u8 :: "packet_type \<Rightarrow> u8" where
  "packet_type_to_u8 Video = 1"
| "packet_type_to_u8 Audio = 2"
| "packet_type_to_u8 Probe = 3"

lemma codec_try_from_to_u8 [simp]: "codec_try_from (codec_to_u8 c) = Inr c"
  by (cases c) (simp_all add: codec_try_from_def)

lemma codec_try_from_Inr: "codec_try_from v = Inr c \<Longrightarrow> v = codec_to_u8 c"
  by (auto simp: codec_try_from_def split: if_splits)

lemma packet_type_try_from_to_u8 [simp]: "packet_type_try_from (packet_type_to_u8 t) = Inr t"
  by (cases t) (simp_all add: packet_type_try_from_def)

lemma packet_type_try_from_Inr: "packet_type_try_from v = Inr t \<Longrightarrow> v = packet_type_to_u8 t"
  by (auto simp: packet_type_try_from_def split: if_splits)

section \<open>Flags\<close>

type_synonym packet_flags = u8

definition KEYFRAME :: u8 where "KEYFRAME = 1"
definition END_OF_FRAME :: u8 where "END_OF_FRAME = 2"
definition CONFIG_FLAG :: u8 where "CONFIG_FLAG = 4"
definition DISCARDABLE :: u8 where "DISCARDABLE = 8"

definition flags_empty :: packet_flags where
  "flags_empty = 0"

definition flags_from_bits :: "u8 \<Rightarrow> packet_flags" where
  "flags_from_bits b = b"

definition flags_bits :: "packet_flags \<Rightarrow> u8" where
  "flags_bits f = f"

definition flags_contains :: "packet_flags \<Rightarrow> u8 \<Rightarrow> bool" where
  "flags_contains f flag \<longleftrightarrow> f AND flag \<noteq> 0"

definition flags_with :: "packet_flags \<Rightarrow> u8 \<Rightarrow> packet_flags" where
  "flags_with f flag = f OR flag"

section \<open>The header\<close>

record media_packet_header =
  h_version :: u8
  h_packet_type :: packet_type
  h_flags :: packet_flags
  h_room_stream_id :: u32
  h_sequence_number :: u32
  h_frame_id :: u32
  h_fragment_index :: u16
  h_fragment_count :: u16
  h_media_timestamp :: u64
  h_sender_capture_time_micros :: u64
  h_sender_clock_offset_micros :: i64
  h_sender_encode_done_time_micros :: u64
  h_sender_send_time_micros :: u64
  h_server_receive_time_micros :: u64
  h_server_send_time_micros :: u64
  h_codec :: codec_id
  h_layer :: u8
  h_payload_length :: u16

definition header_new ::
  "packet_type \<Rightarrow> codec_id \<Rightarrow> u32 \<Rightarrow> u32 \<Rightarrow> u16 \<Rightarrow> media_packet_header" where
  "header_new packet_type codec room_stream_id sequence_number payload_length =
     \<lparr>h_version = PROTOCOL_VERSION, h_packet_type = packet_type, h_flags = flags_empty,
      h_room_stream_id = room_stream_id, h_sequence_number = sequence_number, h_frame_id = 0,
      h_fragment_index = 0, h_fragment_count = 1, h_media_timestamp = 0,
      h_sender_capture_time_micros = 0, h_sender_clock_offset_micros = 0,
      h_sender_encode_done_time_micros = 0, h_sender_send_time_micros = 0,
      h_server_receive_time_micros = 0, h_server_send_time_micros = 0, h_codec = codec,
      h_layer = 0, h_payload_length = payload_length\<rparr>"

definition header_encode :: "media_packet_header \<Rightarrow> bytes" where
  "header_encode h =
     put_u8 (h_version h) @
     put_u8 (packet_type_to_u8 (h_packet_type h)) @
     put_u8 (flags_bits (h_flags h)) @
     put_u16 (of_nat MEDIA_PACKET_HEADER_LEN) @
     put_u32 (h_room_stream_id h) @
     put_u32 (h_sequence_number h) @
     put_u32 (h_frame_id h) @
     put_u16 (h_fragment_index h) @
     put_u16 (h_fragment_count h) @
     put_u64 (h_media_timestamp h) @
     put_u64 (h_sender_capture_time_micros h) @
     put_u64 (h_sender_clock_offset_micros h) @
     put_u64 (h_sender_encode_done_time_micros h) @
     put_u64 (h_sender_send_time_micros h) @
     put_u64 (h_server_receive_time_micros h) @
     put_u64 (h_server_send_time_micros h) @
     put_u8 (codec_to_u8 (h_codec h)) @
     put_u8 (h_layer h) @
     put_u16 (h_payload_length h)"

definition header_validate :: "media_packet_header \<Rightarrow> packet_decode_error + unit" where
  "header_validate h =
     (if h_fragment_count h = 0
      then Inl (InvalidFragment (h_fragment_index h) (h_fragment_count h))
      else if h_fragment_count h \<le> h_fragment_index h
      then Inl (InvalidFragment (h_fragment_index h) (h_fragment_count h))
      else if h_layer h \<noteq> 0 then Inl (UnsupportedLayer (h_layer h))
      else if h_packet_type h = Probe \<and> h_codec h \<noteq> H264
      then Inl (InvalidPacketCodec (h_packet_type h) (h_codec h))
      else Inr ())"

record decoded_header =
  d_header :: media_packet_header
  d_payload_offset :: nat

text \<open>A read of the buffer that panics when the buffer is too short.\<close>

fun read_field :: "('a \<times> bytes) option \<Rightarrow> 'e fault + ('a \<times> bytes)" where
  "read_field None = Inl Panic"
| "read_field (Some p) = Inr p"

definition header_decode :: "bytes \<Rightarrow> packet_decode_error fault + decoded_header" where
  "header_decode src =
     (if length src < MEDIA_PACKET_HEADER_LEN
      then Inl (Err (TooShort MEDIA_PACKET_HEADER_LEN (length src)))
      else
      and_then (read_field (get_u8 src)) (\<lambda>(version, buf).
      if version \<noteq> PROTOCOL_VERSION then Inl (Err (UnsupportedVersion version))
      else
      and_then (read_field (get_u8 buf)) (\<lambda>(ty, buf).
      and_then (map_err Err (packet_type_try_from ty)) (\<lambda>packet_type.
      and_then (read_field (get_u8 buf)) (\<lambda>(fl, buf).
      and_then (read_field (get_u16 buf)) (\<lambda>(hl, buf).
      if unat hl < MEDIA_PACKET_HEADER_LEN
      then Inl (Err (UnsupportedHeaderLength (unat hl)))
      else if length src < unat hl
      then Inl (Err (TooShort (unat hl) (length src)))
      else
      and_then (read_field (get_u32 buf)) (\<lambda>(room_stream_id, buf).
      and_then (read_field (get_u32 buf)) (\<lambda>(sequence_number, buf).
      and_then (read_field (get_u32 buf)) (\<lambda>(frame_id, buf).
      and_then (read_field (get_u16 buf)) (\<lambda>(fragment_index, buf).
      and_then (read_field (get_u16 buf)) (\<lambda>(fragment_count, buf).
      and_then (read_field (get_u64 buf)) (\<lambda>(media_timestamp, buf).
      and_then (read_field (get_u64 buf)) (\<lambda>(capture_time, buf).
      and_then (read_field (get_u64 buf)) (\<lambda>(clock_offset, buf).
      and_then (read_field (get_u64 buf)) (\<lambda>(encode_done_time, buf).
      and_then (read_field (get_u64 buf)) (\<lambda>(send_time, buf).
      and_then (read_field (get_u64 buf)) (\<lambda>(receive_time, buf).
      and_then (read_field (get_u64 buf)) (\<lambda>(server_send_time, buf).
      and_then (read_field (get_u8 buf)) (\<lambda>(cd, buf).
      and_then (map_err (\<lambda>err. Err (UnknownCodec (unknown_codec_0 err))) (codec_try_from cd)) (\<lambda>codec.
      and_then (read_field (get_u8 buf)) (\<lambda>(layer, buf).
      and_then (read_field (get_u16 buf)) (\<lambda>(payload_length, buf).
      let header =
        \<lparr>h_version = version, h_packet_type = packet_type, h_flags = flags_from_bits fl,
         h_room_stream_id = room_stream_id, h_sequence_number = sequence_number,
         h_frame_id = frame_id, h_fragment_index = fragment_index,
         h_fragment_count = fragment_count, h_media_timestamp = media_timestamp,
         h_sender_capture_time_micros = capture_time,
         h_sender_clock_offset_micros = clock_offset,
         h_sender_encode_done_time_micros = encode_done_time,
         h_sender_send_time_micros = send_time, h_server_receive_time_micros = receive_time,
         h_server_send_time_micros = server_send_time, h_codec = codec, h_layer = layer,
         h_payload_length = payload_length\<rparr>
      in and_then (map_err Err (header_validate header)) (\<lambda>_.
         Inr \<lparr>d_header = header, d_payload_offset = unat hl\<rparr>)))))))))))))))))))))))"

section \<open>The packet\<close>

record media_packet =
  p_header :: media_packet_header
  p_payload :: bytes

definition packet_encode :: "media_packet \<Rightarrow> packet_encode_error + bytes" where
  "packet_encode p =
     (if 65535 < length (p_payload p) then Inl (PayloadTooLarge (length (p_payload p)))
      else if unat (h_payload_length (p_header p)) \<noteq> length (p_payload p)
      then Inl (PayloadLengthMismatch (unat (h_payload_length (p_header p)))
                  (length (p_payload p)))
      else and_then (map_err InvalidHeader (header_validate (p_header p))) (\<lambda>_.
        Inr (header_encode (p_header p) @ p_payload p)))"

definition packet_decode :: "bytes \<Rightarrow> packet_decode_error fault + media_packet" where
  "packet_decode src =
     and_then (header_decode src) (\<lambda>decoded.
     let expected_len = d_payload_offset decoded + unat (h_payload_length (d_header decoded)) in
     if length src < expected_len then Inl (Err (PayloadTooShort expected_len (length src)))
     else if expected_len < length src then Inl (Err (TrailingBytes expected_len (length src)))
     else Inr \<lparr>p_header = d_header decoded,
               p_payload = take (expected_len - d_payload_offset decoded)
                             (drop (d_payload_offset decoded) src)\<rparr>)"

section \<open>Lemmas\<close>

lemma length_header_encode [simp]: "length (header_encode h) = MEDIA_PACKET_HEADER_LEN"
  by (simp add: header_encode_def MEDIA_PACKET_HEADER_LEN_def)

lemma header_validate_Inr:
  "header_validate h = Inr u \<longleftrightarrow>
     h_fragment_index h < h_fragment_count h \<and> h_layer h = 0 \<and>
     (h_packet_type h = Probe \<longrightarrow> h_codec h = H264)"
proof -
  have "h_fragment_index h < h_fragment_count h \<Longrightarrow> h_fragment_count h \<noteq> 0"
    by (metis word_not_simps(1))
  then show ?thesis by (auto simp: header_validate_def not_le)
qed

lemma read_field_Inr [simp]: "read_field r = Inr p \<longleftrightarrow> r = Some p"
  by (cases r) auto

lemma header_decode_encode:
  assumes "h_version h = PROTOCOL_VERSION" and "header_validate h = Inr ()"
  shows "header_decode (header_encode h @ payload) =
           Inr \<lparr>d_header = h, d_payload_offset = MEDIA_PACKET_HEADER_LEN\<rparr>"
proof -
  have hl: "unat (word_of_nat MEDIA_PACKET_HEADER_LEN :: u16) = MEDIA_PACKET_HEADER_LEN"
    by (simp add: MEDIA_PACKET_HEADER_LEN_def)
  have len: "\<not> length (header_encode h @ payload) < MEDIA_PACKET_HEADER_LEN"
    by simp
  show ?thesis
    unfolding header_decode_def if_not_P [OF len] using assms
    by (cases h) (simp add: header_encode_def hl flags_bits_def flags_from_bits_def
          MEDIA_PACKET_HEADER_LEN_def)
qed

text \<open>
  The exact shape of what \<open>decode\<close> accepts: a valid header of this protocol version, whose
  declared header length is the payload offset.
\<close>

lemma header_decode_Inr:
  assumes "header_decode src = Inr d"
  shows "h_version (d_header d) = PROTOCOL_VERSION \<and> header_validate (d_header d) = Inr () \<and>
         MEDIA_PACKET_HEADER_LEN \<le> d_payload_offset d \<and> d_payload_offset d \<le> length src"
  using assms unfolding header_decode_def
  by (auto simp: and_then_Inr Let_def not_less split: if_splits)

lemma header_decode_canonical:
  assumes "header_decode src = Inr d" and "d_payload_offset d = MEDIA_PACKET_HEADER_LEN"
  shows "src = header_encode (d_header d) @ drop MEDIA_PACKET_HEADER_LEN src"
proof -
  have "\<exists>r. src = header_encode (d_header d) @ r"
    using assms unfolding header_decode_def header_encode_def
    by (auto simp: and_then_Inr Let_def flags_bits_def flags_from_bits_def
        dest!: field_put_get codec_try_from_Inr packet_type_try_from_Inr
        intro!: arg_cong [where f = put_u16] unat_eq_of_nat split: if_splits)
  then obtain r where "src = header_encode (d_header d) @ r" ..
  then show ?thesis by (metis append_eq_conv_conj length_header_encode)
qed

lemma read_field_Inl: "read_field r = Inl e \<longleftrightarrow> r = None \<and> e = Panic"
  by (cases r) auto

lemma header_decode_no_panic: "header_decode src \<noteq> Inl Panic"
proof
  assume "header_decode src = Inl Panic"
  then show False
    unfolding header_decode_def MEDIA_PACKET_HEADER_LEN_def
    by (auto simp: and_then_Inl map_err_Inl read_field_Inl Let_def not_less field_get_None
        dest!: field_get_length split: if_splits)
qed

lemma packet_encode_Inr:
  "packet_encode p = Inr bs \<longleftrightarrow>
     length (p_payload p) \<le> 65535 \<and>
     unat (h_payload_length (p_header p)) = length (p_payload p) \<and>
     header_validate (p_header p) = Inr () \<and> bs = header_encode (p_header p) @ p_payload p"
  by (auto simp: packet_encode_def and_then_Inr)

lemma packet_decode_encode:
  assumes "packet_encode p = Inr bs" and "h_version (p_header p) = PROTOCOL_VERSION"
  shows "packet_decode bs = Inr p"
proof -
  have "header_validate (p_header p) = Inr ()" and bs: "bs = header_encode (p_header p) @ p_payload p"
    and len: "unat (h_payload_length (p_header p)) = length (p_payload p)"
    using assms(1) by (simp_all add: packet_encode_Inr)
  then have "header_decode bs =
      Inr \<lparr>d_header = p_header p, d_payload_offset = MEDIA_PACKET_HEADER_LEN\<rparr>"
    using assms(2) header_decode_encode by simp
  then show ?thesis by (simp add: packet_decode_def Let_def bs len)
qed

section \<open>Properties\<close>

text \<open>
  C7. Every media packet of this protocol version that \<open>MediaPacket::encode\<close> accepts is decoded
  back by \<open>MediaPacket::decode\<close> to the same header and payload.
\<close>

theorem packet_roundtrip:
  assumes "packet_encode p = Inr bs" and "h_version (p_header p) = PROTOCOL_VERSION"
  shows "packet_decode bs = Inr p"
  using assms by (rule packet_decode_encode)

definition sample_packet :: media_packet where
  "sample_packet =
     \<lparr>p_header = (header_new Video H264 42 7 4)\<lparr>h_flags := KEYFRAME, h_fragment_index := 1,
                   h_fragment_count := 2, h_sender_clock_offset_micros := - 123\<rparr>,
      p_payload = [100, 97, 116, 97]\<rparr>"

lemma sample_packet_encodes:
  "packet_encode sample_packet = Inr (header_encode (p_header sample_packet) @ [100, 97, 116, 97])"
  by (simp add: packet_encode_Inr sample_packet_def header_new_def header_validate_def word_le_nat_alt)

theorem packet_roundtrip_witness:
  "packet_decode (header_encode (p_header sample_packet) @ [100, 97, 116, 97]) = Inr sample_packet"
  by (rule packet_roundtrip [OF sample_packet_encodes]) (simp add: sample_packet_def header_new_def)

text \<open>
  \<open>MediaPacket::decode\<close> is canonical: when the declared header length is that of this version,
  the only bytes that decode to a packet are the ones \<open>encode\<close> writes for it.
\<close>

theorem packet_decode_canonical:
  assumes "packet_decode bs = Inr p"
    and "header_decode bs = Inr d" and "d_payload_offset d = MEDIA_PACKET_HEADER_LEN"
  shows "packet_encode p = Inr bs"
proof -
  let ?n = "unat (h_payload_length (d_header d))"
  have p: "p = \<lparr>p_header = d_header d, p_payload = take ?n (drop MEDIA_PACKET_HEADER_LEN bs)\<rparr>"
    and len: "length bs = MEDIA_PACKET_HEADER_LEN + ?n"
    using assms by (auto simp: packet_decode_def Let_def split: if_splits)
  have "?n < 2 ^ 16" using unsigned_less [of "h_payload_length (d_header d)"] by simp
  then have "?n \<le> 65535" by simp
  moreover have "header_validate (d_header d) = Inr ()"
    using header_decode_Inr [OF assms(2)] by simp
  moreover have "bs = header_encode (d_header d) @ drop MEDIA_PACKET_HEADER_LEN bs"
    using header_decode_canonical [OF assms(2,3)] .
  ultimately show ?thesis using len by (simp add: packet_encode_Inr p)
qed

theorem packet_decode_canonical_witness:
  "packet_encode sample_packet = Inr (header_encode (p_header sample_packet) @ [100, 97, 116, 97])"
  by (rule packet_decode_canonical [OF packet_decode_encode [OF sample_packet_encodes]
        header_decode_encode])
     (simp_all add: sample_packet_def header_new_def header_validate_def word_le_nat_alt)

text \<open>
  \<open>MediaPacket::decode\<close> never panics, whatever bytes arrive: every read of the buffer is
  covered by the length check at its start.
\<close>

theorem packet_decode_no_panic: "packet_decode bs \<noteq> Inl Panic"
  using header_decode_no_panic [of bs]
  by (auto simp: packet_decode_def and_then_Inl Let_def split: if_splits)

text \<open>
  A packet that decodes satisfies every rule the relay relies on: this protocol version, a
  fragment index below the fragment count, layer 0, and a payload of exactly the declared length
  that ends the datagram.
\<close>

theorem packet_decode_sound:
  assumes "packet_decode bs = Inr p"
  shows "h_version (p_header p) = PROTOCOL_VERSION \<and>
    h_fragment_index (p_header p) < h_fragment_count (p_header p) \<and> h_layer (p_header p) = 0 \<and>
    length (p_payload p) = unat (h_payload_length (p_header p)) \<and>
    (\<exists>k \<ge> MEDIA_PACKET_HEADER_LEN. p_payload p = drop k bs)"
proof -
  from assms obtain d where d: "header_decode bs = Inr d"
    by (auto simp: packet_decode_def and_then_Inr)
  with assms have "length bs = d_payload_offset d + unat (h_payload_length (d_header d))"
    and p: "p_header p = d_header d" "p_payload p = drop (d_payload_offset d) bs"
    by (auto simp: packet_decode_def Let_def split: if_splits)
  with header_decode_Inr [OF d] show ?thesis
    by (auto simp: header_validate_Inr intro!: exI [of _ "d_payload_offset d"])
qed

theorem packet_decode_sound_witness:
  "h_fragment_index (p_header sample_packet) < h_fragment_count (p_header sample_packet)"
  using packet_decode_sound [OF packet_decode_encode [OF sample_packet_encodes]]
  by (simp add: sample_packet_def header_new_def)

end
