(* ===== verification/Frame.thy ===== *)
theory Frame
  imports Packet "HOL-Library.Multiset"
begin

text \<open>
  Packetization of encoded frames and their reassembly, \<open>crates/protocol/src/frame.rs\<close>. A field
  \<open>f_x\<close> is the field \<open>x\<close> of \<open>EncodedFrame\<close>. The main result is that any permutation of the
  packets of a frame reassembles to that frame.
\<close>

section \<open>Data\<close>

record encoded_frame =
  f_room_stream_id :: u32
  f_frame_id :: u32
  f_media_timestamp :: u64
  f_sender_capture_time_micros :: u64
  f_sender_clock_offset_micros :: i64
  f_sender_encode_done_time_micros :: u64
  f_sender_send_time_micros :: u64
  f_server_receive_time_micros :: u64
  f_server_send_time_micros :: u64
  f_codec :: codec_id
  f_is_keyframe :: bool
  f_bytes :: bytes

datatype frame_packetize_error =
    ZeroMaxPayload
  | MaxPayloadTooLarge nat
  | DatagramTooSmall
  | TooManyFragments nat
  | PacketEncode packet_encode_error

datatype frame_reassembly_error =
    EmptyFrame
  | MissingFragment u16
  | DuplicateFragment u16
  | FragmentMetadataMismatch
  | FragmentCountMismatch
  | InvalidEndOfFrameFlag u16
  | InvalidPacketHeader packet_decode_error

section \<open>Packetization\<close>

text \<open>\<open>Bytes::slice\<close> panics unless \<open>start \<le> end \<le> len\<close>.\<close>

definition slice :: "nat \<Rightarrow> nat \<Rightarrow> bytes \<Rightarrow> 'e fault + bytes" where
  "slice start stop bs =
     (if start \<le> stop \<and> stop \<le> length bs then Inr (take (stop - start) (drop start bs))
      else Inl Panic)"

definition fragment_flags :: "bool \<Rightarrow> nat \<Rightarrow> nat \<Rightarrow> packet_flags" where
  "fragment_flags is_keyframe fragment_count fragment_index =
     (let flags = flags_empty;
          flags = (if is_keyframe then flags_with flags KEYFRAME else flags)
      in if fragment_index + 1 = fragment_count then flags_with flags END_OF_FRAME else flags)"

definition fragment_header ::
  "encoded_frame \<Rightarrow> packet_type \<Rightarrow> u32 \<Rightarrow> nat \<Rightarrow> nat \<Rightarrow> nat \<Rightarrow> media_packet_header" where
  "fragment_header frame packet_type first_sequence_number fragment_count fragment_index len =
     (header_new packet_type (f_codec frame) (f_room_stream_id frame)
        (first_sequence_number + of_nat fragment_index) (of_nat len))
     \<lparr>h_flags := fragment_flags (f_is_keyframe frame) fragment_count fragment_index,
      h_frame_id := f_frame_id frame,
      h_fragment_index := of_nat fragment_index,
      h_fragment_count := of_nat fragment_count,
      h_media_timestamp := f_media_timestamp frame,
      h_sender_capture_time_micros := f_sender_capture_time_micros frame,
      h_sender_clock_offset_micros := f_sender_clock_offset_micros frame,
      h_sender_encode_done_time_micros := f_sender_encode_done_time_micros frame,
      h_sender_send_time_micros := f_sender_send_time_micros frame,
      h_server_receive_time_micros := f_server_receive_time_micros frame,
      h_server_send_time_micros := f_server_send_time_micros frame\<rparr>"

definition fragment_packet ::
  "encoded_frame \<Rightarrow> packet_type \<Rightarrow> u32 \<Rightarrow> nat \<Rightarrow> nat \<Rightarrow> nat \<Rightarrow>
   frame_packetize_error fault + media_packet" where
  "fragment_packet frame packet_type first_sequence_number max_payload fragment_count i =
     (let start = i * max_payload; stop = min ((i + 1) * max_payload) (length (f_bytes frame)) in
      and_then (if start = stop then Inr [] else slice start stop (f_bytes frame)) (\<lambda>payload.
      Inr \<lparr>p_header = fragment_header frame packet_type first_sequence_number fragment_count i
                        (length payload),
           p_payload = payload\<rparr>))"

text \<open>The loop \<open>for fragment_index in 0..fragment_count\<close> with its early returns.\<close>

fun packetize_loop ::
  "(nat \<Rightarrow> frame_packetize_error fault + media_packet) \<Rightarrow> nat list \<Rightarrow>
   frame_packetize_error fault + media_packet list" where
  "packetize_loop mk [] = Inr []"
| "packetize_loop mk (i # is) =
     and_then (mk i) (\<lambda>packet.
     and_then (map_err (\<lambda>e. Err (PacketEncode e)) (packet_encode packet)) (\<lambda>_.
     and_then (packetize_loop mk is) (\<lambda>packets. Inr (packet # packets))))"

definition packetize_frame_with_type ::
  "encoded_frame \<Rightarrow> packet_type \<Rightarrow> u32 \<Rightarrow> nat \<Rightarrow> frame_packetize_error fault + media_packet list"
where
  "packetize_frame_with_type frame packet_type first_sequence_number max_payload =
     (if max_payload = 0 then Inl (Err ZeroMaxPayload)
      else if 65535 < max_payload then Inl (Err (MaxPayloadTooLarge max_payload))
      else
        let fragment_count = max (div_ceil (length (f_bytes frame)) max_payload) 1 in
        if 65535 < fragment_count then Inl (Err (TooManyFragments fragment_count))
        else packetize_loop
               (fragment_packet frame packet_type first_sequence_number max_payload fragment_count)
               [0..<fragment_count])"

definition packetize_frame ::
  "encoded_frame \<Rightarrow> u32 \<Rightarrow> nat \<Rightarrow> frame_packetize_error fault + media_packet list" where
  "packetize_frame frame first_sequence_number max_payload =
     packetize_frame_with_type frame Video first_sequence_number max_payload"

definition packetize_frame_with_type_for_datagram_target ::
  "encoded_frame \<Rightarrow> packet_type \<Rightarrow> u32 \<Rightarrow> nat \<Rightarrow> frame_packetize_error fault + media_packet list"
where
  "packetize_frame_with_type_for_datagram_target frame packet_type first_sequence_number
     max_datagram_payload =
     (if max_datagram_payload \<le> MEDIA_PACKET_HEADER_LEN then Inl (Err DatagramTooSmall)
      else packetize_frame_with_type frame packet_type first_sequence_number
             (max_datagram_payload - MEDIA_PACKET_HEADER_LEN))"

definition packetize_frame_for_datagram_target ::
  "encoded_frame \<Rightarrow> u32 \<Rightarrow> nat \<Rightarrow> frame_packetize_error fault + media_packet list" where
  "packetize_frame_for_datagram_target frame first_sequence_number max_datagram_payload =
     (if max_datagram_payload \<le> MEDIA_PACKET_HEADER_LEN then Inl (Err DatagramTooSmall)
      else packetize_frame_with_type_for_datagram_target frame Video first_sequence_number
             max_datagram_payload)"

section \<open>Reassembly\<close>

definition min_nonzero :: "u64 \<Rightarrow> u64 \<Rightarrow> u64" where
  "min_nonzero left right =
     (if left = 0 then right else if right = 0 then left else min left right)"

fun validate_packets :: "media_packet list \<Rightarrow> frame_reassembly_error + unit" where
  "validate_packets [] = Inr ()"
| "validate_packets (p # ps) =
     and_then (map_err InvalidPacketHeader (header_validate (p_header p)))
       (\<lambda>_. validate_packets ps)"

text \<open>The variables the reassembly loop updates.\<close>

record reassembly =
  r_encode_done :: u64
  r_send :: u64
  r_server_receive :: u64
  r_server_send :: u64
  r_bytes :: bytes
  r_previous :: "u16 option"

definition metadata_mismatch :: "media_packet_header \<Rightarrow> bool \<Rightarrow> media_packet_header \<Rightarrow> bool" where
  "metadata_mismatch first is_keyframe h \<longleftrightarrow>
     h_fragment_count h \<noteq> h_fragment_count first \<or>
     h_frame_id h \<noteq> h_frame_id first \<or>
     h_room_stream_id h \<noteq> h_room_stream_id first \<or>
     h_codec h \<noteq> h_codec first \<or>
     h_packet_type h \<noteq> h_packet_type first \<or>
     h_layer h \<noteq> h_layer first \<or>
     h_media_timestamp h \<noteq> h_media_timestamp first \<or>
     h_sender_capture_time_micros h \<noteq> h_sender_capture_time_micros first \<or>
     h_sender_clock_offset_micros h \<noteq> h_sender_clock_offset_micros first \<or>
     flags_contains (h_flags h) KEYFRAME \<noteq> is_keyframe"

fun reassemble_loop ::
  "media_packet_header \<Rightarrow> bool \<Rightarrow> nat \<Rightarrow> reassembly \<Rightarrow> media_packet list \<Rightarrow>
   frame_reassembly_error + reassembly" where
  "reassemble_loop first is_keyframe expected_index r [] = Inr r"
| "reassemble_loop first is_keyframe expected_index r (packet # packets) =
     (let h = p_header packet; fragment_index = h_fragment_index h in
      if r_previous r = Some fragment_index then Inl (DuplicateFragment fragment_index)
      else if fragment_index \<noteq> of_nat expected_index
      then Inl (MissingFragment (of_nat expected_index))
      else if metadata_mismatch first is_keyframe h then Inl FragmentMetadataMismatch
      else if flags_contains (h_flags h) END_OF_FRAME \<noteq>
              (expected_index + 1 = unat (h_fragment_count first))
      then Inl (InvalidEndOfFrameFlag fragment_index)
      else reassemble_loop first is_keyframe (expected_index + 1)
        \<lparr>r_encode_done = max (r_encode_done r) (h_sender_encode_done_time_micros h),
         r_send = max (r_send r) (h_sender_send_time_micros h),
         r_server_receive = min_nonzero (r_server_receive r) (h_server_receive_time_micros h),
         r_server_send = max (r_server_send r) (h_server_send_time_micros h),
         r_bytes = r_bytes r @ p_payload packet,
         r_previous = Some fragment_index\<rparr> packets)"

definition reassembly_start :: "media_packet_header \<Rightarrow> reassembly" where
  "reassembly_start first =
     \<lparr>r_encode_done = h_sender_encode_done_time_micros first,
      r_send = h_sender_send_time_micros first,
      r_server_receive = min_nonzero (h_server_receive_time_micros first) 0,
      r_server_send = h_server_send_time_micros first, r_bytes = [], r_previous = None\<rparr>"

definition reassemble_sorted ::
  "media_packet list \<Rightarrow> frame_reassembly_error + encoded_frame" where
  "reassemble_sorted packets =
     (let first = p_header (hd packets) in
      if h_packet_type first \<noteq> Video \<and> h_packet_type first \<noteq> Audio
      then Inl FragmentMetadataMismatch
      else if length packets \<noteq> unat (h_fragment_count first) then Inl FragmentCountMismatch
      else
        let is_keyframe = flags_contains (h_flags first) KEYFRAME in
        and_then (reassemble_loop first is_keyframe 0 (reassembly_start first) packets) (\<lambda>r.
        Inr \<lparr>f_room_stream_id = h_room_stream_id first, f_frame_id = h_frame_id first,
             f_media_timestamp = h_media_timestamp first,
             f_sender_capture_time_micros = h_sender_capture_time_micros first,
             f_sender_clock_offset_micros = h_sender_clock_offset_micros first,
             f_sender_encode_done_time_micros = r_encode_done r,
             f_sender_send_time_micros = r_send r,
             f_server_receive_time_micros = r_server_receive r,
             f_server_send_time_micros = r_server_send r, f_codec = h_codec first,
             f_is_keyframe = is_keyframe, f_bytes = r_bytes r\<rparr>))"

definition reassemble_frame ::
  "media_packet list \<Rightarrow> frame_reassembly_error + encoded_frame" where
  "reassemble_frame packets =
     (if packets = [] then Inl EmptyFrame
      else and_then (validate_packets packets) (\<lambda>_.
        reassemble_sorted (sort_key (\<lambda>p. h_fragment_index (p_header p)) packets)))"

section \<open>Lemmas: the fragments\<close>

text \<open>The fragment the loop builds, once its slice is known to be in range.\<close>

definition fragment ::
  "encoded_frame \<Rightarrow> packet_type \<Rightarrow> u32 \<Rightarrow> nat \<Rightarrow> nat \<Rightarrow> nat \<Rightarrow> media_packet" where
  "fragment frame packet_type seq mp n i =
     (let payload = take mp (drop (i * mp) (f_bytes frame)) in
      \<lparr>p_header = fragment_header frame packet_type seq n i (length payload),
       p_payload = payload\<rparr>)"

abbreviation fragment_total :: "encoded_frame \<Rightarrow> nat \<Rightarrow> nat" where
  "fragment_total frame mp \<equiv> max (div_ceil (length (f_bytes frame)) mp) 1"

lemma fragment_start_le:
  assumes "0 < mp" and "i < fragment_total frame mp"
  shows "i * mp \<le> length (f_bytes frame)"
proof (cases "i = 0")
  case False
  then have "i \<le> div_ceil (length (f_bytes frame)) mp - 1" using assms(2) by auto
  then have le: "i * mp \<le> (div_ceil (length (f_bytes frame)) mp - 1) * mp" by simp
  have "0 < length (f_bytes frame)"
    using False assms by (intro Nat.gr0I) (simp add: div_ceil_def)
  then show ?thesis using le div_ceil_pred_less [OF assms(1)] by (meson le_trans less_imp_le)
qed simp

lemma fragment_packet_eq:
  assumes "0 < mp" and "i < fragment_total frame mp"
  shows "fragment_packet frame ty seq mp n i = Inr (fragment frame ty seq mp n i)"
proof -
  let ?b = "f_bytes frame" and ?e = "min ((i + 1) * mp) (length (f_bytes frame))"
  have start: "i * mp \<le> ?e" using fragment_start_le [OF assms] by auto
  have pay: "take (?e - i * mp) (drop (i * mp) ?b) = take mp (drop (i * mp) ?b)"
  proof (cases "(i + 1) * mp \<le> length ?b")
    case True
    then have "?e - i * mp = mp" by (simp add: min_absorb1)
    then show ?thesis by simp
  next
    case False
    then have "length (drop (i * mp) ?b) \<le> mp" by simp
    then have "take mp (drop (i * mp) ?b) = drop (i * mp) ?b" by (rule take_all)
    moreover have "take (length ?b - i * mp) (drop (i * mp) ?b) = drop (i * mp) ?b" by simp
    moreover have "?e = length ?b" using False by (intro min_absorb2) simp
    ultimately show ?thesis by metis
  qed
  have "(if i * mp = ?e then Inr [] else slice (i * mp) ?e ?b) =
        (Inr (take mp (drop (i * mp) ?b)) :: frame_packetize_error fault + bytes)"
  proof (cases "i * mp = ?e")
    case True
    then have "take (?e - i * mp) (drop (i * mp) ?b) = []" by (metis diff_self_eq_0 take_0)
    then have "take mp (drop (i * mp) ?b) = []" using pay by metis
    then show ?thesis unfolding if_P [OF True] by metis
  next
    case False
    have "?e \<le> length ?b" by simp
    with start have "slice (i * mp) ?e ?b =
        (Inr (take (?e - i * mp) (drop (i * mp) ?b)) :: frame_packetize_error fault + bytes)"
      by (simp only: slice_def simp_thms if_True)
    then show ?thesis unfolding if_not_P [OF False] pay .
  qed
  then show ?thesis by (simp only: fragment_packet_def fragment_def Let_def and_then.simps)
qed

lemma of_nat_u16_eq: "n \<le> 65535 \<Longrightarrow> unat (of_nat n :: u16) = n"
  by (rule of_nat_unat_le) simp

lemma fragment_index_less:
  assumes "i < n" and "n \<le> 65535"
  shows "(of_nat i :: u16) < of_nat n"
  using assms by (simp add: word_less_nat_alt of_nat_u16_eq)

lemma fragment_flags_keyframe [simp]:
  "flags_contains (fragment_flags k n i) KEYFRAME = k"
  by (simp add: fragment_flags_def flags_contains_def flags_with_def flags_empty_def KEYFRAME_def
      END_OF_FRAME_def Let_def)

lemma fragment_flags_end [simp]:
  "flags_contains (fragment_flags k n i) END_OF_FRAME = (i + 1 = n)"
  by (simp add: fragment_flags_def flags_contains_def flags_with_def flags_empty_def KEYFRAME_def
      END_OF_FRAME_def Let_def)

lemma fragment_validate:
  assumes "i < n" and "n \<le> 65535"
  shows "header_validate (p_header (fragment frame ty seq mp n i)) =
           (if ty = Probe \<and> f_codec frame \<noteq> H264
            then Inl (InvalidPacketCodec ty (f_codec frame)) else Inr ())"
proof -
  have "(of_nat i :: u16) < of_nat n" by (rule fragment_index_less [OF assms])
  moreover from this have "(of_nat n :: u16) \<noteq> 0" by (metis word_not_simps(1))
  ultimately show ?thesis
    by (auto simp: header_validate_def fragment_def fragment_header_def header_new_def Let_def not_le
        simp flip: not_less)
qed

lemma fragment_encode:
  assumes "i < n" and "n \<le> 65535" and "mp \<le> 65535"
  shows "packet_encode (fragment frame ty seq mp n i) =
           (if ty = Probe \<and> f_codec frame \<noteq> H264
            then Inl (InvalidHeader (InvalidPacketCodec ty (f_codec frame)))
            else Inr (header_encode (p_header (fragment frame ty seq mp n i)) @
                      p_payload (fragment frame ty seq mp n i)))"
proof -
  let ?p = "fragment frame ty seq mp n i"
  have "length (p_payload ?p) \<le> 65535" using assms(3) by (simp add: fragment_def Let_def)
  moreover from this have "unat (h_payload_length (p_header ?p)) = length (p_payload ?p)"
    by (simp add: fragment_def fragment_header_def header_new_def Let_def of_nat_u16_eq)
  ultimately show ?thesis
    using fragment_validate [OF assms(1,2), of frame ty seq mp] by (simp add: packet_encode_def)
qed

section \<open>Lemmas: packetization\<close>

lemma packetize_loop_ok:
  assumes "\<And>i. i \<in> set is \<Longrightarrow> mk i = Inr (g i)"
    and "\<And>i. i \<in> set is \<Longrightarrow> \<exists>bs. packet_encode (g i) = Inr bs"
  shows "packetize_loop mk is = Inr (map g is)"
  using assms
proof (induction "is")
  case (Cons i "is")
  then obtain bs where "packet_encode (g i) = Inr bs" by auto
  with Cons show ?case by simp
qed simp

text \<open>The outcome of packetization, on every branch.\<close>

lemma packetize_frame_with_type_cases:
  "packetize_frame_with_type frame ty seq mp =
     (if mp = 0 then Inl (Err ZeroMaxPayload)
      else if 65535 < mp then Inl (Err (MaxPayloadTooLarge mp))
      else if 65535 < fragment_total frame mp
      then Inl (Err (TooManyFragments (fragment_total frame mp)))
      else if ty = Probe \<and> f_codec frame \<noteq> H264
      then Inl (Err (PacketEncode (InvalidHeader (InvalidPacketCodec ty (f_codec frame)))))
      else Inr (map (fragment frame ty seq mp (fragment_total frame mp))
                  [0..<fragment_total frame mp]))"
proof -
  let ?n = "fragment_total frame mp"
  have mk: "fragment_packet frame ty seq mp ?n i = Inr (fragment frame ty seq mp ?n i)"
    if "0 < mp" "i \<in> set [0..<?n]" for i
    using that by (intro fragment_packet_eq) auto
  consider "mp = 0 \<or> 65535 < mp \<or> 65535 < ?n"
    | "0 < mp" "mp \<le> 65535" "?n \<le> 65535" "ty = Probe \<and> f_codec frame \<noteq> H264"
    | "0 < mp" "mp \<le> 65535" "?n \<le> 65535" "\<not> (ty = Probe \<and> f_codec frame \<noteq> H264)"
    by linarith
  then show ?thesis
  proof cases
    case 1
    then show ?thesis by (auto simp: packetize_frame_with_type_def Let_def)
  next
    case 2
    have "[0..<?n] = 0 # [1..<?n]" by (simp add: upt_conv_Cons)
    moreover have "0 < ?n" by simp
    ultimately show ?thesis
      using 2 mk [of 0] fragment_encode [of 0 ?n mp frame ty seq]
      by (simp add: packetize_frame_with_type_def Let_def)
  next
    case 3
    have "packetize_loop (fragment_packet frame ty seq mp ?n) [0..<?n] =
          Inr (map (fragment frame ty seq mp ?n) [0..<?n])"
    proof (rule packetize_loop_ok)
      fix i assume "i \<in> set [0..<?n]"
      then have "i < ?n" by simp
      then show "\<exists>bs. packet_encode (fragment frame ty seq mp ?n i) = Inr bs"
        using fragment_encode [OF _ 3(3) 3(2)] 3(4) by simp
    qed (rule mk [OF 3(1)])
    with 3 show ?thesis by (auto simp: packetize_frame_with_type_def Let_def)
  qed
qed

lemma packetize_frame_with_type_Inr:
  "packetize_frame_with_type frame ty seq mp = Inr ps \<longleftrightarrow>
     0 < mp \<and> mp \<le> 65535 \<and> fragment_total frame mp \<le> 65535 \<and>
     \<not> (ty = Probe \<and> f_codec frame \<noteq> H264) \<and>
     ps = map (fragment frame ty seq mp (fragment_total frame mp)) [0..<fragment_total frame mp]"
  unfolding packetize_frame_with_type_cases by auto

section \<open>Lemmas: reassembly\<close>

lemma min_nonzero_simps [simp]: "min_nonzero x 0 = x" "min_nonzero x x = x"
  by (simp_all add: min_nonzero_def)

lemma validate_packets_Inr:
  "validate_packets ps = Inr u \<longleftrightarrow> (\<forall>p \<in> set ps. header_validate (p_header p) = Inr ())"
  by (induction ps) (auto simp: and_then_Inr)

text \<open>The loop's variables once the fragments below \<open>i\<close> of \<open>frame\<close> are consumed.\<close>

definition reassembly_at :: "encoded_frame \<Rightarrow> nat \<Rightarrow> nat \<Rightarrow> reassembly" where
  "reassembly_at frame mp i =
     \<lparr>r_encode_done = f_sender_encode_done_time_micros frame,
      r_send = f_sender_send_time_micros frame,
      r_server_receive = f_server_receive_time_micros frame,
      r_server_send = f_server_send_time_micros frame,
      r_bytes = take (i * mp) (f_bytes frame),
      r_previous = (if i = 0 then None else Some (of_nat (i - 1)))\<rparr>"

lemma reassembly_at_sel:
  "r_encode_done (reassembly_at frame mp i) = f_sender_encode_done_time_micros frame"
  "r_send (reassembly_at frame mp i) = f_sender_send_time_micros frame"
  "r_server_receive (reassembly_at frame mp i) = f_server_receive_time_micros frame"
  "r_server_send (reassembly_at frame mp i) = f_server_send_time_micros frame"
  "r_bytes (reassembly_at frame mp i) = take (i * mp) (f_bytes frame)"
  by (simp_all add: reassembly_at_def)

lemma fragment_header_sel:
  fixes frame ty seq mp n i
  defines "h \<equiv> p_header (fragment frame ty seq mp n i)"
  shows "h_packet_type h = ty" and "h_fragment_count h = of_nat n"
    and "h_fragment_index h = of_nat i" and "h_room_stream_id h = f_room_stream_id frame"
    and "h_frame_id h = f_frame_id frame" and "h_codec h = f_codec frame"
    and "h_media_timestamp h = f_media_timestamp frame"
    and "h_sender_capture_time_micros h = f_sender_capture_time_micros frame"
    and "h_sender_clock_offset_micros h = f_sender_clock_offset_micros frame"
    and "h_flags h = fragment_flags (f_is_keyframe frame) n i"
    and "h_sequence_number h = seq + of_nat i"
  by (simp_all add: h_def fragment_def fragment_header_def header_new_def Let_def)

lemma frame_eta:
  "\<lparr>f_room_stream_id = f_room_stream_id frame, f_frame_id = f_frame_id frame,
    f_media_timestamp = f_media_timestamp frame,
    f_sender_capture_time_micros = f_sender_capture_time_micros frame,
    f_sender_clock_offset_micros = f_sender_clock_offset_micros frame,
    f_sender_encode_done_time_micros = f_sender_encode_done_time_micros frame,
    f_sender_send_time_micros = f_sender_send_time_micros frame,
    f_server_receive_time_micros = f_server_receive_time_micros frame,
    f_server_send_time_micros = f_server_send_time_micros frame, f_codec = f_codec frame,
    f_is_keyframe = f_is_keyframe frame, f_bytes = f_bytes frame\<rparr> = frame"
  by simp

lemma reassemble_step:
  assumes "i < n" and "n \<le> 65535"
  shows "reassemble_loop (p_header (fragment frame ty seq mp n 0)) (f_is_keyframe frame) i
           (reassembly_at frame mp i) (fragment frame ty seq mp n i # ps) =
         reassemble_loop (p_header (fragment frame ty seq mp n 0)) (f_is_keyframe frame) (i + 1)
           (reassembly_at frame mp (i + 1)) ps"
proof -
  have "(of_nat (i - 1) :: u16) \<noteq> of_nat i" if "i \<noteq> 0"
  proof -
    have "i - 1 \<le> 65535" "i \<le> 65535" "i - 1 \<noteq> i" using assms that by auto
    then show ?thesis by (metis of_nat_u16_eq)
  qed
  moreover have "take (mp + i * mp) (f_bytes frame) =
      take (i * mp) (f_bytes frame) @ take mp (drop (i * mp) (f_bytes frame))"
    by (metis add.commute take_add)
  moreover have "unat (of_nat n :: u16) = n" using assms(2) by (rule of_nat_u16_eq)
  ultimately show ?thesis
    by (auto simp: Let_def reassembly_at_def fragment_def fragment_header_def header_new_def
        metadata_mismatch_def)
qed

lemma reassemble_fragments:
  assumes "i \<le> n" and "n \<le> 65535"
  shows "reassemble_loop (p_header (fragment frame ty seq mp n 0)) (f_is_keyframe frame) i
           (reassembly_at frame mp i) (map (fragment frame ty seq mp n) [i..<n]) =
         Inr (reassembly_at frame mp n)"
  using assms(1)
proof (induction "n - i" arbitrary: i)
  case 0
  then show ?case by simp
next
  case (Suc k)
  then have "i < n" "k = n - (i + 1)" "i + 1 \<le> n" by auto
  moreover from this have "[i..<n] = i # [i + 1..<n]" by (simp add: upt_conv_Cons)
  ultimately show ?case
    using Suc.hyps(1) [of "i + 1"] reassemble_step [OF _ assms(2), of i] by simp
qed

lemma sort_fragments:
  assumes "mset qs = mset (map (fragment frame ty seq mp n) [0..<n])" and "n \<le> 65535"
  shows "sort_key (\<lambda>p. h_fragment_index (p_header p)) qs =
         map (fragment frame ty seq mp n) [0..<n]"
proof -
  let ?ps = "map (fragment frame ty seq mp n) [0..<n]" and ?k = "\<lambda>p. h_fragment_index (p_header p)"
  have key: "map ?k ?ps = map of_nat [0..<n]"
    by (simp add: fragment_def fragment_header_def header_new_def Let_def)
  have "sorted (map (of_nat :: nat \<Rightarrow> u16) [0..<n])"
    unfolding sorted_iff_nth_mono
    using assms(2) by (auto simp: word_le_nat_alt of_nat_u16_eq)
  moreover have "inj_on ?k (set ?ps)"
  proof (rule inj_onI)
    fix p q assume "p \<in> set ?ps" "q \<in> set ?ps" and eq: "?k p = ?k q"
    then obtain i j where ij: "i < n" "j < n" and p: "p = fragment frame ty seq mp n i"
      and q: "q = fragment frame ty seq mp n j" by auto
    from eq have "(of_nat i :: u16) = of_nat j"
      by (simp add: p q fragment_def fragment_header_def header_new_def Let_def)
    then have "i = j" using ij assms(2) by (metis le_trans less_imp_le of_nat_u16_eq)
    then show "p = q" by (simp add: p q)
  qed
  moreover have "set qs = set ?ps" using assms(1) by (rule mset_eq_setD)
  ultimately show ?thesis
    using assms(1) by (intro sort_key_inj_key_eq) (simp_all only: key)
qed

text \<open>What a successful run of the loop says about the packets it consumed.\<close>

lemma reassemble_loop_Inr:
  assumes "reassemble_loop first k i r ps = Inr r'" and "i + length ps \<le> 65536"
  shows "r_bytes r' = r_bytes r @ concat (map p_payload ps) \<and>
    (\<forall>j < length ps. h_fragment_index (p_header (ps ! j)) = of_nat (i + j) \<and>
       \<not> metadata_mismatch first k (p_header (ps ! j)))"
  using assms
proof (induction ps arbitrary: i r)
  case (Cons p ps)
  from Cons.prems have idx: "h_fragment_index (p_header p) = of_nat i"
    and meta: "\<not> metadata_mismatch first k (p_header p)"
    by (auto simp: Let_def split: if_splits)
  from Cons.prems obtain r1 where "reassemble_loop first k (i + 1) r1 ps = Inr r'"
    and r1: "r_bytes r1 = r_bytes r @ p_payload p"
    by (auto simp: Let_def split: if_splits)
  with Cons.IH [of "i + 1" r1] Cons.prems(2)
  have "r_bytes r' = r_bytes r1 @ concat (map p_payload ps)"
    and tl: "\<And>j. j < length ps \<Longrightarrow> h_fragment_index (p_header (ps ! j)) = of_nat (i + 1 + j) \<and>
       \<not> metadata_mismatch first k (p_header (ps ! j))"
    by auto
  moreover have "h_fragment_index (p_header ((p # ps) ! j)) = of_nat (i + j) \<and>
       \<not> metadata_mismatch first k (p_header ((p # ps) ! j))" if "j < length (p # ps)" for j
    using that tl [of "j - 1"] idx meta by (cases j) auto
  ultimately show ?case using r1 by auto
qed simp

text \<open>The fragments of a frame, in any order, reassemble to it.\<close>

lemma reassemble_packetized:
  assumes "packetize_frame_with_type frame ty seq mp = Inr ps"
    and "ty = Video \<or> ty = Audio" and "mset qs = mset ps"
  shows "reassemble_frame qs = Inr frame"
proof -
  let ?n = "fragment_total frame mp" and ?f = "fragment frame ty seq mp (fragment_total frame mp)"
  have n: "?n \<le> 65535" and mp: "0 < mp" and ps: "ps = map ?f [0..<?n]"
    using assms(1) unfolding packetize_frame_with_type_Inr by auto
  have "qs \<noteq> []" using assms(3) ps by (metis length_0_conv length_map length_upt mset_eq_length
      diff_zero max.cobounded2 not_one_le_zero)
  have "set qs = set ps" using assms(3) by (rule mset_eq_setD)
  then have valid: "validate_packets qs = Inr ()"
    using fragment_validate [OF _ n] assms(2) by (auto simp: validate_packets_Inr ps)
  have sort: "sort_key (\<lambda>p. h_fragment_index (p_header p)) qs = map ?f [0..<?n]"
    using assms(3) ps n by (intro sort_fragments) simp_all
  have first: "p_header (hd (map ?f [0..<?n])) = p_header (?f 0)"
    by (simp add: hd_map)
  have start: "reassembly_start (p_header (?f 0)) = reassembly_at frame mp 0"
    by (simp add: reassembly_start_def reassembly_at_def fragment_def fragment_header_def
        header_new_def Let_def)
  have "length (f_bytes frame) \<le> ?n * mp"
    using div_ceil_mult_ge [OF mp, of "length (f_bytes frame)"] by (meson le_trans max.cobounded1
        mult_le_mono1)
  then have all: "take (?n * mp) (f_bytes frame) = f_bytes frame" by simp
  have loop: "reassemble_loop (p_header (?f 0)) (f_is_keyframe frame) 0
      (reassembly_at frame mp 0) (map ?f [0..<?n]) = Inr (reassembly_at frame mp ?n)"
    by (rule reassemble_fragments [OF _ n]) simp
  have "reassemble_sorted (map ?f [0..<?n]) = Inr frame"
    unfolding reassemble_sorted_def first start fragment_header_sel Let_def
      fragment_flags_keyframe of_nat_u16_eq [OF n] loop and_then.simps reassembly_at_sel all frame_eta
    using assms(2) by auto
  then show ?thesis using \<open>qs \<noteq> []\<close> valid by (simp add: reassemble_frame_def sort)
qed

section \<open>Properties\<close>

text \<open>
  C5. Packetizing a frame and reassembling its packets gives the frame back, in whatever order the
  packets arrive, for video and audio frames of any size and any payload limit that packetization
  accepts.
\<close>

theorem frame_roundtrip:
  assumes "packetize_frame_with_type frame ty seq mp = Inr ps"
    and "ty = Video \<or> ty = Audio" and "mset qs = mset ps"
  shows "reassemble_frame qs = Inr frame"
  using assms by (rule reassemble_packetized)

definition sample_frame :: encoded_frame where
  "sample_frame =
     \<lparr>f_room_stream_id = 9, f_frame_id = 7, f_media_timestamp = 90000,
      f_sender_capture_time_micros = 1234567, f_sender_clock_offset_micros = 0,
      f_sender_encode_done_time_micros = 0, f_sender_send_time_micros = 0,
      f_server_receive_time_micros = 0, f_server_send_time_micros = 0, f_codec = H264,
      f_is_keyframe = True, f_bytes = [1, 2, 3, 4, 5]\<rparr>"

lemma sample_frame_total: "fragment_total sample_frame 2 = 3"
  by (simp add: sample_frame_def div_ceil_def)

lemma sample_frame_packets:
  "packetize_frame_with_type sample_frame Video seq 2 =
     Inr (map (fragment sample_frame Video seq 2 3) [0..<3])"
  unfolding packetize_frame_with_type_Inr sample_frame_total by simp

theorem frame_roundtrip_witness:
  "reassemble_frame (rev (map (fragment sample_frame Video 100 2 3) [0..<3])) = Inr sample_frame"
  by (rule frame_roundtrip [OF sample_frame_packets]) simp_all

text \<open>
  Packetization never panics and fails exactly on its documented errors, in their order: a zero
  or oversized payload limit, more than 65535 fragments, and a probe with a codec other than H264.
  Otherwise the payloads of the packets, in order, are the frame's bytes.
\<close>

theorem packetize_outcome:
  "(case packetize_frame_with_type frame ty seq mp of
      Inl Panic \<Rightarrow> False
    | Inl (Err ZeroMaxPayload) \<Rightarrow> mp = 0
    | Inl (Err (MaxPayloadTooLarge n)) \<Rightarrow> n = mp \<and> 65535 < mp
    | Inl (Err DatagramTooSmall) \<Rightarrow> False
    | Inl (Err (TooManyFragments n)) \<Rightarrow>
        n = div_ceil (length (f_bytes frame)) mp \<and> 65535 < n
    | Inl (Err (PacketEncode e)) \<Rightarrow>
        e = InvalidHeader (InvalidPacketCodec Probe (f_codec frame)) \<and> ty = Probe \<and>
        f_codec frame \<noteq> H264
    | Inr ps \<Rightarrow> concat (map p_payload ps) = f_bytes frame)"
proof -
  have take: "concat (map (p_payload \<circ> fragment frame ty seq mp n) [0..<m]) =
        take (m * mp) (f_bytes frame)" for n m
  proof (induction m)
    case (Suc m)
    then show ?case by (simp add: fragment_def Let_def) (metis add.commute take_add)
  qed simp
  have all: "length (f_bytes frame) \<le> fragment_total frame mp * mp" if "0 < mp"
    using div_ceil_mult_ge [OF that, of "length (f_bytes frame)"]
    by (meson le_trans max.cobounded1 mult_le_mono1)
  have total: "fragment_total frame mp = div_ceil (length (f_bytes frame)) mp"
    if "65535 < fragment_total frame mp"
    using that by linarith
  have big: "65535 < fragment_total frame mp \<Longrightarrow> 65535 < div_ceil (length (f_bytes frame)) mp"
    by linarith
  show ?thesis
    unfolding packetize_frame_with_type_cases using all total big
    by (simp add: take del: max_less_iff_conj less_max_iff_disj)
qed

text \<open>
  Every packet of a frame cut for a datagram target encodes to a datagram of at most that
  target, and packet \<open>i\<close> carries the sequence number \<open>i\<close> past the first, modulo \<open>2 ^ 32\<close>.
\<close>

theorem packetize_datagram_bound:
  assumes "packetize_frame_with_type_for_datagram_target frame ty seq target = Inr ps"
    and "i < length ps"
  shows "(\<exists>bs. packet_encode (ps ! i) = Inr bs \<and> length bs \<le> target) \<and>
    h_sequence_number (p_header (ps ! i)) = seq + of_nat i \<and>
    unat (h_fragment_count (p_header (ps ! i))) = length ps"
proof -
  let ?mp = "target - MEDIA_PACKET_HEADER_LEN"
  have target: "MEDIA_PACKET_HEADER_LEN < target"
    and "packetize_frame_with_type frame ty seq ?mp = Inr ps"
    using assms(1)
    by (auto simp: packetize_frame_with_type_for_datagram_target_def split: if_splits)
  then have mp: "?mp \<le> 65535" and n: "fragment_total frame ?mp \<le> 65535"
    and codec: "\<not> (ty = Probe \<and> f_codec frame \<noteq> H264)"
    and ps: "ps = map (fragment frame ty seq ?mp (fragment_total frame ?mp))
                    [0..<fragment_total frame ?mp]"
    unfolding packetize_frame_with_type_Inr by auto
  let ?p = "fragment frame ty seq ?mp (fragment_total frame ?mp) i"
  have i: "i < fragment_total frame ?mp" and pi: "ps ! i = ?p"
    using assms(2) by (simp_all add: ps)
  have "packet_encode ?p = Inr (header_encode (p_header ?p) @ p_payload ?p)"
    using fragment_encode [OF i n mp, of frame ty seq] codec by simp
  moreover have "length (header_encode (p_header ?p) @ p_payload ?p) \<le> target"
    using target by (simp add: fragment_def Let_def)
  ultimately show ?thesis
    unfolding pi fragment_header_sel of_nat_u16_eq [OF n] by (auto simp: ps)
qed

theorem packetize_datagram_bound_witness:
  "\<exists>ps. packetize_frame_with_type_for_datagram_target sample_frame Video 4294967295 83 = Inr ps \<and>
     h_sequence_number (p_header (ps ! 1)) = 0"
proof -
  have eq: "packetize_frame_with_type_for_datagram_target sample_frame Video 4294967295 83 =
      Inr (map (fragment sample_frame Video 4294967295 2 3) [0..<3])"
    by (simp add: packetize_frame_with_type_for_datagram_target_def MEDIA_PACKET_HEADER_LEN_def
        sample_frame_packets del: upt_rec_numeral)
  with packetize_datagram_bound [OF eq, of 1] show ?thesis by simp
qed

text \<open>
  C13. Reassembly is sound: a frame is only ever produced from exactly the fragments
  \<open>0 .. count - 1\<close> of one frame of one stream, each once, and its bytes are their payloads in
  fragment order.
\<close>

theorem reassemble_sound:
  assumes "reassemble_frame qs = Inr frame"
  shows "\<exists>ps. mset ps = mset qs \<and> f_bytes frame = concat (map p_payload ps) \<and>
    (\<forall>i < length ps. let h = p_header (ps ! i) in
       unat (h_fragment_index h) = i \<and> unat (h_fragment_count h) = length ps \<and>
       h_room_stream_id h = f_room_stream_id frame \<and> h_frame_id h = f_frame_id frame \<and>
       h_codec h = f_codec frame \<and> h_media_timestamp h = f_media_timestamp frame)"
proof -
  let ?ps = "sort_key (\<lambda>p. h_fragment_index (p_header p)) qs"
  let ?first = "p_header (hd ?ps)"
  let ?k = "flags_contains (h_flags ?first) KEYFRAME"
  from assms obtain r where len: "length ?ps = unat (h_fragment_count ?first)"
    and loop: "reassemble_loop ?first ?k 0 (reassembly_start ?first) ?ps = Inr r"
    and frame: "f_bytes frame = r_bytes r" "f_room_stream_id frame = h_room_stream_id ?first"
      "f_frame_id frame = h_frame_id ?first" "f_codec frame = h_codec ?first"
      "f_media_timestamp frame = h_media_timestamp ?first"
    by (auto simp: reassemble_frame_def reassemble_sorted_def and_then_Inr Let_def
        split: if_splits)
  have less: "length ?ps < 65536" unfolding len by (rule unat_u16_less)
  then have bound: "0 + length ?ps \<le> 65536" by simp
  have "f_bytes frame = concat (map p_payload ?ps)"
    using reassemble_loop_Inr [OF loop bound] frame by (simp add: reassembly_start_def)
  moreover have "unat (h_fragment_index (p_header (?ps ! i))) = i"
    "\<not> metadata_mismatch ?first ?k (p_header (?ps ! i))" if "i < length ?ps" for i
    using reassemble_loop_Inr [OF loop bound] that less by (auto simp: of_nat_u16_eq)
  ultimately show ?thesis
    using len frame by (intro exI [of _ ?ps]) (auto simp: metadata_mismatch_def Let_def)
qed

lemma sample_frame_reassembles:
  "reassemble_frame (rev (map (fragment sample_frame Video 100 2 3) [0..<3])) = Inr sample_frame"
  by (rule reassemble_packetized [OF sample_frame_packets]) simp_all

theorem reassemble_sound_witness:
  "\<exists>ps. mset ps = mset (rev (map (fragment sample_frame Video 100 2 3) [0..<3])) \<and>
     f_bytes sample_frame = concat (map p_payload ps)"
  using reassemble_sound [OF sample_frame_reassembles] by (elim exE) (intro exI conjI; simp)

end
