(* ===== verification/BTree_Map.thy ===== *)
theory BTree_Map
  imports Prelude
begin

text \<open>
  \<open>std::collections::BTreeMap\<close>: a map whose iteration order is the order of its keys. The type
  is the association lists with strictly increasing keys, so two maps with the same bindings are
  equal and iterate alike. The interface is the locale \<open>ordered_map\<close>; the type interprets it.
  A \<open>BTreeSet\<close> of identifiers is a \<open>set\<close> of words (always finite), iterated by
  \<open>sorted_list_of_set\<close>.
\<close>

section \<open>Sorted association lists\<close>

fun al_insert :: "'k::linorder \<Rightarrow> 'v \<Rightarrow> ('k \<times> 'v) list \<Rightarrow> ('k \<times> 'v) list" where
  "al_insert k v [] = [(k, v)]"
| "al_insert k v ((k', v') # xs) =
     (if k < k' then (k, v) # (k', v') # xs
      else if k = k' then (k, v) # xs else (k', v') # al_insert k v xs)"

fun al_remove :: "'k \<Rightarrow> ('k \<times> 'v) list \<Rightarrow> ('k \<times> 'v) list" where
  "al_remove k [] = []"
| "al_remove k ((k', v') # xs) = (if k = k' then xs else (k', v') # al_remove k xs)"

abbreviation keys_sorted :: "('k::linorder \<times> 'v) list \<Rightarrow> bool" where
  "keys_sorted xs \<equiv> sorted_wrt (<) (map fst xs)"

lemma keys_al_insert: "fst ` set (al_insert k v xs) = insert k (fst ` set xs)"
  by (induction k v xs rule: al_insert.induct) auto

lemma keys_al_remove: "fst ` set (al_remove k xs) \<subseteq> fst ` set xs"
  by (induction xs rule: al_remove.induct) auto

lemma keys_sorted_al_insert: "keys_sorted xs \<Longrightarrow> keys_sorted (al_insert k v xs)"
proof (induction k v xs rule: al_insert.induct)
  case (1 k v)
  then show ?case by simp
next
  case (2 k v k' v' xs)
  consider "k < k'" | "k = k'" | "k' < k" by fastforce
  then show ?case
  proof cases
    case 1
    with "2.prems" show ?thesis by auto
  next
    case 2
    with "2.prems" show ?thesis by auto
  next
    case 3
    with "2.prems" "2.IH" have "keys_sorted (al_insert k v xs)" by auto
    moreover have "\<forall>x \<in> fst ` set (al_insert k v xs). k' < x"
      using 3 "2.prems" by (auto simp: keys_al_insert)
    ultimately show ?thesis using 3 by auto
  qed
qed

lemma keys_sorted_al_remove: "keys_sorted xs \<Longrightarrow> keys_sorted (al_remove k xs)"
proof (induction k xs rule: al_remove.induct)
  case (2 k k' v' xs)
  then have "\<forall>x \<in> fst ` set xs. k' < x" by auto
  then have "\<forall>x \<in> fst ` set (al_remove k xs). k' < x"
    using keys_al_remove [of k xs] by blast
  with 2 show ?case by auto
qed simp

lemma keys_sorted_filter: "keys_sorted xs \<Longrightarrow> keys_sorted (filter P xs)"
  by (induction xs) auto

lemma keys_sorted_map_vals: "keys_sorted (map (\<lambda>(k, v). (k, f k v)) xs) = keys_sorted xs"
  by (simp add: case_prod_beta comp_def)

lemma map_of_al_insert: "map_of (al_insert k v xs) = (map_of xs)(k \<mapsto> v)"
  by (induction k v xs rule: al_insert.induct) auto

lemma map_of_None_sorted: "keys_sorted ((k, v) # xs) \<Longrightarrow> map_of xs k = None"
  by (fastforce simp: map_of_eq_None_iff)

lemma map_of_al_remove: "keys_sorted xs \<Longrightarrow> map_of (al_remove k xs) = (map_of xs)(k := None)"
proof (induction k xs rule: al_remove.induct)
  case (2 k k' v' xs)
  then show ?case by (auto simp: fun_eq_iff map_of_None_sorted)
qed simp

lemma map_of_filter_sorted:
  "keys_sorted xs \<Longrightarrow>
   map_of (filter (\<lambda>(k, v). P k v) xs) k =
     (case map_of xs k of None \<Rightarrow> None | Some v \<Rightarrow> if P k v then Some v else None)"
proof (induction xs)
  case (Cons a xs)
  obtain k' v' where a: "a = (k', v')" by (cases a)
  show ?case
  proof (cases "k = k'")
    case True
    with Cons a have "map_of xs k = None" by (auto intro: map_of_None_sorted)
    with True Cons a show ?thesis by (auto split: option.splits)
  next
    case False
    with Cons a show ?thesis by auto
  qed
qed simp

lemma map_of_map_vals: "map_of (map (\<lambda>(k, v). (k, f k v)) xs) k = map_option (f k) (map_of xs k)"
  by (induction xs) auto

lemma keys_sorted_unique: "keys_sorted xs \<Longrightarrow> keys_sorted ys \<Longrightarrow> map_of xs = map_of ys \<Longrightarrow> xs = ys"
proof -
  assume s: "keys_sorted xs" "keys_sorted ys" and eq: "map_of xs = map_of ys"
  have d: "distinct (map fst xs)" "distinct (map fst ys)"
    and so: "sorted (map fst xs)" "sorted (map fst ys)"
    using s strict_sorted_iff by blast+
  have fs: "inj_on fst (set xs \<union> set ys)"
  proof (rule inj_onI)
    fix p q assume "p \<in> set xs \<union> set ys" "q \<in> set xs \<union> set ys" "fst p = fst q"
    then have "map_of xs (fst p) = Some (snd p)" "map_of xs (fst p) = Some (snd q)"
      using d eq map_of_eq_Some_iff [OF d(1), of "fst p"] map_of_eq_Some_iff [OF d(2), of "fst p"]
      by (metis Un_iff prod.collapse)+
    with \<open>fst p = fst q\<close> show "p = q" by (simp add: prod_eq_iff)
  qed
  have "set xs = set ys" using d eq by (metis graph_map_of_if_distinct_dom)
  with so fs d show ?thesis by (intro map_sorted_distinct_set_unique [of fst]) auto
qed

section \<open>The type\<close>

typedef (overloaded) ('k::linorder, 'v) btree = "{xs :: ('k \<times> 'v) list. keys_sorted xs}"
  morphisms bt_iter BTree
  by (rule exI [of _ "[]"]) simp

setup_lifting type_definition_btree

lift_definition bt_new :: "('k::linorder, 'v) btree" is "[]"
  by simp

lift_definition bt_get :: "('k::linorder, 'v) btree \<Rightarrow> 'k \<Rightarrow> 'v option" is map_of .

lift_definition bt_insert :: "'k::linorder \<Rightarrow> 'v \<Rightarrow> ('k, 'v) btree \<Rightarrow> ('k, 'v) btree" is al_insert
  by (rule keys_sorted_al_insert)

lift_definition bt_remove :: "'k::linorder \<Rightarrow> ('k, 'v) btree \<Rightarrow> ('k, 'v) btree" is al_remove
  by (rule keys_sorted_al_remove)

text \<open>\<open>values_mut\<close>/\<open>iter_mut\<close> with an update of every value, and \<open>retain\<close>.\<close>

lift_definition bt_map :: "('k \<Rightarrow> 'v \<Rightarrow> 'w) \<Rightarrow> ('k::linorder, 'v) btree \<Rightarrow> ('k, 'w) btree"
  is "\<lambda>f xs. map (\<lambda>(k, v). (k, f k v)) xs"
  by (simp only: keys_sorted_map_vals)

lift_definition bt_retain :: "('k \<Rightarrow> 'v \<Rightarrow> bool) \<Rightarrow> ('k::linorder, 'v) btree \<Rightarrow> ('k, 'v) btree"
  is "\<lambda>P xs. filter (\<lambda>(k, v). P k v) xs"
  by (rule keys_sorted_filter)

definition bt_keys :: "('k::linorder, 'v) btree \<Rightarrow> 'k list" where
  "bt_keys m = map fst (bt_iter m)"

definition bt_values :: "('k::linorder, 'v) btree \<Rightarrow> 'v list" where
  "bt_values m = map snd (bt_iter m)"

definition bt_len :: "('k::linorder, 'v) btree \<Rightarrow> nat" where
  "bt_len m = length (bt_iter m)"

definition bt_is_empty :: "('k::linorder, 'v) btree \<Rightarrow> bool" where
  "bt_is_empty m = (bt_iter m = [])"

definition bt_contains :: "'k::linorder \<Rightarrow> ('k, 'v) btree \<Rightarrow> bool" where
  "bt_contains k m = (bt_get m k \<noteq> None)"

text \<open>\<open>entry(k).or_insert(d)\<close>, \<open>entry(k).or_default()\<close> then a mutation, and \<open>get_mut\<close>.\<close>

definition bt_or_insert :: "'k::linorder \<Rightarrow> 'v \<Rightarrow> ('k, 'v) btree \<Rightarrow> ('k, 'v) btree" where
  "bt_or_insert k d m = (case bt_get m k of None \<Rightarrow> bt_insert k d m | Some v \<Rightarrow> m)"

definition bt_entry :: "'k::linorder \<Rightarrow> 'v \<Rightarrow> ('v \<Rightarrow> 'v) \<Rightarrow> ('k, 'v) btree \<Rightarrow> ('k, 'v) btree" where
  "bt_entry k d f m = bt_insert k (f (case bt_get m k of None \<Rightarrow> d | Some v \<Rightarrow> v)) m"

definition bt_modify :: "'k::linorder \<Rightarrow> ('v \<Rightarrow> 'v) \<Rightarrow> ('k, 'v) btree \<Rightarrow> ('k, 'v) btree" where
  "bt_modify k f m = (case bt_get m k of None \<Rightarrow> m | Some v \<Rightarrow> bt_insert k (f v) m)"

section \<open>The interface\<close>

locale ordered_map =
  fixes new :: "'m"
    and ins :: "'k::linorder \<Rightarrow> 'v \<Rightarrow> 'm \<Rightarrow> 'm"
    and rem :: "'k \<Rightarrow> 'm \<Rightarrow> 'm"
    and look :: "'m \<Rightarrow> 'k \<Rightarrow> 'v option"
    and iter :: "'m \<Rightarrow> ('k \<times> 'v) list"
  assumes look_new: "look new k = None"
    and look_ins: "look (ins k v m) k' = (if k' = k then Some v else look m k')"
    and look_rem: "look (rem k m) k' = (if k' = k then None else look m k')"
    and iter_look: "map_of (iter m) = look m"
    and iter_sorted: "keys_sorted (iter m)"
    and iter_inject: "iter m = iter m' \<Longrightarrow> m = m'"
begin

lemma ext: "(\<And>k. look m k = look m' k) \<Longrightarrow> m = m'"
proof -
  assume "\<And>k. look m k = look m' k"
  then have "look m = look m'" by (rule HOL.ext)
  then have "map_of (iter m) = map_of (iter m')" by (simp add: iter_look)
  then have "iter m = iter m'"
    by (rule keys_sorted_unique [OF iter_sorted iter_sorted])
  then show ?thesis by (rule iter_inject)
qed

lemma iter_distinct: "distinct (map fst (iter m))"
  using iter_sorted [of m] strict_sorted_iff by blast

lemma in_iter_iff: "(k, v) \<in> set (iter m) \<longleftrightarrow> look m k = Some v"
  using iter_distinct [of m] by (simp add: iter_look [symmetric])

lemma in_keys_iff: "k \<in> fst ` set (iter m) \<longleftrightarrow> look m k \<noteq> None"
proof -
  have "k \<in> fst ` set (iter m) \<longleftrightarrow> (\<exists>v. (k, v) \<in> set (iter m))" by force
  then show ?thesis by (simp add: in_iter_iff)
qed

lemma in_values_iff: "v \<in> snd ` set (iter m) \<longleftrightarrow> (\<exists>k. look m k = Some v)"
proof -
  have "v \<in> snd ` set (iter m) \<longleftrightarrow> (\<exists>k. (k, v) \<in> set (iter m))" by force
  then show ?thesis by (simp add: in_iter_iff)
qed

lemma iter_empty_iff: "iter m = [] \<longleftrightarrow> (\<forall>k. look m k = None)"
proof -
  have "iter m = [] \<longleftrightarrow> fst ` set (iter m) = {}" by simp
  also have "\<dots> \<longleftrightarrow> (\<forall>k. look m k = None)"
    unfolding set_eq_iff in_keys_iff by simp
  finally show ?thesis .
qed

lemma length_iter: "length (iter m) = card (dom (look m))"
proof -
  have "card (dom (look m)) = card (fst ` set (iter m))"
    by (simp add: iter_look [symmetric] dom_map_of_conv_image_fst)
  also have "\<dots> = length (iter m)"
    using distinct_card [OF iter_distinct] by simp
  finally show ?thesis by simp
qed

lemma finite_dom: "finite (dom (look m))"
  by (simp add: iter_look [symmetric] finite_dom_map_of)

lemma rem_absent: "look m k = None \<Longrightarrow> rem k m = m"
  by (rule ext) (simp add: look_rem)

lemma ins_present: "look m k = Some v \<Longrightarrow> ins k v m = m"
  by (rule ext) (simp add: look_ins)

lemma rem_ins: "look m k = None \<Longrightarrow> rem k (ins k v m) = m"
  by (rule ext) (simp add: look_rem look_ins)

lemma ins_commute: "k \<noteq> k' \<Longrightarrow> ins k v (ins k' v' m) = ins k' v' (ins k v m)"
  by (rule ext) (simp add: look_ins)

lemma find_map_values:
  assumes "look m k = Some v" and "f v = Some y"
    and "\<And>k' v' y'. look m k' = Some v' \<Longrightarrow> f v' = Some y' \<Longrightarrow> y' = y"
  shows "find_map f (map snd (iter m)) = Some y"
proof (rule find_map_unique [of v])
  show "v \<in> set (map snd (iter m))" using assms(1) in_values_iff [of v m] by auto
  show "f v = Some y" by (rule assms(2))
next
  fix x' y' assume "x' \<in> set (map snd (iter m))" "f x' = Some y'"
  then show "y' = y" using assms(3) in_values_iff [of x' m] by auto
qed

end

interpretation bt: ordered_map
  "bt_new :: ('k::linorder, 'v) btree" bt_insert bt_remove bt_get bt_iter
proof (unfold_locales)
  fix k k' :: 'k and v :: 'v and m m' :: "('k, 'v) btree"
  show "bt_get bt_new k = (None :: 'v option)" by transfer simp
  show "bt_get (bt_insert k v m) k' = (if k' = k then Some v else bt_get m k')"
    by transfer (simp add: map_of_al_insert)
  show "bt_get (bt_remove k m) k' = (if k' = k then None else bt_get m k')"
    by transfer (simp add: map_of_al_remove)
  show "map_of (bt_iter m) = bt_get m" by transfer simp
  show "keys_sorted (bt_iter m)" using bt_iter by auto
  show "bt_iter m = bt_iter m' \<Longrightarrow> m = m'" by (simp add: bt_iter_inject)
qed

section \<open>Facts about the derived operations\<close>

lemma bt_get_new [simp]: "bt_get bt_new = (\<lambda>_. None)"
  by (rule ext) (rule bt.look_new)

lemma bt_get_insert [simp]: "bt_get (bt_insert k v m) = (bt_get m)(k \<mapsto> v)"
  by (rule ext) (simp add: bt.look_ins)

lemma bt_get_remove [simp]: "bt_get (bt_remove k m) = (bt_get m)(k := None)"
  by (rule ext) (simp add: bt.look_rem)

lemma bt_get_map [simp]: "bt_get (bt_map f m) k = map_option (f k) (bt_get m k)"
  by transfer (simp add: map_of_map_vals)

lemma bt_get_retain [simp]:
  "bt_get (bt_retain P m) k =
     (case bt_get m k of None \<Rightarrow> None | Some v \<Rightarrow> if P k v then Some v else None)"
  by transfer (rule map_of_filter_sorted)

lemma bt_get_or_insert [simp]:
  "bt_get (bt_or_insert k d m) =
     (case bt_get m k of None \<Rightarrow> (bt_get m)(k \<mapsto> d) | Some v \<Rightarrow> bt_get m)"
  by (auto simp: bt_or_insert_def split: option.splits)

lemma bt_get_entry [simp]:
  "bt_get (bt_entry k d f m) =
     (bt_get m)(k \<mapsto> f (case bt_get m k of None \<Rightarrow> d | Some v \<Rightarrow> v))"
  by (simp add: bt_entry_def)

lemma bt_get_modify [simp]:
  "bt_get (bt_modify k f m) = (bt_get m)(k := map_option f (bt_get m k))"
  by (auto simp: bt_modify_def fun_eq_iff split: option.splits)

lemma bt_contains_iff [simp]: "bt_contains k m \<longleftrightarrow> (\<exists>v. bt_get m k = Some v)"
  by (auto simp: bt_contains_def)

lemma bt_is_empty_iff: "bt_is_empty m \<longleftrightarrow> (\<forall>k. bt_get m k = None)"
  by (simp add: bt_is_empty_def bt.iter_empty_iff)

lemma bt_len_card: "bt_len m = card (dom (bt_get m))"
  by (simp add: bt_len_def bt.length_iter)

lemma finite_dom_bt_get [simp]: "finite (dom (bt_get m))"
  by (rule bt.finite_dom)

lemma set_bt_keys: "set (bt_keys m) = dom (bt_get m)"
  unfolding bt_keys_def set_map set_eq_iff bt.in_keys_iff by auto

lemma set_bt_values: "set (bt_values m) = ran (bt_get m)"
  unfolding bt_values_def set_map set_eq_iff bt.in_values_iff by (auto simp: ran_def)

lemma sorted_bt_keys: "sorted_wrt (<) (bt_keys m)"
  using bt.iter_sorted by (simp add: bt_keys_def)

lemma distinct_bt_keys: "distinct (bt_keys m)"
  using bt.iter_distinct by (simp add: bt_keys_def)

lemma bt_iter_insert [simp]: "bt_iter (bt_insert k v m) = al_insert k v (bt_iter m)"
  by transfer simp

lemma bt_iter_remove [simp]: "bt_iter (bt_remove k m) = al_remove k (bt_iter m)"
  by transfer simp

lemma bt_iter_new [simp]: "bt_iter bt_new = []"
  by transfer simp

lemma bt_len_insert_new: "bt_get m k = None \<Longrightarrow> bt_len (bt_insert k v m) = Suc (bt_len m)"
  by (simp add: bt_len_card card_insert_if domIff)

lemma bt_len_insert_old: "bt_get m k = Some w \<Longrightarrow> bt_len (bt_insert k v m) = bt_len m"
  by (simp add: bt_len_card insert_absorb domI)

lemma bt_len_remove_le: "bt_len (bt_remove k m) \<le> bt_len m"
  by (auto simp: bt_len_card intro: card_mono)

lemma bt_len_map [simp]: "bt_len (bt_map f m) = bt_len m"
  by (simp add: bt_len_card dom_def)

lemma bt_eqI: "bt_get m = bt_get m' \<Longrightarrow> m = m'"
  by (rule bt.ext) simp

section \<open>Maps of maps\<close>

text \<open>
  A map of maps whose inner maps are dropped when they become empty, as the relay keeps its voice
  states and viewer statistics: the two-level lookup and the removal of an inner key.
\<close>

definition nested_get :: "('k::linorder, ('j::linorder, 'v) btree) btree \<Rightarrow> 'k \<Rightarrow> 'j \<Rightarrow> 'v option" where
  "nested_get m k j = (case bt_get m k of None \<Rightarrow> None | Some v \<Rightarrow> bt_get v j)"

definition nested_remove ::
  "'k::linorder \<Rightarrow> 'j::linorder \<Rightarrow> ('k, ('j, 'v) btree) btree \<Rightarrow> ('k, ('j, 'v) btree) btree" where
  "nested_remove k j m =
     (case bt_get m k of
        None \<Rightarrow> m
      | Some v \<Rightarrow>
          let v = bt_remove j v in if bt_is_empty v then bt_remove k m else bt_insert k v m)"

definition no_empty_value :: "('k::linorder, ('j::linorder, 'v) btree) btree \<Rightarrow> bool" where
  "no_empty_value m \<longleftrightarrow> (\<forall>k v. bt_get m k = Some v \<longrightarrow> \<not> bt_is_empty v)"

lemma nested_get_remove:
  "nested_get (nested_remove k j m) k' j' =
     (if k' = k \<and> j' = j then None else nested_get m k' j')"
  by (auto simp: nested_get_def nested_remove_def Let_def bt_is_empty_iff split: option.splits
      if_splits)

lemma nested_get_new [simp]: "nested_get bt_new k j = None"
  by (simp add: nested_get_def)

lemma nested_get_bt_remove:
  "nested_get (bt_remove k m) k' j = (if k' = k then None else nested_get m k' j)"
  by (simp add: nested_get_def)

lemma nested_get_entry_insert:
  "nested_get (bt_entry k bt_new (bt_insert j v) m) k' j' =
     (if k' = k \<and> j' = j then Some v else nested_get m k' j')"
  by (auto simp: nested_get_def split: option.splits)

lemma nested_get_entry_or_insert:
  "nested_get (bt_entry k bt_new (bt_or_insert j v) m) k' j' =
     (if k' = k \<and> j' = j \<and> nested_get m k j = None then Some v else nested_get m k' j')"
  by (auto simp: nested_get_def split: option.splits)

lemma no_empty_value_new [simp]: "no_empty_value bt_new"
  by (simp add: no_empty_value_def)

lemma no_empty_value_remove: "no_empty_value m \<Longrightarrow> no_empty_value (bt_remove k m)"
  by (simp add: no_empty_value_def)

lemma no_empty_value_nested_remove: "no_empty_value m \<Longrightarrow> no_empty_value (nested_remove k j m)"
  by (auto simp: no_empty_value_def nested_remove_def Let_def split: option.splits if_splits)

lemma no_empty_value_entry:
  "no_empty_value m \<Longrightarrow> no_empty_value (bt_entry k bt_new (bt_insert j v) m)"
  "no_empty_value m \<Longrightarrow> no_empty_value (bt_entry k bt_new (bt_or_insert j v) m)"
  by (auto simp: no_empty_value_def bt_is_empty_iff split: option.splits)

lemma no_empty_valueD: "no_empty_value m \<Longrightarrow> bt_get m k = Some v \<Longrightarrow> \<exists>j w. nested_get m k j = Some w"
  by (auto simp: no_empty_value_def nested_get_def bt_is_empty_iff)

lemma bt_get_fold_remove:
  "bt_get (fold bt_remove ks m) k = (if k \<in> set ks then None else bt_get m k)"
  by (induction ks arbitrary: m) auto

instantiation btree :: (linorder, equal) equal
begin

definition equal_btree :: "('a, 'b) btree \<Rightarrow> ('a, 'b) btree \<Rightarrow> bool" where
  "equal_btree m m' \<longleftrightarrow> bt_iter m = bt_iter m'"

instance
  by standard (simp add: equal_btree_def bt_iter_inject)

end

instantiation btree :: (linorder, type) size
begin

definition size_btree :: "('a, 'b) btree \<Rightarrow> nat" where
  "size_btree m = bt_len m"

instance ..

end

end
