(* ===== verification/Control_Msg.thy ===== *)
theory Control_Msg
  imports Packet
begin

text \<open>
  The control messages of \<open>crates/protocol/src/control.rs\<close> and the statistics of \<open>stats.rs\<close>.
  Each message struct is a record whose fields carry a short prefix (\<open>join_room_id\<close> is the field
  \<open>room_id\<close> of \<open>JoinRoom\<close>), and the two message enums are datatypes over them. The JSON text
  of a message is produced and read by \<open>serde_json\<close>, a parameter of the envelope codec.
\<close>

type_synonym room_id = u64
type_synonym user_id = u64
type_synonym stream_id = u32
type_synonym request_id = u64

section \<open>Message bodies\<close>

datatype media_kind = Screen | Voice | ProbeMedia

datatype keyframe_reason = NewSubscriber | PacketLoss | DecoderRecovery | StreamConfigChanged

datatype pointer_button = LeftButton | RightButton | MiddleButton | X1 | X2

datatype remote_input_kind =
    PointerMove u16 u16
  | PointerButton pointer_button bool u16 u16
  | PointerWheel i16 i16 u16 u16
  | Key u16 bool
  | Text rstring

record control_error =
  err_code :: rstring
  err_message :: rstring

definition control_error_new :: "rstring \<Rightarrow> rstring \<Rightarrow> control_error" where
  "control_error_new code message = \<lparr>err_code = code, err_message = message\<rparr>"

record hello =
  hello_protocol_version :: u8
  hello_client_name :: rstring

record hello_accepted =
  ha_protocol_version :: u8
  ha_server_name :: rstring
  ha_user_id :: user_id
  ha_display_name :: rstring

record ping =
  ping_nonce :: u64

record pong =
  pong_nonce :: u64

record time_sync_request =
  tsq_client_send_time_micros :: u64

record time_sync_response =
  tsr_client_send_time_micros :: u64
  tsr_server_receive_time_micros :: u64
  tsr_server_send_time_micros :: u64

record authenticate =
  auth_token :: rstring

record authenticated =
  authd_user_id :: user_id
  authd_display_name :: rstring

record create_room =
  create_name :: rstring

record room_created =
  created_room_id :: room_id
  created_name :: rstring

record room_summary =
  rs_room_id :: room_id
  rs_name :: rstring
  rs_participant_count :: u32
  rs_published_stream_count :: u32

record room_list =
  rl_rooms :: "room_summary list"

record join_room =
  join_room_id :: room_id

record room_joined =
  joined_room_id :: room_id
  joined_participant_count :: u32

record list_participants =
  lp_room_id :: room_id

record participant_summary =
  psum_room_id :: room_id
  psum_user_id :: user_id
  psum_display_name :: rstring
  psum_muted :: bool
  psum_deafened :: bool
  psum_push_to_talk :: bool
  psum_speaking :: bool
  psum_published_stream_count :: u32
  psum_subscribed_stream_count :: u32

record participant_list =
  pl_room_id :: room_id
  pl_participants :: "participant_summary list"

record publish_stream =
  pub_room_id :: room_id
  pub_stream_id :: stream_id
  pub_codec :: codec_id
  pub_media_kind :: media_kind

record stream_published =
  sp_room_id :: room_id
  sp_stream_id :: stream_id

record unpublish_stream =
  unpub_room_id :: room_id
  unpub_stream_id :: stream_id

record stream_unpublished =
  su_room_id :: room_id
  su_stream_id :: stream_id

record list_streams =
  ls_room_id :: room_id

record stream_summary =
  ssum_room_id :: room_id
  ssum_stream_id :: stream_id
  ssum_publisher_id :: user_id
  ssum_codec :: codec_id
  ssum_media_kind :: media_kind
  ssum_subscriber_count :: u32
  ssum_has_config :: bool
  ssum_target_bitrate_bps :: u32
  ssum_target_frames_per_second :: u16

record stream_list =
  sl_room_id :: room_id
  sl_streams :: "stream_summary list"

record subscribe_stream =
  sub_room_id :: room_id
  sub_stream_id :: stream_id

record stream_subscribed =
  ss_room_id :: room_id
  ss_stream_id :: stream_id

record unsubscribe_stream =
  unsub_room_id :: room_id
  unsub_stream_id :: stream_id

record stream_unsubscribed =
  sus_room_id :: room_id
  sus_stream_id :: stream_id

record leave_room_msg =
  leave_room_id :: room_id

record room_left =
  left_room_id :: room_id

record set_voice_state_msg =
  svs_room_id :: room_id
  svs_muted :: bool
  svs_deafened :: bool
  svs_push_to_talk :: bool
  svs_speaking :: bool

record voice_state =
  vs_room_id :: room_id
  vs_user_id :: user_id
  vs_muted :: bool
  vs_deafened :: bool
  vs_push_to_talk :: bool
  vs_speaking :: bool

record request_keyframe_msg =
  rk_room_id :: room_id
  rk_stream_id :: stream_id
  rk_reason :: keyframe_reason

record send_remote_input_msg =
  sri_room_id :: room_id
  sri_stream_id :: stream_id
  sri_sequence_number :: u64
  sri_event_time_micros :: u64
  sri_kind :: remote_input_kind

record poll_remote_input_msg =
  pri_room_id :: room_id
  pri_stream_id :: stream_id
  pri_max_events :: u16

record remote_input_queued =
  riq_room_id :: room_id
  riq_stream_id :: stream_id
  riq_publisher_id :: user_id
  riq_queued_events :: u16
  riq_dropped_events :: u16

record remote_input_event =
  rie_sender_user_id :: user_id
  rie_sequence_number :: u64
  rie_event_time_micros :: u64
  rie_kind :: remote_input_kind

record remote_input_batch =
  rib_room_id :: room_id
  rib_stream_id :: stream_id
  rib_events :: "remote_input_event list"

record stream_config =
  sc_room_id :: room_id
  sc_stream_id :: stream_id
  sc_codec :: codec_id
  sc_width :: u32
  sc_height :: u32
  sc_frames_per_second :: u16
  sc_timebase_hz :: u32

record poll_stream_config_msg =
  psc_room_id :: room_id
  psc_stream_id :: stream_id

record poll_stream_metrics_msg =
  psm_room_id :: room_id
  psm_stream_id :: stream_id

record stream_metrics_snapshot =
  sms_room_id :: room_id
  sms_stream_id :: stream_id
  sms_ingress_packets :: u64
  sms_ingress_bytes :: u64
  sms_egress_queued_packets :: u64
  sms_egress_dropped_packets :: u64
  sms_egress_queue_packets :: u32
  sms_egress_queue_media_ms :: u16
  sms_subscriber_count :: u32
  sms_last_ingress_time_micros :: u64
  sms_server_route_ms_p50 :: u16
  sms_server_route_ms_p95 :: u16

record publisher_feedback =
  pf_room_id :: room_id
  pf_stream_id :: stream_id
  pf_aggregate_available_bitrate_bps :: u32
  pf_target_frames_per_second :: u16
  pf_target_width :: u32
  pf_target_height :: u32
  pf_degraded_viewer_count :: u32
  pf_total_viewer_count :: u32
  pf_keyframe_requested :: bool

record viewer_stats_report =
  vsr_room_id :: room_id
  vsr_stream_id :: stream_id
  vsr_received_packets :: u64
  vsr_lost_packets :: u64
  vsr_decoded_frames :: u64
  vsr_dropped_frames :: u64
  vsr_jitter_buffer_ms :: u16
  vsr_estimated_latency_ms :: u16
  vsr_calibrated_latency_ms :: u16
  vsr_reassembly_ms_p50 :: u16
  vsr_reassembly_ms_p95 :: u16
  vsr_decode_ms_p50 :: u16
  vsr_decode_ms_p95 :: u16
  vsr_render_ms_p50 :: u16
  vsr_render_ms_p95 :: u16
  vsr_render_fps :: u16

record poll_publisher_feedback_msg =
  ppf_room_id :: room_id
  ppf_stream_id :: stream_id

record set_target_bitrate_msg =
  stb_room_id :: room_id
  stb_stream_id :: stream_id
  stb_bitrate_bps :: u32

record set_target_framerate_msg =
  stf_room_id :: room_id
  stf_stream_id :: stream_id
  stf_frames_per_second :: u16

section \<open>The message enums and the envelope\<close>

datatype client_control =
    Hello hello
  | Ping ping
  | TimeSync time_sync_request
  | Authenticate authenticate
  | CreateRoom create_room
  | ListRooms
  | JoinRoom join_room
  | ListParticipants list_participants
  | PublishStream publish_stream
  | UnpublishStream unpublish_stream
  | ListStreams list_streams
  | SubscribeStream subscribe_stream
  | UnsubscribeStream unsubscribe_stream
  | LeaveRoom leave_room_msg
  | SetVoiceState set_voice_state_msg
  | SetStreamConfig stream_config
  | PollStreamConfig poll_stream_config_msg
  | PollStreamMetrics poll_stream_metrics_msg
  | RequestKeyframe request_keyframe_msg
  | SendRemoteInput send_remote_input_msg
  | PollRemoteInput poll_remote_input_msg
  | ViewerStats viewer_stats_report
  | PollPublisherFeedback poll_publisher_feedback_msg
  | SetTargetBitrate set_target_bitrate_msg
  | SetTargetFramerate set_target_framerate_msg

datatype server_control =
    HelloAccepted hello_accepted
  | Pong pong
  | TimeSyncR time_sync_response
  | Authenticated authenticated
  | RoomCreated room_created
  | RoomList room_list
  | RoomJoined room_joined
  | ParticipantList participant_list
  | StreamPublished stream_published
  | StreamUnpublished stream_unpublished
  | StreamList stream_list
  | StreamSubscribed stream_subscribed
  | StreamUnsubscribed stream_unsubscribed
  | RoomLeft room_left
  | VoiceStateUpdated voice_state
  | RequestKeyframeR request_keyframe_msg
  | StreamConfigR stream_config
  | StreamMetrics stream_metrics_snapshot
  | RemoteInputQueued remote_input_queued
  | RemoteInputBatch remote_input_batch
  | PublisherFeedback publisher_feedback
  | Error control_error

record 'm control_envelope =
  env_protocol_version :: u8
  env_request_id :: request_id
  env_message :: 'm

definition envelope_new :: "request_id \<Rightarrow> 'm \<Rightarrow> 'm control_envelope" where
  "envelope_new request_id message =
     \<lparr>env_protocol_version = PROTOCOL_VERSION, env_request_id = request_id,
      env_message = message\<rparr>"

type_synonym client_envelope = "client_control control_envelope"
type_synonym server_envelope = "server_control control_envelope"

section \<open>The envelope codec\<close>

text \<open>
  \<open>ser\<close> and \<open>de\<close> are \<open>serde_json::to_vec\<close> and \<open>serde_json::from_slice\<close>; \<open>'j\<close> is the type of
  their errors. The codec adds the newline, strips ASCII white space and checks the version.
\<close>

datatype 'j control_codec_error = Json 'j | UnsupportedEnvelopeVersion u8

definition is_ascii_whitespace :: "u8 \<Rightarrow> bool" where
  "is_ascii_whitespace b \<longleftrightarrow> b = 9 \<or> b = 10 \<or> b = 12 \<or> b = 13 \<or> b = 32"

definition trim_ascii :: "bytes \<Rightarrow> bytes" where
  "trim_ascii bs =
     rev (dropWhile is_ascii_whitespace (rev (dropWhile is_ascii_whitespace bs)))"

definition encode_envelope ::
  "('m control_envelope \<Rightarrow> 'j + bytes) \<Rightarrow> 'm control_envelope \<Rightarrow> 'j control_codec_error + bytes"
where
  "encode_envelope ser envelope =
     and_then (map_err Json (ser envelope)) (\<lambda>bytes. Inr (bytes @ [10]))"

definition decode_envelope ::
  "(bytes \<Rightarrow> 'j + 'm control_envelope) \<Rightarrow> bytes \<Rightarrow> 'j control_codec_error + 'm control_envelope"
where
  "decode_envelope de bs =
     and_then (map_err Json (de (trim_ascii bs))) (\<lambda>envelope.
     if env_protocol_version envelope \<noteq> PROTOCOL_VERSION
     then Inl (UnsupportedEnvelopeVersion (env_protocol_version envelope))
     else Inr envelope)"

text \<open>
  What the codec relies on from \<open>serde_json\<close>: it reads back what it writes, and what it writes
  for an envelope is an object, so it starts with an opening and ends with a closing brace.
\<close>

definition json_codec ::
  "('m control_envelope \<Rightarrow> 'j + bytes) \<Rightarrow> (bytes \<Rightarrow> 'j + 'm control_envelope) \<Rightarrow> bool" where
  "json_codec ser de \<longleftrightarrow>
     (\<forall>e bs. ser e = Inr bs \<longrightarrow> de bs = Inr e \<and> (\<exists>mid. bs = [123] @ mid @ [125]))"

lemma json_codecD:
  assumes "json_codec ser de" and "ser e = Inr bs"
  shows "de bs = Inr e" and "\<exists>mid. bs = [123] @ mid @ [125]"
  using assms by (auto simp: json_codec_def)

text \<open>
  A control envelope of this protocol version survives its encoding as a JSON line, the
  trailing newline included.
\<close>

theorem envelope_roundtrip:
  assumes "json_codec ser de" and "encode_envelope ser e = Inr bs"
    and "env_protocol_version e = PROTOCOL_VERSION"
  shows "decode_envelope de bs = Inr e"
proof -
  from assms(2) obtain js where js: "ser e = Inr js" and bs: "bs = js @ [10]"
    by (auto simp: encode_envelope_def and_then_Inr)
  from json_codecD(2) [OF assms(1) js] obtain mid where "js = [123] @ mid @ [125]" ..
  then have "trim_ascii bs = js" by (simp add: bs trim_ascii_def is_ascii_whitespace_def)
  then show ?thesis using json_codecD(1) [OF assms(1) js] assms(3)
    by (simp add: decode_envelope_def)
qed

theorem envelope_roundtrip_witness:
  "decode_envelope
     (\<lambda>bs. if bs = [123, 125] then Inr (envelope_new 7 ListRooms) else Inl ()) [123, 125, 10] =
   Inr (envelope_new 7 ListRooms)"
proof (rule envelope_roundtrip)
  let ?e = "envelope_new 7 ListRooms"
  show "json_codec (\<lambda>e. if e = ?e then Inr [123, 125] else Inl ())
          (\<lambda>bs. if bs = [123, 125] then Inr ?e else Inl ())"
    by (auto simp: json_codec_def)
  show "encode_envelope (\<lambda>e. if e = ?e then Inr [123, 125] else Inl ()) ?e = Inr [123, 125, 10]"
    by (simp add: encode_envelope_def)
  show "env_protocol_version ?e = PROTOCOL_VERSION" by (simp add: envelope_new_def)
qed

section \<open>Queue and latency statistics\<close>

record queue_stats =
  qs_queued_packets :: u32
  qs_queued_media_ms :: u16
  qs_dropped_packets :: u64
  qs_dropped_frames :: u64

definition is_over_budget :: "queue_stats \<Rightarrow> u16 \<Rightarrow> bool" where
  "is_over_budget stats max_media_ms \<longleftrightarrow> max_media_ms < qs_queued_media_ms stats"

record pipeline_latency_stats =
  pls_capture_ms :: u16
  pls_encode_ms :: u16
  pls_server_route_ms :: u16
  pls_jitter_buffer_ms :: u16
  pls_decode_ms :: u16
  pls_render_ms :: u16

definition estimated_total_ms :: "pipeline_latency_stats \<Rightarrow> u16" where
  "estimated_total_ms s =
     sat_add (sat_add (sat_add (sat_add (sat_add (pls_capture_ms s) (pls_encode_ms s))
       (pls_server_route_ms s)) (pls_jitter_buffer_ms s)) (pls_decode_ms s)) (pls_render_ms s)"

lemma estimated_total_ms_exact:
  "unat (estimated_total_ms s) =
     min (unat (pls_capture_ms s) + unat (pls_encode_ms s) + unat (pls_server_route_ms s) +
          unat (pls_jitter_buffer_ms s) + unat (pls_decode_ms s) + unat (pls_render_ms s)) 65535"
  unfolding estimated_total_ms_def by (simp add: word_nat)

end
