(* ===== verification/Router.thy ===== *)
theory Router
  imports BTree_Map Control_Msg
begin

text \<open>
  The per-viewer queues and the stream fan-out of \<open>crates/relay-server/src/router.rs\<close>, and the
  interface \<open>budgeted_fifo\<close> of a queue with a media budget, which the relay's egress queues
  (theory \<open>Media\<close>) share.
\<close>

section \<open>The contract of a queue with a media budget\<close>

text \<open>
  \<open>items\<close> are the queued elements, oldest first; \<open>used q c\<close> is the accounted media time of class
  \<open>c\<close> (one class, or one per stream); \<open>push\<close> tells whether it accepted. The contract: accounting
  is exact, the budget holds, a push appends or leaves the items alone, a pop takes the oldest.
\<close>

fun fifo_run ::
  "('i \<Rightarrow> 'q \<Rightarrow> bool \<times> 'q) \<Rightarrow> ('q \<Rightarrow> 'i option \<times> 'q) \<Rightarrow> 'i option list \<Rightarrow>
   'q \<Rightarrow> 'i list \<times> 'i list \<times> 'q" where
  "fifo_run push pop [] q = ([], [], q)"
| "fifo_run push pop (Some i # ops) q =
     (case push i q of (ok, q') \<Rightarrow>
      case fifo_run push pop ops q' of (accepted, popped, q'') \<Rightarrow>
        (if ok then i # accepted else accepted, popped, q''))"
| "fifo_run push pop (None # ops) q =
     (case pop q of (r, q') \<Rightarrow>
      case fifo_run push pop ops q' of (accepted, popped, q'') \<Rightarrow>
        (accepted, (case r of None \<Rightarrow> popped | Some i \<Rightarrow> i # popped), q''))"

locale budgeted_fifo =
  fixes inv :: "'q \<Rightarrow> bool"
    and items :: "'q \<Rightarrow> 'i list"
    and cls :: "'i \<Rightarrow> 'c"
    and dur :: "'i \<Rightarrow> nat"
    and used :: "'q \<Rightarrow> 'c \<Rightarrow> nat"
    and budget :: "'q \<Rightarrow> nat"
    and push :: "'i \<Rightarrow> 'q \<Rightarrow> bool \<times> 'q"
    and pop :: "'q \<Rightarrow> 'i option \<times> 'q"
  assumes used_items: "inv q \<Longrightarrow> used q c = sum_list (map dur (filter (\<lambda>i. cls i = c) (items q)))"
    and within: "inv q \<Longrightarrow> used q c \<le> budget q"
    and push_accept: "inv q \<Longrightarrow> push i q = (True, q') \<Longrightarrow>
      inv q' \<and> items q' = items q @ [i] \<and> budget q' = budget q"
    and push_reject: "inv q \<Longrightarrow> push i q = (False, q') \<Longrightarrow>
      inv q' \<and> items q' = items q \<and> budget q' = budget q"
    and pop_empty: "inv q \<Longrightarrow> items q = [] \<Longrightarrow> pop q = (None, q)"
    and pop_first: "inv q \<Longrightarrow> items q = i # is \<Longrightarrow>
      \<exists>q'. pop q = (Some i, q') \<and> inv q' \<and> items q' = is \<and> budget q' = budget q"
begin

lemma push_cases:
  assumes "inv q" and "push i q = (ok, q')"
  shows "inv q' \<and> items q' = (if ok then items q @ [i] else items q) \<and> budget q' = budget q"
  using assms push_accept [of q i q'] push_reject [of q i q'] by (cases ok) auto

lemma pop_cases:
  assumes "inv q" and "pop q = (r, q')"
  shows "inv q' \<and> budget q' = budget q \<and>
    items q = (case r of None \<Rightarrow> [] | Some i \<Rightarrow> [i]) @ items q'"
proof (cases "items q")
  case Nil
  with assms pop_empty [OF assms(1)] show ?thesis by auto
next
  case (Cons i "is")
  with pop_first [OF assms(1) Cons] assms(2) show ?thesis by auto
qed

lemma run_inv:
  "inv q \<Longrightarrow> fifo_run push pop ops q = (accepted, popped, q') \<Longrightarrow>
   inv q' \<and> budget q' = budget q \<and> items q @ accepted = popped @ items q'"
proof (induction ops arbitrary: q accepted popped)
  case (Cons x ops)
  show ?case
  proof (cases x)
    case None
    obtain r q1 where p: "pop q = (r, q1)" by (cases "pop q")
    obtain a b q2 where run: "fifo_run push pop ops q1 = (a, b, q2)"
      by (cases "fifo_run push pop ops q1")
    note step = pop_cases [OF Cons.prems(1) p]
    with None p run Cons.prems(2) Cons.IH [of q1 a b] show ?thesis by (cases r) auto
  next
    case (Some i)
    obtain ok q1 where p: "push i q = (ok, q1)" by (cases "push i q")
    obtain a b q2 where run: "fifo_run push pop ops q1 = (a, b, q2)"
      by (cases "fifo_run push pop ops q1")
    note step = push_cases [OF Cons.prems(1) p]
    with Some p run Cons.prems(2) Cons.IH [of q1 a b] show ?thesis by (cases ok) auto
  qed
qed simp

lemma run_fifo:
  assumes "inv q" and "items q = []" and "fifo_run push pop ops q = (accepted, popped, q')"
  shows "accepted = popped @ items q' \<and> used q' c \<le> budget q"
  using run_inv [OF assms(1,3)] assms(2) within [of q' c] by simp

end

section \<open>Viewer queues\<close>

datatype enqueue_decision = Enqueue | DropForViewer

definition decide_enqueue :: "queue_stats \<Rightarrow> u16 \<Rightarrow> enqueue_decision" where
  "decide_enqueue queue queue_budget_ms =
     (if is_over_budget queue queue_budget_ms then DropForViewer else Enqueue)"

record queued_packet =
  qp_packet :: media_packet
  qp_media_duration_ms :: u16

record viewer_queue =
  vq_viewer_id :: user_id
  vq_queued_packets :: "queued_packet list"
  vq_queued_media_ms :: u16
  vq_queue_budget_ms :: u16
  vq_received_packets :: u64
  vq_dropped_packets :: u64
  vq_dropped_frames :: u64

definition viewer_queue_new :: "user_id \<Rightarrow> u16 \<Rightarrow> viewer_queue" where
  "viewer_queue_new viewer_id queue_budget_ms =
     \<lparr>vq_viewer_id = viewer_id, vq_queued_packets = [], vq_queued_media_ms = 0,
      vq_queue_budget_ms = queue_budget_ms, vq_received_packets = 0, vq_dropped_packets = 0,
      vq_dropped_frames = 0\<rparr>"

definition vq_enqueue ::
  "media_packet \<Rightarrow> u16 \<Rightarrow> viewer_queue \<Rightarrow> enqueue_decision \<times> viewer_queue" where
  "vq_enqueue packet media_duration_ms q =
     (if vq_queue_budget_ms q < sat_add (vq_queued_media_ms q) media_duration_ms
      then
        let q = q\<lparr>vq_dropped_packets := sat_add (vq_dropped_packets q) 1\<rparr>;
            q = (if flags_contains (h_flags (p_header packet)) END_OF_FRAME
                 then q\<lparr>vq_dropped_frames := sat_add (vq_dropped_frames q) 1\<rparr> else q)
        in (DropForViewer, q)
      else
        (Enqueue,
         q\<lparr>vq_received_packets := sat_add (vq_received_packets q) 1,
           vq_queued_media_ms := sat_add (vq_queued_media_ms q) media_duration_ms,
           vq_queued_packets := vq_queued_packets q @
             [\<lparr>qp_packet = packet, qp_media_duration_ms = media_duration_ms\<rparr>]\<rparr>))"

definition vq_drain_one :: "viewer_queue \<Rightarrow> media_packet option \<times> viewer_queue" where
  "vq_drain_one q =
     (case vq_queued_packets q of
        [] \<Rightarrow> (None, q)
      | queued # rest \<Rightarrow>
          (Some (qp_packet queued),
           q\<lparr>vq_queued_packets := rest,
             vq_queued_media_ms :=
               sat_sub (vq_queued_media_ms q) (qp_media_duration_ms queued)\<rparr>))"

definition vq_stats :: "viewer_queue \<Rightarrow> queue_stats" where
  "vq_stats q =
     \<lparr>qs_queued_packets = of_nat (length (vq_queued_packets q)),
      qs_queued_media_ms = vq_queued_media_ms q, qs_dropped_packets = vq_dropped_packets q,
      qs_dropped_frames = vq_dropped_frames q\<rparr>"

section \<open>Fan-out\<close>

record stream_fanout =
  fo_stream_id :: stream_id
  fo_viewers :: "(user_id, viewer_queue) btree"

record fanout_summary =
  fs_stream_id :: stream_id
  fs_delivered_to :: "user_id set"
  fs_dropped_for :: "user_id set"

definition fanout_new :: "stream_id \<Rightarrow> stream_fanout" where
  "fanout_new sid = \<lparr>fo_stream_id = sid, fo_viewers = bt_new\<rparr>"

definition add_viewer :: "user_id \<Rightarrow> u16 \<Rightarrow> stream_fanout \<Rightarrow> stream_fanout" where
  "add_viewer viewer_id queue_budget_ms f =
     f\<lparr>fo_viewers := bt_or_insert viewer_id (viewer_queue_new viewer_id queue_budget_ms)
                       (fo_viewers f)\<rparr>"

definition remove_viewer :: "user_id \<Rightarrow> stream_fanout \<Rightarrow> stream_fanout" where
  "remove_viewer viewer_id f = f\<lparr>fo_viewers := bt_remove viewer_id (fo_viewers f)\<rparr>"

text \<open>The loop over the viewers: each queue is updated in place, the decisions are collected.\<close>

fun fanout_loop ::
  "media_packet \<Rightarrow> u16 \<Rightarrow> (user_id \<times> viewer_queue) list \<Rightarrow>
   (user_id set \<times> user_id set) \<Rightarrow> user_id set \<times> user_id set" where
  "fanout_loop packet d [] (delivered_to, dropped_for) = (delivered_to, dropped_for)"
| "fanout_loop packet d ((viewer_id, queue) # viewers) (delivered_to, dropped_for) =
     (case fst (vq_enqueue packet d queue) of
        Enqueue \<Rightarrow> fanout_loop packet d viewers (insert viewer_id delivered_to, dropped_for)
      | DropForViewer \<Rightarrow> fanout_loop packet d viewers (delivered_to, insert viewer_id dropped_for))"

definition fanout ::
  "media_packet \<Rightarrow> u16 \<Rightarrow> stream_fanout \<Rightarrow> fanout_summary \<times> stream_fanout" where
  "fanout packet media_duration_ms f =
     (case fanout_loop packet media_duration_ms (bt_iter (fo_viewers f)) ({}, {}) of
        (delivered_to, dropped_for) \<Rightarrow>
          (\<lparr>fs_stream_id = fo_stream_id f, fs_delivered_to = delivered_to,
            fs_dropped_for = dropped_for\<rparr>,
           f\<lparr>fo_viewers := bt_map (\<lambda>_ queue. snd (vq_enqueue packet media_duration_ms queue))
                             (fo_viewers f)\<rparr>))"

definition viewer_queue_of :: "user_id \<Rightarrow> stream_fanout \<Rightarrow> viewer_queue option" where
  "viewer_queue_of viewer_id f = bt_get (fo_viewers f) viewer_id"

section \<open>Lemmas\<close>

text \<open>
  The queue invariant. A budget of 65535 is left out: there the saturating sum can never exceed the
  budget, see \<open>full_budget_never_drops\<close>.
\<close>

definition vq_inv :: "viewer_queue \<Rightarrow> bool" where
  "vq_inv q \<longleftrightarrow>
     unat (vq_queued_media_ms q) =
       sum_list (map (\<lambda>p. unat (qp_media_duration_ms p)) (vq_queued_packets q)) \<and>
     vq_queued_media_ms q \<le> vq_queue_budget_ms q \<and> unat (vq_queue_budget_ms q) < 65535"

definition vq_push :: "queued_packet \<Rightarrow> viewer_queue \<Rightarrow> bool \<times> viewer_queue" where
  "vq_push i q =
     (let r = vq_enqueue (qp_packet i) (qp_media_duration_ms i) q in (fst r = Enqueue, snd r))"

definition vq_pop :: "viewer_queue \<Rightarrow> queued_packet option \<times> viewer_queue" where
  "vq_pop q =
     ((case vq_queued_packets q of [] \<Rightarrow> None | p # _ \<Rightarrow> Some p), snd (vq_drain_one q))"

lemma unat_sat_add_u16: "unat (sat_add a b) = min (unat a + unat b) 65535" for a b :: u16
  by (simp add: unat_sat_add)

interpretation vqf: budgeted_fifo
  vq_inv vq_queued_packets "\<lambda>_. ()" "\<lambda>p. unat (qp_media_duration_ms p)"
  "\<lambda>q _. unat (vq_queued_media_ms q)" "\<lambda>q. unat (vq_queue_budget_ms q)" vq_push vq_pop
proof
  fix q q' :: viewer_queue and i :: queued_packet and "is" :: "queued_packet list" and c :: unit
  show "vq_inv q \<Longrightarrow> unat (vq_queued_media_ms q) =
      sum_list (map (\<lambda>p. unat (qp_media_duration_ms p))
        (filter (\<lambda>i. () = c) (vq_queued_packets q)))"
    by (simp add: vq_inv_def)
  show "vq_inv q \<Longrightarrow> unat (vq_queued_media_ms q) \<le> unat (vq_queue_budget_ms q)"
    by (simp add: vq_inv_def word_le_nat_alt)
  show "vq_inv q' \<and> vq_queued_packets q' = vq_queued_packets q @ [i] \<and>
      unat (vq_queue_budget_ms q') = unat (vq_queue_budget_ms q)"
    if "vq_inv q" "vq_push i q = (True, q')"
    using that
    by (auto simp: vq_inv_def vq_push_def vq_enqueue_def Let_def word_le_nat_alt word_less_nat_alt
        unat_sat_add_u16 split: if_splits)
  show "vq_inv q' \<and> vq_queued_packets q' = vq_queued_packets q \<and>
      unat (vq_queue_budget_ms q') = unat (vq_queue_budget_ms q)"
    if "vq_inv q" "vq_push i q = (False, q')"
    using that by (auto simp: vq_inv_def vq_push_def vq_enqueue_def Let_def split: if_splits)
  show "vq_inv q \<Longrightarrow> vq_queued_packets q = [] \<Longrightarrow> vq_pop q = (None, q)"
    by (simp add: vq_pop_def vq_drain_one_def)
  show "\<exists>q'. vq_pop q = (Some i, q') \<and> vq_inv q' \<and> vq_queued_packets q' = is \<and>
      unat (vq_queue_budget_ms q') = unat (vq_queue_budget_ms q)"
    if "vq_inv q" "vq_queued_packets q = i # is"
    using that
    by (auto simp: vq_pop_def vq_drain_one_def vq_inv_def word_le_nat_alt unat_sat_sub)
qed

lemma vq_inv_new: "unat budget < 65535 \<Longrightarrow> vq_inv (viewer_queue_new v budget)"
  by (simp add: vq_inv_def viewer_queue_new_def)

lemma fanout_loop_spec:
  "fanout_loop packet d viewers (del, drp) =
     (del \<union> {v. \<exists>q. (v, q) \<in> set viewers \<and> fst (vq_enqueue packet d q) = Enqueue},
      drp \<union> {v. \<exists>q. (v, q) \<in> set viewers \<and> fst (vq_enqueue packet d q) = DropForViewer})"
proof (induction viewers arbitrary: del drp)
  case (Cons x viewers)
  obtain v q where "x = (v, q)" by (cases x)
  then show ?case using Cons by (cases "fst (vq_enqueue packet d q)") auto
qed simp

lemma fanout_sel:
  "fs_delivered_to (fst (fanout packet d f)) =
     {v. \<exists>q. viewer_queue_of v f = Some q \<and> fst (vq_enqueue packet d q) = Enqueue}"
  "fs_dropped_for (fst (fanout packet d f)) =
     {v. \<exists>q. viewer_queue_of v f = Some q \<and> fst (vq_enqueue packet d q) = DropForViewer}"
  "viewer_queue_of v (snd (fanout packet d f)) =
     map_option (\<lambda>q. snd (vq_enqueue packet d q)) (viewer_queue_of v f)"
  by (simp_all add: fanout_def fanout_loop_spec viewer_queue_of_def bt.in_iter_iff)

lemma vq_enqueue_decision:
  "fst (vq_enqueue packet d q) =
     (if sat_add (vq_queued_media_ms q) d \<le> vq_queue_budget_ms q then Enqueue
      else DropForViewer)"
  by (simp add: vq_enqueue_def Let_def linorder_not_less [symmetric] del: linorder_not_less)

section \<open>Properties\<close>

text \<open>
  A viewer queue is a FIFO within its budget: over any run of enqueues and drains the accepted
  packets are exactly the drained ones followed by the queued ones, in order, and the queued media
  time never exceeds the budget.
\<close>

theorem viewer_queue_fifo_within_budget:
  assumes "unat budget < 65535"
    and "fifo_run vq_push vq_pop ops (viewer_queue_new v budget) = (accepted, popped, q)"
  shows "accepted = popped @ vq_queued_packets q \<and> vq_queued_media_ms q \<le> budget \<and>
    unat (vq_queued_media_ms q) =
      sum_list (map (\<lambda>p. unat (qp_media_duration_ms p)) (vq_queued_packets q))"
proof -
  have new: "vq_inv (viewer_queue_new v budget)" by (rule vq_inv_new [OF assms(1)])
  have "vq_queued_packets (viewer_queue_new v budget) = []"
    "vq_queue_budget_ms (viewer_queue_new v budget) = budget"
    by (simp_all add: viewer_queue_new_def)
  with vqf.run_fifo [OF new _ assms(2)] vqf.run_inv [OF new assms(2)] show ?thesis
    by (simp add: word_le_nat_alt vq_inv_def)
qed

definition sample_media_packet :: media_packet where
  "sample_media_packet = \<lparr>p_header = header_new Video H264 9 1 0, p_payload = []\<rparr>"

theorem viewer_queue_fifo_within_budget_witness:
  "\<exists>accepted popped q. vq_queued_media_ms q \<le> 100 \<and>
     fifo_run vq_push vq_pop
       [Some \<lparr>qp_packet = sample_media_packet, qp_media_duration_ms = 60\<rparr>,
        Some \<lparr>qp_packet = sample_media_packet, qp_media_duration_ms = 50\<rparr>, None]
       (viewer_queue_new 1 100) = (accepted, popped, q)"
proof -
  let ?run = "fifo_run vq_push vq_pop
       [Some \<lparr>qp_packet = sample_media_packet, qp_media_duration_ms = 60\<rparr>,
        Some \<lparr>qp_packet = sample_media_packet, qp_media_duration_ms = 50\<rparr>, None]
       (viewer_queue_new 1 100)"
  obtain accepted popped q where run: "?run = (accepted, popped, q)" by (cases ?run)
  have "vq_queued_media_ms q \<le> 100"
    using viewer_queue_fifo_within_budget [OF _ run] by simp
  with run show ?thesis by blast
qed

text \<open>
  Slow viewers are isolated: fan-out delivers a packet to a viewer, or drops it, by that
  viewer's own queue alone, every viewer gets exactly one of the two, and its queue afterwards is
  what its own enqueue made of it.
\<close>

theorem fanout_isolates_viewers:
  "fs_delivered_to (fst (fanout packet d f)) =
     {v. \<exists>q. viewer_queue_of v f = Some q \<and>
        sat_add (vq_queued_media_ms q) d \<le> vq_queue_budget_ms q} \<and>
   fs_dropped_for (fst (fanout packet d f)) =
     dom (\<lambda>v. viewer_queue_of v f) - fs_delivered_to (fst (fanout packet d f)) \<and>
   viewer_queue_of v (snd (fanout packet d f)) =
     map_option (\<lambda>q. snd (vq_enqueue packet d q)) (viewer_queue_of v f)"
  unfolding fanout_sel vq_enqueue_decision by auto

text \<open>
  A queue with the largest budget, 65535 ms, never drops a packet: the saturating sum of the
  queued media time cannot exceed it, so the budget bounds nothing.
\<close>

theorem full_budget_never_drops:
  "fst (vq_enqueue packet d (q\<lparr>vq_queue_budget_ms := 65535\<rparr>)) = Enqueue"
proof -
  have "unat (sat_add (vq_queued_media_ms q) d) \<le> unat (65535 :: u16)"
    by (simp add: unat_sat_add_u16)
  then show ?thesis by (simp add: vq_enqueue_def word_less_nat_alt not_less)
qed

end
