(* ===== verification/Room.thy ===== *)
theory Room
  imports BTree_Map Control_Msg
begin

text \<open>
  Rooms and sessions of the relay: \<open>crates/relay-server/src/room.rs\<close> and \<open>session.rs\<close>. A
  \<open>BTreeSet\<close> of user ids is a set of words. The lemmas give the effect of every operation on the
  participants, streams and subscriptions, and the room invariant they keep.
\<close>

section \<open>Streams and rooms\<close>

record published_stream =
  st_stream_id :: stream_id
  st_publisher_id :: user_id
  st_codec :: codec_id
  st_media_kind :: media_kind
  st_config :: "stream_config option"
  st_target_bitrate_bps :: u32
  st_target_frames_per_second :: u16
  st_target_width :: u32
  st_target_height :: u32

record room =
  rm_id :: room_id
  rm_name :: rstring
  participants :: "user_id set"
  published_streams :: "(stream_id, published_stream) btree"
  subscriptions :: "(stream_id, user_id set) btree"

definition room_new :: "room_id \<Rightarrow> rstring \<Rightarrow> room" where
  "room_new rid name =
     \<lparr>rm_id = rid, rm_name = name, participants = {}, published_streams = bt_new,
      subscriptions = bt_new\<rparr>"

definition room_join :: "user_id \<Rightarrow> room \<Rightarrow> u32 \<times> room" where
  "room_join user_id r =
     (let r = r\<lparr>participants := insert user_id (participants r)\<rparr>
      in (of_nat (card (participants r)), r))"

definition room_leave :: "user_id \<Rightarrow> room \<Rightarrow> room" where
  "room_leave user_id r =
     r\<lparr>participants := participants r - {user_id},
       subscriptions :=
         bt_retain (\<lambda>_ subscribers. subscribers \<noteq> {})
           (bt_map (\<lambda>_ subscribers. subscribers - {user_id}) (subscriptions r))\<rparr>"

definition room_publish_stream :: "published_stream \<Rightarrow> room \<Rightarrow> room" where
  "room_publish_stream stream r =
     r\<lparr>published_streams := bt_insert (st_stream_id stream) stream (published_streams r)\<rparr>"

definition streams_published_by :: "user_id \<Rightarrow> room \<Rightarrow> stream_id list" where
  "streams_published_by user_id r =
     map fst (filter (\<lambda>(_, stream). st_publisher_id stream = user_id)
                (bt_iter (published_streams r)))"

definition remove_published_stream :: "stream_id \<Rightarrow> room \<Rightarrow> published_stream option \<times> room" where
  "remove_published_stream stream_id r =
     (bt_get (published_streams r) stream_id,
      r\<lparr>published_streams := bt_remove stream_id (published_streams r),
        subscriptions := bt_remove stream_id (subscriptions r)\<rparr>)"

definition room_subscribe :: "stream_id \<Rightarrow> user_id \<Rightarrow> room \<Rightarrow> bool \<times> room" where
  "room_subscribe stream_id user_id r =
     (if \<not> bt_contains stream_id (published_streams r) then (False, r)
      else (True, r\<lparr>subscriptions := bt_entry stream_id {} (insert user_id) (subscriptions r)\<rparr>))"

definition room_unsubscribe :: "stream_id \<Rightarrow> user_id \<Rightarrow> room \<Rightarrow> room" where
  "room_unsubscribe stream_id user_id r =
     (case bt_get (subscriptions r) stream_id of
        None \<Rightarrow> r
      | Some subscribers \<Rightarrow>
          let subscribers = subscribers - {user_id} in
          if subscribers = {}
          then r\<lparr>subscriptions := bt_remove stream_id (subscriptions r)\<rparr>
          else r\<lparr>subscriptions := bt_insert stream_id subscribers (subscriptions r)\<rparr>)"

definition room_is_empty :: "room \<Rightarrow> bool" where
  "room_is_empty r \<longleftrightarrow> participants r = {} \<and> bt_is_empty (published_streams r)"

section \<open>Views of a room\<close>

text \<open>The subscribers of a stream, empty when it has no entry.\<close>

definition room_subscribers :: "room \<Rightarrow> stream_id \<Rightarrow> user_id set" where
  "room_subscribers r s = (case bt_get (subscriptions r) s of None \<Rightarrow> {} | Some u \<Rightarrow> u)"

text \<open>
  The room invariant: streams are stored under their own id and published by participants; every
  subscription entry is a non-empty set of participants under a published stream.
\<close>

definition room_inv :: "room \<Rightarrow> bool" where
  "room_inv r \<longleftrightarrow>
     (\<forall>s st. bt_get (published_streams r) s = Some st \<longrightarrow>
        st_stream_id st = s \<and> st_publisher_id st \<in> participants r) \<and>
     (\<forall>s us. bt_get (subscriptions r) s = Some us \<longrightarrow>
        us \<noteq> {} \<and> us \<subseteq> participants r \<and> bt_get (published_streams r) s \<noteq> None)"

lemma room_inv_stream:
  "room_inv r \<Longrightarrow> bt_get (published_streams r) s = Some st \<Longrightarrow>
   st_stream_id st = s \<and> st_publisher_id st \<in> participants r"
  by (simp add: room_inv_def)

lemma room_inv_subs:
  "room_inv r \<Longrightarrow> bt_get (subscriptions r) s = Some us \<Longrightarrow>
   us \<noteq> {} \<and> us \<subseteq> participants r \<and> (\<exists>st. bt_get (published_streams r) s = Some st)"
  unfolding room_inv_def by blast

lemma room_inv_new [simp]: "room_inv (room_new i n)"
  by (simp add: room_inv_def room_new_def)

lemma room_inv_join: "room_inv r \<Longrightarrow> room_inv (snd (room_join u r))"
  unfolding room_inv_def room_join_def by (auto simp: Let_def) blast

lemma room_inv_publish:
  "room_inv r \<Longrightarrow> st_publisher_id st \<in> participants r \<Longrightarrow> room_inv (room_publish_stream st r)"
  unfolding room_inv_def room_publish_stream_def by auto

lemma room_inv_remove: "room_inv r \<Longrightarrow> room_inv (snd (remove_published_stream s r))"
  unfolding room_inv_def remove_published_stream_def by auto

lemma room_inv_subscribe:
  "room_inv r \<Longrightarrow> u \<in> participants r \<Longrightarrow> room_inv (snd (room_subscribe s u r))"
  unfolding room_inv_def room_subscribe_def by (auto split: option.splits)

lemma room_inv_unsubscribe: "room_inv r \<Longrightarrow> room_inv (room_unsubscribe s u r)"
  unfolding room_inv_def room_unsubscribe_def by (auto simp: Let_def split: option.splits) blast

text \<open>
  Leaving keeps every part of the invariant but one: the leaver's own streams are still published,
  until the caller removes them.
\<close>

lemma room_leave_get:
  "bt_get (subscriptions (room_leave u r)) s =
     (case bt_get (subscriptions r) s of None \<Rightarrow> None
      | Some us \<Rightarrow> if us - {u} = {} then None else Some (us - {u}))"
  by (simp add: room_leave_def split: option.splits)

lemma room_subscribers_leave: "room_subscribers (room_leave u r) s = room_subscribers r s - {u}"
  by (auto simp: room_subscribers_def room_leave_get split: option.splits if_splits)

lemma room_subscribers_unsubscribe:
  "room_subscribers (room_unsubscribe s u r) s' =
     (if s' = s then room_subscribers r s - {u} else room_subscribers r s')"
  by (auto simp: room_subscribers_def room_unsubscribe_def Let_def split: option.splits)

lemma room_subscribers_subscribe:
  "bt_get (published_streams r) s \<noteq> None \<Longrightarrow>
   room_subscribers (snd (room_subscribe s u r)) s' =
     (if s' = s then insert u (room_subscribers r s) else room_subscribers r s')"
  by (auto simp: room_subscribers_def room_subscribe_def split: option.splits)

lemma room_subscribers_remove:
  "room_subscribers (snd (remove_published_stream s r)) s' =
     (if s' = s then {} else room_subscribers r s')"
  by (simp add: room_subscribers_def remove_published_stream_def)

lemma set_streams_published_by:
  "set (streams_published_by u r) =
     {s. \<exists>st. bt_get (published_streams r) s = Some st \<and> st_publisher_id st = u}"
  unfolding streams_published_by_def
  by (force simp: bt.in_iter_iff)

text \<open>Removing a list of streams, as the caller of \<open>room_leave\<close> does.\<close>

definition remove_streams :: "stream_id list \<Rightarrow> room \<Rightarrow> room" where
  "remove_streams ss r = fold (\<lambda>s r. snd (remove_published_stream s r)) ss r"

lemma remove_streams_sel:
  "participants (remove_streams ss r) = participants r"
  "rm_id (remove_streams ss r) = rm_id r"
  "rm_name (remove_streams ss r) = rm_name r"
  by (induction ss arbitrary: r) (simp_all add: remove_streams_def remove_published_stream_def)

lemma remove_streams_published:
  "bt_get (published_streams (remove_streams ss r)) s =
     (if s \<in> set ss then None else bt_get (published_streams r) s)"
  by (induction ss arbitrary: r) (simp_all add: remove_streams_def remove_published_stream_def)

lemma remove_streams_subscriptions:
  "bt_get (subscriptions (remove_streams ss r)) s =
     (if s \<in> set ss then None else bt_get (subscriptions r) s)"
  by (induction ss arbitrary: r) (simp_all add: remove_streams_def remove_published_stream_def)

lemma room_leave_sel [simp]:
  "participants (room_leave u r) = participants r - {u}"
  "rm_id (room_leave u r) = rm_id r"
  "rm_name (room_leave u r) = rm_name r"
  "published_streams (room_leave u r) = published_streams r"
  by (simp_all add: room_leave_def)

lemma room_inv_leave_all:
  assumes "room_inv r"
  shows "room_inv (remove_streams (streams_published_by u r) (room_leave u r))"
  unfolding room_inv_def
proof (intro conjI allI impI)
  fix s st
  assume "bt_get (published_streams
      (remove_streams (streams_published_by u r) (room_leave u r))) s = Some st"
  then have st: "bt_get (published_streams r) s = Some st" and "s \<notin> set (streams_published_by u r)"
    by (auto simp: remove_streams_published split: if_splits)
  then have "st_publisher_id st \<noteq> u" by (auto simp: set_streams_published_by)
  with room_inv_stream [OF assms st] show "st_stream_id st = s"
    "st_publisher_id st \<in> participants
       (remove_streams (streams_published_by u r) (room_leave u r))"
    by (simp_all add: remove_streams_sel)
next
  fix s us
  assume "bt_get (subscriptions
      (remove_streams (streams_published_by u r) (room_leave u r))) s = Some us"
  then obtain us0 where "bt_get (subscriptions r) s = Some us0" and us: "us = us0 - {u}" "us \<noteq> {}"
    and s: "s \<notin> set (streams_published_by u r)"
    by (auto simp: remove_streams_subscriptions room_leave_get split: if_splits option.splits)
  with room_inv_subs [OF assms, of s us0] obtain st where
    "us0 \<subseteq> participants r" and st: "bt_get (published_streams r) s = Some st" by blast
  with us s show "us \<noteq> {}"
    "us \<subseteq> participants (remove_streams (streams_published_by u r) (room_leave u r))"
    "bt_get (published_streams (remove_streams (streams_published_by u r) (room_leave u r))) s
       \<noteq> None"
    by (auto simp: remove_streams_sel remove_streams_published)
qed

section \<open>Sessions\<close>

record session =
  sess_id :: u64
  sess_user_id :: "user_id option"
  sess_display_name :: rstring
  sess_access_granted :: bool

definition session_anonymous :: "u64 \<Rightarrow> session" where
  "session_anonymous sid =
     \<lparr>sess_id = sid, sess_user_id = None, sess_display_name = lit ''session-'' @ dec (unat sid),
      sess_access_granted = False\<rparr>"

definition establish_identity :: "user_id \<Rightarrow> bool \<Rightarrow> rstring \<Rightarrow> session \<Rightarrow> session" where
  "establish_identity user_id access_granted display_name s =
     s\<lparr>sess_user_id := Some user_id, sess_display_name := display_name,
       sess_access_granted := access_granted\<rparr>"

definition update_display_name :: "rstring \<Rightarrow> session \<Rightarrow> session" where
  "update_display_name display_name s = s\<lparr>sess_display_name := display_name\<rparr>"

definition grant_access :: "session \<Rightarrow> session" where
  "grant_access s = s\<lparr>sess_access_granted := True\<rparr>"

definition has_access :: "session \<Rightarrow> bool" where
  "has_access s \<longleftrightarrow> sess_user_id s \<noteq> None \<and> sess_access_granted s"

end
