(* ===== verification/Metrics.thy ===== *)
theory Metrics
  imports Control_Msg "HOL-Library.Multiset"
begin

text \<open>
  The forwarding metrics of \<open>crates/relay-server/src/metrics.rs\<close>: counters that saturate, and a
  ring of the last 64 routing latencies with their percentiles. The ring refines the abstract
  window of the last 64 values pushed. The array \<open>[u16; 64]\<close> is a list of length 64.
\<close>

section \<open>The sample ring\<close>

definition ROUTE_SAMPLE_CAPACITY :: nat where
  "ROUTE_SAMPLE_CAPACITY = 64"

record route_latency_samples =
  ring_values :: "u16 list"
  ring_len :: nat
  ring_next :: nat

definition samples_default :: route_latency_samples where
  "samples_default =
     \<lparr>ring_values = replicate ROUTE_SAMPLE_CAPACITY 0, ring_len = 0, ring_next = 0\<rparr>"

definition samples_push :: "u16 \<Rightarrow> route_latency_samples \<Rightarrow> route_latency_samples" where
  "samples_push v r =
     r\<lparr>ring_values := (ring_values r)[ring_next r := v],
       ring_next := (ring_next r + 1) mod ROUTE_SAMPLE_CAPACITY,
       ring_len := min (ring_len r + 1) ROUTE_SAMPLE_CAPACITY\<rparr>"

definition samples_percentile :: "nat \<Rightarrow> route_latency_samples \<Rightarrow> u16" where
  "samples_percentile percentile r =
     (if ring_len r = 0 then 0
      else
        let samples = sort (take (ring_len r) (ring_values r));
            index = div_ceil (unat (sat_mul (of_nat (ring_len r - 1) :: u32)
                                            (of_nat (min percentile 100)))) 100
        in samples ! min index (length samples - 1))"

section \<open>Stream metrics\<close>

record stream_forwarding_metrics =
  m_ingress_packets :: u64
  m_ingress_bytes :: u64
  m_egress_queued_packets :: u64
  m_egress_dropped_packets :: u64
  m_last_ingress_time_micros :: u64
  m_server_route_samples_ms :: route_latency_samples

definition metrics_default :: stream_forwarding_metrics where
  "metrics_default =
     \<lparr>m_ingress_packets = 0, m_ingress_bytes = 0, m_egress_queued_packets = 0,
      m_egress_dropped_packets = 0, m_last_ingress_time_micros = 0,
      m_server_route_samples_ms = samples_default\<rparr>"

definition record_forwarding ::
  "nat \<Rightarrow> u32 \<Rightarrow> u32 \<Rightarrow> u64 \<Rightarrow> u16 \<Rightarrow> stream_forwarding_metrics \<Rightarrow> stream_forwarding_metrics"
where
  "record_forwarding ingress_bytes queued_packets dropped_packets received_at_micros
     server_route_ms m =
     m\<lparr>m_ingress_packets := sat_add (m_ingress_packets m) 1,
       m_ingress_bytes := sat_add (m_ingress_bytes m) (of_nat ingress_bytes),
       m_egress_queued_packets := sat_add (m_egress_queued_packets m) (ucast queued_packets),
       m_egress_dropped_packets := sat_add (m_egress_dropped_packets m) (ucast dropped_packets),
       m_last_ingress_time_micros := received_at_micros,
       m_server_route_samples_ms := samples_push server_route_ms (m_server_route_samples_ms m)\<rparr>"

definition metrics_snapshot ::
  "room_id \<Rightarrow> stream_id \<Rightarrow> u32 \<Rightarrow> stream_forwarding_metrics \<Rightarrow> stream_metrics_snapshot" where
  "metrics_snapshot rid sid subscriber_count m =
     \<lparr>sms_room_id = rid, sms_stream_id = sid, sms_ingress_packets = m_ingress_packets m,
      sms_ingress_bytes = m_ingress_bytes m,
      sms_egress_queued_packets = m_egress_queued_packets m,
      sms_egress_dropped_packets = m_egress_dropped_packets m,
      sms_egress_queue_packets = 0, sms_egress_queue_media_ms = 0,
      sms_subscriber_count = subscriber_count,
      sms_last_ingress_time_micros = m_last_ingress_time_micros m,
      sms_server_route_ms_p50 = samples_percentile 50 (m_server_route_samples_ms m),
      sms_server_route_ms_p95 = samples_percentile 95 (m_server_route_samples_ms m)\<rparr>"

definition micros_delta_to_millis :: "u64 \<Rightarrow> u64 \<Rightarrow> u16" where
  "micros_delta_to_millis start_micros end_micros =
     ucast (min (sat_sub end_micros start_micros div 1000) 65535)"

text \<open>
  \<open>unix_time_micros\<close>: \<open>since_epoch\<close> is what \<open>duration_since(UNIX_EPOCH)\<close> gives in microseconds,
  \<open>None\<close> for a clock before the epoch.
\<close>

definition unix_time_micros :: "nat option \<Rightarrow> u64" where
  "unix_time_micros since_epoch =
     of_nat (min (case since_epoch of None \<Rightarrow> 0 | Some micros \<Rightarrow> micros) (2 ^ 64 - 1))"

section \<open>The ring as a window\<close>

definition samples_inv :: "route_latency_samples \<Rightarrow> bool" where
  "samples_inv r \<longleftrightarrow>
     length (ring_values r) = ROUTE_SAMPLE_CAPACITY \<and> ring_next r < ROUTE_SAMPLE_CAPACITY \<and>
     ring_len r \<le> ROUTE_SAMPLE_CAPACITY \<and>
     (ring_len r < ROUTE_SAMPLE_CAPACITY \<longrightarrow> ring_next r = ring_len r)"

text \<open>The abstract state: the retained values, oldest first.\<close>

definition window :: "route_latency_samples \<Rightarrow> u16 list" where
  "window r =
     (if ring_len r < ROUTE_SAMPLE_CAPACITY then take (ring_len r) (ring_values r)
      else drop (ring_next r) (ring_values r) @ take (ring_next r) (ring_values r))"

definition last_n :: "nat \<Rightarrow> 'a list \<Rightarrow> 'a list" where
  "last_n n xs = drop (length xs - n) xs"

lemma samples_inv_default: "samples_inv samples_default"
  by (simp add: samples_inv_def samples_default_def ROUTE_SAMPLE_CAPACITY_def)

lemma samples_inv_push: "samples_inv r \<Longrightarrow> samples_inv (samples_push v r)"
  by (auto simp: samples_inv_def samples_push_def ROUTE_SAMPLE_CAPACITY_def)

lemma length_window: "samples_inv r \<Longrightarrow> length (window r) = ring_len r"
  by (auto simp: samples_inv_def window_def)

lemma mset_window:
  assumes "samples_inv r"
  shows "mset (window r) = mset (take (ring_len r) (ring_values r))"
proof (cases "ring_len r < ROUTE_SAMPLE_CAPACITY")
  case False
  with assms have "take (ring_len r) (ring_values r) = ring_values r"
    by (auto simp: samples_inv_def)
  moreover have "mset (ring_values r) =
      mset (take (ring_next r) (ring_values r)) + mset (drop (ring_next r) (ring_values r))"
    by (metis append_take_drop_id mset_append)
  ultimately show ?thesis using False by (simp add: window_def)
qed (simp add: window_def)

lemma window_push:
  assumes "samples_inv r"
  shows "window (samples_push v r) = last_n ROUTE_SAMPLE_CAPACITY (window r @ [v])"
proof -
  let ?vs = "ring_values r" and ?n = "ring_next r"
  have len: "length ?vs = 64" and n: "?n < 64" and l: "ring_len r \<le> 64"
    and partial: "ring_len r < 64 \<Longrightarrow> ?n = ring_len r"
    using assms by (auto simp: samples_inv_def ROUTE_SAMPLE_CAPACITY_def)
  have vs: "?vs = take ?n ?vs @ ?vs ! ?n # drop (Suc ?n) ?vs"
    using n len by (simp add: id_take_nth_drop)
  have upd: "?vs[?n := v] = take ?n ?vs @ v # drop (Suc ?n) ?vs"
    using n len by (simp add: upd_conv_take_nth_drop)
  have grow: "take (Suc ?n) (?vs[?n := v]) = take ?n ?vs @ [v]"
    using n len by (simp add: take_Suc_conv_app_nth)
  consider "ring_len r < 63" | "ring_len r = 63" | "ring_len r = 64" using l by linarith
  then show ?thesis
  proof cases
    case 1
    then have "?n = ring_len r" using partial by simp
    with 1 len show ?thesis
      using grow by (simp add: window_def samples_push_def last_n_def ROUTE_SAMPLE_CAPACITY_def)
  next
    case 2
    then have n63: "?n = 63" using partial by simp
    then have "?vs[63 := v] = take 63 ?vs @ [v]" using upd len by simp
    with 2 n63 len show ?thesis
      by (simp add: window_def samples_push_def last_n_def ROUTE_SAMPLE_CAPACITY_def)
  next
    case 3
    have old: "window r = ?vs ! ?n # drop (Suc ?n) ?vs @ take ?n ?vs"
      using 3 n len by (simp add: window_def ROUTE_SAMPLE_CAPACITY_def Cons_nth_drop_Suc)
    have new: "window (samples_push v r) = drop (Suc ?n) ?vs @ take ?n ?vs @ [v]"
    proof (cases "Suc ?n = 64")
      case True
      then have "?vs[63 := v] = take 63 ?vs @ [v]" using upd len by simp
      with True 3 len show ?thesis
        by (simp add: window_def samples_push_def ROUTE_SAMPLE_CAPACITY_def)
    next
      case False
      with 3 n len show ?thesis
        by (simp add: window_def samples_push_def ROUTE_SAMPLE_CAPACITY_def upd)
    qed
    from n len show ?thesis unfolding new old by (simp add: last_n_def ROUTE_SAMPLE_CAPACITY_def)
  qed
qed

text \<open>
  The percentile is the element of the sorted samples at a rank that never leaves the list; the
  \<open>u32\<close> arithmetic of the index does not saturate.
\<close>

definition percentile_rank :: "nat \<Rightarrow> nat \<Rightarrow> nat" where
  "percentile_rank n p = div_ceil ((n - 1) * min p 100) 100"

lemma div_ceil_100: "div_ceil a 100 = (a + 99) div 100"
proof -
  obtain q r where a: "a = 100 * q + r" and r: "r < 100"
    by (metis mod_less_divisor mult_div_mod_eq zero_less_numeral)
  then have "a div 100 = q" and "a mod 100 = r" by simp_all
  moreover have "(r + 99) div 100 = (if r = 0 then 0 else 1)"
    using r by (auto intro: div_nat_eqI)
  then have "(a + 99) div 100 = q + (if r = 0 then 0 else 1)" by (simp add: a add.assoc)
  ultimately show ?thesis by (simp add: div_ceil_def)
qed

lemma percentile_rank_less: "0 < n \<Longrightarrow> percentile_rank n p \<le> n - 1"
proof -
  assume "0 < n"
  have "(n - 1) * min p 100 \<le> (n - 1) * 100" by simp
  then have "((n - 1) * min p 100 + 99) div 100 \<le> ((n - 1) * 100 + 99) div 100"
    by (intro div_le_mono) simp
  also have "\<dots> = n - 1" by presburger
  finally show ?thesis by (simp only: percentile_rank_def div_ceil_100)
qed

lemma percentile_rank_mono: "p \<le> q \<Longrightarrow> percentile_rank n p \<le> percentile_rank n q"
proof -
  assume "p \<le> q"
  then have "(n - 1) * min p 100 \<le> (n - 1) * min q 100" by (intro mult_le_mono2) auto
  then show ?thesis unfolding percentile_rank_def div_ceil_100 by (intro div_le_mono) simp
qed

lemma samples_percentile_window:
  assumes "samples_inv r" and "window r \<noteq> []"
  shows "samples_percentile p r = sort (window r) ! percentile_rank (length (window r)) p"
proof -
  have len: "length (window r) = ring_len r" by (rule length_window [OF assms(1)])
  have "0 < length (window r)" using assms(2) by simp
  then have l: "0 < ring_len r" "ring_len r \<le> 64"
    using assms(1) by (simp_all only: len samples_inv_def ROUTE_SAMPLE_CAPACITY_def)
  have sort: "sort (take (ring_len r) (ring_values r)) = sort (window r)"
    using mset_window [OF assms(1)] by (intro properties_for_sort) simp_all
  have small: "(ring_len r - 1) * min p 100 \<le> 63 * 100"
    using l by (intro mult_le_mono) auto
  have "unat (of_nat (ring_len r - 1) :: u32) = ring_len r - 1"
    "unat (of_nat (min p 100) :: u32) = min p 100"
    using l by (auto intro!: of_nat_unat_le simp del: of_nat_diff)
  then have "unat (sat_mul (of_nat (ring_len r - 1) :: u32) (of_nat (min p 100))) =
      (ring_len r - 1) * min p 100"
    using small by (simp add: word_nat)
  moreover have "length (take (ring_len r) (ring_values r)) = ring_len r"
    using assms(1) by (simp add: samples_inv_def)
  ultimately show ?thesis
    using l percentile_rank_less [of "ring_len r" p]
    by (simp add: samples_percentile_def sort len Let_def percentile_rank_def min_absorb1)
qed

lemma ring_window_inv:
  "samples_inv (fold samples_push vs samples_default) \<and>
   window (fold samples_push vs samples_default) = last_n ROUTE_SAMPLE_CAPACITY vs"
proof (induction vs rule: rev_induct)
  case Nil
  show ?case using samples_inv_default
    by (simp add: window_def samples_default_def last_n_def ROUTE_SAMPLE_CAPACITY_def)
next
  case (snoc v vs)
  then have "window (samples_push v (fold samples_push vs samples_default)) =
      last_n ROUTE_SAMPLE_CAPACITY (last_n ROUTE_SAMPLE_CAPACITY vs @ [v])"
    by (simp add: window_push)
  also have "\<dots> = last_n ROUTE_SAMPLE_CAPACITY (vs @ [v])"
  proof (cases "length vs \<le> 63")
    case False
    then have "Suc (length vs - 64) = length vs - 63" by linarith
    with False show ?thesis by (simp add: last_n_def ROUTE_SAMPLE_CAPACITY_def)
  qed (simp add: last_n_def ROUTE_SAMPLE_CAPACITY_def)
  finally show ?case using snoc samples_inv_push by simp
qed

section \<open>Properties\<close>

text \<open>
  The latency ring refines a sliding window: after any sequence of pushes its contents are the
  last 64 values pushed, oldest first.
\<close>

theorem ring_refines_window:
  "window (fold samples_push vs samples_default) = last_n ROUTE_SAMPLE_CAPACITY vs"
  using ring_window_inv by blast

text \<open>
  The reported percentiles are order statistics of that window: the median and the 95th
  percentile are samples of the window, the median is the smaller, and the percentile 100 is the
  maximum.
\<close>

theorem percentile_order_statistic:
  assumes "vs \<noteq> []"
  defines "r \<equiv> fold samples_push vs samples_default"
  defines "w \<equiv> last_n ROUTE_SAMPLE_CAPACITY vs"
  shows "samples_percentile 50 r \<in> set w \<and> samples_percentile 95 r \<in> set w \<and>
    samples_percentile 50 r \<le> samples_percentile 95 r \<and>
    samples_percentile 100 r = Max (set w)"
proof -
  have inv: "samples_inv r" and w: "window r = w"
    unfolding r_def w_def using ring_window_inv by blast+
  have ne: "w \<noteq> []"
    using assms(1) by (cases vs) (auto simp: w_def last_n_def ROUTE_SAMPLE_CAPACITY_def)
  have at: "samples_percentile p r = sort w ! percentile_rank (length w) p" for p
    using samples_percentile_window [OF inv] w ne by simp
  have less: "percentile_rank (length w) p < length (sort w)" for p
    using percentile_rank_less [of "length w" p] ne by (simp add: le_less_trans)
  have mem: "samples_percentile p r \<in> set w" for p
    unfolding at using nth_mem [OF less] by simp
  have mono: "samples_percentile p r \<le> samples_percentile q r" if "p \<le> q" for p q
    unfolding at using that less by (intro sorted_nth_mono) (auto intro: percentile_rank_mono)
  have "percentile_rank (length w) 100 = length w - 1"
    by (simp add: percentile_rank_def div_ceil_def)
  then have "samples_percentile 100 r = sort w ! (length (sort w) - 1)" by (simp add: at)
  also have "\<dots> = Max (set w)"
  proof (rule Max_eqI [symmetric])
    show "sort w ! (length (sort w) - 1) \<in> set w" using mem [of 100] by (simp add: calculation)
    fix y assume "y \<in> set w"
    then obtain i where "i < length (sort w)" "sort w ! i = y" by (metis in_set_conv_nth set_sort)
    then show "y \<le> sort w ! (length (sort w) - 1)" by (auto intro!: sorted_nth_mono)
  qed simp
  finally show ?thesis using mem mono by simp
qed

theorem percentile_order_statistic_witness:
  "samples_percentile 50 (fold samples_push [2, 8, 5] samples_default) \<in> {2, 8, 5}"
  using percentile_order_statistic [of "[2, 8, 5]"]
  by (simp add: last_n_def ROUTE_SAMPLE_CAPACITY_def)

end
