(* ===== verification/Control_State.thy ===== *)
theory Control_State
  imports Room Metrics
begin

text \<open>
  The control state of the relay and its operations, \<open>crates/relay-server/src/control.rs\<close>: the
  record \<open>control_state\<close> is \<open>ControlState\<close> (field \<open>x\<close> is \<open>cs_x\<close>), and there is one
  definition per method. A method on \<open>&mut self\<close> returns the updated state; a handler also
  returns the reply. Readings of the clock are arguments.
\<close>

section \<open>Constants, limits and the state\<close>

definition DEFAULT_TARGET_BITRATE_BPS :: u32 where "DEFAULT_TARGET_BITRATE_BPS = 4000000"
definition DEFAULT_TARGET_FRAMES_PER_SECOND :: u16 where "DEFAULT_TARGET_FRAMES_PER_SECOND = 30"
definition MIN_TARGET_BITRATE_BPS :: u32 where "MIN_TARGET_BITRATE_BPS = 16000"
definition MAX_TARGET_BITRATE_BPS :: u32 where "MAX_TARGET_BITRATE_BPS = 16000000"
definition MIN_TARGET_FRAMES_PER_SECOND :: u16 where "MIN_TARGET_FRAMES_PER_SECOND = 5"
definition MAX_TARGET_FRAMES_PER_SECOND :: u16 where "MAX_TARGET_FRAMES_PER_SECOND = 120"
definition DEGRADED_BITRATE_PERCENT :: u32 where "DEGRADED_BITRATE_PERCENT = 80"
definition MIN_TARGET_WIDTH :: u32 where "MIN_TARGET_WIDTH = 320"
definition MIN_TARGET_HEIGHT :: u32 where "MIN_TARGET_HEIGHT = 180"
definition MAX_TARGET_WIDTH :: u32 where "MAX_TARGET_WIDTH = 7680"
definition MAX_TARGET_HEIGHT :: u32 where "MAX_TARGET_HEIGHT = 4320"
definition MAX_DISPLAY_NAME_CHARS :: nat where "MAX_DISPLAY_NAME_CHARS = 64"
definition MAX_ROOM_NAME_CHARS :: nat where "MAX_ROOM_NAME_CHARS = 64"
definition MAX_REMOTE_INPUT_QUEUE_EVENTS :: nat where "MAX_REMOTE_INPUT_QUEUE_EVENTS = 256"
definition MAX_REMOTE_INPUT_BATCH_EVENTS :: nat where "MAX_REMOTE_INPUT_BATCH_EVENTS = 64"
definition MAX_REMOTE_INPUT_TEXT_CHARS :: nat where "MAX_REMOTE_INPUT_TEXT_CHARS = 256"
definition DEFAULT_MAX_ROOMS :: nat where "DEFAULT_MAX_ROOMS = 128"
definition DEFAULT_MAX_PARTICIPANTS_PER_ROOM :: nat where "DEFAULT_MAX_PARTICIPANTS_PER_ROOM = 64"
definition DEFAULT_MAX_STREAMS_PER_ROOM :: nat where "DEFAULT_MAX_STREAMS_PER_ROOM = 8"

record control_limits =
  max_rooms :: nat
  max_participants_per_room :: nat
  max_streams_per_room :: nat

definition limits_default :: control_limits where
  "limits_default =
     \<lparr>max_rooms = DEFAULT_MAX_ROOMS,
      max_participants_per_room = DEFAULT_MAX_PARTICIPANTS_PER_ROOM,
      max_streams_per_room = DEFAULT_MAX_STREAMS_PER_ROOM\<rparr>"

definition limits_sanitized :: "control_limits \<Rightarrow> control_limits" where
  "limits_sanitized l =
     \<lparr>max_rooms = max (max_rooms l) 1,
      max_participants_per_room = max (max_participants_per_room l) 1,
      max_streams_per_room = max (max_streams_per_room l) 1\<rparr>"

record stream_target =
  tg_bitrate_bps :: u32
  tg_frames_per_second :: u16
  tg_width :: u32
  tg_height :: u32

record media_forward_summary =
  mfs_stream_id :: u32
  mfs_queued :: u32
  mfs_dropped :: u32

record control_state =
  cs_rooms :: "(room_id, room) btree"
  cs_display_names :: "(user_id, rstring) btree"
  cs_viewer_stats :: "(stream_id, (user_id, viewer_stats_report) btree) btree"
  cs_voice_states :: "(room_id, (user_id, voice_state) btree) btree"
  cs_pending_keyframe_requests :: "(stream_id, keyframe_reason) btree"
  cs_pending_remote_input :: "(stream_id, remote_input_event list) btree"
  cs_stream_metrics :: "(stream_id, stream_forwarding_metrics) btree"
  cs_access_token :: "rstring option"
  cs_limits :: control_limits
  cs_next_room_id :: room_id
  cs_next_user_id :: user_id

definition control_state_new :: control_state where
  "control_state_new =
     \<lparr>cs_rooms = bt_new, cs_display_names = bt_new, cs_viewer_stats = bt_new,
      cs_voice_states = bt_new, cs_pending_keyframe_requests = bt_new,
      cs_pending_remote_input = bt_new, cs_stream_metrics = bt_new, cs_access_token = None,
      cs_limits = limits_default, cs_next_room_id = 1, cs_next_user_id = 1\<rparr>"

definition with_access_token :: "rstring \<Rightarrow> control_state" where
  "with_access_token token = control_state_new\<lparr>cs_access_token := Some token\<rparr>"

definition with_limits :: "control_limits \<Rightarrow> control_state" where
  "with_limits l = control_state_new\<lparr>cs_limits := limits_sanitized l\<rparr>"

definition with_access_token_and_limits :: "rstring \<Rightarrow> control_limits \<Rightarrow> control_state" where
  "with_access_token_and_limits token l = (with_limits l)\<lparr>cs_access_token := Some token\<rparr>"

text \<open>\<open>ServerControl::Error(ControlError::new(code, message))\<close> of two literals.\<close>

definition error_reply :: "string \<Rightarrow> string \<Rightarrow> server_control" where
  "error_reply code message = Error (control_error_new (lit code) (lit message))"

abbreviation send_hello_first :: server_control where
  "send_hello_first \<equiv> error_reply ''unauthenticated'' ''send Hello first''"

abbreviation room_not_found :: server_control where
  "room_not_found \<equiv> error_reply ''room_not_found'' ''room does not exist''"

abbreviation stream_not_found :: server_control where
  "stream_not_found \<equiv> error_reply ''stream_not_found'' ''stream does not exist''"

section \<open>Pure helpers\<close>

definition viewer_latency_ms :: "viewer_stats_report \<Rightarrow> u16" where
  "viewer_latency_ms report =
     (if 0 < vsr_calibrated_latency_ms report then vsr_calibrated_latency_ms report
      else vsr_estimated_latency_ms report)"

definition viewer_is_degraded :: "viewer_stats_report \<Rightarrow> bool" where
  "viewer_is_degraded report \<longleftrightarrow>
     0 < vsr_lost_packets report \<or>
     0 < vsr_dropped_frames report \<or>
     120 < vsr_jitter_buffer_ms report \<or>
     200 < viewer_latency_ms report \<or>
     80 < vsr_reassembly_ms_p95 report \<or>
     40 < vsr_decode_ms_p95 report \<or>
     40 < vsr_render_ms_p95 report \<or>
     (0 < vsr_render_fps report \<and> vsr_render_fps report < 15)"

definition keep_text_char :: "rchar \<Rightarrow> bool" where
  "keep_text_char ch \<longleftrightarrow> \<not> is_control ch \<or> ch = 10 \<or> ch = 13 \<or> ch = 9"

fun sanitize_remote_input_kind :: "remote_input_kind \<Rightarrow> control_error + remote_input_kind" where
  "sanitize_remote_input_kind (Text text) =
     (let sanitized = filter keep_text_char (take MAX_REMOTE_INPUT_TEXT_CHARS text) in
      if sanitized = []
      then Inl (control_error_new (lit ''invalid_remote_input'')
                  (lit ''remote text input must not be empty''))
      else Inr (Text sanitized))"
| "sanitize_remote_input_kind other = Inr other"

definition clamp_target_resolution :: "u32 \<Rightarrow> u32 \<Rightarrow> u32 \<times> u32" where
  "clamp_target_resolution width height =
     (if width = 0 \<or> height = 0 then (0, 0)
      else (clampw MIN_TARGET_WIDTH MAX_TARGET_WIDTH width,
            clampw MIN_TARGET_HEIGHT MAX_TARGET_HEIGHT height))"

text \<open>\<open>(a as u64 * b as u64 / c.max(1) as u64) as u32\<close>\<close>

definition scale_u32 :: "u32 \<Rightarrow> u32 \<Rightarrow> u32 \<Rightarrow> u32" where
  "scale_u32 a b c = ucast ((ucast a * ucast b :: u64) div ucast (max c 1))"

definition reduce_resolution :: "u32 \<Rightarrow> u32 \<Rightarrow> u32 \<times> u32" where
  "reduce_resolution width height =
     (if width = 0 \<or> height = 0 then (width, height)
      else
        let reduced_width = sat_mul width DEGRADED_BITRATE_PERCENT div 100;
            new_width = min (max reduced_width MIN_TARGET_WIDTH) width;
            new_height = scale_u32 new_width height width;
            new_height = min (max new_height MIN_TARGET_HEIGHT) height
        in if new_height = height \<and> new_width = width then (width, height)
           else
             let new_width =
               (if new_height = height
                then min (max (scale_u32 new_height width height) MIN_TARGET_WIDTH) width
                else new_width)
             in clamp_target_resolution new_width new_height)"

text \<open>The loop of \<open>sanitize_human_name\<close>.\<close>

fun sanitize_loop :: "nat \<Rightarrow> rstring \<Rightarrow> rstring \<Rightarrow> bool \<Rightarrow> nat \<Rightarrow> rstring" where
  "sanitize_loop max_chars [] name previous_was_space char_count = name"
| "sanitize_loop max_chars (ch # chs) name previous_was_space char_count =
     (if max_chars \<le> char_count then name
      else
        case (if is_whitespace ch then Some 32 else if is_control ch then None else Some ch) of
          None \<Rightarrow> sanitize_loop max_chars chs name previous_was_space char_count
        | Some next \<Rightarrow>
            if next = 32 \<and> previous_was_space
            then sanitize_loop max_chars chs name previous_was_space char_count
            else sanitize_loop max_chars chs (name @ [next]) (next = 32) (char_count + 1))"

definition sanitize_human_name :: "rstring \<Rightarrow> nat \<Rightarrow> rstring \<Rightarrow> rstring" where
  "sanitize_human_name raw_name max_chars fallback =
     (let name = trim (sanitize_loop max_chars (trim raw_name) [] False 0)
      in if name = [] then fallback else name)"

definition sanitize_display_name :: "rstring \<Rightarrow> user_id \<Rightarrow> rstring" where
  "sanitize_display_name raw_name uid =
     sanitize_human_name raw_name MAX_DISPLAY_NAME_CHARS (lit ''user-'' @ dec (unat uid))"

definition sanitize_room_name :: "rstring \<Rightarrow> room_id \<Rightarrow> rstring" where
  "sanitize_room_name raw_name rid =
     sanitize_human_name raw_name MAX_ROOM_NAME_CHARS (lit ''room-'' @ dec (unat rid))"

section \<open>Queries\<close>

definition requires_access_token :: "control_state \<Rightarrow> bool" where
  "requires_access_token st \<longleftrightarrow> cs_access_token st \<noteq> None"

definition get_room :: "control_state \<Rightarrow> room_id \<Rightarrow> room option" where
  "get_room st rid = bt_get (cs_rooms st) rid"

definition published_stream :: "control_state \<Rightarrow> stream_id \<Rightarrow> published_stream option" where
  "published_stream st sid =
     find_map (\<lambda>r. bt_get (published_streams r) sid) (bt_values (cs_rooms st))"

definition publisher_for_stream :: "control_state \<Rightarrow> stream_id \<Rightarrow> user_id option" where
  "publisher_for_stream st sid = map_option st_publisher_id (published_stream st sid)"

definition subscribers_for_stream :: "control_state \<Rightarrow> stream_id \<Rightarrow> user_id list" where
  "subscribers_for_stream st sid =
     concat (map (\<lambda>r. case bt_get (subscriptions r) sid of
                        None \<Rightarrow> [] | Some subscribers \<Rightarrow> sorted_list_of_set subscribers)
       (filter (\<lambda>r. bt_contains sid (published_streams r)) (bt_values (cs_rooms st))))"

definition get_voice_state :: "control_state \<Rightarrow> room_id \<Rightarrow> user_id \<Rightarrow> voice_state option" where
  "get_voice_state st rid uid =
     (case bt_get (cs_voice_states st) rid of None \<Rightarrow> None | Some vs \<Rightarrow> bt_get vs uid)"

definition voice_state_for_stream ::
  "control_state \<Rightarrow> stream_id \<Rightarrow> user_id \<Rightarrow> voice_state option" where
  "voice_state_for_stream st sid uid =
     (case find (\<lambda>(_, r). bt_contains sid (published_streams r)) (bt_iter (cs_rooms st)) of
        None \<Rightarrow> None
      | Some (rid, _) \<Rightarrow> get_voice_state st rid uid)"

definition display_name_for_user :: "control_state \<Rightarrow> user_id \<Rightarrow> rstring" where
  "display_name_for_user st uid =
     (case bt_get (cs_display_names st) uid of
        None \<Rightarrow> lit ''user-'' @ dec (unat uid) | Some name \<Rightarrow> name)"

definition voice_publisher_can_send :: "control_state \<Rightarrow> stream_id \<Rightarrow> user_id \<Rightarrow> bool" where
  "voice_publisher_can_send st sid uid =
     (case voice_state_for_stream st sid uid of
        None \<Rightarrow> True
      | Some v \<Rightarrow> \<not> vs_muted v \<and> (\<not> vs_push_to_talk v \<or> vs_speaking v))"

definition get_stream_target :: "control_state \<Rightarrow> stream_id \<Rightarrow> stream_target" where
  "get_stream_target st sid =
     (case published_stream st sid of
        Some stream \<Rightarrow>
          \<lparr>tg_bitrate_bps = st_target_bitrate_bps stream,
           tg_frames_per_second = st_target_frames_per_second stream,
           tg_width = st_target_width stream, tg_height = st_target_height stream\<rparr>
      | None \<Rightarrow>
          \<lparr>tg_bitrate_bps = DEFAULT_TARGET_BITRATE_BPS,
           tg_frames_per_second = DEFAULT_TARGET_FRAMES_PER_SECOND, tg_width = 0,
           tg_height = 0\<rparr>)"

section \<open>State updates shared by the handlers\<close>

definition remove_stream_state :: "stream_id \<Rightarrow> control_state \<Rightarrow> control_state" where
  "remove_stream_state sid st =
     st\<lparr>cs_viewer_stats := bt_remove sid (cs_viewer_stats st),
        cs_pending_keyframe_requests := bt_remove sid (cs_pending_keyframe_requests st),
        cs_pending_remote_input := bt_remove sid (cs_pending_remote_input st),
        cs_stream_metrics := bt_remove sid (cs_stream_metrics st)\<rparr>"

definition remove_room_if_empty :: "room_id \<Rightarrow> control_state \<Rightarrow> control_state" where
  "remove_room_if_empty rid st =
     (case bt_get (cs_rooms st) rid of
        None \<Rightarrow> st
      | Some r \<Rightarrow>
          if room_is_empty r
          then st\<lparr>cs_rooms := bt_remove rid (cs_rooms st),
                  cs_voice_states := bt_remove rid (cs_voice_states st)\<rparr>
          else st)"

definition default_voice_state :: "room_id \<Rightarrow> user_id \<Rightarrow> voice_state" where
  "default_voice_state rid uid =
     \<lparr>vs_room_id = rid, vs_user_id = uid, vs_muted = False, vs_deafened = False,
      vs_push_to_talk = False, vs_speaking = True\<rparr>"

definition ensure_voice_state :: "room_id \<Rightarrow> user_id \<Rightarrow> control_state \<Rightarrow> control_state" where
  "ensure_voice_state rid uid st =
     st\<lparr>cs_voice_states :=
          bt_entry rid bt_new (bt_or_insert uid (default_voice_state rid uid))
            (cs_voice_states st)\<rparr>"

definition remove_voice_state :: "room_id \<Rightarrow> user_id \<Rightarrow> control_state \<Rightarrow> control_state" where
  "remove_voice_state rid uid st =
     (case bt_get (cs_voice_states st) rid of
        None \<Rightarrow> st
      | Some vs \<Rightarrow>
          let vs = bt_remove uid vs in
          if bt_is_empty vs then st\<lparr>cs_voice_states := bt_remove rid (cs_voice_states st)\<rparr>
          else st\<lparr>cs_voice_states := bt_insert rid vs (cs_voice_states st)\<rparr>)"

definition remove_viewer_stats :: "stream_id \<Rightarrow> user_id \<Rightarrow> control_state \<Rightarrow> control_state" where
  "remove_viewer_stats sid uid st =
     (case bt_get (cs_viewer_stats st) sid of
        None \<Rightarrow> st
      | Some stats \<Rightarrow>
          let stats = bt_remove uid stats in
          if bt_is_empty stats
          then st\<lparr>cs_viewer_stats := bt_remove sid (cs_viewer_stats st)\<rparr>
          else st\<lparr>cs_viewer_stats := bt_insert sid stats (cs_viewer_stats st)\<rparr>)"

definition register_keyframe_request ::
  "stream_id \<Rightarrow> keyframe_reason \<Rightarrow> control_state \<Rightarrow> control_state" where
  "register_keyframe_request sid reason st =
     st\<lparr>cs_pending_keyframe_requests :=
          bt_insert sid reason (cs_pending_keyframe_requests st)\<rparr>"

definition leave_room :: "user_id \<Rightarrow> room_id \<Rightarrow> control_state \<Rightarrow> control_state" where
  "leave_room uid rid st =
     (case bt_get (cs_rooms st) rid of
        None \<Rightarrow> st
      | Some r \<Rightarrow>
          let subscribed_streams =
                map fst (filter (\<lambda>(_, subscribers). uid \<in> subscribers)
                           (bt_iter (subscriptions r)));
              removed_streams = streams_published_by uid r;
              r = room_leave uid r;
              r = fold (\<lambda>sid r. snd (remove_published_stream sid r)) removed_streams r;
              st = st\<lparr>cs_rooms := bt_insert rid r (cs_rooms st)\<rparr>;
              st = fold (\<lambda>sid. remove_viewer_stats sid uid) subscribed_streams st;
              st = remove_voice_state rid uid st;
              st = fold remove_stream_state removed_streams st
          in remove_room_if_empty rid st)"

definition disconnect_user :: "user_id \<Rightarrow> control_state \<Rightarrow> control_state" where
  "disconnect_user uid st =
     (let affected_rooms =
            map fst (filter (\<lambda>(_, r).
                uid \<in> participants r \<or>
                (\<exists>stream \<in> set (bt_values (published_streams r)). st_publisher_id stream = uid))
              (bt_iter (cs_rooms st)));
          st = fold (leave_room uid) affected_rooms st;
          st = st\<lparr>cs_viewer_stats :=
                 bt_retain (\<lambda>_ stats. \<not> bt_is_empty stats)
                   (bt_map (\<lambda>_ stats. bt_remove uid stats) (cs_viewer_stats st))\<rparr>
      in st\<lparr>cs_display_names := bt_remove uid (cs_display_names st)\<rparr>)"

definition record_media_forward_summary ::
  "media_packet \<Rightarrow> media_forward_summary \<Rightarrow> nat \<Rightarrow> u64 \<Rightarrow> u16 \<Rightarrow> control_state \<Rightarrow>
   control_state" where
  "record_media_forward_summary packet summary ingress_bytes received_at_micros server_route_ms
     st =
     (let sid = h_room_stream_id (p_header packet) in
      if published_stream st sid = None then st
      else st\<lparr>cs_stream_metrics :=
        bt_entry sid metrics_default
          (record_forwarding ingress_bytes (mfs_queued summary) (mfs_dropped summary)
             received_at_micros server_route_ms)
          (cs_stream_metrics st)\<rparr>)"

text \<open>\<open>stream\<close> is the first match over the rooms, as in \<open>published_stream\<close>.\<close>

definition retarget ::
  "u32 \<Rightarrow> u16 \<Rightarrow> u32 \<Rightarrow> u32 \<Rightarrow> published_stream \<Rightarrow> published_stream" where
  "retarget bitrate_bps frames_per_second width height stream =
     (let bitrate = clampw MIN_TARGET_BITRATE_BPS MAX_TARGET_BITRATE_BPS bitrate_bps;
          fps = clampw MIN_TARGET_FRAMES_PER_SECOND MAX_TARGET_FRAMES_PER_SECOND
                  frames_per_second;
          (w, h) = clamp_target_resolution width height
      in stream\<lparr>st_target_bitrate_bps := bitrate, st_target_frames_per_second := fps,
                st_target_width := w, st_target_height := h,
                st_config := map_option (\<lambda>config.
                  config\<lparr>sc_frames_per_second := fps, sc_width := w, sc_height := h\<rparr>)
                  (st_config stream)\<rparr>)"

definition update_stream_target ::
  "stream_id \<Rightarrow> u32 \<Rightarrow> u16 \<Rightarrow> u32 \<Rightarrow> u32 \<Rightarrow> control_state \<Rightarrow> control_state" where
  "update_stream_target sid bitrate_bps frames_per_second width height st =
     (case find (\<lambda>(_, r). bt_contains sid (published_streams r)) (bt_iter (cs_rooms st)) of
        None \<Rightarrow> st
      | Some (rid, r) \<Rightarrow>
          st\<lparr>cs_rooms := bt_insert rid
            (r\<lparr>published_streams :=
                 bt_modify sid (retarget bitrate_bps frames_per_second width height)
                   (published_streams r)\<rparr>) (cs_rooms st)\<rparr>)"

end
