(* ===== verification/Control_Names.thy ===== *)
theory Control_Names
  imports Control_State
begin

text \<open>
  What the sanitisers of \<open>control.rs\<close> guarantee: display and room names come out clean (bounded,
  no control characters, single inner spaces, no outer ones) and clean names come out unchanged;
  remote text input comes out bounded and without control characters other than line breaks and
  tabs.
\<close>

definition clean_char :: "rchar \<Rightarrow> bool" where
  "clean_char c \<longleftrightarrow> \<not> is_control c \<and> (is_whitespace c \<longrightarrow> c = 32)"

definition no_double_space :: "rstring \<Rightarrow> bool" where
  "no_double_space n \<longleftrightarrow> successively (\<lambda>a b. \<not> (a = 32 \<and> b = 32)) n"

definition clean_name :: "nat \<Rightarrow> rstring \<Rightarrow> bool" where
  "clean_name max_chars n \<longleftrightarrow>
     n \<noteq> [] \<and> length n \<le> max_chars \<and> list_all clean_char n \<and> no_double_space n \<and>
     \<not> is_whitespace (hd n) \<and> \<not> is_whitespace (last n)"

section \<open>Trimming\<close>

lemma trim_end_split: "s = trim_end s @ rev (takeWhile is_whitespace (rev s))"
proof -
  have "rev (rev s) = rev (takeWhile is_whitespace (rev s) @ dropWhile is_whitespace (rev s))"
    by (simp only: takeWhile_dropWhile_id)
  then show ?thesis by (simp only: rev_append rev_rev_ident trim_end_def)
qed

lemma trim_infix: "\<exists>a b. s = a @ trim s @ b"
proof (intro exI)
  show "s = takeWhile is_whitespace s @ trim s @ rev (takeWhile is_whitespace (rev (trim_start s)))"
    using trim_end_split [of "trim_start s"] takeWhile_dropWhile_id [of is_whitespace s]
    by (simp add: trim_def trim_start_def)
qed

lemma hd_trim: "trim s \<noteq> [] \<Longrightarrow> \<not> is_whitespace (hd (trim s))"
proof -
  assume ne: "trim s \<noteq> []"
  from trim_end_split [of "trim_start s"] ne
  have "trim_start s \<noteq> []" and "hd (trim_start s) = hd (trim s)"
    by (auto simp: trim_def) (metis hd_append2)
  then show ?thesis using hd_dropWhile [of is_whitespace s] by (simp add: trim_start_def)
qed

lemma last_trim: "trim s \<noteq> [] \<Longrightarrow> \<not> is_whitespace (last (trim s))"
  unfolding trim_def trim_end_def by (simp add: last_rev hd_dropWhile)

lemma trim_id: "s \<noteq> [] \<Longrightarrow> \<not> is_whitespace (hd s) \<Longrightarrow> \<not> is_whitespace (last s) \<Longrightarrow> trim s = s"
proof -
  assume "s \<noteq> []" "\<not> is_whitespace (hd s)" "\<not> is_whitespace (last s)"
  moreover from this have "dropWhile is_whitespace s = s" by (cases s) auto
  moreover have "dropWhile is_whitespace (rev s) = rev s"
    using calculation by (cases s rule: rev_cases) auto
  ultimately show ?thesis by (simp add: trim_def trim_start_def trim_end_def)
qed

lemma no_double_space_trim: "no_double_space s \<Longrightarrow> no_double_space (trim s)"
  using trim_infix [of s] unfolding no_double_space_def by (metis successively_append_iff)

lemma clean_chars_trim: "list_all clean_char s \<Longrightarrow> list_all clean_char (trim s)"
  using set_trim_subset [of s] by (auto simp: list_all_iff)

section \<open>The loop\<close>

lemma sanitize_loop_clean:
  assumes "list_all clean_char name" and "no_double_space name" and "length name = char_count"
    and "char_count \<le> max_chars" and "previous_was_space = (name \<noteq> [] \<and> last name = 32)"
    and "n = sanitize_loop max_chars chs name previous_was_space char_count"
  shows "list_all clean_char n \<and> no_double_space n \<and> length n \<le> max_chars"
  using assms
proof (induction max_chars chs name previous_was_space char_count rule: sanitize_loop.induct)
  case (1 max_chars name previous_was_space char_count)
  then show ?case by simp
next
  case (2 max_chars ch chs name previous_was_space char_count)
  show ?case
  proof (cases "max_chars \<le> char_count")
    case True
    with "2.prems" show ?thesis by simp
  next
    case False
    let ?next = "if is_whitespace ch then Some 32 else if is_control ch then None else Some ch"
    show ?thesis
    proof (cases ?next)
      case None
      then show ?thesis using "2.IH"(1) [OF False None] "2.prems" False by simp
    next
      case (Some c)
      show ?thesis
      proof (cases "c = 32 \<and> previous_was_space")
        case True
        with Some show ?thesis using "2.IH"(2) [OF False Some True] "2.prems" False by simp
      next
        case skip: False
        have n_eq: "n = sanitize_loop max_chars chs (name @ [c]) (c = 32) (char_count + 1)"
          using "2.prems"(6) False Some skip by (simp only: sanitize_loop.simps option.case if_False)
        have "clean_char c"
          using Some by (auto simp: clean_char_def is_control_def split: if_splits)
        moreover have "no_double_space (name @ [c])"
          using "2.prems"(2,5) skip by (auto simp: no_double_space_def successively_append_iff)
        ultimately show ?thesis
          using "2.IH"(3) [OF False Some skip] "2.prems" False unfolding n_eq by simp
      qed
    qed
  qed
qed

lemma sanitize_loop_id:
  assumes "list_all clean_char rest" and "no_double_space (name @ rest)"
    and "length (name @ rest) \<le> max_chars" and "previous_was_space = (name \<noteq> [] \<and> last name = 32)"
    and "char_count = length name"
  shows "sanitize_loop max_chars rest name previous_was_space char_count = name @ rest"
  using assms
proof (induction max_chars rest name previous_was_space char_count rule: sanitize_loop.induct)
  case (2 max_chars ch chs name previous_was_space char_count)
  have lt: "\<not> max_chars \<le> char_count" using "2.prems" by simp
  have some: "(if is_whitespace ch then Some 32 else if is_control ch then None else Some ch) =
      Some ch"
    using "2.prems"(1) by (simp add: clean_char_def)
  have skip: "\<not> (ch = 32 \<and> previous_was_space)"
    using "2.prems"(2,4) by (auto simp: no_double_space_def successively_append_iff)
  have "sanitize_loop max_chars chs (name @ [ch]) (ch = 32) (char_count + 1) = name @ ch # chs"
    using "2.IH"(3) [OF lt some skip] "2.prems" by simp
  moreover have "sanitize_loop max_chars (ch # chs) name previous_was_space char_count =
      sanitize_loop max_chars chs (name @ [ch]) (ch = 32) (char_count + 1)"
    using lt some skip by (simp only: sanitize_loop.simps option.case if_False)
  ultimately show ?case by simp
qed simp

section \<open>Names\<close>

lemma sanitize_human_name_clean:
  assumes "clean_name max_chars fallback"
  shows "clean_name max_chars (sanitize_human_name raw_name max_chars fallback)"
proof -
  let ?n = "sanitize_loop max_chars (trim raw_name) [] False 0"
  have "list_all clean_char ?n \<and> no_double_space ?n \<and> length ?n \<le> max_chars"
    by (rule sanitize_loop_clean [OF _ _ _ _ _ refl]) (simp_all add: no_double_space_def)
  then show ?thesis
    using assms hd_trim [of ?n] last_trim [of ?n] clean_chars_trim no_double_space_trim
      length_trim_le [of ?n]
    by (auto simp: sanitize_human_name_def Let_def clean_name_def)
qed

lemma sanitize_human_name_id:
  assumes "clean_name max_chars n"
  shows "sanitize_human_name n max_chars fallback = n"
proof -
  from assms have trim: "trim n = n" by (simp add: clean_name_def trim_id)
  moreover have "sanitize_loop max_chars n [] False 0 = [] @ n"
    using assms by (intro sanitize_loop_id) (simp_all add: clean_name_def)
  ultimately show ?thesis using assms by (simp add: sanitize_human_name_def clean_name_def)
qed

lemma length_dec: "n < 10 ^ k \<Longrightarrow> 0 < k \<Longrightarrow> length (dec n) \<le> k"
proof (induction k arbitrary: n)
  case (Suc k)
  show ?case
  proof (cases "n < 10")
    case True
    then show ?thesis by (simp add: dec.simps [of n])
  next
    case False
    then have "0 < k" using Suc.prems by (cases k) auto
    moreover have "n div 10 < 10 ^ k" using Suc.prems by (simp add: less_mult_imp_div_less)
    ultimately have "length (dec (n div 10)) \<le> k" by (rule Suc.IH [rotated])
    with False show ?thesis by (simp add: dec.simps [of n])
  qed
qed simp

lemma length_dec_u64: "length (dec (unat (x :: u64))) \<le> 20"
proof (rule length_dec)
  have "unat x < 2 ^ LENGTH(64)" by (rule unsigned_less)
  then show "unat x < 10 ^ 20" by simp
qed simp

lemma dec_clean: "c \<in> set (dec n) \<Longrightarrow> clean_char c \<and> \<not> is_whitespace c"
  using set_dec [of c n] by (auto simp: clean_char_def is_control_def is_whitespace_def)

lemma no_space_successively:
  "\<forall>c \<in> set n. c \<noteq> 32 \<Longrightarrow> successively (\<lambda>a b. \<not> (a = 32 \<and> b = (32 :: nat))) n"
  by (induction n rule: induct_list012) auto

lemma clean_prefix_dec:
  assumes "p \<noteq> []" and "list_all (\<lambda>c. clean_char c \<and> \<not> is_whitespace c) p"
    and "length p \<le> 44"
  shows "clean_name 64 (p @ dec (unat (x :: u64)))"
proof -
  let ?n = "p @ dec (unat x)"
  have all: "\<forall>c \<in> set ?n. clean_char c \<and> \<not> is_whitespace c"
    using assms(2) dec_clean by (auto simp: list_all_iff)
  then have "\<forall>c \<in> set ?n. c \<noteq> 32" by (auto simp: is_whitespace_def)
  then have "no_double_space ?n"
    unfolding no_double_space_def by (metis no_space_successively)
  moreover have "hd ?n \<in> set ?n" "last ?n \<in> set ?n" using assms(1) by (auto intro!: last_in_set)
  ultimately show ?thesis
    using all assms length_dec_u64 [of x] by (auto simp: clean_name_def list_all_iff)
qed

lemma clean_fallback_names:
  "clean_name 64 (lit ''user-'' @ dec (unat (uid :: u64)))"
  "clean_name 64 (lit ''room-'' @ dec (unat (rid :: u64)))"
  by (intro clean_prefix_dec; simp add: lit_def clean_char_def is_control_def is_whitespace_def)+

lemma sanitize_display_name_clean: "clean_name 64 (sanitize_display_name raw_name uid)"
  unfolding sanitize_display_name_def MAX_DISPLAY_NAME_CHARS_def
  by (rule sanitize_human_name_clean) (rule clean_fallback_names)

lemma sanitize_room_name_clean: "clean_name 64 (sanitize_room_name raw_name rid)"
  unfolding sanitize_room_name_def MAX_ROOM_NAME_CHARS_def
  by (rule sanitize_human_name_clean) (rule clean_fallback_names)

text \<open>
  Name sanitising: every raw name yields a clean one (non-empty, at most 64 characters, no
  control characters, no white space but single inner spaces), and a name that is clean already
  is the only one left as it is.
\<close>

theorem sanitize_display_name_exact:
  "clean_name 64 (sanitize_display_name raw_name uid) \<and>
   (sanitize_display_name raw_name uid = raw_name) = clean_name 64 raw_name"
  using sanitize_display_name_clean sanitize_human_name_id [of 64 raw_name]
  unfolding sanitize_display_name_def MAX_DISPLAY_NAME_CHARS_def by metis

section \<open>Remote text\<close>

lemma sanitized_kind_idem:
  assumes "sanitize_remote_input_kind k = Inr k'"
  shows "sanitize_remote_input_kind k' = Inr k'"
proof (cases k)
  case (Text t)
  let ?t = "filter keep_text_char (take 256 t)"
  from assms Text have k': "k' = Text ?t" and ne: "?t \<noteq> []"
    by (auto simp: MAX_REMOTE_INPUT_TEXT_CHARS_def Let_def split: if_splits)
  have "length ?t \<le> 256" by (rule order_trans [OF length_filter_le]) simp
  then have "take 256 ?t = ?t" by simp
  then show ?thesis using k' ne by (simp add: MAX_REMOTE_INPUT_TEXT_CHARS_def)
qed (use assms in auto)

text \<open>
  Remote text input: accepted text is not empty, has at most 256 characters, no control
  character other than line feed, carriage return and tab, and is accepted unchanged when it is
  sent again; every other kind of input passes unchanged.
\<close>

theorem sanitize_remote_input_sound:
  assumes "sanitize_remote_input_kind k = Inr k'"
  shows "sanitize_remote_input_kind k' = Inr k' \<and>
    (case k' of Text t \<Rightarrow> t \<noteq> [] \<and> length t \<le> 256 \<and> list_all keep_text_char t | _ \<Rightarrow> k' = k)"
proof (cases k)
  case (Text t)
  with assms have "k' = Text (filter keep_text_char (take 256 t))"
    "filter keep_text_char (take 256 t) \<noteq> []"
    by (auto simp: MAX_REMOTE_INPUT_TEXT_CHARS_def Let_def split: if_splits)
  moreover have "length (filter keep_text_char (take 256 t)) \<le> 256"
    by (rule order_trans [OF length_filter_le]) simp
  ultimately show ?thesis using sanitized_kind_idem [OF assms] by (simp add: list_all_iff)
qed (use assms in auto)

theorem sanitize_remote_input_sound_witness:
  "sanitize_remote_input_kind (Text [72, 105, 10]) = Inr (Text [72, 105, 10])"
  using sanitize_remote_input_sound [of "Text [7, 72, 105, 10, 27]" "Text [72, 105, 10]"]
  by (simp add: MAX_REMOTE_INPUT_TEXT_CHARS_def keep_text_char_def is_control_def)

end
