(* ===== verification/Control_Ops.thy ===== *)
theory Control_Ops
  imports Control_State
begin

text \<open>
  The message handlers of \<open>crates/relay-server/src/control.rs\<close>. A handler on \<open>&mut self\<close> returns
  its reply with the new control state, a handler on \<open>&self\<close> the reply alone; a handler that
  changes the session returns that too. \<open>handle_client_envelope\<close> is the entry point; \<open>now\<close> and
  \<open>now'\<close> are the readings \<open>unix_time_micros\<close> takes while a message is handled.
\<close>

section \<open>Publisher feedback\<close>

fun aggregate_loop :: "viewer_stats_report list \<Rightarrow> u32 \<Rightarrow> bool \<Rightarrow> u32 \<times> bool" where
  "aggregate_loop [] degraded_viewer_count keyframe_requested =
     (degraded_viewer_count, keyframe_requested)"
| "aggregate_loop (report # reports) degraded_viewer_count keyframe_requested =
     aggregate_loop reports
       (if viewer_is_degraded report then sat_add degraded_viewer_count 1
        else degraded_viewer_count)
       (keyframe_requested \<or> 0 < vsr_lost_packets report \<or> 0 < vsr_dropped_frames report)"

definition aggregate_publisher_feedback ::
  "room_id \<Rightarrow> stream_id \<Rightarrow> control_state \<Rightarrow> publisher_feedback" where
  "aggregate_publisher_feedback rid sid st =
     (let target = get_stream_target st sid;
          total_viewer_count = of_nat (length (subscribers_for_stream st sid));
          (degraded_viewer_count, keyframe_requested) =
            (case bt_get (cs_viewer_stats st) sid of
               None \<Rightarrow> (0, bt_contains sid (cs_pending_keyframe_requests st))
             | Some stats \<Rightarrow>
                 aggregate_loop (bt_values stats) 0
                   (bt_contains sid (cs_pending_keyframe_requests st)))
      in \<lparr>pf_room_id = rid, pf_stream_id = sid,
          pf_aggregate_available_bitrate_bps = tg_bitrate_bps target,
          pf_target_frames_per_second = tg_frames_per_second target,
          pf_target_width = tg_width target, pf_target_height = tg_height target,
          pf_degraded_viewer_count = degraded_viewer_count,
          pf_total_viewer_count = total_viewer_count,
          pf_keyframe_requested = keyframe_requested\<rparr>)"

text \<open>The degraded branch's choice of the new target from the current one.\<close>

definition reduced_target :: "stream_target \<Rightarrow> stream_target" where
  "reduced_target target =
     (let reduced_bitrate = sat_mul (tg_bitrate_bps target) DEGRADED_BITRATE_PERCENT div 100;
          new_bitrate = max reduced_bitrate MIN_TARGET_BITRATE_BPS;
          new_fps =
            (if new_bitrate = tg_bitrate_bps target \<and>
                MIN_TARGET_FRAMES_PER_SECOND < tg_frames_per_second target
             then max (sat_mul (tg_frames_per_second target) (ucast DEGRADED_BITRATE_PERCENT)
                         div 100) MIN_TARGET_FRAMES_PER_SECOND
             else tg_frames_per_second target);
          (new_width, new_height) =
            (if new_bitrate = tg_bitrate_bps target \<and> new_fps = tg_frames_per_second target
             then reduce_resolution (tg_width target) (tg_height target)
             else (tg_width target, tg_height target))
      in \<lparr>tg_bitrate_bps = new_bitrate, tg_frames_per_second = new_fps, tg_width = new_width,
          tg_height = new_height\<rparr>)"

definition adaptive_publisher_feedback ::
  "room_id \<Rightarrow> stream_id \<Rightarrow> control_state \<Rightarrow> publisher_feedback \<times> control_state" where
  "adaptive_publisher_feedback rid sid st =
     (let feedback = aggregate_publisher_feedback rid sid st in
      if 0 < pf_total_viewer_count feedback \<and>
         pf_total_viewer_count feedback \<le> sat_mul (pf_degraded_viewer_count feedback) 2
      then
        let target = get_stream_target st sid;
            new = reduced_target target;
            st = update_stream_target sid (tg_bitrate_bps new) (tg_frames_per_second new)
                   (tg_width new) (tg_height new) st;
            feedback = feedback\<lparr>
              pf_aggregate_available_bitrate_bps := tg_bitrate_bps new,
              pf_target_frames_per_second := tg_frames_per_second new,
              pf_target_width := tg_width new, pf_target_height := tg_height new\<rparr>
        in if (tg_width new, tg_height new) \<noteq> (tg_width target, tg_height target)
           then (feedback\<lparr>pf_keyframe_requested := True\<rparr>,
                 register_keyframe_request sid StreamConfigChanged st)
           else (feedback, st)
      else (feedback, st))"

definition poll_publisher_feedback ::
  "session \<Rightarrow> room_id \<Rightarrow> stream_id \<Rightarrow> control_state \<Rightarrow> server_control \<times> control_state" where
  "poll_publisher_feedback s rid sid st =
     (case sess_user_id s of
        None \<Rightarrow> (send_hello_first, st)
      | Some uid \<Rightarrow>
          if publisher_for_stream st sid = Some uid
          then
            let (feedback, st) = adaptive_publisher_feedback rid sid st;
                st = st\<lparr>cs_pending_keyframe_requests :=
                       bt_remove sid (cs_pending_keyframe_requests st)\<rparr>
            in (PublisherFeedback feedback, st)
          else (error_reply ''not_publisher''
                  ''only the stream publisher can poll publisher feedback'', st))"

section \<open>Streams and their targets\<close>

definition unpublish_stream ::
  "session \<Rightarrow> unpublish_stream \<Rightarrow> control_state \<Rightarrow> server_control \<times> control_state" where
  "unpublish_stream s request st =
     (case sess_user_id s of
        None \<Rightarrow> (send_hello_first, st)
      | Some uid \<Rightarrow>
        (case bt_get (cs_rooms st) (unpub_room_id request) of
           None \<Rightarrow> (room_not_found, st)
         | Some r \<Rightarrow>
           (case bt_get (published_streams r) (unpub_stream_id request) of
              None \<Rightarrow> (stream_not_found, st)
            | Some stream \<Rightarrow>
              if st_publisher_id stream \<noteq> uid
              then (error_reply ''not_publisher'' ''only the stream publisher can unpublish'', st)
              else
                let (removed, r) = remove_published_stream (unpub_stream_id request) r;
                    st = st\<lparr>cs_rooms := bt_insert (unpub_room_id request) r (cs_rooms st)\<rparr>
                in if removed = None then (stream_not_found, st)
                   else
                     let st = remove_stream_state (unpub_stream_id request) st;
                         st = remove_room_if_empty (unpub_room_id request) st
                     in (StreamUnpublished
                           \<lparr>su_room_id = unpub_room_id request,
                            su_stream_id = unpub_stream_id request\<rparr>, st))))"

definition set_stream_config ::
  "session \<Rightarrow> stream_config \<Rightarrow> control_state \<Rightarrow> server_control \<times> control_state" where
  "set_stream_config s config st =
     (case sess_user_id s of
        None \<Rightarrow> (send_hello_first, st)
      | Some uid \<Rightarrow>
        (case bt_get (cs_rooms st) (sc_room_id config) of
           None \<Rightarrow> (room_not_found, st)
         | Some r \<Rightarrow>
           (case bt_get (published_streams r) (sc_stream_id config) of
              None \<Rightarrow> (stream_not_found, st)
            | Some stream \<Rightarrow>
              if st_publisher_id stream \<noteq> uid
              then (error_reply ''not_publisher''
                      ''only the stream publisher can set stream config'', st)
              else if st_codec stream \<noteq> sc_codec config
              then (error_reply ''codec_mismatch''
                      ''stream config codec must match published stream codec'', st)
              else
                let fps = clampw MIN_TARGET_FRAMES_PER_SECOND MAX_TARGET_FRAMES_PER_SECOND
                            (sc_frames_per_second config);
                    (w, h) = clamp_target_resolution (sc_width config) (sc_height config);
                    config = config\<lparr>sc_frames_per_second := fps, sc_width := w, sc_height := h\<rparr>;
                    stream = stream\<lparr>st_target_frames_per_second := fps, st_target_width := w,
                               st_target_height := h, st_config := Some config\<rparr>;
                    r = r\<lparr>published_streams :=
                            bt_insert (sc_stream_id config) stream (published_streams r)\<rparr>
                in (StreamConfigR config,
                    st\<lparr>cs_rooms := bt_insert (sc_room_id config) r (cs_rooms st)\<rparr>))))"

definition validate_publisher_control ::
  "session \<Rightarrow> room_id \<Rightarrow> stream_id \<Rightarrow> control_state \<Rightarrow> server_control option" where
  "validate_publisher_control s rid sid st =
     (case sess_user_id s of
        None \<Rightarrow> Some send_hello_first
      | Some uid \<Rightarrow>
        (case bt_get (cs_rooms st) rid of
           None \<Rightarrow> Some room_not_found
         | Some r \<Rightarrow>
           (case bt_get (published_streams r) sid of
              None \<Rightarrow> Some stream_not_found
            | Some stream \<Rightarrow>
              if st_publisher_id stream \<noteq> uid
              then Some (error_reply ''not_publisher''
                     ''only the stream publisher can update target media settings'')
              else None)))"

definition set_target_bitrate ::
  "session \<Rightarrow> set_target_bitrate_msg \<Rightarrow> control_state \<Rightarrow> server_control \<times> control_state" where
  "set_target_bitrate s target st =
     (let rid = stb_room_id target; sid = stb_stream_id target in
      case validate_publisher_control s rid sid st of
        Some error \<Rightarrow> (error, st)
      | None \<Rightarrow>
          let current = get_stream_target st sid;
              bitrate_bps = clampw MIN_TARGET_BITRATE_BPS MAX_TARGET_BITRATE_BPS
                              (stb_bitrate_bps target);
              st = update_stream_target sid bitrate_bps (tg_frames_per_second current)
                     (tg_width current) (tg_height current) st
          in (PublisherFeedback (aggregate_publisher_feedback rid sid st), st))"

definition set_target_framerate ::
  "session \<Rightarrow> set_target_framerate_msg \<Rightarrow> control_state \<Rightarrow> server_control \<times> control_state" where
  "set_target_framerate s target st =
     (let rid = stf_room_id target; sid = stf_stream_id target in
      case validate_publisher_control s rid sid st of
        Some error \<Rightarrow> (error, st)
      | None \<Rightarrow>
          let current = get_stream_target st sid;
              frames_per_second =
                clampw MIN_TARGET_FRAMES_PER_SECOND MAX_TARGET_FRAMES_PER_SECOND
                  (stf_frames_per_second target);
              st = update_stream_target sid (tg_bitrate_bps current) frames_per_second
                     (tg_width current) (tg_height current) st
          in (PublisherFeedback (aggregate_publisher_feedback rid sid st), st))"

section \<open>Voice state and keyframes\<close>

definition set_voice_state ::
  "session \<Rightarrow> set_voice_state_msg \<Rightarrow> control_state \<Rightarrow> server_control \<times> control_state" where
  "set_voice_state s request st =
     (case sess_user_id s of
        None \<Rightarrow> (send_hello_first, st)
      | Some uid \<Rightarrow>
        (case bt_get (cs_rooms st) (svs_room_id request) of
           None \<Rightarrow> (room_not_found, st)
         | Some r \<Rightarrow>
           if uid \<notin> participants r
           then (error_reply ''not_in_room'' ''join room before updating voice state'', st)
           else
             let voice =
               \<lparr>vs_room_id = svs_room_id request, vs_user_id = uid,
                vs_muted = svs_muted request, vs_deafened = svs_deafened request,
                vs_push_to_talk = svs_push_to_talk request,
                vs_speaking = (svs_speaking request \<and> \<not> svs_muted request)\<rparr>
             in (VoiceStateUpdated voice,
                 st\<lparr>cs_voice_states :=
                   bt_entry (svs_room_id request) bt_new (bt_insert uid voice)
                     (cs_voice_states st)\<rparr>)))"

definition is_room_subscriber :: "room \<Rightarrow> stream_id \<Rightarrow> user_id \<Rightarrow> bool" where
  "is_room_subscriber r sid uid =
     (case bt_get (subscriptions r) sid of None \<Rightarrow> False | Some subscribers \<Rightarrow> uid \<in> subscribers)"

definition request_keyframe ::
  "session \<Rightarrow> request_keyframe_msg \<Rightarrow> control_state \<Rightarrow> server_control \<times> control_state" where
  "request_keyframe s request st =
     (case sess_user_id s of
        None \<Rightarrow> (send_hello_first, st)
      | Some uid \<Rightarrow>
        (case bt_get (cs_rooms st) (rk_room_id request) of
           None \<Rightarrow> (room_not_found, st)
         | Some r \<Rightarrow>
           if uid \<notin> participants r
           then (error_reply ''not_in_room'' ''join room before requesting a keyframe'', st)
           else
             (case bt_get (published_streams r) (rk_stream_id request) of
                None \<Rightarrow> (stream_not_found, st)
              | Some stream \<Rightarrow>
                if st_publisher_id stream \<noteq> uid \<and>
                   \<not> is_room_subscriber r (rk_stream_id request) uid
                then (error_reply ''not_subscribed''
                        ''subscribe to the stream before requesting a keyframe'', st)
                else (RequestKeyframeR request,
                      register_keyframe_request (rk_stream_id request) (rk_reason request) st))))"

section \<open>Remote input\<close>

text \<open>\<open>while queue.len() >= MAX \{ queue.pop_front(); dropped_events += 1 (saturating) \}\<close>\<close>

fun trim_input_queue :: "'a list \<Rightarrow> u16 \<Rightarrow> 'a list \<times> u16" where
  "trim_input_queue [] dropped_events = ([], dropped_events)"
| "trim_input_queue (e # q) dropped_events =
     (if MAX_REMOTE_INPUT_QUEUE_EVENTS \<le> length (e # q)
      then trim_input_queue q (sat_add dropped_events 1)
      else (e # q, dropped_events))"

text \<open>\<open>while events.len() < max_events \{ pop_front or break; events.push \}\<close>\<close>

fun poll_input_loop :: "nat \<Rightarrow> 'a list \<Rightarrow> 'a list \<Rightarrow> 'a list \<times> 'a list" where
  "poll_input_loop max_events events [] = (events, [])"
| "poll_input_loop max_events events (e # q) =
     (if length events < max_events then poll_input_loop max_events (events @ [e]) q
      else (events, e # q))"

definition send_remote_input ::
  "u64 \<Rightarrow> session \<Rightarrow> send_remote_input_msg \<Rightarrow> control_state \<Rightarrow> server_control \<times> control_state"
where
  "send_remote_input now s input st =
     (case sess_user_id s of
        None \<Rightarrow> (send_hello_first, st)
      | Some uid \<Rightarrow>
        (case bt_get (cs_rooms st) (sri_room_id input) of
           None \<Rightarrow> (room_not_found, st)
         | Some r \<Rightarrow>
           if uid \<notin> participants r
           then (error_reply ''not_in_room'' ''join room before sending remote input'', st)
           else
             (case bt_get (published_streams r) (sri_stream_id input) of
                None \<Rightarrow> (stream_not_found, st)
              | Some stream \<Rightarrow>
                if st_media_kind stream \<noteq> Screen
                then (error_reply ''media_kind_mismatch''
                        ''remote input can only target screen streams'', st)
                else if \<not> is_room_subscriber r (sri_stream_id input) uid
                then (error_reply ''not_subscribed''
                        ''subscribe to the screen stream before sending remote input'', st)
                else
                  (case sanitize_remote_input_kind (sri_kind input) of
                     Inl error \<Rightarrow> (Error error, st)
                   | Inr kind \<Rightarrow>
                     let event =
                           \<lparr>rie_sender_user_id = uid,
                            rie_sequence_number = sri_sequence_number input,
                            rie_event_time_micros =
                              (if sri_event_time_micros input = 0 then now
                               else sri_event_time_micros input),
                            rie_kind = kind\<rparr>;
                         queue = (case bt_get (cs_pending_remote_input st) (sri_stream_id input) of
                                    None \<Rightarrow> [] | Some queue \<Rightarrow> queue);
                         (queue, dropped_events) = trim_input_queue queue 0;
                         queue = queue @ [event]
                     in (RemoteInputQueued
                           \<lparr>riq_room_id = sri_room_id input, riq_stream_id = sri_stream_id input,
                            riq_publisher_id = st_publisher_id stream,
                            riq_queued_events = of_nat (min (length queue) 65535),
                            riq_dropped_events = dropped_events\<rparr>,
                         st\<lparr>cs_pending_remote_input :=
                              bt_insert (sri_stream_id input) queue
                                (cs_pending_remote_input st)\<rparr>)))))"

definition validate_remote_input_publisher ::
  "session \<Rightarrow> room_id \<Rightarrow> stream_id \<Rightarrow> control_state \<Rightarrow> server_control option" where
  "validate_remote_input_publisher s rid sid st =
     (case sess_user_id s of
        None \<Rightarrow> Some send_hello_first
      | Some uid \<Rightarrow>
        (case bt_get (cs_rooms st) rid of
           None \<Rightarrow> Some room_not_found
         | Some r \<Rightarrow>
           (case bt_get (published_streams r) sid of
              None \<Rightarrow> Some stream_not_found
            | Some stream \<Rightarrow>
              if st_publisher_id stream \<noteq> uid
              then Some (error_reply ''not_publisher''
                     ''only the stream publisher can poll remote input'')
              else if st_media_kind stream \<noteq> Screen
              then Some (error_reply ''media_kind_mismatch''
                     ''remote input can only target screen streams'')
              else None)))"

definition poll_remote_input ::
  "session \<Rightarrow> poll_remote_input_msg \<Rightarrow> control_state \<Rightarrow> server_control \<times> control_state" where
  "poll_remote_input s poll st =
     (let rid = pri_room_id poll; sid = pri_stream_id poll in
      case validate_remote_input_publisher s rid sid st of
        Some error \<Rightarrow> (error, st)
      | None \<Rightarrow>
          let max_events =
                unat (min (max (pri_max_events poll) 1) (of_nat MAX_REMOTE_INPUT_BATCH_EVENTS));
              (events, st) =
                (case bt_get (cs_pending_remote_input st) sid of
                   None \<Rightarrow> ([], st)
                 | Some queue \<Rightarrow>
                     let (events, queue) = poll_input_loop max_events [] queue in
                     (events,
                      st\<lparr>cs_pending_remote_input :=
                           (if queue = [] then bt_remove sid (cs_pending_remote_input st)
                            else bt_insert sid queue (cs_pending_remote_input st))\<rparr>))
          in (RemoteInputBatch \<lparr>rib_room_id = rid, rib_stream_id = sid, rib_events = events\<rparr>, st))"

section \<open>Queries of rooms, streams and participants\<close>

definition poll_stream_config ::
  "session \<Rightarrow> room_id \<Rightarrow> stream_id \<Rightarrow> control_state \<Rightarrow> server_control" where
  "poll_stream_config s rid sid st =
     (case sess_user_id s of
        None \<Rightarrow> send_hello_first
      | Some uid \<Rightarrow>
        (case bt_get (cs_rooms st) rid of
           None \<Rightarrow> room_not_found
         | Some r \<Rightarrow>
           if uid \<notin> participants r
           then error_reply ''not_in_room'' ''join room before polling stream config''
           else
             (case bt_get (published_streams r) sid of
                None \<Rightarrow> stream_not_found
              | Some stream \<Rightarrow>
                (case st_config stream of
                   Some config \<Rightarrow> StreamConfigR config
                 | None \<Rightarrow> error_reply ''stream_config_unavailable''
                             ''publisher has not sent stream config yet''))))"

definition list_rooms :: "control_state \<Rightarrow> room_list" where
  "list_rooms st =
     \<lparr>rl_rooms = map (\<lambda>r.
        \<lparr>rs_room_id = rm_id r, rs_name = rm_name r,
         rs_participant_count = of_nat (card (participants r)),
         rs_published_stream_count = of_nat (bt_len (published_streams r))\<rparr>)
        (bt_values (cs_rooms st))\<rparr>"

definition subscriber_count :: "room \<Rightarrow> stream_id \<Rightarrow> u32" where
  "subscriber_count r sid =
     (case bt_get (subscriptions r) sid of
        None \<Rightarrow> 0 | Some subscribers \<Rightarrow> of_nat (card subscribers))"

definition list_streams :: "session \<Rightarrow> room_id \<Rightarrow> control_state \<Rightarrow> server_control" where
  "list_streams s rid st =
     (case sess_user_id s of
        None \<Rightarrow> send_hello_first
      | Some uid \<Rightarrow>
        (case bt_get (cs_rooms st) rid of
           None \<Rightarrow> room_not_found
         | Some r \<Rightarrow>
           if uid \<notin> participants r
           then error_reply ''not_in_room'' ''join room before listing streams''
           else StreamList
             \<lparr>sl_room_id = rid,
              sl_streams = map (\<lambda>stream.
                \<lparr>ssum_room_id = rid, ssum_stream_id = st_stream_id stream,
                 ssum_publisher_id = st_publisher_id stream, ssum_codec = st_codec stream,
                 ssum_media_kind = st_media_kind stream,
                 ssum_subscriber_count = subscriber_count r (st_stream_id stream),
                 ssum_has_config = (st_config stream \<noteq> None),
                 ssum_target_bitrate_bps = st_target_bitrate_bps stream,
                 ssum_target_frames_per_second = st_target_frames_per_second stream\<rparr>)
                (bt_values (published_streams r))\<rparr>))"

definition participant_summary_of ::
  "room_id \<Rightarrow> room \<Rightarrow> control_state \<Rightarrow> user_id \<Rightarrow> participant_summary" where
  "participant_summary_of rid r st participant_id =
     (let voice = (case get_voice_state st rid participant_id of
                     None \<Rightarrow> default_voice_state rid participant_id | Some v \<Rightarrow> v)
      in \<lparr>psum_room_id = rid, psum_user_id = participant_id,
          psum_display_name = display_name_for_user st participant_id,
          psum_muted = vs_muted voice, psum_deafened = vs_deafened voice,
          psum_push_to_talk = vs_push_to_talk voice, psum_speaking = vs_speaking voice,
          psum_published_stream_count =
            of_nat (length (filter (\<lambda>stream. st_publisher_id stream = participant_id)
              (bt_values (published_streams r)))),
          psum_subscribed_stream_count =
            of_nat (length (filter (\<lambda>subscribers. participant_id \<in> subscribers)
              (bt_values (subscriptions r))))\<rparr>)"

definition list_participants :: "session \<Rightarrow> room_id \<Rightarrow> control_state \<Rightarrow> server_control" where
  "list_participants s rid st =
     (case sess_user_id s of
        None \<Rightarrow> send_hello_first
      | Some uid \<Rightarrow>
        (case bt_get (cs_rooms st) rid of
           None \<Rightarrow> room_not_found
         | Some r \<Rightarrow>
           if uid \<notin> participants r
           then error_reply ''not_in_room'' ''join room before listing participants''
           else ParticipantList
             \<lparr>pl_room_id = rid,
              pl_participants = map (participant_summary_of rid r st)
                (sorted_list_of_set (participants r))\<rparr>))"

definition poll_stream_metrics ::
  "session \<Rightarrow> room_id \<Rightarrow> stream_id \<Rightarrow> control_state \<Rightarrow> server_control" where
  "poll_stream_metrics s rid sid st =
     (case sess_user_id s of
        None \<Rightarrow> send_hello_first
      | Some uid \<Rightarrow>
        (case bt_get (cs_rooms st) rid of
           None \<Rightarrow> room_not_found
         | Some r \<Rightarrow>
           if uid \<notin> participants r
           then error_reply ''not_in_room'' ''join room before polling stream metrics''
           else if \<not> bt_contains sid (published_streams r) then stream_not_found
           else StreamMetrics
             (metrics_snapshot rid sid (subscriber_count r sid)
               (case bt_get (cs_stream_metrics st) sid of
                  None \<Rightarrow> metrics_default | Some m \<Rightarrow> m))))"

section \<open>The arms of \<open>handle_client_envelope\<close>\<close>

definition handle_hello ::
  "session \<Rightarrow> hello \<Rightarrow> control_state \<Rightarrow> server_control \<times> session \<times> control_state" where
  "handle_hello s msg st =
     (if hello_protocol_version msg \<noteq> PROTOCOL_VERSION
      then (Error (control_error_new (lit ''unsupported_version'')
              (lit ''unsupported client protocol version '' @
               dec (unat (hello_protocol_version msg)))), s, st)
      else
        let (uid, st) = (case sess_user_id s of
                Some uid \<Rightarrow> (uid, st)
              | None \<Rightarrow> (cs_next_user_id st, st\<lparr>cs_next_user_id := cs_next_user_id st + 1\<rparr>));
            display_name = sanitize_display_name (hello_client_name msg) uid;
            s = (if sess_user_id s = None
                 then establish_identity uid (\<not> requires_access_token st) display_name s
                 else update_display_name display_name s);
            st = st\<lparr>cs_display_names := bt_insert uid display_name (cs_display_names st)\<rparr>
        in (HelloAccepted
              \<lparr>ha_protocol_version = PROTOCOL_VERSION, ha_server_name = lit ''teamview-relay'',
               ha_user_id = uid, ha_display_name = display_name\<rparr>, s, st))"

definition handle_authenticate ::
  "session \<Rightarrow> authenticate \<Rightarrow> control_state \<Rightarrow> server_control \<times> session" where
  "handle_authenticate s msg st =
     (case sess_user_id s of
        None \<Rightarrow> (error_reply ''not_ready'' ''send Hello first'', s)
      | Some uid \<Rightarrow>
          if \<exists>expected_token \<in> set_option (cs_access_token st). auth_token msg \<noteq> expected_token
          then (error_reply ''invalid_token'' ''access token is invalid'', s)
          else (Authenticated
                  \<lparr>authd_user_id = uid, authd_display_name = display_name_for_user st uid\<rparr>,
                grant_access s))"

definition handle_create_room ::
  "session \<Rightarrow> create_room \<Rightarrow> control_state \<Rightarrow> server_control \<times> control_state" where
  "handle_create_room s create st =
     (case sess_user_id s of
        None \<Rightarrow> (send_hello_first, st)
      | Some uid \<Rightarrow>
          if max_rooms (cs_limits st) \<le> bt_len (cs_rooms st)
          then (error_reply ''room_limit_reached'' ''server room limit has been reached'', st)
          else
            let rid = cs_next_room_id st;
                st = st\<lparr>cs_next_room_id := cs_next_room_id st + 1\<rparr>;
                room_name = sanitize_room_name (create_name create) rid;
                r = snd (room_join uid (room_new rid room_name));
                st = st\<lparr>cs_rooms := bt_insert rid r (cs_rooms st)\<rparr>;
                st = ensure_voice_state rid uid st
            in (RoomCreated \<lparr>created_room_id = rid, created_name = room_name\<rparr>, st))"

definition handle_join_room ::
  "session \<Rightarrow> join_room \<Rightarrow> control_state \<Rightarrow> server_control \<times> control_state" where
  "handle_join_room s join st =
     (case bt_get (cs_rooms st) (join_room_id join) of
        None \<Rightarrow> (room_not_found, st)
      | Some r \<Rightarrow>
        (case sess_user_id s of
           None \<Rightarrow> (send_hello_first, st)
         | Some uid \<Rightarrow>
           if uid \<notin> participants r \<and>
              max_participants_per_room (cs_limits st) \<le> card (participants r)
           then (error_reply ''room_full'' ''room participant limit has been reached'', st)
           else
             let (participant_count, r) = room_join uid r;
                 st = st\<lparr>cs_rooms := bt_insert (join_room_id join) r (cs_rooms st)\<rparr>;
                 st = ensure_voice_state (join_room_id join) uid st
             in (RoomJoined \<lparr>joined_room_id = join_room_id join,
                             joined_participant_count = participant_count\<rparr>, st)))"

definition handle_publish_stream ::
  "session \<Rightarrow> publish_stream \<Rightarrow> control_state \<Rightarrow> server_control \<times> control_state" where
  "handle_publish_stream s publish st =
     (if publisher_for_stream st (pub_stream_id publish) \<noteq> None
      then (error_reply ''stream_id_conflict'' ''stream id is already published'', st)
      else
        (case bt_get (cs_rooms st) (pub_room_id publish) of
           None \<Rightarrow> (room_not_found, st)
         | Some r \<Rightarrow>
           (case sess_user_id s of
              None \<Rightarrow> (send_hello_first, st)
            | Some uid \<Rightarrow>
              if uid \<notin> participants r
              then (error_reply ''not_in_room'' ''join room before publishing'', st)
              else if max_streams_per_room (cs_limits st) \<le> bt_len (published_streams r)
              then (error_reply ''stream_limit_reached'' ''room stream limit has been reached'', st)
              else
                let r = room_publish_stream
                      \<lparr>st_stream_id = pub_stream_id publish, st_publisher_id = uid,
                       st_codec = pub_codec publish, st_media_kind = pub_media_kind publish,
                       st_config = None, st_target_bitrate_bps = DEFAULT_TARGET_BITRATE_BPS,
                       st_target_frames_per_second = DEFAULT_TARGET_FRAMES_PER_SECOND,
                       st_target_width = 0, st_target_height = 0\<rparr> r
                in (StreamPublished \<lparr>sp_room_id = pub_room_id publish,
                                     sp_stream_id = pub_stream_id publish\<rparr>,
                    st\<lparr>cs_rooms := bt_insert (pub_room_id publish) r (cs_rooms st)\<rparr>))))"

definition handle_subscribe_stream ::
  "session \<Rightarrow> subscribe_stream \<Rightarrow> control_state \<Rightarrow> server_control \<times> control_state" where
  "handle_subscribe_stream s subscribe st =
     (let rid = sub_room_id subscribe; sid = sub_stream_id subscribe in
      case bt_get (cs_rooms st) rid of
        None \<Rightarrow> (room_not_found, st)
      | Some r \<Rightarrow>
        (case sess_user_id s of
           None \<Rightarrow> (send_hello_first, st)
         | Some uid \<Rightarrow>
           if uid \<notin> participants r
           then (error_reply ''not_in_room'' ''join room before subscribing'', st)
           else
             let already_subscribed = is_room_subscriber r sid uid;
                 requests_keyframe_on_subscribe =
                   (case bt_get (published_streams r) sid of
                      None \<Rightarrow> False | Some stream \<Rightarrow> st_media_kind stream = Screen);
                 (subscribed, r) = room_subscribe sid uid r;
                 st = st\<lparr>cs_rooms := bt_insert rid r (cs_rooms st)\<rparr>
             in if subscribed
                then (StreamSubscribed \<lparr>ss_room_id = rid, ss_stream_id = sid\<rparr>,
                      if \<not> already_subscribed \<and> requests_keyframe_on_subscribe
                      then register_keyframe_request sid NewSubscriber st else st)
                else (stream_not_found, st)))"

definition handle_unsubscribe_stream ::
  "session \<Rightarrow> unsubscribe_stream \<Rightarrow> control_state \<Rightarrow> server_control \<times> control_state" where
  "handle_unsubscribe_stream s unsubscribe st =
     (let rid = unsub_room_id unsubscribe; sid = unsub_stream_id unsubscribe;
          st = (case (bt_get (cs_rooms st) rid, sess_user_id s) of
                  (Some r, Some uid) \<Rightarrow>
                    remove_viewer_stats sid uid
                      (st\<lparr>cs_rooms := bt_insert rid (room_unsubscribe sid uid r) (cs_rooms st)\<rparr>)
                | _ \<Rightarrow> st)
      in (StreamUnsubscribed \<lparr>sus_room_id = rid, sus_stream_id = sid\<rparr>, st))"

definition handle_leave_room ::
  "session \<Rightarrow> leave_room_msg \<Rightarrow> control_state \<Rightarrow> server_control \<times> control_state" where
  "handle_leave_room s leave st =
     (RoomLeft \<lparr>left_room_id = leave_room_id leave\<rparr>,
      case sess_user_id s of None \<Rightarrow> st | Some uid \<Rightarrow> leave_room uid (leave_room_id leave) st)"

definition handle_viewer_stats ::
  "session \<Rightarrow> viewer_stats_report \<Rightarrow> control_state \<Rightarrow> server_control \<times> control_state" where
  "handle_viewer_stats s report st =
     (let st = (case sess_user_id s of
            None \<Rightarrow> st
          | Some uid \<Rightarrow>
              st\<lparr>cs_viewer_stats :=
                   bt_entry (vsr_stream_id report) bt_new (bt_insert uid report)
                     (cs_viewer_stats st)\<rparr>)
      in (PublisherFeedback
            (aggregate_publisher_feedback (vsr_room_id report) (vsr_stream_id report) st), st))"

section \<open>Authorisation and dispatch\<close>

fun needs_no_authorization :: "client_control \<Rightarrow> bool" where
  "needs_no_authorization (Hello _) = True"
| "needs_no_authorization (Ping _) = True"
| "needs_no_authorization (TimeSync _) = True"
| "needs_no_authorization (Authenticate _) = True"
| "needs_no_authorization _ = False"

definition authorization_error ::
  "session \<Rightarrow> client_control \<Rightarrow> control_state \<Rightarrow> server_control option" where
  "authorization_error s message st =
     (if needs_no_authorization message then None
      else if sess_user_id s = None then Some send_hello_first
      else if requires_access_token st \<and> \<not> sess_access_granted s
      then Some (error_reply ''not_authenticated'' ''authenticate before using relay controls'')
      else None)"

text \<open>A handler that leaves the session, or session and state, as they are.\<close>

definition keep_session ::
  "session \<Rightarrow> server_control \<times> control_state \<Rightarrow> server_control \<times> session \<times> control_state" where
  "keep_session s result = (fst result, s, snd result)"

fun dispatch ::
  "u64 \<Rightarrow> u64 \<Rightarrow> session \<Rightarrow> control_state \<Rightarrow> client_control \<Rightarrow>
   server_control \<times> session \<times> control_state" where
  "dispatch now now' s st (Hello msg) = handle_hello s msg st"
| "dispatch now now' s st (Ping msg) =
     (if sess_user_id s = None then send_hello_first
      else Pong \<lparr>pong_nonce = ping_nonce msg\<rparr>, s, st)"
| "dispatch now now' s st (TimeSync msg) =
     (if sess_user_id s = None then send_hello_first
      else TimeSyncR
        \<lparr>tsr_client_send_time_micros = tsq_client_send_time_micros msg,
         tsr_server_receive_time_micros = now, tsr_server_send_time_micros = now'\<rparr>, s, st)"
| "dispatch now now' s st (Authenticate msg) =
     (let (reply, s) = handle_authenticate s msg st in (reply, s, st))"
| "dispatch now now' s st (CreateRoom msg) = keep_session s (handle_create_room s msg st)"
| "dispatch now now' s st ListRooms = (RoomList (list_rooms st), s, st)"
| "dispatch now now' s st (JoinRoom msg) = keep_session s (handle_join_room s msg st)"
| "dispatch now now' s st (ListParticipants msg) =
     (list_participants s (lp_room_id msg) st, s, st)"
| "dispatch now now' s st (PublishStream msg) = keep_session s (handle_publish_stream s msg st)"
| "dispatch now now' s st (UnpublishStream msg) = keep_session s (unpublish_stream s msg st)"
| "dispatch now now' s st (ListStreams msg) = (list_streams s (ls_room_id msg) st, s, st)"
| "dispatch now now' s st (SubscribeStream msg) =
     keep_session s (handle_subscribe_stream s msg st)"
| "dispatch now now' s st (UnsubscribeStream msg) =
     keep_session s (handle_unsubscribe_stream s msg st)"
| "dispatch now now' s st (LeaveRoom msg) = keep_session s (handle_leave_room s msg st)"
| "dispatch now now' s st (SetVoiceState msg) = keep_session s (set_voice_state s msg st)"
| "dispatch now now' s st (SetStreamConfig msg) = keep_session s (set_stream_config s msg st)"
| "dispatch now now' s st (PollStreamConfig msg) =
     (poll_stream_config s (psc_room_id msg) (psc_stream_id msg) st, s, st)"
| "dispatch now now' s st (PollStreamMetrics msg) =
     (poll_stream_metrics s (psm_room_id msg) (psm_stream_id msg) st, s, st)"
| "dispatch now now' s st (RequestKeyframe msg) = keep_session s (request_keyframe s msg st)"
| "dispatch now now' s st (SendRemoteInput msg) =
     keep_session s (send_remote_input now s msg st)"
| "dispatch now now' s st (PollRemoteInput msg) = keep_session s (poll_remote_input s msg st)"
| "dispatch now now' s st (ViewerStats msg) = keep_session s (handle_viewer_stats s msg st)"
| "dispatch now now' s st (PollPublisherFeedback msg) =
     keep_session s (poll_publisher_feedback s (ppf_room_id msg) (ppf_stream_id msg) st)"
| "dispatch now now' s st (SetTargetBitrate msg) = keep_session s (set_target_bitrate s msg st)"
| "dispatch now now' s st (SetTargetFramerate msg) =
     keep_session s (set_target_framerate s msg st)"

definition handle_client_envelope ::
  "u64 \<Rightarrow> u64 \<Rightarrow> session \<Rightarrow> client_envelope \<Rightarrow> control_state \<Rightarrow>
   server_envelope \<times> session \<times> control_state" where
  "handle_client_envelope now now' s envelope st =
     (let request_id = env_request_id envelope in
      case authorization_error s (env_message envelope) st of
        Some error \<Rightarrow> (envelope_new request_id error, s, st)
      | None \<Rightarrow>
          let (message, s, st) = dispatch now now' s st (env_message envelope)
          in (envelope_new request_id message, s, st))"

end
