(* ===== verification/Control_Target.thy ===== *)
theory Control_Target
  imports Control_Ops
begin

text \<open>
  The adaptation of a stream's target in \<open>control.rs\<close> (\<open>clamp_target_resolution\<close>,
  \<open>reduce_resolution\<close>, the degraded branch of \<open>adaptive_publisher_feedback\<close>), read on natural
  numbers: the range every stored target stays in, monotonicity, and the point where it stops.
\<close>

named_theorems target_consts

lemmas [target_consts] =
  MIN_TARGET_BITRATE_BPS_def MAX_TARGET_BITRATE_BPS_def MIN_TARGET_FRAMES_PER_SECOND_def
  MAX_TARGET_FRAMES_PER_SECOND_def MIN_TARGET_WIDTH_def MIN_TARGET_HEIGHT_def
  MAX_TARGET_WIDTH_def MAX_TARGET_HEIGHT_def DEGRADED_BITRATE_PERCENT_def
  DEFAULT_TARGET_BITRATE_BPS_def DEFAULT_TARGET_FRAMES_PER_SECOND_def

section \<open>Words as numbers\<close>

lemma unat_max: "unat (max a b) = max (unat a) (unat b)" for a b :: "'a::len word"
  by (simp add: max_def word_le_nat_alt)

lemma unat_min: "unat (min a b) = min (unat a) (unat b)" for a b :: "'a::len word"
  by (simp add: min_def word_le_nat_alt)

lemma unat_eqD: "unat a = unat b \<Longrightarrow> a = b" for a b :: "'a::len word"
  using unat_eq_of_nat [of a "unat b"] by simp

lemma unat_scale_u32:
  assumes "0 < c" and "unat a * unat b div unat c < 4294967296"
  shows "unat (scale_u32 a b c) = unat a * unat b div unat c"
proof -
  have "1 \<le> c" using assms(1) by (simp add: word_le_nat_alt word_less_nat_alt)
  then have c: "max c 1 = c" by (rule max_absorb1)
  have up: "unat (ucast x :: u64) = unat x" for x :: u32
    using unat_u32_less [of x] by (simp add: unsigned_ucast_eq take_bit_nat_eq_self)
  have "unat a * unat b \<le> 4294967295 * 4294967295"
    using unat_u32_less [of a] unat_u32_less [of b] by (intro mult_le_mono) simp_all
  then have "unat (ucast a * ucast b :: u64) = unat a * unat b"
    by (simp add: unat_word_ariths up)
  then have "unat ((ucast a * ucast b :: u64) div ucast c) = unat a * unat b div unat c"
    by (simp add: unat_div_distrib up)
  then show ?thesis using assms(2) c
    by (simp add: scale_u32_def unsigned_ucast_eq take_bit_nat_eq_self)
qed

section \<open>The range of a target\<close>

definition resolution_ok :: "u32 \<Rightarrow> u32 \<Rightarrow> bool" where
  "resolution_ok w h \<longleftrightarrow>
     w = 0 \<and> h = 0 \<or>
     320 \<le> unat w \<and> unat w \<le> 7680 \<and> 180 \<le> unat h \<and> unat h \<le> 4320"

definition target_ok :: "stream_target \<Rightarrow> bool" where
  "target_ok t \<longleftrightarrow>
     16000 \<le> unat (tg_bitrate_bps t) \<and> unat (tg_bitrate_bps t) \<le> 16000000 \<and>
     5 \<le> unat (tg_frames_per_second t) \<and> unat (tg_frames_per_second t) \<le> 120 \<and>
     resolution_ok (tg_width t) (tg_height t)"

lemma resolution_ok_clamp: "case clamp_target_resolution w h of (w', h') \<Rightarrow> resolution_ok w' h'"
  by (auto simp: clamp_target_resolution_def clampw_def resolution_ok_def target_consts
      word_less_nat_alt)

lemma clamp_resolution_id: "resolution_ok w h \<Longrightarrow> clamp_target_resolution w h = (w, h)"
  by (auto simp: clamp_target_resolution_def clampw_def resolution_ok_def target_consts
      word_less_nat_alt)

lemma clamp_bitrate:
  "16000 \<le> unat (clampw MIN_TARGET_BITRATE_BPS MAX_TARGET_BITRATE_BPS b)"
  "unat (clampw MIN_TARGET_BITRATE_BPS MAX_TARGET_BITRATE_BPS b) \<le> 16000000"
  by (auto simp: clampw_def target_consts word_less_nat_alt)

lemma clamp_fps:
  "5 \<le> unat (clampw MIN_TARGET_FRAMES_PER_SECOND MAX_TARGET_FRAMES_PER_SECOND f)"
  "unat (clampw MIN_TARGET_FRAMES_PER_SECOND MAX_TARGET_FRAMES_PER_SECOND f) \<le> 120"
  by (auto simp: clampw_def target_consts word_less_nat_alt)

lemma clamp_bitrate_id:
  "16000 \<le> unat b \<Longrightarrow> unat b \<le> 16000000 \<Longrightarrow>
   clampw MIN_TARGET_BITRATE_BPS MAX_TARGET_BITRATE_BPS b = b"
  by (auto simp: clampw_def target_consts word_less_nat_alt)

lemma clamp_fps_id:
  "5 \<le> unat f \<Longrightarrow> unat f \<le> 120 \<Longrightarrow>
   clampw MIN_TARGET_FRAMES_PER_SECOND MAX_TARGET_FRAMES_PER_SECOND f = f"
  by (auto simp: clampw_def target_consts word_less_nat_alt)

section \<open>Reducing the resolution\<close>

lemma unat_reduced_width:
  "unat w \<le> 7680 \<Longrightarrow> unat (sat_mul w DEGRADED_BITRATE_PERCENT div 100) = unat w * 80 div 100"
  by (simp add: target_consts unat_div_distrib unat_sat_mul)

lemma unat_min_resolution: "unat MIN_TARGET_WIDTH = 320" "unat MIN_TARGET_HEIGHT = 180"
  by (simp_all add: target_consts)

lemma scaled_less:
  fixes a b c :: nat
  assumes "a < c" and "0 < b" shows "a * b div c < b"
proof -
  have "a * b < b * c" using assms by (simp add: mult.commute)
  then show ?thesis by (simp add: less_mult_imp_div_less)
qed

text \<open>Outside the fixed points both sides shrink, by a fifth, down to their floors.\<close>

lemma reduce_resolution_steps:
  assumes "320 \<le> unat w" "unat w \<le> 7680" "180 \<le> unat h" "unat h \<le> 4320"
  obtains nw nh where
    "unat nw = max (unat w * 80 div 100) 320"
    "unat nw \<le> unat w"
    "unat nh = min (max (unat nw * unat h div unat w) 180) (unat h)"
    "reduce_resolution w h =
       (if nh = h \<and> nw = w then (w, h) else if nh = h then (w, h)
        else clamp_target_resolution nw nh)"
proof
  define nw where
    "nw = min (max (sat_mul w DEGRADED_BITRATE_PERCENT div 100) MIN_TARGET_WIDTH) w"
  define nh where "nh = min (max (scale_u32 nw h w) MIN_TARGET_HEIGHT) h"
  have nz: "w \<noteq> 0" "h \<noteq> 0" "0 < w" "0 < h" using assms by (auto simp: word_less_nat_alt)
  have "unat nw = min (max (unat w * 80 div 100) 320) (unat w)"
    unfolding nw_def
    by (simp only: unat_min unat_max unat_reduced_width [OF assms(2)] unat_min_resolution)
  moreover have "max (unat w * 80 div 100) 320 \<le> unat w" using assms(1) by simp
  ultimately show nw: "unat nw = max (unat w * 80 div 100) 320" "unat nw \<le> unat w" by linarith+
  have "unat nw * unat h \<le> unat h * unat w" using nw(2) by (simp add: mult.commute)
  then have le: "unat nw * unat h div unat w \<le> unat h"
    using assms(1) by (metis div_le_mono nonzero_mult_div_cancel_right not_numeral_le_zero)
  have sc: "unat (scale_u32 nw h w) = unat nw * unat h div unat w"
    by (rule unat_scale_u32 [OF nz(3)]) (rule le_less_trans [OF le unat_u32_less])
  show "unat nh = min (max (unat nw * unat h div unat w) 180) (unat h)"
    unfolding nh_def by (simp only: unat_min unat_max sc unat_min_resolution)
  have sq: "scale_u32 h w h = w"
    using unat_scale_u32 [OF nz(4), of h w] unat_u32_less [of w] nz(2)
    by (intro unat_eqD) (simp add: unat_gt_0)
  have "MIN_TARGET_WIDTH \<le> w" using assms(1) by (simp add: target_consts word_le_nat_alt)
  then have "min (max (scale_u32 nh w h) MIN_TARGET_WIDTH) w = w" if "nh = h"
    using sq that by (simp add: max_absorb1)
  moreover have "clamp_target_resolution w h = (w, h)"
    using assms by (intro clamp_resolution_id) (simp add: resolution_ok_def)
  ultimately show "reduce_resolution w h =
      (if nh = h \<and> nw = w then (w, h) else if nh = h then (w, h)
       else clamp_target_resolution nw nh)"
    using nz by (simp add: reduce_resolution_def Let_def flip: nw_def nh_def)
qed

lemma reduce_resolution_fixed:
  assumes "320 \<le> unat w" "unat w \<le> 7680" "180 \<le> unat h" "unat h \<le> 4320"
    and "unat w = 320 \<or> unat h = 180"
  shows "reduce_resolution w h = (w, h)"
proof -
  obtain nw nh where *: "unat nw = max (unat w * 80 div 100) 320"
    "unat nh = min (max (unat nw * unat h div unat w) 180) (unat h)"
    "reduce_resolution w h =
       (if nh = h \<and> nw = w then (w, h) else if nh = h then (w, h)
        else clamp_target_resolution nw nh)"
    by (rule reduce_resolution_steps [OF assms(1-4)])
  have "unat nh = unat h"
  proof (cases "unat w = 320")
    case True
    then have "unat nw = unat w" using *(1) by simp
    then have "unat nw * unat h div unat w = unat h" using True by simp
    then show ?thesis using *(2) assms(3) by linarith
  next
    case False
    then show ?thesis using assms(5) *(2) by linarith
  qed
  then have "nh = h" by (rule unat_eqD)
  with *(3) show ?thesis by simp
qed

lemma reduce_resolution_shrinks:
  assumes "320 < unat w" "unat w \<le> 7680" "180 < unat h" "unat h \<le> 4320"
  obtains w' h' where "reduce_resolution w h = (w', h')" "resolution_ok w' h'"
    "unat w' = max (unat w * 80 div 100) 320"
    "unat h' = max (unat w' * unat h div unat w) 180"
    "unat w' < unat w" "unat h' < unat h"
proof -
  have ge: "320 \<le> unat w" "180 \<le> unat h" using assms by simp_all
  obtain nw nh where *: "unat nw = max (unat w * 80 div 100) 320"
    "unat nh = min (max (unat nw * unat h div unat w) 180) (unat h)"
    "reduce_resolution w h =
       (if nh = h \<and> nw = w then (w, h) else if nh = h then (w, h)
        else clamp_target_resolution nw nh)"
    by (rule reduce_resolution_steps [OF ge(1) assms(2) ge(2) assms(4)])
  have nw: "unat nw < unat w" using *(1) assms(1) by simp
  then have "unat nw * unat h div unat w < unat h"
    using assms(3) by (intro scaled_less) simp_all
  then have nh: "unat nh = max (unat nw * unat h div unat w) 180" "unat nh < unat h"
    using *(2) assms(3) by linarith+
  have ok: "resolution_ok nw nh"
    using *(1) nw nh assms unfolding resolution_ok_def by linarith
  have "nh \<noteq> h" using nh(2) by blast
  then have "reduce_resolution w h = (nw, nh)" using *(3) clamp_resolution_id [OF ok] by simp
  then show ?thesis using ok *(1) nh(1) nw nh(2) by (rule that)
qed

section \<open>The reduced target\<close>

text \<open>\<open>u\<close> is at most \<open>t\<close> in every component.\<close>

definition target_le :: "stream_target \<Rightarrow> stream_target \<Rightarrow> bool" where
  "target_le u t \<longleftrightarrow>
     unat (tg_bitrate_bps u) \<le> unat (tg_bitrate_bps t) \<and>
     unat (tg_frames_per_second u) \<le> unat (tg_frames_per_second t) \<and>
     unat (tg_width u) \<le> unat (tg_width t) \<and> unat (tg_height u) \<le> unat (tg_height t)"

definition target_size :: "stream_target \<Rightarrow> nat" where
  "target_size t =
     unat (tg_bitrate_bps t) + unat (tg_frames_per_second t) + unat (tg_width t) +
     unat (tg_height t)"

text \<open>The targets a degraded stream ends in: nothing is left to give up.\<close>

definition target_floor :: "stream_target \<Rightarrow> bool" where
  "target_floor t \<longleftrightarrow>
     unat (tg_bitrate_bps t) = 16000 \<and> unat (tg_frames_per_second t) = 5 \<and>
     (tg_width t = 0 \<or> unat (tg_width t) = 320 \<or> unat (tg_height t) = 180)"

lemma unat_reduced_bitrate:
  "unat b \<le> 16000000 \<Longrightarrow>
   unat (max (sat_mul b DEGRADED_BITRATE_PERCENT div 100) MIN_TARGET_BITRATE_BPS) =
     max (unat b * 80 div 100) 16000"
  by (simp add: unat_max target_consts unat_div_distrib unat_sat_mul)

lemma unat_reduced_fps:
  "unat f \<le> 120 \<Longrightarrow>
   unat (max (sat_mul f (ucast DEGRADED_BITRATE_PERCENT) div 100)
           MIN_TARGET_FRAMES_PER_SECOND) = max (unat f * 80 div 100) 5"
  by (simp add: unat_max target_consts unat_div_distrib unat_sat_mul)

text \<open>One step by cases: the bitrate first, then the frame rate, then the resolution.\<close>

lemma reduced_target_bitrate:
  assumes "target_ok t" and "16000 < unat (tg_bitrate_bps t)"
  shows "tg_frames_per_second (reduced_target t) = tg_frames_per_second t"
    and "tg_width (reduced_target t) = tg_width t" and "tg_height (reduced_target t) = tg_height t"
    and "unat (tg_bitrate_bps (reduced_target t)) = max (unat (tg_bitrate_bps t) * 80 div 100) 16000"
    and "unat (tg_bitrate_bps (reduced_target t)) < unat (tg_bitrate_bps t)"
proof -
  let ?b = "max (sat_mul (tg_bitrate_bps t) DEGRADED_BITRATE_PERCENT div 100)
      MIN_TARGET_BITRATE_BPS"
  have b: "unat ?b = max (unat (tg_bitrate_bps t) * 80 div 100) 16000"
    using assms(1) by (intro unat_reduced_bitrate) (simp add: target_ok_def)
  then have less: "unat ?b < unat (tg_bitrate_bps t)" using assms(2) by simp
  then have "?b \<noteq> tg_bitrate_bps t" by (metis less_irrefl)
  then have "reduced_target t = t\<lparr>tg_bitrate_bps := ?b\<rparr>"
    by (simp add: reduced_target_def Let_def)
  with b less show "tg_frames_per_second (reduced_target t) = tg_frames_per_second t"
    "tg_width (reduced_target t) = tg_width t" "tg_height (reduced_target t) = tg_height t"
    "unat (tg_bitrate_bps (reduced_target t)) = max (unat (tg_bitrate_bps t) * 80 div 100) 16000"
    "unat (tg_bitrate_bps (reduced_target t)) < unat (tg_bitrate_bps t)"
    by simp_all
qed

lemma reduced_bitrate_floor:
  assumes "unat (tg_bitrate_bps t) = 16000"
  shows "max (sat_mul (tg_bitrate_bps t) DEGRADED_BITRATE_PERCENT div 100)
      MIN_TARGET_BITRATE_BPS = tg_bitrate_bps t"
  using assms by (intro unat_eqD) (simp add: unat_reduced_bitrate)

lemma reduced_target_fps:
  assumes "target_ok t" and "unat (tg_bitrate_bps t) = 16000"
    and "5 < unat (tg_frames_per_second t)"
  shows "tg_bitrate_bps (reduced_target t) = tg_bitrate_bps t"
    and "tg_width (reduced_target t) = tg_width t" and "tg_height (reduced_target t) = tg_height t"
    and "unat (tg_frames_per_second (reduced_target t)) =
      max (unat (tg_frames_per_second t) * 80 div 100) 5"
    and "unat (tg_frames_per_second (reduced_target t)) < unat (tg_frames_per_second t)"
proof -
  let ?f = "max (sat_mul (tg_frames_per_second t) (ucast DEGRADED_BITRATE_PERCENT) div 100)
      MIN_TARGET_FRAMES_PER_SECOND"
  have f: "unat ?f = max (unat (tg_frames_per_second t) * 80 div 100) 5"
    using assms(1) by (intro unat_reduced_fps) (simp add: target_ok_def)
  then have less: "unat ?f < unat (tg_frames_per_second t)" using assms(3) by simp
  then have "?f \<noteq> tg_frames_per_second t" by (metis less_irrefl)
  moreover have "MIN_TARGET_FRAMES_PER_SECOND < tg_frames_per_second t"
    using assms(3) by (simp add: target_consts word_less_nat_alt)
  ultimately have "reduced_target t = t\<lparr>tg_frames_per_second := ?f\<rparr>"
    by (simp add: reduced_target_def Let_def reduced_bitrate_floor [OF assms(2)])
  with f less show "tg_bitrate_bps (reduced_target t) = tg_bitrate_bps t"
    "tg_width (reduced_target t) = tg_width t" "tg_height (reduced_target t) = tg_height t"
    "unat (tg_frames_per_second (reduced_target t)) =
      max (unat (tg_frames_per_second t) * 80 div 100) 5"
    "unat (tg_frames_per_second (reduced_target t)) < unat (tg_frames_per_second t)"
    by simp_all
qed

lemma reduced_target_resolution:
  assumes "unat (tg_bitrate_bps t) = 16000" and "unat (tg_frames_per_second t) = 5"
  shows "reduced_target t =
    (case reduce_resolution (tg_width t) (tg_height t) of
       (w, h) \<Rightarrow> t\<lparr>tg_width := w, tg_height := h\<rparr>)"
proof -
  have "\<not> MIN_TARGET_FRAMES_PER_SECOND < tg_frames_per_second t"
    using assms(2) by (simp add: target_consts word_less_nat_alt)
  then show ?thesis
    by (simp add: reduced_target_def Let_def reduced_bitrate_floor [OF assms(1)]
        split: prod.splits)
qed

lemma reduced_target_step:
  assumes "target_ok t"
  shows "target_ok (reduced_target t) \<and> target_le (reduced_target t) t \<and>
    (if target_floor t then reduced_target t = t
     else target_size (reduced_target t) < target_size t)"
proof -
  consider (bitrate) "16000 < unat (tg_bitrate_bps t)"
    | (fps) "unat (tg_bitrate_bps t) = 16000" "5 < unat (tg_frames_per_second t)"
    | (res) "unat (tg_bitrate_bps t) = 16000" "unat (tg_frames_per_second t) = 5"
    using assms unfolding target_ok_def by linarith
  then show ?thesis
  proof cases
    case bitrate
    with assms reduced_target_bitrate [OF assms bitrate] show ?thesis
      by (simp add: target_ok_def target_le_def target_size_def target_floor_def)
  next
    case fps
    with assms reduced_target_fps [OF assms fps] show ?thesis
      by (simp add: target_ok_def target_le_def target_size_def target_floor_def)
  next
    case res
    note r = reduced_target_resolution [OF res]
    show ?thesis
    proof (cases "target_floor t")
      case True
      have "reduce_resolution (tg_width t) (tg_height t) = (tg_width t, tg_height t)"
      proof (cases "tg_width t = 0")
        case False
        with True assms show ?thesis
          by (intro reduce_resolution_fixed)
            (auto simp: target_ok_def resolution_ok_def target_floor_def)
      qed (simp add: reduce_resolution_def)
      with r True assms show ?thesis by (simp add: target_le_def)
    next
      case False
      with assms res have b: "320 < unat (tg_width t)" "unat (tg_width t) \<le> 7680"
        "180 < unat (tg_height t)" "unat (tg_height t) \<le> 4320"
        by (auto simp: target_ok_def resolution_ok_def target_floor_def)
      obtain w' h' where "reduce_resolution (tg_width t) (tg_height t) = (w', h')"
        and "resolution_ok w' h'" "unat w' < unat (tg_width t)" "unat h' < unat (tg_height t)"
        by (rule reduce_resolution_shrinks [OF b])
      with r False assms show ?thesis
        by (simp add: target_ok_def target_le_def target_size_def)
    qed
  qed
qed

text \<open>
  C14. Adaptation: from a target in range, every step of the degraded branch yields a target in
  range and nowhere above the old one, and it leaves the target alone exactly when bitrate and
  frame rate are at their minimum and the resolution is unset or has reached its minimal width or
  height.
\<close>

theorem reduced_target_descends:
  assumes "target_ok t"
  shows "target_ok (reduced_target t) \<and> target_le (reduced_target t) t \<and>
    (reduced_target t = t \<longleftrightarrow> target_floor t)"
  using reduced_target_step [OF assms] by (auto split: if_splits)

theorem reduced_target_descends_witness:
  "let t = \<lparr>tg_bitrate_bps = 16000, tg_frames_per_second = 5, tg_width = 1920,
            tg_height = 1080\<rparr>
   in target_ok (reduced_target t) \<and> target_le (reduced_target t) t \<and> reduced_target t \<noteq> t"
proof -
  let ?t = "\<lparr>tg_bitrate_bps = 16000, tg_frames_per_second = 5, tg_width = 1920,
             tg_height = 1080\<rparr>"
  have "target_ok ?t" by (simp add: target_ok_def resolution_ok_def)
  moreover have "\<not> target_floor ?t" by (simp add: target_floor_def)
  ultimately show ?thesis unfolding Let_def using reduced_target_descends [of ?t] by metis
qed

text \<open>
  C15. Termination of the adaptation: under lasting degradation the target reaches its floor after
  finitely many steps, no more than the sum of its components.
\<close>

theorem reduced_target_converges:
  assumes "target_ok t"
  shows "\<exists>n \<le> target_size t. target_floor ((reduced_target ^^ n) t)"
  using assms
proof (induction "target_size t" arbitrary: t rule: less_induct)
  case less
  show ?case
  proof (cases "target_floor t")
    case True
    then have "target_floor ((reduced_target ^^ 0) t)" by simp
    then show ?thesis by blast
  next
    case False
    note step = reduced_target_step [OF less.prems]
    with False have lt: "target_size (reduced_target t) < target_size t" by simp
    obtain n where n: "n \<le> target_size (reduced_target t)"
      "target_floor ((reduced_target ^^ n) (reduced_target t))"
      using less.hyps [OF lt] step by blast
    from n(2) have "target_floor ((reduced_target ^^ Suc n) t)" by (simp add: funpow_swap1)
    moreover have "Suc n \<le> target_size t" using n(1) lt by simp
    ultimately show ?thesis by blast
  qed
qed

theorem reduced_target_converges_witness:
  "\<exists>n \<le> 4000030.
     target_floor ((reduced_target ^^ n)
       \<lparr>tg_bitrate_bps = 4000000, tg_frames_per_second = 30, tg_width = 0, tg_height = 0\<rparr>)"
  using reduced_target_converges [of "\<lparr>tg_bitrate_bps = 4000000, tg_frames_per_second = 30,
      tg_width = 0, tg_height = 0\<rparr>"]
  by (simp add: target_ok_def resolution_ok_def target_size_def)

text \<open>
  A stream of minimal height is never made narrower: the branch that recomputes the width
  from an unchanged height always gets the old width back, so a 7680 by 180 stream keeps its
  resolution however degraded its viewers are.
\<close>

theorem minimal_height_keeps_width:
  assumes "320 \<le> unat w" and "unat w \<le> 7680"
  shows "reduce_resolution w MIN_TARGET_HEIGHT = (w, MIN_TARGET_HEIGHT)"
  using assms by (intro reduce_resolution_fixed) (simp_all add: target_consts)

theorem minimal_height_keeps_width_witness: "reduce_resolution 7680 180 = (7680, 180)"
  using minimal_height_keeps_width [of 7680] by (simp add: target_consts)

end
