(* ===== verification/Control_Inv.thy ===== *)
theory Control_Inv
  imports Control_Names Control_Target
begin

text \<open>
  The invariant of the control state and its preservation by every operation of \<open>control.rs\<close>.
  The invariant is a conjunction of predicates on the parts of the state an operation changes:
  the rooms, the voice states, the per-stream queues, the viewer statistics and the names.
\<close>

section \<open>The invariant\<close>

definition stream_target_of :: "published_stream \<Rightarrow> stream_target" where
  "stream_target_of s =
     \<lparr>tg_bitrate_bps = st_target_bitrate_bps s,
      tg_frames_per_second = st_target_frames_per_second s, tg_width = st_target_width s,
      tg_height = st_target_height s\<rparr>"

text \<open>A stream's target is in range and its configuration, once set, repeats it.\<close>

definition stream_wf :: "room_id \<Rightarrow> published_stream \<Rightarrow> bool" where
  "stream_wf rid s \<longleftrightarrow>
     target_ok (stream_target_of s) \<and>
     (case st_config s of
        None \<Rightarrow> True
      | Some c \<Rightarrow>
          sc_room_id c = rid \<and> sc_stream_id c = st_stream_id s \<and> sc_codec c = st_codec s \<and>
          sc_frames_per_second c = st_target_frames_per_second s \<and>
          sc_width c = st_target_width s \<and> sc_height c = st_target_height s)"

definition room_wf :: "control_limits \<Rightarrow> room_id \<Rightarrow> room \<Rightarrow> bool" where
  "room_wf l rid r \<longleftrightarrow>
     rm_id r = rid \<and> clean_name 64 (rm_name r) \<and> room_inv r \<and> participants r \<noteq> {} \<and>
     card (participants r) \<le> max_participants_per_room l \<and>
     bt_len (published_streams r) \<le> max_streams_per_room l \<and>
     (\<forall>sid s. bt_get (published_streams r) sid = Some s \<longrightarrow> stream_wf rid s)"

text \<open>Stream \<open>sid\<close> is published in room \<open>rid\<close> as \<open>s\<close>.\<close>

definition published_in ::
  "(room_id, room) btree \<Rightarrow> room_id \<Rightarrow> stream_id \<Rightarrow> published_stream \<Rightarrow> bool" where
  "published_in rooms rid sid s \<longleftrightarrow>
     (\<exists>r. bt_get rooms rid = Some r \<and> bt_get (published_streams r) sid = Some s)"

definition rooms_wf :: "control_limits \<Rightarrow> (room_id, room) btree \<Rightarrow> bool" where
  "rooms_wf l rooms \<longleftrightarrow>
     1 \<le> max_participants_per_room l \<and> bt_len rooms \<le> max_rooms l \<and>
     (\<forall>rid r. bt_get rooms rid = Some r \<longrightarrow> room_wf l rid r) \<and>
     (\<forall>rid rid' sid s s'. published_in rooms rid sid s \<longrightarrow> published_in rooms rid' sid s' \<longrightarrow>
        rid = rid')"

definition voice_wf ::
  "(room_id, room) btree \<Rightarrow> (room_id, (user_id, voice_state) btree) btree \<Rightarrow> bool" where
  "voice_wf rooms voice \<longleftrightarrow>
     no_empty_value voice \<and>
     (\<forall>rid uid. nested_get voice rid uid \<noteq> None \<longleftrightarrow>
        (\<exists>r. bt_get rooms rid = Some r \<and> uid \<in> participants r)) \<and>
     (\<forall>rid uid v. nested_get voice rid uid = Some v \<longrightarrow>
        vs_room_id v = rid \<and> vs_user_id v = uid \<and> (vs_muted v \<longrightarrow> \<not> vs_speaking v))"

definition input_event_wf :: "remote_input_event \<Rightarrow> bool" where
  "input_event_wf e \<longleftrightarrow> sanitize_remote_input_kind (rie_kind e) = Inr (rie_kind e)"

definition pending_wf ::
  "(room_id, room) btree \<Rightarrow> (stream_id, keyframe_reason) btree \<Rightarrow>
   (stream_id, remote_input_event list) btree \<Rightarrow>
   (stream_id, stream_forwarding_metrics) btree \<Rightarrow> bool" where
  "pending_wf rooms keyframes input metrics \<longleftrightarrow>
     (\<forall>sid. bt_get keyframes sid \<noteq> None \<longrightarrow> (\<exists>rid s. published_in rooms rid sid s)) \<and>
     (\<forall>sid. bt_get metrics sid \<noteq> None \<longrightarrow> (\<exists>rid s. published_in rooms rid sid s)) \<and>
     (\<forall>sid q. bt_get input sid = Some q \<longrightarrow>
        q \<noteq> [] \<and> length q \<le> 256 \<and> list_all input_event_wf q \<and>
        (\<exists>rid s. published_in rooms rid sid s \<and> st_media_kind s = Screen))"

definition stats_wf :: "(stream_id, (user_id, viewer_stats_report) btree) btree \<Rightarrow> bool" where
  "stats_wf stats \<longleftrightarrow>
     no_empty_value stats \<and>
     (\<forall>sid uid report. nested_get stats sid uid = Some report \<longrightarrow> vsr_stream_id report = sid)"

definition names_wf :: "(user_id, rstring) btree \<Rightarrow> bool" where
  "names_wf names \<longleftrightarrow> (\<forall>uid n. bt_get names uid = Some n \<longrightarrow> clean_name 64 n)"

definition wf_state :: "control_state \<Rightarrow> bool" where
  "wf_state st \<longleftrightarrow>
     rooms_wf (cs_limits st) (cs_rooms st) \<and>
     voice_wf (cs_rooms st) (cs_voice_states st) \<and>
     pending_wf (cs_rooms st) (cs_pending_keyframe_requests st) (cs_pending_remote_input st)
       (cs_stream_metrics st) \<and>
     stats_wf (cs_viewer_stats st) \<and>
     names_wf (cs_display_names st)"

lemma wf_stateI:
  assumes "rooms_wf (cs_limits st) (cs_rooms st)"
    and "voice_wf (cs_rooms st) (cs_voice_states st)"
    and "pending_wf (cs_rooms st) (cs_pending_keyframe_requests st) (cs_pending_remote_input st)
       (cs_stream_metrics st)"
    and "stats_wf (cs_viewer_stats st)" and "names_wf (cs_display_names st)"
  shows "wf_state st"
  using assms by (simp add: wf_state_def)

lemma wf_stateD:
  assumes "wf_state st"
  shows "rooms_wf (cs_limits st) (cs_rooms st)"
    and "voice_wf (cs_rooms st) (cs_voice_states st)"
    and "pending_wf (cs_rooms st) (cs_pending_keyframe_requests st) (cs_pending_remote_input st)
       (cs_stream_metrics st)"
    and "stats_wf (cs_viewer_stats st)" and "names_wf (cs_display_names st)"
  using assms by (simp_all add: wf_state_def)

lemma rooms_wfD:
  assumes "rooms_wf l rooms"
  shows "bt_len rooms \<le> max_rooms l"
    and "bt_get rooms rid = Some r \<Longrightarrow> room_wf l rid r"
    and "published_in rooms rid sid s \<Longrightarrow> published_in rooms rid' sid s' \<Longrightarrow> rid = rid'"
    and "1 \<le> max_participants_per_room l"
  using assms unfolding rooms_wf_def by blast+

lemma room_wfD:
  assumes "room_wf l rid r"
  shows "rm_id r = rid" "clean_name 64 (rm_name r)" "room_inv r" "participants r \<noteq> {}"
    "card (participants r) \<le> max_participants_per_room l"
    "bt_len (published_streams r) \<le> max_streams_per_room l"
    "bt_get (published_streams r) sid = Some s \<Longrightarrow> stream_wf rid s"
  using assms by (auto simp: room_wf_def)

lemma wf_room: "wf_state st \<Longrightarrow> bt_get (cs_rooms st) rid = Some r \<Longrightarrow> room_wf (cs_limits st) rid r"
  by (blast dest: wf_stateD(1) rooms_wfD(2))

lemma published_in_fun:
  "published_in rooms rid sid s \<Longrightarrow> published_in rooms rid sid s' \<Longrightarrow> s = s'"
  by (auto simp: published_in_def)

text \<open>The query of the code finds the one room that has the stream.\<close>

lemma published_stream_iff:
  assumes "rooms_wf l (cs_rooms st)"
  shows "published_stream st sid = Some s \<longleftrightarrow> (\<exists>rid. published_in (cs_rooms st) rid sid s)"
proof
  assume "published_stream st sid = Some s"
  then show "\<exists>rid. published_in (cs_rooms st) rid sid s"
    unfolding published_stream_def
    by (auto dest!: find_map_SomeD simp: set_bt_values ran_def published_in_def) blast
next
  assume "\<exists>rid. published_in (cs_rooms st) rid sid s"
  then obtain rid r where r: "bt_get (cs_rooms st) rid = Some r"
    and s: "bt_get (published_streams r) sid = Some s" by (auto simp: published_in_def)
  show "published_stream st sid = Some s"
    unfolding published_stream_def bt_values_def
  proof (rule bt.find_map_values [where f = "\<lambda>r. bt_get (published_streams r) sid", OF r s])
    fix rid' r' s'
    assume "bt_get (cs_rooms st) rid' = Some r'" "bt_get (published_streams r') sid = Some s'"
    then have "published_in (cs_rooms st) rid' sid s'" by (auto simp: published_in_def)
    moreover have "published_in (cs_rooms st) rid sid s" using r s by (auto simp: published_in_def)
    ultimately show "s' = s" using rooms_wfD(3) [OF assms] published_in_fun by metis
  qed
qed

lemma published_stream_None:
  "published_stream st sid = None \<longleftrightarrow> (\<forall>rid s. \<not> published_in (cs_rooms st) rid sid s)"
  unfolding published_stream_def find_map_None
  by (auto simp: set_bt_values ran_def published_in_def) (metis not_Some_eq)

lemma publisher_for_stream_iff:
  assumes "rooms_wf l (cs_rooms st)"
  shows "publisher_for_stream st sid = Some uid \<longleftrightarrow>
    (\<exists>rid s. published_in (cs_rooms st) rid sid s \<and> st_publisher_id s = uid)"
  using published_stream_iff [OF assms] by (auto simp: publisher_for_stream_def)

section \<open>The initial states\<close>

lemma wf_control_state_new: "wf_state control_state_new"
  by (simp add: wf_state_def control_state_new_def rooms_wf_def voice_wf_def pending_wf_def
      stats_wf_def names_wf_def published_in_def bt_len_def limits_default_def
      DEFAULT_MAX_PARTICIPANTS_PER_ROOM_def)

lemma wf_with_limits: "wf_state (with_limits l)"
  by (simp add: wf_state_def with_limits_def control_state_new_def rooms_wf_def voice_wf_def
      pending_wf_def stats_wf_def names_wf_def published_in_def bt_len_def limits_sanitized_def)

lemma wf_initial_token:
  "wf_state (with_access_token token)" "wf_state (with_access_token_and_limits token l)"
  using wf_control_state_new wf_with_limits [of l]
  by (simp_all add: with_access_token_def with_access_token_and_limits_def wf_state_def)

section \<open>Replacing a room\<close>

lemma published_in_insert:
  "published_in (bt_insert rid r rooms) rid' sid s \<longleftrightarrow>
     (if rid' = rid then bt_get (published_streams r) sid = Some s
      else published_in rooms rid' sid s)"
  by (simp add: published_in_def)

lemma published_in_remove:
  "published_in (bt_remove rid rooms) rid' sid s \<longleftrightarrow> rid' \<noteq> rid \<and> published_in rooms rid' sid s"
  by (auto simp: published_in_def)

text \<open>\<open>r'\<close> publishes the same stream ids as \<open>r\<close>, with the same media kinds.\<close>

definition same_streams :: "room \<Rightarrow> room \<Rightarrow> bool" where
  "same_streams r r' \<longleftrightarrow>
     (\<forall>sid. map_option st_media_kind (bt_get (published_streams r') sid) =
            map_option st_media_kind (bt_get (published_streams r) sid))"

lemma same_streams_kind:
  assumes "same_streams r r'" "bt_get rooms rid = Some r" "published_in rooms rid0 sid s"
  shows "\<exists>s'. published_in (bt_insert rid r' rooms) rid0 sid s' \<and> st_media_kind s' = st_media_kind s"
proof (cases "rid0 = rid")
  case True
  with assms(2,3) have "bt_get (published_streams r) sid = Some s" by (simp add: published_in_def)
  with assms(1) have "map_option st_media_kind (bt_get (published_streams r') sid) =
      Some (st_media_kind s)" by (simp add: same_streams_def)
  with True show ?thesis by (auto simp: published_in_insert)
next
  case False
  with assms(3) show ?thesis by (auto simp: published_in_insert)
qed

lemma same_streams_back:
  assumes "same_streams r r'" "bt_get rooms rid = Some r"
    "published_in (bt_insert rid r' rooms) rid0 sid s'"
  shows "\<exists>s. published_in rooms rid0 sid s"
proof (cases "rid0 = rid")
  case True
  with assms(3) have "bt_get (published_streams r') sid = Some s'"
    by (simp add: published_in_insert)
  with assms(1) have "bt_get (published_streams r) sid \<noteq> None"
    unfolding same_streams_def by (metis option.map_disc_iff option.distinct(1))
  with True assms(2) show ?thesis by (auto simp: published_in_def)
next
  case False
  with assms(3) show ?thesis by (auto simp: published_in_insert)
qed

lemma pending_wf_mono:
  assumes "pending_wf rooms keyframes input metrics"
    and "\<And>rid sid s. published_in rooms rid sid s \<Longrightarrow>
      \<exists>s'. published_in rooms' rid sid s' \<and> st_media_kind s' = st_media_kind s"
  shows "pending_wf rooms' keyframes input metrics"
  using assms unfolding pending_wf_def by metis

lemma wf_replace_room:
  assumes wf: "wf_state st" and r: "bt_get (cs_rooms st) rid = Some r"
    and r': "room_wf (cs_limits st) rid r'" and ps: "participants r' = participants r"
    and same: "same_streams r r'"
  shows "wf_state (st\<lparr>cs_rooms := bt_insert rid r' (cs_rooms st)\<rparr>)"
proof (rule wf_stateI; simp)
  let ?rooms = "bt_insert rid r' (cs_rooms st)"
  note D = wf_stateD [OF wf]
  show "rooms_wf (cs_limits st) ?rooms"
    unfolding rooms_wf_def
  proof (intro conjI allI impI)
    show "1 \<le> max_participants_per_room (cs_limits st)" by (rule rooms_wfD(4) [OF D(1)])
    show "bt_len ?rooms \<le> max_rooms (cs_limits st)"
      using rooms_wfD(1) [OF D(1)] by (simp add: bt_len_insert_old [OF r])
  next
    fix rid0 r0 assume "bt_get ?rooms rid0 = Some r0"
    then show "room_wf (cs_limits st) rid0 r0"
      using r' rooms_wfD(2) [OF D(1)] by (auto split: if_splits)
  next
    fix rid1 rid2 sid s1 s2
    assume "published_in ?rooms rid1 sid s1" "published_in ?rooms rid2 sid s2"
    then show "rid1 = rid2"
      using same_streams_back [OF same r] rooms_wfD(3) [OF D(1)] by metis
  qed
  show "voice_wf ?rooms (cs_voice_states st)"
    using D(2) r ps unfolding voice_wf_def by (auto split: if_splits)
  show "pending_wf ?rooms (cs_pending_keyframe_requests st) (cs_pending_remote_input st)
      (cs_stream_metrics st)"
    using D(3) same_streams_kind [OF same r] by (rule pending_wf_mono)
  show "stats_wf (cs_viewer_stats st)" "names_wf (cs_display_names st)" using D by simp_all
qed

section \<open>Updates of one stream\<close>

lemma room_inv_update_stream:
  assumes "room_inv r" and "bt_get (published_streams r) sid = Some s"
    and "st_stream_id s' = st_stream_id s" "st_publisher_id s' = st_publisher_id s"
  shows "room_inv (r\<lparr>published_streams := bt_insert sid s' (published_streams r)\<rparr>)"
  using assms unfolding room_inv_def by auto

lemma wf_update_stream:
  assumes wf: "wf_state st" and r: "bt_get (cs_rooms st) rid = Some r"
    and s: "bt_get (published_streams r) sid = Some s"
    and eq: "st_stream_id s' = st_stream_id s" "st_publisher_id s' = st_publisher_id s"
      "st_media_kind s' = st_media_kind s"
    and s': "stream_wf rid s'"
  shows "wf_state (st\<lparr>cs_rooms := bt_insert rid
    (r\<lparr>published_streams := bt_insert sid s' (published_streams r)\<rparr>) (cs_rooms st)\<rparr>)"
proof (rule wf_replace_room [OF wf r])
  let ?r = "r\<lparr>published_streams := bt_insert sid s' (published_streams r)\<rparr>"
  note R = room_wfD [OF wf_room [OF wf r]]
  have "room_inv ?r" by (rule room_inv_update_stream [OF R(3) s eq(1,2)])
  then show "room_wf (cs_limits st) rid ?r"
    using R s' by (auto simp: room_wf_def bt_len_insert_old [OF s])
  show "participants ?r = participants r" by simp
  show "same_streams r ?r" using s eq(3) by (simp add: same_streams_def)
qed

lemma stream_wf_retarget:
  assumes "stream_wf rid s" shows "stream_wf rid (retarget b f w h s)"
proof -
  obtain w' h' where wh: "clamp_target_resolution w h = (w', h')" by (cases "clamp_target_resolution w h")
  then have "resolution_ok w' h'" using resolution_ok_clamp [of w h] by simp
  then show ?thesis
    using assms clamp_bitrate [of b] clamp_fps [of f] wh
    by (auto simp: stream_wf_def retarget_def Let_def target_ok_def stream_target_of_def
        split: option.splits)
qed

lemma retarget_sel [simp]:
  "st_stream_id (retarget b f w h s) = st_stream_id s"
  "st_publisher_id (retarget b f w h s) = st_publisher_id s"
  "st_media_kind (retarget b f w h s) = st_media_kind s"
  "st_codec (retarget b f w h s) = st_codec s"
  by (simp_all add: retarget_def Let_def split: prod.splits)

text \<open>\<open>update_stream_target\<close> finds the stream's room and replaces the stream there.\<close>

lemma find_room_of_stream:
  "(case find (\<lambda>(_, r). bt_contains sid (published_streams r)) (bt_iter rooms) of
      None \<Rightarrow> \<forall>rid s. \<not> published_in rooms rid sid s
    | Some (rid, r) \<Rightarrow> bt_get rooms rid = Some r \<and>
        (\<exists>s. bt_get (published_streams r) sid = Some s))"
proof (cases "find (\<lambda>(_, r). bt_contains sid (published_streams r)) (bt_iter rooms)")
  case None
  then have all: "\<forall>x \<in> set (bt_iter rooms). bt_get (published_streams (snd x)) sid = None"
    unfolding find_None_iff by (auto simp: split_beta)
  have "bt_get (published_streams r) sid = None" if "bt_get rooms rid = Some r" for rid r
    using bspec [OF all, of "(rid, r)"] that by (simp add: bt.in_iter_iff)
  then have "\<not> published_in rooms rid sid s" for rid s by (fastforce simp: published_in_def)
  then show ?thesis using None by simp
next
  case (Some x)
  then have "x \<in> set (bt_iter rooms)" "bt_contains sid (published_streams (snd x))"
    by (auto simp: find_Some_iff split_beta)
  then show ?thesis using Some bt.in_iter_iff [of "fst x" "snd x" rooms]
    by (auto simp: split_beta)
qed

lemma update_stream_target_cases:
  obtains (absent) "\<forall>rid s. \<not> published_in (cs_rooms st) rid sid s"
      "update_stream_target sid b f w h st = st"
  | (present) rid r s where "bt_get (cs_rooms st) rid = Some r"
      "bt_get (published_streams r) sid = Some s"
      "update_stream_target sid b f w h st = st\<lparr>cs_rooms := bt_insert rid
         (r\<lparr>published_streams := bt_insert sid (retarget b f w h s) (published_streams r)\<rparr>)
         (cs_rooms st)\<rparr>"
proof (cases "find (\<lambda>(_, r). bt_contains sid (published_streams r)) (bt_iter (cs_rooms st))")
  case None
  then show ?thesis
    using find_room_of_stream [of "cs_rooms st" sid] absent by (simp add: update_stream_target_def)
next
  case (Some x)
  obtain rid r where x: "x = (rid, r)" by (cases x)
  with Some find_room_of_stream [of "cs_rooms st" sid]
  obtain s where "bt_get (cs_rooms st) rid = Some r" "bt_get (published_streams r) sid = Some s"
    by auto
  with Some x present [of rid r s] show ?thesis
    by (simp add: update_stream_target_def bt_modify_def)
qed

lemma wf_update_stream_target: "wf_state st \<Longrightarrow> wf_state (update_stream_target sid b f w h st)"
proof (cases rule: update_stream_target_cases [of st sid b f w h])
  case (present rid r s)
  assume wf: "wf_state st"
  have "stream_wf rid s" using wf_room [OF wf present(1)] present(2) by (blast dest: room_wfD(7))
  then show ?thesis
    unfolding present(3)
    by (intro wf_update_stream [OF wf present(1,2)] stream_wf_retarget) simp_all
qed simp

text \<open>After an update the stream's target is the clamped request; a target in range is kept.\<close>

lemma get_stream_target_published:
  assumes "rooms_wf l (cs_rooms st)" and "published_in (cs_rooms st) rid sid s"
  shows "get_stream_target st sid = stream_target_of s"
proof -
  have "published_stream st sid = Some s" using published_stream_iff [OF assms(1)] assms(2) by blast
  then show ?thesis by (simp add: get_stream_target_def stream_target_of_def)
qed

lemma get_target_ok: "wf_state st \<Longrightarrow> target_ok (get_stream_target st sid)"
proof (cases "published_stream st sid")
  case None
  then show ?thesis
    by (simp add: get_stream_target_def target_ok_def resolution_ok_def target_consts)
next
  case (Some s)
  assume wf: "wf_state st"
  with Some obtain rid where p: "published_in (cs_rooms st) rid sid s"
    using published_stream_iff [OF wf_stateD(1)] by blast
  then obtain r where r: "bt_get (cs_rooms st) rid = Some r"
    "bt_get (published_streams r) sid = Some s" by (auto simp: published_in_def)
  with wf have "stream_wf rid s" by (blast dest: wf_room room_wfD(7))
  with get_stream_target_published [OF wf_stateD(1) [OF wf] p] show ?thesis
    by (simp add: stream_wf_def)
qed

lemma target_of_retarget:
  assumes "target_ok t"
  shows "stream_target_of (retarget (tg_bitrate_bps t) (tg_frames_per_second t) (tg_width t)
      (tg_height t) s) = t"
  using assms
  by (simp add: target_ok_def stream_target_of_def retarget_def Let_def clamp_bitrate_id
      clamp_fps_id clamp_resolution_id)

lemma get_target_update:
  assumes wf: "wf_state st" and pub: "published_in (cs_rooms st) rid sid s" and t: "target_ok t"
  shows "get_stream_target (update_stream_target sid (tg_bitrate_bps t) (tg_frames_per_second t)
      (tg_width t) (tg_height t) st) sid = t"
    (is "get_stream_target ?st sid = t")
proof (cases rule: update_stream_target_cases [of st sid "tg_bitrate_bps t"
      "tg_frames_per_second t" "tg_width t" "tg_height t"])
  case absent
  with pub show ?thesis by blast
next
  case (present rid' r s')
  have "rooms_wf (cs_limits ?st) (cs_rooms ?st)" by (rule wf_stateD(1) [OF wf_update_stream_target [OF wf]])
  moreover have "published_in (cs_rooms ?st) rid' sid (retarget (tg_bitrate_bps t)
      (tg_frames_per_second t) (tg_width t) (tg_height t) s')"
    unfolding present(3) by (simp add: published_in_def)
  ultimately show ?thesis
    using get_stream_target_published target_of_retarget [OF t] by metis
qed

end
