(* ===== verification/Control_Preserve.thy ===== *)
theory Control_Preserve
  imports Control_Inv
begin

text \<open>
  Every operation of the control state preserves its invariant: first the effect of leaving a
  room in closed form, then one lemma per operation, and the theorem for the whole dispatch.
\<close>

section \<open>Removing a stream's and a viewer's state\<close>

lemma remove_viewer_stats_eq:
  "remove_viewer_stats sid uid st =
     st\<lparr>cs_viewer_stats := nested_remove sid uid (cs_viewer_stats st)\<rparr>"
  by (simp add: remove_viewer_stats_def nested_remove_def Let_def split: option.splits)

lemma remove_voice_state_eq:
  "remove_voice_state rid uid st =
     st\<lparr>cs_voice_states := nested_remove rid uid (cs_voice_states st)\<rparr>"
  by (simp add: remove_voice_state_def nested_remove_def Let_def split: option.splits)

lemma fold_remove_viewer_stats:
  "fold (\<lambda>sid. remove_viewer_stats sid uid) sids st =
     st\<lparr>cs_viewer_stats := fold (\<lambda>sid. nested_remove sid uid) sids (cs_viewer_stats st)\<rparr>"
  by (induction sids arbitrary: st) (simp_all add: remove_viewer_stats_eq)

lemma fold_remove_stream_state:
  "fold remove_stream_state sids st =
     st\<lparr>cs_viewer_stats := fold bt_remove sids (cs_viewer_stats st),
        cs_pending_keyframe_requests := fold bt_remove sids (cs_pending_keyframe_requests st),
        cs_pending_remote_input := fold bt_remove sids (cs_pending_remote_input st),
        cs_stream_metrics := fold bt_remove sids (cs_stream_metrics st)\<rparr>"
  by (induction sids arbitrary: st) (simp_all add: remove_stream_state_def)

lemma remove_room_if_empty_insert:
  "bt_get (cs_rooms st) rid = Some r \<Longrightarrow>
   remove_room_if_empty rid st =
     (if room_is_empty r
      then st\<lparr>cs_rooms := bt_remove rid (cs_rooms st),
              cs_voice_states := bt_remove rid (cs_voice_states st)\<rparr> else st)"
  by (simp add: remove_room_if_empty_def)

text \<open>Rooms after the room \<open>rid\<close> became \<open>r\<close> and was dropped if empty.\<close>

definition put_room :: "room_id \<Rightarrow> room \<Rightarrow> (room_id, room) btree \<Rightarrow> (room_id, room) btree" where
  "put_room rid r rooms = (if room_is_empty r then bt_remove rid rooms else bt_insert rid r rooms)"

lemma bt_remove_insert_same: "bt_remove k (bt_insert k v m) = bt_remove k m"
  by (rule bt_eqI) (simp add: fun_eq_iff)

lemma bt_get_put_room:
  "bt_get (put_room rid r rooms) rid' =
     (if rid' = rid then if room_is_empty r then None else Some r else bt_get rooms rid')"
  by (simp add: put_room_def)

definition room_after_leave :: "user_id \<Rightarrow> room \<Rightarrow> room" where
  "room_after_leave uid r = remove_streams (streams_published_by uid r) (room_leave uid r)"

definition subscribed_streams :: "user_id \<Rightarrow> room \<Rightarrow> stream_id list" where
  "subscribed_streams uid r =
     map fst (filter (\<lambda>(_, subscribers). uid \<in> subscribers) (bt_iter (subscriptions r)))"

lemma leave_room_absent: "bt_get (cs_rooms st) rid = None \<Longrightarrow> leave_room uid rid st = st"
  by (simp add: leave_room_def)

lemma leave_room_eq:
  assumes "bt_get (cs_rooms st) rid = Some r"
  shows "leave_room uid rid st =
    (let r' = room_after_leave uid r; removed = streams_published_by uid r;
         voice = nested_remove rid uid (cs_voice_states st)
     in st\<lparr>cs_rooms := put_room rid r' (cs_rooms st),
           cs_voice_states := if room_is_empty r' then bt_remove rid voice else voice,
           cs_viewer_stats := fold bt_remove removed
             (fold (\<lambda>sid. nested_remove sid uid) (subscribed_streams uid r) (cs_viewer_stats st)),
           cs_pending_keyframe_requests :=
             fold bt_remove removed (cs_pending_keyframe_requests st),
           cs_pending_remote_input := fold bt_remove removed (cs_pending_remote_input st),
           cs_stream_metrics := fold bt_remove removed (cs_stream_metrics st)\<rparr>)"
  using assms
  by (simp add: leave_room_def Let_def fold_remove_viewer_stats fold_remove_stream_state
      remove_voice_state_eq remove_room_if_empty_def put_room_def bt_remove_insert_same
      room_after_leave_def remove_streams_def subscribed_streams_def)

lemma room_after_leave_sel:
  "participants (room_after_leave uid r) = participants r - {uid}"
  "rm_id (room_after_leave uid r) = rm_id r"
  "rm_name (room_after_leave uid r) = rm_name r"
  by (simp_all add: room_after_leave_def remove_streams_sel)

lemma room_after_leave_published:
  "bt_get (published_streams (room_after_leave uid r)) sid =
     (if sid \<in> set (streams_published_by uid r) then None else bt_get (published_streams r) sid)"
  by (simp add: room_after_leave_def remove_streams_published)

lemma bt_len_mono: "(\<And>k. bt_get m k \<noteq> None \<Longrightarrow> bt_get m' k \<noteq> None) \<Longrightarrow> bt_len m \<le> bt_len m'"
  unfolding bt_len_card by (intro card_mono finite_dom_bt_get) auto

text \<open>A room whose last participant left publishes nothing, so it is dropped.\<close>

lemma room_after_leave_empty:
  assumes "room_inv r"
  shows "room_is_empty (room_after_leave uid r) \<longleftrightarrow> participants r - {uid} = {}"
proof
  assume "participants r - {uid} = {}"
  moreover have "room_inv (room_after_leave uid r)"
    unfolding room_after_leave_def by (rule room_inv_leave_all [OF assms])
  ultimately have "bt_get (published_streams (room_after_leave uid r)) sid = None" for sid
    using room_inv_stream [of "room_after_leave uid r" sid]
    by (cases "bt_get (published_streams (room_after_leave uid r)) sid")
      (auto simp: room_after_leave_sel)
  with \<open>participants r - {uid} = {}\<close> show "room_is_empty (room_after_leave uid r)"
    by (simp add: room_is_empty_def bt_is_empty_iff room_after_leave_sel)
qed (simp add: room_is_empty_def room_after_leave_sel)

lemma room_wf_after_leave:
  assumes "room_wf l rid r" and "participants r - {uid} \<noteq> {}"
  shows "room_wf l rid (room_after_leave uid r)"
proof -
  note R = room_wfD [OF assms(1)]
  have "card (participants r - {uid}) \<le> max_participants_per_room l"
    using R(5) card_Diff1_le [of "participants r" uid] by simp
  moreover have "bt_len (published_streams (room_after_leave uid r)) \<le> max_streams_per_room l"
    by (rule order_trans [OF bt_len_mono R(6)]) (simp add: room_after_leave_published split: if_splits)
  ultimately show ?thesis
    using R assms(2) room_inv_leave_all [OF R(3)]
    by (auto simp: room_wf_def room_after_leave_sel room_after_leave_published
        simp flip: room_after_leave_def split: if_splits)
qed

section \<open>Replacing a room by a smaller one\<close>

lemma published_in_put_room:
  assumes "published_in (put_room rid r' rooms) rid0 sid s"
  shows "if rid0 = rid then bt_get (published_streams r') sid = Some s else published_in rooms rid0 sid s"
  using assms by (auto simp: published_in_def bt_get_put_room split: if_splits)

text \<open>\<open>r'\<close> has the streams of \<open>r\<close> except those in \<open>removed\<close>.\<close>

lemma rooms_wf_put_room:
  assumes wf: "rooms_wf l rooms" and r: "bt_get rooms rid = Some r"
    and r': "\<not> room_is_empty r' \<Longrightarrow> room_wf l rid r'"
    and pub: "\<And>sid. bt_get (published_streams r') sid =
      (if sid \<in> set removed then None else bt_get (published_streams r) sid)"
  shows "rooms_wf l (put_room rid r' rooms)"
  unfolding rooms_wf_def
proof (intro conjI allI impI)
  show "1 \<le> max_participants_per_room l" by (rule rooms_wfD(4) [OF wf])
  have "bt_len (put_room rid r' rooms) \<le> bt_len rooms"
    using r by (intro bt_len_mono) (auto simp: bt_get_put_room split: if_splits)
  then show "bt_len (put_room rid r' rooms) \<le> max_rooms l" using rooms_wfD(1) [OF wf] by simp
next
  fix rid0 r0 assume "bt_get (put_room rid r' rooms) rid0 = Some r0"
  then show "room_wf l rid0 r0"
    using r' rooms_wfD(2) [OF wf] by (auto simp: bt_get_put_room split: if_splits)
next
  have old: "published_in rooms rid0 sid s"
    if "published_in (put_room rid r' rooms) rid0 sid s" for rid0 sid s
    using published_in_put_room [OF that] r pub [of sid]
    by (auto simp: published_in_def split: if_splits)
  fix rid1 rid2 sid s1 s2
  assume "published_in (put_room rid r' rooms) rid1 sid s1"
    "published_in (put_room rid r' rooms) rid2 sid s2"
  then show "rid1 = rid2" using old rooms_wfD(3) [OF wf] by blast
qed

lemma pending_wf_put_room:
  assumes wf: "pending_wf rooms kf input metrics" and r: "bt_get rooms rid = Some r"
    and pub: "\<And>sid. bt_get (published_streams r') sid =
      (if sid \<in> set removed then None else bt_get (published_streams r) sid)"
  shows "pending_wf (put_room rid r' rooms) (fold bt_remove removed kf)
    (fold bt_remove removed input) (fold bt_remove removed metrics)"
proof -
  have keep: "published_in (put_room rid r' rooms) rid0 sid s"
    if p: "published_in rooms rid0 sid s" and n: "sid \<notin> set removed" for rid0 sid s
  proof (cases "rid0 = rid")
    case True
    with p r n pub [of sid] have "bt_get (published_streams r') sid = Some s"
      by (simp add: published_in_def)
    moreover from this have "\<not> room_is_empty r'" by (auto simp: room_is_empty_def bt_is_empty_iff)
    ultimately show ?thesis using True by (simp add: published_in_def bt_get_put_room)
  next
    case False
    with p show ?thesis by (simp add: published_in_def bt_get_put_room)
  qed
  show ?thesis
    unfolding pending_wf_def bt_get_fold_remove
  proof (intro conjI allI impI; simp split: if_splits)
    fix sid :: stream_id
    assume n: "sid \<notin> set removed"
    { assume "\<exists>y. bt_get kf sid = Some y"
      with wf obtain rid0 s where "published_in rooms rid0 sid s"
        unfolding pending_wf_def by blast
      with keep n show "\<exists>rid0 s. published_in (put_room rid r' rooms) rid0 sid s" by blast }
    { assume "\<exists>y. bt_get metrics sid = Some y"
      with wf obtain rid0 s where "published_in rooms rid0 sid s"
        unfolding pending_wf_def by blast
      with keep n show "\<exists>rid0 s. published_in (put_room rid r' rooms) rid0 sid s" by blast }
    fix q assume q: "bt_get input sid = Some q"
    with wf have "q \<noteq> [] \<and> length q \<le> 256 \<and> list_all input_event_wf q \<and>
        (\<exists>rid s. published_in rooms rid sid s \<and> st_media_kind s = Screen)"
      unfolding pending_wf_def by blast
    with keep n show "q \<noteq> []" "length q \<le> 256" "list_all input_event_wf q"
      "\<exists>rid0 s. published_in (put_room rid r' rooms) rid0 sid s \<and> st_media_kind s = Screen"
      by blast+
  qed
qed

lemma stats_wf_bt_remove: "stats_wf m \<Longrightarrow> stats_wf (bt_remove sid m)"
  by (simp add: stats_wf_def no_empty_value_remove nested_get_bt_remove)

lemma stats_wf_nested_remove: "stats_wf m \<Longrightarrow> stats_wf (nested_remove sid uid m)"
  by (simp add: stats_wf_def no_empty_value_nested_remove nested_get_remove)

lemma stats_wf_fold_remove:
  "stats_wf m \<Longrightarrow> stats_wf (fold bt_remove sids m)"
  "stats_wf m \<Longrightarrow> stats_wf (fold (\<lambda>sid. nested_remove sid uid) sids m)"
  by (induction sids arbitrary: m) (simp_all add: stats_wf_bt_remove stats_wf_nested_remove)

section \<open>Leaving, unpublishing, disconnecting\<close>

lemma wf_leave_room:
  assumes wf: "wf_state st" shows "wf_state (leave_room uid rid st)"
proof (cases "bt_get (cs_rooms st) rid")
  case None
  with wf show ?thesis by (simp add: leave_room_absent)
next
  case (Some r)
  note D = wf_stateD [OF wf] and rwf = wf_room [OF wf Some]
  let ?r = "room_after_leave uid r" and ?v = "nested_remove rid uid (cs_voice_states st)"
  have empty: "room_is_empty ?r \<longleftrightarrow> participants r - {uid} = {}"
    by (rule room_after_leave_empty [OF room_wfD(3) [OF rwf]])
  have voice: "voice_wf (put_room rid ?r (cs_rooms st))
      (if room_is_empty ?r then bt_remove rid ?v else ?v)"
    using D(2) Some empty unfolding voice_wf_def
    by (auto simp: no_empty_value_nested_remove no_empty_value_remove nested_get_bt_remove
        nested_get_remove bt_get_put_room room_after_leave_sel split: if_splits)
  show ?thesis
    unfolding leave_room_eq [OF Some] Let_def
  proof (rule wf_stateI; simp)
    show "rooms_wf (cs_limits st) (put_room rid ?r (cs_rooms st))"
      using room_wf_after_leave [OF rwf] empty
      by (intro rooms_wf_put_room [OF D(1) Some _ room_after_leave_published]) simp
    show "pending_wf (put_room rid ?r (cs_rooms st))
        (fold bt_remove (streams_published_by uid r) (cs_pending_keyframe_requests st))
        (fold bt_remove (streams_published_by uid r) (cs_pending_remote_input st))
        (fold bt_remove (streams_published_by uid r) (cs_stream_metrics st))"
      by (rule pending_wf_put_room [OF D(3) Some room_after_leave_published])
    show "(room_is_empty ?r \<longrightarrow> voice_wf (put_room rid ?r (cs_rooms st)) (bt_remove rid ?v)) \<and>
      (\<not> room_is_empty ?r \<longrightarrow> voice_wf (put_room rid ?r (cs_rooms st)) ?v)"
      using voice by (simp split: if_splits)
  qed (use D in \<open>simp_all add: stats_wf_fold_remove\<close>)
qed

lemma wf_fold_leave_room: "wf_state st \<Longrightarrow> wf_state (fold (leave_room uid) rids st)"
  by (induction rids arbitrary: st) (simp_all add: wf_leave_room)

lemma bt_get_drop_user:
  "nested_get (bt_retain (\<lambda>_ stats. \<not> bt_is_empty stats) (bt_map (\<lambda>_ stats. bt_remove uid stats) m))
     sid uid' = (if uid' = uid then None else nested_get m sid uid')"
  by (auto simp: nested_get_def bt_is_empty_iff split: option.splits if_splits)

lemma wf_disconnect_user: "wf_state st \<Longrightarrow> wf_state (disconnect_user uid st)"
proof -
  assume wf: "wf_state st"
  let ?stats = "\<lambda>m. bt_retain (\<lambda>_ stats. \<not> bt_is_empty stats) (bt_map (\<lambda>_ stats. bt_remove uid stats) m)"
  have stats: "stats_wf (?stats m)" if "stats_wf m" for m :: "(stream_id, (user_id, viewer_stats_report) btree) btree"
    using that unfolding stats_wf_def bt_get_drop_user
    by (auto simp: no_empty_value_def split: option.splits if_splits)
  have names: "names_wf (bt_remove uid m)" if "names_wf m" for m
    using that by (simp add: names_wf_def)
  show ?thesis
    unfolding disconnect_user_def Let_def
    using wf_fold_leave_room [OF wf] by (simp add: wf_state_def stats names)
qed

lemma unpublish_stream_ok:
  assumes "sess_user_id s = Some uid"
    and "bt_get (cs_rooms st) (unpub_room_id m) = Some r"
    and "bt_get (published_streams r) (unpub_stream_id m) = Some stream"
    and "st_publisher_id stream = uid"
  shows "unpublish_stream s m st =
    (let r' = snd (remove_published_stream (unpub_stream_id m) r); rid = unpub_room_id m;
         sids = [unpub_stream_id m]
     in (StreamUnpublished \<lparr>su_room_id = rid, su_stream_id = unpub_stream_id m\<rparr>,
         st\<lparr>cs_rooms := put_room rid r' (cs_rooms st),
            cs_voice_states := if room_is_empty r' then bt_remove rid (cs_voice_states st)
              else cs_voice_states st,
            cs_viewer_stats := fold bt_remove sids (cs_viewer_stats st),
            cs_pending_keyframe_requests := fold bt_remove sids (cs_pending_keyframe_requests st),
            cs_pending_remote_input := fold bt_remove sids (cs_pending_remote_input st),
            cs_stream_metrics := fold bt_remove sids (cs_stream_metrics st)\<rparr>))"
  using assms
  by (simp add: unpublish_stream_def Let_def remove_published_stream_def remove_stream_state_def
      remove_room_if_empty_def put_room_def bt_remove_insert_same)

text \<open>A handler that refuses leaves the state alone; the cases in which it acts come after.\<close>

lemma unpublish_stream_cases:
  obtains (refused) "snd (unpublish_stream s m st) = st"
  | (ok) uid r stream where "sess_user_id s = Some uid"
      "bt_get (cs_rooms st) (unpub_room_id m) = Some r"
      "bt_get (published_streams r) (unpub_stream_id m) = Some stream"
      "st_publisher_id stream = uid"
proof (cases "\<exists>uid r stream. sess_user_id s = Some uid \<and>
      bt_get (cs_rooms st) (unpub_room_id m) = Some r \<and>
      bt_get (published_streams r) (unpub_stream_id m) = Some stream \<and>
      st_publisher_id stream = uid")
  case True
  then show ?thesis using ok by blast
next
  case False
  then show ?thesis
    by (intro refused) (auto simp: unpublish_stream_def split: option.split)
qed

lemma remove_published_stream_sel:
  "participants (snd (remove_published_stream sid r)) = participants r"
  "rm_id (snd (remove_published_stream sid r)) = rm_id r"
  "rm_name (snd (remove_published_stream sid r)) = rm_name r"
  "bt_get (published_streams (snd (remove_published_stream sid r))) sid' =
     (if sid' \<in> set [sid] then None else bt_get (published_streams r) sid')"
  by (simp_all add: remove_published_stream_def)

lemma wf_unpublish_stream: "wf_state st \<Longrightarrow> wf_state (snd (unpublish_stream s m st))"
proof (cases rule: unpublish_stream_cases [of s m st])
  case (ok uid r stream)
  assume wf: "wf_state st"
  note D = wf_stateD [OF wf] and rwf = wf_room [OF wf ok(2)] and R = room_wfD [OF wf_room [OF wf ok(2)]]
  let ?sid = "unpub_stream_id m" and ?rid = "unpub_room_id m"
  let ?r = "snd (remove_published_stream ?sid r)"
  have ne: "\<not> room_is_empty ?r" using R(4) by (simp add: room_is_empty_def remove_published_stream_sel)
  have "bt_len (published_streams ?r) \<le> max_streams_per_room (cs_limits st)"
    using order_trans [OF bt_len_remove_le R(6)] by (simp add: remove_published_stream_def)
  then have r': "room_wf (cs_limits st) ?rid ?r"
    using R room_inv_remove [OF R(3)]
    by (auto simp: room_wf_def remove_published_stream_sel split: if_splits)
  have voice: "voice_wf (put_room ?rid ?r (cs_rooms st)) (cs_voice_states st)"
    using D(2) ok(2) ne unfolding voice_wf_def
    by (auto simp: bt_get_put_room remove_published_stream_sel split: if_splits)
  have rooms: "rooms_wf (cs_limits st) (put_room ?rid ?r (cs_rooms st))"
    by (rule rooms_wf_put_room [OF D(1) ok(2) r' remove_published_stream_sel(4)])
  have pending: "pending_wf (put_room ?rid ?r (cs_rooms st))
      (fold bt_remove [?sid] (cs_pending_keyframe_requests st))
      (fold bt_remove [?sid] (cs_pending_remote_input st))
      (fold bt_remove [?sid] (cs_stream_metrics st))"
    by (rule pending_wf_put_room [OF D(3) ok(2) remove_published_stream_sel(4)])
  have "stats_wf (fold bt_remove [?sid] (cs_viewer_stats st))"
    using D(4) by (rule stats_wf_fold_remove)
  then show ?thesis
    unfolding unpublish_stream_ok [OF ok] Let_def snd_conv wf_state_def
    using rooms pending voice ne D(5) by simp
qed simp

section \<open>Stream configuration, targets and feedback\<close>

lemma wf_set_stream_config: "wf_state st \<Longrightarrow> wf_state (snd (set_stream_config s c st))"
proof -
  assume wf: "wf_state st"
  let ?rid = "sc_room_id c" and ?sid = "sc_stream_id c"
  obtain w h where wh: "clamp_target_resolution (sc_width c) (sc_height c) = (w, h)"
    by (cases "clamp_target_resolution (sc_width c) (sc_height c)")
  let ?fps = "clampw MIN_TARGET_FRAMES_PER_SECOND MAX_TARGET_FRAMES_PER_SECOND
      (sc_frames_per_second c)"
  let ?c = "c\<lparr>sc_frames_per_second := ?fps, sc_width := w, sc_height := h\<rparr>"
  let ?s = "\<lambda>stream. stream\<lparr>st_target_frames_per_second := ?fps, st_target_width := w,
      st_target_height := h, st_config := Some ?c\<rparr>"
  have ok: "wf_state (st\<lparr>cs_rooms := bt_insert ?rid
      (r\<lparr>published_streams := bt_insert ?sid (?s stream) (published_streams r)\<rparr>)
      (cs_rooms st)\<rparr>)"
    if r: "bt_get (cs_rooms st) ?rid = Some r"
      and stream: "bt_get (published_streams r) ?sid = Some stream"
      and codec: "st_codec stream = sc_codec c" for r stream
  proof (rule wf_update_stream [OF wf r stream])
    note R = room_wfD [OF wf_room [OF wf r]]
    have "stream_wf ?rid stream" by (rule R(7) [OF stream])
    moreover have "st_stream_id stream = ?sid" using room_inv_stream [OF R(3) stream] by simp
    ultimately show "stream_wf ?rid (?s stream)"
      using codec wh resolution_ok_clamp [of "sc_width c" "sc_height c"]
        clamp_fps [of "sc_frames_per_second c"]
      by (simp add: stream_wf_def target_ok_def stream_target_of_def)
  qed simp_all
  show ?thesis
    unfolding set_stream_config_def using wf ok
    by (auto simp: Let_def wh split: option.split)
qed

lemma validate_publisher_control_None:
  "validate_publisher_control s rid sid st = None \<longleftrightarrow>
     (\<exists>uid stream. sess_user_id s = Some uid \<and> published_in (cs_rooms st) rid sid stream \<and>
        st_publisher_id stream = uid)"
  by (auto simp: validate_publisher_control_def published_in_def split: option.splits if_splits)

lemma wf_set_target:
  "wf_state st \<Longrightarrow> wf_state (snd (set_target_bitrate s b st))"
  "wf_state st \<Longrightarrow> wf_state (snd (set_target_framerate s f st))"
  by (simp_all add: set_target_bitrate_def set_target_framerate_def Let_def
      wf_update_stream_target split: option.split)

lemma published_in_update_stream_target:
  assumes "published_in (cs_rooms st) rid sid' s"
  shows "\<exists>s'. published_in (cs_rooms (update_stream_target sid b f w h st)) rid sid' s'"
proof (cases rule: update_stream_target_cases [of st sid b f w h])
  case absent
  with assms show ?thesis by auto
next
  case (present rid' r s)
  with assms show ?thesis by (auto simp: published_in_def)
qed

lemma wf_register_keyframe_request:
  assumes "wf_state st" and "\<exists>rid s. published_in (cs_rooms st) rid sid s"
  shows "wf_state (register_keyframe_request sid reason st)"
  using assms by (auto simp: wf_state_def register_keyframe_request_def pending_wf_def)

lemma wf_clear_keyframe_request:
  "wf_state st \<Longrightarrow> wf_state (st\<lparr>cs_pending_keyframe_requests :=
     bt_remove sid (cs_pending_keyframe_requests st)\<rparr>)"
  by (auto simp: wf_state_def pending_wf_def)

text \<open>A stream that is not published has no subscribers, so its target is never reduced.\<close>

lemma wf_adaptive_publisher_feedback:
  assumes wf: "wf_state st" and pub: "published_in (cs_rooms st) rid' sid stream"
  shows "wf_state (snd (adaptive_publisher_feedback rid sid st))"
proof -
  have "\<exists>rid s. published_in (cs_rooms (update_stream_target sid b f w h st)) rid sid s"
    for b f w h
    using published_in_update_stream_target [OF pub] by blast
  then show ?thesis
    using wf
    by (simp add: adaptive_publisher_feedback_def Let_def wf_update_stream_target
        wf_register_keyframe_request)
qed

lemma wf_poll_publisher_feedback:
  "wf_state st \<Longrightarrow> wf_state (snd (poll_publisher_feedback s rid sid st))"
proof -
  assume wf: "wf_state st"
  have "wf_state (snd (adaptive_publisher_feedback rid sid st))"
    if "publisher_for_stream st sid = Some uid" for uid
  proof -
    from that obtain rid' stream where "published_in (cs_rooms st) rid' sid stream"
      using publisher_for_stream_iff [OF wf_stateD(1) [OF wf]] by blast
    then show ?thesis by (rule wf_adaptive_publisher_feedback [OF wf])
  qed
  then show ?thesis
    using wf by (auto simp: poll_publisher_feedback_def Let_def split_beta
        intro: wf_clear_keyframe_request split: option.split)
qed

lemma wf_request_keyframe: "wf_state st \<Longrightarrow> wf_state (snd (request_keyframe s m st))"
proof -
  assume wf: "wf_state st"
  have "wf_state (register_keyframe_request sid reason st)"
    if "bt_get (cs_rooms st) rid = Some r" "bt_get (published_streams r) sid = Some stream"
    for rid r sid stream reason
    using that by (intro wf_register_keyframe_request [OF wf]) (auto simp: published_in_def)
  with wf show ?thesis by (auto simp: request_keyframe_def split: option.split)
qed

section \<open>Voice states, remote input, statistics\<close>

lemma wf_set_voice_state: "wf_state st \<Longrightarrow> wf_state (snd (set_voice_state s m st))"
proof -
  assume wf: "wf_state st"
  have "wf_state (st\<lparr>cs_voice_states := bt_entry rid bt_new (bt_insert uid v) (cs_voice_states st)\<rparr>)"
    if r: "bt_get (cs_rooms st) rid = Some r" "uid \<in> participants r"
      and v: "vs_room_id v = rid" "vs_user_id v = uid" "vs_muted v \<longrightarrow> \<not> vs_speaking v"
    for rid r uid v
  proof (rule wf_stateI; simp)
    show "voice_wf (cs_rooms st) (bt_entry rid bt_new (bt_insert uid v) (cs_voice_states st))"
      using wf_stateD(2) [OF wf] r v unfolding voice_wf_def nested_get_entry_insert
      by (auto simp: no_empty_value_entry)
  qed (use wf_stateD [OF wf] in simp_all)
  with wf show ?thesis by (auto simp: set_voice_state_def Let_def split: option.split)
qed

text \<open>Trimming keeps the newest 255 events and counts the others.\<close>

lemma trim_input_queue_eq:
  "trim_input_queue q d =
     (drop (length q - 255) q, ((\<lambda>d. sat_add d 1) ^^ (length q - 255)) d)"
proof (induction q d rule: trim_input_queue.induct)
  case (2 e q d)
  show ?case
  proof (cases "256 \<le> length (e # q)")
    case True
    then have "length (e # q) - 255 = Suc (length q - 255)" by simp
    with True 2 show ?thesis
      using funpow_swap1 [of "\<lambda>d. sat_add d 1" "length q - 255" d]
      by (simp add: MAX_REMOTE_INPUT_QUEUE_EVENTS_def)
  next
    case False
    then show ?thesis by (simp add: MAX_REMOTE_INPUT_QUEUE_EVENTS_def)
  qed
qed simp

lemma poll_input_loop_eq:
  "poll_input_loop n events q =
     (events @ take (n - length events) q, drop (n - length events) q)"
proof (induction n events q rule: poll_input_loop.induct)
  case (2 n events e q)
  show ?case
  proof (cases "length events < n")
    case True
    then have "n - length events = Suc (n - Suc (length events))" by simp
    with True 2 show ?thesis by simp
  qed simp
qed simp

lemma wf_put_input:
  assumes "wf_state st"
    and "q \<noteq> []" "length q \<le> 256" "list_all input_event_wf q"
    and "published_in (cs_rooms st) rid sid s" "st_media_kind s = Screen"
  shows "wf_state (st\<lparr>cs_pending_remote_input := bt_insert sid q (cs_pending_remote_input st)\<rparr>)"
  using assms unfolding wf_state_def pending_wf_def by simp blast

lemma wf_remove_input:
  "wf_state st \<Longrightarrow>
   wf_state (st\<lparr>cs_pending_remote_input := bt_remove sid (cs_pending_remote_input st)\<rparr>)"
  unfolding wf_state_def pending_wf_def by simp

lemma pending_inputD:
  assumes "wf_state st" and "bt_get (cs_pending_remote_input st) sid = Some q"
  shows "q \<noteq> [] \<and> length q \<le> 256 \<and> list_all input_event_wf q \<and>
    (\<exists>rid s. published_in (cs_rooms st) rid sid s \<and> st_media_kind s = Screen)"
  using assms unfolding wf_state_def pending_wf_def by blast

definition pending_input :: "control_state \<Rightarrow> stream_id \<Rightarrow> remote_input_event list" where
  "pending_input st sid =
     (case bt_get (cs_pending_remote_input st) sid of None \<Rightarrow> [] | Some q \<Rightarrow> q)"

lemma pending_input_wf:
  "wf_state st \<Longrightarrow>
   length (pending_input st sid) \<le> 256 \<and> list_all input_event_wf (pending_input st sid)"
  using pending_inputD [of st sid] by (auto simp: pending_input_def split: option.split)

text \<open>What \<open>send_remote_input\<close> does when it accepts, and that it does nothing otherwise.\<close>

definition input_event_of :: "u64 \<Rightarrow> user_id \<Rightarrow> send_remote_input_msg \<Rightarrow> remote_input_kind \<Rightarrow> remote_input_event"
where
  "input_event_of now uid m kind =
     \<lparr>rie_sender_user_id = uid, rie_sequence_number = sri_sequence_number m,
      rie_event_time_micros =
        (if sri_event_time_micros m = 0 then now else sri_event_time_micros m),
      rie_kind = kind\<rparr>"

lemma send_remote_input_cases:
  obtains (refused) e where "send_remote_input now s m st = (Error e, st)"
  | (ok) uid r stream kind where "sess_user_id s = Some uid"
      "bt_get (cs_rooms st) (sri_room_id m) = Some r" "uid \<in> participants r"
      "bt_get (published_streams r) (sri_stream_id m) = Some stream"
      "st_media_kind stream = Screen" "is_room_subscriber r (sri_stream_id m) uid"
      "sanitize_remote_input_kind (sri_kind m) = Inr kind"
      "let q = trim_input_queue (pending_input st (sri_stream_id m)) 0;
           q' = fst q @ [input_event_of now uid m kind]
       in send_remote_input now s m st =
         (RemoteInputQueued
            \<lparr>riq_room_id = sri_room_id m, riq_stream_id = sri_stream_id m,
             riq_publisher_id = st_publisher_id stream,
             riq_queued_events = of_nat (min (length q') 65535), riq_dropped_events = snd q\<rparr>,
          st\<lparr>cs_pending_remote_input :=
               bt_insert (sri_stream_id m) q' (cs_pending_remote_input st)\<rparr>)"
proof (cases "\<exists>uid r stream kind. sess_user_id s = Some uid \<and>
      bt_get (cs_rooms st) (sri_room_id m) = Some r \<and> uid \<in> participants r \<and>
      bt_get (published_streams r) (sri_stream_id m) = Some stream \<and>
      st_media_kind stream = Screen \<and> is_room_subscriber r (sri_stream_id m) uid \<and>
      sanitize_remote_input_kind (sri_kind m) = Inr kind")
  case True
  then obtain uid r stream kind where *: "sess_user_id s = Some uid"
      "bt_get (cs_rooms st) (sri_room_id m) = Some r" "uid \<in> participants r"
      "bt_get (published_streams r) (sri_stream_id m) = Some stream"
      "st_media_kind stream = Screen" "is_room_subscriber r (sri_stream_id m) uid"
      "sanitize_remote_input_kind (sri_kind m) = Inr kind" by blast
  show ?thesis
    by (rule ok [OF *]) (use * in \<open>simp add: send_remote_input_def Let_def split_beta
        pending_input_def input_event_of_def\<close>)
next
  case False
  have "\<exists>e. send_remote_input now s m st = (Error e, st)"
    using False by (auto simp: send_remote_input_def error_reply_def split: option.split sum.split)
  then show ?thesis using refused by blast
qed

lemma wf_send_remote_input: "wf_state st \<Longrightarrow> wf_state (snd (send_remote_input now s m st))"
proof (cases rule: send_remote_input_cases [of now s m st])
  case (ok uid r stream kind)
  assume wf: "wf_state st"
  let ?p = "pending_input st (sri_stream_id m)"
  let ?q = "drop (length ?p - 255) ?p @ [input_event_of now uid m kind]"
  have "list_all input_event_wf (drop (length ?p - 255) ?p)"
    using pending_input_wf [OF wf, of "sri_stream_id m"]
    by (auto simp: list_all_iff dest: in_set_dropD)
  moreover have "input_event_wf (input_event_of now uid m kind)"
    using sanitized_kind_idem [OF ok(7)] by (simp add: input_event_wf_def input_event_of_def)
  ultimately have "wf_state (st\<lparr>cs_pending_remote_input :=
      bt_insert (sri_stream_id m) ?q (cs_pending_remote_input st)\<rparr>)"
    using ok by (intro wf_put_input [OF wf]) (auto simp: published_in_def)
  then show ?thesis using ok(8) by (simp add: Let_def trim_input_queue_eq)
qed simp

lemma validate_remote_input_None:
  "validate_remote_input_publisher s rid sid st = None \<longleftrightarrow>
     (\<exists>uid stream. sess_user_id s = Some uid \<and> published_in (cs_rooms st) rid sid stream \<and>
        st_publisher_id stream = uid \<and> st_media_kind stream = Screen)"
  by (auto simp: validate_remote_input_publisher_def published_in_def
      split: option.splits if_splits)

definition batch_size :: "u16 \<Rightarrow> nat" where
  "batch_size max_events = unat (min (max max_events 1) (of_nat MAX_REMOTE_INPUT_BATCH_EVENTS))"

lemma poll_remote_input_ok:
  assumes "validate_remote_input_publisher s (pri_room_id m) (pri_stream_id m) st = None"
  shows "poll_remote_input s m st =
    (let sid = pri_stream_id m; n = batch_size (pri_max_events m); q = pending_input st sid
     in (RemoteInputBatch \<lparr>rib_room_id = pri_room_id m, rib_stream_id = sid, rib_events = take n q\<rparr>,
         st\<lparr>cs_pending_remote_input :=
              if drop n q = [] then bt_remove sid (cs_pending_remote_input st)
              else bt_insert sid (drop n q) (cs_pending_remote_input st)\<rparr>))"
proof (cases "bt_get (cs_pending_remote_input st) (pri_stream_id m)")
  case None
  have "bt_remove (pri_stream_id m) (cs_pending_remote_input st) = cs_pending_remote_input st"
    using None by (rule bt.rem_absent)
  with assms None show ?thesis
    by (simp add: poll_remote_input_def Let_def pending_input_def)
next
  case (Some q)
  with assms show ?thesis
    by (simp add: poll_remote_input_def Let_def pending_input_def poll_input_loop_eq
        batch_size_def)
qed

lemma wf_poll_remote_input: "wf_state st \<Longrightarrow> wf_state (snd (poll_remote_input s m st))"
proof (cases "validate_remote_input_publisher s (pri_room_id m) (pri_stream_id m) st")
  case None
  assume wf: "wf_state st"
  let ?sid = "pri_stream_id m" and ?n = "batch_size (pri_max_events m)"
  let ?q = "drop ?n (pending_input st ?sid)"
  from None obtain stream where p: "published_in (cs_rooms st) (pri_room_id m) ?sid stream"
    "st_media_kind stream = Screen" by (auto simp: validate_remote_input_None)
  have "wf_state (st\<lparr>cs_pending_remote_input := bt_insert ?sid ?q (cs_pending_remote_input st)\<rparr>)"
    if "?q \<noteq> []"
  proof (rule wf_put_input [OF wf that _ _ p])
    show "length ?q \<le> 256" "list_all input_event_wf ?q"
      using pending_input_wf [OF wf, of ?sid] by (auto simp: list_all_iff dest: in_set_dropD)
  qed
  with wf show ?thesis
    by (auto simp: poll_remote_input_ok [OF None] Let_def intro: wf_remove_input)
next
  case (Some e)
  assume "wf_state st"
  with Some show ?thesis by (simp add: poll_remote_input_def Let_def)
qed

lemma wf_handle_viewer_stats: "wf_state st \<Longrightarrow> wf_state (snd (handle_viewer_stats s report st))"
proof -
  assume wf: "wf_state st"
  have "stats_wf (bt_entry (vsr_stream_id report) bt_new (bt_insert uid report) m)"
    if "stats_wf m" for uid m
    using that by (auto simp: stats_wf_def no_empty_value_entry nested_get_entry_insert)
  with wf show ?thesis
    by (simp add: handle_viewer_stats_def Let_def wf_state_def split: option.split)
qed

lemma wf_record_media_forward_summary:
  assumes wf: "wf_state st"
  shows "wf_state (record_media_forward_summary packet summary bytes received route st)"
proof -
  have "\<exists>rid s. published_in (cs_rooms st) rid sid s" if "published_stream st sid \<noteq> None" for sid
    using that published_stream_None [of st sid] by auto
  then show ?thesis
    using wf
    by (auto simp: record_media_forward_summary_def Let_def wf_state_def pending_wf_def)
qed

section \<open>Names, rooms, memberships\<close>

lemma wf_handle_hello: "wf_state st \<Longrightarrow> wf_state (snd (snd (handle_hello s m st)))"
  by (auto simp: handle_hello_def Let_def wf_state_def names_wf_def sanitize_display_name_clean
      split: option.split)

lemma ensure_voice_state_sel [simp]:
  "cs_rooms (ensure_voice_state rid uid st) = cs_rooms st"
  "cs_limits (ensure_voice_state rid uid st) = cs_limits st"
  "cs_pending_keyframe_requests (ensure_voice_state rid uid st) = cs_pending_keyframe_requests st"
  "cs_pending_remote_input (ensure_voice_state rid uid st) = cs_pending_remote_input st"
  "cs_stream_metrics (ensure_voice_state rid uid st) = cs_stream_metrics st"
  "cs_viewer_stats (ensure_voice_state rid uid st) = cs_viewer_stats st"
  "cs_display_names (ensure_voice_state rid uid st) = cs_display_names st"
  "cs_next_room_id (ensure_voice_state rid uid st) = cs_next_room_id st"
  "cs_next_user_id (ensure_voice_state rid uid st) = cs_next_user_id st"
  "cs_access_token (ensure_voice_state rid uid st) = cs_access_token st"
  by (simp_all add: ensure_voice_state_def)

lemma voice_wf_join:
  assumes "voice_wf rooms (cs_voice_states st)"
    and "\<And>rid' uid'. (\<exists>r. bt_get rooms' rid' = Some r \<and> uid' \<in> participants r) \<longleftrightarrow>
      (\<exists>r. bt_get rooms rid' = Some r \<and> uid' \<in> participants r) \<or> rid' = rid \<and> uid' = uid"
  shows "voice_wf rooms' (cs_voice_states (ensure_voice_state rid uid st))"
  using assms unfolding voice_wf_def ensure_voice_state_def
  by (auto simp: no_empty_value_entry nested_get_entry_or_insert default_voice_state_def
      split: if_splits)

lemma wf_handle_create_room:
  assumes wf: "wf_state st" and fresh: "bt_get (cs_rooms st) (cs_next_room_id st) = None"
  shows "wf_state (snd (handle_create_room s m st))"
proof -
  note D = wf_stateD [OF wf]
  let ?rid = "cs_next_room_id st"
  have "wf_state (ensure_voice_state ?rid uid (st\<lparr>cs_next_room_id := n,
      cs_rooms := bt_insert ?rid r (cs_rooms st)\<rparr>))" (is "wf_state ?st")
    if r: "r = snd (room_join uid (room_new ?rid (sanitize_room_name name ?rid)))"
      and room: "bt_len (cs_rooms st) < max_rooms (cs_limits st)"
    for uid name n r
  proof (rule wf_stateI)
    have sel: "participants r = {uid}" "published_streams r = bt_new" "rm_id r = ?rid"
      "rm_name r = sanitize_room_name name ?rid"
      by (simp_all add: r room_join_def room_new_def)
    have inv: "room_inv r" unfolding r by (rule room_inv_join [OF room_inv_new])
    have rwf: "room_wf (cs_limits st) ?rid r"
      using rooms_wfD(4) [OF D(1)] inv
      by (simp add: room_wf_def sel sanitize_room_name_clean bt_len_def)
    have pub: "published_in (bt_insert ?rid r (cs_rooms st)) rid sid x \<longleftrightarrow>
        published_in (cs_rooms st) rid sid x" for rid sid x
      using fresh by (auto simp: published_in_insert sel) (auto simp: published_in_def)
    show "rooms_wf (cs_limits ?st) (cs_rooms ?st)"
      using rooms_wfD(2,3,4) [OF D(1)] room rwf
      by (auto simp: rooms_wf_def pub bt_len_insert_new [OF fresh] split: if_splits)
    show "pending_wf (cs_rooms ?st) (cs_pending_keyframe_requests ?st)
        (cs_pending_remote_input ?st) (cs_stream_metrics ?st)"
      using D(3) by (simp add: pending_wf_def pub)
    show "voice_wf (cs_rooms ?st) (cs_voice_states ?st)"
      using D(2) fresh by (intro voice_wf_join [where rooms = "cs_rooms st"]) (auto simp: sel)
  qed (use D in simp_all)
  with wf show ?thesis
    by (simp add: handle_create_room_def Let_def split: option.split)
qed

lemma wf_handle_join_room:
  assumes wf: "wf_state st" shows "wf_state (snd (handle_join_room s m st))"
proof -
  note D = wf_stateD [OF wf]
  have "wf_state (ensure_voice_state rid uid (st\<lparr>cs_rooms :=
      bt_insert rid (snd (room_join uid r)) (cs_rooms st)\<rparr>))" (is "wf_state ?st")
    if r: "bt_get (cs_rooms st) rid = Some r"
      and lim: "uid \<in> participants r \<or>
        card (participants r) < max_participants_per_room (cs_limits st)"
    for rid r uid
  proof (rule wf_stateI)
    let ?r = "snd (room_join uid r)"
    note R = room_wfD [OF wf_room [OF wf r]]
    have sel: "participants ?r = insert uid (participants r)"
      "published_streams ?r = published_streams r" "rm_id ?r = rm_id r" "rm_name ?r = rm_name r"
      by (simp_all add: room_join_def Let_def)
    have "card (insert uid (participants r)) \<le> max_participants_per_room (cs_limits st)"
      using lim R(5) by (auto simp: card_insert_if)
    then have rwf: "room_wf (cs_limits st) rid ?r"
      using R room_inv_join [OF R(3)] by (auto simp: room_wf_def sel)
    have pub: "published_in (bt_insert rid ?r (cs_rooms st)) rid' sid x \<longleftrightarrow>
        published_in (cs_rooms st) rid' sid x" for rid' sid x
      using r by (auto simp: published_in_def sel)
    show "rooms_wf (cs_limits ?st) (cs_rooms ?st)"
      using rooms_wfD [OF D(1)] rwf
      by (auto simp: rooms_wf_def pub bt_len_insert_old [OF r] split: if_splits)
    show "pending_wf (cs_rooms ?st) (cs_pending_keyframe_requests ?st)
        (cs_pending_remote_input ?st) (cs_stream_metrics ?st)"
      using D(3) by (simp add: pending_wf_def pub)
    show "voice_wf (cs_rooms ?st) (cs_voice_states ?st)"
      using D(2) r by (intro voice_wf_join [where rooms = "cs_rooms st"]) (auto simp: sel)
  qed (use D in simp_all)
  with wf show ?thesis
    by (auto simp: handle_join_room_def Let_def split_beta not_le split: option.split)
qed

lemma wf_handle_publish_stream:
  assumes wf: "wf_state st" shows "wf_state (snd (handle_publish_stream s m st))"
proof -
  note D = wf_stateD [OF wf]
  have "wf_state (st\<lparr>cs_rooms := bt_insert rid (room_publish_stream x r) (cs_rooms st)\<rparr>)"
    (is "wf_state ?st")
    if r: "bt_get (cs_rooms st) rid = Some r" and x: "st_publisher_id x \<in> participants r"
      and lim: "bt_len (published_streams r) < max_streams_per_room (cs_limits st)"
      and new: "published_stream st (st_stream_id x) = None" and xwf: "stream_wf rid x"
    for rid r x
  proof (rule wf_stateI)
    let ?r = "room_publish_stream x r" and ?sid = "st_stream_id x"
    note R = room_wfD [OF wf_room [OF wf r]]
    have none: "\<not> published_in (cs_rooms st) rid' ?sid y" for rid' y
      using new by (simp add: published_stream_None)
    then have fresh: "bt_get (published_streams r) ?sid = None"
      using r by (cases "bt_get (published_streams r) ?sid") (auto simp: published_in_def)
    have "room_wf (cs_limits st) rid ?r"
      using R room_inv_publish [OF R(3) x] lim xwf bt_len_insert_new [OF fresh]
      by (auto simp: room_wf_def room_publish_stream_def)
    moreover have pub: "published_in (bt_insert rid ?r (cs_rooms st)) rid' sid y \<longleftrightarrow>
        published_in (cs_rooms st) rid' sid y \<or> rid' = rid \<and> sid = ?sid \<and> y = x" for rid' sid y
      using r fresh by (auto simp: published_in_def room_publish_stream_def)
    ultimately show "rooms_wf (cs_limits ?st) (cs_rooms ?st)"
      using rooms_wfD [OF D(1)] none
      by (auto simp: rooms_wf_def bt_len_insert_old [OF r] split: if_splits)
    show "pending_wf (cs_rooms ?st) (cs_pending_keyframe_requests ?st)
        (cs_pending_remote_input ?st) (cs_stream_metrics ?st)"
      using pending_wf_mono [OF D(3), of "cs_rooms ?st"] by (auto simp: pub)
    show "voice_wf (cs_rooms ?st) (cs_voice_states ?st)"
      using D(2) r by (auto simp: voice_wf_def room_publish_stream_def)
  qed (use D in simp_all)
  with wf show ?thesis
    by (auto simp: handle_publish_stream_def Let_def publisher_for_stream_def not_le stream_wf_def
        target_ok_def stream_target_of_def resolution_ok_def target_consts split: option.split)
qed

lemma wf_handle_subscribe_stream:
  assumes wf: "wf_state st" shows "wf_state (snd (handle_subscribe_stream s m st))"
proof -
  have sub: "wf_state (st\<lparr>cs_rooms := bt_insert rid (snd (room_subscribe sid uid r)) (cs_rooms st)\<rparr>)"
    if r: "bt_get (cs_rooms st) rid = Some r" and u: "uid \<in> participants r" for rid r sid uid
  proof (rule wf_replace_room [OF wf r])
    let ?r = "snd (room_subscribe sid uid r)"
    note R = room_wfD [OF wf_room [OF wf r]]
    show "participants ?r = participants r" by (simp add: room_subscribe_def)
    show "room_wf (cs_limits st) rid ?r"
      using R room_inv_subscribe [OF R(3) u, of sid] by (auto simp: room_wf_def room_subscribe_def)
    show "same_streams r ?r" by (simp add: same_streams_def room_subscribe_def)
  qed
  have key: "wf_state (register_keyframe_request sid reason
      (st\<lparr>cs_rooms := bt_insert rid (snd (room_subscribe sid uid r)) (cs_rooms st)\<rparr>))"
    if "bt_get (cs_rooms st) rid = Some r" and "uid \<in> participants r"
      and "fst (room_subscribe sid uid r)" for rid r sid uid reason
    using that
    by (intro wf_register_keyframe_request sub)
      (auto simp: room_subscribe_def published_in_def split: if_splits)
  show ?thesis
    using wf sub key
    by (auto simp: handle_subscribe_stream_def Let_def split_beta split: option.split)
qed

lemma wf_handle_unsubscribe_stream:
  assumes wf: "wf_state st" shows "wf_state (snd (handle_unsubscribe_stream s m st))"
proof -
  have unsub: "wf_state (st\<lparr>cs_rooms := bt_insert rid (room_unsubscribe sid uid r) (cs_rooms st)\<rparr>)"
    if r: "bt_get (cs_rooms st) rid = Some r" for rid r sid uid
  proof (rule wf_replace_room [OF wf r])
    let ?r = "room_unsubscribe sid uid r"
    note R = room_wfD [OF wf_room [OF wf r]]
    have sel: "participants ?r = participants r" "published_streams ?r = published_streams r"
      "rm_id ?r = rm_id r" "rm_name ?r = rm_name r"
      by (simp_all add: room_unsubscribe_def Let_def split: option.split)
    then show "participants ?r = participants r" by simp
    show "room_wf (cs_limits st) rid ?r"
      using R room_inv_unsubscribe [OF R(3), of sid uid] by (auto simp: room_wf_def sel)
    show "same_streams r ?r" by (simp add: same_streams_def sel)
  qed
  have "wf_state (remove_viewer_stats sid uid st')" if "wf_state st'" for sid uid st'
    using that by (simp add: remove_viewer_stats_eq wf_state_def stats_wf_nested_remove)
  with wf unsub show ?thesis
    by (simp add: handle_unsubscribe_stream_def Let_def split: option.split)
qed

section \<open>The dispatch\<close>

lemmas wf_handlers =
  wf_handle_hello wf_handle_join_room wf_handle_publish_stream wf_unpublish_stream
  wf_handle_subscribe_stream wf_handle_unsubscribe_stream wf_set_voice_state
  wf_set_stream_config wf_request_keyframe wf_send_remote_input wf_poll_remote_input
  wf_handle_viewer_stats wf_poll_publisher_feedback wf_set_target wf_leave_room

lemma wf_dispatch:
  assumes "wf_state st" and "bt_get (cs_rooms st) (cs_next_room_id st) = None"
  shows "wf_state (snd (snd (dispatch now now' s st m)))"
  using assms
  by (cases m) (simp_all add: keep_session_def wf_handlers wf_handle_create_room
      handle_leave_room_def split_beta split: option.split)

lemma handle_client_envelope_state:
  "snd (handle_client_envelope now now' s e st) =
     (if authorization_error s (env_message e) st = None
      then snd (dispatch now now' s st (env_message e)) else (s, st))"
  by (auto simp: handle_client_envelope_def Let_def split_beta split: option.split)

text \<open>
  C10. Every client message, accepted or refused, preserves the invariant of the relay's control
  state, whatever the sender's session, provided the next room id is not in use.
\<close>

theorem handle_client_envelope_wf:
  assumes "wf_state st" and "bt_get (cs_rooms st) (cs_next_room_id st) = None"
  shows "wf_state (snd (snd (handle_client_envelope now now' s e st)))"
  using assms by (simp add: handle_client_envelope_state wf_dispatch)

theorem handle_client_envelope_wf_witness:
  "wf_state (snd (snd (handle_client_envelope 0 0 (session_anonymous 1)
     (envelope_new 1 (Hello \<lparr>hello_protocol_version = PROTOCOL_VERSION,
        hello_client_name = [65]\<rparr>)) control_state_new)))"
  by (rule handle_client_envelope_wf [OF wf_control_state_new])
    (simp add: control_state_new_def)

end
