(* ===== verification/Control_Access.thy ===== *)
theory Control_Access
  imports Control_Preserve
begin

text \<open>
  Who may change what in the control state: a message of one user leaves every other user's
  memberships, streams, subscriptions, voice states and names alone; a session without identity
  or granted access changes nothing but names; a disconnected user leaves no trace. The views
  below are what the state says about a user.
\<close>

section \<open>Views\<close>

definition member :: "control_state \<Rightarrow> room_id \<Rightarrow> user_id \<Rightarrow> bool" where
  "member st rid v \<longleftrightarrow> (\<exists>r. bt_get (cs_rooms st) rid = Some r \<and> v \<in> participants r)"

definition subscribed :: "control_state \<Rightarrow> room_id \<Rightarrow> stream_id \<Rightarrow> user_id \<Rightarrow> bool" where
  "subscribed st rid sid v \<longleftrightarrow>
     (\<exists>r. bt_get (cs_rooms st) rid = Some r \<and> v \<in> room_subscribers r sid)"

text \<open>
  From \<open>st\<close> to \<open>st'\<close> nothing changed for users other than \<open>uid\<close>: their memberships, the streams
  they publish (as records, targets and configuration included), their subscriptions to streams
  not published by \<open>uid\<close>, their voice states and their names.
\<close>

definition same_for_others :: "user_id \<Rightarrow> control_state \<Rightarrow> control_state \<Rightarrow> bool" where
  "same_for_others uid st st' \<longleftrightarrow>
     (\<forall>rid v. v \<noteq> uid \<longrightarrow> member st' rid v = member st rid v) \<and>
     (\<forall>rid sid x. st_publisher_id x \<noteq> uid \<longrightarrow>
        published_in (cs_rooms st') rid sid x = published_in (cs_rooms st) rid sid x) \<and>
     (\<forall>rid sid x v. v \<noteq> uid \<longrightarrow> published_in (cs_rooms st) rid sid x \<longrightarrow>
        st_publisher_id x \<noteq> uid \<longrightarrow> subscribed st' rid sid v = subscribed st rid sid v) \<and>
     (\<forall>rid v. v \<noteq> uid \<longrightarrow> get_voice_state st' rid v = get_voice_state st rid v) \<and>
     (\<forall>v. v \<noteq> uid \<longrightarrow> bt_get (cs_display_names st') v = bt_get (cs_display_names st) v)"

lemma same_for_others_refl [simp]: "same_for_others uid st st"
  by (simp add: same_for_others_def)

lemma same_for_others_trans:
  "same_for_others uid st st' \<Longrightarrow> same_for_others uid st' st'' \<Longrightarrow> same_for_others uid st st''"
  unfolding same_for_others_def by (elim conjE, intro conjI allI impI) (simp | metis)+

lemma get_voice_state_nested: "get_voice_state st rid v = nested_get (cs_voice_states st) rid v"
  by (simp add: get_voice_state_def nested_get_def)

lemma same_for_others_fields:
  assumes "cs_rooms st' = cs_rooms st" "cs_voice_states st' = cs_voice_states st"
    "cs_display_names st' = cs_display_names st"
  shows "same_for_others uid st st'"
  using assms by (simp add: same_for_others_def member_def subscribed_def get_voice_state_def)

text \<open>An operation that changes one room.\<close>

lemma same_for_others_room:
  assumes rooms: "\<And>rid'. rid' \<noteq> rid \<Longrightarrow> bt_get (cs_rooms st') rid' = bt_get (cs_rooms st) rid'"
    and mem: "\<And>v. v \<noteq> uid \<Longrightarrow> member st' rid v = member st rid v"
    and pub: "\<And>sid x. st_publisher_id x \<noteq> uid \<Longrightarrow>
      published_in (cs_rooms st') rid sid x = published_in (cs_rooms st) rid sid x"
    and sub: "\<And>v sid x. v \<noteq> uid \<Longrightarrow> published_in (cs_rooms st) rid sid x \<Longrightarrow>
      st_publisher_id x \<noteq> uid \<Longrightarrow> subscribed st' rid sid v = subscribed st rid sid v"
    and voice: "\<And>rid' v. v \<noteq> uid \<Longrightarrow> get_voice_state st' rid' v = get_voice_state st rid' v"
    and names: "cs_display_names st' = cs_display_names st"
  shows "same_for_others uid st st'"
proof -
  have other: "member st' rid' v = member st rid' v"
    "published_in (cs_rooms st') rid' sid x = published_in (cs_rooms st) rid' sid x"
    "subscribed st' rid' sid v = subscribed st rid' sid v"
    if "rid' \<noteq> rid" for rid' sid v x
    using rooms [OF that] by (simp_all add: member_def published_in_def subscribed_def)
  show ?thesis
    unfolding same_for_others_def
    by (intro conjI allI impI) (metis mem pub sub voice names other)+
qed

lemma same_for_others_replace:
  assumes r: "bt_get (cs_rooms st) rid = Some r"
    and r': "cs_rooms st' = bt_insert rid r' (cs_rooms st)"
    and mem: "\<And>v. v \<noteq> uid \<Longrightarrow> (v \<in> participants r') = (v \<in> participants r)"
    and pub: "\<And>sid x. st_publisher_id x \<noteq> uid \<Longrightarrow>
      (bt_get (published_streams r') sid = Some x) = (bt_get (published_streams r) sid = Some x)"
    and sub: "\<And>v sid. v \<noteq> uid \<Longrightarrow> (v \<in> room_subscribers r' sid) = (v \<in> room_subscribers r sid)"
    and voice: "\<And>rid' v. v \<noteq> uid \<Longrightarrow> get_voice_state st' rid' v = get_voice_state st rid' v"
    and names: "cs_display_names st' = cs_display_names st"
  shows "same_for_others uid st st'"
  using assms
  by (intro same_for_others_room [where rid = rid])
    (simp_all add: member_def published_in_def subscribed_def)

lemma same_for_others_update_stream:
  assumes r: "bt_get (cs_rooms st) rid = Some r"
    and s: "bt_get (published_streams r) sid = Some s" "st_publisher_id s = uid"
      "st_publisher_id s' = uid"
  shows "same_for_others uid st (st\<lparr>cs_rooms := bt_insert rid
    (r\<lparr>published_streams := bt_insert sid s' (published_streams r)\<rparr>) (cs_rooms st)\<rparr>)"
  by (rule same_for_others_replace [OF r, where r' = "r\<lparr>published_streams :=
        bt_insert sid s' (published_streams r)\<rparr>"])
    (use s in \<open>auto simp: room_subscribers_def get_voice_state_def\<close>)

section \<open>Handlers change only the sender's part\<close>

lemma others_leave_room:
  assumes wf: "wf_state st" shows "same_for_others uid st (leave_room uid rid st)"
proof (cases "bt_get (cs_rooms st) rid")
  case None
  then show ?thesis by (simp add: leave_room_absent)
next
  case (Some r)
  let ?r = "room_after_leave uid r" and ?st = "leave_room uid rid st"
  note R = room_wfD [OF wf_room [OF wf Some]]
  have empty: "room_is_empty ?r \<longleftrightarrow> participants r - {uid} = {}"
    by (rule room_after_leave_empty [OF R(3)])
  have rooms: "cs_rooms ?st = put_room rid ?r (cs_rooms st)"
    by (simp add: leave_room_eq [OF Some] Let_def)
  have nostream: "bt_get (published_streams r) sid \<noteq> Some x"
    if "participants r - {uid} = {}" "st_publisher_id x \<noteq> uid" for sid and x :: published_stream
    using room_inv_stream [OF R(3), of sid x] that by blast
  have nosub: "room_subscribers r sid \<subseteq> {uid}" if "participants r - {uid} = {}" for sid
    using room_inv_subs [OF R(3), of sid] that
    by (auto simp: room_subscribers_def split: option.split)
  have novoice: "nested_get (cs_voice_states st) rid v = None"
    if "participants r - {uid} = {}" "v \<noteq> uid" for v
  proof -
    have "v \<notin> participants r" using that by blast
    then show ?thesis using wf_stateD(2) [OF wf] Some unfolding voice_wf_def
      by (metis option.inject)
  qed
  have subs: "room_subscribers ?r sid = room_subscribers r sid - {uid}"
    if "sid \<notin> set (streams_published_by uid r)" for sid
    using that room_subscribers_leave [of uid r sid]
    by (simp add: room_after_leave_def room_subscribers_def remove_streams_subscriptions)
  show ?thesis
  proof (rule same_for_others_room [where rid = rid])
    fix rid' assume "rid' \<noteq> rid"
    then show "bt_get (cs_rooms ?st) rid' = bt_get (cs_rooms st) rid'"
      by (simp add: rooms bt_get_put_room)
  next
    fix v assume "v \<noteq> uid"
    then show "member ?st rid v = member st rid v"
      using empty Some by (auto simp: member_def rooms bt_get_put_room room_after_leave_sel)
  next
    fix sid and x :: published_stream
    assume x: "st_publisher_id x \<noteq> uid"
    then show "published_in (cs_rooms ?st) rid sid x = published_in (cs_rooms st) rid sid x"
      using empty Some nostream [OF _ x, of sid]
      by (auto simp: published_in_def rooms bt_get_put_room room_after_leave_published
          set_streams_published_by)
  next
    fix v sid x
    assume v: "v \<noteq> uid" and "published_in (cs_rooms st) rid sid x" "st_publisher_id x \<noteq> uid"
    with Some have "sid \<notin> set (streams_published_by uid r)"
      by (auto simp: published_in_def set_streams_published_by)
    with v show "subscribed ?st rid sid v = subscribed st rid sid v"
      using empty Some nosub [of sid] subs [of sid]
      by (auto simp: subscribed_def rooms bt_get_put_room)
  next
    fix rid' v assume "v \<noteq> uid"
    then show "get_voice_state ?st rid' v = get_voice_state st rid' v"
      using empty novoice [of v]
      by (simp add: get_voice_state_nested leave_room_eq [OF Some] Let_def nested_get_remove
          nested_get_bt_remove)
  qed (simp add: leave_room_eq [OF Some] Let_def)
qed

lemma others_unpublish_stream:
  assumes "wf_state st" and "sess_user_id s = Some uid"
  shows "same_for_others uid st (snd (unpublish_stream s m st))"
proof (cases rule: unpublish_stream_cases [of s m st])
  case (ok uid' r stream)
  let ?rid = "unpub_room_id m" and ?sid = "unpub_stream_id m"
  let ?r = "snd (remove_published_stream ?sid r)"
  note R = room_wfD [OF wf_room [OF assms(1) ok(2)]]
  from ok(1) assms(2) have uid: "uid' = uid" by simp
  have "\<not> room_is_empty ?r" using R(4) by (simp add: room_is_empty_def remove_published_stream_sel)
  then have st': "cs_rooms (snd (unpublish_stream s m st)) = bt_insert ?rid ?r (cs_rooms st)"
    "cs_voice_states (snd (unpublish_stream s m st)) = cs_voice_states st"
    "cs_display_names (snd (unpublish_stream s m st)) = cs_display_names st"
    by (simp_all add: unpublish_stream_ok [OF ok] Let_def put_room_def)
  show ?thesis
  proof (rule same_for_others_room [where rid = ?rid])
    fix sid and x :: published_stream
    assume "st_publisher_id x \<noteq> uid"
    then show "published_in (cs_rooms (snd (unpublish_stream s m st))) ?rid sid x =
        published_in (cs_rooms st) ?rid sid x"
      using ok uid by (auto simp: st' published_in_def remove_published_stream_sel)
  next
    fix v sid x
    assume "published_in (cs_rooms st) ?rid sid x" "st_publisher_id x \<noteq> uid"
    then have "sid \<noteq> ?sid" using ok uid by (auto simp: published_in_def)
    then show "subscribed (snd (unpublish_stream s m st)) ?rid sid v = subscribed st ?rid sid v"
      using ok(2) by (simp add: subscribed_def st' room_subscribers_remove)
  qed (use ok(2) in \<open>simp_all add: st' member_def remove_published_stream_sel get_voice_state_def\<close>)
qed simp

lemma others_set_stream_config:
  assumes "sess_user_id s = Some uid"
  shows "same_for_others uid st (snd (set_stream_config s c st))"
  using assms
  by (auto simp: set_stream_config_def Let_def split_beta split: option.split
      intro!: same_for_others_update_stream)

lemma others_update_stream_target:
  assumes wf: "wf_state st" and p: "published_in (cs_rooms st) rid sid x"
    and x: "st_publisher_id x = uid"
  shows "same_for_others uid st (update_stream_target sid b f w h st)"
proof (cases rule: update_stream_target_cases [of st sid b f w h])
  case absent
  then show ?thesis by simp
next
  case (present rid' r y)
  then have p': "published_in (cs_rooms st) rid' sid y" by (auto simp: published_in_def)
  have "rid' = rid" by (rule rooms_wfD(3) [OF wf_stateD(1) [OF wf] p' p])
  with p p' have "y = x" by (blast intro: published_in_fun)
  with x present show ?thesis by (simp add: same_for_others_update_stream)
qed

lemma others_set_target:
  assumes "wf_state st" and "sess_user_id s = Some uid"
  shows "same_for_others uid st (snd (set_target_bitrate s b st))"
    and "same_for_others uid st (snd (set_target_framerate s f st))"
  using assms
  by (auto simp: set_target_bitrate_def set_target_framerate_def Let_def
      validate_publisher_control_None intro: others_update_stream_target split: option.split)

lemma others_poll_publisher_feedback:
  assumes wf: "wf_state st" and s: "sess_user_id s = Some uid"
  shows "same_for_others uid st (snd (poll_publisher_feedback s rid sid st))"
proof (cases "publisher_for_stream st sid = Some uid")
  case True
  then obtain rid' x where "published_in (cs_rooms st) rid' sid x" "st_publisher_id x = uid"
    using publisher_for_stream_iff [OF wf_stateD(1) [OF wf]] by blast
  then have upd: "same_for_others uid st (update_stream_target sid b f w h st)" for b f w h
    by (rule others_update_stream_target [OF wf])
  have fields: "same_for_others uid st st''"
    if "same_for_others uid st st'" "cs_rooms st'' = cs_rooms st'"
      "cs_voice_states st'' = cs_voice_states st'" "cs_display_names st'' = cs_display_names st'"
    for st' st''
    using same_for_others_trans [OF that(1) same_for_others_fields [OF that(2-4)]] .
  show ?thesis
    using s True
    by (auto simp: poll_publisher_feedback_def adaptive_publisher_feedback_def Let_def split_beta
        register_keyframe_request_def intro: fields [OF upd] same_for_others_fields)
next
  case False
  with s show ?thesis by (simp add: poll_publisher_feedback_def)
qed

lemma others_pending:
  "same_for_others uid st (snd (request_keyframe s m st))"
  "same_for_others uid st (snd (send_remote_input now s i st))"
  "same_for_others uid st (snd (poll_remote_input s p st))"
  "same_for_others uid st (snd (handle_viewer_stats s report st))"
proof -
  show "same_for_others uid st (snd (request_keyframe s m st))"
    by (rule same_for_others_fields)
      (simp_all add: request_keyframe_def register_keyframe_request_def split: option.split)
  show "same_for_others uid st (snd (send_remote_input now s i st))"
    by (cases rule: send_remote_input_cases [of now s i st])
      (simp_all add: Let_def same_for_others_fields)
  show "same_for_others uid st (snd (poll_remote_input s p st))"
    by (rule same_for_others_fields)
      (simp_all add: poll_remote_input_def Let_def split_beta split: option.split)
  show "same_for_others uid st (snd (handle_viewer_stats s report st))"
    by (rule same_for_others_fields)
      (simp_all add: handle_viewer_stats_def Let_def split: option.split)
qed

lemma others_set_voice_state:
  assumes "sess_user_id s = Some uid"
  shows "same_for_others uid st (snd (set_voice_state s m st))"
  using assms
  by (auto simp: set_voice_state_def Let_def same_for_others_def member_def subscribed_def
      get_voice_state_nested nested_get_entry_insert split: option.split)

lemma others_create_room:
  assumes "bt_get (cs_rooms st) (cs_next_room_id st) = None" and "sess_user_id s = Some uid"
  shows "same_for_others uid st (snd (handle_create_room s m st))"
proof -
  let ?rid = "cs_next_room_id st"
  have "same_for_others uid st (ensure_voice_state ?rid uid (st\<lparr>cs_next_room_id := n,
      cs_rooms := bt_insert ?rid (snd (room_join uid (room_new ?rid name))) (cs_rooms st)\<rparr>))"
    for n name
    by (rule same_for_others_room [where rid = ?rid])
      (use assms in \<open>simp_all add: member_def published_in_def subscribed_def room_join_def
        room_new_def get_voice_state_nested\<close>,
       simp add: ensure_voice_state_def nested_get_entry_or_insert)
  with assms(2) show ?thesis by (simp add: handle_create_room_def Let_def)
qed

lemma others_join_room:
  assumes "sess_user_id s = Some uid"
  shows "same_for_others uid st (snd (handle_join_room s m st))"
proof -
  have "same_for_others uid st (ensure_voice_state rid uid (st\<lparr>cs_rooms :=
      bt_insert rid (snd (room_join uid r)) (cs_rooms st)\<rparr>))"
    if "bt_get (cs_rooms st) rid = Some r" for rid r
    by (rule same_for_others_replace [OF that, where r' = "snd (room_join uid r)"])
      (simp_all add: room_join_def Let_def room_subscribers_def get_voice_state_nested
        ensure_voice_state_def nested_get_entry_or_insert)
  with assms show ?thesis
    by (simp add: handle_join_room_def Let_def split_beta split: option.split)
qed

lemma others_publish_stream:
  assumes wf: "wf_state st" and s: "sess_user_id s = Some uid"
  shows "same_for_others uid st (snd (handle_publish_stream s m st))"
proof -
  have "same_for_others uid st (st\<lparr>cs_rooms := bt_insert rid (room_publish_stream x r)
      (cs_rooms st)\<rparr>)"
    if r: "bt_get (cs_rooms st) rid = Some r" and x: "st_publisher_id x = uid"
      and new: "published_stream st (st_stream_id x) = None" for rid r x
  proof (rule same_for_others_replace [OF r, where r' = "room_publish_stream x r"])
    have "bt_get (published_streams r) (st_stream_id x) = None"
      using new r by (cases "bt_get (published_streams r) (st_stream_id x)")
        (auto simp: published_stream_None published_in_def)
    then show "(bt_get (published_streams (room_publish_stream x r)) sid = Some y) =
        (bt_get (published_streams r) sid = Some y)" if "st_publisher_id y \<noteq> uid" for sid y
      using that x by (auto simp: room_publish_stream_def)
  qed (simp_all add: room_publish_stream_def room_subscribers_def get_voice_state_def)
  with s show ?thesis
    by (auto simp: handle_publish_stream_def Let_def publisher_for_stream_def split: option.split)
qed

lemma others_subscribe_stream:
  assumes "sess_user_id s = Some uid"
  shows "same_for_others uid st (snd (handle_subscribe_stream s m st))"
proof -
  have sub: "same_for_others uid st (st\<lparr>cs_rooms := bt_insert rid (snd (room_subscribe sid uid r))
      (cs_rooms st)\<rparr>)" if "bt_get (cs_rooms st) rid = Some r" for rid r sid
    by (rule same_for_others_replace [OF that, where r' = "snd (room_subscribe sid uid r)"])
      (auto simp: room_subscribe_def room_subscribers_def get_voice_state_def split: option.split)
  have "same_for_others uid st (register_keyframe_request sid reason (st\<lparr>cs_rooms :=
      bt_insert rid (snd (room_subscribe sid uid r)) (cs_rooms st)\<rparr>))"
    if "bt_get (cs_rooms st) rid = Some r" for rid r sid reason
    by (rule same_for_others_trans [OF sub [OF that]], rule same_for_others_fields)
      (simp_all add: register_keyframe_request_def)
  with assms sub show ?thesis
    by (simp add: handle_subscribe_stream_def Let_def split_beta split: option.split)
qed

lemma others_unsubscribe_stream:
  assumes "sess_user_id s = Some uid"
  shows "same_for_others uid st (snd (handle_unsubscribe_stream s m st))"
proof -
  have "same_for_others uid st (remove_viewer_stats sid uid (st\<lparr>cs_rooms :=
      bt_insert rid (room_unsubscribe sid uid r) (cs_rooms st)\<rparr>))"
    if "bt_get (cs_rooms st) rid = Some r" for rid r sid
  proof (rule same_for_others_replace [OF that, where r' = "room_unsubscribe sid uid r"])
    fix v sid' assume "v \<noteq> uid"
    then show "(v \<in> room_subscribers (room_unsubscribe sid uid r) sid') =
        (v \<in> room_subscribers r sid')"
      by (simp add: room_subscribers_unsubscribe)
  qed (simp_all add: room_unsubscribe_def Let_def remove_viewer_stats_eq get_voice_state_def
      split: option.split)
  with assms show ?thesis
    by (simp add: handle_unsubscribe_stream_def Let_def split: option.split)
qed

lemma others_handle_hello:
  assumes "sess_user_id (fst (snd (handle_hello s m st))) = Some uid"
  shows "same_for_others uid st (snd (snd (handle_hello s m st)))"
  using assms
  by (auto simp: handle_hello_def Let_def same_for_others_def member_def subscribed_def
      get_voice_state_def establish_identity_def update_display_name_def
      split: option.splits if_splits)

lemma dispatch_session_user:
  "\<not> (\<exists>h. m = Hello h) \<Longrightarrow> sess_user_id (fst (snd (dispatch now now' s st m))) = sess_user_id s"
  by (cases m) (auto simp: keep_session_def handle_authenticate_def grant_access_def
      split: option.split)

lemmas others_handlers =
  others_join_room others_publish_stream others_unpublish_stream others_subscribe_stream
  others_unsubscribe_stream others_leave_room others_set_voice_state others_set_stream_config
  others_pending others_poll_publisher_feedback others_set_target

lemma others_dispatch:
  assumes wf: "wf_state st" and fresh: "bt_get (cs_rooms st) (cs_next_room_id st) = None"
    and uid: "sess_user_id (fst (snd (dispatch now now' s st m))) = Some uid"
  shows "same_for_others uid st (snd (snd (dispatch now now' s st m)))"
proof (cases "\<exists>h. m = Hello h")
  case True
  with uid others_handle_hello show ?thesis by auto
next
  case False
  with uid dispatch_session_user have s: "sess_user_id s = Some uid" by simp
  then show ?thesis
    using False wf fresh
    by (cases m) (auto simp: keep_session_def others_handlers others_create_room split_beta
        handle_leave_room_def)
qed

text \<open>
  C2. Isolation: whatever message a user sends, every other user's memberships, published streams
  (targets and configurations included), subscriptions to streams the sender does not publish,
  voice states and names stay as they were.
\<close>

theorem message_isolates_users:
  assumes "wf_state st" and "bt_get (cs_rooms st) (cs_next_room_id st) = None"
    and "handle_client_envelope now now' s e st = (reply, s', st')"
    and "sess_user_id s' = Some uid"
  shows "same_for_others uid st st'"
proof -
  have "snd (handle_client_envelope now now' s e st) = (s', st')" using assms(3) by simp
  then show ?thesis
    using others_dispatch [OF assms(1,2), of now now' s "env_message e" uid] assms(4)
    by (auto simp: handle_client_envelope_state split: if_splits)
qed

definition sample_session :: "user_id \<Rightarrow> session" where
  "sample_session uid = establish_identity uid True (lit ''viewer'') (session_anonymous uid)"

lemma sample_session_sel [simp]:
  "sess_user_id (sample_session uid) = Some uid" "sess_access_granted (sample_session uid) = True"
  by (simp_all add: sample_session_def establish_identity_def)

theorem message_isolates_users_witness:
  "same_for_others 1 control_state_new
     (snd (snd (handle_client_envelope 0 0 (sample_session 1)
        (envelope_new 5 (CreateRoom \<lparr>create_name = [65]\<rparr>)) control_state_new)))"
  (is "same_for_others 1 _ (snd (snd ?r))")
proof (rule message_isolates_users [OF wf_control_state_new])
  show "bt_get (cs_rooms control_state_new) (cs_next_room_id control_state_new) = None"
    by (simp add: control_state_new_def)
  show "?r = (fst ?r, fst (snd ?r), snd (snd ?r))" by simp
  show "sess_user_id (fst (snd ?r)) = Some 1"
    by (simp add: handle_client_envelope_state envelope_new_def keep_session_def)
qed

section \<open>Sessions without access\<close>

text \<open>Everything but the names and the user counter.\<close>

definition forget_names :: "control_state \<Rightarrow> control_state" where
  "forget_names st = st\<lparr>cs_display_names := bt_new, cs_next_user_id := 0\<rparr>"

definition may_control :: "session \<Rightarrow> control_state \<Rightarrow> bool" where
  "may_control s st \<longleftrightarrow>
     sess_user_id s \<noteq> None \<and> (requires_access_token st \<longrightarrow> sess_access_granted s)"

text \<open>What is answered without asking for access: only what the message itself asks for, or an error.\<close>

definition open_answer :: "u64 \<Rightarrow> u64 \<Rightarrow> client_control \<Rightarrow> server_control \<Rightarrow> bool" where
  "open_answer now now' m r \<longleftrightarrow> (\<exists>err. r = Error err) \<or> (case m of
     Hello _ \<Rightarrow> \<exists>h. r = HelloAccepted h
   | Ping p \<Rightarrow> r = Pong \<lparr>pong_nonce = ping_nonce p\<rparr>
   | TimeSync t \<Rightarrow> r = TimeSyncR \<lparr>tsr_client_send_time_micros = tsq_client_send_time_micros t,
       tsr_server_receive_time_micros = now, tsr_server_send_time_micros = now'\<rparr>
   | Authenticate _ \<Rightarrow> \<exists>a. r = Authenticated a
   | _ \<Rightarrow> False)"

lemma no_access_effect:
  assumes "\<not> may_control s st"
    and "handle_client_envelope now now' s e st = (reply, s', st')"
  shows "forget_names st' = forget_names st"
proof (cases "needs_no_authorization (env_message e)")
  case True
  then have "authorization_error s (env_message e) st = None"
    by (simp add: authorization_error_def)
  with assms(2) True show ?thesis
    by (cases "env_message e")
      (auto simp: handle_client_envelope_def envelope_new_def forget_names_def handle_hello_def
        handle_authenticate_def error_reply_def Let_def split: option.splits if_splits)
next
  case False
  with assms(1) obtain err where "authorization_error s (env_message e) st = Some (Error err)"
    by (cases "sess_user_id s = None")
      (auto simp: authorization_error_def may_control_def error_reply_def)
  with assms(2) show ?thesis
    by (auto simp: handle_client_envelope_def envelope_new_def)
qed

lemma no_access_refused:
  assumes "\<not> may_control s st" and "\<not> needs_no_authorization (env_message e)"
  shows "handle_client_envelope now now' s e st =
    (envelope_new (env_request_id e) (if sess_user_id s = None then send_hello_first
       else error_reply ''not_authenticated'' ''authenticate before using relay controls''), s, st)"
  using assms by (auto simp: handle_client_envelope_def authorization_error_def may_control_def Let_def)

lemma open_dispatch:
  assumes "needs_no_authorization m"
  shows "open_answer now now' m (fst (dispatch now now' s st m)) \<and>
    (let s' = fst (snd (dispatch now now' s st m)); st' = snd (snd (dispatch now now' s st m)) in
     case m of Hello _ \<Rightarrow> True | Authenticate _ \<Rightarrow> st' = st | _ \<Rightarrow> st' = st \<and> s' = s)"
  using assms
  by (cases m) (auto simp: open_answer_def handle_hello_def handle_authenticate_def error_reply_def Let_def
      split: option.splits)

text \<open>
  C3. Access control: a message from a session that has no identity, or that has not presented
  the token of a relay that requires one, changes no room, stream, subscription, queue, statistic,
  voice state, limit or token. A \<open>Hello\<close>, \<open>Ping\<close>, \<open>TimeSync\<close> or \<open>Authenticate\<close> gets the
  greeting, the pong, the time stamps or the confirmation that it asks for, or an error; only a
  \<open>Hello\<close> changes the state (names and the user counter). Every other message is refused with
  the error for its reason and leaves state and session as they were.
\<close>

theorem no_access_no_effect:
  assumes "\<not> may_control s st"
    and "handle_client_envelope now now' s e st = (reply, s', st')"
  shows "forget_names st' = forget_names st \<and>
    (if needs_no_authorization (env_message e)
     then open_answer now now' (env_message e) (env_message reply) \<and>
       (case env_message e of Hello _ \<Rightarrow> True | Authenticate _ \<Rightarrow> st' = st | _ \<Rightarrow> st' = st \<and> s' = s)
     else st' = st \<and> s' = s \<and> env_message reply = (if sess_user_id s = None then send_hello_first
       else error_reply ''not_authenticated'' ''authenticate before using relay controls''))"
proof (cases "needs_no_authorization (env_message e)")
  case True
  then have "authorization_error s (env_message e) st = None" by (simp add: authorization_error_def)
  then have "env_message reply = fst (dispatch now now' s st (env_message e))"
    "s' = fst (snd (dispatch now now' s st (env_message e)))" "st' = snd (snd (dispatch now now' s st (env_message e)))"
    using assms(2) by (auto simp: handle_client_envelope_def envelope_new_def Let_def split: prod.splits)
  then show ?thesis
    using True open_dispatch [OF True, of now now' s st] no_access_effect [OF assms]
    by (simp only: Let_def if_True)
next
  case False
  then show ?thesis using no_access_refused [OF assms(1) False, of now now'] assms(2) by (auto simp: envelope_new_def)
qed

theorem no_access_no_effect_witness:
  "handle_client_envelope 0 0 (session_anonymous 1)
     (envelope_new 5 (CreateRoom \<lparr>create_name = [65]\<rparr>)) control_state_new =
   (envelope_new 5 send_hello_first, session_anonymous 1, control_state_new)"
proof -
  let ?r = "handle_client_envelope 0 0 (session_anonymous 1)
     (envelope_new 5 (CreateRoom \<lparr>create_name = [65]\<rparr>)) control_state_new"
  have "\<not> may_control (session_anonymous 1) control_state_new"
    by (simp add: may_control_def session_anonymous_def)
  moreover have "?r = (fst ?r, fst (snd ?r), snd (snd ?r))" by simp
  ultimately have "fst (snd ?r) = session_anonymous 1" "snd (snd ?r) = control_state_new"
    "env_message (fst ?r) = (if sess_user_id (session_anonymous 1) = None then send_hello_first
       else error_reply ''not_authenticated'' ''authenticate before using relay controls'')"
    using no_access_no_effect [of "session_anonymous 1" control_state_new 0 0
        "envelope_new 5 (CreateRoom \<lparr>create_name = [65]\<rparr>)" "fst ?r" "fst (snd ?r)" "snd (snd ?r)"]
    unfolding envelope_new_def by (simp_all only: needs_no_authorization.simps control_envelope.simps if_False simp_thms)
  moreover have "fst ?r = envelope_new 5 (env_message (fst ?r))"
    by (simp add: handle_client_envelope_def Let_def envelope_new_def split: option.split prod.split)
  ultimately show ?thesis
    by (metis prod.collapse session_anonymous_def session.select_convs(2))
qed

text \<open>
  C11. Access is granted by the token only: on a relay with a token, a message that turns a
  session without access into one with access is an \<open>Authenticate\<close> that carries the token.
\<close>

theorem access_needs_token:
  assumes "cs_access_token st = Some token" and "\<not> sess_access_granted s"
    and "handle_client_envelope now now' s e st = (reply, s', st')"
    and "sess_access_granted s'"
  shows "env_message e = Authenticate \<lparr>auth_token = token\<rparr> \<and> sess_user_id s \<noteq> None"
proof -
  have "sess_access_granted (fst (snd (handle_client_envelope now now' s e st)))"
    using assms(3,4) by simp
  then show ?thesis
    using assms(1,2)
    by (cases "env_message e")
      (auto simp: handle_client_envelope_state keep_session_def handle_hello_def Let_def
        establish_identity_def update_display_name_def requires_access_token_def
        handle_authenticate_def split: option.splits if_splits)
qed

theorem access_needs_token_witness:
  "let s = (sample_session 1)\<lparr>sess_access_granted := False\<rparr>;
       e = envelope_new 5 (Authenticate \<lparr>auth_token = [65, 66]\<rparr>)
   in env_message e = Authenticate \<lparr>auth_token = [65, 66]\<rparr> \<and> sess_user_id s \<noteq> None"
proof -
  let ?s = "(sample_session 1)\<lparr>sess_access_granted := False\<rparr>"
  let ?e = "envelope_new 5 (Authenticate \<lparr>auth_token = [65, 66]\<rparr>)"
  let ?st = "with_access_token [65, 66]"
  let ?r = "handle_client_envelope 0 0 ?s ?e ?st"
  have "cs_access_token ?st = Some [65, 66]" by (simp add: with_access_token_def)
  moreover have "\<not> sess_access_granted ?s" by simp
  moreover have "?r = (fst ?r, fst (snd ?r), snd (snd ?r))" by simp
  moreover have "sess_access_granted (fst (snd ?r))"
    by (simp add: handle_client_envelope_state envelope_new_def authorization_error_def
        handle_authenticate_def with_access_token_def grant_access_def)
  ultimately have "env_message ?e = Authenticate \<lparr>auth_token = [65, 66]\<rparr> \<and> sess_user_id ?s \<noteq> None"
    by (rule access_needs_token)
  then show ?thesis by (simp add: Let_def)
qed

section \<open>Disconnecting\<close>

text \<open>Nothing in the state refers to \<open>uid\<close> as a member, publisher, subscriber or viewer.\<close>

definition user_absent :: "user_id \<Rightarrow> control_state \<Rightarrow> bool" where
  "user_absent uid st \<longleftrightarrow>
     (\<forall>rid. \<not> member st rid uid) \<and>
     (\<forall>rid sid x. published_in (cs_rooms st) rid sid x \<longrightarrow> st_publisher_id x \<noteq> uid) \<and>
     (\<forall>rid sid. \<not> subscribed st rid sid uid) \<and>
     (\<forall>rid. get_voice_state st rid uid = None) \<and>
     (\<forall>sid. nested_get (cs_viewer_stats st) sid uid = None) \<and>
     bt_get (cs_display_names st) uid = None"

text \<open>In a well-formed state a user is found in rooms only as a participant.\<close>

lemma absent_if_no_member:
  assumes wf: "wf_state st" and no: "\<And>rid. \<not> member st rid uid"
  shows "(\<forall>rid sid x. published_in (cs_rooms st) rid sid x \<longrightarrow> st_publisher_id x \<noteq> uid) \<and>
    (\<forall>rid sid. \<not> subscribed st rid sid uid) \<and> (\<forall>rid. get_voice_state st rid uid = None)"
proof (intro conjI allI impI)
  fix rid sid x assume "published_in (cs_rooms st) rid sid x"
  then obtain r where r: "bt_get (cs_rooms st) rid = Some r"
    and x: "bt_get (published_streams r) sid = Some x" by (auto simp: published_in_def)
  have "st_publisher_id x \<in> participants r"
    using room_inv_stream [OF room_wfD(3) [OF wf_room [OF wf r]] x] by simp
  with no [of rid] r show "st_publisher_id x \<noteq> uid" by (auto simp: member_def)
next
  fix rid sid show "\<not> subscribed st rid sid uid"
  proof
    assume "subscribed st rid sid uid"
    then obtain r us where r: "bt_get (cs_rooms st) rid = Some r"
      and us: "bt_get (subscriptions r) sid = Some us" "uid \<in> us"
      by (auto simp: subscribed_def room_subscribers_def split: option.splits)
    then have "uid \<in> participants r"
      using room_inv_subs [OF room_wfD(3) [OF wf_room [OF wf r]] us(1)] by blast
    with no [of rid] r show False by (auto simp: member_def)
  qed
next
  fix rid show "get_voice_state st rid uid = None"
    using wf_stateD(2) [OF wf] no [of rid]
    unfolding get_voice_state_nested voice_wf_def member_def by metis
qed

lemma member_leave_room:
  assumes "wf_state st"
  shows "member (leave_room uid rid st) rid' uid \<longleftrightarrow> rid' \<noteq> rid \<and> member st rid' uid"
proof (cases "bt_get (cs_rooms st) rid")
  case None
  then show ?thesis by (auto simp: leave_room_absent member_def)
next
  case (Some r)
  then show ?thesis
    by (auto simp: member_def leave_room_eq [OF Some] Let_def bt_get_put_room room_after_leave_sel)
qed

lemma member_fold_leave_room:
  "wf_state st \<Longrightarrow>
   member (fold (leave_room uid) rids st) rid uid \<longleftrightarrow> rid \<notin> set rids \<and> member st rid uid"
  by (induction rids arbitrary: st) (auto simp: member_leave_room wf_leave_room)

lemma others_fold_leave_room:
  "wf_state st \<Longrightarrow> same_for_others uid st (fold (leave_room uid) rids st)"
proof (induction rids arbitrary: st)
  case (Cons rid rids)
  then show ?case
    using same_for_others_trans [OF others_leave_room [OF Cons.prems]
        Cons.IH [OF wf_leave_room [OF Cons.prems]]] by simp
qed simp

definition affected_rooms :: "user_id \<Rightarrow> control_state \<Rightarrow> room_id list" where
  "affected_rooms uid st =
     map fst (filter (\<lambda>(_, r). uid \<in> participants r \<or>
         (\<exists>stream \<in> set (bt_values (published_streams r)). st_publisher_id stream = uid))
       (bt_iter (cs_rooms st)))"

lemma member_affected: "member st rid uid \<Longrightarrow> rid \<in> set (affected_rooms uid st)"
  by (force simp: member_def affected_rooms_def bt.in_iter_iff)

lemma disconnect_user_sel:
  "cs_rooms (disconnect_user uid st) = cs_rooms (fold (leave_room uid) (affected_rooms uid st) st)"
  "cs_voice_states (disconnect_user uid st) =
     cs_voice_states (fold (leave_room uid) (affected_rooms uid st) st)"
  "cs_display_names (disconnect_user uid st) =
     bt_remove uid (cs_display_names (fold (leave_room uid) (affected_rooms uid st) st))"
  "nested_get (cs_viewer_stats (disconnect_user uid st)) sid v =
     (if v = uid then None
      else nested_get (cs_viewer_stats (fold (leave_room uid) (affected_rooms uid st) st)) sid v)"
  by (simp_all add: disconnect_user_def Let_def affected_rooms_def bt_get_drop_user)

lemma disconnect_user_effect:
  assumes wf: "wf_state st"
  shows "wf_state (disconnect_user uid st) \<and> user_absent uid (disconnect_user uid st) \<and>
    same_for_others uid st (disconnect_user uid st)"
proof (intro conjI)
  let ?st = "disconnect_user uid st" and ?f = "fold (leave_room uid) (affected_rooms uid st) st"
  show wf': "wf_state ?st" by (rule wf_disconnect_user [OF wf])
  have no: "\<not> member ?st rid uid" for rid
    using member_fold_leave_room [OF wf] member_affected [of st rid uid]
    by (auto simp: member_def disconnect_user_sel)
  then show "user_absent uid ?st"
    using absent_if_no_member [OF wf' no] by (simp add: user_absent_def disconnect_user_sel)
  have "same_for_others uid ?f ?st"
    by (simp add: same_for_others_def member_def subscribed_def get_voice_state_def
        disconnect_user_sel)
  then show "same_for_others uid st ?st"
    by (rule same_for_others_trans [OF others_fold_leave_room [OF wf]])
qed

text \<open>
  C12. Disconnecting removes the user from every room, with the user's streams, subscriptions,
  voice states, statistics and name, and changes nothing for the other users.
\<close>

theorem disconnect_user_clean:
  assumes wf: "wf_state st"
  shows "wf_state (disconnect_user uid st) \<and> user_absent uid (disconnect_user uid st) \<and>
    same_for_others uid st (disconnect_user uid st)"
  using assms by (rule disconnect_user_effect)

theorem disconnect_user_clean_witness:
  "let st = snd (handle_create_room (sample_session 7) \<lparr>create_name = [65]\<rparr> control_state_new)
   in member st 1 7 \<and> user_absent 7 (disconnect_user 7 st)"
proof -
  let ?st = "snd (handle_create_room (sample_session 7) \<lparr>create_name = [65]\<rparr> control_state_new)"
  have "wf_state ?st"
    by (rule wf_handle_create_room [OF wf_control_state_new]) (simp add: control_state_new_def)
  moreover have "member ?st 1 7"
    by (simp add: handle_create_room_def control_state_new_def limits_default_def
        DEFAULT_MAX_ROOMS_def bt_len_def Let_def member_def room_join_def)
  ultimately show ?thesis using disconnect_user_clean [of ?st 7] by (simp add: Let_def)
qed

end
