(* ===== verification/Control_Props.thy ===== *)
theory Control_Props
  imports Control_Access
begin

text \<open>
  Functional properties of the control handlers: the remote input queue is a bounded first-in
  first-out buffer, publisher feedback reports what the relay stores, and which viewer reports
  it counts.
\<close>

section \<open>A sample relay\<close>

text \<open>User 1 created room 1 and publishes the screen stream 9 there; user 2 joined and views it.\<close>

definition sample_relay :: control_state where
  "sample_relay =
     (let st = snd (handle_create_room (sample_session 1) \<lparr>create_name = [65]\<rparr> control_state_new);
          st = snd (handle_publish_stream (sample_session 1)
                 \<lparr>pub_room_id = 1, pub_stream_id = 9, pub_codec = H264, pub_media_kind = Screen\<rparr>
                 st);
          st = snd (handle_join_room (sample_session 2) \<lparr>join_room_id = 1\<rparr> st)
      in snd (handle_subscribe_stream (sample_session 2)
           \<lparr>sub_room_id = 1, sub_stream_id = 9\<rparr> st))"

definition sample_stream :: published_stream where
  "sample_stream =
     \<lparr>st_stream_id = 9, st_publisher_id = 1, st_codec = H264, st_media_kind = Screen,
      st_config = None, st_target_bitrate_bps = DEFAULT_TARGET_BITRATE_BPS,
      st_target_frames_per_second = DEFAULT_TARGET_FRAMES_PER_SECOND, st_target_width = 0,
      st_target_height = 0\<rparr>"

definition sample_room :: room where
  "sample_room =
     \<lparr>rm_id = 1, rm_name = sanitize_room_name [65] 1, participants = {2, 1},
      published_streams = bt_insert 9 sample_stream bt_new,
      subscriptions = bt_insert 9 {2} bt_new\<rparr>"

lemma wf_sample_relay: "wf_state sample_relay"
  unfolding sample_relay_def Let_def
  by (intro wf_handle_subscribe_stream wf_handle_join_room wf_handle_publish_stream
      wf_handle_create_room wf_control_state_new) (simp add: control_state_new_def)

lemma bt_insert_twice: "bt_insert k v (bt_insert k w m) = bt_insert k v m"
  by (rule bt_eqI) (simp add: fun_eq_iff)

lemma sample_relay_sel:
  "cs_rooms sample_relay = bt_insert 1 sample_room bt_new"
  "cs_viewer_stats sample_relay = bt_new"
  "cs_pending_remote_input sample_relay = bt_new"
  "cs_stream_metrics sample_relay = bt_new"
  "cs_access_token sample_relay = None"
  by (simp_all add: sample_relay_def Let_def handle_create_room_def handle_publish_stream_def
      handle_join_room_def handle_subscribe_stream_def control_state_new_def limits_default_def
      DEFAULT_MAX_ROOMS_def DEFAULT_MAX_PARTICIPANTS_PER_ROOM_def DEFAULT_MAX_STREAMS_PER_ROOM_def
      bt_len_def room_join_def room_new_def room_publish_stream_def room_subscribe_def
      publisher_for_stream_def published_stream_def bt_values_def is_room_subscriber_def
      register_keyframe_request_def ensure_voice_state_def bt_entry_def bt_insert_twice
      sample_room_def sample_stream_def)

lemma sample_relay_room [simp]: "bt_get (cs_rooms sample_relay) 1 = Some sample_room"
  by (simp add: sample_relay_sel)

lemma sample_room_sel [simp]:
  "participants sample_room = {2, 1}"
  "bt_get (published_streams sample_room) 9 = Some sample_stream"
  "bt_get (subscriptions sample_room) 9 = Some {2}"
  by (simp_all add: sample_room_def)

lemma sample_stream_sel [simp]:
  "st_publisher_id sample_stream = 1" "st_media_kind sample_stream = Screen"
  "st_codec sample_stream = H264"
  by (simp_all add: sample_stream_def)

lemma sample_published: "published_in (cs_rooms sample_relay) 1 9 sample_stream"
  by (simp add: published_in_def)

lemma sample_publisher: "publisher_for_stream sample_relay 9 = Some 1"
proof -
  have "\<exists>rid x. published_in (cs_rooms sample_relay) rid 9 x \<and> st_publisher_id x = 1"
    using sample_published sample_stream_sel(1) by blast
  then show ?thesis using publisher_for_stream_iff [OF wf_stateD(1) [OF wf_sample_relay]] by blast
qed

lemma sample_subscribers: "subscribers_for_stream sample_relay 9 = [2]"
  by (simp add: subscribers_for_stream_def sample_relay_sel bt_values_def)

section \<open>Remote input\<close>

lemma pending_input_insert:
  "pending_input (st\<lparr>cs_pending_remote_input := bt_insert sid q m\<rparr>) sid' =
     (if sid' = sid then q else case bt_get m sid' of None \<Rightarrow> [] | Some q \<Rightarrow> q)"
  by (simp add: pending_input_def)

lemma pending_input_remove:
  "pending_input (st\<lparr>cs_pending_remote_input := bt_remove sid m\<rparr>) sid' =
     (if sid' = sid then [] else case bt_get m sid' of None \<Rightarrow> [] | Some q \<Rightarrow> q)"
  by (simp add: pending_input_def)

lemma drop_append_last_n:
  "length q \<le> 256 \<Longrightarrow> drop (length q - 255) q @ [e] = last_n 256 (q @ [e])"
  by (simp add: last_n_def)

text \<open>
  Accepted remote input is queued: the stream's queue becomes the newest 256 of its events
  and the new one, in order; the reply reports its length and whether the oldest event was
  dropped; the queues of other streams do not change.
\<close>

theorem send_remote_input_queues:
  assumes wf: "wf_state st"
    and send: "send_remote_input now s m st = (RemoteInputQueued reply, st')"
  shows "(\<exists>uid kind. sess_user_id s = Some uid \<and>
      sanitize_remote_input_kind (sri_kind m) = Inr kind \<and>
      pending_input st' (sri_stream_id m) =
        last_n 256 (pending_input st (sri_stream_id m) @ [input_event_of now uid m kind])) \<and>
    unat (riq_queued_events reply) = length (pending_input st' (sri_stream_id m)) \<and>
    unat (riq_dropped_events reply) =
      length (pending_input st (sri_stream_id m)) + 1 - length (pending_input st' (sri_stream_id m)) \<and>
    (\<forall>sid. sid \<noteq> sri_stream_id m \<longrightarrow> pending_input st' sid = pending_input st sid)"
proof (cases rule: send_remote_input_cases [of now s m st])
  case (refused e)
  with send show ?thesis by simp
next
  case (ok uid r stream kind)
  let ?sid = "sri_stream_id m"
  let ?q = "pending_input st ?sid"
  have len: "length ?q \<le> 256" using pending_input_wf [OF wf] by blast
  let ?q' = "drop (length ?q - 255) ?q @ [input_event_of now uid m kind]"
  from ok(8) send have st': "st' = st\<lparr>cs_pending_remote_input :=
        bt_insert ?sid ?q' (cs_pending_remote_input st)\<rparr>"
    and queued: "riq_queued_events reply = of_nat (min (length ?q') 65535)"
    and dropped: "riq_dropped_events reply = ((\<lambda>d. sat_add d 1) ^^ (length ?q - 255)) 0"
    by (auto simp: Let_def trim_input_queue_eq)
  have q': "pending_input st' ?sid = ?q'" by (simp add: st' pending_input_insert)
  have len': "length ?q' \<le> 256" by simp
  have "unat (riq_queued_events reply) = length ?q'"
    unfolding queued using len' by (subst of_nat_unat_le) simp_all
  moreover have "unat (riq_dropped_events reply) = length ?q + 1 - length ?q'"
  proof (cases "length ?q = 256")
    case True
    then show ?thesis by (simp add: dropped sat_add_def)
  next
    case False
    with len have "length ?q - 255 = 0" by simp
    then show ?thesis by (simp add: dropped)
  qed
  moreover have "pending_input st' sid = pending_input st sid" if "sid \<noteq> ?sid" for sid
    using that by (simp add: st' pending_input_insert pending_input_def)
  ultimately show ?thesis
    using ok(1,7) q' drop_append_last_n [OF len] by metis
qed

definition sample_input :: send_remote_input_msg where
  "sample_input =
     \<lparr>sri_room_id = 1, sri_stream_id = 9, sri_sequence_number = 4, sri_event_time_micros = 0,
      sri_kind = Key 30 True\<rparr>"

lemma sample_send:
  "send_remote_input 55 (sample_session 2) sample_input sample_relay =
     (RemoteInputQueued
        \<lparr>riq_room_id = 1, riq_stream_id = 9, riq_publisher_id = 1, riq_queued_events = 1,
         riq_dropped_events = 0\<rparr>,
      sample_relay\<lparr>cs_pending_remote_input :=
        bt_insert 9 [input_event_of 55 2 sample_input (Key 30 True)] bt_new\<rparr>)"
  by (simp add: send_remote_input_def sample_input_def is_room_subscriber_def sample_relay_sel
      Let_def input_event_of_def)

theorem send_remote_input_queues_witness:
  "let st' = sample_relay\<lparr>cs_pending_remote_input :=
         bt_insert 9 [input_event_of 55 2 sample_input (Key 30 True)] bt_new\<rparr>
   in \<exists>uid kind. pending_input st' 9 =
        last_n 256 (pending_input sample_relay 9 @ [input_event_of 55 uid sample_input kind])"
  using send_remote_input_queues [OF wf_sample_relay sample_send]
  by (auto simp: Let_def sample_input_def)

text \<open>
  Polled remote input comes out in order: only the publisher of a screen stream gets a
  batch, the batch followed by what remains queued is what was queued, and its size is the
  requested one (at least 1, at most 64) or all there is.
\<close>

theorem poll_remote_input_drains:
  assumes "poll_remote_input s m st = (RemoteInputBatch batch, st')"
  shows "(\<exists>uid x. sess_user_id s = Some uid \<and> st_publisher_id x = uid \<and>
      st_media_kind x = Screen \<and>
      published_in (cs_rooms st) (pri_room_id m) (pri_stream_id m) x) \<and>
    rib_events batch @ pending_input st' (pri_stream_id m) = pending_input st (pri_stream_id m) \<and>
    length (rib_events batch) =
      min (max 1 (min (unat (pri_max_events m)) 64)) (length (pending_input st (pri_stream_id m))) \<and>
    (\<forall>sid. sid \<noteq> pri_stream_id m \<longrightarrow> pending_input st' sid = pending_input st sid)"
proof (cases "validate_remote_input_publisher s (pri_room_id m) (pri_stream_id m) st")
  case (Some e)
  then obtain err where "e = Error err"
    by (auto simp: validate_remote_input_publisher_def error_reply_def
        split: option.splits if_splits)
  with Some assms show ?thesis by (simp add: poll_remote_input_def)
next
  case None
  let ?sid = "pri_stream_id m"
  let ?n = "batch_size (pri_max_events m)" and ?q = "pending_input st ?sid"
  have n: "?n = max 1 (min (unat (pri_max_events m)) 64)"
    unfolding batch_size_def unat_min unat_max MAX_REMOTE_INPUT_BATCH_EVENTS_def by simp
  from poll_remote_input_ok [OF None] assms
  have events: "rib_events batch = take ?n ?q"
    and st': "st' = st\<lparr>cs_pending_remote_input :=
      if drop ?n ?q = [] then bt_remove ?sid (cs_pending_remote_input st)
      else bt_insert ?sid (drop ?n ?q) (cs_pending_remote_input st)\<rparr>"
    by (auto simp: Let_def)
  have "pending_input st' ?sid = drop ?n ?q"
    by (simp add: st' pending_input_insert pending_input_remove)
  moreover have "pending_input st' sid = pending_input st sid" if "sid \<noteq> ?sid" for sid
    using that by (simp add: st' pending_input_insert pending_input_remove pending_input_def)
  moreover have "length (take ?n ?q) = min ?n (length ?q)" by (simp add: min.commute)
  ultimately show ?thesis
    using None events n unfolding validate_remote_input_None
    by (metis append_take_drop_id)
qed

theorem poll_remote_input_drains_witness:
  "let e = input_event_of 55 2 sample_input (Key 30 True);
       st = sample_relay\<lparr>cs_pending_remote_input := bt_insert 9 [e] bt_new\<rparr>;
       m = \<lparr>pri_room_id = 1, pri_stream_id = 9, pri_max_events = 0\<rparr>
   in length [e] = min (max 1 (min (unat (pri_max_events m)) 64)) (length (pending_input st 9))"
proof -
  let ?e = "input_event_of 55 2 sample_input (Key 30 True)"
  let ?st = "sample_relay\<lparr>cs_pending_remote_input := bt_insert 9 [?e] bt_new\<rparr>"
  let ?m = "\<lparr>pri_room_id = 1, pri_stream_id = 9, pri_max_events = 0\<rparr>"
  have valid: "validate_remote_input_publisher (sample_session 1) (pri_room_id ?m)
      (pri_stream_id ?m) ?st = None"
    by (simp add: validate_remote_input_None published_in_def)
  have "batch_size (pri_max_events ?m) = 1"
    unfolding batch_size_def unat_min unat_max MAX_REMOTE_INPUT_BATCH_EVENTS_def by simp
  then have "poll_remote_input (sample_session 1) ?m ?st =
      (RemoteInputBatch \<lparr>rib_room_id = 1, rib_stream_id = 9, rib_events = [?e]\<rparr>,
       ?st\<lparr>cs_pending_remote_input := bt_remove 9 (cs_pending_remote_input ?st)\<rparr>)"
    unfolding poll_remote_input_ok [OF valid] by (simp add: Let_def pending_input_def)
  from poll_remote_input_drains [OF this] show ?thesis by (simp add: Let_def)
qed

section \<open>Publisher feedback\<close>

lemma aggregate_loop_eq:
  "unat (fst (aggregate_loop rs d k)) =
     min (unat d + length (filter viewer_is_degraded rs)) 4294967295 \<and>
   snd (aggregate_loop rs d k) =
     (k \<or> (\<exists>r \<in> set rs. 0 < vsr_lost_packets r \<or> 0 < vsr_dropped_frames r))"
proof (induction rs d k rule: aggregate_loop.induct)
  case (1 d k)
  then show ?case using unat_u32_less [of d] by simp
next
  case (2 r rs d k)
  have "unat (sat_add d 1) = min (unat d + 1) 4294967295" by (simp add: unat_sat_add)
  with 2 show ?case by auto
qed

definition reports_of :: "control_state \<Rightarrow> stream_id \<Rightarrow> viewer_stats_report list" where
  "reports_of st sid =
     (case bt_get (cs_viewer_stats st) sid of None \<Rightarrow> [] | Some stats \<Rightarrow> bt_values stats)"

lemma aggregate_counts:
  "unat (pf_degraded_viewer_count (aggregate_publisher_feedback rid sid st)) =
     min (length (filter viewer_is_degraded (reports_of st sid))) 4294967295"
  "pf_total_viewer_count (aggregate_publisher_feedback rid sid st) =
     of_nat (length (subscribers_for_stream st sid))"
  "pf_keyframe_requested (aggregate_publisher_feedback rid sid st) =
     (bt_contains sid (cs_pending_keyframe_requests st) \<or>
      (\<exists>r \<in> set (reports_of st sid). 0 < vsr_lost_packets r \<or> 0 < vsr_dropped_frames r))"
proof -
  show "unat (pf_degraded_viewer_count (aggregate_publisher_feedback rid sid st)) =
      min (length (filter viewer_is_degraded (reports_of st sid))) 4294967295"
    using aggregate_loop_eq
    by (simp add: aggregate_publisher_feedback_def reports_of_def Let_def split_beta
        split: option.split)
  show "pf_keyframe_requested (aggregate_publisher_feedback rid sid st) =
     (bt_contains sid (cs_pending_keyframe_requests st) \<or>
      (\<exists>r \<in> set (reports_of st sid). 0 < vsr_lost_packets r \<or> 0 < vsr_dropped_frames r))"
    using aggregate_loop_eq
    by (simp add: aggregate_publisher_feedback_def reports_of_def Let_def split_beta Bex_def
        split: option.split)
qed (simp add: aggregate_publisher_feedback_def Let_def split_beta)

text \<open>
  The counts of publisher feedback: the degraded count is the number of stored reports that
  are degraded, saturated at 32 bits, the total is the number of subscribers, and a keyframe is
  requested exactly if one is pending or a stored report shows loss.
\<close>

theorem aggregate_feedback_counts:
  "let fb = aggregate_publisher_feedback rid sid st in
   unat (pf_degraded_viewer_count fb) =
     min (length (filter viewer_is_degraded (reports_of st sid))) 4294967295 \<and>
   pf_total_viewer_count fb = of_nat (length (subscribers_for_stream st sid)) \<and>
   pf_keyframe_requested fb =
     (bt_contains sid (cs_pending_keyframe_requests st) \<or>
      (\<exists>r \<in> set (reports_of st sid). 0 < vsr_lost_packets r \<or> 0 < vsr_dropped_frames r))"
  unfolding Let_def using aggregate_counts [of rid sid st] by blast

definition feedback_target :: "publisher_feedback \<Rightarrow> stream_target" where
  "feedback_target fb =
     \<lparr>tg_bitrate_bps = pf_aggregate_available_bitrate_bps fb,
      tg_frames_per_second = pf_target_frames_per_second fb,
      tg_width = pf_target_width fb, tg_height = pf_target_height fb\<rparr>"

definition mostly_degraded :: "publisher_feedback \<Rightarrow> bool" where
  "mostly_degraded fb \<longleftrightarrow>
     0 < pf_total_viewer_count fb \<and>
     pf_total_viewer_count fb \<le> sat_mul (pf_degraded_viewer_count fb) 2"

lemma get_target_keyframes:
  "get_stream_target (st\<lparr>cs_pending_keyframe_requests := k\<rparr>) sid = get_stream_target st sid"
  "get_stream_target (register_keyframe_request sid' reason st) sid = get_stream_target st sid"
  by (simp_all add: get_stream_target_def published_stream_def register_keyframe_request_def)

lemma stream_target_eta:
  "\<lparr>tg_bitrate_bps = tg_bitrate_bps t, tg_frames_per_second = tg_frames_per_second t,
    tg_width = tg_width t, tg_height = tg_height t\<rparr> = t" for t :: stream_target
  by simp

lemma aggregate_target: "feedback_target (aggregate_publisher_feedback rid sid st) = get_stream_target st sid"
  by (simp add: feedback_target_def aggregate_publisher_feedback_def Let_def split_beta)

lemma adaptive_feedback_target:
  assumes wf: "wf_state st" and pub: "published_in (cs_rooms st) rid' sid x"
    and fb: "fb = aggregate_publisher_feedback rid sid st"
    and new: "new = (if mostly_degraded fb then reduced_target (get_stream_target st sid)
      else get_stream_target st sid)"
  shows "feedback_target (fst (adaptive_publisher_feedback rid sid st)) = new \<and>
    get_stream_target (snd (adaptive_publisher_feedback rid sid st)) sid = new"
proof (cases "mostly_degraded fb")
  case False
  then have "adaptive_publisher_feedback rid sid st = (fb, st)"
    by (auto simp: adaptive_publisher_feedback_def Let_def fb mostly_degraded_def)
  with False show ?thesis by (simp add: new fb aggregate_target)
next
  case True
  have ok: "target_ok new"
    using reduced_target_step [OF get_target_ok [OF wf, of sid]] True by (simp add: new)
  have "get_stream_target (snd (adaptive_publisher_feedback rid sid st)) sid =
      get_stream_target (update_stream_target sid (tg_bitrate_bps new) (tg_frames_per_second new)
        (tg_width new) (tg_height new) st) sid"
    using True by (simp add: adaptive_publisher_feedback_def Let_def fb new mostly_degraded_def
        get_target_keyframes)
  moreover have "feedback_target (fst (adaptive_publisher_feedback rid sid st)) = new"
    using True by (simp add: adaptive_publisher_feedback_def Let_def fb new mostly_degraded_def
        feedback_target_def)
  ultimately show ?thesis using get_target_update [OF wf pub ok] by simp
qed

lemma poll_feedback_target:
  assumes wf: "wf_state st"
    and poll: "poll_publisher_feedback s rid sid st = (PublisherFeedback fb, st')"
  shows "feedback_target fb = get_stream_target st' sid \<and>
    get_stream_target st' sid =
      (if mostly_degraded (aggregate_publisher_feedback rid sid st)
       then reduced_target (get_stream_target st sid) else get_stream_target st sid) \<and>
    \<not> bt_contains sid (cs_pending_keyframe_requests st') \<and>
    publisher_for_stream st sid = sess_user_id s"
proof -
  from poll obtain uid where uid: "sess_user_id s = Some uid" "publisher_for_stream st sid = Some uid"
    and fb: "fb = fst (adaptive_publisher_feedback rid sid st)"
    and st': "st' = (snd (adaptive_publisher_feedback rid sid st))\<lparr>cs_pending_keyframe_requests :=
      bt_remove sid (cs_pending_keyframe_requests (snd (adaptive_publisher_feedback rid sid st)))\<rparr>"
    by (auto simp: poll_publisher_feedback_def Let_def split_beta error_reply_def
        split: option.splits if_splits)
  from uid(2) obtain rid' x where "published_in (cs_rooms st) rid' sid x"
    using publisher_for_stream_iff [OF wf_stateD(1) [OF wf]] by blast
  from adaptive_feedback_target [OF wf this refl refl, of rid] show ?thesis
    using uid by (simp add: fb st' get_target_keyframes)
qed

lemma adaptive_feedback_rest:
  "let fb = fst (adaptive_publisher_feedback rid sid st); st' = snd (adaptive_publisher_feedback rid sid st);
       ag = aggregate_publisher_feedback rid sid st; old = get_stream_target st sid in
   pf_degraded_viewer_count fb = pf_degraded_viewer_count ag \<and>
   pf_total_viewer_count fb = pf_total_viewer_count ag \<and>
   pf_keyframe_requested fb = (pf_keyframe_requested ag \<or> mostly_degraded ag \<and>
     (tg_width (reduced_target old), tg_height (reduced_target old)) \<noteq> (tg_width old, tg_height old)) \<and>
   bt_remove sid (cs_pending_keyframe_requests st') = bt_remove sid (cs_pending_keyframe_requests st)"
proof (cases "mostly_degraded (aggregate_publisher_feedback rid sid st)")
  case False
  then have "adaptive_publisher_feedback rid sid st = (aggregate_publisher_feedback rid sid st, st)"
    by (auto simp: adaptive_publisher_feedback_def Let_def mostly_degraded_def)
  with False show ?thesis by (simp add: Let_def)
next
  case True
  have keyframes: "cs_pending_keyframe_requests (update_stream_target sid b f w h st) =
      cs_pending_keyframe_requests st" for b f w h
    by (cases rule: update_stream_target_cases [of st sid b f w h]) simp_all
  show ?thesis
    using True by (simp add: adaptive_publisher_feedback_def Let_def mostly_degraded_def keyframes
        register_keyframe_request_def bt_remove_insert_same)
qed

lemma poll_feedback_keyframe:
  assumes poll: "poll_publisher_feedback s rid sid st = (PublisherFeedback fb, st')"
  shows "mostly_degraded fb = mostly_degraded (aggregate_publisher_feedback rid sid st)"
    and "pf_degraded_viewer_count fb = pf_degraded_viewer_count (aggregate_publisher_feedback rid sid st)"
    and "pf_total_viewer_count fb = pf_total_viewer_count (aggregate_publisher_feedback rid sid st)"
    and "let old = get_stream_target st sid in
      pf_keyframe_requested fb = (pf_keyframe_requested (aggregate_publisher_feedback rid sid st) \<or>
        mostly_degraded fb \<and>
        (tg_width (reduced_target old), tg_height (reduced_target old)) \<noteq> (tg_width old, tg_height old))"
    and "cs_pending_keyframe_requests st' = bt_remove sid (cs_pending_keyframe_requests st)"
proof -
  from poll have fb: "fb = fst (adaptive_publisher_feedback rid sid st)"
    and st': "st' = (snd (adaptive_publisher_feedback rid sid st))\<lparr>cs_pending_keyframe_requests :=
      bt_remove sid (cs_pending_keyframe_requests (snd (adaptive_publisher_feedback rid sid st)))\<rparr>"
    by (auto simp: poll_publisher_feedback_def Let_def split_beta error_reply_def
        split: option.splits if_splits)
  note rest = adaptive_feedback_rest [of rid sid st, unfolded Let_def]
  show counts: "pf_degraded_viewer_count fb = pf_degraded_viewer_count (aggregate_publisher_feedback rid sid st)"
    "pf_total_viewer_count fb = pf_total_viewer_count (aggregate_publisher_feedback rid sid st)"
    using rest by (simp_all add: fb)
  then show degraded: "mostly_degraded fb = mostly_degraded (aggregate_publisher_feedback rid sid st)"
    by (simp add: mostly_degraded_def)
  show "let old = get_stream_target st sid in
      pf_keyframe_requested fb = (pf_keyframe_requested (aggregate_publisher_feedback rid sid st) \<or>
        mostly_degraded fb \<and>
        (tg_width (reduced_target old), tg_height (reduced_target old)) \<noteq> (tg_width old, tg_height old))"
    unfolding Let_def degraded unfolding fb using rest by blast
  show "cs_pending_keyframe_requests st' = bt_remove sid (cs_pending_keyframe_requests st)"
    using rest by (simp add: st')
qed

text \<open>
  C16. Publisher feedback is what the relay stores: a publisher that polls is told the number of
  degraded reports and of viewers, and the target the stream has afterwards, which is the old
  target, reduced by one step exactly when at least half of the viewers count as degraded. It is
  asked for a keyframe exactly when one was pending, a stored report shows loss, or the step changed
  the resolution; then no request of the stream is pending, and those of other streams still are.
\<close>

theorem poll_feedback_reports_target:
  assumes wf: "wf_state st"
    and poll: "poll_publisher_feedback s rid sid st = (PublisherFeedback fb, st')"
  shows "publisher_for_stream st sid = sess_user_id s \<and>
    unat (pf_degraded_viewer_count fb) =
      min (length (filter viewer_is_degraded (reports_of st sid))) 4294967295 \<and>
    pf_total_viewer_count fb = of_nat (length (subscribers_for_stream st sid)) \<and>
    feedback_target fb = get_stream_target st' sid \<and>
    get_stream_target st' sid =
      (if mostly_degraded fb then reduced_target (get_stream_target st sid) else get_stream_target st sid) \<and>
    pf_keyframe_requested fb =
      (bt_contains sid (cs_pending_keyframe_requests st) \<or>
       (\<exists>r \<in> set (reports_of st sid). 0 < vsr_lost_packets r \<or> 0 < vsr_dropped_frames r) \<or>
       (tg_width (get_stream_target st' sid), tg_height (get_stream_target st' sid)) \<noteq>
         (tg_width (get_stream_target st sid), tg_height (get_stream_target st sid))) \<and>
    cs_pending_keyframe_requests st' = bt_remove sid (cs_pending_keyframe_requests st)"
proof -
  note target = poll_feedback_target [OF wf poll] and keyframe = poll_feedback_keyframe [OF poll, unfolded Let_def]
  note counts = aggregate_counts [of rid sid st]
  have stored: "get_stream_target st' sid =
      (if mostly_degraded fb then reduced_target (get_stream_target st sid) else get_stream_target st sid)"
    using target unfolding keyframe(1) by blast
  have "pf_keyframe_requested fb =
      (bt_contains sid (cs_pending_keyframe_requests st) \<or>
       (\<exists>r \<in> set (reports_of st sid). 0 < vsr_lost_packets r \<or> 0 < vsr_dropped_frames r) \<or>
       (tg_width (get_stream_target st' sid), tg_height (get_stream_target st' sid)) \<noteq>
         (tg_width (get_stream_target st sid), tg_height (get_stream_target st sid)))"
    unfolding keyframe(4) counts(3) stored by (cases "mostly_degraded fb") simp_all
  moreover have "publisher_for_stream st sid = sess_user_id s" "feedback_target fb = get_stream_target st' sid"
    using target by blast+
  moreover have "unat (pf_degraded_viewer_count fb) =
      min (length (filter viewer_is_degraded (reports_of st sid))) 4294967295"
    "pf_total_viewer_count fb = of_nat (length (subscribers_for_stream st sid))"
    unfolding keyframe(2,3) by (rule counts(1)) (rule counts(2))
  moreover note stored keyframe(5)
  ultimately show ?thesis by (iprover intro: conjI)
qed

theorem poll_feedback_reports_target_witness:
  "get_stream_target (snd (poll_publisher_feedback (sample_session 1) 1 9 sample_relay)) 9 =
     get_stream_target sample_relay 9"
proof -
  let ?r = "poll_publisher_feedback (sample_session 1) 1 9 sample_relay"
  obtain fb where fb: "fst ?r = PublisherFeedback fb"
    by (simp add: poll_publisher_feedback_def sample_publisher Let_def split_beta)
  then have r: "?r = (PublisherFeedback fb, snd ?r)" by (metis prod.collapse)
  have "\<not> mostly_degraded (aggregate_publisher_feedback 1 9 sample_relay)"
    by (simp add: mostly_degraded_def aggregate_publisher_feedback_def Let_def sample_relay_sel
        sample_subscribers sat_mul_def)
  then have "\<not> mostly_degraded fb" unfolding poll_feedback_keyframe(1) [OF r] .
  moreover have "get_stream_target (snd ?r) 9 =
      (if mostly_degraded fb then reduced_target (get_stream_target sample_relay 9) else get_stream_target sample_relay 9)"
    using poll_feedback_reports_target [OF wf_sample_relay r] by (elim conjE)
  ultimately show ?thesis by (simp only: if_False)
qed

section \<open>Whose reports count\<close>

lemma bt_values_insert_mem: "v \<in> set (bt_values (bt_insert k v m))"
  unfolding set_bt_values by (auto simp: ran_def)

text \<open>
  C35. Reports of outsiders count: \<open>ViewerStats\<close> is stored without looking at rooms or
  subscriptions, so one degraded report by a user who is in no room makes the relay reduce the
  target of any stream with one or two viewers at its publisher's next poll.
\<close>

theorem outsider_report_reduces_target:
  assumes wf: "wf_state st" and pub: "publisher_for_stream st sid = Some p"
    and viewers: "length (subscribers_for_stream st sid) \<in> {1, 2}"
    and outsider: "sess_user_id s = Some uid" "may_control s st" "\<And>rid. \<not> member st rid uid"
    and report: "vsr_stream_id report = sid" "viewer_is_degraded report"
    and p: "sess_user_id ps = Some p"
  shows "get_stream_target (snd (poll_publisher_feedback ps rid sid
      (snd (snd (handle_client_envelope now now' s
        (envelope_new n (ViewerStats report)) st))))) sid = reduced_target (get_stream_target st sid)"
proof -
  let ?st = "snd (handle_viewer_stats s report st)"
  have st: "snd (snd (handle_client_envelope now now' s (envelope_new n (ViewerStats report)) st)) = ?st"
    using outsider(2)
    by (auto simp: handle_client_envelope_state envelope_new_def authorization_error_def
        may_control_def keep_session_def)
  have rooms: "cs_rooms ?st = cs_rooms st"
    by (simp add: handle_viewer_stats_def Let_def split: option.split)
  have wf': "wf_state ?st" by (rule wf_handle_viewer_stats [OF wf])
  have same: "publisher_for_stream ?st sid = Some p" "get_stream_target ?st sid = get_stream_target st sid"
    "subscribers_for_stream ?st sid = subscribers_for_stream st sid"
    using pub rooms by (simp_all add: publisher_for_stream_def published_stream_def
        get_stream_target_def subscribers_for_stream_def)
  have "report \<in> set (reports_of ?st sid)"
    using outsider(1) report(1) bt_values_insert_mem
    by (simp add: handle_viewer_stats_def Let_def reports_of_def)
  with report(2) have "0 < length (filter viewer_is_degraded (reports_of ?st sid))"
    by (auto simp: length_greater_0_conv filter_empty_conv simp del: length_0_conv)
  then have "1 \<le> length (filter viewer_is_degraded (reports_of ?st sid))" by linarith
  then have "1 \<le> unat (pf_degraded_viewer_count (aggregate_publisher_feedback rid sid ?st))"
    unfolding aggregate_counts by simp
  moreover have "unat (pf_total_viewer_count (aggregate_publisher_feedback rid sid ?st)) \<in> {1, 2}"
    unfolding aggregate_counts same(3) using viewers by auto
  ultimately have deg: "mostly_degraded (aggregate_publisher_feedback rid sid ?st)"
    by (auto simp: mostly_degraded_def word_less_nat_alt word_le_nat_alt unat_sat_mul)
  let ?r = "poll_publisher_feedback ps rid sid ?st"
  obtain fb where "fst ?r = PublisherFeedback fb"
    using p same(1) by (simp add: poll_publisher_feedback_def Let_def split_beta)
  then have "?r = (PublisherFeedback fb, snd ?r)" by (metis prod.collapse)
  from poll_feedback_target [OF wf' this] deg same(2) show ?thesis
    unfolding st by simp
qed

definition bad_report :: viewer_stats_report where
  "bad_report =
     \<lparr>vsr_room_id = 0, vsr_stream_id = 9, vsr_received_packets = 0, vsr_lost_packets = 1,
      vsr_decoded_frames = 0, vsr_dropped_frames = 0, vsr_jitter_buffer_ms = 0,
      vsr_estimated_latency_ms = 0, vsr_calibrated_latency_ms = 0, vsr_reassembly_ms_p50 = 0,
      vsr_reassembly_ms_p95 = 0, vsr_decode_ms_p50 = 0, vsr_decode_ms_p95 = 0,
      vsr_render_ms_p50 = 0, vsr_render_ms_p95 = 0, vsr_render_fps = 0\<rparr>"

theorem outsider_report_reduces_target_witness:
  "get_stream_target (snd (poll_publisher_feedback (sample_session 1) 1 9
      (snd (snd (handle_client_envelope 0 0 (sample_session 3)
        (envelope_new 8 (ViewerStats bad_report)) sample_relay))))) 9 =
   reduced_target (get_stream_target sample_relay 9)"
proof (rule outsider_report_reduces_target [OF wf_sample_relay sample_publisher])
  show "length (subscribers_for_stream sample_relay 9) \<in> {1, 2}" by (simp add: sample_subscribers)
  show "sess_user_id (sample_session 3) = Some 3" "sess_user_id (sample_session 1) = Some 1" by simp_all
  show "may_control (sample_session 3) sample_relay" by (simp add: may_control_def)
  show "\<not> member sample_relay rid 3" for rid by (simp add: member_def sample_relay_sel)
  show "vsr_stream_id bad_report = 9" "viewer_is_degraded bad_report"
    by (simp_all add: bad_report_def viewer_is_degraded_def)
qed

end
