(* ===== verification/Media.thy ===== *)
theory Media
  imports Control_State Router
begin

text \<open>
  The media relay, \<open>crates/relay-server/src/media.rs\<close>: forwarding a publisher's packet into the
  bounded egress queue of every viewer, and the send task that empties a viewer's queue. The
  queue is a bounded \<open>mpsc\<close> channel of the tokio package, a parameter here; what is relied on
  is \<open>mpsc_spec\<close>. A mutex is the value it protects, or \<open>None\<close> once it is poisoned.
\<close>

section \<open>The channel\<close>

datatype send_result = Sent | Full | Closed

text \<open>\<open>mpsc::channel\<close>, \<open>Sender::try_send\<close> and \<open>Receiver::recv\<close> (\<open>None\<close>: nothing to take).\<close>

record ('c, 'd) channel_api =
  chan_new :: "nat \<Rightarrow> 'c"
  chan_try_send :: "'d \<Rightarrow> 'c \<Rightarrow> send_result \<times> 'c"
  chan_recv :: "'c \<Rightarrow> 'd option \<times> 'c"

text \<open>
  The documented behaviour: a channel of capacity \<open>n\<close> starts empty, \<open>try_send\<close> appends when it
  succeeds, fails as full only at capacity and keeps the contents when it fails, and \<open>recv\<close>
  takes the oldest message, or waits when there is none. \<open>items\<close> and \<open>cap\<close> are the channel's contents and capacity.
\<close>

definition mpsc_spec :: "('c, 'd) channel_api \<Rightarrow> ('c \<Rightarrow> 'd list) \<Rightarrow> ('c \<Rightarrow> nat) \<Rightarrow> bool" where
  "mpsc_spec api items cap \<longleftrightarrow>
     (\<forall>n. items (chan_new api n) = [] \<and> cap (chan_new api n) = n) \<and>
     (\<forall>d c r c'. chan_try_send api d c = (r, c') \<longrightarrow>
        cap c' = cap c \<and>
        items c' = (if r = Sent then items c @ [d] else items c) \<and>
        (r = Sent \<longrightarrow> length (items c) < cap c) \<and> (r = Full \<longrightarrow> cap c \<le> length (items c))) \<and>
     (\<forall>c r c'. chan_recv api c = (r, c') \<longrightarrow>
        cap c' = cap c \<and> items c = (case r of None \<Rightarrow> [] | Some d \<Rightarrow> [d]) @ items c' \<and>
        (r = None \<longrightarrow> items c = [] \<and> c' = c))"

section \<open>State\<close>

definition DEFAULT_EGRESS_QUEUE_CAPACITY :: nat where "DEFAULT_EGRESS_QUEUE_CAPACITY = 256"
definition DEFAULT_VIEWER_QUEUE_BUDGET_MS :: u16 where "DEFAULT_VIEWER_QUEUE_BUDGET_MS = 100"

record egress_datagram =
  eg_stream_id :: u32
  eg_packet :: media_packet
  eg_media_duration_ms :: u16

record egress_queue_depth =
  qd_queued_packets :: u32
  qd_queued_media_ms :: u16

definition depth_default :: egress_queue_depth where
  "depth_default = \<lparr>qd_queued_packets = 0, qd_queued_media_ms = 0\<rparr>"

type_synonym stream_depths = "(u32, egress_queue_depth) btree option"

text \<open>
  \<open>ViewerEgress\<close> with the local variable of its send task: the datagram taken from the channel
  whose depth is not released yet.
\<close>

record 'c viewer_egress =
  ve_channel :: 'c
  ve_stream_depths :: stream_depths
  ve_sending :: "egress_datagram option"

record 'c media_relay =
  mr_egress :: "(user_id, 'c viewer_egress) btree"
  mr_egress_queue_capacity :: nat
  mr_viewer_queue_budget_ms :: u16

type_synonym 'c egress_api = "('c, egress_datagram) channel_api"

definition with_egress_limits :: "nat \<Rightarrow> u16 \<Rightarrow> 'c media_relay" where
  "with_egress_limits egress_queue_capacity viewer_queue_budget_ms =
     \<lparr>mr_egress = bt_new, mr_egress_queue_capacity = max egress_queue_capacity 1,
      mr_viewer_queue_budget_ms = max viewer_queue_budget_ms 1\<rparr>"

definition media_relay_new :: "'c media_relay" where
  "media_relay_new =
     with_egress_limits DEFAULT_EGRESS_QUEUE_CAPACITY DEFAULT_VIEWER_QUEUE_BUDGET_MS"

definition with_egress_queue_capacity :: "nat \<Rightarrow> 'c media_relay" where
  "with_egress_queue_capacity egress_queue_capacity =
     with_egress_limits egress_queue_capacity DEFAULT_VIEWER_QUEUE_BUDGET_MS"

definition with_viewer_queue_budget_ms :: "u16 \<Rightarrow> 'c media_relay" where
  "with_viewer_queue_budget_ms viewer_queue_budget_ms =
     with_egress_limits DEFAULT_EGRESS_QUEUE_CAPACITY viewer_queue_budget_ms"

definition unregister_egress :: "user_id \<Rightarrow> 'c media_relay \<Rightarrow> 'c media_relay" where
  "unregister_egress uid media = media\<lparr>mr_egress := bt_remove uid (mr_egress media)\<rparr>"

definition register_egress :: "'c egress_api \<Rightarrow> user_id \<Rightarrow> 'c media_relay \<Rightarrow> 'c media_relay" where
  "register_egress api uid media =
     (let media = unregister_egress uid media in
      media\<lparr>mr_egress := bt_insert uid
        \<lparr>ve_channel = chan_new api (mr_egress_queue_capacity media),
         ve_stream_depths = Some bt_new, ve_sending = None\<rparr> (mr_egress media)\<rparr>)"

section \<open>Depth accounting\<close>

definition try_reserve_stream_depth ::
  "u32 \<Rightarrow> u32 \<Rightarrow> u32 \<Rightarrow> stream_depths \<Rightarrow> bool \<times> stream_depths" where
  "try_reserve_stream_depth sid media_duration_ms queue_budget_ms lock =
     (case lock of
        None \<Rightarrow> (False, None)
      | Some depths \<Rightarrow>
          let current = (case bt_get depths sid of None \<Rightarrow> depth_default | Some d \<Rightarrow> d);
              next_media_ms =
                sat_add (qd_queued_media_ms current) (ucast (min media_duration_ms 65535))
          in if queue_budget_ms < ucast next_media_ms then (False, Some depths)
             else (True, Some (bt_entry sid depth_default (\<lambda>depth.
               depth\<lparr>qd_queued_packets := sat_add (qd_queued_packets depth) 1,
                     qd_queued_media_ms := next_media_ms\<rparr>) depths)))"

definition release_stream_depth :: "u32 \<Rightarrow> u16 \<Rightarrow> stream_depths \<Rightarrow> stream_depths" where
  "release_stream_depth sid media_duration_ms lock =
     (case lock of
        None \<Rightarrow> None
      | Some depths \<Rightarrow>
        (case bt_get depths sid of
           None \<Rightarrow> Some depths
         | Some depth \<Rightarrow>
             let depth = depth\<lparr>
                   qd_queued_packets := sat_sub (qd_queued_packets depth) 1,
                   qd_queued_media_ms := sat_sub (qd_queued_media_ms depth) media_duration_ms\<rparr>
             in if qd_queued_packets depth = 0 \<and> qd_queued_media_ms depth = 0
                then Some (bt_remove sid depths)
                else Some (bt_insert sid depth depths)))"

definition egress_try_reserve_media ::
  "u32 \<Rightarrow> u16 \<Rightarrow> u16 \<Rightarrow> 'c viewer_egress \<Rightarrow> bool \<times> 'c viewer_egress" where
  "egress_try_reserve_media sid media_duration_ms queue_budget_ms egress =
     (case try_reserve_stream_depth sid (ucast media_duration_ms) (ucast queue_budget_ms)
             (ve_stream_depths egress) of
        (reserved, lock) \<Rightarrow> (reserved, egress\<lparr>ve_stream_depths := lock\<rparr>))"

definition egress_release_media :: "u32 \<Rightarrow> u16 \<Rightarrow> 'c viewer_egress \<Rightarrow> 'c viewer_egress" where
  "egress_release_media sid media_duration_ms egress =
     egress\<lparr>ve_stream_depths :=
       release_stream_depth sid media_duration_ms (ve_stream_depths egress)\<rparr>"

definition egress_stream_depth :: "u32 \<Rightarrow> 'c viewer_egress \<Rightarrow> egress_queue_depth" where
  "egress_stream_depth sid egress =
     (case ve_stream_depths egress of
        None \<Rightarrow> depth_default
      | Some depths \<Rightarrow> (case bt_get depths sid of None \<Rightarrow> depth_default | Some d \<Rightarrow> d))"

section \<open>Forwarding\<close>

fun media_kind_packet_type :: "media_kind \<Rightarrow> packet_type" where
  "media_kind_packet_type Screen = Video"
| "media_kind_packet_type Voice = Audio"
| "media_kind_packet_type ProbeMedia = Probe"

definition packet_media_duration_ms :: "media_packet \<Rightarrow> published_stream \<Rightarrow> u16 \<Rightarrow> u16" where
  "packet_media_duration_ms packet published queue_budget_ms =
     (let fps = ucast (max (case st_config published of
                   None \<Rightarrow> st_target_frames_per_second published
                 | Some config \<Rightarrow> sc_frames_per_second config) 1) :: u32;
          frame_duration_ms =
            min (of_nat (div_ceil 1000 (unat fps))) (ucast (max queue_budget_ms 1)) :: u32;
          fragment_count = ucast (max (h_fragment_count (p_header packet)) 1) :: u32
      in ucast (min (max (frame_duration_ms div fragment_count) 1) 65535))"

definition packet_for_egress :: "media_packet \<Rightarrow> u64 \<Rightarrow> media_packet" where
  "packet_for_egress packet server_receive_time_micros =
     packet\<lparr>p_header := (p_header packet)\<lparr>
       h_server_receive_time_micros := server_receive_time_micros,
       h_server_send_time_micros := 0\<rparr>\<rparr>"

definition dropped_summary :: "stream_id \<Rightarrow> media_forward_summary" where
  "dropped_summary sid = \<lparr>mfs_stream_id = sid, mfs_queued = 0, mfs_dropped = 1\<rparr>"

text \<open>One viewer's turn in the loop: was the datagram queued, and the viewer's egress afterwards.\<close>

definition offer_datagram ::
  "'c egress_api \<Rightarrow> u16 \<Rightarrow> egress_datagram \<Rightarrow> 'c viewer_egress \<Rightarrow> bool \<times> 'c viewer_egress" where
  "offer_datagram api queue_budget_ms datagram egress =
     (case egress_try_reserve_media (eg_stream_id datagram) (eg_media_duration_ms datagram)
             queue_budget_ms egress of
        (False, egress) \<Rightarrow> (False, egress)
      | (True, egress) \<Rightarrow>
        (case chan_try_send api datagram (ve_channel egress) of
           (Sent, channel) \<Rightarrow> (True, egress\<lparr>ve_channel := channel\<rparr>)
         | (_, channel) \<Rightarrow>
             (False, egress_release_media (eg_stream_id datagram) (eg_media_duration_ms datagram)
                       (egress\<lparr>ve_channel := channel\<rparr>))))"

text \<open>
  The loop over the subscribers. \<open>deafened v\<close> is the test of the voice branch, \<open>datagram\<close> what
  the loop builds for every viewer.
\<close>

fun forward_loop ::
  "'c egress_api \<Rightarrow> u16 \<Rightarrow> user_id \<Rightarrow> (user_id \<Rightarrow> bool) \<Rightarrow> egress_datagram \<Rightarrow> user_id list \<Rightarrow>
   media_forward_summary \<Rightarrow> (user_id, 'c viewer_egress) btree \<Rightarrow>
   media_forward_summary \<times> (user_id, 'c viewer_egress) btree" where
  "forward_loop api budget publisher_id deafened datagram [] summary egresses = (summary, egresses)"
| "forward_loop api budget publisher_id deafened datagram (subscriber_id # rest) summary egresses =
     (if subscriber_id = publisher_id
      then forward_loop api budget publisher_id deafened datagram rest summary egresses
      else
        case bt_get egresses subscriber_id of
          None \<Rightarrow>
            forward_loop api budget publisher_id deafened datagram rest
              (summary\<lparr>mfs_dropped := mfs_dropped summary + 1\<rparr>) egresses
        | Some egress \<Rightarrow>
            if deafened subscriber_id
            then forward_loop api budget publisher_id deafened datagram rest
                   (summary\<lparr>mfs_dropped := mfs_dropped summary + 1\<rparr>) egresses
            else
              case offer_datagram api budget datagram egress of
                (queued, egress) \<Rightarrow>
                  forward_loop api budget publisher_id deafened datagram rest
                    (if queued then summary\<lparr>mfs_queued := mfs_queued summary + 1\<rparr>
                     else summary\<lparr>mfs_dropped := mfs_dropped summary + 1\<rparr>)
                    (bt_insert subscriber_id egress egresses))"

definition forward_media_packet ::
  "'c egress_api \<Rightarrow> control_state \<Rightarrow> user_id \<Rightarrow> media_packet \<Rightarrow> u64 \<Rightarrow> 'c media_relay \<Rightarrow>
   media_forward_summary \<times> 'c media_relay" where
  "forward_media_packet api st publisher_id packet server_receive_time_micros media =
     (let sid = h_room_stream_id (p_header packet) in
      case published_stream st sid of
        None \<Rightarrow> (dropped_summary sid, media)
      | Some published \<Rightarrow>
          if st_publisher_id published \<noteq> publisher_id \<or>
             st_codec published \<noteq> h_codec (p_header packet) \<or>
             media_kind_packet_type (st_media_kind published) \<noteq> h_packet_type (p_header packet)
          then (dropped_summary sid, media)
          else if st_media_kind published = Voice \<and>
             \<not> voice_publisher_can_send st sid publisher_id
          then (dropped_summary sid, media)
          else
            (case packet_encode packet of
               Inl _ \<Rightarrow> (dropped_summary sid, media)
             | Inr _ \<Rightarrow>
                 let budget = mr_viewer_queue_budget_ms media;
                     media_duration_ms = packet_media_duration_ms packet published budget;
                     deafened = (\<lambda>subscriber_id. st_media_kind published = Voice \<and>
                       (case voice_state_for_stream st sid subscriber_id of
                          None \<Rightarrow> False | Some v \<Rightarrow> vs_deafened v));
                     datagram =
                       \<lparr>eg_stream_id = sid,
                        eg_packet = packet_for_egress packet server_receive_time_micros,
                        eg_media_duration_ms = media_duration_ms\<rparr>;
                     (summary, egresses) =
                       forward_loop api budget publisher_id deafened datagram
                         (subscribers_for_stream st sid)
                         \<lparr>mfs_stream_id = sid, mfs_queued = 0, mfs_dropped = 0\<rparr>
                         (mr_egress media)
                 in (summary, media\<lparr>mr_egress := egresses\<rparr>)))"

fun add_depths :: "egress_queue_depth list \<Rightarrow> egress_queue_depth \<Rightarrow> egress_queue_depth" where
  "add_depths [] sum_depth = sum_depth"
| "add_depths (depth # depths) sum_depth =
     add_depths depths (sum_depth\<lparr>
       qd_queued_packets := sat_add (qd_queued_packets sum_depth) (qd_queued_packets depth),
       qd_queued_media_ms := sat_add (qd_queued_media_ms sum_depth) (qd_queued_media_ms depth)\<rparr>)"

definition stream_egress_depth ::
  "control_state \<Rightarrow> stream_id \<Rightarrow> 'c media_relay \<Rightarrow> egress_queue_depth" where
  "stream_egress_depth st sid media =
     add_depths
       (map (egress_stream_depth sid)
         (List.map_filter (bt_get (mr_egress media)) (subscribers_for_stream st sid)))
       depth_default"

section \<open>The send task\<close>

text \<open>
  One iteration of \<open>send_viewer_egress\<close> in two steps: taking a datagram, then stamping, encoding
  and sending it (\<open>None\<close> when it does not encode) and releasing its depth. What the connection
  does with the bytes does not matter to the task.
\<close>

definition egress_receive :: "'c egress_api \<Rightarrow> 'c viewer_egress \<Rightarrow> 'c viewer_egress" where
  "egress_receive api egress =
     (case ve_sending egress of
        Some _ \<Rightarrow> egress
      | None \<Rightarrow>
        (case chan_recv api (ve_channel egress) of
           (datagram, channel) \<Rightarrow> egress\<lparr>ve_channel := channel, ve_sending := datagram\<rparr>))"

definition egress_send :: "u64 \<Rightarrow> 'c viewer_egress \<Rightarrow> bytes option \<times> 'c viewer_egress" where
  "egress_send now egress =
     (case ve_sending egress of
        None \<Rightarrow> (None, egress)
      | Some datagram \<Rightarrow>
          let packet = (eg_packet datagram)\<lparr>p_header :=
                (p_header (eg_packet datagram))\<lparr>h_server_send_time_micros := now\<rparr>\<rparr>
          in (case packet_encode packet of Inl _ \<Rightarrow> None | Inr bytes \<Rightarrow> Some bytes,
              egress_release_media (eg_stream_id datagram) (eg_media_duration_ms datagram)
                (egress\<lparr>ve_sending := None\<rparr>)))"

section \<open>A datagram from the network\<close>

text \<open>
  The body of the loop of \<open>serve_media_datagrams\<close>: \<open>received_at_micros\<close> and \<open>routed_at_micros\<close>
  are the two readings of the clock.
\<close>

definition serve_media_datagram ::
  "'c egress_api \<Rightarrow> user_id \<Rightarrow> bytes \<Rightarrow> u64 \<Rightarrow> u64 \<Rightarrow> control_state \<times> 'c media_relay \<Rightarrow>
   control_state \<times> 'c media_relay" where
  "serve_media_datagram api uid bytes received_at_micros routed_at_micros = (\<lambda>(st, media).
     case packet_decode bytes of
       Inl _ \<Rightarrow> (st, media)
     | Inr packet \<Rightarrow>
         let (summary, media) = forward_media_packet api st uid packet received_at_micros media;
             server_route_ms = micros_delta_to_millis received_at_micros routed_at_micros
         in (record_media_forward_summary packet summary (length bytes) received_at_micros
               server_route_ms st, media))"

end
