(* ===== verification/Media_Props.thy ===== *)
theory Media_Props
  imports Media Control_Props
begin

text \<open>
  Correctness of the media relay: a viewer's egress keeps the contract \<open>budgeted_fifo\<close>, forwarding
  reaches exactly the admitted viewers of an admitted packet and no viewer depends on another,
  and what a viewer receives is the publisher's packet with the relay's timestamps.
\<close>

section \<open>The egress of one viewer\<close>

definition egress_items :: "('c \<Rightarrow> egress_datagram list) \<Rightarrow> 'c viewer_egress \<Rightarrow> egress_datagram list" where
  "egress_items items eg =
     (case ve_sending eg of None \<Rightarrow> [] | Some d \<Rightarrow> [d]) @ items (ve_channel eg)"

definition of_stream :: "u32 \<Rightarrow> egress_datagram list \<Rightarrow> egress_datagram list" where
  "of_stream sid ds = filter (\<lambda>d. eg_stream_id d = sid) ds"

definition media_ms :: "egress_datagram list \<Rightarrow> nat" where
  "media_ms ds = sum_list (map (\<lambda>d. unat (eg_media_duration_ms d)) ds)"

text \<open>The depth kept for a stream is the number and media time of its datagrams, none if none.\<close>

definition entry_ok :: "egress_queue_depth option \<Rightarrow> egress_datagram list \<Rightarrow> bool" where
  "entry_ok entry ds \<longleftrightarrow>
     (case entry of
        None \<Rightarrow> ds = []
      | Some depth \<Rightarrow> ds \<noteq> [] \<and> unat (qd_queued_packets depth) = length ds \<and>
          unat (qd_queued_media_ms depth) = media_ms ds)"

definition depth_matches :: "stream_depths \<Rightarrow> egress_datagram list \<Rightarrow> bool" where
  "depth_matches lock ds \<longleftrightarrow>
     (\<exists>depths. lock = Some depths \<and> (\<forall>sid. entry_ok (bt_get depths sid) (of_stream sid ds)))"

lemma entry_ok_default:
  assumes "entry_ok entry ds"
  shows "unat (qd_queued_packets (case entry of None \<Rightarrow> depth_default | Some d \<Rightarrow> d)) = length ds"
    and "unat (qd_queued_media_ms (case entry of None \<Rightarrow> depth_default | Some d \<Rightarrow> d)) = media_ms ds"
  using assms by (auto simp: entry_ok_def depth_default_def media_ms_def split: option.splits)

lemma entry_ok_Some:
  "entry_ok (Some depth) ds \<longleftrightarrow>
     ds \<noteq> [] \<and> unat (qd_queued_packets depth) = length ds \<and>
     unat (qd_queued_media_ms depth) = media_ms ds"
  by (simp add: entry_ok_def)

lemma entry_ok_None: "entry_ok None ds \<longleftrightarrow> ds = []"
  by (simp add: entry_ok_def)

lemma entry_ok_ne: "entry_ok entry ds \<Longrightarrow> ds \<noteq> [] \<Longrightarrow> \<exists>depth. entry = Some depth \<and> entry_ok (Some depth) ds"
  by (cases entry) (auto simp: entry_ok_None)

definition egress_inv ::
  "('c \<Rightarrow> egress_datagram list) \<Rightarrow> ('c \<Rightarrow> nat) \<Rightarrow> u16 \<Rightarrow> 'c viewer_egress \<Rightarrow> bool" where
  "egress_inv items cap budget eg \<longleftrightarrow>
     depth_matches (ve_stream_depths eg) (egress_items items eg) \<and>
     (\<forall>sid. media_ms (of_stream sid (egress_items items eg)) \<le> unat budget) \<and>
     length (items (ve_channel eg)) \<le> cap (ve_channel eg) \<and>
     cap (ve_channel eg) < 2 ^ 32 - 2"

definition egress_pop ::
  "'c egress_api \<Rightarrow> u64 \<Rightarrow> 'c viewer_egress \<Rightarrow> egress_datagram option \<times> 'c viewer_egress" where
  "egress_pop api now eg =
     (let eg = egress_receive api eg in (ve_sending eg, snd (egress_send now eg)))"

lemma of_stream_append [simp]: "of_stream sid (ds @ es) = of_stream sid ds @ of_stream sid es"
  by (simp add: of_stream_def)

lemma of_stream_single [simp]: "of_stream sid [d] = (if eg_stream_id d = sid then [d] else [])"
  by (simp add: of_stream_def)

lemma of_stream_Nil [simp]: "of_stream sid [] = []"
  by (simp add: of_stream_def)

lemma of_stream_Cons [simp]:
  "of_stream sid (d # ds) = (if eg_stream_id d = sid then d # of_stream sid ds else of_stream sid ds)"
  by (simp add: of_stream_def)

lemma media_ms_simps [simp]:
  "media_ms [] = 0" "media_ms (d # ds) = unat (eg_media_duration_ms d) + media_ms ds"
  "media_ms (ds @ es) = media_ms ds + media_ms es"
  by (simp_all add: media_ms_def)

lemma length_of_stream_le: "length (of_stream sid ds) \<le> length ds"
  by (simp add: of_stream_def)

lemma depth_matches_stream:
  assumes "depth_matches (ve_stream_depths eg) ds"
  shows "unat (qd_queued_packets (egress_stream_depth sid eg)) = length (of_stream sid ds)"
    and "unat (qd_queued_media_ms (egress_stream_depth sid eg)) = media_ms (of_stream sid ds)"
  using assms entry_ok_default
  by (auto simp: depth_matches_def egress_stream_depth_def)

lemma unat_ucast_u16_u32: "unat (ucast x :: u32) = unat x" for x :: u16
  using unat_u16_less [of x] by (simp add: unsigned_ucast_eq take_bit_nat_eq_self)

lemma clamp_ucast_u16: "ucast (min (ucast x) (65535 :: u32)) = x" for x :: u16
proof -
  have "min (ucast x) 65535 = (ucast x :: u32)"
    using unat_u16_less [of x]
    by (intro min_absorb1) (simp add: word_le_nat_alt unat_ucast_u16_u32)
  moreover have "unat (ucast (ucast x :: u32) :: u16) = take_bit LENGTH(16) (unat (ucast x :: u32))"
    by (rule unsigned_ucast_eq)
  then have "unat (ucast (ucast x :: u32) :: u16) = unat x"
    unfolding unat_ucast_u16_u32 using unat_u16_less [of x] by (simp add: take_bit_nat_eq_self)
  ultimately show ?thesis by (metis unat_eqD)
qed

text \<open>Reserving accepts exactly within the budget and accounts for the datagram.\<close>

lemma try_reserve_matches:
  assumes m: "depth_matches lock ds" and B: "unat (B :: u16) < 65535"
    and len: "length ds < 2 ^ 32 - 1"
  shows "if media_ms (of_stream (eg_stream_id d) ds) + unat (eg_media_duration_ms d) \<le> unat B
    then \<exists>lock'. try_reserve_stream_depth (eg_stream_id d) (ucast (eg_media_duration_ms d))
        (ucast B) lock = (True, lock') \<and> depth_matches lock' (ds @ [d])
    else try_reserve_stream_depth (eg_stream_id d) (ucast (eg_media_duration_ms d)) (ucast B) lock =
        (False, lock)"
proof -
  let ?sid = "eg_stream_id d" and ?dur = "eg_media_duration_ms d"
  obtain depths where lock: "lock = Some depths"
    and all: "\<And>sid. entry_ok (bt_get depths sid) (of_stream sid ds)"
    using m by (auto simp: depth_matches_def)
  define current where
    "current = (case bt_get depths ?sid of None \<Rightarrow> depth_default | Some d \<Rightarrow> d)"
  have cur: "unat (qd_queued_packets current) = length (of_stream ?sid ds)"
    "unat (qd_queued_media_ms current) = media_ms (of_stream ?sid ds)"
    unfolding current_def by (rule entry_ok_default [OF all])+
  define next_ms where "next_ms = sat_add (qd_queued_media_ms current) ?dur"
  have next_ms: "unat next_ms = min (media_ms (of_stream ?sid ds) + unat ?dur) 65535"
    by (simp add: next_ms_def unat_sat_add_u16 cur)
  have test: "(ucast B :: u32) < ucast next_ms \<longleftrightarrow>
      \<not> media_ms (of_stream ?sid ds) + unat ?dur \<le> unat B"
    unfolding word_less_nat_alt unat_ucast_u16_u32 next_ms using B by linarith
  show ?thesis
  proof (cases "media_ms (of_stream ?sid ds) + unat ?dur \<le> unat B")
    case False
    then show ?thesis
      using test
      by (simp add: try_reserve_stream_depth_def lock Let_def clamp_ucast_u16
          flip: current_def next_ms_def)
  next
    case True
    let ?depth = "current\<lparr>qd_queued_packets := sat_add (qd_queued_packets current) 1,
        qd_queued_media_ms := next_ms\<rparr>"
    have reserve: "try_reserve_stream_depth ?sid (ucast ?dur) (ucast B) lock =
        (True, Some (bt_insert ?sid ?depth depths))"
      using True test
      by (simp add: try_reserve_stream_depth_def lock Let_def bt_entry_def clamp_ucast_u16
          flip: current_def next_ms_def)
    have "unat (sat_add (qd_queued_packets current) 1) = length (of_stream ?sid ds) + 1"
      using length_of_stream_le [of ?sid ds] len by (simp add: unat_sat_add cur)
    moreover have "unat next_ms = media_ms (of_stream ?sid ds) + unat ?dur"
      using next_ms True B by simp
    ultimately have "entry_ok (bt_get (bt_insert ?sid ?depth depths) sid) (of_stream sid (ds @ [d]))"
      for sid using all [of sid] by (simp add: entry_ok_Some)
    with reserve True show ?thesis by (auto simp: depth_matches_def)
  qed
qed

text \<open>Releasing takes one datagram of the stream, wherever it is, off the account.\<close>

lemma release_matches:
  assumes "depth_matches lock (ds @ d # es)"
  shows "depth_matches (release_stream_depth (eg_stream_id d) (eg_media_duration_ms d) lock) (ds @ es)"
proof -
  let ?sid = "eg_stream_id d" and ?dur = "eg_media_duration_ms d"
  obtain depths where lock: "lock = Some depths"
    and all: "\<And>sid. entry_ok (bt_get depths sid) (of_stream sid (ds @ d # es))"
    using assms by (auto simp: depth_matches_def)
  from entry_ok_ne [OF all [of ?sid]] obtain depth where depth: "bt_get depths ?sid = Some depth"
    and p: "unat (qd_queued_packets depth) = length (of_stream ?sid (ds @ es)) + 1"
    and ms: "unat (qd_queued_media_ms depth) = media_ms (of_stream ?sid (ds @ es)) + unat ?dur"
    by (auto simp: entry_ok_Some)
  define depth' where "depth' = depth\<lparr>
      qd_queued_packets := sat_sub (qd_queued_packets depth) 1,
      qd_queued_media_ms := sat_sub (qd_queued_media_ms depth) ?dur\<rparr>"
  have p': "unat (qd_queued_packets depth') = length (of_stream ?sid (ds @ es))"
    and ms': "unat (qd_queued_media_ms depth') = media_ms (of_stream ?sid (ds @ es))"
    using p ms by (simp_all add: depth'_def unat_sat_sub)
  have release: "release_stream_depth ?sid ?dur lock =
      (if qd_queued_packets depth' = 0 \<and> qd_queued_media_ms depth' = 0
       then Some (bt_remove ?sid depths) else Some (bt_insert ?sid depth' depths))"
    by (simp add: release_stream_depth_def lock depth Let_def depth'_def)
  have "qd_queued_packets depth' = 0 \<longleftrightarrow> unat (qd_queued_packets depth') = 0"
    by (metis unat_0 unat_eqD)
  then have zero: "qd_queued_packets depth' = 0 \<longleftrightarrow> of_stream ?sid (ds @ es) = []"
    unfolding p' by (rule trans) (rule length_0_conv)
  have other: "entry_ok (bt_get depths sid) (of_stream sid (ds @ es))" if "sid \<noteq> ?sid" for sid
    using all [of sid] that by simp
  show ?thesis
  proof (cases "of_stream ?sid (ds @ es) = []")
    case True
    then have "qd_queued_media_ms depth' = 0" using ms' by (intro unat_eqD) simp
    with True zero release have r: "release_stream_depth ?sid ?dur lock = Some (bt_remove ?sid depths)"
      by simp
    have "entry_ok (bt_get (bt_remove ?sid depths) sid) (of_stream sid (ds @ es))" for sid
      using True other [of sid] by (cases "sid = ?sid") (simp_all add: entry_ok_None)
    then show ?thesis unfolding depth_matches_def r by blast
  next
    case False
    then have "qd_queued_packets depth' \<noteq> 0" using zero by blast
    with release have r: "release_stream_depth ?sid ?dur lock = Some (bt_insert ?sid depth' depths)"
      by simp
    have "entry_ok (bt_get (bt_insert ?sid depth' depths) sid) (of_stream sid (ds @ es))" for sid
      using False other [of sid] p' ms' by (cases "sid = ?sid") (simp_all add: entry_ok_Some)
    then show ?thesis unfolding depth_matches_def r by blast
  qed
qed

text \<open>A failed offer leaves the account as it was: what was reserved is released.\<close>

lemma offer_datagram_spec:
  assumes spec: "mpsc_spec api items cap" and inv: "egress_inv items cap B eg"
    and B: "unat B < 65535" and offer: "offer_datagram api B d eg = (ok, eg')"
  shows "egress_inv items cap B eg' \<and>
    egress_items items eg' = (if ok then egress_items items eg @ [d] else egress_items items eg)"
proof -
  let ?ds = "egress_items items eg" and ?lock = "ve_stream_depths eg"
  have m: "depth_matches ?lock ?ds" and ms: "\<And>sid. media_ms (of_stream sid ?ds) \<le> unat B"
    and len: "length (items (ve_channel eg)) \<le> cap (ve_channel eg)"
    and cap: "cap (ve_channel eg) < 2 ^ 32 - 2"
    using inv by (auto simp: egress_inv_def)
  have "length ?ds \<le> Suc (length (items (ve_channel eg)))"
    by (simp add: egress_items_def split: option.split)
  with len cap have lends: "length ?ds < 2 ^ 32 - 1" by linarith
  note reserve = try_reserve_matches [OF m B lends, of d]
  show ?thesis
  proof (cases "media_ms (of_stream (eg_stream_id d) ?ds) + unat (eg_media_duration_ms d) \<le> unat B")
    case False
    with reserve offer have "ok = False" "eg' = eg"
      by (simp_all add: offer_datagram_def egress_try_reserve_media_def)
    with inv show ?thesis by simp
  next
    case True
    with reserve obtain lock' where lock': "try_reserve_stream_depth (eg_stream_id d)
        (ucast (eg_media_duration_ms d)) (ucast B) ?lock = (True, lock')"
      and m': "depth_matches lock' (?ds @ [d])" by auto
    obtain r c' where send: "chan_try_send api d (ve_channel eg) = (r, c')"
      by (cases "chan_try_send api d (ve_channel eg)")
    have c': "cap c' = cap (ve_channel eg)"
      "items c' = (if r = Sent then items (ve_channel eg) @ [d] else items (ve_channel eg))"
      "r = Sent \<Longrightarrow> length (items (ve_channel eg)) < cap (ve_channel eg)"
      using spec send unfolding mpsc_spec_def by blast+
    let ?sent = "eg\<lparr>ve_stream_depths := lock', ve_channel := c'\<rparr>"
    show ?thesis
    proof (cases "r = Sent")
      case sent: True
      then have eg': "ok = True" "eg' = ?sent"
        using offer lock' send by (simp_all add: offer_datagram_def egress_try_reserve_media_def)
      have ds': "egress_items items eg' = ?ds @ [d]"
        using sent c'(2) by (simp add: eg' egress_items_def)
      have "media_ms (of_stream sid (?ds @ [d])) \<le> unat B" for sid
        using ms [of sid] True by (cases "eg_stream_id d = sid") auto
      with m' ds' c' sent cap show ?thesis by (simp add: egress_inv_def eg')
    next
      case failed: False
      then have eg': "ok = False" "eg' = egress_release_media (eg_stream_id d)
          (eg_media_duration_ms d) ?sent"
        using offer lock' send
        by (cases r; simp add: offer_datagram_def egress_try_reserve_media_def)+
      have ds': "egress_items items eg' = ?ds"
        using failed c'(2) by (simp add: eg' egress_items_def egress_release_media_def)
      have "depth_matches (ve_stream_depths eg') ?ds"
        using release_matches [of lock' ?ds d "[]"] m' by (simp add: eg' egress_release_media_def)
      with ds' ms c' failed len cap show ?thesis
        using eg' by (simp add: egress_inv_def egress_release_media_def)
    qed
  qed
qed

lemma egress_receive_spec:
  assumes spec: "mpsc_spec api items cap" and inv: "egress_inv items cap B eg"
  shows "egress_inv items cap B (egress_receive api eg) \<and>
    egress_items items (egress_receive api eg) = egress_items items eg \<and>
    (ve_sending (egress_receive api eg) = None \<longrightarrow>
       egress_receive api eg = eg \<and> egress_items items eg = [])"
proof (cases "ve_sending eg")
  case (Some d)
  with inv show ?thesis by (simp add: egress_receive_def)
next
  case None
  obtain r c' where recv: "chan_recv api (ve_channel eg) = (r, c')"
    by (cases "chan_recv api (ve_channel eg)")
  have c': "cap c' = cap (ve_channel eg)"
    "items (ve_channel eg) = (case r of None \<Rightarrow> [] | Some d \<Rightarrow> [d]) @ items c'"
    "r = None \<longrightarrow> items (ve_channel eg) = [] \<and> c' = ve_channel eg"
    using spec recv unfolding mpsc_spec_def by blast+
  have eg': "egress_receive api eg = eg\<lparr>ve_channel := c', ve_sending := r\<rparr>"
    using None recv by (simp add: egress_receive_def)
  have ds': "egress_items items (egress_receive api eg) = egress_items items eg"
    using None c'(2) by (simp add: eg' egress_items_def)
  moreover have "egress_inv items cap B (egress_receive api eg)"
    using inv ds' c' by (auto simp: egress_inv_def eg' split: option.splits)
  moreover have "r = None \<Longrightarrow> egress_receive api eg = eg" using None c'(3) eg' by simp
  ultimately show ?thesis using None c'(3) eg' by (simp add: egress_items_def)
qed

lemma egress_send_spec:
  assumes inv: "egress_inv items cap B eg" and d: "ve_sending eg = Some d"
  shows "egress_inv items cap B (snd (egress_send now eg)) \<and>
    egress_items items eg = d # egress_items items (snd (egress_send now eg))"
proof -
  let ?eg = "snd (egress_send now eg)"
  have eg': "?eg = egress_release_media (eg_stream_id d) (eg_media_duration_ms d)
      (eg\<lparr>ve_sending := None\<rparr>)"
    using d by (simp add: egress_send_def Let_def)
  have ds: "egress_items items eg = d # items (ve_channel eg)"
    and ds': "egress_items items ?eg = items (ve_channel eg)"
    using d by (simp_all add: egress_items_def eg' egress_release_media_def)
  have "depth_matches (ve_stream_depths ?eg) (items (ve_channel eg))"
    using release_matches [of "ve_stream_depths eg" "[]" d "items (ve_channel eg)"] inv ds
    by (simp add: egress_inv_def eg' egress_release_media_def)
  moreover have "media_ms (of_stream sid (items (ve_channel eg))) \<le> unat B" for sid
  proof -
    have "media_ms (of_stream sid (d # items (ve_channel eg))) \<le> unat B"
      using inv ds unfolding egress_inv_def by metis
    then show ?thesis by (simp split: if_splits)
  qed
  ultimately show ?thesis
    using inv ds ds' by (simp add: egress_inv_def eg' egress_release_media_def)
qed

text \<open>The egress of a viewer keeps the contract of the router's queues, per stream.\<close>

lemma egress_budgeted_fifo:
  assumes spec: "mpsc_spec api items cap" and B: "unat B < 65535"
  shows "budgeted_fifo (egress_inv items cap B) (egress_items items) eg_stream_id
    (\<lambda>d. unat (eg_media_duration_ms d))
    (\<lambda>eg sid. unat (qd_queued_media_ms (egress_stream_depth sid eg))) (\<lambda>_. unat B)
    (offer_datagram api B) (egress_pop api now)"
proof
  fix eg eg' :: "'a viewer_egress" and d :: egress_datagram and ds :: "egress_datagram list" and sid
  have used: "unat (qd_queued_media_ms (egress_stream_depth sid eg)) =
      media_ms (of_stream sid (egress_items items eg))" if "egress_inv items cap B eg"
    using that by (intro depth_matches_stream(2)) (simp add: egress_inv_def)
  show "egress_inv items cap B eg \<Longrightarrow> unat (qd_queued_media_ms (egress_stream_depth sid eg)) =
      sum_list (map (\<lambda>d. unat (eg_media_duration_ms d))
        (filter (\<lambda>i. eg_stream_id i = sid) (egress_items items eg)))"
    using used by (simp add: media_ms_def of_stream_def)
  show "egress_inv items cap B eg \<Longrightarrow>
      unat (qd_queued_media_ms (egress_stream_depth sid eg)) \<le> unat B"
    using used by (simp add: egress_inv_def)
  show "egress_inv items cap B eg' \<and> egress_items items eg' = egress_items items eg @ [d] \<and>
      unat B = unat B"
    if "egress_inv items cap B eg" "offer_datagram api B d eg = (True, eg')"
    using offer_datagram_spec [OF spec that(1) B that(2)] by simp
  show "egress_inv items cap B eg' \<and> egress_items items eg' = egress_items items eg \<and>
      unat B = unat B"
    if "egress_inv items cap B eg" "offer_datagram api B d eg = (False, eg')"
    using offer_datagram_spec [OF spec that(1) B that(2)] by simp
  show "egress_pop api now eg = (None, eg)"
    if "egress_inv items cap B eg" "egress_items items eg = []"
  proof -
    note r = egress_receive_spec [OF spec that(1)]
    then have "egress_items items (egress_receive api eg) = []" using that(2) by simp
    then have none: "ve_sending (egress_receive api eg) = None"
      by (simp add: egress_items_def split: option.splits)
    with r show ?thesis by (simp add: egress_pop_def Let_def egress_send_def)
  qed
  show "\<exists>eg'. egress_pop api now eg = (Some d, eg') \<and> egress_inv items cap B eg' \<and>
      egress_items items eg' = ds \<and> unat B = unat B"
    if "egress_inv items cap B eg" "egress_items items eg = d # ds"
  proof -
    note r = egress_receive_spec [OF spec that(1)]
    with that(2) obtain d' where d': "ve_sending (egress_receive api eg) = Some d'" by fastforce
    from r have inv': "egress_inv items cap B (egress_receive api eg)" by simp
    from egress_send_spec [OF inv' d', of now] r that(2) d' show ?thesis
      by (simp add: egress_pop_def Let_def)
  qed
qed

definition egress_new :: "'c egress_api \<Rightarrow> nat \<Rightarrow> 'c viewer_egress" where
  "egress_new api capacity =
     \<lparr>ve_channel = chan_new api capacity, ve_stream_depths = Some bt_new, ve_sending = None\<rparr>"

lemma register_egress_get:
  "bt_get (mr_egress (register_egress api uid media)) =
     (bt_get (mr_egress media))(uid \<mapsto> egress_new api (mr_egress_queue_capacity media))"
  by (simp add: register_egress_def unregister_egress_def Let_def egress_new_def fun_eq_iff)

lemma egress_new_inv:
  assumes "mpsc_spec api items cap" and "capacity < 2 ^ 32 - 2"
  shows "egress_inv items cap B (egress_new api capacity)"
    and "egress_items items (egress_new api capacity) = []"
  using assms
  by (simp_all add: mpsc_spec_def egress_inv_def egress_new_def egress_items_def depth_matches_def
      entry_ok_def)

text \<open>
  C6. A viewer's egress queue: from registration on, whatever packets are offered and however the
  send task keeps up, what was accepted is what was sent followed by what still waits, in order;
  no stream ever holds more media time than the budget, and its depth is exactly the media time
  and the number of its waiting datagrams.
\<close>

theorem egress_fifo_within_budget:
  assumes "mpsc_spec api items cap" and "capacity < 2 ^ 32 - 2" and "unat B < 65535"
    and "fifo_run (offer_datagram api B) (egress_pop api now) ops (egress_new api capacity) =
      (accepted, sent, eg)"
  shows "accepted = sent @ egress_items items eg \<and>
    qd_queued_media_ms (egress_stream_depth sid eg) \<le> B \<and>
    unat (qd_queued_media_ms (egress_stream_depth sid eg)) =
      media_ms (of_stream sid (egress_items items eg)) \<and>
    unat (qd_queued_packets (egress_stream_depth sid eg)) =
      length (of_stream sid (egress_items items eg))"
proof -
  note fifo = egress_budgeted_fifo [OF assms(1,3), of now]
  note new = egress_new_inv [OF assms(1,2)]
  have inv: "egress_inv items cap B eg"
    using budgeted_fifo.run_inv [OF fifo new(1) assms(4)] by simp
  then have "depth_matches (ve_stream_depths eg) (egress_items items eg)"
    by (simp add: egress_inv_def)
  then show ?thesis
    using budgeted_fifo.run_fifo [OF fifo new(1) new(2) assms(4), of sid]
    by (simp add: depth_matches_stream word_le_nat_alt)
qed

text \<open>The channel as a list with its capacity: an instance of the specification.\<close>

definition list_channel :: "(egress_datagram list \<times> nat) egress_api" where
  "list_channel =
     \<lparr>chan_new = \<lambda>n. ([], n),
      chan_try_send = \<lambda>d (ds, n).
        if length ds < n then (Sent, (ds @ [d], n)) else (Full, (ds, n)),
      chan_recv = \<lambda>(ds, n). case ds of [] \<Rightarrow> (None, (ds, n)) | d # ds \<Rightarrow> (Some d, (ds, n))\<rparr>"

lemma list_channel_spec: "mpsc_spec list_channel fst snd"
  by (auto simp: mpsc_spec_def list_channel_def split: list.splits if_splits)

definition sample_datagram :: egress_datagram where
  "sample_datagram =
     \<lparr>eg_stream_id = 9, eg_packet = sample_media_packet, eg_media_duration_ms = 60\<rparr>"

theorem egress_fifo_within_budget_witness:
  "\<exists>accepted sent eg. fifo_run (offer_datagram list_channel 100) (egress_pop list_channel 5)
       [Some sample_datagram, Some sample_datagram, None] (egress_new list_channel 256) =
         (accepted, sent, eg) \<and>
     accepted = sent @ egress_items fst eg \<and> qd_queued_media_ms (egress_stream_depth 9 eg) \<le> 100"
proof -
  let ?run = "fifo_run (offer_datagram list_channel 100) (egress_pop list_channel 5)
       [Some sample_datagram, Some sample_datagram, None] (egress_new list_channel 256)"
  obtain accepted sent eg where run: "?run = (accepted, sent, eg)" by (cases ?run)
  from egress_fifo_within_budget [OF list_channel_spec _ _ run, of 9]
  have "accepted = sent @ egress_items fst eg \<and> qd_queued_media_ms (egress_stream_depth 9 eg) \<le> 100"
    by simp
  with run show ?thesis by blast
qed

section \<open>Forwarding\<close>

text \<open>The relay takes the packet: it comes from the stream's publisher, fits the stream, may speak.\<close>

definition admitted :: "control_state \<Rightarrow> user_id \<Rightarrow> media_packet \<Rightarrow> published_stream \<Rightarrow> bool" where
  "admitted st publisher_id packet x \<longleftrightarrow>
     st_publisher_id x = publisher_id \<and> st_codec x = h_codec (p_header packet) \<and>
     media_kind_packet_type (st_media_kind x) = h_packet_type (p_header packet) \<and>
     (st_media_kind x = Voice \<longrightarrow>
        voice_publisher_can_send st (h_room_stream_id (p_header packet)) publisher_id) \<and>
     (\<exists>bytes. packet_encode packet = Inr bytes)"

definition hears :: "control_state \<Rightarrow> published_stream \<Rightarrow> stream_id \<Rightarrow> user_id \<Rightarrow> bool" where
  "hears st x sid v \<longleftrightarrow>
     \<not> (st_media_kind x = Voice \<and>
       (case voice_state_for_stream st sid v of
          None \<Rightarrow> False | Some voice \<Rightarrow> vs_deafened voice))"

definition egress_datagram_of ::
  "media_packet \<Rightarrow> u64 \<Rightarrow> published_stream \<Rightarrow> u16 \<Rightarrow> egress_datagram" where
  "egress_datagram_of packet received x budget =
     \<lparr>eg_stream_id = h_room_stream_id (p_header packet),
      eg_packet = packet_for_egress packet received,
      eg_media_duration_ms = packet_media_duration_ms packet x budget\<rparr>"

definition receives ::
  "'c egress_api \<Rightarrow> u16 \<Rightarrow> user_id \<Rightarrow> (user_id \<Rightarrow> bool) \<Rightarrow> egress_datagram \<Rightarrow>
   (user_id, 'c viewer_egress) btree \<Rightarrow> user_id \<Rightarrow> bool" where
  "receives api B pub deaf d egresses v \<longleftrightarrow>
     v \<noteq> pub \<and> \<not> deaf v \<and>
     (\<exists>eg. bt_get egresses v = Some eg \<and> fst (offer_datagram api B d eg))"

lemma receives_insert:
  "v \<noteq> w \<Longrightarrow> receives api B pub deaf d (bt_insert w eg egresses) v = receives api B pub deaf d egresses v"
  by (simp add: receives_def)

lemma forward_loop_egress:
  "distinct subs \<Longrightarrow>
   bt_get (snd (forward_loop api B pub deaf d subs s egresses)) v =
     map_option (\<lambda>eg. if v \<in> set subs \<and> v \<noteq> pub \<and> \<not> deaf v then snd (offer_datagram api B d eg)
       else eg) (bt_get egresses v)"
proof (induction subs arbitrary: s egresses)
  case Nil
  then show ?case by (simp add: option.map_ident)
next
  case (Cons w subs)
  then show ?case
    by (cases "v = w"; cases "bt_get egresses w") (auto simp: split_beta option.map_ident)
qed

lemma forward_loop_queued:
  "distinct subs \<Longrightarrow>
   mfs_stream_id (fst (forward_loop api B pub deaf d subs s egresses)) = mfs_stream_id s \<and>
   mfs_queued (fst (forward_loop api B pub deaf d subs s egresses)) =
     mfs_queued s + of_nat (length (filter (receives api B pub deaf d egresses) subs))"
proof (induction subs arbitrary: s egresses)
  case (Cons w subs)
  have same: "filter (receives api B pub deaf d (bt_insert w eg egresses)) subs =
      filter (receives api B pub deaf d egresses) subs" for eg
    using Cons.prems by (intro filter_cong refl receives_insert) auto
  consider "w = pub" | "w \<noteq> pub" "bt_get egresses w = None"
    | eg where "w \<noteq> pub" "bt_get egresses w = Some eg" "deaf w"
    | eg where "w \<noteq> pub" "bt_get egresses w = Some eg" "\<not> deaf w" by fastforce
  then show ?case
  proof cases
    case 4
    then have "receives api B pub deaf d egresses w = fst (offer_datagram api B d eg)"
      by (simp add: receives_def)
    with 4 Cons same show ?thesis by (simp add: split_beta)
  qed (use Cons in \<open>simp_all add: receives_def\<close>)
qed simp

lemma forward_loop_total:
  "mfs_queued (fst (forward_loop api B pub deaf d subs s egresses)) +
   mfs_dropped (fst (forward_loop api B pub deaf d subs s egresses)) =
     mfs_queued s + mfs_dropped s + of_nat (length (filter (\<lambda>v. v \<noteq> pub) subs))"
proof (induction subs arbitrary: s egresses)
  case (Cons w subs)
  then show ?case by (cases "bt_get egresses w") (simp_all add: split_beta)
qed simp

lemma forward_media_admitted:
  assumes wf: "wf_state st"
    and x: "published_in (cs_rooms st) rid (h_room_stream_id (p_header packet)) x"
    and adm: "admitted st pub packet x"
  shows "forward_media_packet api st pub packet received media =
    (let sid = h_room_stream_id (p_header packet); B = mr_viewer_queue_budget_ms media;
         r = forward_loop api B pub (\<lambda>v. \<not> hears st x sid v)
           (egress_datagram_of packet received x B) (subscribers_for_stream st sid)
           \<lparr>mfs_stream_id = sid, mfs_queued = 0, mfs_dropped = 0\<rparr> (mr_egress media)
     in (fst r, media\<lparr>mr_egress := snd r\<rparr>))"
proof -
  have p: "published_stream st (h_room_stream_id (p_header packet)) = Some x"
    using published_stream_iff [OF wf_stateD(1) [OF wf]] x by blast
  show ?thesis
    using adm
    by (auto simp: forward_media_packet_def Let_def p admitted_def egress_datagram_of_def split_beta
        hears_def)
qed

lemma forward_media_refused:
  assumes wf: "wf_state st"
    and no: "\<And>rid x. published_in (cs_rooms st) rid (h_room_stream_id (p_header packet)) x \<Longrightarrow>
      \<not> admitted st pub packet x"
  shows "forward_media_packet api st pub packet received media =
    (dropped_summary (h_room_stream_id (p_header packet)), media)"
proof (cases "published_stream st (h_room_stream_id (p_header packet))")
  case None
  then show ?thesis by (simp add: forward_media_packet_def Let_def)
next
  case (Some x)
  then obtain rid where "published_in (cs_rooms st) rid (h_room_stream_id (p_header packet)) x"
    using published_stream_iff [OF wf_stateD(1) [OF wf]] by blast
  from no [OF this] Some show ?thesis
    by (auto simp: forward_media_packet_def Let_def admitted_def split: sum.splits)
qed

lemma distinct_set_single:
  assumes "distinct xs" and "set xs = {a}" shows "xs = [a]"
proof -
  have "length xs = 1" using distinct_card [OF assms(1)] assms(2) by simp
  then obtain b where "xs = [b]" by (auto simp: length_Suc_conv)
  with assms(2) show ?thesis by simp
qed

lemma find_room_iff:
  assumes "rooms_wf l rooms" and "bt_get rooms rid = Some r"
    and "bt_get (published_streams r) sid = Some x"
  shows "filter (\<lambda>r. bt_contains sid (published_streams r)) (bt_values rooms) = [r]"
proof -
  have sub: "set (filter (\<lambda>(k, r). bt_contains sid (published_streams r)) (bt_iter rooms)) = {(rid, r)}"
  proof (rule set_eqI)
    fix p :: "room_id \<times> room"
    obtain k r' where p: "p = (k, r')" by (cases p)
    have "k = rid \<and> r' = r" if "bt_get rooms k = Some r'" "bt_get (published_streams r') sid = Some y" for y
    proof -
      have "published_in rooms k sid y" "published_in rooms rid sid x"
        using that assms(2,3) by (auto simp: published_in_def)
      then have "k = rid" by (rule rooms_wfD(3) [OF assms(1)])
      with that assms(2) show ?thesis by simp
    qed
    then show "p \<in> set (filter (\<lambda>(k, r). bt_contains sid (published_streams r)) (bt_iter rooms)) \<longleftrightarrow>
        p \<in> {(rid, r)}"
      using assms(2,3) by (auto simp: p bt.in_iter_iff)
  qed
  moreover have "distinct (filter (\<lambda>(k, r). bt_contains sid (published_streams r)) (bt_iter rooms))"
    using bt.iter_distinct [of rooms] by (simp add: distinct_map)
  ultimately have "filter (\<lambda>(k, r). bt_contains sid (published_streams r)) (bt_iter rooms) = [(rid, r)]"
    by (metis distinct_set_single)
  then have "map snd (filter (\<lambda>(k, r). bt_contains sid (published_streams r)) (bt_iter rooms)) = [r]"
    by (simp only: list.map snd_conv)
  moreover have "filter P (map snd xs) = map snd (filter (\<lambda>(k, r). P r) xs)"
    for P and xs :: "(room_id \<times> room) list"
    by (induction xs) auto
  ultimately show ?thesis by (simp only: bt_values_def)
qed

lemma subscribers_for_stream_eq:
  assumes "rooms_wf l (cs_rooms st)" and "bt_get (cs_rooms st) rid = Some r"
    and "bt_get (published_streams r) sid = Some x"
  shows "subscribers_for_stream st sid = sorted_list_of_set (room_subscribers r sid)"
  unfolding subscribers_for_stream_def find_room_iff [OF assms]
  by (simp add: room_subscribers_def split: option.split)

lemma subscribers_published:
  assumes wf: "wf_state st" and x: "published_in (cs_rooms st) rid sid x"
  shows "set (subscribers_for_stream st sid) = {v. subscribed st rid sid v}"
    and "distinct (subscribers_for_stream st sid)"
proof -
  obtain r where r: "bt_get (cs_rooms st) rid = Some r" "bt_get (published_streams r) sid = Some x"
    using x by (auto simp: published_in_def)
  note eq = subscribers_for_stream_eq [OF wf_stateD(1) [OF wf] r]
  show "set (subscribers_for_stream st sid) = {v. subscribed st rid sid v}"
    using r(1) by (auto simp: eq subscribed_def)
  show "distinct (subscribers_for_stream st sid)" by (simp add: eq)
qed

text \<open>
  Forwarding obeys the rules: a packet that the relay does not admit (stream not published,
  sender not its publisher, wrong codec or packet type, muted or silent push-to-talk speaker, not
  encodable) changes no queue and counts as one drop.
\<close>

theorem forward_refuses:
  assumes "wf_state st"
    and "\<And>rid x. published_in (cs_rooms st) rid (h_room_stream_id (p_header packet)) x \<Longrightarrow>
      \<not> admitted st pub packet x"
  shows "forward_media_packet api st pub packet received media =
    (dropped_summary (h_room_stream_id (p_header packet)), media)"
  using assms by (rule forward_media_refused)

theorem forward_refuses_witness:
  "forward_media_packet list_channel sample_relay 2 sample_media_packet 5 media_relay_new =
     (dropped_summary 9, media_relay_new)"
proof -
  have "\<not> admitted sample_relay 2 sample_media_packet x"
    if "published_in (cs_rooms sample_relay) rid (h_room_stream_id (p_header sample_media_packet)) x"
    for rid x
    using that
    by (auto simp: published_in_def sample_relay_sel admitted_def sample_media_packet_def
        header_new_def split: if_splits)
  from forward_refuses [OF wf_sample_relay this] show ?thesis
    by (simp add: sample_media_packet_def header_new_def)
qed

text \<open>
  C4. Forwarding an admitted packet touches exactly the queues of the stream's subscribers other
  than the publisher that hear it, each by its own offer alone, so no viewer depends on another;
  the reply counts the accepted offers as queued and every other subscriber as dropped.
\<close>

theorem forward_reaches_viewers:
  assumes wf: "wf_state st"
    and x: "published_in (cs_rooms st) rid (h_room_stream_id (p_header packet)) x"
    and adm: "admitted st pub packet x"
    and fwd: "forward_media_packet api st pub packet received media = (summary, media')"
  shows "let sid = h_room_stream_id (p_header packet); B = mr_viewer_queue_budget_ms media;
       d = egress_datagram_of packet received x B;
       viewers = {v. subscribed st rid sid v} - {pub}
     in mr_viewer_queue_budget_ms media' = B \<and>
       (\<forall>v. bt_get (mr_egress media') v =
         map_option (\<lambda>eg. if v \<in> viewers \<and> hears st x sid v then snd (offer_datagram api B d eg) else eg)
           (bt_get (mr_egress media) v)) \<and>
       mfs_queued summary = of_nat (card {v \<in> viewers. hears st x sid v \<and>
         (\<exists>eg. bt_get (mr_egress media) v = Some eg \<and> fst (offer_datagram api B d eg))}) \<and>
       mfs_queued summary + mfs_dropped summary = of_nat (card viewers)"
proof -
  let ?sid = "h_room_stream_id (p_header packet)" and ?B = "mr_viewer_queue_budget_ms media"
  let ?d = "egress_datagram_of packet received x ?B"
  let ?subs = "subscribers_for_stream st ?sid" and ?deaf = "\<lambda>v. \<not> hears st x ?sid v"
  note subs = subscribers_published [OF wf x]
  let ?r = "forward_loop api ?B pub ?deaf ?d ?subs
      \<lparr>mfs_stream_id = ?sid, mfs_queued = 0, mfs_dropped = 0\<rparr> (mr_egress media)"
  have s: "summary = fst ?r" and m: "media' = media\<lparr>mr_egress := snd ?r\<rparr>"
    using fwd unfolding forward_media_admitted [OF wf x adm] by (simp_all add: Let_def)
  have card_filter: "length (filter P ?subs) = card {v. subscribed st rid ?sid v \<and> P v}" for P
    using distinct_card [OF distinct_filter [OF subs(2)], of P] subs(1) by simp
  have "bt_get (mr_egress media') v = map_option (\<lambda>eg. if v \<in> {v. subscribed st rid ?sid v} - {pub} \<and>
      hears st x ?sid v then snd (offer_datagram api ?B ?d eg) else eg) (bt_get (mr_egress media) v)" for v
    unfolding m by (simp add: forward_loop_egress [OF subs(2)] subs(1) cong: option.map_cong)
  moreover have "{v. subscribed st rid ?sid v \<and> receives api ?B pub ?deaf ?d (mr_egress media) v} =
      {v \<in> {v. subscribed st rid ?sid v} - {pub}. hears st x ?sid v \<and>
        (\<exists>eg. bt_get (mr_egress media) v = Some eg \<and> fst (offer_datagram api ?B ?d eg))}"
    by (auto simp: receives_def)
  moreover have "{v. subscribed st rid ?sid v \<and> v \<noteq> pub} = {v. subscribed st rid ?sid v} - {pub}"
    by auto
  ultimately show ?thesis
    unfolding Let_def s
    using forward_loop_queued [OF subs(2), of api ?B pub ?deaf ?d _ "mr_egress media"]
      forward_loop_total [of api ?B pub ?deaf ?d ?subs _ "mr_egress media"]
    by (simp add: card_filter m)
qed

lemma sample_admitted: "admitted sample_relay 1 sample_media_packet sample_stream"
proof -
  have "packet_encode sample_media_packet = Inr (header_encode (p_header sample_media_packet) @ [])"
    by (simp add: packet_encode_Inr sample_media_packet_def header_new_def header_validate_def)
  then show ?thesis by (auto simp: admitted_def sample_media_packet_def header_new_def)
qed

definition sample_media :: "(egress_datagram list \<times> nat) media_relay" where
  "sample_media = register_egress list_channel 2 media_relay_new"

theorem forward_reaches_viewers_witness:
  "let r = forward_media_packet list_channel sample_relay 1 sample_media_packet 5 sample_media
   in mfs_queued (fst r) + mfs_dropped (fst r) = 1"
proof -
  let ?r = "forward_media_packet list_channel sample_relay 1 sample_media_packet 5 sample_media"
  have sid: "h_room_stream_id (p_header sample_media_packet) = 9"
    by (simp add: sample_media_packet_def header_new_def)
  have viewers: "{v. subscribed sample_relay 1 9 v} - {1} = {2}"
    by (auto simp: subscribed_def room_subscribers_def)
  have pub: "published_in (cs_rooms sample_relay) 1
      (h_room_stream_id (p_header sample_media_packet)) sample_stream"
    unfolding sid by (rule sample_published)
  have "?r = (fst ?r, snd ?r)" by simp
  from forward_reaches_viewers [OF wf_sample_relay pub sample_admitted this]
  have "mfs_queued (fst ?r) + mfs_dropped (fst ?r) = of_nat (card {2 :: user_id})"
    unfolding sid viewers Let_def by (elim conjE)
  then show ?thesis by (simp add: Let_def)
qed

section \<open>What a viewer receives\<close>

definition relayed :: "media_packet \<Rightarrow> u64 \<Rightarrow> u64 \<Rightarrow> media_packet" where
  "relayed packet received sent =
     packet\<lparr>p_header := (p_header packet)\<lparr>h_server_receive_time_micros := received,
       h_server_send_time_micros := sent\<rparr>\<rparr>"

lemma relayed_sel [simp]:
  "p_payload (relayed packet received sent) = p_payload packet"
  "h_payload_length (p_header (relayed packet received sent)) = h_payload_length (p_header packet)"
  "h_version (p_header (relayed packet received sent)) = h_version (p_header packet)"
  "header_validate (p_header (relayed packet received sent)) = header_validate (p_header packet)"
  by (simp_all add: relayed_def header_validate_def)

lemma egress_send_relayed:
  assumes "ve_sending eg = Some (egress_datagram_of packet received x B)"
    and "packet_encode packet = Inr bytes"
  shows "fst (egress_send now eg) =
    Some (header_encode (p_header (relayed packet received now)) @ p_payload packet)"
proof -
  let ?p = "(packet_for_egress packet received)\<lparr>p_header :=
      (p_header (packet_for_egress packet received))\<lparr>h_server_send_time_micros := now\<rparr>\<rparr>"
  have p: "?p = relayed packet received now" by (simp add: packet_for_egress_def relayed_def)
  have "packet_encode (relayed packet received now) =
      Inr (header_encode (p_header (relayed packet received now)) @ p_payload packet)"
    using assms(2) by (simp add: packet_encode_Inr)
  then show ?thesis using assms(1) p by (simp add: egress_send_def Let_def egress_datagram_of_def)
qed

text \<open>
  C8. End to end: when the relay decodes a publisher's datagram and forwards it, the datagram a
  viewer's send task emits decodes to the same packet, header and payload, with the relay's receive
  and send times filled in, and has the length of the original packet.
\<close>

theorem viewer_receives_packet:
  assumes "packet_decode bytes = Inr packet"
    and "ve_sending eg = Some (egress_datagram_of packet received x B)"
    and "packet_encode packet = Inr original"
  shows "\<exists>bytes'. fst (egress_send now eg) = Some bytes' \<and>
    packet_decode bytes' = Inr (relayed packet received now) \<and> length bytes' = length original"
proof -
  obtain d where "header_decode bytes = Inr d" and p: "p_header packet = d_header d"
    using assms(1) by (auto simp: packet_decode_def and_then_Inr Let_def split: if_splits)
  then have "h_version (p_header packet) = PROTOCOL_VERSION" using header_decode_Inr by simp
  moreover have "packet_encode (relayed packet received now) =
      Inr (header_encode (p_header (relayed packet received now)) @ p_payload packet)"
    using assms(3) by (simp add: packet_encode_Inr)
  moreover have "length original = MEDIA_PACKET_HEADER_LEN + length (p_payload packet)"
    using assms(3) by (simp add: packet_encode_Inr)
  ultimately show ?thesis
    using egress_send_relayed [OF assms(2,3), of now]
      packet_decode_encode [of "relayed packet received now"] by simp
qed

theorem viewer_receives_packet_witness:
  "\<exists>bytes'. fst (egress_send 11 (egress_new list_channel 4\<lparr>ve_sending :=
      Some (egress_datagram_of sample_packet 7 sample_stream 100)\<rparr>)) = Some bytes' \<and>
    packet_decode bytes' = Inr (relayed sample_packet 7 11)"
proof -
  let ?eg = "egress_new list_channel 4\<lparr>ve_sending :=
      Some (egress_datagram_of sample_packet 7 sample_stream 100)\<rparr>"
  have "packet_decode (header_encode (p_header sample_packet) @ [100, 97, 116, 97]) =
      Inr sample_packet"
    by (rule packet_decode_encode [OF sample_packet_encodes])
      (simp add: sample_packet_def header_new_def)
  moreover have "ve_sending ?eg = Some (egress_datagram_of sample_packet 7 sample_stream 100)"
    by simp
  ultimately show ?thesis
    using viewer_receives_packet [OF _ _ sample_packet_encodes, of _ ?eg] by blast
qed

end
