(* ===== verification/Runtime.thy ===== *)
theory Runtime
  imports Media Control_Ops
begin

text \<open>
  The relay process: its configuration (\<open>crates/relay-server/src/config.rs\<close>, the arguments of
  \<open>main.rs\<close>) and \<open>ControlRuntime\<close> of \<open>control_stream.rs\<close>, which runs one loop per connection
  and one task per control stream over the shared control state and media relay. The handlers
  are functions; how they interleave is the step relation \<open>sys_step\<close>. Parameters: \<open>api\<close>, the
  channel of the tokio package; \<open>de\<close>, the JSON reader; \<open>show_err\<close>, the text of its errors.
\<close>

section \<open>Configuration\<close>

record server_config =
  cfg_listen_addr :: rstring
  cfg_max_datagram_payload :: nat
  cfg_viewer_queue_budget_ms :: u16
  cfg_access_token :: "rstring option"
  cfg_control_limits :: control_limits

definition server_config_new :: "rstring \<Rightarrow> server_config" where
  "server_config_new listen_addr =
     \<lparr>cfg_listen_addr = listen_addr,
      cfg_max_datagram_payload = DEFAULT_DATAGRAM_PAYLOAD_TARGET,
      cfg_viewer_queue_budget_ms = 100, cfg_access_token = None,
      cfg_control_limits =
        \<lparr>max_rooms = DEFAULT_MAX_ROOMS,
         max_participants_per_room = DEFAULT_MAX_PARTICIPANTS_PER_ROOM,
         max_streams_per_room = DEFAULT_MAX_STREAMS_PER_ROOM\<rparr>\<rparr>"

definition config_with_access_token :: "rstring option \<Rightarrow> server_config \<Rightarrow> server_config" where
  "config_with_access_token access_token c = c\<lparr>cfg_access_token := access_token\<rparr>"

definition config_with_max_datagram_payload :: "nat \<Rightarrow> server_config \<Rightarrow> server_config" where
  "config_with_max_datagram_payload max_datagram_payload c =
     c\<lparr>cfg_max_datagram_payload := max max_datagram_payload 1\<rparr>"

definition config_with_control_limits :: "control_limits \<Rightarrow> server_config \<Rightarrow> server_config" where
  "config_with_control_limits limits c = c\<lparr>cfg_control_limits := limits_sanitized limits\<rparr>"

text \<open>The parsed command line of \<open>main.rs\<close> and the configuration it makes of it.\<close>

record args =
  arg_listen :: rstring
  arg_access_token :: "rstring option"
  arg_viewer_queue_budget_ms :: u16
  arg_max_datagram_payload :: nat
  arg_max_rooms :: nat
  arg_max_participants_per_room :: nat
  arg_max_streams_per_room :: nat

definition config_of_args :: "args \<Rightarrow> server_config" where
  "config_of_args a =
     (let c = server_config_new (arg_listen a);
          c = config_with_access_token (arg_access_token a) c;
          c = config_with_max_datagram_payload (arg_max_datagram_payload a) c;
          c = config_with_control_limits
            \<lparr>max_rooms = arg_max_rooms a,
             max_participants_per_room = arg_max_participants_per_room a,
             max_streams_per_room = arg_max_streams_per_room a\<rparr> c
      in c\<lparr>cfg_viewer_queue_budget_ms := max (arg_viewer_queue_budget_ms a) 1\<rparr>)"

section \<open>The runtime\<close>

definition CONTROL_STREAM_READ_LIMIT :: nat where "CONTROL_STREAM_READ_LIMIT = 64 * 1024"

record 'c control_runtime =
  rt_state :: control_state
  rt_media :: "'c media_relay"
  rt_next_session_id :: u64
  rt_max_datagram_payload :: nat

definition control_runtime_new :: "'c control_runtime" where
  "control_runtime_new =
     \<lparr>rt_state = control_state_new, rt_media = media_relay_new, rt_next_session_id = 1,
      rt_max_datagram_payload = DEFAULT_DATAGRAM_PAYLOAD_TARGET\<rparr>"

definition runtime_from_config :: "server_config \<Rightarrow> 'c control_runtime" where
  "runtime_from_config config =
     \<lparr>rt_state = (case cfg_access_token config of
          Some access_token \<Rightarrow>
            with_access_token_and_limits access_token (cfg_control_limits config)
        | None \<Rightarrow> with_limits (cfg_control_limits config)),
      rt_media = with_viewer_queue_budget_ms (cfg_viewer_queue_budget_ms config),
      rt_next_session_id = 1,
      rt_max_datagram_payload = max (cfg_max_datagram_payload config) 1\<rparr>"

definition handle_media_datagram ::
  "'c egress_api \<Rightarrow> session \<Rightarrow> bytes \<Rightarrow> u64 \<Rightarrow> u64 \<Rightarrow> 'c control_runtime \<Rightarrow> 'c control_runtime" where
  "handle_media_datagram api s bytes received_at_micros routed_at_micros rt =
     (if rt_max_datagram_payload rt < length bytes then rt
      else
        case sess_user_id s of
          None \<Rightarrow> rt
        | Some uid \<Rightarrow>
            if \<not> sess_access_granted s then rt
            else
              case packet_decode bytes of
                Inl _ \<Rightarrow> rt
              | Inr packet \<Rightarrow>
                  let (summary, media) =
                        forward_media_packet api (rt_state rt) uid packet received_at_micros
                          (rt_media rt);
                      server_route_ms = micros_delta_to_millis received_at_micros routed_at_micros;
                      st = record_media_forward_summary packet summary (length bytes)
                             received_at_micros server_route_ms (rt_state rt)
                  in rt\<lparr>rt_state := st, rt_media := media\<rparr>)"

definition handle_control_bytes ::
  "(bytes \<Rightarrow> 'j + client_envelope) \<Rightarrow> ('j control_codec_error \<Rightarrow> rstring) \<Rightarrow> u64 \<Rightarrow> u64 \<Rightarrow>
   session \<Rightarrow> bytes \<Rightarrow> 'c control_runtime \<Rightarrow> server_envelope \<times> session \<times> 'c control_runtime" where
  "handle_control_bytes de show_err now now' s bytes rt =
     (case decode_envelope de bytes of
        Inl error \<Rightarrow>
          (envelope_new 0 (Error (control_error_new (lit ''bad_control_message'') (show_err error))),
           s, rt)
      | Inr envelope \<Rightarrow>
          let (response, s, st) = handle_client_envelope now now' s envelope (rt_state rt);
              response =
                (case env_message response of
                   StreamMetrics metrics \<Rightarrow>
                     let depth = stream_egress_depth st (sms_stream_id metrics) (rt_media rt) in
                     response\<lparr>env_message := StreamMetrics (metrics\<lparr>
                       sms_egress_queue_packets := qd_queued_packets depth,
                       sms_egress_queue_media_ms := qd_queued_media_ms depth\<rparr>)\<rparr>
                 | _ \<Rightarrow> response)
          in (response, s, rt\<lparr>rt_state := st\<rparr>))"

text \<open>What a control task does once its request is answered: a greeted user gets an egress.\<close>

definition register_greeted ::
  "'c egress_api \<Rightarrow> session \<Rightarrow> server_envelope \<Rightarrow> 'c control_runtime \<Rightarrow> 'c control_runtime" where
  "register_greeted api s response rt =
     (case (env_message response, sess_user_id s) of
        (HelloAccepted _, Some uid) \<Rightarrow> rt\<lparr>rt_media := register_egress api uid (rt_media rt)\<rparr>
      | _ \<Rightarrow> rt)"

section \<open>Connections and tasks\<close>

text \<open>
  A control stream's task has read its request, or has answered it and not yet registered the
  user. A connection is served until its loop ends; then \<open>serve_connection\<close> reads the session's
  user, unregisters the egress and disconnects the user, each under its own lock. Tasks are
  spawned: they go on whatever the connection's loop does.
\<close>

datatype task = Received bytes | Answered server_envelope

datatype phase = Serving | Leaving "user_id option" | Unregistered user_id | Finished

record conn =
  cn_session :: session
  cn_phase :: phase
  cn_tasks :: "task list"

record 'c system =
  sy_runtime :: "'c control_runtime"
  sy_conns :: "conn list"

definition put_conn :: "nat \<Rightarrow> conn \<Rightarrow> 'c control_runtime \<Rightarrow> 'c system \<Rightarrow> 'c system" where
  "put_conn i c rt sys = sys\<lparr>sy_runtime := rt, sy_conns := (sy_conns sys)[i := c]\<rparr>"

definition put_egress :: "user_id \<Rightarrow> 'c viewer_egress \<Rightarrow> 'c system \<Rightarrow> 'c system" where
  "put_egress v eg sys =
     sys\<lparr>sy_runtime := (sy_runtime sys)\<lparr>rt_media := (rt_media (sy_runtime sys))\<lparr>mr_egress :=
       bt_insert v eg (mr_egress (rt_media (sy_runtime sys)))\<rparr>\<rparr>\<rparr>"

inductive sys_step ::
  "'c egress_api \<Rightarrow> (bytes \<Rightarrow> 'j + client_envelope) \<Rightarrow> ('j control_codec_error \<Rightarrow> rstring) \<Rightarrow>
   'c system \<Rightarrow> 'c system \<Rightarrow> bool"
  for api de show_err where
  connect:
    "sys_step api de show_err sys
       (sys\<lparr>sy_runtime := (sy_runtime sys)\<lparr>rt_next_session_id :=
              rt_next_session_id (sy_runtime sys) + 1\<rparr>,
            sy_conns := sy_conns sys @
              [\<lparr>cn_session = session_anonymous (rt_next_session_id (sy_runtime sys)),
                cn_phase = Serving, cn_tasks = []\<rparr>]\<rparr>)"
| accept:
    "i < length (sy_conns sys) \<Longrightarrow> sy_conns sys ! i = c \<Longrightarrow> cn_phase c = Serving \<Longrightarrow>
     length bytes \<le> CONTROL_STREAM_READ_LIMIT \<Longrightarrow>
     sys_step api de show_err sys
       (put_conn i (c\<lparr>cn_tasks := cn_tasks c @ [Received bytes]\<rparr>) (sy_runtime sys) sys)"
| handle:
    "i < length (sy_conns sys) \<Longrightarrow> sy_conns sys ! i = c \<Longrightarrow>
     cn_tasks c = ts @ Received bytes # ts' \<Longrightarrow>
     handle_control_bytes de show_err now now' (cn_session c) bytes (sy_runtime sys) =
       (response, s, rt) \<Longrightarrow>
     sys_step api de show_err sys
       (put_conn i (c\<lparr>cn_session := s, cn_tasks := ts @ Answered response # ts'\<rparr>) rt sys)"
| respond:
    "i < length (sy_conns sys) \<Longrightarrow> sy_conns sys ! i = c \<Longrightarrow>
     cn_tasks c = ts @ Answered response # ts' \<Longrightarrow>
     sys_step api de show_err sys
       (put_conn i (c\<lparr>cn_tasks := ts @ ts'\<rparr>)
         (register_greeted api (cn_session c) response (sy_runtime sys)) sys)"
| fail:
    "i < length (sy_conns sys) \<Longrightarrow> sy_conns sys ! i = c \<Longrightarrow> cn_tasks c = ts @ t # ts' \<Longrightarrow>
     sys_step api de show_err sys
       (put_conn i (c\<lparr>cn_tasks := ts @ ts'\<rparr>) (sy_runtime sys) sys)"
| datagram:
    "i < length (sy_conns sys) \<Longrightarrow> sy_conns sys ! i = c \<Longrightarrow> cn_phase c = Serving \<Longrightarrow>
     sys_step api de show_err sys
       (put_conn i c
         (handle_media_datagram api (cn_session c) bytes received routed (sy_runtime sys)) sys)"
| leave:
    "i < length (sy_conns sys) \<Longrightarrow> sy_conns sys ! i = c \<Longrightarrow> cn_phase c = Serving \<Longrightarrow>
     sys_step api de show_err sys
       (put_conn i (c\<lparr>cn_phase := Leaving (sess_user_id (cn_session c))\<rparr>) (sy_runtime sys) sys)"
| leave_anonymous:
    "i < length (sy_conns sys) \<Longrightarrow> sy_conns sys ! i = c \<Longrightarrow> cn_phase c = Leaving None \<Longrightarrow>
     sys_step api de show_err sys (put_conn i (c\<lparr>cn_phase := Finished\<rparr>) (sy_runtime sys) sys)"
| unregister:
    "i < length (sy_conns sys) \<Longrightarrow> sy_conns sys ! i = c \<Longrightarrow> cn_phase c = Leaving (Some uid) \<Longrightarrow>
     sys_step api de show_err sys
       (put_conn i (c\<lparr>cn_phase := Unregistered uid\<rparr>)
         ((sy_runtime sys)\<lparr>rt_media := unregister_egress uid (rt_media (sy_runtime sys))\<rparr>) sys)"
| disconnect:
    "i < length (sy_conns sys) \<Longrightarrow> sy_conns sys ! i = c \<Longrightarrow> cn_phase c = Unregistered uid \<Longrightarrow>
     sys_step api de show_err sys
       (put_conn i (c\<lparr>cn_phase := Finished\<rparr>)
         ((sy_runtime sys)\<lparr>rt_state := disconnect_user uid (rt_state (sy_runtime sys))\<rparr>) sys)"
| egress_take:
    "bt_get (mr_egress (rt_media (sy_runtime sys))) v = Some eg \<Longrightarrow>
     sys_step api de show_err sys (put_egress v (egress_receive api eg) sys)"
| egress_emit:
    "bt_get (mr_egress (rt_media (sy_runtime sys))) v = Some eg \<Longrightarrow>
     sys_step api de show_err sys (put_egress v (snd (egress_send now eg)) sys)"

text \<open>Systems reachable in \<open>n\<close> steps from a start with configuration \<open>config\<close>.\<close>

definition system_start :: "server_config \<Rightarrow> 'c system" where
  "system_start config = \<lparr>sy_runtime = runtime_from_config config, sy_conns = []\<rparr>"

inductive sys_reach ::
  "'c egress_api \<Rightarrow> (bytes \<Rightarrow> 'j + client_envelope) \<Rightarrow> ('j control_codec_error \<Rightarrow> rstring) \<Rightarrow>
   server_config \<Rightarrow> nat \<Rightarrow> 'c system \<Rightarrow> bool"
  for api de show_err config where
  start: "sys_reach api de show_err config 0 (system_start config)"
| step: "sys_reach api de show_err config n sys \<Longrightarrow> sys_step api de show_err sys sys' \<Longrightarrow>
    sys_reach api de show_err config (Suc n) sys'"

end
