(* ===== verification/Runtime_Props.thy ===== *)
theory Runtime_Props
  imports Runtime Media_Props
begin

text \<open>
  Properties of the running relay, by rule induction over its steps: the control state stays
  well-formed under every interleaving of connections and tasks, no two sessions share a user,
  and who can be left behind in a room after the connections are gone.
\<close>

section \<open>Counters and room ids\<close>

definition no_new_rooms :: "control_state \<Rightarrow> control_state \<Rightarrow> bool" where
  "no_new_rooms st st' \<longleftrightarrow>
     cs_next_room_id st' = cs_next_room_id st \<and> cs_next_user_id st' = cs_next_user_id st \<and>
     (\<forall>rid. bt_get (cs_rooms st') rid \<noteq> None \<longrightarrow> bt_get (cs_rooms st) rid \<noteq> None)"

lemma no_new_rooms_refl [simp]: "no_new_rooms st st"
  by (simp add: no_new_rooms_def)

lemma no_new_rooms_trans: "no_new_rooms st st' \<Longrightarrow> no_new_rooms st' st'' \<Longrightarrow> no_new_rooms st st''"
  unfolding no_new_rooms_def by simp

lemma no_new_rooms_fields:
  "cs_rooms st' = cs_rooms st \<Longrightarrow> cs_next_room_id st' = cs_next_room_id st \<Longrightarrow>
   cs_next_user_id st' = cs_next_user_id st \<Longrightarrow> no_new_rooms st st'"
  by (simp add: no_new_rooms_def)

lemma no_new_rooms_insert:
  "bt_get (cs_rooms st) rid \<noteq> None \<Longrightarrow> cs_rooms st' = bt_insert rid r (cs_rooms st) \<Longrightarrow>
   cs_next_room_id st' = cs_next_room_id st \<Longrightarrow> cs_next_user_id st' = cs_next_user_id st \<Longrightarrow>
   no_new_rooms st st'"
  by (auto simp: no_new_rooms_def)

lemma no_new_rooms_leave: "no_new_rooms st (leave_room uid rid st)"
proof (cases "bt_get (cs_rooms st) rid")
  case None
  then show ?thesis by (simp add: leave_room_absent)
next
  case (Some r)
  then show ?thesis
    by (auto simp: leave_room_eq [OF Some] Let_def no_new_rooms_def bt_get_put_room)
qed

lemma no_new_rooms_fold_leave: "no_new_rooms st (fold (leave_room uid) rids st)"
proof (induction rids arbitrary: st)
  case (Cons rid rids)
  show ?case using no_new_rooms_trans [OF no_new_rooms_leave Cons.IH] by simp
qed simp

lemma no_new_rooms_disconnect: "no_new_rooms st (disconnect_user uid st)"
proof -
  have "no_new_rooms (fold (leave_room uid) (affected_rooms uid st) st) (disconnect_user uid st)"
    by (rule no_new_rooms_fields)
      (simp_all add: disconnect_user_sel disconnect_user_def Let_def affected_rooms_def)
  with no_new_rooms_fold_leave show ?thesis by (rule no_new_rooms_trans)
qed

lemma no_new_rooms_update_target: "no_new_rooms st (update_stream_target sid b f w h st)"
proof (cases rule: update_stream_target_cases [of st sid b f w h])
  case (present rid r s)
  then show ?thesis by (intro no_new_rooms_insert [of st rid]) simp_all
qed simp

lemma no_new_rooms_handlers:
  "no_new_rooms st (snd (unpublish_stream s m1 st))"
  "no_new_rooms st (snd (set_stream_config s m2 st))"
  "no_new_rooms st (snd (set_target_bitrate s m3 st))"
  "no_new_rooms st (snd (set_target_framerate s m4 st))"
  "no_new_rooms st (snd (set_voice_state s m6 st))"
  "no_new_rooms st (snd (request_keyframe s m7 st))"
  "no_new_rooms st (snd (send_remote_input now s m8 st))"
  "no_new_rooms st (snd (poll_remote_input s m9 st))"
  "no_new_rooms st (snd (handle_viewer_stats s m10 st))"
  "no_new_rooms st (snd (handle_join_room s m11 st))"
  "no_new_rooms st (snd (handle_publish_stream s m12 st))"
  "no_new_rooms st (snd (handle_subscribe_stream s m13 st))"
  "no_new_rooms st (snd (handle_unsubscribe_stream s m14 st))"
  "no_new_rooms st (snd (handle_leave_room s m15 st))"
proof -
  show "no_new_rooms st (snd (unpublish_stream s m1 st))"
  proof (cases rule: unpublish_stream_cases [of s m1 st])
    case (ok uid r stream)
    then show ?thesis
      unfolding unpublish_stream_ok [OF ok] by (auto simp: Let_def no_new_rooms_def bt_get_put_room)
  qed simp
  show "no_new_rooms st (snd (set_stream_config s m2 st))"
    by (auto simp: set_stream_config_def Let_def split_beta no_new_rooms_def split: option.split)
  show "no_new_rooms st (snd (set_target_bitrate s m3 st))"
    "no_new_rooms st (snd (set_target_framerate s m4 st))"
    by (simp_all add: set_target_bitrate_def set_target_framerate_def Let_def
        no_new_rooms_update_target split: option.split)
  show "no_new_rooms st (snd (set_voice_state s m6 st))"
    "no_new_rooms st (snd (request_keyframe s m7 st))"
    "no_new_rooms st (snd (handle_viewer_stats s m10 st))"
    by (auto simp: set_voice_state_def request_keyframe_def register_keyframe_request_def
        handle_viewer_stats_def Let_def no_new_rooms_def split: option.split)
  show "no_new_rooms st (snd (send_remote_input now s m8 st))"
    by (cases rule: send_remote_input_cases [of now s m8 st])
      (simp_all add: Let_def no_new_rooms_def)
  show "no_new_rooms st (snd (poll_remote_input s m9 st))"
    by (rule no_new_rooms_fields)
      (simp_all add: poll_remote_input_def Let_def split_beta split: option.split)
  show "no_new_rooms st (snd (handle_join_room s m11 st))"
    "no_new_rooms st (snd (handle_publish_stream s m12 st))"
    "no_new_rooms st (snd (handle_subscribe_stream s m13 st))"
    "no_new_rooms st (snd (handle_unsubscribe_stream s m14 st))"
    by (auto simp: handle_join_room_def handle_publish_stream_def handle_subscribe_stream_def
        handle_unsubscribe_stream_def Let_def split_beta no_new_rooms_def
        register_keyframe_request_def remove_viewer_stats_eq split: option.split)
  show "no_new_rooms st (snd (handle_leave_room s m15 st))"
    by (simp add: handle_leave_room_def no_new_rooms_leave split: option.split)
qed

lemma no_new_rooms_poll_feedback: "no_new_rooms st (snd (poll_publisher_feedback s rid sid st))"
proof -
  have *: "no_new_rooms st st''"
    if "no_new_rooms st st'" "cs_rooms st'' = cs_rooms st'"
      "cs_next_room_id st'' = cs_next_room_id st'" "cs_next_user_id st'' = cs_next_user_id st'"
    for st' st''
    using no_new_rooms_trans [OF that(1) no_new_rooms_fields [OF that(2-4)]] .
  show ?thesis
    by (auto simp: poll_publisher_feedback_def adaptive_publisher_feedback_def Let_def split_beta
        register_keyframe_request_def intro: * [OF no_new_rooms_update_target] no_new_rooms_fields
        split: option.split)
qed

text \<open>
  A message creates at most the room with the next room id and at most the user with the next
  user id, and it advances the counter when it does.
\<close>

definition counters_step :: "session \<Rightarrow> session \<Rightarrow> control_state \<Rightarrow> control_state \<Rightarrow> bool" where
  "counters_step s s' st st' \<longleftrightarrow>
     (cs_next_room_id st' = cs_next_room_id st \<or>
        cs_next_room_id st' = cs_next_room_id st + 1) \<and>
     (\<forall>rid. bt_get (cs_rooms st') rid \<noteq> None \<longrightarrow> bt_get (cs_rooms st) rid = None \<longrightarrow>
        rid = cs_next_room_id st \<and> cs_next_room_id st' = cs_next_room_id st + 1) \<and>
     (cs_next_user_id st' = cs_next_user_id st \<and> sess_user_id s' = sess_user_id s \<or>
      cs_next_user_id st' = cs_next_user_id st + 1 \<and> sess_user_id s = None \<and>
        sess_user_id s' = Some (cs_next_user_id st))"

lemma counters_step_no_new:
  "no_new_rooms st st' \<Longrightarrow> sess_user_id s' = sess_user_id s \<Longrightarrow> counters_step s s' st st'"
  unfolding no_new_rooms_def counters_step_def by auto

lemma counters_step_create:
  "counters_step s s st (snd (handle_create_room s m st))"
  by (auto simp: handle_create_room_def Let_def counters_step_def split: option.split if_splits)

lemma counters_step_hello:
  "counters_step s (fst (snd (handle_hello s m st))) st (snd (snd (handle_hello s m st)))"
  by (auto simp: handle_hello_def Let_def counters_step_def establish_identity_def
      update_display_name_def split: option.split)

lemma counters_step_dispatch:
  "counters_step s (fst (snd (dispatch now now' s st m))) st (snd (snd (dispatch now now' s st m)))"
proof (cases "(\<exists>h. m = Hello h) \<or> (\<exists>c. m = CreateRoom c)")
  case True
  then show ?thesis
    using counters_step_hello counters_step_create by (auto simp: keep_session_def)
next
  case False
  then have "sess_user_id (fst (snd (dispatch now now' s st m))) = sess_user_id s"
    by (auto intro: dispatch_session_user)
  moreover have "no_new_rooms st (snd (snd (dispatch now now' s st m)))"
    using False by (cases m) (simp_all add: keep_session_def no_new_rooms_handlers
        no_new_rooms_poll_feedback split_beta)
  ultimately show ?thesis by (intro counters_step_no_new)
qed

lemma counters_step_envelope:
  assumes "handle_client_envelope now now' s e st = (reply, s', st')"
  shows "counters_step s s' st st'"
proof -
  have "snd (handle_client_envelope now now' s e st) = (s', st')" using assms by simp
  then show ?thesis
    using counters_step_dispatch [of s now now' st "env_message e"]
      counters_step_no_new [of st st s s]
    by (auto simp: handle_client_envelope_state split: if_splits)
qed

section \<open>The control core as a transition system\<close>

text \<open>
  What the steps of the runtime do to the control state and the sessions, without tasks, locks
  and queues: nothing, a new session, one message, one media packet's statistics, or one
  disconnection.
\<close>

inductive core_step :: "control_state \<times> session list \<Rightarrow> control_state \<times> session list \<Rightarrow> bool" where
  idle: "core_step c c"
| opened: "core_step (st, ss) (st, ss @ [session_anonymous k])"
| message: "i < length ss \<Longrightarrow>
    handle_client_envelope now now' (ss ! i) e st = (reply, s', st') \<Longrightarrow>
    core_step (st, ss) (st', ss[i := s'])"
| media: "core_step (st, ss)
    (record_media_forward_summary packet summary ingress_bytes received route st, ss)"
| drop: "core_step (st, ss) (disconnect_user uid st, ss)"

definition core_of :: "'c system \<Rightarrow> control_state \<times> session list" where
  "core_of sys = (rt_state (sy_runtime sys), map cn_session (sy_conns sys))"

inductive_cases sys_stepE: "sys_step api de show_err sys sys'"

lemma core_of_put_conn:
  "core_of (put_conn i c rt sys) = (rt_state rt, (map cn_session (sy_conns sys))[i := cn_session c])"
  by (simp add: core_of_def put_conn_def map_update)

lemma core_of_put_egress: "core_of (put_egress v eg sys) = core_of sys"
  by (simp add: core_of_def put_egress_def)

lemma put_same_session:
  assumes "i < length (sy_conns sys)" "sy_conns sys ! i = c" "cn_session c' = cn_session c"
  shows "core_of (put_conn i c' rt sys) = (rt_state rt, snd (core_of sys))"
proof -
  have "(map cn_session (sy_conns sys))[i := cn_session c'] = map cn_session (sy_conns sys)"
    using assms by (metis length_map list_update_id nth_map)
  then show ?thesis by (simp add: core_of_put_conn) (simp add: core_of_def)
qed

lemma handle_control_bytes_core:
  assumes "handle_control_bytes de show_err now now' s bytes rt = (response, s', rt')"
  shows "(s' = s \<and> rt' = rt) \<or>
    (\<exists>e reply. handle_client_envelope now now' s e (rt_state rt) = (reply, s', rt_state rt'))"
proof (cases "decode_envelope de bytes")
  case (Inl err)
  with assms show ?thesis by (simp add: handle_control_bytes_def)
next
  case (Inr e)
  obtain reply s1 st1 where r: "handle_client_envelope now now' s e (rt_state rt) = (reply, s1, st1)"
    by (cases "handle_client_envelope now now' s e (rt_state rt)")
  with assms Inr have "s' = s1" "rt' = rt\<lparr>rt_state := st1\<rparr>"
    by (auto simp: handle_control_bytes_def Let_def)
  with r show ?thesis by auto
qed

lemma handle_media_datagram_core:
  "rt_state (handle_media_datagram api s bytes received routed rt) = rt_state rt \<or>
   (\<exists>packet summary n r route. rt_state (handle_media_datagram api s bytes received routed rt) =
      record_media_forward_summary packet summary n r route (rt_state rt))"
  by (auto simp: handle_media_datagram_def Let_def split_beta split: option.split sum.split) blast

lemma register_greeted_state [simp]: "rt_state (register_greeted api s response rt) = rt_state rt"
  by (simp add: register_greeted_def split: server_control.split option.split)

lemma sys_step_core:
  assumes "sys_step api de show_err sys sys'"
  shows "core_step (core_of sys) (core_of sys')"
proof -
  have same: "core_step (core_of sys) (core_of (put_conn i c' rt sys))"
    if "i < length (sy_conns sys)" "sy_conns sys ! i = c" "cn_session c' = cn_session c"
      "rt_state rt = rt_state (sy_runtime sys)" for i c c' rt
  proof -
    have "core_of (put_conn i c' rt sys) = core_of sys"
      unfolding put_same_session [OF that(1-3)] by (simp add: core_of_def that(4))
    then show ?thesis by (simp add: core_step.idle)
  qed
  from assms show ?thesis
  proof (cases rule: sys_step.cases)
    case connect
    then show ?thesis by (simp add: core_of_def core_step.opened)
  next
    case (handle i c ts bytes ts' now now' response s rt)
    let ?c = "c\<lparr>cn_session := s, cn_tasks := ts @ Answered response # ts'\<rparr>"
    have sess: "map cn_session (sy_conns sys) ! i = cn_session c" using handle by simp
    from handle_control_bytes_core [OF handle(5)] show ?thesis
    proof (elim disjE exE conjE)
      assume "s = cn_session c" "rt = sy_runtime sys"
      then show ?thesis using handle same [of i c ?c rt] by simp
    next
      fix e reply
      assume "handle_client_envelope now now' (cn_session c) e (rt_state (sy_runtime sys)) =
          (reply, s, rt_state rt)"
      then show ?thesis
        using handle(1,2) sess core_step.message [of i "map cn_session (sy_conns sys)" now now' e
            "rt_state (sy_runtime sys)" reply s "rt_state rt"]
        by (simp add: handle(1) core_of_put_conn) (simp add: core_of_def)
    qed
  next
    case (datagram i c bytes received routed)
    let ?rt = "handle_media_datagram api (cn_session c) bytes received routed (sy_runtime sys)"
    have core: "core_of sys' = (rt_state ?rt, snd (core_of sys))"
      unfolding datagram(1) by (rule put_same_session [OF datagram(2,3) refl])
    from handle_media_datagram_core [of api "cn_session c" bytes received routed "sy_runtime sys"]
    show ?thesis
      unfolding core by (auto simp: core_of_def intro: core_step.idle core_step.media)
  next
    case (disconnect i c uid)
    have core: "core_of sys' = (disconnect_user uid (rt_state (sy_runtime sys)), snd (core_of sys))"
      unfolding disconnect(1) by (subst put_same_session [OF disconnect(2,3)]) simp_all
    show ?thesis unfolding core by (simp add: core_of_def core_step.drop)
  qed (auto intro: same simp: core_of_put_egress core_step.idle)
qed

section \<open>The invariant of the core\<close>

definition core_inv :: "nat \<Rightarrow> control_state \<times> session list \<Rightarrow> bool" where
  "core_inv n = (\<lambda>(st, ss).
     wf_state st \<and>
     unat (cs_next_room_id st) \<le> n + 1 \<and> unat (cs_next_user_id st) \<le> n + 1 \<and>
     (\<forall>rid. bt_get (cs_rooms st) rid \<noteq> None \<longrightarrow> unat rid < unat (cs_next_room_id st)) \<and>
     (\<forall>i uid. i < length ss \<longrightarrow> sess_user_id (ss ! i) = Some uid \<longrightarrow>
        unat uid < unat (cs_next_user_id st)) \<and>
     (\<forall>i j uid. i < length ss \<longrightarrow> j < length ss \<longrightarrow> sess_user_id (ss ! i) = Some uid \<longrightarrow>
        sess_user_id (ss ! j) = Some uid \<longrightarrow> i = j))"

lemma core_inv_no_new:
  assumes "core_inv n (st, ss)" and "no_new_rooms st st'" and "wf_state st'"
  shows "core_inv (Suc n) (st', ss)"
  using assms unfolding core_inv_def no_new_rooms_def by auto

lemma unat_u64_Suc: "unat x < 2 ^ 64 - 1 \<Longrightarrow> unat (x + 1) = unat x + 1" for x :: u64
  by (simp add: unat_word_ariths)

lemma core_inv_message:
  assumes inv: "core_inv n (st, ss)" and n: "n < 2 ^ 64 - 2" and i: "i < length ss"
    and msg: "handle_client_envelope now now' (ss ! i) e st = (reply, s', st')"
  shows "core_inv (Suc n) (st', ss[i := s'])"
proof -
  note step = counters_step_envelope [OF msg]
  have cr: "unat (cs_next_room_id st) \<le> n + 1" and cu: "unat (cs_next_user_id st) \<le> n + 1"
    using inv by (simp_all add: core_inv_def)
  then have "unat (cs_next_room_id st) < 2 ^ 64 - 1" "unat (cs_next_user_id st) < 2 ^ 64 - 1"
    using n by simp_all
  then have nr: "unat (cs_next_room_id st + 1) = unat (cs_next_room_id st) + 1"
    and nu: "unat (cs_next_user_id st + 1) = unat (cs_next_user_id st) + 1"
    by (simp_all only: unat_u64_Suc)
  have wf: "wf_state st" and ids: "\<And>rid. bt_get (cs_rooms st) rid \<noteq> None \<Longrightarrow>
      unat rid < unat (cs_next_room_id st)"
    and less: "\<And>j uid. j < length ss \<Longrightarrow> sess_user_id (ss ! j) = Some uid \<Longrightarrow>
      unat uid < unat (cs_next_user_id st)"
    and inj: "\<And>j k uid. j < length ss \<Longrightarrow> k < length ss \<Longrightarrow> sess_user_id (ss ! j) = Some uid \<Longrightarrow>
      sess_user_id (ss ! k) = Some uid \<Longrightarrow> j = k"
    using inv unfolding core_inv_def by blast+
  have "bt_get (cs_rooms st) (cs_next_room_id st) = None" using ids by fastforce
  then have "wf_state (snd (snd (handle_client_envelope now now' (ss ! i) e st)))"
    using wf by (simp add: handle_client_envelope_state wf_dispatch)
  then have wf': "wf_state st'" using msg by simp
  have grow: "unat (cs_next_room_id st) \<le> unat (cs_next_room_id st')"
    "unat (cs_next_room_id st') \<le> Suc n + 1"
    using step nr cr unfolding counters_step_def by auto
  have ids': "unat rid < unat (cs_next_room_id st')" if "bt_get (cs_rooms st') rid \<noteq> None" for rid
  proof (cases "bt_get (cs_rooms st) rid = None")
    case True
    with step that have "rid = cs_next_room_id st" "cs_next_room_id st' = cs_next_room_id st + 1"
      unfolding counters_step_def by blast+
    with nr show ?thesis by simp
  next
    case False
    with ids grow(1) show ?thesis by (meson order_less_le_trans)
  qed
  have users: "unat (cs_next_user_id st') \<le> Suc n + 1 \<and>
      (\<forall>j uid. j < length ss \<longrightarrow> sess_user_id (ss[i := s'] ! j) = Some uid \<longrightarrow>
        unat uid < unat (cs_next_user_id st')) \<and>
      (\<forall>j k uid. j < length ss \<longrightarrow> k < length ss \<longrightarrow> sess_user_id (ss[i := s'] ! j) = Some uid \<longrightarrow>
        sess_user_id (ss[i := s'] ! k) = Some uid \<longrightarrow> j = k)"
  proof (cases "sess_user_id s' = sess_user_id (ss ! i)")
    case True
    then have same: "sess_user_id (ss[i := s'] ! j) = sess_user_id (ss ! j)" if "j < length ss" for j
      using that by (cases "j = i") auto
    have "unat (cs_next_user_id st) \<le> unat (cs_next_user_id st') \<and>
        unat (cs_next_user_id st') \<le> Suc n + 1"
      using step nu cu unfolding counters_step_def by auto
    then show ?thesis using same less inj by (metis order_less_le_trans)
  next
    case False
    with step have new: "cs_next_user_id st' = cs_next_user_id st + 1"
      "sess_user_id s' = Some (cs_next_user_id st)"
      unfolding counters_step_def by auto
    have fresh: "sess_user_id (ss ! j) \<noteq> Some (cs_next_user_id st)" if "j < length ss" for j
      using less [OF that] by blast
    have "unat (cs_next_user_id st') \<le> Suc n + 1" using new nu cu by simp
    moreover have at: "sess_user_id (ss[i := s'] ! j) =
        (if j = i then Some (cs_next_user_id st) else sess_user_id (ss ! j))" if "j < length ss" for j
      using that new(2) by simp
    moreover have "unat uid < unat (cs_next_user_id st')"
      if "j < length ss" "sess_user_id (ss[i := s'] ! j) = Some uid" for j uid
    proof (cases "j = i")
      case True
      with at [OF that(1)] that(2) new(1) nu show ?thesis by simp
    next
      case False
      with at [OF that(1)] that(2) have "sess_user_id (ss ! j) = Some uid" by simp
      with less [OF that(1)] new(1) nu show ?thesis by fastforce
    qed
    moreover have "j = k"
      if "j < length ss" "k < length ss" "sess_user_id (ss[i := s'] ! j) = Some uid"
        "sess_user_id (ss[i := s'] ! k) = Some uid" for j k uid
      using at [OF that(1)] at [OF that(2)] that fresh inj by (metis (full_types))
    ultimately show ?thesis by blast
  qed
  show ?thesis using wf' grow(2) ids' users by (simp add: core_inv_def)
qed

lemma core_inv_step:
  assumes "core_inv n c" and "n < 2 ^ 64 - 2" and "core_step c c'"
  shows "core_inv (Suc n) c'"
  using assms(3)
proof (cases rule: core_step.cases)
  case idle
  with assms(1) show ?thesis unfolding core_inv_def by auto
next
  case (opened st ss k)
  have anon: "sess_user_id (session_anonymous k) = None" by (simp add: session_anonymous_def)
  show ?thesis
    using assms(1) unfolding opened core_inv_def
    by (auto simp: nth_append less_Suc_eq anon split: if_splits)
next
  case (message i ss now now' e st reply s' st')
  with core_inv_message [OF _ assms(2)] assms(1) show ?thesis by simp
next
  case (media st ss packet summary ingress_bytes received route)
  have "no_new_rooms st (record_media_forward_summary packet summary ingress_bytes received route st)"
    by (simp add: record_media_forward_summary_def Let_def no_new_rooms_def)
  moreover have "wf_state st" using assms(1) by (simp add: media core_inv_def)
  ultimately show ?thesis
    using assms(1) unfolding media
    by (intro core_inv_no_new wf_record_media_forward_summary)
next
  case (drop st ss uid)
  moreover have "wf_state st" using assms(1) by (simp add: drop core_inv_def)
  ultimately show ?thesis
    using assms(1) by (auto intro: core_inv_no_new no_new_rooms_disconnect wf_disconnect_user)
qed

lemma wf_runtime_from_config: "wf_state (rt_state (runtime_from_config config))"
  by (simp add: runtime_from_config_def wf_with_limits wf_initial_token split: option.split)

lemma core_inv_start: "core_inv 0 (core_of (system_start config :: 'c system))"
proof -
  let ?rt = "runtime_from_config config :: 'c control_runtime"
  have "cs_next_room_id (rt_state ?rt) = 1" "cs_next_user_id (rt_state ?rt) = 1"
    "cs_rooms (rt_state ?rt) = bt_new"
    by (simp_all add: runtime_from_config_def with_access_token_and_limits_def with_limits_def
        control_state_new_def split: option.split)
  with wf_runtime_from_config [of config, where ?'a = 'c] show ?thesis
    by (simp add: core_inv_def core_of_def system_start_def)
qed

lemma sys_reach_inv:
  assumes "sys_reach api de show_err config n sys"
  shows "n < 2 ^ 64 - 1 \<longrightarrow> core_inv n (core_of sys)"
  using assms
proof induction
  case start
  show ?case by (simp add: core_inv_start)
next
  case (step n sys sys')
  then show ?case using core_inv_step [OF _ _ sys_step_core [OF step.hyps(2)]] by simp
qed

text \<open>
  C1. The relay never leaves its invariant: from any configuration, after any interleaving of
  connections, control messages, media packets and disconnections (fewer steps than ids in the
  64-bit counters), the control state is well-formed and no two sessions have the same user.
\<close>

theorem relay_invariant:
  assumes "sys_reach api de show_err config n sys" and "n < 2 ^ 64 - 1"
  shows "wf_state (rt_state (sy_runtime sys)) \<and>
    (\<forall>i j uid. i < length (sy_conns sys) \<longrightarrow> j < length (sy_conns sys) \<longrightarrow>
       sess_user_id (cn_session (sy_conns sys ! i)) = Some uid \<longrightarrow>
       sess_user_id (cn_session (sy_conns sys ! j)) = Some uid \<longrightarrow> i = j)"
proof -
  have "core_inv n (core_of sys)" using sys_reach_inv [OF assms(1)] assms(2) by blast
  then have "wf_state (rt_state (sy_runtime sys))"
    and inj: "\<And>i j uid. i < length (sy_conns sys) \<Longrightarrow> j < length (sy_conns sys) \<Longrightarrow>
       sess_user_id (map cn_session (sy_conns sys) ! i) = Some uid \<Longrightarrow>
       sess_user_id (map cn_session (sy_conns sys) ! j) = Some uid \<Longrightarrow> i = j"
    unfolding core_inv_def core_of_def split length_map by blast+
  then show ?thesis by simp
qed

section \<open>Who stays behind\<close>

text \<open>
  An orderly run: no connection stops being served while one of its control tasks is pending. The
  code does not enforce it.
\<close>

definition orderly :: "'c system \<Rightarrow> bool" where
  "orderly sys \<longleftrightarrow> (\<forall>c \<in> set (sy_conns sys). cn_phase c \<noteq> Serving \<longrightarrow> cn_tasks c = [])"

inductive orderly_reach ::
  "'c egress_api \<Rightarrow> (bytes \<Rightarrow> 'j + client_envelope) \<Rightarrow> ('j control_codec_error \<Rightarrow> rstring) \<Rightarrow>
   server_config \<Rightarrow> nat \<Rightarrow> 'c system \<Rightarrow> bool"
  for api de show_err config where
  start: "orderly_reach api de show_err config 0 (system_start config)"
| step: "orderly_reach api de show_err config n sys \<Longrightarrow> sys_step api de show_err sys sys' \<Longrightarrow>
    orderly sys' \<Longrightarrow> orderly_reach api de show_err config (Suc n) sys'"

text \<open>\<open>uid\<close> belongs to a connection whose \<open>serve_connection\<close> has not finished.\<close>

definition live :: "conn list \<Rightarrow> user_id \<Rightarrow> bool" where
  "live conns uid \<longleftrightarrow>
     (\<exists>i < length conns. sess_user_id (cn_session (conns ! i)) = Some uid \<and>
        cn_phase (conns ! i) \<noteq> Finished)"

definition phase_ok :: "conn \<Rightarrow> bool" where
  "phase_ok c \<longleftrightarrow>
     (case cn_phase c of
        Leaving uo \<Rightarrow> uo = sess_user_id (cn_session c)
      | Unregistered uid \<Rightarrow> sess_user_id (cn_session c) = Some uid
      | _ \<Rightarrow> True)"

definition no_ghosts :: "control_state \<Rightarrow> conn list \<Rightarrow> bool" where
  "no_ghosts st conns \<longleftrightarrow>
     (\<forall>rid uid. member st rid uid \<longrightarrow> live conns uid) \<and> (\<forall>c \<in> set conns. phase_ok c)"

lemma live_update:
  assumes "i < length conns" and "live conns uid"
    and "sess_user_id (cn_session (conns ! i)) = Some uid \<Longrightarrow> cn_phase (conns ! i) \<noteq> Finished \<Longrightarrow>
      sess_user_id (cn_session c) = Some uid \<and> cn_phase c \<noteq> Finished"
  shows "live (conns[i := c]) uid"
proof -
  from assms(2) obtain j where j: "j < length conns"
    "sess_user_id (cn_session (conns ! j)) = Some uid" "cn_phase (conns ! j) \<noteq> Finished"
    by (auto simp: live_def)
  then have "sess_user_id (cn_session (conns[i := c] ! j)) = Some uid \<and>
      cn_phase (conns[i := c] ! j) \<noteq> Finished"
    using assms(1,3) by (cases "j = i") auto
  with j(1) show ?thesis unfolding live_def by (metis length_list_update)
qed

lemma live_append: "live conns uid \<Longrightarrow> live (conns @ cs) uid"
  unfolding live_def by (metis length_append nth_append trans_less_add1)

lemma no_ghosts_update:
  assumes "no_ghosts st conns" and "i < length conns" and "phase_ok c"
    and "\<And>rid uid. member st' rid uid \<Longrightarrow>
      live (conns[i := c]) uid"
  shows "no_ghosts st' (conns[i := c])"
  using assms set_update_subset_insert [of conns i c] unfolding no_ghosts_def by blast

lemma member_rooms: "cs_rooms st' = cs_rooms st \<Longrightarrow> member st' rid uid = member st rid uid"
  by (simp add: member_def)

lemma member_record [simp]:
  "member (record_media_forward_summary packet summary n r route st) rid uid = member st rid uid"
  by (simp add: member_def record_media_forward_summary_def Let_def)

lemma envelope_membership:
  assumes wf: "wf_state st" and fresh: "bt_get (cs_rooms st) (cs_next_room_id st) = None"
    and msg: "handle_client_envelope now now' s e st = (reply, s', st')"
    and mem: "member st' rid v"
  shows "sess_user_id s' = Some v \<or> member st rid v \<and> sess_user_id s \<noteq> Some v"
proof (cases "sess_user_id s'")
  case None
  have "sess_user_id s = None"
    using counters_step_envelope [OF msg] None unfolding counters_step_def by auto
  then have "\<not> may_control s st" by (simp add: may_control_def)
  from no_access_effect [OF this msg]
  have "cs_rooms (forget_names st') = cs_rooms (forget_names st)" by simp
  then have "cs_rooms st' = cs_rooms st" by (simp add: forget_names_def)
  then show ?thesis using mem \<open>sess_user_id s = None\<close> by (simp add: member_def)
next
  case (Some uid)
  have "snd (handle_client_envelope now now' s e st) = (s', st')" using msg by simp
  then have "same_for_others uid st st'"
    using others_dispatch [OF wf fresh, of now now' s "env_message e" uid] Some
    by (auto simp: handle_client_envelope_state split: if_splits)
  moreover have "sess_user_id s = None \<or> sess_user_id s = Some uid"
    using counters_step_envelope [OF msg] Some unfolding counters_step_def by auto
  ultimately show ?thesis using mem Some unfolding same_for_others_def by auto
qed

lemma no_ghosts_same_member:
  assumes ng: "no_ghosts st conns" and i: "i < length conns" and ok: "phase_ok c"
    and mem: "\<And>rid uid. member st' rid uid = member st rid uid"
    and keep: "\<And>uid. sess_user_id (cn_session (conns ! i)) = Some uid \<Longrightarrow>
      cn_phase (conns ! i) \<noteq> Finished \<Longrightarrow>
      sess_user_id (cn_session c) = Some uid \<and> cn_phase c \<noteq> Finished"
  shows "no_ghosts st' (conns[i := c])"
proof (rule no_ghosts_update [OF ng i ok])
  fix rid uid assume "member st' rid uid"
  then have "live conns uid" using ng mem unfolding no_ghosts_def by blast
  then show "live (conns[i := c]) uid" using keep by (intro live_update [OF i]) blast+
qed

lemma phase_ok_nth: "no_ghosts st conns \<Longrightarrow> i < length conns \<Longrightarrow> phase_ok (conns ! i)"
  by (simp add: no_ghosts_def)

abbreviation sys_state :: "'c system \<Rightarrow> control_state" where
  "sys_state sys \<equiv> rt_state (sy_runtime sys)"

lemma put_conn_sel [simp]:
  "sys_state (put_conn i c rt sys) = rt_state rt" "sy_conns (put_conn i c rt sys) = (sy_conns sys)[i := c]"
  by (simp_all add: put_conn_def)

lemma put_egress_sel [simp]:
  "sys_state (put_egress v eg sys) = sys_state sys" "sy_conns (put_egress v eg sys) = sy_conns sys"
  by (simp_all add: put_egress_def)

lemma no_ghosts_handle:
  assumes ng: "no_ghosts st conns" and wf: "wf_state st"
    and fresh: "bt_get (cs_rooms st) (cs_next_room_id st) = None"
    and i: "i < length conns" and serving: "cn_phase (conns ! i) = Serving"
    and msg: "handle_client_envelope now now' (cn_session (conns ! i)) e st = (reply, s', st')"
    and c: "cn_session c = s'" "cn_phase c = Serving"
  shows "no_ghosts st' (conns[i := c])"
proof (rule no_ghosts_update [OF ng i])
  show "phase_ok c" using c by (simp add: phase_ok_def)
  fix rid v assume "member st' rid v"
  from envelope_membership [OF wf fresh msg this] show "live (conns[i := c]) v"
  proof (elim disjE conjE)
    assume "sess_user_id s' = Some v"
    then show ?thesis using i c unfolding live_def by (intro exI [of _ i]) simp
  next
    assume "member st rid v" "sess_user_id (cn_session (conns ! i)) \<noteq> Some v"
    then show ?thesis using ng by (intro live_update [OF i]) (auto simp: no_ghosts_def)
  qed
qed

lemma no_ghosts_disconnect:
  assumes ng: "no_ghosts st conns" and wf: "wf_state st"
    and i: "i < length conns" and uid: "sess_user_id (cn_session (conns ! i)) = Some uid"
    and c: "cn_session c = cn_session (conns ! i)" "cn_phase c = Finished"
  shows "no_ghosts (disconnect_user uid st) (conns[i := c])"
proof (rule no_ghosts_update [OF ng i])
  show "phase_ok c" using c by (simp add: phase_ok_def)
  fix rid v assume mem: "member (disconnect_user uid st) rid v"
  note effect = disconnect_user_effect [OF wf, of uid]
  have "v \<noteq> uid" using effect mem unfolding user_absent_def by blast
  moreover have "same_for_others uid st (disconnect_user uid st)" using effect by blast
  ultimately have "live conns v" using mem ng unfolding same_for_others_def no_ghosts_def by blast
  then show "live (conns[i := c]) v" using uid \<open>v \<noteq> uid\<close> by (intro live_update [OF i]) auto
qed

lemma no_ghosts_step:
  assumes ng: "no_ghosts (sys_state sys) (sy_conns sys)" and inv: "core_inv n (core_of sys)"
    and ord: "orderly sys" and step: "sys_step api de show_err sys sys'"
  shows "no_ghosts (sys_state sys') (sy_conns sys')"
proof -
  have wf: "wf_state (sys_state sys)"
    and ids: "\<And>rid. bt_get (cs_rooms (sys_state sys)) rid \<noteq> None \<Longrightarrow>
      unat rid < unat (cs_next_room_id (sys_state sys))"
    using inv by (simp_all add: core_inv_def core_of_def)
  have fresh: "bt_get (cs_rooms (sys_state sys)) (cs_next_room_id (sys_state sys)) = None"
    using ids by fastforce
  have same: "no_ghosts st' ((sy_conns sys)[i := c'])"
    if "i < length (sy_conns sys)" "sy_conns sys ! i = c" "cn_session c' = cn_session c"
      "phase_ok c'" "cn_phase c' \<noteq> Finished"
      "\<And>rid uid. member st' rid uid = member (sys_state sys) rid uid" for i c c' st'
    using that by (intro no_ghosts_same_member [OF ng]) auto
  from step show ?thesis
  proof (cases rule: sys_step.cases)
    case connect
    then show ?thesis
      using ng live_append by (auto simp: connect no_ghosts_def phase_ok_def)
  next
    case (accept i c bytes)
    then show ?thesis using same [of i c] by (simp add: phase_ok_def)
  next
    case (handle i c ts bytes ts' now now' response s rt)
    have serving: "cn_phase c = Serving"
      using ord handle(2-4) by (auto simp: orderly_def)
    from handle_control_bytes_core [OF handle(5)] show ?thesis
    proof (elim disjE exE conjE)
      assume "s = cn_session c" "rt = sy_runtime sys"
      then show ?thesis using handle(1-3) serving same [of i c] by (simp add: phase_ok_def)
    next
      fix e reply
      assume "handle_client_envelope now now' (cn_session c) e (sys_state sys) = (reply, s, rt_state rt)"
      then show ?thesis
        using handle(1-3) serving
        by (simp add: handle(1)) (rule no_ghosts_handle [OF ng wf fresh], simp_all)
    qed
  next
    case (leave i c)
    then show ?thesis using same [of i c] by (simp add: phase_ok_def)
  next
    case (leave_anonymous i c)
    have "sess_user_id (cn_session c) = None"
      using phase_ok_nth [OF ng leave_anonymous(2)] leave_anonymous(3,4) by (simp add: phase_ok_def)
    then show ?thesis
      using leave_anonymous(2,3) unfolding leave_anonymous(1)
      by (simp, intro no_ghosts_same_member [OF ng]) (simp_all add: phase_ok_def)
  next
    case (unregister i c uid)
    have "phase_ok c" using phase_ok_nth [OF ng unregister(2)] unregister(3) by simp
    then show ?thesis
      using unregister(2-4) same [of i c] unfolding unregister(1) by (simp add: phase_ok_def)
  next
    case (disconnect i c uid)
    have "sess_user_id (cn_session c) = Some uid"
      using phase_ok_nth [OF ng disconnect(2)] disconnect(3,4) by (simp add: phase_ok_def)
    then show ?thesis
      using disconnect(2,3) unfolding disconnect(1)
      by simp (rule no_ghosts_disconnect [OF ng wf], simp_all)
  next
    case (datagram i c bytes received routed)
    let ?rt = "handle_media_datagram api (cn_session c) bytes received routed (sy_runtime sys)"
    have "member (rt_state ?rt) rid uid = member (sys_state sys) rid uid" for rid uid
      using handle_media_datagram_core [of api "cn_session c" bytes received routed "sy_runtime sys"]
      by auto
    then show ?thesis
      using datagram(2-4) same [of i c c "rt_state ?rt"] unfolding datagram(1)
      by (simp add: phase_ok_def)
  next
    case (respond i c ts response ts')
    have "cn_phase c = Serving" using ord respond(2-4) by (auto simp: orderly_def)
    then show ?thesis
      using respond(2,3) same [of i c] unfolding respond(1) by (simp add: phase_ok_def)
  next
    case (fail i c ts t ts')
    have "cn_phase c = Serving" using ord fail(2-4) by (auto simp: orderly_def)
    then show ?thesis
      using fail(2,3) same [of i c] unfolding fail(1) by (simp add: phase_ok_def)
  qed (use ng in simp_all)
qed

lemma orderly_reach_orderly: "orderly_reach api de show_err config n sys \<Longrightarrow> orderly sys"
  by (induction rule: orderly_reach.induct) (simp_all add: orderly_def system_start_def)

lemma runtime_start_rooms: "cs_rooms (rt_state (runtime_from_config config)) = bt_new"
  by (simp add: runtime_from_config_def with_access_token_and_limits_def with_limits_def
      control_state_new_def split: option.split)

lemma no_ghosts_start: "no_ghosts (sys_state (system_start config)) (sy_conns (system_start config))"
  by (simp add: no_ghosts_def member_def system_start_def runtime_start_rooms)

lemma orderly_reach_inv:
  assumes "orderly_reach api de show_err config n sys"
  shows "n < 2 ^ 64 - 1 \<longrightarrow>
    core_inv n (core_of sys) \<and> no_ghosts (sys_state sys) (sy_conns sys)"
  using assms
proof induction
  case start
  show ?case by (simp add: core_inv_start no_ghosts_start)
next
  case (step n sys sys')
  then show ?case
    using core_inv_step [OF _ _ sys_step_core [OF step.hyps(2)]]
      no_ghosts_step [where n = n, OF _ _ orderly_reach_orderly [OF step.hyps(1)] step.hyps(2)]
    by simp
qed

text \<open>
  C33. Orderly shutdown leaves nothing behind: in a run in which no connection ends with control
  tasks pending, every participant of a room belongs to a connection that is not finished, and
  when all connections are finished no room is left.
\<close>

theorem orderly_relay_empties:
  assumes "orderly_reach api de show_err config n sys" and "n < 2 ^ 64 - 1"
  shows "(\<forall>rid uid. member (sys_state sys) rid uid \<longrightarrow> live (sy_conns sys) uid) \<and>
    ((\<forall>c \<in> set (sy_conns sys). cn_phase c = Finished) \<longrightarrow> cs_rooms (sys_state sys) = bt_new)"
proof -
  have wf: "wf_state (sys_state sys)" and ng: "no_ghosts (sys_state sys) (sy_conns sys)"
    using orderly_reach_inv [OF assms(1)] assms(2) by (simp_all add: core_inv_def core_of_def)
  have "cs_rooms (sys_state sys) = bt_new" if fin: "\<forall>c \<in> set (sy_conns sys). cn_phase c = Finished"
  proof (rule bt_eqI, rule ext)
    fix rid
    show "bt_get (cs_rooms (sys_state sys)) rid = bt_get bt_new rid"
    proof (cases "bt_get (cs_rooms (sys_state sys)) rid")
      case (Some r)
      then obtain uid where "uid \<in> participants r"
        using room_wfD(4) [OF wf_room [OF wf Some]] by blast
      with Some ng have "live (sy_conns sys) uid" by (auto simp: no_ghosts_def member_def)
      with fin show ?thesis by (auto simp: live_def)
    qed simp
  qed
  with ng show ?thesis by (simp add: no_ghosts_def)
qed

section \<open>Two runs of one connection\<close>

definition hello_request :: client_envelope where
  "hello_request =
     envelope_new 1 (Hello \<lparr>hello_protocol_version = PROTOCOL_VERSION, hello_client_name = [65]\<rparr>)"

definition create_request :: client_envelope where
  "create_request = envelope_new 2 (CreateRoom \<lparr>create_name = [65]\<rparr>)"

lemma handle_hello_request:
  assumes "decode_envelope de b = Inr hello_request"
    and "rt_state rt = with_limits limits_default" and "sess_user_id s = None"
  obtains response s' rt' where
    "handle_control_bytes de show_err 0 0 s b rt = (response, s', rt')"
    "sess_user_id s' = Some 1" "sess_access_granted s'"
    "cs_rooms (rt_state rt') = bt_new" "cs_next_room_id (rt_state rt') = 1"
    "cs_access_token (rt_state rt') = None"
    "cs_limits (rt_state rt') = limits_sanitized limits_default"
proof -
  let ?r = "handle_control_bytes de show_err 0 0 s b rt"
  have "?r = (fst ?r, fst (snd ?r), snd (snd ?r))" by simp
  moreover have "snd ?r = (fst (snd (handle_hello s \<lparr>hello_protocol_version = PROTOCOL_VERSION,
      hello_client_name = [65]\<rparr> (with_limits limits_default))),
      rt\<lparr>rt_state := snd (snd (handle_hello s \<lparr>hello_protocol_version = PROTOCOL_VERSION,
      hello_client_name = [65]\<rparr> (with_limits limits_default)))\<rparr>)"
    using assms by (simp add: handle_control_bytes_def hello_request_def envelope_new_def
        handle_client_envelope_def authorization_error_def split_beta Let_def)
  ultimately show ?thesis
    using assms(3)
    by (intro that [of "fst ?r" "fst (snd ?r)" "snd (snd ?r)"])
      (simp_all add: handle_hello_def Let_def establish_identity_def requires_access_token_def
        with_limits_def control_state_new_def)
qed

lemma handle_create_request:
  assumes "decode_envelope de b = Inr create_request"
    and "sess_user_id s = Some 1" "sess_access_granted s"
    and "cs_rooms (rt_state rt) = bt_new" "cs_next_room_id (rt_state rt) = 1"
    and "cs_limits (rt_state rt) = limits_sanitized limits_default"
  obtains response rt' where
    "handle_control_bytes de show_err 0 0 s b rt = (response, s, rt')" "member (rt_state rt') 1 1"
proof -
  let ?r = "handle_control_bytes de show_err 0 0 s b rt"
  have "snd ?r = (s, rt\<lparr>rt_state := snd (handle_create_room s \<lparr>create_name = [65]\<rparr> (rt_state rt))\<rparr>)"
    using assms by (simp add: handle_control_bytes_def create_request_def envelope_new_def
        handle_client_envelope_def authorization_error_def split_beta Let_def keep_session_def)
  moreover have "member (snd (handle_create_room s \<lparr>create_name = [65]\<rparr> (rt_state rt))) 1 1"
    using assms(2,4-6)
    by (simp add: handle_create_room_def Let_def member_def room_join_def limits_sanitized_def
        limits_default_def DEFAULT_MAX_ROOMS_def bt_len_def)
  ultimately show ?thesis
    by (intro that [of "fst ?r" "snd (snd ?r)"]) (simp_all add: prod_eq_iff)
qed

text \<open>The steps of a relay with one connection.\<close>

abbreviation one_conn ::
  "'c control_runtime \<Rightarrow> session \<Rightarrow> phase \<Rightarrow> task list \<Rightarrow> 'c system" where
  "one_conn rt s p ts \<equiv> \<lparr>sy_runtime = rt, sy_conns = [\<lparr>cn_session = s, cn_phase = p, cn_tasks = ts\<rparr>]\<rparr>"

lemma one_conn_sel:
  "sy_conns (one_conn rt s p ts) = [\<lparr>cn_session = s, cn_phase = p, cn_tasks = ts\<rparr>]"
  "sys_state (one_conn rt s p ts) = rt_state rt"
  by simp_all

lemma one_connect:
  fixes sys :: "'c system"
  assumes "sys = system_start config"
    and "rt = (runtime_from_config config)\<lparr>rt_next_session_id := 2\<rparr>"
  shows "sys_step api de show_err sys (one_conn rt (session_anonymous 1) Serving [])"
  using sys_step.connect [of api de show_err sys] assms
  by (simp add: system_start_def) (simp add: runtime_from_config_def)

lemma one_accept:
  fixes rt :: "'c control_runtime"
  assumes "length b \<le> CONTROL_STREAM_READ_LIMIT"
  shows "sys_step api de show_err (one_conn rt s Serving ts) (one_conn rt s Serving (ts @ [Received b]))"
  using sys_step.accept [of 0 "one_conn rt s Serving ts" _ b api de show_err] assms
  by (simp add: put_conn_def)

lemma one_handle:
  fixes rt :: "'c control_runtime"
  assumes "handle_control_bytes de show_err now now' s b rt = (reply, s', rt')"
  shows "sys_step api de show_err (one_conn rt s p (Received b # ts))
    (one_conn rt' s' p (Answered reply # ts))"
  using sys_step.handle [of 0 "one_conn rt s p (Received b # ts)" _ "[]" b ts de show_err now now'
      reply s' rt' api] assms
  by (simp add: put_conn_def)

lemma one_respond:
  fixes rt :: "'c control_runtime"
  shows "sys_step api de show_err (one_conn rt s p (Answered reply # ts))
    (one_conn (register_greeted api s reply rt) s p ts)"
  using sys_step.respond [of 0 "one_conn rt s p (Answered reply # ts)" _ "[]" reply ts api de
      show_err]
  by (simp add: put_conn_def)

lemma one_leave:
  fixes rt :: "'c control_runtime"
  shows "sys_step api de show_err (one_conn rt s Serving ts)
    (one_conn rt s (Leaving (sess_user_id s)) ts)"
  using sys_step.leave [of 0 "one_conn rt s Serving ts" _ api de show_err]
  by (simp add: put_conn_def)

lemma one_leave_anonymous:
  fixes rt :: "'c control_runtime"
  shows "sys_step api de show_err (one_conn rt s (Leaving None) ts) (one_conn rt s Finished ts)"
  using sys_step.leave_anonymous [of 0 "one_conn rt s (Leaving None) ts" _ api de show_err]
  by (simp add: put_conn_def)

text \<open>
  A greeting and a room from one connection: the replies, whatever the connection's phase and its
  other tasks.
\<close>

lemma hello_create:
  fixes api :: "'c egress_api" and rt :: "'c control_runtime"
  assumes b1: "decode_envelope de b1 = Inr hello_request"
    and b2: "decode_envelope de b2 = Inr create_request"
    and config: "config = server_config_new addr"
    and rt: "rt = (runtime_from_config config)\<lparr>rt_next_session_id := 2\<rparr>"
  obtains s1 reply1 rt1 reply2 rt2 where
    "handle_control_bytes de show_err 0 0 (session_anonymous 1) b1 rt = (reply1, s1, rt1)"
    "handle_control_bytes de show_err 0 0 s1 b2 (register_greeted api s1 reply1 rt1) =
       (reply2, s1, rt2)"
    "member (rt_state (register_greeted api s1 reply2 rt2)) 1 1" "sess_user_id s1 = Some 1"
proof -
  let ?a = "session_anonymous 1"
  have st0: "rt_state rt = with_limits limits_default"
    by (simp add: rt runtime_from_config_def config server_config_new_def limits_default_def)
  have anon: "sess_user_id ?a = None" by (simp add: session_anonymous_def)
  obtain reply1 s1 rt1 where h1: "handle_control_bytes de show_err 0 0 ?a b1 rt = (reply1, s1, rt1)"
    and s1: "sess_user_id s1 = Some 1" "sess_access_granted s1"
    and rt1: "cs_rooms (rt_state rt1) = bt_new" "cs_next_room_id (rt_state rt1) = 1"
      "cs_limits (rt_state rt1) = limits_sanitized limits_default"
    by (rule handle_hello_request [OF b1 st0 anon, of show_err])
  let ?rt1 = "register_greeted api s1 reply1 rt1"
  obtain reply2 rt2 where h2: "handle_control_bytes de show_err 0 0 s1 b2 ?rt1 = (reply2, s1, rt2)"
    and m: "member (rt_state rt2) 1 1"
    by (rule handle_create_request [OF b2 s1, of ?rt1 show_err]) (simp_all add: rt1)
  show ?thesis by (rule that [OF h1 h2 _ s1(1)]) (simp add: m)
qed

text \<open>One after the other: the connection is still served when the room exists.\<close>

lemma orderly_run:
  fixes api :: "'c egress_api"
  assumes b1: "decode_envelope de b1 = Inr hello_request" "length b1 \<le> CONTROL_STREAM_READ_LIMIT"
    and b2: "decode_envelope de b2 = Inr create_request" "length b2 \<le> CONTROL_STREAM_READ_LIMIT"
    and config: "config = server_config_new addr"
  shows "\<exists>sys. orderly_reach api de show_err config 7 sys \<and> member (sys_state sys) 1 1"
proof -
  obtain s1 reply1 rt1 reply2 rt2 where
    h1: "handle_control_bytes de show_err 0 0 (session_anonymous 1) b1
      ((runtime_from_config config :: 'c control_runtime)\<lparr>rt_next_session_id := 2\<rparr>) =
      (reply1, s1, rt1)"
    and h2: "handle_control_bytes de show_err 0 0 s1 b2 (register_greeted api s1 reply1 rt1) =
       (reply2, s1, rt2)"
    and m: "member (rt_state (register_greeted api s1 reply2 rt2)) 1 1"
    by (rule hello_create [OF b1(1) b2(1) config refl])
  have orderly: "orderly (one_conn rt s Serving ts)" for rt :: "'c control_runtime" and s ts
    by (simp add: orderly_def)
  note step = orderly_reach.step [OF _ _ orderly]
  note run = step [OF orderly_reach.start one_connect [OF refl refl]]
  note run = step [OF step [OF run one_accept [OF b1(2)], simplified] one_handle [OF h1]]
  note run = step [OF run one_respond]
  note run = step [OF step [OF run one_accept [OF b2(2)], simplified] one_handle [OF h2]]
  note run = step [OF run one_respond]
  have seven: "7 = Suc (Suc (Suc (Suc (Suc (Suc (Suc 0))))))" by simp
  show ?thesis unfolding seven
    by (intro exI conjI, rule run) (unfold one_conn_sel, rule m)
qed

text \<open>Out of order: two requests are read, the connection ends, then the two tasks get their locks.\<close>

lemma ghost_run:
  fixes api :: "'c egress_api"
  assumes b1: "decode_envelope de b1 = Inr hello_request" "length b1 \<le> CONTROL_STREAM_READ_LIMIT"
    and b2: "decode_envelope de b2 = Inr create_request" "length b2 \<le> CONTROL_STREAM_READ_LIMIT"
    and config: "config = server_config_new addr"
  shows "\<exists>sys. sys_reach api de show_err config 9 sys \<and>
    (\<forall>c \<in> set (sy_conns sys). cn_phase c = Finished \<and> cn_tasks c = []) \<and>
    map (sess_user_id \<circ> cn_session) (sy_conns sys) = [Some 1] \<and> member (sys_state sys) 1 1"
proof -
  obtain s1 reply1 rt1 reply2 rt2 where
    h1: "handle_control_bytes de show_err 0 0 (session_anonymous 1) b1
      ((runtime_from_config config :: 'c control_runtime)\<lparr>rt_next_session_id := 2\<rparr>) =
      (reply1, s1, rt1)"
    and h2: "handle_control_bytes de show_err 0 0 s1 b2 (register_greeted api s1 reply1 rt1) =
       (reply2, s1, rt2)"
    and m: "member (rt_state (register_greeted api s1 reply2 rt2)) 1 1"
    and u: "sess_user_id s1 = Some 1"
    by (rule hello_create [OF b1(1) b2(1) config refl])
  have anon: "sess_user_id (session_anonymous 1) = None" by (simp add: session_anonymous_def)
  note step = sys_reach.step
  note run = step [OF sys_reach.start one_connect [OF refl refl]]
  note run = step [OF step [OF run one_accept [OF b1(2)]] one_accept [OF b2(2)], simplified]
  note run = step [OF step [OF run one_leave, unfolded anon] one_leave_anonymous]
  note run = step [OF step [OF run one_handle [OF h1]] one_respond]
  note run = step [OF step [OF run one_handle [OF h2]] one_respond]
  have nine: "9 = Suc (Suc (Suc (Suc (Suc (Suc (Suc (Suc (Suc 0))))))))" by simp
  show ?thesis unfolding nine
    by (intro exI conjI, rule run) (unfold one_conn_sel, simp, simp add: u, rule m)
qed

section \<open>Whose connection it is\<close>

text \<open>A connection that is cleaned up for a user is the connection of that user.\<close>

definition cleans_own :: "conn \<Rightarrow> bool" where
  "cleans_own c \<longleftrightarrow>
     (case cn_phase c of
        Leaving (Some uid) \<Rightarrow> sess_user_id (cn_session c) = Some uid
      | Unregistered uid \<Rightarrow> sess_user_id (cn_session c) = Some uid
      | _ \<Rightarrow> True)"

lemma handle_keeps_user:
  assumes "handle_control_bytes de show_err now now' s bytes rt = (response, s', rt')"
    and "sess_user_id s = Some uid"
  shows "sess_user_id s' = Some uid"
  using handle_control_bytes_core [OF assms(1)] assms(2)
  by (auto dest!: counters_step_envelope simp: counters_step_def)

lemma cleans_own_step:
  assumes "sys_step api de show_err sys sys'" and all: "\<forall>c \<in> set (sy_conns sys). cleans_own c"
  shows "\<forall>c \<in> set (sy_conns sys'). cleans_own c"
proof -
  have put: "\<forall>c \<in> set ((sy_conns sys)[i := c']). cleans_own c" if "cleans_own c'" for i c'
    using all that set_update_subset_insert [of "sy_conns sys" i c'] by blast
  have same: "cleans_own (c\<lparr>cn_tasks := ts\<rparr>)" if "i < length (sy_conns sys)" "sy_conns sys ! i = c" for i c ts
  proof -
    have "cleans_own c" using all that by auto
    then show ?thesis by (simp add: cleans_own_def split: phase.splits option.splits)
  qed
  from assms(1) show ?thesis
  proof (cases rule: sys_step.cases)
    case connect
    then show ?thesis using all by (simp add: connect cleans_own_def)
  next
    case (handle i c ts bytes ts' now now' response s rt)
    have "cleans_own c" using all handle(2,3) by auto
    then have "cleans_own (c\<lparr>cn_session := s, cn_tasks := ts @ Answered response # ts'\<rparr>)"
      using handle_keeps_user [OF handle(5)] by (auto simp: cleans_own_def split: phase.splits option.splits)
    from put [OF this] show ?thesis by (simp add: handle(1))
  next
    case (unregister i c uid)
    have "cleans_own c" using all unregister(2,3) by auto
    with unregister(4) have "cleans_own (c\<lparr>cn_phase := Unregistered uid\<rparr>)" by (simp add: cleans_own_def)
    from put [OF this] show ?thesis by (simp add: unregister(1))
  next
    case (leave i c)
    have "cleans_own (c\<lparr>cn_phase := Leaving (sess_user_id (cn_session c))\<rparr>)"
      by (simp add: cleans_own_def split: option.split)
    from put [OF this] show ?thesis by (simp add: leave(1))
  next
    case (datagram i c bytes received routed)
    have "cleans_own c" using all datagram(2,3) by auto
    from put [OF this] show ?thesis by (simp add: datagram(1))
  next
    case (leave_anonymous i c)
    have "cleans_own (c\<lparr>cn_phase := Finished\<rparr>)" by (simp add: cleans_own_def)
    from put [OF this] show ?thesis by (simp add: leave_anonymous(1))
  next
    case (disconnect i c uid)
    have "cleans_own (c\<lparr>cn_phase := Finished\<rparr>)" by (simp add: cleans_own_def)
    from put [OF this] show ?thesis by (simp add: disconnect(1))
  next
    case (accept i c bytes)
    from put [OF same [OF accept(2,3)]] show ?thesis by (simp add: accept(1))
  next
    case (respond i c ts response ts')
    from put [OF same [OF respond(2,3)]] show ?thesis by (simp add: respond(1))
  next
    case (fail i c ts t ts')
    from put [OF same [OF fail(2,3)]] show ?thesis by (simp add: fail(1))
  qed (use all in simp_all)
qed

lemma sys_reach_cleans_own:
  assumes "sys_reach api de show_err config n sys"
  shows "\<forall>c \<in> set (sy_conns sys). cleans_own c"
  using assms by induction (simp_all add: system_start_def cleans_own_step)

section \<open>A room without a connection\<close>

text \<open>
  What nobody removes: a membership of a user whose connection is finished and has no tasks. No
  other connection has the user, and cleaning up is done for the user of the connection only.
\<close>

definition left_behind :: "nat \<Rightarrow> room_id \<Rightarrow> user_id \<Rightarrow> 'c system \<Rightarrow> bool" where
  "left_behind k rid uid sys \<longleftrightarrow>
     k < length (sy_conns sys) \<and> cn_phase (sy_conns sys ! k) = Finished \<and> cn_tasks (sy_conns sys ! k) = [] \<and>
     sess_user_id (cn_session (sy_conns sys ! k)) = Some uid \<and> member (sys_state sys) rid uid"

lemma envelope_keeps_members:
  assumes wf: "wf_state st" and fresh: "bt_get (cs_rooms st) (cs_next_room_id st) = None"
    and msg: "handle_client_envelope now now' s e st = (reply, s', st')"
    and mem: "member st rid v" and other: "sess_user_id s' \<noteq> Some v"
  shows "member st' rid v"
proof (cases "sess_user_id s'")
  case None
  have "sess_user_id s = None"
    using counters_step_envelope [OF msg] None unfolding counters_step_def by auto
  then have "\<not> may_control s st" by (simp add: may_control_def)
  from no_access_effect [OF this msg]
  have "cs_rooms (forget_names st') = cs_rooms (forget_names st)" by simp
  then have "cs_rooms st' = cs_rooms st" by (simp add: forget_names_def)
  then show ?thesis using mem by (simp add: member_def)
next
  case (Some uid)
  have "snd (handle_client_envelope now now' s e st) = (s', st')" using msg by simp
  then have "same_for_others uid st st'"
    using others_dispatch [OF wf fresh, of now now' s "env_message e" uid] Some
    by (auto simp: handle_client_envelope_state split: if_splits)
  then show ?thesis using mem other Some unfolding same_for_others_def by auto
qed

lemma core_inv_sel:
  assumes "core_inv n (core_of sys)"
  shows "wf_state (sys_state sys)"
    and "bt_get (cs_rooms (sys_state sys)) (cs_next_room_id (sys_state sys)) = None"
    and "i < length (sy_conns sys) \<Longrightarrow> j < length (sy_conns sys) \<Longrightarrow>
      sess_user_id (cn_session (sy_conns sys ! i)) = Some uid \<Longrightarrow>
      sess_user_id (cn_session (sy_conns sys ! j)) = Some uid \<Longrightarrow> i = j"
proof -
  have ids: "bt_get (cs_rooms (sys_state sys)) rid \<noteq> None \<Longrightarrow>
      unat rid < unat (cs_next_room_id (sys_state sys))" for rid
    using assms by (simp add: core_inv_def core_of_def)
  show "wf_state (sys_state sys)" using assms by (simp add: core_inv_def core_of_def)
  show "bt_get (cs_rooms (sys_state sys)) (cs_next_room_id (sys_state sys)) = None"
    using ids by fastforce
  show "i < length (sy_conns sys) \<Longrightarrow> j < length (sy_conns sys) \<Longrightarrow>
      sess_user_id (cn_session (sy_conns sys ! i)) = Some uid \<Longrightarrow>
      sess_user_id (cn_session (sy_conns sys ! j)) = Some uid \<Longrightarrow> i = j"
    using assms unfolding core_inv_def core_of_def split length_map by (metis nth_map)
qed

lemma left_behind_step:
  assumes inv: "core_inv n (core_of sys)" "core_inv m (core_of sys')"
    and own: "\<forall>c \<in> set (sy_conns sys). cleans_own c"
    and step: "sys_step api de show_err sys sys'" and ghost: "left_behind k rid uid sys"
  shows "left_behind k rid uid sys'"
proof -
  note k = ghost [unfolded left_behind_def]
  have put: "left_behind k rid uid (put_conn i c' rt sys)"
    if "i \<noteq> k" "member (rt_state rt) rid uid" for i c' rt
    using that k by (simp add: left_behind_def)
  from step show ?thesis
  proof (cases rule: sys_step.cases)
    case connect
    then show ?thesis using k by (simp add: connect left_behind_def nth_append)
  next
    case (handle i c ts bytes ts' now now' response s rt)
    have i: "i \<noteq> k" using handle(3,4) k by auto
    have "sess_user_id s \<noteq> Some uid"
    proof
      assume "sess_user_id s = Some uid"
      then show False
        using core_inv_sel(3) [OF inv(2), of i k uid] handle(2) i k by (simp add: handle(1))
    qed
    then have "member (rt_state rt) rid uid"
      using handle_control_bytes_core [OF handle(5)] envelope_keeps_members [OF core_inv_sel(1,2) [OF inv(1)]] k
      by auto
    with i show ?thesis unfolding handle(1) by (rule put)
  next
    case (datagram i c bytes received routed)
    have "member (rt_state (handle_media_datagram api (cn_session c) bytes received routed (sy_runtime sys))) rid uid"
      using handle_media_datagram_core [of api "cn_session c" bytes received routed "sy_runtime sys"] k by auto
    moreover have "i \<noteq> k" using datagram(3,4) k by auto
    ultimately show ?thesis unfolding datagram(1) by (intro put)
  next
    case (disconnect i c uid')
    have i: "i \<noteq> k" using disconnect(3,4) k by auto
    have "cleans_own c" using own disconnect(2,3) by auto
    with disconnect(4) have "sess_user_id (cn_session c) = Some uid'" by (simp add: cleans_own_def)
    with i disconnect(2,3) k have "uid' \<noteq> uid" using core_inv_sel(3) [OF inv(1), of i k uid] by auto
    then have "member (disconnect_user uid' (sys_state sys)) rid uid"
      using disconnect_user_effect [OF core_inv_sel(1) [OF inv(1)], of uid'] k unfolding same_for_others_def by auto
    with i show ?thesis unfolding disconnect(1) by (intro put) simp_all
  next
    case (accept i c bytes)
    then have "i \<noteq> k" using k by auto
    then show ?thesis unfolding accept(1) using k by (intro put) simp_all
  next
    case (respond i c ts response ts')
    then have "i \<noteq> k" using k by auto
    then show ?thesis unfolding respond(1) using k by (intro put) simp_all
  next
    case (fail i c ts t ts')
    then have "i \<noteq> k" using k by auto
    then show ?thesis unfolding fail(1) using k by (intro put) simp_all
  next
    case (leave i c)
    then have "i \<noteq> k" using k by auto
    then show ?thesis unfolding leave(1) using k by (intro put) simp_all
  next
    case (leave_anonymous i c)
    then have "i \<noteq> k" using k by auto
    then show ?thesis unfolding leave_anonymous(1) using k by (intro put) simp_all
  next
    case (unregister i c uid')
    then have "i \<noteq> k" using k by auto
    then show ?thesis unfolding unregister(1) using k by (intro put) simp_all
  qed (use k in \<open>simp_all add: left_behind_def\<close>)
qed

lemma left_behind_stays:
  assumes "sys_reach api de show_err config n sys" and "left_behind k rid uid sys"
    and "(sys_step api de show_err ^^ m) sys sys'" and "n + m < 2 ^ 64 - 1"
  shows "sys_reach api de show_err config (n + m) sys' \<and> left_behind k rid uid sys'"
  using assms(3,4)
proof (induction m arbitrary: sys')
  case 0
  then show ?case using assms(1,2) by simp
next
  case (Suc m)
  from Suc.prems(1) obtain mid where mid: "(sys_step api de show_err ^^ m) sys mid"
    "sys_step api de show_err mid sys'" by (rule relpowp_Suc_E)
  have IH: "sys_reach api de show_err config (n + m) mid" "left_behind k rid uid mid"
    using Suc.IH [OF mid(1)] Suc.prems(2) by simp_all
  have next_reach: "sys_reach api de show_err config (Suc (n + m)) sys'"
    by (rule sys_reach.step [OF IH(1) mid(2)])
  have "core_inv (n + m) (core_of mid)" "core_inv (Suc (n + m)) (core_of sys')"
    using sys_reach_inv [OF IH(1)] sys_reach_inv [OF next_reach] Suc.prems(2) by simp_all
  from left_behind_step [OF this sys_reach_cleans_own [OF IH(1)] mid(2) IH(2)] next_reach show ?case by simp
qed

text \<open>
  C34. A room can outlive every connection: a control task that gets its turn after its
  connection's loop has ended creates a user and a room that no connection owns. From the default
  configuration such a state is reachable with all connections finished and no task pending, and
  whatever the relay does from then on (as long as its 64-bit ids last) the user stays in the room.
\<close>

theorem ghost_room_reachable:
  assumes "decode_envelope de b1 = Inr hello_request" "length b1 \<le> CONTROL_STREAM_READ_LIMIT"
    and "decode_envelope de b2 = Inr create_request" "length b2 \<le> CONTROL_STREAM_READ_LIMIT"
  shows "\<exists>n sys. sys_reach api de show_err (server_config_new addr) n sys \<and>
    (\<forall>c \<in> set (sy_conns sys). cn_phase c = Finished \<and> cn_tasks c = []) \<and>
    member (sys_state sys) 1 1 \<and>
    (\<forall>m sys'. (sys_step api de show_err ^^ m) sys sys' \<longrightarrow> n + m < 2 ^ 64 - 1 \<longrightarrow>
       member (sys_state sys') 1 1)"
proof -
  obtain sys where sys: "sys_reach api de show_err (server_config_new addr) 9 sys \<and>
      (\<forall>c \<in> set (sy_conns sys). cn_phase c = Finished \<and> cn_tasks c = []) \<and>
      map (sess_user_id \<circ> cn_session) (sy_conns sys) = [Some 1] \<and> member (sys_state sys) 1 1"
    using ghost_run [OF assms refl, of api show_err addr] ..
  then have run: "sys_reach api de show_err (server_config_new addr) 9 sys"
    and fin: "\<forall>c \<in> set (sy_conns sys). cn_phase c = Finished \<and> cn_tasks c = []"
    and users: "map (sess_user_id \<circ> cn_session) (sy_conns sys) = [Some 1]"
    and m: "member (sys_state sys) 1 1" by simp_all
  from users obtain c where c: "sy_conns sys = [c]" "sess_user_id (cn_session c) = Some 1"
    by (cases "sy_conns sys") auto
  with fin m have "left_behind 0 1 1 sys" by (simp add: left_behind_def)
  from left_behind_stays [OF run this] run fin m show ?thesis unfolding left_behind_def by blast
qed

text \<open>A reader of two requests.\<close>

definition sample_reader :: "bytes \<Rightarrow> unit + client_envelope" where
  "sample_reader bs =
     (if bs = [1] then Inr hello_request else if bs = [2] then Inr create_request else Inl ())"

lemma sample_reader_requests:
  "decode_envelope sample_reader [1] = Inr hello_request" "length [1 :: u8] \<le> CONTROL_STREAM_READ_LIMIT"
  "decode_envelope sample_reader [2] = Inr create_request" "length [2 :: u8] \<le> CONTROL_STREAM_READ_LIMIT"
  by (simp_all add: sample_reader_def decode_envelope_def trim_ascii_def is_ascii_whitespace_def
      hello_request_def create_request_def envelope_new_def CONTROL_STREAM_READ_LIMIT_def)

theorem ghost_room_reachable_witness:
  "\<exists>sys sys'. (\<forall>c \<in> set (sy_conns sys). cn_phase c = Finished \<and> cn_tasks c = []) \<and>
    sys_step list_channel sample_reader (\<lambda>_. []) sys sys' \<and> member (sys_state sys') 1 1"
proof -
  from ghost_room_reachable [OF sample_reader_requests, of list_channel "\<lambda>_. []" "[]"] obtain n sys where
    run: "sys_reach list_channel sample_reader (\<lambda>_. []) (server_config_new []) n sys"
    and fin: "\<forall>c \<in> set (sy_conns sys). cn_phase c = Finished \<and> cn_tasks c = []"
    and m: "member (sys_state sys) 1 1" by blast
  have same: "member (sys_state (sys\<lparr>sy_runtime := (sy_runtime sys)\<lparr>rt_next_session_id := x\<rparr>, sy_conns := cs\<rparr>)) 1 1" for x cs
    using m by simp
  show ?thesis using fin by (intro exI conjI) (assumption, rule sys_step.connect, rule same)
qed

theorem relay_invariant_witness:
  "\<exists>sys. sys_reach list_channel sample_reader (\<lambda>_. []) (server_config_new []) 9 sys \<and>
    member (sys_state sys) 1 1 \<and> wf_state (sys_state sys)"
proof -
  obtain sys where run: "sys_reach list_channel sample_reader (\<lambda>_. []) (server_config_new []) 9 sys"
    and m: "member (sys_state sys) 1 1"
    using ghost_run [OF sample_reader_requests refl] by blast
  from relay_invariant [OF run] m run show ?thesis by auto
qed

theorem orderly_relay_empties_witness:
  "\<exists>sys. orderly_reach list_channel sample_reader (\<lambda>_. []) (server_config_new []) 7 sys \<and>
    member (sys_state sys) 1 1 \<and> live (sy_conns sys) 1"
proof -
  obtain sys where run: "orderly_reach list_channel sample_reader (\<lambda>_. []) (server_config_new []) 7 sys"
    and m: "member (sys_state sys) 1 1"
    using orderly_run [OF sample_reader_requests refl] by blast
  from orderly_relay_empties [OF run] m run show ?thesis by auto
qed

end
