(* ===== verification/Relay_View.thy ===== *)
theory Relay_View
  imports Runtime_Props
begin

text \<open>
  Who can change what, as an abstract machine, and that the running relay implements it. A view of
  the relay has the visitors with their users, access and phases, the memberships, the published
  streams with their settings, the viewers of streams and the viewers' mailboxes. The machine knows
  no messages, locks or tasks; its guards say whose part a step may change.
\<close>

section \<open>The abstract machine\<close>

record visitor =
  vs_user :: "user_id option"
  vs_granted :: bool
  vs_phase :: phase

record 'c relay_view =
  vw_locked :: bool
  vw_visitors :: "visitor list"
  vw_members :: "(room_id \<times> user_id) set"
  vw_streams :: "(room_id \<times> stream_id \<times> published_stream) set"
  vw_viewers :: "(room_id \<times> stream_id \<times> user_id) set"
  vw_mailboxes :: "user_id \<Rightarrow> 'c viewer_egress option"

definition set_visitor :: "nat \<Rightarrow> visitor \<Rightarrow> 'c relay_view \<Rightarrow> 'c relay_view" where
  "set_visitor i c v = v\<lparr>vw_visitors := (vw_visitors v)[i := c]\<rparr>"

text \<open>
  Only the part of user \<open>u\<close> differs: own memberships, own streams and own viewing; others may stop
  to view a stream of \<open>u\<close> (a stream that ends has no viewers), but nobody else begins to view.
\<close>

definition only_part_of :: "user_id \<Rightarrow> 'c relay_view \<Rightarrow> 'c relay_view \<Rightarrow> bool" where
  "only_part_of u v v' \<longleftrightarrow>
     (\<forall>rid w. w \<noteq> u \<longrightarrow> ((rid, w) \<in> vw_members v' \<longleftrightarrow> (rid, w) \<in> vw_members v)) \<and>
     (\<forall>rid sid x. st_publisher_id x \<noteq> u \<longrightarrow>
        ((rid, sid, x) \<in> vw_streams v' \<longleftrightarrow> (rid, sid, x) \<in> vw_streams v)) \<and>
     (\<forall>rid sid x w. w \<noteq> u \<longrightarrow> (rid, sid, x) \<in> vw_streams v \<longrightarrow> st_publisher_id x \<noteq> u \<longrightarrow>
        ((rid, sid, w) \<in> vw_viewers v' \<longleftrightarrow> (rid, sid, w) \<in> vw_viewers v)) \<and>
     (\<forall>rid sid w. w \<noteq> u \<longrightarrow> (rid, sid, w) \<in> vw_viewers v' \<longrightarrow> (rid, sid, w) \<in> vw_viewers v)"

definition nothing_of :: "user_id \<Rightarrow> 'c relay_view \<Rightarrow> bool" where
  "nothing_of u v \<longleftrightarrow>
     (\<forall>rid. (rid, u) \<notin> vw_members v) \<and>
     (\<forall>rid sid x. (rid, sid, x) \<in> vw_streams v \<longrightarrow> st_publisher_id x \<noteq> u) \<and>
     (\<forall>rid sid. (rid, sid, u) \<notin> vw_viewers v)"

text \<open>
  A visitor is greeted with a user nobody has, on an open relay with access at once; acts for its user, when the relay is locked only
  with access; has its mailbox opened; sends media, with access and while served, into mailboxes of
  viewers of its own streams; and leaves in steps, the last of which takes everything of its user
  away (a visitor that leaves without a user takes nothing). A mailbox is emptied by its own task.
\<close>

inductive view_step :: "'c egress_api \<Rightarrow> 'c relay_view \<Rightarrow> 'c relay_view \<Rightarrow> bool" for api where
  nothing: "view_step api v v"
| arrives:
    "view_step api v (v\<lparr>vw_visitors := vw_visitors v @
       [\<lparr>vs_user = None, vs_granted = False, vs_phase = Serving\<rparr>]\<rparr>)"
| greeted:
    "i < length (vw_visitors v) \<Longrightarrow> vw_visitors v ! i = c \<Longrightarrow> vs_user c = None \<Longrightarrow>
     \<forall>d \<in> set (vw_visitors v). vs_user d \<noteq> Some u \<Longrightarrow> nothing_of u v \<Longrightarrow>
     view_step api v (set_visitor i (c\<lparr>vs_user := Some u, vs_granted := \<not> vw_locked v\<rparr>) v)"
| authenticates:
    "i < length (vw_visitors v) \<Longrightarrow> vw_visitors v ! i = c \<Longrightarrow> vs_user c = Some u \<Longrightarrow>
     view_step api v (set_visitor i (c\<lparr>vs_granted := True\<rparr>) v)"
| acts:
    "i < length (vw_visitors v) \<Longrightarrow> vw_visitors v ! i = c \<Longrightarrow> vs_user c = Some u \<Longrightarrow>
     (vw_locked v \<longrightarrow> vs_granted c) \<Longrightarrow> only_part_of u v v' \<Longrightarrow>
     vw_locked v' = vw_locked v \<Longrightarrow> vw_visitors v' = vw_visitors v \<Longrightarrow>
     vw_mailboxes v' = vw_mailboxes v \<Longrightarrow> view_step api v v'"
| mailbox:
    "i < length (vw_visitors v) \<Longrightarrow> vw_visitors v ! i = c \<Longrightarrow> vs_user c = Some u \<Longrightarrow>
     view_step api v (v\<lparr>vw_mailboxes := (vw_mailboxes v)(u := Some
       \<lparr>ve_channel = chan_new api capacity, ve_stream_depths = Some bt_new, ve_sending = None\<rparr>)\<rparr>)"
| sends:
    "i < length (vw_visitors v) \<Longrightarrow> vw_visitors v ! i = c \<Longrightarrow> vs_user c = Some u \<Longrightarrow>
     vs_granted c \<Longrightarrow> vs_phase c = Serving \<Longrightarrow>
     (\<And>w. boxes w \<noteq> vw_mailboxes v w \<Longrightarrow> w \<noteq> u \<and> boxes w \<noteq> None \<and> vw_mailboxes v w \<noteq> None \<and>
        (\<exists>rid sid x. (rid, sid, x) \<in> vw_streams v \<and> st_publisher_id x = u \<and> (rid, sid, w) \<in> vw_viewers v)) \<Longrightarrow>
     view_step api v (v\<lparr>vw_mailboxes := boxes\<rparr>)"
| takes:
    "vw_mailboxes v w = Some eg \<Longrightarrow> eg' = egress_receive api eg \<or> eg' = snd (egress_send now eg) \<Longrightarrow>
     view_step api v (v\<lparr>vw_mailboxes := (vw_mailboxes v)(w := Some eg')\<rparr>)"
| leaves:
    "i < length (vw_visitors v) \<Longrightarrow> vw_visitors v ! i = c \<Longrightarrow> vs_phase c = Serving \<Longrightarrow>
     view_step api v (set_visitor i (c\<lparr>vs_phase := Leaving (vs_user c)\<rparr>) v)"
| leaves_unknown:
    "i < length (vw_visitors v) \<Longrightarrow> vw_visitors v ! i = c \<Longrightarrow> vs_phase c = Leaving None \<Longrightarrow>
     view_step api v (set_visitor i (c\<lparr>vs_phase := Finished\<rparr>) v)"
| closes:
    "i < length (vw_visitors v) \<Longrightarrow> vw_visitors v ! i = c \<Longrightarrow> vs_user c = Some u \<Longrightarrow>
     vs_phase c = Leaving (Some u) \<Longrightarrow>
     view_step api v ((set_visitor i (c\<lparr>vs_phase := Unregistered u\<rparr>) v)
       \<lparr>vw_mailboxes := (vw_mailboxes v)(u := None)\<rparr>)"
| departs:
    "i < length (vw_visitors v) \<Longrightarrow> vw_visitors v ! i = c \<Longrightarrow> vs_user c = Some u \<Longrightarrow>
     vs_phase c = Unregistered u \<Longrightarrow> only_part_of u v v' \<Longrightarrow> nothing_of u v' \<Longrightarrow>
     vw_locked v' = vw_locked v \<Longrightarrow> vw_visitors v' = (vw_visitors v)[i := c\<lparr>vs_phase := Finished\<rparr>] \<Longrightarrow>
     vw_mailboxes v' = vw_mailboxes v \<Longrightarrow> view_step api v v'"

section \<open>The view of the running relay\<close>

definition visitor_of :: "conn \<Rightarrow> visitor" where
  "visitor_of c =
     \<lparr>vs_user = sess_user_id (cn_session c), vs_granted = sess_access_granted (cn_session c),
      vs_phase = cn_phase c\<rparr>"

definition view_of :: "'c system \<Rightarrow> 'c relay_view" where
  "view_of sys =
     \<lparr>vw_locked = requires_access_token (sys_state sys), vw_visitors = map visitor_of (sy_conns sys),
      vw_members = {(rid, w). member (sys_state sys) rid w},
      vw_streams = {(rid, sid, x). published_in (cs_rooms (sys_state sys)) rid sid x},
      vw_viewers = {(rid, sid, w). subscribed (sys_state sys) rid sid w},
      vw_mailboxes = bt_get (mr_egress (rt_media (sy_runtime sys)))\<rparr>"

lemma visitor_of_sel [simp]:
  "vs_user (visitor_of c) = sess_user_id (cn_session c)"
  "vs_granted (visitor_of c) = sess_access_granted (cn_session c)" "vs_phase (visitor_of c) = cn_phase c"
  by (simp_all add: visitor_of_def)

lemma view_of_sel [simp]:
  "vw_locked (view_of sys) = requires_access_token (sys_state sys)"
  "vw_visitors (view_of sys) = map visitor_of (sy_conns sys)"
  "(rid, w) \<in> vw_members (view_of sys) \<longleftrightarrow> member (sys_state sys) rid w"
  "(rid, sid, x) \<in> vw_streams (view_of sys) \<longleftrightarrow> published_in (cs_rooms (sys_state sys)) rid sid x"
  "(rid, sid, w) \<in> vw_viewers (view_of sys) \<longleftrightarrow> subscribed (sys_state sys) rid sid w"
  "vw_mailboxes (view_of sys) = bt_get (mr_egress (rt_media (sy_runtime sys)))"
  by (simp_all add: view_of_def)

text \<open>What a view is made of: equal rooms and locks give equal views but for visitors and mailboxes.\<close>

lemma view_eqI:
  assumes "cs_rooms (sys_state sys') = cs_rooms (sys_state sys)"
    and "requires_access_token (sys_state sys') = requires_access_token (sys_state sys)"
    and "map visitor_of (sy_conns sys') = vs"
    and "bt_get (mr_egress (rt_media (sy_runtime sys'))) = boxes"
  shows "view_of sys' = (view_of sys)\<lparr>vw_visitors := vs, vw_mailboxes := boxes\<rparr>"
  using assms by (simp add: view_of_def member_def subscribed_def)

lemma view_same:
  assumes "cs_rooms (sys_state sys') = cs_rooms (sys_state sys)"
    and "requires_access_token (sys_state sys') = requires_access_token (sys_state sys)"
    and "map visitor_of (sy_conns sys') = map visitor_of (sy_conns sys)"
    and "mr_egress (rt_media (sy_runtime sys')) = mr_egress (rt_media (sy_runtime sys))"
  shows "view_of sys' = view_of sys"
  using assms by (simp add: view_of_def member_def subscribed_def)

text \<open>Nobody but \<open>u\<close> begins to view.\<close>

definition views_within :: "user_id \<Rightarrow> control_state \<Rightarrow> control_state \<Rightarrow> bool" where
  "views_within u st st' \<longleftrightarrow> (\<forall>rid sid w. w \<noteq> u \<longrightarrow> subscribed st' rid sid w \<longrightarrow> subscribed st rid sid w)"

lemma only_part_ofI:
  "same_for_others u (sys_state sys) (sys_state sys') \<Longrightarrow> views_within u (sys_state sys) (sys_state sys') \<Longrightarrow>
   only_part_of u (view_of sys) (view_of sys')"
  unfolding only_part_of_def same_for_others_def views_within_def by simp

lemma nothing_ofI: "user_absent u (sys_state sys) \<Longrightarrow> nothing_of u (view_of sys)"
  unfolding nothing_of_def user_absent_def by simp

section \<open>What messages do to the view\<close>

lemma token_update_target: "cs_access_token (update_stream_target sid b f w h st) = cs_access_token st"
  by (cases rule: update_stream_target_cases [of st sid b f w h]) simp_all

lemma token_leave: "cs_access_token (leave_room uid rid st) = cs_access_token st"
  by (cases "bt_get (cs_rooms st) rid") (simp_all add: leave_room_absent leave_room_eq Let_def)

lemma token_fold_leave: "cs_access_token (fold (leave_room uid) rids st) = cs_access_token st"
  by (induction rids arbitrary: st) (simp_all add: token_leave)

lemma token_disconnect: "cs_access_token (disconnect_user uid st) = cs_access_token st"
  by (simp add: disconnect_user_def Let_def token_fold_leave)

lemma token_record: "cs_access_token (record_media_forward_summary p s n r t st) = cs_access_token st"
  by (simp add: record_media_forward_summary_def Let_def)

lemma token_handlers:
  "cs_access_token (snd (unpublish_stream s m1 st)) = cs_access_token st"
  "cs_access_token (snd (set_stream_config s m2 st)) = cs_access_token st"
  "cs_access_token (snd (set_target_bitrate s m3 st)) = cs_access_token st"
  "cs_access_token (snd (set_target_framerate s m4 st)) = cs_access_token st"
  "cs_access_token (snd (set_voice_state s m6 st)) = cs_access_token st"
  "cs_access_token (snd (request_keyframe s m7 st)) = cs_access_token st"
  "cs_access_token (snd (send_remote_input now s m8 st)) = cs_access_token st"
  "cs_access_token (snd (poll_remote_input s m9 st)) = cs_access_token st"
  "cs_access_token (snd (handle_viewer_stats s m10 st)) = cs_access_token st"
  "cs_access_token (snd (handle_join_room s m11 st)) = cs_access_token st"
  "cs_access_token (snd (handle_publish_stream s m12 st)) = cs_access_token st"
  "cs_access_token (snd (handle_subscribe_stream s m13 st)) = cs_access_token st"
  "cs_access_token (snd (handle_unsubscribe_stream s m14 st)) = cs_access_token st"
  "cs_access_token (snd (handle_leave_room s m15 st)) = cs_access_token st"
  "cs_access_token (snd (handle_create_room s m16 st)) = cs_access_token st"
  "cs_access_token (snd (poll_publisher_feedback s rid sid st)) = cs_access_token st"
proof -
  show "cs_access_token (snd (unpublish_stream s m1 st)) = cs_access_token st"
  proof (cases rule: unpublish_stream_cases [of s m1 st])
    case (ok uid r stream)
    then show ?thesis unfolding unpublish_stream_ok [OF ok] by (simp add: Let_def)
  qed simp
  show "cs_access_token (snd (send_remote_input now s m8 st)) = cs_access_token st"
    by (cases rule: send_remote_input_cases [of now s m8 st]) (simp_all add: Let_def)
  show "cs_access_token (snd (handle_join_room s m11 st)) = cs_access_token st"
    "cs_access_token (snd (handle_create_room s m16 st)) = cs_access_token st"
    by (auto simp: handle_join_room_def handle_create_room_def Let_def split_beta ensure_voice_state_def
        split: option.split)
  show "cs_access_token (snd (set_stream_config s m2 st)) = cs_access_token st"
    "cs_access_token (snd (set_target_bitrate s m3 st)) = cs_access_token st"
    "cs_access_token (snd (set_target_framerate s m4 st)) = cs_access_token st"
    "cs_access_token (snd (set_voice_state s m6 st)) = cs_access_token st"
    "cs_access_token (snd (request_keyframe s m7 st)) = cs_access_token st"
    "cs_access_token (snd (poll_remote_input s m9 st)) = cs_access_token st"
    "cs_access_token (snd (handle_viewer_stats s m10 st)) = cs_access_token st"
    "cs_access_token (snd (handle_publish_stream s m12 st)) = cs_access_token st"
    "cs_access_token (snd (handle_subscribe_stream s m13 st)) = cs_access_token st"
    "cs_access_token (snd (handle_unsubscribe_stream s m14 st)) = cs_access_token st"
    "cs_access_token (snd (handle_leave_room s m15 st)) = cs_access_token st"
    "cs_access_token (snd (poll_publisher_feedback s rid sid st)) = cs_access_token st"
    by (auto simp: set_stream_config_def set_target_bitrate_def set_target_framerate_def set_voice_state_def
        request_keyframe_def register_keyframe_request_def poll_remote_input_def handle_viewer_stats_def
        handle_publish_stream_def handle_subscribe_stream_def handle_unsubscribe_stream_def remove_viewer_stats_eq
        handle_leave_room_def poll_publisher_feedback_def adaptive_publisher_feedback_def token_update_target
        token_leave Let_def split_beta split: option.split)
qed

lemma views_fields: "cs_rooms st' = cs_rooms st \<Longrightarrow> views_within u st st'"
  by (simp add: views_within_def subscribed_def)

lemma views_trans: "views_within u st st' \<Longrightarrow> views_within u st' st'' \<Longrightarrow> views_within u st st''"
  unfolding views_within_def by blast

lemma views_replace:
  assumes "bt_get (cs_rooms st) rid = Some r"
    and "cs_rooms st' = bt_insert rid r' (cs_rooms st) \<or> cs_rooms st' = put_room rid r' (cs_rooms st)"
    and "\<And>sid. room_subscribers r' sid \<subseteq> insert u (room_subscribers r sid)"
  shows "views_within u st st'"
  unfolding views_within_def
proof (intro allI impI)
  fix k sid w assume "w \<noteq> u" "subscribed st' k sid w"
  then show "subscribed st k sid w"
    using assms(1,2) subsetD [OF assms(3), of w sid]
    by (cases "k = rid") (auto simp: subscribed_def bt_get_put_room split: if_splits)
qed

lemma views_leave: "views_within u st (leave_room uid rid st)"
proof (cases "bt_get (cs_rooms st) rid")
  case None
  then show ?thesis by (simp add: leave_room_absent views_fields)
next
  case (Some r)
  have "room_subscribers (room_after_leave uid r) sid \<subseteq> insert u (room_subscribers r sid)" for sid
    using room_subscribers_leave [of uid r sid]
    by (auto simp: room_after_leave_def room_subscribers_def remove_streams_subscriptions split: if_splits)
  then show ?thesis
    by (rule views_replace [OF Some, rotated]) (rule disjI2, simp add: leave_room_eq [OF Some] Let_def)
qed

lemma views_disconnect: "views_within u st (disconnect_user uid st)"
proof -
  have "views_within u st (fold (leave_room uid) rids st)" for rids
  proof (induction rids arbitrary: st)
    case (Cons rid rids)
    show ?case using views_trans [OF views_leave Cons.IH] by simp
  qed (simp add: views_fields)
  then show ?thesis
    by (rule views_trans) (rule views_fields, simp add: disconnect_user_def Let_def)
qed

lemma views_update_target: "views_within u st (update_stream_target sid b f w h st)"
proof (cases rule: update_stream_target_cases [of st sid b f w h])
  case (present rid r x)
  then show ?thesis by (intro views_replace [of st rid r]) (auto simp: room_subscribers_def)
qed (simp add: views_fields)

lemma views_handlers:
  assumes u: "sess_user_id s = Some u"
  shows "views_within u st (snd (unpublish_stream s m1 st))"
    and "views_within u st (snd (set_stream_config s m2 st))"
    and "views_within u st (snd (set_target_bitrate s m3 st))"
    and "views_within u st (snd (set_target_framerate s m4 st))"
    and "views_within u st (snd (set_voice_state s m6 st))"
    and "views_within u st (snd (request_keyframe s m7 st))"
    and "views_within u st (snd (send_remote_input now s m8 st))"
    and "views_within u st (snd (poll_remote_input s m9 st))"
    and "views_within u st (snd (handle_viewer_stats s m10 st))"
    and "views_within u st (snd (handle_join_room s m11 st))"
    and "views_within u st (snd (handle_publish_stream s m12 st))"
    and "views_within u st (snd (handle_subscribe_stream s m13 st))"
    and "views_within u st (snd (handle_unsubscribe_stream s m14 st))"
    and "views_within u st (snd (handle_leave_room s m15 st))"
    and "views_within u st (snd (handle_create_room s m16 st))"
    and "views_within u st (snd (poll_publisher_feedback s rid sid st))"
proof -
  show "views_within u st (snd (unpublish_stream s m1 st))"
  proof (cases rule: unpublish_stream_cases [of s m1 st])
    case (ok uid r stream)
    then show ?thesis
      unfolding unpublish_stream_ok [OF ok]
      by (intro views_replace [OF ok(2)]) (auto simp: Let_def room_subscribers_remove split: if_splits)
  qed (simp add: views_fields)
  show "views_within u st (snd (set_stream_config s m2 st))"
    by (auto simp: set_stream_config_def Let_def split_beta room_subscribers_def split: option.split
        intro: views_fields views_replace)
  show "views_within u st (snd (set_target_bitrate s m3 st))"
    "views_within u st (snd (set_target_framerate s m4 st))"
    by (simp_all add: set_target_bitrate_def set_target_framerate_def Let_def views_update_target views_fields
        split: option.split)
  show "views_within u st (snd (set_voice_state s m6 st))"
    "views_within u st (snd (request_keyframe s m7 st))"
    "views_within u st (snd (handle_viewer_stats s m10 st))"
    "views_within u st (snd (poll_remote_input s m9 st))"
    by (rule views_fields, simp add: set_voice_state_def request_keyframe_def register_keyframe_request_def
        handle_viewer_stats_def poll_remote_input_def Let_def split_beta split: option.split)+
  show "views_within u st (snd (send_remote_input now s m8 st))"
    by (cases rule: send_remote_input_cases [of now s m8 st]) (simp_all add: Let_def views_fields)
  show "views_within u st (snd (handle_join_room s m11 st))"
    by (auto simp: handle_join_room_def ensure_voice_state_def room_join_def room_subscribers_def Let_def split_beta
        split: option.split intro: views_fields views_replace)
  show "views_within u st (snd (handle_publish_stream s m12 st))"
    by (auto simp: handle_publish_stream_def room_publish_stream_def room_subscribers_def Let_def split_beta
        split: option.split intro: views_fields views_replace)
  have sub: "room_subscribers (snd (room_subscribe sid u r)) sid' \<subseteq> insert u (room_subscribers r sid')" for sid r sid'
    by (auto simp: room_subscribe_def room_subscribers_def split: option.splits if_splits)
  show "views_within u st (snd (handle_subscribe_stream s m13 st))"
    using u by (auto simp: handle_subscribe_stream_def register_keyframe_request_def Let_def split_beta split: option.split
        intro: views_fields views_replace [OF _ _ sub])
  have unsub: "room_subscribers (room_unsubscribe sid u r) sid' \<subseteq> insert u (room_subscribers r sid')" for sid r sid'
    by (auto simp: room_subscribers_unsubscribe split: if_splits)
  show "views_within u st (snd (handle_unsubscribe_stream s m14 st))"
    using u by (auto simp: handle_unsubscribe_stream_def remove_viewer_stats_eq Let_def split_beta split: option.split
        intro: views_fields views_replace [OF _ _ unsub])
  show "views_within u st (snd (handle_leave_room s m15 st))"
    by (simp add: handle_leave_room_def views_leave views_fields split: option.split)
  show "views_within u st (snd (handle_create_room s m16 st))"
    by (auto simp: handle_create_room_def ensure_voice_state_def room_join_def room_new_def room_subscribers_def
        views_within_def subscribed_def Let_def split_beta split: option.split if_splits)
  show "views_within u st (snd (poll_publisher_feedback s rid sid st))"
    by (auto simp: poll_publisher_feedback_def adaptive_publisher_feedback_def register_keyframe_request_def Let_def split_beta
        split: option.split intro: views_fields views_trans [OF views_update_target views_fields])
qed

lemma message_dispatched:
  assumes "handle_client_envelope now now' s e st = (reply, s', st')"
  shows "(s', st') = (s, st) \<or>
    s' = fst (snd (dispatch now now' s st (env_message e))) \<and>
    st' = snd (snd (dispatch now now' s st (env_message e)))"
proof -
  have "snd (handle_client_envelope now now' s e st) = (s', st')" using assms by simp
  then show ?thesis by (auto simp: handle_client_envelope_state split: if_splits)
qed

lemma token_message:
  assumes "handle_client_envelope now now' s e st = (reply, s', st')"
  shows "requires_access_token st' = requires_access_token st"
proof -
  have "cs_access_token (snd (snd (dispatch now now' s st m))) = cs_access_token st" for m
    by (cases m) (auto simp: keep_session_def token_handlers split_beta handle_hello_def handle_authenticate_def
        Let_def split: option.split)
  then have "cs_access_token st' = cs_access_token st" using message_dispatched [OF assms] by auto
  then show ?thesis by (simp add: requires_access_token_def)
qed

lemma views_message:
  assumes "handle_client_envelope now now' s e st = (reply, s', st')" and "sess_user_id s = Some u"
  shows "views_within u st st'"
proof -
  have "views_within u st (snd (snd (dispatch now now' s st m)))" for m
    using assms(2)
    by (cases m) (simp_all add: keep_session_def views_handlers views_fields split_beta handle_hello_def Let_def)
  then show ?thesis using message_dispatched [OF assms(1)] by (auto simp: views_fields)
qed

text \<open>The session: a user is kept, access is kept, and an action of a session does not touch it.\<close>

lemma session_message:
  assumes "handle_client_envelope now now' s e st = (reply, s', st')" and "sess_user_id s = Some u"
  shows "sess_user_id s' = Some u \<and>
    (sess_access_granted s' = sess_access_granted s \<or> sess_access_granted s' \<and> cs_rooms st' = cs_rooms st)"
proof -
  have "sess_user_id (fst (snd (dispatch now now' s st m))) = Some u \<and>
      (sess_access_granted (fst (snd (dispatch now now' s st m))) = sess_access_granted s \<or>
       sess_access_granted (fst (snd (dispatch now now' s st m))) \<and>
         cs_rooms (snd (snd (dispatch now now' s st m))) = cs_rooms st)" for m
    using assms(2)
    by (cases m) (auto simp: keep_session_def handle_hello_def handle_authenticate_def Let_def
        update_display_name_def grant_access_def split: option.split)
  then show ?thesis using message_dispatched [OF assms(1)] assms(2) by (metis prod.inject)
qed

lemma no_access_rooms:
  assumes "\<not> may_control s st" and "handle_client_envelope now now' s e st = (reply, s', st')"
  shows "cs_rooms st' = cs_rooms st"
proof -
  have "cs_rooms (forget_names st') = cs_rooms (forget_names st)" using no_access_effect [OF assms] by simp
  then show ?thesis by (simp add: forget_names_def)
qed

section \<open>Members are users of visitors\<close>

definition members_known :: "'c system \<Rightarrow> bool" where
  "members_known sys \<longleftrightarrow>
     (\<forall>rid u. member (sys_state sys) rid u \<longrightarrow>
        (\<exists>c \<in> set (sy_conns sys). sess_user_id (cn_session c) = Some u))"

lemma known_put:
  assumes known: "members_known sys" and i: "i < length (sy_conns sys)"
    and user: "\<And>u. sess_user_id (cn_session (sy_conns sys ! i)) = Some u \<Longrightarrow> sess_user_id (cn_session c) = Some u"
    and mem: "\<And>rid u. member (rt_state rt) rid u \<Longrightarrow>
      member (sys_state sys) rid u \<or> sess_user_id (cn_session c) = Some u"
  shows "members_known (put_conn i c rt sys)"
  unfolding members_known_def
proof (intro allI impI)
  fix rid u assume "member (sys_state (put_conn i c rt sys)) rid u"
  then have "member (sys_state sys) rid u \<or> sess_user_id (cn_session c) = Some u" using mem by simp
  then show "\<exists>d \<in> set (sy_conns (put_conn i c rt sys)). sess_user_id (cn_session d) = Some u"
  proof
    assume "member (sys_state sys) rid u"
    with known obtain j where j: "j < length (sy_conns sys)" "sess_user_id (cn_session (sy_conns sys ! j)) = Some u"
      unfolding members_known_def by (metis in_set_conv_nth)
    then have "sess_user_id (cn_session ((sy_conns sys)[i := c] ! j)) = Some u"
      using i user by (cases "j = i") auto
    then show ?thesis using j(1) by (metis put_conn_sel(2) length_list_update nth_mem)
  next
    assume "sess_user_id (cn_session c) = Some u"
    then show ?thesis using i by (auto intro!: bexI [of _ c] simp: set_update_memI)
  qed
qed

lemma known_step:
  assumes step: "sys_step api de show_err sys sys'" and inv: "core_inv n (core_of sys)"
    and known: "members_known sys"
  shows "members_known sys'"
proof -
  have same: "members_known (put_conn i c rt sys)"
    if "i < length (sy_conns sys)" "cn_session c = cn_session (sy_conns sys ! i)"
      "\<And>rid u. member (rt_state rt) rid u \<Longrightarrow> member (sys_state sys) rid u" for i c rt
    using that by (intro known_put [OF known]) auto
  from step show ?thesis
  proof (cases rule: sys_step.cases)
    case connect
    then show ?thesis using known by (auto simp: connect members_known_def)
  next
    case (handle i c ts bytes ts' now now' response s rt)
    show ?thesis unfolding handle(1)
    proof (rule known_put [OF known handle(2)])
      show "\<And>u. sess_user_id (cn_session (sy_conns sys ! i)) = Some u \<Longrightarrow>
          sess_user_id (cn_session (c\<lparr>cn_session := s, cn_tasks := ts @ Answered response # ts'\<rparr>)) = Some u"
        using handle_keeps_user [OF handle(5)] handle(3) by simp
      fix rid u assume mem: "member (rt_state rt) rid u"
      from handle_control_bytes_core [OF handle(5)]
      have "sess_user_id s = Some u \<or> member (sys_state sys) rid u"
      proof (elim disjE exE conjE)
        fix e reply
        assume "handle_client_envelope now now' (cn_session c) e (sys_state sys) = (reply, s, rt_state rt)"
        from envelope_membership [OF core_inv_sel(1,2) [OF inv] this mem] show ?thesis by blast
      qed (use mem in simp)
      then show "member (sys_state sys) rid u \<or>
          sess_user_id (cn_session (c\<lparr>cn_session := s, cn_tasks := ts @ Answered response # ts'\<rparr>)) = Some u"
        by auto
    qed
  next
    case (datagram i c bytes received routed)
    show ?thesis unfolding datagram(1)
      using datagram(2,3) handle_media_datagram_core [of api "cn_session c" bytes received routed "sy_runtime sys"]
      by (intro same) auto
  next
    case (disconnect i c uid)
    have "member (sys_state sys) rid u" if "member (disconnect_user uid (sys_state sys)) rid u" for rid u
    proof -
      note effect = disconnect_user_effect [OF core_inv_sel(1) [OF inv], of uid]
      have "u \<noteq> uid" using effect that unfolding user_absent_def by blast
      then show ?thesis using effect that unfolding same_for_others_def by blast
    qed
    then show ?thesis unfolding disconnect(1) using disconnect(2,3) by (intro same) auto
  next
    case (accept i c bytes)
    show ?thesis unfolding accept(1) using accept(2,3) by (intro same) simp_all
  next
    case (respond i c ts response ts')
    show ?thesis unfolding respond(1) using respond(2,3) by (intro same) simp_all
  next
    case (fail i c ts t ts')
    show ?thesis unfolding fail(1) using fail(2,3) by (intro same) simp_all
  next
    case (leave i c)
    show ?thesis unfolding leave(1) using leave(2,3) by (intro same) simp_all
  next
    case (leave_anonymous i c)
    show ?thesis unfolding leave_anonymous(1) using leave_anonymous(2,3) by (intro same) simp_all
  next
    case (unregister i c uid)
    show ?thesis unfolding unregister(1) using unregister(2,3) by (intro same) simp_all
  qed (use known in \<open>simp_all add: members_known_def\<close>)
qed

lemma sys_reach_known:
  assumes "sys_reach api de show_err config n sys"
  shows "n < 2 ^ 64 - 1 \<longrightarrow> members_known sys"
  using assms
proof induction
  case start
  show ?case by (simp add: members_known_def member_def system_start_def runtime_start_rooms)
next
  case (step n sys sys')
  show ?case
  proof
    assume "Suc n < 2 ^ 64 - 1"
    then have n: "n < 2 ^ 64 - 1" by linarith
    with step.IH have "members_known sys" by blast
    with known_step [OF step.hyps(2)] sys_reach_inv [OF step.hyps(1)] n show "members_known sys'" by blast
  qed
qed

section \<open>Media\<close>

text \<open>A datagram reaches viewers of a stream that the sender publishes, and nobody else.\<close>

lemma forward_reaches_own_viewers:
  assumes wf: "wf_state st" and fwd: "forward_media_packet api st u packet received media = (summary, media')"
    and changed: "bt_get (mr_egress media') w \<noteq> bt_get (mr_egress media) w"
  shows "w \<noteq> u \<and> bt_get (mr_egress media') w \<noteq> None \<and> bt_get (mr_egress media) w \<noteq> None \<and>
    (\<exists>rid sid x. published_in (cs_rooms st) rid sid x \<and> st_publisher_id x = u \<and> subscribed st rid sid w)"
proof (cases "\<exists>rid x. published_in (cs_rooms st) rid (h_room_stream_id (p_header packet)) x \<and> admitted st u packet x")
  case False
  then have "media' = media" using fwd forward_media_refused [OF wf, of packet u api received media] by auto
  with changed show ?thesis by simp
next
  case True
  then obtain rid x where x: "published_in (cs_rooms st) rid (h_room_stream_id (p_header packet)) x"
    and adm: "admitted st u packet x" by blast
  note subs = subscribers_published [OF wf x]
  let ?sid = "h_room_stream_id (p_header packet)"
  have "bt_get (mr_egress media') w = map_option (\<lambda>eg.
      if w \<in> set (subscribers_for_stream st ?sid) \<and> w \<noteq> u \<and> hears st x ?sid w
      then snd (offer_datagram api (mr_viewer_queue_budget_ms media)
        (egress_datagram_of packet received x (mr_viewer_queue_budget_ms media)) eg) else eg)
      (bt_get (mr_egress media) w)"
    using fwd unfolding forward_media_admitted [OF wf x adm] by (auto simp: Let_def forward_loop_egress [OF subs(2)])
  with changed have "w \<in> set (subscribers_for_stream st ?sid)" "w \<noteq> u" "bt_get (mr_egress media) w \<noteq> None"
    "bt_get (mr_egress media') w \<noteq> None"
    by (cases "bt_get (mr_egress media) w"; simp split: if_splits)+
  then show ?thesis using x adm subs(1) by (auto simp: admitted_def)
qed

lemma datagram_effect:
  assumes "wf_state (rt_state rt)" and rt'_def: "rt' = handle_media_datagram api s bytes received routed rt"
  shows "cs_rooms (rt_state rt') = cs_rooms (rt_state rt)"
    and "requires_access_token (rt_state rt') = requires_access_token (rt_state rt)"
    and "bt_get (mr_egress (rt_media rt')) w \<noteq> bt_get (mr_egress (rt_media rt)) w \<Longrightarrow>
      \<exists>u. sess_user_id s = Some u \<and> sess_access_granted s \<and> w \<noteq> u \<and>
        bt_get (mr_egress (rt_media rt')) w \<noteq> None \<and> bt_get (mr_egress (rt_media rt)) w \<noteq> None \<and>
        (\<exists>rid sid x. published_in (cs_rooms (rt_state rt)) rid sid x \<and> st_publisher_id x = u \<and>
           subscribed (rt_state rt) rid sid w)"
proof -
  have "rt_state rt' = rt_state rt \<or>
      (\<exists>packet summary n r route. rt_state rt' = record_media_forward_summary packet summary n r route (rt_state rt))"
    unfolding rt'_def by (rule handle_media_datagram_core)
  then show "cs_rooms (rt_state rt') = cs_rooms (rt_state rt)"
    "requires_access_token (rt_state rt') = requires_access_token (rt_state rt)"
    by (auto simp: requires_access_token_def token_record) (auto simp: record_media_forward_summary_def Let_def)
  show "\<exists>u. sess_user_id s = Some u \<and> sess_access_granted s \<and> w \<noteq> u \<and>
        bt_get (mr_egress (rt_media rt')) w \<noteq> None \<and> bt_get (mr_egress (rt_media rt)) w \<noteq> None \<and>
        (\<exists>rid sid x. published_in (cs_rooms (rt_state rt)) rid sid x \<and> st_publisher_id x = u \<and>
           subscribed (rt_state rt) rid sid w)"
    if changed: "bt_get (mr_egress (rt_media rt')) w \<noteq> bt_get (mr_egress (rt_media rt)) w"
  proof -
    have "rt_media rt' \<noteq> rt_media rt" using changed by auto
    then obtain u packet where u: "sess_user_id s = Some u" "sess_access_granted s" "packet_decode bytes = Inr packet"
      and size: "\<not> rt_max_datagram_payload rt < length bytes"
      by (auto simp: rt'_def handle_media_datagram_def split: option.splits sum.splits if_splits)
    obtain summary media' where fwd: "forward_media_packet api (rt_state rt) u packet received (rt_media rt) = (summary, media')"
      by fastforce
    have "rt_media rt' = media'" using u size fwd by (simp add: rt'_def handle_media_datagram_def Let_def)
    with forward_reaches_own_viewers [OF assms(1) fwd] changed u show ?thesis by auto
  qed
qed

section \<open>The relay implements the machine\<close>

lemma view_put:
  assumes "cs_rooms (rt_state rt) = cs_rooms (sys_state sys)"
    and "requires_access_token (rt_state rt) = requires_access_token (sys_state sys)"
  shows "view_of (put_conn i c rt sys) =
    (set_visitor i (visitor_of c) (view_of sys))\<lparr>vw_mailboxes := bt_get (mr_egress (rt_media rt))\<rparr>"
  using assms by (simp add: view_of_def set_visitor_def member_def subscribed_def put_conn_def map_update)

lemma view_put_same:
  assumes "i < length (sy_conns sys)" and "visitor_of c = visitor_of (sy_conns sys ! i)"
    and "cs_rooms (rt_state rt) = cs_rooms (sys_state sys)"
    and "requires_access_token (rt_state rt) = requires_access_token (sys_state sys)"
  shows "view_of (put_conn i c rt sys) = (view_of sys)\<lparr>vw_mailboxes := bt_get (mr_egress (rt_media rt))\<rparr>"
proof -
  have "set_visitor i (visitor_of c) (view_of sys) = view_of sys"
    using assms(1,2) list_update_id [of "map visitor_of (sy_conns sys)" i] by (simp add: set_visitor_def view_of_def)
  then show ?thesis using view_put [OF assms(3,4)] by simp
qed

lemma message_view:
  assumes inv: "core_inv n (core_of sys)" and known: "members_known sys"
    and i: "i < length (sy_conns sys)" "cn_session (sy_conns sys ! i) = s"
    and fresh: "\<And>u. sess_user_id s = None \<Longrightarrow> sess_user_id s' = Some u \<Longrightarrow>
      \<forall>d \<in> set (sy_conns sys). sess_user_id (cn_session d) \<noteq> Some u"
    and msg: "handle_client_envelope now now' s e (sys_state sys) = (reply, s', rt_state rt)"
    and c: "cn_session c = s'" "cn_phase c = cn_phase (sy_conns sys ! i)" and media: "rt_media rt = rt_media (sy_runtime sys)"
  shows "view_step api (view_of sys) (view_of (put_conn i c rt sys))"
proof -
  let ?v = "view_of sys" and ?v' = "view_of (put_conn i c rt sys)" and ?c = "visitor_of (sy_conns sys ! i)"
  note wf = core_inv_sel(1,2) [OF inv]
  have at: "i < length (vw_visitors ?v)" "vw_visitors ?v ! i = ?c" using i by simp_all
  note token = token_message [OF msg]
  note room_view = view_put [OF _ token, of i c]
  show ?thesis
  proof (cases "sess_user_id s")
    case None
    then have rooms: "cs_rooms (rt_state rt) = cs_rooms (sys_state sys)"
      by (intro no_access_rooms [OF _ msg]) (simp add: may_control_def)
    have view: "?v' = set_visitor i (visitor_of c) ?v"
      using room_view [OF rooms] media by (simp add: set_visitor_def view_of_def)
    show ?thesis
    proof (cases "sess_user_id s'")
      case None': None
      have "sess_access_granted s' = sess_access_granted s"
        using message_dispatched [OF msg] None None'
        by (cases "env_message e") (auto simp: keep_session_def handle_hello_def handle_authenticate_def
            establish_identity_def Let_def split: option.splits if_splits)
      then have "visitor_of c = ?c" using None None' c i(2) by (simp add: visitor_of_def)
      then have "?v' = ?v" using view_put_same [OF i(1) _ rooms token, of c] media by (simp add: view_of_def)
      then show ?thesis by (simp add: view_step.nothing)
    next
      case (Some u)
      then have unknown: "\<forall>d \<in> set (sy_conns sys). sess_user_id (cn_session d) \<noteq> Some u" using fresh None by blast
      have "\<not> member (sys_state sys) rid u" for rid
        using known unknown unfolding members_known_def by blast
      then have "nothing_of u ?v"
        using absent_if_no_member [OF wf(1), of u] by (simp add: nothing_of_def)
      moreover have "sess_access_granted s' = (\<not> requires_access_token (sys_state sys))"
        using message_dispatched [OF msg] None Some
        by (cases "env_message e") (auto simp: keep_session_def handle_hello_def handle_authenticate_def
            establish_identity_def requires_access_token_def Let_def split: option.splits if_splits)
      then have new: "visitor_of c = ?c\<lparr>vs_user := Some u, vs_granted := \<not> vw_locked ?v\<rparr>"
        using c Some by (simp add: visitor_of_def)
      ultimately show ?thesis
        unfolding view new using unknown None i(2) by (intro view_step.greeted [OF at]) simp_all
    qed
  next
    case (Some u)
    note sess = session_message [OF msg Some]
    show ?thesis
    proof (cases "may_control s (sys_state sys) \<and> sess_access_granted s' = sess_access_granted s")
      case True
      have same: "visitor_of c = ?c" using c sess Some i(2) True by (simp add: visitor_of_def)
      have vis: "vw_visitors ?v' = vw_visitors ?v"
        using same i(1) list_update_id [of "map visitor_of (sy_conns sys)" i] by (simp add: map_update)
      have "snd (handle_client_envelope now now' s e (sys_state sys)) = (s', rt_state rt)" using msg by simp
      then have "same_for_others u (sys_state sys) (rt_state rt)"
        using others_dispatch [OF wf, of now now' s "env_message e" u] sess
        by (auto simp: handle_client_envelope_state split: if_splits)
      then have "only_part_of u ?v ?v'" using views_message [OF msg Some] by (intro only_part_ofI) simp_all
      moreover have "vw_locked ?v \<longrightarrow> vs_granted ?c" using True i(2) by (simp add: may_control_def)
      ultimately show ?thesis
        using Some i(2) token media vis by (intro view_step.acts [OF at]) (simp_all add: put_conn_def)
    next
      case False
      then have rooms: "cs_rooms (rt_state rt) = cs_rooms (sys_state sys)"
        using sess no_access_rooms [OF _ msg] by blast
      have view: "?v' = set_visitor i (visitor_of c) ?v"
        using room_view [OF rooms] media by (simp add: set_visitor_def view_of_def)
      show ?thesis
      proof (cases "sess_access_granted s' = sess_access_granted s")
        case True
        then have "visitor_of c = ?c" using c sess Some i(2) by (simp add: visitor_of_def)
        then have "?v' = ?v" using view_put_same [OF i(1) _ rooms token, of c] media by (simp add: view_of_def)
        then show ?thesis by (simp add: view_step.nothing)
      next
        case granted: False
        then have "visitor_of c = ?c\<lparr>vs_granted := True\<rparr>" using c sess Some i(2) by (simp add: visitor_of_def)
        then show ?thesis unfolding view using Some i(2) by (auto intro!: view_step.authenticates [OF at])
      qed
    qed
  qed
qed

lemma view_put_egress:
  "view_of (put_egress w eg sys) = (view_of sys)\<lparr>vw_mailboxes := (vw_mailboxes (view_of sys))(w := Some eg)\<rparr>"
  by (simp add: view_of_def put_egress_def fun_eq_iff)

lemma view_step_of:
  assumes inv: "core_inv n (core_of sys)" "core_inv m (core_of sys')" and known: "members_known sys"
    and own: "\<forall>c \<in> set (sy_conns sys). cleans_own c" and step: "sys_step api de show_err sys sys'"
  shows "view_step api (view_of sys) (view_of sys')"
proof -
  let ?v = "view_of sys"
  have at: "i < length (vw_visitors ?v)" "vw_visitors ?v ! i = visitor_of c"
    if "i < length (sy_conns sys)" "sy_conns sys ! i = c" for i c using that by simp_all
  have quiet: "view_step api ?v (view_of (put_conn i c' (sy_runtime sys) sys))"
    if "i < length (sy_conns sys)" "visitor_of c' = visitor_of (sy_conns sys ! i)" for i c'
  proof -
    have "view_of (put_conn i c' (sy_runtime sys) sys) = ?v"
      using view_put_same [OF that refl refl] by (simp add: view_of_def)
    then show ?thesis by (simp add: view_step.nothing)
  qed
  from step show ?thesis
  proof (cases rule: sys_step.cases)
    case connect
    have view: "view_of sys' = ?v\<lparr>vw_visitors := vw_visitors ?v @
        [\<lparr>vs_user = None, vs_granted = False, vs_phase = Serving\<rparr>]\<rparr>"
      by (simp add: connect view_of_def visitor_of_def session_anonymous_def)
    show ?thesis unfolding view by (rule view_step.arrives)
  next
    case (accept i c bytes)
    then show ?thesis unfolding accept(1) by (intro quiet) (simp_all add: visitor_of_def)
  next
    case (fail i c ts t ts')
    then show ?thesis unfolding fail(1) by (intro quiet) (simp_all add: visitor_of_def)
  next
    case (handle i c ts bytes ts' now now' response s rt)
    let ?c = "c\<lparr>cn_session := s, cn_tasks := ts @ Answered response # ts'\<rparr>"
    from handle_control_bytes_core [OF handle(5)] show ?thesis
    proof (elim disjE exE conjE)
      assume "s = cn_session c" "rt = sy_runtime sys"
      then show ?thesis unfolding handle(1) using handle(2,3) by simp (intro quiet, simp_all add: visitor_of_def)
    next
      fix e reply
      assume msg: "handle_client_envelope now now' (cn_session c) e (sys_state sys) = (reply, s, rt_state rt)"
      have fresh: "\<forall>d \<in> set (sy_conns sys). sess_user_id (cn_session d) \<noteq> Some u"
        if "sess_user_id (cn_session c) = None" "sess_user_id s = Some u" for u
      proof
        fix d assume "d \<in> set (sy_conns sys)"
        then obtain j where j: "j < length (sy_conns sys)" "d = sy_conns sys ! j" by (metis in_set_conv_nth)
        show "sess_user_id (cn_session d) \<noteq> Some u"
        proof
          assume d: "sess_user_id (cn_session d) = Some u"
          then have "j \<noteq> i" using that(1) j(2) handle(3) by auto
          then show False
            using core_inv_sel(3) [OF inv(2), of i j u] handle(2) j d that(2) by (simp add: handle(1))
        qed
      qed
      have media: "rt_media rt = rt_media (sy_runtime sys)"
        using handle(5) by (auto simp: handle_control_bytes_def Let_def split: sum.splits prod.splits)
      show ?thesis
        unfolding handle(1)
        by (rule message_view [OF inv(1) known handle(2) _ fresh msg _ _ media]) (simp_all add: handle(3))
    qed
  next
    case (respond i c ts response ts')
    let ?rt = "register_greeted api (cn_session c) response (sy_runtime sys)"
    have view: "view_of sys' = ?v\<lparr>vw_mailboxes := bt_get (mr_egress (rt_media ?rt))\<rparr>"
      unfolding respond(1) using respond(2,3)
      by (intro view_put_same) (simp_all add: visitor_of_def)
    have "?rt = sy_runtime sys \<or> (\<exists>u. sess_user_id (cn_session c) = Some u \<and>
        rt_media ?rt = register_egress api u (rt_media (sy_runtime sys)))"
      by (auto simp: register_greeted_def split: server_control.split option.split)
    then show ?thesis
    proof (elim disjE exE conjE)
      assume "?rt = sy_runtime sys"
      then have "view_of sys' = ?v" unfolding view by (simp add: view_of_def)
      then show ?thesis by (simp add: view_step.nothing)
    next
      fix u
      assume u: "sess_user_id (cn_session c) = Some u" "rt_media ?rt = register_egress api u (rt_media (sy_runtime sys))"
      have "bt_get (mr_egress (rt_media ?rt)) = (vw_mailboxes ?v)(u := Some \<lparr>ve_channel = chan_new api
          (mr_egress_queue_capacity (rt_media (sy_runtime sys))), ve_stream_depths = Some bt_new, ve_sending = None\<rparr>)"
        by (simp add: u(2) register_egress_def unregister_egress_def Let_def fun_eq_iff)
      then show ?thesis
        unfolding view using u(1) by (simp only:) (rule view_step.mailbox [OF at [OF respond(2,3)]], simp)
    qed
  next
    case (datagram i c bytes received routed)
    let ?rt = "handle_media_datagram api (cn_session c) bytes received routed (sy_runtime sys)"
    note effect = datagram_effect [OF core_inv_sel(1) [OF inv(1)] refl, of api "cn_session c" bytes received routed]
    have view: "view_of sys' = ?v\<lparr>vw_mailboxes := bt_get (mr_egress (rt_media ?rt))\<rparr>"
      unfolding datagram(1) using datagram(2,3) effect(1,2) by (intro view_put_same) simp_all
    show ?thesis
    proof (cases "\<exists>u. sess_user_id (cn_session c) = Some u \<and> sess_access_granted (cn_session c)")
      case True
      then obtain u where u: "sess_user_id (cn_session c) = Some u" "sess_access_granted (cn_session c)" by blast
      show ?thesis
        unfolding view
      proof (rule view_step.sends [OF at [OF datagram(2,3)], where u = u])
        fix w assume "bt_get (mr_egress (rt_media ?rt)) w \<noteq> vw_mailboxes ?v w"
        then show "w \<noteq> u \<and> bt_get (mr_egress (rt_media ?rt)) w \<noteq> None \<and> vw_mailboxes ?v w \<noteq> None \<and>
            (\<exists>rid sid x. (rid, sid, x) \<in> vw_streams ?v \<and> st_publisher_id x = u \<and> (rid, sid, w) \<in> vw_viewers ?v)"
          using effect(3) [of w] u(1) by simp
      qed (use u datagram(4) in simp_all)
    next
      case False
      then have "bt_get (mr_egress (rt_media ?rt)) w = bt_get (mr_egress (rt_media (sy_runtime sys))) w" for w
        using effect(3) [of w] by blast
      then have "view_of sys' = ?v" unfolding view by (simp add: view_of_def fun_eq_iff)
      then show ?thesis by (simp add: view_step.nothing)
    qed
  next
    case (leave i c)
    have "view_of sys' = set_visitor i ((visitor_of c)\<lparr>vs_phase := Leaving (vs_user (visitor_of c))\<rparr>) ?v"
      unfolding leave(1) using view_put [of "sy_runtime sys" sys] by (simp add: set_visitor_def view_of_def visitor_of_def)
    then show ?thesis using leave(4) view_step.leaves [OF at [OF leave(2,3)]] by simp
  next
    case (leave_anonymous i c)
    have "view_of sys' = set_visitor i ((visitor_of c)\<lparr>vs_phase := Finished\<rparr>) ?v"
      unfolding leave_anonymous(1) using view_put [of "sy_runtime sys" sys] by (simp add: set_visitor_def view_of_def visitor_of_def)
    then show ?thesis using leave_anonymous(4) view_step.leaves_unknown [OF at [OF leave_anonymous(2,3)]] by simp
  next
    case (unregister i c uid)
    have "cleans_own c" using own unregister(2,3) by auto
    with unregister(4) have u: "sess_user_id (cn_session c) = Some uid" by (simp add: cleans_own_def)
    have "view_of sys' = (set_visitor i ((visitor_of c)\<lparr>vs_phase := Unregistered uid\<rparr>) ?v)
        \<lparr>vw_mailboxes := (vw_mailboxes ?v)(uid := None)\<rparr>"
      unfolding unregister(1)
      by (subst view_put) (simp_all add: set_visitor_def view_of_def visitor_of_def unregister_egress_def fun_eq_iff)
    then show ?thesis using unregister(4) u view_step.closes [OF at [OF unregister(2,3)]] by simp
  next
    case (disconnect i c uid)
    have "cleans_own c" using own disconnect(2,3) by auto
    with disconnect(4) have u: "sess_user_id (cn_session c) = Some uid" by (simp add: cleans_own_def)
    note effect = disconnect_user_effect [OF core_inv_sel(1) [OF inv(1)], of uid]
    have part: "only_part_of uid ?v (view_of sys')" "nothing_of uid (view_of sys')"
      using effect views_disconnect unfolding disconnect(1) by (auto intro: only_part_ofI nothing_ofI)
    have token: "requires_access_token (sys_state sys') = requires_access_token (sys_state sys)"
      by (simp add: disconnect(1) requires_access_token_def token_disconnect)
    have vis: "vw_visitors (view_of sys') = (vw_visitors ?v)[i := (visitor_of c)\<lparr>vs_phase := Finished\<rparr>]"
      by (simp add: disconnect(1) map_update visitor_of_def)
    show ?thesis
      by (rule view_step.departs [OF at [OF disconnect(2,3)], where u = uid])
        (use u disconnect(4) part token vis in \<open>simp_all add: disconnect(1) put_conn_def\<close>)
  next
    case (egress_take w eg)
    then show ?thesis unfolding egress_take(1) view_put_egress
      by (intro view_step.takes [of _ _ eg]) simp_all
  next
    case (egress_emit w eg now)
    then show ?thesis unfolding egress_emit(1) view_put_egress
      by (intro view_step.takes [of _ _ eg _ _ now]) simp_all
  qed
qed

text \<open>
  C9. The running relay implements the abstract machine: in every state that it can reach, under any
  interleaving of connection loops, control tasks, send tasks and datagrams, each of its steps is a
  step of the machine on the view. So a step changes the memberships, streams and views of at most
  one user, the user of the visitor that takes it; media enter only the mailboxes of viewers of the
  sender's own streams, from a sender with access; a new user is nobody else's and has nothing; and
  a visitor that was known when it left takes everything of its user away, and nothing else.
\<close>

theorem relay_implements_view:
  assumes "sys_reach api de show_err config n sys" and "n < 2 ^ 64 - 2"
    and "sys_step api de show_err sys sys'"
  shows "view_step api (view_of sys) (view_of sys')"
proof -
  have "core_inv n (core_of sys)" "core_inv (Suc n) (core_of sys')"
    using sys_reach_inv [OF assms(1)] sys_reach_inv [OF sys_reach.step [OF assms(1,3)]] assms(2) by simp_all
  then show ?thesis
    using sys_reach_known [OF assms(1)] sys_reach_cleans_own [OF assms(1)] assms by (intro view_step_of) simp_all
qed

theorem relay_implements_view_witness:
  "\<exists>sys. sys_reach list_channel sample_reader (\<lambda>_. []) (server_config_new []) 9 sys \<and>
     (1, 1) \<in> vw_members (view_of sys) \<and>
     view_step list_channel (view_of sys) (view_of (sys\<lparr>sy_runtime := (sy_runtime sys)\<lparr>rt_next_session_id :=
       rt_next_session_id (sy_runtime sys) + 1\<rparr>, sy_conns := sy_conns sys @
       [\<lparr>cn_session = session_anonymous (rt_next_session_id (sy_runtime sys)), cn_phase = Serving, cn_tasks = []\<rparr>]\<rparr>))"
proof -
  obtain sys where run: "sys_reach list_channel sample_reader (\<lambda>_. []) (server_config_new []) 9 sys"
    and m: "member (sys_state sys) 1 1"
    using ghost_run [OF sample_reader_requests refl] by blast
  show ?thesis
    by (intro exI [of _ sys] conjI, rule run, simp add: m, rule relay_implements_view [OF run _ sys_step.connect]) simp
qed

end
