(* ===== verification/Client_Stats.thy ===== *)
theory Client_Stats
  imports Metrics Packet
begin

text \<open>
  What the client measures: \<open>stats.rs\<close>. The latency rings are the relay's, lost packets are counted
  from the gaps in the sequence numbers, and the viewer report the relay receives is drawn from both.
  A \<open>Duration\<close> is a number of nanoseconds; the \<open>i128\<close> sums of clock readings are integers.
\<close>

section \<open>Latency samples\<close>

definition LATENCY_SAMPLE_CAPACITY :: nat where
  "LATENCY_SAMPLE_CAPACITY = 64"

record latency_samples =
  ls_values :: "u16 list"
  ls_len :: nat
  ls_next :: nat

definition latency_samples_default :: latency_samples where
  "latency_samples_default =
     \<lparr>ls_values = replicate LATENCY_SAMPLE_CAPACITY 0, ls_len = 0, ls_next = 0\<rparr>"

definition latency_push :: "u16 \<Rightarrow> latency_samples \<Rightarrow> latency_samples" where
  "latency_push v r =
     r\<lparr>ls_values := (ls_values r)[ls_next r := v],
       ls_next := (ls_next r + 1) mod LATENCY_SAMPLE_CAPACITY,
       ls_len := min (ls_len r + 1) LATENCY_SAMPLE_CAPACITY\<rparr>"

definition latency_percentile :: "nat \<Rightarrow> latency_samples \<Rightarrow> u16" where
  "latency_percentile percentile r =
     (if ls_len r = 0 then 0
      else
        let samples = sort (take (ls_len r) (ls_values r));
            index = div_ceil (unat (sat_mul (of_nat (ls_len r - 1) :: u32)
                                            (of_nat (min percentile 100)))) 100
        in samples ! min index (length samples - 1))"

definition duration_to_millis :: "nat \<Rightarrow> u16" where
  "duration_to_millis duration = of_nat (min (duration div 1000000) 65535)"

definition stats_delta_to_millis :: "u64 \<Rightarrow> u64 \<Rightarrow> u16" where
  "stats_delta_to_millis start_micros end_micros =
     ucast (min (sat_sub end_micros start_micros div 1000) 65535)"

section \<open>Broadcaster statistics\<close>

record client_pipeline_stats =
  cp_capture_queue_len :: u8
  cp_encode_queue_len :: u8
  cp_network_queue_len :: u16

definition is_accumulating_latency :: "client_pipeline_stats \<Rightarrow> bool" where
  "is_accumulating_latency s \<longleftrightarrow> 1 < cp_capture_queue_len s \<or> 1 < cp_encode_queue_len s"

record broadcaster_timing_snapshot =
  bt_capture_ms_p50 :: u16
  bt_capture_ms_p95 :: u16
  bt_encode_ms_p50 :: u16
  bt_encode_ms_p95 :: u16
  bt_packetize_ms_p50 :: u16
  bt_packetize_ms_p95 :: u16
  bt_send_ms_p50 :: u16
  bt_send_ms_p95 :: u16

record client_broadcaster_stats =
  cb_capture_samples_ms :: latency_samples
  cb_encode_samples_ms :: latency_samples
  cb_packetize_samples_ms :: latency_samples
  cb_send_samples_ms :: latency_samples

definition record_capture_duration where
  "record_capture_duration d s =
     s\<lparr>cb_capture_samples_ms := latency_push (duration_to_millis d) (cb_capture_samples_ms s)\<rparr>"

definition record_encode_duration where
  "record_encode_duration d s =
     s\<lparr>cb_encode_samples_ms := latency_push (duration_to_millis d) (cb_encode_samples_ms s)\<rparr>"

definition record_packetize_duration where
  "record_packetize_duration d s =
     s\<lparr>cb_packetize_samples_ms := latency_push (duration_to_millis d) (cb_packetize_samples_ms s)\<rparr>"

definition record_send_duration where
  "record_send_duration d s =
     s\<lparr>cb_send_samples_ms := latency_push (duration_to_millis d) (cb_send_samples_ms s)\<rparr>"

definition timing_snapshot :: "client_broadcaster_stats \<Rightarrow> broadcaster_timing_snapshot" where
  "timing_snapshot s =
     \<lparr>bt_capture_ms_p50 = latency_percentile 50 (cb_capture_samples_ms s),
      bt_capture_ms_p95 = latency_percentile 95 (cb_capture_samples_ms s),
      bt_encode_ms_p50 = latency_percentile 50 (cb_encode_samples_ms s),
      bt_encode_ms_p95 = latency_percentile 95 (cb_encode_samples_ms s),
      bt_packetize_ms_p50 = latency_percentile 50 (cb_packetize_samples_ms s),
      bt_packetize_ms_p95 = latency_percentile 95 (cb_packetize_samples_ms s),
      bt_send_ms_p50 = latency_percentile 50 (cb_send_samples_ms s),
      bt_send_ms_p95 = latency_percentile 95 (cb_send_samples_ms s)\<rparr>"

section \<open>Viewer statistics\<close>

record client_media_stats =
  cm_received_packets :: u64
  cm_lost_packets :: u64
  cm_decoded_frames :: u64
  cm_rendered_frames :: u64
  cm_dropped_frames :: u64
  cm_jitter_buffer_ms :: u16
  cm_estimated_latency_ms :: u16
  cm_calibrated_latency_ms :: u16
  cm_sender_encode_ms :: u16
  cm_sender_send_ms :: u16
  cm_server_queue_ms :: u16
  cm_last_sequence_number :: "u32 option"
  cm_reassembly_samples_ms :: latency_samples
  cm_sender_encode_samples_ms :: latency_samples
  cm_sender_send_samples_ms :: latency_samples
  cm_server_queue_samples_ms :: latency_samples
  cm_decode_samples_ms :: latency_samples
  cm_render_samples_ms :: latency_samples
  cm_first_render_time_micros :: u64
  cm_last_render_time_micros :: u64

definition client_media_stats_default :: client_media_stats where
  "client_media_stats_default =
     \<lparr>cm_received_packets = 0, cm_lost_packets = 0, cm_decoded_frames = 0, cm_rendered_frames = 0,
      cm_dropped_frames = 0, cm_jitter_buffer_ms = 0, cm_estimated_latency_ms = 0,
      cm_calibrated_latency_ms = 0, cm_sender_encode_ms = 0, cm_sender_send_ms = 0,
      cm_server_queue_ms = 0, cm_last_sequence_number = None,
      cm_reassembly_samples_ms = latency_samples_default,
      cm_sender_encode_samples_ms = latency_samples_default,
      cm_sender_send_samples_ms = latency_samples_default,
      cm_server_queue_samples_ms = latency_samples_default,
      cm_decode_samples_ms = latency_samples_default,
      cm_render_samples_ms = latency_samples_default,
      cm_first_render_time_micros = 0, cm_last_render_time_micros = 0\<rparr>"

definition record_packet :: "media_packet \<Rightarrow> client_media_stats \<Rightarrow> client_media_stats" where
  "record_packet packet s =
     (let s = s\<lparr>cm_received_packets := sat_add (cm_received_packets s) 1\<rparr>;
          sequence_number = h_sequence_number (p_header packet)
      in case cm_last_sequence_number s of
           None \<Rightarrow> s\<lparr>cm_last_sequence_number := Some sequence_number\<rparr>
         | Some previous \<Rightarrow>
             let distance = sequence_number - previous in
             if 0 < distance \<and> distance < 4294967295 div 2
             then s\<lparr>cm_lost_packets := sat_add (cm_lost_packets s) (ucast (distance - 1)),
                    cm_last_sequence_number := Some sequence_number\<rparr>
             else s)"

definition record_decoded_frame :: "client_media_stats \<Rightarrow> client_media_stats" where
  "record_decoded_frame s = s\<lparr>cm_decoded_frames := sat_add (cm_decoded_frames s) 1\<rparr>"

definition record_reassembly_millis :: "u16 \<Rightarrow> client_media_stats \<Rightarrow> client_media_stats" where
  "record_reassembly_millis ms s =
     s\<lparr>cm_reassembly_samples_ms := latency_push ms (cm_reassembly_samples_ms s)\<rparr>"

definition record_decode_duration :: "nat \<Rightarrow> client_media_stats \<Rightarrow> client_media_stats" where
  "record_decode_duration d s =
     s\<lparr>cm_decode_samples_ms := latency_push (duration_to_millis d) (cm_decode_samples_ms s)\<rparr>"

definition record_render_duration :: "nat \<Rightarrow> u64 \<Rightarrow> client_media_stats \<Rightarrow> client_media_stats" where
  "record_render_duration d render_time_micros s =
     s\<lparr>cm_rendered_frames := sat_add (cm_rendered_frames s) 1,
       cm_render_samples_ms := latency_push (duration_to_millis d) (cm_render_samples_ms s),
       cm_first_render_time_micros :=
         (if cm_first_render_time_micros s = 0 then render_time_micros
          else cm_first_render_time_micros s),
       cm_last_render_time_micros := render_time_micros\<rparr>"

definition record_dropped_frame :: "client_media_stats \<Rightarrow> client_media_stats" where
  "record_dropped_frame s = s\<lparr>cm_dropped_frames := sat_add (cm_dropped_frames s) 1\<rparr>"

definition record_dropped_frames :: "u64 \<Rightarrow> client_media_stats \<Rightarrow> client_media_stats" where
  "record_dropped_frames dropped_frames s =
     s\<lparr>cm_dropped_frames := sat_add (cm_dropped_frames s) dropped_frames\<rparr>"

definition record_estimated_latency :: "u64 \<Rightarrow> u64 \<Rightarrow> client_media_stats \<Rightarrow> client_media_stats" where
  "record_estimated_latency sender_capture_time_micros receive_time_micros s =
     (if sender_capture_time_micros = 0 \<or> receive_time_micros < sender_capture_time_micros then s
      else s\<lparr>cm_estimated_latency_ms :=
               ucast (min (sat_sub receive_time_micros sender_capture_time_micros div 1000) 65535)\<rparr>)"

definition record_calibrated_latency ::
  "u64 \<Rightarrow> i64 \<Rightarrow> u64 \<Rightarrow> i64 \<Rightarrow> client_media_stats \<Rightarrow> client_media_stats" where
  "record_calibrated_latency sender_capture_time_micros sender_clock_offset_micros
     receive_time_micros receiver_clock_offset_micros s =
     (if sender_capture_time_micros = 0 then s
      else
        let sender_capture_relay_micros =
              uint sender_capture_time_micros + sint sender_clock_offset_micros;
            receiver_receive_relay_micros =
              uint receive_time_micros + sint receiver_clock_offset_micros
        in if receiver_receive_relay_micros < sender_capture_relay_micros then s
           else s\<lparr>cm_calibrated_latency_ms := of_int
                    (min ((receiver_receive_relay_micros - sender_capture_relay_micros) div 1000)
                       65535)\<rparr>)"

definition record_sender_timestamps ::
  "u64 \<Rightarrow> u64 \<Rightarrow> u64 \<Rightarrow> client_media_stats \<Rightarrow> client_media_stats" where
  "record_sender_timestamps sender_capture_time_micros sender_encode_done_time_micros
     sender_send_time_micros s =
     (if sender_capture_time_micros = 0 then s
      else
        let s = (if sender_capture_time_micros \<le> sender_encode_done_time_micros
              then
                let encode_ms = stats_delta_to_millis sender_capture_time_micros
                      sender_encode_done_time_micros
                in s\<lparr>cm_sender_encode_ms := encode_ms,
                     cm_sender_encode_samples_ms :=
                       latency_push encode_ms (cm_sender_encode_samples_ms s)\<rparr>
              else s)
        in if sender_capture_time_micros \<le> sender_send_time_micros
           then
             let send_ms = stats_delta_to_millis sender_capture_time_micros sender_send_time_micros
             in s\<lparr>cm_sender_send_ms := send_ms,
                  cm_sender_send_samples_ms := latency_push send_ms (cm_sender_send_samples_ms s)\<rparr>
           else s)"

definition record_server_queue_latency ::
  "u64 \<Rightarrow> u64 \<Rightarrow> client_media_stats \<Rightarrow> client_media_stats" where
  "record_server_queue_latency server_receive_time_micros server_send_time_micros s =
     (if server_receive_time_micros = 0 \<or> server_send_time_micros < server_receive_time_micros then s
      else
        let latency_ms =
              ucast (min (sat_sub server_send_time_micros server_receive_time_micros div 1000) 65535)
        in s\<lparr>cm_server_queue_ms := latency_ms,
             cm_server_queue_samples_ms := latency_push latency_ms (cm_server_queue_samples_ms s)\<rparr>)"

definition render_fps :: "client_media_stats \<Rightarrow> u16" where
  "render_fps s =
     (if cm_rendered_frames s < 2 \<or> cm_last_render_time_micros s \<le> cm_first_render_time_micros s
      then 0
      else
        let elapsed_micros = sat_sub (cm_last_render_time_micros s) (cm_first_render_time_micros s);
            scaled = sat_mul (sat_sub (cm_rendered_frames s) 1) 1000000
        in ucast (min (if elapsed_micros = 0 then 0 else scaled div elapsed_micros) 65535))"

definition to_viewer_report ::
  "room_id \<Rightarrow> stream_id \<Rightarrow> client_media_stats \<Rightarrow> viewer_stats_report" where
  "to_viewer_report rid sid s =
     \<lparr>vsr_room_id = rid, vsr_stream_id = sid, vsr_received_packets = cm_received_packets s,
      vsr_lost_packets = cm_lost_packets s, vsr_decoded_frames = cm_decoded_frames s,
      vsr_dropped_frames = cm_dropped_frames s, vsr_jitter_buffer_ms = cm_jitter_buffer_ms s,
      vsr_estimated_latency_ms = cm_estimated_latency_ms s,
      vsr_calibrated_latency_ms = cm_calibrated_latency_ms s,
      vsr_reassembly_ms_p50 = latency_percentile 50 (cm_reassembly_samples_ms s),
      vsr_reassembly_ms_p95 = latency_percentile 95 (cm_reassembly_samples_ms s),
      vsr_decode_ms_p50 = latency_percentile 50 (cm_decode_samples_ms s),
      vsr_decode_ms_p95 = latency_percentile 95 (cm_decode_samples_ms s),
      vsr_render_ms_p50 = latency_percentile 50 (cm_render_samples_ms s),
      vsr_render_ms_p95 = latency_percentile 95 (cm_render_samples_ms s),
      vsr_render_fps = render_fps s\<rparr>"

section \<open>Lemmas: the rings are the relay's\<close>

definition as_relay_samples :: "latency_samples \<Rightarrow> route_latency_samples" where
  "as_relay_samples r = \<lparr>ring_values = ls_values r, ring_len = ls_len r, ring_next = ls_next r\<rparr>"

lemma as_relay_default: "as_relay_samples latency_samples_default = samples_default"
  by (simp add: as_relay_samples_def latency_samples_default_def samples_default_def
      LATENCY_SAMPLE_CAPACITY_def ROUTE_SAMPLE_CAPACITY_def)

lemma as_relay_push: "as_relay_samples (latency_push v r) = samples_push v (as_relay_samples r)"
  by (simp add: as_relay_samples_def latency_push_def samples_push_def LATENCY_SAMPLE_CAPACITY_def
      ROUTE_SAMPLE_CAPACITY_def)

lemma latency_percentile_relay: "latency_percentile p r = samples_percentile p (as_relay_samples r)"
  by (simp add: as_relay_samples_def latency_percentile_def samples_percentile_def)

lemma as_relay_fold:
  "as_relay_samples (fold latency_push vs r) = fold samples_push vs (as_relay_samples r)"
  by (induction vs arbitrary: r) (simp_all add: as_relay_push)

text \<open>The percentile of the last 64 values recorded.\<close>

definition window_percentile :: "nat \<Rightarrow> u16 list \<Rightarrow> u16" where
  "window_percentile p vs =
     (let w = last_n LATENCY_SAMPLE_CAPACITY vs
      in if w = [] then 0 else sort w ! percentile_rank (length w) p)"

lemma latency_percentile_fold:
  "latency_percentile p (fold latency_push vs latency_samples_default) = window_percentile p vs"
proof -
  let ?r = "fold samples_push vs samples_default"
  have inv: "samples_inv ?r" and w: "window ?r = last_n LATENCY_SAMPLE_CAPACITY vs"
    using ring_window_inv [of vs] by (simp_all add: ROUTE_SAMPLE_CAPACITY_def LATENCY_SAMPLE_CAPACITY_def)
  show ?thesis
  proof (cases "window ?r = []")
    case True
    with length_window [OF inv] have "ring_len ?r = 0" by simp
    with True w show ?thesis
      by (simp add: latency_percentile_relay as_relay_fold as_relay_default samples_percentile_def
          window_percentile_def)
  next
    case False
    with samples_percentile_window [OF inv False] w show ?thesis
      by (simp add: latency_percentile_relay as_relay_fold as_relay_default window_percentile_def Let_def)
  qed
qed

section \<open>Lemmas: counting packets\<close>

text \<open>Packet numbers that increase by less than half of the sequence space at a time.\<close>

fun steps_forward :: "nat list \<Rightarrow> bool" where
  "steps_forward (d # e # ds) \<longleftrightarrow> d < e \<and> e - d < 2147483647 \<and> steps_forward (e # ds)"
| "steps_forward _ \<longleftrightarrow> True"

lemma steps_forward_last: "steps_forward (d # ds) \<Longrightarrow> d + length ds \<le> last (d # ds)"
proof (induction ds arbitrary: d)
  case (Cons e ds)
  from Cons.prems have "d < e" "e + length ds \<le> last (e # ds)" using Cons.IH [of e] by simp_all
  then show ?case by simp
qed simp

lemma unat_sat_add_u64: "unat a + n < 2 ^ 64 \<Longrightarrow> unat (b :: u64) = n \<Longrightarrow> unat (sat_add a b) = unat a + n"
  by (simp add: unat_sat_add min_def)

lemma unat_ucast_u64: "unat (ucast (x :: u32) :: u64) = unat x"
  by (simp add: unsigned_ucast_eq take_bit_nat_eq_self_iff unat_u32_less [THEN less_trans])

lemma record_packet_forward:
  assumes "cm_last_sequence_number s = Some (b + of_nat d)"
    and "h_sequence_number (p_header p) = b + of_nat e" and "d < e" "e - d < 2147483647"
    and "unat (cm_lost_packets s) + (e - d - 1) < 2 ^ 64" and "unat (cm_received_packets s) + 1 < 2 ^ 64"
  shows "cm_last_sequence_number (record_packet p s) = Some (b + of_nat e) \<and>
    unat (cm_lost_packets (record_packet p s)) = unat (cm_lost_packets s) + (e - d - 1) \<and>
    unat (cm_received_packets (record_packet p s)) = unat (cm_received_packets s) + 1"
proof -
  let ?x = "of_nat (e - d) :: u32"
  have dist: "of_nat e - of_nat d = ?x" using assms(3) by (simp add: of_nat_diff)
  have x: "unat ?x = e - d" using assms(4) by (intro of_nat_unat_le) simp
  then have pos: "0 < ?x" "?x < 4294967295 div 2" using assms(3,4)
    by (simp_all add: word_less_nat_alt)
  have "unat (?x - 1) = e - d - 1" using x assms(3) pos(1)
    by (subst unat_minus_one) (auto simp: unat_eq_zero)
  then have lost: "unat (ucast (?x - 1) :: u64) = e - d - 1" by (simp add: unat_ucast_u64)
  show ?thesis
    using assms(1,2,5,6) unat_sat_add_u64 [OF assms(5) lost] unat_sat_add_u64 [OF assms(6), of 1] pos
    unfolding record_packet_def Let_def by (simp add: dist del: of_nat_diff)
qed

lemma record_packets_forward:
  assumes "steps_forward (d # ds)" and "map (\<lambda>p. h_sequence_number (p_header p)) ps = map (\<lambda>e. b + of_nat e) ds"
    and "cm_last_sequence_number s = Some (b + of_nat d)"
    and "unat (cm_lost_packets s) + (last (d # ds) - d - length ds) < 2 ^ 64"
    and "unat (cm_received_packets s) + length ds < 2 ^ 64"
  shows "unat (cm_lost_packets (fold record_packet ps s)) =
      unat (cm_lost_packets s) + (last (d # ds) - d - length ds) \<and>
    unat (cm_received_packets (fold record_packet ps s)) = unat (cm_received_packets s) + length ds"
  using assms
proof (induction ds arbitrary: d ps s)
  case (Cons e ds)
  then obtain p ps' where ps: "ps = p # ps'" by (cases ps) auto
  have step: "d < e" "e - d < 2147483647" and rest: "steps_forward (e # ds)"
    using Cons.prems(1) by simp_all
  have le: "e + length ds \<le> last (e # ds)" using steps_forward_last [OF rest] .
  then have split: "last (d # e # ds) - d - length (e # ds) = (e - d - 1) + (last (e # ds) - e - length ds)"
    using step by simp
  have now: "cm_last_sequence_number (record_packet p s) = Some (b + of_nat e)"
    "unat (cm_lost_packets (record_packet p s)) = unat (cm_lost_packets s) + (e - d - 1)"
    "unat (cm_received_packets (record_packet p s)) = unat (cm_received_packets s) + 1"
    using record_packet_forward [OF Cons.prems(3) _ step, of p] Cons.prems(2,4,5)
    unfolding split by (simp_all add: ps)
  have "unat (cm_lost_packets (fold record_packet ps' (record_packet p s))) =
      unat (cm_lost_packets (record_packet p s)) + (last (e # ds) - e - length ds) \<and>
    unat (cm_received_packets (fold record_packet ps' (record_packet p s))) =
      unat (cm_received_packets (record_packet p s)) + length ds"
    by (rule Cons.IH [OF rest _ now(1)]) (use Cons.prems(2,4,5) now split in \<open>simp_all add: ps\<close>)
  then show ?case unfolding split by (simp add: ps now)
qed simp

section \<open>Properties\<close>

text \<open>
  Losses are counted exactly: when packets arrive in order, whatever the first sequence number and
  even across the wrap around of the numbers, the packets counted as lost are those missing between
  the first and the last, as long as no gap reaches half of the sequence space.
\<close>

theorem loss_counts_gaps:
  assumes "map (\<lambda>p. h_sequence_number (p_header p)) ps = map (\<lambda>e. b + of_nat e) (d # ds)"
    and "steps_forward (d # ds)" and "last (d # ds) - d < 2 ^ 63"
  shows "let s = fold record_packet ps client_media_stats_default in
    unat (cm_received_packets s) = length (d # ds) \<and>
    unat (cm_received_packets s) + unat (cm_lost_packets s) = last (d # ds) - d + 1"
proof -
  obtain p ps' where ps: "ps = p # ps'" using assms(1) by (cases ps) auto
  let ?s = "record_packet p client_media_stats_default"
  have le: "d + length ds \<le> last (d # ds)" by (rule steps_forward_last [OF assms(2)])
  have s: "cm_last_sequence_number ?s = Some (b + of_nat d)" "cm_lost_packets ?s = 0"
    "cm_received_packets ?s = 1"
    using assms(1)
    by (simp_all add: ps record_packet_def client_media_stats_default_def Let_def sat_add_def)
  have "unat (cm_lost_packets (fold record_packet ps' ?s)) =
      unat (cm_lost_packets ?s) + (last (d # ds) - d - length ds) \<and>
    unat (cm_received_packets (fold record_packet ps' ?s)) = unat (cm_received_packets ?s) + length ds"
    by (rule record_packets_forward [OF assms(2) _ s(1)])
      (use assms(1,3) le s in \<open>auto simp: ps\<close>)
  then show ?thesis using le by (simp add: ps s Let_def)
qed

text \<open>Sequence numbers 4294967294, 0 and 1: one packet, the one before the wrap, is missing.\<close>

definition numbered_packet :: "u32 \<Rightarrow> media_packet" where
  "numbered_packet n = \<lparr>p_header = header_new Video H264 1 n 0, p_payload = []\<rparr>"

theorem loss_counts_gaps_witness:
  "let s = fold record_packet (map numbered_packet [4294967294, 0, 1]) client_media_stats_default in
   unat (cm_received_packets s) + unat (cm_lost_packets s) = 4"
  using loss_counts_gaps [of "map numbered_packet [4294967294, 0, 1]" 4294967294 0 "[2, 3]"]
  by (simp add: numbered_packet_def header_new_def Let_def)

lemma fold_reassembly:
  "fold record_reassembly_millis vs s =
     s\<lparr>cm_reassembly_samples_ms := fold latency_push vs (cm_reassembly_samples_ms s)\<rparr>"
  by (induction vs arbitrary: s) (simp_all add: record_reassembly_millis_def)

lemma fold_decode:
  "fold record_decode_duration vs s =
     s\<lparr>cm_decode_samples_ms := fold latency_push (map duration_to_millis vs) (cm_decode_samples_ms s)\<rparr>"
  by (induction vs arbitrary: s) (simp_all add: record_decode_duration_def)

lemma fold_render:
  "fold (\<lambda>(d, t). record_render_duration d t) vs s =
     s\<lparr>cm_rendered_frames := fold (\<lambda>_ n. sat_add n 1) vs (cm_rendered_frames s),
       cm_render_samples_ms :=
         fold latency_push (map (\<lambda>(d, _). duration_to_millis d) vs) (cm_render_samples_ms s),
       cm_first_render_time_micros :=
         fold (\<lambda>(_, t) f. if f = 0 then t else f) vs (cm_first_render_time_micros s),
       cm_last_render_time_micros := fold (\<lambda>(_, t) _. t) vs (cm_last_render_time_micros s)\<rparr>"
proof (induction vs arbitrary: s)
  case (Cons v vs)
  then show ?case by (cases v) (simp add: record_render_duration_def)
qed simp

text \<open>
  The viewer report is drawn from the last 64 measurements: its medians and 95th percentiles of
  reassembly, decoding and rendering are those of the last 64 times recorded of each.
\<close>

theorem viewer_report_percentiles:
  "let s = fold record_reassembly_millis rs (fold record_decode_duration ds
         (fold (\<lambda>(d, t). record_render_duration d t) vs client_media_stats_default));
       r = to_viewer_report rid sid s;
       render = map (\<lambda>(d, _). duration_to_millis d) vs
   in vsr_reassembly_ms_p50 r = window_percentile 50 rs \<and>
      vsr_reassembly_ms_p95 r = window_percentile 95 rs \<and>
      vsr_decode_ms_p50 r = window_percentile 50 (map duration_to_millis ds) \<and>
      vsr_decode_ms_p95 r = window_percentile 95 (map duration_to_millis ds) \<and>
      vsr_render_ms_p50 r = window_percentile 50 render \<and>
      vsr_render_ms_p95 r = window_percentile 95 render"
  by (simp add: Let_def fold_reassembly fold_decode fold_render to_viewer_report_def
      client_media_stats_default_def latency_percentile_fold)

end
