(* ===== verification/Client_Lib.thy ===== *)
theory Client_Lib
  imports Prelude
begin

text \<open>
  Operations of the Rust standard library that several parts of the client use: the least and the
  greatest element of an iterator by a key, searching a slice, and arithmetic on \<open>Duration\<close>s, which
  are numbers of nanoseconds.
\<close>

section \<open>Least and greatest elements\<close>

text \<open>\<open>Iterator::min_by_key\<close>: the first of the least elements.\<close>

fun min_by_key :: "('a \<Rightarrow> 'k::linorder) \<Rightarrow> 'a list \<Rightarrow> 'a option" where
  "min_by_key key [] = None"
| "min_by_key key (x # xs) =
     (case min_by_key key xs of
        None \<Rightarrow> Some x
      | Some y \<Rightarrow> if key x \<le> key y then Some x else Some y)"

text \<open>\<open>Iterator::max_by_key\<close>: the last of the greatest elements.\<close>

fun max_by_key :: "('a \<Rightarrow> 'k::linorder) \<Rightarrow> 'a list \<Rightarrow> 'a option" where
  "max_by_key key [] = None"
| "max_by_key key (x # xs) =
     (case max_by_key key xs of
        None \<Rightarrow> Some x
      | Some y \<Rightarrow> if key x \<le> key y then Some y else Some x)"

lemma min_by_key_None [simp]: "min_by_key key xs = None \<longleftrightarrow> xs = []"
  by (cases xs) (simp_all split: option.split)

lemma min_by_key_Min:
  "min_by_key key xs = Some x \<Longrightarrow> x \<in> set xs \<and> key x = Min (key ` set xs)"
proof (induction xs arbitrary: x)
  case (Cons a xs)
  show ?case
  proof (cases "min_by_key key xs")
    case None
    with Cons.prems show ?thesis by simp
  next
    case (Some y)
    then have "xs \<noteq> []" by auto
    with Cons.IH [OF Some] Cons.prems Some show ?thesis by (auto simp: min_def split: if_splits)
  qed
qed simp

lemma min_by_key_id:
  "map_option key (min_by_key key (filter P xs)) =
     (if {x \<in> set xs. P x} = {} then None else Some (Min (key ` {x \<in> set xs. P x})))"
proof (cases "filter P xs = []")
  case True
  then show ?thesis by (simp add: filter_empty_conv)
next
  case False
  then obtain x where x: "min_by_key key (filter P xs) = Some x"
    using min_by_key_None [of key "filter P xs"] by blast
  from False have "{x \<in> set xs. P x} \<noteq> {}" by (auto simp: filter_empty_conv)
  with min_by_key_Min [OF x] show ?thesis by (simp add: x)
qed

lemma max_by_key_None [simp]: "max_by_key key xs = None \<longleftrightarrow> xs = []"
  by (cases xs) (simp_all split: option.split)

lemma max_by_key_Max:
  "max_by_key key xs = Some x \<Longrightarrow> x \<in> set xs \<and> key x = Max (key ` set xs)"
proof (induction xs arbitrary: x)
  case (Cons a xs)
  show ?case
  proof (cases "max_by_key key xs")
    case None
    with Cons.prems show ?thesis by simp
  next
    case (Some y)
    then have "xs \<noteq> []" by auto
    with Cons.IH [OF Some] Cons.prems Some show ?thesis by (auto simp: max_def split: if_splits)
  qed
qed simp

section \<open>Searching\<close>

lemma find_Some_id: "list_ex P xs \<Longrightarrow> \<exists>x. List.find P xs = Some x \<and> P x"
  by (induction xs) auto

section \<open>Durations\<close>

definition from_millis :: "nat \<Rightarrow> nat" where
  "from_millis ms = ms * 1000000"

definition from_micros :: "nat \<Rightarrow> nat" where
  "from_micros us = us * 1000"

end
