(* ===== verification/Client_App.thy ===== *)
theory Client_App
  imports Control_Msg Client_Lib
begin

text \<open>
  The state of the client's user interface: \<open>app.rs\<close>. A channel is a room of the relay; the view
  holds the channels with their participants and streams, the selected channel and the local voice
  and screen-sharing controls. The results: the selection always names a channel there is, push to
  talk is active only when it can be heard, and what a discovery of the relay shows.
\<close>

section \<open>State\<close>

datatype client_role = Broadcaster | Viewer

datatype connection_status = Disconnected | Connecting | Connected

record participant_view =
  pv_user_id :: user_id
  pv_display_name :: rstring
  pv_muted :: bool
  pv_deafened :: bool
  pv_push_to_talk :: bool
  pv_speaking :: bool
  pv_sharing_screen :: bool

record screen_stream_view =
  ssv_stream_id :: stream_id
  ssv_publisher_id :: user_id
  ssv_codec :: codec_id
  ssv_title :: rstring
  ssv_width :: u32
  ssv_height :: u32
  ssv_frames_per_second :: u16
  ssv_subscribed :: bool
  ssv_rendered_frames :: u64
  ssv_dropped_frames :: u64
  ssv_latency_ms :: u16
  ssv_bitrate_bps :: u32

record voice_stream_view =
  vv_stream_id :: stream_id
  vv_publisher_id :: user_id
  vv_codec :: codec_id
  vv_frames_per_second :: u16
  vv_subscribed :: bool
  vv_decoded_frames :: u64
  vv_dropped_frames :: u64
  vv_latency_ms :: u16
  vv_bitrate_bps :: u32

record channel_view =
  ch_channel_id :: room_id
  ch_name :: rstring
  ch_participant_count :: u32
  ch_published_stream_count :: u32
  ch_participants :: "participant_view list"
  ch_screen_stream :: "screen_stream_view option"
  ch_voice_stream :: "voice_stream_view option"

record voice_control_state =
  vc_muted :: bool
  vc_deafened :: bool
  vc_push_to_talk :: bool
  vc_ptt_active :: bool
  vc_input_label :: rstring
  vc_output_label :: rstring

record screen_share_control_state =
  ss_sharing :: bool
  ss_stream_id :: stream_id
  ss_source_label :: rstring
  ss_target_width :: u32
  ss_target_height :: u32
  ss_target_fps :: u16

record client_app =
  app_role :: client_role
  app_connection :: connection_status
  app_relay_addr :: rstring
  app_local_user_id :: "user_id option"
  app_selected_channel_id :: "room_id option"
  app_channels :: "channel_view list"
  app_local_voice :: voice_control_state
  app_local_screen_share :: screen_share_control_state
  app_status_line :: rstring

record client_app_discovery =
  disc_role :: client_role
  disc_relay_addr :: rstring
  disc_local_user_id :: "user_id option"
  disc_selected_channel_id :: "room_id option"
  disc_rooms :: "room_summary list"
  disc_streams :: "stream_summary list"
  disc_stream_configs :: "stream_config list"
  disc_participants :: "participant_summary list"
  disc_local_voice :: voice_control_state
  disc_local_screen_share :: screen_share_control_state

definition voice_control_default :: voice_control_state where
  "voice_control_default =
     \<lparr>vc_muted = False, vc_deafened = False, vc_push_to_talk = False, vc_ptt_active = False,
      vc_input_label = lit ''Default microphone'', vc_output_label = lit ''Default speaker''\<rparr>"

definition screen_share_default :: screen_share_control_state where
  "screen_share_default =
     \<lparr>ss_sharing = False, ss_stream_id = 1, ss_source_label = lit ''Primary monitor'',
      ss_target_width = 1280, ss_target_height = 720, ss_target_fps = 30\<rparr>"

section \<open>Views of what the relay lists\<close>

definition stream_config_for :: "stream_summary \<Rightarrow> stream_config list \<Rightarrow> stream_config option" where
  "stream_config_for stream stream_configs =
     List.find (\<lambda>config. sc_room_id config = ssum_room_id stream \<and>
       sc_stream_id config = ssum_stream_id stream) stream_configs"

definition screen_stream_from_summary ::
  "stream_summary \<Rightarrow> stream_config list \<Rightarrow> screen_stream_view" where
  "screen_stream_from_summary stream stream_configs =
     (let config = stream_config_for stream stream_configs in
      \<lparr>ssv_stream_id = ssum_stream_id stream, ssv_publisher_id = ssum_publisher_id stream,
       ssv_codec = ssum_codec stream,
       ssv_title = lit ''Screen stream '' @ dec (unat (ssum_stream_id stream)),
       ssv_width = (case config of Some config \<Rightarrow> sc_width config | None \<Rightarrow> 0),
       ssv_height = (case config of Some config \<Rightarrow> sc_height config | None \<Rightarrow> 0),
       ssv_frames_per_second = (case config of
           Some config \<Rightarrow> sc_frames_per_second config
         | None \<Rightarrow> ssum_target_frames_per_second stream),
       ssv_subscribed = False, ssv_rendered_frames = 0, ssv_dropped_frames = 0, ssv_latency_ms = 0,
       ssv_bitrate_bps = ssum_target_bitrate_bps stream\<rparr>)"

definition voice_stream_from_summary ::
  "stream_summary \<Rightarrow> stream_config list \<Rightarrow> voice_stream_view" where
  "voice_stream_from_summary stream stream_configs =
     (let config = stream_config_for stream stream_configs in
      \<lparr>vv_stream_id = ssum_stream_id stream, vv_publisher_id = ssum_publisher_id stream,
       vv_codec = ssum_codec stream,
       vv_frames_per_second = (case config of
           Some config \<Rightarrow> sc_frames_per_second config
         | None \<Rightarrow> ssum_target_frames_per_second stream),
       vv_subscribed = False, vv_decoded_frames = 0, vv_dropped_frames = 0, vv_latency_ms = 0,
       vv_bitrate_bps = ssum_target_bitrate_bps stream\<rparr>)"

definition participant_from_summary ::
  "participant_summary \<Rightarrow> stream_summary list \<Rightarrow> participant_view" where
  "participant_from_summary participant streams =
     \<lparr>pv_user_id = psum_user_id participant, pv_display_name = psum_display_name participant,
      pv_muted = psum_muted participant, pv_deafened = psum_deafened participant,
      pv_push_to_talk = psum_push_to_talk participant, pv_speaking = psum_speaking participant,
      pv_sharing_screen = list_ex (\<lambda>stream. ssum_publisher_id stream = psum_user_id participant \<and>
        ssum_media_kind stream = Screen) streams\<rparr>"

definition channel_from_discovery ::
  "room_summary \<Rightarrow> stream_summary list \<Rightarrow> stream_config list \<Rightarrow> participant_summary list \<Rightarrow>
   channel_view"
where
  "channel_from_discovery room streams stream_configs participants =
     (let of_kind = (\<lambda>kind. filter (\<lambda>stream. ssum_room_id stream = rs_room_id room \<and>
            ssum_media_kind stream = kind) streams) in
      \<lparr>ch_channel_id = rs_room_id room, ch_name = rs_name room,
       ch_participant_count =
         (if participants = [] then rs_participant_count room
          else of_nat (min (length participants) 4294967295)),
       ch_published_stream_count = rs_published_stream_count room,
       ch_participants = map (\<lambda>participant. participant_from_summary participant streams) participants,
       ch_screen_stream = map_option (\<lambda>stream. screen_stream_from_summary stream stream_configs)
         (min_by_key ssum_stream_id (of_kind Screen)),
       ch_voice_stream = map_option (\<lambda>stream. voice_stream_from_summary stream stream_configs)
         (min_by_key ssum_stream_id (of_kind Voice))\<rparr>)"

definition channel_view_new :: "room_id \<Rightarrow> rstring \<Rightarrow> channel_view" where
  "channel_view_new channel_id name =
     \<lparr>ch_channel_id = channel_id, ch_name = name, ch_participant_count = 0,
      ch_published_stream_count = 0, ch_participants = [], ch_screen_stream = None,
      ch_voice_stream = None\<rparr>"

definition active_speaker_count :: "channel_view \<Rightarrow> nat" where
  "active_speaker_count channel =
     length (filter (\<lambda>participant. pv_speaking participant \<and> \<not> pv_muted participant)
       (ch_participants channel))"

definition screen_share_active :: "channel_view \<Rightarrow> bool" where
  "screen_share_active channel \<longleftrightarrow>
     ch_screen_stream channel \<noteq> None \<or> list_ex pv_sharing_screen (ch_participants channel)"

section \<open>Operations\<close>

definition client_app_new :: "client_role \<Rightarrow> client_app" where
  "client_app_new role =
     \<lparr>app_role = role, app_connection = Disconnected, app_relay_addr = lit ''127.0.0.1:4433'',
      app_local_user_id = None, app_selected_channel_id = None, app_channels = [],
      app_local_voice = voice_control_default, app_local_screen_share = screen_share_default,
      app_status_line = lit ''Disconnected''\<rparr>"

definition app_connecting :: "rstring \<Rightarrow> client_app \<Rightarrow> client_app" where
  "app_connecting relay_addr app =
     app\<lparr>app_connection := Connecting, app_relay_addr := relay_addr,
         app_status_line := lit ''Connecting to '' @ relay_addr\<rparr>"

definition app_connected :: "client_app \<Rightarrow> client_app" where
  "app_connected app =
     app\<lparr>app_connection := Connected,
         app_status_line := lit ''Connected to '' @ app_relay_addr app\<rparr>"

definition app_disconnected :: "client_app \<Rightarrow> client_app" where
  "app_disconnected app =
     app\<lparr>app_connection := Disconnected, app_selected_channel_id := None,
         app_status_line := lit ''Disconnected''\<rparr>"

definition has_channel :: "room_id \<Rightarrow> client_app \<Rightarrow> bool" where
  "has_channel channel_id app \<longleftrightarrow> list_ex (\<lambda>channel. ch_channel_id channel = channel_id) (app_channels app)"

definition first_channel_id :: "channel_view list \<Rightarrow> room_id option" where
  "first_channel_id channels =
     (case channels of [] \<Rightarrow> None | channel # _ \<Rightarrow> Some (ch_channel_id channel))"

definition set_channels :: "channel_view list \<Rightarrow> client_app \<Rightarrow> client_app" where
  "set_channels channels app =
     (let app = app\<lparr>app_channels := channels\<rparr>;
          app = (case app_selected_channel_id app of
              Some selected \<Rightarrow>
                if \<not> has_channel selected app then app\<lparr>app_selected_channel_id := None\<rparr> else app
            | None \<Rightarrow> app)
      in if app_selected_channel_id app = None
         then app\<lparr>app_selected_channel_id := first_channel_id (app_channels app)\<rparr> else app)"

definition select_channel :: "room_id \<Rightarrow> client_app \<Rightarrow> bool \<times> client_app" where
  "select_channel channel_id app =
     (if has_channel channel_id app
      then (True, app\<lparr>app_selected_channel_id := Some channel_id\<rparr>) else (False, app))"

definition selected_channel :: "client_app \<Rightarrow> channel_view option" where
  "selected_channel app =
     (case app_selected_channel_id app of
        None \<Rightarrow> None
      | Some channel_id \<Rightarrow>
          List.find (\<lambda>channel. ch_channel_id channel = channel_id) (app_channels app))"

definition set_muted :: "bool \<Rightarrow> client_app \<Rightarrow> client_app" where
  "set_muted muted app =
     (let voice = (app_local_voice app)\<lparr>vc_muted := muted\<rparr>
      in app\<lparr>app_local_voice := (if muted then voice\<lparr>vc_ptt_active := False\<rparr> else voice)\<rparr>)"

definition set_deafened :: "bool \<Rightarrow> client_app \<Rightarrow> client_app" where
  "set_deafened deafened app =
     (let app = app\<lparr>app_local_voice := (app_local_voice app)\<lparr>vc_deafened := deafened\<rparr>\<rparr>
      in if deafened then set_muted True app else app)"

definition set_push_to_talk :: "bool \<Rightarrow> client_app \<Rightarrow> client_app" where
  "set_push_to_talk enabled app =
     (let voice = (app_local_voice app)\<lparr>vc_push_to_talk := enabled\<rparr>
      in app\<lparr>app_local_voice := (if enabled then voice else voice\<lparr>vc_ptt_active := False\<rparr>)\<rparr>)"

definition set_ptt_active :: "bool \<Rightarrow> client_app \<Rightarrow> client_app" where
  "set_ptt_active active app =
     (let voice = app_local_voice app
      in app\<lparr>app_local_voice := voice\<lparr>vc_ptt_active :=
           active \<and> vc_push_to_talk voice \<and> \<not> vc_muted voice\<rparr>\<rparr>)"

definition local_speaking :: "client_app \<Rightarrow> bool" where
  "local_speaking app \<longleftrightarrow>
     (let voice = app_local_voice app
      in \<not> vc_muted voice \<and> (\<not> vc_push_to_talk voice \<or> vc_ptt_active voice))"

definition start_screen_share :: "rstring \<Rightarrow> client_app \<Rightarrow> client_app" where
  "start_screen_share source_label app =
     app\<lparr>app_local_screen_share :=
       (app_local_screen_share app)\<lparr>ss_sharing := True, ss_source_label := source_label\<rparr>\<rparr>"

definition stop_screen_share :: "client_app \<Rightarrow> client_app" where
  "stop_screen_share app =
     app\<lparr>app_local_screen_share := (app_local_screen_share app)\<lparr>ss_sharing := False\<rparr>\<rparr>"

definition app_from_discovery :: "client_app_discovery \<Rightarrow> client_app" where
  "app_from_discovery d =
     (let app = (client_app_new (disc_role d))
            \<lparr>app_connection := Connected, app_relay_addr := disc_relay_addr d,
             app_status_line := lit ''Connected to '' @ disc_relay_addr d,
             app_local_user_id := disc_local_user_id d, app_local_voice := disc_local_voice d,
             app_local_screen_share := disc_local_screen_share d\<rparr>;
          selected_channel_id = (case disc_selected_channel_id d of
              Some channel_id \<Rightarrow> Some channel_id
            | None \<Rightarrow> (case disc_rooms d of [] \<Rightarrow> None | room # _ \<Rightarrow> Some (rs_room_id room)));
          channels = map (\<lambda>room.
            if Some (rs_room_id room) = selected_channel_id
            then channel_from_discovery room (disc_streams d) (disc_stream_configs d)
                   (disc_participants d)
            else channel_from_discovery room [] [] []) (disc_rooms d);
          app = set_channels channels app
      in case selected_channel_id of
           Some channel_id \<Rightarrow> snd (select_channel channel_id app)
         | None \<Rightarrow> app)"

section \<open>Lemmas: the invariant\<close>

text \<open>The operations of the user interface and of the connection, as events.\<close>

datatype app_event =
    AppConnecting rstring
  | AppConnected
  | AppDisconnected
  | SetChannels "channel_view list"
  | SelectChannel room_id
  | SetMuted bool
  | SetDeafened bool
  | SetPushToTalk bool
  | SetPttActive bool
  | StartScreenShare rstring
  | StopScreenShare

fun app_apply :: "app_event \<Rightarrow> client_app \<Rightarrow> client_app" where
  "app_apply (AppConnecting relay_addr) = app_connecting relay_addr"
| "app_apply AppConnected = app_connected"
| "app_apply AppDisconnected = app_disconnected"
| "app_apply (SetChannels channels) = set_channels channels"
| "app_apply (SelectChannel channel_id) = (\<lambda>app. snd (select_channel channel_id app))"
| "app_apply (SetMuted muted) = set_muted muted"
| "app_apply (SetDeafened deafened) = set_deafened deafened"
| "app_apply (SetPushToTalk enabled) = set_push_to_talk enabled"
| "app_apply (SetPttActive active) = set_ptt_active active"
| "app_apply (StartScreenShare source_label) = start_screen_share source_label"
| "app_apply StopScreenShare = stop_screen_share"

text \<open>
  The states the interface can reach, from its start or from a discovery of the relay with voice
  controls in which push to talk is active only when it can be heard.
\<close>

definition ptt_audible :: "voice_control_state \<Rightarrow> bool" where
  "ptt_audible voice \<longleftrightarrow> (vc_ptt_active voice \<longrightarrow> vc_push_to_talk voice \<and> \<not> vc_muted voice)"

inductive app_reachable :: "client_app \<Rightarrow> bool" where
  start: "app_reachable (client_app_new role)"
| discovery: "ptt_audible (disc_local_voice d) \<Longrightarrow> app_reachable (app_from_discovery d)"
| step: "app_reachable app \<Longrightarrow> app_reachable (app_apply event app)"

definition app_inv :: "client_app \<Rightarrow> bool" where
  "app_inv app \<longleftrightarrow>
     ptt_audible (app_local_voice app) \<and>
     (\<forall>channel_id. app_selected_channel_id app = Some channel_id \<longrightarrow> has_channel channel_id app)"

lemma app_inv_voice:
  "app_inv app \<Longrightarrow> ptt_audible voice \<Longrightarrow> app_inv (app\<lparr>app_local_voice := voice\<rparr>)"
  by (simp add: app_inv_def has_channel_def)

lemma first_channel_id_has:
  "first_channel_id (app_channels app) = Some c \<Longrightarrow> has_channel c app"
  by (cases "app_channels app") (auto simp: first_channel_id_def has_channel_def)

lemma set_channels_inv:
  assumes "ptt_audible (app_local_voice app)"
  shows "app_inv (set_channels channels app)"
proof -
  have "has_channel c (set_channels channels app)"
    if "app_selected_channel_id (set_channels channels app) = Some c" for c
  proof -
    have ch: "app_channels (set_channels channels app) = channels"
      by (simp add: set_channels_def Let_def split: option.split)
    from that have "has_channel c (app\<lparr>app_channels := channels\<rparr>)"
      using first_channel_id_has [of "app\<lparr>app_channels := channels\<rparr>" c]
      by (auto simp: set_channels_def Let_def has_channel_def split: option.splits if_splits)
    then show ?thesis by (simp add: has_channel_def ch)
  qed
  moreover have "app_local_voice (set_channels channels app) = app_local_voice app"
    by (simp add: set_channels_def Let_def split: option.split)
  ultimately show ?thesis using assms by (simp add: app_inv_def)
qed

lemma select_channel_inv: "app_inv app \<Longrightarrow> app_inv (snd (select_channel c app))"
  by (auto simp: app_inv_def select_channel_def has_channel_def)

lemma set_muted_inv: "app_inv app \<Longrightarrow> app_inv (set_muted muted app)"
  by (auto simp: app_inv_def set_muted_def Let_def has_channel_def ptt_audible_def)

lemma app_inv_apply:
  assumes "app_inv app"
  shows "app_inv (app_apply event app)"
proof (cases event)
  case (SetChannels channels)
  have "ptt_audible (app_local_voice app)" using assms by (simp add: app_inv_def)
  then show ?thesis using SetChannels by (simp add: set_channels_inv)
next
  case (SetDeafened deafened)
  have "app_inv (app\<lparr>app_local_voice := (app_local_voice app)\<lparr>vc_deafened := deafened\<rparr>\<rparr>)"
    using assms by (intro app_inv_voice) (auto simp: app_inv_def ptt_audible_def)
  then show ?thesis using SetDeafened by (cases deafened) (simp_all add: set_deafened_def set_muted_inv)
qed (use assms in \<open>auto simp: app_inv_def ptt_audible_def has_channel_def app_connecting_def
    app_connected_def app_disconnected_def select_channel_def set_muted_def set_push_to_talk_def
    set_ptt_active_def start_screen_share_def stop_screen_share_def Let_def\<close>)

lemma app_inv_new: "app_inv (client_app_new role)"
  by (simp add: app_inv_def client_app_new_def voice_control_default_def ptt_audible_def)

lemma app_inv_from_discovery:
  "ptt_audible (disc_local_voice d) \<Longrightarrow> app_inv (app_from_discovery d)"
  unfolding app_from_discovery_def Let_def
  by (auto intro!: select_channel_inv set_channels_inv split: option.split)

section \<open>Properties\<close>

text \<open>
  Whatever the user and the relay do, in the state of the client the selected channel is one of
  its channels, so it can be shown, and push to talk is active only in push-to-talk mode and not muted.
\<close>

theorem client_state_consistent:
  assumes "app_reachable app"
  shows "ptt_audible (app_local_voice app) \<and>
    (app_selected_channel_id app = None \<longleftrightarrow> selected_channel app = None) \<and>
    map_option ch_channel_id (selected_channel app) = app_selected_channel_id app"
proof -
  from assms have inv: "app_inv app"
    by (induction rule: app_reachable.induct) (auto intro: app_inv_new app_inv_from_discovery app_inv_apply)
  have "map_option ch_channel_id (selected_channel app) = app_selected_channel_id app"
  proof (cases "app_selected_channel_id app")
    case (Some c)
    with inv have "list_ex (\<lambda>channel. ch_channel_id channel = c) (app_channels app)"
      by (simp add: app_inv_def has_channel_def)
    from find_Some_id [OF this] show ?thesis using Some by (auto simp: selected_channel_def)
  qed (simp add: selected_channel_def)
  moreover from this have "app_selected_channel_id app = None \<longleftrightarrow> selected_channel app = None"
    by (metis map_option_is_None)
  ultimately show ?thesis using inv by (auto simp: app_inv_def)
qed

theorem client_state_consistent_witness:
  "ptt_audible (app_local_voice
     (app_apply (SetMuted True) (app_apply (SetPttActive True)
        (app_apply (SetPushToTalk True) (client_app_new Viewer)))))"
  by (rule client_state_consistent [THEN conjunct1]) (intro app_reachable.intros)

text \<open>
  A discovery of the relay selects the channel asked for, or else the first one, and shows in it
  the screen stream and the voice stream of the smallest id that its room has.
\<close>

theorem discovery_view:
  "let rooms = disc_rooms d;
       app = app_from_discovery d;
       room_ids = map rs_room_id rooms;
       asked = disc_selected_channel_id d;
       channel = channel_from_discovery room streams configs participants;
       of_kind = (\<lambda>kind. {s \<in> set streams. ssum_room_id s = rs_room_id room \<and> ssum_media_kind s = kind})
   in app_selected_channel_id app =
        (if asked \<in> Some ` set room_ids then asked
         else if rooms = [] then None else Some (hd room_ids)) \<and>
      map ch_channel_id (app_channels app) = room_ids \<and>
      map_option ssv_stream_id (ch_screen_stream channel) =
        (if of_kind Screen = {} then None else Some (Min (ssum_stream_id ` of_kind Screen))) \<and>
      map_option vv_stream_id (ch_voice_stream channel) =
        (if of_kind Voice = {} then None else Some (Min (ssum_stream_id ` of_kind Voice)))"
proof -
  let ?rooms = "disc_rooms d" and ?asked = "disc_selected_channel_id d"
  define sel where "sel = (case ?asked of Some channel_id \<Rightarrow> Some channel_id
    | None \<Rightarrow> (case ?rooms of [] \<Rightarrow> None | room # _ \<Rightarrow> Some (rs_room_id room)))"
  define channels where "channels = map (\<lambda>room. if Some (rs_room_id room) = sel
    then channel_from_discovery room (disc_streams d) (disc_stream_configs d) (disc_participants d)
    else channel_from_discovery room [] [] []) ?rooms"
  have ids: "map ch_channel_id channels = map rs_room_id ?rooms"
    by (simp add: channels_def channel_from_discovery_def)
  have first: "first_channel_id channels = (if ?rooms = [] then None else Some (hd (map rs_room_id ?rooms)))"
    using ids by (cases channels; cases ?rooms) (auto simp: first_channel_id_def)
  have has: "list_ex (\<lambda>channel. ch_channel_id channel = c) channels \<longleftrightarrow> c \<in> set (map rs_room_id ?rooms)" for c
    by (auto simp: list_ex_iff ids [symmetric])
  define app0 where "app0 = (client_app_new (disc_role d))
    \<lparr>app_connection := Connected, app_relay_addr := disc_relay_addr d,
     app_status_line := lit ''Connected to '' @ disc_relay_addr d,
     app_local_user_id := disc_local_user_id d, app_local_voice := disc_local_voice d,
     app_local_screen_share := disc_local_screen_share d\<rparr>"
  have app0: "app_selected_channel_id app0 = None" by (simp add: app0_def client_app_new_def)
  have app: "app_from_discovery d = (let app = set_channels channels app0 in
      case sel of Some channel_id \<Rightarrow> snd (select_channel channel_id app) | None \<Rightarrow> app)"
    unfolding app_from_discovery_def Let_def channels_def sel_def app0_def ..
  have set: "app_selected_channel_id (set_channels channels app0) = first_channel_id channels"
    "app_channels (set_channels channels app0) = channels"
    by (simp_all add: set_channels_def app0)
  have "app_selected_channel_id (app_from_discovery d) =
      (if ?asked \<in> Some ` set (map rs_room_id ?rooms) then ?asked
       else if ?rooms = [] then None else Some (hd (map rs_room_id ?rooms)))"
  proof (cases ?asked)
    case None
    then show ?thesis
      by (cases ?rooms) (auto simp: app Let_def sel_def select_channel_def set first)
  next
    case (Some c)
    then show ?thesis
      by (auto simp: app Let_def sel_def select_channel_def has_channel_def set has first)
  qed
  moreover have "app_channels (app_from_discovery d) = channels"
    by (auto simp: app Let_def select_channel_def set split: option.split)
  moreover have
    "map_option ssv_stream_id (ch_screen_stream (channel_from_discovery room streams configs participants)) =
       map_option ssum_stream_id (min_by_key ssum_stream_id
         (filter (\<lambda>s. ssum_room_id s = rs_room_id room \<and> ssum_media_kind s = Screen) streams))"
    "map_option vv_stream_id (ch_voice_stream (channel_from_discovery room streams configs participants)) =
       map_option ssum_stream_id (min_by_key ssum_stream_id
         (filter (\<lambda>s. ssum_room_id s = rs_room_id room \<and> ssum_media_kind s = Voice) streams))"
    by (simp_all add: channel_from_discovery_def Let_def screen_stream_from_summary_def
        voice_stream_from_summary_def option.map_comp comp_def)
  ultimately show ?thesis by (simp only: Let_def ids min_by_key_id simp_thms)
qed

end
