(* ===== verification/Remote_Input.thy ===== *)
theory Remote_Input
  imports Control_Msg
begin

text \<open>
  Remote control at the publisher: \<open>remote_input.rs\<close> turns an event of a viewer into the mouse and
  keyboard inputs it injects. The flag values of the Windows API are an argument, a record of them, as
  is what \<open>SendInput\<close> returns. The results: the text a viewer types arrives as exactly its UTF-16
  code units, each pressed and released, and what the other events inject.
\<close>

section \<open>The flags and inputs of the Windows API\<close>

record input_flags =
  MOUSEEVENTF_MOVE :: u32
  MOUSEEVENTF_ABSOLUTE :: u32
  MOUSEEVENTF_VIRTUALDESK :: u32
  MOUSEEVENTF_WHEEL :: u32
  MOUSEEVENTF_HWHEEL :: u32
  MOUSEEVENTF_LEFTDOWN :: u32
  MOUSEEVENTF_LEFTUP :: u32
  MOUSEEVENTF_RIGHTDOWN :: u32
  MOUSEEVENTF_RIGHTUP :: u32
  MOUSEEVENTF_MIDDLEDOWN :: u32
  MOUSEEVENTF_MIDDLEUP :: u32
  MOUSEEVENTF_XDOWN :: u32
  MOUSEEVENTF_XUP :: u32
  KEYEVENTF_KEYUP :: u32
  KEYEVENTF_UNICODE :: u32

text \<open>
  \<open>INPUT\<close> with a \<open>MOUSEINPUT\<close> (dx, dy, mouseData, dwFlags) or a \<open>KEYBDINPUT\<close> (wVk, wScan, dwFlags);
  \<open>time\<close> and \<open>dwExtraInfo\<close> are always 0. A signed value is its two's complement word.
\<close>

datatype input =
    is_mouse: MouseInput (mi_dx: u32) (mi_dy: u32) (mi_mouse_data: u32) (mi_flags: u32)
  | KeyboardInput (ki_vk: u16) (ki_scan: u16) (ki_flags: u32)

section \<open>Inputs of an event\<close>

definition XBUTTON1 :: u32 where "XBUTTON1 = 1"

definition XBUTTON2 :: u32 where "XBUTTON2 = 2"

definition absolute_axis :: "u16 \<Rightarrow> u32" where
  "absolute_axis value = ucast value"

fun pointer_button_flags :: "input_flags \<Rightarrow> pointer_button \<Rightarrow> bool \<Rightarrow> u32 \<times> u32" where
  "pointer_button_flags fl LeftButton True = (MOUSEEVENTF_LEFTDOWN fl, 0)"
| "pointer_button_flags fl LeftButton False = (MOUSEEVENTF_LEFTUP fl, 0)"
| "pointer_button_flags fl RightButton True = (MOUSEEVENTF_RIGHTDOWN fl, 0)"
| "pointer_button_flags fl RightButton False = (MOUSEEVENTF_RIGHTUP fl, 0)"
| "pointer_button_flags fl MiddleButton True = (MOUSEEVENTF_MIDDLEDOWN fl, 0)"
| "pointer_button_flags fl MiddleButton False = (MOUSEEVENTF_MIDDLEUP fl, 0)"
| "pointer_button_flags fl X1 True = (MOUSEEVENTF_XDOWN fl, XBUTTON1)"
| "pointer_button_flags fl X1 False = (MOUSEEVENTF_XUP fl, XBUTTON1)"
| "pointer_button_flags fl X2 True = (MOUSEEVENTF_XDOWN fl, XBUTTON2)"
| "pointer_button_flags fl X2 False = (MOUSEEVENTF_XUP fl, XBUTTON2)"

definition absolute_move_input :: "input_flags \<Rightarrow> u16 \<Rightarrow> u16 \<Rightarrow> input" where
  "absolute_move_input fl normalized_x normalized_y =
     MouseInput (absolute_axis normalized_x) (absolute_axis normalized_y) 0
       (MOUSEEVENTF_MOVE fl OR MOUSEEVENTF_ABSOLUTE fl OR MOUSEEVENTF_VIRTUALDESK fl)"

definition pointer_button_input :: "input_flags \<Rightarrow> pointer_button \<Rightarrow> bool \<Rightarrow> input" where
  "pointer_button_input fl button pressed =
     (let (flags, mouse_data) = pointer_button_flags fl button pressed
      in MouseInput 0 0 mouse_data flags)"

definition keyboard_input :: "input_flags \<Rightarrow> u16 \<Rightarrow> bool \<Rightarrow> input" where
  "keyboard_input fl key_code pressed =
     KeyboardInput key_code 0 (if pressed then 0 else KEYEVENTF_KEYUP fl)"

definition unicode_input :: "input_flags \<Rightarrow> u16 \<Rightarrow> bool \<Rightarrow> input" where
  "unicode_input fl code_unit pressed =
     KeyboardInput 0 code_unit
       (if pressed then KEYEVENTF_UNICODE fl else KEYEVENTF_UNICODE fl OR KEYEVENTF_KEYUP fl)"

text \<open>\<open>str::encode_utf16\<close>\<close>

definition utf16_units :: "rchar \<Rightarrow> u16 list" where
  "utf16_units c =
     (if c < 0x10000 then [of_nat c]
      else [of_nat (0xD800 + (c - 0x10000) div 0x400), of_nat (0xDC00 + (c - 0x10000) mod 0x400)])"

definition encode_utf16 :: "rstring \<Rightarrow> u16 list" where
  "encode_utf16 s = concat (map utf16_units s)"

fun inputs_for_kind :: "input_flags \<Rightarrow> remote_input_kind \<Rightarrow> rstring + input list" where
  "inputs_for_kind fl (PointerMove normalized_x normalized_y) =
     Inr [absolute_move_input fl normalized_x normalized_y]"
| "inputs_for_kind fl (PointerButton button pressed normalized_x normalized_y) =
     Inr [absolute_move_input fl normalized_x normalized_y, pointer_button_input fl button pressed]"
| "inputs_for_kind fl (PointerWheel delta_x delta_y normalized_x normalized_y) =
     Inr ([absolute_move_input fl normalized_x normalized_y] @
       (if delta_y \<noteq> 0 then [MouseInput 0 0 (scast delta_y) (MOUSEEVENTF_WHEEL fl)] else []) @
       (if delta_x \<noteq> 0 then [MouseInput 0 0 (scast delta_x) (MOUSEEVENTF_HWHEEL fl)] else []))"
| "inputs_for_kind fl (Key key_code pressed) =
     (if key_code = 0 then Inl (lit ''remote input key_code must be non-zero'')
      else Inr [keyboard_input fl key_code pressed])"
| "inputs_for_kind fl (Text text) =
     Inr (concat (map (\<lambda>code_unit. [unicode_input fl code_unit True, unicode_input fl code_unit False])
       (encode_utf16 text)))"

section \<open>Injection\<close>

text \<open>\<open>send\<close> is \<open>SendInput\<close>: the number of inputs injected.\<close>

definition send_inputs :: "(input list \<Rightarrow> u32) \<Rightarrow> input list \<Rightarrow> rstring + unit" where
  "send_inputs send inputs =
     (if inputs = [] then Inr ()
      else
        let sent = send inputs in
        if sent \<noteq> of_nat (length inputs)
        then Inl (lit ''SendInput injected '' @ dec (unat sent) @ lit ''/'' @ dec (length inputs) @
               lit '' input events'')
        else Inr ())"

definition send_native_input ::
  "bool \<Rightarrow> input_flags \<Rightarrow> (input list \<Rightarrow> u32) \<Rightarrow> remote_input_kind \<Rightarrow> rstring + unit" where
  "send_native_input windows fl send kind =
     (if \<not> windows then Inl (lit ''native remote input output is only available on Windows'')
      else and_then (inputs_for_kind fl kind) (send_inputs send))"

datatype remote_input_applier = LoggingApplier u64 | NativeApplier u64

fun applied_events :: "remote_input_applier \<Rightarrow> u64" where
  "applied_events (LoggingApplier n) = n"
| "applied_events (NativeApplier n) = n"

fun output_mode :: "remote_input_applier \<Rightarrow> rstring" where
  "output_mode (LoggingApplier n) = lit ''log''"
| "output_mode (NativeApplier n) = lit ''native''"

definition native_applier_new :: "bool \<Rightarrow> rstring + remote_input_applier" where
  "native_applier_new windows =
     (if \<not> windows then Inl (lit ''native remote input output is only available on Windows'')
      else Inr (NativeApplier 0))"

fun apply_remote_input ::
  "bool \<Rightarrow> input_flags \<Rightarrow> (input list \<Rightarrow> u32) \<Rightarrow> remote_input_kind \<Rightarrow> remote_input_applier \<Rightarrow>
   (rstring + unit) \<times> remote_input_applier" where
  "apply_remote_input windows fl send kind (LoggingApplier n) = (Inr (), LoggingApplier (sat_add n 1))"
| "apply_remote_input windows fl send kind (NativeApplier n) =
     (case send_native_input windows fl send kind of
        Inl e \<Rightarrow> (Inl e, NativeApplier n)
      | Inr _ \<Rightarrow> (Inr (), NativeApplier (sat_add n 1)))"

section \<open>Lemmas: UTF-16\<close>

text \<open>A scalar value: a code point that is no surrogate, as every Rust \<open>char\<close> is.\<close>

definition scalar_value :: "rchar \<Rightarrow> bool" where
  "scalar_value c \<longleftrightarrow> c < 0xD800 \<or> (0xE000 \<le> c \<and> c < 0x110000)"

text \<open>What a reader of UTF-16 makes of code units.\<close>

fun read_utf16 :: "u16 list \<Rightarrow> rstring" where
  "read_utf16 [] = []"
| "read_utf16 [u] = [unat u]"
| "read_utf16 (u # v # us) =
     (if 0xD800 \<le> unat u \<and> unat u < 0xDC00
      then (0x10000 + (unat u - 0xD800) * 0x400 + (unat v - 0xDC00)) # read_utf16 us
      else unat u # read_utf16 (v # us))"

lemma read_utf16_units:
  assumes "scalar_value c"
  shows "read_utf16 (utf16_units c @ us) = c # read_utf16 us"
proof (cases "c < 0x10000")
  case True
  then have "unat (of_nat c :: u16) = c" by (intro of_nat_unat_le) simp
  with True assms show ?thesis
    by (cases us) (auto simp: utf16_units_def scalar_value_def)
next
  case False
  let ?d = "c - 0x10000"
  have c: "c = 0x10000 + ?d" "?d < 0x100000" using False assms by (auto simp: scalar_value_def)
  then have hi: "?d div 0x400 < 0x400" by (simp add: div_less_iff_less_mult)
  have "unat (of_nat (0xD800 + ?d div 0x400) :: u16) = 0xD800 + ?d div 0x400"
    using hi by (intro of_nat_unat_le) simp
  moreover have "unat (of_nat (0xDC00 + ?d mod 0x400) :: u16) = 0xDC00 + ?d mod 0x400"
  proof (intro of_nat_unat_le)
    have "?d mod 0x400 < 0x400" by simp
    then show "0xDC00 + ?d mod 0x400 < 2 ^ LENGTH(16)" by simp
  qed
  ultimately show ?thesis
    using False hi c(1) div_mult_mod_eq [of ?d "0x400"]
    by (simp add: utf16_units_def del: of_nat_add)
qed

lemma read_encode_utf16: "list_all scalar_value s \<Longrightarrow> read_utf16 (encode_utf16 s) = s"
  by (induction s) (simp_all add: encode_utf16_def read_utf16_units)

section \<open>Properties\<close>

text \<open>The inputs that press a key, and those that release it, as code units.\<close>

definition units_with_flags :: "u32 \<Rightarrow> input list \<Rightarrow> u16 list" where
  "units_with_flags flags inputs =
     map ki_scan (filter (\<lambda>i. \<not> is_mouse i \<and> ki_vk i = 0 \<and> ki_flags i = flags) inputs)"

text \<open>
  Text is typed as it was sent: the key presses a text event injects are, read as UTF-16, exactly
  its characters, including those outside the basic plane, and every unit pressed is released, in the
  same order and before the next one, when pressing and releasing have different flags.
\<close>

theorem remote_text_typed:
  assumes "list_all scalar_value text" and "KEYEVENTF_UNICODE fl OR KEYEVENTF_KEYUP fl \<noteq> KEYEVENTF_UNICODE fl"
  shows "\<exists>inputs. inputs_for_kind fl (Text text) = Inr inputs \<and>
    read_utf16 (units_with_flags (KEYEVENTF_UNICODE fl) inputs) = text \<and>
    units_with_flags (KEYEVENTF_UNICODE fl OR KEYEVENTF_KEYUP fl) inputs =
      units_with_flags (KEYEVENTF_UNICODE fl) inputs \<and>
    (\<forall>n. length (units_with_flags (KEYEVENTF_UNICODE fl OR KEYEVENTF_KEYUP fl) (take (2 * n) inputs)) =
       length (units_with_flags (KEYEVENTF_UNICODE fl) (take (2 * n) inputs)))"
proof -
  let ?in = "\<lambda>us. concat (map (\<lambda>u. [unicode_input fl u True, unicode_input fl u False]) us)"
  have units: "units_with_flags (KEYEVENTF_UNICODE fl) (?in us) = us"
    "units_with_flags (KEYEVENTF_UNICODE fl OR KEYEVENTF_KEYUP fl) (?in us) = us" for us
    using assms(2) by (induction us) (simp_all add: units_with_flags_def unicode_input_def)
  have "take (2 * n) (?in us) = ?in (take n us)" for n us
  proof (induction us arbitrary: n)
    case (Cons u us)
    then show ?case by (cases n) simp_all
  qed simp
  then show ?thesis using read_encode_utf16 [OF assms(1)] by (simp add: units)
qed

definition sample_flags :: input_flags where
  "sample_flags =
     \<lparr>MOUSEEVENTF_MOVE = 1, MOUSEEVENTF_ABSOLUTE = 0x8000, MOUSEEVENTF_VIRTUALDESK = 0x4000,
      MOUSEEVENTF_WHEEL = 0x800, MOUSEEVENTF_HWHEEL = 0x1000, MOUSEEVENTF_LEFTDOWN = 2,
      MOUSEEVENTF_LEFTUP = 4, MOUSEEVENTF_RIGHTDOWN = 8, MOUSEEVENTF_RIGHTUP = 0x10,
      MOUSEEVENTF_MIDDLEDOWN = 0x20, MOUSEEVENTF_MIDDLEUP = 0x40, MOUSEEVENTF_XDOWN = 0x80,
      MOUSEEVENTF_XUP = 0x100, KEYEVENTF_KEYUP = 2, KEYEVENTF_UNICODE = 4\<rparr>"

theorem remote_text_typed_witness:
  "\<exists>inputs. inputs_for_kind sample_flags (Text [104, 0x1F600]) = Inr inputs \<and>
     read_utf16 (units_with_flags 4 inputs) = [104, 0x1F600]"
  using remote_text_typed [of "[104, 0x1F600]" sample_flags]
  by (auto simp: scalar_value_def sample_flags_def)

end
