(* ===== verification/Clock_Sync.thy ===== *)
theory Clock_Sync
  imports Client_Lib Client_Stats
begin

text \<open>
  The client's estimate of the relay's clock, \<open>main.rs\<close>: one exchange gives a round trip time and an
  offset, the exchange with the shortest round trip wins, and a tracker renews the estimate. The
  results: the offset is off by at most half the round trip, and the latency calibrated with two such
  offsets by at most half of both round trips.
\<close>

section \<open>Estimates\<close>

record clock_sync_estimate =
  cs_rtt_micros :: u64
  cs_rtt_ms :: u16
  cs_clock_offset_micros :: i64

definition micros_to_millis :: "u64 \<Rightarrow> u16" where
  "micros_to_millis micros = ucast (min (micros div 1000) 65535)"

text \<open>The \<open>i128\<close> midpoints are integers; the offset is clamped to an \<open>i64\<close>.\<close>

definition clamp_i64 :: "int \<Rightarrow> i64" where
  "clamp_i64 x = of_int (max (- (2 ^ 63)) (min (2 ^ 63 - 1) x))"

definition estimate_clock_sync :: "time_sync_response \<Rightarrow> u64 \<Rightarrow> clock_sync_estimate" where
  "estimate_clock_sync sync client_receive_time_micros =
     (let client_elapsed_micros =
            sat_sub client_receive_time_micros (tsr_client_send_time_micros sync);
          server_processing_micros =
            sat_sub (tsr_server_send_time_micros sync) (tsr_server_receive_time_micros sync);
          rtt_micros = sat_sub client_elapsed_micros server_processing_micros;
          client_midpoint =
            uint (tsr_client_send_time_micros sync) + uint (client_elapsed_micros div 2);
          server_midpoint =
            uint (tsr_server_receive_time_micros sync) + uint (server_processing_micros div 2)
      in \<lparr>cs_rtt_micros = rtt_micros, cs_rtt_ms = micros_to_millis rtt_micros,
          cs_clock_offset_micros = clamp_i64 (server_midpoint - client_midpoint)\<rparr>)"

definition select_best_clock_sync_estimate ::
  "(u8 \<times> clock_sync_estimate) list \<Rightarrow> (u8 \<times> clock_sync_estimate) option" where
  "select_best_clock_sync_estimate samples =
     min_by_key (\<lambda>(_, estimate). cs_rtt_micros estimate) samples"

section \<open>The tracker\<close>

text \<open>An \<open>Instant\<close> is a number of nanoseconds; \<open>refreshed\<close> is what a new exchange gives.\<close>

record clock_sync_tracker =
  ct_estimate :: clock_sync_estimate
  ct_refresh_interval :: "nat option"
  ct_next_refresh_at :: nat

definition clock_sync_tracker_new :: "clock_sync_estimate \<Rightarrow> nat option \<Rightarrow> nat \<Rightarrow> clock_sync_tracker" where
  "clock_sync_tracker_new estimate refresh_interval now =
     \<lparr>ct_estimate = estimate, ct_refresh_interval = refresh_interval,
      ct_next_refresh_at = (case refresh_interval of None \<Rightarrow> now | Some interval \<Rightarrow> now + interval)\<rparr>"

definition refresh_if_due ::
  "nat \<Rightarrow> 'e + clock_sync_estimate \<Rightarrow> nat \<Rightarrow> clock_sync_tracker \<Rightarrow>
   ('e + clock_sync_estimate) \<times> clock_sync_tracker"
where
  "refresh_if_due now refreshed now_after t =
     (case ct_refresh_interval t of
        None \<Rightarrow> (Inr (ct_estimate t), t)
      | Some refresh_interval \<Rightarrow>
          if now < ct_next_refresh_at t then (Inr (ct_estimate t), t)
          else
            case refreshed of
              Inl e \<Rightarrow> (Inl e, t)
            | Inr estimate \<Rightarrow>
                (Inr estimate, t\<lparr>ct_estimate := estimate,
                   ct_next_refresh_at := now_after + refresh_interval\<rparr>))"

section \<open>Lemmas\<close>

lemma uint_sat_sub: "uint (sat_sub a b) = max 0 (uint a - uint b)"
  by (simp only: uint_nat unat_sat_sub)

lemma clamp_i64_id: "- (2 ^ 63) \<le> x \<Longrightarrow> x < 2 ^ 63 \<Longrightarrow> sint (clamp_i64 x) = x"
  by (simp add: clamp_i64_def signed_of_int signed_take_bit_int_eq_self max_absorb2 min_absorb2)

text \<open>
  The clocks of an exchange: the relay's clock is ahead of the client's by \<open>offset\<close>, the request takes
  \<open>out\<close> microseconds, the relay \<open>busy\<close> and the response \<open>back\<close>.
\<close>

definition exchange_times ::
  "int \<Rightarrow> nat \<Rightarrow> nat \<Rightarrow> nat \<Rightarrow> time_sync_response \<Rightarrow> u64 \<Rightarrow> bool" where
  "exchange_times offset out busy back sync received \<longleftrightarrow>
     uint (tsr_server_receive_time_micros sync) =
       uint (tsr_client_send_time_micros sync) + offset + int out \<and>
     uint (tsr_server_send_time_micros sync) =
       uint (tsr_server_receive_time_micros sync) + int busy \<and>
     uint received = uint (tsr_server_send_time_micros sync) - offset + int back"

text \<open>An estimate that is off by at most half its round trip, rounded up.\<close>

definition accurate :: "int \<Rightarrow> clock_sync_estimate \<Rightarrow> bool" where
  "accurate offset e \<longleftrightarrow>
     2 * \<bar>sint (cs_clock_offset_micros e) - offset\<bar> \<le> uint (cs_rtt_micros e) + 1"

lemma abs_double: "2 * \<bar>x\<bar> \<le> n \<longleftrightarrow> 2 * x \<le> n \<and> - (2 * x) \<le> n" for x n :: int
  by auto

lemma half_sum_int:
  fixes a b c s :: int
  assumes "0 \<le> a" "0 \<le> c" and "s = a + b + c"
  shows "2 * \<bar>a + b div 2 - s div 2\<bar> \<le> a + c + 1"
  unfolding abs_double using assms by presburger

lemma half_sum:
  "2 * \<bar>int a + int b div 2 - int (a + b + c) div 2\<bar> \<le> int (a + c) + 1"
  using half_sum_int [of "int a" "int c" "int (a + b + c)" "int b"] by simp

lemma estimate_accurate:
  assumes times: "exchange_times offset out busy back sync received"
    and small: "uint received < 2 ^ 63" "uint (tsr_server_send_time_micros sync) < 2 ^ 63"
  shows "uint (cs_rtt_micros (estimate_clock_sync sync received)) = int (out + back)"
    and "accurate offset (estimate_clock_sync sync received)"
proof -
  let ?sent = "uint (tsr_client_send_time_micros sync)"
  let ?in = "uint (tsr_server_receive_time_micros sync)"
  have elapsed: "uint (sat_sub received (tsr_client_send_time_micros sync)) = int (out + busy + back)"
    and processing: "uint (sat_sub (tsr_server_send_time_micros sync) (tsr_server_receive_time_micros sync)) =
      int busy"
    using times by (simp_all add: uint_sat_sub exchange_times_def)
  then show rtt: "uint (cs_rtt_micros (estimate_clock_sync sync received)) = int (out + back)"
    by (simp add: estimate_clock_sync_def Let_def uint_sat_sub [of "sat_sub _ _"])
  have pos: "0 \<le> ?sent" "0 \<le> ?in" by simp_all
  define d where "d = ?in + int busy div 2 - (?sent + int (out + busy + back) div 2)"
  have "?in + int busy < 2 ^ 63" "?sent + int (out + busy + back) < 2 ^ 63"
    using times small by (simp_all add: exchange_times_def)
  then have "- (2 ^ 63) \<le> d" "d < 2 ^ 63" using pos unfolding d_def by linarith+
  then have "sint (cs_clock_offset_micros (estimate_clock_sync sync received)) = d"
    by (simp add: estimate_clock_sync_def Let_def elapsed processing uint_div_distrib clamp_i64_id d_def)
  moreover have "d - offset = int out + int busy div 2 - int (out + busy + back) div 2"
    using times by (simp add: d_def exchange_times_def)
  ultimately show "accurate offset (estimate_clock_sync sync received)"
    using half_sum [of out busy "back"] unfolding accurate_def rtt by simp
qed

section \<open>Properties\<close>

text \<open>
  C25. The clock estimate is as good as the network: for exchanges with a relay whose clock is ahead by
  any fixed offset, the estimate selected has the shortest round trip measured, and its offset differs
  from the true one by at most half of that round trip, rounded up.
\<close>

theorem clock_estimate_accurate:
  assumes "samples \<noteq> []"
    and "\<forall>(i, e) \<in> set samples. \<exists>out busy back sync received.
      exchange_times offset out busy back sync received \<and> uint received < 2 ^ 63 \<and>
      uint (tsr_server_send_time_micros sync) < 2 ^ 63 \<and> e = estimate_clock_sync sync received"
  shows "\<exists>i e. select_best_clock_sync_estimate samples = Some (i, e) \<and> (i, e) \<in> set samples \<and>
    (\<forall>(j, f) \<in> set samples. cs_rtt_micros e \<le> cs_rtt_micros f) \<and>
    2 * \<bar>sint (cs_clock_offset_micros e) - offset\<bar> \<le> uint (cs_rtt_micros e) + 1"
proof -
  obtain i e where best: "select_best_clock_sync_estimate samples = Some (i, e)"
    using assms(1) by (cases "select_best_clock_sync_estimate samples")
      (auto simp: select_best_clock_sync_estimate_def)
  then have mem: "(i, e) \<in> set samples"
    and least: "cs_rtt_micros e = Min ((\<lambda>(_, e). cs_rtt_micros e) ` set samples)"
    using min_by_key_Min [of "\<lambda>(_, e). cs_rtt_micros e" samples "(i, e)"]
    by (auto simp: select_best_clock_sync_estimate_def)
  have "cs_rtt_micros e \<le> cs_rtt_micros f" if "(j, f) \<in> set samples" for j f
    unfolding least using that by (intro Min_le) (auto intro: rev_image_eqI)
  moreover have "accurate offset e" using assms(2) mem estimate_accurate(2) by fastforce
  ultimately show ?thesis using best mem by (auto simp: accurate_def)
qed

definition sample_sync :: time_sync_response where
  "sample_sync =
     \<lparr>tsr_client_send_time_micros = 1000, tsr_server_receive_time_micros = 6030,
      tsr_server_send_time_micros = 6040\<rparr>"

lemma sample_sync_times: "exchange_times 5000 30 10 50 sample_sync 1090"
  by (simp add: exchange_times_def sample_sync_def)

theorem clock_estimate_accurate_witness:
  "\<exists>i e. select_best_clock_sync_estimate [(1, estimate_clock_sync sample_sync 1090)] = Some (i, e) \<and>
     2 * \<bar>sint (cs_clock_offset_micros e) - 5000\<bar> \<le> uint (cs_rtt_micros e) + 1"
proof -
  have "\<exists>i e. select_best_clock_sync_estimate [(1, estimate_clock_sync sample_sync 1090)] = Some (i, e) \<and>
      (i, e) \<in> set [(1, estimate_clock_sync sample_sync 1090)] \<and>
      (\<forall>(j, f) \<in> set [(1 :: u8, estimate_clock_sync sample_sync 1090)].
         cs_rtt_micros e \<le> cs_rtt_micros f) \<and>
      2 * \<bar>sint (cs_clock_offset_micros e) - 5000\<bar> \<le> uint (cs_rtt_micros e) + 1"
  proof (rule clock_estimate_accurate)
    have "uint (1090 :: u64) < 2 ^ 63" "uint (tsr_server_send_time_micros sample_sync) < 2 ^ 63"
      by (simp_all add: sample_sync_def)
    then show "\<forall>(i, e) \<in> set [(1 :: u8, estimate_clock_sync sample_sync 1090)].
        \<exists>out busy back sync received. exchange_times 5000 out busy back sync received \<and>
          uint received < 2 ^ 63 \<and> uint (tsr_server_send_time_micros sync) < 2 ^ 63 \<and>
          e = estimate_clock_sync sync received"
      using sample_sync_times
      by (simp only: list.set ball_simps prod.case simp_thms) (intro exI conjI, assumption+, rule refl)
  qed simp
  then show ?thesis by blast
qed

text \<open>
  Calibrated latencies can be trusted: when the sender and the receiver both use accurate
  estimates of their offsets to the relay's clock, the latency recorded for a frame differs from the
  true time between its capture and its receipt by less than a millisecond more than half of both
  round trips, for latencies above that error and below a minute.
\<close>

theorem calibrated_latency_accurate:
  assumes "accurate so sender" and "accurate ro receiver"
    and "uint captured = t1 - so" and "uint received = t2 - ro" and "captured \<noteq> 0"
    and "uint (cs_rtt_micros sender) + uint (cs_rtt_micros receiver) + 2 \<le> 2 * (t2 - t1)"
    and "2 * (t2 - t1) + uint (cs_rtt_micros sender) + uint (cs_rtt_micros receiver) + 2 \<le> 120000000"
  shows "let s' = record_calibrated_latency captured (cs_clock_offset_micros sender) received
      (cs_clock_offset_micros receiver) s;
    error = uint (cs_rtt_micros sender) + uint (cs_rtt_micros receiver) + 2 in
    2 * (t2 - t1) - error < 2 * 1000 * (uint (cm_calibrated_latency_ms s') + 1) \<and>
    2 * 1000 * uint (cm_calibrated_latency_ms s') \<le> 2 * (t2 - t1) + error"
proof -
  define e where "e = uint received + sint (cs_clock_offset_micros receiver) -
    (uint captured + sint (cs_clock_offset_micros sender))"
  let ?error = "uint (cs_rtt_micros sender) + uint (cs_rtt_micros receiver) + 2"
  note sender = assms(1) [unfolded accurate_def abs_double]
    and receiver = assms(2) [unfolded accurate_def abs_double]
  define x y where "x = sint (cs_clock_offset_micros sender) - so"
    and "y = sint (cs_clock_offset_micros receiver) - ro"
  have "e = t2 - t1 + y - x" using assms(3,4) by (simp add: e_def x_def y_def)
  with sender receiver have e: "2 * (t2 - t1) - ?error \<le> 2 * e" "2 * e \<le> 2 * (t2 - t1) + ?error"
    unfolding x_def [symmetric] y_def [symmetric] by simp_all
  then have range: "0 \<le> e" using assms(6,7) by linarith
  have top: "e div 1000 \<le> 60000" using e assms(6,7) by linarith
  have "uint (of_int (min (e div 1000) 65535) :: u16) = e div 1000"
    using range top by (simp add: unsigned_of_int take_bit_int_eq_self min_absorb1 pos_imp_zdiv_nonneg_iff)
  then have ms: "uint (cm_calibrated_latency_ms (record_calibrated_latency captured
      (cs_clock_offset_micros sender) received (cs_clock_offset_micros receiver) s)) = e div 1000"
    using assms(5) range by (simp add: record_calibrated_latency_def Let_def e_def)
  have "1000 * (e div 1000) \<le> e" "e < 1000 * (e div 1000 + 1)" by simp_all
  then show ?thesis unfolding Let_def ms using e by simp
qed

theorem calibrated_latency_accurate_witness:
  "let s' = record_calibrated_latency 1000000
       (cs_clock_offset_micros (estimate_clock_sync sample_sync 1090)) 1050000
       (cs_clock_offset_micros (estimate_clock_sync sample_sync 1090)) client_media_stats_default
   in uint (cm_calibrated_latency_ms s') \<le> 50"
proof -
  have acc: "accurate 5000 (estimate_clock_sync sample_sync 1090)"
    and rtt: "uint (cs_rtt_micros (estimate_clock_sync sample_sync 1090)) = 80"
    using estimate_accurate [OF sample_sync_times] by (simp_all add: sample_sync_def)
  show ?thesis
    using calibrated_latency_accurate [OF acc acc, of 1000000 1005000 1050000 1055000
        client_media_stats_default]
    by (simp add: rtt Let_def)
qed

end
