(* ===== verification/Reassembly.thy ===== *)
theory Reassembly
  imports Frame BTree_Map
begin

text \<open>
  The client's jitter buffer, \<open>FrameReassemblyBuffer\<close> of \<open>decode/mod.rs\<close>: packets are collected per
  frame id until a frame is complete; frames are given up when they fall behind the newest one, when
  too many are pending, or when they hold more media than the jitter budget. The results: the limits
  hold after every packet, and a frame whose packets all arrive, in any order and between the packets
  of other frames, comes out once its last packet is in, as long as the limits leave room for it.
\<close>

section \<open>State\<close>

record pending_frame =
  pf_first_packet_receive_time_micros :: u64
  pf_packets :: "media_packet list"

record reassembly_buffer =
  rb_pending :: "(u32, pending_frame) btree"
  rb_max_pending_frames :: nat
  rb_max_frame_age_frames :: u32
  rb_max_pending_media_ms :: u16
  rb_frame_interval_ms :: u16

record reassembly_outcome =
  ro_frame :: "encoded_frame option"
  ro_dropped_frames :: u64
  ro_reassembly_ms :: u16

text \<open>The two errors of a push: the \<open>bail!\<close> for a duplicate, and the error of \<open>reassemble_frame\<close>.\<close>

datatype reassembly_error =
    DuplicateMediaFragment u16 u32
  | ReassembleFrame frame_reassembly_error

definition with_limits :: "nat \<Rightarrow> u32 \<Rightarrow> reassembly_buffer" where
  "with_limits max_pending_frames max_frame_age_frames =
     \<lparr>rb_pending = bt_new, rb_max_pending_frames = max max_pending_frames 1,
      rb_max_frame_age_frames = max max_frame_age_frames 1,
      rb_max_pending_media_ms = 65535, rb_frame_interval_ms = 1\<rparr>"

definition reassembly_new :: reassembly_buffer where
  "reassembly_new = with_limits 64 64"

definition with_jitter_budget :: "nat \<Rightarrow> u32 \<Rightarrow> u16 \<Rightarrow> u16 \<Rightarrow> reassembly_buffer" where
  "with_jitter_budget max_pending_frames max_frame_age_frames max_pending_media_ms
     frame_interval_ms =
     (let frame_interval_ms = max frame_interval_ms 1 in
      \<lparr>rb_pending = bt_new, rb_max_pending_frames = max max_pending_frames 1,
       rb_max_frame_age_frames = max max_frame_age_frames 1,
       rb_max_pending_media_ms = max max_pending_media_ms frame_interval_ms,
       rb_frame_interval_ms = frame_interval_ms\<rparr>)"

section \<open>Eviction\<close>

definition frame_is_older_than_window :: "u32 \<Rightarrow> u32 \<Rightarrow> u32 \<Rightarrow> bool" where
  "frame_is_older_than_window frame_id newest_frame_id max_frame_age_frames =
     (let distance = newest_frame_id - frame_id
      in max_frame_age_frames < distance \<and> distance < 4294967295 div 2)"

definition evict_stale_frames :: "u32 \<Rightarrow> reassembly_buffer \<Rightarrow> u64 \<times> reassembly_buffer" where
  "evict_stale_frames newest_frame_id r =
     (let stale_frame_ids = filter (\<lambda>frame_id. frame_is_older_than_window frame_id newest_frame_id
            (rb_max_frame_age_frames r)) (bt_keys (rb_pending r));
          dropped_frames = of_nat (length stale_frame_ids)
      in (dropped_frames, r\<lparr>rb_pending := fold bt_remove stale_frame_ids (rb_pending r)\<rparr>))"

lemma bt_iter_remove_first: "bt_iter m = (k, v) # xs \<Longrightarrow> bt_iter (bt_remove k m) = xs"
  by simp

text \<open>
  The two loops that remove the oldest frame, the one of the smallest id, \<open>while\<close> a condition on the
  pending frames holds; \<open>bump\<close> counts a removed frame.
\<close>

function remove_oldest_while ::
  "((u32, 'v) btree \<Rightarrow> bool) \<Rightarrow> (u64 \<Rightarrow> u64) \<Rightarrow> (u32, 'v) btree \<Rightarrow> u64 \<Rightarrow> (u32, 'v) btree \<times> u64"
where
  "remove_oldest_while cond bump pending dropped_frames =
     (if cond pending then
        case bt_iter pending of
          [] \<Rightarrow> (pending, dropped_frames)
        | (oldest_frame_id, _) # _ \<Rightarrow>
            remove_oldest_while cond bump (bt_remove oldest_frame_id pending) (bump dropped_frames)
      else (pending, dropped_frames))"
  by pat_completeness auto
termination
  by (relation "measure (\<lambda>(_, _, pending, _). bt_len pending)")
    (auto simp: bt_len_def)

declare remove_oldest_while.simps [simp del]

definition over_capacity :: "u32 \<Rightarrow> nat \<Rightarrow> (u32, 'v) btree \<Rightarrow> bool" where
  "over_capacity frame_id max_pending_frames pending \<longleftrightarrow>
     \<not> bt_contains frame_id pending \<and> max_pending_frames \<le> bt_len pending"

definition pending_media_ms :: "u16 \<Rightarrow> (u32, 'v) btree \<Rightarrow> u16" where
  "pending_media_ms frame_interval_ms pending =
     ucast (min (sat_mul (of_nat (bt_len pending) :: u64) (ucast frame_interval_ms)) 65535)"

definition over_budget :: "u16 \<Rightarrow> u16 \<Rightarrow> (u32, 'v) btree \<Rightarrow> bool" where
  "over_budget frame_interval_ms max_pending_media_ms pending \<longleftrightarrow>
     max_pending_media_ms < pending_media_ms frame_interval_ms pending \<and> \<not> bt_is_empty pending"

definition evict_media_budget :: "reassembly_buffer \<Rightarrow> u64 \<times> reassembly_buffer" where
  "evict_media_budget r =
     (let (pending, dropped_frames) = remove_oldest_while
            (over_budget (rb_frame_interval_ms r) (rb_max_pending_media_ms r))
            (\<lambda>d. sat_add d 1) (rb_pending r) 0
      in (dropped_frames, r\<lparr>rb_pending := pending\<rparr>))"

section \<open>Operations\<close>

definition micros_delta_to_millis :: "u64 \<Rightarrow> u64 \<Rightarrow> u16" where
  "micros_delta_to_millis start_micros end_micros =
     (if start_micros = 0 \<or> end_micros < start_micros then 0
      else ucast (min (sat_sub end_micros start_micros div 1000) 65535))"

definition push_with_stats_at ::
  "media_packet \<Rightarrow> u64 \<Rightarrow> reassembly_buffer \<Rightarrow>
   (reassembly_error + reassembly_outcome) \<times> reassembly_buffer"
where
  "push_with_stats_at packet packet_receive_time_micros r =
     (let frame_id = h_frame_id (p_header packet);
          fragment_count = unat (h_fragment_count (p_header packet));
          fragment_index = h_fragment_index (p_header packet);
          (dropped_frames, r) = evict_stale_frames frame_id r;
          (pending, dropped_frames) = remove_oldest_while
            (over_capacity frame_id (rb_max_pending_frames r)) (\<lambda>d. d + 1) (rb_pending r)
            dropped_frames;
          frame = (case bt_get pending frame_id of
            Some frame \<Rightarrow> frame
          | None \<Rightarrow> \<lparr>pf_first_packet_receive_time_micros = packet_receive_time_micros,
                     pf_packets = []\<rparr>);
          pending = bt_insert frame_id frame pending;
          r = r\<lparr>rb_pending := pending\<rparr>
      in if \<exists>p \<in> set (pf_packets frame). h_fragment_index (p_header p) = fragment_index
     then (Inl (DuplicateMediaFragment fragment_index frame_id), r)
     else
       let packets = pf_packets frame @ [packet] in
       if length packets \<noteq> fragment_count
       then
         let r = r\<lparr>rb_pending := bt_insert frame_id (frame\<lparr>pf_packets := packets\<rparr>) pending\<rparr>;
             (dropped, r) = evict_media_budget r
         in (Inr \<lparr>ro_frame = None, ro_dropped_frames = dropped_frames + dropped,
                  ro_reassembly_ms = 0\<rparr>, r)
       else
         let r = r\<lparr>rb_pending := bt_remove frame_id pending\<rparr>;
             reassembly_ms = micros_delta_to_millis
               (pf_first_packet_receive_time_micros frame) packet_receive_time_micros
         in case reassemble_frame packets of
              Inl e \<Rightarrow> (Inl (ReassembleFrame e), r)
            | Inr encoded \<Rightarrow>
                (Inr \<lparr>ro_frame = Some encoded, ro_dropped_frames = dropped_frames,
                      ro_reassembly_ms = reassembly_ms\<rparr>, r))"

definition push_with_stats ::
  "media_packet \<Rightarrow> reassembly_buffer \<Rightarrow>
   (reassembly_error + reassembly_outcome) \<times> reassembly_buffer" where
  "push_with_stats packet r = push_with_stats_at packet 0 r"

definition reassembly_push ::
  "media_packet \<Rightarrow> reassembly_buffer \<Rightarrow>
   (reassembly_error + encoded_frame option) \<times> reassembly_buffer" where
  "reassembly_push packet r =
     (let (outcome, r) = push_with_stats packet r
      in (case outcome of Inl e \<Rightarrow> Inl e | Inr outcome \<Rightarrow> Inr (ro_frame outcome), r))"

definition pending_frames :: "reassembly_buffer \<Rightarrow> nat" where
  "pending_frames r = bt_len (rb_pending r)"

definition estimated_jitter_ms :: "u16 \<Rightarrow> reassembly_buffer \<Rightarrow> u16" where
  "estimated_jitter_ms frame_interval_ms r =
     sat_mul (of_nat (bt_len (rb_pending r)) :: u16) frame_interval_ms"

section \<open>Lemmas: eviction\<close>

lemma fold_bt_remove: "bt_get (fold bt_remove ks m) k = (if k \<in> set ks then None else bt_get m k)"
  by (induction ks arbitrary: m) auto

text \<open>What is left is a suffix of the pending frames on which the condition does not hold.\<close>

lemma remove_oldest_while_sound:
  assumes "remove_oldest_while cond bump m d = (m', d')"
  shows "\<exists>n. bt_iter m' = drop n (bt_iter m) \<and> d' = (bump ^^ n) d \<and> (cond m' \<longrightarrow> bt_iter m' = [])"
  using assms
proof (induction cond bump m d rule: remove_oldest_while.induct)
  case (1 cond bump m d)
  show ?case
  proof (cases "cond m \<and> bt_iter m \<noteq> []")
    case True
    then obtain k v xs where it: "bt_iter m = (k, v) # xs" by (cases "bt_iter m") auto
    with True "1.prems" have "remove_oldest_while cond bump (bt_remove k m) (bump d) = (m', d')"
      by (simp add: remove_oldest_while.simps [of cond bump m])
    with "1.IH" [of "(k, v)" xs k v] True it obtain n where "bt_iter m' = drop n xs" "d' = (bump ^^ n) (bump d)"
      "cond m' \<longrightarrow> bt_iter m' = []"
      by auto
    then show ?thesis using it by (intro exI [of _ "Suc n"]) (simp add: funpow_swap1)
  next
    case False
    with "1.prems" have "m' = m" "d' = d"
      by (auto simp: remove_oldest_while.simps [of cond bump m] split: if_splits list.splits)
    with False show ?thesis by (intro exI [of _ 0]) auto
  qed
qed

lemma remove_oldest_while_id: "\<not> cond m \<Longrightarrow> remove_oldest_while cond bump m d = (m, d)"
  by (simp add: remove_oldest_while.simps)

lemma remove_oldest_while_get:
  assumes "remove_oldest_while cond bump m d = (m', d')"
  shows "bt_get m' \<subseteq>\<^sub>m bt_get m"
proof -
  obtain n where n: "bt_iter m' = drop n (bt_iter m)"
    using remove_oldest_while_sound [OF assms] by blast
  have "bt_get m k = Some v" if "bt_get m' k = Some v" for k v
  proof -
    from that have "(k, v) \<in> set (drop n (bt_iter m))" using bt.in_iter_iff [of k v m'] n by simp
    then have "(k, v) \<in> set (bt_iter m)" by (rule in_set_dropD)
    then show ?thesis by (simp only: bt.in_iter_iff)
  qed
  then show ?thesis by (auto simp: map_le_def)
qed

lemma remove_oldest_while_len:
  assumes "remove_oldest_while cond bump m d = (m', d')"
  shows "bt_len m' \<le> bt_len m" and "cond m' \<Longrightarrow> bt_len m' = 0"
proof -
  obtain n where n: "bt_iter m' = drop n (bt_iter m)" and c: "cond m' \<longrightarrow> bt_iter m' = []"
    using remove_oldest_while_sound [OF assms] by blast
  show "bt_len m' \<le> bt_len m" by (simp add: bt_len_def n)
  show "bt_len m' = 0" if "cond m'" using c that by (simp add: bt_len_def)
qed

lemma bt_len_u32: "bt_len m \<le> 2 ^ 32" for m :: "(u32, 'v) btree"
proof -
  have "card (dom (bt_get m)) \<le> card (UNIV :: u32 set)" by (intro card_mono) simp_all
  also have "\<dots> = 2 ^ 32" by (simp add: card_word)
  finally show ?thesis by (simp only: bt_len_card)
qed

lemma bt_len_map_le_mono: "bt_get m \<subseteq>\<^sub>m bt_get m' \<Longrightarrow> bt_len m \<le> bt_len m'"
  unfolding bt_len_card by (intro card_mono map_le_implies_dom_le finite_dom_bt_get)

lemma unat_pending_media_ms:
  "unat (pending_media_ms interval m) = min (bt_len m * unat interval) 65535"
proof -
  have small: "bt_len m < 2 ^ 64" using bt_len_u32 [of m] by (rule le_less_trans) simp
  have "unat interval < 2 ^ 16" by (rule order_less_le_trans [OF unsigned_less]) simp
  then have "bt_len m * unat interval \<le> 2 ^ 32 * 2 ^ 16"
    using bt_len_u32 [of m] by (intro mult_le_mono) simp_all
  then have "bt_len m * unat interval \<le> 2 ^ 64 - 1" by simp
  moreover have "unat (ucast interval :: u64) = unat interval"
    by (simp add: unsigned_ucast_eq take_bit_nat_eq_self_iff unat_u16_less [THEN less_trans])
  ultimately have mul: "unat (sat_mul (of_nat (bt_len m) :: u64) (ucast interval)) =
      bt_len m * unat interval"
    using small by (simp add: unat_sat_mul of_nat_unat_le min_absorb1)
  have "unat (min (sat_mul (of_nat (bt_len m) :: u64) (ucast interval)) 65535) =
      min (bt_len m * unat interval) 65535"
    by (simp add: min_def word_le_nat_alt mul)
  then show ?thesis
    unfolding pending_media_ms_def unsigned_ucast_eq by (simp add: take_bit_nat_eq_self_iff)
qed

section \<open>Lemmas: a push\<close>

text \<open>The pending frames left by the evictions at the start of a push.\<close>

definition after_eviction :: "u32 \<Rightarrow> reassembly_buffer \<Rightarrow> (u32, pending_frame) btree" where
  "after_eviction frame_id r =
     fst (remove_oldest_while (over_capacity frame_id (rb_max_pending_frames r)) (\<lambda>d. d + 1)
       (rb_pending (snd (evict_stale_frames frame_id r))) (fst (evict_stale_frames frame_id r)))"

lemma rb_pending_evict_stale:
  "bt_get (rb_pending (snd (evict_stale_frames i r))) k =
     (if frame_is_older_than_window k i (rb_max_frame_age_frames r) then None
      else bt_get (rb_pending r) k)"
  by (auto simp: evict_stale_frames_def Let_def fold_bt_remove set_bt_keys)

lemma not_older_self [simp]: "\<not> frame_is_older_than_window i i age"
  by (simp add: frame_is_older_than_window_def)

lemma after_eviction_le: "bt_get (after_eviction i r) \<subseteq>\<^sub>m bt_get (rb_pending r)"
proof -
  have "bt_get (after_eviction i r) \<subseteq>\<^sub>m bt_get (rb_pending (snd (evict_stale_frames i r)))"
    unfolding after_eviction_def by (rule remove_oldest_while_get [OF prod.collapse [symmetric]])
  then show ?thesis by (force simp: map_le_def dom_def rb_pending_evict_stale split: if_splits)
qed

lemma after_eviction_fresh:
  "frame_is_older_than_window k i (rb_max_frame_age_frames r) \<Longrightarrow> bt_get (after_eviction i r) k = None"
proof -
  assume older: "frame_is_older_than_window k i (rb_max_frame_age_frames r)"
  have "bt_get (after_eviction i r) \<subseteq>\<^sub>m bt_get (rb_pending (snd (evict_stale_frames i r)))"
    unfolding after_eviction_def by (rule remove_oldest_while_get [OF prod.collapse [symmetric]])
  with older show ?thesis
    by (cases "bt_get (after_eviction i r) k") (auto simp: map_le_def dom_def rb_pending_evict_stale)
qed

text \<open>The frame of the pushed packet is not evicted, and there is room for it.\<close>

lemma after_eviction_self: "bt_get (after_eviction i r) i = bt_get (rb_pending r) i"
proof (cases "bt_contains i (rb_pending r)")
  case True
  then have "\<not> over_capacity i n (rb_pending (snd (evict_stale_frames i r)))" for n
    by (auto simp: over_capacity_def rb_pending_evict_stale)
  then show ?thesis
    by (simp add: after_eviction_def remove_oldest_while_id rb_pending_evict_stale)
next
  case False
  then have "bt_get (rb_pending r) i = None" by (auto simp: bt_contains_def)
  with after_eviction_le [of i r] show ?thesis
    by (cases "bt_get (after_eviction i r) i") (auto simp: map_le_def dom_def)
qed

lemma after_eviction_room:
  assumes "0 < rb_max_pending_frames r" and "bt_get (rb_pending r) i = None"
  shows "bt_len (after_eviction i r) < rb_max_pending_frames r"
proof -
  have "\<not> bt_contains i (after_eviction i r)" by (simp add: after_eviction_self assms(2))
  moreover have "over_capacity i (rb_max_pending_frames r) (after_eviction i r) \<Longrightarrow>
      bt_len (after_eviction i r) = 0"
    unfolding after_eviction_def by (rule remove_oldest_while_len(2) [OF prod.collapse [symmetric]])
  ultimately show ?thesis using assms(1) by (force simp: over_capacity_def not_le)
qed

text \<open>Nothing is evicted for capacity while the frame ids seen fit.\<close>

lemma after_eviction_keeps:
  assumes "dom (bt_get (rb_pending r)) \<subseteq> S" and "i \<in> S" and "finite S"
    and "card S \<le> rb_max_pending_frames r"
    and "\<not> frame_is_older_than_window k i (rb_max_frame_age_frames r)"
  shows "bt_get (after_eviction i r) k = bt_get (rb_pending r) k"
proof -
  let ?m = "rb_pending (snd (evict_stale_frames i r))"
  have sub: "dom (bt_get ?m) \<subseteq> S"
    using assms(1) by (auto simp: rb_pending_evict_stale split: if_splits)
  have "\<not> over_capacity i (rb_max_pending_frames r) ?m"
  proof (cases "i \<in> dom (bt_get ?m)")
    case False
    with sub assms(2) have "dom (bt_get ?m) \<subset> S" by blast
    then have "bt_len ?m < card S" unfolding bt_len_card by (rule psubset_card_mono [OF assms(3)])
    with assms(4) show ?thesis by (simp add: over_capacity_def)
  qed (auto simp: over_capacity_def)
  then show ?thesis
    using assms(5) by (simp add: after_eviction_def remove_oldest_while_id rb_pending_evict_stale)
qed

text \<open>A push by cases: the pending frame it adds to, and what becomes of it.\<close>

definition pending_entry :: "u64 \<Rightarrow> u32 \<Rightarrow> reassembly_buffer \<Rightarrow> pending_frame" where
  "pending_entry t i r =
     (case bt_get (rb_pending r) i of
        Some frame \<Rightarrow> frame
      | None \<Rightarrow> \<lparr>pf_first_packet_receive_time_micros = t, pf_packets = []\<rparr>)"

definition duplicate_fragment :: "media_packet \<Rightarrow> u64 \<Rightarrow> reassembly_buffer \<Rightarrow> bool" where
  "duplicate_fragment p t r \<longleftrightarrow>
     h_fragment_index (p_header p) \<in>
       (\<lambda>q. h_fragment_index (p_header q)) ` set (pf_packets (pending_entry t (h_frame_id (p_header p)) r))"

definition last_fragment :: "media_packet \<Rightarrow> u64 \<Rightarrow> reassembly_buffer \<Rightarrow> bool" where
  "last_fragment p t r \<longleftrightarrow>
     Suc (length (pf_packets (pending_entry t (h_frame_id (p_header p)) r))) =
     unat (h_fragment_count (p_header p))"

definition with_fragment :: "media_packet \<Rightarrow> u64 \<Rightarrow> reassembly_buffer \<Rightarrow> reassembly_buffer" where
  "with_fragment p t r =
     (let i = h_frame_id (p_header p); e = pending_entry t i r
      in r\<lparr>rb_pending := bt_insert i (e\<lparr>pf_packets := pf_packets e @ [p]\<rparr>) (after_eviction i r)\<rparr>)"

lemma bt_insert_insert [simp]: "bt_insert k v (bt_insert k w m) = bt_insert k v m"
  by (rule bt_eqI) simp

lemma bt_remove_insert: "bt_remove k (bt_insert k v m) = bt_remove k m"
  by (rule bt_eqI) (simp add: fun_eq_iff)

lemma push_state:
  "snd (push_with_stats_at p t r) =
     (let i = h_frame_id (p_header p) in
      if duplicate_fragment p t r
      then r\<lparr>rb_pending := bt_insert i (pending_entry t i r) (after_eviction i r)\<rparr>
      else if last_fragment p t r then r\<lparr>rb_pending := bt_remove i (after_eviction i r)\<rparr>
      else snd (evict_media_budget (with_fragment p t r)))"
proof -
  let ?i = "h_frame_id (p_header p)"
  obtain d m where ev: "evict_stale_frames ?i r = (d, r\<lparr>rb_pending := m\<rparr>)"
    by (simp add: evict_stale_frames_def Let_def)
  obtain d' m' where lo: "remove_oldest_while (over_capacity ?i (rb_max_pending_frames r))
      (\<lambda>d. d + 1) m d = (m', d')" by (cases rule: prod.exhaust)
  have m': "after_eviction ?i r = m'" by (simp add: after_eviction_def ev lo)
  have entry: "(case bt_get m' ?i of Some frame \<Rightarrow> frame
      | None \<Rightarrow> \<lparr>pf_first_packet_receive_time_micros = t, pf_packets = []\<rparr>) = pending_entry t ?i r"
    using after_eviction_self [of ?i r] by (simp add: pending_entry_def m')
  show ?thesis
    unfolding push_with_stats_at_def Let_def ev prod.case
    by (simp add: lo entry m' duplicate_fragment_def last_fragment_def with_fragment_def Let_def
        bt_remove_insert image_iff split: sum.split prod.split) (auto)
qed

lemma push_last:
  assumes "\<not> duplicate_fragment p t r" and "last_fragment p t r"
    and "reassemble_frame (pf_packets (pending_entry t (h_frame_id (p_header p)) r) @ [p]) = Inr frame"
  shows "\<exists>d. fst (push_with_stats_at p t r) = Inr \<lparr>ro_frame = Some frame, ro_dropped_frames = d,
    ro_reassembly_ms = micros_delta_to_millis (pf_first_packet_receive_time_micros
      (pending_entry t (h_frame_id (p_header p)) r)) t\<rparr>"
proof -
  let ?i = "h_frame_id (p_header p)"
  obtain d m where ev: "evict_stale_frames ?i r = (d, r\<lparr>rb_pending := m\<rparr>)"
    by (simp add: evict_stale_frames_def Let_def)
  obtain d' m' where lo: "remove_oldest_while (over_capacity ?i (rb_max_pending_frames r))
      (\<lambda>d. d + 1) m d = (m', d')" by (cases rule: prod.exhaust)
  have m': "after_eviction ?i r = m'" by (simp add: after_eviction_def ev lo)
  have entry: "(case bt_get m' ?i of Some frame \<Rightarrow> frame
      | None \<Rightarrow> \<lparr>pf_first_packet_receive_time_micros = t, pf_packets = []\<rparr>) = pending_entry t ?i r"
    using after_eviction_self [of ?i r] by (simp add: pending_entry_def m')
  have "\<not> (\<exists>q \<in> set (pf_packets (pending_entry t ?i r)).
      h_fragment_index (p_header q) = h_fragment_index (p_header p))"
    using assms(1) by (auto simp: duplicate_fragment_def image_iff)
  then show ?thesis
    using assms(2,3) unfolding push_with_stats_at_def Let_def ev prod.case
    by (simp add: lo entry m' last_fragment_def)
qed

text \<open>The budget holds after every eviction, and nothing is evicted below it.\<close>

lemma evict_media_budget_pending:
  "bt_get (rb_pending (snd (evict_media_budget r))) \<subseteq>\<^sub>m bt_get (rb_pending r)"
  "bt_len (rb_pending (snd (evict_media_budget r))) \<le> bt_len (rb_pending r)"
  "pending_media_ms (rb_frame_interval_ms r) (rb_pending (snd (evict_media_budget r)))
     \<le> rb_max_pending_media_ms r"
  "\<exists>m. snd (evict_media_budget r) = r\<lparr>rb_pending := m\<rparr>"
proof -
  let ?c = "over_budget (rb_frame_interval_ms r) (rb_max_pending_media_ms r)"
  obtain m d where lo: "remove_oldest_while ?c (\<lambda>d. sat_add d 1) (rb_pending r) 0 = (m, d)"
    by (cases rule: prod.exhaust)
  have m: "snd (evict_media_budget r) = r\<lparr>rb_pending := m\<rparr>"
    by (simp add: evict_media_budget_def lo)
  then show "\<exists>m. snd (evict_media_budget r) = r\<lparr>rb_pending := m\<rparr>" by blast
  show "bt_get (rb_pending (snd (evict_media_budget r))) \<subseteq>\<^sub>m bt_get (rb_pending r)"
    using remove_oldest_while_get [OF lo] by (simp add: m)
  show "bt_len (rb_pending (snd (evict_media_budget r))) \<le> bt_len (rb_pending r)"
    using remove_oldest_while_len(1) [OF lo] by (simp add: m)
  have zero: "pending_media_ms (rb_frame_interval_ms r) m = 0" if "bt_is_empty m"
    using unat_pending_media_ms [of "rb_frame_interval_ms r" m] that
    by (simp add: unat_eq_zero bt_is_empty_def bt_len_def)
  have empty: "bt_is_empty m" if "bt_len m = 0"
    using that by (simp add: bt_len_def bt_is_empty_def)
  show "pending_media_ms (rb_frame_interval_ms r)
      (rb_pending (snd (evict_media_budget r))) \<le> rb_max_pending_media_ms r"
  proof (cases "?c m")
    case True
    with remove_oldest_while_len(2) [OF lo] empty show ?thesis
      by (simp add: over_budget_def)
  next
    case False
    with zero show ?thesis by (auto simp: m over_budget_def not_less)
  qed
qed

lemma evict_media_budget_id:
  "min (bt_len (rb_pending r) * unat (rb_frame_interval_ms r)) 65535 \<le> unat (rb_max_pending_media_ms r)
   \<Longrightarrow> snd (evict_media_budget r) = r"
proof -
  assume "min (bt_len (rb_pending r) * unat (rb_frame_interval_ms r)) 65535
    \<le> unat (rb_max_pending_media_ms r)"
  then have "\<not> over_budget (rb_frame_interval_ms r) (rb_max_pending_media_ms r) (rb_pending r)"
    unfolding over_budget_def word_less_nat_alt unat_pending_media_ms by linarith
  then show ?thesis by (simp add: evict_media_budget_def remove_oldest_while_id)
qed

lemma push_settings:
  "\<exists>m. snd (push_with_stats_at p t r) = r\<lparr>rb_pending := m\<rparr>"
  using evict_media_budget_pending(4) [of "with_fragment p t r"]
  by (auto simp: push_state Let_def with_fragment_def)

section \<open>Lemmas: the invariant\<close>

definition pending_frame_ok :: "u32 \<Rightarrow> pending_frame \<Rightarrow> bool" where
  "pending_frame_ok i f \<longleftrightarrow>
     (\<forall>p \<in> set (pf_packets f). h_frame_id (p_header p) = i) \<and>
     distinct (map (\<lambda>p. h_fragment_index (p_header p)) (pf_packets f)) \<and> pf_packets f \<noteq> []"

definition all_pending :: "(u32 \<Rightarrow> pending_frame \<Rightarrow> bool) \<Rightarrow> reassembly_buffer \<Rightarrow> bool" where
  "all_pending P r \<longleftrightarrow> (\<forall>i f. bt_get (rb_pending r) i = Some f \<longrightarrow> P i f)"

definition reassembly_inv :: "reassembly_buffer \<Rightarrow> bool" where
  "reassembly_inv r \<longleftrightarrow>
     0 < rb_max_pending_frames r \<and> pending_frames r \<le> rb_max_pending_frames r \<and>
     min (pending_frames r * unat (rb_frame_interval_ms r)) 65535 \<le> unat (rb_max_pending_media_ms r) \<and>
     all_pending pending_frame_ok r"

lemma all_pending_sub:
  "all_pending P r \<Longrightarrow> bt_get (rb_pending r') \<subseteq>\<^sub>m bt_get (rb_pending r) \<Longrightarrow> all_pending P r'"
  by (force simp: all_pending_def map_le_def dom_def)

lemma pending_entry_ok:
  "all_pending pending_frame_ok r \<Longrightarrow> \<not> duplicate_fragment p t r \<Longrightarrow>
   pending_frame_ok (h_frame_id (p_header p))
     (pending_entry t (h_frame_id (p_header p)) r
        \<lparr>pf_packets := pf_packets (pending_entry t (h_frame_id (p_header p)) r) @ [p]\<rparr>)"
  by (auto simp: all_pending_def pending_frame_ok_def pending_entry_def duplicate_fragment_def
      split: option.splits)

lemma duplicate_fragment_pending:
  "duplicate_fragment p t r \<Longrightarrow>
   bt_get (rb_pending r) (h_frame_id (p_header p)) = Some (pending_entry t (h_frame_id (p_header p)) r)"
  by (auto simp: duplicate_fragment_def pending_entry_def split: option.splits)

lemma reassembly_inv_push:
  assumes "reassembly_inv r"
  shows "reassembly_inv (snd (push_with_stats_at p t r))"
proof -
  let ?i = "h_frame_id (p_header p)"
  let ?m = "after_eviction ?i r" and ?r = "snd (push_with_stats_at p t r)"
  note inv = assms [unfolded reassembly_inv_def]
  have budget: "min (n * unat (rb_frame_interval_ms r)) 65535 \<le> unat (rb_max_pending_media_ms r)"
    if "n \<le> pending_frames r" for n
    using inv mult_le_mono1 [OF that, of "unat (rb_frame_interval_ms r)"] by linarith
  have shrink: "reassembly_inv (r\<lparr>rb_pending := m\<rparr>)" if "bt_get m \<subseteq>\<^sub>m bt_get (rb_pending r)" for m
    using inv bt_len_map_le_mono [OF that] all_pending_sub [of pending_frame_ok r "r\<lparr>rb_pending := m\<rparr>"] that
      budget [of "bt_len m"]
    by (simp add: reassembly_inv_def pending_frames_def)
  consider (dup) "duplicate_fragment p t r" | (last) "\<not> duplicate_fragment p t r" "last_fragment p t r"
    | (more) "\<not> duplicate_fragment p t r" "\<not> last_fragment p t r" by blast
  then show ?thesis
  proof cases
    case dup
    then have "bt_insert ?i (pending_entry t ?i r) ?m = ?m"
      by (intro bt.ins_present) (simp add: after_eviction_self duplicate_fragment_pending)
    with dup show ?thesis by (simp add: push_state Let_def shrink after_eviction_le)
  next
    case last
    have "bt_get (bt_remove ?i ?m) \<subseteq>\<^sub>m bt_get (rb_pending r)"
      using after_eviction_le [of ?i r] by (auto simp: map_le_def)
    with last show ?thesis by (simp add: push_state Let_def shrink)
  next
    case more
    let ?r' = "with_fragment p t r"
    have state: "?r = snd (evict_media_budget ?r')" using more by (simp add: push_state)
    obtain m where m: "?r = ?r'\<lparr>rb_pending := m\<rparr>"
      using evict_media_budget_pending(4) [of ?r'] state by auto
    have "bt_len (rb_pending ?r') \<le> rb_max_pending_frames r"
    proof (cases "bt_get (rb_pending r) ?i")
      case None
      then have "bt_len (rb_pending ?r') = Suc (bt_len ?m)"
        by (simp add: with_fragment_def Let_def bt_len_insert_new after_eviction_self)
      with after_eviction_room [of r ?i] inv None show ?thesis by simp
    next
      case (Some f)
      then have "bt_len (rb_pending ?r') = bt_len ?m"
        by (simp add: with_fragment_def Let_def bt_len_insert_old after_eviction_self)
      with bt_len_map_le_mono [OF after_eviction_le [of ?i r]] inv show ?thesis
        by (simp add: pending_frames_def)
    qed
    moreover have "all_pending pending_frame_ok ?r'"
      using all_pending_sub [of pending_frame_ok r "r\<lparr>rb_pending := ?m\<rparr>"] after_eviction_le [of ?i r] inv
        pending_entry_ok [of r p t] more
      by (auto simp: all_pending_def with_fragment_def Let_def)
    moreover have "rb_max_pending_frames ?r' = rb_max_pending_frames r"
      "rb_frame_interval_ms ?r' = rb_frame_interval_ms r"
      "rb_max_pending_media_ms ?r' = rb_max_pending_media_ms r"
      by (simp_all add: with_fragment_def Let_def)
    ultimately show ?thesis
      using evict_media_budget_pending(1-3) [of ?r'] inv all_pending_sub [of pending_frame_ok ?r' ?r]
      unfolding state [symmetric]
      by (simp add: reassembly_inv_def pending_frames_def m word_le_nat_alt unat_pending_media_ms)
  qed
qed

section \<open>Lemmas: sequences of packets\<close>

text \<open>The packets of a sequence, with their times of arrival, pushed one after the other.\<close>

definition push_all :: "(media_packet \<times> u64) list \<Rightarrow> reassembly_buffer \<Rightarrow> reassembly_buffer" where
  "push_all ops r = fold (\<lambda>(p, t) r. snd (push_with_stats_at p t r)) ops r"

lemma push_all_simps [simp]:
  "push_all [] r = r"
  "push_all ((p, t) # ops) r = push_all ops (snd (push_with_stats_at p t r))"
  "push_all (ops @ ops') r = push_all ops' (push_all ops r)"
  by (simp_all add: push_all_def)

lemma reassembly_inv_push_all: "reassembly_inv r \<Longrightarrow> reassembly_inv (push_all ops r)"
proof (induction ops arbitrary: r)
  case (Cons op ops)
  then show ?case by (cases op) (simp add: reassembly_inv_push)
qed simp

lemma reassembly_inv_new: "reassembly_inv (with_jitter_budget n age media interval)"
  by (simp add: reassembly_inv_def with_jitter_budget_def pending_frames_def bt_len_def all_pending_def
      Let_def)

lemma push_all_settings: "\<exists>m. push_all ops r = r\<lparr>rb_pending := m\<rparr>"
proof (induction ops arbitrary: r)
  case Nil
  show ?case by (rule exI [of _ "rb_pending r"]) simp
next
  case (Cons op ops)
  obtain p t where op: "op = (p, t)" by (cases op)
  obtain m where "snd (push_with_stats_at p t r) = r\<lparr>rb_pending := m\<rparr>" using push_settings by blast
  with Cons [of "r\<lparr>rb_pending := m\<rparr>"] show ?case by (simp add: op)
qed

text \<open>The frame ids a buffer and a sequence of packets hold, and that the limits have room for them.\<close>

abbreviation packet_frame :: "media_packet \<times> u64 \<Rightarrow> u32" where
  "packet_frame op \<equiv> h_frame_id (p_header (fst op))"

definition roomy :: "reassembly_buffer \<Rightarrow> u32 set \<Rightarrow> bool" where
  "roomy r S \<longleftrightarrow>
     dom (bt_get (rb_pending r)) \<subseteq> S \<and> card S \<le> rb_max_pending_frames r \<and>
     card S * unat (rb_frame_interval_ms r) \<le> unat (rb_max_pending_media_ms r)"

lemma roomy_budget:
  assumes "roomy r S" and "dom (bt_get (rb_pending r')) \<subseteq> S"
    and "rb_frame_interval_ms r' = rb_frame_interval_ms r"
    and "rb_max_pending_media_ms r' = rb_max_pending_media_ms r"
  shows "snd (evict_media_budget r') = r'"
proof (rule evict_media_budget_id)
  have "bt_len (rb_pending r') \<le> card S" using assms(2) by (simp add: bt_len_card card_mono)
  then have "bt_len (rb_pending r') * unat (rb_frame_interval_ms r) \<le>
      card S * unat (rb_frame_interval_ms r)" by (rule mult_le_mono1)
  with assms(1,3,4) show "min (bt_len (rb_pending r') * unat (rb_frame_interval_ms r')) 65535 \<le>
      unat (rb_max_pending_media_ms r')"
    unfolding roomy_def by (simp only:) linarith
qed

lemma after_eviction_dom: "dom (bt_get (after_eviction i r)) \<subseteq> dom (bt_get (rb_pending r))"
  using after_eviction_le by (rule map_le_implies_dom_le)

lemma roomy_push:
  assumes "roomy r S" and "h_frame_id (p_header p) \<in> S"
  shows "roomy (snd (push_with_stats_at p t r)) S"
    and "snd (push_with_stats_at p t r) =
      (let i = h_frame_id (p_header p) in
       if duplicate_fragment p t r
       then r\<lparr>rb_pending := bt_insert i (pending_entry t i r) (after_eviction i r)\<rparr>
       else if last_fragment p t r then r\<lparr>rb_pending := bt_remove i (after_eviction i r)\<rparr>
       else with_fragment p t r)"
proof -
  let ?i = "h_frame_id (p_header p)"
  have "dom (bt_get (rb_pending (with_fragment p t r))) \<subseteq> S"
    using assms after_eviction_dom [of ?i r]
    by (auto simp: roomy_def with_fragment_def Let_def)
  then have "snd (evict_media_budget (with_fragment p t r)) = with_fragment p t r"
    by (rule roomy_budget [OF assms(1)]) (simp_all add: with_fragment_def Let_def)
  then show eq: "snd (push_with_stats_at p t r) =
      (let i = h_frame_id (p_header p) in
       if duplicate_fragment p t r
       then r\<lparr>rb_pending := bt_insert i (pending_entry t i r) (after_eviction i r)\<rparr>
       else if last_fragment p t r then r\<lparr>rb_pending := bt_remove i (after_eviction i r)\<rparr>
       else with_fragment p t r)"
    unfolding push_state by (simp only:)
  show "roomy (snd (push_with_stats_at p t r)) S"
    unfolding eq using assms after_eviction_dom [of ?i r]
    by (auto simp: roomy_def with_fragment_def Let_def)
qed

text \<open>What is pending of a frame while its packets and those of other frames arrive.\<close>

lemma push_other_keeps:
  assumes "roomy r S" and "h_frame_id (p_header p) \<in> S" and "finite S"
    and "h_frame_id (p_header p) \<noteq> k"
    and "\<not> frame_is_older_than_window k (h_frame_id (p_header p)) (rb_max_frame_age_frames r)"
  shows "bt_get (rb_pending (snd (push_with_stats_at p t r))) k = bt_get (rb_pending r) k"
  using after_eviction_keeps [of r S "h_frame_id (p_header p)" k] assms
  unfolding roomy_push(2) [OF assms(1,2)]
  by (simp add: roomy_def with_fragment_def Let_def)

definition collected :: "u32 \<Rightarrow> media_packet list \<Rightarrow> reassembly_buffer \<Rightarrow> bool" where
  "collected k ps r \<longleftrightarrow>
     (case bt_get (rb_pending r) k of
        None \<Rightarrow> ps = []
      | Some f \<Rightarrow> ps \<noteq> [] \<and> pf_packets f = ps)"

lemma push_collects:
  assumes "roomy r S" and "k \<in> S" and "h_frame_id (p_header p) = k" and "collected k ps r"
    and "distinct (map (\<lambda>p. h_fragment_index (p_header p)) (ps @ [p]))"
    and "Suc (length ps) \<noteq> unat (h_fragment_count (p_header p))"
  shows "collected k (ps @ [p]) (snd (push_with_stats_at p t r))"
proof -
  have entry: "pf_packets (pending_entry t k r) = ps"
    using assms(4) by (auto simp: collected_def pending_entry_def split: option.splits)
  then have "\<not> duplicate_fragment p t r" "\<not> last_fragment p t r"
    using assms(3,5,6) by (auto simp: duplicate_fragment_def last_fragment_def)
  then show ?thesis
    using assms(2,3) roomy_push(2) [OF assms(1), of p t]
    by (simp add: collected_def with_fragment_def Let_def entry)
qed

lemma push_all_collects:
  assumes "roomy r S" and "finite S" and "k \<in> S" and "packet_frame ` set ops \<subseteq> S"
    and "collected k ps r"
    and "\<forall>op \<in> set ops. \<not> frame_is_older_than_window k (packet_frame op) (rb_max_frame_age_frames r)"
    and "distinct (map (\<lambda>p. h_fragment_index (p_header p))
           (ps @ filter (\<lambda>p. h_frame_id (p_header p) = k) (map fst ops)))"
    and "length ps + length (filter (\<lambda>p. h_frame_id (p_header p) = k) (map fst ops)) < n"
    and "\<forall>op \<in> set ops. packet_frame op = k \<longrightarrow> unat (h_fragment_count (p_header (fst op))) = n"
  shows "roomy (push_all ops r) S \<and>
    collected k (ps @ filter (\<lambda>p. h_frame_id (p_header p) = k) (map fst ops)) (push_all ops r)"
  using assms
proof (induction ops arbitrary: r ps)
  case (Cons op ops)
  obtain p t where op: "op = (p, t)" by (cases op)
  let ?r = "snd (push_with_stats_at p t r)"
  from Cons.prems have p: "h_frame_id (p_header p) \<in> S" by (simp add: op)
  obtain m where m: "?r = r\<lparr>rb_pending := m\<rparr>" using push_settings by blast
  then have age: "rb_max_frame_age_frames ?r = rb_max_frame_age_frames r" by simp
  note roomy = roomy_push(1) [OF Cons.prems(1) p, of t]
  show ?case
  proof (cases "h_frame_id (p_header p) = k")
    case True
    have "collected k (ps @ [p]) ?r"
      by (rule push_collects [OF Cons.prems(1,3) True Cons.prems(5)])
        (use Cons.prems(7-9) True in \<open>auto simp: op\<close>)
    then show ?thesis
      using Cons.IH [OF roomy, of "ps @ [p]"] Cons.prems True by (simp add: op age)
  next
    case False
    then have "collected k ps ?r"
      using Cons.prems(2,5,6) push_other_keeps [OF Cons.prems(1) p, of k t]
      by (simp add: collected_def op)
    then show ?thesis
      using Cons.IH [OF roomy, of ps] Cons.prems False by (simp add: op age)
  qed
qed simp

lemma distinct_of_nat_u16: "n \<le> 65535 \<Longrightarrow> distinct (map (of_nat :: nat \<Rightarrow> u16) [0..<n])"
proof -
  assume n: "n \<le> 65535"
  have "map unat (map (of_nat :: nat \<Rightarrow> u16) [0..<n]) = [0..<n]"
    unfolding map_map using n by (intro map_idI) (simp add: of_nat_u16_eq)
  then show ?thesis using distinct_upt [of 0 n] by (metis distinct_map)
qed

text \<open>The push of the last packet of a frame yields what its packets reassemble to.\<close>

lemma push_all_delivers:
  fixes k :: u32
  defines "own \<equiv> \<lambda>ops. filter (\<lambda>p. h_frame_id (p_header p) = k) (map fst ops)"
  assumes "reassemble_frame (own ops @ [p]) = Inr frame" and "h_frame_id (p_header p) = k"
    and "distinct (map (\<lambda>p. h_fragment_index (p_header p)) (own ops @ [p]))"
    and "\<forall>q \<in> set (own ops @ [p]). unat (h_fragment_count (p_header q)) = Suc (length (own ops))"
    and "bt_get (rb_pending r) k = None"
    and "roomy r (dom (bt_get (rb_pending r)) \<union> packet_frame ` set ops \<union> {k})"
    and "\<forall>op \<in> set ops. \<not> frame_is_older_than_window k (packet_frame op) (rb_max_frame_age_frames r)"
  shows "\<exists>d ms. fst (push_with_stats_at p t (push_all ops r)) =
    Inr \<lparr>ro_frame = Some frame, ro_dropped_frames = d, ro_reassembly_ms = ms\<rparr>"
proof -
  let ?own = "own ops" and ?n = "Suc (length (own ops))"
  have cnt: "unat (h_fragment_count (p_header (fst op))) = ?n" if "op \<in> set ops" "packet_frame op = k" for op
    using assms(5) that by (auto simp: own_def)
  have "collected k ?own (push_all ops r)"
    using push_all_collects [OF assms(7), of k ops "[]" ?n] assms(4,6,8) cnt
    by (auto simp: collected_def own_def)
  then have entry: "pf_packets (pending_entry t k (push_all ops r)) = ?own"
    by (auto simp: collected_def pending_entry_def split: option.splits)
  have p: "unat (h_fragment_count (p_header p)) = ?n" using assms(5) by simp
  have "\<not> duplicate_fragment p t (push_all ops r)" "last_fragment p t (push_all ops r)"
    using assms(4) by (auto simp: duplicate_fragment_def last_fragment_def p entry assms(3))
  then show ?thesis
    using push_last [of p t "push_all ops r" frame] assms(2) unfolding p entry assms(3) by blast
qed

section \<open>Properties\<close>

text \<open>
  The jitter buffer is bounded: whatever packets arrive, no more frames are pending than its
  limit, they hold no more media than the jitter budget, no frame outside the window of the newest
  packet is pending, and a pending frame has distinct fragments of its own id only.
\<close>

theorem reassembly_limits:
  "let r = snd (push_with_stats_at p t (push_all ops (with_jitter_budget n age media interval)))
   in pending_frames r \<le> max n 1 \<and>
      min (pending_frames r * unat (max interval 1)) 65535 \<le> unat (max media (max interval 1)) \<and>
      all_pending (\<lambda>k _. \<not> frame_is_older_than_window k (h_frame_id (p_header p)) (max age 1)) r \<and>
      all_pending pending_frame_ok r"
proof -
  let ?init = "with_jitter_budget n age media interval" and ?i = "h_frame_id (p_header p)"
  let ?r = "push_all ops ?init" and ?r' = "snd (push_with_stats_at p t (push_all ops ?init))"
  have inv: "reassembly_inv ?r'"
    by (intro reassembly_inv_push reassembly_inv_push_all reassembly_inv_new)
  obtain m where m: "?r = ?init\<lparr>rb_pending := m\<rparr>" 
    using push_all_settings [of ops ?init] by blast
  obtain m' where m': "?r' = ?r\<lparr>rb_pending := m'\<rparr>"
    using push_settings [of p t ?r] by blast
  have "dom (bt_get (rb_pending ?r')) \<subseteq> insert ?i (dom (bt_get (after_eviction ?i ?r)))"
    using map_le_implies_dom_le [OF evict_media_budget_pending(1) [of "with_fragment p t ?r"]]
    by (auto simp: push_state Let_def with_fragment_def)
  then have "bt_get (rb_pending ?r') k = None"
    if "frame_is_older_than_window k ?i (rb_max_frame_age_frames ?r)" for k
    using after_eviction_fresh [OF that] that by (cases "k = ?i") auto
  moreover have "rb_max_frame_age_frames ?r = max age 1"
    unfolding m by (simp add: with_jitter_budget_def Let_def)
  ultimately have "all_pending (\<lambda>k _. \<not> frame_is_older_than_window k ?i (max age 1)) ?r'"
    unfolding all_pending_def by (metis option.distinct(1))
  moreover have "rb_max_pending_frames ?r' = max n 1" "rb_frame_interval_ms ?r' = max interval 1"
    "rb_max_pending_media_ms ?r' = max media (max interval 1)"
    unfolding m' unfolding m by (simp_all add: with_jitter_budget_def Let_def)
  ultimately show ?thesis using inv unfolding Let_def reassembly_inv_def by (simp only:)
qed

text \<open>
  C22. A frame whose packets all arrive comes out: when they are pushed in any order, between packets
  of other frames that do not leave it behind their window, into a buffer whose limits have room for
  every frame seen, the push of its last packet yields exactly the frame that was packetized, with
  the time from its first packet to its last.
\<close>

theorem reassembly_delivers:
  assumes "packetize_frame_with_type frame ty seq mp = Inr ps" and "ty = Video \<or> ty = Audio"
    and "mset (filter (\<lambda>p. h_frame_id (p_header p) = f_frame_id frame) (map fst ops) @ [p]) = mset ps"
    and "bt_get (rb_pending r) (f_frame_id frame) = None"
    and "roomy r (dom (bt_get (rb_pending r)) \<union> packet_frame ` set ops \<union> {f_frame_id frame})"
    and "\<forall>op \<in> set ops.
      \<not> frame_is_older_than_window (f_frame_id frame) (packet_frame op) (rb_max_frame_age_frames r)"
  shows "\<exists>d ms. fst (push_with_stats_at p t (push_all ops r)) =
    Inr \<lparr>ro_frame = Some frame, ro_dropped_frames = d, ro_reassembly_ms = ms\<rparr>"
proof -
  let ?k = "f_frame_id frame" and ?n = "fragment_total frame mp"
  let ?f = "fragment frame ty seq mp ?n" and ?idx = "\<lambda>p. h_fragment_index (p_header p)"
  let ?own = "filter (\<lambda>p. h_frame_id (p_header p) = ?k) (map fst ops)"
  from assms(1) have n: "?n \<le> 65535" and ps: "ps = map ?f [0..<?n]"
    unfolding packetize_frame_with_type_Inr by auto
  have hdr: "h_frame_id (p_header q) = ?k \<and> unat (h_fragment_count (p_header q)) = ?n"
    if q: "q \<in> set ps" for q
  proof -
    from q obtain i where "q = ?f i" unfolding ps by auto
    then show ?thesis by (simp only: fragment_header_sel of_nat_u16_eq [OF n])
  qed
  have set: "set (?own @ [p]) = set ps" using mset_eq_setD [OF assms(3)] .
  have len: "Suc (length ?own) = ?n" using mset_eq_length [OF assms(3)] by (simp add: ps)
  have "distinct (map (of_nat :: nat \<Rightarrow> u16) [0..<?n])" using n by (rule distinct_of_nat_u16)
  moreover have "map ?idx ps = map of_nat [0..<?n]" unfolding ps map_map comp_def fragment_header_sel ..
  ultimately have "distinct (map ?idx ps)" by (simp only:)
  moreover have "mset (map ?idx (?own @ [p])) = mset (map ?idx ps)" using assms(3) by (simp only: mset_map)
  ultimately have dist: "distinct (map ?idx (?own @ [p]))" using mset_eq_imp_distinct_iff by blast
  have p: "h_frame_id (p_header p) = ?k"
    and cnt: "\<forall>q \<in> set (?own @ [p]). unat (h_fragment_count (p_header q)) = Suc (length ?own)"
    using hdr set len by auto
  have "reassemble_frame (?own @ [p]) = Inr frame" by (rule reassemble_packetized [OF assms(1-3)])
  then show ?thesis using push_all_delivers [OF _ p dist cnt assms(4-6)] by blast
qed

text \<open>Three fragments out of order, with a packet of the next frame in between.\<close>

definition sample_fragment :: "nat \<Rightarrow> media_packet" where
  "sample_fragment i = fragment sample_frame Video 100 2 3 i"

definition other_packet :: media_packet where
  "other_packet = fragment (sample_frame\<lparr>f_frame_id := 8\<rparr>) Video 103 2 3 0"

theorem reassembly_delivers_witness:
  "\<exists>d ms. fst (push_with_stats_at (sample_fragment 1) 40
      (push_all [(sample_fragment 2, 10), (other_packet, 20), (sample_fragment 0, 30)]
         (with_jitter_budget 4 64 150 33))) =
    Inr \<lparr>ro_frame = Some sample_frame, ro_dropped_frames = d, ro_reassembly_ms = ms\<rparr>"
proof (rule reassembly_delivers [OF sample_frame_packets])
  have id: "h_frame_id (p_header (sample_fragment i)) = 7" for i
    by (simp add: sample_fragment_def fragment_header_sel) (simp add: sample_frame_def)
  have other: "h_frame_id (p_header other_packet) = 8"
    by (simp add: other_packet_def fragment_header_sel)
  have seven: "f_frame_id sample_frame = 7" by (simp add: sample_frame_def)
  let ?ops = "[(sample_fragment 2, 10), (other_packet, 20), (sample_fragment 0, 30 :: u64)]"
  have three: "[0..<3] = [0 :: nat, 1, 2]" by (simp add: upt_rec)
  show "mset (filter (\<lambda>p. h_frame_id (p_header p) = f_frame_id sample_frame) (map fst ?ops) @
      [sample_fragment 1]) = mset (map (fragment sample_frame Video 100 2 3) [0..<3])"
    unfolding three by (simp add: id other seven) (simp add: sample_fragment_def)
  show "roomy (with_jitter_budget 4 64 150 33)
      (dom (bt_get (rb_pending (with_jitter_budget 4 64 150 33))) \<union>
       packet_frame ` set ?ops \<union> {f_frame_id sample_frame})"
    by (simp add: roomy_def with_jitter_budget_def Let_def id other seven max_def word_le_nat_alt
        card_insert_if)
  show "\<forall>op \<in> set ?ops. \<not> frame_is_older_than_window (f_frame_id sample_frame) (packet_frame op)
      (rb_max_frame_age_frames (with_jitter_budget 4 64 150 33))"
    by (simp add: frame_is_older_than_window_def with_jitter_budget_def Let_def id other seven max_def)
  show "bt_get (rb_pending (with_jitter_budget 4 64 150 33)) (f_frame_id sample_frame) = None"
    by (simp add: with_jitter_budget_def Let_def)
qed simp

text \<open>
  C39. Room is made by id, not by age: when the first packet of a new frame meets a full buffer in
  which nothing is stale, exactly the pending frame with the numerically smallest id is given up and
  counted as dropped, whichever frame arrived first; after the ids wrap around that is the newest of
  the pending frames.
\<close>

theorem full_buffer_drops_smallest_id:
  assumes "bt_iter (rb_pending r) = (k, f) # rest" and "pending_frames r = rb_max_pending_frames r"
    and "bt_get (rb_pending r) (h_frame_id (p_header p)) = None"
    and "all_pending (\<lambda>k _. \<not> frame_is_older_than_window k (h_frame_id (p_header p))
           (rb_max_frame_age_frames r)) r"
    and "unat (h_fragment_count (p_header p)) \<noteq> 1"
    and "pending_frames r * unat (rb_frame_interval_ms r) \<le> unat (rb_max_pending_media_ms r)"
  shows "push_with_stats_at p t r =
    (Inr \<lparr>ro_frame = None, ro_dropped_frames = 1, ro_reassembly_ms = 0\<rparr>,
     r\<lparr>rb_pending := bt_insert (h_frame_id (p_header p))
         \<lparr>pf_first_packet_receive_time_micros = t, pf_packets = [p]\<rparr>
         (bt_remove k (rb_pending r))\<rparr>)"
proof -
  let ?i = "h_frame_id (p_header p)" and ?m = "rb_pending r" and ?m' = "bt_remove k (rb_pending r)"
  let ?e = "\<lparr>pf_first_packet_receive_time_micros = t, pf_packets = [p]\<rparr>"
  have "filter (\<lambda>k. frame_is_older_than_window k ?i (rb_max_frame_age_frames r)) (bt_keys ?m) = []"
    using assms(4) by (auto simp: filter_empty_conv set_bt_keys all_pending_def)
  then have stale: "evict_stale_frames ?i r = (0, r)" by (simp add: evict_stale_frames_def)
  have iter: "bt_iter ?m' = rest" using assms(1) by simp
  have len: "Suc (bt_len ?m') = bt_len ?m" by (simp add: bt_len_def iter assms(1) del: bt_iter_remove)
  have room: "remove_oldest_while (over_capacity ?i (rb_max_pending_frames r)) (\<lambda>d. d + 1) ?m 0 = (?m', 1)"
    using assms(2,3) len
    by (subst remove_oldest_while.simps)
      (simp add: assms(1) over_capacity_def pending_frames_def remove_oldest_while_id)
  have none: "bt_get ?m' ?i = None" using assms(3) by simp
  have "bt_len (bt_insert ?i ?e ?m') = bt_len ?m" using bt_len_insert_new [OF none] len by simp
  then have "\<not> over_budget (rb_frame_interval_ms r) (rb_max_pending_media_ms r) (bt_insert ?i ?e ?m')"
    using assms(6) unfolding over_budget_def word_less_nat_alt unat_pending_media_ms pending_frames_def
    by simp
  then have "evict_media_budget (r\<lparr>rb_pending := bt_insert ?i ?e ?m'\<rparr>) =
      (0, r\<lparr>rb_pending := bt_insert ?i ?e ?m'\<rparr>)"
    by (simp add: evict_media_budget_def remove_oldest_while_id)
  then show ?thesis
    using assms(5) none
    by (simp add: push_with_stats_at_def Let_def stale room)
qed

text \<open>Two frames pending when the ids wrap: the newer of them, frame 0, is given up.\<close>

definition first_packet_of :: "u32 \<Rightarrow> media_packet" where
  "first_packet_of i = fragment (sample_frame\<lparr>f_frame_id := i\<rparr>) Video 103 2 3 0"

definition wrapped_buffer :: reassembly_buffer where
  "wrapped_buffer =
     \<lparr>rb_pending =
        bt_insert 0 \<lparr>pf_first_packet_receive_time_micros = 20, pf_packets = [first_packet_of 0]\<rparr>
          (bt_insert 4294967295 \<lparr>pf_first_packet_receive_time_micros = 10, pf_packets = [first_packet_of 4294967295]\<rparr> bt_new),
      rb_max_pending_frames = 2, rb_max_frame_age_frames = 64, rb_max_pending_media_ms = 150,
      rb_frame_interval_ms = 33\<rparr>"

theorem full_buffer_drops_smallest_id_witness:
  "\<exists>r. push_with_stats_at (first_packet_of 1) 30 wrapped_buffer =
     (Inr \<lparr>ro_frame = None, ro_dropped_frames = 1, ro_reassembly_ms = 0\<rparr>, r) \<and>
   bt_keys (rb_pending r) = [1, 4294967295]"
proof -
  have p: "h_frame_id (p_header (first_packet_of 1)) = 1" "unat (h_fragment_count (p_header (first_packet_of 1))) = 3"
    by (simp_all add: first_packet_of_def fragment_header_sel)
  have "push_with_stats_at (first_packet_of 1) 30 wrapped_buffer =
    (Inr \<lparr>ro_frame = None, ro_dropped_frames = 1, ro_reassembly_ms = 0\<rparr>,
     wrapped_buffer\<lparr>rb_pending := bt_insert (h_frame_id (p_header (first_packet_of 1)))
         \<lparr>pf_first_packet_receive_time_micros = 30, pf_packets = [(first_packet_of 1)]\<rparr>
         (bt_remove 0 (rb_pending wrapped_buffer))\<rparr>)"
  proof (rule full_buffer_drops_smallest_id)
    show "bt_iter (rb_pending wrapped_buffer) =
        (0, \<lparr>pf_first_packet_receive_time_micros = 20, pf_packets = [first_packet_of 0]\<rparr>) #
        [(4294967295, \<lparr>pf_first_packet_receive_time_micros = 10, pf_packets = [first_packet_of 4294967295]\<rparr>)]"
      by (simp add: wrapped_buffer_def)
    then show "pending_frames wrapped_buffer = rb_max_pending_frames wrapped_buffer"
      "pending_frames wrapped_buffer * unat (rb_frame_interval_ms wrapped_buffer)
         \<le> unat (rb_max_pending_media_ms wrapped_buffer)"
      by (simp_all add: pending_frames_def bt_len_def) (simp_all add: wrapped_buffer_def)
  qed (auto simp: p wrapped_buffer_def all_pending_def frame_is_older_than_window_def
      split: if_splits)
  then show ?thesis by (simp add: p wrapped_buffer_def bt_keys_def)
qed

end
