(* ===== verification/Le_Bytes.thy ===== *)
theory Le_Bytes
  imports Byte_Buf
begin

text \<open>
  What the client's encoders share: little-endian fields, padding loops, ranges of slices, and the
  checked arithmetic of a 64-bit \<open>usize\<close>.
\<close>

section \<open>Little-endian numbers\<close>

text \<open>\<open>to_le_bytes\<close> and \<open>from_le_bytes\<close> of an integer of \<open>n\<close> bytes.\<close>

definition to_le :: "nat \<Rightarrow> 'a::len word \<Rightarrow> bytes" where
  "to_le n w = rev (put_be n (unat w))"

definition from_le :: "bytes \<Rightarrow> 'a::len word" where
  "from_le bs = of_nat (get_be (rev bs))"

lemma length_to_le [simp]: "length (to_le n w) = n"
  by (simp add: to_le_def)

lemma from_le_to_le: "256 ^ n = (2 :: nat) ^ LENGTH('a) \<Longrightarrow> from_le (to_le n w) = w"
  for w :: "'a::len word"
  using unsigned_less [of w] by (simp add: from_le_def to_le_def get_put_be)

lemma from_le_to_le_fields [simp]:
  "from_le (to_le 2 w) = (w :: u16)" "from_le (to_le 4 x) = (x :: u32)"
  "from_le (to_le 8 y) = (y :: u64)"
  by (simp_all add: from_le_to_le)

lemma to_le_4:
  "to_le 4 w = [of_nat (unat w), of_nat (unat w div 256), of_nat (unat w div 256 div 256),
     of_nat (unat w div 256 div 256 div 256)]"
proof -
  have four: "4 = Suc (Suc (Suc (Suc 0)))" by simp
  show ?thesis unfolding to_le_def four put_be.simps by simp
qed

lemma to_le_inject:
  "to_le 2 w = to_le 2 w' \<longleftrightarrow> w = (w' :: u16)" "to_le 4 x = to_le 4 x' \<longleftrightarrow> x = (x' :: u32)"
  by (metis from_le_to_le_fields)+

section \<open>Slices and checked arithmetic\<close>

text \<open>\<open>slice.get(start..start + len)\<close>\<close>

definition get_range :: "'a list \<Rightarrow> nat \<Rightarrow> nat \<Rightarrow> 'a list option" where
  "get_range xs start len =
     (if start + len \<le> length xs then Some (take len (drop start xs)) else None)"

text \<open>\<open>checked_mul\<close> on a 64-bit \<open>usize\<close>.\<close>

definition checked_mul_usize :: "nat \<Rightarrow> nat \<Rightarrow> nat option" where
  "checked_mul_usize a b = (if a * b < 2 ^ 64 then Some (a * b) else None)"

lemma unat_u64_le: "unat (d :: u64) \<le> 2 ^ 64 - 1"
proof -
  have "unat d < 2 ^ 64" by (rule order_less_le_trans [OF unsigned_less]) simp
  then show ?thesis by simp
qed

section \<open>Padding\<close>

text \<open>
  \<open>while bytes.len() < target \{ bytes.push(f(bytes.len())) \}\<close>, the loop with which both synthetic
  encoders fill their payload.
\<close>

function pad_loop :: "(nat \<Rightarrow> u8) \<Rightarrow> nat \<Rightarrow> bytes \<Rightarrow> bytes" where
  "pad_loop f target bs =
     (if length bs < target then pad_loop f target (bs @ [f (length bs)]) else bs)"
  by pat_completeness auto
termination by (relation "measure (\<lambda>(f, target, bs). target - length bs)") auto

declare pad_loop.simps [simp del]

lemma pad_loop_eq: "pad_loop f target bs = bs @ map f [length bs..<target]"
proof (induction f target bs rule: pad_loop.induct)
  case (1 f target bs)
  then show ?case by (subst pad_loop.simps) (simp add: upt_conv_Cons)
qed

text \<open>The padding counts upwards.\<close>

definition ramp :: "u8 \<Rightarrow> nat \<Rightarrow> bytes" where
  "ramp b k = map (\<lambda>i. b + of_nat i) [0..<k]"

lemma ramp_0 [simp]: "ramp b 0 = []"
  by (simp add: ramp_def)

lemma ramp_Suc: "ramp b (Suc k) = b # ramp (b + 1) k"
  by (simp add: ramp_def upt_conv_Cons map_Suc_upt [symmetric] comp_def add.assoc add.commute
      del: upt_Suc)

lemma map_upt_ramp:
  assumes "\<And>i. f (n + i) = f n + of_nat i"
  shows "map f [n..<t] = ramp (f n) (t - n)"
proof -
  have "[n..<t] = map ((+) n) [0..<t - n]"
  proof (cases "n \<le> t")
    case True
    have "(+) n = (\<lambda>i. i + n)" by auto
    then show ?thesis using map_add_upt [of n "t - n"] True by simp
  qed simp
  then show ?thesis by (simp add: ramp_def comp_def assms)
qed

lemma unat_ucast_u8: "unat (ucast (x :: u64) :: u8) = unat x mod 256"
  by (simp add: unsigned_ucast_eq take_bit_eq_mod)

lemma ucast_add_u64: "(ucast (a + b :: u64) :: u8) = ucast a + ucast b"
  by (simp add: word_unat_eq_iff unat_ucast_u8 unat_word_ariths mod_mod_cancel mod_add_eq)

lemma unat_ucast_u32_u8: "unat (ucast (x :: u32) :: u8) = unat x mod 256"
  by (simp add: unsigned_ucast_eq take_bit_eq_mod)

lemma ucast_add_u32: "(ucast (a + b :: u32) :: u8) = ucast a + ucast b"
  by (simp add: word_unat_eq_iff unat_ucast_u32_u8 unat_word_ariths mod_mod_cancel mod_add_eq)

end
