(* ===== verification/Capture.thy ===== *)
theory Capture
  imports Le_Bytes Metrics
begin

text \<open>
  Captured frames and their queue: \<open>capture/mod.rs\<close> and the platform-independent part of
  \<open>audio_capture.rs\<close> of the desktop client. An \<open>anyhow::Error\<close> is its message. A \<open>usize\<close> has 64
  bits, where a computation on it is checked. The source asks the operating system for frames;
  what comes back is the argument of the operations here.
\<close>

section \<open>Frames\<close>

datatype capture_pixel_format = Bgra8 | Nv12 | UnknownFormat

datatype capture_frame_storage = MetadataOnly | CpuBytes bytes | NativeHandle u64

record capture_frame =
  cf_frame_id :: u64
  cf_width :: u32
  cf_height :: u32
  cf_capture_time_micros :: u64
  cf_format :: capture_pixel_format
  cf_storage :: capture_frame_storage

definition metadata_only :: "u64 \<Rightarrow> u32 \<Rightarrow> u32 \<Rightarrow> u64 \<Rightarrow> capture_frame" where
  "metadata_only frame_id width height capture_time_micros =
     \<lparr>cf_frame_id = frame_id, cf_width = width, cf_height = height,
      cf_capture_time_micros = capture_time_micros, cf_format = Bgra8, cf_storage = MetadataOnly\<rparr>"

definition bgra_byte_len :: "u32 \<Rightarrow> u32 \<Rightarrow> rstring + nat" where
  "bgra_byte_len width height =
     (case Option.bind (checked_mul_usize (unat width) (unat height))
             (\<lambda>pixels. checked_mul_usize pixels 4) of
        None \<Rightarrow> Inl (lit ''BGRA frame dimensions are too large'')
      | Some n \<Rightarrow> Inr n)"

definition length_mismatch :: "nat \<Rightarrow> u32 \<Rightarrow> u32 \<Rightarrow> nat \<Rightarrow> rstring" where
  "length_mismatch len width height expected_len =
     lit ''BGRA frame buffer length '' @ dec len @ lit '' does not match '' @ dec (unat width) @
     lit ''x'' @ dec (unat height) @ lit ''x4 ('' @ dec expected_len @ lit '')''"

definition cpu_bgra :: "u64 \<Rightarrow> u32 \<Rightarrow> u32 \<Rightarrow> u64 \<Rightarrow> bytes \<Rightarrow> rstring + capture_frame" where
  "cpu_bgra frame_id width height capture_time_micros bs =
     and_then (bgra_byte_len width height) (\<lambda>expected_len.
       if length bs \<noteq> expected_len then Inl (length_mismatch (length bs) width height expected_len)
       else Inr \<lparr>cf_frame_id = frame_id, cf_width = width, cf_height = height,
                 cf_capture_time_micros = capture_time_micros, cf_format = Bgra8,
                 cf_storage = CpuBytes bs\<rparr>)"

section \<open>Nearest-neighbour scaling\<close>

text \<open>
  The offset of the source pixel that a target pixel copies, in 64-bit arithmetic, and the offsets
  in the order of the two nested loops.
\<close>

definition source_offset :: "u32 \<Rightarrow> u32 \<Rightarrow> u32 \<Rightarrow> u32 \<Rightarrow> nat \<Rightarrow> nat \<Rightarrow> nat" where
  "source_offset source_width source_height width height y x =
     (let source_y = y * unat source_height div unat height;
          source_x = x * unat source_width div unat width
      in (source_y * unat source_width + source_x) * 4 mod 2 ^ 64)"

definition source_offsets :: "u32 \<Rightarrow> u32 \<Rightarrow> u32 \<Rightarrow> u32 \<Rightarrow> nat list" where
  "source_offsets source_width source_height width height =
     [source_offset source_width source_height width height y x.
       y \<leftarrow> [0..<unat height], x \<leftarrow> [0..<unat width]]"

fun gather_pixels :: "bytes \<Rightarrow> nat list \<Rightarrow> bytes option" where
  "gather_pixels source_pixels [] = Some []"
| "gather_pixels source_pixels (offset # offsets) =
     (case get_range source_pixels offset 4 of
        None \<Rightarrow> None
      | Some pixel \<Rightarrow> map_option ((@) pixel) (gather_pixels source_pixels offsets))"

definition resize_bgra_nearest :: "bytes \<Rightarrow> u32 \<Rightarrow> u32 \<Rightarrow> u32 \<Rightarrow> u32 \<Rightarrow> rstring + bytes" where
  "resize_bgra_nearest source_pixels source_width source_height width height =
     and_then (bgra_byte_len width height) (\<lambda>_.
       case gather_pixels source_pixels (source_offsets source_width source_height width height) of
         None \<Rightarrow> Inl (lit ''BGRA frame buffer is shorter than expected'')
       | Some resized \<Rightarrow> Inr resized)"

definition resize_frame :: "u32 \<Rightarrow> u32 \<Rightarrow> capture_frame \<Rightarrow> rstring + capture_frame" where
  "resize_frame width height frame =
     (if width = 0 \<or> height = 0 then Inl (lit ''resize target dimensions must be non-zero'')
      else if cf_width frame = width \<and> cf_height frame = height then Inr frame
      else
        case cf_storage frame of
          CpuBytes source_pixels \<Rightarrow>
            if cf_format frame \<noteq> Bgra8
            then Inr (metadata_only (cf_frame_id frame) width height (cf_capture_time_micros frame))
            else
              and_then (bgra_byte_len (cf_width frame) (cf_height frame)) (\<lambda>expected_len.
                if length source_pixels \<noteq> expected_len
                then Inl (length_mismatch (length source_pixels) (cf_width frame) (cf_height frame)
                       expected_len)
                else
                  and_then (resize_bgra_nearest source_pixels (cf_width frame) (cf_height frame)
                       width height) (\<lambda>bs.
                    cpu_bgra (cf_frame_id frame) width height (cf_capture_time_micros frame) bs))
        | _ \<Rightarrow> Inr (metadata_only (cf_frame_id frame) width height (cf_capture_time_micros frame)))"

section \<open>The queue of the latest frames\<close>

text \<open>\<open>LatestFrameQueue\<close>, and \<open>LatestAudioCaptureQueue\<close>, which has the same code.\<close>

record 'f latest_queue =
  lq_frames :: "'f list"
  lq_capacity :: nat
  lq_dropped_frames :: u64

definition latest_queue_new :: "nat \<Rightarrow> 'f latest_queue" where
  "latest_queue_new capacity =
     \<lparr>lq_frames = [], lq_capacity = max capacity 1, lq_dropped_frames = 0\<rparr>"

text \<open>
  \<open>while self.frames.len() >= self.capacity \{ pop_front; dropped += 1 (saturating) \}\<close>. With a
  capacity of at least 1 the loop ends before the queue is empty.
\<close>

fun make_room :: "nat \<Rightarrow> 'f list \<Rightarrow> u64 \<Rightarrow> 'f list \<times> u64" where
  "make_room capacity [] dropped_frames = ([], dropped_frames)"
| "make_room capacity (f # fs) dropped_frames =
     (if capacity \<le> length (f # fs) then make_room capacity fs (sat_add dropped_frames 1)
      else (f # fs, dropped_frames))"

definition latest_queue_push :: "'f \<Rightarrow> 'f latest_queue \<Rightarrow> 'f latest_queue" where
  "latest_queue_push frame q =
     (let (frames, dropped_frames) =
            make_room (lq_capacity q) (lq_frames q) (lq_dropped_frames q)
      in q\<lparr>lq_frames := frames @ [frame], lq_dropped_frames := dropped_frames\<rparr>)"

definition latest_queue_pop_latest :: "'f latest_queue \<Rightarrow> 'f option \<times> 'f latest_queue" where
  "latest_queue_pop_latest q =
     (if lq_frames q = [] then (None, q)
      else (Some (last (lq_frames q)), q\<lparr>lq_frames := []\<rparr>))"

section \<open>Lemmas: scaling\<close>

definition pixel_at :: "bytes \<Rightarrow> u32 \<Rightarrow> nat \<Rightarrow> nat \<Rightarrow> bytes" where
  "pixel_at bs width y x = take 4 (drop ((y * unat width + x) * 4) bs)"

lemma scaled_index_less: "y < h \<Longrightarrow> 0 < s \<Longrightarrow> y * s div h < s" for y h s :: nat
proof -
  assume "y < h" and "0 < s"
  then have "y * s < s * h" by (simp add: mult.commute)
  moreover have "0 < h" using \<open>y < h\<close> by simp
  ultimately show ?thesis by (simp add: div_less_iff_less_mult)
qed

lemma index_bound: "y < h \<Longrightarrow> x < w \<Longrightarrow> (y * w + x) * 4 + 4 \<le> w * h * 4" for x y w h :: nat
proof -
  assume "y < h" and "x < w"
  then have "y * w + x + 1 \<le> y * w + w" by simp
  also have "\<dots> = Suc y * w" by simp
  also have "\<dots> \<le> h * w" using \<open>y < h\<close> by (intro mult_right_mono) simp_all
  finally show ?thesis by (simp add: algebra_simps)
qed

lemma bgra_byte_len_Inr:
  "bgra_byte_len w h = Inr n \<longleftrightarrow> n = unat w * unat h * 4 \<and> n < 2 ^ 64"
proof -
  have "unat w * unat h < 2 ^ 64" using unat_u32_less [of w] unat_u32_less [of h]
    by (rule less_le_trans [OF mult_strict_mono']) simp_all
  then show ?thesis by (auto simp: bgra_byte_len_def checked_mul_usize_def mult.commute)
qed

lemma gather_pixels_all:
  "\<forall>offset \<in> set offsets. offset + 4 \<le> length bs \<Longrightarrow>
   gather_pixels bs offsets = Some (concat (map (\<lambda>offset. take 4 (drop offset bs)) offsets))"
  by (induction offsets) (simp_all add: get_range_def)

lemma length_concat_const:
  "\<forall>c \<in> set cs. length c = n \<Longrightarrow> length (concat cs) = length cs * n"
  by (induction cs) auto

lemma nth_chunk:
  "\<forall>c \<in> set cs. length c = n \<Longrightarrow> i < length cs \<Longrightarrow> take n (drop (i * n) (concat cs)) = cs ! i"
proof (induction cs arbitrary: i)
  case (Cons c cs)
  then show ?case by (cases i) auto
qed simp

lemma nth_grid:
  "y < h \<Longrightarrow> x < w \<Longrightarrow> [f y x. y \<leftarrow> [0..<h], x \<leftarrow> [0..<w]] ! (y * w + x) = f y x"
proof (induction h)
  case (Suc h)
  let ?g = "\<lambda>h. [f y x. y \<leftarrow> [0..<h], x \<leftarrow> [0..<w]]"
  have len: "length (?g h) = h * w" for h by (induction h) auto
  have split: "?g (Suc h) = ?g h @ map (f h) [0..<w]" by simp
  show ?case
  proof (cases "y < h")
    case True
    have "y * w + x < Suc y * w" using Suc.prems by simp
    also have "\<dots> \<le> h * w" using True by (intro mult_right_mono) simp_all
    finally show ?thesis using Suc True by (simp only: split nth_append len if_True)
  next
    case False
    then have "y = h" using Suc.prems by simp
    then show ?thesis using Suc.prems by (simp only: split nth_append len) simp
  qed
qed simp

lemma length_grid: "length [f y x. y \<leftarrow> [0..<h], x \<leftarrow> [0..<w]] = h * w"
  by (induction h) auto

lemma source_offset_bound:
  assumes "y < unat h" "x < unat w" and "0 < unat sw" "0 < unat sh"
    and "unat sw * unat sh * 4 < 2 ^ 64"
  shows "source_offset sw sh w h y x =
      (y * unat sh div unat h * unat sw + x * unat sw div unat w) * 4"
    and "source_offset sw sh w h y x + 4 \<le> unat sw * unat sh * 4"
proof -
  let ?o = "(y * unat sh div unat h * unat sw + x * unat sw div unat w) * 4"
  have b: "?o + 4 \<le> unat sw * unat sh * 4"
    by (rule index_bound; rule scaled_index_less) (use assms in simp_all)
  with assms(5) have "?o < 2 ^ 64" by linarith
  then show eq: "source_offset sw sh w h y x = ?o" by (simp add: source_offset_def Let_def)
  from b show "source_offset sw sh w h y x + 4 \<le> unat sw * unat sh * 4" by (simp only: eq)
qed

text \<open>What both scalers, the one here and the encoder's, do with a complete source.\<close>

lemma gather_scaled:
  assumes "length bs = unat sw * unat sh * 4" and "length bs < 2 ^ 64"
    and "0 < unat sw" "0 < unat sh"
  obtains px where "gather_pixels bs (source_offsets sw sh w h) = Some px"
    "length px = unat w * unat h * 4"
    "\<And>y x. y < unat h \<Longrightarrow> x < unat w \<Longrightarrow>
       pixel_at px w y x = pixel_at bs sw (y * unat sh div unat h) (x * unat sw div unat w)"
proof -
  let ?os = "source_offsets sw sh w h" and ?c = "\<lambda>offset. take 4 (drop offset bs)"
  have small: "unat sw * unat sh * 4 < 2 ^ 64" using assms by simp
  have bound: "offset + 4 \<le> length bs" if "offset \<in> set ?os" for offset
    using that source_offset_bound(2) [OF _ _ assms(3,4) small] assms(1)
    by (auto simp: source_offsets_def)
  then have all: "\<forall>c \<in> set (map ?c ?os). length c = 4" by fastforce
  have len: "length ?os = unat h * unat w" unfolding source_offsets_def by (rule length_grid)
  have "gather_pixels bs ?os = Some (concat (map ?c ?os))"
    using bound by (intro gather_pixels_all) blast
  moreover have "length (concat (map ?c ?os)) = unat w * unat h * 4"
    using length_concat_const [OF all] len by (simp add: mult.commute)
  moreover have "pixel_at (concat (map ?c ?os)) w y x =
      pixel_at bs sw (y * unat sh div unat h) (x * unat sw div unat w)"
    if y: "y < unat h" and x: "x < unat w" for y x
  proof -
    have "(y * unat w + x) * 4 + 4 \<le> unat w * unat h * 4" using y x by (rule index_bound)
    then have i: "y * unat w + x < length (map ?c ?os)" using len by (simp add: mult.commute)
    have "pixel_at (concat (map ?c ?os)) w y x = map ?c ?os ! (y * unat w + x)"
      unfolding pixel_at_def by (rule nth_chunk [OF all i])
    also have "\<dots> = ?c (source_offset sw sh w h y x)"
      using i nth_grid [OF y x, of "source_offset sw sh w h"] by (simp add: source_offsets_def)
    finally show ?thesis
      by (simp only: source_offset_bound(1) [OF y x assms(3,4) small] pixel_at_def)
  qed
  ultimately show ?thesis by (rule that)
qed

section \<open>Lemmas: the queue\<close>

lemma min_step:
  "c \<le> Suc n \<Longrightarrow> min (min (d + 1) m + (Suc n - c)) m = min (d + (Suc (Suc n) - c)) m"
  for c n d m :: nat
proof -
  assume "c \<le> Suc n"
  then obtain k where k: "Suc n = c + k" using le_Suc_ex by blast
  then have "Suc (Suc n) - c = Suc k" by simp
  then show ?thesis unfolding k by (auto simp: min_def)
qed

lemma make_room_eq:
  "0 < capacity \<Longrightarrow> make_room capacity fs d =
     (last_n (capacity - 1) fs, of_nat (min (unat d + (Suc (length fs) - capacity)) (2 ^ 64 - 1)))"
proof (induction capacity fs d rule: make_room.induct)
  case (1 capacity d)
  with unat_u64_le [of d] show ?case by (simp add: last_n_def min_absorb1)
next
  case (2 capacity f fs d)
  show ?case
  proof (cases "capacity \<le> length (f # fs)")
    case True
    have m: "min (unat (sat_add d 1) + (Suc (length fs) - capacity)) (2 ^ 64 - 1) =
        min (unat d + (Suc (length (f # fs)) - capacity)) (2 ^ 64 - 1)"
      using min_step [of capacity "length fs" "unat d" "2 ^ 64 - 1"] True
      by (simp only: unat_sat_add unat_1 len_num1 len_bit0 length_Cons) simp
    have l: "last_n (capacity - 1) (f # fs) = last_n (capacity - 1) fs"
      using True "2.prems" by (simp add: last_n_def drop_Cons' Suc_diff_le)
    show ?thesis using "2.IH" [OF True "2.prems"] True by (simp only: make_room.simps if_True m l)
  next
    case False
    with unat_u64_le [of d] show ?thesis by (simp add: last_n_def min_absorb1)
  qed
qed

lemma last_n_last_n: "n \<le> m \<Longrightarrow> last_n n (last_n m xs) = last_n n xs"
  by (cases "length xs \<le> m") (auto simp: last_n_def min_def)

lemma last_n_snoc: "0 < n \<Longrightarrow> last_n n (xs @ [x]) = last_n (n - 1) xs @ [x]"
  by (cases n) (auto simp: last_n_def Suc_diff_le)

lemma length_last_n: "length (last_n n xs) = min n (length xs)"
  by (simp add: last_n_def)

section \<open>Properties\<close>

text \<open>A frame with its pixels in memory, as every capture source delivers it.\<close>

definition complete_bgra :: "capture_frame \<Rightarrow> bytes \<Rightarrow> bool" where
  "complete_bgra frame source \<longleftrightarrow>
     cf_storage frame = CpuBytes source \<and> cf_format frame = Bgra8 \<and>
     cf_width frame \<noteq> 0 \<and> cf_height frame \<noteq> 0 \<and>
     length source = unat (cf_width frame) * unat (cf_height frame) * 4 \<and> length source < 2 ^ 64"

text \<open>
  Scaling is exact: a complete picture is resized to any non-zero size whose pixels a \<open>usize\<close> can
  count, keeping its id, its time and its format, and every pixel of the result is the pixel of the
  picture at the scaled position.
\<close>

theorem resize_scales:
  assumes "complete_bgra frame source" and "width \<noteq> 0" and "height \<noteq> 0"
    and "unat width * unat height * 4 < 2 ^ 64"
  shows "\<exists>px. resize_frame width height frame =
      Inr (frame\<lparr>cf_width := width, cf_height := height, cf_storage := CpuBytes px\<rparr>) \<and>
    length px = unat width * unat height * 4 \<and>
    (\<forall>y < unat height. \<forall>x < unat width. pixel_at px width y x =
       pixel_at source (cf_width frame) (y * unat (cf_height frame) div unat height)
         (x * unat (cf_width frame) div unat width))"
proof -
  note c = assms(1) [unfolded complete_bgra_def]
  from c have len: "length source = unat (cf_width frame) * unat (cf_height frame) * 4"
    and small: "length source < 2 ^ 64" by blast+
  from c have pos: "0 < unat (cf_width frame)" "0 < unat (cf_height frame)"
    by (simp_all add: unat_gt_0)
  show ?thesis
  proof (cases "cf_width frame = width \<and> cf_height frame = height")
    case True
    then have "resize_frame width height frame = Inr frame" using assms by (simp add: resize_frame_def)
    moreover have "frame = frame\<lparr>cf_width := width, cf_height := height, cf_storage := CpuBytes source\<rparr>"
      using True c by simp
    moreover have "0 < unat width" "0 < unat height" using True pos by simp_all
    ultimately show ?thesis using True len by (intro exI [of _ source]) simp
  next
    case False
    obtain px where g: "gather_pixels source
        (source_offsets (cf_width frame) (cf_height frame) width height) = Some px"
      and px: "length px = unat width * unat height * 4"
      "\<And>y x. y < unat height \<Longrightarrow> x < unat width \<Longrightarrow> pixel_at px width y x =
         pixel_at source (cf_width frame) (y * unat (cf_height frame) div unat height)
           (x * unat (cf_width frame) div unat width)"
      by (rule gather_scaled [OF len small pos, of width height]) blast
    have b: "bgra_byte_len width height = Inr (length px)"
      "bgra_byte_len (cf_width frame) (cf_height frame) = Inr (length source)"
      using assms(4) px(1) len small by (simp_all only: bgra_byte_len_Inr)
    have "cpu_bgra (cf_frame_id frame) width height (cf_capture_time_micros frame) px =
        Inr (frame\<lparr>cf_width := width, cf_height := height, cf_storage := CpuBytes px\<rparr>)"
      using c by (simp add: cpu_bgra_def b)
    then have "resize_frame width height frame =
        Inr (frame\<lparr>cf_width := width, cf_height := height, cf_storage := CpuBytes px\<rparr>)"
      using assms(2,3) c False
      by (simp add: resize_frame_def resize_bgra_nearest_def b g del: de_Morgan_conj)
    with px show ?thesis by blast
  qed
qed

text \<open>Two pixels side by side, doubled in height.\<close>

definition wide_picture :: capture_frame where
  "wide_picture =
     \<lparr>cf_frame_id = 1, cf_width = 2, cf_height = 1, cf_capture_time_micros = 5, cf_format = Bgra8,
      cf_storage = CpuBytes [1, 2, 3, 255, 4, 5, 6, 255]\<rparr>"

theorem resize_scales_witness:
  "\<exists>px. resize_frame 2 2 wide_picture = Inr (wide_picture\<lparr>cf_height := 2, cf_storage := CpuBytes px\<rparr>) \<and>
     pixel_at px 2 1 1 = [4, 5, 6, 255]"
proof -
  have complete: "complete_bgra wide_picture [1, 2, 3, 255, 4, 5, 6, 255]"
    by (simp add: complete_bgra_def wide_picture_def)
  have at: "pixel_at [1, 2, 3, 255, 4, 5, 6, 255] 2 0 1 = [4, 5, 6, 255]"
    by (simp add: pixel_at_def)
  show ?thesis
    using resize_scales [OF complete, of 2 2] at by (auto simp: wide_picture_def)
qed

text \<open>
  The capture queue keeps the latest frames: after any pushes it holds the last of them, at most
  its capacity and in order, has counted every other one as dropped, saturating, and hands out the
  newest, forgetting the rest.
\<close>

theorem capture_queue_keeps_latest:
  "let q = fold latest_queue_push fs (latest_queue_new capacity) in
   lq_frames q = last_n (max capacity 1) fs \<and>
   unat (lq_dropped_frames q) = min (length fs - max capacity 1) (2 ^ 64 - 1) \<and>
   latest_queue_pop_latest q =
     (if fs = [] then (None, q) else (Some (last fs), q\<lparr>lq_frames := []\<rparr>))"
proof -
  let ?c = "max capacity 1" and ?q = "\<lambda>fs. fold latest_queue_push fs (latest_queue_new capacity)"
  have q: "?q fs = \<lparr>lq_frames = last_n ?c fs, lq_capacity = ?c,
      lq_dropped_frames = of_nat (min (length fs - ?c) (2 ^ 64 - 1))\<rparr>" for fs
  proof (induction fs rule: rev_induct)
    case Nil
    show ?case by (simp add: latest_queue_new_def last_n_def)
  next
    case (snoc f fs)
    let ?d = "min (length fs - ?c) (2 ^ 64 - 1)"
    have d: "unat (of_nat ?d :: u64) = ?d" by (rule of_nat_unat_le) (simp add: min_less_iff_disj)
    have "min (?d + (Suc (min ?c (length fs)) - ?c)) (2 ^ 64 - 1) =
        min (length (fs @ [f]) - ?c) (2 ^ 64 - 1)"
      by (cases "length fs < ?c") (auto simp: min_def)
    then have "make_room ?c (last_n ?c fs) (of_nat ?d) =
        (last_n (?c - 1) fs, of_nat (min (length (fs @ [f]) - ?c) (2 ^ 64 - 1)))"
      by (subst make_room_eq) (simp_all only: d length_last_n last_n_last_n diff_le_self,
          simp add: less_max_iff_disj)
    then have push: "latest_queue_push f \<lparr>lq_frames = last_n ?c fs, lq_capacity = ?c,
        lq_dropped_frames = of_nat ?d\<rparr> = \<lparr>lq_frames = last_n (?c - 1) fs @ [f], lq_capacity = ?c,
        lq_dropped_frames = of_nat (min (length (fs @ [f]) - ?c) (2 ^ 64 - 1))\<rparr>"
      by (simp only: latest_queue_push_def Let_def latest_queue.select_convs prod.case
          latest_queue.update_convs)
    have "?q (fs @ [f]) = latest_queue_push f (?q fs)" by simp
    then show ?case 
      unfolding snoc push by (simp only: last_n_snoc [of ?c fs f] less_max_iff_disj zero_less_one simp_thms)
  qed
  have last: "last (last_n ?c fs) = last fs \<and> last_n ?c fs \<noteq> []" if "fs \<noteq> []"
  proof -
    have "0 < ?c" "0 < length fs" using that by (simp_all add: less_max_iff_disj)
    then have "length fs - ?c < length fs" by (rule diff_less)
    then show ?thesis by (simp add: last_n_def)
  qed
  have "unat (of_nat (min (length fs - ?c) (2 ^ 64 - 1)) :: u64) = min (length fs - ?c) (2 ^ 64 - 1)"
    by (rule of_nat_unat_le) (simp add: min_less_iff_disj)
  then show ?thesis
    unfolding q using last by (cases "fs = []") (simp_all add: latest_queue_pop_latest_def last_n_def Let_def)
qed

end
