(* ===== verification/Audio.thy ===== *)
theory Audio
  imports Capture Frame "HOL-Library.Signed_Division"
begin

text \<open>
  The client's audio: the synthetic Opus codec and playback of \<open>audio.rs\<close>, and the captured frames
  and the microphone of \<open>audio_capture.rs\<close>. A voice frame carries its PCM samples, or, from the
  synthetic source, padding. The devices of the operating system are arguments: what they return.
  The results: samples that are encoded are decoded unchanged, padding is never taken for samples,
  and which decoded frames can be played.
\<close>

section \<open>The synthetic Opus encoder\<close>

definition SYNTHETIC_OPUS_MAGIC :: bytes where
  "SYNTHETIC_OPUS_MAGIC = [0x54, 0x56, 0x4F, 0x31]"

definition PCM_PAYLOAD_MAGIC :: bytes where
  "PCM_PAYLOAD_MAGIC = [0x54, 0x56, 0x50, 0x31]"

record opus_config =
  oc_sample_rate_hz :: u32
  oc_channel_count :: u16
  oc_frame_duration_ms :: u16
  oc_bitrate_bps :: u32
  oc_synthetic_payload_bytes :: nat

definition opus_config_default :: opus_config where
  "opus_config_default =
     \<lparr>oc_sample_rate_hz = 48000, oc_channel_count = 1, oc_frame_duration_ms = 20,
      oc_bitrate_bps = 32000, oc_synthetic_payload_bytes = 96\<rparr>"

definition synthetic_audio_payload_bytes :: "u32 \<Rightarrow> u16 \<Rightarrow> nat" where
  "synthetic_audio_payload_bytes bitrate_bps frames_per_second =
     unat (max (bitrate_bps div 8 div ucast (max frames_per_second 1)) 16)"

definition frame_duration_ms :: "u16 \<Rightarrow> u16" where
  "frame_duration_ms frames_per_second = max (1000 div max frames_per_second 1) 1"

definition opus_frames_per_second :: "opus_config \<Rightarrow> u16" where
  "opus_frames_per_second c = max (1000 div max (oc_frame_duration_ms c) 1) 1"

definition opus_update_bitrate :: "u32 \<Rightarrow> opus_config \<Rightarrow> opus_config" where
  "opus_update_bitrate bitrate_bps c =
     (let c = c\<lparr>oc_bitrate_bps := bitrate_bps\<rparr>
      in c\<lparr>oc_synthetic_payload_bytes :=
             synthetic_audio_payload_bytes bitrate_bps (opus_frames_per_second c)\<rparr>)"

definition opus_set_frames_per_second :: "u16 \<Rightarrow> opus_config \<Rightarrow> opus_config" where
  "opus_set_frames_per_second frames_per_second c =
     (let c = c\<lparr>oc_frame_duration_ms := frame_duration_ms frames_per_second\<rparr>
      in c\<lparr>oc_synthetic_payload_bytes :=
             synthetic_audio_payload_bytes (oc_bitrate_bps c) (opus_frames_per_second c)\<rparr>)"

definition sample_count_per_frame :: "opus_config \<Rightarrow> u16" where
  "sample_count_per_frame c =
     ucast (min (sat_mul (oc_sample_rate_hz c) (ucast (oc_frame_duration_ms c)) div 1000) 65535)"

text \<open>The 24 bytes every frame begins with, and the encoded frame around the bytes.\<close>

definition opus_header :: "u32 \<Rightarrow> u32 \<Rightarrow> u16 \<Rightarrow> u16 \<Rightarrow> u64 \<Rightarrow> bytes" where
  "opus_header frame_id sample_rate_hz channel_count sample_count capture_time_micros =
     SYNTHETIC_OPUS_MAGIC @ to_le 4 frame_id @ to_le 4 sample_rate_hz @ to_le 2 channel_count @
     to_le 2 sample_count @ to_le 8 capture_time_micros"

definition opus_frame :: "u32 \<Rightarrow> u16 \<Rightarrow> u64 \<Rightarrow> u32 \<Rightarrow> bytes \<Rightarrow> encoded_frame" where
  "opus_frame frame_id sample_count capture_time_micros stream_id bs =
     \<lparr>f_room_stream_id = stream_id, f_frame_id = frame_id,
      f_media_timestamp = ucast (sat_mul frame_id (ucast sample_count)),
      f_sender_capture_time_micros = capture_time_micros, f_sender_clock_offset_micros = 0,
      f_sender_encode_done_time_micros = 0, f_sender_send_time_micros = 0,
      f_server_receive_time_micros = 0, f_server_send_time_micros = 0, f_codec = Opus,
      f_is_keyframe = False, f_bytes = bs\<rparr>"

definition opus_pad_byte :: "u32 \<Rightarrow> u32 \<Rightarrow> nat \<Rightarrow> u8" where
  "opus_pad_byte factor frame_id len = ucast (frame_id * factor + of_nat len)"

definition opus_encode :: "opus_config \<Rightarrow> u32 \<Rightarrow> u64 \<Rightarrow> u32 \<Rightarrow> encoded_frame" where
  "opus_encode c frame_id capture_time_micros stream_id =
     (let sample_count = sample_count_per_frame c;
          bs = opus_header frame_id (oc_sample_rate_hz c) (oc_channel_count c) sample_count
                 capture_time_micros;
          bs = pad_loop (opus_pad_byte 31 frame_id) (oc_synthetic_payload_bytes c) bs
      in opus_frame frame_id sample_count capture_time_micros stream_id bs)"

definition not_divisible :: "nat \<Rightarrow> u16 \<Rightarrow> rstring" where
  "not_divisible len channel_count =
     lit ''audio sample buffer length '' @ dec len @ lit '' is not divisible by channel count '' @
     dec (unat channel_count)"

definition encode_pcm_i16 ::
  "opus_config \<Rightarrow> u32 \<Rightarrow> u64 \<Rightarrow> u32 \<Rightarrow> u16 \<Rightarrow> i16 list \<Rightarrow> u32 \<Rightarrow> rstring + encoded_frame" where
  "encode_pcm_i16 c frame_id capture_time_micros sample_rate_hz channel_count samples stream_id =
     (if sample_rate_hz = 0 then Inl (lit ''audio sample rate must be non-zero'')
      else if channel_count = 0 then Inl (lit ''audio channel count must be non-zero'')
      else if length samples mod unat channel_count \<noteq> 0
      then Inl (not_divisible (length samples) channel_count)
      else
        let sample_count_per_channel = length samples div unat channel_count in
        if sample_count_per_channel = 0 then Inl (lit ''audio sample count must be non-zero'')
        else if 65535 < sample_count_per_channel
        then Inl (lit ''audio sample count exceeds protocol field'')
        else
          let sample_count = of_nat sample_count_per_channel :: u16 in
          case checked_mul_usize (length samples) 2 of
            None \<Rightarrow> Inl (lit ''audio PCM payload size overflow'')
          | Some pcm_bytes \<Rightarrow>
              if 4294967295 < pcm_bytes
              then Inl (lit ''audio PCM payload exceeds protocol length field'')
              else
                let bs = opus_header frame_id sample_rate_hz channel_count sample_count
                           capture_time_micros @
                         PCM_PAYLOAD_MAGIC @ to_le 4 (of_nat pcm_bytes :: u32) @
                         concat (map (to_le 2) samples);
                    bs = pad_loop (opus_pad_byte 17 frame_id) (oc_synthetic_payload_bytes c) bs
                in Inr (opus_frame frame_id sample_count capture_time_micros stream_id bs))"

section \<open>The decoder\<close>

record decoded_audio_frame =
  da_frame_id :: u32
  da_sample_rate_hz :: u32
  da_channel_count :: u16
  da_sample_count :: u16
  da_capture_time_micros :: u64
  da_pcm :: "i16 list"

text \<open>
  \<open>synthetic_pcm\<close> computes on \<open>i32\<close>, here as a release build does: the product of a large frame id
  wraps. The remainder of a negative phase is negative.
\<close>

definition synthetic_sample :: "u32 \<Rightarrow> nat \<Rightarrow> i16" where
  "synthetic_sample frame_id sample =
     (let phase = frame_id * 97 + of_nat sample * 13 :: 32 word
      in of_int (sint phase smod 1024 - 512))"

definition synthetic_pcm :: "u32 \<Rightarrow> u16 \<Rightarrow> u16 \<Rightarrow> i16 list" where
  "synthetic_pcm frame_id sample_count channel_count =
     map (synthetic_sample frame_id) [0..<unat sample_count * unat channel_count]"

fun pcm_samples :: "bytes \<Rightarrow> i16 list" where
  "pcm_samples (a # b # bs) = from_le [a, b] # pcm_samples bs"
| "pcm_samples _ = []"

definition pcm_length_mismatch :: "nat \<Rightarrow> nat \<Rightarrow> rstring" where
  "pcm_length_mismatch expected got =
     lit ''embedded PCM length mismatch: expected '' @ dec expected @ lit '', got '' @ dec got"

definition embedded_pcm :: "bytes \<Rightarrow> u16 \<Rightarrow> u16 \<Rightarrow> rstring + i16 list option" where
  "embedded_pcm payload sample_count channel_count =
     (case get_range payload 0 8 of
        None \<Rightarrow> Inr None
      | Some header \<Rightarrow>
          if take 4 header \<noteq> PCM_PAYLOAD_MAGIC then Inr None
          else
            let pcm_byte_len = unat (from_le (drop 4 header) :: u32);
                expected_pcm_bytes = unat sample_count * unat channel_count * 2
            in if pcm_byte_len \<noteq> expected_pcm_bytes
               then Inl (pcm_length_mismatch expected_pcm_bytes pcm_byte_len)
               else
                 case get_range payload 8 pcm_byte_len of
                   None \<Rightarrow> Inl (lit ''embedded PCM payload is truncated'')
                 | Some pcm_bytes \<Rightarrow> Inr (Some (pcm_samples pcm_bytes)))"

definition opus_decode :: "bytes \<Rightarrow> rstring + decoded_audio_frame option" where
  "opus_decode encoded =
     (case get_range encoded 0 24 of
        None \<Rightarrow> Inr None
      | Some header \<Rightarrow>
          if take 4 header \<noteq> SYNTHETIC_OPUS_MAGIC then Inr None
          else
            let frame_id = from_le (take 4 (drop 4 header));
                sample_rate_hz = from_le (take 4 (drop 8 header));
                channel_count = from_le (take 2 (drop 12 header));
                sample_count = from_le (take 2 (drop 14 header));
                capture_time_micros = from_le (take 8 (drop 16 header))
            in if sample_rate_hz = 0 \<or> channel_count = 0 \<or> sample_count = 0 then Inr None
               else
                 and_then (embedded_pcm (drop 24 encoded) sample_count channel_count) (\<lambda>pcm.
                   Inr (Some \<lparr>da_frame_id = frame_id, da_sample_rate_hz = sample_rate_hz,
                              da_channel_count = channel_count, da_sample_count = sample_count,
                              da_capture_time_micros = capture_time_micros,
                              da_pcm = (case pcm of
                                  Some samples \<Rightarrow> samples
                                | None \<Rightarrow> synthetic_pcm frame_id sample_count channel_count)\<rparr>)))"

section \<open>Playback\<close>

record played_audio_frame =
  pa_frame_id :: u32
  pa_sample_rate_hz :: u32
  pa_channel_count :: u16
  pa_sample_count :: u16

record latest_audio_playback =
  ap_played_frames :: u64
  ap_latest :: "played_audio_frame option"

definition latest_audio_playback_default :: latest_audio_playback where
  "latest_audio_playback_default = \<lparr>ap_played_frames = 0, ap_latest = None\<rparr>"

definition sample_buffer_mismatch :: "nat \<Rightarrow> nat \<Rightarrow> rstring" where
  "sample_buffer_mismatch expected got =
     lit ''decoded audio sample buffer length mismatch: expected '' @ dec expected @
     lit '', got '' @ dec got"

text \<open>\<open>sample_count.checked_mul(channel_count)\<close> is on \<open>u16\<close>.\<close>

definition validate_decoded_audio_frame :: "decoded_audio_frame \<Rightarrow> rstring + played_audio_frame" where
  "validate_decoded_audio_frame frame =
     (let expected_samples = unat (da_sample_count frame) * unat (da_channel_count frame) in
      if 65536 \<le> expected_samples then Inl (lit ''decoded audio sample count overflow'')
      else if length (da_pcm frame) \<noteq> expected_samples
      then Inl (sample_buffer_mismatch expected_samples (length (da_pcm frame)))
      else Inr \<lparr>pa_frame_id = da_frame_id frame, pa_sample_rate_hz = da_sample_rate_hz frame,
                pa_channel_count = da_channel_count frame, pa_sample_count = da_sample_count frame\<rparr>)"

definition latest_audio_play ::
  "decoded_audio_frame \<Rightarrow> latest_audio_playback \<Rightarrow> (rstring + unit) \<times> latest_audio_playback" where
  "latest_audio_play frame p =
     (case validate_decoded_audio_frame frame of
        Inl e \<Rightarrow> (Inl e, p)
      | Inr played \<Rightarrow>
          (Inr (), p\<lparr>ap_played_frames := sat_add (ap_played_frames p) 1, ap_latest := Some played\<rparr>))"

text \<open>The speaker: \<open>device\<close> is what the device returns for the frame.\<close>

definition speaker_audio_play ::
  "(decoded_audio_frame \<Rightarrow> rstring + unit) \<Rightarrow> decoded_audio_frame \<Rightarrow> latest_audio_playback \<Rightarrow>
   (rstring + unit) \<times> latest_audio_playback" where
  "speaker_audio_play device frame p =
     (case validate_decoded_audio_frame frame of
        Inl e \<Rightarrow> (Inl e, p)
      | Inr played \<Rightarrow>
          case device frame of
            Inl e \<Rightarrow> (Inl e, p)
          | Inr _ \<Rightarrow>
              (Inr (), p\<lparr>ap_played_frames := sat_add (ap_played_frames p) 1,
                         ap_latest := Some played\<rparr>))"

datatype audio_output_playback =
    AudioSink latest_audio_playback
  | AudioSpeaker latest_audio_playback

fun audio_output_play ::
  "(decoded_audio_frame \<Rightarrow> rstring + unit) \<Rightarrow> decoded_audio_frame \<Rightarrow> audio_output_playback \<Rightarrow>
   (rstring + unit) \<times> audio_output_playback" where
  "audio_output_play device frame (AudioSink p) = map_prod id AudioSink (latest_audio_play frame p)"
| "audio_output_play device frame (AudioSpeaker p) =
     map_prod id AudioSpeaker (speaker_audio_play device frame p)"

fun audio_output_played_frames :: "audio_output_playback \<Rightarrow> u64" where
  "audio_output_played_frames (AudioSink p) = ap_played_frames p"
| "audio_output_played_frames (AudioSpeaker p) = ap_played_frames p"

fun audio_output_latest :: "audio_output_playback \<Rightarrow> played_audio_frame option" where
  "audio_output_latest (AudioSink p) = ap_latest p"
| "audio_output_latest (AudioSpeaker p) = ap_latest p"

section \<open>The microphone\<close>

record audio_capture_config =
  ac_sample_rate_hz :: u32
  ac_channel_count :: u16
  ac_frame_duration_ms :: u16
  ac_queue_capacity :: nat

record captured_audio_frame =
  ca_frame_id :: u64
  ca_capture_time_micros :: u64
  ca_sample_rate_hz :: u32
  ca_channel_count :: u16
  ca_samples :: "i16 list"

definition pcm_i16 :: "u64 \<Rightarrow> u64 \<Rightarrow> u32 \<Rightarrow> u16 \<Rightarrow> i16 list \<Rightarrow> rstring + captured_audio_frame" where
  "pcm_i16 frame_id capture_time_micros sample_rate_hz channel_count samples =
     (if sample_rate_hz = 0 then Inl (lit ''audio sample rate must be non-zero'')
      else if channel_count = 0 then Inl (lit ''audio channel count must be non-zero'')
      else if length samples mod unat channel_count \<noteq> 0
      then Inl (not_divisible (length samples) channel_count)
      else Inr \<lparr>ca_frame_id = frame_id, ca_capture_time_micros = capture_time_micros,
                ca_sample_rate_hz = sample_rate_hz, ca_channel_count = channel_count,
                ca_samples = samples\<rparr>)"

definition sample_count_per_channel :: "captured_audio_frame \<Rightarrow> u16" where
  "sample_count_per_channel f =
     of_nat (min (length (ca_samples f) div unat (max (ca_channel_count f) 1)) 65535)"

text \<open>
  \<open>WindowsMicrophoneCapture\<close>; whether it runs on Windows, whether its device is open and what the
  device returns are arguments.
\<close>

record microphone_capture =
  mc_config :: audio_capture_config
  mc_queue :: "captured_audio_frame latest_queue"
  mc_next_frame_id :: u64
  mc_device_open :: bool

definition validate_capture_config :: "audio_capture_config \<Rightarrow> rstring + unit" where
  "validate_capture_config config =
     (if ac_sample_rate_hz config = 0 then Inl (lit ''audio capture sample rate must be non-zero'')
      else if ac_channel_count config = 0
      then Inl (lit ''audio capture channel count must be non-zero'')
      else if ac_frame_duration_ms config = 0
      then Inl (lit ''audio capture frame duration must be non-zero'')
      else Inr ())"

definition microphone_new :: "bool \<Rightarrow> audio_capture_config \<Rightarrow> rstring + microphone_capture" where
  "microphone_new windows config =
     (if \<not> windows then Inl (lit ''microphone capture is only available on Windows'')
      else
        and_then (validate_capture_config config) (\<lambda>_.
          Inr \<lparr>mc_config = config, mc_queue = latest_queue_new (ac_queue_capacity config),
               mc_next_frame_id = 1, mc_device_open = False\<rparr>))"

definition push_silence_frame ::
  "u64 \<Rightarrow> microphone_capture \<Rightarrow> (rstring + unit) \<times> microphone_capture" where
  "push_silence_frame capture_time_micros m =
     (let config = mc_config m;
          sample_count = unat (max (sat_mul (ac_sample_rate_hz config)
            (ucast (ac_frame_duration_ms config)) div 1000) 1);
          total_samples = sample_count * unat (max (ac_channel_count config) 1)
      in case pcm_i16 (mc_next_frame_id m) capture_time_micros (ac_sample_rate_hz config)
                (ac_channel_count config) (replicate total_samples 0) of
           Inl e \<Rightarrow> (Inl e, m)
         | Inr frame \<Rightarrow>
             (Inr (), m\<lparr>mc_next_frame_id := sat_add (mc_next_frame_id m) 1,
                        mc_queue := latest_queue_push frame (mc_queue m)\<rparr>))"

definition microphone_next_frame ::
  "rstring + i16 list option \<Rightarrow> u64 \<Rightarrow> microphone_capture \<Rightarrow>
   (rstring + captured_audio_frame option) \<times> microphone_capture"
where
  "microphone_next_frame device_samples now m =
     (let (latest, q) = latest_queue_pop_latest (mc_queue m); m = m\<lparr>mc_queue := q\<rparr> in
      case latest of
        Some frame \<Rightarrow> (Inr (Some frame), m)
      | None \<Rightarrow>
          if \<not> mc_device_open m then (Inr None, m)
          else
            case device_samples of
              Inl e \<Rightarrow> (Inl e, m)
            | Inr None \<Rightarrow> (Inr None, m)
            | Inr (Some samples) \<Rightarrow>
                case pcm_i16 (mc_next_frame_id m) now (ac_sample_rate_hz (mc_config m))
                       (ac_channel_count (mc_config m)) samples of
                  Inl e \<Rightarrow> (Inl e, m)
                | Inr frame \<Rightarrow>
                    (Inr (Some frame),
                     m\<lparr>mc_next_frame_id := sat_add (mc_next_frame_id m) 1\<rparr>))"

section \<open>Lemmas: the codec\<close>

lemma audio_magic_length [simp]:
  "length SYNTHETIC_OPUS_MAGIC = 4" "length PCM_PAYLOAD_MAGIC = 4"
  by (simp_all add: SYNTHETIC_OPUS_MAGIC_def PCM_PAYLOAD_MAGIC_def)

lemma length_opus_header [simp]: "length (opus_header i r c n t) = 24"
  by (simp add: opus_header_def)

lemma opus_pad_ramp:
  "map (opus_pad_byte k i) [n..<m] = ramp (opus_pad_byte k i n) (m - n)"
proof (rule map_upt_ramp)
  fix j
  have "(ucast (of_nat j :: u32) :: u8) = of_nat j" by transfer simp
  then show "opus_pad_byte k i (n + j) = opus_pad_byte k i n + of_nat j"
    by (simp add: opus_pad_byte_def ucast_add_u32 add.assoc)
qed

text \<open>Padding is no PCM payload.\<close>

lemma ramp_not_pcm: "take 4 (ramp b k) \<noteq> PCM_PAYLOAD_MAGIC"
proof -
  obtain k' where "k = 0 \<or> k = 1 \<or> k = Suc (Suc k')" by (metis One_nat_def not0_implies_Suc)
  then show ?thesis by (auto simp: ramp_Suc PCM_PAYLOAD_MAGIC_def take_Cons' split: if_splits)
qed

lemma embedded_pcm_ramp: "embedded_pcm (ramp b k) n c = Inr None"
proof -
  have "take 4 (take 8 (ramp b k)) \<noteq> PCM_PAYLOAD_MAGIC" using ramp_not_pcm [of b k] by (simp add: min_def)
  then show ?thesis by (simp add: embedded_pcm_def get_range_def)
qed

lemma le_2_cases: obtains a b where "to_le 2 w = [a, b]"
proof -
  have "length (to_le 2 w) = Suc (Suc 0)" by simp
  then show thesis by (metis (no_types) length_0_conv length_Suc_conv that)
qed

lemma pcm_samples_concat: "pcm_samples (concat (map (to_le 2) samples)) = samples"
proof (induction samples)
  case (Cons w samples)
  obtain a b where ab: "to_le 2 w = [a, b]" by (rule le_2_cases)
  then have "from_le [a, b] = w" by (metis from_le_to_le_fields(1))
  then show ?case using Cons by (simp add: ab)
qed simp

lemma length_pcm_bytes: "length (concat (map (to_le 2) (samples :: i16 list))) = length samples * 2"
  by (induction samples) simp_all

lemma embedded_pcm_samples:
  assumes "length samples = unat n * unat c" and "length samples * 2 < 2 ^ 32"
  shows "embedded_pcm (PCM_PAYLOAD_MAGIC @ to_le 4 (of_nat (length samples * 2) :: u32) @
      concat (map (to_le 2) samples) @ rest) n c = Inr (Some samples)"
proof -
  let ?h = "PCM_PAYLOAD_MAGIC @ to_le 4 (of_nat (length samples * 2) :: u32)"
  have range: "get_range (?h @ concat (map (to_le 2) samples) @ rest) 0 8 = Some ?h"
    by (simp add: get_range_def)
  have "unat (of_nat (length samples * 2) :: u32) = length samples * 2"
    using assms(2) by (intro of_nat_unat_le) simp
  then show ?thesis
    using range assms(1)
    by (simp add: embedded_pcm_def get_range_def length_pcm_bytes pcm_samples_concat)
qed

lemma opus_decode_header:
  "opus_decode (opus_header i r c n t @ rest) =
     (if r = 0 \<or> c = 0 \<or> n = 0 then Inr None
      else and_then (embedded_pcm rest n c) (\<lambda>pcm.
        Inr (Some \<lparr>da_frame_id = i, da_sample_rate_hz = r, da_channel_count = c, da_sample_count = n,
          da_capture_time_micros = t,
          da_pcm = (case pcm of Some samples \<Rightarrow> samples | None \<Rightarrow> synthetic_pcm i n c)\<rparr>)))"
proof -
  have range: "get_range (opus_header i r c n t @ rest) 0 24 = Some (opus_header i r c n t)"
    by (simp add: get_range_def)
  have fields: "take 4 (opus_header i r c n t) = SYNTHETIC_OPUS_MAGIC"
    "take 4 (drop 4 (opus_header i r c n t)) = to_le 4 i"
    "take 4 (drop 8 (opus_header i r c n t)) = to_le 4 r"
    "take 2 (drop 12 (opus_header i r c n t)) = to_le 2 c"
    "take 2 (drop 14 (opus_header i r c n t)) = to_le 2 n"
    "take 8 (drop 16 (opus_header i r c n t)) = to_le 8 t"
    by (simp_all add: opus_header_def)
  show ?thesis unfolding opus_decode_def range by (simp add: fields)
qed

text \<open>What a successful encoding of samples says, and how it decodes.\<close>

lemma encode_pcm_Inr:
  "encode_pcm_i16 cfg i t r c samples sid = Inr frame \<longleftrightarrow>
     r \<noteq> 0 \<and> c \<noteq> 0 \<and> length samples mod unat c = 0 \<and> 0 < length samples div unat c \<and>
     length samples div unat c \<le> 65535 \<and> length samples * 2 \<le> 4294967295 \<and>
     frame = opus_frame i (of_nat (length samples div unat c)) t sid
       (pad_loop (opus_pad_byte 17 i) (oc_synthetic_payload_bytes cfg)
          (opus_header i r c (of_nat (length samples div unat c)) t @
           PCM_PAYLOAD_MAGIC @ to_le 4 (of_nat (length samples * 2) :: u32) @
           concat (map (to_le 2) samples)))"
  by (auto simp: encode_pcm_i16_def Let_def checked_mul_usize_def)

lemma decode_encoded_pcm:
  assumes "encode_pcm_i16 cfg i t r c samples sid = Inr frame"
  shows "opus_decode (f_bytes frame) =
    Inr (Some \<lparr>da_frame_id = i, da_sample_rate_hz = r, da_channel_count = c,
      da_sample_count = of_nat (length samples div unat c), da_capture_time_micros = t,
      da_pcm = samples\<rparr>)"
    and "unat (of_nat (length samples div unat c) :: u16) * unat c = length samples"
proof -
  let ?n = "of_nat (length samples div unat c) :: u16"
  note enc = assms [unfolded encode_pcm_Inr]
  then have n: "unat ?n = length samples div unat c" by (intro of_nat_unat_le) simp
  moreover have "length samples div unat c * unat c = length samples"
    using enc div_mult_mod_eq [of "length samples" "unat c"] by simp
  ultimately show len: "unat ?n * unat c = length samples" by simp
  have "?n \<noteq> 0" using enc n by auto
  moreover obtain rest where "f_bytes frame = opus_header i r c ?n t @ PCM_PAYLOAD_MAGIC @
      to_le 4 (of_nat (length samples * 2) :: u32) @ concat (map (to_le 2) samples) @ rest"
    using enc by (simp add: opus_frame_def pad_loop_eq)
  moreover have "embedded_pcm (PCM_PAYLOAD_MAGIC @ to_le 4 (of_nat (length samples * 2) :: u32) @
      concat (map (to_le 2) samples) @ rest) ?n c = Inr (Some samples)" for rest
    using enc len by (intro embedded_pcm_samples) simp_all
  ultimately show "opus_decode (f_bytes frame) =
    Inr (Some \<lparr>da_frame_id = i, da_sample_rate_hz = r, da_channel_count = c,
      da_sample_count = ?n, da_capture_time_micros = t, da_pcm = samples\<rparr>)"
    using enc by (simp add: opus_decode_header)
qed

section \<open>Properties\<close>

text \<open>
  Voice survives the codec: when the encoder accepts a buffer of samples, the frame it writes,
  padded or not, decodes to exactly those samples with the rate, the channels, the time and the
  frame id given.
\<close>

theorem pcm_roundtrip:
  assumes "encode_pcm_i16 cfg i t r c samples sid = Inr frame"
  shows "opus_decode (f_bytes frame) =
      Inr (Some \<lparr>da_frame_id = i, da_sample_rate_hz = r, da_channel_count = c,
        da_sample_count = of_nat (length samples div unat c), da_capture_time_micros = t,
        da_pcm = samples\<rparr>) \<and>
    f_room_stream_id frame = sid \<and> f_frame_id frame = i \<and> f_codec frame = Opus"
  using decode_encoded_pcm(1) [OF assms] assms by (simp add: encode_pcm_Inr opus_frame_def)

lemma stereo_accepted:
  "\<exists>frame. encode_pcm_i16 opus_config_default i t 48000 2 [1, 2, 3, 65535] sid = Inr frame"
  unfolding encode_pcm_Inr by simp

theorem pcm_roundtrip_witness:
  "\<exists>frame :: encoded_frame. opus_decode (f_bytes frame) =
      Inr (Some \<lparr>da_frame_id = 7, da_sample_rate_hz = 48000, da_channel_count = 2,
        da_sample_count = 2, da_capture_time_micros = 5, da_pcm = [1, 2, 3, 65535]\<rparr>)"
proof -
  obtain frame where "encode_pcm_i16 opus_config_default 7 5 48000 2 [1, 2, 3, 65535] 9 = Inr frame"
    using stereo_accepted by blast
  from pcm_roundtrip [OF this] show ?thesis by (intro exI [of _ frame]) simp
qed

text \<open>
  Not every frame the encoder accepts can be played: playback counts the samples of all channels
  in 16 bits, so a decoded voice frame is played when it has fewer than 65536 samples, and is
  refused with an overflow error, leaving the playback as it was, when it has more.
\<close>

theorem voice_frame_played:
  assumes "encode_pcm_i16 cfg i t r c samples sid = Inr frame"
  shows "\<exists>d. opus_decode (f_bytes frame) = Inr (Some d) \<and>
    latest_audio_play d p =
      (if length samples < 65536
       then (Inr (), p\<lparr>ap_played_frames := sat_add (ap_played_frames p) 1,
               ap_latest := Some \<lparr>pa_frame_id = i, pa_sample_rate_hz = r, pa_channel_count = c,
                 pa_sample_count = of_nat (length samples div unat c)\<rparr>\<rparr>)
       else (Inl (lit ''decoded audio sample count overflow''), p))"
  using decode_encoded_pcm [OF assms]
  by (simp add: latest_audio_play_def validate_decoded_audio_frame_def Let_def)

theorem voice_frame_played_witness:
  "\<exists>frame d. encode_pcm_i16 opus_config_default 7 5 48000 2 (replicate 65536 0) 9 = Inr frame \<and>
     opus_decode (f_bytes frame) = Inr (Some d) \<and>
     latest_audio_play d latest_audio_playback_default =
       (Inl (lit ''decoded audio sample count overflow''), latest_audio_playback_default)"
proof -
  obtain frame where f: "encode_pcm_i16 opus_config_default 7 5 48000 2 (replicate 65536 0) 9 = Inr frame"
    unfolding encode_pcm_Inr by simp
  from voice_frame_played [OF f, of latest_audio_playback_default] f show ?thesis by auto
qed

text \<open>
  Padding is never heard as samples: a frame of the synthetic source decodes to its synthetic
  tone, one sample per channel and sample time, whatever its padding, or to nothing when it has no
  samples.
\<close>

theorem synthetic_voice_roundtrip:
  "opus_decode (f_bytes (opus_encode cfg i t sid)) =
     (let n = sample_count_per_frame cfg; c = oc_channel_count cfg in
      if oc_sample_rate_hz cfg = 0 \<or> c = 0 \<or> n = 0 then Inr None
      else Inr (Some \<lparr>da_frame_id = i, da_sample_rate_hz = oc_sample_rate_hz cfg,
             da_channel_count = c, da_sample_count = n, da_capture_time_micros = t,
             da_pcm = synthetic_pcm i n c\<rparr>))"
  by (simp add: opus_encode_def Let_def opus_frame_def pad_loop_eq opus_pad_ramp opus_decode_header
      embedded_pcm_ramp)

end
