(* ===== verification/Annex_B.thy ===== *)
theory Annex_B
  imports Le_Bytes
begin

text \<open>
  The Annex B byte stream of the client's synthetic H.264 codec: \<open>encode/h264.rs\<close> appends NAL
  units with emulation prevention, \<open>decode/h264.rs\<close> finds the start codes and takes the
  prevention bytes out again.
\<close>

section \<open>Emulation prevention\<close>

text \<open>The loops with their running count of zeros; it saturates, as in the code.\<close>

fun escape_loop :: "u8 \<Rightarrow> bytes \<Rightarrow> bytes" where
  "escape_loop consecutive_zeros [] = []"
| "escape_loop consecutive_zeros (b # bs) =
     (if 2 \<le> consecutive_zeros \<and> b \<le> 3
      then 3 # b # escape_loop (if b = 0 then sat_add 0 1 else 0) bs
      else b # escape_loop (if b = 0 then sat_add consecutive_zeros 1 else 0) bs)"

definition annex_b_escape_payload :: "bytes \<Rightarrow> bytes" where
  "annex_b_escape_payload payload = escape_loop 0 payload"

fun unescape_loop :: "u8 \<Rightarrow> bytes \<Rightarrow> bytes" where
  "unescape_loop consecutive_zeros [] = []"
| "unescape_loop consecutive_zeros (b # bs) =
     (if 2 \<le> consecutive_zeros \<and> b = 3 then unescape_loop 0 bs
      else b # unescape_loop (if b = 0 then sat_add consecutive_zeros 1 else 0) bs)"

definition annex_b_unescape_payload :: "bytes \<Rightarrow> bytes" where
  "annex_b_unescape_payload payload = unescape_loop 0 payload"

definition ANNEX_B_START_CODE :: bytes where "ANNEX_B_START_CODE = [0, 0, 0, 1]"

definition append_nal :: "bytes \<Rightarrow> u8 \<Rightarrow> bytes \<Rightarrow> bytes" where
  "append_nal bytes nal_header payload =
     bytes @ ANNEX_B_START_CODE @ [nal_header] @ annex_b_escape_payload payload"

section \<open>Start codes\<close>

definition starts_with :: "bytes \<Rightarrow> bytes \<Rightarrow> bool" where
  "starts_with bs prefix \<longleftrightarrow> take (length prefix) bs = prefix"

text \<open>The loop of \<open>find_start_code\<close>, from \<open>index\<close> on.\<close>

function find_start_code :: "bytes \<Rightarrow> nat \<Rightarrow> nat option" where
  "find_start_code bytes index =
     (if index + 3 \<le> length bytes then
        if starts_with (drop index bytes) [0, 0, 1] \<or>
           (index + 4 \<le> length bytes \<and> starts_with (drop index bytes) [0, 0, 0, 1])
        then Some index
        else find_start_code bytes (index + 1)
      else None)"
  by pat_completeness auto
termination by (relation "measure (\<lambda>(bytes, index). length bytes - index)") auto

declare find_start_code.simps [simp del]

definition start_code_len :: "bytes \<Rightarrow> nat option" where
  "start_code_len bytes =
     (if starts_with bytes [0, 0, 0, 1] then Some 4
      else if starts_with bytes [0, 0, 1] then Some 3
      else None)"

text \<open>
  One call of \<open>AnnexBNals::next\<close>: the unit and the new offset. Both slices are in range, since a
  start code lies inside the bytes (\<open>find_start_code_Some\<close>).
\<close>

definition nals_next :: "bytes \<Rightarrow> nat \<Rightarrow> (bytes \<times> nat) option" where
  "nals_next bytes offset =
     (case find_start_code bytes offset of
        None \<Rightarrow> None
      | Some start \<Rightarrow>
        (case start_code_len (drop start bytes) of
           None \<Rightarrow> None
         | Some n \<Rightarrow>
             let nal_start = start + n;
                 next_start = (case find_start_code bytes nal_start of
                                 None \<Rightarrow> length bytes | Some s \<Rightarrow> s)
             in Some (take (next_start - nal_start) (drop nal_start bytes), next_start)))"

lemma starts_with_simps [simp]:
  "starts_with bs []" "\<not> starts_with [] (p # ps)"
  "starts_with (b # bs) (p # ps) \<longleftrightarrow> b = p \<and> starts_with bs ps"
  by (auto simp: starts_with_def)

lemma starts_with_length: "starts_with bs p \<Longrightarrow> length p \<le> length bs"
  unfolding starts_with_def by (metis length_take min.absorb_iff2 min.commute nle_le)

lemma find_start_code_Some:
  "find_start_code bytes index = Some s \<Longrightarrow>
   index \<le> s \<and> s + 3 \<le> length bytes \<and> start_code_len (drop s bytes) \<noteq> None"
proof (induction bytes index rule: find_start_code.induct)
  case (1 bytes index)
  from "1.prems" show ?case
    by (subst (asm) find_start_code.simps)
      (use "1.IH" in \<open>auto simp: start_code_len_def split: if_splits\<close>)
qed

lemma start_code_len_bounds: "start_code_len bs = Some n \<Longrightarrow> 3 \<le> n \<and> n \<le> length bs"
  by (auto simp: start_code_len_def dest: starts_with_length split: if_splits)

lemma nals_next_less:
  "nals_next bytes offset = Some (nal, offset') \<Longrightarrow> offset < offset' \<and> offset' \<le> length bytes"
  by (auto simp: nals_next_def Let_def split: option.splits
      dest!: find_start_code_Some start_code_len_bounds)

text \<open>All units from an offset on: what a \<open>for\<close> loop over the iterator sees.\<close>

function nals_from :: "bytes \<Rightarrow> nat \<Rightarrow> bytes list" where
  "nals_from bytes offset =
     (case nals_next bytes offset of
        None \<Rightarrow> []
      | Some (nal, offset') \<Rightarrow> nal # nals_from bytes offset')"
  by pat_completeness auto
termination
  by (relation "measure (\<lambda>(bytes, offset). length bytes - offset)") (auto dest: nals_next_less)

declare nals_from.simps [simp del]

definition annex_b_nals :: "bytes \<Rightarrow> bytes list" where
  "annex_b_nals encoded = nals_from encoded 0"

section \<open>Lemmas: emulation prevention\<close>

text \<open>The count of zeros after a run of bytes, as both loops keep it.\<close>

fun zeros_after :: "u8 \<Rightarrow> bytes \<Rightarrow> u8" where
  "zeros_after z [] = z"
| "zeros_after z (b # bs) =
     zeros_after (if b = 0 then sat_add (if 2 \<le> z \<and> b \<le> 3 then 0 else z) 1 else 0) bs"

lemma unescape_escape_loop:
  "unescape_loop z (escape_loop z p @ q) = p @ unescape_loop (zeros_after z p) q"
proof (induction p arbitrary: z)
  case (Cons b p)
  have "\<not> 2 \<le> (0 :: u8)" by simp
  then show ?case using Cons by auto
qed simp

lemma unescape_escape:
  "annex_b_unescape_payload (annex_b_escape_payload p @ q) = p @ unescape_loop (zeros_after 0 p) q"
  by (simp add: annex_b_unescape_payload_def annex_b_escape_payload_def unescape_escape_loop)

text \<open>
  Bytes with no zero or one after two zeros, \<open>z\<close> zeros having come before: no start code begins in
  them.
\<close>

fun calm :: "nat \<Rightarrow> bytes \<Rightarrow> bool" where
  "calm z [] = True"
| "calm z (b # bs) = ((z < 2 \<or> 1 < b) \<and> calm (if b = 0 then Suc z else 0) bs)"

lemma calm_mono: "calm z bs \<Longrightarrow> z' \<le> z \<Longrightarrow> calm z' bs"
  by (induction bs arbitrary: z z') (fastforce split: if_splits)+

lemma calm_append: "calm z (a @ b) \<Longrightarrow> calm 0 b"
  by (induction a arbitrary: z) (auto intro: calm_mono)

lemma unat_sat_inc: "z \<le> 2 \<Longrightarrow> unat (sat_add z 1) = Suc (unat z)" for z :: u8
proof -
  assume "z \<le> 2"
  then have "unat z \<le> 2" by (simp add: word_le_nat_alt)
  then show ?thesis unfolding unat_sat_add by simp
qed

lemma escape_loop_calm: "z \<le> 2 \<Longrightarrow> calm (unat z) (escape_loop z p)"
proof (induction p arbitrary: z)
  case (Cons b p)
  have one: "sat_add 0 1 = (1 :: u8)" by (simp add: sat_add_def)
  have IH: "calm 1 (escape_loop 1 p)" "calm 0 (escape_loop 0 p)"
    using Cons.IH [of 1] Cons.IH [of 0] by simp_all
  show ?case
  proof (cases "2 \<le> z \<and> b \<le> 3")
    case True
    then show ?thesis using IH by (simp add: one)
  next
    case False
    then consider "z < 2" | "3 < b" by (auto simp: not_le)
    then show ?thesis
    proof cases
      case 1
      then have "unat z < 2" by (simp add: word_less_nat_alt)
      moreover from 1 have "z \<le> 2" by simp
      moreover have "sat_add z 1 \<le> 2"
        using \<open>unat z < 2\<close> unat_sat_inc [OF \<open>z \<le> 2\<close>] by (simp add: word_le_nat_alt)
      moreover have "calm (unat (sat_add z 1)) (escape_loop (sat_add z 1) p)"
        by (rule Cons.IH) fact
      ultimately show ?thesis using 1 IH by (auto simp: unat_sat_inc not_le)
    next
      case 2
      then have "b \<noteq> 0" "1 < b" by (auto intro: less_trans [of 1 3])
      with 2 show ?thesis using IH False by simp
    qed
  qed
qed simp

lemma calm_escape: "calm 0 (annex_b_escape_payload p)"
  using escape_loop_calm [of 0 p] by (simp add: annex_b_escape_payload_def)

section \<open>Lemmas: finding the units\<close>

text \<open>The search as a structural scan.\<close>

definition code_at :: "bytes \<Rightarrow> bool" where
  "code_at bs \<longleftrightarrow> starts_with bs [0, 0, 1] \<or> starts_with bs [0, 0, 0, 1]"

fun scan_code :: "bytes \<Rightarrow> nat option" where
  "scan_code [] = None"
| "scan_code (b # bs) = (if code_at (b # bs) then Some 0 else map_option Suc (scan_code bs))"

lemma code_at_short: "length bs < 3 \<Longrightarrow> \<not> code_at bs"
  by (auto simp: code_at_def dest: starts_with_length)

lemma scan_code_short: "length bs < 3 \<Longrightarrow> scan_code bs = None"
  by (induction bs) (auto simp: code_at_short)

lemma find_start_code_scan:
  "find_start_code bytes index = map_option ((+) index) (scan_code (drop index bytes))"
proof (induction bytes index rule: find_start_code.induct)
  case (1 bytes index)
  let ?d = "drop index bytes"
  show ?case
  proof (cases "index + 3 \<le> length bytes")
    case False
    then show ?thesis by (subst find_start_code.simps) (simp add: scan_code_short)
  next
    case True
    then obtain b where d: "?d = b # drop (index + 1) bytes"
      by (metis Cons_nth_drop_Suc Suc_eq_plus1 add_leE add_lessD1 le_add1 le_neq_implies_less
          less_add_same_cancel1 not_add_less1 zero_less_numeral order_less_le_trans)
    have code: "(starts_with ?d [0, 0, 1] \<or> (index + 4 \<le> length bytes \<and> starts_with ?d [0, 0, 0, 1])) =
        code_at ?d"
      using starts_with_length [of ?d "[0, 0, 0, 1]"] True by (auto simp: code_at_def)
    show ?thesis
    proof (cases "code_at ?d")
      case True
      then have "find_start_code bytes index = Some index"
        using \<open>index + 3 \<le> length bytes\<close>
        by (subst find_start_code.simps) (simp only: code if_True)
      with True show ?thesis by (simp add: d)
    next
      case False
      then have "find_start_code bytes index = find_start_code bytes (index + 1)"
        using True by (subst find_start_code.simps) (simp only: code if_True if_False)
      also have "\<dots> = map_option ((+) (index + 1)) (scan_code (drop (index + 1) bytes))"
        using "1.IH" [OF True] False by (simp only: code not_False_eq_True)
      also have "\<dots> = map_option ((+) index) (scan_code ?d)"
        using False by (cases "scan_code (drop (index + 1) bytes)") (simp_all add: d)
      finally show ?thesis .
    qed
  qed
qed

lemma calm_no_code: "calm 0 bs \<Longrightarrow> \<not> code_at bs"
  by (cases bs; cases "tl bs"; cases "tl (tl bs)") (auto simp: code_at_def)

lemma calm_no_code_before:
  assumes "calm 0 bs" and "bs \<noteq> []"
  shows "\<not> code_at (bs @ ANNEX_B_START_CODE @ rest)"
  using assms
  by (cases bs; cases "tl bs"; cases "tl (tl bs)")
    (auto simp: code_at_def ANNEX_B_START_CODE_def split: if_splits)

lemma scan_code_calm: "calm 0 bs \<Longrightarrow> scan_code bs = None"
proof (induction bs)
  case (Cons b bs)
  then have "calm 0 bs" using calm_append [of 0 "[b]" bs] by simp
  with Cons show ?case using calm_no_code [of "b # bs"] by simp
qed simp

lemma scan_code_unit: "calm 0 bs \<Longrightarrow> scan_code (bs @ ANNEX_B_START_CODE @ rest) = Some (length bs)"
proof (induction bs)
  case Nil
  then show ?case by (simp add: ANNEX_B_START_CODE_def code_at_def)
next
  case (Cons b bs)
  then have "calm 0 bs" using calm_append [of 0 "[b]" bs] by simp
  with Cons show ?case using calm_no_code_before [OF Cons.prems, of rest] by simp
qed

text \<open>A stream of units is what \<open>append_nal\<close> builds.\<close>

definition nal_stream :: "bytes list \<Rightarrow> bytes" where
  "nal_stream units = concat (map ((@) ANNEX_B_START_CODE) units)"

lemma start_code_len_unit: "start_code_len (ANNEX_B_START_CODE @ rest) = Some 4"
  by (simp add: start_code_len_def ANNEX_B_START_CODE_def)

lemma nals_next_unit:
  assumes "calm 0 unit" and "\<forall>u \<in> set units. calm 0 u"
  shows "nals_next (pre @ nal_stream (unit # units)) (length pre) =
    Some (unit, length (pre @ ANNEX_B_START_CODE @ unit))"
proof -
  let ?bs = "pre @ nal_stream (unit # units)"
  have d: "drop (length pre) ?bs = [] @ ANNEX_B_START_CODE @ unit @ nal_stream units"
    by (simp add: nal_stream_def)
  then have d4: "drop (length pre + 4) ?bs = unit @ nal_stream units"
    unfolding drop_drop [symmetric] add.commute [of _ 4]
    by (simp only: d append_Nil) (simp add: ANNEX_B_START_CODE_def)
  have start: "find_start_code ?bs (length pre) = Some (length pre)"
    unfolding find_start_code_scan d by (subst scan_code_unit) simp_all
  have stop: "(case find_start_code ?bs (length pre + 4) of None \<Rightarrow> length ?bs | Some s \<Rightarrow> s) =
      length pre + 4 + length unit"
  proof (cases units)
    case Nil
    then show ?thesis unfolding find_start_code_scan d4 using assms(1)
      by (simp add: nal_stream_def scan_code_calm ANNEX_B_START_CODE_def)
  next
    case (Cons u us)
    then have "nal_stream units = ANNEX_B_START_CODE @ u @ nal_stream us"
      by (simp add: nal_stream_def)
    then show ?thesis unfolding find_start_code_scan d4
      by (simp add: scan_code_unit [OF assms(1)])
  qed
  show ?thesis unfolding nals_next_def start option.case d
    by (simp only: append_Nil start_code_len_unit option.case Let_def stop d4)
      (simp add: ANNEX_B_START_CODE_def)
qed

lemma nals_from_units:
  assumes "\<forall>u \<in> set units. calm 0 u"
  shows "nals_from (pre @ nal_stream units) (length pre) = units"
  using assms
proof (induction units arbitrary: pre)
  case Nil
  then show ?case
    by (subst nals_from.simps) (simp add: nals_next_def find_start_code_scan nal_stream_def)
next
  case (Cons u us)
  have nx: "nals_next (pre @ nal_stream (u # us)) (length pre) =
      Some (u, length (pre @ ANNEX_B_START_CODE @ u))"
    by (rule nals_next_unit) (use Cons.prems in simp_all)
  have stream: "pre @ nal_stream (u # us) = (pre @ ANNEX_B_START_CODE @ u) @ nal_stream us"
    by (simp add: nal_stream_def)
  have "nals_from ((pre @ ANNEX_B_START_CODE @ u) @ nal_stream us)
      (length (pre @ ANNEX_B_START_CODE @ u)) = us"
    by (rule Cons.IH) (use Cons.prems in simp)
  then show ?case by (subst nals_from.simps) (simp only: nx option.case prod.case, simp only: stream)
qed

lemma annex_b_nals_units: "\<forall>u \<in> set units. calm 0 u \<Longrightarrow> annex_b_nals (nal_stream units) = units"
  using nals_from_units [of units "[]"] by (simp add: annex_b_nals_def)

lemma calm_nal: "h \<noteq> 0 \<Longrightarrow> calm 0 (h # annex_b_escape_payload p)"
  by (simp add: calm_escape)

lemma nal_stream_snoc: "nal_stream (units @ [u]) = nal_stream units @ ANNEX_B_START_CODE @ u"
  by (simp add: nal_stream_def)

lemma append_nal_stream:
  "append_nal (nal_stream units) h p = nal_stream (units @ [h # annex_b_escape_payload p])"
  by (simp add: append_nal_def nal_stream_snoc)

lemma fold_append_nal:
  "fold (\<lambda>(h, p) bs. append_nal bs h p) xs (nal_stream units) =
   nal_stream (units @ map (\<lambda>(h, p). h # annex_b_escape_payload p) xs)"
  by (induction xs arbitrary: units) (auto simp: append_nal_stream)

section \<open>Properties\<close>

text \<open>
  The Annex B stream: whatever payloads are appended as units, zeros and start codes in them
  included, the decoder's iterator finds exactly these units, in order, and unescaping gives every
  payload back.
\<close>

theorem annex_b_roundtrip:
  assumes "\<forall>(h, p) \<in> set xs. h \<noteq> 0"
  shows "map (\<lambda>nal. (hd nal, annex_b_unescape_payload (tl nal)))
    (annex_b_nals (fold (\<lambda>(h, p) bs. append_nal bs h p) xs [])) = xs"
proof -
  let ?us = "map (\<lambda>(h, p). h # annex_b_escape_payload p) xs"
  have "fold (\<lambda>(h, p) bs. append_nal bs h p) xs [] = nal_stream ?us"
    using fold_append_nal [of xs "[]"] by (simp add: nal_stream_def)
  moreover have "annex_b_nals (nal_stream ?us) = ?us"
    by (rule annex_b_nals_units) (use assms in \<open>auto simp: calm_escape\<close>)
  moreover have "annex_b_unescape_payload (annex_b_escape_payload p) = p" for p
    using unescape_escape [of p "[]"] by simp
  ultimately show ?thesis by (simp add: comp_def case_prod_beta' map_idI)
qed

theorem annex_b_roundtrip_witness:
  "map (\<lambda>nal. (hd nal, annex_b_unescape_payload (tl nal)))
    (annex_b_nals (append_nal (append_nal [] 0x67 [1, 0, 0, 1, 0, 0, 0]) 0x65 [0, 0, 3])) =
   [(0x67, [1, 0, 0, 1, 0, 0, 0]), (0x65, [0, 0, 3])]"
  using annex_b_roundtrip [of "[(0x67, [1, 0, 0, 1, 0, 0, 0]), (0x65, [0, 0, 3])]"] by simp

end
