(* ===== verification/H264.thy ===== *)
theory H264
  imports Annex_B Capture Frame
begin

text \<open>
  The synthetic H.264 codec of the desktop client: the encoder of \<open>encode/h264.rs\<close> and the decoder
  of \<open>decode/h264.rs\<close>, which exchange frame metadata and a small preview in Annex B units. The
  Media Foundation backends only report what the operating system enumerates; that number is an
  argument. Sizes that exceed \<open>isize::MAX\<close> make \<open>Vec::with_capacity\<close> panic.
\<close>

section \<open>Constants\<close>

definition SYNTHETIC_SPS_MAGIC :: bytes where "SYNTHETIC_SPS_MAGIC = [0x54, 0x56, 0x53, 0x31]"
definition SYNTHETIC_PPS_MAGIC :: bytes where "SYNTHETIC_PPS_MAGIC = [0x54, 0x56, 0x50, 0x31]"
definition SYNTHETIC_FRAME_MAGIC :: bytes where "SYNTHETIC_FRAME_MAGIC = [0x54, 0x56, 0x46, 0x31]"
definition SYNTHETIC_PREVIEW_MAGIC :: bytes where
  "SYNTHETIC_PREVIEW_MAGIC = [0x54, 0x56, 0x42, 0x31]"
definition MAX_SYNTHETIC_PREVIEW_WIDTH :: u32 where "MAX_SYNTHETIC_PREVIEW_WIDTH = 160"
definition MAX_SYNTHETIC_PREVIEW_HEIGHT :: u32 where "MAX_SYNTHETIC_PREVIEW_HEIGHT = 90"
definition ENC_NAL_SPS :: u8 where "ENC_NAL_SPS = 0x67"
definition ENC_NAL_PPS :: u8 where "ENC_NAL_PPS = 0x68"
definition ENC_NAL_IDR_SLICE :: u8 where "ENC_NAL_IDR_SLICE = 0x65"
definition ENC_NAL_NON_IDR_SLICE :: u8 where "ENC_NAL_NON_IDR_SLICE = 0x41"
definition DEC_NAL_NON_IDR_SLICE :: u8 where "DEC_NAL_NON_IDR_SLICE = 1"
definition DEC_NAL_IDR_SLICE :: u8 where "DEC_NAL_IDR_SLICE = 5"
definition DEC_NAL_SPS :: u8 where "DEC_NAL_SPS = 7"
definition DEC_NAL_PPS :: u8 where "DEC_NAL_PPS = 8"
definition MAX_SYNTHETIC_DECODED_PIXELS :: nat where
  "MAX_SYNTHETIC_DECODED_PIXELS = 3840 * 2160"

section \<open>The encoder\<close>

record h264_encoder_config =
  ec_width :: u32
  ec_height :: u32
  ec_frames_per_second :: u16
  ec_bitrate_bps :: u32
  ec_synthetic_payload_bytes :: nat

definition h264_encoder_config_default :: h264_encoder_config where
  "h264_encoder_config_default =
     \<lparr>ec_width = 1280, ec_height = 720, ec_frames_per_second = 30, ec_bitrate_bps = 4000000,
      ec_synthetic_payload_bytes = 512\<rparr>"

record h264_encoder =
  en_config :: h264_encoder_config
  en_keyframe_requested :: bool

definition synthetic_sps_payload :: "u32 \<Rightarrow> u32 \<Rightarrow> u16 \<Rightarrow> bytes" where
  "synthetic_sps_payload width height frames_per_second =
     SYNTHETIC_SPS_MAGIC @ to_le 4 width @ to_le 4 height @ to_le 2 frames_per_second"

text \<open>\<open>(a as u64 * b as u64 / c as u64) as u32\<close>\<close>

definition ratio_u32 :: "u32 \<Rightarrow> u32 \<Rightarrow> u32 \<Rightarrow> u32" where
  "ratio_u32 a b c = of_nat (unat a * unat b div unat c)"

definition preview_dimensions :: "u32 \<Rightarrow> u32 \<Rightarrow> u32 \<times> u32" where
  "preview_dimensions width height =
     (if width \<le> MAX_SYNTHETIC_PREVIEW_WIDTH \<and> height \<le> MAX_SYNTHETIC_PREVIEW_HEIGHT
      then (max width 1, max height 1)
      else
        let height_by_width = ratio_u32 height MAX_SYNTHETIC_PREVIEW_WIDTH (max width 1) in
        if height_by_width \<le> MAX_SYNTHETIC_PREVIEW_HEIGHT
        then (MAX_SYNTHETIC_PREVIEW_WIDTH, max height_by_width 1)
        else
          let width_by_height = ratio_u32 width MAX_SYNTHETIC_PREVIEW_HEIGHT (max height 1) in
          (max width_by_height 1, MAX_SYNTHETIC_PREVIEW_HEIGHT))"

definition downsample_bgra_nearest :: "bytes \<Rightarrow> u32 \<Rightarrow> u32 \<Rightarrow> u32 \<Rightarrow> u32 \<Rightarrow> bytes option" where
  "downsample_bgra_nearest source_pixels source_width source_height preview_width preview_height =
     (case bgra_byte_len preview_width preview_height of
        Inl _ \<Rightarrow> None
      | Inr _ \<Rightarrow>
          gather_pixels source_pixels
            (source_offsets source_width source_height preview_width preview_height))"

definition synthetic_preview_payload :: "capture_frame \<Rightarrow> bytes option" where
  "synthetic_preview_payload frame =
     (case cf_storage frame of
        CpuBytes source_pixels \<Rightarrow>
          if cf_format frame \<noteq> Bgra8 then None
          else
            (case bgra_byte_len (cf_width frame) (cf_height frame) of
               Inl _ \<Rightarrow> None
             | Inr expected_len \<Rightarrow>
                 if length source_pixels \<noteq> expected_len then None
                 else
                   let (preview_width, preview_height) =
                         preview_dimensions (cf_width frame) (cf_height frame)
                   in map_option (\<lambda>preview_pixels.
                        SYNTHETIC_PREVIEW_MAGIC @ to_le 4 preview_width @ to_le 4 preview_height @
                        to_le 4 (of_nat (length preview_pixels) :: u32) @ preview_pixels)
                      (downsample_bgra_nearest source_pixels (cf_width frame) (cf_height frame)
                         preview_width preview_height))
      | _ \<Rightarrow> None)"

definition synthetic_frame_payload :: "capture_frame \<Rightarrow> bytes" where
  "synthetic_frame_payload frame =
     SYNTHETIC_FRAME_MAGIC @ to_le 4 (ucast (cf_frame_id frame) :: u32) @ to_le 4 (cf_width frame) @
     to_le 4 (cf_height frame) @
     (case synthetic_preview_payload frame of None \<Rightarrow> [] | Some preview \<Rightarrow> preview)"

text \<open>The units of a frame, and the padding byte at a position.\<close>

definition encode_nals :: "u16 \<Rightarrow> bool \<Rightarrow> capture_frame \<Rightarrow> bytes" where
  "encode_nals frames_per_second is_keyframe frame =
     (if is_keyframe
      then append_nal
        (append_nal
          (append_nal [] ENC_NAL_SPS
            (synthetic_sps_payload (cf_width frame) (cf_height frame) frames_per_second))
          ENC_NAL_PPS SYNTHETIC_PPS_MAGIC)
        ENC_NAL_IDR_SLICE (synthetic_frame_payload frame)
      else append_nal [] ENC_NAL_NON_IDR_SLICE (synthetic_frame_payload frame))"

definition h264_pad_byte :: "capture_frame \<Rightarrow> nat \<Rightarrow> u8" where
  "h264_pad_byte frame len = ucast (cf_frame_id frame + of_nat len)"

definition h264_encode ::
  "h264_encoder \<Rightarrow> capture_frame \<Rightarrow> u32 \<Rightarrow> encoded_frame \<times> h264_encoder" where
  "h264_encode e frame stream_id =
     (let is_keyframe = (en_keyframe_requested e \<or> cf_frame_id frame = 1);
          e = e\<lparr>en_keyframe_requested := False\<rparr>;
          bs = encode_nals (ec_frames_per_second (en_config e)) is_keyframe frame;
          bs = pad_loop (h264_pad_byte frame) (ec_synthetic_payload_bytes (en_config e)) bs
      in (\<lparr>f_room_stream_id = stream_id, f_frame_id = ucast (cf_frame_id frame),
           f_media_timestamp = sat_mul (cf_frame_id frame) 3000,
           f_sender_capture_time_micros = cf_capture_time_micros frame,
           f_sender_clock_offset_micros = 0, f_sender_encode_done_time_micros = 0,
           f_sender_send_time_micros = 0, f_server_receive_time_micros = 0,
           f_server_send_time_micros = 0, f_codec = H264, f_is_keyframe = is_keyframe,
           f_bytes = bs\<rparr>, e))"

section \<open>The decoder\<close>

datatype decoded_pixel_format = DecodedBgra8

record decoded_frame =
  df_frame_id :: u32
  df_width :: u32
  df_height :: u32
  df_pixel_format :: decoded_pixel_format
  df_pixels :: bytes

record synthetic_stream_config =
  ss_width :: u32
  ss_height :: u32

record synthetic_preview =
  sv_width :: u32
  sv_height :: u32
  sv_pixels :: bytes

record synthetic_frame_info =
  si_frame_id :: u32
  si_width :: u32
  si_height :: u32
  si_preview :: "synthetic_preview option"

text \<open>\<open>u32::from_le_bytes(bytes[start..start + 4])\<close>\<close>

definition le_u32_at :: "bytes \<Rightarrow> nat \<Rightarrow> u32" where
  "le_u32_at bs start = from_le (take 4 (drop start bs))"

definition parse_synthetic_sps :: "bytes \<Rightarrow> synthetic_stream_config option" where
  "parse_synthetic_sps payload =
     (case get_range payload 0 14 of
        None \<Rightarrow> None
      | Some bs \<Rightarrow>
          if take 4 bs \<noteq> SYNTHETIC_SPS_MAGIC then None
          else
            let width = le_u32_at bs 4; height = le_u32_at bs 8 in
            if width = 0 \<or> height = 0 then None
            else Some \<lparr>ss_width = width, ss_height = height\<rparr>)"

definition parse_synthetic_preview :: "bytes \<Rightarrow> synthetic_preview option" where
  "parse_synthetic_preview payload =
     (case get_range payload 0 16 of
        None \<Rightarrow> None
      | Some header \<Rightarrow>
          if take 4 header \<noteq> SYNTHETIC_PREVIEW_MAGIC then None
          else
            let width = le_u32_at header 4; height = le_u32_at header 8;
                byte_len = unat (le_u32_at header 12)
            in if width = 0 \<or> height = 0 then None
               else
                 (case Option.bind (checked_mul_usize (unat width) (unat height))
                         (\<lambda>pixels. checked_mul_usize pixels 4) of
                    None \<Rightarrow> None
                  | Some expected_len \<Rightarrow>
                      if byte_len \<noteq> expected_len then None
                      else map_option (\<lambda>pixels.
                             \<lparr>sv_width = width, sv_height = height, sv_pixels = pixels\<rparr>)
                           (get_range payload 16 byte_len)))"

definition parse_synthetic_frame :: "bytes \<Rightarrow> synthetic_frame_info option" where
  "parse_synthetic_frame payload =
     (case get_range payload 0 16 of
        None \<Rightarrow> None
      | Some bs \<Rightarrow>
          if take 4 bs \<noteq> SYNTHETIC_FRAME_MAGIC then None
          else
            let frame_id = le_u32_at bs 4; width = le_u32_at bs 8; height = le_u32_at bs 12 in
            if width = 0 \<or> height = 0 then None
            else Some \<lparr>si_frame_id = frame_id, si_width = width, si_height = height,
                       si_preview = parse_synthetic_preview (drop 16 payload)\<rparr>)"

text \<open>
  \<open>Vec::with_capacity\<close> panics above \<open>isize::MAX\<close> bytes; the capacity is a saturating product.
\<close>

definition pattern_at :: "u32 \<Rightarrow> nat \<Rightarrow> nat \<Rightarrow> u8" where
  "pattern_at frame_id y x =
     ucast ((of_nat (x div 32) XOR of_nat (y div 32) XOR frame_id) :: u32)"

definition synthetic_bgra_pixels ::
  "u32 \<Rightarrow> u32 \<Rightarrow> u32 \<Rightarrow> bool \<Rightarrow> 'e fault + bytes" where
  "synthetic_bgra_pixels width height frame_id is_keyframe =
     (let pixel_count = min (unat width * unat height) (2 ^ 64 - 1);
          capacity = min (pixel_count * 4) (2 ^ 64 - 1);
          keyframe_bias = (if is_keyframe then 0x40 else 0x10)
      in if 2 ^ 63 - 1 < capacity then Inl Panic
         else Inr (concat
           [let pattern = pattern_at frame_id y x in
            [pattern * 3, pattern * 5 + keyframe_bias, pattern * 7 + ucast frame_id, 0xff].
             y \<leftarrow> [0..<unat height], x \<leftarrow> [0..<unat width]]))"

text \<open>The variables of the loop over the units, the decoder's configuration included.\<close>

record nal_scan =
  ns_config :: "synthetic_stream_config option"
  ns_saw_sps :: bool
  ns_saw_pps :: bool
  ns_saw_idr :: bool
  ns_saw_slice :: bool
  ns_frame_info :: "synthetic_frame_info option"

definition or_else :: "'a option \<Rightarrow> 'a option \<Rightarrow> 'a option" where
  "or_else a b = (case a of None \<Rightarrow> b | Some _ \<Rightarrow> a)"

fun scan_nal :: "bytes \<Rightarrow> nal_scan \<Rightarrow> nal_scan" where
  "scan_nal [] s = s"
| "scan_nal (header # payload) s =
     (let ty = header AND 0x1f in
      if ty = DEC_NAL_SPS
      then
        let s = s\<lparr>ns_saw_sps := True\<rparr> in
        (case parse_synthetic_sps (annex_b_unescape_payload payload) of
           None \<Rightarrow> s | Some config \<Rightarrow> s\<lparr>ns_config := Some config\<rparr>)
      else if ty = DEC_NAL_PPS then s\<lparr>ns_saw_pps := True\<rparr>
      else if ty = DEC_NAL_IDR_SLICE
      then s\<lparr>ns_saw_idr := True, ns_saw_slice := True,
             ns_frame_info := or_else (parse_synthetic_frame (annex_b_unescape_payload payload))
               (ns_frame_info s)\<rparr>
      else if ty = DEC_NAL_NON_IDR_SLICE
      then s\<lparr>ns_saw_slice := True,
             ns_frame_info := or_else (parse_synthetic_frame (annex_b_unescape_payload payload))
               (ns_frame_info s)\<rparr>
      else s)"

record h264_decoder =
  hd_config :: "synthetic_stream_config option"

definition scan_nals :: "h264_decoder \<Rightarrow> bytes \<Rightarrow> nal_scan" where
  "scan_nals d encoded =
     fold scan_nal (annex_b_nals encoded)
       \<lparr>ns_config = hd_config d, ns_saw_sps = False, ns_saw_pps = False, ns_saw_idr = False,
        ns_saw_slice = False, ns_frame_info = None\<rparr>"

definition decoded_picture ::
  "bool \<Rightarrow> synthetic_frame_info \<Rightarrow> rstring fault + (decoded_frame option)" where
  "decoded_picture saw_idr frame_info =
     and_then
       (case si_preview frame_info of
          Some preview \<Rightarrow> Inr (sv_width preview, sv_height preview, sv_pixels preview)
        | None \<Rightarrow>
            let width = max (si_width frame_info) 1; height = max (si_height frame_info) 1 in
            and_then (synthetic_bgra_pixels width height (si_frame_id frame_info) saw_idr)
              (\<lambda>pixels. Inr (width, height, pixels)))
       (\<lambda>(width, height, pixels).
          if MAX_SYNTHETIC_DECODED_PIXELS < unat width * unat height
          then Inl (Err (lit ''synthetic decoded frame exceeds maximum preview size''))
          else Inr (Some \<lparr>df_frame_id = si_frame_id frame_info, df_width = width,
                          df_height = height, df_pixel_format = DecodedBgra8,
                          df_pixels = pixels\<rparr>))"

definition h264_decode ::
  "h264_decoder \<Rightarrow> bytes \<Rightarrow> (rstring fault + (decoded_frame option)) \<times> h264_decoder" where
  "h264_decode d encoded =
     (if encoded = [] then (Inr None, d)
      else
        let s = scan_nals d encoded; d = d\<lparr>hd_config := ns_config s\<rparr> in
        if \<not> ns_saw_slice s then (Inr None, d)
        else if ns_saw_idr s \<and> (\<not> ns_saw_sps s \<or> \<not> ns_saw_pps s \<or> ns_config s = None)
        then (Inr None, d)
        else
          case ns_config s of
            None \<Rightarrow> (Inr None, d)
          | Some config \<Rightarrow>
              let frame_info = (case ns_frame_info s of
                    Some frame_info \<Rightarrow> frame_info
                  | None \<Rightarrow> \<lparr>si_frame_id = 0, si_width = ss_width config,
                             si_height = ss_height config, si_preview = None\<rparr>)
              in (decoded_picture (ns_saw_idr s) frame_info, d))"

end
