(* ===== verification/H264_Props.thy ===== *)
theory H264_Props
  imports H264
begin

text \<open>
  What the synthetic H.264 codec transports: the decoder reads what the encoder wrote, previews as
  scaled copies of the captured frame, provided the encoder's padding cannot be read as a start
  code; what happens when it can; and a picture size that makes the decoder panic.
\<close>

section \<open>Lemmas: padding\<close>

lemma pad_ramp: "map (h264_pad_byte frame) [n..<t] = ramp (h264_pad_byte frame n) (t - n)"
proof -
  have "(ucast (of_nat i :: u64) :: u8) = of_nat i" for i
    by transfer simp
  then have byte: "h264_pad_byte frame (n + i) = h264_pad_byte frame n + of_nat i" for i
    by (simp add: h264_pad_byte_def ucast_add_u64 add.assoc)
  then show ?thesis by (rule map_upt_ramp)
qed

lemma ramp_calm: "1 < b \<or> (b = 0 \<and> z = 0) \<or> (b = 1 \<and> z \<le> 1) \<Longrightarrow> calm z (ramp b k)"
proof (induction k arbitrary: b z)
  case (Suc k)
  have "b + 1 = 0 \<or> 1 < b + 1" if "1 < b"
  proof (cases "b = - 1")
    case False
    have "unat b < 256" by (rule order_less_le_trans [OF unsigned_less]) simp
    moreover have "unat b \<noteq> 255" using False by (simp add: word_unat_eq_iff unat_neg_one)
    ultimately have "unat (b + 1) = unat b + 1" by (simp add: unat_word_ariths)
    with that show ?thesis by (simp add: word_less_nat_alt)
  qed simp
  moreover have "(1 :: u8) < 2" by simp
  ultimately show ?case using Suc.prems Suc.IH [of "b + 1" "if b = 0 then Suc z else 0"]
    by (auto simp: ramp_Suc)
qed simp

text \<open>Nor is it read as a preview, emulation prevention undone or not.\<close>

lemma ramp_no_magic: "take 4 (unescape_loop z (ramp b k)) \<noteq> SYNTHETIC_PREVIEW_MAGIC"
proof -
  obtain k' where "k = 0 \<or> k = 1 \<or> k = Suc (Suc k')" by (metis One_nat_def not0_implies_Suc)
  moreover have "b + 1 \<noteq> 0x56" if "b = 0x54" using that by simp
  moreover have "b + 1 \<noteq> 3" if "b = 0" using that by simp
  ultimately show ?thesis
    by (auto simp: ramp_Suc SYNTHETIC_PREVIEW_MAGIC_def take_Cons' split: if_splits)
qed

lemma parse_preview_ramp: "parse_synthetic_preview (unescape_loop z (ramp b k)) = None"
proof -
  let ?r = "unescape_loop z (ramp b k)"
  have "take 4 (take 16 ?r) \<noteq> SYNTHETIC_PREVIEW_MAGIC"
    using ramp_no_magic by (simp add: min_def)
  then show ?thesis
    by (simp add: parse_synthetic_preview_def get_range_def)
qed

section \<open>Lemmas: the payloads are parsed back\<close>

lemma unescape_padded:
  "annex_b_unescape_payload (annex_b_escape_payload p @ ramp b k) =
   p @ unescape_loop (zeros_after 0 p) (ramp b k)"
  by (rule unescape_escape)

lemma magic_length [simp]:
  "length SYNTHETIC_SPS_MAGIC = 4" "length SYNTHETIC_FRAME_MAGIC = 4"
  "length SYNTHETIC_PREVIEW_MAGIC = 4"
  by (simp_all add: SYNTHETIC_SPS_MAGIC_def SYNTHETIC_FRAME_MAGIC_def SYNTHETIC_PREVIEW_MAGIC_def)

lemma le_u32_at_field: "length a = n \<Longrightarrow> le_u32_at (a @ to_le 4 w @ b) n = w"
  by (simp add: le_u32_at_def)

lemma parse_sps:
  assumes "w \<noteq> 0" and "h \<noteq> 0"
  shows "parse_synthetic_sps (synthetic_sps_payload w h fps) =
    Some \<lparr>ss_width = w, ss_height = h\<rparr>"
proof -
  let ?p = "synthetic_sps_payload w h fps"
  have range: "get_range ?p 0 14 = Some ?p"
    by (simp add: get_range_def synthetic_sps_payload_def)
  have w: "le_u32_at ?p 4 = w" unfolding synthetic_sps_payload_def by (rule le_u32_at_field) simp
  have h: "le_u32_at ?p 8 = h"
    using le_u32_at_field [of "SYNTHETIC_SPS_MAGIC @ to_le 4 w" 8 h "to_le 2 fps"]
    by (simp add: synthetic_sps_payload_def)
  have m: "take 4 ?p = SYNTHETIC_SPS_MAGIC" by (simp add: synthetic_sps_payload_def)
  show ?thesis unfolding parse_synthetic_sps_def range using assms by (simp add: w h m Let_def)
qed

text \<open>Four words of which the first is a magic: the header of a frame, and of a preview.\<close>

lemma header_fields:
  fixes a b c :: u32
  assumes "length m = 4" and "p = m @ to_le 4 a @ to_le 4 b @ to_le 4 c @ rest"
  shows "\<exists>q. get_range p 0 16 = Some q \<and> take 4 q = m \<and> le_u32_at q 4 = a \<and> le_u32_at q 8 = b \<and>
    le_u32_at q 12 = c"
proof -
  let ?q = "m @ to_le 4 a @ to_le 4 b @ to_le 4 c"
  have "get_range p 0 16 = Some ?q" using assms by (simp add: get_range_def)
  moreover have "le_u32_at ?q 4 = a" using assms(1) by (rule le_u32_at_field)
  moreover have "le_u32_at ?q 8 = b"
    using le_u32_at_field [of "m @ to_le 4 a" 8 b "to_le 4 c"] assms(1) by simp
  moreover have "le_u32_at ?q 12 = c"
    using le_u32_at_field [of "m @ to_le 4 a @ to_le 4 b" 12 c "[]"] assms(1) by simp
  ultimately show ?thesis using assms(1) by (intro exI [of _ ?q]) simp
qed

lemma parse_preview:
  assumes "pw \<noteq> 0" "ph \<noteq> 0" and "length px = unat pw * unat ph * 4" and "length px < 2 ^ 32"
  shows "parse_synthetic_preview (SYNTHETIC_PREVIEW_MAGIC @ to_le 4 pw @ to_le 4 ph @
      to_le 4 (of_nat (length px) :: u32) @ px @ rest) =
    Some \<lparr>sv_width = pw, sv_height = ph, sv_pixels = px\<rparr>"
    (is "parse_synthetic_preview ?p = _")
proof -
  obtain q where q: "get_range ?p 0 16 = Some q" "take 4 q = SYNTHETIC_PREVIEW_MAGIC"
    "le_u32_at q 4 = pw" "le_u32_at q 8 = ph" "le_u32_at q 12 = of_nat (length px)"
    using header_fields [of SYNTHETIC_PREVIEW_MAGIC ?p pw ph "of_nat (length px)" "px @ rest"] by auto
  have "unat (of_nat (length px) :: u32) = length px" using assms(4) by (simp add: of_nat_unat_le)
  moreover have "get_range ?p 16 (length px) = Some px" by (simp add: get_range_def)
  moreover have "Option.bind (checked_mul_usize (unat pw) (unat ph))
      (\<lambda>pixels. checked_mul_usize pixels 4) = Some (length px)"
    using assms(3,4) by (simp add: checked_mul_usize_def mult.commute [of "unat pw"])
  ultimately show ?thesis
    unfolding parse_synthetic_preview_def q(1) using q(2-) assms(1,2) by (simp add: Let_def)
qed

lemma parse_frame:
  assumes "cf_width frame \<noteq> 0" "cf_height frame \<noteq> 0"
  shows "parse_synthetic_frame (synthetic_frame_payload frame @ rest) =
    Some \<lparr>si_frame_id = ucast (cf_frame_id frame), si_width = cf_width frame,
          si_height = cf_height frame,
          si_preview = parse_synthetic_preview
            ((case synthetic_preview_payload frame of None \<Rightarrow> [] | Some preview \<Rightarrow> preview) @ rest)\<rparr>"
    (is "parse_synthetic_frame ?p = _")
proof -
  let ?r = "(case synthetic_preview_payload frame of None \<Rightarrow> [] | Some preview \<Rightarrow> preview) @ rest"
  have p: "?p = SYNTHETIC_FRAME_MAGIC @ to_le 4 (ucast (cf_frame_id frame) :: u32) @
      to_le 4 (cf_width frame) @ to_le 4 (cf_height frame) @ ?r"
    by (simp add: synthetic_frame_payload_def)
  obtain q where q: "get_range ?p 0 16 = Some q" "take 4 q = SYNTHETIC_FRAME_MAGIC"
    "le_u32_at q 4 = ucast (cf_frame_id frame)" "le_u32_at q 8 = cf_width frame"
    "le_u32_at q 12 = cf_height frame"
    using header_fields [OF _ p] by auto
  have "drop 16 ?p = ?r" unfolding p by simp
  then show ?thesis
    unfolding parse_synthetic_frame_def q(1) using q(2-) assms by (simp add: Let_def)
qed

section \<open>Lemmas: the preview\<close>

lemma unat_ratio_u32:
  assumes "unat a * unat b div unat c < 2 ^ 32"
  shows "unat (ratio_u32 a b c) = unat a * unat b div unat c"
  using assms by (simp add: ratio_u32_def of_nat_unat_le)

lemma unat_max_1: "unat (max (x :: u32) 1) = max (unat x) 1"
  by (simp add: max_def word_le_nat_alt)

lemma preview_dimensions_bounds:
  assumes "preview_dimensions w h = (pw, ph)"
  shows "pw \<noteq> 0 \<and> ph \<noteq> 0 \<and> unat pw \<le> 160 \<and> unat ph \<le> 90"
proof -
  let ?hw = "ratio_u32 h MAX_SYNTHETIC_PREVIEW_WIDTH (max w 1)"
  let ?wh = "ratio_u32 w MAX_SYNTHETIC_PREVIEW_HEIGHT (max h 1)"
  note cs = MAX_SYNTHETIC_PREVIEW_WIDTH_def MAX_SYNTHETIC_PREVIEW_HEIGHT_def
  have nz: "max x 1 \<noteq> 0" for x :: u32 by (simp add: word_unat_eq_iff unat_max_1)
  consider (small) "w \<le> 160" "h \<le> 90" "pw = max w 1" "ph = max h 1"
    | (wide) "?hw \<le> 90" "pw = 160" "ph = max ?hw 1"
    | (tall) "\<not> ?hw \<le> 90" "pw = max ?wh 1" "ph = 90"
    using assms by (auto simp: preview_dimensions_def Let_def cs split: if_splits)
  then show ?thesis
  proof cases
    case small
    then show ?thesis by (simp add: nz unat_max_1 word_le_nat_alt)
  next
    case wide
    then show ?thesis by (simp add: nz unat_max_1 word_le_nat_alt)
  next
    case tall
    have "\<not> unat h * 160 div max (unat w) 1 \<le> 90"
    proof
      assume le: "unat h * 160 div max (unat w) 1 \<le> 90"
      then have "unat ?hw \<le> 90"
        by (subst unat_ratio_u32) (simp_all add: cs unat_max_1)
      with tall(1) show False by (simp add: word_le_nat_alt)
    qed
    then have "91 * max (unat w) 1 \<le> unat h * 160"
      by (simp add: not_le Suc_le_eq [symmetric] less_eq_div_iff_mult_less_eq)
    then have "unat w * 90 \<le> 160 * max (unat h) 1" by simp
    then have "unat w * 90 div max (unat h) 1 \<le> 160 * max (unat h) 1 div max (unat h) 1"
      by (rule div_le_mono)
    then have "unat w * 90 div max (unat h) 1 \<le> 160" by simp
    then have "unat ?wh \<le> 160" by (subst unat_ratio_u32) (simp_all add: cs unat_max_1)
    with tall show ?thesis by (simp add: nz unat_max_1)
  qed
qed

lemma complete_preview:
  assumes "complete_bgra frame source"
    and "preview_dimensions (cf_width frame) (cf_height frame) = (pw, ph)"
  obtains px where "synthetic_preview_payload frame =
      Some (SYNTHETIC_PREVIEW_MAGIC @ to_le 4 pw @ to_le 4 ph @
        to_le 4 (of_nat (length px) :: u32) @ px)"
    "length px = unat pw * unat ph * 4"
    "\<And>y x. y < unat ph \<Longrightarrow> x < unat pw \<Longrightarrow> pixel_at px pw y x =
       pixel_at source (cf_width frame) (y * unat (cf_height frame) div unat ph)
         (x * unat (cf_width frame) div unat pw)"
proof -
  note c = assms(1) [unfolded complete_bgra_def]
  from c have len: "length source = unat (cf_width frame) * unat (cf_height frame) * 4"
    and small: "length source < 2 ^ 64"
    by blast+
  from c have pos: "0 < unat (cf_width frame)" "0 < unat (cf_height frame)"
    by (simp_all add: unat_gt_0)
  obtain px where g: "gather_pixels source (source_offsets (cf_width frame) (cf_height frame) pw ph) =
      Some px"
    and px: "length px = unat pw * unat ph * 4"
    "\<And>y x. y < unat ph \<Longrightarrow> x < unat pw \<Longrightarrow> pixel_at px pw y x =
       pixel_at source (cf_width frame) (y * unat (cf_height frame) div unat ph)
         (x * unat (cf_width frame) div unat pw)"
    by (rule gather_scaled [OF len small pos, of pw ph]) blast
  have "unat pw * unat ph \<le> 160 * 90"
    using preview_dimensions_bounds [OF assms(2)] by (intro mult_le_mono) simp_all
  then have "bgra_byte_len pw ph = Inr (unat pw * unat ph * 4)"
    by (simp add: bgra_byte_len_Inr mult.commute)
  moreover have "bgra_byte_len (cf_width frame) (cf_height frame) = Inr (length source)"
    using len small by (simp only: bgra_byte_len_Inr)
  ultimately have "synthetic_preview_payload frame =
      Some (SYNTHETIC_PREVIEW_MAGIC @ to_le 4 pw @ to_le 4 ph @
        to_le 4 (of_nat (length px) :: u32) @ px)"
    using c g by (simp add: synthetic_preview_payload_def assms(2) downsample_bgra_nearest_def)
  from this px show ?thesis by (rule that)
qed

section \<open>Lemmas: the stream of a frame\<close>

definition is_key :: "h264_encoder \<Rightarrow> capture_frame \<Rightarrow> bool" where
  "is_key e frame \<longleftrightarrow> en_keyframe_requested e \<or> cf_frame_id frame = 1"

text \<open>The length of the units, where the padding starts, and its first byte.\<close>

definition nals_length :: "h264_encoder \<Rightarrow> capture_frame \<Rightarrow> nat" where
  "nals_length e frame =
     length (encode_nals (ec_frames_per_second (en_config e)) (is_key e frame) frame)"

definition padding_quiet :: "h264_encoder \<Rightarrow> capture_frame \<Rightarrow> bool" where
  "padding_quiet e frame \<longleftrightarrow>
     ec_synthetic_payload_bytes (en_config e) \<le> nals_length e frame \<or>
     1 < h264_pad_byte frame (nals_length e frame)"

definition padding_of :: "h264_encoder \<Rightarrow> capture_frame \<Rightarrow> bytes" where
  "padding_of e frame =
     ramp (h264_pad_byte frame (nals_length e frame))
       (ec_synthetic_payload_bytes (en_config e) - nals_length e frame)"

lemma encoded_bytes:
  "f_bytes (fst (h264_encode e frame sid)) =
   encode_nals (ec_frames_per_second (en_config e)) (is_key e frame) frame @ padding_of e frame"
  by (simp add: h264_encode_def Let_def pad_loop_eq pad_ramp padding_of_def nals_length_def is_key_def)

definition key_units :: "u16 \<Rightarrow> capture_frame \<Rightarrow> bytes list" where
  "key_units fps frame =
     [ENC_NAL_SPS # annex_b_escape_payload
        (synthetic_sps_payload (cf_width frame) (cf_height frame) fps),
      ENC_NAL_PPS # annex_b_escape_payload SYNTHETIC_PPS_MAGIC]"

definition slice_unit :: "bool \<Rightarrow> capture_frame \<Rightarrow> bytes" where
  "slice_unit key frame =
     (if key then ENC_NAL_IDR_SLICE else ENC_NAL_NON_IDR_SLICE) #
     annex_b_escape_payload (synthetic_frame_payload frame)"

lemma encode_nals_stream:
  "encode_nals fps key frame @ pad =
   nal_stream ((if key then key_units fps frame else []) @ [slice_unit key frame @ pad])"
proof -
  have nil: "[] = nal_stream []" by (simp add: nal_stream_def)
  show ?thesis
    unfolding encode_nals_def
    by (subst (1 2) nil)
      (simp add: append_nal_stream, simp add: nal_stream_def key_units_def slice_unit_def)
qed

lemma calm_append_ramp:
  "calm z u \<Longrightarrow> k = 0 \<or> 1 < b \<Longrightarrow> calm z (u @ ramp b k)"
proof (induction u arbitrary: z)
  case Nil
  then show ?case by (cases "k = 0") (simp_all add: ramp_calm)
qed simp

lemma nals_of_frame:
  assumes "padding_quiet e frame"
  shows "annex_b_nals (f_bytes (fst (h264_encode e frame sid))) =
    (if is_key e frame then key_units (ec_frames_per_second (en_config e)) frame else []) @
    [slice_unit (is_key e frame) frame @ padding_of e frame]"
  unfolding encoded_bytes encode_nals_stream
proof (rule annex_b_nals_units, intro ballI)
  fix u assume u: "u \<in> set ((if is_key e frame
      then key_units (ec_frames_per_second (en_config e)) frame else []) @
      [slice_unit (is_key e frame) frame @ padding_of e frame])"
  have "calm 0 (slice_unit (is_key e frame) frame)"
    by (simp add: slice_unit_def calm_escape ENC_NAL_IDR_SLICE_def ENC_NAL_NON_IDR_SLICE_def)
  then have "calm 0 (slice_unit (is_key e frame) frame @ padding_of e frame)"
    unfolding padding_of_def
    by (rule calm_append_ramp) (use assms in \<open>auto simp: padding_quiet_def\<close>)
  with u show "calm 0 u"
    by (auto simp: key_units_def calm_escape ENC_NAL_SPS_def ENC_NAL_PPS_def split: if_splits)
qed

text \<open>What the decoder learns about a frame.\<close>

definition frame_info_of :: "capture_frame \<Rightarrow> synthetic_preview option \<Rightarrow> synthetic_frame_info" where
  "frame_info_of frame preview =
     \<lparr>si_frame_id = ucast (cf_frame_id frame), si_width = cf_width frame,
      si_height = cf_height frame, si_preview = preview\<rparr>"

lemma nal_types:
  "ENC_NAL_SPS AND 0x1f = DEC_NAL_SPS" "ENC_NAL_PPS AND 0x1f = DEC_NAL_PPS"
  "ENC_NAL_IDR_SLICE AND 0x1f = DEC_NAL_IDR_SLICE"
  "ENC_NAL_NON_IDR_SLICE AND 0x1f = DEC_NAL_NON_IDR_SLICE"
  by (simp_all add: ENC_NAL_SPS_def ENC_NAL_PPS_def ENC_NAL_IDR_SLICE_def ENC_NAL_NON_IDR_SLICE_def
      DEC_NAL_SPS_def DEC_NAL_PPS_def DEC_NAL_IDR_SLICE_def DEC_NAL_NON_IDR_SLICE_def)

lemma dec_nal_distinct:
  "DEC_NAL_PPS \<noteq> DEC_NAL_SPS" "DEC_NAL_IDR_SLICE \<noteq> DEC_NAL_SPS" "DEC_NAL_IDR_SLICE \<noteq> DEC_NAL_PPS"
  "DEC_NAL_NON_IDR_SLICE \<noteq> DEC_NAL_SPS" "DEC_NAL_NON_IDR_SLICE \<noteq> DEC_NAL_PPS"
  "DEC_NAL_NON_IDR_SLICE \<noteq> DEC_NAL_IDR_SLICE"
  by (simp_all add: DEC_NAL_SPS_def DEC_NAL_PPS_def DEC_NAL_IDR_SLICE_def DEC_NAL_NON_IDR_SLICE_def)

lemma decode_scanned:
  assumes "scan_nals d encoded = s" and "encoded \<noteq> []"
    and "ns_saw_slice s" and "ns_config s = Some cfg" and "ns_frame_info s = Some info"
    and "ns_saw_idr s \<Longrightarrow> ns_saw_sps s \<and> ns_saw_pps s"
  shows "h264_decode d encoded = (decoded_picture (ns_saw_idr s) info, d\<lparr>hd_config := Some cfg\<rparr>)"
  using assms by (auto simp: h264_decode_def Let_def)

lemma h264_decode_encoded:
  assumes quiet: "padding_quiet e frame" and dims: "cf_width frame \<noteq> 0" "cf_height frame \<noteq> 0"
    and key: "is_key e frame \<or> hd_config d \<noteq> None"
    and info: "parse_synthetic_frame (annex_b_unescape_payload
        (annex_b_escape_payload (synthetic_frame_payload frame) @ padding_of e frame)) = Some info"
  shows "\<exists>cfg. h264_decode d (f_bytes (fst (h264_encode e frame sid))) =
    (decoded_picture (is_key e frame) info, d\<lparr>hd_config := Some cfg\<rparr>)"
proof -
  let ?bs = "f_bytes (fst (h264_encode e frame sid))"
  let ?s = "scan_nals d ?bs"
  have ne: "?bs \<noteq> []" by (simp add: encoded_bytes encode_nals_def append_nal_def ANNEX_B_START_CODE_def)
  have sps: "parse_synthetic_sps (annex_b_unescape_payload (annex_b_escape_payload
      (synthetic_sps_payload (cf_width frame) (cf_height frame) fps))) =
      Some \<lparr>ss_width = cf_width frame, ss_height = cf_height frame\<rparr>" for fps
    using unescape_escape [of _ "[]"] parse_sps [OF dims] by simp
  show ?thesis
  proof (cases "is_key e frame")
    case True
    then have "?s = \<lparr>ns_config = Some \<lparr>ss_width = cf_width frame, ss_height = cf_height frame\<rparr>,
        ns_saw_sps = True, ns_saw_pps = True, ns_saw_idr = True, ns_saw_slice = True,
        ns_frame_info = Some info\<rparr>"
      using info sps
      by (simp add: scan_nals_def nals_of_frame [OF quiet] key_units_def slice_unit_def nal_types
          dec_nal_distinct or_else_def Let_def)
    from decode_scanned [OF this ne] True show ?thesis by auto
  next
    case False
    then obtain cfg where cfg: "hd_config d = Some cfg" using key by blast
    have "?s = \<lparr>ns_config = Some cfg, ns_saw_sps = False, ns_saw_pps = False, ns_saw_idr = False,
        ns_saw_slice = True, ns_frame_info = Some info\<rparr>"
      using info False
      by (simp add: scan_nals_def nals_of_frame [OF quiet] slice_unit_def nal_types
          dec_nal_distinct or_else_def Let_def cfg)
    from decode_scanned [OF this ne] False show ?thesis by auto
  qed
qed

section \<open>Lemmas: frames without pixels\<close>

lemma metadata_arrives:
  assumes "cf_storage frame = MetadataOnly" and "padding_quiet e frame"
    and dims: "cf_width frame \<noteq> 0" "cf_height frame \<noteq> 0"
    and "is_key e frame \<or> hd_config d \<noteq> None"
  shows "\<exists>cfg. h264_decode d (f_bytes (fst (h264_encode e frame sid))) =
    (decoded_picture (is_key e frame) (frame_info_of frame None), d\<lparr>hd_config := Some cfg\<rparr>)"
proof -
  have "synthetic_preview_payload frame = None" by (simp add: synthetic_preview_payload_def assms(1))
  then show ?thesis using h264_decode_encoded [OF assms(2) dims assms(5)]
    by (auto simp: padding_of_def unescape_padded parse_frame [OF dims] parse_preview_ramp
        frame_info_of_def)
qed

lemma escape_loop_append:
  "escape_loop z (a @ b) = escape_loop z a @ escape_loop (zeros_after z a) b"
  by (induction a arbitrary: z) auto

lemma zeros_after_nonzero: "b \<noteq> 0 \<Longrightarrow> zeros_after z (a @ [b]) = 0"
  by (induction a arbitrary: z) auto

lemma escape_two_zeros:
  assumes "b \<noteq> 0"
  shows "annex_b_escape_payload (a @ [b, 0, 0]) = annex_b_escape_payload (a @ [b]) @ [0, 0]"
    and "last (annex_b_escape_payload (a @ [b])) \<noteq> 0"
proof -
  have one: "sat_add 0 1 = (1 :: u8)" "\<not> (2 :: u8) \<le> 1"
    by (simp_all add: sat_add_def word_le_nat_alt)
  show "annex_b_escape_payload (a @ [b, 0, 0]) = annex_b_escape_payload (a @ [b]) @ [0, 0]"
    using escape_loop_append [of 0 "a @ [b]" "[0, 0]"]
    by (simp add: annex_b_escape_payload_def zeros_after_nonzero [OF assms] one)
  show "last (annex_b_escape_payload (a @ [b])) \<noteq> 0"
    using assms by (simp add: annex_b_escape_payload_def escape_loop_append)
qed

text \<open>Two units, the second behind a start code of three bytes.\<close>

lemma scan_code_short_code:
  "calm 0 u \<Longrightarrow> u \<noteq> [] \<Longrightarrow> last u \<noteq> 0 \<Longrightarrow> scan_code (u @ 0 # 0 # 1 # r) = Some (length u)"
proof (induction u)
  case (Cons b u)
  have c: "calm 0 u" using calm_append [of 0 "[b]" u] Cons.prems by simp
  have no: "\<not> code_at ((b # u) @ 0 # 0 # 1 # r)"
    using Cons.prems
    by (cases u; cases "tl u"; cases "tl (tl u)") (auto simp: code_at_def split: if_splits)
  show ?case
  proof (cases "u = []")
    case True
    then show ?thesis using no by (simp add: code_at_def)
  next
    case False
    then show ?thesis using Cons.IH [OF c] Cons.prems no by simp
  qed
qed simp

lemma nals_short_code:
  assumes "calm 0 u" "u \<noteq> []" "last u \<noteq> 0" and "calm 0 r"
  shows "annex_b_nals (ANNEX_B_START_CODE @ u @ [0, 0, 1] @ r) = [u, r]"
proof -
  let ?bs = "ANNEX_B_START_CODE @ u @ [0, 0, 1] @ r"
  have len4: "length ANNEX_B_START_CODE = 4" by (simp add: ANNEX_B_START_CODE_def)
  have d4: "drop 4 ?bs = u @ 0 # 0 # 1 # r"
    and du: "drop (4 + length u) ?bs = 0 # 0 # 1 # r"
    and dr: "drop (7 + length u) ?bs = r"
    by (simp_all add: len4)
  have f0: "find_start_code ?bs 0 = Some 0"
    using scan_code_unit [of "[]" "u @ [0, 0, 1] @ r"] by (simp add: find_start_code_scan)
  have f4: "find_start_code ?bs 4 = Some (4 + length u)"
    unfolding find_start_code_scan d4 scan_code_short_code [OF assms(1-3)] by simp
  have fu: "find_start_code ?bs (4 + length u) = Some (4 + length u)"
    unfolding find_start_code_scan du by (simp add: code_at_def)
  have fr: "find_start_code ?bs (7 + length u) = None"
    unfolding find_start_code_scan dr by (simp add: scan_code_calm assms(4))
  have n1: "nals_next ?bs 0 = Some (u, 4 + length u)"
    unfolding nals_next_def f0 option.case drop_0 start_code_len_unit Let_def add_0 f4 d4 by simp
  have n2: "nals_next ?bs (4 + length u) = Some (r, length ?bs)"
    unfolding nals_next_def fu option.case du Let_def
    by (simp add: start_code_len_def fr [unfolded append_assoc] dr [unfolded append_assoc])
      (use fr dr in \<open>simp add: ANNEX_B_START_CODE_def add.commute\<close>)
  have n3: "nals_next ?bs (length ?bs) = None"
    by (simp only: nals_next_def find_start_code_scan drop_all order_refl) simp
  show ?thesis unfolding annex_b_nals_def
    by (subst nals_from.simps, subst n1, simp only: option.case prod.case,
        subst nals_from.simps, subst n2, simp only: option.case prod.case,
        subst nals_from.simps, subst n3) simp
qed

section \<open>Properties\<close>

text \<open>
  Previews arrive: for a captured picture in memory, what the synthetic encoder writes (a
  keyframe, or a later frame for a decoder that has seen one) decodes to a picture with the frame's
  id in which every pixel is the one of the captured picture at the scaled position, provided the
  padding does not begin with a byte that can end a start code.
\<close>

theorem preview_arrives:
  assumes "complete_bgra frame source" and "padding_quiet e frame"
    and "is_key e frame \<or> hd_config d \<noteq> None"
    and "preview_dimensions (cf_width frame) (cf_height frame) = (pw, ph)"
  shows "\<exists>px cfg. h264_decode d (f_bytes (fst (h264_encode e frame sid))) =
      (Inr (Some \<lparr>df_frame_id = ucast (cf_frame_id frame), df_width = pw, df_height = ph,
                  df_pixel_format = DecodedBgra8, df_pixels = px\<rparr>), d\<lparr>hd_config := Some cfg\<rparr>) \<and>
    length px = unat pw * unat ph * 4 \<and>
    (\<forall>y < unat ph. \<forall>x < unat pw. pixel_at px pw y x =
       pixel_at source (cf_width frame) (y * unat (cf_height frame) div unat ph)
         (x * unat (cf_width frame) div unat pw))"
proof -
  obtain px where p: "synthetic_preview_payload frame =
      Some (SYNTHETIC_PREVIEW_MAGIC @ to_le 4 pw @ to_le 4 ph @
        to_le 4 (of_nat (length px) :: u32) @ px)"
    and px: "length px = unat pw * unat ph * 4"
      "\<And>y x. y < unat ph \<Longrightarrow> x < unat pw \<Longrightarrow> pixel_at px pw y x =
       pixel_at source (cf_width frame) (y * unat (cf_height frame) div unat ph)
         (x * unat (cf_width frame) div unat pw)"
    by (rule complete_preview [OF assms(1,4)]) blast
  from assms(1) have dims: "cf_width frame \<noteq> 0" "cf_height frame \<noteq> 0"
    by (simp_all add: complete_bgra_def)
  note b = preview_dimensions_bounds [OF assms(4)]
  have pix: "unat pw * unat ph \<le> 14400"
    using mult_le_mono [of "unat pw" 160 "unat ph" 90] b by simp
  then have "length px \<le> 57600" using px(1) by linarith
  then have "length px < 2 ^ 32" by simp
  then have pv: "parse_synthetic_preview ((case synthetic_preview_payload frame of None \<Rightarrow> []
      | Some preview \<Rightarrow> preview) @ rest) =
      Some \<lparr>sv_width = pw, sv_height = ph, sv_pixels = px\<rparr>" for rest
    using parse_preview [of pw ph px rest] b px(1) by (simp add: p)
  obtain cfg where dec: "h264_decode d (f_bytes (fst (h264_encode e frame sid))) =
      (decoded_picture (is_key e frame)
        (frame_info_of frame (Some \<lparr>sv_width = pw, sv_height = ph, sv_pixels = px\<rparr>)),
       d\<lparr>hd_config := Some cfg\<rparr>)"
    using h264_decode_encoded [OF assms(2) dims assms(3)]
    by (auto simp: padding_of_def unescape_padded parse_frame [OF dims] pv frame_info_of_def)
  have "decoded_picture k
      (frame_info_of frame (Some \<lparr>sv_width = pw, sv_height = ph, sv_pixels = px\<rparr>)) =
      Inr (Some \<lparr>df_frame_id = ucast (cf_frame_id frame), df_width = pw, df_height = ph,
                 df_pixel_format = DecodedBgra8, df_pixels = px\<rparr>)" for k
    using pix by (simp add: decoded_picture_def frame_info_of_def MAX_SYNTHETIC_DECODED_PIXELS_def)
  with dec px show ?thesis by auto
qed

text \<open>A captured picture of one pixel, and an encoder that does not pad.\<close>

definition sample_picture :: capture_frame where
  "sample_picture =
     \<lparr>cf_frame_id = 1, cf_width = 1, cf_height = 1, cf_capture_time_micros = 5, cf_format = Bgra8,
      cf_storage = CpuBytes [10, 20, 30, 255]\<rparr>"

definition sample_encoder :: "nat \<Rightarrow> h264_encoder" where
  "sample_encoder target =
     \<lparr>en_config = h264_encoder_config_default\<lparr>ec_synthetic_payload_bytes := target\<rparr>,
      en_keyframe_requested = False\<rparr>"

lemma sample_encoder_quiet: "padding_quiet (sample_encoder 0) frame"
  by (simp add: padding_quiet_def sample_encoder_def)

theorem preview_arrives_witness:
  "\<exists>px cfg. h264_decode \<lparr>hd_config = None\<rparr>
      (f_bytes (fst (h264_encode (sample_encoder 0) sample_picture 9))) =
      (Inr (Some \<lparr>df_frame_id = 1, df_width = 1, df_height = 1, df_pixel_format = DecodedBgra8,
                  df_pixels = px\<rparr>), \<lparr>hd_config = Some cfg\<rparr>) \<and>
    pixel_at px 1 0 0 = [10, 20, 30, 255]"
proof -
  have complete: "complete_bgra sample_picture [10, 20, 30, 255]"
    by (simp add: complete_bgra_def sample_picture_def)
  have key: "is_key (sample_encoder 0) sample_picture \<or> hd_config \<lparr>hd_config = None\<rparr> \<noteq> None"
    by (simp add: is_key_def sample_picture_def)
  have dims: "preview_dimensions (cf_width sample_picture) (cf_height sample_picture) = (1, 1)"
    by (simp add: preview_dimensions_def sample_picture_def MAX_SYNTHETIC_PREVIEW_WIDTH_def
        MAX_SYNTHETIC_PREVIEW_HEIGHT_def)
  have "pixel_at [10, 20, 30, 255] 1 0 0 = [10, 20, 30, 255]" by (simp add: pixel_at_def)
  then show ?thesis
    using preview_arrives [OF complete sample_encoder_quiet key dims, of 9]
    by (auto simp: sample_picture_def)
qed

text \<open>
  Padding can hide a frame: when the padding of a later frame without pixels begins with a one,
  the zeros that end its metadata become a start code, and the decoder, which then finds no
  metadata, takes the frame for number 0 of the size it knows, although nothing was lost.
\<close>

theorem padding_hides_metadata:
  assumes "cf_storage frame = MetadataOnly" and "\<not> is_key e frame" and "hd_config d = Some cfg"
    and "256 \<le> unat (cf_height frame)" and "unat (cf_height frame) < 65536"
    and "h264_pad_byte frame (nals_length e frame) = 1"
    and "nals_length e frame < ec_synthetic_payload_bytes (en_config e)"
  shows "h264_decode d (f_bytes (fst (h264_encode e frame sid))) =
    (decoded_picture False \<lparr>si_frame_id = 0, si_width = ss_width cfg, si_height = ss_height cfg,
       si_preview = None\<rparr>, d\<lparr>hd_config := Some cfg\<rparr>)"
proof -
  let ?h = "unat (cf_height frame)"
  define p where "p = SYNTHETIC_FRAME_MAGIC @ to_le 4 (ucast (cf_frame_id frame) :: u32) @
    to_le 4 (cf_width frame) @ [of_nat ?h]"
  define b :: u8 where "b = of_nat (?h div 256)"
  define u where "u = ENC_NAL_NON_IDR_SLICE # annex_b_escape_payload (p @ [b])"
  obtain k where k: "padding_of e frame = 1 # ramp 2 k"
    using assms(6,7) by (cases "ec_synthetic_payload_bytes (en_config e) - nals_length e frame")
      (auto simp: padding_of_def ramp_Suc)
  have "unat b = ?h div 256" unfolding b_def using assms(5) by (subst of_nat_unat_le) simp_all
  moreover have "1 \<le> ?h div 256" using assms(4) by (simp add: Suc_le_eq div_greater_zero_iff)
  ultimately have b: "b \<noteq> 0" by auto
  have "?h div 256 div 256 = 0" using assms(5) by (simp add: div_mult2_eq [symmetric])
  then have le: "to_le 4 (cf_height frame) = [of_nat ?h, b, 0, 0]"
    unfolding to_le_4 b_def by simp
  have "synthetic_preview_payload frame = None" by (simp add: synthetic_preview_payload_def assms(1))
  then have payload: "synthetic_frame_payload frame = p @ [b, 0, 0]"
    by (simp add: synthetic_frame_payload_def le p_def)
  have bytes: "f_bytes (fst (h264_encode e frame sid)) =
      ANNEX_B_START_CODE @ u @ [0, 0, 1] @ ramp 2 k"
    using assms(2)
    by (simp add: encoded_bytes encode_nals_def append_nal_def payload escape_two_zeros [OF b] u_def k)
  have "annex_b_nals (f_bytes (fst (h264_encode e frame sid))) = [u, ramp 2 k]"
    unfolding bytes
    by (rule nals_short_code)
      (use escape_two_zeros [OF b, of p] in \<open>auto simp: u_def calm_escape ENC_NAL_NON_IDR_SLICE_def
        intro: ramp_calm\<close>)
  moreover have "parse_synthetic_frame (annex_b_unescape_payload (annex_b_escape_payload (p @ [b]))) = None"
    using unescape_escape [of "p @ [b]" "[]"]
    by (simp add: parse_synthetic_frame_def get_range_def p_def)
  moreover have "scan_nal (ramp 2 k) s = s" for s
    by (cases k) (simp_all add: ramp_Suc Let_def DEC_NAL_SPS_def DEC_NAL_PPS_def
        DEC_NAL_IDR_SLICE_def DEC_NAL_NON_IDR_SLICE_def)
  ultimately have "scan_nals d (f_bytes (fst (h264_encode e frame sid))) =
      \<lparr>ns_config = Some cfg, ns_saw_sps = False, ns_saw_pps = False, ns_saw_idr = False,
       ns_saw_slice = True, ns_frame_info = None\<rparr>"
    by (simp add: scan_nals_def u_def nal_types dec_nal_distinct or_else_def Let_def assms(3))
  moreover have "f_bytes (fst (h264_encode e frame sid)) \<noteq> []"
    by (simp add: bytes ANNEX_B_START_CODE_def)
  ultimately show ?thesis by (simp add: h264_decode_def Let_def)
qed

definition sample_metadata :: capture_frame where
  "sample_metadata = metadata_only 235 1280 720 5"

theorem padding_hides_metadata_witness:
  "h264_decode \<lparr>hd_config = Some \<lparr>ss_width = 1280, ss_height = 720\<rparr>\<rparr>
      (f_bytes (fst (h264_encode (sample_encoder 512) sample_metadata 9))) =
    (decoded_picture False \<lparr>si_frame_id = 0, si_width = 1280, si_height = 720, si_preview = None\<rparr>,
     \<lparr>hd_config = Some \<lparr>ss_width = 1280, ss_height = 720\<rparr>\<rparr>)"
proof -
  have key: "\<not> is_key (sample_encoder 512) sample_metadata"
    by (simp add: is_key_def sample_encoder_def sample_metadata_def metadata_only_def)
  have "annex_b_escape_payload (synthetic_frame_payload sample_metadata) =
      [0x54, 0x56, 0x46, 0x31, 235, 0, 0, 3, 0, 0, 5, 0, 0, 208, 2, 0, 0]"
    by (simp add: annex_b_escape_payload_def synthetic_frame_payload_def to_le_4
        synthetic_preview_payload_def sample_metadata_def metadata_only_def
        SYNTHETIC_FRAME_MAGIC_def sat_add_def word_le_nat_alt)
  then have len: "nals_length (sample_encoder 512) sample_metadata = 22"
    by (simp add: nals_length_def key encode_nals_def append_nal_def ANNEX_B_START_CODE_def)
  have meta: "cf_storage sample_metadata = MetadataOnly" "256 \<le> unat (cf_height sample_metadata)"
    "unat (cf_height sample_metadata) < 65536"
    by (simp_all add: sample_metadata_def metadata_only_def)
  have byte: "h264_pad_byte sample_metadata (nals_length (sample_encoder 512) sample_metadata) = 1"
    unfolding len by (simp add: h264_pad_byte_def sample_metadata_def metadata_only_def)
  have room: "nals_length (sample_encoder 512) sample_metadata <
      ec_synthetic_payload_bytes (en_config (sample_encoder 512))"
    unfolding len by (simp add: sample_encoder_def)
  show ?thesis
    using padding_hides_metadata [OF meta(1) key _ meta(2,3) byte room,
        of "\<lparr>hd_config = Some \<lparr>ss_width = 1280, ss_height = 720\<rparr>\<rparr>" _ 9]
    by simp
qed

lemma panic_size:
  "2 ^ 63 \<le> w * h * 4 \<Longrightarrow> 2 ^ 63 - 1 < min (min (w * h) (2 ^ 64 - 1) * 4) (2 ^ 64 - 1 :: nat)"
  for w h :: nat
proof -
  have "2 ^ 63 - 1 < min (min p (2 ^ 64 - 1) * 4) (2 ^ 64 - 1 :: nat)" if "2 ^ 63 \<le> p * 4" for p :: nat
    using that by (simp add: min_def)
  then show "2 ^ 63 \<le> w * h * 4 \<Longrightarrow> ?thesis" .
qed

text \<open>
  C40. A picture size makes the decoder panic: a stream of a few bytes that declares a picture of
  \<open>2 ^ 63\<close> bytes or more, without a preview, is not refused but ends in a capacity overflow, since
  the picture is drawn before its size is checked.
\<close>

theorem oversized_picture_panics:
  assumes "cf_storage frame = MetadataOnly" and "padding_quiet e frame"
    and "is_key e frame \<or> hd_config d \<noteq> None"
    and "2 ^ 63 \<le> unat (cf_width frame) * unat (cf_height frame) * 4"
  shows "fst (h264_decode d (f_bytes (fst (h264_encode e frame sid)))) = Inl Panic"
proof -
  let ?w = "cf_width frame" and ?h = "cf_height frame"
  have pos: "0 < unat ?w" "0 < unat ?h" using assms(4) by (auto intro: Nat.gr0I)
  then have dims: "?w \<noteq> 0" "?h \<noteq> 0" by (simp_all add: unat_gt_0)
  have "max ?w 1 = ?w" "max ?h 1 = ?h"
    using pos by (simp_all add: max_absorb1 word_le_nat_alt Suc_le_eq)
  moreover have "2 ^ 63 - 1 < min (min (unat ?w * unat ?h) (2 ^ 64 - 1) * 4) (2 ^ 64 - 1)"
    using panic_size [OF assms(4)] .
  ultimately have "decoded_picture k (frame_info_of frame None) = Inl Panic" for k
    by (simp add: decoded_picture_def frame_info_of_def synthetic_bgra_pixels_def Let_def
        del: min_less_iff_conj)
  with metadata_arrives [OF assms(1,2) dims assms(3), of sid] show ?thesis by auto
qed

theorem oversized_picture_panics_witness:
  "fst (h264_decode \<lparr>hd_config = None\<rparr>
     (f_bytes (fst (h264_encode (sample_encoder 0) (metadata_only 1 4294967295 4294967295 5) 9)))) =
   Inl Panic"
  by (rule oversized_picture_panics [OF _ sample_encoder_quiet])
    (simp_all add: metadata_only_def is_key_def)

end
