(* ===== verification/Pipeline.thy ===== *)
theory Pipeline
  imports Reassembly Audio H264_Props
begin

text \<open>
  From one client to another: what a broadcaster encodes and packetizes and a viewer reassembles and
  decodes, over a network that reorders packets and mixes in those of other frames. On its way a
  packet gets time stamps, by the broadcaster when it sends it and by the relay; the lemmas show
  that reassembly depends on nothing else that they change.
\<close>

section \<open>Time stamps\<close>

definition unstamped_header :: "media_packet_header \<Rightarrow> media_packet_header" where
  "unstamped_header h =
     h\<lparr>h_sender_send_time_micros := 0, h_server_receive_time_micros := 0, h_server_send_time_micros := 0\<rparr>"

definition unstamped :: "media_packet \<Rightarrow> media_packet" where
  "unstamped p = p\<lparr>p_header := unstamped_header (p_header p)\<rparr>"

definition unstamped_frame :: "encoded_frame \<Rightarrow> encoded_frame" where
  "unstamped_frame f =
     f\<lparr>f_sender_send_time_micros := 0, f_server_receive_time_micros := 0, f_server_send_time_micros := 0\<rparr>"

definition unstamped_reassembly :: "reassembly \<Rightarrow> reassembly" where
  "unstamped_reassembly r = r\<lparr>r_send := 0, r_server_receive := 0, r_server_send := 0\<rparr>"

lemma unstamped_sel [simp]:
  "h_fragment_index (unstamped_header h) = h_fragment_index h"
  "h_fragment_count (unstamped_header h) = h_fragment_count h"
  "h_frame_id (unstamped_header h) = h_frame_id h"
  "h_room_stream_id (unstamped_header h) = h_room_stream_id h"
  "h_codec (unstamped_header h) = h_codec h"
  "h_packet_type (unstamped_header h) = h_packet_type h"
  "h_layer (unstamped_header h) = h_layer h"
  "h_flags (unstamped_header h) = h_flags h"
  "h_media_timestamp (unstamped_header h) = h_media_timestamp h"
  "h_sender_capture_time_micros (unstamped_header h) = h_sender_capture_time_micros h"
  "h_sender_clock_offset_micros (unstamped_header h) = h_sender_clock_offset_micros h"
  "h_sender_encode_done_time_micros (unstamped_header h) = h_sender_encode_done_time_micros h"
  "h_sender_send_time_micros (unstamped_header h) = 0"
  "h_server_receive_time_micros (unstamped_header h) = 0"
  "h_server_send_time_micros (unstamped_header h) = 0"
  "header_validate (unstamped_header h) = header_validate h"
  "metadata_mismatch first k (unstamped_header h) = metadata_mismatch first k h"
  "metadata_mismatch (unstamped_header first) k h = metadata_mismatch first k h"
  by (simp_all add: unstamped_header_def header_validate_def metadata_mismatch_def)

lemma unstamped_packet_sel [simp]:
  "p_header (unstamped p) = unstamped_header (p_header p)" "p_payload (unstamped p) = p_payload p"
  by (simp_all add: unstamped_def)

lemma unstamped_reassembly_sel [simp]:
  "r_encode_done (unstamped_reassembly r) = r_encode_done r"
  "r_send (unstamped_reassembly r) = 0" "r_server_receive (unstamped_reassembly r) = 0"
  "r_server_send (unstamped_reassembly r) = 0" "r_bytes (unstamped_reassembly r) = r_bytes r"
  "r_previous (unstamped_reassembly r) = r_previous r"
  by (simp_all add: unstamped_reassembly_def)

lemma min_nonzero_0 [simp]: "min_nonzero 0 0 = 0"
  by (simp add: min_nonzero_def)

lemma reassemble_loop_unstamped:
  "reassemble_loop (unstamped_header first) k i (unstamped_reassembly r) (map unstamped ps) =
   map_sum id unstamped_reassembly (reassemble_loop first k i r ps)"
proof (induction ps arbitrary: i r)
  case (Cons p ps)
  let ?h = "p_header p"
  let ?r = "\<lparr>r_encode_done = max (r_encode_done r) (h_sender_encode_done_time_micros ?h),
    r_send = max (r_send r) (h_sender_send_time_micros ?h),
    r_server_receive = min_nonzero (r_server_receive r) (h_server_receive_time_micros ?h),
    r_server_send = max (r_server_send r) (h_server_send_time_micros ?h),
    r_bytes = r_bytes r @ p_payload p, r_previous = Some (of_nat i)\<rparr>"
  show ?case
    using Cons.IH [of "i + 1" ?r] by (simp add: Let_def unstamped_reassembly_def)
qed simp

lemma validate_packets_unstamped: "validate_packets (map unstamped ps) = validate_packets ps"
  by (induction ps) simp_all

lemma insort_key_map: "insort_key f (g x) (map g xs) = map g (insort_key (f \<circ> g) x xs)"
  by (induction xs) simp_all

lemma sort_key_map: "sort_key f (map g xs) = map g (sort_key (f \<circ> g) xs)"
  by (induction xs) (simp_all add: insort_key_map [unfolded comp_def] comp_def)

lemma reassemble_sorted_unstamped:
  assumes "ps \<noteq> []"
  shows "reassemble_sorted (map unstamped ps) = map_sum id unstamped_frame (reassemble_sorted ps)"
proof -
  let ?first = "p_header (hd ps)" and ?k = "flags_contains (h_flags (p_header (hd ps))) KEYFRAME"
  have start: "reassembly_start (unstamped_header ?first) = unstamped_reassembly (reassembly_start ?first)"
    by (simp add: reassembly_start_def unstamped_reassembly_def)
  have hd: "p_header (hd (map unstamped ps)) = unstamped_header ?first" using assms by (simp add: hd_map)
  show ?thesis
    unfolding reassemble_sorted_def hd
    by (cases "reassemble_loop ?first ?k 0 (reassembly_start ?first) ps")
      (simp_all add: Let_def start reassemble_loop_unstamped unstamped_frame_def)
qed

text \<open>Reassembly of stamped packets gives the frame of the unstamped ones, up to its stamps.\<close>

lemma reassemble_frame_unstamped:
  "reassemble_frame (map unstamped ps) = map_sum id unstamped_frame (reassemble_frame ps)"
proof (cases "ps = []")
  case False
  have key: "(\<lambda>p. h_fragment_index (p_header p)) \<circ> unstamped = (\<lambda>p. h_fragment_index (p_header p))"
    by (rule ext) simp
  have "sort_key (\<lambda>p. h_fragment_index (p_header p)) ps \<noteq> []"
    using False by (metis length_0_conv length_sort)
  then show ?thesis
    using False by (cases "validate_packets ps")
      (simp_all add: reassemble_frame_def validate_packets_unstamped sort_key_map key
        reassemble_sorted_unstamped)
qed (simp add: reassemble_frame_def)

section \<open>Delivery\<close>

text \<open>
  The packets of a frame of the given id among those received, and that they are those sent.
\<close>

definition received_of :: "u32 \<Rightarrow> (media_packet \<times> u64) list \<Rightarrow> media_packet list" where
  "received_of k ops = filter (\<lambda>p. h_frame_id (p_header p) = k) (map fst ops)"

lemma stamped_packets_deliver:
  assumes "packetize_frame_with_type frame ty seq mp = Inr ps" and "ty = Video \<or> ty = Audio"
    and "unstamped_frame frame = frame"
    and "mset (map unstamped (received_of (f_frame_id frame) ops @ [p])) = mset ps"
    and "bt_get (rb_pending r) (f_frame_id frame) = None"
    and "roomy r (dom (bt_get (rb_pending r)) \<union> packet_frame ` set ops \<union> {f_frame_id frame})"
    and "\<forall>op \<in> set ops.
      \<not> frame_is_older_than_window (f_frame_id frame) (packet_frame op) (rb_max_frame_age_frames r)"
  shows "\<exists>f d ms. unstamped_frame f = frame \<and> fst (push_with_stats_at p t (push_all ops r)) =
    Inr \<lparr>ro_frame = Some f, ro_dropped_frames = d, ro_reassembly_ms = ms\<rparr>"
proof -
  let ?k = "f_frame_id frame" and ?n = "fragment_total frame mp"
  let ?f = "fragment frame ty seq mp ?n" and ?idx = "\<lambda>p. h_fragment_index (p_header p)"
  let ?own = "received_of ?k ops"
  have n: "?n \<le> 65535" and ps: "ps = map ?f [0..<?n]"
    using assms(1) unfolding packetize_frame_with_type_Inr by auto
  have hdr: "h_frame_id (p_header q) = ?k \<and> unat (h_fragment_count (p_header q)) = ?n"
    if q: "q \<in> set ps" for q
  proof -
    from q obtain i where "q = ?f i" unfolding ps by auto
    then show ?thesis by (simp only: fragment_header_sel of_nat_u16_eq [OF n])
  qed
  have set: "set (map unstamped (?own @ [p])) = set ps" using mset_eq_setD [OF assms(4)] .
  have len: "Suc (length ?own) = ?n" using mset_eq_length [OF assms(4)] by (simp add: ps)
  have own: "h_frame_id (p_header q) = ?k \<and> unat (h_fragment_count (p_header q)) = Suc (length ?own)"
    if "q \<in> set (?own @ [p])" for q
  proof -
    have "unstamped q \<in> set ps" using that set by (metis image_eqI set_map)
    from hdr [OF this] show ?thesis by (simp add: len)
  qed
  have "map ?idx ps = map of_nat [0..<?n]" unfolding ps map_map comp_def fragment_header_sel ..
  then have "distinct (map ?idx ps)" using distinct_of_nat_u16 [OF n] by (simp only:)
  moreover have "mset (map ?idx (map unstamped (?own @ [p]))) = mset (map ?idx ps)"
    using assms(4) by (simp only: mset_map)
  ultimately have "distinct (map ?idx (map unstamped (?own @ [p])))"
    using mset_eq_imp_distinct_iff by blast
  moreover have "map ?idx (map unstamped (?own @ [p])) = map ?idx (?own @ [p])" by simp
  ultimately have dist: "distinct (map ?idx (?own @ [p]))" by (simp only:)
  have "reassemble_frame (map unstamped (?own @ [p])) = Inr frame"
    by (rule reassemble_packetized [OF assms(1,2,4)])
  then obtain f where f: "reassemble_frame (?own @ [p]) = Inr f" and un: "unstamped_frame f = frame"
    unfolding reassemble_frame_unstamped by (cases "reassemble_frame (?own @ [p])") auto
  show ?thesis
    using push_all_delivers [of ?k ops p f, folded received_of_def, OF f _ dist _ assms(5-7)] own un
    by auto
qed

section \<open>Properties\<close>

text \<open>
  C24. Voice arrives: samples that the broadcaster encodes and cuts into datagrams are, when the last
  of the datagrams reaches the viewer's jitter buffer, decoded to exactly those samples, in whatever
  order the datagrams come, with whatever time stamps they were given on the way, and between
  whatever packets of other frames, as long as the buffer has room for the frames in flight.
\<close>

theorem voice_end_to_end:
  assumes "encode_pcm_i16 cfg i t rate channels samples sid = Inr frame"
    and "packetize_frame_with_type_for_datagram_target
           (frame\<lparr>f_sender_clock_offset_micros := off, f_sender_encode_done_time_micros := done_at\<rparr>)
           Audio seq target = Inr ps"
    and "mset (map unstamped (received_of i ops @ [p])) = mset ps"
    and "bt_get (rb_pending r) i = None"
    and "roomy r (dom (bt_get (rb_pending r)) \<union> packet_frame ` set ops \<union> {i})"
    and "\<forall>op \<in> set ops. \<not> frame_is_older_than_window i (packet_frame op) (rb_max_frame_age_frames r)"
  shows "\<exists>f d ms. fst (push_with_stats_at p now (push_all ops r)) =
      Inr \<lparr>ro_frame = Some f, ro_dropped_frames = d, ro_reassembly_ms = ms\<rparr> \<and>
    opus_decode (f_bytes f) =
      Inr (Some \<lparr>da_frame_id = i, da_sample_rate_hz = rate, da_channel_count = channels,
        da_sample_count = of_nat (length samples div unat channels), da_capture_time_micros = t,
        da_pcm = samples\<rparr>)"
proof -
  let ?frame = "frame\<lparr>f_sender_clock_offset_micros := off, f_sender_encode_done_time_micros := done_at\<rparr>"
  have frame: "f_frame_id ?frame = i" "unstamped_frame ?frame = ?frame"
    using assms(1) by (auto simp: encode_pcm_Inr opus_frame_def unstamped_frame_def)
  have "packetize_frame_with_type ?frame Audio seq (target - MEDIA_PACKET_HEADER_LEN) = Inr ps"
    using assms(2) by (simp add: packetize_frame_with_type_for_datagram_target_def split: if_splits)
  from stamped_packets_deliver [OF this _ frame(2), unfolded frame(1), OF _ assms(3-6)]
  obtain f d ms where f: "unstamped_frame f = ?frame"
    and push: "fst (push_with_stats_at p now (push_all ops r)) =
      Inr \<lparr>ro_frame = Some f, ro_dropped_frames = d, ro_reassembly_ms = ms\<rparr>" by blast
  have "f_bytes (unstamped_frame f) = f_bytes frame" by (simp add: f)
  then have "f_bytes f = f_bytes frame" by (simp add: unstamped_frame_def)
  with push decode_encoded_pcm(1) [OF assms(1)] show ?thesis by auto
qed

text \<open>Two datagrams that arrive in the wrong order, with the time stamps of the way.\<close>

definition stamped :: "u64 \<Rightarrow> media_packet \<Rightarrow> media_packet" where
  "stamped t p = p\<lparr>p_header := (p_header p)\<lparr>h_sender_send_time_micros := t,
     h_server_receive_time_micros := t + 5, h_server_send_time_micros := t + 6\<rparr>\<rparr>"

lemma stamped_sel [simp]:
  "h_frame_id (p_header (stamped t p)) = h_frame_id (p_header p)"
  "unstamped (stamped t p) = unstamped p"
  by (simp_all add: stamped_def unstamped_def unstamped_header_def)

lemma unstamped_fragment:
  "unstamped_frame frame = frame \<Longrightarrow> unstamped (fragment frame ty seq mp n i) = fragment frame ty seq mp n i"
proof -
  assume frame: "unstamped_frame frame = frame"
  have "f_sender_send_time_micros (unstamped_frame frame) = 0"
    "f_server_receive_time_micros (unstamped_frame frame) = 0"
    "f_server_send_time_micros (unstamped_frame frame) = 0"
    by (simp_all add: unstamped_frame_def)
  then show ?thesis unfolding frame
    by (simp add: unstamped_def unstamped_header_def fragment_def fragment_header_def Let_def)
qed

lemma packetized_two:
  assumes "ty = Video \<or> ty = Audio" and "0 < mp" "mp \<le> 65535"
    and "mp < length (f_bytes frame)" and "length (f_bytes frame) \<le> 2 * mp"
  shows "packetize_frame_with_type frame ty seq mp =
    Inr [fragment frame ty seq mp 2 0, fragment frame ty seq mp 2 1]"
proof -
  have "div_ceil (length (f_bytes frame)) mp = 2"
  proof (rule antisym)
    have "(div_ceil (length (f_bytes frame)) mp - 1) * mp < 2 * mp"
      using div_ceil_pred_less [of mp "length (f_bytes frame)"] assms(2,4,5) by linarith
    then show "div_ceil (length (f_bytes frame)) mp \<le> 2" using assms(2) by simp
    have "1 * mp < div_ceil (length (f_bytes frame)) mp * mp"
      using div_ceil_mult_ge [OF assms(2), of "length (f_bytes frame)"] assms(4) by linarith
    then show "2 \<le> div_ceil (length (f_bytes frame)) mp" by simp
  qed
  then have total: "fragment_total frame mp = 2" by simp
  have two: "[0..<2] = [0 :: nat, 1]" by (simp add: upt_rec)
  show ?thesis unfolding packetize_frame_with_type_Inr total two using assms by auto
qed

lemma fresh_buffer:
  "bt_get (rb_pending (with_jitter_budget 4 64 150 20)) i = None"
  "roomy (with_jitter_budget 4 64 150 20)
     (dom (bt_get (rb_pending (with_jitter_budget 4 64 150 20))) \<union> packet_frame ` {(p, t)} \<union>
      {h_frame_id (p_header p)})"
  "\<not> frame_is_older_than_window i i n"
  by (simp_all add: with_jitter_budget_def Let_def roomy_def max_def word_le_nat_alt
      frame_is_older_than_window_def)

theorem voice_end_to_end_witness:
  "\<exists>p q f d ms. fst (push_with_stats_at p 900 (push_all [(q, 800)] (with_jitter_budget 4 64 150 20))) =
      Inr \<lparr>ro_frame = Some f, ro_dropped_frames = d, ro_reassembly_ms = ms\<rparr> \<and>
    opus_decode (f_bytes f) =
      Inr (Some \<lparr>da_frame_id = 7, da_sample_rate_hz = 48000, da_channel_count = 2,
        da_sample_count = 2, da_capture_time_micros = 5, da_pcm = [1, 2, 3, 65535]\<rparr>)"
proof -
  obtain frame where enc:
    "encode_pcm_i16 opus_config_default 7 5 48000 2 [1, 2, 3, 65535] 9 = Inr frame"
    using stereo_accepted by blast
  let ?frame = "frame\<lparr>f_sender_clock_offset_micros := 3, f_sender_encode_done_time_micros := 6\<rparr>"
  let ?f = "fragment ?frame Audio 40 50 2"
  let ?p = "stamped 700 (?f 0)" and ?q = "stamped 710 (?f 1)"
  have len: "length (f_bytes ?frame) = 96" and un: "unstamped_frame ?frame = ?frame"
    and fid: "f_frame_id ?frame = 7"
    using enc by (simp_all add: encode_pcm_Inr opus_frame_def pad_loop_eq opus_config_default_def
        unstamped_frame_def PCM_PAYLOAD_MAGIC_def)
  have ps: "packetize_frame_with_type_for_datagram_target ?frame Audio 40 131 = Inr [?f 0, ?f 1]"
    using packetized_two [of Audio 50 ?frame 40] len
    by (simp add: packetize_frame_with_type_for_datagram_target_def MEDIA_PACKET_HEADER_LEN_def)
  have id: "h_frame_id (p_header (?f i)) = 7" for i unfolding fragment_header_sel by (rule fid)
  have own: "received_of 7 [(?q, 800)] = [?q]" by (simp add: received_of_def id)
  have mset: "mset (map unstamped (received_of 7 [(?q, 800)] @ [?p])) = mset [?f 0, ?f 1]"
    unfolding own by (simp add: unstamped_fragment [OF un] add_mset_commute)
  show ?thesis
    using voice_end_to_end [OF enc ps mset fresh_buffer(1), of 900] fresh_buffer(2) [of ?q 800] id
    by (fastforce simp: fresh_buffer(3))
qed

text \<open>
  C23. Pictures arrive: for a complete picture that is captured, encoded and cut into datagrams, the
  viewer decodes, when the last of the datagrams reaches its jitter buffer, a picture with the same
  id in which every pixel is the captured one at the scaled position, in whatever order the datagrams
  come, with whatever time stamps, and between packets of other frames. The picture is a keyframe or
  the decoder has seen a configuration; the padding that the encoder adds begins with a byte above
  one, so that it makes no start code (\<open>padding_quiet\<close>); no packet that comes meanwhile leaves the
  frame behind the age window, and the buffer has room for every frame id that it has seen.
\<close>

theorem screen_end_to_end:
  assumes "complete_bgra captured source" and "padding_quiet e captured"
    and "is_key e captured \<or> hd_config decoder \<noteq> None"
    and "preview_dimensions (cf_width captured) (cf_height captured) = (pw, ph)"
    and "packetize_frame_for_datagram_target
           ((fst (h264_encode e captured sid))
              \<lparr>f_sender_clock_offset_micros := off, f_sender_encode_done_time_micros := done_at\<rparr>)
           seq target = Inr ps"
    and "mset (map unstamped (received_of (ucast (cf_frame_id captured)) ops @ [p])) = mset ps"
    and "bt_get (rb_pending r) (ucast (cf_frame_id captured)) = None"
    and "roomy r (dom (bt_get (rb_pending r)) \<union> packet_frame ` set ops \<union> {ucast (cf_frame_id captured)})"
    and "\<forall>op \<in> set ops. \<not> frame_is_older_than_window (ucast (cf_frame_id captured)) (packet_frame op)
           (rb_max_frame_age_frames r)"
  shows "\<exists>f d ms px. fst (push_with_stats_at p now (push_all ops r)) =
      Inr \<lparr>ro_frame = Some f, ro_dropped_frames = d, ro_reassembly_ms = ms\<rparr> \<and>
    fst (h264_decode decoder (f_bytes f)) =
      Inr (Some \<lparr>df_frame_id = ucast (cf_frame_id captured), df_width = pw, df_height = ph,
                  df_pixel_format = DecodedBgra8, df_pixels = px\<rparr>) \<and>
    (\<forall>y < unat ph. \<forall>x < unat pw. pixel_at px pw y x =
       pixel_at source (cf_width captured) (y * unat (cf_height captured) div unat ph)
         (x * unat (cf_width captured) div unat pw))"
proof -
  let ?frame = "(fst (h264_encode e captured sid))
    \<lparr>f_sender_clock_offset_micros := off, f_sender_encode_done_time_micros := done_at\<rparr>"
  have frame: "f_frame_id ?frame = ucast (cf_frame_id captured)" "unstamped_frame ?frame = ?frame"
    by (simp_all add: h264_encode_def Let_def unstamped_frame_def)
  have "packetize_frame_with_type ?frame Video seq (target - MEDIA_PACKET_HEADER_LEN) = Inr ps"
    using assms(5) by (simp add: packetize_frame_for_datagram_target_def
        packetize_frame_with_type_for_datagram_target_def split: if_splits)
  from stamped_packets_deliver [OF this _ frame(2), unfolded frame(1), OF _ assms(6-9)]
  obtain f d ms where f: "unstamped_frame f = ?frame"
    and push: "fst (push_with_stats_at p now (push_all ops r)) =
      Inr \<lparr>ro_frame = Some f, ro_dropped_frames = d, ro_reassembly_ms = ms\<rparr>" by blast
  have "f_bytes (unstamped_frame f) = f_bytes (fst (h264_encode e captured sid))" by (simp add: f)
  then have bytes: "f_bytes f = f_bytes (fst (h264_encode e captured sid))"
    by (simp add: unstamped_frame_def)
  obtain px cfg where px: "h264_decode decoder (f_bytes f) =
      (Inr (Some \<lparr>df_frame_id = ucast (cf_frame_id captured), df_width = pw, df_height = ph,
                  df_pixel_format = DecodedBgra8, df_pixels = px\<rparr>), decoder\<lparr>hd_config := Some cfg\<rparr>)"
    and at: "\<forall>y < unat ph. \<forall>x < unat pw. pixel_at px pw y x =
       pixel_at source (cf_width captured) (y * unat (cf_height captured) div unat ph)
         (x * unat (cf_width captured) div unat pw)"
    using preview_arrives [OF assms(1-4), of sid] unfolding bytes by blast
  show ?thesis by (intro exI conjI) (rule push, simp only: px fst_conv, rule at)
qed

lemma length_escape_loop: "length (escape_loop z bs) \<le> 2 * length bs"
  by (induction z bs rule: escape_loop.induct) (auto intro: le_trans)

theorem screen_end_to_end_witness:
  "\<exists>p q f d ms px. fst (push_with_stats_at p 900 (push_all [(q, 800)] (with_jitter_budget 4 64 150 20))) =
      Inr \<lparr>ro_frame = Some f, ro_dropped_frames = d, ro_reassembly_ms = ms\<rparr> \<and>
    fst (h264_decode \<lparr>hd_config = None\<rparr> (f_bytes f)) =
      Inr (Some \<lparr>df_frame_id = 1, df_width = 1, df_height = 1, df_pixel_format = DecodedBgra8,
                  df_pixels = px\<rparr>) \<and>
    pixel_at px 1 0 0 = [10, 20, 30, 255]"
proof -
  have complete: "complete_bgra sample_picture [10, 20, 30, 255]"
    by (simp add: complete_bgra_def sample_picture_def)
  have key: "is_key (sample_encoder 0) sample_picture \<or> hd_config \<lparr>hd_config = None\<rparr> \<noteq> None"
    by (simp add: is_key_def sample_picture_def)
  have dims: "preview_dimensions (cf_width sample_picture) (cf_height sample_picture) = (1, 1)"
    by (simp add: preview_dimensions_def sample_picture_def MAX_SYNTHETIC_PREVIEW_WIDTH_def
        MAX_SYNTHETIC_PREVIEW_HEIGHT_def)
  let ?frame = "(fst (h264_encode (sample_encoder 0) sample_picture 9))
    \<lparr>f_sender_clock_offset_micros := 3, f_sender_encode_done_time_micros := 6\<rparr>"
  let ?n = "length (f_bytes ?frame) - 1" and ?f = "fragment ?frame Video 40 (length (f_bytes ?frame) - 1) 2"
  let ?p = "stamped 700 (?f 0)" and ?q = "stamped 710 (?f 1)"
  have bytes: "f_bytes ?frame = encode_nals 30 True sample_picture"
    by (simp add: h264_encode_def Let_def sample_encoder_def sample_picture_def pad_loop_eq
        h264_encoder_config_default_def)
  obtain px where "synthetic_preview_payload sample_picture =
      Some (SYNTHETIC_PREVIEW_MAGIC @ to_le 4 (1 :: u32) @ to_le 4 (1 :: u32) @
        to_le 4 (of_nat (length px) :: u32) @ px)" "length px = unat (1 :: u32) * unat (1 :: u32) * 4"
    by (rule complete_preview [OF complete dims])
  then have "length (synthetic_frame_payload sample_picture) \<le> 40"
    by (simp add: synthetic_frame_payload_def SYNTHETIC_FRAME_MAGIC_def SYNTHETIC_PREVIEW_MAGIC_def)
  then have "length (annex_b_escape_payload (synthetic_frame_payload sample_picture)) \<le> 80"
    using length_escape_loop [of 0 "synthetic_frame_payload sample_picture"]
    unfolding annex_b_escape_payload_def by linarith
  moreover have "length (annex_b_escape_payload (synthetic_sps_payload 1 1 30)) \<le> 28"
    using length_escape_loop [of 0 "synthetic_sps_payload 1 1 30"]
    by (simp add: annex_b_escape_payload_def synthetic_sps_payload_def SYNTHETIC_SPS_MAGIC_def)
  moreover have "length (annex_b_escape_payload SYNTHETIC_PPS_MAGIC) \<le> 8"
    using length_escape_loop [of 0 SYNTHETIC_PPS_MAGIC]
    by (simp add: annex_b_escape_payload_def SYNTHETIC_PPS_MAGIC_def)
  ultimately have len: "2 \<le> length (f_bytes ?frame)" "length (f_bytes ?frame) \<le> 1000"
    unfolding bytes
    by (simp_all add: encode_nals_def append_nal_def ANNEX_B_START_CODE_def sample_picture_def)
  have un: "unstamped_frame ?frame = ?frame" and fid: "f_frame_id ?frame = 1"
    by (simp_all add: h264_encode_def Let_def unstamped_frame_def sample_picture_def)
  have ps: "packetize_frame_for_datagram_target ?frame 40 (?n + 81) = Inr [?f 0, ?f 1]"
    using packetized_two [of Video ?n ?frame 40] len
    by (simp add: packetize_frame_for_datagram_target_def MEDIA_PACKET_HEADER_LEN_def
        packetize_frame_with_type_for_datagram_target_def)
  have id: "h_frame_id (p_header (fragment ?frame ty s m k i)) = 1" for ty s m k i
    unfolding fragment_header_sel by (rule fid)
  have one: "ucast (cf_frame_id sample_picture) = (1 :: u32)" by (simp add: sample_picture_def)
  have own: "received_of 1 [(?q, 800)] = [?q]" by (simp add: received_of_def id)
  have mset: "mset (map unstamped (received_of 1 [(?q, 800)] @ [?p])) = mset [?f 0, ?f 1]"
    unfolding own by (simp add: unstamped_fragment [OF un] add_mset_commute)
  have at: "pixel_at [10, 20, 30, 255] 1 0 0 = [10, 20, 30, 255]" by (simp add: pixel_at_def)
  show ?thesis
    using screen_end_to_end [OF complete sample_encoder_quiet key dims ps, unfolded one, OF mset
        fresh_buffer(1), of 900] fresh_buffer(2) [of ?q 800] id at
    by (fastforce simp: fresh_buffer(3) sample_picture_def)
qed

end
