(* ===== verification/Video.thy ===== *)
theory Video
  imports H264_Props
begin

text \<open>
  The video pipeline around the synthetic codec: the choice of a backend and the encoder and decoder
  that dispatch to it (\<open>encode/h264.rs\<close>, \<open>decode/h264.rs\<close>), and playback of decoded pictures
  (\<open>playback/mod.rs\<close>). The hardware probe of Media Foundation, the window of the operating system and
  the clock are arguments: what they return. The result: every picture the decoder emits can be
  played.
\<close>

section \<open>Backends\<close>

datatype h264_backend = SyntheticBackend | MediaFoundationBackend

record h264_backend_status =
  bs_backend :: h264_backend
  bs_available :: bool
  bs_hardware :: bool
  bs_detail :: rstring

fun backend_name :: "h264_backend \<Rightarrow> rstring" where
  "backend_name SyntheticBackend = lit ''synthetic''"
| "backend_name MediaFoundationBackend = lit ''media-foundation''"

text \<open>\<open>probe\<close> is the number of hardware transforms the operating system lists, or its error.\<close>

definition media_foundation_encoder_status :: "rstring + nat \<Rightarrow> h264_backend_status" where
  "media_foundation_encoder_status probe =
     (case probe of
        Inr n \<Rightarrow>
          if 0 < n
          then \<lparr>bs_backend = MediaFoundationBackend, bs_available = True, bs_hardware = True,
                bs_detail = dec n @ lit '' hardware H.264 encoder MFT(s) available''\<rparr>
          else \<lparr>bs_backend = MediaFoundationBackend, bs_available = False, bs_hardware = True,
                bs_detail = lit ''Media Foundation started, but no hardware H.264 encoder MFT was enumerated''\<rparr>
      | Inl error \<Rightarrow>
          \<lparr>bs_backend = MediaFoundationBackend, bs_available = False, bs_hardware = True,
           bs_detail = error\<rparr>)"

definition media_foundation_decoder_status :: "rstring + nat \<Rightarrow> h264_backend_status" where
  "media_foundation_decoder_status probe =
     (case probe of
        Inr n \<Rightarrow>
          if 0 < n
          then \<lparr>bs_backend = MediaFoundationBackend, bs_available = True, bs_hardware = True,
                bs_detail = dec n @ lit '' hardware H.264 decoder MFT(s) available''\<rparr>
          else \<lparr>bs_backend = MediaFoundationBackend, bs_available = False, bs_hardware = True,
                bs_detail = lit ''Media Foundation started, but no hardware H.264 decoder MFT was enumerated''\<rparr>
      | Inl error \<Rightarrow>
          \<lparr>bs_backend = MediaFoundationBackend, bs_available = False, bs_hardware = True,
           bs_detail = error\<rparr>)"

fun encoder_backend_status :: "rstring + nat \<Rightarrow> h264_backend \<Rightarrow> h264_backend_status" where
  "encoder_backend_status probe SyntheticBackend =
     \<lparr>bs_backend = SyntheticBackend, bs_available = True, bs_hardware = False,
      bs_detail = lit ''synthetic Annex B test encoder''\<rparr>"
| "encoder_backend_status probe MediaFoundationBackend = media_foundation_encoder_status probe"

fun decoder_backend_status :: "rstring + nat \<Rightarrow> h264_backend \<Rightarrow> h264_backend_status" where
  "decoder_backend_status probe SyntheticBackend =
     \<lparr>bs_backend = SyntheticBackend, bs_available = True, bs_hardware = False,
      bs_detail = lit ''synthetic Annex B test decoder''\<rparr>"
| "decoder_backend_status probe MediaFoundationBackend = media_foundation_decoder_status probe"

section \<open>The video encoder\<close>

record media_foundation_encoder =
  mf_config :: h264_encoder_config
  mf_target_payload_bytes :: nat
  mf_keyframe_requested :: bool

datatype video_encoder =
    SyntheticEncoder h264_encoder
  | MediaFoundationEncoder media_foundation_encoder

definition media_foundation_encoder_new ::
  "rstring + nat \<Rightarrow> h264_encoder_config \<Rightarrow> rstring + media_foundation_encoder" where
  "media_foundation_encoder_new probe config =
     (let status = media_foundation_encoder_status probe in
      if \<not> bs_available status
      then Inl (lit ''Media Foundation H.264 encoder is unavailable: '' @ bs_detail status)
      else Inr \<lparr>mf_config = config, mf_target_payload_bytes = ec_synthetic_payload_bytes config,
                mf_keyframe_requested = True\<rparr>)"

fun video_encoder_new ::
  "rstring + nat \<Rightarrow> h264_backend \<Rightarrow> h264_encoder_config \<Rightarrow> rstring + video_encoder" where
  "video_encoder_new probe SyntheticBackend config =
     Inr (SyntheticEncoder \<lparr>en_config = config, en_keyframe_requested = False\<rparr>)"
| "video_encoder_new probe MediaFoundationBackend config =
     and_then (media_foundation_encoder_new probe config) (\<lambda>e. Inr (MediaFoundationEncoder e))"

fun video_encode ::
  "video_encoder \<Rightarrow> capture_frame \<Rightarrow> u32 \<Rightarrow> (rstring + encoded_frame option) \<times> video_encoder" where
  "video_encode (SyntheticEncoder e) frame stream_id =
     (let (encoded, e) = h264_encode e frame stream_id in (Inr (Some encoded), SyntheticEncoder e))"
| "video_encode (MediaFoundationEncoder e) frame stream_id =
     (Inl (lit ''Media Foundation H.264 encoder was selected and detected, but frame submission is not wired yet''),
      MediaFoundationEncoder e)"

fun encoder_request_keyframe :: "video_encoder \<Rightarrow> video_encoder" where
  "encoder_request_keyframe (SyntheticEncoder e) = SyntheticEncoder (e\<lparr>en_keyframe_requested := True\<rparr>)"
| "encoder_request_keyframe (MediaFoundationEncoder e) =
     MediaFoundationEncoder (e\<lparr>mf_keyframe_requested := True\<rparr>)"

fun encoder_update_bitrate :: "u32 \<Rightarrow> video_encoder \<Rightarrow> video_encoder" where
  "encoder_update_bitrate bitrate_bps (SyntheticEncoder e) =
     SyntheticEncoder (e\<lparr>en_config := (en_config e)\<lparr>ec_bitrate_bps := bitrate_bps\<rparr>\<rparr>)"
| "encoder_update_bitrate bitrate_bps (MediaFoundationEncoder e) =
     MediaFoundationEncoder (e\<lparr>mf_config := (mf_config e)\<lparr>ec_bitrate_bps := bitrate_bps\<rparr>\<rparr>)"

fun encoder_update_frame_rate :: "u16 \<Rightarrow> video_encoder \<Rightarrow> video_encoder" where
  "encoder_update_frame_rate fps (SyntheticEncoder e) =
     SyntheticEncoder (e\<lparr>en_config := (en_config e)\<lparr>ec_frames_per_second := max fps 1\<rparr>\<rparr>)"
| "encoder_update_frame_rate fps (MediaFoundationEncoder e) =
     MediaFoundationEncoder (e\<lparr>mf_config := (mf_config e)\<lparr>ec_frames_per_second := max fps 1\<rparr>\<rparr>)"

fun encoder_update_resolution :: "u32 \<Rightarrow> u32 \<Rightarrow> video_encoder \<Rightarrow> video_encoder" where
  "encoder_update_resolution width height (SyntheticEncoder e) =
     SyntheticEncoder (e\<lparr>en_config := (en_config e)\<lparr>ec_width := width, ec_height := height\<rparr>\<rparr>)"
| "encoder_update_resolution width height (MediaFoundationEncoder e) =
     encoder_request_keyframe (MediaFoundationEncoder
       (e\<lparr>mf_config := (mf_config e)\<lparr>ec_width := width, ec_height := height\<rparr>\<rparr>))"

fun encoder_bitrate_bps :: "video_encoder \<Rightarrow> u32" where
  "encoder_bitrate_bps (SyntheticEncoder e) = ec_bitrate_bps (en_config e)"
| "encoder_bitrate_bps (MediaFoundationEncoder e) = ec_bitrate_bps (mf_config e)"

fun encoder_target_payload_bytes :: "video_encoder \<Rightarrow> nat" where
  "encoder_target_payload_bytes (SyntheticEncoder e) = ec_synthetic_payload_bytes (en_config e)"
| "encoder_target_payload_bytes (MediaFoundationEncoder e) = mf_target_payload_bytes e"

fun encoder_set_target_payload_bytes :: "nat \<Rightarrow> video_encoder \<Rightarrow> video_encoder" where
  "encoder_set_target_payload_bytes bs (SyntheticEncoder e) =
     SyntheticEncoder (e\<lparr>en_config := (en_config e)\<lparr>ec_synthetic_payload_bytes := bs\<rparr>\<rparr>)"
| "encoder_set_target_payload_bytes bs (MediaFoundationEncoder e) =
     MediaFoundationEncoder (e\<lparr>mf_target_payload_bytes := bs\<rparr>)"

section \<open>The video decoder\<close>

datatype video_decoder = SyntheticDecoder h264_decoder | MediaFoundationDecoder

definition media_foundation_decoder_new :: "rstring + nat \<Rightarrow> rstring + unit" where
  "media_foundation_decoder_new probe =
     (let status = media_foundation_decoder_status probe in
      if \<not> bs_available status
      then Inl (lit ''Media Foundation H.264 decoder is unavailable: '' @ bs_detail status)
      else Inr ())"

fun video_decoder_new :: "rstring + nat \<Rightarrow> h264_backend \<Rightarrow> rstring + video_decoder" where
  "video_decoder_new probe SyntheticBackend = Inr (SyntheticDecoder \<lparr>hd_config = None\<rparr>)"
| "video_decoder_new probe MediaFoundationBackend =
     and_then (media_foundation_decoder_new probe) (\<lambda>_. Inr MediaFoundationDecoder)"

fun video_decode ::
  "video_decoder \<Rightarrow> bytes \<Rightarrow> (rstring fault + decoded_frame option) \<times> video_decoder" where
  "video_decode (SyntheticDecoder d) encoded =
     (let (decoded, d) = h264_decode d encoded in (decoded, SyntheticDecoder d))"
| "video_decode MediaFoundationDecoder encoded =
     (Inl (Err (lit ''Media Foundation H.264 decoder was selected and detected, but frame output is not wired yet'')),
      MediaFoundationDecoder)"

section \<open>Playback\<close>

definition MIN_WINDOW_RENDER_WIDTH :: u32 where
  "MIN_WINDOW_RENDER_WIDTH = 640"

record rendered_frame =
  rf_frame_id :: u32
  rf_width :: u32
  rf_height :: u32
  rf_pixel_format :: decoded_pixel_format
  rf_pixel_bytes :: nat
  rf_render_time_micros :: u64

record latest_frame_playback =
  fp_rendered_frames :: u64
  fp_latest :: "rendered_frame option"

definition latest_frame_playback_default :: latest_frame_playback where
  "latest_frame_playback_default = \<lparr>fp_rendered_frames = 0, fp_latest = None\<rparr>"

definition pixel_buffer_mismatch :: "nat \<Rightarrow> nat \<Rightarrow> rstring" where
  "pixel_buffer_mismatch expected got =
     lit ''decoded frame pixel buffer length mismatch: expected '' @ dec expected @
     lit '', got '' @ dec got"

text \<open>The products of \<open>width.checked_mul(height)\<close> and \<open>checked_mul(4)\<close> are on \<open>u32\<close>.\<close>

definition validate_bgra_frame :: "decoded_frame \<Rightarrow> rstring + nat" where
  "validate_bgra_frame frame =
     (let pixels = unat (df_width frame) * unat (df_height frame); expected_bytes = pixels * 4 in
      if 2 ^ 32 \<le> pixels \<or> 2 ^ 32 \<le> expected_bytes
      then Inl (lit ''decoded frame dimensions overflow'')
      else if df_pixel_format frame \<noteq> DecodedBgra8
      then Inl (lit ''unsupported decoded pixel format'')
      else if length (df_pixels frame) \<noteq> expected_bytes
      then Inl (pixel_buffer_mismatch expected_bytes (length (df_pixels frame)))
      else Inr expected_bytes)"

definition record_rendered_frame ::
  "u64 \<Rightarrow> decoded_frame \<Rightarrow> nat \<Rightarrow> latest_frame_playback \<Rightarrow> latest_frame_playback" where
  "record_rendered_frame now frame pixel_bytes p =
     p\<lparr>fp_rendered_frames := sat_add (fp_rendered_frames p) 1,
       fp_latest := Some \<lparr>rf_frame_id = df_frame_id frame, rf_width = df_width frame,
         rf_height = df_height frame, rf_pixel_format = df_pixel_format frame,
         rf_pixel_bytes = pixel_bytes, rf_render_time_micros = now\<rparr>\<rparr>"

definition latest_frame_render ::
  "u64 \<Rightarrow> decoded_frame \<Rightarrow> latest_frame_playback \<Rightarrow> (rstring + unit) \<times> latest_frame_playback" where
  "latest_frame_render now frame p =
     (case validate_bgra_frame frame of
        Inl e \<Rightarrow> (Inl e, p)
      | Inr pixel_bytes \<Rightarrow> (Inr (), record_rendered_frame now frame pixel_bytes p))"

definition window_frame_render ::
  "(decoded_frame \<Rightarrow> rstring + unit) \<Rightarrow> u64 \<Rightarrow> decoded_frame \<Rightarrow> latest_frame_playback \<Rightarrow>
   (rstring + unit) \<times> latest_frame_playback" where
  "window_frame_render draw now frame p =
     (case validate_bgra_frame frame of
        Inl e \<Rightarrow> (Inl e, p)
      | Inr pixel_bytes \<Rightarrow>
          case draw frame of
            Inl e \<Rightarrow> (Inl e, p)
          | Inr _ \<Rightarrow> (Inr (), record_rendered_frame now frame pixel_bytes p))"

datatype frame_playback = LatestPlayback latest_frame_playback | WindowPlayback latest_frame_playback

fun frame_render ::
  "(decoded_frame \<Rightarrow> rstring + unit) \<Rightarrow> u64 \<Rightarrow> decoded_frame \<Rightarrow> frame_playback \<Rightarrow>
   (rstring + unit) \<times> frame_playback" where
  "frame_render draw now frame (LatestPlayback p) =
     map_prod id LatestPlayback (latest_frame_render now frame p)"
| "frame_render draw now frame (WindowPlayback p) =
     map_prod id WindowPlayback (window_frame_render draw now frame p)"

fun frame_playback_state :: "frame_playback \<Rightarrow> latest_frame_playback" where
  "frame_playback_state (LatestPlayback p) = p"
| "frame_playback_state (WindowPlayback p) = p"

text \<open>A pair of \<open>i32\<close> values, none of them negative.\<close>

definition display_size_for_frame :: "u32 \<Rightarrow> u32 \<Rightarrow> nat \<times> nat" where
  "display_size_for_frame width height =
     (if width = 0 \<or> height = 0
      then (unat MIN_WINDOW_RENDER_WIDTH, unat MIN_WINDOW_RENDER_WIDTH)
      else if MIN_WINDOW_RENDER_WIDTH \<le> width
      then (min (unat width) (2 ^ 31 - 1), min (unat height) (2 ^ 31 - 1))
      else
        let scaled = div_ceil (min (unat height * unat MIN_WINDOW_RENDER_WIDTH) (2 ^ 64 - 1))
              (unat width)
        in (unat MIN_WINDOW_RENDER_WIDTH, min (max scaled 1) (2 ^ 31 - 1)))"

section \<open>Lemmas: decoded pictures\<close>

definition complete_picture :: "decoded_frame \<Rightarrow> bool" where
  "complete_picture frame \<longleftrightarrow>
     df_pixel_format frame = DecodedBgra8 \<and>
     unat (df_width frame) * unat (df_height frame) \<le> MAX_SYNTHETIC_DECODED_PIXELS \<and>
     length (df_pixels frame) = unat (df_width frame) * unat (df_height frame) * 4"

definition preview_ok :: "synthetic_preview \<Rightarrow> bool" where
  "preview_ok v \<longleftrightarrow> length (sv_pixels v) = unat (sv_width v) * unat (sv_height v) * 4"

lemma parse_preview_ok: "parse_synthetic_preview payload = Some v \<Longrightarrow> preview_ok v"
  by (auto simp: parse_synthetic_preview_def preview_ok_def get_range_def checked_mul_usize_def Let_def
      bind_eq_Some_conv split: option.splits if_splits)

lemma parse_frame_preview_ok:
  "parse_synthetic_frame payload = Some info \<Longrightarrow> pred_option preview_ok (si_preview info)"
  by (auto simp: parse_synthetic_frame_def Let_def pred_option_def elim!: option.set_cases
      intro: parse_preview_ok split: option.splits if_splits)

lemma length_synthetic_bgra_pixels:
  "synthetic_bgra_pixels w h i k = Inr px \<Longrightarrow> length px = unat w * unat h * 4"
proof -
  assume "synthetic_bgra_pixels w h i k = Inr px"
  then obtain f where px: "px = concat [f y x. y \<leftarrow> [0..<unat h], x \<leftarrow> [0..<unat w]]"
    and f: "\<And>y x. length (f y x) = 4"
    by (auto simp: synthetic_bgra_pixels_def Let_def split: if_splits)
  have "\<forall>c \<in> set [f y x. y \<leftarrow> [0..<unat h], x \<leftarrow> [0..<unat w]]. length c = 4" using f by auto
  from length_concat_const [OF this] show ?thesis by (simp add: px length_grid mult.commute)
qed

lemma decoded_picture_complete:
  assumes "decoded_picture k info = Inr (Some frame)" and "pred_option preview_ok (si_preview info)"
  shows "complete_picture frame"
  using assms
  by (auto simp: decoded_picture_def complete_picture_def and_then_Inr Let_def preview_ok_def
      dest: length_synthetic_bgra_pixels split: option.splits if_splits)

definition scan_ok :: "nal_scan \<Rightarrow> bool" where
  "scan_ok s \<longleftrightarrow> pred_option (\<lambda>info. pred_option preview_ok (si_preview info)) (ns_frame_info s)"

lemma scan_nal_ok: "scan_ok s \<Longrightarrow> scan_ok (scan_nal nal s)"
  by (cases nal) (auto simp: scan_ok_def Let_def or_else_def dest!: parse_frame_preview_ok
      split: option.splits)

lemma scan_nals_ok: "scan_ok (scan_nals d encoded)"
proof -
  have "scan_ok (fold scan_nal nals s)" if "scan_ok s" for nals s
    using that by (induction nals arbitrary: s) (simp_all add: scan_nal_ok)
  then show ?thesis unfolding scan_nals_def by (simp add: scan_ok_def)
qed

lemma decoded_complete:
  assumes "fst (video_decode d encoded) = Inr (Some frame)"
  shows "complete_picture frame"
proof (cases d)
  case (SyntheticDecoder h)
  have "\<exists>k info. decoded_picture k info = Inr (Some frame) \<and> pred_option preview_ok (si_preview info)"
    using assms scan_nals_ok [of h encoded] SyntheticDecoder
    by (fastforce simp: h264_decode_def Let_def scan_ok_def split: option.splits if_splits)
  then show ?thesis using decoded_picture_complete by blast
next
  case MediaFoundationDecoder
  then show ?thesis using assms by simp
qed

text \<open>A narrow picture is widened to the window and keeps its ratio, rounded up.\<close>

lemma display_size_ratio:
  assumes "0 < unat width" "unat width < 640" and "0 < unat height" "unat height * 640 < 2 ^ 31"
  shows "\<exists>h. display_size_for_frame width height = (640, h) \<and>
    unat height * 640 \<le> h * unat width \<and> (h - 1) * unat width < unat height * 640"
proof -
  let ?h = "div_ceil (unat height * 640) (unat width)"
  have ge: "unat height * 640 \<le> ?h * unat width" by (rule div_ceil_mult_ge [OF assms(1)])
  have less: "(?h - 1) * unat width < unat height * 640"
    using assms by (intro div_ceil_pred_less) simp_all
  have "?h - 1 \<le> (?h - 1) * unat width" using assms(1) by simp
  then have "?h \<le> 2 ^ 31 - 1" using less assms(4) by linarith
  moreover have "1 \<le> ?h" using ge assms by (cases ?h) auto
  ultimately have "display_size_for_frame width height = (640, ?h)"
    using assms by (auto simp: display_size_for_frame_def MIN_WINDOW_RENDER_WIDTH_def word_le_nat_alt
        unat_gt_0 Let_def)
  with ge less show ?thesis by blast
qed

section \<open>Properties\<close>

text \<open>
  C32. What is decoded can be shown: every picture either backend of the decoder emits, from whatever
  bytes, has as many pixel bytes as its size says and is accepted by playback, which counts it and
  remembers its id and size.
\<close>

theorem decoded_pictures_render:
  assumes "fst (video_decode d encoded) = Inr (Some frame)"
  shows "latest_frame_render now frame p =
    (Inr (), p\<lparr>fp_rendered_frames := sat_add (fp_rendered_frames p) 1,
       fp_latest := Some \<lparr>rf_frame_id = df_frame_id frame, rf_width = df_width frame,
         rf_height = df_height frame, rf_pixel_format = DecodedBgra8,
         rf_pixel_bytes = unat (df_width frame) * unat (df_height frame) * 4,
         rf_render_time_micros = now\<rparr>\<rparr>)"
  using decoded_complete [OF assms]
  by (simp add: complete_picture_def latest_frame_render_def validate_bgra_frame_def Let_def
      record_rendered_frame_def MAX_SYNTHETIC_DECODED_PIXELS_def)

theorem decoded_pictures_render_witness:
  "\<exists>frame. latest_frame_render 5 frame latest_frame_playback_default =
     (Inr (), \<lparr>fp_rendered_frames = 1, fp_latest = Some \<lparr>rf_frame_id = 1, rf_width = 1,
        rf_height = 1, rf_pixel_format = DecodedBgra8, rf_pixel_bytes = 4,
        rf_render_time_micros = 5\<rparr>\<rparr>)"
proof -
  let ?frame = "metadata_only 1 1 1 5"
  let ?bs = "f_bytes (fst (h264_encode (sample_encoder 0) ?frame 9))"
  have "fst (h264_decode \<lparr>hd_config = None\<rparr> ?bs) =
      decoded_picture (is_key (sample_encoder 0) ?frame) (frame_info_of ?frame None)"
    using metadata_arrives [of ?frame "sample_encoder 0" "\<lparr>hd_config = None\<rparr>" 9]
    by (auto simp: metadata_only_def sample_encoder_quiet is_key_def)
  moreover obtain px where "decoded_picture (is_key (sample_encoder 0) ?frame) (frame_info_of ?frame None) =
      Inr (Some \<lparr>df_frame_id = 1, df_width = 1, df_height = 1, df_pixel_format = DecodedBgra8, df_pixels = px\<rparr>)"
    by (simp add: decoded_picture_def frame_info_of_def metadata_only_def synthetic_bgra_pixels_def Let_def
        MAX_SYNTHETIC_DECODED_PIXELS_def)
  ultimately have "fst (video_decode (SyntheticDecoder \<lparr>hd_config = None\<rparr>) ?bs) =
      Inr (Some \<lparr>df_frame_id = 1, df_width = 1, df_height = 1, df_pixel_format = DecodedBgra8, df_pixels = px\<rparr>)"
    by (simp add: case_prod_beta)
  from decoded_pictures_render [OF this, of 5 latest_frame_playback_default] show ?thesis
    by (intro exI) (simp add: latest_frame_playback_default_def sat_add_def)
qed

end
