(* ===== verification/Client_Args.thy ===== *)
theory Client_Args
  imports Audio Client_App Clock_Sync Reassembly Remote_Input Video
begin

text \<open>
  The command line of the desktop client, from \<open>main.rs\<close>: the options as clap parses them into
  \<open>Args\<close>, and what the client makes of them (room, channel, streams, frame counts, codec and device
  settings). The parser itself is clap's. What the operating system answers (the size of a captured
  source, the number of hardware codecs, whether this is Windows) is an argument. An error is the
  text of its outermost context.
\<close>

section \<open>Options\<close>

datatype mode = BroadcasterMode | ViewerMode
datatype capture_source_arg = PrimaryMonitorArg | MonitorArg | WindowArg
datatype media_kind_arg = ScreenArg | VoiceArg | BothArg
datatype screen_input_arg = SyntheticScreen | LiveScreen
datatype codec_arg = SyntheticCodec | MediaFoundationCodec
datatype voice_input_arg = SyntheticVoice | MicrophoneVoice
datatype render_output_arg = RenderSink | RenderWindow
datatype audio_output_arg = AudioSinkArg | AudioSpeakerArg
datatype remote_input_script_arg = PointerTapScript | KeyEnterScript | TextScript
datatype remote_input_output_arg = LogOutput | NativeOutput

record args =
  a_mode :: mode
  a_relay :: rstring
  a_access_token :: "rstring option"
  a_display_name :: "rstring option"
  a_list_capture_sources :: bool
  a_list_audio_sources :: bool
  a_list_codec_backends :: bool
  a_list_rooms :: bool
  a_list_streams :: bool
  a_list_participants :: bool
  a_print_ui_state :: bool
  a_export_ui_state :: "rstring option"
  a_serve_ui :: bool
  a_ui_listen :: rstring
  a_capture_source :: capture_source_arg
  a_monitor_id :: "rstring option"
  a_window_title :: "rstring option"
  a_cursor_visible :: bool
  a_room_id :: "room_id option"
  a_room_name :: rstring
  a_channel_id :: "room_id option"
  a_channel_name :: "rstring option"
  a_stream_id :: stream_id
  a_voice_stream_id :: "stream_id option"
  a_media_kind :: media_kind_arg
  a_screen_input :: screen_input_arg
  a_video_encoder :: codec_arg
  a_video_decoder :: codec_arg
  a_voice_input :: voice_input_arg
  a_microphone_id :: "rstring option"
  a_render_output :: render_output_arg
  a_audio_output :: audio_output_arg
  a_muted :: bool
  a_deafened :: bool
  a_push_to_talk :: bool
  a_ptt_active :: bool
  a_media_frames :: u32
  a_media_run_ms :: u64
  a_media_fps :: u16
  a_voice_fps :: u16
  a_media_frame_bytes :: nat
  a_voice_frame_bytes :: nat
  a_max_datagram_payload :: nat
  a_media_start_delay_ms :: u64
  a_media_end_linger_ms :: u64
  a_media_idle_timeout_ms :: u64
  a_reassembly_window_frames :: u32
  a_jitter_buffer_max_ms :: u16
  a_stats_interval_frames :: u32
  a_feedback_interval_frames :: u32
  a_time_sync_samples :: u8
  a_time_sync_spacing_ms :: u64
  a_time_sync_refresh_ms :: u64
  a_remote_input_script :: "remote_input_script_arg option"
  a_remote_input_text :: "rstring option"
  a_remote_input_output :: remote_input_output_arg

definition DEFAULT_CHANNEL_NAME :: rstring where
  "DEFAULT_CHANNEL_NAME = lit ''stage1''"

definition MIN_SYNTHETIC_PAYLOAD_BYTES :: nat where
  "MIN_SYNTHETIC_PAYLOAD_BYTES = 64"

text \<open>The options of a command line without any, as the defaults of the options say.\<close>

definition default_args :: args where
  "default_args =
     \<lparr>a_mode = ViewerMode, a_relay = lit ''127.0.0.1:4433'', a_access_token = None,
      a_display_name = None, a_list_capture_sources = False, a_list_audio_sources = False,
      a_list_codec_backends = False, a_list_rooms = False, a_list_streams = False,
      a_list_participants = False, a_print_ui_state = False, a_export_ui_state = None,
      a_serve_ui = False, a_ui_listen = lit ''127.0.0.1:7788'',
      a_capture_source = PrimaryMonitorArg, a_monitor_id = None, a_window_title = None,
      a_cursor_visible = True, a_room_id = None, a_room_name = DEFAULT_CHANNEL_NAME,
      a_channel_id = None, a_channel_name = None, a_stream_id = 1, a_voice_stream_id = None,
      a_media_kind = ScreenArg, a_screen_input = SyntheticScreen,
      a_video_encoder = SyntheticCodec, a_video_decoder = SyntheticCodec,
      a_voice_input = SyntheticVoice, a_microphone_id = None, a_render_output = RenderSink,
      a_audio_output = AudioSinkArg, a_muted = False, a_deafened = False,
      a_push_to_talk = False, a_ptt_active = False, a_media_frames = 0, a_media_run_ms = 0,
      a_media_fps = 30, a_voice_fps = 50, a_media_frame_bytes = 512, a_voice_frame_bytes = 96,
      a_max_datagram_payload = DEFAULT_DATAGRAM_PAYLOAD_TARGET, a_media_start_delay_ms = 0,
      a_media_end_linger_ms = 250, a_media_idle_timeout_ms = 5000,
      a_reassembly_window_frames = 6, a_jitter_buffer_max_ms = 150,
      a_stats_interval_frames = 30, a_feedback_interval_frames = 30, a_time_sync_samples = 5,
      a_time_sync_spacing_ms = 20, a_time_sync_refresh_ms = 5000, a_remote_input_script = None,
      a_remote_input_text = None, a_remote_input_output = LogOutput\<rparr>"

section \<open>Rooms, channels and names\<close>

definition args_client_role :: "args \<Rightarrow> client_role" where
  "args_client_role a = (case a_mode a of BroadcasterMode \<Rightarrow> Broadcaster | ViewerMode \<Rightarrow> Viewer)"

definition mode_debug :: "mode \<Rightarrow> rstring" where
  "mode_debug m = (case m of BroadcasterMode \<Rightarrow> lit ''Broadcaster'' | ViewerMode \<Rightarrow> lit ''Viewer'')"

definition control_display_name :: "args \<Rightarrow> rstring" where
  "control_display_name a =
     (case a_display_name a of
        Some name \<Rightarrow> name
      | None \<Rightarrow> lit ''desktop-client/'' @ mode_debug (a_mode a))"

definition selected_room_id :: "args \<Rightarrow> rstring + room_id option" where
  "selected_room_id a =
     (case (a_room_id a, a_channel_id a) of
        (Some room_id, Some channel_id) \<Rightarrow>
          if room_id \<noteq> channel_id
          then Inl (lit ''--room-id and --channel-id must match when both are set'')
          else Inr (Some room_id)
      | (Some room_id, None) \<Rightarrow> Inr (Some room_id)
      | (None, Some channel_id) \<Rightarrow> Inr (Some channel_id)
      | (None, None) \<Rightarrow> Inr None)"

definition selected_channel_name :: "args \<Rightarrow> rstring + rstring" where
  "selected_channel_name a =
     (case a_channel_name a of
        Some channel_name \<Rightarrow>
          if a_room_name a \<noteq> DEFAULT_CHANNEL_NAME \<and> a_room_name a \<noteq> channel_name
          then Inl (lit ''--room-name and --channel-name must match when both are set'')
          else Inr channel_name
      | None \<Rightarrow> Inr (a_room_name a))"

section \<open>Voice and the user interface\<close>

definition synthetic_media_enabled :: "args \<Rightarrow> bool" where
  "synthetic_media_enabled a \<longleftrightarrow> 0 < a_media_frames a \<or> 0 < a_media_run_ms a"

definition voice_push_to_talk_enabled :: "args \<Rightarrow> bool" where
  "voice_push_to_talk_enabled a \<longleftrightarrow> a_push_to_talk a \<or> a_ptt_active a"

definition voice_state_requested :: "args \<Rightarrow> bool" where
  "voice_state_requested a \<longleftrightarrow> a_muted a \<or> a_deafened a \<or> voice_push_to_talk_enabled a"

definition voice_speaking :: "args \<Rightarrow> bool" where
  "voice_speaking a \<longleftrightarrow> \<not> a_muted a \<and> (\<not> voice_push_to_talk_enabled a \<or> a_ptt_active a)"

definition ui_voice_input_label :: "args \<Rightarrow> rstring" where
  "ui_voice_input_label a =
     (case (a_voice_input a, a_microphone_id a) of
        (SyntheticVoice, _) \<Rightarrow> lit ''Synthetic voice''
      | (MicrophoneVoice, Some name) \<Rightarrow> lit ''Microphone '' @ name
      | (MicrophoneVoice, None) \<Rightarrow> lit ''Default microphone'')"

definition ui_audio_output_label :: "args \<Rightarrow> rstring" where
  "ui_audio_output_label a =
     (case a_audio_output a of
        AudioSinkArg \<Rightarrow> lit ''Audio sink''
      | AudioSpeakerArg \<Rightarrow> lit ''Default speaker'')"

definition ui_screen_source_label :: "args \<Rightarrow> rstring" where
  "ui_screen_source_label a =
     (case (a_screen_input a, a_capture_source a) of
        (SyntheticScreen, _) \<Rightarrow> lit ''Synthetic screen''
      | (LiveScreen, PrimaryMonitorArg) \<Rightarrow> lit ''Primary monitor''
      | (LiveScreen, MonitorArg) \<Rightarrow>
          (case a_monitor_id a of Some name \<Rightarrow> lit ''Monitor '' @ name | None \<Rightarrow> lit ''Monitor'')
      | (LiveScreen, WindowArg) \<Rightarrow>
          (case a_window_title a of Some title \<Rightarrow> lit ''Window: '' @ title | None \<Rightarrow> lit ''Window''))"

definition ui_voice_control_state :: "args \<Rightarrow> voice_control_state" where
  "ui_voice_control_state a =
     \<lparr>vc_muted = a_muted a, vc_deafened = a_deafened a,
      vc_push_to_talk = voice_push_to_talk_enabled a, vc_ptt_active = a_ptt_active a,
      vc_input_label = ui_voice_input_label a, vc_output_label = ui_audio_output_label a\<rparr>"

section \<open>Sources and devices\<close>

datatype capture_source =
    PrimaryMonitor
  | Monitor rstring
  | Window rstring rstring

datatype microphone_source = DefaultMicrophone | MicrophoneDevice rstring

record capture_config =
  cc_queue_capacity :: nat
  cc_cursor_visible :: bool

text \<open>\<open>as_deref().map(str::trim).filter(|s| !s.is_empty())\<close>\<close>

definition trimmed_non_empty :: "rstring option \<Rightarrow> rstring option" where
  "trimmed_non_empty s =
     (case s of None \<Rightarrow> None | Some s \<Rightarrow> if trim s = [] then None else Some (trim s))"

definition args_capture_source :: "args \<Rightarrow> rstring + capture_source" where
  "args_capture_source a =
     (case a_capture_source a of
        PrimaryMonitorArg \<Rightarrow> Inr PrimaryMonitor
      | MonitorArg \<Rightarrow>
          (case trimmed_non_empty (a_monitor_id a) of
             None \<Rightarrow> Inl (lit ''--monitor-id is required when --capture-source monitor'')
           | Some name \<Rightarrow> Inr (Monitor name))
      | WindowArg \<Rightarrow>
          (case trimmed_non_empty (a_window_title a) of
             None \<Rightarrow> Inl (lit ''--window-title is required when --capture-source window'')
           | Some title \<Rightarrow> Inr (Window title title)))"

definition args_capture_config :: "args \<Rightarrow> capture_config" where
  "args_capture_config a = \<lparr>cc_queue_capacity = 1, cc_cursor_visible = a_cursor_visible a\<rparr>"

text \<open>\<open>ask_size\<close> is what \<open>windows::capture_source_size\<close> answers for a source.\<close>

definition screen_capture_dimensions ::
  "(capture_source \<Rightarrow> rstring + u32 \<times> u32) \<Rightarrow> args \<Rightarrow> rstring + u32 \<times> u32" where
  "screen_capture_dimensions ask_size a =
     (case a_screen_input a of
        SyntheticScreen \<Rightarrow>
          Inr (ec_width h264_encoder_config_default, ec_height h264_encoder_config_default)
      | LiveScreen \<Rightarrow>
          and_then (args_capture_source a) (\<lambda>source.
            map_err (\<lambda>_. lit ''failed to query live capture source size'') (ask_size source)))"

definition ui_screen_share_control_state ::
  "(capture_source \<Rightarrow> rstring + u32 \<times> u32) \<Rightarrow> args \<Rightarrow> screen_share_control_state" where
  "ui_screen_share_control_state ask_size a =
     (let (target_width, target_height) =
            (case screen_capture_dimensions ask_size a of Inr d \<Rightarrow> d | Inl _ \<Rightarrow> (1280, 720))
      in \<lparr>ss_sharing = (a_mode a = BroadcasterMode \<and> a_media_kind a \<noteq> VoiceArg),
          ss_stream_id = a_stream_id a, ss_source_label = ui_screen_source_label a,
          ss_target_width = target_width, ss_target_height = target_height,
          ss_target_fps = max (a_media_fps a) 1\<rparr>)"

definition args_microphone_source :: "args \<Rightarrow> microphone_source" where
  "args_microphone_source a =
     (case trimmed_non_empty (a_microphone_id a) of
        Some name \<Rightarrow> MicrophoneDevice name
      | None \<Rightarrow> DefaultMicrophone)"

definition audio_frame_duration_ms :: "u16 \<Rightarrow> u16" where
  "audio_frame_duration_ms frames_per_second = max (1000 div max frames_per_second 1) 1"

definition args_audio_capture_config :: "args \<Rightarrow> audio_capture_config" where
  "args_audio_capture_config a =
     \<lparr>ac_sample_rate_hz = 48000, ac_channel_count = 1,
      ac_frame_duration_ms = audio_frame_duration_ms (a_voice_fps a), ac_queue_capacity = 1\<rparr>"

text \<open>\<open>opened\<close> is the result of opening a native window, \<open>windows\<close> whether this is Windows.\<close>

definition video_playback :: "rstring + unit \<Rightarrow> args \<Rightarrow> rstring + frame_playback" where
  "video_playback opened a =
     (case a_render_output a of
        RenderSink \<Rightarrow> Inr (LatestPlayback latest_frame_playback_default)
      | RenderWindow \<Rightarrow>
          map_err (\<lambda>_. lit ''failed to create render window'')
            (and_then opened (\<lambda>_. Inr (WindowPlayback latest_frame_playback_default))))"

definition audio_playback :: "bool \<Rightarrow> args \<Rightarrow> rstring + audio_output_playback" where
  "audio_playback windows a =
     (case a_audio_output a of
        AudioSinkArg \<Rightarrow> Inr (AudioSink latest_audio_playback_default)
      | AudioSpeakerArg \<Rightarrow>
          if windows then Inr (AudioSpeaker latest_audio_playback_default)
          else Inl (lit ''failed to create speaker audio output''))"

definition args_input_applier :: "bool \<Rightarrow> args \<Rightarrow> rstring + remote_input_applier" where
  "args_input_applier windows a =
     (case a_remote_input_output a of
        LogOutput \<Rightarrow> Inr (LoggingApplier 0)
      | NativeOutput \<Rightarrow>
          map_err (\<lambda>_. lit ''failed to create native input applier'') (native_applier_new windows))"

definition remote_input_script_events :: "args \<Rightarrow> remote_input_script_arg \<Rightarrow> remote_input_kind list" where
  "remote_input_script_events a script =
     (case script of
        PointerTapScript \<Rightarrow>
          [PointerButton LeftButton True 32768 32768, PointerButton LeftButton False 32768 32768]
      | KeyEnterScript \<Rightarrow> [Key 13 True, Key 13 False]
      | TextScript \<Rightarrow>
          [Text (case a_remote_input_text a of
                   Some text \<Rightarrow> text | None \<Rightarrow> lit ''hello from viewer'')])"

section \<open>Media settings\<close>

definition media_interval_micros :: "u16 \<Rightarrow> nat" where
  "media_interval_micros frames_per_second = 1000000 div unat (max frames_per_second 1)"

definition active_media_fps :: "args \<Rightarrow> u16" where
  "active_media_fps a = (case a_media_kind a of VoiceArg \<Rightarrow> a_voice_fps a | _ \<Rightarrow> a_media_fps a)"

definition active_media_frame_bytes :: "args \<Rightarrow> nat" where
  "active_media_frame_bytes a =
     (case a_media_kind a of VoiceArg \<Rightarrow> a_voice_frame_bytes a | _ \<Rightarrow> a_media_frame_bytes a)"

definition fps_is_zero :: "rstring \<Rightarrow> rstring" where
  "fps_is_zero fps_flag = fps_flag @ lit '' must be greater than zero''"

definition synthetic_media_frames_for_fps :: "args \<Rightarrow> u16 \<Rightarrow> rstring \<Rightarrow> rstring + u32" where
  "synthetic_media_frames_for_fps a frames_per_second fps_flag =
     (if 0 < a_media_frames a then Inr (a_media_frames a)
      else if frames_per_second = 0 then Inl (fps_is_zero fps_flag)
      else
        let frames = max (div_ceil (min (unat (a_media_run_ms a) * unat frames_per_second)
                                        (2 ^ 64 - 1)) 1000) 1
        in Inr (of_nat (min frames 4294967295)))"

definition synthetic_media_frames :: "args \<Rightarrow> rstring + u32" where
  "synthetic_media_frames a =
     synthetic_media_frames_for_fps a (active_media_fps a) (lit ''--media-fps/--voice-fps'')"

definition media_frame_interval_for_fps :: "args \<Rightarrow> u16 \<Rightarrow> rstring \<Rightarrow> rstring + nat" where
  "media_frame_interval_for_fps a frames_per_second fps_flag =
     (if frames_per_second = 0 then Inl (fps_is_zero fps_flag)
      else Inr (from_micros (media_interval_micros frames_per_second)))"

definition media_frame_interval :: "args \<Rightarrow> rstring + nat" where
  "media_frame_interval a =
     media_frame_interval_for_fps a (active_media_fps a) (lit ''--media-fps/--voice-fps'')"

definition clock_sync_refresh_interval :: "args \<Rightarrow> nat option" where
  "clock_sync_refresh_interval a =
     (if 0 < a_time_sync_refresh_ms a then Some (from_millis (unat (a_time_sync_refresh_ms a))) else None)"

definition frame_reassembly_buffer :: "args \<Rightarrow> u16 \<Rightarrow> reassembly_buffer" where
  "frame_reassembly_buffer a frame_interval_ms =
     with_jitter_budget 64 (a_reassembly_window_frames a) (a_jitter_buffer_max_ms a)
       (max frame_interval_ms 1)"

text \<open>The products are saturating \<open>u128\<close>, which no \<open>usize\<close> and two small factors exceed.\<close>

definition synthetic_bitrate_bps :: "args \<Rightarrow> u32" where
  "synthetic_bitrate_bps a =
     of_nat (min (active_media_frame_bytes a * unat (max (active_media_fps a) 1) * 8) 4294967295)"

fun codec_backend :: "codec_arg \<Rightarrow> h264_backend" where
  "codec_backend SyntheticCodec = SyntheticBackend"
| "codec_backend MediaFoundationCodec = MediaFoundationBackend"

definition video_encoder_for :: "rstring + nat \<Rightarrow> args \<Rightarrow> u32 \<Rightarrow> u32 \<Rightarrow> rstring + video_encoder" where
  "video_encoder_for probe a width height =
     video_encoder_new probe (codec_backend (a_video_encoder a))
       \<lparr>ec_width = width, ec_height = height, ec_frames_per_second = max (a_media_fps a) 1,
        ec_bitrate_bps = synthetic_bitrate_bps a,
        ec_synthetic_payload_bytes = a_media_frame_bytes a\<rparr>"

definition video_decoder_for :: "rstring + nat \<Rightarrow> args \<Rightarrow> rstring + video_decoder" where
  "video_decoder_for probe a = video_decoder_new probe (codec_backend (a_video_decoder a))"

definition protocol_media_kind :: "args \<Rightarrow> rstring + media_kind" where
  "protocol_media_kind a =
     (case a_media_kind a of
        ScreenArg \<Rightarrow> Inr Screen
      | VoiceArg \<Rightarrow> Inr Voice
      | BothArg \<Rightarrow> Inl (lit ''--media-kind both does not map to a single protocol media kind''))"

definition args_codec :: "args \<Rightarrow> rstring + codec_id" where
  "args_codec a =
     (case a_media_kind a of
        ScreenArg \<Rightarrow> Inr H264
      | VoiceArg \<Rightarrow> Inr Opus
      | BothArg \<Rightarrow> Inl (lit ''--media-kind both does not map to a single codec''))"

definition args_stream_config ::
  "(capture_source \<Rightarrow> rstring + u32 \<times> u32) \<Rightarrow> args \<Rightarrow> room_id \<Rightarrow> rstring + stream_config" where
  "args_stream_config ask_size a room_id =
     (case a_media_kind a of
        ScreenArg \<Rightarrow>
          and_then (screen_capture_dimensions ask_size a) (\<lambda>(width, height).
            Inr \<lparr>sc_room_id = room_id, sc_stream_id = a_stream_id a, sc_codec = H264,
                 sc_width = width, sc_height = height,
                 sc_frames_per_second = max (a_media_fps a) 1, sc_timebase_hz = 90000\<rparr>)
      | VoiceArg \<Rightarrow>
          Inr \<lparr>sc_room_id = room_id, sc_stream_id = a_stream_id a, sc_codec = Opus,
               sc_width = 0, sc_height = 0, sc_frames_per_second = max (a_voice_fps a) 1,
               sc_timebase_hz = 48000\<rparr>
      | BothArg \<Rightarrow> Inl (lit ''--media-kind both does not map to a single stream config''))"

definition args_voice_stream_id :: "args \<Rightarrow> rstring + stream_id" where
  "args_voice_stream_id a =
     (let voice_stream_id =
            (case a_voice_stream_id a of Some i \<Rightarrow> i | None \<Rightarrow> sat_add (a_stream_id a) 1)
      in if voice_stream_id = a_stream_id a
         then Inl (lit ''--voice-stream-id must be different from --stream-id for --media-kind both'')
         else Inr voice_stream_id)"

definition for_media_kind :: "args \<Rightarrow> media_kind_arg \<Rightarrow> stream_id \<Rightarrow> args" where
  "for_media_kind a media_kind stream_id = a\<lparr>a_media_kind := media_kind, a_stream_id := stream_id\<rparr>"

definition millis_for_log :: "nat \<Rightarrow> u16" where
  "millis_for_log duration = of_nat (min (duration div 1000000) 65535)"

end
