(* ===== verification/Client_Io.thy ===== *)
theory Client_Io
  imports Client_Args
begin

text \<open>
  What the control flows of the desktop client do to the world: they send control messages and read
  replies (\<open>transport/quic.rs\<close>), receive media packets, read the clock and sleep. The world is a
  parameter, a type \<open>'w\<close> with the operations of the record \<open>client_env\<close>; the client adds its counter
  of request ids. An operation that can fail returns its error with the state it leaves. What is
  printed for the log is left out.
\<close>

section \<open>Operations with effects\<close>

text \<open>
  The text of an error; one that quotes the debug output of an unexpected message keeps the message,
  and one of the protocol's functions their error. A panic ends the task like an error.
\<close>

datatype client_error =
    Bail rstring
  | Unexpected rstring server_control
  | PacketizeFailed frame_packetize_error
  | ReassemblyFailed reassembly_error
  | Panicked

type_synonym ('e, 'a, 's) effect = "'s \<Rightarrow> ('e + 'a) \<times> 's"

type_synonym ('a, 's) io = "(client_error, 'a, 's) effect"

definition io_return :: "'a \<Rightarrow> ('e, 'a, 's) effect" where
  "io_return a = (\<lambda>s. (Inr a, s))"

definition io_fail :: "'e \<Rightarrow> ('e, 'a, 's) effect" where
  "io_fail e = (\<lambda>s. (Inl e, s))"

definition io_bind :: "('e, 'a, 's) effect \<Rightarrow> ('a \<Rightarrow> ('e, 'b, 's) effect) \<Rightarrow> ('e, 'b, 's) effect" where
  "io_bind m f = (\<lambda>s. case m s of (Inl e, s) \<Rightarrow> (Inl e, s) | (Inr a, s) \<Rightarrow> f a s)"

definition io_then :: "('e, 'a, 's) effect \<Rightarrow> ('e, 'b, 's) effect \<Rightarrow> ('e, 'b, 's) effect" where
  "io_then m n = io_bind m (\<lambda>_. n)"

text \<open>A result computed without effects, and an optional one with the error of its absence.\<close>

definition io_of :: "rstring + 'a \<Rightarrow> ('a, 's) io" where
  "io_of r = (case r of Inl e \<Rightarrow> io_fail (Bail e) | Inr a \<Rightarrow> io_return a)"

definition io_of_fault :: "('e \<Rightarrow> client_error) \<Rightarrow> 'e fault + 'a \<Rightarrow> ('a, 's) io" where
  "io_of_fault text r =
     (case r of
        Inl Panic \<Rightarrow> io_fail Panicked
      | Inl (Err e) \<Rightarrow> io_fail (text e)
      | Inr a \<Rightarrow> io_return a)"

definition io_some :: "rstring \<Rightarrow> 'a option \<Rightarrow> ('a, 's) io" where
  "io_some e a = (case a of None \<Rightarrow> io_fail (Bail e) | Some a \<Rightarrow> io_return a)"

fun io_each :: "('a \<Rightarrow> ('e, 'b, 's) effect) \<Rightarrow> 'a list \<Rightarrow> ('e, 'b list, 's) effect" where
  "io_each f [] = io_return []"
| "io_each f (x # xs) = io_bind (f x) (\<lambda>y. io_bind (io_each f xs) (\<lambda>ys. io_return (y # ys)))"

named_theorems io_simps

lemma io_bind_return [simp, io_simps]: "io_bind (io_return a) f = f a"
  by (simp add: io_bind_def io_return_def)

lemma io_bind_fail [simp, io_simps]: "io_bind (io_fail e) f = io_fail e"
  by (simp add: io_bind_def io_fail_def)

lemma io_bind_assoc: "io_bind (io_bind m f) g = io_bind m (\<lambda>a. io_bind (f a) g)"
  by (rule ext) (simp add: io_bind_def split: prod.split sum.split)

lemma io_return_right [simp]: "io_bind m io_return = m"
  by (rule ext) (simp add: io_bind_def io_return_def split: prod.split sum.split)

lemma io_bind_Inr:
  "io_bind m f s = (Inr b, s') \<longleftrightarrow> (\<exists>a s1. m s = (Inr a, s1) \<and> f a s1 = (Inr b, s'))"
  by (simp add: io_bind_def split: prod.split sum.split)

lemma io_apply [io_simps]:
  "io_return a s = (Inr a, s)" "io_fail e s = (Inl e, s)"
  by (simp_all add: io_return_def io_fail_def)

lemma io_bind_step [io_simps]:
  "m s = (Inr a, s') \<Longrightarrow> io_bind m f s = f a s'"
  "m s = (Inl e, s') \<Longrightarrow> io_bind m f s = (Inl e, s')"
  by (simp_all add: io_bind_def)

section \<open>The environment\<close>

text \<open>
  What does not change while the client runs: whether it runs on Windows, and what the operating
  system answers about sources, codecs, windows, the speaker and injected input.
\<close>

record client_os =
  os_windows :: bool
  os_source_size :: "capture_source \<Rightarrow> rstring + u32 \<times> u32"
  os_encoder_probe :: "rstring + nat"
  os_decoder_probe :: "rstring + nat"
  os_open_window :: "rstring + unit"
  os_draw :: "decoded_frame \<Rightarrow> rstring + unit"
  os_speaker :: "decoded_audio_frame \<Rightarrow> rstring + unit"
  os_open_microphone :: "microphone_source \<Rightarrow> audio_capture_config \<Rightarrow> rstring + unit"
  os_apply_input :: "remote_input_event \<Rightarrow> remote_input_applier \<Rightarrow> (rstring + unit) \<times> remote_input_applier"
  os_quote :: "rstring \<Rightarrow> rstring"

text \<open>
  \<open>ce_exchange\<close> sends a request on a stream of its own and reads the reply; \<open>ce_recv\<close> waits for a
  datagram for at most so many nanoseconds; \<open>ce_send_datagram\<close> sends one; \<open>ce_instant\<close>
  reads the monotonic clock; \<open>ce_tick\<close> waits for the next tick of a ticker with the given period;
  \<open>ce_stopped\<close> reads the flag with which the user interface stops a media task; \<open>ce_capture\<close>
  copies the pixels of a source, with its size, and \<open>ce_samples\<close> reads the microphone.
\<close>

record 'w client_env =
  ce_os :: client_os
  ce_exchange :: "client_envelope \<Rightarrow> (server_envelope, 'w) io"
  ce_clock :: "'w \<Rightarrow> u64 \<times> 'w"
  ce_sleep :: "nat \<Rightarrow> 'w \<Rightarrow> 'w"
  ce_recv :: "nat \<Rightarrow> 'w \<Rightarrow> (client_error + bytes) option \<times> 'w"
  ce_send_datagram :: "bytes \<Rightarrow> (unit, 'w) io"
  ce_instant :: "'w \<Rightarrow> nat \<times> 'w"
  ce_tick :: "nat \<Rightarrow> 'w \<Rightarrow> 'w"
  ce_stopped :: "'w \<Rightarrow> bool \<times> 'w"
  ce_capture :: "capture_source \<Rightarrow> (u32 \<times> u32 \<times> bytes, 'w) io"
  ce_samples :: "'w \<Rightarrow> (rstring + i16 list option) \<times> 'w"

record 'w client =
  cl_next_request_id :: request_id
  cl_world :: 'w

type_synonym ('a, 'w) client_io = "('a, 'w client) io"

definition on_world :: "('a, 'w) io \<Rightarrow> ('a, 'w) client_io" where
  "on_world m c = (let (r, w) = m (cl_world c) in (r, c\<lparr>cl_world := w\<rparr>))"

definition send_envelope :: "'w client_env \<Rightarrow> client_envelope \<Rightarrow> (server_envelope, 'w) client_io" where
  "send_envelope env request = on_world (ce_exchange env request)"

text \<open>\<open>RequestIdAllocator::allocate\<close>: \<open>fetch_add\<close> wraps.\<close>

definition allocate_request_id :: "(request_id, 'w) client_io" where
  "allocate_request_id c =
     (Inr (cl_next_request_id c), c\<lparr>cl_next_request_id := cl_next_request_id c + 1\<rparr>)"

definition send_control :: "'w client_env \<Rightarrow> client_control \<Rightarrow> (server_control, 'w) client_io" where
  "send_control env message =
     io_bind allocate_request_id (\<lambda>request_id.
     io_bind (send_envelope env (envelope_new request_id message)) (\<lambda>response.
     io_return (env_message response)))"

definition control_client_new :: "'w \<Rightarrow> 'w client" where
  "control_client_new w = \<lparr>cl_next_request_id = 1, cl_world = w\<rparr>"

definition read_clock :: "'w client_env \<Rightarrow> (u64, 'w) client_io" where
  "read_clock env = on_world (\<lambda>w. let (t, w) = ce_clock env w in (Inr t, w))"

definition read_instant :: "'w client_env \<Rightarrow> (nat, 'w) client_io" where
  "read_instant env = on_world (\<lambda>w. let (t, w) = ce_instant env w in (Inr t, w))"

definition wait_tick :: "'w client_env \<Rightarrow> nat \<Rightarrow> (unit, 'w) client_io" where
  "wait_tick env period = on_world (\<lambda>w. (Inr (), ce_tick env period w))"

definition read_stop :: "'w client_env \<Rightarrow> (bool, 'w) client_io" where
  "read_stop env = on_world (\<lambda>w. let (b, w) = ce_stopped env w in (Inr b, w))"

definition sleep_for :: "'w client_env \<Rightarrow> nat \<Rightarrow> (unit, 'w) client_io" where
  "sleep_for env duration = on_world (\<lambda>w. (Inr (), ce_sleep env duration w))"

definition encode_for_sending :: "media_packet \<Rightarrow> (bytes, 's) io" where
  "encode_for_sending packet =
     (case packet_encode packet of
        Inl _ \<Rightarrow> io_fail (Bail (lit ''failed to encode media packet''))
      | Inr bs \<Rightarrow> io_return bs)"

definition send_media_packet :: "'w client_env \<Rightarrow> media_packet \<Rightarrow> (unit, 'w) client_io" where
  "send_media_packet env packet =
     io_bind (encode_for_sending packet) (\<lambda>bs. on_world (ce_send_datagram env bs))"

definition decode_received :: "bytes \<Rightarrow> (media_packet, 's) io" where
  "decode_received bs =
     (case packet_decode bs of
        Inl Panic \<Rightarrow> io_fail Panicked
      | Inl (Err _) \<Rightarrow> io_fail (Bail (lit ''failed to decode media packet''))
      | Inr packet \<Rightarrow> io_return packet)"

text \<open>
  \<open>recv_media_packet\<close> under a time limit: \<open>None\<close> when the time is over before a datagram came.
\<close>

definition recv_within :: "'w client_env \<Rightarrow> nat \<Rightarrow> (media_packet option, 'w) client_io" where
  "recv_within env duration =
     io_bind
       (on_world (\<lambda>w. case ce_recv env duration w of
          (None, w) \<Rightarrow> (Inr None, w)
        | (Some (Inl e), w) \<Rightarrow> (Inl e, w)
        | (Some (Inr bs), w) \<Rightarrow> (Inr (Some bs), w)))
       (\<lambda>received.
          case received of
            None \<Rightarrow> io_return None
          | Some bs \<Rightarrow> io_bind (decode_received bs) (\<lambda>packet. io_return (Some packet)))"

section \<open>Loops\<close>

text \<open>
  A loop whose step goes on with a new state (\<open>Inl\<close>) or ends with a value (\<open>Inr\<close>); \<open>None\<close> when it
  never ends.
\<close>

type_synonym ('a, 's) io_loop = "'s \<Rightarrow> ((client_error + 'a) \<times> 's) option"

partial_function (option) io_loop :: "('a \<Rightarrow> ('a + 'b, 's) io) \<Rightarrow> 'a \<Rightarrow> ('b, 's) io_loop" where
  "io_loop step a s =
     (case step a s of
        (Inl e, s') \<Rightarrow> Some (Inl e, s')
      | (Inr (Inr b), s') \<Rightarrow> Some (Inr b, s')
      | (Inr (Inl a'), s') \<Rightarrow> io_loop step a' s')"

definition loop_of :: "('a, 's) io \<Rightarrow> ('a, 's) io_loop" where
  "loop_of m = (\<lambda>s. Some (m s))"

definition loop_bind :: "('a, 's) io_loop \<Rightarrow> ('a \<Rightarrow> ('b, 's) io_loop) \<Rightarrow> ('b, 's) io_loop" where
  "loop_bind m f =
     (\<lambda>s. case m s of
        None \<Rightarrow> None
      | Some (Inl e, s) \<Rightarrow> Some (Inl e, s)
      | Some (Inr a, s) \<Rightarrow> f a s)"

text \<open>A loop ends when every step that goes on brings a measure of the state down.\<close>

lemma io_loop_returns:
  assumes "\<And>a s a' s'. step a s = (Inr (Inl a'), s') \<Longrightarrow> (m a' s' :: nat) < m a s"
  shows "\<exists>r. io_loop step a s = Some r"
proof (induction "m a s" arbitrary: a s rule: less_induct)
  case less
  show ?case
    using less [OF assms] by (subst io_loop.simps) (auto split: prod.split sum.split)
qed

text \<open>What every step keeps holds at the end.\<close>

lemma io_loop_invariant:
  assumes "io_loop step a s = Some (r, s')" and "I a s"
    and "\<And>a s a' s'. step a s = (Inr (Inl a'), s') \<Longrightarrow> I a s \<Longrightarrow> I a' s'"
    and "\<And>a s b s'. step a s = (Inr (Inr b), s') \<Longrightarrow> I a s \<Longrightarrow> Q (Inr b) s'"
    and "\<And>a s e s'. step a s = (Inl e, s') \<Longrightarrow> I a s \<Longrightarrow> Q (Inl e) s'"
  shows "Q r s'"
proof -
  let ?ok = "\<lambda>step. (\<forall>a s a' s'. step a s = (Inr (Inl a'), s') \<longrightarrow> I a s \<longrightarrow> I a' s') \<and>
    (\<forall>a s b s'. step a s = (Inr (Inr b), s') \<longrightarrow> I a s \<longrightarrow> Q (Inr b) s') \<and>
    (\<forall>a s e s'. step a s = (Inl e, s') \<longrightarrow> I a s \<longrightarrow> Q (Inl e) s')"
  have "?ok step \<longrightarrow> I a s \<longrightarrow> Q (fst rs) (snd rs)" if "io_loop step a s = Some rs" for a s rs
    by (rule io_loop.raw_induct [OF _ that]) (fastforce split: prod.splits sum.splits)
  then show ?thesis using assms by fastforce
qed

section \<open>Requests\<close>

definition failed :: "rstring \<Rightarrow> control_error \<Rightarrow> client_error" where
  "failed action error = Bail (action @ lit '' failed: '' @ err_message error)"

text \<open>
  \<open>match response.message\<close> with one accepted reply: \<open>select\<close> reads it, an \<open>Error\<close> fails with its
  message, and everything else is unexpected.
\<close>

definition expect_reply ::
  "'w client_env \<Rightarrow> client_control \<Rightarrow> rstring \<Rightarrow> rstring \<Rightarrow> (server_control \<Rightarrow> 'a option) \<Rightarrow>
   ('a, 'w) client_io"
where
  "expect_reply env message action what select =
     io_bind (send_control env message) (\<lambda>response.
       case select response of
         Some a \<Rightarrow> io_return a
       | None \<Rightarrow>
           (case response of
              Error error \<Rightarrow> io_fail (failed action error)
            | other \<Rightarrow> io_fail (Unexpected (lit ''unexpected '' @ what @ lit '' response'') other)))"

definition ensure_not_error :: "rstring \<Rightarrow> server_control \<Rightarrow> (unit, 'w) client_io" where
  "ensure_not_error action response =
     (case response of
        Error error \<Rightarrow> io_fail (failed action error)
      | _ \<Rightarrow> io_return ())"

definition join_room_request :: "'w client_env \<Rightarrow> room_id \<Rightarrow> (unit, 'w) client_io" where
  "join_room_request env room_id =
     io_bind (send_control env (JoinRoom \<lparr>join_room_id = room_id\<rparr>)) (ensure_not_error (lit ''join room''))"

section \<open>Keeping the connection alive\<close>

definition CONTROL_KEEPALIVE_INTERVAL :: nat where
  "CONTROL_KEEPALIVE_INTERVAL = 10 * 1000000000"

definition send_keepalive :: "'w client_env \<Rightarrow> (unit, 'w) client_io" where
  "send_keepalive env =
     io_bind (read_clock env) (\<lambda>nonce.
     expect_reply env (Ping \<lparr>ping_nonce = nonce\<rparr>) (lit ''keepalive'') (lit ''keepalive'')
       (\<lambda>r. case r of Pong pong \<Rightarrow> if pong_nonce pong = nonce then Some () else None | _ \<Rightarrow> None))"

text \<open>Each round takes at least a nanosecond off what remains, so the loops end.\<close>

lemma keepalive_chunk_pos: "0 < remaining \<Longrightarrow> 0 < min remaining CONTROL_KEEPALIVE_INTERVAL"
  by (simp add: CONTROL_KEEPALIVE_INTERVAL_def)

function sleep_with_keepalive :: "'w client_env \<Rightarrow> nat \<Rightarrow> (unit, 'w) client_io" where
  "sleep_with_keepalive env remaining =
     (if 0 < remaining then
        let chunk = min remaining CONTROL_KEEPALIVE_INTERVAL; rest = remaining - chunk in
        io_then (sleep_for env chunk)
          (if 0 < rest then io_then (send_keepalive env) (sleep_with_keepalive env rest)
           else io_return ())
      else io_return ())"
  by pat_completeness auto
termination
  by (relation "measure snd") (auto simp: CONTROL_KEEPALIVE_INTERVAL_def)

declare sleep_with_keepalive.simps [simp del]

function recv_media_packet_with_keepalive ::
  "'w client_env \<Rightarrow> nat \<Rightarrow> (media_packet option, 'w) client_io" where
  "recv_media_packet_with_keepalive env remaining =
     (if 0 < remaining then
        let chunk = min remaining CONTROL_KEEPALIVE_INTERVAL; rest = remaining - chunk in
        io_bind (recv_within env chunk) (\<lambda>received.
          case received of
            Some packet \<Rightarrow> io_return (Some packet)
          | None \<Rightarrow>
              if 0 < rest
              then io_then (send_keepalive env) (recv_media_packet_with_keepalive env rest)
              else io_return None)
      else io_return None)"
  by pat_completeness auto
termination
  by (relation "measure snd") (auto simp: CONTROL_KEEPALIVE_INTERVAL_def)

declare recv_media_packet_with_keepalive.simps [simp del]

end
