(* ===== verification/Client_Control.thy ===== *)
theory Client_Control
  imports Client_Io "HOL-Library.Product_Lexorder"
begin

text \<open>
  The control requests of the desktop client (\<open>main.rs\<close>), one function per request, and the
  choices it makes from the lists of the relay: which room and which streams. How Rust quotes a
  string with \<open>{:?}\<close> is a parameter.
\<close>

section \<open>Session requests\<close>

definition hello_identity :: "server_control \<Rightarrow> (user_id \<times> rstring, 's) io" where
  "hello_identity response =
     (case response of
        HelloAccepted accepted \<Rightarrow> io_return (ha_user_id accepted, ha_display_name accepted)
      | Error error \<Rightarrow> io_fail (failed (lit ''hello'') error)
      | other \<Rightarrow> io_fail (Unexpected (lit ''unexpected hello response'') other))"

definition authenticate_control :: "'w client_env \<Rightarrow> rstring \<Rightarrow> (unit, 'w) client_io" where
  "authenticate_control env access_token =
     expect_reply env (Authenticate \<lparr>auth_token = access_token\<rparr>) (lit ''authenticate'') (lit ''authenticate'')
       (\<lambda>r. case r of Authenticated _ \<Rightarrow> Some () | _ \<Rightarrow> None)"

definition time_sync_exchange ::
  "'w client_env \<Rightarrow> rstring \<Rightarrow> (clock_sync_estimate, 'w) client_io" where
  "time_sync_exchange env action =
     io_bind (read_clock env) (\<lambda>client_send_time_micros.
     io_bind (send_control env (TimeSync \<lparr>tsq_client_send_time_micros = client_send_time_micros\<rparr>)) (\<lambda>response.
     io_bind (read_clock env) (\<lambda>client_receive_time_micros.
       case response of
         TimeSyncR sync \<Rightarrow> io_return (estimate_clock_sync sync client_receive_time_micros)
       | Error error \<Rightarrow> io_fail (failed action error)
       | other \<Rightarrow> io_fail (Unexpected (lit ''unexpected '' @ action @ lit '' response'') other))))"

text \<open>The loop of \<open>sync_control_clock\<close>, from the sample \<open>index\<close> on; \<open>left\<close> samples are left.\<close>

fun sync_samples ::
  "'w client_env \<Rightarrow> nat \<Rightarrow> nat \<Rightarrow> u8 \<Rightarrow> ((u8 \<times> clock_sync_estimate) list, 'w) client_io" where
  "sync_samples env spacing 0 index = io_return []"
| "sync_samples env spacing (Suc left) index =
     io_bind (time_sync_exchange env (lit ''time sync'')) (\<lambda>estimate.
     io_then (if 0 < left \<and> 0 < spacing then sleep_for env spacing else io_return ())
       (io_bind (sync_samples env spacing left (index + 1)) (\<lambda>samples.
        io_return ((index, estimate) # samples))))"

definition sync_control_clock :: "'w client_env \<Rightarrow> args \<Rightarrow> (clock_sync_estimate, 'w) client_io" where
  "sync_control_clock env a =
     io_bind (sync_samples env (from_millis (unat (a_time_sync_spacing_ms a)))
                (unat (max (a_time_sync_samples a) 1)) 1) (\<lambda>samples.
     io_bind (io_some (lit ''time sync produced no samples'') (select_best_clock_sync_estimate samples))
       (\<lambda>(_, estimate). io_return estimate))"

definition refresh_control_clock :: "'w client_env \<Rightarrow> (clock_sync_estimate, 'w) client_io" where
  "refresh_control_clock env = time_sync_exchange env (lit ''time sync refresh'')"

definition voice_speaking_from_state :: "voice_control_state \<Rightarrow> bool" where
  "voice_speaking_from_state voice \<longleftrightarrow>
     \<not> vc_muted voice \<and> \<not> vc_deafened voice \<and> (\<not> vc_push_to_talk voice \<or> vc_ptt_active voice)"

definition set_voice_state_request ::
  "'w client_env \<Rightarrow> room_id \<Rightarrow> voice_control_state \<Rightarrow> (unit, 'w) client_io" where
  "set_voice_state_request env room_id voice =
     expect_reply env
       (SetVoiceState \<lparr>svs_room_id = room_id, svs_muted = vc_muted voice,
          svs_deafened = vc_deafened voice, svs_push_to_talk = vc_push_to_talk voice,
          svs_speaking = voice_speaking_from_state voice\<rparr>)
       (lit ''set voice state'') (lit ''set voice state'')
       (\<lambda>r. case r of VoiceStateUpdated _ \<Rightarrow> Some () | _ \<Rightarrow> None)"

definition set_voice_state_if_requested ::
  "'w client_env \<Rightarrow> args \<Rightarrow> room_id \<Rightarrow> (unit, 'w) client_io" where
  "set_voice_state_if_requested env a room_id =
     (if \<not> voice_state_requested a then io_return ()
      else set_voice_state_request env room_id (ui_voice_control_state a))"

section \<open>Room and stream requests\<close>

definition create_room_request :: "'w client_env \<Rightarrow> rstring \<Rightarrow> (room_id, 'w) client_io" where
  "create_room_request env name =
     expect_reply env (CreateRoom \<lparr>create_name = name\<rparr>) (lit ''create room'') (lit ''create room'')
       (\<lambda>r. case r of RoomCreated room \<Rightarrow> Some (created_room_id room) | _ \<Rightarrow> None)"

definition request_rooms :: "'w client_env \<Rightarrow> (room_summary list, 'w) client_io" where
  "request_rooms env =
     expect_reply env ListRooms (lit ''list rooms'') (lit ''list rooms'')
       (\<lambda>r. case r of RoomList list \<Rightarrow> Some (rl_rooms list) | _ \<Rightarrow> None)"

definition list_room_streams :: "'w client_env \<Rightarrow> room_id \<Rightarrow> (stream_summary list, 'w) client_io" where
  "list_room_streams env room_id =
     expect_reply env (ListStreams \<lparr>ls_room_id = room_id\<rparr>) (lit ''list streams'') (lit ''list streams'')
       (\<lambda>r. case r of StreamList list \<Rightarrow> Some (sl_streams list) | _ \<Rightarrow> None)"

definition list_room_participants ::
  "'w client_env \<Rightarrow> room_id \<Rightarrow> (participant_summary list, 'w) client_io" where
  "list_room_participants env room_id =
     expect_reply env (ListParticipants \<lparr>lp_room_id = room_id\<rparr>)
       (lit ''list participants'') (lit ''list participants'')
       (\<lambda>r. case r of ParticipantList list \<Rightarrow> Some (pl_participants list) | _ \<Rightarrow> None)"

definition set_stream_config_request :: "'w client_env \<Rightarrow> stream_config \<Rightarrow> (unit, 'w) client_io" where
  "set_stream_config_request env config =
     expect_reply env (SetStreamConfig config) (lit ''set stream config'') (lit ''stream config'')
       (\<lambda>r. case r of StreamConfigR returned \<Rightarrow> if returned = config then Some () else None | _ \<Rightarrow> None)"

definition publish_configured_stream :: "'w client_env \<Rightarrow> args \<Rightarrow> room_id \<Rightarrow> (unit, 'w) client_io" where
  "publish_configured_stream env a room_id =
     io_bind (io_of (args_codec a)) (\<lambda>codec.
     io_bind (io_of (protocol_media_kind a)) (\<lambda>media_kind.
     io_bind (send_control env
       (PublishStream \<lparr>pub_room_id = room_id, pub_stream_id = a_stream_id a, pub_codec = codec,
          pub_media_kind = media_kind\<rparr>)) (\<lambda>published.
     io_then (ensure_not_error (lit ''publish stream'') published)
       (io_bind (io_of (args_stream_config (os_source_size (ce_os env)) a room_id)) (\<lambda>stream_config.
        set_stream_config_request env stream_config)))))"

definition set_screen_stream_config ::
  "'w client_env \<Rightarrow> room_id \<Rightarrow> args \<Rightarrow> u32 \<Rightarrow> u32 \<Rightarrow> u16 \<Rightarrow> (unit, 'w) client_io" where
  "set_screen_stream_config env room_id a width height frames_per_second =
     set_stream_config_request env
       \<lparr>sc_room_id = room_id, sc_stream_id = a_stream_id a, sc_codec = H264, sc_width = width,
        sc_height = height, sc_frames_per_second = frames_per_second, sc_timebase_hz = 90000\<rparr>"

definition unpublish_stream_request ::
  "'w client_env \<Rightarrow> room_id \<Rightarrow> stream_id \<Rightarrow> (unit, 'w) client_io" where
  "unpublish_stream_request env room_id stream_id =
     expect_reply env (UnpublishStream \<lparr>unpub_room_id = room_id, unpub_stream_id = stream_id\<rparr>)
       (lit ''unpublish stream'') (lit ''unpublish'')
       (\<lambda>r. case r of
          StreamUnpublished u \<Rightarrow>
            if su_room_id u = room_id \<and> su_stream_id u = stream_id then Some () else None
        | _ \<Rightarrow> None)"

definition subscribe_stream_request ::
  "'w client_env \<Rightarrow> room_id \<Rightarrow> stream_id \<Rightarrow> (unit, 'w) client_io" where
  "subscribe_stream_request env room_id stream_id =
     io_bind (send_control env (SubscribeStream \<lparr>sub_room_id = room_id, sub_stream_id = stream_id\<rparr>))
       (ensure_not_error (lit ''subscribe stream''))"

definition unsubscribe_stream_request ::
  "'w client_env \<Rightarrow> room_id \<Rightarrow> stream_id \<Rightarrow> (unit, 'w) client_io" where
  "unsubscribe_stream_request env room_id stream_id =
     expect_reply env (UnsubscribeStream \<lparr>unsub_room_id = room_id, unsub_stream_id = stream_id\<rparr>)
       (lit ''unsubscribe stream'') (lit ''unsubscribe'')
       (\<lambda>r. case r of StreamUnsubscribed _ \<Rightarrow> Some () | _ \<Rightarrow> None)"

definition leave_room_request :: "'w client_env \<Rightarrow> room_id \<Rightarrow> (unit, 'w) client_io" where
  "leave_room_request env room_id =
     expect_reply env (LeaveRoom \<lparr>leave_room_id = room_id\<rparr>) (lit ''leave room'') (lit ''leave room'')
       (\<lambda>r. case r of RoomLeft _ \<Rightarrow> Some () | _ \<Rightarrow> None)"

definition poll_stream_config ::
  "'w client_env \<Rightarrow> room_id \<Rightarrow> stream_id \<Rightarrow> (stream_config, 'w) client_io" where
  "poll_stream_config env room_id stream_id =
     expect_reply env (PollStreamConfig \<lparr>psc_room_id = room_id, psc_stream_id = stream_id\<rparr>)
       (lit ''poll stream config'') (lit ''stream config'')
       (\<lambda>r. case r of StreamConfigR config \<Rightarrow> Some config | _ \<Rightarrow> None)"

definition poll_configured_streams ::
  "'w client_env \<Rightarrow> room_id \<Rightarrow> stream_summary list \<Rightarrow> (stream_config list, 'w) client_io" where
  "poll_configured_streams env room_id streams =
     io_each (\<lambda>stream. poll_stream_config env room_id (ssum_stream_id stream)) (filter ssum_has_config streams)"

section \<open>Media requests\<close>

definition set_publisher_target_media ::
  "'w client_env \<Rightarrow> room_id \<Rightarrow> args \<Rightarrow> (unit, 'w) client_io" where
  "set_publisher_target_media env room_id a =
     io_bind (send_control env
       (SetTargetBitrate \<lparr>stb_room_id = room_id, stb_stream_id = a_stream_id a,
          stb_bitrate_bps = synthetic_bitrate_bps a\<rparr>)) (\<lambda>bitrate.
     io_then (ensure_not_error (lit ''set target bitrate'') bitrate)
       (io_bind (send_control env
          (SetTargetFramerate \<lparr>stf_room_id = room_id, stf_stream_id = a_stream_id a,
             stf_frames_per_second = max (active_media_fps a) 1\<rparr>)) (\<lambda>framerate.
        ensure_not_error (lit ''set target framerate'') framerate)))"

definition request_publisher_feedback ::
  "'w client_env \<Rightarrow> room_id \<Rightarrow> stream_id \<Rightarrow> (publisher_feedback, 'w) client_io" where
  "request_publisher_feedback env room_id stream_id =
     expect_reply env (PollPublisherFeedback \<lparr>ppf_room_id = room_id, ppf_stream_id = stream_id\<rparr>)
       (lit ''poll publisher feedback'') (lit ''publisher feedback'')
       (\<lambda>r. case r of PublisherFeedback feedback \<Rightarrow> Some feedback | _ \<Rightarrow> None)"

definition request_stream_metrics ::
  "'w client_env \<Rightarrow> room_id \<Rightarrow> stream_id \<Rightarrow> (stream_metrics_snapshot, 'w) client_io" where
  "request_stream_metrics env room_id stream_id =
     expect_reply env (PollStreamMetrics \<lparr>psm_room_id = room_id, psm_stream_id = stream_id\<rparr>)
       (lit ''poll stream metrics'') (lit ''stream metrics'')
       (\<lambda>r. case r of StreamMetrics metrics \<Rightarrow> Some metrics | _ \<Rightarrow> None)"

definition send_keyframe_request ::
  "'w client_env \<Rightarrow> room_id \<Rightarrow> stream_id \<Rightarrow> keyframe_reason \<Rightarrow> (unit, 'w) client_io" where
  "send_keyframe_request env room_id stream_id reason =
     expect_reply env (RequestKeyframe \<lparr>rk_room_id = room_id, rk_stream_id = stream_id, rk_reason = reason\<rparr>)
       (lit ''request keyframe'') (lit ''request keyframe'')
       (\<lambda>r. case r of RequestKeyframeR _ \<Rightarrow> Some () | _ \<Rightarrow> None)"

text \<open>The reply to a statistics report is printed and not looked at.\<close>

definition send_viewer_stats ::
  "'w client_env \<Rightarrow> room_id \<Rightarrow> stream_id \<Rightarrow> client_media_stats \<Rightarrow> (unit, 'w) client_io" where
  "send_viewer_stats env room_id stream_id stats =
     io_then (send_control env (ViewerStats (to_viewer_report room_id stream_id stats))) (io_return ())"

text \<open>The loop over a batch, which stops at the first event that cannot be applied.\<close>

fun apply_events ::
  "(remote_input_event \<Rightarrow> remote_input_applier \<Rightarrow> (rstring + unit) \<times> remote_input_applier) \<Rightarrow>
   remote_input_event list \<Rightarrow> remote_input_applier \<Rightarrow> (rstring + unit) \<times> remote_input_applier" where
  "apply_events apply_event [] applier = (Inr (), applier)"
| "apply_events apply_event (event # events) applier =
     (case apply_event event applier of
        (Inl e, applier) \<Rightarrow> (Inl e, applier)
      | (Inr _, applier) \<Rightarrow> apply_events apply_event events applier)"

definition request_remote_input ::
  "'w client_env \<Rightarrow> room_id \<Rightarrow> stream_id \<Rightarrow> (remote_input_batch, 'w) client_io" where
  "request_remote_input env room_id stream_id =
     expect_reply env
       (PollRemoteInput \<lparr>pri_room_id = room_id, pri_stream_id = stream_id, pri_max_events = 64\<rparr>)
       (lit ''poll remote input'') (lit ''remote input poll'')
       (\<lambda>r. case r of RemoteInputBatch batch \<Rightarrow> Some batch | _ \<Rightarrow> None)"

definition poll_remote_input_and_apply ::
  "'w client_env \<Rightarrow> room_id \<Rightarrow> stream_id \<Rightarrow> remote_input_applier \<Rightarrow> (remote_input_applier, 'w) client_io"
where
  "poll_remote_input_and_apply env room_id stream_id applier =
     io_bind (request_remote_input env room_id stream_id) (\<lambda>batch.
       case apply_events (os_apply_input (ce_os env)) (rib_events batch) applier of
         (Inl e, _) \<Rightarrow> io_fail (Bail e)
       | (Inr _, applier) \<Rightarrow> io_return applier)"

definition send_input_event ::
  "'w client_env \<Rightarrow> room_id \<Rightarrow> stream_id \<Rightarrow> nat \<times> remote_input_kind \<Rightarrow> (unit, 'w) client_io" where
  "send_input_event env room_id stream_id indexed =
     (let (index, kind) = indexed in
      io_bind (read_clock env) (\<lambda>event_time_micros.
      expect_reply env
        (SendRemoteInput \<lparr>sri_room_id = room_id, sri_stream_id = stream_id,
           sri_sequence_number = of_nat index + 1, sri_event_time_micros = event_time_micros,
           sri_kind = kind\<rparr>)
        (lit ''send remote input'') (lit ''remote input'')
        (\<lambda>r. case r of RemoteInputQueued _ \<Rightarrow> Some () | _ \<Rightarrow> None)))"

definition send_remote_input_script_if_requested ::
  "'w client_env \<Rightarrow> args \<Rightarrow> room_id \<Rightarrow> stream_id \<Rightarrow> (unit, 'w) client_io" where
  "send_remote_input_script_if_requested env a room_id stream_id =
     (case a_remote_input_script a of
        None \<Rightarrow> io_return ()
      | Some script \<Rightarrow>
          if a_media_kind a = VoiceArg
          then io_fail (Bail (lit ''--remote-input-script requires a screen stream''))
          else io_then (io_each (send_input_event env room_id stream_id)
                         (enumerate 0 (remote_input_script_events a script))) (io_return ()))"

section \<open>Formatting\<close>

definition format_bool :: "bool \<Rightarrow> rstring" where
  "format_bool b = (if b then lit ''true'' else lit ''false'')"

fun media_kind_debug :: "media_kind \<Rightarrow> rstring" where
  "media_kind_debug Screen = lit ''Screen''"
| "media_kind_debug Voice = lit ''Voice''"
| "media_kind_debug ProbeMedia = lit ''Probe''"

fun codec_debug :: "codec_id \<Rightarrow> rstring" where
  "codec_debug H264 = lit ''H264''"
| "codec_debug Av1 = lit ''Av1''"
| "codec_debug Hevc = lit ''Hevc''"
| "codec_debug Opus = lit ''Opus''"

text \<open>\<open>join(", ")\<close>\<close>

fun join_comma :: "rstring list \<Rightarrow> rstring" where
  "join_comma [] = []"
| "join_comma [x] = x"
| "join_comma (x # xs) = x @ lit '', '' @ join_comma xs"

definition format_room_summaries :: "room_summary list \<Rightarrow> rstring" where
  "format_room_summaries rooms =
     (if rooms = [] then lit ''none''
      else join_comma (map (\<lambda>room.
        dec (unat (rs_room_id room)) @ lit '':'' @ rs_name room @ lit '' participants='' @
        dec (unat (rs_participant_count room)) @ lit '' streams='' @
        dec (unat (rs_published_stream_count room))) rooms))"

definition format_stream_summaries :: "stream_summary list \<Rightarrow> rstring" where
  "format_stream_summaries streams =
     (if streams = [] then lit ''none''
      else join_comma (map (\<lambda>stream.
        dec (unat (ssum_stream_id stream)) @ lit '':'' @ media_kind_debug (ssum_media_kind stream) @
        lit ''/'' @ codec_debug (ssum_codec stream) @ lit '' subscribers='' @
        dec (unat (ssum_subscriber_count stream)) @ lit '' configured='' @
        format_bool (ssum_has_config stream)) streams))"

section \<open>Choosing a room\<close>

definition viewer_room_key :: "room_summary \<Rightarrow> bool \<times> bool \<times> room_id" where
  "viewer_room_key room =
     (0 < rs_published_stream_count room, 0 < rs_participant_count room, rs_room_id room)"

definition select_viewer_room :: "room_summary list \<Rightarrow> rstring \<Rightarrow> room_summary option" where
  "select_viewer_room rooms room_name =
     (let candidates = filter (\<lambda>room. rs_name room = room_name) rooms;
          candidates = (if candidates = [] \<and> length rooms = 1 then rooms else candidates)
      in max_by_key viewer_room_key candidates)"

definition no_channel_matched :: "(rstring \<Rightarrow> rstring) \<Rightarrow> rstring \<Rightarrow> room_summary list \<Rightarrow> rstring" where
  "no_channel_matched quote channel_name rooms =
     lit ''no channel matched name '' @ quote channel_name @ lit ''; available channels: '' @
     format_room_summaries rooms"

definition select_ui_state_channel_id ::
  "(rstring \<Rightarrow> rstring) \<Rightarrow> args \<Rightarrow> room_summary list \<Rightarrow> room_id option \<Rightarrow> rstring + room_id option"
where
  "select_ui_state_channel_id quote a rooms selected_channel_override =
     (let listed = (\<lambda>room_id. list_ex (\<lambda>room. rs_room_id room = room_id) rooms) in
      if rooms = [] then Inr None
      else if \<exists>room_id \<in> set_option selected_channel_override. listed room_id
      then Inr selected_channel_override
      else
        and_then (selected_room_id a) (\<lambda>selected.
          case selected of
            Some room_id \<Rightarrow>
              if listed room_id then Inr (Some room_id)
              else Inl (lit ''channel '' @ dec (unat room_id) @
                        lit '' was not found; available channels: '' @ format_room_summaries rooms)
          | None \<Rightarrow>
              and_then (selected_channel_name a) (\<lambda>channel_name.
                case select_viewer_room rooms channel_name of
                  Some room \<Rightarrow> Inr (Some (rs_room_id room))
                | None \<Rightarrow> Inl (no_channel_matched quote channel_name rooms))))"

definition resolve_viewer_room_id :: "'w client_env \<Rightarrow> args \<Rightarrow> (room_id, 'w) client_io" where
  "resolve_viewer_room_id env a =
     io_bind (io_of (selected_room_id a)) (\<lambda>selected.
       case selected of
         Some room_id \<Rightarrow> io_return room_id
       | None \<Rightarrow>
           io_bind (request_rooms env) (\<lambda>rooms.
             if rooms = []
             then io_fail (Bail (lit ''no channels are available; start a broadcaster first or pass --channel-id''))
             else
               io_bind (io_of (selected_channel_name a)) (\<lambda>channel_name.
               io_bind (io_some (no_channel_matched (os_quote (ce_os env)) channel_name rooms)
                          (select_viewer_room rooms channel_name)) (\<lambda>room.
               io_return (rs_room_id room)))))"

section \<open>Choosing streams\<close>

definition wrong_kind :: "stream_id \<Rightarrow> media_kind \<Rightarrow> media_kind \<Rightarrow> rstring" where
  "wrong_kind stream_id actual expected =
     lit ''stream '' @ dec (unat stream_id) @ lit '' is '' @ media_kind_debug actual @
     lit '', but viewer requested '' @ media_kind_debug expected"

definition find_stream :: "stream_id \<Rightarrow> stream_summary list \<Rightarrow> stream_summary option" where
  "find_stream stream_id streams = List.find (\<lambda>stream. ssum_stream_id stream = stream_id) streams"

definition resolve_viewer_stream_id :: "args \<Rightarrow> stream_summary list \<Rightarrow> rstring + stream_id" where
  "resolve_viewer_stream_id a streams =
     and_then (protocol_media_kind a) (\<lambda>expected_kind.
       case find_stream (a_stream_id a) streams of
         Some stream \<Rightarrow>
           if ssum_media_kind stream \<noteq> expected_kind
           then Inl (wrong_kind (a_stream_id a) (ssum_media_kind stream) expected_kind)
           else Inr (ssum_stream_id stream)
       | None \<Rightarrow>
           (case filter (\<lambda>stream. ssum_media_kind stream = expected_kind) streams of
              [] \<Rightarrow>
                Inl (lit ''stream '' @ dec (unat (a_stream_id a)) @ lit '' was not found and no '' @
                     media_kind_debug expected_kind @ lit '' streams are available; streams: '' @
                     format_stream_summaries streams)
            | [stream] \<Rightarrow> Inr (ssum_stream_id stream)
            | _ \<Rightarrow>
                Inl (lit ''stream '' @ dec (unat (a_stream_id a)) @ lit '' was not found and multiple '' @
                     media_kind_debug expected_kind @
                     lit '' streams are available; pass --stream-id. streams: '' @
                     format_stream_summaries streams)))"

definition resolve_stream_id_for_kind ::
  "stream_id \<Rightarrow> media_kind \<Rightarrow> stream_summary list \<Rightarrow> rstring + stream_id option" where
  "resolve_stream_id_for_kind requested_stream_id expected_kind streams =
     (case find_stream requested_stream_id streams of
        None \<Rightarrow> Inr None
      | Some stream \<Rightarrow>
          if ssum_media_kind stream \<noteq> expected_kind
          then Inl (wrong_kind requested_stream_id (ssum_media_kind stream) expected_kind)
          else Inr (Some (ssum_stream_id stream)))"

definition stream_not_found :: "string \<Rightarrow> stream_id \<Rightarrow> stream_summary list \<Rightarrow> rstring" where
  "stream_not_found kind stream_id streams =
     lit kind @ lit '' stream '' @ dec (unat stream_id) @ lit '' was not found; streams: '' @
     format_stream_summaries streams"

definition resolve_dual_viewer_stream_ids ::
  "args \<Rightarrow> stream_summary list \<Rightarrow> rstring + stream_id \<times> stream_id" where
  "resolve_dual_viewer_stream_ids a streams =
     and_then (resolve_stream_id_for_kind (a_stream_id a) Screen streams) (\<lambda>screen.
       case screen of
         None \<Rightarrow> Inl (stream_not_found ''screen'' (a_stream_id a) streams)
       | Some screen_stream_id \<Rightarrow>
           and_then (args_voice_stream_id a) (\<lambda>requested_voice_stream_id.
           and_then (resolve_stream_id_for_kind requested_voice_stream_id Voice streams) (\<lambda>voice.
             case voice of
               None \<Rightarrow> Inl (stream_not_found ''voice'' requested_voice_stream_id streams)
             | Some voice_stream_id \<Rightarrow> Inr (screen_stream_id, voice_stream_id))))"

end
