(* ===== verification/Viewer_Media.thy ===== *)
theory Viewer_Media
  imports Client_Control
begin

text \<open>
  The viewer's media loops (\<open>main.rs\<close>): packets are received, counted, put together, decoded and
  shown or played; losses make the viewer ask for a keyframe; statistics go to the relay. The local
  variables of a loop are the fields of a record, and one round is a step that goes on or ends.
\<close>

section \<open>State\<close>

record viewer =
  vw_clock :: clock_sync_tracker
  vw_buffer :: reassembly_buffer
  vw_decoder :: video_decoder
  vw_playback :: frame_playback
  vw_stats :: client_media_stats
  vw_reassembled :: u32
  vw_decoded :: u32
  vw_received :: u64
  vw_awaiting_keyframe :: bool

record listener =
  vo_buffer :: reassembly_buffer
  vo_playback :: "audio_output_playback option"
  vo_stats :: client_media_stats
  vo_reassembled :: u32
  vo_decoded :: u32
  vo_received :: u64

section \<open>What all the loops do\<close>

text \<open>\<open>ClockSyncTracker::refresh_if_due\<close> with its readings of the clock and its exchange.\<close>

definition refresh_clock ::
  "'w client_env \<Rightarrow> clock_sync_tracker \<Rightarrow> (clock_sync_estimate \<times> clock_sync_tracker, 'w) client_io" where
  "refresh_clock env t =
     (if ct_refresh_interval t = None then io_return (ct_estimate t, t)
      else
        io_bind (read_instant env) (\<lambda>now.
          if now < ct_next_refresh_at t then io_return (ct_estimate t, t)
          else
            io_bind (refresh_control_clock env) (\<lambda>refreshed.
            io_bind (read_instant env) (\<lambda>now_after.
              case refresh_if_due now (Inr refreshed) now_after t of
                (Inl e, _) \<Rightarrow> io_fail e
              | (Inr estimate, t) \<Rightarrow> io_return (estimate, t)))))"

definition new_clock_tracker ::
  "'w client_env \<Rightarrow> args \<Rightarrow> clock_sync_estimate \<Rightarrow> (clock_sync_tracker, 'w) client_io" where
  "new_clock_tracker env a estimate =
     io_bind (read_instant env) (\<lambda>now.
     io_return (clock_sync_tracker_new estimate (clock_sync_refresh_interval a) now))"

definition push_packet ::
  "media_packet \<Rightarrow> u64 \<Rightarrow> reassembly_buffer \<Rightarrow> (reassembly_outcome \<times> reassembly_buffer, 's) io" where
  "push_packet packet now buffer =
     (case push_with_stats_at packet now buffer of
        (Inl e, _) \<Rightarrow> io_fail (ReassemblyFailed e)
      | (Inr outcome, buffer) \<Rightarrow> io_return (outcome, buffer))"

definition count_drops :: "reassembly_outcome \<Rightarrow> client_media_stats \<Rightarrow> client_media_stats" where
  "count_drops outcome s =
     (if 0 < ro_dropped_frames outcome then record_dropped_frames (ro_dropped_frames outcome) s else s)"

definition frame_arrived ::
  "u64 \<Rightarrow> i64 \<Rightarrow> u16 \<Rightarrow> encoded_frame \<Rightarrow> client_media_stats \<Rightarrow> client_media_stats" where
  "frame_arrived now clock_offset_micros reassembly_ms frame s =
     record_server_queue_latency (f_server_receive_time_micros frame) (f_server_send_time_micros frame)
     (record_sender_timestamps (f_sender_capture_time_micros frame)
        (f_sender_encode_done_time_micros frame) (f_sender_send_time_micros frame)
     (record_calibrated_latency (f_sender_capture_time_micros frame)
        (f_sender_clock_offset_micros frame) now clock_offset_micros
     (record_estimated_latency (f_sender_capture_time_micros frame) now
     (record_reassembly_millis reassembly_ms s))))"

definition is_multiple_of :: "u32 \<Rightarrow> u32 \<Rightarrow> bool" where
  "is_multiple_of n interval \<longleftrightarrow> (if interval = 0 then n = 0 else n mod interval = 0)"

definition report_if_due ::
  "'w client_env \<Rightarrow> args \<Rightarrow> room_id \<Rightarrow> stream_id \<Rightarrow> u32 \<Rightarrow> client_media_stats \<Rightarrow> (unit, 'w) client_io" where
  "report_if_due env a room_id stream_id frames stats =
     (if 0 < a_stats_interval_frames a \<and> is_multiple_of frames (a_stats_interval_frames a)
      then send_viewer_stats env room_id stream_id stats else io_return ())"

definition interval_millis :: "nat \<Rightarrow> u16" where
  "interval_millis duration = of_nat (min (duration div 1000000) 65535)"

section \<open>A packet of the screen stream\<close>

definition ask_keyframe ::
  "'w client_env \<Rightarrow> room_id \<Rightarrow> stream_id \<Rightarrow> keyframe_reason \<Rightarrow> viewer \<Rightarrow> (viewer, 'w) client_io" where
  "ask_keyframe env room_id stream_id reason v =
     (if vw_awaiting_keyframe v then io_return v
      else
        io_bind (send_keyframe_request env room_id stream_id reason) (\<lambda>_.
        io_return (v\<lparr>vw_awaiting_keyframe := True\<rparr>)))"

text \<open>The clock of the picture's record is read when it is rendered.\<close>

definition render_picture :: "'w client_env \<Rightarrow> decoded_frame \<Rightarrow> viewer \<Rightarrow> (viewer, 'w) client_io" where
  "render_picture env picture v =
     io_bind (read_instant env) (\<lambda>render_start.
     io_bind (read_clock env) (\<lambda>now.
       case frame_render (os_draw (ce_os env)) now picture (vw_playback v) of
         (Inl e, _) \<Rightarrow> io_fail (Bail e)
       | (Inr _, playback) \<Rightarrow>
           io_bind (read_instant env) (\<lambda>render_end.
           io_return (v\<lparr>vw_playback := playback,
             vw_stats :=
               (case fp_latest (frame_playback_state playback) of
                  None \<Rightarrow> vw_stats v
                | Some rendered \<Rightarrow>
                    record_render_duration (render_end - render_start)
                      (rf_render_time_micros rendered) (vw_stats v))\<rparr>))))"

definition show_frame ::
  "'w client_env \<Rightarrow> room_id \<Rightarrow> stream_id \<Rightarrow> encoded_frame \<Rightarrow> viewer \<Rightarrow> (viewer, 'w) client_io" where
  "show_frame env room_id stream_id frame v =
     io_bind (read_instant env) (\<lambda>decode_start.
       case video_decode (vw_decoder v) (f_bytes frame) of
         (decoded, decoder) \<Rightarrow>
           let v = v\<lparr>vw_decoder := decoder\<rparr> in
           io_bind (io_of_fault Bail decoded) (\<lambda>decoded.
             case decoded of
               Some picture \<Rightarrow>
                 io_bind (read_instant env) (\<lambda>decode_end.
                 let v = v\<lparr>vw_stats := record_decode_duration (decode_end - decode_start) (vw_stats v)\<rparr> in
                 io_bind (render_picture env picture v) (\<lambda>v.
                 io_return (v\<lparr>vw_stats := record_decoded_frame (vw_stats v),
                   vw_decoded := vw_decoded v + 1,
                   vw_awaiting_keyframe := vw_awaiting_keyframe v \<and> \<not> f_is_keyframe frame\<rparr>)))
             | None \<Rightarrow>
                 ask_keyframe env room_id stream_id DecoderRecovery
                   (v\<lparr>vw_stats := record_dropped_frame (vw_stats v)\<rparr>)))"

definition screen_packet ::
  "'w client_env \<Rightarrow> args \<Rightarrow> room_id \<Rightarrow> stream_id \<Rightarrow> u16 \<Rightarrow> u64 \<Rightarrow> clock_sync_estimate \<Rightarrow> media_packet \<Rightarrow>
   viewer \<Rightarrow> (viewer, 'w) client_io"
where
  "screen_packet env a room_id stream_id interval_ms now estimate packet v =
     (let lost_packets_before = cm_lost_packets (vw_stats v);
          stats = record_packet packet (vw_stats v);
          v = v\<lparr>vw_stats := stats, vw_received := vw_received v + 1\<rparr>
      in io_bind (push_packet packet now (vw_buffer v)) (\<lambda>(outcome, buffer).
         let packet_loss_detected = lost_packets_before < cm_lost_packets stats;
             v = v\<lparr>vw_buffer := buffer, vw_stats := count_drops outcome stats\<rparr>
         in io_bind
              (if packet_loss_detected \<or> 0 < ro_dropped_frames outcome
               then ask_keyframe env room_id stream_id PacketLoss v else io_return v) (\<lambda>v.
            let v = v\<lparr>vw_stats := (vw_stats v)\<lparr>cm_jitter_buffer_ms :=
                  estimated_jitter_ms (max interval_ms 1) (vw_buffer v)\<rparr>\<rparr>
            in case ro_frame outcome of
                 None \<Rightarrow> io_return v
               | Some frame \<Rightarrow>
                   let v = v\<lparr>vw_stats := frame_arrived now (cs_clock_offset_micros estimate)
                         (ro_reassembly_ms outcome) frame (vw_stats v)\<rparr>
                   in io_bind (show_frame env room_id stream_id frame v) (\<lambda>v.
                      let v = v\<lparr>vw_reassembled := vw_reassembled v + 1\<rparr> in
                      io_then
                        (report_if_due env a room_id stream_id (vw_reassembled v) (vw_stats v))
                        (io_return v)))))"

section \<open>A packet of the voice stream\<close>

text \<open>Without a playback, which is so when the viewer is deafened, a decoded frame is an error.\<close>

definition play_frame :: "'w client_env \<Rightarrow> encoded_frame \<Rightarrow> listener \<Rightarrow> (listener, 'w) client_io" where
  "play_frame env frame v =
     io_bind (read_instant env) (\<lambda>decode_start.
     io_bind (io_of (opus_decode (f_bytes frame))) (\<lambda>decoded.
       case decoded of
         Some audio \<Rightarrow>
           io_bind (read_instant env) (\<lambda>decode_end.
           let stats = record_decode_duration (decode_end - decode_start) (vo_stats v) in
           io_bind (read_instant env) (\<lambda>play_start.
           io_bind (io_some (lit ''voice playback is disabled while deafened'') (vo_playback v)) (\<lambda>playback.
             case audio_output_play (os_speaker (ce_os env)) audio playback of
               (Inl e, _) \<Rightarrow> io_fail (Bail e)
             | (Inr _, playback) \<Rightarrow>
                 io_bind (read_instant env) (\<lambda>play_end.
                 io_bind (read_clock env) (\<lambda>render_time.
                 io_return (v\<lparr>vo_playback := Some playback,
                   vo_stats := record_decoded_frame
                     (record_render_duration (play_end - play_start) render_time stats),
                   vo_decoded := vo_decoded v + 1\<rparr>))))))
       | None \<Rightarrow> io_return (v\<lparr>vo_stats := record_dropped_frame (vo_stats v)\<rparr>)))"

definition voice_packet ::
  "'w client_env \<Rightarrow> args \<Rightarrow> room_id \<Rightarrow> stream_id \<Rightarrow> u16 \<Rightarrow> u64 \<Rightarrow> clock_sync_estimate \<Rightarrow> media_packet \<Rightarrow>
   listener \<Rightarrow> (listener, 'w) client_io"
where
  "voice_packet env a room_id stream_id interval_ms now estimate packet v =
     (let v = v\<lparr>vo_stats := record_packet packet (vo_stats v), vo_received := vo_received v + 1\<rparr> in
      io_bind (push_packet packet now (vo_buffer v)) (\<lambda>(outcome, buffer).
      let v = v\<lparr>vo_buffer := buffer,
            vo_stats := (count_drops outcome (vo_stats v))\<lparr>cm_jitter_buffer_ms :=
              estimated_jitter_ms (max interval_ms 1) buffer\<rparr>\<rparr>
      in case ro_frame outcome of
           None \<Rightarrow> io_return v
         | Some frame \<Rightarrow>
             let v = v\<lparr>vo_stats := frame_arrived now (cs_clock_offset_micros estimate)
                   (ro_reassembly_ms outcome) frame (vo_stats v)\<rparr>
             in io_bind (play_frame env frame v) (\<lambda>v.
                let v = v\<lparr>vo_reassembled := vo_reassembled v + 1\<rparr> in
                io_then (report_if_due env a room_id stream_id (vo_reassembled v) (vo_stats v))
                  (io_return v))))"

end
