(* ===== verification/Viewer_Loops.thy ===== *)
theory Viewer_Loops
  imports Viewer_Media
begin

text \<open>
  The loops of the three viewers (\<open>run_synthetic_screen_viewer_media\<close>,
  \<open>run_synthetic_voice_viewer_media\<close>, \<open>run_synthetic_dual_viewer_media\<close>): one round waits for a packet
  and handles it; a loop ends when enough frames are put together, or, when only a running time is
  given, when no packet comes any more. The summary at the end is printed and left out.
\<close>

definition idle_timeout :: "args \<Rightarrow> nat" where
  "idle_timeout a = from_millis (unat (a_media_idle_timeout_ms a))"

text \<open>What a loop does when no packet came in time.\<close>

definition idle :: "args \<Rightarrow> bool \<Rightarrow> string \<Rightarrow> 'b \<Rightarrow> ('b, 's) io" where
  "idle a received what b =
     (if a_media_frames a = 0 \<and> received then io_return b
      else io_fail (Bail (lit ''timed out waiting for '' @ lit what)))"

section \<open>The screen\<close>

definition screen_viewer_new ::
  "'w client_env \<Rightarrow> args \<Rightarrow> u16 \<Rightarrow> clock_sync_estimate \<Rightarrow> (viewer, 'w) client_io" where
  "screen_viewer_new env a interval_ms estimate =
     io_bind (new_clock_tracker env a estimate) (\<lambda>clock.
     io_bind (io_of (video_decoder_for (os_decoder_probe (ce_os env)) a)) (\<lambda>decoder.
     io_bind (io_of (video_playback (os_open_window (ce_os env)) a)) (\<lambda>playback.
     io_return \<lparr>vw_clock = clock, vw_buffer = frame_reassembly_buffer a interval_ms,
       vw_decoder = decoder, vw_playback = playback, vw_stats = client_media_stats_default,
       vw_reassembled = 0, vw_decoded = 0, vw_received = 0, vw_awaiting_keyframe = False\<rparr>)))"

definition screen_viewer_step ::
  "'w client_env \<Rightarrow> args \<Rightarrow> room_id \<Rightarrow> stream_id \<Rightarrow> u16 \<Rightarrow> u32 \<Rightarrow> viewer \<Rightarrow>
   (viewer + viewer, 'w) client_io"
where
  "screen_viewer_step env a room_id stream_id interval_ms target v =
     (if vw_reassembled v < target then
        io_bind (recv_media_packet_with_keepalive env (idle_timeout a)) (\<lambda>received.
          case received of
            None \<Rightarrow> idle a (0 < vw_received v) ''media packet'' (Inr v)
          | Some packet \<Rightarrow>
              io_bind (read_clock env) (\<lambda>now.
              io_bind (refresh_clock env (vw_clock v)) (\<lambda>(estimate, clock).
              io_bind (screen_packet env a room_id stream_id interval_ms now estimate packet
                         (v\<lparr>vw_clock := clock\<rparr>)) (\<lambda>v.
              io_return (Inl v)))))
      else io_return (Inr v))"

definition final_stats ::
  "'w client_env \<Rightarrow> room_id \<Rightarrow> stream_id \<Rightarrow> u64 \<Rightarrow> client_media_stats \<Rightarrow> (unit, 'w) client_io" where
  "final_stats env room_id stream_id received stats =
     (if 0 < received then send_viewer_stats env room_id stream_id stats else io_return ())"

definition run_screen_viewer ::
  "'w client_env \<Rightarrow> args \<Rightarrow> room_id \<Rightarrow> stream_id \<Rightarrow> clock_sync_estimate \<Rightarrow> (viewer, 'w client) io_loop"
where
  "run_screen_viewer env a room_id stream_id estimate =
     loop_bind (loop_of (io_of (synthetic_media_frames a))) (\<lambda>target.
     loop_bind (loop_of (io_of (media_frame_interval a))) (\<lambda>interval.
     let interval_ms = interval_millis interval in
     loop_bind (loop_of (screen_viewer_new env a interval_ms estimate)) (\<lambda>v.
     loop_bind (io_loop (screen_viewer_step env a room_id stream_id interval_ms target) v) (\<lambda>v.
     loop_of (io_then (final_stats env room_id stream_id (vw_received v) (vw_stats v))
       (io_return v))))))"

section \<open>The voice\<close>

definition listener_new ::
  "args \<Rightarrow> u16 \<Rightarrow> audio_output_playback option \<Rightarrow> listener" where
  "listener_new a interval_ms playback =
     \<lparr>vo_buffer = frame_reassembly_buffer a interval_ms, vo_playback = playback,
      vo_stats = client_media_stats_default, vo_reassembled = 0, vo_decoded = 0, vo_received = 0\<rparr>"

definition voice_viewer_step ::
  "'w client_env \<Rightarrow> args \<Rightarrow> room_id \<Rightarrow> stream_id \<Rightarrow> u16 \<Rightarrow> u32 \<Rightarrow> clock_sync_tracker \<times> listener \<Rightarrow>
   ((clock_sync_tracker \<times> listener) + listener, 'w) client_io"
where
  "voice_viewer_step env a room_id stream_id interval_ms target = (\<lambda>(clock, v).
     if vo_reassembled v < target then
       io_bind (recv_media_packet_with_keepalive env (idle_timeout a)) (\<lambda>received.
         case received of
           None \<Rightarrow> idle a (0 < vo_received v) ''audio packet'' (Inr v)
         | Some packet \<Rightarrow>
             io_bind (read_clock env) (\<lambda>now.
             io_bind (refresh_clock env clock) (\<lambda>(estimate, clock).
             io_bind (voice_packet env a room_id stream_id interval_ms now estimate packet v) (\<lambda>v.
             io_return (Inl (clock, v))))))
     else io_return (Inr v))"

definition run_voice_viewer ::
  "'w client_env \<Rightarrow> args \<Rightarrow> room_id \<Rightarrow> stream_id \<Rightarrow> clock_sync_estimate \<Rightarrow>
   (listener option, 'w client) io_loop"
where
  "run_voice_viewer env a room_id stream_id estimate =
     (if a_deafened a then loop_of (io_return None)
      else
        loop_bind (loop_of (io_of (synthetic_media_frames a))) (\<lambda>target.
        loop_bind (loop_of (io_of (media_frame_interval a))) (\<lambda>interval.
        let interval_ms = interval_millis interval in
        loop_bind (loop_of (new_clock_tracker env a estimate)) (\<lambda>clock.
        loop_bind (loop_of (io_of (audio_playback (os_windows (ce_os env)) a))) (\<lambda>playback.
        loop_bind (io_loop (voice_viewer_step env a room_id stream_id interval_ms target)
                     (clock, listener_new a interval_ms (Some playback))) (\<lambda>v.
        loop_of (io_then (final_stats env room_id stream_id (vo_received v) (vo_stats v))
          (io_return (Some v)))))))))"

section \<open>Both\<close>

text \<open>
  The targets and the intervals of the two streams, and their ids; the clock of the loop is that of
  the screen's state.
\<close>

record dual_plan =
  du_screen_stream_id :: stream_id
  du_voice_stream_id :: stream_id
  du_screen_target :: u32
  du_voice_target :: u32
  du_screen_interval_ms :: u16
  du_voice_interval_ms :: u16

definition dual_plan_new :: "args \<Rightarrow> stream_id \<Rightarrow> stream_id \<Rightarrow> rstring + dual_plan" where
  "dual_plan_new a screen_stream_id voice_stream_id =
     and_then (synthetic_media_frames_for_fps a (a_media_fps a) (lit ''--media-fps'')) (\<lambda>screen_target.
     and_then
       (if a_deafened a then Inr 0
        else synthetic_media_frames_for_fps a (a_voice_fps a) (lit ''--voice-fps''))
       (\<lambda>voice_target.
     and_then (media_frame_interval_for_fps a (a_media_fps a) (lit ''--media-fps'')) (\<lambda>screen_interval.
     and_then (media_frame_interval_for_fps a (a_voice_fps a) (lit ''--voice-fps''))
       (\<lambda>voice_interval.
     Inr \<lparr>du_screen_stream_id = screen_stream_id, du_voice_stream_id = voice_stream_id,
       du_screen_target = screen_target, du_voice_target = voice_target,
       du_screen_interval_ms = interval_millis screen_interval,
       du_voice_interval_ms = interval_millis voice_interval\<rparr>))))"

definition dual_playback :: "bool \<Rightarrow> args \<Rightarrow> rstring + audio_output_playback option" where
  "dual_playback windows a =
     (if a_deafened a then Inr None else and_then (audio_playback windows a) (\<lambda>p. Inr (Some p)))"

definition dual_viewer_step ::
  "'w client_env \<Rightarrow> args \<Rightarrow> room_id \<Rightarrow> dual_plan \<Rightarrow> viewer \<times> listener \<Rightarrow>
   ((viewer \<times> listener) + (viewer \<times> listener), 'w) client_io"
where
  "dual_viewer_step env a room_id plan = (\<lambda>(screen, voice).
     if vw_reassembled screen < du_screen_target plan \<or> vo_reassembled voice < du_voice_target plan then
       io_bind (recv_media_packet_with_keepalive env (idle_timeout a)) (\<lambda>received.
         case received of
           None \<Rightarrow>
             idle a (0 < vw_received screen \<or> 0 < vo_received voice) ''dual-stream media packet''
               (Inr (screen, voice))
         | Some packet \<Rightarrow>
             io_bind (read_clock env) (\<lambda>now.
             io_bind (refresh_clock env (vw_clock screen)) (\<lambda>(estimate, clock).
             let screen = screen\<lparr>vw_clock := clock\<rparr>;
                 packet_stream_id = h_room_stream_id (p_header packet)
             in if packet_stream_id = du_screen_stream_id plan \<and>
                   vw_reassembled screen < du_screen_target plan then
                  io_bind (screen_packet env a room_id (du_screen_stream_id plan)
                             (du_screen_interval_ms plan) now estimate packet screen) (\<lambda>screen.
                  io_return (Inl (screen, voice)))
                else if packet_stream_id = du_voice_stream_id plan \<and>
                   vo_reassembled voice < du_voice_target plan then
                  io_bind (voice_packet env a room_id (du_voice_stream_id plan)
                             (du_voice_interval_ms plan) now estimate packet voice) (\<lambda>voice.
                  io_return (Inl (screen, voice)))
                else io_return (Inl (screen, voice)))))
     else io_return (Inr (screen, voice)))"

definition run_dual_viewer ::
  "'w client_env \<Rightarrow> args \<Rightarrow> room_id \<Rightarrow> stream_id \<Rightarrow> stream_id \<Rightarrow> clock_sync_estimate \<Rightarrow>
   (viewer \<times> listener, 'w client) io_loop"
where
  "run_dual_viewer env a room_id screen_stream_id voice_stream_id estimate =
     loop_bind (loop_of (io_of (dual_plan_new a screen_stream_id voice_stream_id))) (\<lambda>plan.
     loop_bind (loop_of (screen_viewer_new env a (du_screen_interval_ms plan) estimate)) (\<lambda>screen.
     loop_bind (loop_of (io_of (dual_playback (os_windows (ce_os env)) a))) (\<lambda>playback.
     loop_bind (io_loop (dual_viewer_step env a room_id plan)
                  (screen, listener_new a (du_voice_interval_ms plan) playback)) (\<lambda>(screen, voice).
     loop_of
       (io_then (final_stats env room_id screen_stream_id (vw_received screen) (vw_stats screen))
       (io_then (final_stats env room_id voice_stream_id (vo_received voice) (vo_stats voice))
          (io_return (screen, voice))))))))"

definition run_viewer_media ::
  "'w client_env \<Rightarrow> args \<Rightarrow> room_id \<Rightarrow> stream_id \<Rightarrow> clock_sync_estimate \<Rightarrow> (unit, 'w client) io_loop"
where
  "run_viewer_media env a room_id stream_id estimate =
     (case a_media_kind a of
        ScreenArg \<Rightarrow>
          loop_bind (run_screen_viewer env a room_id stream_id estimate) (\<lambda>_. loop_of (io_return ()))
      | VoiceArg \<Rightarrow>
          loop_bind (run_voice_viewer env a room_id stream_id estimate) (\<lambda>_. loop_of (io_return ()))
      | BothArg \<Rightarrow> loop_of (io_fail (Bail (lit ''viewer --media-kind both is not supported yet''))))"

end
