(* ===== verification/Publisher_Adapt.thy ===== *)
theory Publisher_Adapt
  imports Client_Args
begin

text \<open>
  How a publisher adapts to the feedback of the relay: \<open>apply_publisher_feedback\<close> and
  \<open>apply_audio_publisher_feedback\<close> of \<open>main.rs\<close>. The variables of the media loops that they change
  through references are fields of a record; a ticker is its period, which is all that the code sets.
\<close>

section \<open>Definitions\<close>

definition synthetic_payload_bytes_for_bitrate :: "u32 \<Rightarrow> u16 \<Rightarrow> nat" where
  "synthetic_payload_bytes_for_bitrate bitrate_bps frames_per_second =
     (let fps = ucast (max frames_per_second 1) :: u32
      in max (unat (bitrate_bps div 8 div fps)) MIN_SYNTHETIC_PAYLOAD_BYTES)"

record publisher =
  pb_encoder :: video_encoder
  pb_active_fps :: u16
  pb_target_width :: u32
  pb_target_height :: u32
  pb_ticker :: nat

definition adapt_bitrate :: "publisher_feedback \<Rightarrow> publisher \<Rightarrow> publisher" where
  "adapt_bitrate feedback p =
     (let target_bitrate = pf_aggregate_available_bitrate_bps feedback in
      if 0 < target_bitrate \<and> target_bitrate \<noteq> encoder_bitrate_bps (pb_encoder p)
      then p\<lparr>pb_encoder :=
               encoder_set_target_payload_bytes
                 (synthetic_payload_bytes_for_bitrate target_bitrate (max (pb_active_fps p) 1))
                 (encoder_update_bitrate target_bitrate (pb_encoder p))\<rparr>
      else p)"

definition adapt_frame_rate :: "publisher_feedback \<Rightarrow> publisher \<Rightarrow> publisher" where
  "adapt_frame_rate feedback p =
     (let fps = pf_target_frames_per_second feedback in
      if 0 < fps \<and> fps \<noteq> pb_active_fps p
      then
        let encoder = encoder_update_frame_rate fps (pb_encoder p)
        in p\<lparr>pb_active_fps := fps,
             pb_encoder := encoder_set_target_payload_bytes
               (synthetic_payload_bytes_for_bitrate (encoder_bitrate_bps encoder) (max fps 1)) encoder,
             pb_ticker := from_micros (media_interval_micros fps)\<rparr>
      else p)"

definition adapt_resolution :: "publisher_feedback \<Rightarrow> publisher \<Rightarrow> bool \<times> publisher" where
  "adapt_resolution feedback p =
     (let width = pf_target_width feedback; height = pf_target_height feedback in
      if 0 < width \<and> 0 < height \<and> (width \<noteq> pb_target_width p \<or> height \<noteq> pb_target_height p)
      then (True, p\<lparr>pb_target_width := width, pb_target_height := height,
                    pb_encoder := encoder_request_keyframe
                      (encoder_update_resolution width height (pb_encoder p))\<rparr>)
      else (False, p))"

text \<open>The result says whether the resolution changed.\<close>

definition apply_publisher_feedback :: "publisher_feedback \<Rightarrow> publisher \<Rightarrow> bool \<times> publisher" where
  "apply_publisher_feedback feedback p =
     adapt_resolution feedback (adapt_frame_rate feedback (adapt_bitrate feedback p))"

record audio_publisher =
  ap_encoder :: opus_config
  ap_active_fps :: u16
  ap_ticker :: nat

definition apply_audio_publisher_feedback ::
  "publisher_feedback \<Rightarrow> audio_publisher \<Rightarrow> audio_publisher" where
  "apply_audio_publisher_feedback feedback p =
     (let target_bitrate = pf_aggregate_available_bitrate_bps feedback;
          fps = pf_target_frames_per_second feedback;
          p = (if 0 < target_bitrate \<and> target_bitrate \<noteq> oc_bitrate_bps (ap_encoder p)
               then p\<lparr>ap_encoder := opus_update_bitrate target_bitrate (ap_encoder p)\<rparr> else p)
      in if 0 < fps \<and> fps \<noteq> ap_active_fps p
         then p\<lparr>ap_active_fps := fps,
                ap_encoder := opus_set_frames_per_second fps (ap_encoder p),
                ap_ticker := from_micros (media_interval_micros fps)\<rparr>
         else p)"

section \<open>Lemmas\<close>

fun encoder_keyframe_requested :: "video_encoder \<Rightarrow> bool" where
  "encoder_keyframe_requested (SyntheticEncoder e) = en_keyframe_requested e"
| "encoder_keyframe_requested (MediaFoundationEncoder e) = mf_keyframe_requested e"

lemma encoder_after [simp]:
  "encoder_bitrate_bps (encoder_update_bitrate b e) = b"
  "encoder_bitrate_bps (encoder_update_frame_rate r e) = encoder_bitrate_bps e"
  "encoder_bitrate_bps (encoder_update_resolution w h e) = encoder_bitrate_bps e"
  "encoder_bitrate_bps (encoder_request_keyframe e) = encoder_bitrate_bps e"
  "encoder_bitrate_bps (encoder_set_target_payload_bytes n e) = encoder_bitrate_bps e"
  "encoder_target_payload_bytes (encoder_set_target_payload_bytes n e) = n"
  "encoder_target_payload_bytes (encoder_update_resolution w h e) = encoder_target_payload_bytes e"
  "encoder_target_payload_bytes (encoder_request_keyframe e) = encoder_target_payload_bytes e"
  "encoder_keyframe_requested (encoder_update_bitrate b e) = encoder_keyframe_requested e"
  "encoder_keyframe_requested (encoder_update_frame_rate r e) = encoder_keyframe_requested e"
  "encoder_keyframe_requested (encoder_set_target_payload_bytes n e) = encoder_keyframe_requested e"
  "encoder_keyframe_requested (encoder_request_keyframe e)"
  by (cases e; simp)+

text \<open>The fields after each of the three steps; a target of zero asks for nothing.\<close>

lemma positive_target: "0 < x \<longleftrightarrow> x \<noteq> 0" for x :: "'a::len word"
  by (simp add: word_neq_0_conv)

lemma adapt_bitrate_fields:
  "encoder_bitrate_bps (pb_encoder (adapt_bitrate f p)) =
     (let b = pf_aggregate_available_bitrate_bps f in
      if b = 0 then encoder_bitrate_bps (pb_encoder p) else b)"
  "encoder_target_payload_bytes (pb_encoder (adapt_bitrate f p)) =
     (let b = encoder_bitrate_bps (pb_encoder (adapt_bitrate f p)) in
      if b = encoder_bitrate_bps (pb_encoder p) then encoder_target_payload_bytes (pb_encoder p)
      else synthetic_payload_bytes_for_bitrate b (max (pb_active_fps p) 1))"
  "encoder_keyframe_requested (pb_encoder (adapt_bitrate f p)) = encoder_keyframe_requested (pb_encoder p)"
  "pb_active_fps (adapt_bitrate f p) = pb_active_fps p"
  "pb_target_width (adapt_bitrate f p) = pb_target_width p"
  "pb_target_height (adapt_bitrate f p) = pb_target_height p"
  "pb_ticker (adapt_bitrate f p) = pb_ticker p"
  by (simp_all add: adapt_bitrate_def Let_def positive_target)

lemma adapt_frame_rate_fields:
  "encoder_bitrate_bps (pb_encoder (adapt_frame_rate f p)) = encoder_bitrate_bps (pb_encoder p)"
  "pb_active_fps (adapt_frame_rate f p) =
     (let r = pf_target_frames_per_second f in if r = 0 then pb_active_fps p else r)"
  "encoder_target_payload_bytes (pb_encoder (adapt_frame_rate f p)) =
     (let r = pb_active_fps (adapt_frame_rate f p) in
      if r = pb_active_fps p then encoder_target_payload_bytes (pb_encoder p)
      else synthetic_payload_bytes_for_bitrate (encoder_bitrate_bps (pb_encoder p)) (max r 1))"
  "encoder_keyframe_requested (pb_encoder (adapt_frame_rate f p)) = encoder_keyframe_requested (pb_encoder p)"
  "pb_target_width (adapt_frame_rate f p) = pb_target_width p"
  "pb_target_height (adapt_frame_rate f p) = pb_target_height p"
  "pb_ticker (adapt_frame_rate f p) =
     (let r = pb_active_fps (adapt_frame_rate f p) in
      if r = pb_active_fps p then pb_ticker p else from_micros (media_interval_micros r))"
  by (simp_all add: adapt_frame_rate_def Let_def positive_target)

definition asked_size :: "publisher_feedback \<Rightarrow> publisher \<Rightarrow> u32 \<times> u32" where
  "asked_size f p =
     (if pf_target_width f = 0 \<or> pf_target_height f = 0
      then (pb_target_width p, pb_target_height p) else (pf_target_width f, pf_target_height f))"

lemma adapt_resolution_fields:
  "fst (adapt_resolution f p) \<longleftrightarrow> asked_size f p \<noteq> (pb_target_width p, pb_target_height p)"
  "pb_target_width (snd (adapt_resolution f p)) = fst (asked_size f p)"
  "pb_target_height (snd (adapt_resolution f p)) = snd (asked_size f p)"
  "encoder_bitrate_bps (pb_encoder (snd (adapt_resolution f p))) = encoder_bitrate_bps (pb_encoder p)"
  "encoder_target_payload_bytes (pb_encoder (snd (adapt_resolution f p))) =
     encoder_target_payload_bytes (pb_encoder p)"
  "encoder_keyframe_requested (pb_encoder (snd (adapt_resolution f p))) \<longleftrightarrow>
     encoder_keyframe_requested (pb_encoder p) \<or> fst (adapt_resolution f p)"
  "pb_active_fps (snd (adapt_resolution f p)) = pb_active_fps p"
  "pb_ticker (snd (adapt_resolution f p)) = pb_ticker p"
  by (auto simp: adapt_resolution_def asked_size_def Let_def positive_target)

lemma target_size_steps: "asked_size f (adapt_frame_rate f (adapt_bitrate f p)) = asked_size f p"
  by (simp add: asked_size_def adapt_bitrate_fields adapt_frame_rate_fields)

lemmas adapted_fields = target_size_steps adapt_resolution_fields adapt_frame_rate_fields
  adapt_bitrate_fields

text \<open>A publisher that is where the feedback wants it stays there.\<close>

lemma adapted_stays:
  assumes "pf_aggregate_available_bitrate_bps f \<in> {0, encoder_bitrate_bps (pb_encoder q)}"
    and "pf_target_frames_per_second f \<in> {0, pb_active_fps q}"
    and "asked_size f q = (pb_target_width q, pb_target_height q)"
  shows "apply_publisher_feedback f q = (False, q)"
proof -
  have "adapt_bitrate f q = q" "adapt_frame_rate f q = q" "adapt_resolution f q = (False, q)"
    using assms by (auto simp: adapt_bitrate_def adapt_frame_rate_def adapt_resolution_def
        asked_size_def Let_def positive_target split: if_splits)
  then show ?thesis by (simp add: apply_publisher_feedback_def)
qed

lemma unat_ucast_fps: "unat (ucast (r :: u16) :: u32) = unat r"
  by (simp add: unsigned_ucast_eq take_bit_nat_eq_self order_less_trans [OF unat_u16_less])

lemma unat_max_fps: "unat (max r 1 :: u16) = max (unat r) 1"
  by (simp add: max_def word_le_nat_alt)

text \<open>What a run of the asked length takes: the frames cover it, and one frame less would not.\<close>

lemma frames_cover_run:
  assumes "a_media_frames a = 0" and "0 < r" and "unat (a_media_run_ms a) * unat r < 1000 * 4294967295"
  shows "\<exists>n. synthetic_media_frames_for_fps a r flag = Inr n \<and> 0 < unat n \<and>
    unat (a_media_run_ms a) * unat r \<le> unat n * 1000 \<and>
    (0 < a_media_run_ms a \<longrightarrow> (unat n - 1) * 1000 < unat (a_media_run_ms a) * unat r)"
proof -
  let ?m = "unat (a_media_run_ms a) * unat r"
  let ?n = "max (div_ceil ?m 1000) 1"
  have le: "div_ceil ?m 1000 \<le> 4294967295" using assms(3) by (simp add: div_ceil_def) linarith
  have "unat (of_nat ?n :: u32) = ?n" using le by (intro of_nat_unat_le) auto
  moreover have "synthetic_media_frames_for_fps a r flag = Inr (of_nat ?n)"
    using assms le by (simp add: synthetic_media_frames_for_fps_def Let_def min_def)
  moreover have "?m \<le> div_ceil ?m 1000 * 1000" by (rule div_ceil_mult_ge) simp
  moreover have "0 < ?m \<Longrightarrow> (div_ceil ?m 1000 - 1) * 1000 < ?m" by (rule div_ceil_pred_less) simp
  moreover have "0 < a_media_run_ms a \<Longrightarrow> 0 < ?m"
    using assms(2) by (simp add: unat_gt_0 word_neq_0_conv)
  ultimately show ?thesis by (auto simp: max_def split: if_splits)
qed

text \<open>Screen and voice never share a stream id.\<close>

lemma voice_stream_distinct:
  "args_voice_stream_id a = Inr v \<Longrightarrow> v \<noteq> a_stream_id a"
  by (auto simp: args_voice_stream_id_def Let_def split: if_splits)

section \<open>Properties\<close>

text \<open>
  Feedback is put into practice: after it, the encoder has the bitrate, the frame rate and the
  resolution that the feedback asks for (what it leaves at zero stays), frames are paced and sized
  for them when bitrate or frame rate changed, a keyframe is due if the resolution changed, and
  applying the same feedback again changes nothing.
\<close>

theorem feedback_applied:
  "let b = pf_aggregate_available_bitrate_bps f; r = pf_target_frames_per_second f;
       e = pb_encoder p; old = (pb_target_width p, pb_target_height p);
       b' = (if b = 0 then encoder_bitrate_bps e else b);
       r' = (if r = 0 then pb_active_fps p else r);
       size' = (if pf_target_width f = 0 \<or> pf_target_height f = 0 then old
                else (pf_target_width f, pf_target_height f));
       q = snd (apply_publisher_feedback f p); e' = pb_encoder q
   in fst (apply_publisher_feedback f p) = (size' \<noteq> old) \<and>
      encoder_bitrate_bps e' = b' \<and> pb_active_fps q = r' \<and>
      (pb_target_width q, pb_target_height q) = size' \<and>
      encoder_keyframe_requested e' = (if size' = old then encoder_keyframe_requested e else True) \<and>
      encoder_target_payload_bytes e' =
        (if b' = encoder_bitrate_bps e \<and> r' = pb_active_fps p then encoder_target_payload_bytes e
         else max (unat b' div 8 div max (unat r') 1) 64) \<and>
      pb_ticker q =
        (if r' = pb_active_fps p then pb_ticker p else 1000 * (1000000 div max (unat r') 1)) \<and>
      apply_publisher_feedback f q = (False, q)"
proof -
  define q where "q = snd (apply_publisher_feedback f p)"
  have bytes: "synthetic_payload_bytes_for_bitrate b (max r 1) = max (unat b div 8 div max (unat r) 1) 64"
    for b r
    by (simp add: synthetic_payload_bytes_for_bitrate_def MIN_SYNTHETIC_PAYLOAD_BYTES_def Let_def
        unat_div_distrib unat_ucast_fps unat_max_fps)
  have ticker: "from_micros (media_interval_micros r) = 1000 * (1000000 div max (unat r) 1)" for r
    by (simp add: media_interval_micros_def from_micros_def unat_max_fps)
  note fields = adapted_fields [of f] bytes ticker
  have "apply_publisher_feedback f q = (False, q)"
    by (rule adapted_stays)
      (simp_all add: q_def apply_publisher_feedback_def fields Let_def, simp_all add: asked_size_def fields)
  then show ?thesis
    unfolding q_def by (simp add: Let_def apply_publisher_feedback_def fields) (auto simp: asked_size_def)
qed

text \<open>
  The command line and the adaptation agree: the bitrate that the client computes from the frame
  size and rate of its command line is one for which the adaptation asks for frames of exactly that
  size, unless the size is below the minimum or the bitrate exceeds 32 bits.
\<close>

theorem bitrate_matches_frame_bytes:
  assumes "active_media_frame_bytes a * unat (max (active_media_fps a) 1) * 8 < 2 ^ 32"
  shows "synthetic_payload_bytes_for_bitrate (synthetic_bitrate_bps a) (active_media_fps a) =
    max (active_media_frame_bytes a) 64"
proof -
  let ?n = "active_media_frame_bytes a" and ?r = "unat (max (active_media_fps a) 1)"
  have "min (?n * ?r * 8) 4294967295 = ?n * ?r * 8" using assms by simp
  then have "unat (synthetic_bitrate_bps a) = ?n * ?r * 8"
    using of_nat_unat_le [where 'a = 32, of "?n * ?r * 8"] assms by (simp add: synthetic_bitrate_bps_def)
  moreover have "?n * ?r * 8 div 8 div ?r = ?n" by (simp add: unat_max_fps)
  ultimately show ?thesis
    by (simp add: synthetic_payload_bytes_for_bitrate_def MIN_SYNTHETIC_PAYLOAD_BYTES_def Let_def
        unat_div_distrib unat_ucast_fps)
qed

theorem bitrate_matches_frame_bytes_witness:
  "synthetic_payload_bytes_for_bitrate (synthetic_bitrate_bps default_args) 30 = 512"
  using bitrate_matches_frame_bytes [of default_args]
  by (simp add: default_args_def active_media_frame_bytes_def active_media_fps_def)

end
