(* ===== verification/Broadcaster.thy ===== *)
theory Broadcaster
  imports Publisher_Adapt Viewer_Media
begin

text \<open>
  The media loops of the broadcaster (\<open>main.rs\<close>): \<open>run_screen_broadcaster_media_loop\<close> and
  \<open>run_voice_broadcaster_media_loop\<close>, with the portable part of \<open>capture/windows.rs\<close>. The local
  variables of a loop are the fields of a record, and one round is a step that goes on or ends.
\<close>

section \<open>The source of pictures\<close>

record screen_capture =
  gc_source :: capture_source
  gc_queue :: "capture_frame latest_queue"
  gc_next_frame_id :: u64

definition screen_capture_new :: "bool \<Rightarrow> capture_source \<Rightarrow> capture_config \<Rightarrow> rstring + screen_capture" where
  "screen_capture_new windows source config =
     (if \<not> windows then Inl (lit ''Windows Graphics Capture is only available on Windows'')
      else Inr \<lparr>gc_source = source, gc_queue = latest_queue_new (cc_queue_capacity config),
                gc_next_frame_id = 1\<rparr>)"

definition push_test_frame :: "u32 \<Rightarrow> u32 \<Rightarrow> u64 \<Rightarrow> screen_capture \<Rightarrow> screen_capture" where
  "push_test_frame width height capture_time_micros c =
     (let frame = metadata_only (gc_next_frame_id c) width height capture_time_micros
      in c\<lparr>gc_next_frame_id := sat_add (gc_next_frame_id c) 1,
           gc_queue := latest_queue_push frame (gc_queue c)\<rparr>)"

text \<open>The pixels are what the environment copies from the source; the frame around them is made here.\<close>

definition capture_now :: "'w client_env \<Rightarrow> screen_capture \<Rightarrow> (capture_frame \<times> screen_capture, 'w) client_io" where
  "capture_now env c =
     io_bind (on_world (ce_capture env (gc_source c))) (\<lambda>(width, height, bs).
     io_bind (read_clock env) (\<lambda>now.
     io_bind (io_of (cpu_bgra (gc_next_frame_id c) width height now bs)) (\<lambda>frame.
     io_return (frame, c\<lparr>gc_next_frame_id := sat_add (gc_next_frame_id c) 1\<rparr>))))"

definition next_frame :: "'w client_env \<Rightarrow> screen_capture \<Rightarrow> (capture_frame \<times> screen_capture, 'w) client_io" where
  "next_frame env c =
     (case latest_queue_pop_latest (gc_queue c) of
        (Some frame, q) \<Rightarrow> io_return (frame, c\<lparr>gc_queue := q\<rparr>)
      | (None, q) \<Rightarrow> capture_now env (c\<lparr>gc_queue := q\<rparr>))"

definition resize_capture_frame :: "u32 \<Rightarrow> u32 \<Rightarrow> capture_frame \<Rightarrow> rstring + capture_frame" where
  "resize_capture_frame target_width target_height frame =
     (if target_width = 0 \<or> target_height = 0 then Inr frame
      else resize_frame target_width target_height frame)"

text \<open>The result is always a frame: both sources return one or fail.\<close>

definition capture_screen_frame ::
  "'w client_env \<Rightarrow> args \<Rightarrow> u32 \<Rightarrow> u32 \<Rightarrow> screen_capture \<Rightarrow> (capture_frame \<times> screen_capture, 'w) client_io"
where
  "capture_screen_frame env a target_width target_height c =
     (case a_screen_input a of
        SyntheticScreen \<Rightarrow>
          io_bind (read_clock env) (\<lambda>now.
          next_frame env (push_test_frame (max target_width 1) (max target_height 1) now c))
      | LiveScreen \<Rightarrow>
          io_bind (next_frame env c) (\<lambda>(frame, c).
          io_bind (io_of (resize_capture_frame target_width target_height frame)) (\<lambda>frame.
          io_return (frame, c))))"

section \<open>What both loops do\<close>

record media_run_options =
  mo_max_frames :: "u32 option"
  mo_stop :: bool
  mo_log_each_frame :: bool
  mo_linger_on_end :: bool
  mo_summary_run_ms :: "u64 option"

definition synthetic_run_options :: "args \<Rightarrow> u32 \<Rightarrow> media_run_options" where
  "synthetic_run_options a media_frames =
     \<lparr>mo_max_frames = Some media_frames, mo_stop = False, mo_log_each_frame = True,
      mo_linger_on_end = True, mo_summary_run_ms = Some (a_media_run_ms a)\<rparr>"

definition ui_run_options :: media_run_options where
  "ui_run_options =
     \<lparr>mo_max_frames = None, mo_stop = True, mo_log_each_frame = False, mo_linger_on_end = False,
      mo_summary_run_ms = None\<rparr>"

definition stop_requested :: "'w client_env \<Rightarrow> media_run_options \<Rightarrow> (bool, 'w) client_io" where
  "stop_requested env options = (if mo_stop options then read_stop env else io_return False)"

text \<open>Waits for the next tick unless the loop is to end before or after it; the result says whether it is.\<close>

definition next_round ::
  "'w client_env \<Rightarrow> media_run_options \<Rightarrow> bool \<Rightarrow> nat \<Rightarrow> (bool, 'w) client_io" where
  "next_round env options enough period =
     io_bind (stop_requested env options) (\<lambda>stop.
       if stop \<or> enough then io_return False
       else
         io_then (wait_tick env period)
           (io_bind (stop_requested env options) (\<lambda>stop. io_return (\<not> stop))))"

fun send_packets :: "'w client_env \<Rightarrow> media_packet list \<Rightarrow> (unit, 'w) client_io" where
  "send_packets env [] = io_return ()"
| "send_packets env (packet # packets) =
     io_bind (read_clock env) (\<lambda>now.
     io_then
       (send_media_packet env
          (packet\<lparr>p_header := (p_header packet)\<lparr>h_sender_send_time_micros := now\<rparr>\<rparr>))
       (send_packets env packets))"

definition linger :: "'w client_env \<Rightarrow> args \<Rightarrow> media_run_options \<Rightarrow> (unit, 'w) client_io" where
  "linger env a options =
     (if mo_linger_on_end options \<and> 0 < a_media_end_linger_ms a
      then sleep_for env (from_millis (unat (a_media_end_linger_ms a))) else io_return ())"

definition start_delay :: "'w client_env \<Rightarrow> args \<Rightarrow> (unit, 'w) client_io" where
  "start_delay env a =
     (if 0 < a_media_start_delay_ms a
      then sleep_with_keepalive env (from_millis (unat (a_media_start_delay_ms a))) else io_return ())"

text \<open>How a loop's result is dropped; \<open>run_\<dots>_loop\<close> returns \<open>()\<close>.\<close>

definition loop_end :: "('a, 's) io_loop \<Rightarrow> (unit, 's) io_loop" where
  "loop_end m = loop_bind m (\<lambda>_. loop_of (io_return ()))"

section \<open>Packets out of an encoded frame\<close>

record sender =
  sn_clock :: clock_sync_tracker
  sn_timing :: client_broadcaster_stats
  sn_next_sequence_number :: u32
  sn_sent_packets :: u64
  sn_sent_frames :: u32

definition client_broadcaster_stats_default :: client_broadcaster_stats where
  "client_broadcaster_stats_default =
     \<lparr>cb_capture_samples_ms = latency_samples_default, cb_encode_samples_ms = latency_samples_default,
      cb_packetize_samples_ms = latency_samples_default, cb_send_samples_ms = latency_samples_default\<rparr>"

definition sender_new :: "'w client_env \<Rightarrow> args \<Rightarrow> clock_sync_estimate \<Rightarrow> (sender, 'w) client_io" where
  "sender_new env a estimate =
     io_bind (new_clock_tracker env a estimate) (\<lambda>clock.
     io_return \<lparr>sn_clock = clock, sn_timing = client_broadcaster_stats_default,
       sn_next_sequence_number = 1, sn_sent_packets = 0, sn_sent_frames = 0\<rparr>)"

text \<open>
  From \<open>refresh_if_due\<close> to the end of the sending: the frame gets the clock offset and the time of
  its encoding, is cut into packets, and these are numbered on and sent.
\<close>

definition send_frame ::
  "'w client_env \<Rightarrow> (encoded_frame \<Rightarrow> u32 \<Rightarrow> frame_packetize_error fault + media_packet list) \<Rightarrow>
   nat \<Rightarrow> encoded_frame \<Rightarrow> sender \<Rightarrow> (sender, 'w) client_io"
where
  "send_frame env packetize encode_start frame s =
     io_bind (refresh_clock env (sn_clock s)) (\<lambda>(estimate, clock).
     io_bind (read_clock env) (\<lambda>encode_done.
     let frame = frame\<lparr>f_sender_clock_offset_micros := cs_clock_offset_micros estimate,
           f_sender_encode_done_time_micros := encode_done\<rparr> in
     io_bind (read_instant env) (\<lambda>encode_end.
     io_bind (read_instant env) (\<lambda>packetize_start.
     io_bind (io_of_fault PacketizeFailed (packetize frame (sn_next_sequence_number s))) (\<lambda>packets.
     io_bind (read_instant env) (\<lambda>packetize_end.
     io_bind (read_instant env) (\<lambda>send_start.
     io_then (send_packets env packets)
       (io_bind (read_instant env) (\<lambda>send_end.
        io_return (s\<lparr>sn_clock := clock,
          sn_timing := record_send_duration (send_end - send_start)
            (record_packetize_duration (packetize_end - packetize_start)
              (record_encode_duration (encode_end - encode_start) (sn_timing s))),
          sn_next_sequence_number := sn_next_sequence_number s + of_nat (length packets),
          sn_sent_packets := sn_sent_packets s + of_nat (length packets),
          sn_sent_frames := sat_add (sn_sent_frames s) 1\<rparr>))))))))))"

section \<open>The screen\<close>

record screen_publisher =
  sp_capture :: screen_capture
  sp_publisher :: publisher
  sp_input :: remote_input_applier
  sp_sender :: sender
  sp_frame_id :: u32

definition screen_publisher_new ::
  "'w client_env \<Rightarrow> args \<Rightarrow> clock_sync_estimate \<Rightarrow> (screen_publisher, 'w) client_io" where
  "screen_publisher_new env a estimate =
     (let os = ce_os env in
      io_bind (io_of (media_frame_interval a)) (\<lambda>frame_interval.
      io_bind (io_of (screen_capture_dimensions (os_source_size os) a)) (\<lambda>(target_width, target_height).
      io_bind (io_of (args_capture_source a)) (\<lambda>source.
      io_bind (io_of (screen_capture_new (os_windows os) source (args_capture_config a))) (\<lambda>capture.
      io_bind (io_of (video_encoder_for (os_encoder_probe os) a target_width target_height)) (\<lambda>encoder.
      io_bind (io_of (args_input_applier (os_windows os) a)) (\<lambda>input.
      io_bind (sender_new env a estimate) (\<lambda>sender.
      io_return \<lparr>sp_capture = capture,
        sp_publisher = \<lparr>pb_encoder = encoder_request_keyframe encoder, pb_active_fps = a_media_fps a,
          pb_target_width = target_width, pb_target_height = target_height, pb_ticker = frame_interval\<rparr>,
        sp_input = input, sp_sender = sender, sp_frame_id = 1\<rparr>))))))))"

definition adapt_screen ::
  "'w client_env \<Rightarrow> args \<Rightarrow> room_id \<Rightarrow> publisher_feedback \<Rightarrow> publisher \<Rightarrow> (publisher, 'w) client_io"
where
  "adapt_screen env a room_id feedback p =
     (case apply_publisher_feedback feedback p of
        (resolution_changed, p) \<Rightarrow>
          io_then
            (if resolution_changed
             then set_screen_stream_config env room_id a (pb_target_width p) (pb_target_height p)
                    (pb_active_fps p)
             else io_return ())
            (io_return p))"

text \<open>The block of the loop that polls for feedback and remote input; in the loop, not after it, a
  requested keyframe is passed on to the encoder.\<close>

definition poll_screen ::
  "'w client_env \<Rightarrow> args \<Rightarrow> room_id \<Rightarrow> bool \<Rightarrow> screen_publisher \<Rightarrow> (screen_publisher, 'w) client_io"
where
  "poll_screen env a room_id in_loop v =
     io_bind (request_publisher_feedback env room_id (a_stream_id a)) (\<lambda>feedback.
     let p = sp_publisher v;
         p = (if in_loop \<and> pf_keyframe_requested feedback
              then p\<lparr>pb_encoder := encoder_request_keyframe (pb_encoder p)\<rparr> else p)
     in io_bind (adapt_screen env a room_id feedback p) (\<lambda>p.
        io_bind (poll_remote_input_and_apply env room_id (a_stream_id a) (sp_input v)) (\<lambda>input.
        io_return (v\<lparr>sp_publisher := p, sp_input := input\<rparr>))))"

definition next_frame_id :: "screen_publisher \<Rightarrow> screen_publisher" where
  "next_frame_id v = v\<lparr>sp_frame_id := sat_add (sp_frame_id v) 1\<rparr>"

definition broadcast_picture ::
  "'w client_env \<Rightarrow> args \<Rightarrow> room_id \<Rightarrow> capture_frame \<Rightarrow> screen_publisher \<Rightarrow> (screen_publisher, 'w) client_io"
where
  "broadcast_picture env a room_id captured v =
     io_bind (read_instant env) (\<lambda>encode_start.
       case video_encode (pb_encoder (sp_publisher v)) captured (a_stream_id a) of
         (encoded, encoder) \<Rightarrow>
           let v = v\<lparr>sp_publisher := (sp_publisher v)\<lparr>pb_encoder := encoder\<rparr>\<rparr> in
           io_bind (io_of encoded) (\<lambda>encoded.
             case encoded of
               None \<Rightarrow>
                 io_bind (read_instant env) (\<lambda>encode_end.
                 io_return (next_frame_id (v\<lparr>sp_sender := (sp_sender v)\<lparr>sn_timing :=
                   record_encode_duration (encode_end - encode_start) (sn_timing (sp_sender v))\<rparr>\<rparr>)))
             | Some frame \<Rightarrow>
                 io_bind (send_frame env
                   (\<lambda>frame first_sequence_number. packetize_frame_for_datagram_target frame
                      first_sequence_number (a_max_datagram_payload a))
                   encode_start frame (sp_sender v)) (\<lambda>sender.
                 let v = v\<lparr>sp_sender := sender\<rparr> in
                 io_bind
                   (if 0 < a_feedback_interval_frames a \<and>
                       is_multiple_of (sp_frame_id v) (a_feedback_interval_frames a)
                    then poll_screen env a room_id True v else io_return v) (\<lambda>v.
                 io_return (next_frame_id v)))))"

definition screen_broadcaster_step ::
  "'w client_env \<Rightarrow> args \<Rightarrow> room_id \<Rightarrow> media_run_options \<Rightarrow> screen_publisher \<Rightarrow>
   (screen_publisher + screen_publisher, 'w) client_io"
where
  "screen_broadcaster_step env a room_id options v =
     io_bind (next_round env options (\<exists>m \<in> set_option (mo_max_frames options). m < sp_frame_id v)
                (pb_ticker (sp_publisher v))) (\<lambda>go_on.
       if \<not> go_on then io_return (Inr v)
       else
         io_bind (read_instant env) (\<lambda>capture_start.
         io_bind (capture_screen_frame env a (pb_target_width (sp_publisher v))
                    (pb_target_height (sp_publisher v)) (sp_capture v)) (\<lambda>(captured, capture).
         io_bind (read_instant env) (\<lambda>capture_end.
         io_bind (broadcast_picture env a room_id captured
           (v\<lparr>sp_capture := capture, sp_sender := (sp_sender v)\<lparr>sn_timing :=
               record_capture_duration (capture_end - capture_start) (sn_timing (sp_sender v))\<rparr>\<rparr>)) (\<lambda>v.
         io_return (Inl v))))))"

definition run_screen_broadcaster_loop ::
  "'w client_env \<Rightarrow> args \<Rightarrow> room_id \<Rightarrow> clock_sync_estimate \<Rightarrow> media_run_options \<Rightarrow>
   (screen_publisher, 'w client) io_loop"
where
  "run_screen_broadcaster_loop env a room_id estimate options =
     loop_bind (loop_of (screen_publisher_new env a estimate)) (\<lambda>v.
     loop_bind (io_loop (screen_broadcaster_step env a room_id options) v) (\<lambda>v.
     loop_of
       (io_bind (poll_screen env a room_id False v) (\<lambda>v.
        io_then (request_stream_metrics env room_id (a_stream_id a))
          (io_then (linger env a options) (io_return v))))))"

definition run_synthetic_screen_broadcaster ::
  "'w client_env \<Rightarrow> args \<Rightarrow> room_id \<Rightarrow> clock_sync_estimate \<Rightarrow> (unit, 'w client) io_loop" where
  "run_synthetic_screen_broadcaster env a room_id estimate =
     loop_bind (loop_of (io_then (start_delay env a) (io_of (synthetic_media_frames a)))) (\<lambda>media_frames.
     loop_end (run_screen_broadcaster_loop env a room_id estimate (synthetic_run_options a media_frames)))"

definition run_ui_screen_broadcaster ::
  "'w client_env \<Rightarrow> args \<Rightarrow> room_id \<Rightarrow> clock_sync_estimate \<Rightarrow> (unit, 'w client) io_loop" where
  "run_ui_screen_broadcaster env a room_id estimate =
     loop_end (run_screen_broadcaster_loop env a room_id estimate ui_run_options)"

section \<open>The voice\<close>

record voice_publisher =
  vp_publisher :: audio_publisher
  vp_microphone :: "microphone_capture option"
  vp_sender :: sender
  vp_empty_capture_ticks :: u32

definition microphone_open ::
  "bool \<Rightarrow> (microphone_source \<Rightarrow> audio_capture_config \<Rightarrow> rstring + unit) \<Rightarrow> microphone_source \<Rightarrow>
   audio_capture_config \<Rightarrow> rstring + microphone_capture"
where
  "microphone_open windows open_device source config =
     and_then (microphone_new windows config) (\<lambda>m.
     and_then (open_device source config) (\<lambda>_. Inr (m\<lparr>mc_device_open := True\<rparr>)))"

definition next_audio_frame ::
  "'w client_env \<Rightarrow> microphone_capture \<Rightarrow> (captured_audio_frame option \<times> microphone_capture, 'w) client_io"
where
  "next_audio_frame env m =
     io_bind
       (if lq_frames (mc_queue m) \<noteq> [] \<or> \<not> mc_device_open m then io_return None
        else on_world (\<lambda>w. case ce_samples env w of
               (Inl e, w) \<Rightarrow> (Inl (Bail e), w) | (Inr samples, w) \<Rightarrow> (Inr samples, w))) (\<lambda>samples.
     io_bind (if samples = None then io_return 0 else read_clock env) (\<lambda>now.
       case microphone_next_frame (Inr samples) now m of
         (Inl e, _) \<Rightarrow> io_fail (Bail e)
       | (Inr frame, m) \<Rightarrow> io_return (frame, m)))"

definition voice_encoder_config :: "args \<Rightarrow> opus_config" where
  "voice_encoder_config a =
     opus_set_frames_per_second (max (active_media_fps a) 1)
       (opus_config_default\<lparr>oc_synthetic_payload_bytes := active_media_frame_bytes a,
          oc_bitrate_bps := synthetic_bitrate_bps a\<rparr>)"

definition microphone_for :: "client_os \<Rightarrow> args \<Rightarrow> rstring + microphone_capture option" where
  "microphone_for os a =
     (case a_voice_input a of
        SyntheticVoice \<Rightarrow> Inr None
      | MicrophoneVoice \<Rightarrow>
          and_then (map_err (\<lambda>_. lit ''failed to open microphone capture'')
              (microphone_open (os_windows os) (os_open_microphone os) (args_microphone_source a)
                 (args_audio_capture_config a))) (\<lambda>m. Inr (Some m)))"

definition voice_publisher_new ::
  "'w client_env \<Rightarrow> args \<Rightarrow> clock_sync_estimate \<Rightarrow> (voice_publisher, 'w) client_io" where
  "voice_publisher_new env a estimate =
     io_bind (io_of (media_frame_interval a)) (\<lambda>frame_interval.
     io_bind (io_of (microphone_for (ce_os env) a)) (\<lambda>microphone.
     let config = voice_encoder_config a;
         config = (case microphone of
             None \<Rightarrow> config
           | Some m \<Rightarrow> config\<lparr>oc_sample_rate_hz := ac_sample_rate_hz (mc_config m),
                 oc_channel_count := ac_channel_count (mc_config m),
                 oc_frame_duration_ms := ac_frame_duration_ms (mc_config m)\<rparr>)
     in io_bind (sender_new env a estimate) (\<lambda>sender.
        io_return \<lparr>vp_publisher = \<lparr>ap_encoder = config, ap_active_fps = active_media_fps a,
            ap_ticker = frame_interval\<rparr>,
          vp_microphone = microphone, vp_sender = sender, vp_empty_capture_ticks = 0\<rparr>)))"

text \<open>
  What is to be encoded in this round: nothing (the microphone has nothing yet, which is an error when
  it lasts), captured samples, or the synthetic tone.
\<close>

definition silent_microphone :: "u32 \<Rightarrow> rstring" where
  "silent_microphone ticks =
     lit ''microphone capture produced no audio frames for '' @ dec (unat ticks) @ lit '' ticks''"

definition capture_voice ::
  "'w client_env \<Rightarrow> voice_publisher \<Rightarrow>
   (captured_audio_frame option option \<times> voice_publisher, 'w) client_io"
where
  "capture_voice env v =
     (case vp_microphone v of
        None \<Rightarrow> io_return (Some None, v\<lparr>vp_empty_capture_ticks := 0\<rparr>)
      | Some m \<Rightarrow>
          io_bind (next_audio_frame env m) (\<lambda>(frame, m).
          let v = v\<lparr>vp_microphone := Some m\<rparr> in
          case frame of
            Some frame \<Rightarrow> io_return (Some (Some frame), v\<lparr>vp_empty_capture_ticks := 0\<rparr>)
          | None \<Rightarrow>
              let ticks = sat_add (vp_empty_capture_ticks v) 1 in
              if ucast (max (ap_active_fps (vp_publisher v)) 1) < ticks
              then io_fail (Bail (silent_microphone ticks))
              else io_return (None, v\<lparr>vp_empty_capture_ticks := ticks\<rparr>)))"

definition encode_voice ::
  "opus_config \<Rightarrow> u32 \<Rightarrow> u64 \<Rightarrow> stream_id \<Rightarrow> captured_audio_frame option \<Rightarrow> rstring + encoded_frame"
where
  "encode_voice config frame_id capture_time_micros stream_id captured_audio =
     (case captured_audio of
        Some audio \<Rightarrow>
          encode_pcm_i16 config (ucast (min (ca_frame_id audio) 4294967295))
            (ca_capture_time_micros audio) (ca_sample_rate_hz audio) (ca_channel_count audio)
            (ca_samples audio) stream_id
      | None \<Rightarrow> Inr (opus_encode config frame_id capture_time_micros stream_id))"

definition poll_voice ::
  "'w client_env \<Rightarrow> args \<Rightarrow> room_id \<Rightarrow> voice_publisher \<Rightarrow> (voice_publisher, 'w) client_io"
where
  "poll_voice env a room_id v =
     io_bind (request_publisher_feedback env room_id (a_stream_id a)) (\<lambda>feedback.
     io_return (v\<lparr>vp_publisher := apply_audio_publisher_feedback feedback (vp_publisher v)\<rparr>))"

definition broadcast_voice ::
  "'w client_env \<Rightarrow> args \<Rightarrow> room_id \<Rightarrow> u32 \<Rightarrow> nat \<Rightarrow> captured_audio_frame option \<Rightarrow> voice_publisher \<Rightarrow>
   (voice_publisher, 'w) client_io"
where
  "broadcast_voice env a room_id frame_id capture_start captured_audio v =
     io_bind (case captured_audio of
         Some audio \<Rightarrow> io_return (ca_capture_time_micros audio) | None \<Rightarrow> read_clock env)
       (\<lambda>capture_time_micros.
     io_bind (read_instant env) (\<lambda>capture_end.
     io_bind (read_instant env) (\<lambda>encode_start.
     io_bind (io_of (encode_voice (ap_encoder (vp_publisher v)) frame_id capture_time_micros
                       (a_stream_id a) captured_audio)) (\<lambda>frame.
     io_bind (send_frame env
       (\<lambda>frame first_sequence_number. packetize_frame_with_type_for_datagram_target frame Audio
          first_sequence_number (a_max_datagram_payload a))
       encode_start frame
       ((vp_sender v)\<lparr>sn_timing :=
          record_capture_duration (capture_end - capture_start) (sn_timing (vp_sender v))\<rparr>)) (\<lambda>sender.
     let v = v\<lparr>vp_sender := sender\<rparr> in
     if 0 < a_feedback_interval_frames a \<and>
        is_multiple_of (sn_sent_frames sender) (a_feedback_interval_frames a)
     then poll_voice env a room_id v else io_return v)))))"

definition voice_broadcaster_step ::
  "'w client_env \<Rightarrow> args \<Rightarrow> room_id \<Rightarrow> media_run_options \<Rightarrow> voice_publisher \<Rightarrow>
   (voice_publisher + voice_publisher, 'w) client_io"
where
  "voice_broadcaster_step env a room_id options v =
     io_bind (next_round env options
                (\<exists>m \<in> set_option (mo_max_frames options). m \<le> sn_sent_frames (vp_sender v))
                (ap_ticker (vp_publisher v))) (\<lambda>go_on.
       if \<not> go_on then io_return (Inr v)
       else
         let frame_id = sat_add (sn_sent_frames (vp_sender v)) 1 in
         io_bind (read_instant env) (\<lambda>capture_start.
         io_bind (capture_voice env v) (\<lambda>(captured, v).
           case captured of
             None \<Rightarrow> io_return (Inl v)
           | Some captured_audio \<Rightarrow>
               io_bind (broadcast_voice env a room_id frame_id capture_start captured_audio v) (\<lambda>v.
               io_return (Inl v)))))"

definition run_voice_broadcaster_loop ::
  "'w client_env \<Rightarrow> args \<Rightarrow> room_id \<Rightarrow> clock_sync_estimate \<Rightarrow> media_run_options \<Rightarrow>
   (voice_publisher, 'w client) io_loop"
where
  "run_voice_broadcaster_loop env a room_id estimate options =
     loop_bind (loop_of (voice_publisher_new env a estimate)) (\<lambda>v.
     loop_bind (io_loop (voice_broadcaster_step env a room_id options) v) (\<lambda>v.
     loop_of
       (io_bind (poll_voice env a room_id v) (\<lambda>v.
        io_then (request_stream_metrics env room_id (a_stream_id a))
          (io_then (linger env a options) (io_return v))))))"

definition run_synthetic_voice_broadcaster ::
  "'w client_env \<Rightarrow> args \<Rightarrow> room_id \<Rightarrow> clock_sync_estimate \<Rightarrow> (unit, 'w client) io_loop" where
  "run_synthetic_voice_broadcaster env a room_id estimate =
     (if \<not> voice_speaking a then loop_of (io_return ())
      else
        loop_bind (loop_of (io_then (start_delay env a) (io_of (synthetic_media_frames a)))) (\<lambda>media_frames.
        loop_end (run_voice_broadcaster_loop env a room_id estimate (synthetic_run_options a media_frames))))"

definition run_ui_voice_broadcaster ::
  "'w client_env \<Rightarrow> args \<Rightarrow> room_id \<Rightarrow> clock_sync_estimate \<Rightarrow> (unit, 'w client) io_loop" where
  "run_ui_voice_broadcaster env a room_id estimate =
     loop_end (run_voice_broadcaster_loop env a room_id estimate ui_run_options)"

definition run_broadcaster_media ::
  "'w client_env \<Rightarrow> args \<Rightarrow> room_id \<Rightarrow> clock_sync_estimate \<Rightarrow> (unit, 'w client) io_loop" where
  "run_broadcaster_media env a room_id estimate =
     (case a_media_kind a of
        ScreenArg \<Rightarrow> run_synthetic_screen_broadcaster env a room_id estimate
      | VoiceArg \<Rightarrow> run_synthetic_voice_broadcaster env a room_id estimate
      | BothArg \<Rightarrow>
          loop_of (io_fail (Bail
            (lit ''dual-stream broadcaster media should be started by control flow''))))"

end
