(* ===== verification/Client_Flows.thy ===== *)
theory Client_Flows
  imports Viewer_Loops Broadcaster
begin

text \<open>
  The control flows of the desktop client (\<open>main.rs\<close>), from the greeting to leaving the room: the
  listings, the discovery behind the user interface, the broadcaster and the viewer. Printing and
  writing the exported state to a file are left out. A broadcaster of both kinds runs its two media
  loops at once (\<open>tokio::try_join!\<close>); how they interleave is a parameter, the argument \<open>both\<close>.
\<close>

section \<open>Listings\<close>

definition list_rooms_flow :: "'w client_env \<Rightarrow> (room_summary list, 'w) client_io" where
  "list_rooms_flow env = request_rooms env"

definition list_streams_flow :: "'w client_env \<Rightarrow> args \<Rightarrow> (stream_summary list, 'w) client_io" where
  "list_streams_flow env a =
     io_bind (resolve_viewer_room_id env a) (\<lambda>room_id.
     io_then (join_room_request env room_id)
       (io_bind (list_room_streams env room_id) (\<lambda>streams.
        io_then (leave_room_request env room_id) (io_return streams))))"

definition list_participants_flow :: "'w client_env \<Rightarrow> args \<Rightarrow> (participant_summary list, 'w) client_io" where
  "list_participants_flow env a =
     io_bind (resolve_viewer_room_id env a) (\<lambda>room_id.
     io_then (join_room_request env room_id)
       (io_then (set_voice_state_if_requested env a room_id)
          (io_bind (list_room_participants env room_id) (\<lambda>participants.
           io_then (leave_room_request env room_id) (io_return participants)))))"

section \<open>The discovery behind the user interface\<close>

record ui_state_build_options =
  ub_local_user_id :: user_id
  ub_selected_channel_override :: "room_id option"
  ub_local_voice :: voice_control_state
  ub_local_screen_share :: screen_share_control_state
  ub_push_voice_state :: bool
  ub_keep_room_joined :: bool

record room_discovery =
  rd_streams :: "stream_summary list"
  rd_stream_configs :: "stream_config list"
  rd_participants :: "participant_summary list"

definition discover_room ::
  "'w client_env \<Rightarrow> args \<Rightarrow> ui_state_build_options \<Rightarrow> room_id \<Rightarrow> (room_discovery, 'w) client_io"
where
  "discover_room env a options room_id =
     io_then (join_room_request env room_id)
       (io_then
         (if ub_push_voice_state options then set_voice_state_request env room_id (ub_local_voice options)
          else set_voice_state_if_requested env a room_id)
         (io_bind (list_room_streams env room_id) (\<lambda>streams.
          io_bind (poll_configured_streams env room_id streams) (\<lambda>stream_configs.
          io_bind (list_room_participants env room_id) (\<lambda>participants.
          io_then
            (if ub_keep_room_joined options then io_return () else leave_room_request env room_id)
            (io_return \<lparr>rd_streams = streams, rd_stream_configs = stream_configs,
               rd_participants = participants\<rparr>))))))"

text \<open>The JSON text beside the state is serde's.\<close>

definition build_ui_state ::
  "'w client_env \<Rightarrow> args \<Rightarrow> ui_state_build_options \<Rightarrow> (client_app, 'w) client_io" where
  "build_ui_state env a options =
     io_bind (request_rooms env) (\<lambda>rooms.
     io_bind (io_of (select_ui_state_channel_id (os_quote (ce_os env)) a rooms
                       (ub_selected_channel_override options))) (\<lambda>selected_channel_id.
     io_bind
       (case selected_channel_id of
          None \<Rightarrow> io_return \<lparr>rd_streams = [], rd_stream_configs = [], rd_participants = []\<rparr>
        | Some room_id \<Rightarrow> discover_room env a options room_id) (\<lambda>found.
     io_return (app_from_discovery
       \<lparr>disc_role = args_client_role a, disc_relay_addr = a_relay a,
        disc_local_user_id = Some (ub_local_user_id options),
        disc_selected_channel_id = selected_channel_id, disc_rooms = rooms,
        disc_streams = rd_streams found, disc_stream_configs = rd_stream_configs found,
        disc_participants = rd_participants found, disc_local_voice = ub_local_voice options,
        disc_local_screen_share = ub_local_screen_share options\<rparr>))))"

definition export_ui_state :: "'w client_env \<Rightarrow> args \<Rightarrow> user_id \<Rightarrow> (client_app, 'w) client_io" where
  "export_ui_state env a local_user_id =
     build_ui_state env a
       \<lparr>ub_local_user_id = local_user_id, ub_selected_channel_override = None,
        ub_local_voice = ui_voice_control_state a,
        ub_local_screen_share = ui_screen_share_control_state (os_source_size (ce_os env)) a,
        ub_push_voice_state = False, ub_keep_room_joined = False\<rparr>"

section \<open>The broadcaster\<close>

definition broadcaster_room :: "'w client_env \<Rightarrow> args \<Rightarrow> (room_id, 'w) client_io" where
  "broadcaster_room env a =
     io_bind (io_of (selected_room_id a)) (\<lambda>selected.
       case selected of
         Some room_id \<Rightarrow> io_return room_id
       | None \<Rightarrow> io_bind (io_of (selected_channel_name a)) (create_room_request env))"

definition screen_args :: "args \<Rightarrow> args" where
  "screen_args a = for_media_kind a ScreenArg (a_stream_id a)"

definition voice_args :: "args \<Rightarrow> stream_id \<Rightarrow> args" where
  "voice_args a voice_stream_id = for_media_kind a VoiceArg voice_stream_id"

type_synonym 'w both_loops =
  "args \<Rightarrow> args \<Rightarrow> room_id \<Rightarrow> clock_sync_estimate \<Rightarrow> (unit, 'w client) io_loop"

definition dual_broadcaster_flow ::
  "'w client_env \<Rightarrow> 'w both_loops \<Rightarrow> args \<Rightarrow> room_id \<Rightarrow> clock_sync_estimate \<Rightarrow> (unit, 'w client) io_loop"
where
  "dual_broadcaster_flow env both a room_id estimate =
     loop_bind (loop_of (io_of (args_voice_stream_id a))) (\<lambda>voice_stream_id.
     let screen = screen_args a; voice = voice_args a voice_stream_id in
     loop_bind
       (loop_of (io_then (publish_configured_stream env screen room_id)
                   (publish_configured_stream env voice room_id))) (\<lambda>_.
     if synthetic_media_enabled a then
       loop_bind
         (loop_of (io_then (set_publisher_target_media env room_id screen)
                     (set_publisher_target_media env room_id voice))) (\<lambda>_.
       both screen voice room_id estimate)
     else loop_of (io_return ())))"

definition broadcaster_flow ::
  "'w client_env \<Rightarrow> 'w both_loops \<Rightarrow> args \<Rightarrow> clock_sync_estimate \<Rightarrow> (unit, 'w client) io_loop" where
  "broadcaster_flow env both a estimate =
     loop_bind (loop_of (broadcaster_room env a)) (\<lambda>room_id.
     loop_bind
       (loop_of (io_then (join_room_request env room_id) (set_voice_state_if_requested env a room_id))) (\<lambda>_.
     if a_media_kind a = BothArg then
       loop_bind (dual_broadcaster_flow env both a room_id estimate) (\<lambda>_.
       loop_of
         (io_then (unpublish_stream_request env room_id (a_stream_id a))
         (io_bind (io_of (args_voice_stream_id a)) (\<lambda>voice_stream_id.
          io_then (unpublish_stream_request env room_id voice_stream_id)
            (leave_room_request env room_id)))))
     else
       loop_bind (loop_of (publish_configured_stream env a room_id)) (\<lambda>_.
       loop_bind
         (if synthetic_media_enabled a then
            loop_bind (loop_of (set_publisher_target_media env room_id a)) (\<lambda>_.
            run_broadcaster_media env a room_id estimate)
          else loop_of (io_return ())) (\<lambda>_.
       loop_of
         (io_then (unpublish_stream_request env room_id (a_stream_id a))
            (leave_room_request env room_id))))))"

section \<open>The viewer\<close>

definition dual_viewer_flow ::
  "'w client_env \<Rightarrow> args \<Rightarrow> room_id \<Rightarrow> stream_summary list \<Rightarrow> clock_sync_estimate \<Rightarrow>
   (unit, 'w client) io_loop"
where
  "dual_viewer_flow env a room_id available_streams estimate =
     loop_bind (loop_of (io_of (resolve_dual_viewer_stream_ids a available_streams)))
       (\<lambda>(screen_stream_id, voice_stream_id).
     loop_bind
       (loop_of
         (io_then (subscribe_stream_request env room_id screen_stream_id)
         (io_then (subscribe_stream_request env room_id voice_stream_id)
         (io_then (poll_stream_config env room_id screen_stream_id)
         (io_then (poll_stream_config env room_id voice_stream_id)
            (send_remote_input_script_if_requested env a room_id screen_stream_id)))))) (\<lambda>_.
     loop_bind
       (if synthetic_media_enabled a then
          loop_end (run_dual_viewer env a room_id screen_stream_id voice_stream_id estimate)
        else loop_of (io_return ())) (\<lambda>_.
     loop_of
       (io_then (unsubscribe_stream_request env room_id screen_stream_id)
          (unsubscribe_stream_request env room_id voice_stream_id)))))"

definition single_viewer_flow ::
  "'w client_env \<Rightarrow> args \<Rightarrow> room_id \<Rightarrow> stream_summary list \<Rightarrow> clock_sync_estimate \<Rightarrow>
   (unit, 'w client) io_loop"
where
  "single_viewer_flow env a room_id available_streams estimate =
     loop_bind (loop_of (io_of (resolve_viewer_stream_id a available_streams))) (\<lambda>stream_id.
     loop_bind
       (loop_of
         (io_then (subscribe_stream_request env room_id stream_id)
         (io_then (poll_stream_config env room_id stream_id)
            (send_remote_input_script_if_requested env a room_id stream_id)))) (\<lambda>_.
     loop_bind
       (if synthetic_media_enabled a then run_viewer_media env a room_id stream_id estimate
        else loop_of (io_return ())) (\<lambda>_.
     loop_of (unsubscribe_stream_request env room_id stream_id))))"

definition viewer_flow ::
  "'w client_env \<Rightarrow> args \<Rightarrow> clock_sync_estimate \<Rightarrow> (unit, 'w client) io_loop" where
  "viewer_flow env a estimate =
     loop_bind (loop_of (resolve_viewer_room_id env a)) (\<lambda>room_id.
     loop_bind
       (loop_of
         (io_then (join_room_request env room_id)
         (io_then (set_voice_state_if_requested env a room_id) (list_room_streams env room_id))))
       (\<lambda>available_streams.
     loop_bind
       (if a_media_kind a = BothArg then dual_viewer_flow env a room_id available_streams estimate
        else single_viewer_flow env a room_id available_streams estimate) (\<lambda>_.
     loop_of (leave_room_request env room_id))))"

section \<open>The program\<close>

definition client_hello :: "'w client_env \<Rightarrow> args \<Rightarrow> (user_id, 'w) client_io" where
  "client_hello env a =
     io_bind (send_control env
       (Hello \<lparr>hello_protocol_version = PROTOCOL_VERSION, hello_client_name = control_display_name a\<rparr>)) (\<lambda>response.
     io_then (ensure_not_error (lit ''hello'') response)
       (io_bind (hello_identity response) (\<lambda>(local_user_id, _). io_return local_user_id)))"

definition client_login :: "'w client_env \<Rightarrow> args \<Rightarrow> (user_id \<times> clock_sync_estimate, 'w) client_io" where
  "client_login env a =
     io_bind (client_hello env a) (\<lambda>local_user_id.
     io_bind (sync_control_clock env a) (\<lambda>estimate.
     io_then
       (case a_access_token a of
          Some access_token \<Rightarrow> authenticate_control env access_token
        | None \<Rightarrow> io_return ())
       (io_return (local_user_id, estimate))))"

text \<open>
  \<open>main\<close> after the connection is made; \<open>serve\<close> is the user interface server, and the three listings
  of devices come before the connection.
\<close>

definition client_main ::
  "'w client_env \<Rightarrow> 'w both_loops \<Rightarrow> (user_id \<Rightarrow> clock_sync_estimate \<Rightarrow> (unit, 'w client) io_loop) \<Rightarrow>
   args \<Rightarrow> (unit, 'w client) io_loop"
where
  "client_main env both serve a =
     loop_bind (loop_of (client_login env a)) (\<lambda>(local_user_id, estimate).
       if a_print_ui_state a \<or> a_export_ui_state a \<noteq> None
       then loop_of (io_then (export_ui_state env a local_user_id) (io_return ()))
       else if a_serve_ui a then serve local_user_id estimate
       else if a_list_rooms a then loop_of (io_then (list_rooms_flow env) (io_return ()))
       else if a_list_streams a then loop_of (io_then (list_streams_flow env a) (io_return ()))
       else if a_list_participants a then loop_of (io_then (list_participants_flow env a) (io_return ()))
       else
         case a_mode a of
           BroadcasterMode \<Rightarrow> broadcaster_flow env both a estimate
         | ViewerMode \<Rightarrow> viewer_flow env a estimate)"

end
