(* ===== verification/Client_World.thy ===== *)
theory Client_World
  imports Client_Flows Control_Access
begin

text \<open>
  What a client does to its world: an operation keeps a predicate of the world if every message it
  sends does. The contract is the locale \<open>kept_world\<close>; the world of a client beside the modelled
  relay is an instance, so that the client's flows and the relay's handler are composed.
\<close>

section \<open>Operations that keep a predicate of the world\<close>

definition io_keeps :: "('w \<Rightarrow> bool) \<Rightarrow> ('a, 'w client) io \<Rightarrow> bool" where
  "io_keeps I m \<longleftrightarrow> (\<forall>c. I (cl_world c) \<longrightarrow> I (cl_world (snd (m c))))"

definition loop_keeps :: "('w \<Rightarrow> bool) \<Rightarrow> ('a, 'w client) io_loop \<Rightarrow> bool" where
  "loop_keeps I l \<longleftrightarrow> (\<forall>c r c'. I (cl_world c) \<longrightarrow> l c = Some (r, c') \<longrightarrow> I (cl_world c'))"

named_theorems keeps

lemma io_keepsD: "io_keeps I m \<Longrightarrow> m c = (r, c') \<Longrightarrow> I (cl_world c) \<Longrightarrow> I (cl_world c')"
  by (metis io_keeps_def snd_conv)

lemma loop_keepsD: "loop_keeps I l \<Longrightarrow> l c = Some (r, c') \<Longrightarrow> I (cl_world c) \<Longrightarrow> I (cl_world c')"
  by (auto simp: loop_keeps_def)

lemma keeps_pure [keeps]:
  "io_keeps I (io_return a)" "io_keeps I (io_fail e)" "io_keeps I (io_of r)"
  "io_keeps I (io_of_fault text f)" "io_keeps I (io_some what x)" "io_keeps I allocate_request_id"
  by (auto simp: io_keeps_def io_return_def io_fail_def io_of_def io_of_fault_def io_some_def
      allocate_request_id_def split: sum.split fault.split option.split)

lemma keeps_bind [keeps]:
  assumes "io_keeps I m" and "\<And>a. io_keeps I (f a)"
  shows "io_keeps I (io_bind m f)"
  unfolding io_keeps_def
proof (intro allI impI)
  fix c :: "'a client" assume c: "I (cl_world c)"
  obtain r c1 where m: "m c = (r, c1)" by fastforce
  with assms(1) c have "I (cl_world c1)" by (auto dest: io_keepsD)
  with m assms(2) show "I (cl_world (snd (io_bind m f c)))"
    by (auto simp: io_bind_def io_keeps_def split: sum.split)
qed

lemma keeps_then [keeps]: "io_keeps I m \<Longrightarrow> io_keeps I n \<Longrightarrow> io_keeps I (io_then m n)"
  by (simp add: io_then_def keeps_bind)

lemma keeps_each [keeps]: "(\<And>x. io_keeps I (f x)) \<Longrightarrow> io_keeps I (io_each f xs)"
  by (induction xs) (auto intro!: keeps_bind keeps_pure)

lemma keeps_on_world: "(\<And>w. I w \<Longrightarrow> I (snd (m w))) \<Longrightarrow> io_keeps I (on_world m)"
  by (simp add: io_keeps_def on_world_def split_beta)

lemma loop_keeps_of [keeps]: "io_keeps I m \<Longrightarrow> loop_keeps I (loop_of m)"
  by (simp add: loop_keeps_def loop_of_def io_keeps_def) (metis snd_conv)

lemma loop_keeps_bind [keeps]:
  assumes "loop_keeps I m" and "\<And>a. loop_keeps I (f a)"
  shows "loop_keeps I (loop_bind m f)"
  unfolding loop_keeps_def
proof (intro allI impI)
  fix c r c' assume c: "I (cl_world c)" and run: "loop_bind m f c = Some (r, c')"
  then obtain r1 c1 where m: "m c = Some (r1, c1)" by (auto simp: loop_bind_def split: option.splits)
  with assms(1) c have "I (cl_world c1)" by (auto dest: loop_keepsD)
  with m run show "I (cl_world c')"
    by (cases r1) (simp_all add: loop_bind_def loop_keepsD [OF assms(2)])
qed

lemma loop_keeps_loop [keeps]:
  assumes "\<And>a. io_keeps I (step a)"
  shows "loop_keeps I (io_loop step a)"
  unfolding loop_keeps_def
proof (intro allI impI)
  fix c r c' assume c: "I (cl_world c)" and l: "io_loop step a c = Some (r, c')"
  show "I (cl_world c')"
    by (rule io_loop_invariant [OF l, where I = "\<lambda>_ c. I (cl_world c)" and Q = "\<lambda>_ c. I (cl_world c)"])
      (rule c | erule (1) io_keepsD [OF assms])+
qed

lemma loop_keeps_end [keeps]: "loop_keeps I l \<Longrightarrow> loop_keeps I (loop_end l)"
  by (simp add: loop_end_def keeps)

section \<open>The contract of a world\<close>

locale kept_world =
  fixes env :: "'w client_env" and allowed :: "client_control \<Rightarrow> bool" and I :: "'w \<Rightarrow> bool"
  assumes exchange_keeps: "allowed (env_message e) \<Longrightarrow> I w \<Longrightarrow> I (snd (ce_exchange env e w))"
    and clock_keeps: "I w \<Longrightarrow> I (snd (ce_clock env w))"
    and sleep_keeps: "I w \<Longrightarrow> I (ce_sleep env d w)"
    and recv_keeps: "I w \<Longrightarrow> I (snd (ce_recv env d w))"
    and datagram_keeps: "I w \<Longrightarrow> I (snd (ce_send_datagram env bs w))"
    and instant_keeps: "I w \<Longrightarrow> I (snd (ce_instant env w))"
    and tick_keeps: "I w \<Longrightarrow> I (ce_tick env d w)"
    and stopped_keeps: "I w \<Longrightarrow> I (snd (ce_stopped env w))"
    and capture_keeps: "I w \<Longrightarrow> I (snd (ce_capture env source w))"
    and samples_keeps: "I w \<Longrightarrow> I (snd (ce_samples env w))"
begin

lemma reads_keep [keeps]:
  "io_keeps I (read_clock env)" "io_keeps I (read_instant env)" "io_keeps I (wait_tick env d)"
  "io_keeps I (read_stop env)" "io_keeps I (sleep_for env d)"
  unfolding read_clock_def read_instant_def wait_tick_def read_stop_def sleep_for_def
  by (auto intro!: keeps_on_world simp: split_beta clock_keeps instant_keeps tick_keeps
      stopped_keeps sleep_keeps)

lemma send_control_keeps [keeps]: "allowed m \<Longrightarrow> io_keeps I (send_control env m)"
  unfolding send_control_def send_envelope_def
  by (intro keeps keeps_on_world) (auto simp: envelope_new_def intro: exchange_keeps)

lemma expect_reply_keeps [keeps]: "allowed m \<Longrightarrow> io_keeps I (expect_reply env m act what f)"
  unfolding expect_reply_def
  by (rule keeps_bind) (auto intro!: keeps split: option.split server_control.split)

lemma ensure_not_error_keeps [keeps]: "io_keeps I (ensure_not_error act r)"
  unfolding ensure_not_error_def by (cases r) (simp_all add: keeps)

lemma datagrams_keep [keeps]:
  "io_keeps I (send_media_packet env p)" "io_keeps I (recv_within env d)"
proof -
  have "I w \<Longrightarrow> I (snd (case ce_recv env d w of (None, w) \<Rightarrow> (Inr None, w)
      | (Some (Inl e), w) \<Rightarrow> (Inl e, w) | (Some (Inr bs), w) \<Rightarrow> (Inr (Some bs), w)))" for w
    using recv_keeps [of w d] by (auto split: prod.split option.split sum.split)
  then show "io_keeps I (recv_within env d)"
    unfolding recv_within_def decode_received_def
    by (intro keeps_bind keeps_on_world)
      (auto intro!: keeps split: option.split sum.split fault.split)
  show "io_keeps I (send_media_packet env p)"
    unfolding send_media_packet_def encode_for_sending_def
    by (intro keeps_bind keeps_on_world datagram_keeps) (auto intro!: keeps split: sum.split)
qed

end

text \<open>What a client sends once it is in a room and publishes nothing.\<close>

fun visitor_message :: "client_control \<Rightarrow> bool" where
  "visitor_message (Ping _) = True"
| "visitor_message (TimeSync _) = True"
| "visitor_message ListRooms = True"
| "visitor_message (ListParticipants _) = True"
| "visitor_message (ListStreams _) = True"
| "visitor_message (SubscribeStream _) = True"
| "visitor_message (UnsubscribeStream _) = True"
| "visitor_message (LeaveRoom _) = True"
| "visitor_message (SetVoiceState _) = True"
| "visitor_message (PollStreamConfig _) = True"
| "visitor_message (RequestKeyframe _) = True"
| "visitor_message (SendRemoteInput _) = True"
| "visitor_message (ViewerStats _) = True"
| "visitor_message _ = False"

locale visitor_world = kept_world +
  assumes visitor_allowed [simp]: "visitor_message m \<Longrightarrow> allowed m"
begin

lemma keepalive_keeps [keeps]:
  "io_keeps I (send_keepalive env)" "io_keeps I (sleep_with_keepalive env d)"
  "io_keeps I (recv_media_packet_with_keepalive env d)"
proof -
  show alive: "io_keeps I (send_keepalive env)"
    unfolding send_keepalive_def by (intro keeps) simp
  show "io_keeps I (sleep_with_keepalive env d)"
  proof (induction d rule: less_induct)
    case (less d)
    have "io_keeps I (sleep_with_keepalive env (d - min d CONTROL_KEEPALIVE_INTERVAL))" if "0 < d"
      using that by (intro less) (simp add: CONTROL_KEEPALIVE_INTERVAL_def)
    then show ?case
      by (subst sleep_with_keepalive.simps) (auto simp: Let_def intro!: keeps alive)
  qed
  show "io_keeps I (recv_media_packet_with_keepalive env d)"
  proof (induction d rule: less_induct)
    case (less d)
    have "io_keeps I (recv_media_packet_with_keepalive env (d - min d CONTROL_KEEPALIVE_INTERVAL))"
      if "0 < d"
      using that by (intro less) (simp add: CONTROL_KEEPALIVE_INTERVAL_def)
    then show ?case
      by (subst recv_media_packet_with_keepalive.simps)
        (auto simp: Let_def intro!: keeps alive split: option.split)
  qed
qed

lemma clock_refresh_keeps [keeps]:
  "io_keeps I (refresh_clock env t)" "io_keeps I (new_clock_tracker env a estimate)"
proof -
  have "io_keeps I (time_sync_exchange env act)" for act
    unfolding time_sync_exchange_def
    by (intro keeps) (auto intro!: keeps split: server_control.split)
  then show "io_keeps I (refresh_clock env t)"
    unfolding refresh_clock_def refresh_control_clock_def
    by (auto intro!: keeps split: sum.split prod.split)
  show "io_keeps I (new_clock_tracker env a estimate)"
    unfolding new_clock_tracker_def by (intro keeps)
qed

lemma visitor_requests_keep [keeps]:
  "io_keeps I (set_voice_state_request env rid voice)" "io_keeps I (set_voice_state_if_requested env a rid)"
  "io_keeps I (request_rooms env)" "io_keeps I (list_room_streams env rid)"
  "io_keeps I (list_room_participants env rid)" "io_keeps I (subscribe_stream_request env rid sid)"
  "io_keeps I (unsubscribe_stream_request env rid sid)" "io_keeps I (leave_room_request env rid)"
  "io_keeps I (Client_Control.poll_stream_config env rid sid)"
  "io_keeps I (send_keyframe_request env rid sid reason)" "io_keeps I (send_viewer_stats env rid sid stats)"
  "io_keeps I (send_remote_input_script_if_requested env a rid sid)"
  "io_keeps I (resolve_viewer_room_id env a)"
  unfolding set_voice_state_request_def set_voice_state_if_requested_def request_rooms_def
    list_room_streams_def list_room_participants_def subscribe_stream_request_def
    unsubscribe_stream_request_def leave_room_request_def Client_Control.poll_stream_config_def
    send_keyframe_request_def send_viewer_stats_def send_remote_input_script_if_requested_def
    resolve_viewer_room_id_def send_input_event_def Let_def
  by (auto intro!: keeps split: option.split prod.split)

lemma viewer_parts_keep [keeps]:
  "io_keeps I (push_packet p now b)" "io_keeps I (report_if_due env a rid sid n stats)"
  "io_keeps I (ask_keyframe env rid sid reason v)" "io_keeps I (render_picture env picture v)"
  "io_keeps I (idle a some what outcome)" "io_keeps I (final_stats env rid sid received stats)"
  "io_keeps I (screen_viewer_new env a ms estimate)"
  unfolding push_packet_def report_if_due_def ask_keyframe_def render_picture_def idle_def
    final_stats_def screen_viewer_new_def
  by (auto intro!: keeps split: sum.split prod.split)

lemma frames_keep [keeps]:
  "io_keeps I (show_frame env rid sid f v)" "io_keeps I (play_frame env f l)"
  unfolding show_frame_def play_frame_def Let_def
  by (auto intro!: keeps split: sum.split prod.split option.split)

lemma packets_keep [keeps]:
  "io_keeps I (screen_packet env a rid sid ms now estimate p v)"
  "io_keeps I (voice_packet env a rid sid ms now estimate p l)"
  unfolding screen_packet_def voice_packet_def Let_def
  by (auto intro!: keeps split: prod.split option.split)

lemma viewer_steps_keep [keeps]:
  "io_keeps I (screen_viewer_step env a rid sid ms target v)"
  "io_keeps I (voice_viewer_step env a rid sid ms target lv)"
  "io_keeps I (dual_viewer_step env a rid plan vv)"
  unfolding screen_viewer_step_def voice_viewer_step_def dual_viewer_step_def Let_def
  by (auto intro!: keeps split: prod.split option.split)

lemma viewer_loops_keep [keeps]:
  "loop_keeps I (run_screen_viewer env a rid sid estimate)"
  "loop_keeps I (run_voice_viewer env a rid sid estimate)"
  "loop_keeps I (run_dual_viewer env a rid sid sid' estimate)"
  "loop_keeps I (run_viewer_media env a rid sid estimate)"
proof -
  show screen: "loop_keeps I (run_screen_viewer env a rid sid estimate)"
    unfolding run_screen_viewer_def Let_def by (intro keeps)
  show voice: "loop_keeps I (run_voice_viewer env a rid sid estimate)"
    unfolding run_voice_viewer_def Let_def by (auto intro!: keeps)
  show "loop_keeps I (run_dual_viewer env a rid sid sid' estimate)"
    unfolding run_dual_viewer_def by (auto intro!: keeps)
  show "loop_keeps I (run_viewer_media env a rid sid estimate)"
    unfolding run_viewer_media_def
    by (auto intro!: keeps screen voice split: media_kind_arg.split)
qed

lemma visits_keep [keeps]:
  "loop_keeps I (dual_viewer_flow env a rid streams estimate)"
  "loop_keeps I (single_viewer_flow env a rid streams estimate)"
  unfolding dual_viewer_flow_def single_viewer_flow_def by (auto intro!: keeps)

lemma viewer_flow_keeps:
  assumes "\<And>rid. allowed (JoinRoom \<lparr>join_room_id = rid\<rparr>)"
  shows "loop_keeps I (viewer_flow env a estimate)"
  unfolding viewer_flow_def join_room_request_def by (auto intro!: keeps assms)

end

end
