(* ===== verification/Client_On_Relay.thy ===== *)
theory Client_On_Relay
  imports Client_World
begin

text \<open>
  A client and the modelled relay together: the world is the relay's control state, the session of
  the client's connection, and an outside with clock, datagrams and devices. Before each request
  other users may act on the state.
\<close>

section \<open>The world\<close>

record 'o relay_world =
  rw_state :: control_state
  rw_session :: session
  rw_outside :: 'o

type_synonym 'o others = "'o \<Rightarrow> control_state \<Rightarrow> control_state"

definition relay_exchange ::
  "'o others \<Rightarrow> 'o client_env \<Rightarrow> client_envelope \<Rightarrow> (server_envelope, 'o relay_world) io" where
  "relay_exchange others base request w =
     (let (now, outside) = ce_clock base (rw_outside w);
          (now', outside) = ce_clock base outside;
          st = others outside (rw_state w);
          (reply, s, st) = handle_client_envelope now now' (rw_session w) request st
      in (Inr reply, \<lparr>rw_state = st, rw_session = s, rw_outside = outside\<rparr>))"

definition on_outside :: "('o \<Rightarrow> 'a \<times> 'o) \<Rightarrow> 'o relay_world \<Rightarrow> 'a \<times> 'o relay_world" where
  "on_outside m w = (let (r, outside) = m (rw_outside w) in (r, w\<lparr>rw_outside := outside\<rparr>))"

definition relay_env :: "'o others \<Rightarrow> 'o client_env \<Rightarrow> 'o relay_world client_env" where
  "relay_env others base =
     \<lparr>ce_os = ce_os base, ce_exchange = relay_exchange others base,
      ce_clock = on_outside (ce_clock base),
      ce_sleep = (\<lambda>d w. w\<lparr>rw_outside := ce_sleep base d (rw_outside w)\<rparr>),
      ce_recv = (\<lambda>d. on_outside (ce_recv base d)),
      ce_send_datagram = (\<lambda>bs. on_outside (ce_send_datagram base bs)),
      ce_instant = on_outside (ce_instant base),
      ce_tick = (\<lambda>d w. w\<lparr>rw_outside := ce_tick base d (rw_outside w)\<rparr>),
      ce_stopped = on_outside (ce_stopped base),
      ce_capture = (\<lambda>source. on_outside (ce_capture base source)),
      ce_samples = on_outside (ce_samples base)\<rparr>"

lemma on_outside_world:
  "rw_state (snd (on_outside m w)) = rw_state w" "rw_session (snd (on_outside m w)) = rw_session w"
  by (simp_all add: on_outside_def split_beta)

section \<open>What a visitor changes\<close>

text \<open>Who is in which room.\<close>

definition present :: "control_state \<Rightarrow> room_id \<Rightarrow> user_id set option" where
  "present st rid = map_option participants (bt_get (cs_rooms st) rid)"

lemma member_present: "member st rid uid \<longleftrightarrow> (\<exists>us. present st rid = Some us \<and> uid \<in> us)"
  by (auto simp: member_def present_def)

definition ids_fresh :: "control_state \<Rightarrow> bool" where
  "ids_fresh st \<longleftrightarrow> present st (cs_next_room_id st) = None"

lemma ids_fresh_alt: "ids_fresh st \<longleftrightarrow> bt_get (cs_rooms st) (cs_next_room_id st) = None"
  by (simp add: ids_fresh_def present_def)

lemma room_subscribe_participants: "participants (snd (room_subscribe sid uid r)) = participants r"
  by (simp add: room_subscribe_def)

lemma room_unsubscribe_participants: "participants (room_unsubscribe sid uid r) = participants r"
  by (simp add: room_unsubscribe_def Let_def split: option.split)

text \<open>Of a visitor's messages only leaving changes who is present.\<close>

lemma visitor_subscribe:
  "present (snd (handle_subscribe_stream s m st)) = present st"
  "cs_next_room_id (snd (handle_subscribe_stream s m st)) = cs_next_room_id st"
  by (auto simp: handle_subscribe_stream_def Let_def split_beta register_keyframe_request_def present_def
      room_subscribe_participants fun_eq_iff split: option.split)

lemma visitor_unsubscribe:
  "present (snd (handle_unsubscribe_stream s m st)) = present st"
  "cs_next_room_id (snd (handle_unsubscribe_stream s m st)) = cs_next_room_id st"
  by (auto simp: handle_unsubscribe_stream_def Let_def remove_viewer_stats_eq present_def
      room_unsubscribe_participants fun_eq_iff split: option.split)

lemma visitor_pending:
  "present (snd (set_voice_state s m1 st)) = present st"
  "cs_next_room_id (snd (set_voice_state s m1 st)) = cs_next_room_id st"
  "present (snd (request_keyframe s m2 st)) = present st"
  "cs_next_room_id (snd (request_keyframe s m2 st)) = cs_next_room_id st"
  "present (snd (handle_viewer_stats s m3 st)) = present st"
  "cs_next_room_id (snd (handle_viewer_stats s m3 st)) = cs_next_room_id st"
  by (auto simp: set_voice_state_def request_keyframe_def register_keyframe_request_def
      handle_viewer_stats_def Let_def present_def fun_eq_iff split: option.split)

lemma visitor_input:
  "present (snd (send_remote_input now s m st)) = present st"
  "cs_next_room_id (snd (send_remote_input now s m st)) = cs_next_room_id st"
proof -
  have "cs_rooms (snd (send_remote_input now s m st)) = cs_rooms st \<and>
      cs_next_room_id (snd (send_remote_input now s m st)) = cs_next_room_id st"
    by (cases rule: send_remote_input_cases [of now s m st]) (simp_all add: Let_def)
  then show "present (snd (send_remote_input now s m st)) = present st"
    "cs_next_room_id (snd (send_remote_input now s m st)) = cs_next_room_id st"
    by (auto simp: present_def)
qed

lemmas visitor_arms = visitor_subscribe visitor_unsubscribe visitor_pending visitor_input

lemma visitor_keeps_rooms:
  assumes "visitor_message m" and "\<nexists>l. m = LeaveRoom l"
  shows "present (snd (snd (dispatch now now' s st m))) = present st"
    and "cs_next_room_id (snd (snd (dispatch now now' s st m))) = cs_next_room_id st"
  using assms by (cases m; simp add: keep_session_def visitor_arms)+

lemma join_adds_member:
  assumes "sess_user_id s = Some uid"
  shows "member (snd (handle_join_room s m st)) rid uid \<Longrightarrow> member st rid uid \<or> rid = join_room_id m"
    and "present (snd (handle_join_room s m st)) rid = None \<longleftrightarrow> present st rid = None"
    and "cs_next_room_id (snd (handle_join_room s m st)) = cs_next_room_id st"
  using assms
  by (auto simp: handle_join_room_def Let_def split_beta present_def member_def ensure_voice_state_def
      split: option.splits if_splits)

lemma leave_shrinks:
  "present st rid' = None \<Longrightarrow> present (leave_room uid rid st) rid' = None"
  "cs_next_room_id (leave_room uid rid st) = cs_next_room_id st"
proof -
  show "present st rid' = None \<Longrightarrow> present (leave_room uid rid st) rid' = None"
    by (cases "bt_get (cs_rooms st) rid")
      (auto simp: leave_room_absent present_def leave_room_eq Let_def bt_get_put_room)
  show "cs_next_room_id (leave_room uid rid st) = cs_next_room_id st"
    by (cases "bt_get (cs_rooms st) rid") (simp_all add: leave_room_absent leave_room_eq Let_def)
qed

section \<open>The invariant of a visit\<close>

text \<open>
  What other users do keeps the relay's invariant and does not move this user; \<open>rooms\<close> are the rooms
  the user may be in.
\<close>

definition harmless :: "'o others \<Rightarrow> user_id \<Rightarrow> bool" where
  "harmless others uid \<longleftrightarrow>
     (\<forall>outside st. wf_state st \<longrightarrow> ids_fresh st \<longrightarrow>
        wf_state (others outside st) \<and> ids_fresh (others outside st) \<and>
        (\<forall>rid. member (others outside st) rid uid = member st rid uid))"

definition visiting :: "'o others \<Rightarrow> user_id \<Rightarrow> room_id set \<Rightarrow> 'o relay_world \<Rightarrow> bool" where
  "visiting others uid rooms w \<longleftrightarrow>
     harmless others uid \<and> wf_state (rw_state w) \<and> ids_fresh (rw_state w) \<and>
     sess_user_id (rw_session w) = Some uid \<and> (\<forall>rid. member (rw_state w) rid uid \<longrightarrow> rid \<in> rooms)"

definition visit_message :: "room_id set \<Rightarrow> client_control \<Rightarrow> bool" where
  "visit_message rooms m \<longleftrightarrow>
     visitor_message m \<or> (\<exists>rid \<in> rooms. m = JoinRoom \<lparr>join_room_id = rid\<rparr>)"

lemma visit_dispatch:
  assumes "visit_message rooms m" and "wf_state st" and "ids_fresh st"
    and "sess_user_id s = Some uid" and "\<forall>rid. member st rid uid \<longrightarrow> rid \<in> rooms"
  shows "let (reply, s', st') = dispatch now now' s st m in
    wf_state st' \<and> ids_fresh st' \<and> sess_user_id s' = Some uid \<and>
    (\<forall>rid. member st' rid uid \<longrightarrow> rid \<in> rooms)"
proof -
  have no: "\<nexists>h. m = Hello h" using assms(1) by (auto simp: visit_message_def)
  have wf: "wf_state (snd (snd (dispatch now now' s st m)))"
    using assms(2,3) by (simp add: wf_dispatch ids_fresh_alt)
  have user: "sess_user_id (fst (snd (dispatch now now' s st m))) = Some uid"
    using dispatch_session_user [OF no] assms(4) by simp
  have "ids_fresh (snd (snd (dispatch now now' s st m))) \<and>
    (\<forall>rid. member (snd (snd (dispatch now now' s st m))) rid uid \<longrightarrow> rid \<in> rooms)"
  proof -
    consider (leave) l where "m = LeaveRoom l" | (join) rid where "m = JoinRoom \<lparr>join_room_id = rid\<rparr>" "rid \<in> rooms"
      | (other) "visitor_message m" "\<nexists>l. m = LeaveRoom l"
      using assms(1) by (auto simp: visit_message_def)
    then show ?thesis
    proof cases
      case leave
      then show ?thesis
        using assms(2-5)
        by (simp add: keep_session_def handle_leave_room_def member_leave_room ids_fresh_def leave_shrinks)
    next
      case join
      have "member st rid' uid \<or> rid' = rid"
        if "member (snd (handle_join_room s \<lparr>join_room_id = rid\<rparr> st)) rid' uid" for rid'
        using join_adds_member(1) [OF assms(4) that] by simp
      then show ?thesis
        using assms(3,5) join join_adds_member(2,3) [OF assms(4)]
        by (auto simp: keep_session_def ids_fresh_def)
    next
      case other
      then show ?thesis
        using assms(3,5) visitor_keeps_rooms [of m now now' s st] by (simp add: ids_fresh_def member_present)
    qed
  qed
  with wf user show ?thesis by (simp add: split_beta)
qed

lemma visit_exchange:
  assumes "visit_message rooms (env_message e)" and "visiting others uid rooms w"
  shows "visiting others uid rooms (snd (relay_exchange others base e w))"
proof -
  have others: "harmless others uid" and st: "wf_state (rw_state w)" "ids_fresh (rw_state w)"
    and s: "sess_user_id (rw_session w) = Some uid"
    and rooms: "\<forall>rid. member (rw_state w) rid uid \<longrightarrow> rid \<in> rooms"
    using assms(2) by (auto simp: visiting_def)
  obtain now o1 where now: "ce_clock base (rw_outside w) = (now, o1)" by fastforce
  obtain now' o2 where now': "ce_clock base o1 = (now', o2)" by fastforce
  let ?st = "others o2 (rw_state w)"
  have st': "wf_state ?st" "ids_fresh ?st" "\<forall>rid. member ?st rid uid \<longrightarrow> rid \<in> rooms"
    using others st rooms by (auto simp: harmless_def)
  obtain reply s1 st1 where r: "handle_client_envelope now now' (rw_session w) e ?st = (reply, s1, st1)"
    using prod_cases3 by blast
  then have "(s1, st1) = (if authorization_error (rw_session w) (env_message e) ?st = None
      then snd (dispatch now now' (rw_session w) ?st (env_message e)) else (rw_session w, ?st))"
    by (metis handle_client_envelope_state snd_conv)
  then have "wf_state st1 \<and> ids_fresh st1 \<and> sess_user_id s1 = Some uid \<and>
      (\<forall>rid. member st1 rid uid \<longrightarrow> rid \<in> rooms)"
    using visit_dispatch [OF assms(1) st'(1,2) s st'(3), of now now'] st' s
    by (auto simp: split_beta split: if_splits) (metis fst_conv snd_conv)+
  then show ?thesis
    using others by (simp add: relay_exchange_def now now' r visiting_def)
qed

lemma visiting_outside [simp]:
  "visiting others uid rooms (w\<lparr>rw_outside := outside\<rparr>) = visiting others uid rooms w"
  "visiting others uid rooms (snd (on_outside m w)) = visiting others uid rooms w"
  by (simp_all add: visiting_def on_outside_world)

lemma relay_env_sel [simp]:
  "ce_os (relay_env others base) = ce_os base"
  "ce_exchange (relay_env others base) = relay_exchange others base"
  "ce_clock (relay_env others base) = on_outside (ce_clock base)"
  "ce_sleep (relay_env others base) d w = w\<lparr>rw_outside := ce_sleep base d (rw_outside w)\<rparr>"
  "ce_recv (relay_env others base) d = on_outside (ce_recv base d)"
  "ce_send_datagram (relay_env others base) bs = on_outside (ce_send_datagram base bs)"
  "ce_instant (relay_env others base) = on_outside (ce_instant base)"
  "ce_tick (relay_env others base) d w = w\<lparr>rw_outside := ce_tick base d (rw_outside w)\<rparr>"
  "ce_stopped (relay_env others base) = on_outside (ce_stopped base)"
  "ce_capture (relay_env others base) source = on_outside (ce_capture base source)"
  "ce_samples (relay_env others base) = on_outside (ce_samples base)"
  by (simp_all add: relay_env_def)

interpretation relay: visitor_world "relay_env others base" "visit_message rooms"
  "visiting others uid rooms" for others base uid rooms
  by unfold_locales (simp_all add: visit_exchange, simp add: visit_message_def)

text \<open>Without other users in between, nothing of theirs changes.\<close>

definition visiting_alone :: "user_id \<Rightarrow> control_state \<Rightarrow> 'o relay_world \<Rightarrow> bool" where
  "visiting_alone uid before w \<longleftrightarrow>
     visiting (\<lambda>_ st. st :: control_state) uid UNIV w \<and> same_for_others uid before (rw_state w)"

lemma alone_exchange:
  assumes "visit_message UNIV (env_message e)" and "visiting_alone uid before w"
  shows "visiting_alone uid before (snd (relay_exchange (\<lambda>_ st. st) base e w))"
proof -
  let ?w = "snd (relay_exchange (\<lambda>_ st. st) base e w)"
  have w: "visiting (\<lambda>_ st. st :: control_state) uid UNIV w" "same_for_others uid before (rw_state w)"
    using assms(2) by (auto simp: visiting_alone_def)
  have w': "visiting (\<lambda>_ st. st :: control_state) uid UNIV ?w" by (rule visit_exchange [OF assms(1) w(1)])
  obtain now o1 where now: "ce_clock base (rw_outside w) = (now, o1)" by fastforce
  obtain now' o2 where now': "ce_clock base o1 = (now', o2)" by fastforce
  obtain reply s1 st1 where
    r: "handle_client_envelope now now' (rw_session w) e (rw_state w) = (reply, s1, st1)"
    using prod_cases3 by blast
  have sel: "rw_state ?w = st1" "rw_session ?w = s1"
    by (simp_all add: relay_exchange_def now now' r)
  have "(s1, st1) = (if authorization_error (rw_session w) (env_message e) (rw_state w) = None
      then snd (dispatch now now' (rw_session w) (rw_state w) (env_message e))
      else (rw_session w, rw_state w))"
    by (metis handle_client_envelope_state r snd_conv)
  moreover have "sess_user_id s1 = Some uid" using w' by (simp add: visiting_def sel)
  ultimately have "same_for_others uid (rw_state w) st1"
    using others_dispatch [of "rw_state w" now now' "rw_session w" "env_message e" uid] w(1)
    by (auto simp: visiting_def ids_fresh_alt split: if_splits) (metis fst_conv snd_conv)
  with w' same_for_others_trans [OF w(2)] show ?thesis by (simp add: visiting_alone_def sel)
qed

lemma visiting_alone_outside [simp]:
  "visiting_alone uid before (w\<lparr>rw_outside := outside\<rparr>) = visiting_alone uid before w"
  "visiting_alone uid before (snd (on_outside m w)) = visiting_alone uid before w"
  by (simp_all add: visiting_alone_def on_outside_world)

interpretation alone: visitor_world "relay_env (\<lambda>_ st. st) base" "visit_message UNIV"
  "visiting_alone uid before" for base uid before
  by unfold_locales (simp_all add: alone_exchange)

section \<open>Leaving\<close>

lemma visiting_mono: "visiting others uid rooms w \<Longrightarrow> rooms \<subseteq> rooms' \<Longrightarrow> visiting others uid rooms' w"
  by (auto simp: visiting_def)

lemma leave_exchange:
  assumes "visiting others uid rooms w" and "env_message e = LeaveRoom \<lparr>leave_room_id = rid\<rparr>"
    and "relay_exchange others base e w = (Inr reply, w')" and "env_message reply = RoomLeft left"
  shows "visiting others uid (rooms - {rid}) w'"
proof -
  have others: "harmless others uid" and st: "wf_state (rw_state w)" "ids_fresh (rw_state w)"
    and s: "sess_user_id (rw_session w) = Some uid"
    and rooms: "\<forall>rid. member (rw_state w) rid uid \<longrightarrow> rid \<in> rooms"
    using assms(1) by (auto simp: visiting_def)
  obtain now o1 where now: "ce_clock base (rw_outside w) = (now, o1)" by fastforce
  obtain now' o2 where now': "ce_clock base o1 = (now', o2)" by fastforce
  let ?st = "others o2 (rw_state w)"
  have st': "wf_state ?st" "ids_fresh ?st" "\<forall>rid. member ?st rid uid \<longrightarrow> rid \<in> rooms"
    using others st rooms by (auto simp: harmless_def)
  have "authorization_error (rw_session w) (env_message e) ?st = None"
  proof (rule ccontr)
    assume "authorization_error (rw_session w) (env_message e) ?st \<noteq> None"
    then obtain err where "authorization_error (rw_session w) (env_message e) ?st = Some (Error err)"
      by (auto simp: authorization_error_def error_reply_def split: if_splits)
    with assms(3,4) show False
      by (auto simp: relay_exchange_def now now' handle_client_envelope_def envelope_new_def Let_def)
  qed
  then have "rw_state w' = leave_room uid rid ?st \<and> rw_session w' = rw_session w"
    using assms(2,3) s
    by (auto simp: relay_exchange_def now now' handle_client_envelope_def keep_session_def
        handle_leave_room_def Let_def)
  then show ?thesis
    using others st' s
    by (auto simp: visiting_def wf_leave_room member_leave_room ids_fresh_def leave_shrinks)
qed

lemma leave_succeeds:
  assumes "visiting others uid rooms (cl_world c)"
    and "leave_room_request (relay_env others base) rid c = (Inr (), c')"
  shows "visiting others uid (rooms - {rid}) (cl_world c')"
proof -
  let ?e = "envelope_new (cl_next_request_id c) (LeaveRoom \<lparr>leave_room_id = rid\<rparr>)"
  obtain reply w' where x: "relay_exchange others base ?e (cl_world c) = (Inr reply, w')"
    by (cases "relay_exchange others base ?e (cl_world c)")
      (auto simp: relay_exchange_def Let_def split_beta)
  have "(\<exists>left. env_message reply = RoomLeft left) \<and> cl_world c' = w'"
    using assms(2)
    by (auto simp: leave_room_request_def expect_reply_def send_control_def send_envelope_def
        allocate_request_id_def on_world_def x io_simps io_bind_def split: server_control.splits)
  then show ?thesis using leave_exchange [OF assms(1) _ x] by (auto simp: envelope_new_def)
qed

lemma loop_bind_Some:
  "loop_bind m f c = Some (Inr b, c') \<longleftrightarrow>
     (\<exists>a c1. m c = Some (Inr a, c1) \<and> f a c1 = Some (Inr b, c'))"
  by (auto simp: loop_bind_def split: option.splits sum.splits)

lemma visit_ends_outside:
  assumes "visiting others uid rooms (cl_world c)"
    and "viewer_flow (relay_env others base) a estimate c = Some (Inr (), c')"
  shows "visiting others uid rooms (cl_world c')"
proof -
  let ?env = "relay_env others base"
  let ?enter = "\<lambda>rid. io_then (join_room_request ?env rid)
    (io_then (set_voice_state_if_requested ?env a rid) (list_room_streams ?env rid))"
  let ?stay = "\<lambda>rid streams. if a_media_kind a = BothArg then dual_viewer_flow ?env a rid streams estimate
    else single_viewer_flow ?env a rid streams estimate"
  obtain rid c1 streams c2 c3 where
    resolve: "loop_of (resolve_viewer_room_id ?env a) c = Some (Inr rid, c1)"
    and enter: "loop_of (?enter rid) c1 = Some (Inr streams, c2)"
    and stay: "?stay rid streams c2 = Some (Inr (), c3)"
    and leave: "leave_room_request ?env rid c3 = (Inr (), c')"
    using assms(2) unfolding viewer_flow_def loop_bind_Some by (auto simp: loop_of_def)
  let ?rooms = "insert rid rooms"
  have "visiting others uid rooms (cl_world c1)"
    by (rule loop_keepsD [where I = "visiting others uid rooms"
          and l = "loop_of (resolve_viewer_room_id ?env a)", OF _ resolve assms(1)])
      (intro keeps relay.visitor_requests_keep)
  then have "visiting others uid ?rooms (cl_world c1)" by (rule visiting_mono) blast
  then have "visiting others uid ?rooms (cl_world c2)"
    by (rule loop_keepsD [where I = "visiting others uid ?rooms" and l = "loop_of (?enter rid)", OF _ enter, rotated])
      (auto simp: join_room_request_def visit_message_def
        intro!: keeps relay.visitor_requests_keep relay.send_control_keeps relay.ensure_not_error_keeps)
  then have "visiting others uid ?rooms (cl_world c3)"
    by (rule loop_keepsD [where I = "visiting others uid ?rooms" and l = "?stay rid streams", OF _ stay, rotated]) (auto intro!: relay.visits_keep)
  then have "visiting others uid (?rooms - {rid}) (cl_world c')" by (rule leave_succeeds [OF _ leave])
  then show ?thesis by (rule visiting_mono) blast
qed

end
