(* ===== verification/Client_Served.thy ===== *)
theory Client_Served
  imports Client_On_Relay
begin

text \<open>
  Client and relay agree: each request of a viewer's visit, sent to a relay in which the user and the
  stream are where the viewer expects them, is answered by the reply that the client accepts. Put
  together, a viewer that plays no media visits and leaves without an error.
\<close>

section \<open>One request\<close>

definition at_relay :: "session \<Rightarrow> control_state \<Rightarrow> 'o relay_world client \<Rightarrow> bool" where
  "at_relay s st c \<longleftrightarrow> rw_session (cl_world c) = s \<and> rw_state (cl_world c) = st"

text \<open>A request returns \<open>a\<close> and takes the relay from one state to another.\<close>

definition answers ::
  "session \<Rightarrow> control_state \<Rightarrow> ('a, 'o relay_world) client_io \<Rightarrow> 'a \<Rightarrow> control_state \<Rightarrow> bool" where
  "answers s st m a st' \<longleftrightarrow> (\<forall>c. at_relay s st c \<longrightarrow> (\<exists>c'. m c = (Inr a, c') \<and> at_relay s st' c'))"

abbreviation alone_env :: "'o client_env \<Rightarrow> 'o relay_world client_env" where
  "alone_env base \<equiv> relay_env (\<lambda>_ st. st) base"

lemma answersD: "answers s st m a st' \<Longrightarrow> at_relay s st c \<Longrightarrow> \<exists>c'. m c = (Inr a, c') \<and> at_relay s st' c'"
  by (simp add: answers_def)

lemma answers_return: "answers s st (io_return a) a st"
  by (simp add: answers_def io_apply)

lemma answers_of: "r = Inr a \<Longrightarrow> answers s st (io_of r) a st"
  by (simp add: io_of_def answers_return)

lemma answers_bind: "answers s st m a st1 \<Longrightarrow> answers s st1 (f a) b st2 \<Longrightarrow> answers s st (io_bind m f) b st2"
  by (fastforce simp: answers_def io_bind_def)

lemma answers_then: "answers s st m a st1 \<Longrightarrow> answers s st1 n b st2 \<Longrightarrow> answers s st (io_then m n) b st2"
  by (simp add: io_then_def answers_bind)

lemma answers_send:
  assumes "may_control s st"
    and "\<And>now now'. dispatch now now' s st m = (reply, s, st')"
  shows "answers s st (send_control (alone_env base) m) reply st'"
  unfolding answers_def
proof (intro allI impI)
  fix c :: "'a relay_world client" assume c: "at_relay s st c"
  obtain now o1 where now: "ce_clock base (rw_outside (cl_world c)) = (now, o1)" by fastforce
  obtain now' o2 where now': "ce_clock base o1 = (now', o2)" by fastforce
  have "authorization_error s m st = None"
    using assms(1) by (auto simp: authorization_error_def may_control_def)
  then show "\<exists>c'. send_control (alone_env base) m c = (Inr reply, c') \<and> at_relay s st' c'"
    using c assms(2)
    by (simp add: send_control_def send_envelope_def allocate_request_id_def on_world_def
        relay_exchange_def now now' at_relay_def handle_client_envelope_def envelope_new_def io_bind_def
        io_return_def)
qed

lemma answers_expect:
  assumes "may_control s st" and "\<And>now now'. dispatch now now' s st m = (reply, s, st')"
    and "select reply = Some a"
  shows "answers s st (expect_reply (alone_env base) m action what select) a st'"
  unfolding expect_reply_def
  by (rule answers_bind [OF answers_send [OF assms(1,2)]]) (simp add: assms(3) answers_return)

lemma answers_ensure:
  assumes "may_control s st" and "\<And>now now'. dispatch now now' s st m = (reply, s, st')"
    and "\<nexists>e. reply = Error e"
  shows "answers s st (io_bind (send_control (alone_env base) m) (ensure_not_error action)) () st'"
  by (rule answers_bind [OF answers_send [OF assms(1,2)]])
    (use assms(3) in \<open>auto simp: ensure_not_error_def answers_return split: server_control.split\<close>)

section \<open>The relay as the viewer expects it\<close>

text \<open>The user is in the room, and the stream is published there with a configuration.\<close>

definition hosts :: "session \<Rightarrow> room_id \<Rightarrow> (stream_id, published_stream) btree \<Rightarrow> control_state \<Rightarrow> bool" where
  "hosts s rid streams st \<longleftrightarrow>
     may_control s st \<and>
     (\<exists>r uid. bt_get (cs_rooms st) rid = Some r \<and> sess_user_id s = Some uid \<and>
        uid \<in> participants r \<and> published_streams r = streams)"

lemma hosts_may: "hosts s rid streams st \<Longrightarrow> may_control s st"
  by (simp add: hosts_def)

lemma hosts_token:
  "hosts s rid streams st \<Longrightarrow> cs_rooms st' = cs_rooms st \<Longrightarrow> cs_access_token st' = cs_access_token st \<Longrightarrow>
   hosts s rid streams st'"
  by (simp add: hosts_def may_control_def requires_access_token_def)

lemma hosts_keyframe [simp]:
  "hosts s rid streams (register_keyframe_request sid reason st) = hosts s rid streams st"
  by (simp add: hosts_def may_control_def requires_access_token_def register_keyframe_request_def)

lemma answers_join:
  assumes "may_control s st" and "sess_user_id s = Some uid" and "bt_get (cs_rooms st) rid = Some r"
    and "uid \<in> participants r \<or> card (participants r) < max_participants_per_room (cs_limits st)"
  shows "\<exists>st'. answers s st (join_room_request (alone_env base) rid) () st' \<and>
    hosts s rid (published_streams r) st'"
proof -
  let ?m = "JoinRoom \<lparr>join_room_id = rid\<rparr>"
  let ?st = "snd (handle_join_room s \<lparr>join_room_id = rid\<rparr> st)"
  have "dispatch now now' s st ?m = (fst (handle_join_room s \<lparr>join_room_id = rid\<rparr> st), s, ?st)" for now now'
    by (simp add: keep_session_def)
  moreover have "\<nexists>e. fst (handle_join_room s \<lparr>join_room_id = rid\<rparr> st) = Error e"
    using assms by (auto simp: handle_join_room_def Let_def split_beta)
  ultimately have "answers s st (join_room_request (alone_env base) rid) () ?st"
    unfolding join_room_request_def by (rule answers_ensure [OF assms(1)])
  moreover have "hosts s rid (published_streams r) ?st"
    using assms
    by (auto simp: hosts_def handle_join_room_def Let_def split_beta ensure_voice_state_def
        may_control_def requires_access_token_def room_join_def)
  ultimately show ?thesis by blast
qed

lemma answers_voice:
  assumes "hosts s rid streams st"
  shows "\<exists>st'. answers s st (set_voice_state_if_requested (alone_env base) a rid) () st' \<and>
    hosts s rid streams st'"
proof (cases "voice_state_requested a")
  case True
  define m where "m = \<lparr>svs_room_id = rid, svs_muted = vc_muted (ui_voice_control_state a),
    svs_deafened = vc_deafened (ui_voice_control_state a),
    svs_push_to_talk = vc_push_to_talk (ui_voice_control_state a),
    svs_speaking = voice_speaking_from_state (ui_voice_control_state a)\<rparr>"
  obtain r uid where r: "bt_get (cs_rooms st) rid = Some r" "sess_user_id s = Some uid" "uid \<in> participants r"
    using assms by (auto simp: hosts_def)
  let ?r = "set_voice_state s m st"
  have "\<exists>v. fst ?r = VoiceStateUpdated v" using r by (simp add: set_voice_state_def m_def Let_def)
  then obtain v where v: "fst ?r = VoiceStateUpdated v" by blast
  then have "dispatch now now' s st (SetVoiceState m) = (VoiceStateUpdated v, s, snd ?r)" for now now'
    by (simp add: keep_session_def)
  then have "answers s st (set_voice_state_if_requested (alone_env base) a rid) () (snd ?r)"
    unfolding set_voice_state_if_requested_def set_voice_state_request_def m_def [symmetric]
    using True by (auto intro: answers_expect [OF hosts_may [OF assms]])
  moreover have "hosts s rid streams (snd ?r)"
    by (rule hosts_token [OF assms]) (use r in \<open>simp_all add: set_voice_state_def m_def Let_def\<close>)
  ultimately show ?thesis by blast
next
  case False
  with assms show ?thesis by (auto simp: set_voice_state_if_requested_def intro: answers_return)
qed

definition listed :: "room_id \<Rightarrow> room \<Rightarrow> stream_summary list" where
  "listed rid r = map (\<lambda>stream.
     \<lparr>ssum_room_id = rid, ssum_stream_id = st_stream_id stream,
      ssum_publisher_id = st_publisher_id stream, ssum_codec = st_codec stream,
      ssum_media_kind = st_media_kind stream,
      ssum_subscriber_count = subscriber_count r (st_stream_id stream),
      ssum_has_config = (st_config stream \<noteq> None),
      ssum_target_bitrate_bps = st_target_bitrate_bps stream,
      ssum_target_frames_per_second = st_target_frames_per_second stream\<rparr>)
     (bt_values (published_streams r))"

lemma answers_list:
  assumes "hosts s rid streams st"
  shows "\<exists>r. published_streams r = streams \<and>
    answers s st (list_room_streams (alone_env base) rid) (listed rid r) st"
proof -
  obtain r uid where r: "bt_get (cs_rooms st) rid = Some r" "sess_user_id s = Some uid"
      "uid \<in> participants r" "published_streams r = streams"
    using assms by (auto simp: hosts_def)
  have "answers s st (list_room_streams (alone_env base) rid) (listed rid r) st"
    unfolding list_room_streams_def
    by (rule answers_expect [OF hosts_may [OF assms],
          where reply = "StreamList \<lparr>sl_room_id = rid, sl_streams = listed rid r\<rparr>"])
      (use r in \<open>simp_all add: list_streams_def listed_def\<close>)
  with r(4) show ?thesis by blast
qed

lemma find_of_map: "find P (map f xs) = map_option f (find (P \<circ> f) xs)"
  by (induction xs) auto

lemma find_published:
  assumes own: "\<And>sid x. bt_get streams sid = Some x \<Longrightarrow> st_stream_id x = sid"
    and x: "bt_get streams sid = Some x"
  shows "find (\<lambda>x. st_stream_id x = sid) (bt_values streams) = Some x"
proof -
  have x': "x \<in> set (bt_values streams)" "st_stream_id x = sid"
    using x own by (auto simp: set_bt_values intro: ranI)
  then obtain y where y: "find (\<lambda>x. st_stream_id x = sid) (bt_values streams) = Some y"
    by (metis (mono_tags, lifting) find_None_iff2 option.exhaust)
  then have "y \<in> set (bt_values streams)" "st_stream_id y = sid"
    by (auto simp: find_Some_iff)
  with own x have "y = x" by (auto simp: set_bt_values ran_def)
  with y show ?thesis by simp
qed

lemma resolve_listed:
  assumes "\<And>sid x. bt_get (published_streams r) sid = Some x \<Longrightarrow> st_stream_id x = sid"
    and "bt_get (published_streams r) (a_stream_id a) = Some x"
    and "protocol_media_kind a = Inr (st_media_kind x)"
  shows "resolve_viewer_stream_id a (listed rid r) = Inr (a_stream_id a)"
proof -
  have "find_stream (a_stream_id a) (listed rid r) =
      map_option (\<lambda>stream. \<lparr>ssum_room_id = rid, ssum_stream_id = st_stream_id stream,
      ssum_publisher_id = st_publisher_id stream, ssum_codec = st_codec stream,
      ssum_media_kind = st_media_kind stream,
      ssum_subscriber_count = subscriber_count r (st_stream_id stream),
      ssum_has_config = (st_config stream \<noteq> None),
      ssum_target_bitrate_bps = st_target_bitrate_bps stream,
      ssum_target_frames_per_second = st_target_frames_per_second stream\<rparr>)
      (find (\<lambda>x. st_stream_id x = a_stream_id a) (bt_values (published_streams r)))"
    by (simp add: find_stream_def listed_def find_of_map comp_def)
  moreover have "st_stream_id x = a_stream_id a" using assms(1,2) .
  ultimately show ?thesis
    using assms(3) by (simp add: resolve_viewer_stream_id_def find_published [OF assms(1,2)])
qed

lemma answers_subscribe:
  assumes "hosts s rid streams st" and "bt_get streams sid = Some x"
  shows "\<exists>st'. answers s st (subscribe_stream_request (alone_env base) rid sid) () st' \<and>
    hosts s rid streams st'"
proof -
  define m where "m = \<lparr>sub_room_id = rid, sub_stream_id = sid\<rparr>"
  obtain r uid where r: "bt_get (cs_rooms st) rid = Some r" "sess_user_id s = Some uid"
      "uid \<in> participants r" "published_streams r = streams"
    using assms by (auto simp: hosts_def)
  let ?r = "handle_subscribe_stream s m st"
  have reply: "fst ?r = StreamSubscribed \<lparr>ss_room_id = rid, ss_stream_id = sid\<rparr>"
    using r assms(2) by (simp add: handle_subscribe_stream_def m_def Let_def room_subscribe_def)
  have "dispatch now now' s st (SubscribeStream m) = (fst ?r, s, snd ?r)" for now now'
    by (simp add: keep_session_def)
  then have "answers s st (subscribe_stream_request (alone_env base) rid sid) () (snd ?r)"
    unfolding subscribe_stream_request_def m_def [symmetric]
    by (rule answers_ensure [OF hosts_may [OF assms(1)]]) (simp add: reply)
  moreover have "hosts s rid streams (snd ?r)"
    using r assms
    by (auto simp: handle_subscribe_stream_def m_def Let_def room_subscribe_def hosts_def may_control_def
        requires_access_token_def register_keyframe_request_def)
  ultimately show ?thesis by blast
qed

lemma answers_poll:
  assumes "hosts s rid streams st" and "bt_get streams sid = Some x" and "st_config x = Some config"
  shows "answers s st (Client_Control.poll_stream_config (alone_env base) rid sid) config st"
  unfolding Client_Control.poll_stream_config_def
  by (rule answers_expect [OF hosts_may [OF assms(1)], where reply = "StreamConfigR config"])
    (use assms in \<open>auto simp: hosts_def Control_Ops.poll_stream_config_def\<close>)

lemma answers_unsubscribe:
  assumes "hosts s rid streams st"
  shows "\<exists>st'. answers s st (unsubscribe_stream_request (alone_env base) rid sid) () st' \<and>
    hosts s rid streams st'"
proof -
  define m where "m = \<lparr>unsub_room_id = rid, unsub_stream_id = sid\<rparr>"
  obtain r uid where r: "bt_get (cs_rooms st) rid = Some r" "sess_user_id s = Some uid"
      "uid \<in> participants r" "published_streams r = streams"
    using assms by (auto simp: hosts_def)
  let ?r = "handle_unsubscribe_stream s m st"
  have "dispatch now now' s st (UnsubscribeStream m) =
      (StreamUnsubscribed \<lparr>sus_room_id = rid, sus_stream_id = sid\<rparr>, s, snd ?r)" for now now'
    by (simp add: keep_session_def handle_unsubscribe_stream_def m_def Let_def)
  then have "answers s st (unsubscribe_stream_request (alone_env base) rid sid) () (snd ?r)"
    unfolding unsubscribe_stream_request_def m_def [symmetric]
    by (rule answers_expect [OF hosts_may [OF assms(1)]]) simp
  moreover have "hosts s rid streams (snd ?r)"
  proof -
    have "published_streams (room_unsubscribe sid uid r) = published_streams r"
      by (simp add: room_unsubscribe_def Let_def split: option.split)
    then show ?thesis
      using r assms
      by (auto simp: handle_unsubscribe_stream_def m_def Let_def remove_viewer_stats_eq hosts_def
          may_control_def requires_access_token_def room_unsubscribe_participants)
  qed
  ultimately show ?thesis by blast
qed

lemma answers_leave:
  assumes "hosts s rid streams st" and "sess_user_id s = Some uid"
  shows "answers s st (leave_room_request (alone_env base) rid) () (leave_room uid rid st)"
  unfolding leave_room_request_def
  by (rule answers_expect [OF hosts_may [OF assms(1)], where reply = "RoomLeft \<lparr>left_room_id = rid\<rparr>"])
    (use assms in \<open>simp_all add: keep_session_def handle_leave_room_def\<close>)

section \<open>A visit\<close>

text \<open>A loop that returns \<open>a\<close>, as \<open>answers\<close> for a single operation.\<close>

definition visits ::
  "session \<Rightarrow> control_state \<Rightarrow> ('a, 'o relay_world client) io_loop \<Rightarrow> 'a \<Rightarrow> control_state \<Rightarrow> bool" where
  "visits s st l a st' \<longleftrightarrow> (\<forall>c. at_relay s st c \<longrightarrow> (\<exists>c'. l c = Some (Inr a, c') \<and> at_relay s st' c'))"

lemma visits_of: "answers s st m a st' \<Longrightarrow> visits s st (loop_of m) a st'"
  by (simp add: visits_def answers_def loop_of_def)

lemma visits_bind: "visits s st l a st1 \<Longrightarrow> visits s st1 (f a) b st2 \<Longrightarrow> visits s st (loop_bind l f) b st2"
  by (fastforce simp: visits_def loop_bind_def)

lemma single_viewer_visits:
  assumes "hosts s rid streams st" and "bt_get streams (a_stream_id a) = Some x"
    and "st_config x = Some config" and "published_streams r = streams"
    and "resolve_viewer_stream_id a (listed rid r) = Inr (a_stream_id a)"
    and "a_remote_input_script a = None" and "\<not> synthetic_media_enabled a"
  shows "\<exists>st'. visits s st (single_viewer_flow (alone_env base) a rid (listed rid r) estimate) () st' \<and>
    hosts s rid streams st'"
proof -
  obtain st1 where sub: "answers s st (subscribe_stream_request (alone_env base) rid (a_stream_id a)) () st1"
    and st1: "hosts s rid streams st1"
    using answers_subscribe [OF assms(1,2)] by blast
  obtain st2 where unsub: "answers s st1 (unsubscribe_stream_request (alone_env base) rid (a_stream_id a)) () st2"
    and st2: "hosts s rid streams st2"
    using answers_unsubscribe [OF st1] by blast
  have "answers s st1 (send_remote_input_script_if_requested (alone_env base) a rid (a_stream_id a)) () st1"
    using assms(6) by (simp add: send_remote_input_script_if_requested_def answers_return)
  with answers_poll [OF st1 assms(2,3)] sub
  have enter: "answers s st
      (io_then (subscribe_stream_request (alone_env base) rid (a_stream_id a))
        (io_then (Client_Control.poll_stream_config (alone_env base) rid (a_stream_id a))
          (send_remote_input_script_if_requested (alone_env base) a rid (a_stream_id a)))) () st1"
    by (blast intro: answers_then)
  have "visits s st (single_viewer_flow (alone_env base) a rid (listed rid r) estimate) () st2"
    unfolding single_viewer_flow_def
    by (rule visits_bind [OF visits_of [OF answers_of [OF assms(5)]]], rule visits_bind [OF visits_of [OF enter]],
        rule visits_bind [where a = "()", rotated], rule visits_of [OF unsub])
      (use assms(7) in \<open>simp add: visits_of answers_return\<close>)
  with st2 show ?thesis by blast
qed

lemma visit_succeeds:
  assumes "wf_state st" and "may_control s st" and "sess_user_id s = Some uid"
    and "selected_room_id a = Inr (Some rid)" and "bt_get (cs_rooms st) rid = Some r"
    and "uid \<in> participants r \<or> card (participants r) < max_participants_per_room (cs_limits st)"
    and "bt_get (published_streams r) (a_stream_id a) = Some x"
    and "protocol_media_kind a = Inr (st_media_kind x)" and "st_config x = Some config"
    and "a_remote_input_script a = None" and "\<not> synthetic_media_enabled a"
  shows "\<exists>st'. visits s st (viewer_flow (alone_env base) a estimate) () (leave_room uid rid st')"
proof -
  let ?env = "alone_env base" and ?streams = "published_streams r"
  have own: "bt_get ?streams sid = Some y \<Longrightarrow> st_stream_id y = sid" for sid y
    using room_wfD(3) [OF rooms_wfD(2) [OF wf_stateD(1) [OF assms(1)] assms(5)]] by (auto dest: room_inv_stream)
  have both: "a_media_kind a \<noteq> BothArg" using assms(8) by (auto simp: protocol_media_kind_def)
  obtain st1 where join: "answers s st (join_room_request ?env rid) () st1" and st1: "hosts s rid ?streams st1"
    using answers_join [OF assms(2,3,5,6)] by blast
  obtain st2 where voice: "answers s st1 (set_voice_state_if_requested ?env a rid) () st2"
    and st2: "hosts s rid ?streams st2"
    using answers_voice [OF st1] by blast
  obtain r2 where r2: "published_streams r2 = ?streams"
    and list: "answers s st2 (list_room_streams ?env rid) (listed rid r2) st2"
    using answers_list [OF st2] by blast
  have resolve: "resolve_viewer_stream_id a (listed rid r2) = Inr (a_stream_id a)"
    by (rule resolve_listed [where x = x]) (use own r2 assms(7,8) in auto)
  obtain st3 where stay: "visits s st2 (single_viewer_flow ?env a rid (listed rid r2) estimate) () st3"
    and st3: "hosts s rid ?streams st3"
    using single_viewer_visits [OF st2 assms(7,9) r2 resolve assms(10,11)] by blast
  have room: "answers s st (resolve_viewer_room_id ?env a) rid st"
    using assms(4) by (simp add: resolve_viewer_room_id_def io_of_def answers_return)
  have enter: "answers s st (io_then (join_room_request ?env rid)
      (io_then (set_voice_state_if_requested ?env a rid) (list_room_streams ?env rid))) (listed rid r2) st2"
    by (intro answers_then [OF join] answers_then [OF voice] list)
  have "visits s st (viewer_flow ?env a estimate) () (leave_room uid rid st3)"
    unfolding viewer_flow_def
    by (rule visits_bind [OF visits_of [OF room]], rule visits_bind [OF visits_of [OF enter]],
        rule visits_bind [where a = "()", rotated], rule visits_of [OF answers_leave [OF st3 assms(3)]])
      (use both stay in simp)
  then show ?thesis by blast
qed

lemma left_room: "\<not> member (leave_room uid rid st) rid uid"
  by (cases "bt_get (cs_rooms st) rid")
    (auto simp: member_def leave_room_absent leave_room_eq Let_def bt_get_put_room room_after_leave_sel)

lemma visits_final:
  assumes "visits s st l a st'"
  shows "\<exists>c'. l \<lparr>cl_next_request_id = n, cl_world = \<lparr>rw_state = st, rw_session = s, rw_outside = outside\<rparr>\<rparr> =
    Some (Inr a, c') \<and> rw_state (cl_world c') = st'"
proof -
  have "at_relay s st \<lparr>cl_next_request_id = n, cl_world = \<lparr>rw_state = st, rw_session = s, rw_outside = outside\<rparr>\<rparr>"
    by (simp add: at_relay_def)
  with assms show ?thesis unfolding visits_def at_relay_def by blast
qed

section \<open>Publishing\<close>

text \<open>The configurations that the relay takes as they are.\<close>

definition config_in_limits :: "stream_config \<Rightarrow> bool" where
  "config_in_limits config \<longleftrightarrow>
     5 \<le> sc_frames_per_second config \<and> sc_frames_per_second config \<le> 120 \<and>
     (sc_width config = 0 \<and> sc_height config = 0 \<or>
      320 \<le> sc_width config \<and> sc_width config \<le> 7680 \<and> 180 \<le> sc_height config \<and> sc_height config \<le> 4320)"

definition clamped_config :: "stream_config \<Rightarrow> stream_config" where
  "clamped_config config =
     (let (w, h) = clamp_target_resolution (sc_width config) (sc_height config)
      in config\<lparr>sc_frames_per_second := clampw MIN_TARGET_FRAMES_PER_SECOND MAX_TARGET_FRAMES_PER_SECOND
             (sc_frames_per_second config), sc_width := w, sc_height := h\<rparr>)"

lemma clamped_in_limits: "clamped_config config = config \<longleftrightarrow> config_in_limits config"
proof -
  have fps: "clampw 5 120 x = x \<longleftrightarrow> 5 \<le> x \<and> x \<le> 120" for x :: u16
    by (auto simp: clampw_def)
  have w: "clampw 320 7680 x = x \<longleftrightarrow> 320 \<le> x \<and> x \<le> 7680" for x :: u32
    by (auto simp: clampw_def)
  have h: "clampw 180 4320 x = x \<longleftrightarrow> 180 \<le> x \<and> x \<le> 4320" for x :: u32
    by (auto simp: clampw_def)
  show ?thesis
    by (cases config) (auto simp: clamped_config_def config_in_limits_def clamp_target_resolution_def
        MIN_TARGET_FRAMES_PER_SECOND_def MAX_TARGET_FRAMES_PER_SECOND_def MIN_TARGET_WIDTH_def
        MAX_TARGET_WIDTH_def MIN_TARGET_HEIGHT_def MAX_TARGET_HEIGHT_def fps w h)
qed

lemma set_stream_config_reply:
  assumes "sess_user_id s = Some uid" and "bt_get (cs_rooms st) (sc_room_id config) = Some r"
    and "bt_get (published_streams r) (sc_stream_id config) = Some x"
    and "st_publisher_id x = uid" and "st_codec x = sc_codec config"
  shows "fst (set_stream_config s config st) = StreamConfigR (clamped_config config)"
  using assms
  by (simp add: set_stream_config_def clamped_config_def Let_def split_beta)

text \<open>A request whose reply \<open>select\<close> does not accept, and that is no error, is refused as unexpected.\<close>

definition refuses ::
  "session \<Rightarrow> control_state \<Rightarrow> ('a, 'o relay_world) client_io \<Rightarrow> client_error \<Rightarrow> control_state \<Rightarrow> bool" where
  "refuses s st m e st' \<longleftrightarrow> (\<forall>c. at_relay s st c \<longrightarrow> (\<exists>c'. m c = (Inl e, c') \<and> at_relay s st' c'))"

lemma refuses_bind: "answers s st m a st1 \<Longrightarrow> refuses s st1 (f a) e st2 \<Longrightarrow> refuses s st (io_bind m f) e st2"
  by (fastforce simp: answers_def refuses_def io_bind_def)

lemma refuses_expect:
  assumes "may_control s st" and "\<And>now now'. dispatch now now' s st m = (reply, s, st')"
    and "select reply = None" and "\<nexists>e. reply = Error e"
  shows "refuses s st (expect_reply (alone_env base) m action what select)
    (Unexpected (lit ''unexpected '' @ what @ lit '' response'') reply) st'"
  unfolding expect_reply_def
  by (rule refuses_bind [OF answers_send [OF assms(1,2)]])
    (use assms(3,4) in \<open>auto simp: refuses_def io_apply split: server_control.split\<close>)

lemma publish_reply:
  assumes "sess_user_id s = Some uid" and "publisher_for_stream st (pub_stream_id m) = None"
    and "bt_get (cs_rooms st) (pub_room_id m) = Some r" and "uid \<in> participants r"
    and "bt_len (published_streams r) < max_streams_per_room (cs_limits st)"
  shows "\<exists>sp r' x. handle_publish_stream s m st =
      (StreamPublished sp, st\<lparr>cs_rooms := bt_insert (pub_room_id m) r' (cs_rooms st)\<rparr>) \<and>
    bt_get (published_streams r') (pub_stream_id m) = Some x \<and> st_publisher_id x = uid \<and>
    st_codec x = pub_codec m"
  using assms
  by (intro exI [of _ "\<lparr>sp_room_id = pub_room_id m, sp_stream_id = pub_stream_id m\<rparr>"]
      exI [of _ "room_publish_stream
        \<lparr>st_stream_id = pub_stream_id m, st_publisher_id = uid, st_codec = pub_codec m,
         st_media_kind = pub_media_kind m, st_config = None,
         st_target_bitrate_bps = DEFAULT_TARGET_BITRATE_BPS,
         st_target_frames_per_second = DEFAULT_TARGET_FRAMES_PER_SECOND,
         st_target_width = 0, st_target_height = 0\<rparr> r"])
    (simp add: handle_publish_stream_def room_publish_stream_def)

text \<open>What the client makes of the relay's reply to its configuration.\<close>

definition publish_outcome :: "stream_config \<Rightarrow> client_error + unit" where
  "publish_outcome config =
     (if config_in_limits config then Inr ()
      else Inl (Unexpected (lit ''unexpected stream config response'') (StreamConfigR (clamped_config config))))"

lemma publish_configured:
  assumes "may_control s st" and "sess_user_id s = Some uid"
    and "publisher_for_stream st (a_stream_id a) = None" and "bt_get (cs_rooms st) rid = Some r"
    and "uid \<in> participants r" and "bt_len (published_streams r) < max_streams_per_room (cs_limits st)"
    and "args_stream_config (os_source_size (ce_os base)) a rid = Inr config"
    and "at_relay s st c"
  shows "\<exists>c'. publish_configured_stream (alone_env base) a rid c = (publish_outcome config, c')"
proof -
  let ?env = "alone_env base"
  obtain kind where kind: "args_codec a = Inr (sc_codec config)" "protocol_media_kind a = Inr kind"
      "sc_room_id config = rid" "sc_stream_id config = a_stream_id a"
    using assms(7)
    by (cases "a_media_kind a")
      (auto simp: args_stream_config_def args_codec_def protocol_media_kind_def and_then_Inr)
  define m where "m = \<lparr>pub_room_id = rid, pub_stream_id = a_stream_id a, pub_codec = sc_codec config,
    pub_media_kind = kind\<rparr>"
  obtain sp r' x where pub: "handle_publish_stream s m st =
      (StreamPublished sp, st\<lparr>cs_rooms := bt_insert rid r' (cs_rooms st)\<rparr>)"
    and x: "bt_get (published_streams r') (a_stream_id a) = Some x" "st_publisher_id x = uid"
      "st_codec x = sc_codec config"
    using publish_reply [of s uid st m r] assms by (auto simp: m_def)
  let ?st = "st\<lparr>cs_rooms := bt_insert rid r' (cs_rooms st)\<rparr>"
  have may: "may_control s ?st" using assms(1) by (simp add: may_control_def requires_access_token_def)
  have "dispatch now now' s ?st (SetStreamConfig config) =
      (StreamConfigR (clamped_config config), s, snd (set_stream_config s config ?st))" for now now'
    using set_stream_config_reply [of s uid ?st config r' x] assms(2) x kind
    by (simp add: keep_session_def)
  note config = answers_expect [OF may this] refuses_expect [OF may this]
  have set: "\<exists>c'. set_stream_config_request ?env config c = (publish_outcome config, c')" if "at_relay s ?st c" for c
  proof (cases "config_in_limits config")
    case True
    then have "answers s ?st (set_stream_config_request ?env config) ()
        (snd (set_stream_config s config ?st))"
      unfolding set_stream_config_request_def
      by (intro config(1)) (simp_all add: clamped_in_limits)
    with that True show ?thesis by (auto simp: answers_def publish_outcome_def)
  next
    case False
    then have "refuses s ?st (set_stream_config_request ?env config)
        (Unexpected (lit ''unexpected '' @ lit ''stream config'' @ lit '' response'')
          (StreamConfigR (clamped_config config))) (snd (set_stream_config s config ?st))"
      unfolding set_stream_config_request_def
      by (intro config(2)) (simp_all add: clamped_in_limits)
    with that False show ?thesis by (auto simp: refuses_def publish_outcome_def lit_def)
  qed
  have "answers s st (send_control ?env (PublishStream m)) (StreamPublished sp) ?st"
    by (rule answers_send [OF assms(1)]) (simp add: keep_session_def pub)
  from answersD [OF this assms(8)] obtain c1 where
    "send_control ?env (PublishStream m) c = (Inr (StreamPublished sp), c1)" "at_relay s ?st c1" by blast
  then show ?thesis
    using set [of c1] kind assms(7)
    by (simp add: publish_configured_stream_def io_of_def m_def [symmetric] io_bind_def ensure_not_error_def
        io_then_def io_return_def)
qed

section \<open>A relay with one configured stream\<close>

definition sample_host :: control_state where
  "sample_host =
     (let host = sample_session 7;
          st = snd (handle_create_room host \<lparr>create_name = [65]\<rparr> control_state_new);
          st = snd (handle_publish_stream host
            \<lparr>pub_room_id = 1, pub_stream_id = 1, pub_codec = H264, pub_media_kind = Screen\<rparr> st)
      in snd (set_stream_config host
           \<lparr>sc_room_id = 1, sc_stream_id = 1, sc_codec = H264, sc_width = 1280, sc_height = 720,
            sc_frames_per_second = 30, sc_timebase_hz = 90000\<rparr> st))"

lemma sample_host_wf: "wf_state sample_host"
proof -
  have "wf_state (snd (handle_create_room (sample_session 7) \<lparr>create_name = [65]\<rparr> control_state_new))"
    by (rule wf_handle_create_room [OF wf_control_state_new]) (simp add: control_state_new_def)
  then show ?thesis
    unfolding sample_host_def Let_def by (intro wf_set_stream_config wf_handle_publish_stream)
qed

lemma sample_host_room:
  "\<exists>r x config. bt_get (cs_rooms sample_host) 1 = Some r \<and> participants r = {7} \<and>
     bt_get (published_streams r) 1 = Some x \<and> st_media_kind x = Screen \<and> st_config x = Some config"
  "rid \<noteq> 1 \<Longrightarrow> bt_get (cs_rooms sample_host) rid = None"
  "cs_next_room_id sample_host = 2" "cs_access_token sample_host = None"
  "max_participants_per_room (cs_limits sample_host) = 64"
  by (simp_all add: sample_host_def Let_def handle_create_room_def control_state_new_def limits_default_def
      DEFAULT_MAX_ROOMS_def DEFAULT_MAX_PARTICIPANTS_PER_ROOM_def DEFAULT_MAX_STREAMS_PER_ROOM_def
      bt_len_def room_join_def room_new_def ensure_voice_state_def handle_publish_stream_def
      publisher_for_stream_def published_stream_def room_publish_stream_def set_stream_config_def split_beta
      bt_values_def bt_insert.rep_eq bt_new.rep_eq)

section \<open>A visit to the sample relay\<close>

definition quiet_os :: client_os where
  "quiet_os =
     \<lparr>os_windows = False, os_source_size = (\<lambda>_. Inl []), os_encoder_probe = Inl [],
      os_decoder_probe = Inl [], os_open_window = Inl [], os_draw = (\<lambda>_. Inr ()),
      os_speaker = (\<lambda>_. Inr ()), os_open_microphone = (\<lambda>_ _. Inl []),
      os_apply_input = (\<lambda>_ applier. (Inr (), applier)), os_quote = (\<lambda>s. s)\<rparr>"

text \<open>An outside that is a clock: readings and waiting move it on, no datagram comes.\<close>

definition quiet_env :: "nat client_env" where
  "quiet_env =
     \<lparr>ce_os = quiet_os, ce_exchange = (\<lambda>_ t. (Inl Panicked, t)), ce_clock = (\<lambda>t. (of_nat t, Suc t)),
      ce_sleep = (\<lambda>d t. t + d), ce_recv = (\<lambda>d t. (None, t + d)), ce_send_datagram = (\<lambda>_ t. (Inr (), t)),
      ce_instant = (\<lambda>t. (t, t)), ce_tick = (\<lambda>d t. t + d), ce_stopped = (\<lambda>t. (False, t)),
      ce_capture = (\<lambda>_ t. (Inl Panicked, t)), ce_samples = (\<lambda>t. (Inr None, t))\<rparr>"

definition sample_visit :: "((client_error + unit) \<times> nat relay_world client) option" where
  "sample_visit =
     viewer_flow (alone_env quiet_env) (default_args\<lparr>a_channel_id := Some 1\<rparr>) 
       \<lparr>cs_rtt_micros = 0, cs_rtt_ms = 0, cs_clock_offset_micros = 0\<rparr>
       \<lparr>cl_next_request_id = 5, cl_world =
          \<lparr>rw_state = sample_host, rw_session = sample_session 8, rw_outside = 0\<rparr>\<rparr>"

lemma sample_visit_hyps:
  "\<exists>r x config. bt_get (cs_rooms sample_host) 1 = Some r \<and> card (participants r) < 64 \<and>
     bt_get (published_streams r) 1 = Some x \<and> st_media_kind x = Screen \<and> st_config x = Some config"
  "may_control (sample_session 8) sample_host" "ids_fresh sample_host"
  "\<not> member sample_host rid 8" "harmless (\<lambda>_ st. st) 8"
proof -
  show "\<exists>r x config. bt_get (cs_rooms sample_host) 1 = Some r \<and> card (participants r) < 64 \<and>
     bt_get (published_streams r) 1 = Some x \<and> st_media_kind x = Screen \<and> st_config x = Some config"
    using sample_host_room(1) by force
  show "may_control (sample_session 8) sample_host" "ids_fresh sample_host" "harmless (\<lambda>_ st. st) 8"
    by (simp_all add: may_control_def requires_access_token_def ids_fresh_alt sample_host_room(2-5) harmless_def)
  show "\<not> member sample_host rid 8"
    using sample_host_room(1) by (cases "rid = 1") (auto simp: member_def sample_host_room(2))
qed

lemma sample_visit_args:
  "selected_room_id (default_args\<lparr>a_channel_id := Some 1\<rparr>) = Inr (Some 1)"
  "a_stream_id (default_args\<lparr>a_channel_id := Some 1\<rparr>) = 1"
  "protocol_media_kind (default_args\<lparr>a_channel_id := Some 1\<rparr>) = Inr Screen"
  "a_remote_input_script (default_args\<lparr>a_channel_id := Some 1\<rparr>) = None"
  "\<not> synthetic_media_enabled (default_args\<lparr>a_channel_id := Some 1\<rparr>)"
  by (simp_all add: default_args_def selected_room_id_def protocol_media_kind_def synthetic_media_enabled_def)

lemma sample_visit_ends: "\<exists>c'. sample_visit = Some (Inr (), c')"
proof -
  obtain r x config where r: "bt_get (cs_rooms sample_host) 1 = Some r" "card (participants r) < 64"
    "bt_get (published_streams r) 1 = Some x" "st_media_kind x = Screen" "st_config x = Some config"
    using sample_visit_hyps(1) by blast
  then have "\<exists>st'. visits (sample_session 8) sample_host
      (viewer_flow (alone_env quiet_env) (default_args\<lparr>a_channel_id := Some 1\<rparr>)
        \<lparr>cs_rtt_micros = 0, cs_rtt_ms = 0, cs_clock_offset_micros = 0\<rparr>) () (leave_room 8 1 st')"
    by (intro visit_succeeds [OF sample_host_wf sample_visit_hyps(2) _ _ r(1)])
      (simp_all add: sample_visit_args sample_host_room(5))
  then obtain st' where "visits (sample_session 8) sample_host
      (viewer_flow (alone_env quiet_env) (default_args\<lparr>a_channel_id := Some 1\<rparr>)
        \<lparr>cs_rtt_micros = 0, cs_rtt_ms = 0, cs_clock_offset_micros = 0\<rparr>) () (leave_room 8 1 st')"
    by blast
  from visits_final [OF this] show ?thesis unfolding sample_visit_def by fast
qed

section \<open>Properties\<close>

text \<open>
  C19. Client and relay agree on a visit: when the viewer has access, gives the id of a room of the
  relay that it is in or that is not full, and the id of a stream that is published there, of the
  kind it asks for and configured, when it is started without media to play (no synthetic media)
  and without a remote-input script, and while no other user changes the relay, its flow ends
  without an error and the user has left the room.
\<close>

theorem viewer_flow_succeeds:
  assumes "wf_state st" and "may_control s st" and "sess_user_id s = Some uid"
    and "selected_room_id a = Inr (Some rid)" and "bt_get (cs_rooms st) rid = Some r"
    and "uid \<in> participants r \<or> card (participants r) < max_participants_per_room (cs_limits st)"
    and "bt_get (published_streams r) (a_stream_id a) = Some x"
    and "protocol_media_kind a = Inr (st_media_kind x)" and "st_config x = Some config"
    and "a_remote_input_script a = None" and "\<not> synthetic_media_enabled a"
  shows "\<exists>c'. viewer_flow (relay_env (\<lambda>_ st. st) base) a estimate
      \<lparr>cl_next_request_id = n, cl_world = \<lparr>rw_state = st, rw_session = s, rw_outside = outside\<rparr>\<rparr> =
        Some (Inr (), c') \<and> \<not> member (rw_state (cl_world c')) rid uid"
proof -
  obtain st' where "visits s st (viewer_flow (alone_env base) a estimate) () (leave_room uid rid st')"
    using visit_succeeds [OF assms] by blast
  from visits_final [OF this] left_room show ?thesis by metis
qed

theorem viewer_flow_succeeds_witness:
  "\<exists>c'. sample_visit = Some (Inr (), c') \<and> \<not> member (rw_state (cl_world c')) 1 8"
proof -
  obtain r x config where r: "bt_get (cs_rooms sample_host) 1 = Some r" "card (participants r) < 64"
    "bt_get (published_streams r) 1 = Some x" "st_media_kind x = Screen" "st_config x = Some config"
    using sample_visit_hyps(1) by blast
  then show ?thesis unfolding sample_visit_def
    by (intro viewer_flow_succeeds [OF sample_host_wf sample_visit_hyps(2) _ _ r(1)])
      (simp_all add: sample_visit_args sample_host_room(5))
qed

text \<open>
  C17. A viewer leaves: when the viewer's control flow returns without an error, the user is in no room
  that it was not in before, whatever happened on the way and whatever other users did meanwhile;
  a user that was in no room publishes nothing, is subscribed to nothing and has no voice state.
\<close>

theorem viewer_leaves:
  assumes "wf_state st" and "ids_fresh st" and "sess_user_id s = Some uid" and "harmless others uid"
    and "viewer_flow (relay_env others base) a estimate
      \<lparr>cl_next_request_id = n, cl_world = \<lparr>rw_state = st, rw_session = s, rw_outside = outside\<rparr>\<rparr> =
        Some (Inr (), c')"
  shows "let st' = rw_state (cl_world c') in
    wf_state st' \<and> (\<forall>rid. member st' rid uid \<longrightarrow> member st rid uid) \<and>
    ((\<forall>rid. \<not> member st rid uid) \<longrightarrow>
       (\<forall>rid sid x. published_in (cs_rooms st') rid sid x \<longrightarrow> st_publisher_id x \<noteq> uid) \<and>
       (\<forall>rid sid. \<not> subscribed st' rid sid uid) \<and> (\<forall>rid. get_voice_state st' rid uid = None))"
proof -
  have "visiting others uid {rid. member st rid uid} (cl_world c')"
    by (rule visit_ends_outside [OF _ assms(5)]) (use assms in \<open>simp add: visiting_def\<close>)
  then have *: "wf_state (rw_state (cl_world c'))"
    "\<forall>rid. member (rw_state (cl_world c')) rid uid \<longrightarrow> member st rid uid"
    by (auto simp: visiting_def)
  have "(\<forall>rid. \<not> member st rid uid) \<longrightarrow> (\<forall>rid. \<not> member (rw_state (cl_world c')) rid uid)"
    using *(2) by blast
  with * absent_if_no_member [OF *(1), of uid] show ?thesis by (simp add: Let_def)
qed

theorem viewer_leaves_witness:
  "\<exists>c'. sample_visit = Some (Inr (), c') \<and> wf_state (rw_state (cl_world c')) \<and>
     (\<forall>rid sid. \<not> subscribed (rw_state (cl_world c')) rid sid 8)"
proof -
  obtain c' where c': "sample_visit = Some (Inr (), c')" using sample_visit_ends by blast
  from viewer_leaves [OF sample_host_wf sample_visit_hyps(3) sample_session_sel(1) sample_visit_hyps(5)
      c' [unfolded sample_visit_def]]
  show ?thesis by (simp add: c' sample_visit_hyps(4) Let_def)
qed

text \<open>
  C18. A viewer disturbs nobody: however its flow ends, also with an error in the middle, what other
  users have on the relay (memberships, streams with their targets and configurations,
  subscriptions, voice states, names) is as before.
\<close>

theorem viewer_isolated:
  assumes "wf_state st" and "ids_fresh st" and "sess_user_id s = Some uid"
    and "viewer_flow (relay_env (\<lambda>_ st. st) base) a estimate
      \<lparr>cl_next_request_id = n, cl_world = \<lparr>rw_state = st, rw_session = s, rw_outside = outside\<rparr>\<rparr> =
        Some (r, c')"
  shows "wf_state (rw_state (cl_world c')) \<and> same_for_others uid st (rw_state (cl_world c'))"
proof -
  have "visiting_alone uid st (cl_world c')"
    by (rule loop_keepsD [OF alone.viewer_flow_keeps assms(4)])
      (use assms in \<open>simp_all add: visit_message_def visiting_alone_def visiting_def harmless_def\<close>)
  then show ?thesis by (simp add: visiting_alone_def visiting_def)
qed

theorem viewer_isolated_witness:
  "\<exists>c'. sample_visit = Some (Inr (), c') \<and> same_for_others 8 sample_host (rw_state (cl_world c'))"
proof -
  obtain c' where "sample_visit = Some (Inr (), c')" using sample_visit_ends by blast
  then show ?thesis
    unfolding sample_visit_def
    by (blast dest: viewer_isolated [OF sample_host_wf sample_visit_hyps(3) sample_session_sel(1)])
qed

text \<open>
  C38. A publisher that is in the room, with a free stream id and room for the stream, gets its stream
  configured exactly if the relay takes the configuration as it is: outside the relay's limits (fewer
  than 5 or more than 120 frames per second, a picture of less than 320 by 180 or more than 7680 by
  4320 pixels) the relay answers with the configuration it has made of it, and the client fails.
\<close>

theorem publish_needs_config_in_limits:
  assumes "may_control s st" and "sess_user_id s = Some uid"
    and "publisher_for_stream st (a_stream_id a) = None" and "bt_get (cs_rooms st) rid = Some r"
    and "uid \<in> participants r" and "bt_len (published_streams r) < max_streams_per_room (cs_limits st)"
    and "args_stream_config (os_source_size (ce_os base)) a rid = Inr config"
  shows "\<exists>c'. publish_configured_stream (relay_env (\<lambda>_ st. st) base) a rid
      \<lparr>cl_next_request_id = n, cl_world = \<lparr>rw_state = st, rw_session = s, rw_outside = outside\<rparr>\<rparr> =
    (if config_in_limits config then Inr ()
     else Inl (Unexpected (lit ''unexpected stream config response'') (StreamConfigR (clamped_config config))),
     c')"
  using publish_configured [OF assms] by (simp add: at_relay_def publish_outcome_def)

theorem publish_needs_config_in_limits_witness:
  "let st = snd (handle_create_room (sample_session 7) \<lparr>create_name = [65]\<rparr> control_state_new) in
   \<exists>e c'. publish_configured_stream (relay_env (\<lambda>_ st. st) quiet_env) (default_args\<lparr>a_media_fps := 144\<rparr>) 1
     \<lparr>cl_next_request_id = 3, cl_world = \<lparr>rw_state = st, rw_session = sample_session 7, rw_outside = 0\<rparr>\<rparr> =
       (Inl e, c')"
proof -
  let ?st = "snd (handle_create_room (sample_session 7) \<lparr>create_name = [65]\<rparr> control_state_new)"
  let ?a = "default_args\<lparr>a_media_fps := 144\<rparr>"
  note sample = handle_create_room_def control_state_new_def limits_default_def DEFAULT_MAX_ROOMS_def
    DEFAULT_MAX_STREAMS_PER_ROOM_def bt_len_def room_join_def room_new_def ensure_voice_state_def Let_def
  obtain r where r: "bt_get (cs_rooms ?st) 1 = Some r" "7 \<in> participants r"
      "bt_len (published_streams r) < max_streams_per_room (cs_limits ?st)"
    by (simp add: sample)
  have free: "publisher_for_stream ?st (a_stream_id ?a) = None"
    by (simp add: sample publisher_for_stream_def published_stream_def bt_values_def bt_insert.rep_eq
        bt_new.rep_eq)
  obtain config where config: "args_stream_config (os_source_size (ce_os quiet_env)) ?a 1 = Inr config"
      "sc_frames_per_second config = 144"
    by (simp add: args_stream_config_def default_args_def screen_capture_dimensions_def)
  have "may_control (sample_session 7) ?st"
    by (simp add: may_control_def requires_access_token_def sample)
  from publish_needs_config_in_limits [OF this sample_session_sel(1) free r config(1), where n = 3 and outside = 0]
    config(2)
  show ?thesis unfolding Let_def by (auto simp: config_in_limits_def)
qed

end
