(* ===== verification/Ui_Http.thy ===== *)
theory Ui_Http
  imports Client_Args Remote_Input
begin

text \<open>
  The HTTP side of the local user interface server (\<open>main.rs\<close>): reading a request from a connection,
  its method, path and body, the routes, and the bytes of a response. A connection is the list of
  what its reads give, an error or a chunk of bytes; after them the peer has closed it, as it has
  after an empty chunk.
\<close>

section \<open>UTF-8\<close>

text \<open>The second byte that may follow a first byte of a sequence of three or four.\<close>

definition second_of_three :: "nat \<Rightarrow> nat \<Rightarrow> bool" where
  "second_of_three n m \<longleftrightarrow>
     128 \<le> m \<and> m \<le> 191 \<and> (n = 224 \<longrightarrow> 160 \<le> m) \<and> (n = 237 \<longrightarrow> m \<le> 159)"

definition second_of_four :: "nat \<Rightarrow> nat \<Rightarrow> bool" where
  "second_of_four n m \<longleftrightarrow>
     128 \<le> m \<and> m \<le> 191 \<and> (n = 240 \<longrightarrow> 144 \<le> m) \<and> (n = 244 \<longrightarrow> m \<le> 143)"

definition continuation :: "nat \<Rightarrow> bool" where
  "continuation m \<longleftrightarrow> 128 \<le> m \<and> m \<le> 191"

text \<open>
  One step of the decoder: a character, or \<open>None\<close> for the longest invalid piece that begins like one,
  and what follows.
\<close>

definition utf8_step :: "u8 \<Rightarrow> bytes \<Rightarrow> rchar option \<times> bytes" where
  "utf8_step b bs =
     (let n = unat b in
      if n < 128 then (Some n, bs)
      else if 194 \<le> n \<and> n \<le> 223 then
        (case bs of
           c # bs1 \<Rightarrow>
             if continuation (unat c) then (Some ((n - 192) * 64 + (unat c - 128)), bs1) else (None, bs)
         | [] \<Rightarrow> (None, bs))
      else if 224 \<le> n \<and> n \<le> 239 then
        (case bs of
           c # bs1 \<Rightarrow>
             if second_of_three n (unat c) then
               (case bs1 of
                  d # bs2 \<Rightarrow>
                    if continuation (unat d)
                    then (Some ((n - 224) * 4096 + (unat c - 128) * 64 + (unat d - 128)), bs2)
                    else (None, bs1)
                | [] \<Rightarrow> (None, bs1))
             else (None, bs)
         | [] \<Rightarrow> (None, bs))
      else if 240 \<le> n \<and> n \<le> 244 then
        (case bs of
           c # bs1 \<Rightarrow>
             if second_of_four n (unat c) then
               (case bs1 of
                  d # bs2 \<Rightarrow>
                    if continuation (unat d) then
                      (case bs2 of
                         e # bs3 \<Rightarrow>
                           if continuation (unat e)
                           then (Some ((n - 240) * 262144 + (unat c - 128) * 4096 +
                                  (unat d - 128) * 64 + (unat e - 128)), bs3)
                           else (None, bs2)
                       | [] \<Rightarrow> (None, bs2))
                    else (None, bs1)
                | [] \<Rightarrow> (None, bs1))
             else (None, bs)
         | [] \<Rightarrow> (None, bs))
      else (None, bs))"

lemma utf8_step_shorter: "length (snd (utf8_step b bs)) \<le> length bs"
  by (auto simp: utf8_step_def Let_def split: list.split)

function utf8_pieces :: "bytes \<Rightarrow> rchar option list" where
  "utf8_pieces [] = []"
| "utf8_pieces (b # bs) = fst (utf8_step b bs) # utf8_pieces (snd (utf8_step b bs))"
  by pat_completeness auto
termination
  by (relation "measure length") (auto simp: less_Suc_eq_le utf8_step_shorter)

definition from_utf8 :: "bytes \<Rightarrow> rstring option" where
  "from_utf8 bs =
     (if list_all (\<lambda>c. c \<noteq> None) (utf8_pieces bs) then Some (map the (utf8_pieces bs)) else None)"

text \<open>An invalid piece becomes the replacement character.\<close>

definition from_utf8_lossy :: "bytes \<Rightarrow> rstring" where
  "from_utf8_lossy bs = map (case_option 65533 id) (utf8_pieces bs)"

definition utf8_bytes :: "rchar \<Rightarrow> bytes" where
  "utf8_bytes c =
     map of_nat
       (if c < 128 then [c]
        else if c < 2048 then [192 + c div 64, 128 + c mod 64]
        else if c < 65536 then [224 + c div 4096, 128 + c div 64 mod 64, 128 + c mod 64]
        else [240 + c div 262144, 128 + c div 4096 mod 64, 128 + c div 64 mod 64, 128 + c mod 64])"

definition utf8_encode :: "rstring \<Rightarrow> bytes" where
  "utf8_encode s = concat (map utf8_bytes s)"

section \<open>Strings\<close>

text \<open>The position of the first occurrence of a pattern.\<close>

fun position_of :: "'a list \<Rightarrow> 'a list \<Rightarrow> nat option" where
  "position_of p [] = (if p = [] then Some 0 else None)"
| "position_of p (x # xs) =
     (if take (length p) (x # xs) = p then Some 0 else map_option Suc (position_of p xs))"

definition split_once :: "rstring \<Rightarrow> rstring \<Rightarrow> (rstring \<times> rstring) option" where
  "split_once p s =
     map_option (\<lambda>n. (take n s, drop (n + length p) s)) (position_of p s)"

text \<open>
  \<open>str::lines\<close>: at each line feed, with a carriage return before it taken off; \<open>line\<close> is what has been
  read of the current line.
\<close>

definition strip_return :: "rstring \<Rightarrow> rstring" where
  "strip_return line = (if line \<noteq> [] \<and> last line = 13 then butlast line else line)"

fun lines_from :: "rstring \<Rightarrow> rstring \<Rightarrow> rstring list" where
  "lines_from line [] = (if line = [] then [] else [line])"
| "lines_from line (c # s) =
     (if c = 10 then strip_return line # lines_from [] s else lines_from (line @ [c]) s)"

definition str_lines :: "rstring \<Rightarrow> rstring list" where
  "str_lines s = lines_from [] s"

fun words_from :: "rstring \<Rightarrow> rstring \<Rightarrow> rstring list" where
  "words_from word [] = (if word = [] then [] else [word])"
| "words_from word (c # s) =
     (if is_whitespace c then (if word = [] then [] else [word]) @ words_from [] s
      else words_from (word @ [c]) s)"

definition split_whitespace :: "rstring \<Rightarrow> rstring list" where
  "split_whitespace s = words_from [] s"

definition ascii_lower :: "rchar \<Rightarrow> rchar" where
  "ascii_lower c = (if 65 \<le> c \<and> c \<le> 90 then c + 32 else c)"

definition eq_ignore_ascii_case :: "rstring \<Rightarrow> rstring \<Rightarrow> bool" where
  "eq_ignore_ascii_case s t \<longleftrightarrow> map ascii_lower s = map ascii_lower t"

text \<open>\<open>str::parse::<usize>\<close>: an optional plus sign and digits whose value fits 64 bits.\<close>

definition parse_usize :: "rstring \<Rightarrow> nat option" where
  "parse_usize s =
     (let digits = (case s of c # cs \<Rightarrow> if c = 43 then cs else s | [] \<Rightarrow> []);
          value = foldl (\<lambda>n c. 10 * n + (c - 48)) 0 digits
      in if digits = [] \<or> \<not> list_all (\<lambda>c. 48 \<le> c \<and> c \<le> 57) digits \<or> 2 ^ 64 \<le> value then None
         else Some value)"

section \<open>Requests\<close>

definition header_end_mark :: "nat list" where
  "header_end_mark = [13, 10, 13, 10]"

definition ui_request_method :: "rstring \<Rightarrow> rstring option" where
  "ui_request_method request =
     (case str_lines request of
        [] \<Rightarrow> None
      | line # _ \<Rightarrow> (case split_whitespace line of [] \<Rightarrow> None | part # _ \<Rightarrow> Some part))"

definition ui_request_path :: "rstring \<Rightarrow> rstring option" where
  "ui_request_path request =
     (case str_lines request of
        [] \<Rightarrow> None
      | line # _ \<Rightarrow>
          (case split_whitespace line of
             _ # part # _ \<Rightarrow> Some (takeWhile (\<lambda>c. c \<noteq> 63) part)
           | _ \<Rightarrow> None))"

definition ui_request_body :: "rstring \<Rightarrow> rstring" where
  "ui_request_body request = (case split_once header_end_mark request of None \<Rightarrow> [] | Some (_, body) \<Rightarrow> body)"

text \<open>The value of the first header of that name.\<close>

definition content_length_line :: "rstring \<Rightarrow> nat option option" where
  "content_length_line line =
     (case split_once (lit '':'') line of
        None \<Rightarrow> None
      | Some (name, value) \<Rightarrow>
          if eq_ignore_ascii_case name (lit ''content-length'') then Some (parse_usize (trim value)) else None)"

definition ui_content_length :: "rstring \<Rightarrow> rstring + nat" where
  "ui_content_length headers =
     (case find_map content_length_line (str_lines headers) of
        None \<Rightarrow> Inr 0
      | Some None \<Rightarrow> Inl (lit ''invalid UI HTTP content-length'')
      | Some (Some n) \<Rightarrow> Inr n)"

section \<open>Reading\<close>

text \<open>
  The result of a read is an error of the operating system or the bytes. \<open>header_end + 4 +
  content_length\<close> is computed in 64 bits; the model is that of builds with overflow checks.
\<close>

type_synonym reads = "(unit + bytes) list"

definition request_text :: "bytes \<Rightarrow> rstring fault + rstring" where
  "request_text request =
     (case from_utf8 request of
        None \<Rightarrow> Inl (Err (lit ''UI HTTP request was not valid UTF-8''))
      | Some text \<Rightarrow> Inr text)"

definition expected_length :: "nat \<Rightarrow> bytes \<Rightarrow> rstring fault + nat" where
  "expected_length header_end request =
     (case ui_content_length (from_utf8_lossy (take header_end request)) of
        Inl e \<Rightarrow> Inl (Err e)
      | Inr content_length \<Rightarrow>
          if 2 ^ 64 \<le> header_end + 4 + content_length then Inl Panic
          else Inr (header_end + 4 + content_length))"

fun read_body :: "nat \<Rightarrow> bytes \<Rightarrow> reads \<Rightarrow> rstring fault + rstring" where
  "read_body expected request [] = request_text request"
| "read_body expected request (read # reads) =
     (if expected \<le> length request then request_text request
      else
        case read of
          Inl _ \<Rightarrow> Inl (Err (lit ''failed to read UI HTTP request body''))
        | Inr chunk \<Rightarrow>
            if chunk = [] then request_text request else read_body expected (request @ chunk) reads)"

fun read_request :: "bytes \<Rightarrow> reads \<Rightarrow> rstring fault + rstring" where
  "read_request request [] = request_text request"
| "read_request request (read # reads) =
     (case read of
        Inl _ \<Rightarrow> Inl (Err (lit ''failed to read UI HTTP request''))
      | Inr chunk \<Rightarrow>
          if chunk = [] then request_text request
          else
            let request = request @ chunk in
            case position_of (map of_nat header_end_mark) request of
              None \<Rightarrow> read_request request reads
            | Some header_end \<Rightarrow>
                and_then (expected_length header_end request) (\<lambda>expected.
                read_body expected request reads))"

definition read_ui_http_request :: "reads \<Rightarrow> rstring fault + rstring" where
  "read_ui_http_request reads = read_request [] reads"

section \<open>Routes and responses\<close>

datatype ui_route =
    IndexRoute | ScriptRoute | StyleRoute | StateRoute | SelectChannelRoute | VoiceStateRoute
  | ScreenShareRoute | NotFoundRoute

definition ui_route_for_path :: "rstring \<Rightarrow> ui_route" where
  "ui_route_for_path path =
     (if path = lit ''/'' \<or> path = lit ''/index.html'' then IndexRoute
      else if path = lit ''/app.js'' then ScriptRoute
      else if path = lit ''/styles.css'' then StyleRoute
      else if path = lit ''/state.json'' then StateRoute
      else if path = lit ''/api/select-channel'' then SelectChannelRoute
      else if path = lit ''/api/voice-state'' then VoiceStateRoute
      else if path = lit ''/api/screen-share'' then ScreenShareRoute
      else NotFoundRoute)"

record http_response =
  hr_status :: rstring
  hr_content_type :: rstring
  hr_body :: bytes
  hr_no_store :: bool

definition write_http_response :: "http_response \<Rightarrow> bytes" where
  "write_http_response r =
     utf8_encode
       (lit ''HTTP/1.1 '' @ hr_status r @ [13, 10] @
        lit ''Content-Type: '' @ hr_content_type r @ [13, 10] @
        lit ''Content-Length: '' @ dec (length (hr_body r)) @ [13, 10] @
        lit ''Cache-Control: '' @ (if hr_no_store r then lit ''no-store'' else lit ''public, max-age=1'') @
        [13, 10] @ lit ''Connection: close'' @ [13, 10, 13, 10]) @
     hr_body r"

section \<open>UTF-8 and back\<close>

lemma unat_u8: "n < 256 \<Longrightarrow> unat (of_nat n :: u8) = n"
  by (rule of_nat_unat_le) simp

lemma digits_64:
  fixes c :: nat
  shows "c div 4096 * 4096 + c div 64 mod 64 * 64 + c mod 64 = c"
    and "c div 262144 * 262144 + c div 4096 mod 64 * 4096 + c div 64 mod 64 * 64 + c mod 64 = c"
proof -
  have 1: "c = c div 64 * 64 + c mod 64" by simp
  have 2: "c div 64 = c div 4096 * 64 + c div 64 mod 64"
    using div_mult_mod_eq [of "c div 64" 64] by (simp add: div_mult2_eq [symmetric])
  have 3: "c div 4096 = c div 262144 * 64 + c div 4096 mod 64"
    using div_mult_mod_eq [of "c div 4096" 64] by (simp add: div_mult2_eq [symmetric])
  show "c div 4096 * 4096 + c div 64 mod 64 * 64 + c mod 64 = c" using 1 2 by linarith
  show "c div 262144 * 262144 + c div 4096 mod 64 * 4096 + c div 64 mod 64 * 64 + c mod 64 = c"
    using 1 2 3 by linarith
qed

lemma utf8_step_bytes:
  assumes "scalar_value c"
  shows "utf8_step (hd (utf8_bytes c)) (tl (utf8_bytes c) @ bs) = (Some c, bs)"
proof -
  have c: "c < 1114112" "\<not> (55296 \<le> c \<and> c \<le> 57343)" using assms by (auto simp: scalar_value_def)
  have low: "c mod 64 \<le> 63" "c div 64 mod 64 \<le> 63" "c div 4096 mod 64 \<le> 63"
    by (simp_all add: less_Suc_eq_le [symmetric])
  consider "c < 128" | "128 \<le> c" "c < 2048" | "2048 \<le> c" "c < 65536" | "65536 \<le> c" by linarith
  then show ?thesis
  proof cases
    case 1
    then show ?thesis by (simp add: utf8_bytes_def utf8_step_def unat_u8)
  next
    case 2
    then have "2 \<le> c div 64" "c div 64 < 32" by auto
    then show ?thesis using 2 low
      by (simp add: utf8_bytes_def utf8_step_def unat_u8 Let_def continuation_def del: of_nat_add)
  next
    case 3
    then have q: "c div 4096 < 16" by auto
    have "c div 4096 = 0 \<Longrightarrow> 32 \<le> c div 64 mod 64"
      using 3 digits_64(1) [of c] low by linarith
    moreover have "c div 4096 = 13 \<Longrightarrow> c div 64 mod 64 \<le> 31"
      using c(2) digits_64(1) [of c] low by linarith
    ultimately show ?thesis using 3 low q digits_64(1) [of c]
      by (simp add: utf8_bytes_def utf8_step_def unat_u8 Let_def continuation_def second_of_three_def del: of_nat_add)
  next
    case 4
    then have q: "c div 262144 < 5" using c(1) by auto
    have "c div 262144 = 0 \<Longrightarrow> 16 \<le> c div 4096 mod 64"
      using 4 digits_64(2) [of c] low by linarith
    moreover have "c div 262144 = 4 \<Longrightarrow> c div 4096 mod 64 \<le> 15"
      using c(1) digits_64(2) [of c] low by linarith
    ultimately show ?thesis using 4 low q digits_64(2) [of c]
      by (simp add: utf8_bytes_def utf8_step_def unat_u8 Let_def continuation_def second_of_four_def del: of_nat_add)
  qed
qed

lemma utf8_bytes_not_Nil: "utf8_bytes c \<noteq> []"
  by (simp add: utf8_bytes_def)

lemma utf8_pieces_encode: "list_all scalar_value s \<Longrightarrow> utf8_pieces (utf8_encode s) = map Some s"
proof (induction s)
  case (Cons c s)
  have "utf8_encode (c # s) = hd (utf8_bytes c) # (tl (utf8_bytes c) @ utf8_encode s)"
    using utf8_bytes_not_Nil [of c] by (simp add: utf8_encode_def)
  with Cons show ?case by (simp add: utf8_step_bytes)
qed (simp add: utf8_encode_def)

lemma from_utf8_encode: "list_all scalar_value s \<Longrightarrow> from_utf8 (utf8_encode s) = Some s"
  by (simp add: from_utf8_def utf8_pieces_encode list_all_iff comp_def)

section \<open>Reading does not depend on the chunks\<close>

lemma position_of_bound: "position_of p xs = Some n \<Longrightarrow> n + length p \<le> length xs"
proof (induction p xs arbitrary: n rule: position_of.induct)
  case (2 p x xs)
  show ?case
  proof (cases "take (length p) (x # xs) = p")
    case True
    then have "length p \<le> length (x # xs)" by (metis length_take min.cobounded1)
    with True 2 show ?thesis by simp
  next
    case False
    with 2 show ?thesis by auto
  qed
qed (auto split: if_splits)

lemma take_within: "length p \<le> length xs \<Longrightarrow> take (length p) (xs @ ys) = take (length p) xs"
  by simp

lemma position_of_append: "position_of p xs = Some n \<Longrightarrow> position_of p (xs @ ys) = Some n"
proof (induction p xs arbitrary: n rule: position_of.induct)
  case (1 p)
  then show ?case by (cases ys) (auto split: if_splits)
next
  case (2 p x xs)
  have "length p \<le> length (x # xs)" using position_of_bound [OF "2.prems"] by simp
  then have eq: "take (length p) (x # (xs @ ys)) = take (length p) (x # xs)"
    using take_within [of p "x # xs" ys] by simp
  show ?case using 2 by (auto simp: eq split: if_splits)
qed

text \<open>The request in one piece, and that nothing follows it.\<close>

definition request_in_one_piece :: "bytes \<Rightarrow> rstring fault + rstring" where
  "request_in_one_piece request =
     (case position_of (map of_nat header_end_mark) request of
        None \<Rightarrow> request_text request
      | Some header_end \<Rightarrow> and_then (expected_length header_end request) (\<lambda>_. request_text request))"

definition nothing_follows :: "bytes \<Rightarrow> bool" where
  "nothing_follows request \<longleftrightarrow>
     (case position_of (map of_nat header_end_mark) request of
        None \<Rightarrow> True
      | Some header_end \<Rightarrow>
          (case expected_length header_end request of Inl _ \<Rightarrow> True | Inr n \<Rightarrow> length request \<le> n))"

lemma read_body_whole:
  "[] \<notin> set chunks \<Longrightarrow> length (request @ concat chunks) \<le> expected \<Longrightarrow>
   read_body expected request (map Inr chunks) = request_text (request @ concat chunks)"
proof (induction chunks arbitrary: request)
  case (Cons c cs)
  then have "c \<noteq> []" by auto
  then have "0 < length c" by simp
  with Cons \<open>c \<noteq> []\<close> show ?case by (simp del: length_greater_0_conv)
qed simp

lemma expected_length_append:
  "position_of (map of_nat header_end_mark) request = Some n \<Longrightarrow>
   expected_length n (request @ rest) = expected_length n request"
  using position_of_bound [of "map of_nat header_end_mark" request n]
  by (simp add: expected_length_def)

lemma read_request_whole:
  "[] \<notin> set chunks \<Longrightarrow> nothing_follows (request @ concat chunks) \<Longrightarrow>
   position_of (map of_nat header_end_mark) request = None \<Longrightarrow>
   read_request request (map Inr chunks) = request_in_one_piece (request @ concat chunks)"
proof (induction chunks arbitrary: request)
  case Nil
  then show ?case by (simp add: request_in_one_piece_def)
next
  case (Cons c cs)
  let ?request = "request @ c"
  show ?case
  proof (cases "position_of (map of_nat header_end_mark) ?request")
    case None
    with Cons show ?thesis by (auto simp: Let_def)
  next
    case (Some n)
    then have whole: "position_of (map of_nat header_end_mark) (?request @ concat cs) = Some n"
      by (rule position_of_append)
    from Cons.prems(2) whole have "expected_length n ?request = Inr e \<Longrightarrow> length (?request @ concat cs) \<le> e" for e
      by (simp add: nothing_follows_def expected_length_append [OF Some, of "concat cs", simplified])
    with Some whole Cons.prems(1) show ?thesis
      by (cases "expected_length n ?request")
        (auto simp: Let_def request_in_one_piece_def read_body_whole
          expected_length_append [OF Some, of "concat cs", simplified])
  qed
qed

text \<open>
  C21. What the user interface server reads does not depend on how the network cuts the request into
  pieces: as long as nothing follows the request on the connection, the result is that of the whole
  request in one piece.
\<close>

theorem request_reading_chunk_independent:
  assumes "[] \<notin> set chunks" and "nothing_follows (concat chunks)"
  shows "read_ui_http_request (map Inr chunks) = request_in_one_piece (concat chunks)"
  using read_request_whole [of chunks "[]"] assms
  by (simp add: read_ui_http_request_def header_end_mark_def)

theorem request_reading_chunk_independent_witness:
  "let chunks =
     [[120, 13, 10, 67, 111, 110, 116, 101, 110, 116, 45, 76, 101, 110, 103, 116, 104, 58],
      [49, 13, 10, 13, 10, 97]]
   in read_ui_http_request (map Inr chunks) = request_in_one_piece (concat chunks)"
proof -
  let ?chunks =
    "[[120, 13, 10, 67, 111, 110, 116, 101, 110, 116, 45, 76, 101, 110, 103, 116, 104, 58],
      [49, 13, 10, 13, 10, 97]] :: bytes list"
  have "nothing_follows (concat ?chunks)"
    by (simp add: nothing_follows_def header_end_mark_def expected_length_def from_utf8_lossy_def
        utf8_step_def Let_def ui_content_length_def str_lines_def strip_return_def content_length_line_def
        split_once_def lit_def eq_ignore_ascii_case_def ascii_lower_def trim_def trim_start_def
        trim_end_def is_whitespace_def parse_usize_def)
  with request_reading_chunk_independent [of ?chunks] show ?thesis unfolding Let_def by fastforce
qed

end
