(* ===== verification/Ui_Server.thy ===== *)
theory Ui_Server
  imports Ui_Http Client_Flows
begin

text \<open>
  The local user interface server (\<open>main.rs\<close>): its state, the operations behind its routes, and the
  handling of connections one after the other. The record \<open>ui_env\<close> holds what the repository does
  not define: the JSON texts (serde), the pages, and how a media task that was told to stop ended,
  with what it did to the world until then. The state's locks are held for single accesses and not
  across a call, so they are never poisoned and the state is passed along.
\<close>

section \<open>The state\<close>

text \<open>A running media task is its arguments; the flag that stops it is set when it is awaited.\<close>

record ui_media_task =
  ut_args :: args
  ut_room_id :: room_id
  ut_clock_sync :: clock_sync_estimate

record ui_server_state =
  us_selected_channel_id :: "room_id option"
  us_local_voice :: voice_control_state
  us_local_screen_share :: screen_share_control_state
  us_screen_media_task :: "ui_media_task option"
  us_voice_media_task :: "ui_media_task option"

record voice_state_patch =
  vp_muted :: "bool option"
  vp_deafened :: "bool option"
  vp_push_to_talk :: "bool option"
  vp_ptt_active :: "bool option"

definition ui_server_state_new :: "client_os \<Rightarrow> args \<Rightarrow> ui_server_state" where
  "ui_server_state_new os a =
     \<lparr>us_selected_channel_id = (case a_channel_id a of Some channel_id \<Rightarrow> Some channel_id | None \<Rightarrow> a_room_id a),
      us_local_voice = ui_voice_control_state a,
      us_local_screen_share = (ui_screen_share_control_state (os_source_size os) a)\<lparr>ss_sharing := False\<rparr>,
      us_screen_media_task = None, us_voice_media_task = None\<rparr>"

definition patch_voice :: "voice_state_patch \<Rightarrow> voice_control_state \<Rightarrow> voice_control_state" where
  "patch_voice patch voice =
     (let voice = (case vp_muted patch of None \<Rightarrow> voice | Some muted \<Rightarrow> voice\<lparr>vc_muted := muted\<rparr>);
          voice = (case vp_deafened patch of None \<Rightarrow> voice | Some deafened \<Rightarrow> voice\<lparr>vc_deafened := deafened\<rparr>);
          voice = (case vp_push_to_talk patch of
              None \<Rightarrow> voice | Some push_to_talk \<Rightarrow> voice\<lparr>vc_push_to_talk := push_to_talk\<rparr>);
          voice = (case vp_ptt_active patch of
              None \<Rightarrow> voice | Some ptt_active \<Rightarrow> voice\<lparr>vc_ptt_active := ptt_active\<rparr>);
          voice = (if vc_deafened voice then voice\<lparr>vc_muted := True, vc_ptt_active := False\<rparr> else voice);
          voice = (if vc_muted voice then voice\<lparr>vc_ptt_active := False\<rparr> else voice)
      in if \<not> vc_push_to_talk voice then voice\<lparr>vc_ptt_active := False\<rparr> else voice)"

definition set_screen_sharing :: "bool \<Rightarrow> ui_server_state \<Rightarrow> ui_server_state" where
  "set_screen_sharing sharing st =
     st\<lparr>us_local_screen_share := (us_local_screen_share st)\<lparr>ss_sharing := sharing\<rparr>\<rparr>"

definition screen_media_active :: "ui_server_state \<Rightarrow> bool" where
  "screen_media_active st \<longleftrightarrow> us_screen_media_task st \<noteq> None"

definition voice_media_active :: "ui_server_state \<Rightarrow> bool" where
  "voice_media_active st \<longleftrightarrow> us_voice_media_task st \<noteq> None"

definition keep_room_joined :: "ui_server_state \<Rightarrow> bool" where
  "keep_room_joined st \<longleftrightarrow>
     ss_sharing (us_local_screen_share st) \<or> us_selected_channel_id st \<noteq> None \<or>
     screen_media_active st \<or> voice_media_active st"

section \<open>The environment\<close>

text \<open>The end of an awaited task; an error of the join itself carries its text.\<close>

datatype task_end = TaskDone | TaskFailed client_error | TaskCancelled | TaskPanicked rstring

record ui_assets =
  as_index :: rstring
  as_script :: rstring
  as_styles :: rstring

record 'w ui_env =
  ue_client :: "'w client_env"
  ue_join :: "ui_media_task \<Rightarrow> 'w \<Rightarrow> task_end \<times> 'w"
  ue_bind :: "rstring \<Rightarrow> rstring + unit"
  ue_assets :: ui_assets
  ue_error_text :: "client_error \<Rightarrow> rstring"
  ue_error_json :: "rstring \<Rightarrow> rstring"
  ue_state_json :: "client_app \<Rightarrow> rstring"
  ue_parse_channel :: "rstring \<Rightarrow> rstring + room_id"
  ue_parse_voice :: "rstring \<Rightarrow> rstring + voice_state_patch"
  ue_parse_sharing :: "rstring \<Rightarrow> rstring + bool"

record 'w ui_server =
  ui_client :: "'w client"
  ui_state :: ui_server_state

type_synonym ('a, 'w) ui_io = "('a, 'w ui_server) io"

definition on_client :: "('a, 'w client) io \<Rightarrow> ('a, 'w) ui_io" where
  "on_client m s = (let (r, c) = m (ui_client s) in (r, s\<lparr>ui_client := c\<rparr>))"

definition read_ui :: "(ui_server_state \<Rightarrow> 'a) \<Rightarrow> ('a, 'w) ui_io" where
  "read_ui f s = (Inr (f (ui_state s)), s)"

definition change_ui :: "(ui_server_state \<Rightarrow> ui_server_state) \<Rightarrow> (unit, 'w) ui_io" where
  "change_ui f s = (Inr (), s\<lparr>ui_state := f (ui_state s)\<rparr>)"

text \<open>\<open>let _ = \<dots>\<close>, and an error that is handled before it is returned.\<close>

definition io_ignore :: "('a, 's) io \<Rightarrow> (unit, 's) io" where
  "io_ignore m s =
     (case m s of (Inl Panicked, s) \<Rightarrow> (Inl Panicked, s) | (_, s) \<Rightarrow> (Inr (), s))"

definition on_error :: "('a, 's) io \<Rightarrow> (unit, 's) io \<Rightarrow> ('a, 's) io" where
  "on_error m handler s =
     (case m s of
        (Inl Panicked, s) \<Rightarrow> (Inl Panicked, s)
      | (Inl e, s) \<Rightarrow> io_then handler (io_fail e) s
      | (Inr a, s) \<Rightarrow> (Inr a, s))"

section \<open>Media tasks\<close>

definition task_result :: "rstring \<Rightarrow> task_end \<Rightarrow> (unit, 's) io" where
  "task_result what e =
     (case e of
        TaskDone \<Rightarrow> io_return ()
      | TaskFailed _ \<Rightarrow> io_fail (Bail what)
      | TaskCancelled \<Rightarrow> io_return ()
      | TaskPanicked text \<Rightarrow> io_fail (Bail (what @ lit '': '' @ text)))"

definition await_task :: "'w ui_env \<Rightarrow> ui_media_task \<Rightarrow> (task_end, 'w) ui_io" where
  "await_task env task = on_client (on_world (\<lambda>w. let (e, w) = ue_join env task w in (Inr e, w)))"

definition start_ui_screen_media_task ::
  "args \<Rightarrow> room_id \<Rightarrow> clock_sync_estimate \<Rightarrow> (unit, 'w) ui_io" where
  "start_ui_screen_media_task a room_id estimate =
     change_ui (\<lambda>st. st\<lparr>us_screen_media_task := Some
       \<lparr>ut_args = for_media_kind a ScreenArg (a_stream_id a), ut_room_id = room_id,
        ut_clock_sync = estimate\<rparr>\<rparr>)"

definition stop_ui_screen_media_task :: "'w ui_env \<Rightarrow> (unit, 'w) ui_io" where
  "stop_ui_screen_media_task env =
     io_bind (read_ui us_screen_media_task) (\<lambda>task.
     io_then (change_ui (\<lambda>st. st\<lparr>us_screen_media_task := None\<rparr>))
       (case task of
          None \<Rightarrow> io_return ()
        | Some task \<Rightarrow> io_bind (await_task env task) (task_result (lit ''UI screen media task failed''))))"

definition start_ui_voice_media_task ::
  "args \<Rightarrow> room_id \<Rightarrow> stream_id \<Rightarrow> clock_sync_estimate \<Rightarrow> (unit, 'w) ui_io" where
  "start_ui_voice_media_task a room_id voice_stream_id estimate =
     change_ui (\<lambda>st. st\<lparr>us_voice_media_task := Some
       \<lparr>ut_args = for_media_kind a VoiceArg voice_stream_id, ut_room_id = room_id,
        ut_clock_sync = estimate\<rparr>\<rparr>)"

definition stop_ui_voice_media_task :: "'w ui_env \<Rightarrow> (unit, 'w) ui_io" where
  "stop_ui_voice_media_task env =
     io_bind (read_ui us_voice_media_task) (\<lambda>task.
     io_then (change_ui (\<lambda>st. st\<lparr>us_voice_media_task := None\<rparr>))
       (case task of
          None \<Rightarrow> io_return ()
        | Some task \<Rightarrow> io_bind (await_task env task) (task_result (lit ''UI voice media task failed''))))"

section \<open>Channels\<close>

definition listed_room :: "room_id \<Rightarrow> room_summary list \<Rightarrow> bool" where
  "listed_room room_id rooms \<longleftrightarrow> list_ex (\<lambda>room. rs_room_id room = room_id) rooms"

definition channel_not_found :: "rstring \<Rightarrow> room_id \<Rightarrow> room_summary list \<Rightarrow> rstring" where
  "channel_not_found what room_id rooms =
     what @ dec (unat room_id) @ lit '' was not found; available channels: '' @ format_room_summaries rooms"

definition apply_ui_channel_selection :: "'w ui_env \<Rightarrow> room_id \<Rightarrow> (unit, 'w) ui_io" where
  "apply_ui_channel_selection env channel_id =
     io_bind (read_ui (\<lambda>st. screen_media_active st \<or> voice_media_active st)) (\<lambda>active.
     if active
     then io_fail (Bail (lit ''stop screen sharing and voice before switching channels''))
     else
       io_bind (on_client (request_rooms (ue_client env))) (\<lambda>rooms.
       if \<not> listed_room channel_id rooms
       then io_fail (Bail (channel_not_found (lit ''channel '') channel_id rooms))
       else
         io_bind (read_ui us_selected_channel_id) (\<lambda>selected.
         io_then
           (case selected of
              Some previous_channel_id \<Rightarrow>
                if previous_channel_id \<noteq> channel_id
                then io_ignore (on_client (leave_room_request (ue_client env) previous_channel_id))
                else io_return ()
            | None \<Rightarrow> io_return ())
         (io_then (on_client (join_room_request (ue_client env) channel_id))
         (io_bind (read_ui us_local_voice) (\<lambda>voice.
          io_then (on_client (set_voice_state_request (ue_client env) channel_id voice))
            (change_ui (\<lambda>st. st\<lparr>us_selected_channel_id := Some channel_id\<rparr>))))))))"

definition resolve_or_create_ui_channel_id :: "'w ui_env \<Rightarrow> args \<Rightarrow> (room_id, 'w) ui_io" where
  "resolve_or_create_ui_channel_id env a =
     io_bind (on_client (request_rooms (ue_client env))) (\<lambda>rooms.
     io_bind (read_ui us_selected_channel_id) (\<lambda>selected.
       case selected of
         Some room_id \<Rightarrow>
           if listed_room room_id rooms then io_return room_id
           else io_fail (Bail (channel_not_found (lit ''selected channel '') room_id rooms))
       | None \<Rightarrow>
           io_bind (io_of (selected_room_id a)) (\<lambda>selected.
             case selected of
               Some room_id \<Rightarrow>
                 if listed_room room_id rooms then io_return room_id
                 else io_fail (Bail (channel_not_found (lit ''channel '') room_id rooms))
             | None \<Rightarrow>
                 io_bind (io_of (selected_channel_name a)) (\<lambda>channel_name.
                   case select_viewer_room rooms channel_name of
                     Some room \<Rightarrow> io_return (rs_room_id room)
                   | None \<Rightarrow> on_client (create_room_request (ue_client env) channel_name)))))"

text \<open>As \<open>unpublish_stream\<close>, but a stream that is no longer there is fine.\<close>

definition gone_codes :: "rstring list" where
  "gone_codes = [lit ''stream_not_found'', lit ''room_not_found'', lit ''not_publisher'']"

definition unpublish_stream_for_ui ::
  "'w client_env \<Rightarrow> room_id \<Rightarrow> stream_id \<Rightarrow> (unit, 'w) client_io" where
  "unpublish_stream_for_ui env room_id stream_id =
     expect_reply env (UnpublishStream \<lparr>unpub_room_id = room_id, unpub_stream_id = stream_id\<rparr>)
       (lit ''unpublish stream'') (lit ''unpublish'')
       (\<lambda>r. case r of
          StreamUnpublished u \<Rightarrow>
            if su_room_id u = room_id \<and> su_stream_id u = stream_id then Some () else None
        | Error error \<Rightarrow> if err_code error \<in> set gone_codes then Some () else None
        | _ \<Rightarrow> None)"

section \<open>Sharing the screen\<close>

definition ensure_ui_screen_share_allowed :: "args \<Rightarrow> rstring + unit" where
  "ensure_ui_screen_share_allowed a =
     (if a_mode a \<noteq> BroadcasterMode then Inl (lit ''screen sharing is only available in broadcaster mode'')
      else if a_media_kind a = VoiceArg
      then Inl (lit ''screen sharing is not available when --media-kind voice'')
      else Inr ())"

definition start_ui_screen_share ::
  "'w ui_env \<Rightarrow> args \<Rightarrow> clock_sync_estimate \<Rightarrow> (unit, 'w) ui_io" where
  "start_ui_screen_share env a estimate =
     (let client = ue_client env in
      io_bind (read_ui (\<lambda>st. ss_sharing (us_local_screen_share st))) (\<lambda>sharing.
      if sharing then io_return ()
      else
        io_bind (resolve_or_create_ui_channel_id env a) (\<lambda>room_id.
        io_then (on_client (join_room_request client room_id))
        (io_bind (read_ui us_local_voice) (\<lambda>voice.
         io_then (on_client (set_voice_state_request client room_id voice))
         (let screen = screen_args a in
          io_then
            (on_error (on_client (publish_configured_stream client screen room_id))
              (io_ignore (on_client (leave_room_request client room_id))))
          (io_then
            (on_error (on_client (set_publisher_target_media client room_id screen))
              (io_then (io_ignore (on_client (unpublish_stream_for_ui client room_id (a_stream_id a))))
                (io_ignore (on_client (leave_room_request client room_id)))))
          (io_then (change_ui (\<lambda>st. st\<lparr>us_selected_channel_id := Some room_id\<rparr>))
          (io_then (change_ui (set_screen_sharing True))
            (start_ui_screen_media_task a room_id estimate))))))))))"

definition stop_ui_screen_share :: "'w ui_env \<Rightarrow> args \<Rightarrow> (unit, 'w) ui_io" where
  "stop_ui_screen_share env a =
     (let client = ue_client env in
      io_bind (read_ui us_local_screen_share) (\<lambda>screen.
      if \<not> ss_sharing screen then io_return ()
      else
        io_bind (on_client (request_rooms client)) (\<lambda>rooms.
        io_bind (read_ui us_selected_channel_id) (\<lambda>selected.
        io_bind (io_of (select_ui_state_channel_id (os_quote (ce_os client)) a rooms selected)) (\<lambda>channel.
          case channel of
            None \<Rightarrow>
              io_then (stop_ui_screen_media_task env) (change_ui (set_screen_sharing False))
          | Some room_id \<Rightarrow>
              io_then (stop_ui_screen_media_task env)
              (io_then (on_client (unpublish_stream_for_ui client room_id (ss_stream_id screen)))
              (io_then (change_ui (set_screen_sharing False))
              (io_bind (read_ui keep_room_joined) (\<lambda>keep.
               if keep then io_return () else on_client (leave_room_request client room_id)))))))))) "

definition apply_ui_screen_share_state ::
  "'w ui_env \<Rightarrow> args \<Rightarrow> clock_sync_estimate \<Rightarrow> bool \<Rightarrow> (unit, 'w) ui_io" where
  "apply_ui_screen_share_state env a estimate sharing =
     io_then (io_of (ensure_ui_screen_share_allowed a))
       (if sharing then start_ui_screen_share env a estimate else stop_ui_screen_share env a)"

section \<open>Voice\<close>

definition ui_voice_media_supported :: "args \<Rightarrow> bool" where
  "ui_voice_media_supported a \<longleftrightarrow> a_mode a = BroadcasterMode \<and> a_media_kind a \<noteq> ScreenArg"

definition ui_voice_stream_id :: "args \<Rightarrow> rstring + stream_id" where
  "ui_voice_stream_id a =
     (case a_media_kind a of
        VoiceArg \<Rightarrow> Inr (a_stream_id a)
      | BothArg \<Rightarrow> args_voice_stream_id a
      | ScreenArg \<Rightarrow> Inl (lit ''voice media is not available when --media-kind screen''))"

definition leave_unless_kept :: "'w ui_env \<Rightarrow> room_id \<Rightarrow> (unit, 'w) ui_io" where
  "leave_unless_kept env room_id =
     io_bind (read_ui keep_room_joined) (\<lambda>keep.
       if keep then io_return ()
       else io_ignore (on_client (leave_room_request (ue_client env) room_id)))"

definition start_ui_voice_media ::
  "'w ui_env \<Rightarrow> args \<Rightarrow> clock_sync_estimate \<Rightarrow> voice_control_state \<Rightarrow> (unit, 'w) ui_io" where
  "start_ui_voice_media env a estimate voice =
     (let client = ue_client env in
      io_bind (read_ui voice_media_active) (\<lambda>active.
      if active then io_return ()
      else
        io_bind (resolve_or_create_ui_channel_id env a) (\<lambda>room_id.
        io_then (on_client (join_room_request client room_id))
        (io_then (on_client (set_voice_state_request client room_id voice))
        (io_bind (io_of (ui_voice_stream_id a)) (\<lambda>voice_stream_id.
         let voice_args = voice_args a voice_stream_id in
         io_then
           (on_error (on_client (publish_configured_stream client voice_args room_id))
             (leave_unless_kept env room_id))
         (io_then
           (on_error (on_client (set_publisher_target_media client room_id voice_args))
             (io_then (io_ignore (on_client (unpublish_stream_for_ui client room_id voice_stream_id)))
               (leave_unless_kept env room_id)))
         (io_then (change_ui (\<lambda>st. st\<lparr>us_selected_channel_id := Some room_id\<rparr>))
           (start_ui_voice_media_task a room_id voice_stream_id estimate)))))))))"

definition stop_ui_voice_media :: "'w ui_env \<Rightarrow> args \<Rightarrow> (unit, 'w) ui_io" where
  "stop_ui_voice_media env a =
     (let client = ue_client env in
      io_bind (read_ui voice_media_active) (\<lambda>had_task.
      if \<not> had_task then io_return ()
      else
        io_bind (on_client (request_rooms client)) (\<lambda>rooms.
        io_bind (read_ui us_selected_channel_id) (\<lambda>selected.
        io_bind (io_of (select_ui_state_channel_id (os_quote (ce_os client)) a rooms selected)) (\<lambda>channel.
          case channel of
            None \<Rightarrow> stop_ui_voice_media_task env
          | Some room_id \<Rightarrow>
              io_bind (io_of (ui_voice_stream_id a)) (\<lambda>voice_stream_id.
              io_then (stop_ui_voice_media_task env)
              (io_then (on_client (unpublish_stream_for_ui client room_id voice_stream_id))
              (io_bind (read_ui keep_room_joined) (\<lambda>keep.
               if keep then io_return () else on_client (leave_room_request client room_id))))))))))"

definition apply_ui_voice_media_state ::
  "'w ui_env \<Rightarrow> args \<Rightarrow> clock_sync_estimate \<Rightarrow> voice_control_state \<Rightarrow> (unit, 'w) ui_io" where
  "apply_ui_voice_media_state env a estimate voice =
     (if \<not> ui_voice_media_supported a then io_return ()
      else if voice_speaking_from_state voice then start_ui_voice_media env a estimate voice
      else stop_ui_voice_media env a)"

section \<open>Requests\<close>

definition build_ui_state_for_ui :: "'w ui_env \<Rightarrow> args \<Rightarrow> user_id \<Rightarrow> (client_app, 'w) ui_io" where
  "build_ui_state_for_ui env a local_user_id =
     io_bind (read_ui (\<lambda>st.
       \<lparr>ub_local_user_id = local_user_id, ub_selected_channel_override = us_selected_channel_id st,
        ub_local_voice = us_local_voice st, ub_local_screen_share = us_local_screen_share st,
        ub_push_voice_state = True, ub_keep_room_joined = keep_room_joined st\<rparr>)) (\<lambda>options.
     on_client (build_ui_state (ue_client env) a options))"

definition response :: "string \<Rightarrow> string \<Rightarrow> bytes \<Rightarrow> bool \<Rightarrow> http_response" where
  "response status content_type body no_store =
     \<lparr>hr_status = lit status, hr_content_type = lit content_type, hr_body = body, hr_no_store = no_store\<rparr>"

definition json_error_response :: "'w ui_env \<Rightarrow> string \<Rightarrow> client_error \<Rightarrow> http_response" where
  "json_error_response env status error =
     response status ''application/json; charset=utf-8'' (utf8_encode (ue_error_json env (ue_error_text env error)))
       True"

text \<open>An error of the operation is answered; a panic ends the server's task.\<close>

definition or_respond ::
  "('a, 's) io \<Rightarrow> (client_error \<Rightarrow> http_response) \<Rightarrow> ('a \<Rightarrow> (http_response, 's) io) \<Rightarrow> (http_response, 's) io" where
  "or_respond m respond f s =
     (case m s of
        (Inl Panicked, s) \<Rightarrow> (Inl Panicked, s)
      | (Inl e, s) \<Rightarrow> (Inr (respond e), s)
      | (Inr a, s) \<Rightarrow> f a s)"

definition respond_with_state :: "'w ui_env \<Rightarrow> args \<Rightarrow> user_id \<Rightarrow> (http_response, 'w) ui_io" where
  "respond_with_state env a local_user_id =
     or_respond (build_ui_state_for_ui env a local_user_id)
       (json_error_response env ''500 Internal Server Error'') (\<lambda>app.
     io_return (response ''200 OK'' ''application/json; charset=utf-8''
       (utf8_encode (ue_state_json env app)) True))"

definition post_select_channel ::
  "'w ui_env \<Rightarrow> args \<Rightarrow> user_id \<Rightarrow> rstring \<Rightarrow> (http_response, 'w) ui_io" where
  "post_select_channel env a local_user_id body =
     (case ue_parse_channel env body of
        Inl e \<Rightarrow> io_return (json_error_response env ''400 Bad Request''
          (Bail (lit ''failed to parse channel selection request: '' @ e)))
      | Inr channel_id \<Rightarrow>
          or_respond (apply_ui_channel_selection env channel_id)
            (json_error_response env ''409 Conflict'') (\<lambda>_.
          respond_with_state env a local_user_id))"

definition post_voice_state ::
  "'w ui_env \<Rightarrow> args \<Rightarrow> clock_sync_estimate \<Rightarrow> user_id \<Rightarrow> rstring \<Rightarrow> (http_response, 'w) ui_io" where
  "post_voice_state env a estimate local_user_id body =
     (case ue_parse_voice env body of
        Inl e \<Rightarrow> io_return (json_error_response env ''400 Bad Request''
          (Bail (lit ''failed to parse voice-state request: '' @ e)))
      | Inr patch \<Rightarrow>
          io_then (change_ui (\<lambda>st. st\<lparr>us_local_voice := patch_voice patch (us_local_voice st)\<rparr>))
          (io_bind (read_ui us_local_voice) (\<lambda>voice.
          or_respond (apply_ui_voice_media_state env a estimate voice)
            (json_error_response env ''500 Internal Server Error'') (\<lambda>_.
          respond_with_state env a local_user_id))))"

definition post_screen_share ::
  "'w ui_env \<Rightarrow> args \<Rightarrow> clock_sync_estimate \<Rightarrow> user_id \<Rightarrow> rstring \<Rightarrow> (http_response, 'w) ui_io" where
  "post_screen_share env a estimate local_user_id body =
     (case ue_parse_sharing env body of
        Inl e \<Rightarrow> io_return (json_error_response env ''400 Bad Request''
          (Bail (lit ''failed to parse screen-share request: '' @ e)))
      | Inr sharing \<Rightarrow>
          or_respond (apply_ui_screen_share_state env a estimate sharing)
            (json_error_response env ''500 Internal Server Error'') (\<lambda>_.
          respond_with_state env a local_user_id))"

definition page :: "string \<Rightarrow> rstring \<Rightarrow> http_response" where
  "page content_type text = response ''200 OK'' content_type (utf8_encode text) False"

definition answer_ui_request ::
  "'w ui_env \<Rightarrow> args \<Rightarrow> clock_sync_estimate \<Rightarrow> user_id \<Rightarrow> rstring \<Rightarrow> ui_route \<Rightarrow> rstring \<Rightarrow>
   (http_response, 'w) ui_io"
where
  "answer_ui_request env a estimate local_user_id method route body =
     (let get = method = lit ''GET'' \<or> method = lit ''HEAD''; post = method = lit ''POST'';
          assets = ue_assets env;
          not_allowed = io_return (response ''405 Method Not Allowed'' ''text/plain; charset=utf-8''
            (utf8_encode (lit ''method not allowed'')) True)
      in case route of
           IndexRoute \<Rightarrow>
             if get then io_return (page ''text/html; charset=utf-8'' (as_index assets)) else not_allowed
         | ScriptRoute \<Rightarrow>
             if get then io_return (page ''application/javascript; charset=utf-8'' (as_script assets))
             else not_allowed
         | StyleRoute \<Rightarrow>
             if get then io_return (page ''text/css; charset=utf-8'' (as_styles assets)) else not_allowed
         | StateRoute \<Rightarrow> if get then respond_with_state env a local_user_id else not_allowed
         | SelectChannelRoute \<Rightarrow>
             if post then post_select_channel env a local_user_id body else not_allowed
         | VoiceStateRoute \<Rightarrow>
             if post then post_voice_state env a estimate local_user_id body else not_allowed
         | ScreenShareRoute \<Rightarrow>
             if post then post_screen_share env a estimate local_user_id body else not_allowed
         | NotFoundRoute \<Rightarrow>
             io_return (response ''404 Not Found'' ''text/plain; charset=utf-8''
               (utf8_encode (lit ''not found'')) True))"

definition handle_ui_http_connection ::
  "'w ui_env \<Rightarrow> args \<Rightarrow> clock_sync_estimate \<Rightarrow> user_id \<Rightarrow> reads \<Rightarrow> (bytes, 'w) ui_io" where
  "handle_ui_http_connection env a estimate local_user_id reads =
     io_bind (io_of_fault Bail (read_ui_http_request reads)) (\<lambda>request.
     let method = (case ui_request_method request of None \<Rightarrow> lit ''GET'' | Some method \<Rightarrow> method);
         path = (case ui_request_path request of None \<Rightarrow> lit ''/'' | Some path \<Rightarrow> path)
     in io_bind (answer_ui_request env a estimate local_user_id method (ui_route_for_path path)
                   (ui_request_body request)) (\<lambda>r.
        io_return (write_http_response r)))"

text \<open>
  One connection after the other; the result is what each was sent. An error of a connection is
  printed; a panic ends the server.
\<close>

fun serve_ui_http ::
  "'w ui_env \<Rightarrow> args \<Rightarrow> clock_sync_estimate \<Rightarrow> user_id \<Rightarrow> (unit + reads) list \<Rightarrow> (bytes option list, 'w) ui_io"
where
  "serve_ui_http env a estimate local_user_id [] = io_return []"
| "serve_ui_http env a estimate local_user_id (Inl _ # incoming) =
     io_fail (Bail (lit ''UI server accept failed''))"
| "serve_ui_http env a estimate local_user_id (Inr reads # incoming) =
     (\<lambda>s. case handle_ui_http_connection env a estimate local_user_id reads s of
        (Inl Panicked, s) \<Rightarrow> (Inl Panicked, s)
      | (Inl _, s) \<Rightarrow>
          io_bind (serve_ui_http env a estimate local_user_id incoming) (\<lambda>sent. io_return (None # sent)) s
      | (Inr bs, s) \<Rightarrow>
          io_bind (serve_ui_http env a estimate local_user_id incoming) (\<lambda>sent. io_return (Some bs # sent)) s)"

definition run_ui_server_flow ::
  "'w ui_env \<Rightarrow> args \<Rightarrow> clock_sync_estimate \<Rightarrow> user_id \<Rightarrow> (unit + reads) list \<Rightarrow> (bytes option list, 'w) client_io"
where
  "run_ui_server_flow env a estimate local_user_id incoming =
     io_then (io_of (map_err (\<lambda>_. lit ''failed to bind UI server on '' @ a_ui_listen a)
                (ue_bind env (a_ui_listen a))))
       (\<lambda>c. let (r, s) = serve_ui_http env a estimate local_user_id incoming
                   \<lparr>ui_client = c, ui_state = ui_server_state_new (ce_os (ue_client env)) a\<rparr>
            in (r, ui_client s))"

end
