(* ===== verification/Ui_Props.thy ===== *)
theory Ui_Props
  imports Ui_Server
begin

text \<open>
  What the user interface server keeps of its own state, whatever is requested, whatever the relay
  answers and however the media tasks end: a task that runs belongs to the selected channel, and the
  screen's runs only while the screen is shared. The proofs are in a small Hoare logic whose triples
  have one condition for the result and one for every error; its rules compute weakest preconditions.
\<close>

section \<open>Triples\<close>

definition ui_triple ::
  "(ui_server_state \<Rightarrow> bool) \<Rightarrow> (ui_server_state \<Rightarrow> bool) \<Rightarrow> ('a, 'w) ui_io \<Rightarrow>
   ('a \<Rightarrow> ui_server_state \<Rightarrow> bool) \<Rightarrow> bool"
where
  "ui_triple E P m Q \<longleftrightarrow>
     (\<forall>s r s'. P (ui_state s) \<longrightarrow> m s = (r, s') \<longrightarrow>
        (case r of Inl e \<Rightarrow> E (ui_state s') | Inr a \<Rightarrow> Q a (ui_state s')))"

lemma ui_tripleD:
  "ui_triple E P m Q \<Longrightarrow> P (ui_state s) \<Longrightarrow> m s = (Inl e, s') \<Longrightarrow> E (ui_state s')"
  "ui_triple E P m Q \<Longrightarrow> P (ui_state s) \<Longrightarrow> m s = (Inr a, s') \<Longrightarrow> Q a (ui_state s')"
  unfolding ui_triple_def by fastforce+

lemma ui_tripleI:
  assumes "\<And>s e s'. P (ui_state s) \<Longrightarrow> m s = (Inl e, s') \<Longrightarrow> E (ui_state s')"
    and "\<And>s a s'. P (ui_state s) \<Longrightarrow> m s = (Inr a, s') \<Longrightarrow> Q a (ui_state s')"
  shows "ui_triple E P m Q"
  unfolding ui_triple_def using assms by (auto split: sum.split)

lemma ui_triple_weaken:
  "ui_triple E P m Q \<Longrightarrow> (\<And>st. P' st \<Longrightarrow> P st) \<Longrightarrow> ui_triple E P' m Q"
  unfolding ui_triple_def by fastforce

lemma ui_triple_bind:
  assumes m: "ui_triple E P m Q" and f: "\<And>a. ui_triple E (Q a) (f a) R"
  shows "ui_triple E P (io_bind m f) R"
proof (rule ui_tripleI)
  fix s e s' assume "P (ui_state s)" and "io_bind m f s = (Inl e, s')"
  then show "E (ui_state s')"
    by (auto simp: io_bind_def split: prod.splits sum.splits dest: ui_tripleD(1) [OF m]
        intro: ui_tripleD(1) [OF f ui_tripleD(2) [OF m]])
next
  fix s b s' assume "P (ui_state s)" and "io_bind m f s = (Inr b, s')"
  then show "R b (ui_state s')"
    by (auto simp: io_bind_Inr intro: ui_tripleD(2) [OF f ui_tripleD(2) [OF m]])
qed

named_theorems wp

lemma wp_bind [wp]:
  "(\<And>a. ui_triple E (R a) (f a) Q) \<Longrightarrow> ui_triple E P m R \<Longrightarrow> ui_triple E P (io_bind m f) Q"
  by (rule ui_triple_bind)

lemma wp_then [wp]: "ui_triple E R n Q \<Longrightarrow> ui_triple E P m (\<lambda>_. R) \<Longrightarrow> ui_triple E P (io_then m n) Q"
  unfolding io_then_def by (rule ui_triple_bind)

lemma wp_pure [wp]:
  "ui_triple E (Q a) (io_return a) Q" "ui_triple E E (io_fail e) R"
  "ui_triple E (\<lambda>st. E st \<and> (\<forall>a. S a st)) (io_of r) S"
  by (auto simp: ui_triple_def io_of_def io_apply split: sum.splits)

lemma wp_client [wp]: "ui_triple E (\<lambda>st. E st \<and> (\<forall>a. Q a st)) (on_client m) Q"
  by (rule ui_tripleI) (auto simp: on_client_def Let_def split: prod.splits)

lemma wp_state [wp]:
  "ui_triple E (\<lambda>st. Q (f st) st) (read_ui f) Q" "ui_triple E (\<lambda>st. R () (g st)) (change_ui g) R"
  by (simp_all add: ui_triple_def read_ui_def change_ui_def)

lemma wp_ignore [wp]:
  "ui_triple E (\<lambda>st. E st \<and> Q () st) (io_ignore (on_client m)) Q"
  by (rule ui_tripleI)
    (auto simp: io_ignore_def on_client_def Let_def split: prod.splits sum.splits client_error.splits)

lemma wp_if [wp]:
  "ui_triple E P m Q \<Longrightarrow> ui_triple E P' n Q \<Longrightarrow>
   ui_triple E (\<lambda>st. if b then P st else P' st) (if b then m else n) Q"
  by simp

lemma wp_option [wp]:
  "ui_triple E P n Q \<Longrightarrow> (\<And>y. ui_triple E (P' y) (f y) Q) \<Longrightarrow>
   ui_triple E (\<lambda>st. case x of None \<Rightarrow> P st | Some y \<Rightarrow> P' y st)
     (case x of None \<Rightarrow> n | Some y \<Rightarrow> f y) Q"
  by (cases x) auto

lemma ui_triple_on_error:
  assumes m: "ui_triple E P m Q" and h: "ui_triple E E handler (\<lambda>_. E)"
  shows "ui_triple E P (on_error m handler) Q"
proof -
  have fail: "ui_triple E E (io_then handler (io_fail e)) Q" for e
    by (rule wp_then [OF wp_pure(2) h])
  have ok: "on_error m handler s = (case m s of
      (Inl Panicked, s) \<Rightarrow> (Inl Panicked, s) | (Inl e, s) \<Rightarrow> io_then handler (io_fail e) s
    | (Inr a, s) \<Rightarrow> (Inr a, s))" for s
    by (simp add: on_error_def)
  show ?thesis
  proof (rule ui_tripleI)
    fix s e s' assume "P (ui_state s)" and "on_error m handler s = (Inl e, s')"
    then show "E (ui_state s')"
      by (auto simp: ok split: prod.splits sum.splits client_error.splits dest: ui_tripleD(1) [OF m]
          intro: ui_tripleD(1) [OF fail ui_tripleD(1) [OF m]])
  next
    fix s a s' assume "P (ui_state s)" and "on_error m handler s = (Inr a, s')"
    then show "Q a (ui_state s')"
      by (auto simp: ok split: prod.splits sum.splits client_error.splits dest: ui_tripleD(2) [OF m]
          intro: ui_tripleD(2) [OF fail ui_tripleD(1) [OF m]])
  qed
qed

text \<open>Here undoing is done with the error's condition.\<close>

lemma wp_on_error [wp]:
  assumes "ui_triple E P' h (\<lambda>_. E)" and "ui_triple E P m Q"
  shows "ui_triple E (\<lambda>st. P st \<and> (\<forall>st. E st \<longrightarrow> P' st)) (on_error m h) Q"
proof (cases "\<forall>st. E st \<longrightarrow> P' st")
  case True
  then have "ui_triple E E h (\<lambda>_. E)" by (intro ui_triple_weaken [OF assms(1)]) simp
  with True show ?thesis by (simp add: ui_triple_on_error [OF assms(2)])
qed (auto simp: ui_triple_def)

section \<open>The invariant\<close>

definition voice_consistent :: "voice_control_state \<Rightarrow> bool" where
  "voice_consistent voice \<longleftrightarrow>
     (vc_deafened voice \<longrightarrow> vc_muted voice) \<and>
     (vc_ptt_active voice \<longrightarrow> vc_push_to_talk voice \<and> \<not> vc_muted voice)"

lemma patch_voice_consistent: "voice_consistent (patch_voice patch voice)"
  by (simp add: patch_voice_def voice_consistent_def Let_def)

definition ui_inv :: "voice_control_state \<Rightarrow> ui_server_state \<Rightarrow> bool" where
  "ui_inv v0 st \<longleftrightarrow>
     (\<forall>t. us_screen_media_task st = Some t \<longrightarrow>
        ss_sharing (us_local_screen_share st) \<and> us_selected_channel_id st = Some (ut_room_id t)) \<and>
     (\<forall>t. us_voice_media_task st = Some t \<longrightarrow> us_selected_channel_id st = Some (ut_room_id t)) \<and>
     (us_local_voice st = v0 \<or> voice_consistent (us_local_voice st))"

section \<open>The operations\<close>

definition keeps_ui :: "voice_control_state \<Rightarrow> ('a, 'w) ui_io \<Rightarrow> bool" where
  "keeps_ui v0 m \<longleftrightarrow> ui_triple (ui_inv v0) (ui_inv v0) m (\<lambda>_. ui_inv v0)"

lemma keeps_uiI: "ui_triple (ui_inv v0) P m (\<lambda>_. ui_inv v0) \<Longrightarrow> (\<And>st. ui_inv v0 st \<Longrightarrow> P st) \<Longrightarrow> keeps_ui v0 m"
  unfolding keeps_ui_def by (rule ui_triple_weaken)

lemma wp_tasks [wp]:
  "ui_triple E (\<lambda>st. E st \<and> Q () st) (task_result what e) Q"
  "ui_triple E (\<lambda>st. E st \<and> (\<forall>e. R e st)) (await_task env task) R"
  by (simp_all add: await_task_def wp_client)
    (auto simp: task_result_def ui_triple_def io_apply split: task_end.split)

lemma channel_selection_keeps: "keeps_ui v0 (apply_ui_channel_selection env channel_id)"
  unfolding apply_ui_channel_selection_def
  by (rule keeps_uiI, (rule wp)+)
    (auto simp: ui_inv_def screen_media_active_def voice_media_active_def split: option.splits)

lemma start_share_keeps: "keeps_ui v0 (start_ui_screen_share env a estimate)"
  unfolding start_ui_screen_share_def Let_def resolve_or_create_ui_channel_id_def start_ui_screen_media_task_def
  by (rule keeps_uiI, (rule wp)+)
    (auto simp: ui_inv_def set_screen_sharing_def split: option.splits)

lemma stop_task_wp [wp]:
  "ui_triple (ui_inv v0) (\<lambda>st. ui_inv v0 st \<and> Q () (st\<lparr>us_screen_media_task := None\<rparr>))
     (stop_ui_screen_media_task env) Q"
  "ui_triple (ui_inv v0) (\<lambda>st. ui_inv v0 st \<and> Q () (st\<lparr>us_voice_media_task := None\<rparr>))
     (stop_ui_voice_media_task env) Q"
  unfolding stop_ui_screen_media_task_def stop_ui_voice_media_task_def
  by (rule ui_triple_weaken, (rule wp)+, auto simp: ui_inv_def split: option.split)+

lemma stop_share_keeps: "keeps_ui v0 (stop_ui_screen_share env a)"
  unfolding stop_ui_screen_share_def Let_def
  by (rule keeps_uiI, (rule wp)+)
    (auto simp: ui_inv_def set_screen_sharing_def split: option.splits)

lemma start_voice_keeps: "keeps_ui v0 (start_ui_voice_media env a estimate voice)"
  unfolding start_ui_voice_media_def Let_def resolve_or_create_ui_channel_id_def start_ui_voice_media_task_def
    leave_unless_kept_def
  by (rule keeps_uiI, (rule wp)+)
    (auto simp: ui_inv_def voice_media_active_def split: option.splits)

lemma stop_voice_keeps: "keeps_ui v0 (stop_ui_voice_media env a)"
  unfolding stop_ui_voice_media_def Let_def
  by (rule keeps_uiI, (rule wp)+) (auto simp: ui_inv_def split: option.splits)

lemma keeps_ui_pure: "keeps_ui v0 (io_return a)" "keeps_ui v0 (io_fail e)" "keeps_ui v0 (io_of r)"
  by (auto simp: keeps_ui_def intro: ui_triple_weaken [OF wp_pure(1)] ui_triple_weaken [OF wp_pure(2)]
      ui_triple_weaken [OF wp_pure(3)])

lemma keeps_ui_bind: "keeps_ui v0 m \<Longrightarrow> (\<And>a. keeps_ui v0 (f a)) \<Longrightarrow> keeps_ui v0 (io_bind m f)"
  unfolding keeps_ui_def by (rule ui_triple_bind)

lemma keeps_ui_then: "keeps_ui v0 m \<Longrightarrow> keeps_ui v0 n \<Longrightarrow> keeps_ui v0 (io_then m n)"
  unfolding io_then_def by (rule keeps_ui_bind)

lemma keeps_ui_alt:
  "keeps_ui v0 m \<longleftrightarrow> (\<forall>s. ui_inv v0 (ui_state s) \<longrightarrow> ui_inv v0 (ui_state (snd (m s))))"
proof
  assume m: "keeps_ui v0 m"
  show "\<forall>s. ui_inv v0 (ui_state s) \<longrightarrow> ui_inv v0 (ui_state (snd (m s)))"
  proof (intro allI impI)
    fix s :: "'a ui_server" assume s: "ui_inv v0 (ui_state s)"
    obtain r s' where ms: "m s = (r, s')" by fastforce
    with m s show "ui_inv v0 (ui_state (snd (m s)))"
      unfolding keeps_ui_def by (cases r) (auto dest: ui_tripleD)
  qed
next
  assume "\<forall>s. ui_inv v0 (ui_state s) \<longrightarrow> ui_inv v0 (ui_state (snd (m s)))"
  then show "keeps_ui v0 m"
    unfolding keeps_ui_def by (intro ui_tripleI) (metis snd_conv)+
qed

lemma keeps_ui_respond:
  assumes m: "keeps_ui v0 m" and f: "\<And>a. keeps_ui v0 (f a)"
  shows "keeps_ui v0 (or_respond m respond f)"
  unfolding keeps_ui_alt
proof (intro allI impI)
  fix s :: "'a ui_server" assume s: "ui_inv v0 (ui_state s)"
  obtain r s1 where ms: "m s = (r, s1)" by fastforce
  with m s have s1: "ui_inv v0 (ui_state s1)" unfolding keeps_ui_alt by (metis snd_conv)
  show "ui_inv v0 (ui_state (snd (or_respond m respond f s)))"
  proof (cases r)
    case (Inl e)
    with ms s1 show ?thesis by (cases e) (simp_all add: or_respond_def)
  next
    case (Inr a)
    with ms s1 f [of a] show ?thesis by (simp add: or_respond_def keeps_ui_alt)
  qed
qed

lemma apply_states_keep:
  "keeps_ui v0 (apply_ui_screen_share_state env a estimate sharing)"
  "keeps_ui v0 (apply_ui_voice_media_state env a estimate voice)"
  unfolding apply_ui_screen_share_state_def apply_ui_voice_media_state_def
  by (auto intro: keeps_ui_then keeps_ui_pure start_share_keeps stop_share_keeps start_voice_keeps
      stop_voice_keeps)

lemma respond_with_state_keeps: "keeps_ui v0 (respond_with_state env a uid)"
  unfolding respond_with_state_def build_ui_state_for_ui_def
  by (intro keeps_ui_respond keeps_ui_pure keeps_uiI, (rule wp)+) simp

lemma posts_keep:
  "keeps_ui v0 (post_select_channel env a uid body)"
  "keeps_ui v0 (post_voice_state env a estimate uid body)"
  "keeps_ui v0 (post_screen_share env a estimate uid body)"
proof -
  have patch: "keeps_ui v0 (change_ui (\<lambda>st. st\<lparr>us_local_voice := patch_voice p (us_local_voice st)\<rparr>))" for p
    by (rule keeps_uiI, rule wp) (simp add: ui_inv_def patch_voice_consistent)
  have read: "keeps_ui v0 (read_ui us_local_voice)"
    by (rule keeps_uiI, rule wp) simp
  show "keeps_ui v0 (post_select_channel env a uid body)"
    "keeps_ui v0 (post_voice_state env a estimate uid body)"
    "keeps_ui v0 (post_screen_share env a estimate uid body)"
    unfolding post_select_channel_def post_voice_state_def post_screen_share_def
    by (auto intro!: keeps_ui_pure keeps_ui_respond keeps_ui_then keeps_ui_bind patch read
        apply_states_keep channel_selection_keeps respond_with_state_keeps split: sum.split)
qed

lemma connection_keeps: "keeps_ui v0 (handle_ui_http_connection env a estimate uid reads)"
proof -
  have "keeps_ui v0 (answer_ui_request env a estimate uid verb route body)" for verb route body
    unfolding answer_ui_request_def Let_def
    by (auto intro!: keeps_ui_pure posts_keep respond_with_state_keeps split: ui_route.split)
  then show ?thesis
    unfolding handle_ui_http_connection_def io_of_fault_def Let_def
    by (auto intro!: keeps_ui_bind keeps_ui_pure split: sum.split fault.split)
qed

lemma serve_keeps: "keeps_ui v0 (serve_ui_http env a estimate uid incoming)"
proof (induction incoming)
  case Nil
  show ?case by (simp add: keeps_ui_pure)
next
  case (Cons c incoming)
  show ?case
  proof (cases c)
    case (Inl e)
    then show ?thesis by (simp add: keeps_ui_pure)
  next
    case (Inr reads)
    have rest: "keeps_ui v0 (io_bind (serve_ui_http env a estimate uid incoming) (\<lambda>sent. io_return (x # sent)))" for x
      by (intro keeps_ui_bind Cons keeps_ui_pure)
    show ?thesis
      unfolding keeps_ui_alt
    proof (intro allI impI)
      fix s :: "'a ui_server" assume s: "ui_inv v0 (ui_state s)"
      obtain r s1 where cs: "handle_ui_http_connection env a estimate uid reads s = (r, s1)" by fastforce
      with s have s1: "ui_inv v0 (ui_state s1)"
        using connection_keeps [of v0 env a estimate uid reads] unfolding keeps_ui_alt by (metis snd_conv)
      show "ui_inv v0 (ui_state (snd (serve_ui_http env a estimate uid (c # incoming) s)))"
      proof (cases r)
        case (Inl e)
        with cs s1 rest show ?thesis by (cases e) (simp_all add: Inr keeps_ui_alt)
      next
        case r: (Inr bs)
        with cs s1 rest show ?thesis by (simp add: Inr keeps_ui_alt)
      qed
    qed
  qed
qed

section \<open>Property\<close>

text \<open>
  C20. However the user interface is used and whatever the relay and the media tasks do, a media task that
  runs belongs to the selected channel, the screen's runs only while the interface shows the screen
  as shared, and once the user has changed the voice state, deafened means muted and push-to-talk is
  active only in push-to-talk mode and while not muted.
\<close>

theorem ui_server_consistent:
  "ui_inv (ui_voice_control_state a)
     (ui_state (snd (serve_ui_http env a estimate uid incoming
        \<lparr>ui_client = c, ui_state = ui_server_state_new os a\<rparr>)))"
proof -
  let ?v = "ui_voice_control_state a"
  have "ui_inv ?v (ui_server_state_new os a)"
    by (simp add: ui_inv_def ui_server_state_new_def)
  then show ?thesis
    using serve_keeps [of "?v" env a estimate uid incoming] by (simp add: keeps_ui_alt)
qed

end
