(* ===== verification/Ui_On_Relay.thy ===== *)
theory Ui_On_Relay
  imports Ui_Props Client_Served
begin

text \<open>
  The user interface server in front of the modelled relay, as \<open>Client_Served\<close> has the viewer: its
  operations are followed request by request through the relay's handler.
\<close>

section \<open>Operations of the server at the relay\<close>

definition ui_answers ::
  "session \<Rightarrow> control_state \<times> ui_server_state \<Rightarrow> ('a, 'o relay_world) ui_io \<Rightarrow> client_error + 'a \<Rightarrow>
   control_state \<times> ui_server_state \<Rightarrow> bool"
where
  "ui_answers s before m r after \<longleftrightarrow>
     (\<forall>u. at_relay s (fst before) (ui_client u) \<longrightarrow> ui_state u = snd before \<longrightarrow>
        (\<exists>u'. m u = (r, u') \<and> at_relay s (fst after) (ui_client u') \<and> ui_state u' = snd after))"

lemma ui_answersD:
  "ui_answers s (st, us) m r (st', us') \<Longrightarrow> at_relay s st c \<Longrightarrow>
   \<exists>c'. m \<lparr>ui_client = c, ui_state = us\<rparr> = (r, \<lparr>ui_client = c', ui_state = us'\<rparr>) \<and> at_relay s st' c'"
proof -
  assume m: "ui_answers s (st, us) m r (st', us')" and c: "at_relay s st c"
  let ?u = "\<lparr>ui_client = c, ui_state = us\<rparr>"
  obtain u' where "m ?u = (r, u')" "at_relay s st' (ui_client u')" "ui_state u' = us'"
    using m c by (auto simp: ui_answers_def dest: spec [of _ ?u])
  then show ?thesis by (cases u') auto
qed

lemma ui_answers_bind:
  "ui_answers s b0 m (Inr a) b1 \<Longrightarrow> ui_answers s b1 (f a) r b2 \<Longrightarrow> ui_answers s b0 (io_bind m f) r b2"
  by (fastforce simp: ui_answers_def io_bind_def)

lemma ui_answers_then:
  "ui_answers s b0 m (Inr a) b1 \<Longrightarrow> ui_answers s b1 n r b2 \<Longrightarrow> ui_answers s b0 (io_then m n) r b2"
  by (simp add: io_then_def ui_answers_bind)

lemma ui_answers_then_fail:
  "ui_answers s b0 m (Inl e) b1 \<Longrightarrow> ui_answers s b0 (io_then m n) (Inl e) b1"
  by (fastforce simp: ui_answers_def io_then_def io_bind_def)

lemma ui_answers_pure:
  "ui_answers s b (io_return a) (Inr a) b" "ui_answers s b (io_fail e) (Inl e) b"
  by (simp_all add: ui_answers_def io_apply)

lemma ui_answers_read: "f us = a \<Longrightarrow> ui_answers s (st, us) (read_ui f) (Inr a) (st, us)"
  by (auto simp: ui_answers_def read_ui_def)

lemma ui_answers_client:
  "answers s st m a st' \<Longrightarrow> ui_answers s (st, us) (on_client m) (Inr a) (st', us)"
  "refuses s st m e st' \<Longrightarrow> ui_answers s (st, us) (on_client m) (Inl e) (st', us)"
  by (auto simp: ui_answers_def answers_def refuses_def on_client_def Let_def split: prod.split)

lemma ui_answers_ignore:
  "ui_answers s b0 m (Inr a) b1 \<Longrightarrow> ui_answers s b0 (io_ignore m) (Inr ()) b1"
  by (fastforce simp: ui_answers_def io_ignore_def)

lemma ui_answers_on_error:
  "ui_answers s b0 m (Inl e) b1 \<Longrightarrow> e \<noteq> Panicked \<Longrightarrow> ui_answers s b1 h (Inr ()) b2 \<Longrightarrow>
   ui_answers s b0 (on_error m h) (Inl e) b2"
  by (cases e) (fastforce simp: ui_answers_def on_error_def io_then_def io_bind_def io_apply)+

section \<open>The requests\<close>

lemma answers_rooms:
  assumes "may_control s st"
  shows "answers s st (request_rooms (alone_env base)) (rl_rooms (list_rooms st)) st"
  unfolding request_rooms_def
  by (rule answers_expect [OF assms, where reply = "RoomList (list_rooms st)"]) simp_all

lemma room_listed:
  assumes "wf_state st" and "bt_get (cs_rooms st) rid = Some r"
  shows "listed_room rid (rl_rooms (list_rooms st))"
proof -
  have "rm_id r = rid" by (rule room_wfD(1) [OF rooms_wfD(2) [OF wf_stateD(1) [OF assms(1)] assms(2)]])
  moreover have "r \<in> set (bt_values (cs_rooms st))" using assms(2) by (auto simp: set_bt_values intro: ranI)
  ultimately show ?thesis by (auto simp: listed_room_def list_rooms_def list_ex_iff)
qed

lemma answers_set_voice:
  assumes "hosts s rid streams st"
  shows "\<exists>st'. answers s st (set_voice_state_request (alone_env base) rid voice) () st' \<and>
    hosts s rid streams st'"
proof -
  define m where "m = \<lparr>svs_room_id = rid, svs_muted = vc_muted voice, svs_deafened = vc_deafened voice,
    svs_push_to_talk = vc_push_to_talk voice, svs_speaking = voice_speaking_from_state voice\<rparr>"
  obtain r uid where r: "bt_get (cs_rooms st) rid = Some r" "sess_user_id s = Some uid" "uid \<in> participants r"
    using assms by (auto simp: hosts_def)
  let ?r = "set_voice_state s m st"
  obtain v where v: "fst ?r = VoiceStateUpdated v" using r by (simp add: set_voice_state_def m_def Let_def)
  then have "dispatch now now' s st (SetVoiceState m) = (VoiceStateUpdated v, s, snd ?r)" for now now'
    by (simp add: keep_session_def)
  then have "answers s st (set_voice_state_request (alone_env base) rid voice) () (snd ?r)"
    unfolding set_voice_state_request_def m_def [symmetric]
    by (auto intro: answers_expect [OF hosts_may [OF assms]])
  moreover have "hosts s rid streams (snd ?r)"
    by (rule hosts_token [OF assms]) (use r in \<open>simp_all add: set_voice_state_def m_def Let_def\<close>)
  ultimately show ?thesis by blast
qed

lemma stream_taken:
  assumes "hosts s rid streams st" and "bt_get streams sid = Some x"
  shows "publisher_for_stream st sid \<noteq> None"
proof -
  obtain r where r: "bt_get (cs_rooms st) rid = Some r" "bt_get (published_streams r) sid = Some x"
    using assms by (auto simp: hosts_def)
  have "find_map (\<lambda>r. bt_get (published_streams r) sid) rs \<noteq> None" if "r \<in> set rs" for rs
    using that r(2) by (induction rs) (auto split: option.split)
  moreover have "r \<in> set (bt_values (cs_rooms st))" using r(1) by (auto simp: set_bt_values intro: ranI)
  ultimately show ?thesis by (simp add: publisher_for_stream_def published_stream_def)
qed

lemma publish_taken:
  assumes "hosts s rid streams st" and "bt_get streams (a_stream_id a) = Some x"
    and "args_codec a = Inr codec" and "protocol_media_kind a = Inr kind"
  shows "\<exists>msg. refuses s st (publish_configured_stream (alone_env base) a rid) (Bail msg) st"
proof -
  define m where "m = \<lparr>pub_room_id = rid, pub_stream_id = a_stream_id a, pub_codec = codec, pub_media_kind = kind\<rparr>"
  let ?e = "error_reply ''stream_id_conflict'' ''stream id is already published''"
  have "dispatch now now' s st (PublishStream m) = (?e, s, st)" for now now'
    using stream_taken [OF assms(1,2)] by (simp add: keep_session_def handle_publish_stream_def m_def)
  then have sent: "answers s st (send_control (alone_env base) (PublishStream m)) ?e st"
    by (rule answers_send [OF hosts_may [OF assms(1)]])
  have "refuses s st (publish_configured_stream (alone_env base) a rid)
      (failed (lit ''publish stream'')
        (control_error_new (lit ''stream_id_conflict'') (lit ''stream id is already published''))) st"
    unfolding publish_configured_stream_def
    by (auto simp: assms(3,4) io_of_def m_def [symmetric] ensure_not_error_def error_reply_def io_then_def
        refuses_def io_apply intro!: refuses_bind [OF sent, unfolded refuses_def, rule_format])
  then show ?thesis by (auto simp: failed_def)
qed

lemma left_room_published:
  "\<not> (published_in (cs_rooms (leave_room uid rid st)) rid sid x \<and> st_publisher_id x = uid)"
  by (cases "bt_get (cs_rooms st) rid")
    (auto simp: published_in_def leave_room_absent leave_room_eq Let_def bt_get_put_room
      room_after_leave_published set_streams_published_by split: if_splits)

lemma failed_share:
  assumes wf: "wf_state st" and may: "may_control s st" "sess_user_id s = Some uid"
    and r: "bt_get (cs_rooms st) rid = Some r" "uid \<in> participants r"
    and taken: "bt_get (published_streams r) (a_stream_id a) = Some y"
    and env: "ue_client env = alone_env base"
    and us: "us_selected_channel_id us = Some rid" "\<not> ss_sharing (us_local_screen_share us)"
  shows "\<exists>msg st'. ui_answers s (st, us) (start_ui_screen_share env a estimate) (Inl (Bail msg))
    (leave_room uid rid st', us)"
proof -
  let ?env = "alone_env base"
  let ?a = "screen_args a"
  have resolve: "ui_answers s (st, us) (resolve_or_create_ui_channel_id env a) (Inr rid) (st, us)"
    unfolding resolve_or_create_ui_channel_id_def env
    by (rule ui_answers_bind [OF ui_answers_client(1) [OF answers_rooms [OF may(1)]]],
        rule ui_answers_bind [OF ui_answers_read [where a = "Some rid"]])
      (simp_all add: us(1) room_listed [OF wf r(1)] ui_answers_pure)
  obtain st1 where join: "answers s st (join_room_request ?env rid) () st1"
    and st1: "hosts s rid (published_streams r) st1"
    using answers_join [OF may r(1)] r(2) by blast
  obtain st2 where voice: "answers s st1 (set_voice_state_request ?env rid (us_local_voice us)) () st2"
    and st2: "hosts s rid (published_streams r) st2"
    using answers_set_voice [OF st1] by blast
  have args: "a_stream_id ?a = a_stream_id a" "args_codec ?a = Inr H264" "protocol_media_kind ?a = Inr Screen"
    by (simp_all add: screen_args_def for_media_kind_def args_codec_def protocol_media_kind_def)
  obtain msg where publish: "refuses s st2 (publish_configured_stream ?env ?a rid) (Bail msg) st2"
    using publish_taken [OF st2, of ?a y] taken args by metis
  have undo: "ui_answers s (st2, us) (io_ignore (on_client (leave_room_request ?env rid))) (Inr ())
      (leave_room uid rid st2, us)"
    by (rule ui_answers_ignore [OF ui_answers_client(1) [OF answers_leave [OF st2 may(2)]]])
  have "ui_answers s (st, us) (start_ui_screen_share env a estimate) (Inl (Bail msg)) (leave_room uid rid st2, us)"
    unfolding start_ui_screen_share_def Let_def env
    by (rule ui_answers_bind [OF ui_answers_read [where a = False]], simp add: us(2), simp,
        rule ui_answers_bind [OF resolve], rule ui_answers_then [OF ui_answers_client(1) [OF join]],
        rule ui_answers_bind [OF ui_answers_read [where a = "us_local_voice us"]], simp,
        rule ui_answers_then [OF ui_answers_client(1) [OF voice]],
        rule ui_answers_then_fail [OF ui_answers_on_error [OF ui_answers_client(2) [OF publish] _ undo]]) simp
  then show ?thesis by blast
qed

section \<open>A speaker beside the sample host\<close>

definition sample_talk :: control_state where
  "sample_talk =
     snd (handle_publish_stream (sample_session 8)
       \<lparr>pub_room_id = 1, pub_stream_id = 2, pub_codec = Opus, pub_media_kind = Voice\<rparr>
       (snd (handle_join_room (sample_session 8) \<lparr>join_room_id = 1\<rparr> sample_host)))"

lemma sample_talk_wf: "wf_state sample_talk"
  unfolding sample_talk_def by (intro wf_handle_publish_stream wf_handle_join_room sample_host_wf)

lemma sample_talk_room:
  "\<exists>r x v. bt_get (cs_rooms sample_talk) 1 = Some r \<and> 8 \<in> participants r \<and>
     bt_get (published_streams r) 1 = Some x \<and> bt_get (published_streams r) 2 = Some v \<and> st_publisher_id v = 8"
  "cs_access_token sample_talk = None"
  by (simp_all add: sample_talk_def sample_host_def Let_def handle_create_room_def control_state_new_def
      limits_default_def handle_join_room_def
      DEFAULT_MAX_ROOMS_def DEFAULT_MAX_PARTICIPANTS_PER_ROOM_def DEFAULT_MAX_STREAMS_PER_ROOM_def
      bt_len_def room_join_def room_new_def ensure_voice_state_def handle_publish_stream_def
      publisher_for_stream_def published_stream_def room_publish_stream_def set_stream_config_def split_beta
      bt_values_def bt_insert.rep_eq bt_new.rep_eq)

definition sample_ui_args :: args where
  "sample_ui_args =
     default_args\<lparr>a_mode := BroadcasterMode, a_media_kind := BothArg, a_voice_stream_id := Some 2\<rparr>"

definition sample_estimate :: clock_sync_estimate where
  "sample_estimate = \<lparr>cs_rtt_micros = 0, cs_rtt_ms = 0, cs_clock_offset_micros = 0\<rparr>"

definition sample_ui_env :: "nat relay_world ui_env" where
  "sample_ui_env =
     \<lparr>ue_client = alone_env quiet_env, ue_join = (\<lambda>_ w. (TaskDone, w)), ue_bind = (\<lambda>_. Inr ()),
      ue_assets = \<lparr>as_index = [], as_script = [], as_styles = []\<rparr>, ue_error_text = (\<lambda>_. []),
      ue_error_json = (\<lambda>e. e), ue_state_json = (\<lambda>_. []), ue_parse_channel = (\<lambda>_. Inl []),
      ue_parse_voice = (\<lambda>_. Inl []), ue_parse_sharing = (\<lambda>_. Inl [])\<rparr>"

definition sample_ui_state :: ui_server_state where
  "sample_ui_state = (ui_server_state_new quiet_os sample_ui_args)
     \<lparr>us_selected_channel_id := Some 1, us_voice_media_task := Some
        \<lparr>ut_args = voice_args sample_ui_args 2, ut_room_id = 1, ut_clock_sync = sample_estimate\<rparr>\<rparr>"

section \<open>Property\<close>

text \<open>
  C37. A screen share that fails takes the voice with it: when the user speaks in the selected channel and
  starts sharing with a stream id that is taken there, the server leaves the room on the way out of
  the error, so the relay drops the user and the voice stream, while the voice task runs on.
\<close>

theorem failed_share_ends_voice:
  assumes "wf_state st" and "may_control s st" and "sess_user_id s = Some uid"
    and "bt_get (cs_rooms st) rid = Some r" and "uid \<in> participants r"
    and "bt_get (published_streams r) (a_stream_id a) = Some y"
    and "bt_get (published_streams r) voice_id = Some v" and "st_publisher_id v = uid"
    and "ue_client env = relay_env (\<lambda>_ st. st) base"
    and "us_selected_channel_id us = Some rid" and "\<not> ss_sharing (us_local_screen_share us)"
    and "us_voice_media_task us = Some t"
  shows "\<exists>msg u'. start_ui_screen_share env a estimate
      \<lparr>ui_client = \<lparr>cl_next_request_id = n, cl_world =
         \<lparr>rw_state = st, rw_session = s, rw_outside = outside\<rparr>\<rparr>, ui_state = us\<rparr> = (Inl (Bail msg), u') \<and>
    (let st' = rw_state (cl_world (ui_client u')) in
       us_voice_media_task (ui_state u') = Some t \<and> \<not> member st' rid uid \<and>
       \<not> published_in (cs_rooms st') rid voice_id v)"
proof -
  obtain msg st' where a: "ui_answers s (st, us) (start_ui_screen_share env a estimate) (Inl (Bail msg))
      (leave_room uid rid st', us)"
    using failed_share [OF assms(1-6) assms(9-11)] by blast
  have "at_relay s st \<lparr>cl_next_request_id = n, cl_world = \<lparr>rw_state = st, rw_session = s, rw_outside = outside\<rparr>\<rparr>"
    by (simp add: at_relay_def)
  from ui_answersD [OF a this] show ?thesis
    using assms(8,12) left_room [of uid rid st'] left_room_published [of uid rid st' voice_id v]
    by (fastforce simp: at_relay_def Let_def)
qed

theorem failed_share_ends_voice_witness:
  "\<exists>msg u'. start_ui_screen_share sample_ui_env sample_ui_args sample_estimate
      \<lparr>ui_client = \<lparr>cl_next_request_id = 9, cl_world =
         \<lparr>rw_state = sample_talk, rw_session = sample_session 8, rw_outside = 0\<rparr>\<rparr>,
       ui_state = sample_ui_state\<rparr> = (Inl (Bail msg), u') \<and>
     us_voice_media_task (ui_state u') \<noteq> None \<and> \<not> member (rw_state (cl_world (ui_client u'))) 1 8"
proof -
  obtain r x v where r: "bt_get (cs_rooms sample_talk) 1 = Some r" "8 \<in> participants r"
      "bt_get (published_streams r) 1 = Some x" "bt_get (published_streams r) 2 = Some v" "st_publisher_id v = 8"
    using sample_talk_room(1) by blast
  have may: "may_control (sample_session 8) sample_talk"
    by (simp add: may_control_def requires_access_token_def sample_talk_room(2))
  have sid: "a_stream_id sample_ui_args = 1" by (simp add: sample_ui_args_def default_args_def)
  have env: "ue_client sample_ui_env = relay_env (\<lambda>_ st. st) quiet_env"
    by (simp add: sample_ui_env_def)
  have us: "us_selected_channel_id sample_ui_state = Some 1"
    "\<not> ss_sharing (us_local_screen_share sample_ui_state)"
    "us_voice_media_task sample_ui_state = Some
      \<lparr>ut_args = voice_args sample_ui_args 2, ut_room_id = 1, ut_clock_sync = sample_estimate\<rparr>"
    by (simp_all add: sample_ui_state_def ui_server_state_new_def)
  from failed_share_ends_voice [OF sample_talk_wf may sample_session_sel(1) r(1,2) _ r(4,5) env us(1) us(2) us(3),
      where a = sample_ui_args and y = x and estimate = sample_estimate and n = 9 and outside = 0]
  show ?thesis using r(3) sid by (auto simp: Let_def)
qed

end
