(* ===== verification/Load_Codec.thy ===== *)
theory Load_Codec
  imports Control_Msg "HOL-Library.Countable"
begin

text \<open>
  The messages of the load test's forwarding run, and a code for them that meets the contract
  \<open>json_codec\<close>: the numbers of a message, as one number in unary between braces.
\<close>

section \<open>Messages\<close>

definition load_request :: "client_control \<Rightarrow> bool" where
  "load_request m \<longleftrightarrow>
     (case m of Hello _ \<Rightarrow> True | CreateRoom _ \<Rightarrow> True | JoinRoom _ \<Rightarrow> True | PublishStream _ \<Rightarrow> True
      | SubscribeStream _ \<Rightarrow> True | _ \<Rightarrow> False)"

definition load_reply :: "server_control \<Rightarrow> bool" where
  "load_reply m \<longleftrightarrow>
     (case m of HelloAccepted _ \<Rightarrow> True | RoomCreated _ \<Rightarrow> True | RoomJoined _ \<Rightarrow> True
      | StreamPublished _ \<Rightarrow> True | StreamSubscribed _ \<Rightarrow> True | _ \<Rightarrow> False)"

lemmas load_message_defs = load_request_def load_reply_def

section \<open>Fields\<close>

definition codec_number :: "codec_id \<Rightarrow> nat" where
  "codec_number codec = (case codec of H264 \<Rightarrow> 0 | Av1 \<Rightarrow> 1 | Hevc \<Rightarrow> 2 | Opus \<Rightarrow> 3)"

definition number_codec :: "nat \<Rightarrow> codec_id" where
  "number_codec n = (if n = 0 then H264 else if n = 1 then Av1 else if n = 2 then Hevc else Opus)"

definition kind_number :: "media_kind \<Rightarrow> nat" where
  "kind_number kind = (case kind of Screen \<Rightarrow> 0 | Voice \<Rightarrow> 1 | ProbeMedia \<Rightarrow> 2)"

definition number_kind :: "nat \<Rightarrow> media_kind" where
  "number_kind n = (if n = 0 then Screen else if n = 1 then Voice else ProbeMedia)"

lemma number_inverse [simp]: "number_codec (codec_number c) = c" "number_kind (kind_number k) = k"
  by (cases c; simp add: number_codec_def codec_number_def) (cases k; simp add: number_kind_def kind_number_def)

text \<open>The fields of a message after its tag, strings last.\<close>

definition request_fields :: "client_control \<Rightarrow> nat list option" where
  "request_fields m =
     (case m of
        Hello h \<Rightarrow> Some (0 # unat (hello_protocol_version h) # hello_client_name h)
      | CreateRoom c \<Rightarrow> Some (1 # create_name c)
      | JoinRoom j \<Rightarrow> Some [2, unat (join_room_id j)]
      | PublishStream p \<Rightarrow> Some [3, unat (pub_room_id p), unat (pub_stream_id p), codec_number (pub_codec p),
          kind_number (pub_media_kind p)]
      | SubscribeStream s \<Rightarrow> Some [4, unat (sub_room_id s), unat (sub_stream_id s)]
      | _ \<Rightarrow> None)"

definition fields_request :: "nat list \<Rightarrow> client_control" where
  "fields_request xs =
     (if hd xs = 0 then Hello \<lparr>hello_protocol_version = of_nat (xs ! 1), hello_client_name = drop 2 xs\<rparr>
      else if hd xs = 1 then CreateRoom \<lparr>create_name = drop 1 xs\<rparr>
      else if hd xs = 2 then JoinRoom \<lparr>join_room_id = of_nat (xs ! 1)\<rparr>
      else if hd xs = 3 then PublishStream \<lparr>pub_room_id = of_nat (xs ! 1), pub_stream_id = of_nat (xs ! 2),
          pub_codec = number_codec (xs ! 3), pub_media_kind = number_kind (xs ! 4)\<rparr>
      else SubscribeStream \<lparr>sub_room_id = of_nat (xs ! 1), sub_stream_id = of_nat (xs ! 2)\<rparr>)"

definition reply_fields :: "server_control \<Rightarrow> nat list option" where
  "reply_fields m =
     (case m of
        HelloAccepted h \<Rightarrow> Some (0 # unat (ha_protocol_version h) # unat (ha_user_id h) #
          length (ha_server_name h) # ha_server_name h @ ha_display_name h)
      | RoomCreated c \<Rightarrow> Some (1 # unat (created_room_id c) # created_name c)
      | RoomJoined j \<Rightarrow> Some [2, unat (joined_room_id j), unat (joined_participant_count j)]
      | StreamPublished p \<Rightarrow> Some [3, unat (sp_room_id p), unat (sp_stream_id p)]
      | StreamSubscribed s \<Rightarrow> Some [4, unat (ss_room_id s), unat (ss_stream_id s)]
      | _ \<Rightarrow> None)"

definition fields_reply :: "nat list \<Rightarrow> server_control" where
  "fields_reply xs =
     (if hd xs = 0 then HelloAccepted \<lparr>ha_protocol_version = of_nat (xs ! 1),
          ha_server_name = take (xs ! 3) (drop 4 xs), ha_user_id = of_nat (xs ! 2),
          ha_display_name = drop (xs ! 3) (drop 4 xs)\<rparr>
      else if hd xs = 1 then RoomCreated \<lparr>created_room_id = of_nat (xs ! 1), created_name = drop 2 xs\<rparr>
      else if hd xs = 2 then RoomJoined \<lparr>joined_room_id = of_nat (xs ! 1), joined_participant_count = of_nat (xs ! 2)\<rparr>
      else if hd xs = 3 then StreamPublished \<lparr>sp_room_id = of_nat (xs ! 1), sp_stream_id = of_nat (xs ! 2)\<rparr>
      else StreamSubscribed \<lparr>ss_room_id = of_nat (xs ! 1), ss_stream_id = of_nat (xs ! 2)\<rparr>)"

lemma fields_inverse:
  "request_fields m = Some xs \<Longrightarrow> fields_request xs = m"
  "reply_fields r = Some xs \<Longrightarrow> fields_reply xs = r"
  by (auto simp: request_fields_def fields_request_def split: client_control.splits)
    (auto simp: reply_fields_def fields_reply_def simp del: drop_drop split: server_control.splits)

section \<open>The code\<close>

definition unary_write :: "('m \<Rightarrow> nat list option) \<Rightarrow> 'm control_envelope \<Rightarrow> unit + bytes" where
  "unary_write code e =
     (case code (env_message e) of
        None \<Rightarrow> Inl ()
      | Some xs \<Rightarrow> Inr (123 # replicate (list_encode
          (unat (env_protocol_version e) # unat (env_request_id e) # xs)) 48 @ [125]))"

definition unary_read :: "(nat list \<Rightarrow> 'm) \<Rightarrow> bytes \<Rightarrow> unit + 'm control_envelope" where
  "unary_read message bs =
     (let xs = list_decode (length bs - 2) in
      Inr \<lparr>env_protocol_version = of_nat (xs ! 0), env_request_id = of_nat (xs ! 1), env_message = message (drop 2 xs)\<rparr>)"

lemma unary_codec:
  assumes "\<And>m xs. code m = Some xs \<Longrightarrow> message xs = m"
  shows "json_codec (unary_write code) (unary_read message)"
  unfolding json_codec_def
proof (intro allI impI conjI)
  fix e :: "'a control_envelope" and bs assume "unary_write code e = Inr bs"
  then obtain xs where xs: "code (env_message e) = Some xs"
    "bs = 123 # replicate (list_encode (unat (env_protocol_version e) # unat (env_request_id e) # xs)) 48 @ [125]"
    by (auto simp: unary_write_def split: option.splits)
  then show "\<exists>mid. bs = [123] @ mid @ [125]" by simp
  have "length bs - 2 = list_encode (unat (env_protocol_version e) # unat (env_request_id e) # xs)"
    unfolding xs(2) by (simp del: list_encode.simps)
  then show "unary_read message bs = Inr e"
    using assms [OF xs(1)] by (simp add: unary_read_def del: list_encode.simps)
qed

end
