(* ===== verification/Load_Test.thy ===== *)
theory Load_Test
  imports Router Le_Bytes Client_Io
begin

text \<open>
  The load test \<open>crates/load-test/src/main.rs\<close>: the synthetic fan-out and the forwarding of sample
  frames, which run the relay's fan-out in the process itself, and their two variants over QUIC.
  There the endpoints, the connections and the wait of two seconds for a datagram are a
  parameter, the record \<open>load_env\<close>. What is printed and logged is left out.
\<close>

section \<open>Arguments\<close>

datatype load_mode = FanoutMode | SampleForwardMode | QuicSampleForwardMode | QuicChannelMediaMode

record load_args =
  la_mode :: load_mode
  la_publishers :: u16
  la_viewers :: u16
  la_packets :: u32
  la_media_duration_ms :: u16
  la_max_payload :: nat
  la_include_slow_viewer :: bool

definition default_load_args :: load_args where
  "default_load_args =
     \<lparr>la_mode = FanoutMode, la_publishers = 1, la_viewers = 10, la_packets = 120,
      la_media_duration_ms = 20, la_max_payload = DEFAULT_DATAGRAM_PAYLOAD_TARGET,
      la_include_slow_viewer = False\<rparr>"

text \<open>The ranges \<open>1..=viewers\<close> and \<open>1..viewers\<close>.\<close>

definition all_viewers :: "load_args \<Rightarrow> user_id list" where
  "all_viewers a = map of_nat [1..<Suc (unat (la_viewers a))]"

definition all_but_last :: "load_args \<Rightarrow> user_id list" where
  "all_but_last a = map of_nat [1..<unat (la_viewers a)]"

section \<open>Synthetic media\<close>

definition sample_h264_frame :: "u32 \<Rightarrow> encoded_frame" where
  "sample_h264_frame frame_id =
     \<lparr>f_room_stream_id = 1, f_frame_id = frame_id, f_media_timestamp = ucast frame_id * 3000,
      f_sender_capture_time_micros = ucast frame_id * 33333, f_sender_clock_offset_micros = 0,
      f_sender_encode_done_time_micros = 0, f_sender_send_time_micros = 0,
      f_server_receive_time_micros = 0, f_server_send_time_micros = 0, f_codec = H264,
      f_is_keyframe = (frame_id = 1),
      f_bytes = [0, 0, 0, 1, 103, 66, 0, 31] @ [0, 0, 0, 1, 104, 206, 6, 226] @ [0, 0, 0, 1, 101] @
        map (\<lambda>idx. ucast (frame_id + of_nat idx)) [0..<4096]\<rparr>"

definition sample_opus_frame :: "u32 \<Rightarrow> encoded_frame" where
  "sample_opus_frame frame_id =
     \<lparr>f_room_stream_id = 2, f_frame_id = frame_id, f_media_timestamp = ucast frame_id * 960,
      f_sender_capture_time_micros = ucast frame_id * 20000, f_sender_clock_offset_micros = 0,
      f_sender_encode_done_time_micros = 0, f_sender_send_time_micros = 0,
      f_server_receive_time_micros = 0, f_server_send_time_micros = 0, f_codec = Opus,
      f_is_keyframe = False,
      f_bytes = [84, 86, 79, 49] @ to_le 4 frame_id @ to_le 4 (48000 :: u32) @ to_le 2 (1 :: u16) @
        to_le 2 (960 :: u16) @ to_le 8 (ucast frame_id * 20000 :: u64) @
        map (\<lambda>idx. ucast (frame_id * 13 + of_nat idx)) [0..<256]\<rparr>"

definition synthetic_payload :: bytes where
  "synthetic_payload = map of_nat (lit ''synthetic-stage2-payload'')"

definition synthetic_packet :: "u32 \<Rightarrow> u32 \<Rightarrow> u32 \<Rightarrow> media_packet" where
  "synthetic_packet stream_id sequence_number frame_id =
     \<lparr>p_header =
        (header_new Video H264 stream_id sequence_number (of_nat (length synthetic_payload)))
          \<lparr>h_frame_id := frame_id, h_flags := flags_with flags_empty END_OF_FRAME\<rparr>,
      p_payload = synthetic_payload\<rparr>"

section \<open>Queues of the fan-out\<close>

text \<open>\<open>fanout.viewer_queue_mut(viewer).and_then(|queue| queue.drain_one())\<close>.\<close>

definition drain_viewer :: "user_id \<Rightarrow> stream_fanout \<Rightarrow> media_packet option \<times> stream_fanout" where
  "drain_viewer viewer f =
     (case viewer_queue_of viewer f of
        None \<Rightarrow> (None, f)
      | Some queue \<Rightarrow>
          (fst (vq_drain_one queue),
           f\<lparr>fo_viewers := bt_insert viewer (snd (vq_drain_one queue)) (fo_viewers f)\<rparr>))"

section \<open>Synthetic fan-out\<close>

record synthetic_fanout_result =
  sf_total_delivered :: u64
  sf_total_dropped :: u64
  sf_slow_viewer_dropped :: u64

definition fanout_budget :: "load_args \<Rightarrow> user_id \<Rightarrow> u16" where
  "fanout_budget a viewer =
     (if la_include_slow_viewer a \<and> viewer = ucast (la_viewers a) then la_media_duration_ms a
      else sat_mul (la_media_duration_ms a) 10)"

definition fanout_round ::
  "load_args \<Rightarrow> u32 \<Rightarrow> nat \<Rightarrow> synthetic_fanout_result \<times> stream_fanout \<Rightarrow>
   synthetic_fanout_result \<times> stream_fanout" where
  "fanout_round a stream_id packet_index = (\<lambda>(result, f).
     let f = fold (\<lambda>viewer f. snd (drain_viewer viewer f)) (all_but_last a) f;
         number = of_nat packet_index + 1;
         (summary, f) = fanout (synthetic_packet stream_id number number) (la_media_duration_ms a) f;
         result = result\<lparr>
           sf_total_delivered := sf_total_delivered result + of_nat (card (fs_delivered_to summary)),
           sf_total_dropped := sf_total_dropped result + of_nat (card (fs_dropped_for summary))\<rparr>;
         result =
           (if la_include_slow_viewer a \<and> ucast (la_viewers a) \<in> fs_dropped_for summary
            then result\<lparr>sf_slow_viewer_dropped := sf_slow_viewer_dropped result + 1\<rparr> else result)
     in (result, f))"

definition fanout_publisher ::
  "load_args \<Rightarrow> nat \<Rightarrow> synthetic_fanout_result \<Rightarrow> synthetic_fanout_result" where
  "fanout_publisher a publisher_index result =
     (let stream_id = of_nat publisher_index + 1;
          f = fold (\<lambda>viewer f. add_viewer viewer (fanout_budget a viewer) f) (all_viewers a)
                (fanout_new stream_id)
      in fst (fold (fanout_round a stream_id) [0..<unat (la_packets a)] (result, f)))"

definition run_synthetic_fanout :: "load_args \<Rightarrow> synthetic_fanout_result" where
  "run_synthetic_fanout a =
     fold (fanout_publisher a) [0..<unat (la_publishers a)]
       \<lparr>sf_total_delivered = 0, sf_total_dropped = 0, sf_slow_viewer_dropped = 0\<rparr>"

section \<open>Forwarding sample frames\<close>

text \<open>
  The errors: a message of the load test or of a connection, an unexpected reply, an error of the
  protocol's functions, or a panic. \<open>'j\<close> is the error of the JSON codec.
\<close>

datatype 'j load_error =
    LoadFailed rstring
  | LoadUnexpected server_control
  | LoadPacketize frame_packetize_error
  | LoadReassemble frame_reassembly_error
  | LoadEncode packet_encode_error
  | LoadDecode packet_decode_error
  | LoadControl "'j control_codec_error"
  | LoadPanicked

definition fault_of :: "('e \<Rightarrow> 'j load_error) \<Rightarrow> 'e fault + 'a \<Rightarrow> 'j load_error + 'a" where
  "fault_of f r = map_err (\<lambda>e. case e of Panic \<Rightarrow> LoadPanicked | Err e \<Rightarrow> f e) r"

record sample_forward_result =
  sr_frames :: u32
  sr_fragments :: u64
  sr_reassembled_frames :: u64
  sr_total_delivered :: u64
  sr_total_dropped :: u64

definition sample_forward_default :: sample_forward_result where
  "sample_forward_default =
     \<lparr>sr_frames = 0, sr_fragments = 0, sr_reassembled_frames = 0, sr_total_delivered = 0,
      sr_total_dropped = 0\<rparr>"

text \<open>\<open>while ... drain_one().is_some() {}\<close>\<close>

definition queue_length :: "user_id \<Rightarrow> stream_fanout \<Rightarrow> nat" where
  "queue_length viewer f =
     (case viewer_queue_of viewer f of None \<Rightarrow> 0 | Some queue \<Rightarrow> length (vq_queued_packets queue))"

lemma queue_length_drain:
  "fst (drain_viewer viewer f) = Some packet \<Longrightarrow>
   queue_length viewer (snd (drain_viewer viewer f)) < queue_length viewer f"
  by (auto simp: drain_viewer_def queue_length_def viewer_queue_of_def vq_drain_one_def
      split: option.splits list.splits)

function drain_all :: "user_id \<Rightarrow> stream_fanout \<Rightarrow> stream_fanout" where
  "drain_all viewer f =
     (case fst (drain_viewer viewer f) of
        None \<Rightarrow> snd (drain_viewer viewer f)
      | Some _ \<Rightarrow> drain_all viewer (snd (drain_viewer viewer f)))"
  by pat_completeness auto
termination
  by (relation "measure (\<lambda>(viewer, f). queue_length viewer f)") (auto intro: queue_length_drain)

declare drain_all.simps [simp del]

definition forward_packet ::
  "load_args \<Rightarrow> media_packet \<Rightarrow> sample_forward_result \<times> stream_fanout \<times> media_packet list \<Rightarrow>
   sample_forward_result \<times> stream_fanout \<times> media_packet list"
where
  "forward_packet a packet = (\<lambda>(result, f, first_viewer_packets).
     let (summary, f) = fanout packet (la_media_duration_ms a) f in
     (result\<lparr>
        sr_total_delivered := sr_total_delivered result + of_nat (card (fs_delivered_to summary)),
        sr_total_dropped := sr_total_dropped result + of_nat (card (fs_dropped_for summary))\<rparr>,
      f,
      if 1 \<in> fs_delivered_to summary then first_viewer_packets @ [packet] else first_viewer_packets))"

definition frame_differs :: "string \<Rightarrow> u32 \<Rightarrow> 'j load_error" where
  "frame_differs what frame_id = LoadFailed (lit what @ dec (unat frame_id))"

definition forward_frame ::
  "load_args \<Rightarrow> nat \<Rightarrow> sample_forward_result \<times> stream_fanout \<Rightarrow>
   'j load_error + sample_forward_result \<times> stream_fanout"
where
  "forward_frame a frame_index = (\<lambda>(result, f).
     let f = fold drain_all (all_viewers a) f;
         frame = sample_h264_frame (of_nat frame_index + 1)
     in and_then (fault_of LoadPacketize
          (packetize_frame frame (sat_mul (of_nat frame_index) 100) (la_max_payload a))) (\<lambda>packets.
        let result = result\<lparr>sr_frames := sr_frames result + 1,
              sr_fragments := sr_fragments result + of_nat (length packets)\<rparr>;
            (result, f, first_viewer_packets) = fold (forward_packet a) packets (result, f, [])
        in and_then (map_err LoadReassemble (reassemble_frame first_viewer_packets)) (\<lambda>reassembled.
           if f_bytes reassembled \<noteq> f_bytes frame
           then Inl (frame_differs ''reassembled frame bytes differ for frame '' (f_frame_id frame))
           else Inr (result\<lparr>sr_reassembled_frames := sr_reassembled_frames result + 1\<rparr>, f))))"

fun forward_frames ::
  "load_args \<Rightarrow> nat list \<Rightarrow> sample_forward_result \<times> stream_fanout \<Rightarrow>
   'j load_error + sample_forward_result"
where
  "forward_frames a [] (result, f) = Inr result"
| "forward_frames a (frame_index # rest) (result, f) =
     and_then (forward_frame a frame_index (result, f)) (forward_frames a rest)"

definition run_sample_forward :: "load_args \<Rightarrow> 'j load_error + sample_forward_result" where
  "run_sample_forward a =
     (let f = fold (\<lambda>viewer f. add_viewer viewer (sat_mul (la_media_duration_ms a) 10) f) (all_viewers a)
            (fanout_new 1)
      in forward_frames a [0..<unat (la_packets a)] (sample_forward_default, f))"

end
