(* ===== verification/Load_Quic.thy ===== *)
theory Load_Quic
  imports Load_Test
begin

text \<open>
  The load test over QUIC: a publisher and viewers connect to a relay that runs in the same process,
  set up a room by control requests, and send and receive frames as datagrams. Parameters, in the
  record \<open>load_env\<close>: the endpoints and connections, with \<open>'c\<close> for a connection and \<open>'w\<close> for the
  world, and the JSON codec with errors \<open>'j\<close>. A refused request is not noticed here, as in the code:
  only the reply to the creation of the room is looked at.
\<close>

section \<open>The environment\<close>

text \<open>
  \<open>le_serve\<close> builds the server endpoint and serves it; \<open>le_endpoint\<close> builds a client endpoint and
  \<open>le_connect\<close> connects it; \<open>le_exchange\<close> writes a request on a stream of its own and reads the
  reply, of at most 64 KiB; \<open>le_send\<close> sends a datagram; \<open>le_read\<close> waits for one for two seconds
  (\<open>None\<close> when none comes); \<open>le_close\<close> closes a connection and \<open>le_stop\<close> drops the endpoints and
  aborts the relay.
\<close>

record ('c, 'j, 'w) load_env =
  le_serve :: "(rstring, unit, 'w) effect"
  le_endpoint :: "(rstring, unit, 'w) effect"
  le_connect :: "(rstring, 'c, 'w) effect"
  le_exchange :: "'c \<Rightarrow> bytes \<Rightarrow> (rstring, bytes, 'w) effect"
  le_send :: "'c \<Rightarrow> bytes \<Rightarrow> (rstring, unit, 'w) effect"
  le_read :: "'c \<Rightarrow> 'w \<Rightarrow> (rstring + bytes) option \<times> 'w"
  le_close :: "'c \<Rightarrow> 'w \<Rightarrow> 'w"
  le_stop :: "'w \<Rightarrow> 'w"
  le_encode :: "client_envelope \<Rightarrow> 'j + bytes"
  le_decode :: "bytes \<Rightarrow> 'j + server_envelope"

type_synonym ('a, 'j, 'w) load_io = "('j load_error, 'a, 'w) effect"

definition of_result :: "'e + 'a \<Rightarrow> ('e, 'a, 'w) effect" where
  "of_result r = (case r of Inl e \<Rightarrow> io_fail e | Inr a \<Rightarrow> io_return a)"

definition of_world :: "(rstring, 'a, 'w) effect \<Rightarrow> ('a, 'j, 'w) load_io" where
  "of_world m w = (let (r, w) = m w in (map_err LoadFailed r, w))"

section \<open>Requests\<close>

definition send_control_request ::
  "('c, 'j, 'w) load_env \<Rightarrow> 'c \<Rightarrow> client_envelope \<Rightarrow> (server_envelope, 'j, 'w) load_io" where
  "send_control_request env connection request =
     io_bind (of_result (map_err LoadControl (encode_envelope (le_encode env) request))) (\<lambda>bytes.
     io_bind (of_world (le_exchange env connection bytes)) (\<lambda>response_bytes.
     of_result (map_err LoadControl (decode_envelope (le_decode env) response_bytes))))"

definition load_hello ::
  "('c, 'j, 'w) load_env \<Rightarrow> 'c \<Rightarrow> rstring \<Rightarrow> (server_envelope, 'j, 'w) load_io" where
  "load_hello env connection client_name =
     send_control_request env connection (envelope_new 1
       (Hello \<lparr>hello_protocol_version = PROTOCOL_VERSION, hello_client_name = client_name\<rparr>))"

definition load_create_room ::
  "('c, 'j, 'w) load_env \<Rightarrow> 'c \<Rightarrow> rstring \<Rightarrow> (room_id, 'j, 'w) load_io" where
  "load_create_room env publisher room_name =
     io_bind (send_control_request env publisher (envelope_new 2 (CreateRoom \<lparr>create_name = room_name\<rparr>)))
       (\<lambda>created. case env_message created of
          RoomCreated room \<Rightarrow> io_return (created_room_id room)
        | other \<Rightarrow> io_fail (LoadUnexpected other))"

definition load_join ::
  "('c, 'j, 'w) load_env \<Rightarrow> 'c \<Rightarrow> request_id \<Rightarrow> room_id \<Rightarrow> (server_envelope, 'j, 'w) load_io" where
  "load_join env connection request_id room_id =
     send_control_request env connection (envelope_new request_id (JoinRoom \<lparr>join_room_id = room_id\<rparr>))"

definition load_publish ::
  "('c, 'j, 'w) load_env \<Rightarrow> 'c \<Rightarrow> request_id \<Rightarrow> room_id \<Rightarrow> stream_id \<Rightarrow> codec_id \<Rightarrow> media_kind \<Rightarrow>
   (server_envelope, 'j, 'w) load_io"
where
  "load_publish env connection request_id room_id stream_id codec kind =
     send_control_request env connection (envelope_new request_id (PublishStream
       \<lparr>pub_room_id = room_id, pub_stream_id = stream_id, pub_codec = codec, pub_media_kind = kind\<rparr>))"

definition load_configure ::
  "('c, 'j, 'w) load_env \<Rightarrow> 'c \<Rightarrow> request_id \<Rightarrow> stream_config \<Rightarrow> (server_envelope, 'j, 'w) load_io" where
  "load_configure env connection request_id config =
     send_control_request env connection (envelope_new request_id (SetStreamConfig config))"

definition load_subscribe ::
  "('c, 'j, 'w) load_env \<Rightarrow> 'c \<Rightarrow> request_id \<Rightarrow> room_id \<Rightarrow> stream_id \<Rightarrow>
   (server_envelope, 'j, 'w) load_io"
where
  "load_subscribe env connection request_id room_id stream_id =
     send_control_request env connection (envelope_new request_id (SubscribeStream
       \<lparr>sub_room_id = room_id, sub_stream_id = stream_id\<rparr>))"

definition publish_channel_streams ::
  "('c, 'j, 'w) load_env \<Rightarrow> 'c \<Rightarrow> room_id \<Rightarrow> (unit, 'j, 'w) load_io" where
  "publish_channel_streams env connection room_id =
     io_then (load_publish env connection 4 room_id 1 H264 Screen)
     (io_then (load_configure env connection 5
        \<lparr>sc_room_id = room_id, sc_stream_id = 1, sc_codec = H264, sc_width = 1280, sc_height = 720,
         sc_frames_per_second = 30, sc_timebase_hz = 90000\<rparr>)
     (io_then (load_publish env connection 6 room_id 2 Opus Voice)
     (io_then (load_configure env connection 7
        \<lparr>sc_room_id = room_id, sc_stream_id = 2, sc_codec = Opus, sc_width = 0, sc_height = 0,
         sc_frames_per_second = 50, sc_timebase_hz = 48000\<rparr>)
     (io_return ()))))"

definition subscribe_channel_streams ::
  "('c, 'j, 'w) load_env \<Rightarrow> 'c \<Rightarrow> room_id \<Rightarrow> (unit, 'j, 'w) load_io" where
  "subscribe_channel_streams env connection room_id =
     io_then (load_subscribe env connection 3 room_id 1)
     (io_then (load_subscribe env connection 4 room_id 2) (io_return ()))"

section \<open>Connecting\<close>

definition open_connection :: "('c, 'j, 'w) load_env \<Rightarrow> ('c, 'j, 'w) load_io" where
  "open_connection env =
     io_then (of_world (le_endpoint env)) (of_world (le_connect env))"

definition connect_all :: "('c, 'j, 'w) load_env \<Rightarrow> load_args \<Rightarrow> ('c \<times> 'c list, 'j, 'w) load_io" where
  "connect_all env a =
     io_then (of_world (le_serve env))
     (io_bind (open_connection env) (\<lambda>publisher.
      io_bind (io_each (\<lambda>_. open_connection env) [0..<unat (la_viewers a)]) (\<lambda>viewers.
      io_return (publisher, viewers))))"

definition finish :: "('c, 'j, 'w) load_env \<Rightarrow> 'c \<Rightarrow> 'c list \<Rightarrow> (unit, 'j, 'w) load_io" where
  "finish env publisher viewers w =
     (Inr (), le_stop env (fold (le_close env) (publisher # viewers) w))"

text \<open>Sending the packets of a frame and waiting for a datagram.\<close>

definition send_packet :: "('c, 'j, 'w) load_env \<Rightarrow> 'c \<Rightarrow> media_packet \<Rightarrow> (unit, 'j, 'w) load_io" where
  "send_packet env publisher packet =
     io_bind (of_result (map_err LoadEncode (packet_encode packet))) (\<lambda>bytes.
     of_world (le_send env publisher bytes))"

definition read_packet ::
  "('c, 'j, 'w) load_env \<Rightarrow> string \<Rightarrow> 'c \<Rightarrow> (media_packet, 'j, 'w) load_io" where
  "read_packet env late viewer =
     io_bind (of_world (\<lambda>w. let (r, w) = le_read env viewer w in
        (case r of None \<Rightarrow> Inl (lit late) | Some r \<Rightarrow> r, w))) (\<lambda>bytes.
     of_result (fault_of LoadDecode (packet_decode bytes)))"

section \<open>Forwarding sample frames\<close>

definition quic_sample_setup ::
  "('c, 'j, 'w) load_env \<Rightarrow> 'c \<Rightarrow> 'c list \<Rightarrow> (unit, 'j, 'w) load_io" where
  "quic_sample_setup env publisher viewers =
     io_then (load_hello env publisher (lit ''load-test-publisher''))
     (io_bind (load_create_room env publisher (lit ''load-test'')) (\<lambda>room_id.
      io_then (load_join env publisher 3 room_id)
     (io_then (load_publish env publisher 4 room_id 1 H264 Screen)
     (io_then (io_each (\<lambda>(index, viewer).
        io_then (load_hello env viewer (lit ''load-test-viewer-'' @ dec index))
        (io_then (load_join env viewer 2 room_id) (load_subscribe env viewer 3 room_id 1)))
        (enumerate 0 viewers))
     (io_return ())))))"

definition quic_viewer_frame ::
  "('c, 'j, 'w) load_env \<Rightarrow> encoded_frame \<Rightarrow> nat \<Rightarrow> 'c \<Rightarrow> sample_forward_result \<Rightarrow>
   (sample_forward_result, 'j, 'w) load_io"
where
  "quic_viewer_frame env frame packet_count viewer result =
     io_bind (io_each (\<lambda>_. read_packet env ''timed out waiting for forwarded datagram'' viewer)
       [0..<packet_count]) (\<lambda>received.
     io_bind (of_result (map_err LoadReassemble (reassemble_frame received))) (\<lambda>reassembled.
     if f_bytes reassembled \<noteq> f_bytes frame
     then io_fail (frame_differs ''QUIC reassembled frame bytes differ for frame '' (f_frame_id frame))
     else io_return (result\<lparr>
       sr_reassembled_frames := sr_reassembled_frames result + 1,
       sr_total_delivered := sr_total_delivered result + of_nat packet_count\<rparr>)))"

fun io_fold :: "('a \<Rightarrow> 'b \<Rightarrow> ('e, 'b, 'w) effect) \<Rightarrow> 'a list \<Rightarrow> 'b \<Rightarrow> ('e, 'b, 'w) effect" where
  "io_fold f [] b = io_return b"
| "io_fold f (x # xs) b = io_bind (f x b) (io_fold f xs)"

definition quic_sample_frame ::
  "('c, 'j, 'w) load_env \<Rightarrow> load_args \<Rightarrow> 'c \<Rightarrow> 'c list \<Rightarrow> nat \<Rightarrow> sample_forward_result \<Rightarrow>
   (sample_forward_result, 'j, 'w) load_io"
where
  "quic_sample_frame env a publisher viewers frame_index result =
     (let frame = sample_h264_frame (of_nat frame_index + 1) in
      io_bind (of_result (fault_of LoadPacketize
        (packetize_frame_for_datagram_target frame (sat_mul (of_nat frame_index) 100)
          (la_max_payload a)))) (\<lambda>packets.
      let result = result\<lparr>sr_frames := sr_frames result + 1,
            sr_fragments := sr_fragments result + of_nat (length packets)\<rparr> in
      io_then (io_each (send_packet env publisher) packets)
        (io_fold (quic_viewer_frame env frame (length packets)) viewers result)))"

definition run_quic_sample_forward ::
  "('c, 'j, 'w) load_env \<Rightarrow> load_args \<Rightarrow> (sample_forward_result, 'j, 'w) load_io" where
  "run_quic_sample_forward env a =
     io_bind (connect_all env a) (\<lambda>(publisher, viewers).
     io_then (quic_sample_setup env publisher viewers)
     (io_bind (io_fold (quic_sample_frame env a publisher viewers) [0..<unat (la_packets a)]
        sample_forward_default) (\<lambda>result.
      io_then (finish env publisher viewers) (io_return result))))"

section \<open>Screen and voice of a channel\<close>

record channel_media_result =
  cr_screen_frames :: u32
  cr_voice_frames :: u32
  cr_screen_fragments :: u64
  cr_voice_fragments :: u64
  cr_screen_reassembled_frames :: u64
  cr_voice_reassembled_frames :: u64
  cr_total_delivered :: u64
  cr_total_dropped :: u64

definition channel_media_default :: channel_media_result where
  "channel_media_default =
     \<lparr>cr_screen_frames = 0, cr_voice_frames = 0, cr_screen_fragments = 0, cr_voice_fragments = 0,
      cr_screen_reassembled_frames = 0, cr_voice_reassembled_frames = 0, cr_total_delivered = 0,
      cr_total_dropped = 0\<rparr>"

definition channel_setup ::
  "('c, 'j, 'w) load_env \<Rightarrow> 'c \<Rightarrow> 'c list \<Rightarrow> (unit, 'j, 'w) load_io" where
  "channel_setup env publisher viewers =
     io_then (load_hello env publisher (lit ''load-test-channel-publisher''))
     (io_bind (load_create_room env publisher (lit ''load-test-channel'')) (\<lambda>room_id.
      io_then (load_join env publisher 3 room_id)
     (io_then (publish_channel_streams env publisher room_id)
     (io_then (io_each (\<lambda>(index, viewer).
        io_then (load_hello env viewer (lit ''load-test-channel-viewer-'' @ dec index))
        (io_then (load_join env viewer 2 room_id) (subscribe_channel_streams env viewer room_id)))
        (enumerate 0 viewers))
     (io_return ())))))"

definition unexpected_packet :: "media_packet \<Rightarrow> 'j load_error" where
  "unexpected_packet packet =
     LoadFailed (lit ''unexpected channel media packet stream_id='' @
       dec (unat (h_room_stream_id (p_header packet))) @ lit '' packet_type='' @
       lit (case h_packet_type (p_header packet) of
          Video \<Rightarrow> ''Video'' | Audio \<Rightarrow> ''Audio'' | Probe \<Rightarrow> ''Probe''))"

text \<open>\<open>missing\<close> packets are still expected: every packet read goes to one of the two lists.\<close>

fun receive_channel_packets ::
  "('c, 'j, 'w) load_env \<Rightarrow> 'c \<Rightarrow> nat \<Rightarrow> media_packet list \<times> media_packet list \<Rightarrow>
   (media_packet list \<times> media_packet list, 'j, 'w) load_io"
where
  "receive_channel_packets env viewer 0 packets = io_return packets"
| "receive_channel_packets env viewer (Suc missing) (screen_packets, voice_packets) =
     io_bind (read_packet env ''timed out waiting for forwarded channel datagram'' viewer) (\<lambda>packet.
     let stream_id = h_room_stream_id (p_header packet); packet_type = h_packet_type (p_header packet) in
     if stream_id = 1 \<and> packet_type = Video
     then receive_channel_packets env viewer missing (screen_packets @ [packet], voice_packets)
     else if stream_id = 2 \<and> packet_type = Audio
     then receive_channel_packets env viewer missing (screen_packets, voice_packets @ [packet])
     else io_fail (unexpected_packet packet))"

definition receive_channel_frame_packets ::
  "('c, 'j, 'w) load_env \<Rightarrow> 'c \<Rightarrow> nat \<Rightarrow> nat \<Rightarrow> (media_packet list \<times> media_packet list, 'j, 'w) load_io"
where
  "receive_channel_frame_packets env viewer expected_screen_packets expected_voice_packets =
     receive_channel_packets env viewer (expected_screen_packets + expected_voice_packets) ([], [])"

definition codec_text :: "codec_id \<Rightarrow> string" where
  "codec_text codec =
     (case codec of H264 \<Rightarrow> ''H264'' | Av1 \<Rightarrow> ''Av1'' | Hevc \<Rightarrow> ''Hevc'' | Opus \<Rightarrow> ''Opus'')"

definition channel_viewer_frame ::
  "('c, 'j, 'w) load_env \<Rightarrow> encoded_frame \<Rightarrow> encoded_frame \<Rightarrow> nat \<Rightarrow> nat \<Rightarrow> 'c \<Rightarrow>
   channel_media_result \<Rightarrow> (channel_media_result, 'j, 'w) load_io"
where
  "channel_viewer_frame env screen_frame voice_frame screen_count voice_count viewer result =
     io_bind (receive_channel_frame_packets env viewer screen_count voice_count)
       (\<lambda>(received_screen, received_voice).
     io_bind (of_result (map_err LoadReassemble (reassemble_frame received_screen))) (\<lambda>screen.
     io_bind (of_result (map_err LoadReassemble (reassemble_frame received_voice))) (\<lambda>voice.
     if f_bytes screen \<noteq> f_bytes screen_frame
     then io_fail (frame_differs ''screen frame bytes differ for frame '' (f_frame_id screen_frame))
     else if f_bytes voice \<noteq> f_bytes voice_frame
     then io_fail (frame_differs ''voice frame bytes differ for frame '' (f_frame_id voice_frame))
     else if f_codec screen \<noteq> H264 \<or> f_codec voice \<noteq> Opus
     then io_fail (LoadFailed (lit ''unexpected codecs after reassembly: screen='' @
            lit (codec_text (f_codec screen)) @ lit '' voice='' @ lit (codec_text (f_codec voice))))
     else io_return (result\<lparr>
       cr_screen_reassembled_frames := cr_screen_reassembled_frames result + 1,
       cr_voice_reassembled_frames := cr_voice_reassembled_frames result + 1,
       cr_total_delivered := cr_total_delivered result + of_nat (screen_count + voice_count)\<rparr>))))"

definition channel_frame ::
  "('c, 'j, 'w) load_env \<Rightarrow> load_args \<Rightarrow> 'c \<Rightarrow> 'c list \<Rightarrow> nat \<Rightarrow> channel_media_result \<times> u32 \<times> u32 \<Rightarrow>
   (channel_media_result \<times> u32 \<times> u32, 'j, 'w) load_io"
where
  "channel_frame env a publisher viewers frame_index = (\<lambda>(result, screen_sequence, voice_sequence).
     let screen_frame = sample_h264_frame (of_nat frame_index + 1);
         voice_frame = sample_opus_frame (of_nat frame_index + 1) in
     io_bind (of_result (fault_of LoadPacketize
       (packetize_frame_for_datagram_target screen_frame screen_sequence (la_max_payload a))))
       (\<lambda>screen_packets.
     io_bind (of_result (fault_of LoadPacketize
       (packetize_frame_with_type_for_datagram_target voice_frame Audio voice_sequence
         (la_max_payload a)))) (\<lambda>voice_packets.
     let screen_sequence = screen_sequence + of_nat (length screen_packets);
         voice_sequence = voice_sequence + of_nat (length voice_packets);
         result = result\<lparr>
           cr_screen_frames := cr_screen_frames result + 1,
           cr_voice_frames := cr_voice_frames result + 1,
           cr_screen_fragments := cr_screen_fragments result + of_nat (length screen_packets),
           cr_voice_fragments := cr_voice_fragments result + of_nat (length voice_packets)\<rparr> in
     io_then (io_each (send_packet env publisher) (screen_packets @ voice_packets))
     (io_bind (io_fold (channel_viewer_frame env screen_frame voice_frame (length screen_packets)
         (length voice_packets)) viewers result) (\<lambda>result.
      io_return (result, screen_sequence, voice_sequence))))))"

definition run_quic_channel_media ::
  "('c, 'j, 'w) load_env \<Rightarrow> load_args \<Rightarrow> (channel_media_result, 'j, 'w) load_io" where
  "run_quic_channel_media env a =
     io_bind (connect_all env a) (\<lambda>(publisher, viewers).
     io_then (channel_setup env publisher viewers)
     (io_bind (io_fold (channel_frame env a publisher viewers) [0..<unat (la_packets a)]
        (channel_media_default, 1, 10000)) (\<lambda>(result, _).
      io_then (finish env publisher viewers) (io_return result))))"

section \<open>The program\<close>

datatype load_result =
    FanoutResult synthetic_fanout_result
  | ForwardResult sample_forward_result
  | ChannelResult channel_media_result

definition load_main :: "('c, 'j, 'w) load_env \<Rightarrow> load_args \<Rightarrow> (load_result, 'j, 'w) load_io" where
  "load_main env a =
     (case la_mode a of
        FanoutMode \<Rightarrow> io_return (FanoutResult (run_synthetic_fanout a))
      | SampleForwardMode \<Rightarrow>
          io_bind (of_result (run_sample_forward a)) (\<lambda>result. io_return (ForwardResult result))
      | QuicSampleForwardMode \<Rightarrow>
          io_bind (run_quic_sample_forward env a) (\<lambda>result. io_return (ForwardResult result))
      | QuicChannelMediaMode \<Rightarrow>
          io_bind (run_quic_channel_media env a) (\<lambda>result. io_return (ChannelResult result)))"

end
