(* ===== verification/Load_Props.thy ===== *)
theory Load_Props
  imports Load_Test
begin

text \<open>
  What the load test counts. The queues of its fan-out all receive packets of one media duration;
  \<open>filled d c i q\<close> says that \<open>i\<close> of them were offered to \<open>q\<close> since it was empty, \<open>loaded\<close> says it of
  every viewer of a fan-out.
\<close>

section \<open>A queue that fills\<close>

text \<open>With a budget of \<open>c\<close> packets that saturates, or packets of no duration, a queue is never full.\<close>

definition unlimited :: "u16 \<Rightarrow> u16 \<Rightarrow> bool" where
  "unlimited d c \<longleftrightarrow> d = 0 \<or> 65535 \<le> unat d * unat c"

definition has_room :: "u16 \<Rightarrow> u16 \<Rightarrow> nat \<Rightarrow> bool" where
  "has_room d c i \<longleftrightarrow> unlimited d c \<or> i < unat c"

definition taken :: "u16 \<Rightarrow> u16 \<Rightarrow> nat \<Rightarrow> nat" where
  "taken d c i = (if unlimited d c then i else min i (unat c))"

definition filled :: "u16 \<Rightarrow> u16 \<Rightarrow> nat \<Rightarrow> viewer_queue \<Rightarrow> bool" where
  "filled d c i q \<longleftrightarrow>
     vq_queue_budget_ms q = sat_mul d c \<and>
     map qp_media_duration_ms (vq_queued_packets q) = replicate (taken d c i) d \<and>
     unat (vq_queued_media_ms q) = min 65535 (taken d c i * unat d)"

lemma taken_simps [simp]:
  "taken d c 0 = 0" "taken d c (Suc i) = (if has_room d c i then Suc (taken d c i) else taken d c i)"
  by (auto simp: taken_def has_room_def)

lemma filled_new: "filled d c 0 (viewer_queue_new v (sat_mul d c))"
  by (simp add: filled_def viewer_queue_new_def)

lemma room_iff:
  "min (min 65535 (taken d c i * unat d) + unat d) 65535 \<le> min (unat d * unat c) 65535 \<longleftrightarrow> has_room d c i"
proof (cases "unlimited d c")
  case True
  then show ?thesis by (auto simp: unlimited_def has_room_def taken_def)
next
  case False
  then have d: "0 < unat d" and c: "unat d * unat c < 65535"
    by (auto simp: unlimited_def unat_gt_0)
  have "taken d c i * unat d \<le> unat c * unat d" using False by (simp add: taken_def)
  moreover have "unat c * unat d < 65535" using c by (simp add: mult.commute)
  ultimately have "taken d c i * unat d < 65535" by (rule le_less_trans)
  then have "min (min 65535 (taken d c i * unat d) + unat d) 65535 \<le> min (unat d * unat c) 65535 \<longleftrightarrow>
      Suc (taken d c i) * unat d \<le> unat c * unat d"
    using c by (auto simp: mult.commute)
  also have "\<dots> \<longleftrightarrow> Suc (taken d c i) \<le> unat c"
    by (simp only: mult_le_cancel2 d simp_thms)
  also have "\<dots> \<longleftrightarrow> i < unat c" using False by (auto simp: taken_def)
  finally show ?thesis using False by (simp add: has_room_def)
qed

lemma filled_decision:
  assumes "filled d c i q"
  shows "fst (vq_enqueue p d q) = (if has_room d c i then Enqueue else DropForViewer)"
proof -
  have "sat_add (vq_queued_media_ms q) d \<le> vq_queue_budget_ms q \<longleftrightarrow> has_room d c i"
    using assms room_iff [of d c i] by (simp add: filled_def word_le_nat_alt word_nat)
  then show ?thesis by (simp add: vq_enqueue_decision)
qed

lemma filled_enqueue:
  assumes "filled d c i q"
  shows "filled d c (Suc i) (snd (vq_enqueue p d q))"
  using assms filled_decision [OF assms, of p]
  by (auto simp: filled_def vq_enqueue_def Let_def word_nat replicate_append_same split: if_splits)

lemma filled_drain_one:
  assumes "filled d c 1 q \<or> filled d c 0 q" and "0 < unat c"
  shows "filled d c 0 (snd (vq_drain_one q))"
proof (cases "filled d c 0 q")
  case True
  then show ?thesis by (simp add: filled_def vq_drain_one_def)
next
  case False
  then have q: "filled d c (Suc 0) q" using assms(1) by simp
  moreover have "has_room d c 0" using assms(2) by (simp add: has_room_def)
  ultimately show ?thesis
    using unat_u16_less [of d]
    by (auto simp: filled_def vq_drain_one_def map_eq_Cons_conv unat_eq_0 [symmetric] word_nat)
qed

section \<open>The viewers of a fan-out\<close>

definition loaded ::
  "u16 \<Rightarrow> (user_id \<Rightarrow> u16) \<Rightarrow> (user_id \<Rightarrow> nat) \<Rightarrow> user_id set \<Rightarrow> stream_fanout \<Rightarrow> bool" where
  "loaded d C m A f \<longleftrightarrow>
     (\<forall>v. (v \<in> A \<longleftrightarrow> viewer_queue_of v f \<noteq> None) \<and>
        (\<forall>q. viewer_queue_of v f = Some q \<longrightarrow> filled d (C v) (m v) q))"

lemma loaded_fanout:
  assumes "loaded d C m A f"
  shows "fs_delivered_to (fst (fanout p d f)) = {v \<in> A. has_room d (C v) (m v)}"
    and "fs_dropped_for (fst (fanout p d f)) = {v \<in> A. \<not> has_room d (C v) (m v)}"
    and "loaded d C (\<lambda>v. Suc (m v)) A (snd (fanout p d f))"
proof -
  have A: "v \<in> A \<longleftrightarrow> (\<exists>q. viewer_queue_of v f = Some q)" for v
    using assms by (auto simp: loaded_def)
  have q: "filled d (C v) (m v) q" if "viewer_queue_of v f = Some q" for v q
    using assms that by (auto simp: loaded_def)
  show "fs_delivered_to (fst (fanout p d f)) = {v \<in> A. has_room d (C v) (m v)}"
    by (auto simp: fanout_sel A filled_decision [OF q] split: if_splits)
  show "fs_dropped_for (fst (fanout p d f)) = {v \<in> A. \<not> has_room d (C v) (m v)}"
    by (auto simp: fanout_sel A filled_decision [OF q] split: if_splits)
  show "loaded d C (\<lambda>v. Suc (m v)) A (snd (fanout p d f))"
    by (auto simp: loaded_def fanout_sel A q filled_enqueue)
qed

lemma loaded_add:
  assumes "distinct vs" and "\<And>v. v \<in> set vs \<Longrightarrow> viewer_queue_of v f = None"
    and "loaded d C (\<lambda>_. 0) A f"
  shows "loaded d C (\<lambda>_. 0) (A \<union> set vs) (fold (\<lambda>v f. add_viewer v (sat_mul d (C v)) f) vs f)"
  using assms
proof (induction vs arbitrary: f A)
  case (Cons v vs)
  have new: "viewer_queue_of w (add_viewer v (sat_mul d (C v)) f) =
      (if w = v then Some (viewer_queue_new v (sat_mul d (C v))) else viewer_queue_of w f)" for w
    using Cons.prems(2) [of v] by (auto simp: add_viewer_def viewer_queue_of_def split: option.split)
  have "loaded d C (\<lambda>_. 0) (insert v A) (add_viewer v (sat_mul d (C v)) f)"
    using Cons.prems(3) by (auto simp: loaded_def new filled_new)
  moreover have "viewer_queue_of w (add_viewer v (sat_mul d (C v)) f) = None" if "w \<in> set vs" for w
    using that Cons.prems(1,2) by (auto simp: new)
  ultimately show ?case
    using Cons.IH [of "add_viewer v (sat_mul d (C v)) f" "insert v A"] Cons.prems(1) by simp
qed simp

lemma loaded_start:
  "distinct vs \<Longrightarrow>
   loaded d C (\<lambda>_. 0) (set vs) (fold (\<lambda>v f. add_viewer v (sat_mul d (C v)) f) vs (fanout_new sid))"
  using loaded_add [of vs "fanout_new sid" d C "{}"]
  by (simp add: loaded_def fanout_new_def viewer_queue_of_def)

lemma drain_viewer_get:
  "viewer_queue_of w (snd (drain_viewer v f)) =
     (if w = v then map_option (\<lambda>q. snd (vq_drain_one q)) (viewer_queue_of v f) else viewer_queue_of w f)"
  by (auto simp: drain_viewer_def viewer_queue_of_def split: option.split)

text \<open>Draining one packet of each viewer of a list that was offered at most one.\<close>

lemma loaded_drain:
  assumes "distinct vs" and "loaded d C m A f" and "\<And>v. v \<in> set vs \<Longrightarrow> m v \<le> 1 \<and> 0 < unat (C v)"
  shows "loaded d C (\<lambda>v. if v \<in> set vs then 0 else m v) A (fold (\<lambda>v f. snd (drain_viewer v f)) vs f)"
  using assms
proof (induction vs arbitrary: f m)
  case (Cons v vs)
  have v: "m v = 1 \<or> m v = 0" "0 < unat (C v)" using Cons.prems(3) [of v] by auto
  have "filled d (C v) 0 (snd (vq_drain_one q))" if "viewer_queue_of v f = Some q" for q
  proof (rule filled_drain_one [OF _ v(2)])
    have "filled d (C v) (m v) q" using Cons.prems(2) that by (auto simp: loaded_def)
    with v(1) show "filled d (C v) 1 q \<or> filled d (C v) 0 q" by auto
  qed
  then have m: "loaded d C (m(v := 0)) A (snd (drain_viewer v f))"
    using Cons.prems(2) by (auto simp: loaded_def drain_viewer_get)
  have "distinct vs" using Cons.prems(1) by simp
  from Cons.IH [OF this m] Cons.prems(3)
  have "loaded d C (\<lambda>w. if w \<in> set vs then 0 else (m(v := 0)) w) A
      (fold (\<lambda>v f. snd (drain_viewer v f)) vs (snd (drain_viewer v f)))" by simp
  then have "loaded d C (\<lambda>w. if w \<in> set vs then 0 else (m(v := 0)) w) A
      (fold (\<lambda>v f. snd (drain_viewer v f)) (v # vs) f)" by simp
  moreover have "(\<lambda>w. if w \<in> set vs then 0 else (m(v := 0)) w) = (\<lambda>w. if w \<in> set (v # vs) then 0 else m w)"
    by auto
  ultimately show ?case by simp
qed simp

section \<open>The synthetic fan-out\<close>

lemma viewers_sets:
  "set (all_viewers a) = {v. 1 \<le> unat v \<and> unat v \<le> unat (la_viewers a)}"
  "set (all_but_last a) = {v. 1 \<le> unat v \<and> unat v < unat (la_viewers a)}"
  "distinct (all_viewers a)" "distinct (all_but_last a)" "length (all_viewers a) = unat (la_viewers a)"
proof -
  have small: "unat (of_nat i :: u64) = i" if "i \<le> unat (la_viewers a)" for i
    using that unat_u16_less [of "la_viewers a"] by (intro of_nat_unat_le) simp
  have range: "of_nat ` {1..<n} = {v :: u64. 1 \<le> unat v \<and> unat v < n}"
    if "n \<le> Suc (unat (la_viewers a))" for n
  proof (intro set_eqI iffI)
    fix v :: u64 assume "v \<in> of_nat ` {1..<n}"
    then obtain i where "v = of_nat i" "1 \<le> i" "i < n" by auto
    with that show "v \<in> {v. 1 \<le> unat v \<and> unat v < n}" by (simp add: small)
  next
    fix v :: u64 assume "v \<in> {v. 1 \<le> unat v \<and> unat v < n}"
    then have "unat v \<in> {1..<n}" by simp
    then have "of_nat (unat v) \<in> (of_nat ` {1..<n} :: u64 set)" by (rule imageI)
    then show "v \<in> of_nat ` {1..<n}" by simp
  qed
  show "set (all_viewers a) = {v. 1 \<le> unat v \<and> unat v \<le> unat (la_viewers a)}"
    using range [of "Suc (unat (la_viewers a))"]
    by (simp add: all_viewers_def less_Suc_eq_le del: upt_Suc)
  show "set (all_but_last a) = {v. 1 \<le> unat v \<and> unat v < unat (la_viewers a)}"
    using range [of "unat (la_viewers a)"] by (simp add: all_but_last_def)
  have inj: "inj_on (of_nat :: nat \<Rightarrow> u64) {1..<Suc (unat (la_viewers a))}"
    by (rule inj_onI) (metis atLeastLessThan_iff less_Suc_eq_le small)
  then show "distinct (all_viewers a)" by (simp add: all_viewers_def distinct_map del: upt_Suc)
  have "inj_on (of_nat :: nat \<Rightarrow> u64) {1..<unat (la_viewers a)}"
    by (rule inj_on_subset [OF inj]) auto
  then show "distinct (all_but_last a)" by (simp add: all_but_last_def distinct_map)
  show "length (all_viewers a) = unat (la_viewers a)" by (simp add: all_viewers_def)
qed

lemma card_viewers: "card (set (all_viewers a)) = unat (la_viewers a)"
  by (simp add: distinct_card viewers_sets(3,5))

text \<open>The last viewer; the share of a viewer is its budget counted in packets.\<close>

definition last_viewer :: "load_args \<Rightarrow> user_id" where
  "last_viewer a = ucast (la_viewers a)"

definition share :: "load_args \<Rightarrow> user_id \<Rightarrow> u16" where
  "share a v = (if la_include_slow_viewer a \<and> v = last_viewer a then 1 else 10)"

lemma unat_last: "unat (last_viewer a) = unat (la_viewers a)"
  using unat_u16_less [of "la_viewers a"]
  by (simp add: last_viewer_def unsigned_ucast_eq take_bit_nat_eq_self)

lemma share_pos: "0 < unat (share a v)"
  by (simp add: share_def)

lemma sat_mul_1 [simp]: "sat_mul d 1 = d" for d :: u16
  using unat_u16_less [of d] by (simp add: sat_mul_def)

lemma fanout_budget_share: "fanout_budget a v = sat_mul (la_media_duration_ms a) (share a v)"
  by (simp add: fanout_budget_def share_def last_viewer_def)

definition offered :: "load_args \<Rightarrow> nat \<Rightarrow> user_id \<Rightarrow> nat" where
  "offered a k v = (if v = last_viewer a then k else min k 1)"

text \<open>The packets that the last viewer loses of \<open>k\<close>.\<close>

definition lost :: "load_args \<Rightarrow> nat \<Rightarrow> nat" where
  "lost a k =
     (if la_viewers a = 0 then 0 else k - taken (la_media_duration_ms a) (share a (last_viewer a)) k)"

lemma only_last: "l \<in> A \<longleftrightarrow> \<not> z \<Longrightarrow> {v \<in> A. \<not> (v \<noteq> l \<or> b)} = (if z \<or> b then {} else {l})"
  by auto

lemma fanout_round_step:
  assumes "loaded (la_media_duration_ms a) (share a) (offered a k) (set (all_viewers a)) f"
    and "fanout_round a sid k (r, f) = (r', f')"
  shows "loaded (la_media_duration_ms a) (share a) (offered a (Suc k)) (set (all_viewers a)) f'"
    and "sf_total_delivered r' =
      sf_total_delivered r + of_nat (unat (la_viewers a) - (lost a (Suc k) - lost a k))"
    and "sf_total_dropped r' = sf_total_dropped r + of_nat (lost a (Suc k) - lost a k)"
    and "sf_slow_viewer_dropped r' = sf_slow_viewer_dropped r +
      (if la_include_slow_viewer a then of_nat (lost a (Suc k) - lost a k) else 0)"
proof -
  let ?d = "la_media_duration_ms a" and ?A = "set (all_viewers a)" and ?L = "last_viewer a"
  define f1 where "f1 = fold (\<lambda>viewer f. snd (drain_viewer viewer f)) (all_but_last a) f"
  define packet where "packet = synthetic_packet sid (of_nat k + 1) (of_nat k + 1)"
  have last: "?L \<notin> set (all_but_last a)" by (simp add: viewers_sets unat_last)
  have "offered a k v \<le> 1 \<and> 0 < unat (share a v)" if "v \<in> set (all_but_last a)" for v
    using that last by (auto simp: offered_def share_pos)
  from loaded_drain [OF viewers_sets(4) assms(1) this]
  have f1: "loaded ?d (share a) (\<lambda>v. if v \<in> set (all_but_last a) then 0 else offered a k v) ?A f1"
    by (simp add: f1_def)
  have A: "v \<in> ?A \<longleftrightarrow> v \<in> set (all_but_last a) \<or> v = ?L \<and> la_viewers a \<noteq> 0" for v
  proof -
    have "unat v = unat (la_viewers a) \<longleftrightarrow> v = ?L" by (metis unat_last word_unat_eq_iff)
    then show ?thesis by (auto simp: viewers_sets unat_eq_0 [symmetric])
  qed
  have m: "(if v \<in> set (all_but_last a) then 0 else offered a k v) =
      (if v = ?L then k else 0)" if "v \<in> ?A" for v
    using that last by (auto simp: A offered_def)
  have room: "has_room ?d (share a v) (if v \<in> set (all_but_last a) then 0 else offered a k v) \<longleftrightarrow>
      v \<noteq> ?L \<or> has_room ?d (share a ?L) k" if "v \<in> ?A" for v
    using m [OF that] share_pos [of a v] by (auto simp: has_room_def)
  note fan = loaded_fanout [OF f1, of packet]
  have step: "lost a (Suc k) - lost a k = (if la_viewers a = 0 \<or> has_room ?d (share a ?L) k then 0 else 1)"
    by (auto simp: lost_def taken_def has_room_def)
  have L: "?L \<in> ?A \<longleftrightarrow> la_viewers a \<noteq> 0" using A [of ?L] last by simp
  have "fs_dropped_for (fst (fanout packet ?d f1)) =
      {v \<in> ?A. \<not> (v \<noteq> ?L \<or> has_room ?d (share a ?L) k)}"
    unfolding fan(2) using room by (intro Collect_cong) (simp cong: conj_cong)
  also have "\<dots> = (if la_viewers a = 0 \<or> has_room ?d (share a ?L) k then {} else {?L})"
    by (rule only_last [OF L])
  finally have dropped: "fs_dropped_for (fst (fanout packet ?d f1)) =
      (if la_viewers a = 0 \<or> has_room ?d (share a ?L) k then {} else {?L})" .
  have delivered: "fs_delivered_to (fst (fanout packet ?d f1)) =
      ?A - fs_dropped_for (fst (fanout packet ?d f1))"
    unfolding fan(1,2) by blast
  have card: "card (fs_delivered_to (fst (fanout packet ?d f1))) =
      unat (la_viewers a) - (lost a (Suc k) - lost a k)"
    unfolding delivered dropped step using L by (auto simp: card_viewers card_Diff_singleton_if)
  have eq: "(r', f') = fanout_round a sid k (r, f)" using assms(2) by simp
  note eq = eq [unfolded fanout_round_def Let_def prod.case, folded f1_def packet_def]
  have f': "f' = snd (fanout packet ?d f1)"
    using eq by (simp add: split_beta split: if_splits)
  show "loaded ?d (share a) (offered a (Suc k)) ?A f'"
    unfolding f' loaded_def
  proof (intro allI conjI impI)
    fix v
    show "v \<in> ?A \<longleftrightarrow> viewer_queue_of v (snd (fanout packet ?d f1)) \<noteq> None"
      using fan(3) by (simp add: loaded_def)
    fix q assume q: "viewer_queue_of v (snd (fanout packet ?d f1)) = Some q"
    then have v: "v \<in> ?A" using fan(3) by (simp add: loaded_def)
    have "filled ?d (share a v) (Suc (if v \<in> set (all_but_last a) then 0 else offered a k v)) q"
      using fan(3) q unfolding loaded_def by blast
    then have "filled ?d (share a v) (Suc (if v = ?L then k else 0)) q" unfolding m [OF v] .
    then show "filled ?d (share a v) (offered a (Suc k) v) q" by (simp add: offered_def split: if_splits)
  qed
  show "sf_total_delivered r' =
      sf_total_delivered r + of_nat (unat (la_viewers a) - (lost a (Suc k) - lost a k))"
    using eq card by (simp add: split_beta split: if_splits)
  show "sf_total_dropped r' = sf_total_dropped r + of_nat (lost a (Suc k) - lost a k)"
    using eq by (auto simp: split_beta dropped step split: if_splits)
  show "sf_slow_viewer_dropped r' = sf_slow_viewer_dropped r +
      (if la_include_slow_viewer a then of_nat (lost a (Suc k) - lost a k) else 0)"
    using eq by (auto simp: split_beta dropped step last_viewer_def [symmetric] split: if_splits)
qed

lemma lost_mono: "lost a k \<le> lost a (Suc k)" "lost a k \<le> k" "lost a (Suc k) \<le> Suc (lost a k)" "lost a 0 = 0"
  by (auto simp: lost_def taken_def)

lemma lost_no_viewers: "la_viewers a = 0 \<Longrightarrow> lost a k = 0"
  by (simp add: lost_def)

lemma lost_step_le: "lost a (Suc k) - lost a k \<le> unat (la_viewers a)"
proof (cases "la_viewers a = 0")
  case False
  then have "1 \<le> unat (la_viewers a)" by (simp add: unat_gt_0 Suc_leI)
  with lost_mono(3) [of a k] show ?thesis by simp
qed (simp add: lost_no_viewers)

lemma lost_le: "lost a k \<le> k * unat (la_viewers a)"
proof (induction k)
  case (Suc k)
  then show ?case using lost_step_le [of a k] by simp
qed (simp add: lost_mono)

text \<open>The counters after \<open>k\<close> packets of one publisher.\<close>

lemma fanout_rounds:
  assumes "loaded (la_media_duration_ms a) (share a) (offered a 0) (set (all_viewers a)) f"
    and "fold (fanout_round a sid) [0..<k] (r, f) = (r', f')"
  shows "loaded (la_media_duration_ms a) (share a) (offered a k) (set (all_viewers a)) f' \<and>
    sf_total_delivered r' = sf_total_delivered r + of_nat (k * unat (la_viewers a) - lost a k) \<and>
    sf_total_dropped r' = sf_total_dropped r + of_nat (lost a k) \<and>
    sf_slow_viewer_dropped r' = sf_slow_viewer_dropped r +
      (if la_include_slow_viewer a then of_nat (lost a k) else 0)"
  using assms(2)
proof (induction k arbitrary: r' f')
  case 0
  then show ?case using assms(1) by (simp add: lost_mono)
next
  case (Suc k)
  obtain r1 f1 where one: "fold (fanout_round a sid) [0..<k] (r, f) = (r1, f1)" by fastforce
  with Suc.prems have step: "fanout_round a sid k (r1, f1) = (r', f')" by simp
  note IH = Suc.IH [OF one]
  note this_round = fanout_round_step [OF IH [THEN conjunct1] step]
  have delivered: "(k * unat (la_viewers a) - lost a k) + (unat (la_viewers a) - (lost a (Suc k) - lost a k)) =
      Suc k * unat (la_viewers a) - lost a (Suc k)"
    using lost_le [of a k] lost_step_le [of a k] lost_mono(1) [of a k] by simp
  have dropped: "lost a k + (lost a (Suc k) - lost a k) = lost a (Suc k)" using lost_mono(1) [of a k] by simp
  have w: "(of_nat (k * unat (la_viewers a) - lost a k) :: u64) +
      of_nat (unat (la_viewers a) - (lost a (Suc k) - lost a k)) =
      of_nat (Suc k * unat (la_viewers a) - lost a (Suc k))"
    "(of_nat (lost a k) :: u64) + of_nat (lost a (Suc k) - lost a k) = of_nat (lost a (Suc k))"
    by (simp_all only: of_nat_add [symmetric] delivered dropped)
  show ?case
    using IH this_round(1)
    by (simp only: this_round(2-4) add.assoc w) (simp add: add.assoc w)
qed

lemma fanout_publisher_counts:
  "sf_total_delivered (fanout_publisher a i r) =
     sf_total_delivered r + of_nat (unat (la_packets a) * unat (la_viewers a) - lost a (unat (la_packets a)))"
  "sf_total_dropped (fanout_publisher a i r) = sf_total_dropped r + of_nat (lost a (unat (la_packets a)))"
  "sf_slow_viewer_dropped (fanout_publisher a i r) = sf_slow_viewer_dropped r +
     of_nat (if la_include_slow_viewer a then lost a (unat (la_packets a)) else 0)"
proof -
  let ?sid = "of_nat i + 1 :: u32"
  define f where "f = fold (\<lambda>viewer f. add_viewer viewer (fanout_budget a viewer) f) (all_viewers a) (fanout_new ?sid)"
  have zero: "offered a 0 = (\<lambda>_. 0)" by (simp add: offered_def fun_eq_iff)
  have start: "loaded (la_media_duration_ms a) (share a) (offered a 0) (set (all_viewers a)) f"
    using loaded_start [OF viewers_sets(3)] by (simp add: f_def fanout_budget_share zero)
  obtain r' f' where run: "fold (fanout_round a ?sid) [0..<unat (la_packets a)] (r, f) = (r', f')" by fastforce
  have "fanout_publisher a i r = r'"
    using run by (simp add: fanout_publisher_def Let_def f_def)
  with fanout_rounds [OF start run]
  show "sf_total_delivered (fanout_publisher a i r) =
     sf_total_delivered r + of_nat (unat (la_packets a) * unat (la_viewers a) - lost a (unat (la_packets a)))"
  "sf_total_dropped (fanout_publisher a i r) = sf_total_dropped r + of_nat (lost a (unat (la_packets a)))"
  "sf_slow_viewer_dropped (fanout_publisher a i r) = sf_slow_viewer_dropped r +
     of_nat (if la_include_slow_viewer a then lost a (unat (la_packets a)) else 0)"
    by simp_all
qed

lemma fold_counter:
  assumes "\<And>i r. g (f i r) = g r + (of_nat D :: u64)"
  shows "g (fold f [0..<p] r) = g r + of_nat (p * D)"
proof (induction p)
  case (Suc p)
  then show ?case using assms [of p "fold f [0..<p] r"] by (simp add: add.assoc)
qed simp

lemma counts_fit:
  fixes p n :: u16 and k :: u32
  assumes "x \<le> unat k * unat n"
  shows "unat (of_nat (unat p * x) :: u64) = unat p * x"
proof (rule of_nat_unat_le)
  have "unat p * x \<le> 65535 * (4294967295 * 65535)"
    using unat_u16_less [of p] unat_u16_less [of n] unat_u32_less [of k]
    by (intro mult_le_mono order_trans [OF assms]) simp_all
  then show "unat p * x < 2 ^ LENGTH(64)" by simp
qed

text \<open>
  C26. What the synthetic fan-out counts, for all arguments and without a counter wrapping: the last
  viewer's queue is never drained, also when no slow viewer is asked for, so it keeps ten packets
  (one if it is the slow viewer) and drops the rest, unless packets have no duration or the budget
  saturates; everything else is delivered.
\<close>

theorem synthetic_fanout_counts:
  "let r = run_synthetic_fanout a; p = unat (la_publishers a); n = unat (la_viewers a);
       k = unat (la_packets a); d = unat (la_media_duration_ms a);
       kept = (if la_include_slow_viewer a then 1 else 10);
       dropped = (if n = 0 \<or> d = 0 \<or> 65535 \<le> d * kept then 0 else k - kept)
   in unat (sf_total_delivered r) = p * (k * n - dropped) \<and> unat (sf_total_dropped r) = p * dropped \<and>
      unat (sf_slow_viewer_dropped r) = (if la_include_slow_viewer a then p * dropped else 0)"
proof -
  let ?p = "unat (la_publishers a)" and ?n = "unat (la_viewers a)" and ?k = "unat (la_packets a)"
  let ?d = "unat (la_media_duration_ms a)"
  let ?kept = "if la_include_slow_viewer a then 1 else 10 :: nat"
  have lost: "lost a ?k = (if ?n = 0 \<or> ?d = 0 \<or> 65535 \<le> ?d * ?kept then 0 else ?k - ?kept)"
    by (auto simp: lost_def taken_def unlimited_def share_def unat_eq_0)
  let ?r = "run_synthetic_fanout a" and ?slow = "if la_include_slow_viewer a then lost a ?k else 0"
  note counts = fold_counter [where f = "fanout_publisher a" and p = ?p and g = sf_total_delivered,
      OF fanout_publisher_counts(1)]
    fold_counter [where f = "fanout_publisher a" and p = ?p and g = sf_total_dropped,
      OF fanout_publisher_counts(2)]
    fold_counter [where f = "fanout_publisher a" and p = ?p and g = sf_slow_viewer_dropped,
      OF fanout_publisher_counts(3)]
  have "unat (sf_total_delivered ?r) = ?p * (?k * ?n - lost a ?k)"
    unfolding run_synthetic_fanout_def counts(1)
    using counts_fit [of "?k * ?n - lost a ?k" "la_packets a" "la_viewers a" "la_publishers a"] by simp
  moreover have "unat (sf_total_dropped ?r) = ?p * lost a ?k"
    unfolding run_synthetic_fanout_def counts(2) using counts_fit [OF lost_le, of "la_publishers a"] by simp
  moreover have "?slow \<le> ?k * ?n" using lost_le [of a ?k] by simp
  then have "unat (sf_slow_viewer_dropped ?r) = ?p * ?slow"
    unfolding run_synthetic_fanout_def counts(3)
    using counts_fit [of ?slow "la_packets a" "la_viewers a" "la_publishers a"] by simp
  ultimately show ?thesis unfolding Let_def lost [symmetric] by simp
qed

end
