(* ===== verification/Load_Forward.thy ===== *)
theory Load_Forward
  imports Load_Props
begin

text \<open>
  The outcome of the load test's sample forwarding, for all arguments: each frame's packets go
  through the fan-out, and the first viewer's share is put together again.
\<close>

section \<open>Draining whole queues\<close>

lemma drain_all_other: "w \<noteq> v \<Longrightarrow> viewer_queue_of w (drain_all v f) = viewer_queue_of w f"
proof (induction v f rule: drain_all.induct)
  case (1 v f)
  then show ?case
    by (subst drain_all.simps) (simp add: drain_viewer_get split: option.split)
qed

lemma drain_all_none: "viewer_queue_of v f = None \<Longrightarrow> drain_all v f = f"
  by (subst drain_all.simps) (simp add: drain_viewer_def)

lemma drain_all_self:
  assumes "viewer_queue_of v f = Some q"
    and "map qp_media_duration_ms (vq_queued_packets q) = replicate n d"
    and "unat (vq_queued_media_ms q) \<le> n * unat d"
  shows "\<exists>q'. viewer_queue_of v (drain_all v f) = Some q' \<and> vq_queued_packets q' = [] \<and>
    vq_queued_media_ms q' = 0 \<and> vq_queue_budget_ms q' = vq_queue_budget_ms q"
  using assms
proof (induction n arbitrary: f q)
  case 0
  then have "drain_viewer v f = (None, f\<lparr>fo_viewers := bt_insert v q (fo_viewers f)\<rparr>)"
    by (simp add: drain_viewer_def vq_drain_one_def)
  with 0 show ?case
    by (subst drain_all.simps) (simp add: viewer_queue_of_def unat_eq_0)
next
  case (Suc n)
  from Suc.prems(2) obtain p ps where q: "vq_queued_packets q = p # ps"
    and p: "qp_media_duration_ms p = d" and ps: "map qp_media_duration_ms ps = replicate n d"
    by (auto simp: map_eq_Cons_conv)
  let ?q = "snd (vq_drain_one q)"
  have one: "fst (drain_viewer v f) = Some (qp_packet p)"
    "viewer_queue_of v (snd (drain_viewer v f)) = Some ?q"
    using Suc.prems(1) q by (simp_all add: drain_viewer_def drain_viewer_get vq_drain_one_def viewer_queue_of_def)
  have "map qp_media_duration_ms (vq_queued_packets ?q) = replicate n d"
    "unat (vq_queued_media_ms ?q) \<le> n * unat d" "vq_queue_budget_ms ?q = vq_queue_budget_ms q"
    using q p ps Suc.prems(3) by (simp_all add: vq_drain_one_def word_nat)
  with Suc.IH [OF one(2)] one(1) show ?case by (subst drain_all.simps) simp
qed

lemma loaded_drain_all:
  assumes "loaded d C m A f"
  shows "loaded d C (m(v := 0)) A (drain_all v f)"
proof (cases "viewer_queue_of v f")
  case None
  with assms show ?thesis by (auto simp: loaded_def drain_all_none)
next
  case (Some q)
  then have q: "filled d (C v) (m v) q" using assms by (simp add: loaded_def)
  then obtain q' where q': "viewer_queue_of v (drain_all v f) = Some q'" "vq_queued_packets q' = []"
    "vq_queued_media_ms q' = 0" "vq_queue_budget_ms q' = vq_queue_budget_ms q"
    using drain_all_self [OF Some, of "taken d (C v) (m v)" d] by (auto simp: filled_def)
  then have "filled d (C v) 0 q'" using q by (simp add: filled_def)
  with q'(1) Some assms drain_all_other [of _ v f] show ?thesis
    by (auto simp: loaded_def)
qed

lemma loaded_drain_every:
  "loaded d C m A f \<Longrightarrow> loaded d C (\<lambda>v. if v \<in> set vs then 0 else m v) A (fold drain_all vs f)"
proof (induction vs arbitrary: f m)
  case (Cons v vs)
  have "(\<lambda>w. if w \<in> set vs then 0 else (m(v := 0)) w) = (\<lambda>w. if w \<in> set (v # vs) then 0 else m w)"
    by auto
  with Cons.IH [OF loaded_drain_all [OF Cons.prems, of v]] show ?case by (simp only: fold_Cons o_def)
qed simp

lemma loaded_cong: "(\<And>v. v \<in> A \<Longrightarrow> m v = m' v) \<Longrightarrow> loaded d C m A f = loaded d C m' A f"
  by (auto simp: loaded_def)

section \<open>The packets of a frame\<close>

text \<open>Once a queue is full it stays full, so the first packets are the ones that arrive.\<close>

lemma taken_room: "has_room d c i \<Longrightarrow> taken d c i = i"
  by (auto simp: has_room_def taken_def)

lemma taken_le: "taken d c i \<le> i"
  by (simp add: taken_def)

lemma forward_packets:
  assumes "loaded (la_media_duration_ms a) (\<lambda>_. 10) (\<lambda>_. 0) (set (all_viewers a)) f"
    and "fold (forward_packet a) ps (r, f, []) = (r', f', firsts)"
  shows "loaded (la_media_duration_ms a) (\<lambda>_. 10) (\<lambda>_. length ps) (set (all_viewers a)) f' \<and>
    sr_total_delivered r' = sr_total_delivered r +
      of_nat (taken (la_media_duration_ms a) 10 (length ps) * unat (la_viewers a)) \<and>
    sr_total_dropped r' = sr_total_dropped r +
      of_nat ((length ps - taken (la_media_duration_ms a) 10 (length ps)) * unat (la_viewers a)) \<and>
    sr_frames r' = sr_frames r \<and> sr_fragments r' = sr_fragments r \<and>
    sr_reassembled_frames r' = sr_reassembled_frames r \<and>
    firsts = (if la_viewers a = 0 then [] else take (taken (la_media_duration_ms a) 10 (length ps)) ps)"
  using assms(2)
proof (induction ps arbitrary: r' f' firsts rule: rev_induct)
  case Nil
  then show ?case using assms(1) by simp
next
  case (snoc p ps)
  let ?d = "la_media_duration_ms a" and ?A = "set (all_viewers a)" and ?k = "length ps"
  obtain r1 f1 firsts1 where run: "fold (forward_packet a) ps (r, f, []) = (r1, f1, firsts1)"
    by (cases "fold (forward_packet a) ps (r, f, [])") auto
  note IH = snoc.IH [OF run]
  note fan = loaded_fanout [OF IH [THEN conjunct1], of p]
  have step: "forward_packet a p (r1, f1, firsts1) = (r', f', firsts)" using snoc.prems run by simp
  have one: "1 \<in> ?A \<longleftrightarrow> la_viewers a \<noteq> 0"
    by (simp add: viewers_sets unat_gt_0 Suc_le_eq)
  show ?case
  proof (cases "has_room ?d 10 ?k")
    case True
    then have "fs_delivered_to (fst (fanout p ?d f1)) = ?A" "fs_dropped_for (fst (fanout p ?d f1)) = {}"
      by (simp_all add: fan)
    with step one have res: "f' = snd (fanout p ?d f1)"
      "r' = r1\<lparr>sr_total_delivered := sr_total_delivered r1 + of_nat (unat (la_viewers a))\<rparr>"
      "firsts = (if la_viewers a = 0 then firsts1 else firsts1 @ [p])"
      by (auto simp: forward_packet_def split_beta card_viewers)
    then show ?thesis using IH fan(3) taken_room [OF True] True by (simp add: algebra_simps)
  next
    case False
    then have "fs_delivered_to (fst (fanout p ?d f1)) = {}" "fs_dropped_for (fst (fanout p ?d f1)) = ?A"
      by (simp_all add: fan)
    with step have res: "f' = snd (fanout p ?d f1)"
      "r' = r1\<lparr>sr_total_dropped := sr_total_dropped r1 + of_nat (unat (la_viewers a))\<rparr>"
      "firsts = firsts1"
      by (auto simp: forward_packet_def split_beta card_viewers)
    have "(Suc ?k - taken ?d 10 ?k) * unat (la_viewers a) =
        (?k - taken ?d 10 ?k) * unat (la_viewers a) + unat (la_viewers a)"
      by (simp add: Suc_diff_le taken_le)
    then have w: "(of_nat ((Suc ?k - taken ?d 10 ?k) * unat (la_viewers a)) :: u64) =
        of_nat ((?k - taken ?d 10 ?k) * unat (la_viewers a)) + of_nat (unat (la_viewers a))"
      by (simp only: of_nat_add)
    have "take (taken ?d 10 ?k) (ps @ [p]) = take (taken ?d 10 ?k) ps" by (simp add: taken_le)
    then show ?thesis
      using IH fan(3) False w unfolding res length_append_singleton taken_simps by simp
  qed
qed

section \<open>Frames\<close>

lemma sample_length [simp]: "length (f_bytes (sample_h264_frame i)) = 4117"
  by (simp add: sample_h264_frame_def)

definition sample_fragments :: "nat \<Rightarrow> nat" where
  "sample_fragments mp = div_ceil 4117 mp"

lemma sample_fragments_bounds: "1 \<le> sample_fragments mp" "sample_fragments mp \<le> 4117"
proof -
  have "(4117 :: nat) div mp + (if 4117 mod mp = 0 then 0 else 1) \<le> 4117"
  proof (cases "mp \<le> 1")
    case True
    then have "mp = 0 \<or> mp = 1" by auto
    then show ?thesis by auto
  next
    case False
    then have "(4117 :: nat) div mp \<le> 4117 div 2" by (intro div_le_mono2) auto
    then show ?thesis by simp
  qed
  then show "sample_fragments mp \<le> 4117" by (simp add: sample_fragments_def div_ceil_def)
  show "1 \<le> sample_fragments mp"
  proof (cases "(4117 :: nat) div mp")
    case 0
    then have "mp = 0 \<or> 4117 < mp" by (auto simp: div_eq_0_iff)
    then show ?thesis by (auto simp: sample_fragments_def div_ceil_def)
  next
    case (Suc n)
    then show ?thesis by (simp add: sample_fragments_def div_ceil_def)
  qed
qed

lemma sample_packets:
  "packetize_frame (sample_h264_frame i) seq mp =
     (if mp = 0 then Inl (Err ZeroMaxPayload)
      else if 65535 < mp then Inl (Err (MaxPayloadTooLarge mp))
      else Inr (map (fragment (sample_h264_frame i) Video seq mp (sample_fragments mp))
                  [0..<sample_fragments mp]))"
  using sample_fragments_bounds [of mp]
  by (auto simp: packetize_frame_def packetize_frame_with_type_cases max_absorb1
      sample_fragments_def [symmetric])

text \<open>The first fragments of a frame, but not all, make no frame.\<close>

lemma reassemble_prefix:
  assumes "0 < k" and "k < n" and "n \<le> 65535" and "ty = Video \<or> ty = Audio"
  shows "reassemble_frame (take k (map (fragment frame ty seq mp n) [0..<n])) = Inl FragmentCountMismatch"
proof -
  let ?ps = "map (fragment frame ty seq mp n) [0..<k]"
  let ?qs = "sort_key (\<lambda>p. h_fragment_index (p_header p)) ?ps"
  have ps: "take k (map (fragment frame ty seq mp n) [0..<n]) = ?ps"
    using assms(2) by (simp add: take_map)
  have "header_validate (p_header p) = Inr ()" if "p \<in> set ?ps" for p
  proof -
    obtain i where "p = fragment frame ty seq mp n i" "i < n" using \<open>p \<in> set ?ps\<close> assms(2) by auto
    with fragment_validate [OF _ assms(3)] assms(4) show ?thesis by auto
  qed
  then have valid: "validate_packets ?ps = Inr ()" by (simp add: validate_packets_Inr)
  have "length ?qs = k" by simp
  then have "?qs \<noteq> []" using assms(1) by (metis length_0_conv less_numeral_extra(3))
  then have "hd ?qs \<in> set ?ps" by (metis hd_in_set set_sort)
  then obtain i where "hd ?qs = fragment frame ty seq mp n i" by auto
  then have "h_packet_type (p_header (hd ?qs)) = ty" "h_fragment_count (p_header (hd ?qs)) = of_nat n"
    by (simp_all add: fragment_header_sel)
  then have "reassemble_sorted ?qs = Inl FragmentCountMismatch"
    using assms of_nat_u16_eq [OF assms(3)] by (auto simp: reassemble_sorted_def Let_def)
  then show ?thesis using valid assms(1) unfolding ps by (simp add: reassemble_frame_def)
qed

definition frames_fit :: "load_args \<Rightarrow> bool" where
  "frames_fit a \<longleftrightarrow>
     taken (la_media_duration_ms a) 10 (sample_fragments (la_max_payload a)) =
       sample_fragments (la_max_payload a)"

lemma frames_fit_iff:
  "frames_fit a \<longleftrightarrow> \<not> (10 < sample_fragments (la_max_payload a) \<and>
     la_media_duration_ms a \<noteq> 0 \<and> unat (la_media_duration_ms a) * 10 < 65535)"
  by (auto simp: frames_fit_def taken_def unlimited_def not_le)

lemma forward_frame_outcome:
  fixes a :: load_args and r :: sample_forward_result
  assumes "loaded (la_media_duration_ms a) (\<lambda>_. 10) m (set (all_viewers a)) f"
  defines "n \<equiv> sample_fragments (la_max_payload a)"
  shows "if la_max_payload a = 0 then (forward_frame a i (r, f) :: 'j load_error + _) = Inl (LoadPacketize ZeroMaxPayload)
    else if 65535 < la_max_payload a
    then (forward_frame a i (r, f) :: 'j load_error + _) = Inl (LoadPacketize (MaxPayloadTooLarge (la_max_payload a)))
    else if la_viewers a = 0 then (forward_frame a i (r, f) :: 'j load_error + _) = Inl (LoadReassemble EmptyFrame)
    else if \<not> frames_fit a then (forward_frame a i (r, f) :: 'j load_error + _) = Inl (LoadReassemble FragmentCountMismatch)
    else \<exists>f' m'. loaded (la_media_duration_ms a) (\<lambda>_. 10) m' (set (all_viewers a)) f' \<and>
      (forward_frame a i (r, f) :: 'j load_error + _) = Inr
        (r\<lparr>sr_frames := sr_frames r + 1, sr_fragments := sr_fragments r + of_nat n,
           sr_total_delivered := sr_total_delivered r + of_nat (n * unat (la_viewers a)),
           sr_reassembled_frames := sr_reassembled_frames r + 1\<rparr>, f')"
proof -
  let ?d = "la_media_duration_ms a" and ?A = "set (all_viewers a)" and ?mp = "la_max_payload a"
  let ?frame = "sample_h264_frame (of_nat i + 1)"
  let ?ps = "map (fragment ?frame Video (sat_mul (of_nat i) 100) ?mp n) [0..<n]"
  define f1 where "f1 = fold drain_all (all_viewers a) f"
  define r1 where "r1 = r\<lparr>sr_frames := sr_frames r + 1, sr_fragments := sr_fragments r + of_nat n\<rparr>"
  obtain r2 f2 firsts where run: "fold (forward_packet a) ?ps (r1, f1, []) = (r2, f2, firsts)"
    by (cases "fold (forward_packet a) ?ps (r1, f1, [])") auto
  have "loaded ?d (\<lambda>_. 10) (\<lambda>v. if v \<in> ?A then 0 else m v) ?A f1"
    unfolding f1_def by (rule loaded_drain_every [OF assms(1)])
  then have f1: "loaded ?d (\<lambda>_. 10) (\<lambda>_. 0) ?A f1"
    by (subst loaded_cong [where m' = "\<lambda>v. if v \<in> ?A then 0 else m v"]) simp_all
  note packets = forward_packets [OF f1 run]
  have n: "0 < n" "n \<le> 65535" using sample_fragments_bounds [of ?mp] by (simp_all add: n_def)
  have body: "(forward_frame a i (r, f) :: 'j load_error + _) =
      and_then (map_err LoadReassemble (reassemble_frame firsts)) (\<lambda>reassembled.
        if f_bytes reassembled \<noteq> f_bytes ?frame
        then Inl (frame_differs ''reassembled frame bytes differ for frame '' (f_frame_id ?frame))
        else Inr (r2\<lparr>sr_reassembled_frames := sr_reassembled_frames r2 + 1\<rparr>, f2))"
    if "?mp \<noteq> 0" "\<not> 65535 < ?mp"
    using that run unfolding r1_def
    by (simp add: forward_frame_def sample_packets Let_def f1_def [symmetric] n_def [symmetric] fault_of_def)
  have firsts: "firsts = (if la_viewers a = 0 then [] else take (taken ?d 10 n) ?ps)"
    using packets by simp
  show ?thesis
  proof (cases "?mp = 0 \<or> 65535 < ?mp \<or> la_viewers a = 0")
    case True
    then show ?thesis
      using body firsts
      by (auto simp: forward_frame_def sample_packets fault_of_def reassemble_frame_def)
  next
    case False
    show ?thesis
    proof (cases "frames_fit a")
      case True
      then have fit: "taken ?d 10 n = n" by (simp add: frames_fit_def n_def)
      have "packetize_frame_with_type ?frame Video (sat_mul (of_nat i) 100) ?mp = Inr ?ps"
        using sample_packets [of "of_nat i + 1" "sat_mul (of_nat i) 100" ?mp] False
        by (simp add: packetize_frame_def n_def)
      from reassemble_packetized [OF this] have "reassemble_frame firsts = Inr ?frame"
        using firsts False fit by simp
      moreover have "r2 = r1\<lparr>sr_total_delivered := sr_total_delivered r1 + of_nat (n * unat (la_viewers a))\<rparr>"
        using packets fit by (cases r2, cases r1) simp
      ultimately show ?thesis
        using body False True packets unfolding r1_def by auto
    next
      case no: False
      then have lt: "taken ?d 10 n < n" using taken_le [of ?d 10 n] by (simp add: frames_fit_def n_def)
      moreover have "0 < taken ?d 10 n" using n(1) by (auto simp: taken_def)
      ultimately have "reassemble_frame firsts = Inl FragmentCountMismatch"
        using firsts False reassemble_prefix [OF _ lt n(2)] by simp
      then show ?thesis using body False no by simp
    qed
  qed
qed

lemma forward_frames_fit:
  assumes "la_max_payload a \<noteq> 0" and "la_max_payload a \<le> 65535" and "la_viewers a \<noteq> 0" and "frames_fit a"
    and "loaded (la_media_duration_ms a) (\<lambda>_. 10) m (set (all_viewers a)) f"
  defines "n \<equiv> sample_fragments (la_max_payload a)"
  shows "(forward_frames a ids (r, f) :: 'j load_error + _) = Inr
    (r\<lparr>sr_frames := sr_frames r + of_nat (length ids),
       sr_fragments := sr_fragments r + of_nat (length ids * n),
       sr_total_delivered := sr_total_delivered r + of_nat (length ids * n * unat (la_viewers a)),
       sr_reassembled_frames := sr_reassembled_frames r + of_nat (length ids)\<rparr>)"
  using assms(5)
proof (induction ids arbitrary: r f m)
  case (Cons i ids)
  from forward_frame_outcome [OF Cons.prems, where 'j = 'j and i = i and r = r] assms(1-4) obtain f' m' where
    f': "loaded (la_media_duration_ms a) (\<lambda>_. 10) m' (set (all_viewers a)) f'"
    and frame: "(forward_frame a i (r, f) :: 'j load_error + _) = Inr
        (r\<lparr>sr_frames := sr_frames r + 1, sr_fragments := sr_fragments r + of_nat n,
           sr_total_delivered := sr_total_delivered r + of_nat (n * unat (la_viewers a)),
           sr_reassembled_frames := sr_reassembled_frames r + 1\<rparr>, f')"
    by (auto simp: n_def)
  show ?case unfolding forward_frames.simps frame and_then.simps Cons.IH [OF f']
    by (simp add: algebra_simps)
qed simp

text \<open>
  C27. What forwarding the sample frames gives, for all arguments. A frame has 4117 bytes; when its
  packets fit the viewers' budget of ten durations (or the budget saturates), every frame reaches
  every viewer and the first viewer's packets give it back. Otherwise the run fails at its first
  frame: a payload limit of 0 or beyond 16 bits, no viewers, or a frame of more than ten packets,
  of which the first viewer gets ten.
\<close>

theorem sample_forward_outcome:
  "let mp = la_max_payload a; n = unat (la_viewers a); k = unat (la_packets a);
       d = unat (la_media_duration_ms a); fragments = div_ceil 4117 mp
   in (run_sample_forward a :: 'j load_error + _) =
     (if k = 0 then Inr sample_forward_default
      else if mp = 0 then Inl (LoadPacketize ZeroMaxPayload)
      else if 65535 < mp then Inl (LoadPacketize (MaxPayloadTooLarge mp))
      else if n = 0 then Inl (LoadReassemble EmptyFrame)
      else if 10 < fragments \<and> d \<noteq> 0 \<and> d * 10 < 65535 then Inl (LoadReassemble FragmentCountMismatch)
      else Inr \<lparr>sr_frames = la_packets a, sr_fragments = of_nat (k * fragments),
                sr_reassembled_frames = of_nat k, sr_total_delivered = of_nat (k * fragments * n),
                sr_total_dropped = 0\<rparr>) \<and>
     k * fragments * n < 2 ^ 64"
proof -
  let ?mp = "la_max_payload a" and ?n = "unat (la_viewers a)" and ?k = "unat (la_packets a)"
  let ?d = "unat (la_media_duration_ms a)" and ?F = "sample_fragments (la_max_payload a)"
  define f where "f = fold (\<lambda>viewer f. add_viewer viewer (sat_mul (la_media_duration_ms a) 10) f)
      (all_viewers a) (fanout_new 1)"
  have f: "loaded (la_media_duration_ms a) (\<lambda>_. 10) (\<lambda>_. 0) (set (all_viewers a)) f"
    unfolding f_def by (rule loaded_start [OF viewers_sets(3), where C = "\<lambda>_. 10"])
  have run: "(run_sample_forward a :: 'j load_error + _) = forward_frames a [0..<?k] (sample_forward_default, f)"
    by (simp add: run_sample_forward_def f_def Let_def)
  have fit: "frames_fit a \<longleftrightarrow> \<not> (10 < ?F \<and> ?d \<noteq> 0 \<and> ?d * 10 < 65535)"
    by (simp add: frames_fit_iff unat_eq_0)
  have zero: "?n = 0 \<longleftrightarrow> la_viewers a = 0" by (simp add: unat_eq_0)
  have "?k * ?F * ?n \<le> 4294967295 * 4117 * 65535"
    using unat_u16_less [of "la_viewers a"] unat_u32_less [of "la_packets a"] sample_fragments_bounds(2) [of ?mp]
    by (intro mult_le_mono) simp_all
  then have bound: "?k * ?F * ?n < 2 ^ 64" by simp
  show ?thesis
  proof (cases "?k = 0 \<or> ?mp = 0 \<or> 65535 < ?mp \<or> ?n = 0 \<or> \<not> frames_fit a")
    case True
    show ?thesis
    proof (cases "?k = 0")
      case True
      then show ?thesis by (simp add: run)
    next
      case k: False
      then have "[0..<?k] = 0 # [Suc 0..<?k]" by (simp add: upt_conv_Cons)
      with run have "(run_sample_forward a :: 'j load_error + _) =
          and_then (forward_frame a 0 (sample_forward_default, f)) (forward_frames a [Suc 0..<?k])" by simp
      with True k forward_frame_outcome [OF f, where 'j = 'j and i = 0 and r = sample_forward_default] fit zero bound
      show ?thesis by (auto simp: Let_def sample_fragments_def split: if_splits)
    qed
  next
    case False
    with forward_frames_fit [OF _ _ _ _ f, where 'j = 'j and ids = "[0..<?k]" and r = sample_forward_default] run fit zero bound
    show ?thesis by (auto simp: Let_def sample_fragments_def sample_forward_default_def)
  qed
qed

end
