(* ===== verification/Load_Net.thy ===== *)
theory Load_Net
  imports Load_Codec Load_Quic Load_Forward Runtime Media_Props Pipeline
begin

text \<open>
  The load test on the relay: its environment is the model of the runtime with a network that loses
  and delays nothing. A connection is its number in the relay's list; each connection has an inbox of
  the datagrams that its send task emitted. After each datagram from the publisher every send task
  takes one turn. The clock and the JSON codec stay parameters.
\<close>

section \<open>The network\<close>

record load_net =
  ln_system :: "(egress_datagram list \<times> nat) system"
  ln_inboxes :: "bytes list list"

record 'j load_codec =
  lc_encode_request :: "client_envelope \<Rightarrow> 'j + bytes"
  lc_decode_request :: "bytes \<Rightarrow> 'j + client_envelope"
  lc_encode_reply :: "server_envelope \<Rightarrow> 'j + bytes"
  lc_decode_reply :: "bytes \<Rightarrow> 'j + server_envelope"
  lc_show_error :: "'j control_codec_error \<Rightarrow> rstring"
  lc_clock :: "load_net \<Rightarrow> u64"

text \<open>
  What the load test relies on from \<open>serde_json\<close>: it reads back what it writes, and it writes the
  requests of the load test and the replies to them.
\<close>

definition load_codec_ok :: "'j load_codec \<Rightarrow> bool" where
  "load_codec_ok lc \<longleftrightarrow>
     json_codec (lc_encode_request lc) (lc_decode_request lc) \<and>
     json_codec (lc_encode_reply lc) (lc_decode_reply lc) \<and>
     (\<forall>e. load_request (env_message e) \<longrightarrow> (\<exists>bs. lc_encode_request lc e = Inr bs)) \<and>
     (\<forall>e. load_reply (env_message e) \<longrightarrow> (\<exists>bs. lc_encode_reply lc e = Inr bs))"

text \<open>The contract can be met.\<close>

definition unary_codec_at :: "u64 \<Rightarrow> unit load_codec" where
  "unary_codec_at now =
     \<lparr>lc_encode_request = unary_write request_fields, lc_decode_request = unary_read fields_request,
      lc_encode_reply = unary_write reply_fields, lc_decode_reply = unary_read fields_reply,
      lc_show_error = (\<lambda>_. []), lc_clock = (\<lambda>_. now)\<rparr>"

lemma unary_codec_ok: "load_codec_ok (unary_codec_at now)"
  unfolding load_codec_ok_def
proof (intro conjI allI impI)
  show "json_codec (lc_encode_request (unary_codec_at now)) (lc_decode_request (unary_codec_at now))"
    "json_codec (lc_encode_reply (unary_codec_at now)) (lc_decode_reply (unary_codec_at now))"
    unfolding unary_codec_at_def load_codec.simps by (rule unary_codec, rule fields_inverse, assumption)+
next
  fix e :: client_envelope assume "load_request (env_message e)"
  then show "\<exists>bs. lc_encode_request (unary_codec_at now) e = Inr bs"
    by (auto simp: unary_codec_at_def unary_write_def load_request_def request_fields_def split: client_control.splits)
next
  fix e :: server_envelope assume "load_reply (env_message e)"
  then show "\<exists>bs. lc_encode_reply (unary_codec_at now) e = Inr bs"
    by (auto simp: unary_codec_at_def unary_write_def load_reply_def reply_fields_def split: server_control.splits)
qed

definition net_start :: load_net where
  "net_start = \<lparr>ln_system = \<lparr>sy_runtime = control_runtime_new, sy_conns = []\<rparr>, ln_inboxes = []\<rparr>"

definition net_connect :: "load_net \<Rightarrow> (rstring + nat) \<times> load_net" where
  "net_connect w =
     (let sys = ln_system w; rt = sy_runtime sys in
      (Inr (length (sy_conns sys)),
       w\<lparr>ln_system := sys\<lparr>sy_runtime := rt\<lparr>rt_next_session_id := rt_next_session_id rt + 1\<rparr>,
           sy_conns := sy_conns sys @
             [\<lparr>cn_session = session_anonymous (rt_next_session_id rt), cn_phase = Serving, cn_tasks = []\<rparr>]\<rparr>,
         ln_inboxes := ln_inboxes w @ [[]]\<rparr>))"

definition net_exchange ::
  "'j load_codec \<Rightarrow> nat \<Rightarrow> bytes \<Rightarrow> load_net \<Rightarrow> (rstring + bytes) \<times> load_net" where
  "net_exchange lc i bytes w =
     (let sys = ln_system w; c = sy_conns sys ! i; now = lc_clock lc w;
          (response, s, rt) = handle_control_bytes (lc_decode_request lc) (lc_show_error lc) now now
            (cn_session c) bytes (sy_runtime sys);
          rt = register_greeted list_channel s response rt;
          w = w\<lparr>ln_system := put_conn i (c\<lparr>cn_session := s\<rparr>) rt sys\<rparr>
      in (map_err (\<lambda>_. lit ''failed to read control response'')
            (encode_envelope (lc_encode_reply lc) response), w))"

text \<open>A turn of the send task of connection \<open>i\<close>.\<close>

definition net_turn :: "u64 \<Rightarrow> nat \<Rightarrow> load_net \<Rightarrow> load_net" where
  "net_turn now i w =
     (let sys = ln_system w in
      case sess_user_id (cn_session (sy_conns sys ! i)) of
        None \<Rightarrow> w
      | Some uid \<Rightarrow>
        (case bt_get (mr_egress (rt_media (sy_runtime sys))) uid of
           None \<Rightarrow> w
         | Some eg \<Rightarrow>
             let (sent, eg) = egress_send now (egress_receive list_channel eg)
             in w\<lparr>ln_system := put_egress uid eg sys,
                  ln_inboxes := (ln_inboxes w)[i := ln_inboxes w ! i @ (case sent of None \<Rightarrow> [] | Some b \<Rightarrow> [b])]\<rparr>))"

definition net_send ::
  "'j load_codec \<Rightarrow> nat \<Rightarrow> bytes \<Rightarrow> load_net \<Rightarrow> (rstring + unit) \<times> load_net" where
  "net_send lc i bytes w =
     (let sys = ln_system w; c = sy_conns sys ! i; now = lc_clock lc w;
          sys = put_conn i c
            (handle_media_datagram list_channel (cn_session c) bytes now now (sy_runtime sys)) sys
      in (Inr (), fold (net_turn now) [0..<length (sy_conns sys)] (w\<lparr>ln_system := sys\<rparr>)))"

definition net_read :: "nat \<Rightarrow> load_net \<Rightarrow> (rstring + bytes) option \<times> load_net" where
  "net_read i w =
     (case ln_inboxes w ! i of
        [] \<Rightarrow> (None, w)
      | b # bs \<Rightarrow> (Some (Inr b), w\<lparr>ln_inboxes := (ln_inboxes w)[i := bs]\<rparr>))"

text \<open>Closing a connection ends its loop, which unregisters and disconnects its user.\<close>

definition net_close :: "nat \<Rightarrow> load_net \<Rightarrow> load_net" where
  "net_close i w =
     (let sys = ln_system w; c = sy_conns sys ! i; rt = sy_runtime sys;
          rt = (case sess_user_id (cn_session c) of
              None \<Rightarrow> rt
            | Some uid \<Rightarrow> rt\<lparr>rt_media := unregister_egress uid (rt_media rt),
                            rt_state := disconnect_user uid (rt_state rt)\<rparr>)
      in w\<lparr>ln_system := put_conn i (c\<lparr>cn_phase := Finished\<rparr>) rt sys\<rparr>)"

definition net_env :: "'j load_codec \<Rightarrow> (nat, 'j, load_net) load_env" where
  "net_env lc =
     \<lparr>le_serve = io_return (), le_endpoint = io_return (), le_connect = net_connect,
      le_exchange = net_exchange lc, le_send = net_send lc, le_read = net_read, le_close = net_close,
      le_stop = (\<lambda>w. w), le_encode = lc_encode_request lc, le_decode = lc_decode_reply lc\<rparr>"

section \<open>Queues between turns\<close>

lemma clamp_u32: "unat y \<le> b \<Longrightarrow> 1 \<le> b \<Longrightarrow> unat (min (max y 1) (65535 :: u32)) \<le> b"
  by (auto simp: min_def max_def word_le_nat_alt)

lemma packet_duration_le: "packet_media_duration_ms packet x B \<le> max B 1"
proof -
  define m where "m = max B 1"
  define fps :: u32 where "fps = ucast (max (case st_config x of None \<Rightarrow> st_target_frames_per_second x
      | Some config \<Rightarrow> sc_frames_per_second config) 1)"
  define frame :: u32 where "frame = min (of_nat (div_ceil 1000 (unat fps))) (ucast m)"
  define parts :: u32 where "parts = ucast (max (h_fragment_count (p_header packet)) 1)"
  define y where "y = min (max (frame div parts) 1) 65535"
  have "frame \<le> ucast m" by (simp add: frame_def)
  then have "unat frame \<le> unat m" by (simp add: word_le_nat_alt unat_ucast_u16_u32)
  then have d: "unat (frame div parts) \<le> unat m" by (metis div_le_dividend le_trans unat_div)
  have "(1 :: u16) \<le> m" by (simp add: m_def)
  then have one: "1 \<le> unat m" by (metis unat_1 word_le_nat_alt)
  have y: "unat y \<le> unat m" unfolding y_def by (rule clamp_u32 [OF d one])
  moreover have "unat (ucast y :: u16) = unat y"
    using y unat_u16_less [of m] by (simp add: unsigned_ucast_eq take_bit_nat_eq_self)
  moreover have "packet_media_duration_ms packet x B = ucast y"
    by (simp add: packet_media_duration_ms_def Let_def y_def parts_def frame_def m_def fps_def)
  ultimately show ?thesis unfolding m_def [symmetric] by (simp add: word_le_nat_alt)
qed

text \<open>An idle queue takes a datagram, and is as before when its send task has had a turn.\<close>

lemma depth_round_trip:
  assumes "d \<le> B" and "unat (B :: u16) < 65535"
  shows "\<exists>lock. try_reserve_stream_depth sid (ucast d) (ucast B) (Some bt_new) = (True, lock) \<and>
    release_stream_depth sid d lock = Some bt_new"
proof -
  have d: "sat_add 0 d = d" using unat_u16_less [of d] by (simp add: sat_add_def)
  have one: "sat_add 0 1 = (1 :: u32)" "sat_sub 1 1 = (0 :: u32)" "sat_sub d d = 0"
    by (simp_all add: sat_add_def sat_sub_def)
  have "\<not> (ucast B :: u32) < ucast d"
    using assms(1) by (simp add: not_less word_le_nat_alt unat_ucast_u16_u32)
  then show ?thesis
    by (simp add: try_reserve_stream_depth_def release_stream_depth_def Let_def clamp_ucast_u16
        depth_default_def d one bt_entry_def bt.rem_ins)
qed

lemma one_turn:
  assumes "eg_media_duration_ms d \<le> B" and "unat B < 65535" and "1 \<le> n"
  shows "\<exists>eg. offer_datagram list_channel B d (egress_new list_channel n) = (True, eg) \<and>
    egress_send now (egress_receive list_channel eg) =
      (case packet_encode ((eg_packet d)\<lparr>p_header := (p_header (eg_packet d))\<lparr>h_server_send_time_micros := now\<rparr>\<rparr>) of
         Inl _ \<Rightarrow> None | Inr bs \<Rightarrow> Some bs, egress_new list_channel n)"
proof -
  obtain lock where lock: "try_reserve_stream_depth (eg_stream_id d) (ucast (eg_media_duration_ms d)) (ucast B)
      (Some bt_new) = (True, lock)"
    and free: "release_stream_depth (eg_stream_id d) (eg_media_duration_ms d) lock = Some bt_new"
    using depth_round_trip [OF assms(1,2)] by blast
  let ?eg = "\<lparr>ve_channel = ([d], n), ve_stream_depths = lock, ve_sending = None\<rparr>"
  have "offer_datagram list_channel B d (egress_new list_channel n) = (True, ?eg)"
    using assms(3) lock
    by (simp add: offer_datagram_def egress_try_reserve_media_def egress_new_def list_channel_def)
  moreover have "egress_receive list_channel ?eg =
      \<lparr>ve_channel = ([], n), ve_stream_depths = lock, ve_sending = Some d\<rparr>"
    by (simp add: egress_receive_def list_channel_def)
  ultimately show ?thesis
    using free by (simp add: egress_send_def Let_def egress_release_media_def egress_new_def list_channel_def)
qed

lemma idle_turn:
  "egress_send now (egress_receive list_channel (egress_new list_channel n)) = (None, egress_new list_channel n)"
  by (simp add: egress_send_def egress_receive_def egress_new_def list_channel_def)

end
