(* ===== verification/Load_On_Relay.thy ===== *)
theory Load_On_Relay
  imports Load_Net Control_Preserve Client_Served
begin

text \<open>
  The load test's run over QUIC succeeds on the relay. \<open>wired n k w\<close>: of \<open>n\<close> connections the first \<open>k\<close>
  have greeted, as users 1 to \<open>k\<close>, and all queues are idle; \<open>staged k st\<close>: these users are in room 1,
  the first publishes stream 1 and the others are subscribed to it.
\<close>

section \<open>Requests over the network\<close>

abbreviation net_state :: "load_net \<Rightarrow> control_state" where
  "net_state w \<equiv> rt_state (sy_runtime (ln_system w))"

abbreviation net_media :: "load_net \<Rightarrow> (egress_datagram list \<times> nat) media_relay" where
  "net_media w \<equiv> rt_media (sy_runtime (ln_system w))"

abbreviation net_session :: "load_net \<Rightarrow> nat \<Rightarrow> session" where
  "net_session w i \<equiv> cn_session (sy_conns (ln_system w) ! i)"

definition users :: "nat \<Rightarrow> user_id set" where
  "users k = of_nat ` {1..k}"

definition wired :: "nat \<Rightarrow> nat \<Rightarrow> load_net \<Rightarrow> bool" where
  "wired n k w \<longleftrightarrow>
     length (sy_conns (ln_system w)) = n \<and> ln_inboxes w = replicate n [] \<and> k \<le> n \<and>
     (\<forall>i<n. sess_user_id (net_session w i) = (if i < k then Some (of_nat (Suc i)) else None) \<and>
        (i < k \<longrightarrow> sess_access_granted (net_session w i))) \<and>
     rt_max_datagram_payload (sy_runtime (ln_system w)) = DEFAULT_DATAGRAM_PAYLOAD_TARGET \<and>
     mr_viewer_queue_budget_ms (net_media w) = 100 \<and> mr_egress_queue_capacity (net_media w) = 256 \<and>
     (\<forall>v. bt_get (mr_egress (net_media w)) v =
        (if v \<in> users k then Some (egress_new list_channel 256) else None))"

lemma codec_round_trip:
  assumes "json_codec ser de" and "\<exists>bs. ser e = Inr bs" and "env_protocol_version e = PROTOCOL_VERSION"
  shows "\<exists>bs. encode_envelope ser e = Inr bs \<and> decode_envelope de bs = Inr e"
proof -
  obtain js where js: "ser e = Inr js" using assms(2) by blast
  from json_codecD [OF assms(1) js] obtain mid where de: "de js = Inr e" and "js = [123] @ mid @ [125]" by blast
  then have "trim_ascii (js @ [10]) = js" by (simp add: trim_ascii_def is_ascii_whitespace_def)
  then have "decode_envelope de (js @ [10]) = Inr e" using de assms(3) by (simp add: decode_envelope_def)
  moreover have "encode_envelope ser e = Inr (js @ [10])" using js by (simp add: encode_envelope_def)
  ultimately show ?thesis by blast
qed

lemma exchange:
  assumes lc: "load_codec_ok lc" and v: "env_protocol_version e = PROTOCOL_VERSION"
    and h: "handle_client_envelope (lc_clock lc w) (lc_clock lc w) (net_session w i) e (net_state w) = (resp, s, st)"
    and load: "load_request (env_message e)" "load_reply (env_message resp)"
    and rv: "env_protocol_version resp = PROTOCOL_VERSION"
  shows "send_control_request (net_env lc) i e w = (Inr resp, w\<lparr>ln_system :=
    put_conn i ((sy_conns (ln_system w) ! i)\<lparr>cn_session := s\<rparr>)
      (register_greeted list_channel s resp ((sy_runtime (ln_system w))\<lparr>rt_state := st\<rparr>)) (ln_system w)\<rparr>)"
proof -
  obtain bs where bs: "encode_envelope (lc_encode_request lc) e = Inr bs"
    "decode_envelope (lc_decode_request lc) bs = Inr e"
    using codec_round_trip [OF _ _ v, of "lc_encode_request lc" "lc_decode_request lc"] lc
    load by (auto simp: load_codec_ok_def)
  obtain reply where reply: "encode_envelope (lc_encode_reply lc) resp = Inr reply"
    "decode_envelope (lc_decode_reply lc) reply = Inr resp"
    using codec_round_trip [OF _ _ rv, of "lc_encode_reply lc" "lc_decode_reply lc"] lc
    load by (auto simp: load_codec_ok_def)
  have "env_message resp \<noteq> StreamMetrics metrics" for metrics
    using load(2) by (auto simp: load_reply_def)
  then have "handle_control_bytes (lc_decode_request lc) (lc_show_error lc) (lc_clock lc w) (lc_clock lc w)
      (net_session w i) bs (sy_runtime (ln_system w)) = (resp, s, (sy_runtime (ln_system w))\<lparr>rt_state := st\<rparr>)"
    by (simp add: handle_control_bytes_def bs h split: server_control.split)
  then have "net_exchange lc i bs w = (Inr reply, w\<lparr>ln_system :=
    put_conn i ((sy_conns (ln_system w) ! i)\<lparr>cn_session := s\<rparr>)
      (register_greeted list_channel s resp ((sy_runtime (ln_system w))\<lparr>rt_state := st\<rparr>)) (ln_system w)\<rparr>)"
    by (simp add: net_exchange_def Let_def reply)
  then show ?thesis
    by (simp add: send_control_request_def net_env_def bs reply of_result_def of_world_def io_bind_def io_return_def)
qed

lemma users_Suc: "users (Suc k) = insert (of_nat (Suc k)) (users k)"
proof -
  have "{1..Suc k} = insert (Suc k) {1..k}" by auto
  then show ?thesis unfolding users_def by (simp del: of_nat_Suc)
qed

lemma wired_session:
  "wired n k w \<Longrightarrow> i < k \<Longrightarrow> sess_user_id (net_session w i) = Some (of_nat (Suc i))"
  "wired n k w \<Longrightarrow> i < k \<Longrightarrow> sess_access_granted (net_session w i)"
  "wired n k w \<Longrightarrow> k \<le> i \<Longrightarrow> i < n \<Longrightarrow> sess_user_id (net_session w i) = None"
  unfolding wired_def by (meson le_trans less_le_trans not_le)+

text \<open>A request of a user that is neither a greeting nor a poll of metrics.\<close>

lemma request:
  assumes lc: "load_codec_ok lc" and w: "wired n k w" and i: "i < k"
    and m: "\<And>now now' s. sess_user_id s = Some (of_nat (Suc i)) \<Longrightarrow>
      dispatch now now' s (net_state w) m = (reply, s, st)"
    and load: "load_request m" "load_reply reply" and plain: "\<And>h. reply \<noteq> HelloAccepted h"
  shows "\<exists>w'. send_control_request (net_env lc) i (envelope_new q m) w = (Inr (envelope_new q reply), w') \<and>
    wired n k w' \<and> net_state w' = st"
proof -
  let ?sys = "ln_system w" and ?s = "net_session w i"
  note s = wired_session(1,2) [OF w i]
  have "authorization_error ?s m (net_state w) = None"
    using s by (simp add: authorization_error_def)
  then have h: "handle_client_envelope (lc_clock lc w) (lc_clock lc w) ?s (envelope_new q m) (net_state w) =
      (envelope_new q reply, ?s, st)"
    using m [OF s(1)] by (simp add: handle_client_envelope_def envelope_new_def)
  have reg: "register_greeted list_channel ?s (envelope_new q reply) rt = rt" for rt
    using plain by (simp add: register_greeted_def envelope_new_def split: server_control.split)
  let ?w = "w\<lparr>ln_system := ?sys\<lparr>sy_runtime := (sy_runtime ?sys)\<lparr>rt_state := st\<rparr>\<rparr>\<rparr>"
  have "send_control_request (net_env lc) i (envelope_new q m) w = (Inr (envelope_new q reply), ?w)"
    using exchange [OF lc _ h] load by (simp add: envelope_new_def reg [unfolded envelope_new_def] put_conn_def)
  moreover have "wired n k ?w" using w by (simp add: wired_def)
  ultimately show ?thesis by auto
qed

lemma greeting:
  assumes lc: "load_codec_ok lc" and w: "wired n k w" and k: "k < n"
    and st: "cs_access_token (net_state w) = None" "cs_next_user_id (net_state w) = of_nat (Suc k)"
  shows "\<exists>r w' names. load_hello (net_env lc) k name w = (Inr r, w') \<and> wired n (Suc k) w' \<and>
    net_state w' = (net_state w)\<lparr>cs_next_user_id := of_nat (Suc (Suc k)), cs_display_names := names\<rparr> \<and>
    (wf_state (net_state w) \<longrightarrow> wf_state (net_state w'))"
proof -
  let ?sys = "ln_system w" and ?s = "net_session w k" and ?uid = "of_nat (Suc k) :: user_id"
  let ?m = "\<lparr>hello_protocol_version = PROTOCOL_VERSION, hello_client_name = name\<rparr>"
  let ?e = "envelope_new 1 (Hello ?m)"
  have s: "sess_user_id ?s = None" by (rule wired_session(3) [OF w _ k]) simp
  define display where "display = sanitize_display_name name ?uid"
  define s' where "s' = establish_identity ?uid True display ?s"
  define st' where "st' = (net_state w)\<lparr>cs_next_user_id := of_nat (Suc (Suc k)),
      cs_display_names := bt_insert ?uid display (cs_display_names (net_state w))\<rparr>"
  define reply where "reply = HelloAccepted \<lparr>ha_protocol_version = PROTOCOL_VERSION,
      ha_server_name = lit ''teamview-relay'', ha_user_id = ?uid, ha_display_name = display\<rparr>"
  have hello: "handle_hello ?s ?m (net_state w) = (reply, s', st')"
    using s st
    by (simp add: handle_hello_def Let_def reply_def s'_def st'_def display_def requires_access_token_def add.commute)
  then have h: "handle_client_envelope (lc_clock lc w) (lc_clock lc w) ?s ?e (net_state w) =
      (envelope_new 1 reply, s', st')"
    by (simp add: handle_client_envelope_def envelope_new_def authorization_error_def)
  let ?rt = "(sy_runtime ?sys)\<lparr>rt_state := st', rt_media := register_egress list_channel ?uid (net_media w)\<rparr>"
  have reg: "register_greeted list_channel s' (envelope_new 1 reply) ((sy_runtime ?sys)\<lparr>rt_state := st'\<rparr>) = ?rt"
    by (simp add: register_greeted_def envelope_new_def reply_def s'_def establish_identity_def)
  let ?w = "w\<lparr>ln_system := put_conn k ((sy_conns ?sys ! k)\<lparr>cn_session := s'\<rparr>) ?rt ?sys\<rparr>"
  have run: "load_hello (net_env lc) k name w = (Inr (envelope_new 1 reply), ?w)"
    using exchange [OF lc _ h] reg by (simp add: load_message_defs load_hello_def envelope_new_def reply_def)
  have sessions: "net_session ?w i = (if i = k then s' else net_session w i)" if "i < n" for i
    using w k that by (simp add: put_conn_def wired_def nth_list_update)
  have egress: "bt_get (mr_egress (register_egress list_channel ?uid (net_media w))) v =
      (if v \<in> users (Suc k) then Some (egress_new list_channel 256) else None)" for v
    using w by (simp add: register_egress_get wired_def users_Suc del: of_nat_Suc)
  have media: "mr_viewer_queue_budget_ms (register_egress list_channel ?uid (net_media w)) = 100"
    "mr_egress_queue_capacity (register_egress list_channel ?uid (net_media w)) = 256"
    using w by (simp_all add: wired_def register_egress_def unregister_egress_def Let_def)
  have "wired n (Suc k) ?w"
    unfolding wired_def
  proof (intro conjI allI impI)
    fix i assume i: "i < n"
    show "sess_user_id (net_session ?w i) = (if i < Suc k then Some (of_nat (Suc i)) else None)"
      unfolding sessions [OF i] using wired_session(1,3) [OF w, of i] i
      by (cases i k rule: linorder_cases) (simp_all add: s'_def establish_identity_def del: of_nat_Suc)
    assume "i < Suc k"
    then show "sess_access_granted (net_session ?w i)"
      unfolding sessions [OF i] using wired_session(2) [OF w, of i]
      by (auto simp: s'_def establish_identity_def less_Suc_eq)
  qed (use w k egress media in \<open>simp_all add: wired_def put_conn_def\<close>)
  moreover have "net_state ?w = st'" by (simp add: put_conn_def)
  moreover have "wf_state (net_state w) \<longrightarrow> wf_state st'"
    using wf_handle_hello [of "net_state w" ?s ?m] hello by simp
  ultimately show ?thesis using run unfolding st'_def by (metis (no_types))
qed

section \<open>The room\<close>

definition load_stream :: published_stream where
  "load_stream =
     \<lparr>st_stream_id = 1, st_publisher_id = 1, st_codec = H264, st_media_kind = Screen, st_config = None,
      st_target_bitrate_bps = DEFAULT_TARGET_BITRATE_BPS,
      st_target_frames_per_second = DEFAULT_TARGET_FRAMES_PER_SECOND, st_target_width = 0,
      st_target_height = 0\<rparr>"

text \<open>\<open>k\<close> users have greeted, \<open>j\<close> are in the room, \<open>l\<close> watch the stream or publish it.\<close>

definition staged :: "nat \<Rightarrow> nat \<Rightarrow> nat \<Rightarrow> control_state \<Rightarrow> bool" where
  "staged k j l st \<longleftrightarrow>
     wf_state st \<and> cs_access_token st = None \<and> max_participants_per_room (cs_limits st) = 64 \<and>
     cs_next_user_id st = of_nat (Suc k) \<and>
     (\<exists>r. bt_get (cs_rooms st) 1 = Some r \<and> participants r = users j \<and>
        bt_get (published_streams r) 1 = Some load_stream \<and> room_subscribers r 1 = users l - {1})"

lemma users_card: "k \<le> 64 \<Longrightarrow> card (users k) = k"
proof -
  assume k: "k \<le> 64"
  have "unat (of_nat i :: u64) = i" if "i \<le> 64" for i
    using that by (intro of_nat_unat_le) simp
  then have "inj_on (of_nat :: nat \<Rightarrow> u64) {1..k}"
    using k by (intro inj_onI) (metis atLeastAtMost_iff le_trans)
  then show ?thesis by (simp add: users_def card_image)
qed

lemma joins:
  assumes w: "wired n (Suc k) w" and st: "staged (Suc k) k k (net_state w)" and k: "1 \<le> k" "k < 64"
    and lc: "load_codec_ok lc"
  shows "\<exists>r w'. load_join (net_env lc) k q 1 w = (Inr r, w') \<and> wired n (Suc k) w' \<and>
    staged (Suc k) (Suc k) k (net_state w')"
proof -
  obtain r where r: "bt_get (cs_rooms (net_state w)) 1 = Some r" "participants r = users k"
      "bt_get (published_streams r) 1 = Some load_stream" "room_subscribers r 1 = users k - {1}"
    using st by (auto simp: staged_def)
  have full: "\<not> max_participants_per_room (cs_limits (net_state w)) \<le> card (participants r)"
    using st k r(2) users_card [of k] by (simp add: staged_def)
  define reply where "reply = RoomJoined \<lparr>joined_room_id = 1, joined_participant_count = fst (room_join (of_nat (Suc k)) r)\<rparr>"
  define st' where "st' = ensure_voice_state 1 (of_nat (Suc k))
      ((net_state w)\<lparr>cs_rooms := bt_insert 1 (snd (room_join (of_nat (Suc k)) r)) (cs_rooms (net_state w))\<rparr>)"
  have join: "handle_join_room s \<lparr>join_room_id = 1\<rparr> (net_state w) = (reply, st')"
    if "sess_user_id s = Some (of_nat (Suc k))" for s
    using that r(1) full by (simp add: handle_join_room_def reply_def st'_def split_beta Let_def)
  have "dispatch now now' s (net_state w) (JoinRoom \<lparr>join_room_id = 1\<rparr>) = (reply, s, st')"
    if "sess_user_id s = Some (of_nat (Suc k))" for now now' s
    using join [OF that] by (simp add: keep_session_def)
  from request [OF lc w _ this, where q = q]
  obtain w' where w': "load_join (net_env lc) k q 1 w = (Inr (envelope_new q reply), w')" "wired n (Suc k) w'"
    "net_state w' = st'"
    by (auto simp: load_message_defs reply_def load_join_def)
  have "wf_state st'"
    using wf_handle_join_room [of "net_state w" "session_anonymous 0\<lparr>sess_user_id := Some (of_nat (Suc k))\<rparr>"
        "\<lparr>join_room_id = 1\<rparr>"] join st by (simp add: staged_def)
  then have "staged (Suc k) (Suc k) k st'"
    using st r
    by (auto simp: st'_def ensure_voice_state_def room_join_def Let_def staged_def users_Suc room_subscribers_def
        simp del: of_nat_Suc)
  with w' show ?thesis by blast
qed

lemma subscribes:
  assumes w: "wired n (Suc k) w" and st: "staged (Suc k) (Suc k) k (net_state w)" and k: "1 \<le> k" "k < 64"
    and lc: "load_codec_ok lc"
  shows "\<exists>r w'. load_subscribe (net_env lc) k q 1 1 w = (Inr r, w') \<and> wired n (Suc k) w' \<and>
    staged (Suc k) (Suc k) (Suc k) (net_state w')"
proof -
  let ?m = "\<lparr>sub_room_id = 1, sub_stream_id = 1\<rparr>" and ?uid = "of_nat (Suc k) :: user_id"
  obtain r where r: "bt_get (cs_rooms (net_state w)) 1 = Some r" "participants r = users (Suc k)"
      "bt_get (published_streams r) 1 = Some load_stream" "room_subscribers r 1 = users k - {1}"
    using st by (auto simp: staged_def)
  define reply where "reply = StreamSubscribed \<lparr>ss_room_id = 1, ss_stream_id = 1\<rparr>"
  define st1 where "st1 = (net_state w)\<lparr>cs_rooms := bt_insert 1 (snd (room_subscribe 1 ?uid r)) (cs_rooms (net_state w))\<rparr>"
  define st' where "st' = (if is_room_subscriber r 1 ?uid then st1 else register_keyframe_request 1 NewSubscriber st1)"
  have "handle_subscribe_stream s ?m (net_state w) = (reply, st')" if "sess_user_id s = Some ?uid" for s
    using that r
    by (simp add: handle_subscribe_stream_def reply_def st'_def st1_def split_beta Let_def users_Suc
        room_subscribe_def load_stream_def del: of_nat_Suc)
  note sub = this
  have "dispatch now now' s (net_state w) (SubscribeStream ?m) = (reply, s, st')"
    if "sess_user_id s = Some ?uid" for now now' s
    using sub [OF that] by (simp add: keep_session_def)
  from request [OF lc w _ this, where q = q]
  obtain w' where w': "load_subscribe (net_env lc) k q 1 1 w = (Inr (envelope_new q reply), w')" "wired n (Suc k) w'"
    "net_state w' = st'"
    by (auto simp: load_message_defs reply_def load_subscribe_def)
  have wf: "wf_state st'"
    using wf_handle_subscribe_stream [of "net_state w" "session_anonymous 0\<lparr>sess_user_id := Some ?uid\<rparr>" ?m] sub st
    by (simp add: staged_def)
  have one: "?uid \<noteq> 1"
  proof
    assume "?uid = 1"
    then have "unat ?uid = 1" by simp
    moreover have "unat ?uid = Suc k" using k by (intro of_nat_unat_le) simp
    ultimately show False using k by simp
  qed
  have "cs_rooms st' = cs_rooms st1" "cs_access_token st' = None" "cs_limits st' = cs_limits (net_state w)"
    "cs_next_user_id st' = cs_next_user_id (net_state w)"
    using st by (auto simp: st'_def st1_def staged_def register_keyframe_request_def)
  moreover have "users k - {1} \<union> {?uid} = users (Suc k) - {1}" using one by (auto simp: users_Suc simp del: of_nat_Suc)
  moreover have "room_subscribers (snd (room_subscribe 1 ?uid r)) 1 = insert ?uid (room_subscribers r 1)"
    "participants (snd (room_subscribe 1 ?uid r)) = participants r"
    "published_streams (snd (room_subscribe 1 ?uid r)) = published_streams r"
    using r(3) by (auto simp: room_subscribe_def room_subscribers_def split: option.split)
  ultimately have "staged (Suc k) (Suc k) (Suc k) st'"
    using st r wf by (auto simp: staged_def st1_def simp del: of_nat_Suc)
  with w' show ?thesis by blast
qed

lemma viewer_arrives:
  assumes lc: "load_codec_ok lc" and w: "wired n k w" and st: "staged k k k (net_state w)" and k: "1 \<le> k" "k < 64" "k < n"
  shows "\<exists>r w'. io_then (load_hello (net_env lc) k name)
      (io_then (load_join (net_env lc) k 2 1) (load_subscribe (net_env lc) k 3 1 1)) w = (Inr r, w') \<and>
    wired n (Suc k) w' \<and> staged (Suc k) (Suc k) (Suc k) (net_state w')"
proof -
  have "cs_access_token (net_state w) = None" "cs_next_user_id (net_state w) = of_nat (Suc k)"
    using st by (simp_all add: staged_def)
  from greeting [OF lc w k(3) this] obtain r1 w1 names where
    w1: "load_hello (net_env lc) k name w = (Inr r1, w1)" "wired n (Suc k) w1"
      "net_state w1 = (net_state w)\<lparr>cs_next_user_id := of_nat (Suc (Suc k)), cs_display_names := names\<rparr>"
      "wf_state (net_state w) \<longrightarrow> wf_state (net_state w1)" by blast
  have "staged (Suc k) k k (net_state w1)"
    using st w1(3,4) by (simp add: staged_def)
  from joins [OF w1(2) this k(1,2) lc] obtain r2 w2 where
    w2: "load_join (net_env lc) k 2 1 w1 = (Inr r2, w2)" "wired n (Suc k) w2" "staged (Suc k) (Suc k) k (net_state w2)"
    by blast
  from subscribes [OF w2(2,3) k(1,2) lc] show ?thesis
    by (auto simp: io_then_def io_bind_def w1(1) w2(1))
qed

section \<open>Setting up\<close>

lemma start_wired: "wired 0 0 net_start" "net_state net_start = control_state_new"
  by (simp_all add: wired_def net_start_def control_runtime_new_def media_relay_new_def with_egress_limits_def
      DEFAULT_EGRESS_QUEUE_CAPACITY_def DEFAULT_VIEWER_QUEUE_BUDGET_MS_def users_def)

lemma connects:
  assumes "wired n 0 w"
  shows "\<exists>w'. open_connection (net_env lc) w = (Inr n, w') \<and> wired (Suc n) 0 w' \<and> net_state w' = net_state w"
proof -
  obtain w' where w': "net_connect w = (Inr n, w')" using assms by (auto simp: net_connect_def wired_def Let_def)
  then have "open_connection (net_env lc) w = (Inr n, w')"
    by (simp add: open_connection_def net_env_def of_world_def io_then_def io_bind_def io_return_def)
  moreover have "wired (Suc n) 0 w'" "net_state w' = net_state w"
    using w' assms
    by (auto simp: net_connect_def wired_def Let_def nth_append session_anonymous_def replicate_append_same)
  ultimately show ?thesis by blast
qed

lemma connects_each:
  assumes "wired n 0 w"
  shows "\<exists>w'. io_each (\<lambda>_. open_connection (net_env lc)) xs w = (Inr [n..<n + length xs], w') \<and>
    wired (n + length xs) 0 w' \<and> net_state w' = net_state w"
  using assms
proof (induction xs arbitrary: n w)
  case Nil
  then show ?case by (simp add: io_return_def)
next
  case (Cons x xs)
  from connects [OF Cons.prems] obtain w1 where
    w1: "open_connection (net_env lc) w = (Inr n, w1)" "wired (Suc n) 0 w1" "net_state w1 = net_state w" by blast
  from Cons.IH [OF w1(2)] obtain w2 where
    w2: "io_each (\<lambda>_. open_connection (net_env lc)) xs w1 = (Inr [Suc n..<Suc n + length xs], w2)"
      "wired (Suc n + length xs) 0 w2" "net_state w2 = net_state w1" by blast
  have "[n..<n + length (x # xs)] = n # [Suc n..<Suc n + length xs]" by (simp add: upt_conv_Cons del: upt_Suc)
  then show ?case using w1 w2 by (auto simp: io_bind_def io_return_def simp del: upt_Suc)
qed

lemma connect_all_connects:
  "\<exists>w. connect_all (net_env lc) a net_start = (Inr (0, [1..<Suc (unat (la_viewers a))]), w) \<and>
     wired (Suc (unat (la_viewers a))) 0 w \<and> net_state w = control_state_new"
proof -
  from connects [OF start_wired(1)] obtain w1 where
    w1: "open_connection (net_env lc) net_start = (Inr 0, w1)" "wired (Suc 0) 0 w1" "net_state w1 = net_state net_start"
    by blast
  from connects_each [OF w1(2), of lc "[0..<unat (la_viewers a)]"] obtain w2 where
    w2: "io_each (\<lambda>_. open_connection (net_env lc)) [0..<unat (la_viewers a)] w1 =
        (Inr [1..<Suc (unat (la_viewers a))], w2)"
      "wired (Suc (unat (la_viewers a))) 0 w2" "net_state w2 = net_state w1" by (auto simp del: upt_Suc)
  have serve: "of_world (le_serve (net_env lc)) net_start = (Inr (), net_start)"
    by (simp add: net_env_def of_world_def io_return_def)
  show ?thesis
    using w1 w2 start_wired(2)
    by (simp add: connect_all_def io_then_def io_bind_def serve io_return_def del: upt_Suc)
qed

text \<open>The publisher's requests.\<close>

lemma publisher_arrives:
  assumes lc: "load_codec_ok lc" and w: "wired n 0 w" and st: "net_state w = control_state_new" and n: "0 < n"
  shows "\<exists>r1 r2 r3 w1 w2 w3 w4. load_hello (net_env lc) 0 name w = (Inr r1, w1) \<and>
    load_create_room (net_env lc) 0 room_name w1 = (Inr 1, w2) \<and> load_join (net_env lc) 0 3 1 w2 = (Inr r2, w3) \<and>
    load_publish (net_env lc) 0 4 1 1 H264 Screen w3 = (Inr r3, w4) \<and>
    wired n 1 w4 \<and> staged 1 1 1 (net_state w4)"
proof -
  have new: "cs_access_token control_state_new = None" "cs_next_user_id control_state_new = of_nat (Suc 0)"
    "cs_rooms control_state_new = bt_new" "cs_next_room_id control_state_new = 1"
    "max_participants_per_room (cs_limits control_state_new) = 64"
    "max_rooms (cs_limits control_state_new) \<noteq> 0" "max_streams_per_room (cs_limits control_state_new) \<noteq> 0"
    "wf_state control_state_new"
    by (simp_all add: control_state_new_def limits_default_def DEFAULT_MAX_ROOMS_def
        DEFAULT_MAX_PARTICIPANTS_PER_ROOM_def DEFAULT_MAX_STREAMS_PER_ROOM_def wf_control_state_new
        wf_control_state_new [unfolded control_state_new_def limits_default_def DEFAULT_MAX_ROOMS_def
        DEFAULT_MAX_PARTICIPANTS_PER_ROOM_def DEFAULT_MAX_STREAMS_PER_ROOM_def])
  obtain r1 w1 names where w1: "load_hello (net_env lc) 0 name w = (Inr r1, w1)" "wired n 1 w1"
    "net_state w1 = control_state_new\<lparr>cs_next_user_id := 2, cs_display_names := names\<rparr>" "wf_state (net_state w1)"
    using greeting [OF lc w n, of name] st new by auto
  have uid: "of_nat (Suc 0) = (1 :: user_id)" by simp
  let ?r = "snd (room_join 1 (room_new 1 (sanitize_room_name room_name 1)))"
  define st2 where "st2 = ensure_voice_state 1 1 ((net_state w1)\<lparr>cs_next_room_id := 2, cs_rooms := bt_insert 1 ?r bt_new\<rparr>)"
  define created where "created = RoomCreated \<lparr>created_room_id = 1, created_name = sanitize_room_name room_name 1\<rparr>"
  have create: "handle_create_room s \<lparr>create_name = room_name\<rparr> (net_state w1) = (created, st2)"
    if "sess_user_id s = Some 1" for s
    using that new(3-6) w1(3)
    by (simp add: handle_create_room_def Let_def created_def st2_def bt_len_def bt_new.rep_eq)
  have "dispatch now now' s (net_state w1) (CreateRoom \<lparr>create_name = room_name\<rparr>) = (created, s, st2)"
    if "sess_user_id s = Some (of_nat (Suc 0))" for now now' s
    using create [of s] that by (simp add: keep_session_def)
  from request [OF lc w1(2) _ this, where q = 2]
  obtain w2 where w2: "send_control_request (net_env lc) 0 (envelope_new 2 (CreateRoom \<lparr>create_name = room_name\<rparr>)) w1 =
      (Inr (envelope_new 2 created), w2)" "wired n 1 w2" "net_state w2 = st2"
    by (auto simp: load_message_defs created_def)
  have room: "load_create_room (net_env lc) 0 room_name w1 = (Inr 1, w2)"
    using w2(1) by (simp add: load_create_room_def io_bind_def envelope_new_def created_def io_return_def)
  have wf2: "wf_state st2"
    using wf_handle_create_room [OF w1(4), of "session_anonymous 0\<lparr>sess_user_id := Some 1\<rparr>" "\<lparr>create_name = room_name\<rparr>"]
      create w1(3) new(3) by simp
  have r: "bt_get (cs_rooms st2) 1 = Some ?r" "1 \<in> participants ?r" "published_streams ?r = bt_new"
    "subscriptions ?r = bt_new" "participants ?r = {1}"
    by (simp_all add: st2_def ensure_voice_state_def room_join_def room_new_def Let_def)
  have st2: "cs_access_token st2 = None" "cs_limits st2 = cs_limits control_state_new" "cs_next_user_id st2 = 2"
    using w1(3) new(1) by (simp_all add: st2_def ensure_voice_state_def)
  define st3 where "st3 = ensure_voice_state 1 1 (st2\<lparr>cs_rooms := bt_insert 1 (snd (room_join 1 ?r)) (cs_rooms st2)\<rparr>)"
  define joined where "joined = RoomJoined \<lparr>joined_room_id = 1, joined_participant_count = fst (room_join 1 ?r)\<rparr>"
  have join: "handle_join_room s \<lparr>join_room_id = 1\<rparr> st2 = (joined, st3)" if "sess_user_id s = Some 1" for s
    using that r(1,2) by (simp add: handle_join_room_def joined_def st3_def split_beta Let_def)
  have "dispatch now now' s (net_state w2) (JoinRoom \<lparr>join_room_id = 1\<rparr>) = (joined, s, st3)"
    if "sess_user_id s = Some (of_nat (Suc 0))" for now now' s
    using join [of s] that w2(3) by (simp add: keep_session_def)
  from request [OF lc w2(2) _ this, where q = 3]
  obtain w3 where w3: "load_join (net_env lc) 0 3 1 w2 = (Inr (envelope_new 3 joined), w3)" "wired n 1 w3" "net_state w3 = st3"
    by (auto simp: load_message_defs joined_def load_join_def)
  have wf3: "wf_state st3"
    using wf_handle_join_room [OF wf2, of "session_anonymous 0\<lparr>sess_user_id := Some 1\<rparr>" "\<lparr>join_room_id = 1\<rparr>"] join
    by simp
  have r3: "bt_get (cs_rooms st3) 1 = Some ?r" "cs_access_token st3 = None" "cs_limits st3 = cs_limits control_state_new"
    "cs_next_user_id st3 = 2" "cs_rooms st3 = bt_insert 1 ?r (cs_rooms st2)"
    using st2 r(2) by (simp_all add: st3_def ensure_voice_state_def room_join_def Let_def insert_absorb)
  let ?m = "\<lparr>pub_room_id = 1, pub_stream_id = 1, pub_codec = H264, pub_media_kind = Screen\<rparr>"
  have "\<not> published_in (cs_rooms st3) rid 1 x" for rid x
    by (auto simp: published_in_def r3(5) st2_def ensure_voice_state_def r(3) split: if_splits)
  then have "published_stream st3 1 = None"
    using published_stream_iff [OF wf_stateD(1) [OF wf3], of 1] by (metis not_Some_eq)
  then have none: "publisher_for_stream st3 1 = None" by (simp add: publisher_for_stream_def)
  define st4 where "st4 = st3\<lparr>cs_rooms := bt_insert 1 (room_publish_stream load_stream ?r) (cs_rooms st3)\<rparr>"
  define published where "published = StreamPublished \<lparr>sp_room_id = 1, sp_stream_id = 1\<rparr>"
  have publish: "handle_publish_stream s ?m st3 = (published, st4)" if "sess_user_id s = Some 1" for s
    using that none r3(1,3) r(2,3) new(7)
    by (simp add: handle_publish_stream_def published_def st4_def load_stream_def bt_len_def bt_new.rep_eq)
  have "dispatch now now' s (net_state w3) (PublishStream ?m) = (published, s, st4)"
    if "sess_user_id s = Some (of_nat (Suc 0))" for now now' s
    using publish [of s] that w3(3) by (simp add: keep_session_def)
  from request [OF lc w3(2) _ this, where q = 4]
  obtain w4 where w4: "load_publish (net_env lc) 0 4 1 1 H264 Screen w3 = (Inr (envelope_new 4 published), w4)" "wired n 1 w4"
    "net_state w4 = st4"
    by (auto simp: load_message_defs published_def load_publish_def)
  have "wf_state st4"
    using wf_handle_publish_stream [OF wf3, of "session_anonymous 0\<lparr>sess_user_id := Some 1\<rparr>" ?m] publish by simp
  then have "staged 1 1 1 st4"
    using r3 r new(5)
    by (simp add: staged_def st4_def room_publish_stream_def load_stream_def users_def room_subscribers_def)
  with w1 room w3 w4 show ?thesis by blast
qed

lemma viewers_arrive:
  fixes name :: "nat \<Rightarrow> rstring"
  assumes lc: "load_codec_ok lc" and v: "v \<le> 63"
  defines "arrive \<equiv> (\<lambda>(index, viewer). io_then (load_hello (net_env lc) viewer (name index))
      (io_then (load_join (net_env lc) viewer 2 1) (load_subscribe (net_env lc) viewer 3 1 1)))"
  assumes "wired (Suc v) (Suc j) w" and "staged (Suc j) (Suc j) (Suc j) (net_state w)" and "j \<le> v"
  shows "\<exists>rs w'. io_each arrive (enumerate j [Suc j..<Suc v]) w = (Inr rs, w') \<and>
    wired (Suc v) (Suc v) w' \<and> staged (Suc v) (Suc v) (Suc v) (net_state w')"
  using assms(4-6)
proof (induction "v - j" arbitrary: j w)
  case 0
  then show ?case by (auto simp: io_return_def)
next
  case (Suc d)
  then have jv: "j < v" by simp
  have "1 \<le> Suc j" "Suc j < 64" "Suc j < Suc v" using jv v by simp_all
  from viewer_arrives [OF lc Suc.prems(1,2) this, of "name j"] obtain r w1 where
    w1: "arrive (j, Suc j) w = (Inr r, w1)" "wired (Suc v) (Suc (Suc j)) w1"
      "staged (Suc (Suc j)) (Suc (Suc j)) (Suc (Suc j)) (net_state w1)"
    by (auto simp: arrive_def)
  have "d = v - Suc j" "Suc j \<le> v" using Suc.hyps(2) jv by simp_all
  from Suc.hyps(1) [OF this(1) w1(2,3) this(2)] obtain rs w2 where
    w2: "io_each arrive (enumerate (Suc j) [Suc (Suc j)..<Suc v]) w1 = (Inr rs, w2)"
      "wired (Suc v) (Suc v) w2" "staged (Suc v) (Suc v) (Suc v) (net_state w2)" by blast
  have "enumerate j [Suc j..<Suc v] = (j, Suc j) # enumerate (Suc j) [Suc (Suc j)..<Suc v]"
    using jv by (simp add: upt_conv_Cons del: upt_Suc)
  then show ?case using w1(1) w2 by (auto simp: io_bind_def io_return_def simp del: upt_Suc)
qed

lemma setup_succeeds:
  assumes lc: "load_codec_ok lc" and v: "v \<le> 63" and w: "wired (Suc v) 0 w" and st: "net_state w = control_state_new"
  shows "\<exists>w'. quic_sample_setup (net_env lc) 0 [1..<Suc v] w = (Inr (), w') \<and>
    wired (Suc v) (Suc v) w' \<and> staged (Suc v) (Suc v) (Suc v) (net_state w')"
proof -
  have "0 < Suc v" by simp
  from publisher_arrives [OF lc w st this, of "lit ''load-test-publisher''" "lit ''load-test''"]
  obtain r1 r2 r3 w1 w2 w3 w4 where
    p: "load_hello (net_env lc) 0 (lit ''load-test-publisher'') w = (Inr r1, w1)"
      "load_create_room (net_env lc) 0 (lit ''load-test'') w1 = (Inr 1, w2)"
      "load_join (net_env lc) 0 3 1 w2 = (Inr r2, w3)" "load_publish (net_env lc) 0 4 1 1 H264 Screen w3 = (Inr r3, w4)"
    and w4: "wired (Suc v) 1 w4" "staged 1 1 1 (net_state w4)" by blast
  from viewers_arrive [OF lc v, of 0 w4 "\<lambda>index. lit ''load-test-viewer-'' @ dec index"] w4 obtain rs w5 where
    w5: "io_each (\<lambda>(index, viewer). io_then (load_hello (net_env lc) viewer (lit ''load-test-viewer-'' @ dec index))
      (io_then (load_join (net_env lc) viewer 2 1) (load_subscribe (net_env lc) viewer 3 1 1)))
      (enumerate 0 [1..<Suc v]) w4 = (Inr rs, w5)"
      "wired (Suc v) (Suc v) w5" "staged (Suc v) (Suc v) (Suc v) (net_state w5)"
    by (auto simp del: upt_Suc)
  then show ?thesis
    by (auto simp: quic_sample_setup_def io_then_def io_bind_def p io_return_def simp del: upt_Suc)
qed

end
