(* ===== verification/Load_Delivered.thy ===== *)
theory Load_Delivered
  imports Load_On_Relay
begin

text \<open>
  What the publisher of the load test sends reaches every viewer, so the run over QUIC succeeds and
  counts every frame.
\<close>

section \<open>One datagram\<close>

text \<open>All users are set up; the inboxes may hold datagrams.\<close>

definition ready :: "nat \<Rightarrow> load_net \<Rightarrow> bool" where
  "ready v w \<longleftrightarrow>
     wired (Suc v) (Suc v) (w\<lparr>ln_inboxes := replicate (Suc v) []\<rparr>) \<and>
     staged (Suc v) (Suc v) (Suc v) (net_state w) \<and> length (ln_inboxes w) = Suc v"

lemma users_iff: "i < 64 \<Longrightarrow> of_nat (Suc i) \<in> users k \<longleftrightarrow> i < k" if "k \<le> 64"
proof -
  assume i: "i < 64"
  have small: "unat (of_nat j :: u64) = j" if "j \<le> 64" for j
    using that by (intro of_nat_unat_le) simp
  show ?thesis
  proof
    assume "of_nat (Suc i) \<in> users k"
    then obtain j where j: "(of_nat (Suc i) :: u64) = of_nat j" "1 \<le> j" "j \<le> k" by (auto simp: users_def)
    have "Suc i \<le> 64" "j \<le> 64" using i j(3) that by linarith+
    then have "Suc i = j" using small j(1) by metis
    with j show "i < k" by simp
  next
    assume "i < k"
    then have "Suc i \<in> {1..k}" by simp
    then show "of_nat (Suc i) \<in> users k" unfolding users_def by (rule imageI)
  qed
qed

lemma turn:
  assumes "sess_user_id (net_session w i) = Some uid" and "bt_get (mr_egress (net_media w)) uid = Some eg"
    and "egress_send now (egress_receive list_channel eg) = (sent, eg')"
  shows "net_turn now i w = w\<lparr>ln_system := put_egress uid eg' (ln_system w),
    ln_inboxes := (ln_inboxes w)[i := ln_inboxes w ! i @ (case sent of None \<Rightarrow> [] | Some b \<Rightarrow> [b])]\<rparr>"
  using assms by (simp add: net_turn_def Let_def)

lemma put_egress_simps [simp]:
  "sy_conns (put_egress u eg sys) = sy_conns sys"
  "rt_state (sy_runtime (put_egress u eg sys)) = rt_state (sy_runtime sys)"
  "rt_max_datagram_payload (sy_runtime (put_egress u eg sys)) = rt_max_datagram_payload (sy_runtime sys)"
  "mr_viewer_queue_budget_ms (rt_media (sy_runtime (put_egress u eg sys))) = mr_viewer_queue_budget_ms (rt_media (sy_runtime sys))"
  "mr_egress_queue_capacity (rt_media (sy_runtime (put_egress u eg sys))) = mr_egress_queue_capacity (rt_media (sy_runtime sys))"
  "bt_get (mr_egress (rt_media (sy_runtime (put_egress u eg sys)))) = (bt_get (mr_egress (rt_media (sy_runtime sys))))(u \<mapsto> eg)"
  by (simp_all add: put_egress_def)

text \<open>
  Every send task has its turn: the viewers' queues hold the datagram that becomes \<open>b\<close>, the
  publisher's is idle.
\<close>

lemma turns:
  fixes eg1 :: "(egress_datagram list \<times> nat) viewer_egress"
  assumes v: "v \<le> 63" and m: "m \<le> Suc v"
    and conns: "\<And>i. i \<le> v \<Longrightarrow> sess_user_id (net_session w i) = Some (of_nat (Suc i))"
    and egress: "bt_get (mr_egress (net_media w)) 1 = Some (egress_new list_channel 256)"
      "\<And>i. 1 \<le> i \<Longrightarrow> i \<le> v \<Longrightarrow> bt_get (mr_egress (net_media w)) (of_nat (Suc i)) = Some eg1"
    and eg1: "egress_send now (egress_receive list_channel eg1) = (Some b, egress_new list_channel 256)"
    and len: "length (ln_inboxes w) = Suc v"
  defines "w' \<equiv> fold (net_turn now) [0..<m] w"
  shows "sy_conns (ln_system w') = sy_conns (ln_system w) \<and> net_state w' = net_state w \<and>
    rt_max_datagram_payload (sy_runtime (ln_system w')) = rt_max_datagram_payload (sy_runtime (ln_system w)) \<and>
    mr_viewer_queue_budget_ms (net_media w') = mr_viewer_queue_budget_ms (net_media w) \<and>
    mr_egress_queue_capacity (net_media w') = mr_egress_queue_capacity (net_media w) \<and>
    (\<forall>u. bt_get (mr_egress (net_media w')) u =
       (if u \<in> users m then Some (egress_new list_channel 256) else bt_get (mr_egress (net_media w)) u)) \<and>
    length (ln_inboxes w') = Suc v \<and>
    (\<forall>i \<le> v. ln_inboxes w' ! i = ln_inboxes w ! i @ (if 1 \<le> i \<and> i < m then [b] else []))"
  using m unfolding w'_def
proof (induction m)
  case 0
  then show ?case by (simp add: users_def len)
next
  case (Suc m)
  define w1 where "w1 = fold (net_turn now) [0..<m] w"
  have m: "m \<le> v" "m < 64" using Suc.prems v by simp_all
  note IH = Suc.IH [folded w1_def]
  let ?uid = "of_nat (Suc m) :: user_id" and ?new = "egress_new list_channel 256"
  have uid: "sess_user_id (net_session w1 m) = Some ?uid" using IH conns [OF m(1)] Suc.prems by simp
  have notin: "?uid \<notin> users m" using users_iff [of m m] m by simp
  obtain sent where sent: "net_turn now m w1 = w1\<lparr>ln_system := put_egress ?uid ?new (ln_system w1),
      ln_inboxes := (ln_inboxes w1)[m := ln_inboxes w1 ! m @ sent]\<rparr>" "sent = (if 1 \<le> m then [b] else [])"
  proof (cases "1 \<le> m")
    case True
    then have "bt_get (mr_egress (net_media w1)) ?uid = Some eg1"
      using IH notin egress(2) [OF True m(1)] Suc.prems by (simp del: of_nat_Suc)
    from turn [OF uid this eg1] show ?thesis using that True by simp
  next
    case False
    then have "m = 0" by simp
    then have "bt_get (mr_egress (net_media w1)) ?uid = Some ?new"
      using IH notin egress(1) by simp
    from turn [OF uid this idle_turn] show ?thesis using that False by simp
  qed
  have fold: "fold (net_turn now) [0..<Suc m] w = net_turn now m w1" by (simp add: w1_def)
  have "m < length (ln_inboxes w1)" using IH Suc.prems by simp
  then have "(ln_inboxes w1)[m := ln_inboxes w1 ! m @ sent] ! i =
      ln_inboxes w ! i @ (if 1 \<le> i \<and> i < Suc m then [b] else [])" if "i \<le> v" for i
    using IH Suc.prems that sent(2) by (cases "i = m") (auto simp: nth_list_update)
  then show ?case
    unfolding fold sent(1) using IH Suc.prems by (simp add: users_Suc del: of_nat_Suc)
qed

lemma record_keeps:
  "cs_rooms (record_media_forward_summary packet summary n t ms st) = cs_rooms st"
  "cs_access_token (record_media_forward_summary packet summary n t ms st) = cs_access_token st"
  "cs_limits (record_media_forward_summary packet summary n t ms st) = cs_limits st"
  "cs_next_user_id (record_media_forward_summary packet summary n t ms st) = cs_next_user_id st"
  by (simp_all add: record_media_forward_summary_def Let_def)

text \<open>A packet of the stream that the publisher may send.\<close>

definition screen_packet_ok :: "media_packet \<Rightarrow> bytes \<Rightarrow> bool" where
  "screen_packet_ok p bytes \<longleftrightarrow>
     packet_encode p = Inr bytes \<and> h_version (p_header p) = PROTOCOL_VERSION \<and>
     length bytes \<le> DEFAULT_DATAGRAM_PAYLOAD_TARGET \<and> h_room_stream_id (p_header p) = 1 \<and>
     h_codec (p_header p) = H264 \<and> h_packet_type (p_header p) = Video"

lemma forwards:
  assumes w: "wired (Suc v) (Suc v) w" and st: "staged (Suc v) (Suc v) (Suc v) (net_state w)" and v: "v \<le> 63"
    and p: "screen_packet_ok p bytes"
  shows "\<exists>rt eg1 b. handle_media_datagram list_channel (net_session w 0) bytes now now (sy_runtime (ln_system w)) = rt \<and>
    staged (Suc v) (Suc v) (Suc v) (rt_state rt) \<and>
    rt_max_datagram_payload rt = DEFAULT_DATAGRAM_PAYLOAD_TARGET \<and>
    mr_viewer_queue_budget_ms (rt_media rt) = 100 \<and> mr_egress_queue_capacity (rt_media rt) = 256 \<and>
    (\<forall>u. bt_get (mr_egress (rt_media rt)) u =
       (if u \<in> users (Suc v) - {1} then Some eg1 else if u = 1 then Some (egress_new list_channel 256) else None)) \<and>
    egress_send now (egress_receive list_channel eg1) = (Some b, egress_new list_channel 256) \<and>
    packet_decode b = Inr (relayed p now now)"
proof -
  let ?rt = "sy_runtime (ln_system w)" and ?st = "net_state w" and ?media = "net_media w"
  let ?new = "egress_new list_channel 256 :: (egress_datagram list \<times> nat) viewer_egress"
  have enc: "packet_encode p = Inr bytes" and ver: "h_version (p_header p) = PROTOCOL_VERSION"
    and len: "\<not> DEFAULT_DATAGRAM_PAYLOAD_TARGET < length bytes" and sid: "h_room_stream_id (p_header p) = 1"
    and kind: "h_codec (p_header p) = H264" "h_packet_type (p_header p) = Video"
    using p by (simp_all add: screen_packet_ok_def)
  have wf: "wf_state ?st" using st by (simp add: staged_def)
  obtain r where r: "bt_get (cs_rooms ?st) 1 = Some r" "bt_get (published_streams r) 1 = Some load_stream"
      "room_subscribers r 1 = users (Suc v) - {1}"
    using st by (auto simp: staged_def)
  have pub: "published_in (cs_rooms ?st) 1 (h_room_stream_id (p_header p)) load_stream"
    using r by (auto simp: published_in_def sid)
  have adm: "admitted ?st 1 p load_stream"
    using enc kind by (auto simp: admitted_def load_stream_def)
  have hears: "hears ?st load_stream sid' u" for sid' u by (simp add: hears_def load_stream_def)
  let ?d = "egress_datagram_of p now load_stream 100"
  let ?loop = "forward_loop list_channel 100 1 (\<lambda>u. \<not> hears ?st load_stream 1 u) ?d (subscribers_for_stream ?st 1)
      \<lparr>mfs_stream_id = 1, mfs_queued = 0, mfs_dropped = 0\<rparr> (mr_egress ?media)"
  have budget: "mr_viewer_queue_budget_ms ?media = 100" using w by (simp add: wired_def)
  have fwd: "forward_media_packet list_channel ?st 1 p now ?media = (fst ?loop, ?media\<lparr>mr_egress := snd ?loop\<rparr>)"
    by (subst forward_media_admitted [OF wf pub adm]) (simp add: sid budget Let_def)
  have subs: "set (subscribers_for_stream ?st 1) = users (Suc v) - {1}" "distinct (subscribers_for_stream ?st 1)"
    using subscribers_published [OF wf pub] r by (auto simp: sid subscribed_def)
  have "eg_media_duration_ms ?d \<le> 100"
    using packet_duration_le [of p load_stream 100] by (simp add: egress_datagram_of_def)
  from one_turn [OF this, of 256 now] obtain eg1 where
    eg1: "offer_datagram list_channel 100 ?d ?new = (True, eg1)"
    and turn: "egress_send now (egress_receive list_channel eg1) =
      (case packet_encode ((eg_packet ?d)\<lparr>p_header := (p_header (eg_packet ?d))\<lparr>h_server_send_time_micros := now\<rparr>\<rparr>) of
         Inl _ \<Rightarrow> None | Inr bs \<Rightarrow> Some bs, ?new)"
    by auto
  have relayed: "(eg_packet ?d)\<lparr>p_header := (p_header (eg_packet ?d))\<lparr>h_server_send_time_micros := now\<rparr>\<rparr> = relayed p now now"
    by (simp add: egress_datagram_of_def packet_for_egress_def relayed_def)
  have "\<exists>b. packet_encode (relayed p now now) = Inr b" using enc by (simp add: packet_encode_Inr)
  then obtain b where b: "packet_encode (relayed p now now) = Inr b" ..
  have decode: "packet_decode b = Inr (relayed p now now)"
    by (rule packet_decode_encode [OF b]) (simp add: ver)
  have one: "1 \<in> users (Suc v)" using users_iff [of "Suc v" 0] v by simp
  have egress: "bt_get (snd ?loop) u =
      (if u \<in> users (Suc v) - {1} then Some eg1 else if u = 1 then Some ?new else None)" for u
    using forward_loop_egress [OF subs(2), of list_channel 100 1 "\<lambda>u. \<not> hears ?st load_stream 1 u" ?d _ "mr_egress ?media" u]
      w one eg1 subs(1) hears by (auto simp: wired_def)
  let ?ms = "Metrics.micros_delta_to_millis now now"
  let ?rt' = "?rt\<lparr>rt_state := record_media_forward_summary p (fst ?loop) (length bytes) now ?ms ?st,
      rt_media := ?media\<lparr>mr_egress := snd ?loop\<rparr>\<rparr>"
  have s: "sess_user_id (net_session w 0) = Some 1" "sess_access_granted (net_session w 0)"
    using wired_session(1,2) [OF w, of 0] by simp_all
  have max: "rt_max_datagram_payload ?rt = DEFAULT_DATAGRAM_PAYLOAD_TARGET" using w by (simp add: wired_def)
  have run: "handle_media_datagram list_channel (net_session w 0) bytes now now ?rt = ?rt'"
    using s len packet_decode_encode [OF enc ver] by (simp add: handle_media_datagram_def max fwd)
  have "staged (Suc v) (Suc v) (Suc v) (rt_state ?rt')"
    using st wf_record_media_forward_summary [OF wf] by (simp add: staged_def record_keeps)
  then show ?thesis
    using run egress turn b decode budget w max relayed
    by (intro exI [of _ ?rt'] exI [of _ eg1] exI [of _ b]) (simp add: wired_def)
qed

lemma sends:
  assumes ready: "ready v w" and v: "v \<le> 63" and p: "screen_packet_ok p bytes"
  shows "\<exists>w' b t. net_send lc 0 bytes w = (Inr (), w') \<and> ready v w' \<and> packet_decode b = Inr (relayed p t t) \<and>
    (\<forall>i \<le> v. ln_inboxes w' ! i = ln_inboxes w ! i @ (if 1 \<le> i then [b] else []))"
proof -
  define now where "now = lc_clock lc w"
  let ?sys = "ln_system w" and ?idle = "w\<lparr>ln_inboxes := replicate (Suc v) []\<rparr>"
  have w: "wired (Suc v) (Suc v) ?idle" and st: "staged (Suc v) (Suc v) (Suc v) (net_state ?idle)"
    and len: "length (ln_inboxes w) = Suc v"
    using ready by (simp_all add: ready_def)
  from forwards [OF w st v p, of now] obtain rt eg1 b where
    rt: "handle_media_datagram list_channel (net_session w 0) bytes now now (sy_runtime ?sys) = rt"
      "staged (Suc v) (Suc v) (Suc v) (rt_state rt)" "rt_max_datagram_payload rt = DEFAULT_DATAGRAM_PAYLOAD_TARGET"
      "mr_viewer_queue_budget_ms (rt_media rt) = 100" "mr_egress_queue_capacity (rt_media rt) = 256"
    and egress: "\<And>u. bt_get (mr_egress (rt_media rt)) u =
       (if u \<in> users (Suc v) - {1} then Some eg1 else if u = 1 then Some (egress_new list_channel 256) else None)"
    and eg1: "egress_send now (egress_receive list_channel eg1) = (Some b, egress_new list_channel 256)"
    and b: "packet_decode b = Inr (relayed p now now)"
    by auto
  let ?w1 = "w\<lparr>ln_system := put_conn 0 (sy_conns ?sys ! 0) rt ?sys\<rparr>"
  have conns: "sy_conns (ln_system ?w1) = sy_conns ?sys" by (simp add: put_conn_def)
  have n: "length (sy_conns ?sys) = Suc v" using w by (simp add: wired_def)
  define w' where "w' = fold (net_turn now) [0..<Suc v] ?w1"
  have send: "net_send lc 0 bytes w = (Inr (), w')"
    using rt(1) n conns by (simp add: net_send_def Let_def now_def [symmetric] w'_def put_conn_def del: upt_Suc)
  have "sess_user_id (net_session ?w1 i) = Some (of_nat (Suc i))" if "i \<le> v" for i
    using wired_session(1) [OF w, of i] that conns by simp
  moreover have "bt_get (mr_egress (net_media ?w1)) 1 = Some (egress_new list_channel 256)"
    by (simp add: put_conn_def egress)
  moreover have "bt_get (mr_egress (net_media ?w1)) (of_nat (Suc i)) = Some eg1" if i: "1 \<le> i" "i \<le> v" for i
  proof -
    have "of_nat (Suc i) \<in> users (Suc v)" using users_iff [of "Suc v" i] i v by simp
    moreover have "of_nat (Suc i) \<noteq> (1 :: user_id)"
    proof
      assume "of_nat (Suc i) = (1 :: user_id)"
      then have "of_nat (Suc i) \<in> users 1" by (simp add: users_def)
      then show False using users_iff [of 1 i] i v by simp
    qed
    ultimately show ?thesis by (simp add: put_conn_def egress del: of_nat_Suc)
  qed
  ultimately have sent: "sy_conns (ln_system w') = sy_conns ?sys \<and> net_state w' = rt_state rt \<and>
    rt_max_datagram_payload (sy_runtime (ln_system w')) = DEFAULT_DATAGRAM_PAYLOAD_TARGET \<and>
    mr_viewer_queue_budget_ms (net_media w') = 100 \<and> mr_egress_queue_capacity (net_media w') = 256 \<and>
    (\<forall>u. bt_get (mr_egress (net_media w')) u =
       (if u \<in> users (Suc v) then Some (egress_new list_channel 256) else bt_get (mr_egress (net_media ?w1)) u)) \<and>
    length (ln_inboxes w') = Suc v \<and>
    (\<forall>i \<le> v. ln_inboxes w' ! i = ln_inboxes w ! i @ (if 1 \<le> i \<and> i < Suc v then [b] else []))"
    using turns [OF v le_refl _ _ _ eg1, of ?w1] len conns rt
    unfolding w'_def by (simp add: put_conn_def del: upt_Suc of_nat_Suc)
  have one: "1 \<in> users (Suc v)" using users_iff [of "Suc v" 0] v by simp
  have "wired (Suc v) (Suc v) (w'\<lparr>ln_inboxes := replicate (Suc v) []\<rparr>)"
    using w sent one by (auto simp: wired_def put_conn_def egress)
  then have "ready v w'" using sent rt(2) by (simp add: ready_def)
  moreover have "\<forall>i \<le> v. ln_inboxes w' ! i = ln_inboxes w ! i @ (if 1 \<le> i then [b] else [])"
    using sent by (auto simp: less_Suc_eq_le)
  ultimately show ?thesis using send b by blast
qed

section \<open>The packets of a frame\<close>

text \<open>The datagrams \<open>bs\<close> are the packets \<open>ps\<close>, but for the relay's time stamps.\<close>

definition relays :: "media_packet list \<Rightarrow> bytes list \<Rightarrow> bool" where
  "relays ps bs \<longleftrightarrow> (\<exists>qs. map packet_decode bs = map Inr qs \<and> map unstamped qs = map unstamped ps)"

lemma unstamped_relayed [simp]: "unstamped (relayed p t t') = unstamped p"
  by (simp add: relayed_def unstamped_def unstamped_header_def)

lemma relays_Cons: "packet_decode b = Inr (relayed p t t) \<Longrightarrow> relays ps bs \<Longrightarrow> relays (p # ps) (b # bs)"
proof -
  assume b: "packet_decode b = Inr (relayed p t t)" and "relays ps bs"
  then obtain qs where "map packet_decode bs = map Inr qs" "map unstamped qs = map unstamped ps"
    by (auto simp: relays_def)
  with b show ?thesis unfolding relays_def by (intro exI [of _ "relayed p t t # qs"]) simp
qed

lemma sends_all:
  assumes "ready v w" and v: "v \<le> 63" and "\<And>p. p \<in> set ps \<Longrightarrow> \<exists>bytes. screen_packet_ok p bytes"
  shows "\<exists>rs w' bs. io_each (send_packet (net_env lc) 0) ps w = (Inr rs, w') \<and> ready v w' \<and> relays ps bs \<and>
    (\<forall>i \<le> v. ln_inboxes w' ! i = ln_inboxes w ! i @ (if 1 \<le> i then bs else []))"
  using assms(1,3)
proof (induction ps arbitrary: w)
  case Nil
  then show ?case by (auto simp: io_return_def relays_def intro!: exI [of _ "[]"])
next
  case (Cons p ps)
  obtain bytes where p: "screen_packet_ok p bytes" using Cons.prems(2) by auto
  from sends [OF Cons.prems(1) v p] obtain w1 b t where
    w1: "net_send lc 0 bytes w = (Inr (), w1)" "ready v w1" "packet_decode b = Inr (relayed p t t)"
      "\<And>i. i \<le> v \<Longrightarrow> ln_inboxes w1 ! i = ln_inboxes w ! i @ (if 1 \<le> i then [b] else [])" by blast
  from Cons.IH [OF w1(2)] Cons.prems(2) obtain rs w2 bs where
    w2: "io_each (send_packet (net_env lc) 0) ps w1 = (Inr rs, w2)" "ready v w2" "relays ps bs"
      "\<And>i. i \<le> v \<Longrightarrow> ln_inboxes w2 ! i = ln_inboxes w1 ! i @ (if 1 \<le> i then bs else [])" by auto
  have one: "send_packet (net_env lc) 0 p w = (Inr (), w1)"
    using p w1(1) by (simp add: send_packet_def screen_packet_ok_def of_result_def io_return_def of_world_def
        net_env_def io_bind_def)
  have "ln_inboxes w2 ! i = ln_inboxes w ! i @ (if 1 \<le> i then b # bs else [])" if "i \<le> v" for i
    using w1(4) [OF that] w2(4) [OF that] by simp
  then show ?case
    using one w2(1,2) relays_Cons [OF w1(3) w2(3)]
    by (intro exI [of _ "() # rs"] exI [of _ w2] exI [of _ "b # bs"]) (simp add: io_bind_def io_return_def)
qed

lemma ready_inboxes:
  "ready v w \<Longrightarrow> length boxes = Suc v \<Longrightarrow> ready v (w\<lparr>ln_inboxes := boxes\<rparr>)"
  by (simp add: ready_def)

lemma reads_all:
  assumes "i < length (ln_inboxes w)" and "ln_inboxes w ! i = bs @ rest" and "map packet_decode bs = map Inr qs"
  shows "io_each (\<lambda>_. read_packet (net_env lc) late i) [k..<k + length bs] w =
    (Inr qs, w\<lparr>ln_inboxes := (ln_inboxes w)[i := rest]\<rparr>)"
  using assms
proof (induction bs arbitrary: w qs k)
  case Nil
  then have "(ln_inboxes w)[i := rest] = ln_inboxes w" by (metis append_Nil list_update_id)
  with Nil show ?case by (simp add: io_return_def)
next
  case (Cons b bs)
  then obtain q qs' where qs: "qs = q # qs'" "packet_decode b = Inr q" "map packet_decode bs = map Inr qs'"
    by (auto simp: Cons_eq_map_conv)
  let ?w = "w\<lparr>ln_inboxes := (ln_inboxes w)[i := bs @ rest]\<rparr>"
  have one: "read_packet (net_env lc) late i w = (Inr q, ?w)"
    using Cons.prems(2) qs(2)
    by (simp add: read_packet_def net_env_def net_read_def of_world_def io_bind_def of_result_def fault_of_def io_return_def)
  have "io_each (\<lambda>_. read_packet (net_env lc) late i) [Suc k..<Suc k + length bs] ?w =
      (Inr qs', ?w\<lparr>ln_inboxes := (ln_inboxes ?w)[i := rest]\<rparr>)"
    by (rule Cons.IH) (use Cons.prems(1) qs(3) in simp_all)
  moreover have "[k..<k + length (b # bs)] = k # [Suc k..<Suc k + length bs]"
    by (simp add: upt_conv_Cons del: upt_Suc)
  ultimately show ?case using one by (simp add: io_bind_def io_return_def qs(1) del: upt_Suc)
qed

text \<open>A frame whose packets arrived with other time stamps has the same bytes.\<close>

lemma relayed_frame:
  assumes "packetize_frame_with_type frame ty seq mp = Inr ps" and "ty = Video \<or> ty = Audio"
    and "map unstamped qs = map unstamped ps"
  shows "\<exists>f. reassemble_frame qs = Inr f \<and> f_bytes f = f_bytes frame"
proof -
  have "reassemble_frame ps = Inr frame" by (rule reassemble_packetized [OF assms(1,2)]) simp
  then have "map_sum id unstamped_frame (reassemble_frame qs) = Inr (unstamped_frame frame)"
    using reassemble_frame_unstamped [of qs] reassemble_frame_unstamped [of ps] assms(3) by simp
  then obtain f where f: "reassemble_frame qs = Inr f" "unstamped_frame f = unstamped_frame frame"
    by (cases "reassemble_frame qs") auto
  then have "f_bytes (unstamped_frame f) = f_bytes (unstamped_frame frame)" by simp
  with f(1) show ?thesis by (simp add: unstamped_frame_def)
qed

lemma viewers_read:
  assumes "length (ln_inboxes w) = Suc v" and "\<And>i. j \<le> i \<Longrightarrow> i \<le> v \<Longrightarrow> ln_inboxes w ! i = bs"
    and "packetize_frame_with_type frame Video seq mp = Inr ps" and "relays ps bs" and "j \<le> Suc v"
  shows "\<exists>boxes. io_fold (quic_viewer_frame (net_env lc) frame (length ps)) [j..<Suc v] r w =
      (Inr (r\<lparr>sr_reassembled_frames := sr_reassembled_frames r + of_nat (Suc v - j),
              sr_total_delivered := sr_total_delivered r + of_nat ((Suc v - j) * length ps)\<rparr>),
       w\<lparr>ln_inboxes := boxes\<rparr>) \<and>
    length boxes = Suc v \<and> (\<forall>i \<le> v. boxes ! i = (if j \<le> i then [] else ln_inboxes w ! i))"
  using assms(1,2,5)
proof (induction "Suc v - j" arbitrary: j w r)
  case 0
  then show ?case by (auto simp: io_return_def intro!: exI [of _ "ln_inboxes w"])
next
  case (Suc d)
  then have j: "j \<le> v" by simp
  obtain qs where qs: "map packet_decode bs = map Inr qs" "map unstamped qs = map unstamped ps"
    using assms(4) by (auto simp: relays_def)
  have "length bs = length qs" "length qs = length ps" using qs by (metis length_map)+
  then have len: "length bs = length ps" by simp
  let ?w = "w\<lparr>ln_inboxes := (ln_inboxes w)[j := []]\<rparr>"
  let ?r = "r\<lparr>sr_reassembled_frames := sr_reassembled_frames r + 1,
      sr_total_delivered := sr_total_delivered r + of_nat (length ps)\<rparr>"
  have "io_each (\<lambda>_. read_packet (net_env lc) ''timed out waiting for forwarded datagram'' j) [0..<length ps] w = (Inr qs, ?w)"
    using reads_all [of j w bs "[]" qs lc "''timed out waiting for forwarded datagram''" 0] Suc.prems(1,2) j qs(1) len
    by simp
  moreover obtain f where "reassemble_frame qs = Inr f" "f_bytes f = f_bytes frame"
    using relayed_frame [OF assms(3) _ qs(2)] by auto
  ultimately have one: "quic_viewer_frame (net_env lc) frame (length ps) j r w = (Inr ?r, ?w)"
    by (simp add: quic_viewer_frame_def io_bind_def of_result_def io_return_def)
  have "d = Suc v - Suc j" "Suc j \<le> Suc v" using Suc.hyps(2) j by simp_all
  from Suc.hyps(1) [OF this(1) _ _ this(2), of ?w ?r] Suc.prems(1,2) obtain boxes where
    boxes: "io_fold (quic_viewer_frame (net_env lc) frame (length ps)) [Suc j..<Suc v] ?r ?w =
      (Inr (?r\<lparr>sr_reassembled_frames := sr_reassembled_frames ?r + of_nat (Suc v - Suc j),
              sr_total_delivered := sr_total_delivered ?r + of_nat ((Suc v - Suc j) * length ps)\<rparr>),
       ?w\<lparr>ln_inboxes := boxes\<rparr>)"
    "length boxes = Suc v" "\<And>i. i \<le> v \<Longrightarrow> boxes ! i = (if Suc j \<le> i then [] else ln_inboxes ?w ! i)"
    by auto
  have "boxes ! i = (if j \<le> i then [] else ln_inboxes w ! i)" if "i \<le> v" for i
    using boxes(3) [OF that] Suc.prems(1) that by (cases "i = j") auto
  moreover have "Suc v - j = Suc (Suc v - Suc j)" using j by simp
  then have "(of_nat (Suc v - j) :: u64) = 1 + of_nat (Suc v - Suc j)"
    "(of_nat ((Suc v - j) * length ps) :: u64) = of_nat (length ps) + of_nat ((Suc v - Suc j) * length ps)"
    by simp_all
  moreover have "[j..<Suc v] = j # [Suc j..<Suc v]" using j by (simp add: upt_conv_Cons del: upt_Suc)
  ultimately show ?case
    using boxes(1,2) one by (intro exI [of _ boxes]) (simp add: io_bind_def add.assoc del: upt_Suc)
qed

section \<open>All frames\<close>

text \<open>Between frames the viewers have read everything.\<close>

definition drained :: "nat \<Rightarrow> load_net \<Rightarrow> bool" where
  "drained v w \<longleftrightarrow> ready v w \<and> (\<forall>i. 1 \<le> i \<and> i \<le> v \<longrightarrow> ln_inboxes w ! i = [])"

lemma sample_datagrams:
  assumes "81 < target" and "target \<le> 1150"
  shows "\<exists>ps. packetize_frame_for_datagram_target (sample_h264_frame i) seq target = Inr ps \<and>
    packetize_frame_with_type (sample_h264_frame i) Video seq (target - 81) = Inr ps \<and>
    length ps = div_ceil 4117 (target - 81) \<and> (\<forall>p \<in> set ps. \<exists>bytes. screen_packet_ok p bytes)"
proof -
  let ?frame = "sample_h264_frame i" and ?n = "sample_fragments (target - 81)"
  let ?ps = "map (fragment ?frame Video seq (target - 81) ?n) [0..<?n]"
  have ps: "packetize_frame_with_type ?frame Video seq (target - 81) = Inr ?ps"
    using sample_packets [of i seq "target - 81"] assms by (simp add: packetize_frame_def)
  then have target: "packetize_frame_with_type_for_datagram_target ?frame Video seq target = Inr ?ps"
    using assms(1) by (simp add: packetize_frame_with_type_for_datagram_target_def MEDIA_PACKET_HEADER_LEN_def)
  have "\<exists>bytes. screen_packet_ok p bytes" if "p \<in> set ?ps" for p
  proof -
    obtain j where j: "j < ?n" "p = fragment ?frame Video seq (target - 81) ?n j" using \<open>p \<in> set ?ps\<close> by auto
    have n: "?n \<le> 65535" using sample_fragments_bounds(2) [of "target - 81"] by simp
    have "packet_encode p = Inr (header_encode (p_header p) @ p_payload p)"
      using fragment_encode [OF j(1) n, of "target - 81" ?frame Video seq] assms(2) j(2) by simp
    moreover have "length (header_encode (p_header p) @ p_payload p) \<le> target"
      using assms(1) by (simp add: j(2) fragment_def Let_def MEDIA_PACKET_HEADER_LEN_def)
    moreover have "h_version (p_header p) = PROTOCOL_VERSION"
      by (simp add: j(2) fragment_def fragment_header_def header_new_def Let_def)
    ultimately show ?thesis
      using assms(2) by (auto simp: screen_packet_ok_def j(2) fragment_header_sel sample_h264_frame_def
          DEFAULT_DATAGRAM_PAYLOAD_TARGET_def)
  qed
  with ps target assms(1) show ?thesis
    by (simp add: packetize_frame_for_datagram_target_def MEDIA_PACKET_HEADER_LEN_def sample_fragments_def)
qed

lemma frame_delivered:
  assumes "drained v w" and v: "v \<le> 63" and mp: "81 < la_max_payload a" "la_max_payload a \<le> 1150"
  defines "n \<equiv> div_ceil 4117 (la_max_payload a - 81)"
  shows "\<exists>w'. quic_sample_frame (net_env lc) a 0 [1..<Suc v] i r w =
      (Inr (r\<lparr>sr_frames := sr_frames r + 1, sr_fragments := sr_fragments r + of_nat n,
              sr_reassembled_frames := sr_reassembled_frames r + of_nat v,
              sr_total_delivered := sr_total_delivered r + of_nat (n * v)\<rparr>), w') \<and> drained v w'"
proof -
  let ?frame = "sample_h264_frame (of_nat i + 1)"
  obtain ps where ps: "packetize_frame_for_datagram_target ?frame (sat_mul (of_nat i) 100) (la_max_payload a) = Inr ps"
    "packetize_frame_with_type ?frame Video (sat_mul (of_nat i) 100) (la_max_payload a - 81) = Inr ps"
    "length ps = n" "\<And>p. p \<in> set ps \<Longrightarrow> \<exists>bytes. screen_packet_ok p bytes"
    using sample_datagrams [OF mp] unfolding n_def by blast
  have ready: "ready v w" and empty: "\<And>i. 1 \<le> i \<Longrightarrow> i \<le> v \<Longrightarrow> ln_inboxes w ! i = []"
    using assms(1) by (simp_all add: drained_def)
  from sends_all [OF ready v ps(4), where lc = lc] obtain rs w1 bs where
    w1: "io_each (send_packet (net_env lc) 0) ps w = (Inr rs, w1)" "ready v w1" "relays ps bs"
      "\<And>i. i \<le> v \<Longrightarrow> ln_inboxes w1 ! i = ln_inboxes w ! i @ (if 1 \<le> i then bs else [])" by blast
  have boxes: "length (ln_inboxes w1) = Suc v" "\<And>i. 1 \<le> i \<Longrightarrow> i \<le> v \<Longrightarrow> ln_inboxes w1 ! i = bs"
    using w1(2,4) empty by (simp_all add: ready_def)
  let ?r = "r\<lparr>sr_frames := sr_frames r + 1, sr_fragments := sr_fragments r + of_nat n\<rparr>"
  have "1 \<le> Suc v" by simp
  from viewers_read [OF boxes ps(2) w1(3) this, where lc = lc and r = ?r] obtain bxs where
    bxs: "io_fold (quic_viewer_frame (net_env lc) ?frame n) [1..<Suc v] ?r w1 =
      (Inr (?r\<lparr>sr_reassembled_frames := sr_reassembled_frames ?r + of_nat (Suc v - 1),
              sr_total_delivered := sr_total_delivered ?r + of_nat ((Suc v - 1) * n)\<rparr>),
       w1\<lparr>ln_inboxes := bxs\<rparr>)" "length bxs = Suc v" "\<And>i. i \<le> v \<Longrightarrow> bxs ! i = (if 1 \<le> i then [] else ln_inboxes w1 ! i)"
    unfolding ps(3) by auto
  have "drained v (w1\<lparr>ln_inboxes := bxs\<rparr>)"
    using ready_inboxes [OF w1(2) bxs(2)] bxs(3) by (simp add: drained_def)
  then show ?thesis
    using bxs(1) w1(1) ps(1,3)
    by (simp add: quic_sample_frame_def Let_def of_result_def fault_of_def io_then_def io_bind_def io_return_def
        mult.commute del: upt_Suc)
qed

lemma frames_delivered:
  assumes "drained v w" and v: "v \<le> 63" and mp: "81 < la_max_payload a" "la_max_payload a \<le> 1150"
  defines "n \<equiv> div_ceil 4117 (la_max_payload a - 81)"
  shows "\<exists>w'. io_fold (quic_sample_frame (net_env lc) a 0 [1..<Suc v]) ids r w =
      (Inr (r\<lparr>sr_frames := sr_frames r + of_nat (length ids),
              sr_fragments := sr_fragments r + of_nat (length ids * n),
              sr_reassembled_frames := sr_reassembled_frames r + of_nat (length ids * v),
              sr_total_delivered := sr_total_delivered r + of_nat (length ids * (n * v))\<rparr>), w')"
  using assms(1)
proof (induction ids arbitrary: r w)
  case Nil
  then show ?case by (simp add: io_return_def)
next
  case (Cons i ids)
  let ?r = "r\<lparr>sr_frames := sr_frames r + 1, sr_fragments := sr_fragments r + of_nat n,
      sr_reassembled_frames := sr_reassembled_frames r + of_nat v,
      sr_total_delivered := sr_total_delivered r + of_nat (n * v)\<rparr>"
  from frame_delivered [OF Cons.prems v mp, of lc i r] obtain w1 where
    w1: "quic_sample_frame (net_env lc) a 0 [1..<Suc v] i r w = (Inr ?r, w1)" "drained v w1"
    unfolding n_def by blast
  from Cons.IH [OF w1(2), of ?r] obtain w2 where
    w2: "io_fold (quic_sample_frame (net_env lc) a 0 [1..<Suc v]) ids ?r w1 =
      (Inr (?r\<lparr>sr_frames := sr_frames ?r + of_nat (length ids),
              sr_fragments := sr_fragments ?r + of_nat (length ids * n),
              sr_reassembled_frames := sr_reassembled_frames ?r + of_nat (length ids * v),
              sr_total_delivered := sr_total_delivered ?r + of_nat (length ids * (n * v))\<rparr>), w2)" by blast
  show ?case
    using w1(1) w2 by (intro exI [of _ w2]) (simp add: io_bind_def add.assoc del: upt_Suc)
qed

section \<open>The run\<close>

text \<open>
  C28. On a network that loses and delays nothing the load test's run over QUIC against the relay
  succeeds, whatever the clock says: with at most 63 viewers and datagrams of at most the relay's
  1150 bytes that have room for a payload, the connections are set up, every viewer gets every
  packet of every frame and puts it together with the bytes that were sent.
\<close>

theorem quic_sample_forward_succeeds:
  assumes "load_codec_ok lc" and "unat (la_viewers a) \<le> 63"
    and "81 < la_max_payload a" and "la_max_payload a \<le> 1150"
  shows "\<exists>w. run_quic_sample_forward (net_env lc) a net_start =
    (let n = unat (la_viewers a); k = unat (la_packets a); fragments = div_ceil 4117 (la_max_payload a - 81)
     in (Inr \<lparr>sr_frames = la_packets a, sr_fragments = of_nat (k * fragments),
           sr_reassembled_frames = of_nat (k * n), sr_total_delivered = of_nat (k * (fragments * n)),
           sr_total_dropped = 0\<rparr>, w))"
proof -
  let ?v = "unat (la_viewers a)" and ?k = "unat (la_packets a)"
  obtain w1 where w1: "connect_all (net_env lc) a net_start = (Inr (0, [1..<Suc ?v]), w1)"
    "wired (Suc ?v) 0 w1" "net_state w1 = control_state_new" using connect_all_connects by blast
  obtain w2 where w2: "quic_sample_setup (net_env lc) 0 [1..<Suc ?v] w1 = (Inr (), w2)"
    "wired (Suc ?v) (Suc ?v) w2" "staged (Suc ?v) (Suc ?v) (Suc ?v) (net_state w2)"
    using setup_succeeds [OF assms(1,2) w1(2,3)] by blast
  have boxes: "ln_inboxes w2 = replicate (Suc ?v) []" using w2(2) by (simp add: wired_def)
  then have same: "w2\<lparr>ln_inboxes := replicate (Suc ?v) []\<rparr> = w2" by (cases w2) simp
  have "length (ln_inboxes w2) = Suc ?v" unfolding boxes by (rule length_replicate)
  then have "ready ?v w2" unfolding ready_def same using w2(2,3) by blast
  then have "drained ?v w2"
    unfolding drained_def boxes by (simp del: replicate_Suc)
  from frames_delivered [OF this assms(2-4), of lc "[0..<?k]" sample_forward_default] obtain w3 where
    w3: "io_fold (quic_sample_frame (net_env lc) a 0 [1..<Suc ?v]) [0..<?k] sample_forward_default w2 =
      (Inr \<lparr>sr_frames = la_packets a, sr_fragments = of_nat (?k * div_ceil 4117 (la_max_payload a - 81)),
         sr_reassembled_frames = of_nat (?k * ?v),
         sr_total_delivered = of_nat (?k * (div_ceil 4117 (la_max_payload a - 81) * ?v)),
         sr_total_dropped = 0\<rparr>, w3)"
    by (auto simp: sample_forward_default_def simp del: upt_Suc)
  show ?thesis
    by (simp add: run_quic_sample_forward_def io_bind_def io_then_def w1(1) w2(1) w3 finish_def io_return_def Let_def
        del: upt_Suc of_nat_mult One_nat_def)
qed

theorem quic_sample_forward_succeeds_witness:
  "\<exists>w. run_quic_sample_forward (net_env (unary_codec_at 7))
      (default_load_args\<lparr>la_viewers := 2, la_packets := 3\<rparr>) net_start =
    (Inr \<lparr>sr_frames = 3, sr_fragments = 12, sr_reassembled_frames = 6, sr_total_delivered = 24,
       sr_total_dropped = 0\<rparr>, w)"
  using quic_sample_forward_succeeds [OF unary_codec_ok, of "default_load_args\<lparr>la_viewers := 2, la_packets := 3\<rparr>" 7]
  by (simp add: default_load_args_def DEFAULT_DATAGRAM_PAYLOAD_TARGET_def div_ceil_def)

end
