(* ===== verification/Wave_In.thy ===== *)
theory Wave_In
  imports Client_Io
begin

text \<open>
  Recording through WinMM: \<open>Win32WaveInCapture\<close> of \<open>audio_capture.rs\<close>, the three buffers that the
  client hands to the driver and takes back. The memory of a buffer and its header is shared with
  the driver, which changes it between any two reads; the WinMM functions are a parameter, the
  record \<open>wave_in_api\<close> over a world \<open>'w\<close>. A buffer is known to the driver by its index, as the
  vector of buffers never moves them.
\<close>

section \<open>Formats and devices\<close>

text \<open>\<open>WAVEFORMATEX\<close>\<close>

record wave_format_ex =
  wf_format_tag :: u16
  wf_channels :: u16
  wf_samples_per_sec :: u32
  wf_avg_bytes_per_sec :: u32
  wf_block_align :: u16
  wf_bits_per_sample :: u16
  wf_cb_size :: u16

definition pcm_wave_format :: "u32 \<Rightarrow> u16 \<Rightarrow> u16 \<Rightarrow> u32 \<Rightarrow> wave_format_ex" where
  "pcm_wave_format sample_rate_hz channel_count block_align avg_bytes_per_sec =
     \<lparr>wf_format_tag = 1, wf_channels = channel_count, wf_samples_per_sec = sample_rate_hz,
      wf_avg_bytes_per_sec = avg_bytes_per_sec, wf_block_align = block_align,
      wf_bits_per_sample = 2 * 8, wf_cb_size = 0\<rparr>"

definition wave_in_format :: "audio_capture_config \<Rightarrow> rstring + wave_format_ex" where
  "wave_in_format config =
     (let channels = unat (ac_channel_count config); rate = unat (ac_sample_rate_hz config) in
      if 2 ^ 16 \<le> channels * 2 then Inl (lit ''audio block align overflow'')
      else if 2 ^ 32 \<le> rate * (channels * 2) then Inl (lit ''audio average bytes per second overflow'')
      else Inr (pcm_wave_format (ac_sample_rate_hz config) (ac_channel_count config)
             (of_nat (channels * 2)) (of_nat (rate * (channels * 2)))))"

definition mm_result :: "string \<Rightarrow> u32 \<Rightarrow> rstring + unit" where
  "mm_result action result =
     (if result = 0 then Inr () else Inl (lit action @ lit '' failed with MMRESULT '' @ dec (unat result)))"

text \<open>\<open>str::parse::<u32>\<close> with the texts of its errors.\<close>

fun parse_digits :: "nat \<Rightarrow> rstring \<Rightarrow> rstring + u32" where
  "parse_digits n [] = Inr (of_nat n)"
| "parse_digits n (c # cs) =
     (if c < 48 \<or> 57 < c then Inl (lit ''invalid digit found in string'')
      else if 2 ^ 32 \<le> 10 * n + (c - 48) then Inl (lit ''number too large to fit in target type'')
      else parse_digits (10 * n + (c - 48)) cs)"

definition parse_u32 :: "rstring \<Rightarrow> rstring + u32" where
  "parse_u32 s =
     (case s of
        [] \<Rightarrow> Inl (lit ''cannot parse integer from empty string'')
      | c # cs \<Rightarrow> parse_digits 0 (if c = 43 \<and> cs \<noteq> [] then cs else s))"

definition WAVE_MAPPER :: u32 where
  "WAVE_MAPPER = 4294967295"

text \<open>\<open>quote\<close> is the debug rendering of a string.\<close>

definition wave_in_device_id :: "(rstring \<Rightarrow> rstring) \<Rightarrow> microphone_source \<Rightarrow> rstring + u32" where
  "wave_in_device_id quote source =
     (case source of
        DefaultMicrophone \<Rightarrow> Inr WAVE_MAPPER
      | MicrophoneDevice name \<Rightarrow>
          map_err (\<lambda>error. lit ''invalid microphone device id '' @ quote name @ lit '': '' @ error)
            (parse_u32 name))"

section \<open>Buffers\<close>

text \<open>\<open>WAVEHDR\<close> with its data; the fields that stay zero are left out.\<close>

record wave_buffer =
  wb_data :: bytes
  wb_buffer_length :: u32
  wb_bytes_recorded :: u32
  wb_flags :: u32
  wb_prepared :: bool

definition WHDR_DONE :: u32 where
  "WHDR_DONE = 1"

definition wave_in_buffers :: "audio_capture_config \<Rightarrow> rstring + wave_buffer list" where
  "wave_in_buffers config =
     (let frame_samples = unat (max (sat_mul (ac_sample_rate_hz config)
            (ucast (ac_frame_duration_ms config)) div 1000) 1)
      in case Option.bind (checked_mul_usize frame_samples (unat (ac_channel_count config)))
                (\<lambda>samples. checked_mul_usize samples 2) of
           None \<Rightarrow> Inl (lit ''audio capture buffer size overflow'')
         | Some buffer_bytes \<Rightarrow>
             Inr (replicate 3 \<lparr>wb_data = replicate buffer_bytes 0,
               wb_buffer_length = of_nat (min buffer_bytes 4294967295), wb_bytes_recorded = 0,
               wb_flags = 0, wb_prepared = False\<rparr>))"

section \<open>The driver\<close>

text \<open>
  \<open>wa_async\<close> is what the driver has done by the time a header is read. A call on a buffer gets its
  index and may change its header.
\<close>

record 'w wave_in_api =
  wa_open :: "u32 \<Rightarrow> wave_format_ex \<Rightarrow> 'w \<Rightarrow> u32 \<times> 'w"
  wa_prepare :: "nat \<Rightarrow> wave_buffer \<Rightarrow> 'w \<Rightarrow> u32 \<times> wave_buffer \<times> 'w"
  wa_add_buffer :: "nat \<Rightarrow> wave_buffer \<Rightarrow> 'w \<Rightarrow> u32 \<times> wave_buffer \<times> 'w"
  wa_start :: "'w \<Rightarrow> u32 \<times> 'w"
  wa_stop :: "'w \<Rightarrow> 'w"
  wa_reset :: "wave_buffer list \<Rightarrow> 'w \<Rightarrow> wave_buffer list \<times> 'w"
  wa_unprepare :: "nat \<Rightarrow> wave_buffer \<Rightarrow> 'w \<Rightarrow> wave_buffer \<times> 'w"
  wa_close :: "'w \<Rightarrow> 'w"
  wa_async :: "wave_buffer list \<Rightarrow> 'w \<Rightarrow> wave_buffer list \<times> 'w"

record 'w wave_in =
  wi_buffers :: "wave_buffer list"
  wi_started :: bool
  wi_world :: 'w

text \<open>A call on buffer \<open>i\<close>, and the driver's turn.\<close>

definition on_buffer ::
  "string \<Rightarrow> (nat \<Rightarrow> wave_buffer \<Rightarrow> 'w \<Rightarrow> u32 \<times> wave_buffer \<times> 'w) \<Rightarrow> nat \<Rightarrow> (rstring, unit, 'w wave_in) effect"
where
  "on_buffer action call i s =
     (let (result, b, w) = call i (wi_buffers s ! i) (wi_world s)
      in (mm_result action result, s\<lparr>wi_buffers := (wi_buffers s)[i := b], wi_world := w\<rparr>))"

definition set_buffer :: "nat \<Rightarrow> (wave_buffer \<Rightarrow> wave_buffer) \<Rightarrow> 'w wave_in \<Rightarrow> 'w wave_in" where
  "set_buffer i f s = s\<lparr>wi_buffers := (wi_buffers s)[i := f (wi_buffers s ! i)]\<rparr>"

definition driver_turn :: "'w wave_in_api \<Rightarrow> 'w wave_in \<Rightarrow> 'w wave_in" where
  "driver_turn api s =
     (let (bs, w) = wa_async api (wi_buffers s) (wi_world s) in s\<lparr>wi_buffers := bs, wi_world := w\<rparr>)"

section \<open>Recording\<close>

definition prepare_and_queue_buffer :: "'w wave_in_api \<Rightarrow> nat \<Rightarrow> (rstring, unit, 'w wave_in) effect" where
  "prepare_and_queue_buffer api i =
     io_then (on_buffer ''waveInPrepareHeader'' (wa_prepare api) i)
     (io_then (\<lambda>s. (Inr (), set_buffer i (\<lambda>b. b\<lparr>wb_prepared := True\<rparr>) s))
       (on_buffer ''waveInAddBuffer'' (wa_add_buffer api) i))"

definition prepare_and_queue_buffers :: "'w wave_in_api \<Rightarrow> (rstring, unit, 'w wave_in) effect" where
  "prepare_and_queue_buffers api s =
     io_then (io_each (prepare_and_queue_buffer api) [0..<length (wi_buffers s)]) (io_return ()) s"

text \<open>Dropping the recorder.\<close>

definition wave_in_unprepare :: "'w wave_in_api \<Rightarrow> nat \<Rightarrow> 'w wave_in \<Rightarrow> 'w wave_in" where
  "wave_in_unprepare api i s =
     (if wb_prepared (wi_buffers s ! i)
      then let (b, w) = wa_unprepare api i (wi_buffers s ! i) (wi_world s)
           in s\<lparr>wi_buffers := (wi_buffers s)[i := b], wi_world := w\<rparr>
      else s)"

definition wave_in_drop :: "'w wave_in_api \<Rightarrow> 'w wave_in \<Rightarrow> 'w" where
  "wave_in_drop api s =
     (let w = (if wi_started s then wa_stop api (wi_world s) else wi_world s);
          (bs, w) = wa_reset api (wi_buffers s) w;
          s = fold (wave_in_unprepare api) [0..<length bs] (s\<lparr>wi_buffers := bs, wi_world := w\<rparr>)
      in wa_close api (wi_world s))"

text \<open>
  When queueing the buffers or starting fails, the recorder is dropped; when the buffers cannot be
  made, the handle stays open.
\<close>

definition wave_in_open ::
  "'w wave_in_api \<Rightarrow> (rstring \<Rightarrow> rstring) \<Rightarrow> microphone_source \<Rightarrow> audio_capture_config \<Rightarrow> 'w \<Rightarrow>
   (rstring \<times> 'w) + 'w wave_in"
where
  "wave_in_open api quote source config w =
     (case and_then (wave_in_device_id quote source) (\<lambda>device_id.
             and_then (wave_in_format config) (\<lambda>format. Inr (device_id, format))) of
        Inl e \<Rightarrow> Inl (e, w)
      | Inr (device_id, format) \<Rightarrow>
          let (result, w) = wa_open api device_id format w in
          case and_then (mm_result ''waveInOpen'' result) (\<lambda>_. wave_in_buffers config) of
            Inl e \<Rightarrow> Inl (e, w)
          | Inr buffers \<Rightarrow>
              case io_then (prepare_and_queue_buffers api)
                     (\<lambda>s. let (result, w) = wa_start api (wi_world s)
                          in (mm_result ''waveInStart'' result, s\<lparr>wi_world := w\<rparr>))
                     \<lparr>wi_buffers = buffers, wi_started = False, wi_world = w\<rparr> of
                (Inl e, s) \<Rightarrow> Inl (e, wave_in_drop api s)
              | (Inr _, s) \<Rightarrow> Inr (s\<lparr>wi_started := True\<rparr>))"

definition requeue_buffer :: "'w wave_in_api \<Rightarrow> nat \<Rightarrow> (rstring, unit, 'w wave_in) effect" where
  "requeue_buffer api i =
     io_then (\<lambda>s. (Inr (), set_buffer i
         (\<lambda>b. b\<lparr>wb_bytes_recorded := 0, wb_flags := and (wb_flags b) (not WHDR_DONE)\<rparr>) s))
       (on_buffer ''waveInAddBuffer'' (wa_add_buffer api) i)"

definition recorded_samples :: "wave_buffer \<Rightarrow> i16 list" where
  "recorded_samples b =
     (let recorded_bytes = unat (min (wb_bytes_recorded b) (of_nat (length (wb_data b))));
          aligned_bytes = recorded_bytes - recorded_bytes mod 2
      in pcm_samples (take aligned_bytes (wb_data b)))"

fun pcm_samples_from ::
  "'w wave_in_api \<Rightarrow> nat list \<Rightarrow> 'w wave_in \<Rightarrow> (rstring + i16 list option) \<times> 'w wave_in"
where
  "pcm_samples_from api [] s = (Inr None, s)"
| "pcm_samples_from api (i # rest) s =
     (let s = driver_turn api s; b = wi_buffers s ! i in
      if and (wb_flags b) WHDR_DONE = 0 then pcm_samples_from api rest s
      else case requeue_buffer api i s of
             (Inl e, s) \<Rightarrow> (Inl e, s)
           | (Inr _, s) \<Rightarrow>
               if recorded_samples b \<noteq> [] then (Inr (Some (recorded_samples b)), s)
               else pcm_samples_from api rest s)"

definition next_pcm_samples ::
  "'w wave_in_api \<Rightarrow> 'w wave_in \<Rightarrow> (rstring + i16 list option) \<times> 'w wave_in" where
  "next_pcm_samples api s = pcm_samples_from api [0..<length (wi_buffers s)] s"

section \<open>Sources\<close>

text \<open>\<open>caps i\<close> is what \<open>waveInGetDevCapsW\<close> answers: its result, the device's name and its channels.\<close>

record microphone_source_info =
  mi_source :: microphone_source
  mi_label :: rstring
  mi_sample_rate_hz :: u32
  mi_channel_count :: u16
  mi_is_default :: bool

definition audio_capture_config_default :: audio_capture_config where
  "audio_capture_config_default =
     \<lparr>ac_sample_rate_hz = 48000, ac_channel_count = 1, ac_frame_duration_ms = 20, ac_queue_capacity = 1\<rparr>"

text \<open>\<open>String::from_utf16_lossy\<close>: a surrogate without its pair becomes U+FFFD.\<close>

fun from_utf16_lossy :: "u16 list \<Rightarrow> rstring" where
  "from_utf16_lossy [] = []"
| "from_utf16_lossy (u # us) =
     (if u < 55296 \<or> 57343 < u then unat u # from_utf16_lossy us
      else if 56320 \<le> u then 65533 # from_utf16_lossy us
      else case us of
             [] \<Rightarrow> [65533]
           | v # vs \<Rightarrow>
               if 56320 \<le> v \<and> v \<le> 57343
               then (65536 + (unat u - 55296) * 1024 + (unat v - 56320)) # from_utf16_lossy vs
               else 65533 # from_utf16_lossy us)"

definition wide_device_name :: "u16 list \<Rightarrow> rstring" where
  "wide_device_name name = from_utf16_lossy (takeWhile (\<lambda>u. u \<noteq> 0) name)"

definition list_microphone_sources ::
  "bool \<Rightarrow> u32 \<Rightarrow> (nat \<Rightarrow> u32 \<times> u16 list \<times> u16) \<Rightarrow> rstring + microphone_source_info list" where
  "list_microphone_sources windows device_count caps =
     (if \<not> windows then Inl (lit ''microphone capture is only available on Windows'')
      else Inr (concat (map (\<lambda>i. case caps i of (result, name, channels) \<Rightarrow>
          if result \<noteq> 0 then []
          else [\<lparr>mi_source = MicrophoneDevice (dec i), mi_label = wide_device_name name,
                 mi_sample_rate_hz = ac_sample_rate_hz audio_capture_config_default,
                 mi_channel_count = max channels 1, mi_is_default = (i = 0)\<rparr>])
        [0..<unat device_count])))"

end
