(* ===== verification/Wave_Recording.thy ===== *)
theory Wave_Recording
  imports Wave_In "HOL-Library.Multiset"
begin

text \<open>
  Recording with a driver that behaves as WinMM documents: it fills the queued buffers in the order
  in which they were queued, marks each as done, and no longer touches it; sound that comes while no
  buffer is queued is discarded; any call may fail, and then changes nothing. What is read is neither
  altered nor repeated, and nothing is lost but by a failed call; but the sound may come out in
  another order than it went in.
\<close>

section \<open>A driver\<close>

text \<open>
  \<open>wd_results\<close> is what the next calls return, 0 in the end; \<open>wd_sound\<close> what the microphone will
  hear, a chunk for each buffer; \<open>wd_heard\<close> what it has heard, each chunk with whether a buffer was
  queued to take it; \<open>wd_schedule\<close> how many chunks come before each read of a header. Of the flags
  of a header only the one that is read is modelled.
\<close>

record wave_driver =
  wd_results :: "u32 list"
  wd_running :: bool
  wd_queue :: "nat list"
  wd_sound :: "bytes list"
  wd_heard :: "(bytes \<times> bool) list"
  wd_schedule :: "nat list"

definition device_call :: "(wave_driver \<Rightarrow> wave_driver) \<Rightarrow> wave_driver \<Rightarrow> u32 \<times> wave_driver" where
  "device_call f d =
     (case wd_results d of
        [] \<Rightarrow> (0, f d)
      | r # rs \<Rightarrow> let d = d\<lparr>wd_results := rs\<rparr> in if r = 0 then (0, f d) else (r, d))"

definition fill_buffer :: "bytes \<Rightarrow> wave_buffer \<Rightarrow> wave_buffer" where
  "fill_buffer c b =
     b\<lparr>wb_data := c @ drop (length c) (wb_data b), wb_bytes_recorded := of_nat (length c),
       wb_flags := or (wb_flags b) WHDR_DONE\<rparr>"

definition driver_fill :: "wave_buffer list \<times> wave_driver \<Rightarrow> wave_buffer list \<times> wave_driver" where
  "driver_fill = (\<lambda>(bs, d).
     case wd_sound d of
       [] \<Rightarrow> (bs, d)
     | c # sound \<Rightarrow>
         if \<not> wd_running d then (bs, d)
         else case wd_queue d of
                [] \<Rightarrow> (bs, d\<lparr>wd_sound := sound, wd_heard := wd_heard d @ [(c, False)]\<rparr>)
              | i # queue \<Rightarrow>
                  (bs[i := fill_buffer c (bs ! i)],
                   d\<lparr>wd_queue := queue, wd_sound := sound, wd_heard := wd_heard d @ [(c, True)]\<rparr>))"

definition driver_async :: "wave_buffer list \<Rightarrow> wave_driver \<Rightarrow> wave_buffer list \<times> wave_driver" where
  "driver_async bs d =
     (case wd_schedule d of
        [] \<Rightarrow> (bs, d)
      | n # schedule \<Rightarrow> (driver_fill ^^ n) (bs, d\<lparr>wd_schedule := schedule\<rparr>))"

definition recording_api :: "wave_driver wave_in_api" where
  "recording_api =
     \<lparr>wa_open = (\<lambda>_ _. device_call id),
      wa_prepare = (\<lambda>_ b d. let (r, d) = device_call id d in (r, b, d)),
      wa_add_buffer = (\<lambda>i b d. let (r, d) = device_call (\<lambda>d. d\<lparr>wd_queue := wd_queue d @ [i]\<rparr>) d in (r, b, d)),
      wa_start = device_call (\<lambda>d. d\<lparr>wd_running := True\<rparr>), wa_stop = (\<lambda>d. d\<lparr>wd_running := False\<rparr>),
      wa_reset = (\<lambda>bs d. (map (\<lambda>b. b\<lparr>wb_flags := or (wb_flags b) WHDR_DONE\<rparr>) bs, d\<lparr>wd_queue := []\<rparr>)),
      wa_unprepare = (\<lambda>_ b d. (b, d)), wa_close = (\<lambda>d. d), wa_async = driver_async\<rparr>"

definition driver_with :: "u32 list \<Rightarrow> bytes list \<Rightarrow> nat list \<Rightarrow> wave_driver" where
  "driver_with results sound schedule =
     \<lparr>wd_results = results, wd_running = False, wd_queue = [], wd_sound = sound, wd_heard = [],
      wd_schedule = schedule\<rparr>"

text \<open>What \<open>n\<close> calls of \<open>next_pcm_samples\<close> answer, the sound in these answers, and how many failed.\<close>

type_synonym read_answer = "rstring + i16 list option"

fun polls :: "nat \<Rightarrow> wave_driver wave_in \<Rightarrow> read_answer list \<times> wave_driver wave_in" where
  "polls 0 s = ([], s)"
| "polls (Suc n) s =
     (let (r, s) = next_pcm_samples recording_api s; (rs, s) = polls n s in (r # rs, s))"

fun answer_sound :: "read_answer \<Rightarrow> i16 list list" where
  "answer_sound (Inr (Some x)) = [x]"
| "answer_sound _ = []"

definition handed_out :: "read_answer list \<Rightarrow> i16 list list" where
  "handed_out answers = concat (map answer_sound answers)"

definition failures :: "read_answer list \<Rightarrow> nat" where
  "failures answers = length (filter isl answers)"

section \<open>Nothing is lost\<close>

definition buffer_done :: "wave_buffer \<Rightarrow> bool" where
  "buffer_done b \<longleftrightarrow> and (wb_flags b) WHDR_DONE \<noteq> 0"

text \<open>The sound in the buffers that are done, and the sound put into buffers, without empty pieces.\<close>

definition waiting_sound :: "wave_driver wave_in \<Rightarrow> i16 list multiset" where
  "waiting_sound s =
     filter_mset (\<lambda>x. x \<noteq> []) (image_mset recorded_samples (filter_mset buffer_done (mset (wi_buffers s))))"

definition recorded_sound :: "wave_driver wave_in \<Rightarrow> i16 list multiset" where
  "recorded_sound s =
     mset (filter (\<lambda>x. x \<noteq> []) (map (\<lambda>(c, _). pcm_samples c) (filter snd (wd_heard (wi_world s)))))"

text \<open>Buffers that neither hold sound nor are queued for more.\<close>

definition idle_buffers :: "wave_driver wave_in \<Rightarrow> nat set" where
  "idle_buffers s =
     {i. i < length (wi_buffers s) \<and> \<not> buffer_done (wi_buffers s ! i) \<and> i \<notin> set (wd_queue (wi_world s))}"

text \<open>
  A queued buffer is not done; each has room for \<open>room\<close> bytes, and no chunk is longer; at most \<open>f\<close>
  buffers are idle. \<open>gone\<close> is the sound that has left the buffers.
\<close>

definition recording_ok :: "nat \<Rightarrow> nat \<Rightarrow> i16 list multiset \<Rightarrow> wave_driver wave_in \<Rightarrow> bool" where
  "recording_ok room f gone s \<longleftrightarrow>
     room < 2 ^ 32 \<and> distinct (wd_queue (wi_world s)) \<and>
     set (wd_queue (wi_world s)) \<subseteq> {i. i < length (wi_buffers s) \<and> \<not> buffer_done (wi_buffers s ! i)} \<and>
     (\<forall>b \<in> set (wi_buffers s). length (wb_data b) = room) \<and>
     (\<forall>c \<in> set (wd_sound (wi_world s)). length c \<le> room) \<and> wd_running (wi_world s) \<and>
     card (idle_buffers s) \<le> f \<and> gone + waiting_sound s = recorded_sound s"

lemma pcm_samples_even: "pcm_samples (take (n - n mod 2) bs) = pcm_samples (take n bs)"
proof (induction bs arbitrary: n rule: pcm_samples.induct)
  case (1 a b bs)
  show ?case
  proof (cases "n < 2")
    case True
    then consider "n = 0" | "n = 1" by linarith
    then show ?thesis by cases simp_all
  next
    case False
    then obtain m where m: "n = Suc (Suc m)" by (metis add_2_eq_Suc le_Suc_ex not_less)
    then have "n - n mod 2 = Suc (Suc (m - m mod 2))" by (simp add: Suc_diff_le)
    then show ?thesis using 1 m by simp
  qed
qed (simp_all add: take_Cons')

lemma and_or_one: "and (or f 1) 1 = (1 :: u32)" and and_not_one: "and (and f (not 1)) 1 = (0 :: u32)"
  by (rule bit_word_eqI, auto simp: bit_simps)+

lemma recorded_fill:
  assumes "length c \<le> length (wb_data b)" and "length (wb_data b) < 2 ^ 32"
  shows "recorded_samples (fill_buffer c b) = pcm_samples c" and "buffer_done (fill_buffer c b)"
    and "length (wb_data (fill_buffer c b)) = length (wb_data b)"
proof -
  have c: "unat (of_nat (length c) :: u32) = length c" and d: "unat (of_nat (length (wb_data b)) :: u32) = length (wb_data b)"
    using assms by (auto intro!: of_nat_unat_le)
  then have "min (of_nat (length c) :: u32) (of_nat (length (wb_data b))) = of_nat (length c)"
    using assms(1) by (simp add: min_def word_le_nat_alt)
  then show "recorded_samples (fill_buffer c b) = pcm_samples c"
    using assms c by (simp add: recorded_samples_def fill_buffer_def Let_def pcm_samples_even [of "length c" c, simplified])
  show "buffer_done (fill_buffer c b)"
    by (simp add: buffer_done_def fill_buffer_def WHDR_DONE_def and_or_one)
  show "length (wb_data (fill_buffer c b)) = length (wb_data b)"
    using assms by (simp add: fill_buffer_def)
qed

lemma set_update_cases: "b \<in> set (xs[i := x]) \<Longrightarrow> b = x \<or> b \<in> set xs"
  using set_update_subset_insert [of xs i x] by blast

lemma mset_image_update:
  "i < length xs \<Longrightarrow> \<not> P (xs ! i) \<Longrightarrow>
    filter_mset P (mset (xs[i := x])) = (if P x then add_mset x (filter_mset P (mset xs)) else filter_mset P (mset xs))"
  "i < length xs \<Longrightarrow> P (xs ! i) \<Longrightarrow> \<not> P x \<Longrightarrow>
    add_mset (xs ! i) (filter_mset P (mset (xs[i := x]))) = filter_mset P (mset xs)"
  by (simp_all add: mset_update)

text \<open>What happens to the state: the driver's turn, and a buffer that is queued again.\<close>

definition with_driver :: "wave_driver wave_in \<Rightarrow> wave_buffer list \<times> wave_driver \<Rightarrow> wave_driver wave_in" where
  "with_driver s = (\<lambda>(bs, d). s\<lparr>wi_buffers := bs, wi_world := d\<rparr>)"

definition all_sound :: "wave_driver wave_in \<Rightarrow> bytes list" where
  "all_sound s = map fst (wd_heard (wi_world s)) @ wd_sound (wi_world s)"

lemma with_driver_sel [simp]:
  "wi_buffers (with_driver s (bs, d)) = bs" "wi_world (with_driver s (bs, d)) = d"
  by (simp_all add: with_driver_def)

lemma fill_ok:
  assumes "recording_ok room f gone (with_driver s p)"
  shows "recording_ok room f gone (with_driver s (driver_fill p))"
    and "all_sound (with_driver s (driver_fill p)) = all_sound (with_driver s p)"
    and "length (fst (driver_fill p)) = length (fst p)"
proof -
  obtain bs d where p: "p = (bs, d)" by (cases p)
  have ok: "room < 2 ^ 32" "distinct (wd_queue d)"
    "\<And>j. j \<in> set (wd_queue d) \<Longrightarrow> j < length bs \<and> \<not> buffer_done (bs ! j)"
    "\<And>b. b \<in> set bs \<Longrightarrow> length (wb_data b) = room" "\<And>c. c \<in> set (wd_sound d) \<Longrightarrow> length c \<le> room"
    "wd_running d" "card (idle_buffers (with_driver s (bs, d))) \<le> f"
    "gone + waiting_sound (with_driver s (bs, d)) = recorded_sound (with_driver s (bs, d))"
    using assms by (auto simp: recording_ok_def p)
  have "recording_ok room f gone (with_driver s (driver_fill p)) \<and>
      all_sound (with_driver s (driver_fill p)) = all_sound (with_driver s p) \<and>
      length (fst (driver_fill p)) = length (fst p)"
  proof (cases "wd_sound d")
    case Nil
    then have "driver_fill p = p" by (simp add: p driver_fill_def)
    then show ?thesis using assms by simp
  next
    case sound: (Cons c sound)
    show ?thesis
    proof (cases "wd_queue d")
      case Nil
      then have "driver_fill p = (bs, d\<lparr>wd_sound := sound, wd_heard := wd_heard d @ [(c, False)]\<rparr>)"
        using ok(6) by (simp add: p driver_fill_def sound)
      then show ?thesis
        using assms sound Nil
        by (simp add: p recording_ok_def all_sound_def waiting_sound_def recorded_sound_def idle_buffers_def)
    next
      case queue: (Cons i queue)
      have i: "i < length bs" "\<not> buffer_done (bs ! i)" using ok(3) queue by simp_all
      have size: "length (wb_data (bs ! i)) = room" using ok(4) i(1) by simp
      have "length c \<le> length (wb_data (bs ! i))" "length (wb_data (bs ! i)) < 2 ^ 32"
        using ok(1,5) size sound by simp_all
      note fill = recorded_fill [OF this]
      let ?bs = "bs[i := fill_buffer c (bs ! i)]"
      let ?d = "d\<lparr>wd_queue := queue, wd_sound := sound, wd_heard := wd_heard d @ [(c, True)]\<rparr>"
      have step: "driver_fill p = (?bs, ?d)" using ok(6) by (simp add: p driver_fill_def sound queue)
      have filled: "filter_mset buffer_done (mset ?bs) = add_mset (fill_buffer c (bs ! i)) (filter_mset buffer_done (mset bs))"
        using mset_image_update(1) [where P = buffer_done and xs = bs and i = i and x = "fill_buffer c (bs ! i)"] i fill(2) by simp
      have waiting: "waiting_sound (with_driver s (?bs, ?d)) = (if pcm_samples c \<noteq> []
          then add_mset (pcm_samples c) (waiting_sound (with_driver s (bs, d))) else waiting_sound (with_driver s (bs, d)))"
        by (simp add: waiting_sound_def filled fill(1))
      have recorded: "recorded_sound (with_driver s (?bs, ?d)) = (if pcm_samples c \<noteq> []
          then add_mset (pcm_samples c) (recorded_sound (with_driver s (bs, d))) else recorded_sound (with_driver s (bs, d)))"
        by (simp add: recorded_sound_def)
      have kept: "gone + waiting_sound (with_driver s (?bs, ?d)) = recorded_sound (with_driver s (?bs, ?d))"
        using ok(8) unfolding waiting recorded by simp
      have idle: "idle_buffers (with_driver s (?bs, ?d)) = idle_buffers (with_driver s (bs, d))"
      proof (rule set_eqI)
        fix j
        show "j \<in> idle_buffers (with_driver s (?bs, ?d)) \<longleftrightarrow> j \<in> idle_buffers (with_driver s (bs, d))"
          using fill(2) i queue by (cases "j = i") (simp_all add: idle_buffers_def)
      qed
      have queued: "j < length ?bs \<and> \<not> buffer_done (?bs ! j)" if "j \<in> set queue" for j
        using ok(2,3) [unfolded queue] that by (cases "j = i") auto
      have "length (wb_data b) = room" if "b \<in> set ?bs" for b
        using set_update_cases [OF that] ok(4) fill(3) size by auto
      moreover have "all_sound (with_driver s (?bs, ?d)) = all_sound (with_driver s p)"
        by (simp add: all_sound_def p sound)
      moreover have "distinct queue" "\<And>c. c \<in> set sound \<Longrightarrow> length c \<le> room" using ok(2,5) queue sound by simp_all
      ultimately show ?thesis
        unfolding step using ok(1,6,7) kept queued by (auto simp: recording_ok_def p idle)
    qed
  qed
  then show "recording_ok room f gone (with_driver s (driver_fill p))"
    "all_sound (with_driver s (driver_fill p)) = all_sound (with_driver s p)"
    "length (fst (driver_fill p)) = length (fst p)" by simp_all
qed

lemma fills_ok:
  assumes "recording_ok room f gone (with_driver s p)"
  shows "recording_ok room f gone (with_driver s ((driver_fill ^^ n) p)) \<and>
    all_sound (with_driver s ((driver_fill ^^ n) p)) = all_sound (with_driver s p) \<and>
    length (fst ((driver_fill ^^ n) p)) = length (fst p)"
proof (induction n)
  case 0
  then show ?case using assms by simp
next
  case (Suc n)
  then show ?case using fill_ok [of room f gone s "(driver_fill ^^ n) p"] by simp
qed

lemma turn_ok:
  assumes "recording_ok room f gone s"
  shows "recording_ok room f gone (driver_turn recording_api s) \<and>
    all_sound (driver_turn recording_api s) = all_sound s \<and>
    length (wi_buffers (driver_turn recording_api s)) = length (wi_buffers s)"
proof (cases "wd_schedule (wi_world s)")
  case Nil
  then show ?thesis using assms by (simp add: driver_turn_def recording_api_def driver_async_def)
next
  case (Cons n schedule)
  let ?p = "(wi_buffers s, (wi_world s)\<lparr>wd_schedule := schedule\<rparr>)"
  have turn: "driver_turn recording_api s = with_driver s ((driver_fill ^^ n) ?p)"
    using Cons by (simp add: driver_turn_def recording_api_def driver_async_def with_driver_def)
  have start: "recording_ok room f gone (with_driver s ?p)"
    using assms by (simp add: recording_ok_def waiting_sound_def recorded_sound_def idle_buffers_def)
  show ?thesis
    unfolding turn using fills_ok [OF start, of n]
    by (cases "(driver_fill ^^ n) ?p") (simp add: all_sound_def)
qed

lemma device_call_cases:
  assumes "device_call f d = (r, d')"
  obtains "r = 0" "d' = f (d\<lparr>wd_results := tl (wd_results d)\<rparr>)"
    | "r \<noteq> 0" "d' = d\<lparr>wd_results := tl (wd_results d)\<rparr>"
proof (cases "wd_results d")
  case Nil
  then have same: "d\<lparr>wd_results := tl (wd_results d)\<rparr> = d" by (cases d) simp
  have "r = 0" "d' = f d" using assms Nil by (simp_all add: device_call_def)
  then show ?thesis by (intro that(1)) (simp_all only: same)
next
  case (Cons q qs)
  then show ?thesis using that assms by (simp add: device_call_def Let_def split: if_splits)
qed

text \<open>Queueing a buffer again takes its sound away; when it fails the buffer is idle.\<close>

definition emptied :: "wave_buffer \<Rightarrow> wave_buffer" where
  "emptied b = b\<lparr>wb_bytes_recorded := 0, wb_flags := and (wb_flags b) (not WHDR_DONE)\<rparr>"

lemma emptied_not_done: "\<not> buffer_done (emptied b)" "wb_data (emptied b) = wb_data b"
  by (simp_all add: buffer_done_def emptied_def WHDR_DONE_def and_not_one [simplified])

lemma requeue_eq:
  assumes "i < length (wi_buffers s)" and "requeue_buffer recording_api i s = (r, s')"
  obtains "r = Inr ()" "s' = s\<lparr>wi_buffers := (wi_buffers s)[i := emptied (wi_buffers s ! i)],
      wi_world := (wi_world s)\<lparr>wd_results := tl (wd_results (wi_world s)), wd_queue := wd_queue (wi_world s) @ [i]\<rparr>\<rparr>"
    | "isl r" "s' = s\<lparr>wi_buffers := (wi_buffers s)[i := emptied (wi_buffers s ! i)],
      wi_world := (wi_world s)\<lparr>wd_results := tl (wd_results (wi_world s))\<rparr>\<rparr>"
proof -
  obtain q d where d: "device_call (\<lambda>d. d\<lparr>wd_queue := wd_queue d @ [i]\<rparr>) (wi_world s) = (q, d)" by fastforce
  have r: "r = mm_result ''waveInAddBuffer'' q"
    "s' = s\<lparr>wi_buffers := (wi_buffers s)[i := emptied (wi_buffers s ! i)], wi_world := d\<rparr>"
    using assms d
    by (simp_all add: requeue_buffer_def on_buffer_def set_buffer_def recording_api_def io_then_def io_bind_def emptied_def)
  from d show ?thesis
  proof (cases rule: device_call_cases)
    case 1
    then show ?thesis using r that(1) by (simp add: mm_result_def)
  next
    case 2
    then show ?thesis using r that(2) by (simp add: mm_result_def)
  qed
qed

lemma requeue_ok:
  assumes "recording_ok room f gone s" and "i < length (wi_buffers s)" and "buffer_done (wi_buffers s ! i)"
    and "requeue_buffer recording_api i s = (r, s')"
  defines "x \<equiv> recorded_samples (wi_buffers s ! i)"
  shows "recording_ok room (if isl r then Suc f else f) (gone + (if x \<noteq> [] then {#x#} else {#})) s' \<and>
    all_sound s' = all_sound s \<and> length (wi_buffers s') = length (wi_buffers s)"
proof -
  let ?bs = "wi_buffers s" and ?d = "wi_world s" and ?b = "emptied (wi_buffers s ! i)"
  have ok: "room < 2 ^ 32" "distinct (wd_queue ?d)"
    "\<And>j. j \<in> set (wd_queue ?d) \<Longrightarrow> j < length ?bs \<and> \<not> buffer_done (?bs ! j)"
    "\<And>b. b \<in> set ?bs \<Longrightarrow> length (wb_data b) = room" "\<And>c. c \<in> set (wd_sound ?d) \<Longrightarrow> length c \<le> room" "wd_running ?d"
    "card (idle_buffers s) \<le> f" "gone + waiting_sound s = recorded_sound s"
    using assms(1) by (auto simp: recording_ok_def)
  have data: "length (wb_data b) = room" if "b \<in> set (?bs[i := ?b])" for b
    using set_update_cases [OF that] ok(4) assms(2) emptied_not_done(2) by auto
  have "filter_mset buffer_done (mset ?bs) = add_mset (?bs ! i) (filter_mset buffer_done (mset (?bs[i := ?b])))"
    using mset_image_update(2) [where P = buffer_done and xs = ?bs and i = i and x = ?b] assms(2,3) emptied_not_done(1) by simp
  then have left: "waiting_sound s = (if x \<noteq> [] then {#x#} else {#}) + waiting_sound (s\<lparr>wi_buffers := ?bs[i := ?b], wi_world := d\<rparr>)" for d
    by (simp add: waiting_sound_def x_def)
  have fresh: "i \<notin> set (wd_queue ?d)" using ok(3) assms(3) by blast
  have queued: "j < length (?bs[i := ?b]) \<and> \<not> buffer_done (?bs[i := ?b] ! j)" if "j = i \<or> j \<in> set (wd_queue ?d)" for j
    using that ok(3) assms(2) emptied_not_done(1) by (cases "j = i") auto
  from requeue_eq [OF assms(2,4)] show ?thesis
  proof cases
    case 1
    have "idle_buffers s' = idle_buffers s"
    proof (rule set_eqI)
      fix j show "j \<in> idle_buffers s' \<longleftrightarrow> j \<in> idle_buffers s"
        using 1 assms(3) by (cases "j = i") (auto simp: idle_buffers_def)
    qed
    moreover have "set (wd_queue ?d @ [i]) \<subseteq> {j. j < length (?bs[i := ?b]) \<and> \<not> buffer_done (?bs[i := ?b] ! j)}"
      by (intro subsetI CollectI queued) auto
    moreover have "gone + (if x \<noteq> [] then {#x#} else {#}) + waiting_sound s' = recorded_sound s'"
      using ok(8) left [of "wi_world s'"] 1 by (simp add: recorded_sound_def add.assoc)
    ultimately have "recording_ok room f (gone + (if x \<noteq> [] then {#x#} else {#})) s'"
      using 1 ok(1,2,5,6,7) data fresh emptied_not_done(1) by (simp add: recording_ok_def)
    then show ?thesis using 1 by (simp add: all_sound_def)
  next
    case 2
    have "idle_buffers s' = insert i (idle_buffers s)"
    proof (rule set_eqI)
      fix j show "j \<in> idle_buffers s' \<longleftrightarrow> j \<in> insert i (idle_buffers s)"
        using 2 assms(2) fresh emptied_not_done(1) by (cases "j = i") (auto simp: idle_buffers_def)
    qed
    moreover have "finite (idle_buffers s)" by (simp add: idle_buffers_def)
    ultimately have "card (idle_buffers s') \<le> Suc f" using ok(7) by (simp add: card_insert_if)
    moreover have "set (wd_queue ?d) \<subseteq> {j. j < length (?bs[i := ?b]) \<and> \<not> buffer_done (?bs[i := ?b] ! j)}"
      by (intro subsetI CollectI queued) auto
    moreover have "gone + (if x \<noteq> [] then {#x#} else {#}) + waiting_sound s' = recorded_sound s'"
      using ok(8) left [of "wi_world s'"] 2 by (simp add: recorded_sound_def add.assoc)
    ultimately have "recording_ok room (Suc f) (gone + (if x \<noteq> [] then {#x#} else {#})) s'"
      using 2 ok(1,2,5,6) data by (simp add: recording_ok_def)
    then show ?thesis using 2 by (simp add: all_sound_def)
  qed
qed

text \<open>An answer takes its sound out of the buffers, a failed one at most the sound of one buffer.\<close>

lemma poll_ok:
  assumes "recording_ok room f gone s" and "\<And>i. i \<in> set js \<Longrightarrow> i < length (wi_buffers s)"
    and "pcm_samples_from recording_api js s = (r, s')"
  shows "\<exists>lost. recording_ok room (if isl r then Suc f else f) (gone + mset (answer_sound r) + lost) s' \<and>
    size lost \<le> (if isl r then 1 else 0) \<and> all_sound s' = all_sound s \<and> length (wi_buffers s') = length (wi_buffers s)"
  using assms
proof (induction js arbitrary: s)
  case Nil
  then show ?case by auto
next
  case (Cons i rest)
  define s1 where "s1 = driver_turn recording_api s"
  have s1: "recording_ok room f gone s1" "all_sound s1 = all_sound s" "length (wi_buffers s1) = length (wi_buffers s)"
    using turn_ok [OF Cons.prems(1)] by (simp_all add: s1_def)
  have i: "i < length (wi_buffers s1)" and rest: "\<And>j. j \<in> set rest \<Longrightarrow> j < length (wi_buffers s1)"
    using Cons.prems(2) s1(3) by simp_all
  show ?case
  proof (cases "buffer_done (wi_buffers s1 ! i)")
    case False
    then have "pcm_samples_from recording_api rest s1 = (r, s')"
      using Cons.prems(3) by (simp add: s1_def Let_def buffer_done_def)
    from Cons.IH [OF s1(1) rest this] s1(2,3) show ?thesis by simp
  next
    case True
    let ?x = "recorded_samples (wi_buffers s1 ! i)"
    obtain q s2 where q: "requeue_buffer recording_api i s1 = (q, s2)" by fastforce
    note s2 = requeue_ok [OF s1(1) i True q]
    have done_flag: "and (wb_flags (wi_buffers s1 ! i)) WHDR_DONE \<noteq> 0" using True by (simp add: buffer_done_def)
    show ?thesis
    proof (cases q)
      case (Inl e)
      then have "r = Inl e" "s' = s2" using Cons.prems(3) q done_flag by (simp_all add: s1_def [symmetric] Let_def)
      then show ?thesis
        using s2 s1 Inl by (intro exI [of _ "if ?x \<noteq> [] then {#?x#} else {#}"]) simp
    next
      case (Inr u)
      show ?thesis
      proof (cases "?x = []")
        case False
        then have "r = Inr (Some ?x)" "s' = s2"
          using Cons.prems(3) q done_flag Inr by (simp_all add: s1_def [symmetric] Let_def)
        then show ?thesis using s2 s1 Inr False by (intro exI [of _ "{#}"]) simp
      next
        case empty: True
        then have again: "pcm_samples_from recording_api rest s2 = (r, s')"
          using Cons.prems(3) q done_flag Inr by (simp add: s1_def [symmetric] Let_def)
        have "recording_ok room f gone s2" "\<And>j. j \<in> set rest \<Longrightarrow> j < length (wi_buffers s2)"
          using s2 Inr empty rest by simp_all
        from Cons.IH [OF this again] s2 s1 show ?thesis by simp
      qed
    qed
  qed
qed

lemma polls_ok:
  assumes "recording_ok room f gone s" and "polls n s = (answers, s')"
  shows "\<exists>lost. recording_ok room (f + failures answers) (gone + mset (handed_out answers) + lost) s' \<and>
    size lost \<le> failures answers \<and> all_sound s' = all_sound s \<and> length (wi_buffers s') = length (wi_buffers s)"
  using assms
proof (induction n arbitrary: f gone s answers s')
  case 0
  then show ?case by (auto simp: failures_def handed_out_def)
next
  case (Suc n)
  obtain r s1 where r: "next_pcm_samples recording_api s = (r, s1)" by fastforce
  obtain rs s2 where rs: "polls n s1 = (rs, s2)" by fastforce
  have answers: "answers = r # rs" "s' = s2" using Suc.prems(2) r rs by simp_all
  from poll_ok [OF Suc.prems(1) _ r [unfolded next_pcm_samples_def]] obtain lost where
    s1: "recording_ok room (if isl r then Suc f else f) (gone + mset (answer_sound r) + lost) s1"
      "size lost \<le> (if isl r then 1 else 0)" "all_sound s1 = all_sound s" "length (wi_buffers s1) = length (wi_buffers s)"
    by auto
  from Suc.IH [OF s1(1) rs] obtain lost' where
    s2: "recording_ok room ((if isl r then Suc f else f) + failures rs)
        (gone + mset (answer_sound r) + lost + mset (handed_out rs) + lost') s2"
      "size lost' \<le> failures rs" "all_sound s2 = all_sound s1" "length (wi_buffers s2) = length (wi_buffers s1)" by blast
  have sum: "gone + mset (answer_sound r) + lost + mset (handed_out rs) + lost' =
      gone + mset (handed_out (r # rs)) + (lost + lost')"
    by (simp add: handed_out_def ac_simps)
  show ?case
    using s1 s2 [unfolded sum] unfolding answers by (intro exI [of _ "lost + lost'"]) (auto simp: failures_def split: if_splits)
qed

section \<open>The recorder\<close>

lemma buffer_bytes_bound:
  assumes "wave_in_format config = Inr format" and "wave_in_buffers config = Inr bs"
    and "ac_frame_duration_ms config \<le> 1000"
  shows "\<exists>n < 2 ^ 32. \<exists>m. bs = replicate 3 \<lparr>wb_data = replicate n 0, wb_buffer_length = m, wb_bytes_recorded = 0,
    wb_flags = 0, wb_prepared = False\<rparr>"
proof -
  let ?rate = "unat (ac_sample_rate_hz config)" and ?ch = "unat (ac_channel_count config)"
  let ?prod = "sat_mul (ac_sample_rate_hz config) (ucast (ac_frame_duration_ms config)) :: u32"
  define frames where "frames = unat (max (?prod div 1000) 1)"
  have format: "?ch * 2 < 2 ^ 16" "?rate * (?ch * 2) < 2 ^ 32"
    using assms(1) by (auto simp: wave_in_format_def Let_def split: if_splits)
  have "unat (ac_frame_duration_ms config) \<le> 1000" using assms(3) by (simp add: word_le_nat_alt)
  then have dur: "?rate * unat (ac_frame_duration_ms config) \<le> ?rate * 1000" by (rule mult_le_mono2)
  have "unat (ucast (ac_frame_duration_ms config) :: u32) = unat (ac_frame_duration_ms config)"
    using unat_u16_less [of "ac_frame_duration_ms config"] by (simp add: unsigned_ucast_eq take_bit_nat_eq_self)
  then have "unat ?prod \<le> ?rate * unat (ac_frame_duration_ms config)" by (simp add: unat_sat_mul)
  with dur have "unat ?prod \<le> ?rate * 1000" by linarith
  then have "unat (?prod div 1000) \<le> ?rate" by (simp add: unat_div div_le_mono [of "unat ?prod" "?rate * 1000" 1000, simplified])
  then have "frames \<le> max ?rate 1"
    by (auto simp: frames_def max_def word_le_nat_alt split: if_splits)
  then have "frames * (?ch * 2) \<le> max ?rate 1 * (?ch * 2)" by (rule mult_le_mono1)
  also have "\<dots> < 2 ^ 32" using format by (auto simp: max_def mult.commute [of "unat (ac_channel_count config)"])
  finally have small: "frames * ?ch * 2 < 2 ^ 32" by (simp add: mult.assoc)
  then have "checked_mul_usize frames ?ch = Some (frames * ?ch)" "checked_mul_usize (frames * ?ch) 2 = Some (frames * ?ch * 2)"
    by (simp_all add: checked_mul_usize_def)
  then show ?thesis
    using assms(2) small by (auto simp: wave_in_buffers_def frames_def Let_def)
qed

lemma queue_buffer:
  assumes "prepare_and_queue_buffer recording_api i s = (Inr (), s')" and "i < length (wi_buffers s)"
  shows "s' = s\<lparr>wi_buffers := (wi_buffers s)[i := (wi_buffers s ! i)\<lparr>wb_prepared := True\<rparr>],
    wi_world := (wi_world s)\<lparr>wd_results := tl (tl (wd_results (wi_world s))), wd_queue := wd_queue (wi_world s) @ [i]\<rparr>\<rparr>"
proof -
  obtain r d where d: "device_call id (wi_world s) = (r, d)" by fastforce
  obtain r' d' where d': "device_call (\<lambda>d. d\<lparr>wd_queue := wd_queue d @ [i]\<rparr>) d = (r', d')" by fastforce
  have "r = 0" "r' = 0" and s': "s' = s\<lparr>wi_buffers := (wi_buffers s)[i := (wi_buffers s ! i)\<lparr>wb_prepared := True\<rparr>], wi_world := d'\<rparr>"
    using assms d d'
    by (auto simp: prepare_and_queue_buffer_def on_buffer_def set_buffer_def recording_api_def io_then_def io_bind_def
        mm_result_def split: if_splits)
  with d d' have "d = (wi_world s)\<lparr>wd_results := tl (wd_results (wi_world s))\<rparr>"
    "d' = d\<lparr>wd_results := tl (wd_results d), wd_queue := wd_queue d @ [i]\<rparr>"
    by (auto elim!: device_call_cases)
  then show ?thesis by (simp add: s')
qed

lemma io_each_Cons_ok:
  assumes "io_each f (x # xs) s = (Inr ys, s')"
  shows "\<exists>y zs s1. f x s = (Inr y, s1) \<and> io_each f xs s1 = (Inr zs, s')"
  using assms by (auto simp: io_bind_def io_return_def split: prod.splits sum.splits)

lemma three_queued:
  assumes "prepare_and_queue_buffers recording_api \<lparr>wi_buffers = [b, b, b], wi_started = x, wi_world = d\<rparr> = (Inr (), s)"
  shows "s = \<lparr>wi_buffers = replicate 3 (b\<lparr>wb_prepared := True\<rparr>), wi_started = x,
    wi_world = d\<lparr>wd_results := (tl ^^ 6) (wd_results d), wd_queue := wd_queue d @ [0, 1, 2]\<rparr>\<rparr>"
proof -
  have each: "[0..<3] = [0, 1, 2 :: nat]" by (simp add: upt_rec)
  obtain xs where xs: "io_each (prepare_and_queue_buffer recording_api) [0, 1, 2]
      \<lparr>wi_buffers = [b, b, b], wi_started = x, wi_world = d\<rparr> = (Inr xs, s)"
    using assms
    by (auto simp: prepare_and_queue_buffers_def each io_then_def io_bind_def [of "io_each _ _"] io_return_def numeral_2_eq_2
        simp del: io_each.simps split: prod.splits sum.splits)
  obtain ys s1 where s1: "prepare_and_queue_buffer recording_api 0 \<lparr>wi_buffers = [b, b, b], wi_started = x, wi_world = d\<rparr> = (Inr (), s1)"
    and ys: "io_each (prepare_and_queue_buffer recording_api) [1, 2] s1 = (Inr ys, s)"
    using io_each_Cons_ok [OF xs] by auto
  obtain zs s2 where s2: "prepare_and_queue_buffer recording_api 1 s1 = (Inr (), s2)"
    and zs: "io_each (prepare_and_queue_buffer recording_api) [2] s2 = (Inr zs, s)"
    using io_each_Cons_ok [OF ys] by auto
  obtain s4 us where s4: "prepare_and_queue_buffer recording_api 2 s2 = (Inr (), s4)"
    and us: "io_each (prepare_and_queue_buffer recording_api) [] s4 = (Inr us, s)"
    using io_each_Cons_ok [OF zs] by auto
  have s3: "prepare_and_queue_buffer recording_api 2 s2 = (Inr (), s)"
    using s4 us by (simp add: io_return_def)
  show ?thesis
    using queue_buffer [OF s1] queue_buffer [OF s2] queue_buffer [OF s3] by (simp add: numeral_eq_Suc)
qed

text \<open>An opened recorder, whose eight calls have not failed.\<close>

definition opened :: "wave_buffer \<Rightarrow> wave_driver \<Rightarrow> wave_driver wave_in" where
  "opened b d =
     \<lparr>wi_buffers = replicate 3 b, wi_started = True,
      wi_world = d\<lparr>wd_results := (tl ^^ 8) (wd_results d), wd_running := True, wd_queue := [0, 1, 2]\<rparr>\<rparr>"

lemma recorder_opens:
  assumes "wave_in_open recording_api quote source config (driver_with results sound schedule) = Inr s"
    and "ac_frame_duration_ms config \<le> 1000"
  shows "\<exists>n < 2 ^ 32. \<exists>m. s = opened \<lparr>wb_data = replicate n 0, wb_buffer_length = m, wb_bytes_recorded = 0,
      wb_flags = 0, wb_prepared = True\<rparr> (driver_with results sound schedule)"
proof -
  let ?d = "driver_with results sound schedule"
  obtain device format where device: "wave_in_device_id quote source = Inr device" "wave_in_format config = Inr format"
    using assms(1)
    by (cases "wave_in_device_id quote source"; cases "wave_in_format config") (simp_all add: wave_in_open_def)
  obtain r1 d1 where d1: "device_call id ?d = (r1, d1)" by fastforce
  obtain buffers where r1: "r1 = 0" and buffers: "wave_in_buffers config = Inr buffers"
    using assms(1) device d1
    by (cases "wave_in_buffers config")
      (auto simp: wave_in_open_def recording_api_def mm_result_def split: if_splits)
  from buffer_bytes_bound [OF device(2) buffers assms(2)] obtain n m where
    n: "n < 2 ^ 32" "buffers = replicate 3 \<lparr>wb_data = replicate n 0, wb_buffer_length = m, wb_bytes_recorded = 0,
      wb_flags = 0, wb_prepared = False\<rparr>" by blast
  let ?b = "\<lparr>wb_data = replicate n 0, wb_buffer_length = m, wb_bytes_recorded = 0, wb_flags = 0, wb_prepared = False\<rparr> :: wave_buffer"
  have three: "replicate 3 b = [b, b, b]" for b :: wave_buffer by (simp add: numeral_3_eq_3)
  obtain q s2 where q: "prepare_and_queue_buffers recording_api
      \<lparr>wi_buffers = [?b, ?b, ?b], wi_started = False, wi_world = d1\<rparr> = (q, s2)" by fastforce
  obtain r3 d3 where d3: "device_call (\<lambda>d. d\<lparr>wd_running := True\<rparr>) (wi_world s2) = (r3, d3)" by fastforce
  have opens: "wa_open recording_api x y = device_call id" "wa_start recording_api = device_call (\<lambda>d. d\<lparr>wd_running := True\<rparr>)" for x y
    by (simp_all add: recording_api_def)
  have start: "(case io_then (prepare_and_queue_buffers recording_api)
        (\<lambda>s. let (result, w) = wa_start recording_api (wi_world s)
             in (mm_result ''waveInStart'' result, s\<lparr>wi_world := w\<rparr>))
        \<lparr>wi_buffers = [?b, ?b, ?b], wi_started = False, wi_world = d1\<rparr> of
      (Inl e, s) \<Rightarrow> Inl (e, wave_in_drop recording_api s) | (Inr _, s) \<Rightarrow> Inr (s\<lparr>wi_started := True\<rparr>)) = Inr s"
    using assms(1) device r1 d1 buffers by (simp add: wave_in_open_def opens(1) mm_result_def n(2) three)
  have q': "q = Inr ()" using start q by (cases q) (simp_all add: io_then_def io_bind_def)
  have ok: "r3 = 0" "s = s2\<lparr>wi_world := d3, wi_started := True\<rparr>"
    using start d3 by (simp_all add: io_then_def io_bind_def q q' opens(2) mm_result_def split: if_splits)
  have "d1 = ?d\<lparr>wd_results := tl (wd_results ?d)\<rparr>" using d1 r1 by (auto elim!: device_call_cases)
  moreover have "d3 = (wi_world s2)\<lparr>wd_results := tl (wd_results (wi_world s2)), wd_running := True\<rparr>"
    using d3 ok(1) by (auto elim!: device_call_cases)
  moreover have "tl ((tl ^^ 6) (tl rs)) = (tl ^^ 8) rs" for rs :: "u32 list" by (simp add: numeral_eq_Suc)
  ultimately have "s = opened (?b\<lparr>wb_prepared := True\<rparr>) ?d"
    using three_queued [OF q [unfolded q']] ok(2) by (simp add: opened_def driver_with_def)
  then show ?thesis using n(1) by (intro exI [of _ n] conjI exI [of _ m]) simp_all
qed

text \<open>
  C29. With a driver as WinMM documents it, whichever of its calls fail and whenever it fills its
  buffers: all sound is either recorded into a buffer or came while none was queued; of the recorded
  sound \<open>n\<close> reads have handed out every piece once and unaltered, but for what still waits in the
  buffers and for at most one piece for each read that failed; and of the three buffers all are
  queued for sound or hold sound to be read, but for at most one for each read that failed.
\<close>

theorem recording_conserves:
  assumes "wave_in_open recording_api quote source config (driver_with results sound schedule) = Inr s"
    and "ac_frame_duration_ms config \<le> 1000"
    and "\<forall>c \<in> set sound. length c \<le> length (wb_data (wi_buffers s ! 0))"
    and "polls n s = (answers, s')"
  shows "map fst (wd_heard (wi_world s')) @ wd_sound (wi_world s') = sound \<and>
    (\<exists>lost. mset (handed_out answers) + waiting_sound s' + lost = recorded_sound s' \<and> size lost \<le> failures answers) \<and>
    3 \<le> length (wd_queue (wi_world s')) + length (filter buffer_done (wi_buffers s')) + failures answers"
proof -
  from recorder_opens [OF assms(1,2)] obtain room m where
    s: "room < 2 ^ 32" "s = opened \<lparr>wb_data = replicate room 0, wb_buffer_length = m, wb_bytes_recorded = 0,
        wb_flags = 0, wb_prepared = True\<rparr> (driver_with results sound schedule)" by blast
  have fresh: "\<not> buffer_done \<lparr>wb_data = replicate room 0, wb_buffer_length = m, wb_bytes_recorded = 0, wb_flags = 0,
      wb_prepared = True\<rparr>" by (simp add: buffer_done_def)
  have "idle_buffers s = {}" by (auto simp: idle_buffers_def s(2) opened_def)
  then have "recording_ok room 0 {#} s"
    using s(1) assms(3) fresh
    by (auto simp: recording_ok_def s(2) opened_def driver_with_def waiting_sound_def recorded_sound_def)
  from polls_ok [OF this assms(4)] obtain lost where
    end_ok: "recording_ok room (failures answers) (mset (handed_out answers) + lost) s'"
    and rest: "size lost \<le> failures answers" "all_sound s' = all_sound s" "length (wi_buffers s') = 3"
    by (auto simp: s(2) opened_def)
  have "{0..<3} \<subseteq> set (wd_queue (wi_world s')) \<union>
      {i. i < length (wi_buffers s') \<and> buffer_done (wi_buffers s' ! i)} \<union> idle_buffers s'"
    using rest(3) by (auto simp: idle_buffers_def)
  then have "card {0..<3 :: nat} \<le> card (set (wd_queue (wi_world s')) \<union>
      {i. i < length (wi_buffers s') \<and> buffer_done (wi_buffers s' ! i)} \<union> idle_buffers s')"
    by (intro card_mono) (simp_all add: idle_buffers_def)
  also have "\<dots> \<le> length (wd_queue (wi_world s')) + length (filter buffer_done (wi_buffers s')) + failures answers"
    using end_ok card_length [of "wd_queue (wi_world s')"]
    by (intro order.trans [OF card_Un_le] add_mono)
      (simp_all add: recording_ok_def length_filter_conv_card)
  finally have "3 \<le> length (wd_queue (wi_world s')) + length (filter buffer_done (wi_buffers s')) + failures answers"
    by simp
  moreover have "mset (handed_out answers) + waiting_sound s' + lost = recorded_sound s'"
    using end_ok by (simp add: recording_ok_def ac_simps)
  moreover have "map fst (wd_heard (wi_world s')) @ wd_sound (wi_world s') = sound"
    using rest(2) by (simp add: all_sound_def s(2) opened_def driver_with_def)
  ultimately show ?thesis using rest(1) by blast
qed

definition short_config :: audio_capture_config where
  "short_config =
     \<lparr>ac_sample_rate_hz = 1000, ac_channel_count = 1, ac_frame_duration_ms = 1, ac_queue_capacity = 1\<rparr>"

definition short_buffer :: wave_buffer where
  "short_buffer =
     \<lparr>wb_data = [0, 0], wb_buffer_length = 2, wb_bytes_recorded = 0, wb_flags = 0, wb_prepared = True\<rparr>"

lemma device_call_ok:
  "wd_results d = [] \<or> hd (wd_results d) = 0 \<Longrightarrow> device_call f d = (0, f (d\<lparr>wd_results := tl (wd_results d)\<rparr>))"
  by (cases "wd_results d"; cases d) (simp_all add: device_call_def)

lemma queue_buffer_run:
  assumes "device_call id (wi_world s) = (0, d)" and "device_call (\<lambda>d. d\<lparr>wd_queue := wd_queue d @ [i]\<rparr>) d = (0, d')"
    and "i < length (wi_buffers s)"
  shows "prepare_and_queue_buffer recording_api i s =
    (Inr (), s\<lparr>wi_buffers := (wi_buffers s)[i := (wi_buffers s ! i)\<lparr>wb_prepared := True\<rparr>], wi_world := d'\<rparr>)"
  using assms
  by (simp add: prepare_and_queue_buffer_def on_buffer_def set_buffer_def recording_api_def io_then_def io_bind_def mm_result_def)

lemma short_recorder:
  assumes "results = [] \<or> results = [0, 0, 0, 0, 0, 0, 0, 0, 11]"
  shows "wave_in_open recording_api (\<lambda>s. s) DefaultMicrophone short_config (driver_with results sound schedule) =
    Inr (opened short_buffer (driver_with results sound schedule))"
proof -
  have two: "replicate 2 (0 :: u8) = [0, 0]" by (simp add: numeral_2_eq_2)
  have three: "replicate 3 b = [b, b, b]" for b :: wave_buffer by (simp add: numeral_3_eq_3)
  have each: "[0..<Suc (Suc (Suc 0))] = [0, Suc 0, Suc (Suc 0)]" by (simp add: upt_rec)
  let ?b = "short_buffer\<lparr>wb_prepared := False\<rparr>"
  have buffers: "wave_in_buffers short_config = Inr [?b, ?b, ?b]"
    using two by (simp add: wave_in_buffers_def short_config_def sat_mul_def checked_mul_usize_def three short_buffer_def)
  have device: "wave_in_device_id (\<lambda>s. s) DefaultMicrophone = Inr WAVE_MAPPER" by (simp add: wave_in_device_id_def)
  have format: "wave_in_format short_config = Inr (pcm_wave_format 1000 1 2 2000)"
    by (simp add: wave_in_format_def short_config_def)
  have opens: "wa_open recording_api x y = device_call id" "wa_start recording_api = device_call (\<lambda>d. d\<lparr>wd_running := True\<rparr>)" for x y
    by (simp_all add: recording_api_def)
  have drop8: "(tl ^^ 8) rs = tl (tl (tl (tl (tl (tl (tl (tl rs)))))))" for rs :: "u32 list" by (simp add: eval_nat_numeral)
  show ?thesis
    using assms
    by (elim disjE)
      (simp_all add: wave_in_open_def device format buffers opens device_call_ok driver_with_def mm_result_def io_then_def io_bind_def
        io_return_def prepare_and_queue_buffers_def each queue_buffer_run opened_def drop8 three short_buffer_def del: upt_Suc)
qed

theorem recording_conserves_witness:
  "\<exists>answers s'. polls 2 (opened short_buffer
       (driver_with [0, 0, 0, 0, 0, 0, 0, 0, 11] [[1, 0], [2, 0]] [1, 0, 0, 1])) = (answers, s') \<and>
     failures answers = 1 \<and>
     (\<exists>lost. mset (handed_out answers) + waiting_sound s' + lost = recorded_sound s' \<and> size lost \<le> 1)"
proof -
  let ?d = "driver_with [0, 0, 0, 0, 0, 0, 0, 0, 11] [[1, 0], [2, 0]] [1, 0, 0, 1]"
  obtain answers s' where run: "polls 2 (opened short_buffer ?d) = (answers, s')" by fastforce
  have "failures (fst (polls 2 (opened short_buffer ?d))) = 1" by code_simp
  then have one: "failures answers = 1" by (simp only: run fst_conv)
  have "ac_frame_duration_ms short_config \<le> 1000" by (simp add: short_config_def)
  moreover have "\<forall>c \<in> set [[1, 0], [2, 0]]. length c \<le> length (wb_data (wi_buffers (opened short_buffer ?d) ! 0))"
    by (simp add: opened_def short_buffer_def)
  ultimately have "\<exists>lost. mset (handed_out answers) + waiting_sound s' + lost = recorded_sound s' \<and>
      size lost \<le> failures answers"
    using recording_conserves [OF short_recorder [OF disjI2, OF refl] _ _ run] by blast
  then show ?thesis unfolding one using run one by blast
qed

section \<open>In which order\<close>

text \<open>
  \<open>j\<close> is the buffer that is filled next, \<open>turn\<close> the schedule on which one chunk comes before each of
  \<open>k\<close> reads, and then two before the next one.
\<close>

fun keeps_up :: "nat \<Rightarrow> nat \<Rightarrow> nat list" where
  "keeps_up j 0 = [2]"
| "keeps_up j (Suc k) = 1 # replicate (j mod 3) 0 @ keeps_up (Suc j) k"

definition all_queued :: "nat \<Rightarrow> nat \<Rightarrow> bytes list \<Rightarrow> nat list \<Rightarrow> wave_driver wave_in \<Rightarrow> bool" where
  "all_queued room j sound schedule s \<longleftrightarrow>
     length (wi_buffers s) = 3 \<and> (\<forall>i < 3. \<not> buffer_done (wi_buffers s ! i) \<and> length (wb_data (wi_buffers s ! i)) = room) \<and>
     room < 2 ^ 32 \<and> wd_queue (wi_world s) = [j mod 3, Suc j mod 3, Suc (Suc j) mod 3] \<and>
     wd_running (wi_world s) \<and> wd_results (wi_world s) = [] \<and>
     wd_sound (wi_world s) = sound \<and> wd_schedule (wi_world s) = schedule"

text \<open>Nothing comes before the next \<open>m\<close> reads of a header, and then the schedule is \<open>schedule\<close>.\<close>

fun still :: "nat \<Rightarrow> nat list \<Rightarrow> nat list \<Rightarrow> bool" where
  "still 0 now schedule \<longleftrightarrow> now = schedule"
| "still (Suc m) [] schedule \<longleftrightarrow> schedule = []"
| "still (Suc m) (n # now) schedule \<longleftrightarrow> n = 0 \<and> still m now schedule"

lemma still_zeros: "still m (replicate m 0 @ schedule) schedule"
  by (induction m) simp_all

lemma still_end: "still m [] []"
  by (cases m) simp_all

definition with_schedule :: "nat list \<Rightarrow> wave_driver wave_in \<Rightarrow> wave_driver wave_in" where
  "with_schedule schedule s = s\<lparr>wi_world := (wi_world s)\<lparr>wd_schedule := schedule\<rparr>\<rparr>"

lemma with_schedule_sel [simp]:
  "wi_buffers (with_schedule schedule s) = wi_buffers s" "wd_results (wi_world (with_schedule schedule s)) = wd_results (wi_world s)"
  "wd_schedule (wi_world (with_schedule schedule s)) = schedule"
  "with_schedule schedule (with_schedule schedule' s) = with_schedule schedule s"
  by (simp_all add: with_schedule_def)

definition requeued :: "nat \<Rightarrow> wave_driver wave_in \<Rightarrow> wave_driver wave_in" where
  "requeued i s = s\<lparr>wi_buffers := (wi_buffers s)[i := emptied (wi_buffers s ! i)],
     wi_world := (wi_world s)\<lparr>wd_queue := wd_queue (wi_world s) @ [i]\<rparr>\<rparr>"

lemma requeue_run:
  assumes "wd_results (wi_world s) = []" and "i < length (wi_buffers s)"
  shows "requeue_buffer recording_api i s = (Inr (), requeued i s)"
  using assms
  by (simp add: requeue_buffer_def on_buffer_def set_buffer_def recording_api_def device_call_def io_then_def io_bind_def
      mm_result_def emptied_def requeued_def)

lemma turn_run:
  "wd_schedule (wi_world s) = n # schedule \<Longrightarrow> driver_turn recording_api s =
    with_driver s ((driver_fill ^^ n) (wi_buffers s, (wi_world s)\<lparr>wd_schedule := schedule\<rparr>))"
  by (simp add: driver_turn_def recording_api_def driver_async_def with_driver_def)

lemma turn_still:
  assumes "still (Suc m) (wd_schedule (wi_world s)) schedule"
  shows "\<exists>now. driver_turn recording_api s = with_schedule now s \<and> still m now schedule"
proof (cases "wd_schedule (wi_world s)")
  case Nil
  then have "driver_turn recording_api s = with_schedule [] s"
    by (simp add: driver_turn_def recording_api_def driver_async_def with_schedule_def)
  then show ?thesis using assms Nil by (intro exI [of _ "[]"]) (simp add: still_end)
next
  case (Cons n rest)
  then have "n = 0" "still m rest schedule" using assms by simp_all
  then show ?thesis using turn_run [OF Cons] by (intro exI [of _ rest]) (simp add: with_driver_def with_schedule_def)
qed

lemma scan:
  assumes "still (Suc m) (wd_schedule (wi_world s)) schedule" and "i = a + m" and "i < length (wi_buffers s)"
    and "\<And>k. a \<le> k \<Longrightarrow> k < i \<Longrightarrow> \<not> buffer_done (wi_buffers s ! k)" and "buffer_done (wi_buffers s ! i)"
    and "recorded_samples (wi_buffers s ! i) \<noteq> []" and "wd_results (wi_world s) = []"
  shows "pcm_samples_from recording_api [a..<length (wi_buffers s)] s =
    (Inr (Some (recorded_samples (wi_buffers s ! i))), requeued i (with_schedule schedule s))"
  using assms
proof (induction m arbitrary: a s)
  case 0
  from turn_still [OF 0(1)] have turn: "driver_turn recording_api s = with_schedule schedule s"
    by auto
  have "[a..<length (wi_buffers s)] = i # [Suc a..<length (wi_buffers s)]" using 0(2,3) by (simp add: upt_conv_Cons)
  then show ?case
    using 0(2-7) turn requeue_run [of "with_schedule schedule s" i] by (simp add: Let_def buffer_done_def)
next
  case (Suc m)
  from turn_still [OF Suc.prems(1)] obtain now where
    now: "driver_turn recording_api s = with_schedule now s" "still (Suc m) now schedule" by blast
  have "[a..<length (wi_buffers s)] = a # [Suc a..<length (wi_buffers s)]" using Suc.prems(2,3) by (simp add: upt_conv_Cons)
  moreover have "\<not> buffer_done (wi_buffers s ! a)" using Suc.prems(2,4) by simp
  ultimately have "pcm_samples_from recording_api [a..<length (wi_buffers s)] s =
      pcm_samples_from recording_api [Suc a..<length (wi_buffers (with_schedule now s))] (with_schedule now s)"
    using now(1) by (simp add: Let_def buffer_done_def)
  also have "\<dots> = (Inr (Some (recorded_samples (wi_buffers (with_schedule now s) ! i))),
      requeued i (with_schedule schedule (with_schedule now s)))"
    using now(2) Suc.prems by (intro Suc.IH) simp_all
  finally show ?case by simp
qed

text \<open>A read hands out the sound of the first buffer that is done after the driver's turn.\<close>

lemma reads_first:
  assumes "wd_schedule (wi_world s) = n # now" and "still i now schedule"
    and "driver_turn recording_api s = t" and "i < length (wi_buffers t)"
    and "\<And>k. k < i \<Longrightarrow> \<not> buffer_done (wi_buffers t ! k)" and "buffer_done (wi_buffers t ! i)"
    and "recorded_samples (wi_buffers t ! i) \<noteq> []" and "wd_results (wi_world t) = []"
    and "length (wi_buffers t) = length (wi_buffers s)" and "wd_schedule (wi_world t) = now"
  shows "next_pcm_samples recording_api s =
    (Inr (Some (recorded_samples (wi_buffers t ! i))), requeued i (with_schedule schedule t))"
proof -
  let ?u = "with_schedule (0 # now) t"
  have turn: "driver_turn recording_api ?u = t"
    using turn_run [of ?u 0 now] assms(10) by (simp add: with_driver_def with_schedule_def)
  have "0 < length (wi_buffers s)" using assms(4,9) by linarith
  then have "[0..<length (wi_buffers s)] = 0 # [Suc 0..<length (wi_buffers s)]" by (rule upt_conv_Cons)
  then have "next_pcm_samples recording_api s = pcm_samples_from recording_api [0..<length (wi_buffers ?u)] ?u"
    using turn assms(3,9) by (simp add: next_pcm_samples_def)
  also have "\<dots> = (Inr (Some (recorded_samples (wi_buffers ?u ! i))), requeued i (with_schedule schedule ?u))"
    using assms(2,4-8) by (intro scan [of i]) simp_all
  finally show ?thesis by simp
qed

lemma sound_not_empty: "2 \<le> length c \<Longrightarrow> pcm_samples c \<noteq> []"
  by (cases c rule: pcm_samples.cases) simp_all

lemma read_in_time:
  assumes "all_queued room j (c # sound) (1 # replicate (j mod 3) 0 @ schedule) s"
    and "length c \<le> room" and "2 \<le> length c"
  shows "\<exists>s'. next_pcm_samples recording_api s = (Inr (Some (pcm_samples c)), s') \<and>
    all_queued room (Suc j) sound schedule s'"
proof -
  let ?i = "j mod 3" and ?bs = "wi_buffers s" and ?d = "wi_world s"
  from assms(1) have s: "length ?bs = 3" "room < 2 ^ 32"
    "wd_queue ?d = [j mod 3, Suc j mod 3, Suc (Suc j) mod 3]" "wd_running ?d" "wd_results ?d = []" "wd_sound ?d = c # sound"
    "wd_schedule ?d = 1 # replicate (j mod 3) 0 @ schedule"
    and idle: "\<And>k. k < 3 \<Longrightarrow> \<not> buffer_done (?bs ! k)" "\<And>k. k < 3 \<Longrightarrow> length (wb_data (?bs ! k)) = room"
    by (simp_all add: all_queued_def)
  have i: "?i < 3" by simp
  have fill: "recorded_samples (fill_buffer c (?bs ! ?i)) = pcm_samples c" "buffer_done (fill_buffer c (?bs ! ?i))"
    "length (wb_data (fill_buffer c (?bs ! ?i))) = room"
    using recorded_fill [of c "?bs ! ?i"] idle(2) [OF i] assms(2) s(2) by simp_all
  let ?t = "s\<lparr>wi_buffers := ?bs[?i := fill_buffer c (?bs ! ?i)], wi_world := ?d\<lparr>wd_schedule := replicate ?i 0 @ schedule,
    wd_queue := [Suc j mod 3, Suc (Suc j) mod 3], wd_sound := sound, wd_heard := wd_heard ?d @ [(c, True)]\<rparr>\<rparr>"
  have turn: "driver_turn recording_api s = ?t"
    using turn_run [OF s(7)] s by (simp add: with_driver_def driver_fill_def)
  have "next_pcm_samples recording_api s =
      (Inr (Some (recorded_samples (wi_buffers ?t ! ?i))), requeued ?i (with_schedule schedule ?t))"
    by (rule reads_first [OF s(7) _ turn])
      (use s i idle fill sound_not_empty [OF assms(3)] in \<open>simp_all add: still_zeros\<close>)
  moreover have "all_queued room (Suc j) sound schedule (requeued ?i (with_schedule schedule ?t))"
  proof -
    have "Suc (Suc (Suc j)) mod 3 = ?i" by presburger
    moreover have "\<not> buffer_done (wi_buffers (requeued ?i (with_schedule schedule ?t)) ! k) \<and>
        length (wb_data (wi_buffers (requeued ?i (with_schedule schedule ?t)) ! k)) = room" if "k < 3" for k
      using that idle fill(3) i s(1) by (cases "k = ?i") (simp_all add: requeued_def emptied_not_done)
    ultimately show ?thesis
      using s by (simp add: all_queued_def) (simp add: requeued_def with_schedule_def)
  qed
  ultimately show ?thesis using fill(1) i s(1) by (intro exI conjI) simp_all
qed

lemma reads_late:
  assumes "all_queued room j (c # d # sound) [2] s"
    and "length c \<le> room" "length d \<le> room" and "2 \<le> length c" "2 \<le> length d"
  shows "\<exists>s'. polls 2 s = (map (\<lambda>c. Inr (Some (pcm_samples c))) (if j mod 3 = 2 then [d, c] else [c, d]), s')"
proof -
  define p q where "p = j mod 3" and "q = Suc j mod 3"
  define lo hi where "lo = min p q" and "hi = max p q"
  have "j mod 3 < 3" by simp
  then have "j mod 3 = 0 \<or> j mod 3 = 1 \<or> j mod 3 = 2" by linarith
  then have pq: "p < 3" "q < 3" "p \<noteq> q" "q < p \<longleftrightarrow> j mod 3 = 2"
    by (elim disjE; simp add: p_def q_def mod_Suc)+
  then have lohi: "lo < hi" "hi < 3" "\<And>k. k < lo \<Longrightarrow> k \<noteq> p \<and> k \<noteq> q" "\<And>k. k < hi \<Longrightarrow> k \<noteq> lo \<Longrightarrow> k \<noteq> p \<and> k \<noteq> q"
    by (auto simp: lo_def hi_def)
  let ?bs = "wi_buffers s" and ?d = "wi_world s"
  from assms(1) have s: "length ?bs = 3" "room < 2 ^ 32" "wd_queue ?d = [p, q, Suc (Suc j) mod 3]" "wd_running ?d"
    "wd_results ?d = []" "wd_sound ?d = c # d # sound" "wd_schedule ?d = [2]"
    and idle: "\<And>k. k < 3 \<Longrightarrow> \<not> buffer_done (?bs ! k)" "\<And>k. k < 3 \<Longrightarrow> length (wb_data (?bs ! k)) = room"
    by (simp_all add: all_queued_def p_def q_def)
  have fill: "recorded_samples (fill_buffer e (?bs ! k)) = pcm_samples e" "buffer_done (fill_buffer e (?bs ! k))"
    if "k < 3" "e = c \<or> e = d" for e k
    using recorded_fill [of e "?bs ! k"] idle(2) [OF that(1)] that(2) assms(2,3) s(2) by auto
  define bs' where "bs' = ?bs[p := fill_buffer c (?bs ! p), q := fill_buffer d (?bs ! q)]"
  define t where "t = s\<lparr>wi_buffers := bs', wi_world := ?d\<lparr>wd_schedule := [], wd_queue := [Suc (Suc j) mod 3],
    wd_sound := sound, wd_heard := wd_heard ?d @ [(c, True), (d, True)]\<rparr>\<rparr>"
  have turn: "driver_turn recording_api s = t"
    using turn_run [OF s(7)] s pq(3) by (simp add: with_driver_def driver_fill_def numeral_2_eq_2 t_def bs'_def)
  have bs': "length bs' = 3" "\<And>k. k < 3 \<Longrightarrow> k \<noteq> p \<Longrightarrow> k \<noteq> q \<Longrightarrow> \<not> buffer_done (bs' ! k)"
    "bs' ! p = fill_buffer c (?bs ! p)" "bs' ! q = fill_buffer d (?bs ! q)"
    using s(1) idle pq by (simp_all add: bs'_def)
  have full: "buffer_done (bs' ! k)" "recorded_samples (bs' ! k) \<noteq> []" if "k = p \<or> k = q" for k
    using that bs'(3,4) fill pq(1,2) sound_not_empty assms(4,5) by auto
  have lo_hi: "lo = p \<or> lo = q" "hi = p \<or> hi = q" by (auto simp: lo_def hi_def)
  have first: "next_pcm_samples recording_api s =
      (Inr (Some (recorded_samples (wi_buffers t ! lo))), requeued lo (with_schedule [] t))"
    by (rule reads_first [OF s(7) _ turn])
      (use s lohi bs'(1,2) full lo_hi in \<open>simp_all add: still_end t_def\<close>)
  let ?u = "requeued lo (with_schedule [] t)"
  have u: "wi_buffers ?u = bs'[lo := emptied (bs' ! lo)]" "wd_schedule (wi_world ?u) = []" "wd_results (wi_world ?u) = []"
    using s(5) by (simp_all add: requeued_def with_schedule_def t_def)
  have "pcm_samples_from recording_api [0..<length (wi_buffers ?u)] ?u =
      (Inr (Some (recorded_samples (wi_buffers ?u ! hi))), requeued hi (with_schedule [] ?u))"
  proof (rule scan)
    fix k assume "k < hi"
    then show "\<not> buffer_done (wi_buffers ?u ! k)"
      using lohi bs'(1,2) emptied_not_done(1) by (cases "k = lo") (auto simp: u(1))
  qed (use u lohi bs'(1) full lo_hi in \<open>simp_all add: still_end\<close>)
  then have second: "next_pcm_samples recording_api ?u =
      (Inr (Some (recorded_samples (bs' ! hi))), requeued hi (with_schedule [] ?u))"
    using lohi by (simp add: next_pcm_samples_def u(1))
  have "recorded_samples (bs' ! p) = pcm_samples c" "recorded_samples (bs' ! q) = pcm_samples d"
    using bs'(3,4) fill pq(1,2) by simp_all
  then have order: "[recorded_samples (bs' ! lo), recorded_samples (bs' ! hi)] =
      map pcm_samples (if j mod 3 = 2 then [d, c] else [c, d])"
    using pq(3,4) by (cases "q < p") (simp_all add: lo_def hi_def)
  have "map (\<lambda>c. Inr (Some (pcm_samples c)) :: read_answer) (if j mod 3 = 2 then [d, c] else [c, d]) =
      map (\<lambda>x. Inr (Some x)) [recorded_samples (bs' ! lo), recorded_samples (bs' ! hi)]"
    by (simp only: order map_map o_def)
  moreover have "polls 2 s = ([Inr (Some (recorded_samples (bs' ! lo))), Inr (Some (recorded_samples (bs' ! hi)))],
      requeued hi (with_schedule [] ?u))"
    using first second unfolding numeral_2_eq_2 by (simp add: t_def)
  ultimately show ?thesis by (simp only: list.map) blast
qed

lemma keeps_up_reads:
  assumes "all_queued room j sound (keeps_up j k) s" and "k + 2 \<le> length sound"
    and "\<forall>c \<in> set sound. length c \<le> room \<and> 2 \<le> length c"
  shows "fst (polls (k + 2) s) = map (\<lambda>c. Inr (Some (pcm_samples c)))
    (take k sound @ (if (j + k) mod 3 = 2 then [sound ! Suc k, sound ! k] else [sound ! k, sound ! Suc k]))"
  using assms
proof (induction k arbitrary: j sound s)
  case 0
  then obtain c d rest where sound: "sound = c # d # rest"
    by (cases sound; cases "tl sound") auto
  from 0 reads_late [of room j c d rest s] show ?case by (auto simp: sound numeral_2_eq_2)
next
  case (Suc k)
  then obtain c rest where sound: "sound = c # rest" by (cases sound) auto
  from Suc.prems read_in_time [of room j c rest "keeps_up (Suc j) k" s] obtain s' where
    s': "next_pcm_samples recording_api s = (Inr (Some (pcm_samples c)), s')" "all_queued room (Suc j) rest (keeps_up (Suc j) k) s'"
    by (auto simp: sound)
  have "fst (polls (k + 2) s') = map (\<lambda>c. Inr (Some (pcm_samples c)))
      (take k rest @ (if (Suc j + k) mod 3 = 2 then [rest ! Suc k, rest ! k] else [rest ! k, rest ! Suc k]))"
    using Suc.prems by (intro Suc.IH s'(2)) (simp_all add: sound)
  then show ?case using s'(1) by (simp add: sound split_beta)
qed

text \<open>
  C36. A reader that has got \<open>k\<close> chunks in time, each before the next came, and then is late by one
  chunk: whatever the recorder's configuration and the sound, it gets the \<open>k\<close> chunks in their order,
  and the last two in their order unless \<open>k mod 3 = 2\<close>; then it gets the later one first, since the
  buffers are looked at in the order of their indices and not in the order in which they were filled.
\<close>

theorem recording_reorders:
  assumes "wave_in_open recording_api quote source config (driver_with [] sound (keeps_up 0 k)) = Inr s"
    and "ac_frame_duration_ms config \<le> 1000"
    and "\<forall>c \<in> set sound. length c \<le> length (wb_data (wi_buffers s ! 0)) \<and> 2 \<le> length c" and "k + 2 \<le> length sound"
  shows "fst (polls (k + 2) s) = map (\<lambda>c. Inr (Some (pcm_samples c)))
    (take k sound @ (if k mod 3 = 2 then [sound ! Suc k, sound ! k] else [sound ! k, sound ! Suc k]))"
proof -
  from recorder_opens [OF assms(1,2)] obtain room m where
    s: "room < 2 ^ 32" "s = opened \<lparr>wb_data = replicate room 0, wb_buffer_length = m, wb_bytes_recorded = 0,
        wb_flags = 0, wb_prepared = True\<rparr> (driver_with [] sound (keeps_up 0 k))" by blast
  have "(tl ^^ 8) [] = ([] :: u32 list)" by (simp add: numeral_eq_Suc)
  then have "all_queued room 0 sound (keeps_up 0 k) s"
    using s(1) by (simp add: all_queued_def s(2) opened_def driver_with_def buffer_done_def)
  from keeps_up_reads [OF this assms(4)] assms(3) show ?thesis by (simp add: s(2) opened_def)
qed

theorem recording_reorders_witness:
  "fst (polls 4 (opened short_buffer (driver_with [] [[1, 0], [2, 0], [3, 0], [4, 0]] (keeps_up 0 2)))) =
     [Inr (Some [1]), Inr (Some [2]), Inr (Some [4]), Inr (Some [3])]"
proof -
  let ?d = "driver_with [] [[1, 0], [2, 0], [3, 0], [4, 0]] (keeps_up 0 2)"
  have "ac_frame_duration_ms short_config \<le> 1000" by (simp add: short_config_def)
  moreover have "\<forall>c \<in> set [[1, 0], [2, 0], [3, 0], [4, 0]].
      length c \<le> length (wb_data (wi_buffers (opened short_buffer ?d) ! 0)) \<and> 2 \<le> length c"
    by (simp add: opened_def short_buffer_def)
  ultimately have "fst (polls (2 + 2) (opened short_buffer ?d)) = map (\<lambda>c. Inr (Some (pcm_samples c)))
      (take 2 [[1, 0], [2, 0], [3, 0], [4, 0]] @ (if 2 mod 3 = (2 :: nat)
        then [[[1, 0], [2, 0], [3, 0], [4, 0]] ! Suc 2, [[1, 0], [2, 0], [3, 0], [4, 0]] ! 2]
        else [[[1, 0], [2, 0], [3, 0], [4, 0]] ! 2, [[1, 0], [2, 0], [3, 0], [4, 0]] ! Suc 2]))"
    by (rule recording_reorders [OF short_recorder [OF disjI1, OF refl]]) simp
  also have "\<dots> = [Inr (Some [1]), Inr (Some [2]), Inr (Some [4]), Inr (Some [3])]" by code_simp
  finally show ?thesis by simp
qed

end
