(* ===== verification/Wave_Out.thy ===== *)
theory Wave_Out
  imports Wave_In
begin

text \<open>
  Playing through WinMM: \<open>Win32WaveOutPlayback\<close> of \<open>audio.rs\<close>. A buffer is boxed, so that the driver
  can know it by its address while it waits in the queue; its flags live in the shared memory and
  are read through the world. The WinMM functions, the allocator and the release of a box are a
  parameter, the record \<open>wave_out_api\<close>.
\<close>

section \<open>State and driver\<close>

record wave_out_buffer =
  ob_address :: nat
  ob_data :: bytes
  ob_prepared :: bool

record 'w wave_out_api =
  wo_open :: "wave_format_ex \<Rightarrow> 'w \<Rightarrow> u32 \<times> nat \<times> 'w"
  wo_close :: "nat \<Rightarrow> 'w \<Rightarrow> u32 \<times> 'w"
  wo_reset :: "nat \<Rightarrow> 'w \<Rightarrow> u32 \<times> 'w"
  wo_prepare :: "nat \<Rightarrow> nat \<Rightarrow> 'w \<Rightarrow> u32 \<times> 'w"
  wo_unprepare :: "nat \<Rightarrow> nat \<Rightarrow> 'w \<Rightarrow> u32 \<times> 'w"
  wo_write :: "nat \<Rightarrow> nat \<Rightarrow> bytes \<Rightarrow> 'w \<Rightarrow> u32 \<times> 'w"
  wo_flags :: "nat \<Rightarrow> 'w \<Rightarrow> u32 \<times> 'w"
  wo_box :: "'w \<Rightarrow> nat \<times> 'w"
  wo_free :: "nat \<Rightarrow> 'w \<Rightarrow> 'w"

record 'w wave_out =
  sp_handle :: "nat option"
  sp_sample_rate_hz :: u32
  sp_channel_count :: u16
  sp_pending :: "wave_out_buffer list"
  sp_world :: 'w

definition MAX_PENDING_SPEAKER_BUFFERS :: nat where
  "MAX_PENDING_SPEAKER_BUFFERS = 6"

definition wave_out_new :: "'w \<Rightarrow> 'w wave_out" where
  "wave_out_new w =
     \<lparr>sp_handle = None, sp_sample_rate_hz = 0, sp_channel_count = 0, sp_pending = [], sp_world = w\<rparr>"

type_synonym ('a, 'w) speaker_io = "(rstring, 'a, 'w wave_out) effect"

definition mm_call :: "string \<Rightarrow> ('w \<Rightarrow> u32 \<times> 'w) \<Rightarrow> (unit, 'w) speaker_io" where
  "mm_call action call s = (let (r, w) = call (sp_world s) in (mm_result action r, s\<lparr>sp_world := w\<rparr>))"

section \<open>Formats and samples\<close>

definition wave_out_format :: "u32 \<Rightarrow> u16 \<Rightarrow> rstring + wave_format_ex" where
  "wave_out_format sample_rate_hz channel_count =
     (let channels = unat channel_count; rate = unat sample_rate_hz in
      if sample_rate_hz = 0 then Inl (lit ''speaker output sample rate must be non-zero'')
      else if channel_count = 0 then Inl (lit ''speaker output channel count must be non-zero'')
      else if 2 ^ 16 \<le> channels * 2 then Inl (lit ''speaker output block align overflow'')
      else if 2 ^ 32 \<le> rate * (channels * 2)
      then Inl (lit ''speaker output average bytes per second overflow'')
      else Inr (pcm_wave_format sample_rate_hz channel_count (of_nat (channels * 2))
             (of_nat (rate * (channels * 2)))))"

definition pcm_data :: "i16 list \<Rightarrow> rstring + bytes" where
  "pcm_data samples =
     (case checked_mul_usize (length samples) 2 of
        None \<Rightarrow> Inl (lit ''speaker output buffer size overflow'')
      | Some byte_len \<Rightarrow>
          if 4294967295 < byte_len then Inl (lit ''speaker output buffer exceeds WinMM length field'')
          else Inr (concat (map (to_le 2) samples)))"

section \<open>Buffers\<close>

definition unprepare_buffer :: "'w wave_out_api \<Rightarrow> wave_out_buffer \<Rightarrow> (unit, 'w) speaker_io" where
  "unprepare_buffer api b s =
     (case sp_handle s of
        Some handle \<Rightarrow>
          if ob_prepared b
          then mm_call ''waveOutUnprepareHeader'' (wo_unprepare api handle (ob_address b)) s
          else (Inr (), s)
      | None \<Rightarrow> (Inr (), s))"

definition free_buffer :: "'w wave_out_api \<Rightarrow> wave_out_buffer \<Rightarrow> 'w wave_out \<Rightarrow> 'w wave_out" where
  "free_buffer api b s = s\<lparr>sp_world := wo_free api (ob_address b) (sp_world s)\<rparr>"

text \<open>A buffer taken from the queue is released whether unpreparing it succeeds or fails.\<close>

definition retire_buffer :: "'w wave_out_api \<Rightarrow> wave_out_buffer \<Rightarrow> (unit, 'w) speaker_io" where
  "retire_buffer api b s = (let (r, s) = unprepare_buffer api b s in (r, free_buffer api b s))"

fun reclaim_from :: "'w wave_out_api \<Rightarrow> wave_out_buffer list \<Rightarrow> (unit, 'w) speaker_io" where
  "reclaim_from api [] s = (Inr (), s)"
| "reclaim_from api (b # bs) s =
     (let (flags, w) = wo_flags api (ob_address b) (sp_world s); s = s\<lparr>sp_world := w\<rparr> in
      if and flags WHDR_DONE = 0 then (Inr (), s)
      else io_then (retire_buffer api b) (reclaim_from api bs) (s\<lparr>sp_pending := bs\<rparr>))"

definition reclaim_finished_buffers :: "'w wave_out_api \<Rightarrow> (unit, 'w) speaker_io" where
  "reclaim_finished_buffers api s = reclaim_from api (sp_pending s) s"

fun retire_from :: "'w wave_out_api \<Rightarrow> wave_out_buffer list \<Rightarrow> (unit, 'w) speaker_io" where
  "retire_from api [] s = (Inr (), s)"
| "retire_from api (b # bs) s =
     io_then (retire_buffer api b) (retire_from api bs) (s\<lparr>sp_pending := bs\<rparr>)"

definition reset_pending_buffers :: "'w wave_out_api \<Rightarrow> (unit, 'w) speaker_io" where
  "reset_pending_buffers api s =
     io_then (case sp_handle s of
         Some handle \<Rightarrow> mm_call ''waveOutReset'' (wo_reset api handle)
       | None \<Rightarrow> io_return ())
     (\<lambda>s. retire_from api (sp_pending s) s) s"

section \<open>Playing\<close>

definition wave_out_close :: "'w wave_out_api \<Rightarrow> (unit, 'w) speaker_io" where
  "wave_out_close api s =
     (case sp_handle s of
        None \<Rightarrow> (Inr (), s)
      | Some _ \<Rightarrow>
          io_then (reset_pending_buffers api)
          (io_then (\<lambda>s. case sp_handle s of
               None \<Rightarrow> (Inr (), s)
             | Some handle \<Rightarrow> mm_call ''waveOutClose'' (wo_close api handle) (s\<lparr>sp_handle := None\<rparr>))
          (\<lambda>s. (Inr (), s\<lparr>sp_sample_rate_hz := 0, sp_channel_count := 0\<rparr>))) s)"

definition wave_out_ensure_open :: "'w wave_out_api \<Rightarrow> u32 \<Rightarrow> u16 \<Rightarrow> (unit, 'w) speaker_io" where
  "wave_out_ensure_open api sample_rate_hz channel_count s =
     (if sp_handle s \<noteq> None \<and> sp_sample_rate_hz s = sample_rate_hz \<and> sp_channel_count s = channel_count
      then (Inr (), s)
      else io_then (wave_out_close api) (\<lambda>s.
        case wave_out_format sample_rate_hz channel_count of
          Inl e \<Rightarrow> (Inl e, s)
        | Inr format \<Rightarrow>
            let (result, handle, w) = wo_open api format (sp_world s); s = s\<lparr>sp_world := w\<rparr> in
            case mm_result ''waveOutOpen'' result of
              Inl e \<Rightarrow> (Inl e, s)
            | Inr _ \<Rightarrow> (Inr (), s\<lparr>sp_handle := Some handle, sp_sample_rate_hz := sample_rate_hz,
                 sp_channel_count := channel_count\<rparr>)) s)"

definition write_samples :: "'w wave_out_api \<Rightarrow> i16 list \<Rightarrow> (unit, 'w) speaker_io" where
  "write_samples api samples s =
     (case sp_handle s of
        None \<Rightarrow> (Inl (lit ''speaker output is not open''), s)
      | Some handle \<Rightarrow>
          case pcm_data samples of
            Inl e \<Rightarrow> (Inl e, s)
          | Inr data \<Rightarrow>
              let (address, w) = wo_box api (sp_world s); (result, w) = wo_prepare api handle address w;
                  buffer = \<lparr>ob_address = address, ob_data = data, ob_prepared = True\<rparr>
              in case mm_result ''waveOutPrepareHeader'' result of
                   Inl e \<Rightarrow> (Inl e, free_buffer api buffer (s\<lparr>sp_world := w\<rparr>))
                 | Inr _ \<Rightarrow>
                     let (result, w) = wo_write api handle address data w in
                     case mm_result ''waveOutWrite'' result of
                       Inl e \<Rightarrow>
                         let (_, w) = wo_unprepare api handle address w
                         in (Inl e, free_buffer api buffer (s\<lparr>sp_world := w\<rparr>))
                     | Inr _ \<Rightarrow> (Inr (), s\<lparr>sp_world := w, sp_pending := sp_pending s @ [buffer]\<rparr>))"

definition wave_out_play :: "'w wave_out_api \<Rightarrow> decoded_audio_frame \<Rightarrow> (unit, 'w) speaker_io" where
  "wave_out_play api frame =
     io_then (wave_out_ensure_open api (da_sample_rate_hz frame) (da_channel_count frame))
     (io_then (reclaim_finished_buffers api)
     (io_then (\<lambda>s. if MAX_PENDING_SPEAKER_BUFFERS \<le> length (sp_pending s)
         then reset_pending_buffers api s else (Inr (), s))
       (write_samples api (da_pcm frame))))"

text \<open>Dropping the player: what closing it returns is ignored, and the queue is released.\<close>

definition wave_out_drop :: "'w wave_out_api \<Rightarrow> 'w wave_out \<Rightarrow> 'w" where
  "wave_out_drop api s =
     (let (_, s) = wave_out_close api s in sp_world (fold (free_buffer api) (sp_pending s) s))"

end
