(* ===== verification/Wave_Playing.thy ===== *)
theory Wave_Playing
  imports Wave_Out
begin

text \<open>
  Playing with a driver that behaves as WinMM documents: it owns a buffer from a successful
  \<open>waveOutWrite\<close> until it has played it or is reset, and refuses to unprepare a buffer that it
  owns or to close while it owns one. Any call may fail. Memory that the driver plays from is
  never released while sound is played.
\<close>

section \<open>A driver\<close>

text \<open>
  \<open>od_playing\<close> are the addresses that the driver owns, in their order; \<open>od_results\<close> what the next
  calls return, 0 in the end; \<open>od_progress\<close> how many buffers it finishes before each read of flags;
  \<open>od_bad\<close> is set when memory is released that the driver owns.
\<close>

record speaker_driver =
  od_playing :: "nat list"
  od_next :: nat
  od_results :: "u32 list"
  od_progress :: "nat list"
  od_bad :: bool

definition driver_call :: "(speaker_driver \<Rightarrow> speaker_driver) \<Rightarrow> speaker_driver \<Rightarrow> u32 \<times> speaker_driver" where
  "driver_call f d =
     (case od_results d of
        [] \<Rightarrow> (0, f d)
      | r # rs \<Rightarrow> let d = d\<lparr>od_results := rs\<rparr> in if r = 0 then (0, f d) else (r, d))"

definition next_call_fails :: "speaker_driver \<Rightarrow> bool" where
  "next_call_fails d \<longleftrightarrow> (case od_results d of [] \<Rightarrow> False | r # _ \<Rightarrow> r \<noteq> 0)"

definition driver_progress :: "speaker_driver \<Rightarrow> speaker_driver" where
  "driver_progress d =
     (case od_progress d of
        [] \<Rightarrow> d
      | n # ns \<Rightarrow> d\<lparr>od_playing := drop n (od_playing d), od_progress := ns\<rparr>)"

definition speaker_api :: "speaker_driver wave_out_api" where
  "speaker_api =
     \<lparr>wo_open = (\<lambda>_ d. let (r, d) = driver_call id d in (r, 1, d)),
      wo_close = (\<lambda>_ d. if od_playing d \<noteq> [] then (33, d) else driver_call id d),
      wo_reset = (\<lambda>_. driver_call (\<lambda>d. d\<lparr>od_playing := []\<rparr>)),
      wo_prepare = (\<lambda>_ _. driver_call id),
      wo_unprepare = (\<lambda>_ a d. if a \<in> set (od_playing d) then (33, d) else driver_call id d),
      wo_write = (\<lambda>_ a _. driver_call (\<lambda>d. d\<lparr>od_playing := od_playing d @ [a]\<rparr>)),
      wo_flags = (\<lambda>a d. let d = driver_progress d in (if a \<in> set (od_playing d) then 0 else WHDR_DONE, d)),
      wo_box = (\<lambda>d. (od_next d, d\<lparr>od_next := od_next d + 1\<rparr>)),
      wo_free = (\<lambda>a d. d\<lparr>od_bad := od_bad d \<or> a \<in> set (od_playing d)\<rparr>)\<rparr>"

definition speaker_with :: "u32 list \<Rightarrow> nat list \<Rightarrow> speaker_driver wave_out" where
  "speaker_with results progress =
     wave_out_new \<lparr>od_playing = [], od_next = 0, od_results = results, od_progress = progress, od_bad = False\<rparr>"

definition play_all :: "decoded_audio_frame list \<Rightarrow> speaker_driver wave_out \<Rightarrow> speaker_driver wave_out" where
  "play_all frames s = fold (\<lambda>frame s. snd (wave_out_play speaker_api frame s)) frames s"

section \<open>What holds between calls\<close>

abbreviation addresses :: "wave_out_buffer list \<Rightarrow> nat set" where
  "addresses bs \<equiv> ob_address ` set bs"

definition speaker_ok :: "speaker_driver wave_out \<Rightarrow> bool" where
  "speaker_ok s \<longleftrightarrow>
     set (od_playing (sp_world s)) \<subseteq> addresses (sp_pending s) \<and>
     (\<forall>a \<in> addresses (sp_pending s). a < od_next (sp_world s)) \<and> distinct (map ob_address (sp_pending s)) \<and>
     (sp_handle s = None \<longrightarrow> sp_pending s = []) \<and> \<not> od_bad (sp_world s)"

text \<open>A step that changes neither what the driver owns nor what has been released.\<close>

definition quiet :: "speaker_driver \<Rightarrow> speaker_driver \<Rightarrow> bool" where
  "quiet d d' \<longleftrightarrow>
     set (od_playing d') \<subseteq> set (od_playing d) \<and> od_next d' = od_next d \<and> od_bad d' = od_bad d"

lemma quiet_refl [simp]: "quiet d d"
  by (simp add: quiet_def)

lemma quiet_trans: "quiet d d' \<Longrightarrow> quiet d' d'' \<Longrightarrow> quiet d d''"
  by (auto simp: quiet_def)

lemma driver_call_cases:
  assumes "driver_call f d = (r, d')"
  obtains (ok) rs where "r = 0" "d' = f (d\<lparr>od_results := rs\<rparr>)"
    | (fails) rs where "r \<noteq> 0" "d' = d\<lparr>od_results := rs\<rparr>"
proof (cases "od_results d")
  case Nil
  then have same: "d\<lparr>od_results := []\<rparr> = d" by (cases d) simp
  show ?thesis by (rule ok [of "[]"]) (use assms Nil in \<open>simp_all add: driver_call_def same\<close>)
next
  case (Cons q qs)
  then show ?thesis using assms ok [of qs] fails [of qs] by (simp add: driver_call_def Let_def split: if_splits)
qed

lemma quiet_calls:
  "driver_call id d = (r, d') \<Longrightarrow> quiet d d'"
  "wo_close speaker_api h d = (r, d') \<Longrightarrow> quiet d d'"
  "wo_prepare speaker_api h a d = (r, d') \<Longrightarrow> quiet d d'"
  "wo_unprepare speaker_api h a d = (r, d') \<Longrightarrow> quiet d d'"
  "wo_reset speaker_api h d = (r, d') \<Longrightarrow> quiet d d' \<and> (r = 0 \<longrightarrow> od_playing d' = [])"
  by (auto simp: speaker_api_def quiet_def elim!: driver_call_cases split: if_splits)

lemma reset_fails:
  assumes "wo_reset speaker_api h d = (r, d')"
  shows "r = 0 \<longleftrightarrow> \<not> next_call_fails d" and "r \<noteq> 0 \<Longrightarrow> od_playing d' = od_playing d"
  using assms by (auto simp: speaker_api_def driver_call_def next_call_fails_def Let_def split: list.splits if_splits)

lemma quiet_open: "wo_open speaker_api format d = (r, h, d') \<Longrightarrow> quiet d d'"
  by (auto simp: speaker_api_def Let_def quiet_def elim!: driver_call_cases split: prod.splits)

lemma quiet_progress: "quiet d (driver_progress d)"
  by (auto simp: driver_progress_def quiet_def dest: in_set_dropD split: list.split)

lemma speaker_quiet: "speaker_ok s \<Longrightarrow> quiet (sp_world s) d \<Longrightarrow> speaker_ok (s\<lparr>sp_world := d\<rparr>)"
  by (auto simp: speaker_ok_def quiet_def)

text \<open>Releasing a buffer that is neither pending nor owned by the driver.\<close>

lemma retire:
  assumes "speaker_ok s" and "ob_address b \<notin> set (od_playing (sp_world s))"
    and "retire_buffer speaker_api b s = (r, s')"
  shows "speaker_ok s' \<and> sp_pending s' = sp_pending s \<and> sp_handle s' = sp_handle s \<and>
    set (od_playing (sp_world s')) \<subseteq> set (od_playing (sp_world s))"
proof -
  obtain s1 where s1: "unprepare_buffer speaker_api b s = (r, s1)" "s' = free_buffer speaker_api b s1"
    using assms(3) by (auto simp: retire_buffer_def Let_def split: prod.splits)
  have same: "\<exists>d. s1 = s\<lparr>sp_world := d\<rparr> \<and> quiet (sp_world s) d"
  proof (cases "sp_handle s")
    case None
    then show ?thesis using s1(1) by (intro exI [of _ "sp_world s"]) (simp add: unprepare_buffer_def)
  next
    case (Some h)
    show ?thesis
    proof (cases "ob_prepared b")
      case True
      then show ?thesis
        using s1(1) Some quiet_calls(4) by (auto simp: unprepare_buffer_def mm_call_def Let_def split: prod.splits)
    next
      case False
      then show ?thesis using s1(1) Some by (intro exI [of _ "sp_world s"]) (simp add: unprepare_buffer_def)
    qed
  qed
  then obtain d where d: "s1 = s\<lparr>sp_world := d\<rparr>" "quiet (sp_world s) d" by blast
  have "ob_address b \<notin> set (od_playing d)" using assms(2) d(2) by (auto simp: quiet_def)
  then have "s' = s\<lparr>sp_world := d\<rparr>"
    by (cases d) (simp add: s1(2) d(1) free_buffer_def speaker_api_def)
  then show ?thesis using speaker_quiet [OF assms(1) d(2)] d(2) by (simp add: quiet_def)
qed

lemma reclaims:
  assumes "speaker_ok s" and "bs = sp_pending s" and "reclaim_from speaker_api bs s = (r, s')"
  shows "speaker_ok s' \<and> sp_handle s' = sp_handle s \<and> length (sp_pending s') \<le> length (sp_pending s)"
  using assms
proof (induction bs arbitrary: s)
  case Nil
  then show ?case by simp
next
  case (Cons b bs)
  define d where "d = driver_progress (sp_world s)"
  define s1 where "s1 = s\<lparr>sp_world := d\<rparr>"
  have s1: "speaker_ok s1" using speaker_quiet [OF Cons.prems(1) quiet_progress] by (simp add: s1_def d_def)
  have flags: "wo_flags speaker_api (ob_address b) (sp_world s) =
      (if ob_address b \<in> set (od_playing d) then 0 else WHDR_DONE, d)"
    by (simp add: speaker_api_def d_def Let_def)
  show ?case
  proof (cases "ob_address b \<in> set (od_playing d)")
    case True
    then have "s' = s1" using Cons.prems(3) flags by (simp add: s1_def Let_def)
    then show ?thesis using s1 by (simp add: s1_def)
  next
    case False
    have "WHDR_DONE \<noteq> 0" by (simp add: WHDR_DONE_def)
    then have step: "io_then (retire_buffer speaker_api b) (reclaim_from speaker_api bs) (s1\<lparr>sp_pending := bs\<rparr>) = (r, s')"
      using Cons.prems(3) False flags by (simp add: s1_def Let_def)
    obtain q s2 where s2: "retire_buffer speaker_api b (s1\<lparr>sp_pending := bs\<rparr>) = (q, s2)" by fastforce
    have "sp_pending s1 = b # bs" "od_playing (sp_world s1) = od_playing d" using Cons.prems(2) by (simp_all add: s1_def)
    then have "speaker_ok (s1\<lparr>sp_pending := bs\<rparr>)" using s1 False by (auto simp: speaker_ok_def)
    from retire [OF this _ s2] False have ok: "speaker_ok s2" "sp_pending s2 = bs" "sp_handle s2 = sp_handle s"
      by (simp_all add: s1_def)
    show ?thesis
    proof (cases q)
      case (Inl e)
      then have "s' = s2" using step s2 by (simp add: io_then_def io_bind_def)
      then show ?thesis using ok Cons.prems(2) [symmetric] by simp
    next
      case (Inr u)
      then have "reclaim_from speaker_api bs s2 = (r, s')" using step s2 by (simp add: io_then_def io_bind_def)
      from Cons.IH [OF ok(1) _ this] ok Cons.prems(2) [symmetric] show ?thesis by simp
    qed
  qed
qed

lemma retires:
  assumes "speaker_ok s" and "bs = sp_pending s" and "od_playing (sp_world s) = []"
    and "retire_from speaker_api bs s = (r, s')"
  shows "speaker_ok s' \<and> sp_handle s' = sp_handle s \<and> od_playing (sp_world s') = [] \<and>
    length (sp_pending s') \<le> length (sp_pending s) \<and> (r = Inr () \<longrightarrow> sp_pending s' = [])"
  using assms
proof (induction bs arbitrary: s)
  case Nil
  then show ?case by simp
next
  case (Cons b bs)
  have step: "io_then (retire_buffer speaker_api b) (retire_from speaker_api bs) (s\<lparr>sp_pending := bs\<rparr>) = (r, s')"
    using Cons.prems(4) by simp
  obtain q s2 where s2: "retire_buffer speaker_api b (s\<lparr>sp_pending := bs\<rparr>) = (q, s2)" by fastforce
  have "speaker_ok (s\<lparr>sp_pending := bs\<rparr>)" using Cons.prems(1,3) Cons.prems(2) [symmetric] by (auto simp: speaker_ok_def)
  from retire [OF this _ s2] Cons.prems(3) have ok: "speaker_ok s2" "sp_pending s2 = bs" "sp_handle s2 = sp_handle s"
      "od_playing (sp_world s2) = []" by simp_all
  show ?case
  proof (cases q)
    case (Inl e)
    then have "s' = s2" "r = Inl e" using step s2 by (simp_all add: io_then_def io_bind_def)
    then show ?thesis using ok Cons.prems(2) [symmetric] by simp
  next
    case (Inr u)
    then have "retire_from speaker_api bs s2 = (r, s')" using step s2 by (simp add: io_then_def io_bind_def)
    from Cons.IH [OF ok(1) _ ok(4) this] ok Cons.prems(2) [symmetric] show ?thesis by simp
  qed
qed

lemma resets:
  assumes "speaker_ok s" and "reset_pending_buffers speaker_api s = (r, s')"
  shows "speaker_ok s' \<and> sp_handle s' = sp_handle s \<and> length (sp_pending s') \<le> length (sp_pending s) \<and>
    (r = Inr () \<longrightarrow> sp_pending s' = []) \<and>
    (r = Inr () \<and> sp_handle s \<noteq> None \<longrightarrow> \<not> next_call_fails (sp_world s)) \<and>
    (if next_call_fails (sp_world s)
     then sp_pending s' = sp_pending s \<and> od_playing (sp_world s') = od_playing (sp_world s)
     else od_playing (sp_world s') = [])"
proof (cases "sp_handle s")
  case None
  then have "sp_pending s = []" "od_playing (sp_world s) = []" using assms(1) by (auto simp: speaker_ok_def)
  then show ?thesis
    using assms None by (simp add: reset_pending_buffers_def io_then_def io_bind_def io_return_def)
next
  case (Some h)
  obtain q d where d: "wo_reset speaker_api h (sp_world s) = (q, d)" by fastforce
  note quiet = quiet_calls(5) [OF d]
  let ?s = "s\<lparr>sp_world := d\<rparr>"
  have ok: "speaker_ok ?s" using speaker_quiet [OF assms(1)] quiet by blast
  show ?thesis
  proof (cases "q = 0")
    case False
    then have "s' = ?s" "r \<noteq> Inr ()"
      using assms(2) Some d
      by (auto simp: reset_pending_buffers_def io_then_def io_bind_def mm_call_def mm_result_def)
    then show ?thesis using ok reset_fails [OF d] False by simp
  next
    case True
    then have "retire_from speaker_api (sp_pending ?s) ?s = (r, s')"
      using assms(2) Some d
      by (simp add: reset_pending_buffers_def io_then_def io_bind_def mm_call_def mm_result_def)
    from retires [OF ok refl _ this] quiet reset_fails(1) [OF d] True show ?thesis by simp
  qed
qed

lemma closes:
  assumes "speaker_ok s" and "wave_out_close speaker_api s = (r, s')"
  shows "speaker_ok s' \<and> length (sp_pending s') \<le> length (sp_pending s) \<and> (r = Inr () \<longrightarrow> sp_handle s' = None) \<and>
    (if next_call_fails (sp_world s)
     then sp_pending s' = sp_pending s \<and> od_playing (sp_world s') = od_playing (sp_world s)
     else od_playing (sp_world s') = [])"
proof (cases "sp_handle s")
  case None
  then show ?thesis using assms by (auto simp: wave_out_close_def speaker_ok_def)
next
  case (Some h)
  obtain q s1 where s1: "reset_pending_buffers speaker_api s = (q, s1)" by fastforce
  note ok = resets [OF assms(1) s1]
  show ?thesis
  proof (cases q)
    case (Inl e)
    then have "s' = s1" "r = Inl e" using assms(2) Some s1 by (simp_all add: wave_out_close_def io_then_def io_bind_def)
    then show ?thesis using ok by simp
  next
    case (Inr u)
    then have empty: "sp_pending s1 = []" "\<not> next_call_fails (sp_world s)" using ok Some by simp_all
    obtain q2 d where d: "wo_close speaker_api h (sp_world s1) = (q2, d)" by fastforce
    have "speaker_ok (s1\<lparr>sp_handle := None\<rparr>)" using ok empty by (simp add: speaker_ok_def)
    from speaker_quiet [OF this] quiet_calls(2) [OF d] have closed: "speaker_ok (s1\<lparr>sp_handle := None, sp_world := d\<rparr>)"
      by simp
    have "s' = s1\<lparr>sp_handle := None, sp_world := d\<rparr> \<or>
        s' = s1\<lparr>sp_handle := None, sp_world := d, sp_sample_rate_hz := 0, sp_channel_count := 0\<rparr>"
      using assms(2) Some Inr s1 ok d
      by (auto simp: wave_out_close_def io_then_def io_bind_def mm_call_def mm_result_def split: if_splits)
    moreover have "od_playing d = []" using closed empty by (simp add: speaker_ok_def)
    ultimately show ?thesis using closed empty by (auto simp: speaker_ok_def)
  qed
qed

lemma frees:
  "od_bad (sp_world (fold (free_buffer speaker_api) bs s)) \<longleftrightarrow>
    od_bad (sp_world s) \<or> (\<exists>b \<in> set bs. ob_address b \<in> set (od_playing (sp_world s)))"
  by (induction bs arbitrary: s) (auto simp: free_buffer_def speaker_api_def)

lemma drops:
  assumes "speaker_ok s"
  shows "od_bad (wave_out_drop speaker_api s) \<longleftrightarrow> od_playing (sp_world s) \<noteq> [] \<and> next_call_fails (sp_world s)"
proof -
  obtain r s1 where s1: "wave_out_close speaker_api s = (r, s1)" by fastforce
  note ok = closes [OF assms s1]
  have "od_bad (wave_out_drop speaker_api s) \<longleftrightarrow>
      (\<exists>b \<in> set (sp_pending s1). ob_address b \<in> set (od_playing (sp_world s1)))"
    using ok by (simp add: wave_out_drop_def s1 frees speaker_ok_def)
  moreover have "set (od_playing (sp_world s)) \<subseteq> addresses (sp_pending s)" using assms by (simp add: speaker_ok_def)
  ultimately show ?thesis using ok by (cases "od_playing (sp_world s)") (auto split: if_splits)
qed

lemma ensures_open:
  assumes "speaker_ok s" and "wave_out_ensure_open speaker_api rate channels s = (r, s')"
  shows "speaker_ok s' \<and> length (sp_pending s') \<le> length (sp_pending s)"
proof (cases "sp_handle s \<noteq> None \<and> sp_sample_rate_hz s = rate \<and> sp_channel_count s = channels")
  case True
  then show ?thesis using assms by (simp add: wave_out_ensure_open_def)
next
  case False
  obtain q s1 where s1: "wave_out_close speaker_api s = (q, s1)" by fastforce
  note ok = closes [OF assms(1) s1]
  show ?thesis
  proof (cases q)
    case (Inl e)
    then have "s' = s1" using assms(2) False s1 by (auto simp: wave_out_ensure_open_def io_then_def io_bind_def split: if_splits)
    then show ?thesis using ok by simp
  next
    case (Inr u)
    show ?thesis
    proof (cases "wave_out_format rate channels")
      case (Inl e)
      then have "s' = s1"
        using assms(2) False s1 Inr by (auto simp: wave_out_ensure_open_def io_then_def io_bind_def split: if_splits)
      then show ?thesis using ok by simp
    next
      case format: (Inr f)
      obtain q2 h d where d: "wo_open speaker_api f (sp_world s1) = (q2, h, d)" by (metis prod_cases3)
      have opened: "speaker_ok (s1\<lparr>sp_world := d\<rparr>)" using speaker_quiet quiet_open [OF d] ok by blast
      have "s' = s1\<lparr>sp_world := d\<rparr> \<or>
          s' = s1\<lparr>sp_world := d, sp_handle := Some h, sp_sample_rate_hz := rate, sp_channel_count := channels\<rparr>"
        using assms(2) False s1 Inr format d
        by (auto simp: wave_out_ensure_open_def io_then_def io_bind_def mm_result_def split: if_splits)
      then show ?thesis using opened ok by (auto simp: speaker_ok_def)
    qed
  qed
qed

lemma writes:
  assumes "speaker_ok s" and "write_samples speaker_api samples s = (r, s')"
  shows "speaker_ok s' \<and> length (sp_pending s') \<le> Suc (length (sp_pending s))"
proof (cases "sp_handle s")
  case None
  then show ?thesis using assms by (simp add: write_samples_def)
next
  case (Some h)
  show ?thesis
  proof (cases "pcm_data samples")
    case (Inl e)
    then show ?thesis using assms Some by (simp add: write_samples_def)
  next
    case (Inr data)
    let ?a = "od_next (sp_world s)" and ?w = "sp_world s"
    let ?boxed = "?w\<lparr>od_next := ?a + 1\<rparr>"
    have fresh: "?a \<notin> addresses (sp_pending s)" using assms(1) by (auto simp: speaker_ok_def)
    then have fresh: "?a \<notin> addresses (sp_pending s)" "?a \<notin> set (od_playing ?w)"
      using assms(1) unfolding speaker_ok_def by blast+
    have boxed: "speaker_ok (s\<lparr>sp_world := ?boxed\<rparr>)"
      using assms(1) by (auto simp: speaker_ok_def less_Suc_eq)
    obtain q1 d1 where d1: "wo_prepare speaker_api h ?a ?boxed = (q1, d1)" by fastforce
    have quiet1: "quiet ?boxed d1" by (rule quiet_calls(3) [OF d1])
    obtain q2 d2 where d2: "wo_write speaker_api h ?a data d1 = (q2, d2)" by fastforce
    obtain q3 d3 where d3: "wo_unprepare speaker_api h ?a d2 = (q3, d3)" by fastforce
    let ?b = "\<lparr>ob_address = ?a, ob_data = data, ob_prepared = True\<rparr>"
    have free: "free_buffer speaker_api ?b (s\<lparr>sp_world := d\<rparr>) = s\<lparr>sp_world := d\<rparr>" if "quiet ?boxed d" for d
    proof -
      have "?a \<notin> set (od_playing d)" using that fresh(2) by (auto simp: quiet_def)
      then show ?thesis by (cases d) (simp add: free_buffer_def speaker_api_def)
    qed
    have box: "wo_box speaker_api ?w = (?a, ?boxed)" by (simp add: speaker_api_def)
    have kept: "speaker_ok (s\<lparr>sp_world := d\<rparr>)" if "quiet ?boxed d" for d
      using speaker_quiet [OF boxed, of d] that by simp
    show ?thesis
    proof (cases "q1 = 0 \<and> q2 = 0")
      case True
      then have done1: "s' = s\<lparr>sp_world := d2, sp_pending := sp_pending s @ [?b]\<rparr>"
        using assms(2) Some Inr box d1 d2 by (simp add: write_samples_def mm_result_def)
      obtain rs where "d2 = (d1\<lparr>od_results := rs\<rparr>)\<lparr>od_playing := od_playing d1 @ [?a]\<rparr>"
        using d2 True by (auto simp: speaker_api_def elim!: driver_call_cases)
      then show ?thesis
        using kept [OF quiet1] quiet1 fresh Some unfolding done1
        by (auto simp: speaker_ok_def quiet_def)
    next
      case False
      have "q2 \<noteq> 0 \<longrightarrow> quiet d1 d2"
        using d2 by (auto simp: speaker_api_def quiet_def elim!: driver_call_cases)
      then have "q2 \<noteq> 0 \<longrightarrow> quiet ?boxed d3"
        using quiet_trans [OF quiet1] quiet_trans quiet_calls(4) [OF d3] by blast
      then have "s' = s\<lparr>sp_world := d1\<rparr> \<or> s' = s\<lparr>sp_world := d3\<rparr> \<and> quiet ?boxed d3"
        using assms(2) Some Inr box d1 d2 d3 False free quiet1
        by (auto simp: write_samples_def mm_result_def Let_def split: if_splits)
      then show ?thesis using kept quiet1 by auto
    qed
  qed
qed

lemma plays:
  assumes "speaker_ok s" and "length (sp_pending s) \<le> 6" and "wave_out_play speaker_api frame s = (r, s')"
  shows "speaker_ok s' \<and> length (sp_pending s') \<le> 6"
proof -
  obtain q1 s1 where s1: "wave_out_ensure_open speaker_api (da_sample_rate_hz frame) (da_channel_count frame) s = (q1, s1)"
    by fastforce
  note ok1 = ensures_open [OF assms(1) s1]
  obtain q2 s2 where s2: "reclaim_finished_buffers speaker_api s1 = (q2, s2)" by fastforce
  have ok2: "speaker_ok s2" "length (sp_pending s2) \<le> length (sp_pending s1)"
    using reclaims [of s1 "sp_pending s1" q2 s2] ok1 s2 by (simp_all add: reclaim_finished_buffers_def)
  obtain q3 s3 where s3: "(if MAX_PENDING_SPEAKER_BUFFERS \<le> length (sp_pending s2) then reset_pending_buffers speaker_api s2
      else (Inr (), s2)) = (q3, s3)" by fastforce
  have ok3: "speaker_ok s3" "length (sp_pending s3) \<le> 6" "q3 = Inr () \<longrightarrow> length (sp_pending s3) < 6"
    using resets [OF ok2(1), of q3 s3] s3 ok2 ok1 assms(2)
    by (auto simp: MAX_PENDING_SPEAKER_BUFFERS_def split: if_splits)
  obtain q4 s4 where s4: "write_samples speaker_api (da_pcm frame) s3 = (q4, s4)" by fastforce
  note ok4 = writes [OF ok3(1) s4]
  have "s' = s1 \<or> s' = s2 \<or> s' = s3 \<or> q3 = Inr () \<and> s' = s4"
    using assms(3) s1 s2 s3 s4
    by (cases q1; cases q2; cases q3) (simp_all add: wave_out_play_def io_then_def io_bind_def split: if_splits)
  then show ?thesis using ok1 ok2 ok3 ok4 assms(2) by auto
qed

lemma plays_all:
  assumes "speaker_ok s" and "length (sp_pending s) \<le> 6"
  shows "speaker_ok (play_all frames s) \<and> length (sp_pending (play_all frames s)) \<le> 6"
  using assms
proof (induction frames arbitrary: s)
  case Nil
  then show ?case by (simp add: play_all_def)
next
  case (Cons frame frames)
  obtain r s1 where s1: "wave_out_play speaker_api frame s = (r, s1)" by fastforce
  with Cons.IH [of s1] plays [OF Cons.prems s1] show ?case by (simp add: play_all_def)
qed

text \<open>
  C30. Whatever frames are played, whichever calls of the driver fail and however far it has got, no
  more than six buffers wait, the driver plays only from buffers in the queue, and none has been
  released that it was playing from. Dropping the player then releases memory that the driver plays
  from exactly when it is playing and the reset with which the drop begins fails; no other call
  that fails does this.
\<close>

theorem speaker_memory_safe:
  "let s = play_all frames (speaker_with results progress) in
   set (od_playing (sp_world s)) \<subseteq> addresses (sp_pending s) \<and> length (sp_pending s) \<le> 6 \<and> \<not> od_bad (sp_world s) \<and>
   (od_bad (wave_out_drop speaker_api s) \<longleftrightarrow>
      od_playing (sp_world s) \<noteq> [] \<and> next_call_fails (sp_world s))"
proof -
  have "speaker_ok (speaker_with results progress)" "length (sp_pending (speaker_with results progress)) \<le> 6"
    by (simp_all add: speaker_ok_def speaker_with_def wave_out_new_def)
  from plays_all [OF this, of frames]
  have ok: "speaker_ok (play_all frames (speaker_with results progress))"
    "length (sp_pending (play_all frames (speaker_with results progress))) \<le> 6" by simp_all
  show ?thesis
    unfolding Let_def drops [OF ok(1)] using ok by (simp add: speaker_ok_def)
qed

definition speaker_frame :: decoded_audio_frame where
  "speaker_frame =
     \<lparr>da_frame_id = 1, da_sample_rate_hz = 8000, da_channel_count = 1, da_sample_count = 2,
      da_capture_time_micros = 0, da_pcm = [5, 6]\<rparr>"

theorem speaker_memory_safe_witness:
  "\<not> od_bad (wave_out_drop speaker_api (play_all [speaker_frame] (speaker_with [0, 0, 0, 0, 5] []))) \<and>
   od_bad (wave_out_drop speaker_api (play_all [speaker_frame] (speaker_with [0, 0, 0, 5] [])))"
proof -
  have run: "od_playing (sp_world (play_all [speaker_frame] (speaker_with (0 # 0 # 0 # rs) []))) = [0]"
    "od_results (sp_world (play_all [speaker_frame] (speaker_with (0 # 0 # 0 # rs) []))) = rs" for rs
    by (simp_all add: play_all_def speaker_with_def wave_out_new_def wave_out_play_def speaker_frame_def io_then_def io_bind_def
        wave_out_ensure_open_def wave_out_close_def wave_out_format_def mm_result_def speaker_api_def driver_call_def
        reclaim_finished_buffers_def MAX_PENDING_SPEAKER_BUFFERS_def write_samples_def pcm_data_def checked_mul_usize_def)
  show ?thesis
    using speaker_memory_safe [of "[speaker_frame]" "[0, 0, 0, 0, 5]" "[]"]
      speaker_memory_safe [of "[speaker_frame]" "[0, 0, 0, 5]" "[]"]
    by (simp add: Let_def run next_call_fails_def)
qed

end
