(* ===== verification/Gdi_Capture.thy ===== *)
theory Gdi_Capture
  imports Broadcaster Wave_In Ui_Http Remote_Input
begin

text \<open>
  Capturing pictures on Windows: \<open>capture/windows.rs\<close>. The functions of user32 and GDI are a
  parameter, the record \<open>gdi_api\<close> over a world \<open>'w\<close>; a handle is a number and null is 0. An error is
  its message, with \<open>quote\<close> for the debug rendering of a string.
\<close>

section \<open>Signed integers\<close>

type_synonym i32 = "32 word"

definition sat_sub_i32 :: "i32 \<Rightarrow> i32 \<Rightarrow> i32" where
  "sat_sub_i32 a b = word_of_int (max (- (2 ^ 31)) (min (2 ^ 31 - 1) (sint a - sint b)))"

definition dec_i32 :: "i32 \<Rightarrow> rstring" where
  "dec_i32 x = (if sint x < 0 then 45 # dec (nat (- sint x)) else dec (nat (sint x)))"

section \<open>The operating system\<close>

record rect =
  rc_left :: i32
  rc_top :: i32
  rc_right :: i32
  rc_bottom :: i32

text \<open>The fields of \<open>BITMAPINFOHEADER\<close> that depend on the picture.\<close>

record bitmap_header =
  bi_width :: i32
  bi_height :: i32
  bi_size_image :: u32

text \<open>
  \<open>gd_monitors\<close> enumerates the monitors: whether it succeeds, and what \<open>GetMonitorInfoW\<close> answers for
  each, its rectangle and flags. \<open>gd_title\<close> fills a buffer of the given length. \<open>gd_bitmap\<close> makes a
  bitmap and tells whether its bits are there; \<open>gd_bits\<close> reads so many bytes of them.
\<close>

record 'w gdi_api =
  gd_monitors :: "'w \<Rightarrow> (bool \<times> (rect \<times> u32) option list) \<times> 'w"
  gd_windows :: "'w \<Rightarrow> (bool \<times> nat list) \<times> 'w"
  gd_visible :: "nat \<Rightarrow> 'w \<Rightarrow> bool \<times> 'w"
  gd_iconic :: "nat \<Rightarrow> 'w \<Rightarrow> bool \<times> 'w"
  gd_title_length :: "nat \<Rightarrow> 'w \<Rightarrow> i32 \<times> 'w"
  gd_title :: "nat \<Rightarrow> nat \<Rightarrow> 'w \<Rightarrow> (i32 \<times> u16 list) \<times> 'w"
  gd_find_window :: "u16 list \<Rightarrow> 'w \<Rightarrow> nat \<times> 'w"
  gd_window_rect :: "nat \<Rightarrow> 'w \<Rightarrow> rect option \<times> 'w"
  gd_get_dc :: "'w \<Rightarrow> nat \<times> 'w"
  gd_get_window_dc :: "nat \<Rightarrow> 'w \<Rightarrow> nat \<times> 'w"
  gd_release_dc :: "nat \<Rightarrow> 'w \<Rightarrow> 'w"
  gd_device_size :: "nat \<Rightarrow> 'w \<Rightarrow> (i32 \<times> i32) \<times> 'w"
  gd_create_dc :: "nat \<Rightarrow> 'w \<Rightarrow> nat \<times> 'w"
  gd_delete_dc :: "nat \<Rightarrow> 'w \<Rightarrow> 'w"
  gd_bitmap :: "nat \<Rightarrow> bitmap_header \<Rightarrow> 'w \<Rightarrow> (nat \<times> bool) \<times> 'w"
  gd_select :: "nat \<Rightarrow> nat \<Rightarrow> 'w \<Rightarrow> nat \<times> 'w"
  gd_bit_blt :: "nat \<Rightarrow> i32 \<Rightarrow> i32 \<Rightarrow> nat \<Rightarrow> i32 \<Rightarrow> i32 \<Rightarrow> 'w \<Rightarrow> bool \<times> 'w"
  gd_bits :: "nat \<Rightarrow> nat \<Rightarrow> 'w \<Rightarrow> bytes"
  gd_delete_object :: "nat \<Rightarrow> 'w \<Rightarrow> 'w"
  gd_now :: "'w \<Rightarrow> u64 \<times> 'w"

type_synonym ('a, 'w) gdi_io = "(rstring, 'a, 'w) effect"

definition ask :: "('w \<Rightarrow> 'a \<times> 'w) \<Rightarrow> ('a, 'w) gdi_io" where
  "ask f w = (let (a, w) = f w in (Inr a, w))"

definition tell :: "('w \<Rightarrow> 'w) \<Rightarrow> (unit, 'w) gdi_io" where
  "tell f w = (Inr (), f w)"

definition answer :: "rstring + 'a \<Rightarrow> ('a, 'w) gdi_io" where
  "answer r w = (r, w)"

section \<open>Sizes\<close>

definition WINDOW_SOURCE_LABEL :: string where
  "WINDOW_SOURCE_LABEL = ''window capture source''"

definition PRIMARY_MONITOR_SOURCE_LABEL :: string where
  "PRIMARY_MONITOR_SOURCE_LABEL = ''primary monitor''"

definition MONITOR_SOURCE_LABEL :: string where
  "MONITOR_SOURCE_LABEL = ''monitor capture source''"

definition validate_capture_dimensions :: "i32 \<Rightarrow> i32 \<Rightarrow> string \<Rightarrow> rstring + u32 \<times> u32" where
  "validate_capture_dimensions width height source_label =
     (if sint width \<le> 0 \<or> sint height \<le> 0
      then Inl (lit source_label @ lit '' has invalid capture size '' @ dec_i32 width @ lit ''x'' @ dec_i32 height)
      else Inr (width, height))"

definition rect_size :: "string \<Rightarrow> rect \<Rightarrow> rstring + u32 \<times> u32" where
  "rect_size label r =
     validate_capture_dimensions (sat_sub_i32 (rc_right r) (rc_left r)) (sat_sub_i32 (rc_bottom r) (rc_top r)) label"

section \<open>Monitors\<close>

record monitor_bounds =
  mb_index :: nat
  mb_rect :: rect
  mb_is_primary :: bool

definition monitor_size :: "monitor_bounds \<Rightarrow> rstring + u32 \<times> u32" where
  "monitor_size m = rect_size MONITOR_SOURCE_LABEL (mb_rect m)"

text \<open>The callback numbers the monitors that answer; \<open>MONITORINFOF_PRIMARY\<close> is 1.\<close>

definition enum_monitor :: "(rect \<times> u32) option \<Rightarrow> monitor_bounds list \<Rightarrow> monitor_bounds list" where
  "enum_monitor info monitors =
     (case info of
        None \<Rightarrow> monitors
      | Some (rect, flags) \<Rightarrow>
          monitors @ [\<lparr>mb_index = length monitors, mb_rect = rect, mb_is_primary = and flags 1 \<noteq> 0\<rparr>])"

definition enumerate_monitors :: "'w gdi_api \<Rightarrow> (monitor_bounds list, 'w) gdi_io" where
  "enumerate_monitors api =
     io_bind (ask (gd_monitors api)) (\<lambda>(succeeded, infos).
     let monitors = fold enum_monitor infos [] in
     if \<not> succeeded then io_fail (lit ''failed to enumerate display monitors'')
     else if monitors = [] then io_fail (lit ''Windows did not report any display monitors'')
     else io_return monitors)"

definition join_texts :: "rstring list \<Rightarrow> rstring" where
  "join_texts texts =
     (case texts of [] \<Rightarrow> [] | text # rest \<Rightarrow> text @ concat (map (\<lambda>text. lit '', '' @ text) rest))"

definition available_monitor_indexes :: "'w gdi_api \<Rightarrow> 'w \<Rightarrow> rstring \<times> 'w" where
  "available_monitor_indexes api w =
     (case enumerate_monitors api w of
        (Inl _, w) \<Rightarrow> (lit ''none'', w)
      | (Inr monitors, w) \<Rightarrow>
          (join_texts (map (\<lambda>m. dec (mb_index m) @ (if mb_is_primary m then lit '' (primary)'' else [])) monitors), w))"

definition monitor_bounds_by_id :: "'w gdi_api \<Rightarrow> rstring \<Rightarrow> (monitor_bounds, 'w) gdi_io" where
  "monitor_bounds_by_id api name =
     io_bind (enumerate_monitors api) (\<lambda>monitors.
     let name = trim name in
     if eq_ignore_ascii_case name (lit ''primary'')
     then (case find mb_is_primary monitors of
             Some m \<Rightarrow> io_return m
           | None \<Rightarrow> io_fail (lit ''no primary monitor reported by Windows''))
     else
       case parse_usize name of
         None \<Rightarrow> io_fail (lit ''monitor id must be a zero-based display index or primary'')
       | Some index \<Rightarrow>
           (case find (\<lambda>m. mb_index m = index) monitors of
              Some m \<Rightarrow> io_return m
            | None \<Rightarrow>
                io_bind (ask (available_monitor_indexes api)) (\<lambda>available.
                io_fail (lit ''monitor index '' @ dec index @ lit '' not found; available monitor indexes: '' @
                  available))))"

section \<open>Windows\<close>

definition window_title :: "'w gdi_api \<Rightarrow> nat \<Rightarrow> 'w \<Rightarrow> rstring option \<times> 'w" where
  "window_title api hwnd w =
     (let (len, w) = gd_title_length api hwnd w in
      if sint len \<le> 0 then (None, w)
      else
        let ((copied, buffer), w) = gd_title api hwnd (unat len + 1) w in
        if sint copied \<le> 0 then (None, w)
        else
          let title = trim (from_utf16_lossy (take (unat copied) buffer))
          in (if title = [] then None else Some title, w))"

definition window_capture_size :: "'w gdi_api \<Rightarrow> nat \<Rightarrow> (u32 \<times> u32, 'w) gdi_io" where
  "window_capture_size api hwnd =
     io_bind (ask (gd_window_rect api hwnd)) (\<lambda>rect.
       case rect of
         None \<Rightarrow> io_fail (lit ''failed to query window capture bounds'')
       | Some r \<Rightarrow> answer (rect_size WINDOW_SOURCE_LABEL r))"

definition wide_null :: "rstring \<Rightarrow> u16 list" where
  "wide_null value = encode_utf16 value @ [0]"

definition find_window_by_title :: "'w gdi_api \<Rightarrow> (rstring \<Rightarrow> rstring) \<Rightarrow> rstring \<Rightarrow> (nat, 'w) gdi_io" where
  "find_window_by_title api quote title =
     (let title = trim title in
      if title = [] then io_fail (lit ''window capture title cannot be empty'')
      else
        io_bind (ask (gd_find_window api (wide_null title))) (\<lambda>hwnd.
        if hwnd = 0 then io_fail (lit ''could not find a visible window with exact title '' @ quote title)
        else
          io_bind (ask (gd_visible api hwnd)) (\<lambda>visible.
          if \<not> visible then io_fail (lit ''window with title '' @ quote title @ lit '' is not visible'')
          else io_return hwnd)))"

section \<open>Sources\<close>

datatype capture_source_kind = PrimaryMonitorKind | MonitorKind | WindowKind

record capture_source_info =
  cs_kind :: capture_source_kind
  cs_source :: capture_source
  cs_label :: rstring
  cs_width :: u32
  cs_height :: u32
  cs_is_primary :: bool

definition monitor_source :: "monitor_bounds \<Rightarrow> rstring + capture_source_info" where
  "monitor_source m =
     and_then (monitor_size m) (\<lambda>(width, height). Inr
       \<lparr>cs_kind = MonitorKind, cs_source = Monitor (dec (mb_index m)),
        cs_label = lit ''Monitor '' @ dec (mb_index m) @ (if mb_is_primary m then lit '' (primary)'' else []),
        cs_width = width, cs_height = height, cs_is_primary = mb_is_primary m\<rparr>)"

text \<open>The callback that looks at a window; a window without a title or a size is passed over.\<close>

definition enum_window :: "'w gdi_api \<Rightarrow> nat \<Rightarrow> 'w \<Rightarrow> capture_source_info option \<times> 'w" where
  "enum_window api hwnd w =
     (let (visible, w) = gd_visible api hwnd w in
      if \<not> visible then (None, w)
      else
        let (iconic, w) = gd_iconic api hwnd w in
        if iconic then (None, w)
        else
          let (title, w) = window_title api hwnd w in
          case title of
            None \<Rightarrow> (None, w)
          | Some title \<Rightarrow>
              (case window_capture_size api hwnd w of
                 (Inl _, w) \<Rightarrow> (None, w)
               | (Inr (width, height), w) \<Rightarrow>
                   if width < 64 \<or> height < 64 then (None, w)
                   else (Some \<lparr>cs_kind = WindowKind, cs_source = Window title title, cs_label = title,
                     cs_width = width, cs_height = height, cs_is_primary = False\<rparr>, w)))"

definition enumerate_visible_windows :: "'w gdi_api \<Rightarrow> (capture_source_info list, 'w) gdi_io" where
  "enumerate_visible_windows api =
     io_bind (ask (gd_windows api)) (\<lambda>(succeeded, hwnds).
     io_bind (io_each (\<lambda>hwnd. ask (enum_window api hwnd)) hwnds) (\<lambda>windows.
     if \<not> succeeded then io_fail (lit ''failed to enumerate visible windows'')
     else io_return (List.map_filter id windows)))"

definition list_capture_sources :: "bool \<Rightarrow> 'w gdi_api \<Rightarrow> (capture_source_info list, 'w) gdi_io" where
  "list_capture_sources windows api =
     (if \<not> windows then io_fail (lit ''Windows Graphics Capture is only available on Windows'')
      else
        io_bind (enumerate_monitors api) (\<lambda>monitors.
        io_bind (io_each (\<lambda>m. answer (monitor_source m)) monitors) (\<lambda>sources.
        io_bind (enumerate_visible_windows api) (\<lambda>windows. io_return (sources @ windows)))))"

section \<open>Copying pixels\<close>

definition with_screen_dc :: "'w gdi_api \<Rightarrow> (nat \<Rightarrow> ('a, 'w) gdi_io) \<Rightarrow> ('a, 'w) gdi_io" where
  "with_screen_dc api capture w =
     (let (screen_dc, w) = gd_get_dc api w in
      if screen_dc = 0 then (Inl (lit ''failed to acquire primary monitor device context''), w)
      else let (result, w) = capture screen_dc w in (result, gd_release_dc api screen_dc w))"

definition with_window_dc :: "'w gdi_api \<Rightarrow> nat \<Rightarrow> (nat \<Rightarrow> ('a, 'w) gdi_io) \<Rightarrow> ('a, 'w) gdi_io" where
  "with_window_dc api hwnd capture w =
     (let (window_dc, w) = gd_get_window_dc api hwnd w in
      if window_dc = 0 then (Inl (lit ''failed to acquire window capture device context''), w)
      else let (result, w) = capture window_dc w in (result, gd_release_dc api window_dc w))"

definition capture_bgra_with_memory_dc ::
  "'w gdi_api \<Rightarrow> nat \<Rightarrow> nat \<Rightarrow> i32 \<Rightarrow> i32 \<Rightarrow> u32 \<Rightarrow> u32 \<Rightarrow> string \<Rightarrow> (bytes, 'w) gdi_io" where
  "capture_bgra_with_memory_dc api source_dc memory_dc source_x source_y width height source_label w =
     (case bgra_byte_len width height of
        Inl e \<Rightarrow> (Inl e, w)
      | Inr buffer_len \<Rightarrow>
          let header = \<lparr>bi_width = width, bi_height = - height,
                        bi_size_image = of_nat (min buffer_len 4294967295)\<rparr>;
              ((bitmap, bits), w) = gd_bitmap api memory_dc header w
          in if bitmap = 0 \<or> \<not> bits then (Inl (lit ''failed to allocate BGRA capture bitmap''), w)
             else
               let (old_object, w) = gd_select api memory_dc bitmap w;
                   (result, w) =
                     (if old_object = 0 then (Inl (lit ''failed to select capture bitmap''), w)
                      else
                        let (copied, w) = gd_bit_blt api memory_dc width height source_dc source_x source_y w
                        in if \<not> copied then (Inl (lit ''failed to copy '' @ lit source_label @ lit '' pixels''), w)
                           else (Inr (gd_bits api bitmap buffer_len w), w));
                   w = (if old_object = 0 then w else snd (gd_select api memory_dc old_object w))
               in (result, gd_delete_object api bitmap w))"

definition capture_bgra_from_source_region ::
  "'w gdi_api \<Rightarrow> nat \<Rightarrow> i32 \<Rightarrow> i32 \<Rightarrow> u32 \<Rightarrow> u32 \<Rightarrow> string \<Rightarrow> (bytes, 'w) gdi_io" where
  "capture_bgra_from_source_region api source_dc source_x source_y width height source_label w =
     (let (memory_dc, w) = gd_create_dc api source_dc w in
      if memory_dc = 0 then (Inl (lit ''failed to create compatible capture device context''), w)
      else
        let (result, w) =
              capture_bgra_with_memory_dc api source_dc memory_dc source_x source_y width height source_label w
        in (result, gd_delete_dc api memory_dc w))"

definition capture_bgra_from_source_dc ::
  "'w gdi_api \<Rightarrow> nat \<Rightarrow> u32 \<Rightarrow> u32 \<Rightarrow> string \<Rightarrow> (bytes, 'w) gdi_io" where
  "capture_bgra_from_source_dc api source_dc width height source_label =
     capture_bgra_from_source_region api source_dc 0 0 width height source_label"

section \<open>Frames\<close>

definition gdi_frame ::
  "'w gdi_api \<Rightarrow> u32 \<Rightarrow> u32 \<Rightarrow> bytes \<Rightarrow> screen_capture \<Rightarrow> (capture_frame \<times> screen_capture, 'w) gdi_io" where
  "gdi_frame api width height bs c =
     io_bind (ask (gd_now api)) (\<lambda>now.
     io_bind (answer (cpu_bgra (gc_next_frame_id c) width height now bs)) (\<lambda>frame.
     io_return (frame, c\<lparr>gc_next_frame_id := sat_add (gc_next_frame_id c) 1\<rparr>)))"

definition primary_monitor_dimensions :: "'w gdi_api \<Rightarrow> nat \<Rightarrow> (u32 \<times> u32, 'w) gdi_io" where
  "primary_monitor_dimensions api screen_dc =
     io_bind (ask (gd_device_size api screen_dc)) (\<lambda>(width, height).
     answer (validate_capture_dimensions width height PRIMARY_MONITOR_SOURCE_LABEL))"

definition capture_primary_monitor ::
  "'w gdi_api \<Rightarrow> screen_capture \<Rightarrow> (capture_frame \<times> screen_capture, 'w) gdi_io" where
  "capture_primary_monitor api c =
     with_screen_dc api (\<lambda>screen_dc.
       io_bind (primary_monitor_dimensions api screen_dc) (\<lambda>(width, height).
       io_bind (capture_bgra_from_source_dc api screen_dc width height PRIMARY_MONITOR_SOURCE_LABEL) (\<lambda>bs.
       gdi_frame api width height bs c)))"

definition capture_window ::
  "'w gdi_api \<Rightarrow> (rstring \<Rightarrow> rstring) \<Rightarrow> rstring \<Rightarrow> screen_capture \<Rightarrow>
   (capture_frame \<times> screen_capture, 'w) gdi_io"
where
  "capture_window api quote title c =
     io_bind (find_window_by_title api quote title) (\<lambda>hwnd.
     io_bind (window_capture_size api hwnd) (\<lambda>(width, height).
     with_window_dc api hwnd (\<lambda>window_dc.
       io_bind (capture_bgra_from_source_dc api window_dc width height WINDOW_SOURCE_LABEL) (\<lambda>bs.
       gdi_frame api width height bs c))))"

definition capture_monitor ::
  "'w gdi_api \<Rightarrow> rstring \<Rightarrow> screen_capture \<Rightarrow> (capture_frame \<times> screen_capture, 'w) gdi_io" where
  "capture_monitor api name c =
     io_bind (monitor_bounds_by_id api name) (\<lambda>monitor.
     io_bind (answer (monitor_size monitor)) (\<lambda>(width, height).
     with_screen_dc api (\<lambda>screen_dc.
       io_bind (capture_bgra_from_source_region api screen_dc (rc_left (mb_rect monitor)) (rc_top (mb_rect monitor))
         width height MONITOR_SOURCE_LABEL) (\<lambda>bs.
       gdi_frame api width height bs c))))"

definition gdi_capture_now ::
  "'w gdi_api \<Rightarrow> (rstring \<Rightarrow> rstring) \<Rightarrow> screen_capture \<Rightarrow> (capture_frame \<times> screen_capture, 'w) gdi_io" where
  "gdi_capture_now api quote c =
     (case gc_source c of
        PrimaryMonitor \<Rightarrow> capture_primary_monitor api c
      | Window _ title \<Rightarrow> capture_window api quote title c
      | Monitor name \<Rightarrow> capture_monitor api name c)"

definition capture_source_size ::
  "bool \<Rightarrow> 'w gdi_api \<Rightarrow> (rstring \<Rightarrow> rstring) \<Rightarrow> capture_source \<Rightarrow> (u32 \<times> u32, 'w) gdi_io" where
  "capture_source_size windows api quote source =
     (if \<not> windows then io_fail (lit ''Windows Graphics Capture is only available on Windows'')
      else
        case source of
          PrimaryMonitor \<Rightarrow> with_screen_dc api (primary_monitor_dimensions api)
        | Window _ title \<Rightarrow> io_bind (find_window_by_title api quote title) (window_capture_size api)
        | Monitor name \<Rightarrow> io_bind (monitor_bounds_by_id api name) (\<lambda>m. answer (monitor_size m)))"

end
