(* ===== verification/Gdi_Props.thy ===== *)
theory Gdi_Props
  imports Gdi_Capture Control_Names "HOL-Library.Multiset"
begin

text \<open>
  Capturing a picture gives every device context and bitmap back, on every path. And a window whose
  title begins or ends with white space is listed under a name by which it is not found.
\<close>

section \<open>What GDI documents\<close>

text \<open>
  \<open>live w\<close> are the handles the process holds, \<open>sel w dc\<close> the object selected into a device context,
  \<open>stock\<close> the objects that a new one comes with. A bitmap is made with its bits or not at all; a
  stock object can always be selected again; an object that is selected is not deleted.
\<close>

definition keeps_gdi ::
  "('w \<Rightarrow> nat multiset) \<Rightarrow> ('w \<Rightarrow> nat \<Rightarrow> nat) \<Rightarrow> ('w \<Rightarrow> 'a \<times> 'w) \<Rightarrow> bool" where
  "keeps_gdi live sel f \<longleftrightarrow> (\<forall>w a w'. f w = (a, w') \<longrightarrow> live w' = live w \<and> sel w' = sel w)"

definition gives_handle ::
  "('w \<Rightarrow> nat multiset) \<Rightarrow> ('w \<Rightarrow> nat \<Rightarrow> nat) \<Rightarrow> ('w \<Rightarrow> nat \<times> 'w) \<Rightarrow> bool" where
  "gives_handle live sel f \<longleftrightarrow>
     (\<forall>w h w'. f w = (h, w') \<longrightarrow> live w' = (if h = 0 then live w else add_mset h (live w)))"

definition gdi_documented ::
  "'w gdi_api \<Rightarrow> ('w \<Rightarrow> nat multiset) \<Rightarrow> ('w \<Rightarrow> nat \<Rightarrow> nat) \<Rightarrow> (nat \<Rightarrow> bool) \<Rightarrow> bool" where
  "gdi_documented api live sel stock \<longleftrightarrow>
     keeps_gdi live sel (gd_monitors api) \<and> (\<forall>t. keeps_gdi live sel (gd_find_window api t)) \<and>
     (\<forall>h. keeps_gdi live sel (gd_visible api h) \<and> keeps_gdi live sel (gd_window_rect api h) \<and>
        keeps_gdi live sel (gd_device_size api h)) \<and>
     (\<forall>d x y s l t. keeps_gdi live sel (gd_bit_blt api d x y s l t)) \<and> keeps_gdi live sel (gd_now api) \<and>
     gives_handle live sel (gd_get_dc api) \<and> (\<forall>h. gives_handle live sel (gd_get_window_dc api h)) \<and>
     (\<forall>h. gives_handle live sel (gd_create_dc api h)) \<and>
     (\<forall>s w h w'. gd_create_dc api s w = (h, w') \<and> h \<noteq> 0 \<longrightarrow> stock (sel w' h)) \<and>
     (\<forall>h w. live (gd_release_dc api h w) = live w - {#h#} \<and> live (gd_delete_dc api h w) = live w - {#h#}) \<and>
     (\<forall>d header w b bits w'. gd_bitmap api d header w = ((b, bits), w') \<longrightarrow>
        (b \<noteq> 0 \<longleftrightarrow> bits) \<and> live w' = (if b = 0 then live w else add_mset b (live w)) \<and>
        sel w' = sel w \<and> (\<forall>d. sel w d \<noteq> b)) \<and>
     (\<forall>d x w old w'. x \<noteq> 0 \<and> gd_select api d x w = (old, w') \<longrightarrow>
        live w' = live w \<and> (if old = 0 then sel w' = sel w else old = sel w d \<and> sel w' = (sel w)(d := x)) \<and>
        (stock x \<longrightarrow> old \<noteq> 0)) \<and>
     (\<forall>x w. live (gd_delete_object api x w) = (if x \<in> range (sel w) then live w else live w - {#x#}))"

section \<open>Everything is given back\<close>

definition balanced :: "('w \<Rightarrow> nat multiset) \<Rightarrow> ('a, 'w) gdi_io \<Rightarrow> bool" where
  "balanced live m \<longleftrightarrow> (\<forall>w r w'. m w = (r, w') \<longrightarrow> live w' = live w)"

lemma balancedI: "(\<And>w r w'. m w = (r, w') \<Longrightarrow> live w' = live w) \<Longrightarrow> balanced live m"
  by (simp add: balanced_def)

lemma balanced_bind [intro]: "balanced live m \<Longrightarrow> (\<And>a. balanced live (f a)) \<Longrightarrow> balanced live (io_bind m f)"
  by (auto simp: balanced_def io_bind_def split: prod.splits sum.splits)

lemma balanced_basic [intro]:
  "balanced live (io_return a)" "balanced live (io_fail e)" "balanced live (answer r)"
  by (simp_all add: balanced_def io_return_def io_fail_def answer_def)

lemma balanced_ask: "keeps_gdi live sel f \<Longrightarrow> balanced live (ask f)"
  by (auto simp: balanced_def ask_def keeps_gdi_def Let_def split: prod.splits)

lemma gdi_laws:
  assumes "gdi_documented api live sel stock"
  shows "\<forall>d x y s l t. keeps_gdi live sel (gd_bit_blt api d x y s l t)"
    and "\<forall>h. gives_handle live sel (gd_create_dc api h)"
    and "\<forall>s w h w'. gd_create_dc api s w = (h, w') \<and> h \<noteq> 0 \<longrightarrow> stock (sel w' h)"
    and "\<forall>h w. live (gd_release_dc api h w) = live w - {#h#} \<and> live (gd_delete_dc api h w) = live w - {#h#}"
    and "\<forall>d header w b bits w'. gd_bitmap api d header w = ((b, bits), w') \<longrightarrow>
        (b \<noteq> 0 \<longleftrightarrow> bits) \<and> live w' = (if b = 0 then live w else add_mset b (live w)) \<and>
        sel w' = sel w \<and> (\<forall>d. sel w d \<noteq> b)"
    and "\<forall>d x w old w'. x \<noteq> 0 \<and> gd_select api d x w = (old, w') \<longrightarrow>
        live w' = live w \<and> (if old = 0 then sel w' = sel w else old = sel w d \<and> sel w' = (sel w)(d := x)) \<and>
        (stock x \<longrightarrow> old \<noteq> 0)"
    and "\<forall>x w. live (gd_delete_object api x w) = (if x \<in> range (sel w) then live w else live w - {#x#})"
  using assms unfolding gdi_documented_def by - (elim conjE, assumption)+

lemma gdi_quiet:
  assumes "gdi_documented api live sel stock"
  shows "balanced live (ask (gd_monitors api))" "balanced live (ask (gd_find_window api t))"
    "balanced live (ask (gd_visible api h))" "balanced live (ask (gd_window_rect api h))"
    "balanced live (ask (gd_device_size api h))" "balanced live (ask (gd_now api))"
  using assms by (auto simp: gdi_documented_def intro!: balanced_ask)

lemma balanced_enumerate:
  assumes "gdi_documented api live sel stock"
  shows "balanced live (enumerate_monitors api)"
  unfolding enumerate_monitors_def
  by (rule balanced_bind [OF gdi_quiet(1) [OF assms]]) (auto simp: Let_def split: prod.split)

lemma balanced_monitor:
  assumes "gdi_documented api live sel stock"
  shows "balanced live (monitor_bounds_by_id api name)"
proof -
  have "balanced live (ask (available_monitor_indexes api))"
    using balanced_enumerate [OF assms]
    by (auto simp: balanced_def ask_def available_monitor_indexes_def Let_def split: prod.splits sum.splits)
  then show ?thesis
    unfolding monitor_bounds_by_id_def
    by (intro balanced_bind [OF balanced_enumerate [OF assms]]) (auto simp: Let_def split: option.split)
qed

lemma balanced_window:
  assumes "gdi_documented api live sel stock"
  shows "balanced live (window_capture_size api hwnd)" "balanced live (find_window_by_title api quote title)"
  unfolding window_capture_size_def find_window_by_title_def Let_def
  by (auto intro!: balanced_bind balanced_basic gdi_quiet [OF assms] split: option.split)

lemma balanced_frame:
  assumes "gdi_documented api live sel stock"
  shows "balanced live (gdi_frame api width height bs c)"
  unfolding gdi_frame_def using gdi_quiet(6) [OF assms] by auto

text \<open>A device context that is acquired, used in a balanced way and released.\<close>

lemma balanced_dc:
  assumes "gdi_documented api live sel stock" and "\<And>h. balanced live (f h)"
  shows "balanced live (with_screen_dc api f)" "balanced live (with_window_dc api hwnd f)"
proof -
  have laws: "gives_handle live sel (gd_get_dc api)" "gives_handle live sel (gd_get_window_dc api hwnd)"
    "\<And>h w. live (gd_release_dc api h w) = live w - {#h#}"
    using assms(1) by (simp_all add: gdi_documented_def)
  show "balanced live (with_screen_dc api f)"
    using laws(1,3) assms(2)
    by (auto simp: balanced_def with_screen_dc_def gives_handle_def Let_def split: prod.splits if_splits)
  show "balanced live (with_window_dc api hwnd f)"
    using laws(2,3) assms(2)
    by (auto simp: balanced_def with_window_dc_def gives_handle_def Let_def split: prod.splits if_splits)
qed

lemma bitmap_given_back:
  assumes gdi: "gdi_documented api live sel stock" and dc: "stock (sel w memory_dc)"
    and run: "capture_bgra_with_memory_dc api source_dc memory_dc x y width height label w = (r, w')"
  shows "live w' = live w"
proof (cases "bgra_byte_len width height")
  case (Inl e)
  then show ?thesis using run by (simp add: capture_bgra_with_memory_dc_def)
next
  case (Inr len)
  define header where "header = \<lparr>bi_width = width, bi_height = - height, bi_size_image = of_nat (min len 4294967295)\<rparr>"
  obtain b bits w1 where w1: "gd_bitmap api memory_dc header w = ((b, bits), w1)" by (metis surj_pair)
  have bitmap: "b \<noteq> 0 \<longleftrightarrow> bits" "live w1 = (if b = 0 then live w else add_mset b (live w))" "sel w1 = sel w" "\<And>d. sel w d \<noteq> b"
    using gdi_laws(5) [OF gdi] w1 by simp_all
  show ?thesis
  proof (cases "b = 0")
    case True
    then show ?thesis
      using run Inr w1 bitmap by (simp add: capture_bgra_with_memory_dc_def header_def Let_def)
  next
    case b: False
    obtain old w2 where w2: "gd_select api memory_dc b w1 = (old, w2)" by fastforce
    have select: "live w2 = live w1" "if old = 0 then sel w2 = sel w1 else old = sel w1 memory_dc \<and> sel w2 = (sel w1)(memory_dc := b)"
      using gdi_laws(6) [OF gdi] w2 b by blast+
    have delete: "live (gd_delete_object api b v) = (if b \<in> range (sel v) then live v else live v - {#b#})" for v
      using gdi_laws(7) [OF gdi] by blast
    show ?thesis
    proof (cases "old = 0")
      case True
      then have "w' = gd_delete_object api b w2"
        using run Inr w1 w2 b bitmap(1) by (auto simp: capture_bgra_with_memory_dc_def header_def Let_def)
      moreover have "b \<notin> range (sel w2)" using True select(2) bitmap(3,4) by (auto dest: sym)
      ultimately show ?thesis using delete [of w2] select(1) bitmap(2) b by simp
    next
      case old: False
      obtain copied w3 where w3: "gd_bit_blt api memory_dc width height source_dc x y w2 = (copied, w3)" by fastforce
      have blt: "live w3 = live w2" "sel w3 = sel w2"
        using gdi_laws(1) [OF gdi] w3 unfolding keeps_gdi_def by blast+
      obtain q w4 where w4: "gd_select api memory_dc old w3 = (q, w4)" by fastforce
      have again: "live w4 = live w3" "stock old \<longrightarrow> q \<noteq> 0"
        "if q = 0 then sel w4 = sel w3 else q = sel w3 memory_dc \<and> sel w4 = (sel w3)(memory_dc := old)"
        using gdi_laws(6) [OF gdi] w4 old by blast+
      have "stock old" using old select(2) bitmap(3) dc by simp
      then have "sel w4 = sel w" using again(2,3) select(2) old blt(2) bitmap(3) by simp
      then have "b \<notin> range (sel w4)" using bitmap(4) by (auto dest: sym)
      moreover have "w' = gd_delete_object api b w4"
        using run Inr w1 w2 w3 w4 b bitmap(1) old
        by (auto simp: capture_bgra_with_memory_dc_def header_def Let_def split: if_splits)
      ultimately show ?thesis using delete [of w4] again(1) blt(1) select(1) bitmap(2) b by simp
    qed
  qed
qed

lemma balanced_region:
  assumes "gdi_documented api live sel stock"
  shows "balanced live (capture_bgra_from_source_region api source_dc x y width height label)"
proof (rule balancedI)
  fix w r w' assume run: "capture_bgra_from_source_region api source_dc x y width height label w = (r, w')"
  obtain h w1 where w1: "gd_create_dc api source_dc w = (h, w1)" by fastforce
  have dc: "live w1 = (if h = 0 then live w else add_mset h (live w))" "h \<noteq> 0 \<longrightarrow> stock (sel w1 h)"
    "\<And>v. live (gd_delete_dc api h v) = live v - {#h#}"
    using gdi_laws(2-4) [OF assms] w1 unfolding gives_handle_def by blast+
  show "live w' = live w"
  proof (cases "h = 0")
    case True
    then show ?thesis using run w1 dc(1) by (simp add: capture_bgra_from_source_region_def)
  next
    case False
    obtain q w2 where w2: "capture_bgra_with_memory_dc api source_dc h x y width height label w1 = (q, w2)" by fastforce
    have "live w2 = live w1" by (rule bitmap_given_back [OF assms _ w2]) (use dc(2) False in simp)
    moreover have "w' = gd_delete_dc api h w2"
      using run w1 w2 False by (simp add: capture_bgra_from_source_region_def Let_def)
    ultimately show ?thesis using dc(1,3) False by simp
  qed
qed

text \<open>
  C31. Capturing a picture gives back every device context and bitmap that it acquires, whatever
  source is asked for and whichever call of the operating system fails.
\<close>

theorem capture_gives_back:
  assumes "gdi_documented api live sel stock" and "gdi_capture_now api quote c w = (r, w')"
  shows "live w' = live w"
proof -
  note gdi = assms(1)
  have copy: "balanced live (capture_bgra_from_source_dc api dc width height label)" for dc width height label
    unfolding capture_bgra_from_source_dc_def by (rule balanced_region [OF gdi])
  have size: "balanced live (primary_monitor_dimensions api dc)" for dc
    unfolding primary_monitor_dimensions_def
    by (rule balanced_bind [OF gdi_quiet(5) [OF gdi]]) (auto split: prod.split)
  have "balanced live (capture_primary_monitor api c)"
    unfolding capture_primary_monitor_def
    by (intro balanced_dc(1) [OF gdi] balanced_bind size) (auto intro!: copy balanced_frame [OF gdi] split: prod.split)
  moreover have "balanced live (capture_window api quote title c)" for title
    unfolding capture_window_def
    by (intro balanced_bind balanced_window [OF gdi])
      (auto intro!: balanced_dc(2) [OF gdi] copy balanced_frame [OF gdi] split: prod.split)
  moreover have "balanced live (capture_monitor api name c)" for name
    unfolding capture_monitor_def
    by (intro balanced_bind balanced_monitor [OF gdi] balanced_basic)
      (auto intro!: balanced_dc(1) [OF gdi] balanced_region [OF gdi] balanced_frame [OF gdi] split: prod.split)
  ultimately have "balanced live (gdi_capture_now api quote c)"
    by (simp add: gdi_capture_now_def split: capture_source.split)
  with assms(2) show ?thesis by (simp add: balanced_def)
qed

section \<open>A desktop\<close>

text \<open>A process with one handle after the other, on a screen of two pixels.\<close>

record desktop =
  dk_live :: "nat multiset"
  dk_selected :: "(nat \<times> nat) list"
  dk_next :: nat

definition desktop_selected :: "desktop \<Rightarrow> nat \<Rightarrow> nat" where
  "desktop_selected w dc = (case map_of (dk_selected w) dc of None \<Rightarrow> 1 | Some x \<Rightarrow> max x 1)"

definition desktop_handle :: "desktop \<Rightarrow> nat \<times> desktop" where
  "desktop_handle w =
     (let h = Suc (dk_next w) in
      (h, w\<lparr>dk_next := h, dk_live := add_mset h (dk_live w),
            dk_selected := filter (\<lambda>(dc, _). dc \<noteq> h) (dk_selected w)\<rparr>))"

definition desktop_bitmap :: "desktop \<Rightarrow> (nat \<times> bool) \<times> desktop" where
  "desktop_bitmap w =
     (let b = Suc (Suc (sum_list (map snd (dk_selected w))))
      in ((b, True), w\<lparr>dk_live := add_mset b (dk_live w)\<rparr>))"

definition desktop_api :: "desktop gdi_api" where
  "desktop_api =
     \<lparr>gd_monitors = (\<lambda>w. ((True, []), w)), gd_windows = (\<lambda>w. ((True, []), w)), gd_visible = (\<lambda>_ w. (True, w)),
      gd_iconic = (\<lambda>_ w. (False, w)), gd_title_length = (\<lambda>_ w. (0, w)), gd_title = (\<lambda>_ _ w. ((0, []), w)),
      gd_find_window = (\<lambda>_ w. (0, w)), gd_window_rect = (\<lambda>_ w. (None, w)), gd_get_dc = desktop_handle,
      gd_get_window_dc = (\<lambda>_. desktop_handle), gd_release_dc = (\<lambda>h w. w\<lparr>dk_live := dk_live w - {#h#}\<rparr>),
      gd_device_size = (\<lambda>_ w. ((2, 1), w)), gd_create_dc = (\<lambda>_. desktop_handle),
      gd_delete_dc = (\<lambda>h w. w\<lparr>dk_live := dk_live w - {#h#}\<rparr>), gd_bitmap = (\<lambda>_ _. desktop_bitmap),
      gd_select = (\<lambda>dc x w. (desktop_selected w dc, w\<lparr>dk_selected := (dc, x) # dk_selected w\<rparr>)),
      gd_bit_blt = (\<lambda>_ _ _ _ _ _ w. (True, w)), gd_bits = (\<lambda>_ n _. replicate n 7),
      gd_delete_object = (\<lambda>x w. if x \<in> range (desktop_selected w) then w else w\<lparr>dk_live := dk_live w - {#x#}\<rparr>),
      gd_now = (\<lambda>w. (5, w))\<rparr>"

lemma desktop_bitmap_fresh: "desktop_selected w dc \<noteq> Suc (Suc (sum_list (map snd (dk_selected w))))"
proof (cases "map_of (dk_selected w) dc")
  case None
  then show ?thesis by (simp add: desktop_selected_def)
next
  case (Some x)
  then have "x \<in> set (map snd (dk_selected w))" by (metis imageI map_of_SomeD set_map snd_conv)
  then have "x \<le> sum_list (map snd (dk_selected w))" by (intro member_le_sum_list) simp_all
  then show ?thesis using Some by (simp add: desktop_selected_def max_def)
qed

lemma desktop_handle: "desktop_handle w = (h, w') \<Longrightarrow> h \<noteq> 0 \<and> dk_live w' = add_mset h (dk_live w) \<and> desktop_selected w' h = 1"
proof -
  have "map_of (filter (\<lambda>(dc, _). dc \<noteq> h) xs) h = None" for xs :: "(nat \<times> nat) list" and h
    by (induction xs) auto
  then show "desktop_handle w = (h, w') \<Longrightarrow> h \<noteq> 0 \<and> dk_live w' = add_mset h (dk_live w) \<and> desktop_selected w' h = 1"
    by (auto simp: desktop_handle_def desktop_selected_def Let_def)
qed

lemma desktop_select:
  "x \<noteq> 0 \<Longrightarrow> desktop_selected (w\<lparr>dk_selected := (dc, x) # dk_selected w\<rparr>) = (desktop_selected w)(dc := x)"
  "0 < desktop_selected w dc" "desktop_selected w dc = 0 \<longleftrightarrow> False"
  by (auto simp: desktop_selected_def fun_eq_iff split: option.split)

lemma desktop_documented: "gdi_documented desktop_api dk_live desktop_selected (\<lambda>x. x = 1)"
  unfolding gdi_documented_def
proof (intro conjI)
  have live: "desktop_selected (w\<lparr>dk_live := l\<rparr>) = desktop_selected w" for w l by (simp add: desktop_selected_def fun_eq_iff)
  show "\<forall>d header w b bits w'. gd_bitmap desktop_api d header w = ((b, bits), w') \<longrightarrow>
      (b \<noteq> 0 \<longleftrightarrow> bits) \<and> dk_live w' = (if b = 0 then dk_live w else add_mset b (dk_live w)) \<and>
      desktop_selected w' = desktop_selected w \<and> (\<forall>d. desktop_selected w d \<noteq> b)"
    using desktop_bitmap_fresh live by (auto simp: desktop_api_def desktop_bitmap_def Let_def)
  show "\<forall>d x w old w'. x \<noteq> 0 \<and> gd_select desktop_api d x w = (old, w') \<longrightarrow> dk_live w' = dk_live w \<and>
      (if old = 0 then desktop_selected w' = desktop_selected w
       else old = desktop_selected w d \<and> desktop_selected w' = (desktop_selected w)(d := x)) \<and> (x = 1 \<longrightarrow> old \<noteq> 0)"
    by (auto simp: desktop_api_def desktop_select)
qed (auto simp: desktop_api_def keeps_gdi_def gives_handle_def dest: desktop_handle)

theorem capture_gives_back_witness:
  "\<exists>frame c w. gdi_capture_now desktop_api (\<lambda>s. s)
      \<lparr>gc_source = PrimaryMonitor, gc_queue = latest_queue_new 1, gc_next_frame_id = 1\<rparr>
      \<lparr>dk_live = {#9#}, dk_selected = [], dk_next = 1\<rparr> = (Inr (frame, c), w) \<and> dk_live w = {#9#} \<and>
    cf_storage frame = CpuBytes (replicate 8 7)"
proof -
  have "\<exists>frame c w. gdi_capture_now desktop_api (\<lambda>s. s)
      \<lparr>gc_source = PrimaryMonitor, gc_queue = latest_queue_new 1, gc_next_frame_id = 1\<rparr>
      \<lparr>dk_live = {#9#}, dk_selected = [], dk_next = 1\<rparr> = (Inr (frame, c), w) \<and>
    cf_storage frame = CpuBytes (replicate 8 7)"
    by (simp add: gdi_capture_now_def capture_primary_monitor_def with_screen_dc_def primary_monitor_dimensions_def
        desktop_api_def desktop_handle_def ask_def answer_def io_bind_def io_return_def validate_capture_dimensions_def
        capture_bgra_from_source_dc_def capture_bgra_from_source_region_def capture_bgra_with_memory_dc_def
        bgra_byte_len_def checked_mul_usize_def desktop_bitmap_def desktop_selected_def gdi_frame_def cpu_bgra_def Let_def)
  then show ?thesis using capture_gives_back [OF desktop_documented] by fastforce
qed

section \<open>Windows that are not found\<close>

text \<open>
  A window whose title begins or ends with white space is listed under its trimmed title; looking
  it up asks for that title, which no window has.
\<close>

lemma from_utf16_units:
  assumes "scalar_value c"
  shows "from_utf16_lossy (utf16_units c @ us) = c # from_utf16_lossy us"
proof (cases "c < 0x10000")
  case True
  then have "unat (of_nat c :: u16) = c" by (intro of_nat_unat_le) simp
  with True assms show ?thesis
    by (auto simp: utf16_units_def scalar_value_def word_less_nat_alt word_le_nat_alt)
next
  case False
  let ?d = "c - 0x10000"
  have c: "c = 0x10000 + ?d" "?d < 0x100000" using False assms by (auto simp: scalar_value_def)
  then have hi: "?d div 0x400 < 0x400" by (simp add: div_less_iff_less_mult)
  have "unat (of_nat (0xD800 + ?d div 0x400) :: u16) = 0xD800 + ?d div 0x400"
    using hi by (intro of_nat_unat_le) simp
  moreover have lo: "?d mod 0x400 < 0x400" by simp
  then have "unat (of_nat (0xDC00 + ?d mod 0x400) :: u16) = 0xDC00 + ?d mod 0x400"
    by (intro of_nat_unat_le) simp
  moreover have "?d mod 0x400 \<le> 0x3FF" using lo by linarith
  ultimately show ?thesis
    using False hi c(1) div_mult_mod_eq [of ?d "0x400"]
    by (simp add: utf16_units_def word_less_nat_alt word_le_nat_alt del: of_nat_add)
qed

lemma from_encode_utf16: "list_all scalar_value s \<Longrightarrow> from_utf16_lossy (encode_utf16 s) = s"
  by (induction s) (simp_all add: encode_utf16_def from_utf16_units)

lemma listed_window_not_found:
  assumes "trim t \<noteq> []" and "trim t \<noteq> t" and "list_all scalar_value t" and "length (encode_utf16 t) < 2 ^ 31"
    and "gd_title_length api h w = (of_nat (length (encode_utf16 t)), w)"
    and "\<And>n. gd_title api h n w = ((of_nat (length (encode_utf16 t)), encode_utf16 t), w)"
    and "\<And>text. gd_find_window api text w = (if text = encode_utf16 t @ [0] then h else 0, w)"
  shows "window_title api h w = (Some (trim t), w)"
    and "find_window_by_title api quote (trim t) w =
      (Inl (lit ''could not find a visible window with exact title '' @ quote (trim t)), w)"
proof -
  have "t \<noteq> []" using assms(1) by (auto simp: trim_def trim_start_def trim_end_def)
  then have "encode_utf16 t \<noteq> []" by (cases t) (auto simp: encode_utf16_def utf16_units_def)
  moreover have "sint (of_nat (length (encode_utf16 t)) :: i32) = int (length (encode_utf16 t))"
    using assms(4) by (simp add: signed_of_nat signed_take_bit_int_eq_self)
  moreover have "unat (of_nat (length (encode_utf16 t)) :: i32) = length (encode_utf16 t)"
    using assms(4) by (intro of_nat_unat_le) simp
  ultimately show "window_title api h w = (Some (trim t), w)"
    using assms(1,5,6) from_encode_utf16 [OF assms(3)] by (simp add: window_title_def)
  have "list_all scalar_value (trim t)" using assms(3) set_trim_subset [of t] by (auto simp: list_all_iff)
  then have other: "encode_utf16 (trim t) \<noteq> encode_utf16 t"
    using from_encode_utf16 assms(2,3) by metis
  have "trim (trim t) = trim t" by (rule trim_id [OF assms(1) hd_trim [OF assms(1)] last_trim [OF assms(1)]])
  with other show "find_window_by_title api quote (trim t) w =
      (Inl (lit ''could not find a visible window with exact title '' @ quote (trim t)), w)"
    using other assms(1,7)
    by (simp add: find_window_by_title_def Let_def io_bind_def ask_def wide_null_def io_fail_def)
qed

end
