(* ===== verification/Frame_Window.thy ===== *)
theory Frame_Window
  imports Gdi_Capture "HOL-Library.Multiset"
begin

text \<open>
  The window that shows the stream on Windows: \<open>NativeFrameWindow\<close> of \<open>playback/mod.rs\<close>. The functions
  of user32 and GDI are a parameter, the record \<open>window_api\<close>. Pumping messages is \<open>None\<close> when there is
  always another one. Last, that drawing reads exactly the pixels of a validated frame and gives its
  device context back.
\<close>

section \<open>The operating system\<close>

text \<open>
  \<open>wn_peek\<close> takes a message from the window's queue and \<open>wn_dispatch\<close> translates and dispatches it;
  \<open>wn_stretch\<close> draws pixels into a rectangle and tells how many lines it has copied.
\<close>

record 'w window_api =
  wn_process :: nat
  wn_now :: "'w \<Rightarrow> u64 \<times> 'w"
  wn_module :: "'w \<Rightarrow> nat \<times> 'w"
  wn_register :: "u16 list \<Rightarrow> 'w \<Rightarrow> bool \<times> 'w"
  wn_create :: "u16 list \<Rightarrow> u16 list \<Rightarrow> i32 \<Rightarrow> i32 \<Rightarrow> 'w \<Rightarrow> nat \<times> 'w"
  wn_show :: "nat \<Rightarrow> 'w \<Rightarrow> 'w"
  wn_peek :: "nat \<Rightarrow> 'w \<Rightarrow> bool \<times> 'w"
  wn_dispatch :: "'w \<Rightarrow> 'w"
  wn_resize :: "nat \<Rightarrow> i32 \<Rightarrow> i32 \<Rightarrow> 'w \<Rightarrow> 'w"
  wn_client_rect :: "nat \<Rightarrow> 'w \<Rightarrow> rect option \<times> 'w"
  wn_get_dc :: "nat \<Rightarrow> 'w \<Rightarrow> nat \<times> 'w"
  wn_stretch_mode :: "nat \<Rightarrow> 'w \<Rightarrow> 'w"
  wn_stretch :: "nat \<Rightarrow> i32 \<times> i32 \<Rightarrow> i32 \<times> i32 \<Rightarrow> bytes \<Rightarrow> bitmap_header \<Rightarrow> 'w \<Rightarrow> i32 \<times> 'w"
  wn_release_dc :: "nat \<Rightarrow> nat \<Rightarrow> 'w \<Rightarrow> 'w"
  wn_destroy :: "nat \<Rightarrow> 'w \<Rightarrow> 'w"

record frame_window =
  fw_hwnd :: nat
  fw_class_name :: "u16 list"
  fw_width :: i32
  fw_height :: i32

section \<open>The window\<close>

definition frame_window_new :: "'w window_api \<Rightarrow> rstring \<Rightarrow> (frame_window, 'w) gdi_io" where
  "frame_window_new api title =
     io_bind (ask (wn_now api)) (\<lambda>now.
     let class_name = wide_null (lit ''TeamViewFrameWindow-'' @ dec (wn_process api) @ lit ''-'' @ dec (unat now));
         title = wide_null title;
         width = MIN_WINDOW_RENDER_WIDTH; height = MIN_WINDOW_RENDER_WIDTH * 9 div 16 in
     io_bind (ask (wn_module api)) (\<lambda>hinstance.
     if hinstance = 0 then io_fail (lit ''failed to get current module handle for render window'')
     else
       io_bind (ask (wn_register api class_name)) (\<lambda>registered.
       if \<not> registered then io_fail (lit ''failed to register render window class'')
       else
         io_bind (ask (wn_create api class_name title width height)) (\<lambda>hwnd.
         if hwnd = 0 then io_fail (lit ''failed to create render window'')
         else
           io_then (tell (wn_show api hwnd))
             (io_return \<lparr>fw_hwnd = hwnd, fw_class_name = class_name, fw_width = width, fw_height = height\<rparr>)))))"

partial_function (option) pump_messages :: "'w window_api \<Rightarrow> nat \<Rightarrow> 'w \<Rightarrow> 'w option" where
  "pump_messages api hwnd w =
     (case wn_peek api hwnd w of
        (waiting, w) \<Rightarrow> if waiting then pump_messages api hwnd (wn_dispatch api w) else Some w)"

definition bitmap_info_for_frame :: "decoded_frame \<Rightarrow> bitmap_header" where
  "bitmap_info_for_frame frame =
     \<lparr>bi_width = df_width frame, bi_height = - df_height frame,
      bi_size_image = of_nat (min (length (df_pixels frame)) 4294967295)\<rparr>"

definition at_least_one :: "i32 \<Rightarrow> i32" where
  "at_least_one x = (if sint x < 1 then 1 else x)"

text \<open>The part of \<open>render\<close> between the two rounds of messages.\<close>

definition frame_window_draw ::
  "'w window_api \<Rightarrow> decoded_frame \<Rightarrow> frame_window \<Rightarrow> 'w \<Rightarrow> (rstring + unit) \<times> frame_window \<times> 'w" where
  "frame_window_draw api frame fw w =
     (let (target_width, target_height) = display_size_for_frame (df_width frame) (df_height frame);
          size = (of_nat target_width, of_nat target_height);
          (fw, w) =
            (if size \<noteq> (fw_width fw, fw_height fw)
             then (fw\<lparr>fw_width := fst size, fw_height := snd size\<rparr>, wn_resize api (fw_hwnd fw) (fst size) (snd size) w)
             else (fw, w));
          (rect, w) = wn_client_rect api (fw_hwnd fw) w;
          dest = (case rect of
              None \<Rightarrow> size
            | Some r \<Rightarrow> (at_least_one (rc_right r - rc_left r), at_least_one (rc_bottom r - rc_top r)));
          (window_dc, w) = wn_get_dc api (fw_hwnd fw) w
      in if window_dc = 0 then (Inl (lit ''failed to acquire render window device context''), fw, w)
         else
           let w = wn_stretch_mode api window_dc w;
               (lines, w) = wn_stretch api window_dc dest (df_width frame, df_height frame) (df_pixels frame)
                 (bitmap_info_for_frame frame) w;
               w = wn_release_dc api (fw_hwnd fw) window_dc w
           in (if lines = 0 then Inl (lit ''failed to draw decoded frame into render window'') else Inr (), fw, w))"

definition frame_window_render ::
  "'w window_api \<Rightarrow> decoded_frame \<Rightarrow> frame_window \<Rightarrow> 'w \<Rightarrow> ((rstring + unit) \<times> frame_window \<times> 'w) option" where
  "frame_window_render api frame fw w =
     (case pump_messages api (fw_hwnd fw) w of
        None \<Rightarrow> None
      | Some w \<Rightarrow>
          case frame_window_draw api frame fw w of
            (Inl e, fw, w) \<Rightarrow> Some (Inl e, fw, w)
          | (Inr _, fw, w) \<Rightarrow> map_option (\<lambda>w. (Inr (), fw, w)) (pump_messages api (fw_hwnd fw) w))"

definition frame_window_drop :: "'w window_api \<Rightarrow> frame_window \<Rightarrow> 'w \<Rightarrow> 'w" where
  "frame_window_drop api fw w = wn_destroy api (fw_hwnd fw) w"

section \<open>Drawing\<close>

text \<open>Messages that come to an end are pumped.\<close>

lemma pump_ends:
  assumes "\<And>w w'. wn_peek api hwnd w = (True, w') \<Longrightarrow> (m (wn_dispatch api w') :: nat) < m w"
  shows "\<exists>w'. pump_messages api hwnd w = Some w'"
proof (induction "m w" arbitrary: w rule: less_induct)
  case less
  show ?case
  proof (cases "wn_peek api hwnd w")
    case (Pair waiting w1)
    then show ?thesis using less [of "wn_dispatch api w1"] assms by (subst pump_messages.simps) auto
  qed
qed

text \<open>
  For a frame that playback has validated, the header describes a picture from top to bottom whose
  size is the length of the pixels, so that drawing reads what the frame holds.
\<close>

lemma drawn_pixels_match:
  assumes "validate_bgra_frame frame = Inr n" and "df_height frame \<noteq> 0"
  defines "h \<equiv> bitmap_info_for_frame frame"
  shows "sint (bi_width h) * - sint (bi_height h) * 4 = int (length (df_pixels frame)) \<and>
    unat (bi_size_image h) = length (df_pixels frame)"
proof -
  let ?w = "unat (df_width frame)" and ?h = "unat (df_height frame)"
  have n: "?w * ?h * 4 < 2 ^ 32" "length (df_pixels frame) = ?w * ?h * 4"
    using assms(1) by (auto simp: validate_bgra_frame_def Let_def not_le ac_simps split: if_splits)
  have h: "1 \<le> ?h" using assms(2) by (simp add: Suc_le_eq unat_gt_0)
  have image: "unat (bi_size_image h) = length (df_pixels frame)"
  proof -
    have "length (df_pixels frame) < 2 ^ 32" using n by linarith
    then have "unat (of_nat (length (df_pixels frame)) :: u32) = length (df_pixels frame)"
      "min (length (df_pixels frame)) 4294967295 = length (df_pixels frame)"
      by (auto intro!: of_nat_unat_le)
    then show ?thesis by (simp add: h_def bitmap_info_for_frame_def)
  qed
  have signed: "sint x = int (unat x)" "sint (- x) = - int (unat x)" if "unat x < 2 ^ 30" for x :: i32
  proof -
    have "int (unat x) < int (2 ^ 30)" using that by (simp only: of_nat_less_iff)
    then have u: "uint x < 2 ^ 30" unfolding uint_nat by (simp only: of_nat_power of_nat_numeral)
    have p: "0 \<le> uint x" by (rule uint_ge_0)
    have "(2::int) ^ 30 < 2 ^ 31" "(0::int) < 2 ^ 31" by simp_all
    then have b: "- (2 ^ 31) \<le> uint x" "uint x < 2 ^ 31" "- (2 ^ 31) \<le> - uint x" "- uint x < 2 ^ 31"
      using u p by linarith+
    note fits = signed_take_bit_int_eq_self [OF b(1,2)] signed_take_bit_int_eq_self [OF b(3,4)]
    show "sint x = int (unat x)" using fits(1) by (simp add: sint_uint)
    have m: "- x = word_of_int (- uint x)" by simp
    show "sint (- x) = - int (unat x)"
      using fits(2) by (subst m) (simp only: signed_of_int, simp)
  qed
  show ?thesis
  proof (cases "?w = 0")
    case True
    then have "df_width frame = 0" by (simp add: unat_eq_0)
    then show ?thesis using image n by (simp add: h_def bitmap_info_for_frame_def)
  next
    case False
    have le: "?w \<le> ?w * ?h" "?h \<le> ?w * ?h" using False h by simp_all
    have lt: "?w * ?h < 2 ^ 30" using n(1) by (simp add: mult.commute)
    note fits = le_less_trans [OF le(1) lt] le_less_trans [OF le(2) lt]
    show ?thesis using image n signed(1) [OF fits(1)] signed(2) [OF fits(2)]
      by (simp add: h_def bitmap_info_for_frame_def)
  qed
qed

text \<open>A device context is given back on every path.\<close>

lemma draw_gives_back:
  assumes "\<And>h w. live (snd (wn_client_rect api h w)) = live w"
    and "\<And>h x y w. live (wn_resize api h x y w) = live w" and "\<And>h w. live (wn_stretch_mode api h w) = live w"
    and "\<And>dc d s ps b w. live (snd (wn_stretch api dc d s ps b w)) = live w"
    and "\<And>h w. live (snd (wn_get_dc api h w)) =
      (if fst (wn_get_dc api h w) = 0 then live w else add_mset (fst (wn_get_dc api h w)) (live w))"
    and "\<And>h dc w. live (wn_release_dc api h dc w) = live w - {#dc#}"
  shows "live (snd (snd (frame_window_draw api frame fw w))) = live w"
  using assms by (simp add: frame_window_draw_def Let_def split_beta)

end
