(* ===== verification/Spec2Isabelle.thy ===== *)
theory Spec2Isabelle
  imports Frame Router Control_Props Media_Props Relay_View
    Client_Stats Client_App Remote_Input Clock_Sync Pipeline Client_Served Ui_On_Relay Load_Delivered
    Wave_Recording Wave_Playing Gdi_Props Frame_Window
begin

text \<open>
  \<^bold>\<open>TeamView: a screen and voice sharing system over a relay\<close>

  The program. Desktop clients capture, encode and packetize screen frames and voice, and send them
  as QUIC datagrams to a relay server, which forwards them to the viewers of the stream; rooms,
  streams, subscriptions, voice states, publisher feedback and remote input go through control
  messages, one per QUIC stream. \<open>src/crates/protocol\<close> holds the wire formats that both sides
  share, \<open>src/crates/relay-server\<close> the relay, \<open>src/crates/desktop-client\<close> the client.

  \<^bold>\<open>What models what\<close>

  Protocol.
  \<^item> \<open>Byte_Buf\<close>: big-endian byte buffers, as \<open>bytes::Buf\<close> and \<open>BufMut\<close> read and write them; a read
    past the end is \<open>None\<close>, which the callers turn into a panic. The contract of a field codec is the
    locale \<open>field_codec\<close>, interpreted for the four widths.
  \<^item> \<open>Packet\<close>: \<open>packet.rs\<close> and \<open>codec.rs\<close>, the media packet and its header. A result is
    \<open>Inl Panic\<close>, \<open>Inl (Err e)\<close> or \<open>Inr\<close>.
  \<^item> \<open>Frame\<close>: \<open>frame.rs\<close>, cutting encoded frames into packets and putting them together again.
  \<^item> \<open>Control_Msg\<close>: \<open>control.rs\<close> of the protocol, every message as a record and the two message
    enums as datatypes, envelopes and their line framing, and the records of \<open>stats.rs\<close>. The JSON
    text itself is serde's: a parameter with the contract \<open>json_codec\<close>, that it reads back what it
    writes.

  Relay.
  \<^item> \<open>BTree_Map\<close>: the ordered maps that the relay keeps its state in, as a type of key-sorted
    association lists, with the contract \<open>ordered_map\<close>.
  \<^item> \<open>Room\<close>: \<open>room.rs\<close> and \<open>session.rs\<close>. \<open>Metrics\<close>: \<open>metrics.rs\<close>, with the ring of latency
    samples. \<open>Router\<close>: \<open>router.rs\<close>, viewer queues with a media-time budget (the contract
    \<open>budgeted_fifo\<close>) and the fan-out over them.
  \<^item> \<open>Control_State\<close>, \<open>Control_Ops\<close>: \<open>control.rs\<close> of the relay. The record \<open>control_state\<close> has the
    fields of \<open>ControlState\<close>; \<open>handle_client_envelope\<close> is the whole handler, one definition per arm
    and per method, every reply and error included. Readings of the clock are arguments.
  \<^item> \<open>Media\<close>: \<open>media.rs\<close>, the viewers' egress queues with their depth accounting, the forwarding of
    a packet to the subscribers and the send task. The channel of tokio is a parameter, its
    documented behaviour the contract \<open>mpsc_spec\<close>, which a bounded list satisfies
    (\<open>list_channel\<close>).
  \<^item> \<open>Runtime\<close>: \<open>control_stream.rs\<close>, \<open>config.rs\<close> and \<open>main.rs\<close>. \<open>sys_step\<close> is the transition
    relation of the relay: connections, control tasks, media datagrams, send tasks and the three
    steps of a connection's end, in any interleaving that the locks allow. One simplification: the
    queue depth that a metrics reply carries is read in the step that handles the message, where
    the code takes the locks a second time.
  \<^item> \<open>Relay_View\<close>: the specification of the relay as an abstract machine, \<open>view_step\<close>, on visitors,
    memberships, streams, viewers and mailboxes, and the view \<open>view_of\<close> of a running relay.

  Desktop client.
  \<^item> \<open>Client_Lib\<close>: what the client uses of Rust's iterators (the first least and the last greatest
    element by a key). \<open>Le_Bytes\<close>: little-endian fields, checked ranges and padding loops.
  \<^item> \<open>Annex_B\<close>, \<open>H264\<close>, \<open>H264_Props\<close>, \<open>Video\<close>: \<open>encode/h264.rs\<close>, \<open>decode/h264.rs\<close> and
    \<open>playback/mod.rs\<close>, the synthetic codec with its byte stream, the choice of backends, and the
    validation and recording of pictures. What the operating system offers is a parameter.
  \<^item> \<open>Capture\<close>, \<open>Audio\<close>: \<open>capture/mod.rs\<close>, \<open>audio.rs\<close>, \<open>audio_capture.rs\<close>, frames of pixels and of
    samples, resizing, the voice codec, the queues that keep the latest frames.
  \<^item> \<open>Reassembly\<close>: \<open>decode/mod.rs\<close>, the jitter buffer that puts frames together.
  \<^item> \<open>Client_Stats\<close>: \<open>stats.rs\<close>. \<open>Client_App\<close>: \<open>app.rs\<close>, the state behind the user interface.
    \<open>Remote_Input\<close>: \<open>remote_input.rs\<close>.
  \<^item> \<open>main.rs\<close>: \<open>Clock_Sync\<close>, the clock synchronisation; \<open>Client_Args\<close>, the command line;
    \<open>Publisher_Adapt\<close>, how publishers follow feedback; \<open>Client_Io\<close>, operations with effects on a
    world that is a parameter (the record \<open>client_env\<close>: exchanges, datagrams, clocks, devices) and
    the control client of \<open>transport/quic.rs\<close>; \<open>Client_Control\<close>, the control requests and the choice
    of rooms and streams; \<open>Viewer_Media\<close> and \<open>Viewer_Loops\<close>, what a viewer does with a packet and its
    loops; \<open>Broadcaster\<close>, the media loops of screen and voice with the portable part of
    \<open>capture/windows.rs\<close>; \<open>Client_Flows\<close>, the program from the greeting to leaving the room. A loop
    is \<open>io_loop\<close>, \<open>None\<close> when it never ends.
  \<^item> The client on Windows, over an operating system that is a parameter. \<open>Wave_In\<close>,
    \<open>Wave_Recording\<close>: the recording through WinMM of \<open>audio_capture.rs\<close>, with a driver that fills
    queued buffers, discards sound while none is queued and any of whose calls may fail. \<open>Wave_Out\<close>, \<open>Wave_Playing\<close>: the playing of \<open>audio.rs\<close>, with a driver any of
    whose calls may fail. \<open>Gdi_Capture\<close>, \<open>Gdi_Props\<close>: \<open>capture/windows.rs\<close>, monitors, windows and their
    pixels. \<open>Frame_Window\<close>: the window of \<open>playback/mod.rs\<close>.
  \<^item> \<open>Client_World\<close>: what an operation of the client keeps of its world, with the contract
    \<open>visitor_world\<close>; \<open>Client_On_Relay\<close> and \<open>Client_Served\<close>: client and relay composed, the world being
    the relay's control state, the client's session and an outside.
  \<^item> \<open>Ui_Http\<close>, \<open>Ui_Server\<close>: the local server behind the user interface in \<open>main.rs\<close>, reading and
    answering requests over UTF-8, and the state \<open>UiServerState\<close> with its media tasks. The pages, JSON,
    and how a task ends are parameters (the record \<open>ui_env\<close>). \<open>Ui_Props\<close>: its invariant, by Hoare
    triples; \<open>Ui_On_Relay\<close>: the server composed with the relay.
  \<^item> \<open>Load_Test\<close>, \<open>Load_Quic\<close>: the load test, in the process and over QUIC. \<open>Load_Props\<close> and
    \<open>Load_Forward\<close>: what its runs count. \<open>Load_Codec\<close>, \<open>Load_Net\<close>, \<open>Load_On_Relay\<close>,
    \<open>Load_Delivered\<close>: its run over QUIC composed with the relay's runtime on a network that loses
    and delays nothing.
  \<^item> \<open>Pipeline\<close>: the way of a frame from the encoder through datagrams and the jitter buffer to the
    decoder.

  \<^bold>\<open>What is shown\<close>

  \<^item> Wire formats: round trips of packets, frames and envelopes, absence of panics, soundness of
    what is decoded or reassembled, bounds of the datagrams' size, the exact outcome of packetizing.
  \<^item> Control core (\<open>Control_Inv\<close>, \<open>Control_Preserve\<close>): the invariant \<open>wf_state\<close> (streams and
    subscriptions live in rooms with participants, stream ids are unique over all rooms, targets are
    in range, queues bounded, names clean, no state of streams that do not exist) and its
    preservation by every message. \<open>Control_Access\<close>: nobody changes what belongs to others, nothing
    happens without access, disconnecting is complete. \<open>Control_Names\<close>: sanitizing.
    \<open>Control_Target\<close>: the adaptation of targets descends and ends. \<open>Control_Props\<close>: remote input
    and publisher feedback.
  \<^item> Media path (\<open>Media_Props\<close>): each egress is a FIFO within its budget, a packet reaches exactly
    the viewers that may hear it, unchanged but for the relay's time stamps.
  \<^item> Runtime (\<open>Runtime_Props\<close>): the invariant holds in every reachable state; who may stay behind when
    connections end, and that nothing removes it later. \<open>Relay_View\<close>: every step of the relay is a
    step of the abstract machine, so that it changes the part of one user only, that of the visitor
    who takes it.

  \<^item> Client: round trips of the byte stream, of previews, of voice and of typed text; every picture
    the decoder emits can be shown; a frame whose packets arrive is delivered and the jitter buffer
    is bounded; losses, clock offsets and latencies are measured right; the state behind the user
    interface is consistent.
  \<^item> Client and relay: a viewer leaves everything it entered, disturbs nobody, and gets the replies it
    expects; which configurations a publisher can publish. The user interface server reads requests
    however they are cut, keeps its state consistent, and in one error path drops the user's voice.
  \<^item> Load test: what each of its runs in the process counts or which error it ends with, for all
    arguments; its run over QUIC succeeds against the relay and counts every frame of every viewer.
  \<^item> Windows: recording hands out every recorded piece once unless a call fails, in order while the
    reader keeps up, and out of order in a case that is characterised; no memory is released that the
    speaker plays from while it plays, and on dropping the player exactly when its reset fails;
    capturing and drawing give back what they take from GDI.

  \<^bold>\<open>Bounds\<close>

  The invariant of the runtime is stated for runs of fewer than \<open>2 ^ 64 - 1\<close> steps: each step takes
  at most one id from each of the 64-bit counters, so ids are not used twice in such a run. The
  queue theorems ask for a capacity below \<open>2 ^ 32 - 2\<close> and a budget below 65535 ms, beyond which the
  saturating counters of the code lose count; the theorem \<open>full_budget_never_drops\<close> shows what
  happens at that budget. No definition uses fuel: a loop that may run for ever has the result
  \<open>None\<close> then (\<open>io_loop\<close>, \<open>pump_messages\<close>), all others are structural.

  \<^bold>\<open>Not modelled\<close>

  \<open>transport.rs\<close> on both sides (building the QUIC endpoints) and the load test's endpoints with
  their certificate verifier, which only call quinn and rustls; logging and printing; the poisoning
  of mutexes, which would take a panic while one is held. Of the desktop client, the probe of Media
  Foundation, which only calls COM, and clap's parser.
\<close>

end
